(* ===== verification/Prelude.thy ===== *)
theory Prelude
  imports Main "HOL-Library.Word"
begin

text \<open>
  The shared layer of the development: the machine integers of the C code, its error numbers,
  pointers that the code compares with NULL, and the generic facts on words, lists and
  circular indices that the component theories use.

  \<^item> \<open>u8\<close>, \<open>u16\<close>, \<open>u32\<close>, \<open>u64\<close> are the fixed-width unsigned integers; \<open>+\<close>, \<open>-\<close> and \<open>*\<close> wrap.
  \<^item> A function that returns 0 or a negative errno returns \<open>'a res\<close>: \<open>Inl e\<close> for \<open>-e\<close>,
    \<open>Inr x\<close> for success with what it stored through its output pointers.
  \<^item> \<open>'a ptr\<close> is a pointer the code tests for NULL; \<open>None\<close> is NULL.
\<close>

unbundle bit_operations_syntax

section \<open>Types\<close>

type_synonym u8 = "8 word"
type_synonym u16 = "16 word"
type_synonym u32 = "32 word"
type_synonym u64 = "64 word"
type_synonym s32 = "32 word"

datatype errno =
    EINVAL | ENOSPC | EMSGSIZE | ENODATA | EEXIST | ENOENT | EALREADY | EBUSY | ENODEV
  | EXDEV | ENAMETOOLONG | ENOMEM | EPROTO | ETIMEDOUT | ENOTCONN | EIO | EOPNOTSUPP
  | EAGAIN | ESHUTDOWN | EPIPE | ECANCELED | ERANGE | EPERM | EPROBE_DEFER | EFAULT | ECONNRESET | ENOTSUPP | ENXIO | E2BIG | ESTALE | EACCES

type_synonym 'a res = "errno + 'a"
type_synonym 'a ptr = "'a option"

abbreviation U32_MAX :: u32 where "U32_MAX \<equiv> - 1"

section \<open>Collections of facts\<close>

named_theorems wire_simps \<open>reads and writes of wire fields\<close>
named_theorems invs \<open>preservation of component invariants\<close>

section \<open>Results\<close>

fun is_ok :: "'a res \<Rightarrow> bool" where
  "is_ok (Inl e) = False"
| "is_ok (Inr x) = True"

lemma is_ok_iff: "is_ok r \<longleftrightarrow> (\<exists>x. r = Inr x)"
  by (cases r) auto

section \<open>Words\<close>

lemma unat_less_2p32: "unat (x :: u32) < 4294967296"
  using unsigned_less [of x, where ?'a = nat] by simp

lemma unat_add_u32:
  "unat (a :: u32) + unat b < 4294967296 \<Longrightarrow> unat (a + b) = unat a + unat b"
  by (simp add: unat_word_ariths)

lemma unat_sub_u32: "b \<le> a \<Longrightarrow> unat ((a :: u32) - b) = unat a - unat b"
  by (simp add: unat_sub)

lemma unat_Suc_u32: "(a :: u32) < b \<Longrightarrow> unat (a + 1) = Suc (unat a)"
  proof -
  assume "a < b"
  then have "unat a + 1 < 4294967296"
    using unat_less_2p32 [of b] by (simp add: word_less_nat_alt)
  then show ?thesis by (simp add: unat_word_ariths)
qed

lemma unat_mult_u32:
  "unat (a :: u32) * unat b < 4294967296 \<Longrightarrow> unat (a * b) = unat a * unat b"
  by (simp add: unat_word_ariths)

lemma word_eq_of_nat: "unat (w :: u32) = n \<Longrightarrow> w = of_nat n"
  by auto

lemma unat_pred_u32: "(b :: u32) \<noteq> 0 \<Longrightarrow> unat (b - 1) = unat b - 1"
  by (metis unat_1 unat_gt_0 unat_sub word_le_nat_alt Suc_leI One_nat_def)

lemma unat_clamp: "unat (if r > m then m else r) = min (unat m) (unat (r :: u32))"
  by (simp add: word_less_nat_alt min_def)

text \<open>
  The rounding-up division \<open>(total + unit - 1) / unit\<close> of 32-bit values, as the fragment
  counters compute it. When the sum wraps around, the quotient is 0: it never passes for a
  smaller, plausible count.
\<close>

definition div_round_up_u32 :: "u32 \<Rightarrow> u32 \<Rightarrow> u32" where
  "div_round_up_u32 tot sz = (tot + sz - 1) div sz"

lemma div_round_up_wraps:
  assumes "sz \<noteq> 0" and "4294967296 < unat tot + unat sz"
  shows "div_round_up_u32 tot sz = 0"
proof -
  have u: "0 < unat sz" using assms(1) by (simp add: unat_gt_0)
  have lt: "unat tot < 4294967296" "unat sz < 4294967296" by (rule unat_less_2p32)+
  have "unat (tot + sz - 1) = (unat tot + unat sz - 1) - 4294967296"
  proof -
    have s: "unat (tot + sz) = unat tot + unat sz - 4294967296"
      using assms(2) lt by (simp add: unat_plus_if')
    then have "1 \<le> tot + sz"
      using assms(2) by (simp add: word_le_nat_alt)
    then show ?thesis
      using s by (simp add: unat_sub)
  qed
  then have "unat (tot + sz - 1) < unat sz"
    using lt u by simp
  then show ?thesis
    by (simp add: div_round_up_u32_def word_arith_nat_div)
qed

lemma div_round_up_exact:
  assumes "sz \<noteq> 0" and "unat tot + unat sz \<le> 4294967296" and "tot \<noteq> 0"
  shows "unat (div_round_up_u32 tot sz) = (unat tot + unat sz - 1) div unat sz"
proof -
  have u: "0 < unat sz" and t: "0 < unat tot"
    using assms(1,3) by (simp_all add: unat_gt_0)
  have one: "1 \<le> sz" using u by (simp add: word_le_nat_alt)
  have "unat (sz - 1) = unat sz - 1" using one by (simp add: unat_sub)
  then have "unat (tot + (sz - 1)) = unat tot + (unat sz - 1)"
    using assms(2) u by (simp add: unat_word_ariths)
  moreover have "tot + (sz - 1) = tot + sz - 1" by simp
  ultimately have "unat (tot + sz - 1) = unat tot + unat sz - 1"
    using u by simp
  then show ?thesis
    by (simp add: div_round_up_u32_def unat_div)
qed

text \<open>A non-zero quotient is the true number of units, without overflow.\<close>

lemma div_round_up_nonzero:
  assumes "sz \<noteq> 0" and "tot \<noteq> 0" and "div_round_up_u32 tot sz \<noteq> 0"
  shows "unat tot \<le> unat (div_round_up_u32 tot sz) * unat sz"
    and "(unat (div_round_up_u32 tot sz) - 1) * unat sz < unat tot"
proof -
  have le: "unat tot + unat sz \<le> 4294967296"
    using div_round_up_wraps [OF assms(1), of tot] assms(3) by linarith
  have u: "0 < unat sz" using assms(1) by (simp add: unat_gt_0)
  have t: "0 < unat tot" using assms(2) by (simp add: unat_gt_0)
  let ?q = "(unat tot + unat sz - 1) div unat sz"
  have q: "unat (div_round_up_u32 tot sz) = ?q"
    by (rule div_round_up_exact [OF assms(1) le assms(2)])
  have m: "?q * unat sz + (unat tot + unat sz - 1) mod unat sz
      = unat tot + unat sz - 1"
    by simp
  have r: "(unat tot + unat sz - 1) mod unat sz < unat sz" using u by simp
  show "unat tot \<le> unat (div_round_up_u32 tot sz) * unat sz"
    unfolding q using m r u by linarith
  have "?q * unat sz \<le> unat tot + unat sz - 1" using m by linarith
  then show "(unat (div_round_up_u32 tot sz) - 1) * unat sz < unat tot"
    unfolding q diff_mult_distrib using u t by linarith
qed

section \<open>Lists\<close>

lemma nth_list_update_if:
  "j < length xs \<Longrightarrow> xs[i := v] ! j = (if i = j then v else xs ! j)"
  by (cases "i = j") auto

lemma find_Some_iff_set: "find P xs = Some x \<Longrightarrow> P x \<and> x \<in> set xs"
  by (auto simp: find_Some_iff)

text \<open>Results mapped through an abstraction.\<close>

lemma map_sum_eq_Inr [simp]: "map_sum f g x = Inr y \<longleftrightarrow> (\<exists>z. x = Inr z \<and> y = g z)"
  by (cases x) auto

lemma map_sum_eq_Inl [simp]: "map_sum f g x = Inl y \<longleftrightarrow> (\<exists>z. x = Inl z \<and> y = f z)"
  by (cases x) auto

lemma find_map_index: "find P (map f xs) = map_option f (find (P \<circ> f) xs)"
  by (induction xs) auto

lemma complement_mod:
  assumes "(x + y) mod m = 0" and "x < m" and "y < m" and "0 < y"
  shows "x = m - (y :: nat)"
proof -
  have "m \<le> x + y" using assms by (metis add_eq_0_iff_both_eq_0 less_irrefl mod_less not_le)
  moreover have "x + y - m < m" using assms by simp
  ultimately have "x + y - m = 0" using assms by (metis le_mod_geq mod_less)
  then show ?thesis using \<open>m \<le> x + y\<close> by simp
qed

text \<open>Lists of entries with distinct keys.\<close>

lemma distinct_key_remove1:
  "distinct (map f xs) \<Longrightarrow> distinct (map f (remove1 x xs))"
  by (auto simp: distinct_map intro: inj_on_subset)

lemma find_key_remove1:
  assumes "distinct (map f xs)" and "x \<in> set xs"
  shows "find (\<lambda>y. f y = k) (remove1 x xs) = (if k = f x then None else find (\<lambda>y. f y = k) xs)"
  using assms
proof (induction xs)
  case (Cons y ys)
  show ?case
  proof (cases "x = y")
    case True
    have "f y \<notin> f ` set ys" using Cons.prems(1) by simp
    with True have "find (\<lambda>z. f z = f x) ys = None" unfolding find_None_iff by (metis image_eqI)
    then show ?thesis using True by simp
  next
    case False
    then show ?thesis using Cons by auto
  qed
qed simp

end
