(* ===== verification/Wire.thy ===== *)
theory Wire
  imports Prelude
begin

text \<open>
  \<^verbatim>\<open>src/proto/native_wire.h\<close>: the little-endian accessors, the XDomain header and the HELLO
  family of control messages. A byte buffer is a list of bytes whose length is the \<open>size\<close>
  argument of the C functions; a C pointer into it is the pair of the buffer and an offset.

  The locale \<open>wire_field\<close> states what a client of an accessor pair relies on: a write keeps
  the length and every byte outside the field, a read after a write returns the value, and a
  read depends on the bytes of its field only. It is interpreted on every accessor pair, and
  \<open>wire_fields\<close> derives from two such pairs that accesses to disjoint fields commute, which
  carries the round trip of the messages.
\<close>

section \<open>Bytes\<close>

fun put_bytes :: "u8 list \<Rightarrow> nat \<Rightarrow> u8 list \<Rightarrow> u8 list" where
  "put_bytes b p [] = b"
| "put_bytes b p (x # xs) = put_bytes (b[p := x]) (Suc p) xs"

definition get_bytes :: "nat \<Rightarrow> u8 list \<Rightarrow> nat \<Rightarrow> u8 list" where
  "get_bytes n b p = map (\<lambda>i. b ! (p + i)) [0..<n]"

definition memset_zero :: "u8 list \<Rightarrow> nat \<Rightarrow> nat \<Rightarrow> u8 list" where
  "memset_zero b p n = put_bytes b p (replicate n 0)"

section \<open>Accessors\<close>

definition tbv_wire_put_le16 :: "u8 list \<Rightarrow> nat \<Rightarrow> u16 \<Rightarrow> u8 list" where
  "tbv_wire_put_le16 b p value =
     b[p := ucast (value AND 0xff), p + 1 := ucast (drop_bit 8 value)]"

definition tbv_wire_put_le32 :: "u8 list \<Rightarrow> nat \<Rightarrow> u32 \<Rightarrow> u8 list" where
  "tbv_wire_put_le32 b p value =
     b[p := ucast (value AND 0xff),
       p + 1 := ucast (drop_bit 8 value AND 0xff),
       p + 2 := ucast (drop_bit 16 value AND 0xff),
       p + 3 := ucast (drop_bit 24 value)]"

definition tbv_wire_put_le64 :: "u8 list \<Rightarrow> nat \<Rightarrow> u64 \<Rightarrow> u8 list" where
  "tbv_wire_put_le64 b p value =
     tbv_wire_put_le32 (tbv_wire_put_le32 b p (ucast (value AND 0xffffffff)))
       (p + 4) (ucast (drop_bit 32 value))"

definition tbv_wire_get_le16 :: "u8 list \<Rightarrow> nat \<Rightarrow> u16" where
  "tbv_wire_get_le16 b p = ucast (b ! p) OR push_bit 8 (ucast (b ! (p + 1)))"

definition tbv_wire_get_le32 :: "u8 list \<Rightarrow> nat \<Rightarrow> u32" where
  "tbv_wire_get_le32 b p =
     ucast (b ! p) OR push_bit 8 (ucast (b ! (p + 1)))
       OR push_bit 16 (ucast (b ! (p + 2))) OR push_bit 24 (ucast (b ! (p + 3)))"

definition tbv_wire_get_le64 :: "u8 list \<Rightarrow> nat \<Rightarrow> u64" where
  "tbv_wire_get_le64 b p =
     ucast (tbv_wire_get_le32 b p) OR push_bit 32 (ucast (tbv_wire_get_le32 b (p + 4)))"

section \<open>The contract of a field accessor\<close>

locale wire_field =
  fixes put :: "u8 list \<Rightarrow> nat \<Rightarrow> 'v \<Rightarrow> u8 list"
    and get :: "u8 list \<Rightarrow> nat \<Rightarrow> 'v"
    and width :: nat
    and ok :: "'v \<Rightarrow> bool"
  assumes length_put: "length (put b p v) = length b"
    and nth_put_outside: "ok v \<Longrightarrow> i < p \<or> p + width \<le> i \<Longrightarrow> put b p v ! i = b ! i"
    and get_put: "ok v \<Longrightarrow> p + width \<le> length b \<Longrightarrow> get (put b p v) p = v"
    and get_local: "(\<And>i. p \<le> i \<Longrightarrow> i < p + width \<Longrightarrow> b ! i = b' ! i) \<Longrightarrow> get b p = get b' p"
begin

lemma put_injective:
  assumes "ok v" and "ok v'" and "p + width \<le> length b" and "put b p v = put b p v'"
  shows "v = v'"
  using assms get_put by metis

end

locale wire_fields = f: wire_field put get width ok + g: wire_field put' get' width' ok'
  for put :: "u8 list \<Rightarrow> nat \<Rightarrow> 'v \<Rightarrow> u8 list" and get width ok
    and put' :: "u8 list \<Rightarrow> nat \<Rightarrow> 'w \<Rightarrow> u8 list" and get' width' ok'
begin

lemma get_put_disjoint:
  assumes "ok v" and "q + width' \<le> p \<or> p + width \<le> q"
  shows "get' (put b p v) q = get' b q"
proof (rule g.get_local)
  fix i assume "q \<le> i" "i < q + width'"
  with assms(2) have "i < p \<or> p + width \<le> i" by linarith
  with assms(1) show "put b p v ! i = b ! i" by (rule f.nth_put_outside)
qed

end

section \<open>The accessors satisfy the contract\<close>

lemma length_put_bytes: "length (put_bytes b p xs) = length b"
  by (induction b p xs rule: put_bytes.induct) auto

lemma nth_put_bytes_outside: "i < p \<or> p + length xs \<le> i \<Longrightarrow> put_bytes b p xs ! i = b ! i"
  by (induction b p xs rule: put_bytes.induct) auto

lemma nth_put_bytes_inside:
  "p + length xs \<le> length b \<Longrightarrow> i < length xs \<Longrightarrow> put_bytes b p xs ! (p + i) = xs ! i"
proof (induction b p xs arbitrary: i rule: put_bytes.induct)
  case (2 b p x xs)
  show ?case
  proof (cases i)
    case 0
    with 2 show ?thesis by (simp add: nth_put_bytes_outside)
  next
    case (Suc j)
    have "put_bytes (b[p := x]) (Suc p) xs ! (Suc p + j) = xs ! j"
      using 2 Suc by simp
    with Suc show ?thesis by simp
  qed
qed simp

lemma le16_bytes:
  "(ucast (ucast ((v :: u16) AND 0xff) :: u8) :: u16)
     OR push_bit 8 (ucast (ucast (drop_bit 8 v) :: u8)) = v"
proof -
  have m: "(0xff :: u16) = mask 8" by (simp add: mask_eq_exp_minus_1)
  show ?thesis unfolding m
    by (rule bit_word_eqI) (auto simp: bit_simps)
qed

lemma four_bytes_cases:
  assumes "n < (32 :: nat)"
  obtains "n < 8" | k where "n = 8 + k" "k < 8" | k where "n = 16 + k" "k < 8"
    | k where "n = 24 + k" "k < 8"
proof -
  consider "n < 8" | "8 \<le> n" "n < 16" | "16 \<le> n" "n < 24" | "24 \<le> n" using assms by linarith
  then show thesis
  proof cases
    case 1 then show ?thesis by (rule that(1))
  next
    case 2 then show ?thesis by (intro that(2) [of "n - 8"]) auto
  next
    case 3 then show ?thesis by (intro that(3) [of "n - 16"]) auto
  next
    case 4 with assms show ?thesis by (intro that(4) [of "n - 24"]) auto
  qed
qed

lemma le32_bytes:
  "(ucast (ucast ((v :: u32) AND 0xff) :: u8) :: u32)
     OR push_bit 8 (ucast (ucast (drop_bit 8 v AND 0xff) :: u8))
     OR push_bit 16 (ucast (ucast (drop_bit 16 v AND 0xff) :: u8))
     OR push_bit 24 (ucast (ucast (drop_bit 24 v) :: u8)) = v"
proof -
  have m: "(0xff :: u32) = mask 8" by (simp add: mask_eq_exp_minus_1)
  show ?thesis unfolding m
  proof (rule bit_word_eqI)
    fix n assume "n < LENGTH(32)"
    then have "n < 32" by simp
    then show "bit ((ucast (ucast (v AND mask 8) :: u8) :: u32)
        OR push_bit 8 (ucast (ucast (drop_bit 8 v AND mask 8) :: u8))
        OR push_bit 16 (ucast (ucast (drop_bit 16 v AND mask 8) :: u8))
        OR push_bit 24 (ucast (ucast (drop_bit 24 v) :: u8))) n = bit v n"
      by (cases rule: four_bytes_cases) (simp_all add: bit_simps)
  qed
qed

lemma le64_words:
  "(ucast (ucast ((v :: u64) AND 0xffffffff) :: u32) :: u64)
     OR push_bit 32 (ucast (ucast (drop_bit 32 v) :: u32)) = v"
proof -
  have m: "(0xffffffff :: u64) = mask 32" by (simp add: mask_eq_exp_minus_1)
  show ?thesis unfolding m
    by (rule bit_word_eqI) (auto simp: bit_simps)
qed

interpretation byte: wire_field list_update "(!)" 1 "\<lambda>_ :: u8. True"
  by unfold_locales auto

interpretation bytes: wire_field put_bytes "get_bytes n" n "\<lambda>xs. length xs = n" for n
proof
  fix v b :: "u8 list" and p
  assume "length v = n" and "p + n \<le> length b"
  then show "get_bytes n (put_bytes b p v) p = v"
    by (auto simp: get_bytes_def nth_put_bytes_inside intro!: nth_equalityI)
qed (auto simp: length_put_bytes nth_put_bytes_outside get_bytes_def)

interpretation le16: wire_field tbv_wire_put_le16 tbv_wire_get_le16 2 "\<lambda>_. True"
proof
  fix v p b
  assume "p + 2 \<le> length (b :: u8 list)"
  then show "tbv_wire_get_le16 (tbv_wire_put_le16 b p v) p = v"
    using le16_bytes [of v] by (simp add: tbv_wire_get_le16_def tbv_wire_put_le16_def)
qed (auto simp: tbv_wire_get_le16_def tbv_wire_put_le16_def)

interpretation le32: wire_field tbv_wire_put_le32 tbv_wire_get_le32 4 "\<lambda>_. True"
proof
  fix v p b
  assume "p + 4 \<le> length (b :: u8 list)"
  then show "tbv_wire_get_le32 (tbv_wire_put_le32 b p v) p = v"
    using le32_bytes [of v]
    by (simp add: tbv_wire_get_le32_def tbv_wire_put_le32_def nth_list_update_if)
qed (auto simp: tbv_wire_get_le32_def tbv_wire_put_le32_def)

interpretation le32_le32: wire_fields
  tbv_wire_put_le32 tbv_wire_get_le32 4 "\<lambda>_. True"
  tbv_wire_put_le32 tbv_wire_get_le32 4 "\<lambda>_. True"
  by unfold_locales

interpretation le64: wire_field tbv_wire_put_le64 tbv_wire_get_le64 8 "\<lambda>_. True"
proof
  fix v p and b :: "u8 list"
  show "length (tbv_wire_put_le64 b p v) = length b"
    by (simp add: tbv_wire_put_le64_def le32.length_put)
  show "tbv_wire_put_le64 b p v ! i = b ! i" if "i < p \<or> p + 8 \<le> i" for i
    using that by (auto simp: tbv_wire_put_le64_def le32.nth_put_outside)
  show "tbv_wire_get_le64 (tbv_wire_put_le64 b p v) p = v" if "p + 8 \<le> length b"
    using that le64_words [of v]
    by (simp add: tbv_wire_get_le64_def tbv_wire_put_le64_def le32.get_put le32.length_put
        le32_le32.get_put_disjoint)
  show "tbv_wire_get_le64 b p = tbv_wire_get_le64 b' p"
    if "\<And>i. p \<le> i \<Longrightarrow> i < p + 8 \<Longrightarrow> b ! i = b' ! i" for b'
  proof -
    have "tbv_wire_get_le32 b p = tbv_wire_get_le32 b' p"
      by (rule le32.get_local) (use that in simp)
    moreover have "tbv_wire_get_le32 b (p + 4) = tbv_wire_get_le32 b' (p + 4)"
      by (rule le32.get_local) (use that in simp)
    ultimately show ?thesis by (simp add: tbv_wire_get_le64_def)
  qed
qed

section \<open>Disjoint fields\<close>

text \<open>One instance of \<open>wire_fields\<close> for every pair of accessors that occur in one message.\<close>

interpretation byte_byte: wire_fields
  list_update "(!)" 1 "\<lambda>_ :: u8. True"
  list_update "(!)" 1 "\<lambda>_ :: u8. True"
  by unfold_locales

interpretation byte_le16: wire_fields
  list_update "(!)" 1 "\<lambda>_ :: u8. True"
  tbv_wire_put_le16 tbv_wire_get_le16 2 "\<lambda>_. True"
  by unfold_locales

interpretation byte_le32: wire_fields
  list_update "(!)" 1 "\<lambda>_ :: u8. True"
  tbv_wire_put_le32 tbv_wire_get_le32 4 "\<lambda>_. True"
  by unfold_locales

interpretation byte_le64: wire_fields
  list_update "(!)" 1 "\<lambda>_ :: u8. True"
  tbv_wire_put_le64 tbv_wire_get_le64 8 "\<lambda>_. True"
  by unfold_locales

interpretation byte_bytes: wire_fields
  list_update "(!)" 1 "\<lambda>_ :: u8. True"
  put_bytes "get_bytes m" m "\<lambda>xs. length xs = m" for m
  by unfold_locales

interpretation le16_byte: wire_fields
  tbv_wire_put_le16 tbv_wire_get_le16 2 "\<lambda>_. True"
  list_update "(!)" 1 "\<lambda>_ :: u8. True"
  by unfold_locales

interpretation le16_le16: wire_fields
  tbv_wire_put_le16 tbv_wire_get_le16 2 "\<lambda>_. True"
  tbv_wire_put_le16 tbv_wire_get_le16 2 "\<lambda>_. True"
  by unfold_locales

interpretation le16_le32: wire_fields
  tbv_wire_put_le16 tbv_wire_get_le16 2 "\<lambda>_. True"
  tbv_wire_put_le32 tbv_wire_get_le32 4 "\<lambda>_. True"
  by unfold_locales

interpretation le16_le64: wire_fields
  tbv_wire_put_le16 tbv_wire_get_le16 2 "\<lambda>_. True"
  tbv_wire_put_le64 tbv_wire_get_le64 8 "\<lambda>_. True"
  by unfold_locales

interpretation le16_bytes: wire_fields
  tbv_wire_put_le16 tbv_wire_get_le16 2 "\<lambda>_. True"
  put_bytes "get_bytes m" m "\<lambda>xs. length xs = m" for m
  by unfold_locales

interpretation le32_byte: wire_fields
  tbv_wire_put_le32 tbv_wire_get_le32 4 "\<lambda>_. True"
  list_update "(!)" 1 "\<lambda>_ :: u8. True"
  by unfold_locales

interpretation le32_le16: wire_fields
  tbv_wire_put_le32 tbv_wire_get_le32 4 "\<lambda>_. True"
  tbv_wire_put_le16 tbv_wire_get_le16 2 "\<lambda>_. True"
  by unfold_locales

interpretation le32_le64: wire_fields
  tbv_wire_put_le32 tbv_wire_get_le32 4 "\<lambda>_. True"
  tbv_wire_put_le64 tbv_wire_get_le64 8 "\<lambda>_. True"
  by unfold_locales

interpretation le32_bytes: wire_fields
  tbv_wire_put_le32 tbv_wire_get_le32 4 "\<lambda>_. True"
  put_bytes "get_bytes m" m "\<lambda>xs. length xs = m" for m
  by unfold_locales

interpretation le64_byte: wire_fields
  tbv_wire_put_le64 tbv_wire_get_le64 8 "\<lambda>_. True"
  list_update "(!)" 1 "\<lambda>_ :: u8. True"
  by unfold_locales

interpretation le64_le16: wire_fields
  tbv_wire_put_le64 tbv_wire_get_le64 8 "\<lambda>_. True"
  tbv_wire_put_le16 tbv_wire_get_le16 2 "\<lambda>_. True"
  by unfold_locales

interpretation le64_le32: wire_fields
  tbv_wire_put_le64 tbv_wire_get_le64 8 "\<lambda>_. True"
  tbv_wire_put_le32 tbv_wire_get_le32 4 "\<lambda>_. True"
  by unfold_locales

interpretation le64_le64: wire_fields
  tbv_wire_put_le64 tbv_wire_get_le64 8 "\<lambda>_. True"
  tbv_wire_put_le64 tbv_wire_get_le64 8 "\<lambda>_. True"
  by unfold_locales

interpretation le64_bytes: wire_fields
  tbv_wire_put_le64 tbv_wire_get_le64 8 "\<lambda>_. True"
  put_bytes "get_bytes m" m "\<lambda>xs. length xs = m" for m
  by unfold_locales

interpretation bytes_byte: wire_fields
  put_bytes "get_bytes n" n "\<lambda>xs. length xs = n"
  list_update "(!)" 1 "\<lambda>_ :: u8. True" for n
  by unfold_locales

interpretation bytes_le16: wire_fields
  put_bytes "get_bytes n" n "\<lambda>xs. length xs = n"
  tbv_wire_put_le16 tbv_wire_get_le16 2 "\<lambda>_. True" for n
  by unfold_locales

interpretation bytes_le32: wire_fields
  put_bytes "get_bytes n" n "\<lambda>xs. length xs = n"
  tbv_wire_put_le32 tbv_wire_get_le32 4 "\<lambda>_. True" for n
  by unfold_locales

interpretation bytes_le64: wire_fields
  put_bytes "get_bytes n" n "\<lambda>xs. length xs = n"
  tbv_wire_put_le64 tbv_wire_get_le64 8 "\<lambda>_. True" for n
  by unfold_locales

interpretation bytes_bytes: wire_fields
  put_bytes "get_bytes n" n "\<lambda>xs. length xs = n"
  put_bytes "get_bytes m" m "\<lambda>xs. length xs = m" for n m
  by unfold_locales

lemmas length_puts [wire_simps] =
  byte.length_put le16.length_put le32.length_put le64.length_put bytes.length_put

lemmas get_puts [wire_simps] =
  byte.get_put le16.get_put le32.get_put le64.get_put bytes.get_put

lemmas get_put_disjoints [wire_simps] =
  byte_byte.get_put_disjoint byte_le16.get_put_disjoint byte_le32.get_put_disjoint
  byte_le64.get_put_disjoint byte_bytes.get_put_disjoint le16_byte.get_put_disjoint
  le16_le16.get_put_disjoint le16_le32.get_put_disjoint le16_le64.get_put_disjoint
  le16_bytes.get_put_disjoint le32_byte.get_put_disjoint le32_le16.get_put_disjoint
  le32_le64.get_put_disjoint le32_bytes.get_put_disjoint le64_byte.get_put_disjoint
  le64_le16.get_put_disjoint le64_le32.get_put_disjoint le64_le64.get_put_disjoint
  le64_bytes.get_put_disjoint bytes_byte.get_put_disjoint bytes_le16.get_put_disjoint
  bytes_le32.get_put_disjoint bytes_le64.get_put_disjoint bytes_bytes.get_put_disjoint
  le32_le32.get_put_disjoint

end
