(* ===== verification/Hello.thy ===== *)
theory Hello
  imports Wire
begin

text \<open>
  \<^verbatim>\<open>src/proto/native_wire.h\<close>, second half: the XDomain and native headers, and
  \<open>tbv_native_wire_build_hello\<close> / \<open>tbv_native_wire_parse_hello\<close>. The main fact is the round
  trip of a control message, with what the wire format does not carry made explicit: two of
  the sequence bits and the top bit of the route.
\<close>

section \<open>Constants\<close>

abbreviation TBV_NATIVE_WIRE_MAGIC :: u32 where "TBV_NATIVE_WIRE_MAGIC \<equiv> 0x31564254"
abbreviation TBV_NATIVE_WIRE_VERSION :: u16 where "TBV_NATIVE_WIRE_VERSION \<equiv> 1"
abbreviation TBV_NATIVE_WIRE_XDOMAIN_HDR_SIZE :: nat where
  "TBV_NATIVE_WIRE_XDOMAIN_HDR_SIZE \<equiv> 32"
abbreviation TBV_NATIVE_WIRE_HDR_SIZE :: nat where "TBV_NATIVE_WIRE_HDR_SIZE \<equiv> 16"
abbreviation TBV_NATIVE_WIRE_HELLO_SIZE :: nat where "TBV_NATIVE_WIRE_HELLO_SIZE \<equiv> 40"
abbreviation TBV_NATIVE_WIRE_HELLO_MSG_SIZE :: nat where
  "TBV_NATIVE_WIRE_HELLO_MSG_SIZE \<equiv> 88"

definition tbv_native_wire_uuid :: "u8 list" where
  "tbv_native_wire_uuid =
     [0x7c, 0x2c, 0x8f, 0x1e, 0x5b, 0x4d, 0x4a, 0x01,
      0x9f, 0x3a, 0x2b, 0x8e, 0x6d, 0x4c, 0x1a, 0x07]"

abbreviation TBV_NATIVE_WIRE_OP_HELLO :: u16 where "TBV_NATIVE_WIRE_OP_HELLO \<equiv> 1"
abbreviation TBV_NATIVE_WIRE_OP_HELLO_ACK :: u16 where "TBV_NATIVE_WIRE_OP_HELLO_ACK \<equiv> 2"
abbreviation TBV_NATIVE_WIRE_OP_READY :: u16 where "TBV_NATIVE_WIRE_OP_READY \<equiv> 3"
abbreviation TBV_NATIVE_WIRE_OP_READY_ACK :: u16 where "TBV_NATIVE_WIRE_OP_READY_ACK \<equiv> 4"

section \<open>Data\<close>

record tbv_native_wire_info =
  i_op :: u16
  i_flags :: u16
  i_xdomain_sequence :: u8
  i_seq :: u32
  i_route :: u64

record tbv_native_wire_hello =
  h_capabilities :: u32
  h_rail_id :: u32
  h_route :: u64
  h_tx_hop :: u32
  h_rx_hop :: u32
  h_transmit_path :: u32
  h_tx_ring_size :: u32
  h_rx_ring_size :: u32
  h_path_flags :: u32

section \<open>Operations\<close>

definition tbv_native_wire_put_header ::
  "u8 list \<Rightarrow> nat \<Rightarrow> u16 \<Rightarrow> u16 \<Rightarrow> u16 \<Rightarrow> u32 \<Rightarrow> u8 list" where
  "tbv_native_wire_put_header b p op len flags seq =
     (let b = tbv_wire_put_le32 b p TBV_NATIVE_WIRE_MAGIC;
          b = tbv_wire_put_le16 b (p + 4) TBV_NATIVE_WIRE_VERSION;
          b = tbv_wire_put_le16 b (p + 6) op;
          b = tbv_wire_put_le16 b (p + 8) len;
          b = tbv_wire_put_le16 b (p + 10) flags
      in tbv_wire_put_le32 b (p + 12) seq)"

text \<open>The local variable \<open>length_sn\<close>: message length in words and the sequence bits.\<close>

definition xdomain_length_sn :: "u16 \<Rightarrow> u8 \<Rightarrow> u32" where
  "xdomain_length_sn msg_size sequence =
     (ucast msg_size - 12) div 4 OR push_bit 27 (ucast sequence AND 3)"

definition tbv_native_wire_put_xdomain_header ::
  "u8 list \<Rightarrow> nat \<Rightarrow> u64 \<Rightarrow> u8 \<Rightarrow> u32 \<Rightarrow> u16 \<Rightarrow> u8 list" where
  "tbv_native_wire_put_xdomain_header b p route sequence type msg_size =
     (let length_sn = xdomain_length_sn msg_size sequence;
          b = tbv_wire_put_le32 b p (ucast (drop_bit 32 route));
          b = tbv_wire_put_le32 b (p + 4) (ucast (route AND 0xffffffff));
          b = tbv_wire_put_le32 b (p + 8) length_sn;
          b = put_bytes b (p + 12) tbv_native_wire_uuid
      in tbv_wire_put_le32 b (p + 28) type)"

definition tbv_native_wire_valid_op :: "u32 \<Rightarrow> bool" where
  "tbv_native_wire_valid_op op \<longleftrightarrow> op = 1 \<or> op = 2 \<or> op = 3 \<or> op = 4"

definition tbv_native_wire_build_hello ::
  "u8 list ptr \<Rightarrow> tbv_native_wire_hello ptr \<Rightarrow> u16 \<Rightarrow> u16 \<Rightarrow> u32 \<Rightarrow> u64 \<Rightarrow> u8
     \<Rightarrow> (u8 list \<times> nat) res" where
  "tbv_native_wire_build_hello buf hello op flags seq route xdomain_sequence =
     (case (buf, hello) of
        (Some b, Some h) \<Rightarrow>
          if \<not> tbv_native_wire_valid_op (ucast op) then Inl EINVAL
          else if length b < TBV_NATIVE_WIRE_HELLO_MSG_SIZE then Inl ENOSPC
          else
            (let b = memset_zero b 0 TBV_NATIVE_WIRE_HELLO_MSG_SIZE;
                 b = tbv_native_wire_put_xdomain_header b 0 route xdomain_sequence (ucast op) 88;
                 p = TBV_NATIVE_WIRE_XDOMAIN_HDR_SIZE;
                 b = tbv_native_wire_put_header b p op 88 flags seq;
                 p = p + TBV_NATIVE_WIRE_HDR_SIZE;
                 b = tbv_wire_put_le32 b p (h_capabilities h);
                 b = tbv_wire_put_le32 b (p + 4) (h_rail_id h);
                 b = tbv_wire_put_le64 b (p + 8) (h_route h);
                 b = tbv_wire_put_le32 b (p + 16) (h_tx_hop h);
                 b = tbv_wire_put_le32 b (p + 20) (h_rx_hop h);
                 b = tbv_wire_put_le32 b (p + 24) (h_transmit_path h);
                 b = tbv_wire_put_le32 b (p + 28) (h_tx_ring_size h);
                 b = tbv_wire_put_le32 b (p + 32) (h_rx_ring_size h);
                 b = tbv_wire_put_le32 b (p + 36) (h_path_flags h)
             in Inr (b, TBV_NATIVE_WIRE_HELLO_MSG_SIZE))
      | _ \<Rightarrow> Inl EINVAL)"

text \<open>
  The C function stores into \<open>info\<close> only when the caller passed one, and may have stored part
  of it when it fails; no caller reads it then. The model returns it with the message.
\<close>

definition tbv_native_wire_parse_hello ::
  "u8 list ptr \<Rightarrow> (tbv_native_wire_hello \<times> tbv_native_wire_info) res" where
  "tbv_native_wire_parse_hello buf =
     (case buf of
        None \<Rightarrow> Inl EINVAL
      | Some b \<Rightarrow>
          (let length_sn = tbv_wire_get_le32 b 8;
               p = TBV_NATIVE_WIRE_XDOMAIN_HDR_SIZE;
               op = tbv_wire_get_le16 b (p + 6);
               len = tbv_wire_get_le16 b (p + 8);
               q = p + TBV_NATIVE_WIRE_HDR_SIZE
           in if length b < TBV_NATIVE_WIRE_HELLO_MSG_SIZE then Inl EINVAL
              else if length_sn AND 0x3f \<noteq> (88 - 12) div 4 then Inl EINVAL
              else if get_bytes 16 b 12 \<noteq> tbv_native_wire_uuid then Inl EINVAL
              else if \<not> tbv_native_wire_valid_op (tbv_wire_get_le32 b 28) then Inl EINVAL
              else if tbv_wire_get_le32 b p \<noteq> TBV_NATIVE_WIRE_MAGIC then Inl EINVAL
              else if tbv_wire_get_le16 b (p + 4) \<noteq> TBV_NATIVE_WIRE_VERSION then Inl EINVAL
              else if \<not> tbv_native_wire_valid_op (ucast op) then Inl EINVAL
              else if ucast op \<noteq> tbv_wire_get_le32 b 28 then Inl EINVAL
              else if len \<noteq> 88 \<or> length b < unat len then Inl EINVAL
              else Inr
                (\<lparr>h_capabilities = tbv_wire_get_le32 b q,
                  h_rail_id = tbv_wire_get_le32 b (q + 4),
                  h_route = tbv_wire_get_le64 b (q + 8),
                  h_tx_hop = tbv_wire_get_le32 b (q + 16),
                  h_rx_hop = tbv_wire_get_le32 b (q + 20),
                  h_transmit_path = tbv_wire_get_le32 b (q + 24),
                  h_tx_ring_size = tbv_wire_get_le32 b (q + 28),
                  h_rx_ring_size = tbv_wire_get_le32 b (q + 32),
                  h_path_flags = tbv_wire_get_le32 b (q + 36)\<rparr>,
                 \<lparr>i_op = op,
                  i_flags = tbv_wire_get_le16 b (p + 10),
                  i_xdomain_sequence = ucast (drop_bit 27 length_sn AND 3),
                  i_seq = tbv_wire_get_le32 b (p + 12),
                  i_route = (push_bit 32 (ucast (tbv_wire_get_le32 b 0))
                             OR ucast (tbv_wire_get_le32 b 4)) AND NOT (push_bit 63 1)\<rparr>)))"

section \<open>Properties\<close>

lemma xdomain_length_sn_88: "xdomain_length_sn 88 s = 19 OR push_bit 27 (ucast s AND 3)"
  by (simp add: xdomain_length_sn_def del: push_bit_and)

lemma length_sn_low: "xdomain_length_sn 88 s AND 0x3f = 19"
proof -
  have m: "(0x3f :: u32) = mask 6" by (simp add: mask_eq_exp_minus_1)
  have "push_bit 27 (x AND 3) AND (0x3f :: u32) = 0" for x
    unfolding m by (rule bit_word_eqI) (auto simp: bit_simps)
  then show ?thesis
    by (simp add: xdomain_length_sn_88 bit.conj_disj_distrib2 del: push_bit_and)
qed

lemma length_sn_high:
  "(ucast (drop_bit 27 (xdomain_length_sn 88 s) AND 3) :: u8) = s AND 3"
proof -
  have m: "(3 :: u32) = mask 2" "(3 :: u8) = mask 2" by (simp_all add: mask_eq_exp_minus_1)
  have "drop_bit 27 (push_bit 27 (ucast s AND (3 :: u32))) = ucast s AND 3"
    unfolding m by (rule bit_word_eqI) (auto simp: bit_simps)
  then have "drop_bit 27 (xdomain_length_sn 88 s) = ucast s AND 3"
    unfolding xdomain_length_sn_88 drop_bit_or by simp
  then show ?thesis
    unfolding m by (simp only:) (rule bit_word_eqI, auto simp: bit_simps)
qed

lemma route_words:
  "push_bit 32 (ucast (ucast (drop_bit 32 (r :: u64)) :: u32)) OR
     ucast (ucast (r AND 0xffffffff) :: u32) = r"
  using le64_words [of r] by (simp add: or.commute)

lemma uuid_length [simp]: "length tbv_native_wire_uuid = 16"
  by (simp add: tbv_native_wire_uuid_def)

lemma build_hello_length:
  "tbv_native_wire_build_hello (Some b) (Some h) op flags seq route s = Inr (b', n) \<Longrightarrow>
     length b' = length b \<and> n = 88"
  by (auto simp: tbv_native_wire_build_hello_def tbv_native_wire_put_header_def
      tbv_native_wire_put_xdomain_header_def memset_zero_def Let_def wire_simps
      split: if_splits)

lemma hello_codec:
  assumes "tbv_native_wire_build_hello (Some b) (Some h) op flags seq route s = Inr (b', n)"
  shows "tbv_native_wire_parse_hello (Some b') =
    Inr (h, \<lparr>i_op = op, i_flags = flags, i_xdomain_sequence = s AND 3, i_seq = seq,
             i_route = route AND NOT (push_bit 63 1)\<rparr>)"
proof -
  from assms have op: "tbv_native_wire_valid_op (ucast op)" and len: "88 \<le> length b"
    by (auto simp: tbv_native_wire_build_hello_def Let_def split: if_splits)
  show ?thesis
    using assms op len
    by (auto simp: tbv_native_wire_build_hello_def tbv_native_wire_parse_hello_def
        tbv_native_wire_put_header_def tbv_native_wire_put_xdomain_header_def
        memset_zero_def Let_def wire_simps length_sn_low length_sn_high route_words)
qed

text \<open>
  C18: a control message built by one side is parsed by the other to the same HELLO body, the
  same operation, flags and sequence number, the low two bits of the XDomain sequence and the
  route without its top bit.
\<close>

theorem hello_roundtrip:
  assumes "tbv_native_wire_build_hello (Some b) (Some h) op flags seq route s = Inr (b', n)"
  shows "tbv_native_wire_parse_hello (Some b') =
    Inr (h, \<lparr>i_op = op, i_flags = flags, i_xdomain_sequence = s AND 3, i_seq = seq,
             i_route = route AND NOT (push_bit 63 1)\<rparr>)"
  using assms by (rule hello_codec)

definition hello_demo :: tbv_native_wire_hello where
  "hello_demo = \<lparr>h_capabilities = 1, h_rail_id = 2, h_route = 3, h_tx_hop = 4, h_rx_hop = 5,
     h_transmit_path = 6, h_tx_ring_size = 256, h_rx_ring_size = 512, h_path_flags = 9\<rparr>"

theorem hello_roundtrip_witness:
  "\<exists>b. tbv_native_wire_build_hello (Some (replicate 88 0)) (Some hello_demo) 1 0 42 0x301 6
          = Inr (b, 88)
     \<and> tbv_native_wire_parse_hello (Some b) =
         Inr (hello_demo, \<lparr>i_op = 1, i_flags = 0, i_xdomain_sequence = 2, i_seq = 42,
                           i_route = 0x301\<rparr>)"
proof -
  obtain b n where b: "tbv_native_wire_build_hello (Some (replicate 88 0)) (Some hello_demo)
      1 0 42 0x301 6 = Inr (b, n)"
    by (simp add: tbv_native_wire_build_hello_def tbv_native_wire_valid_op_def Let_def)
  then show ?thesis
    using hello_roundtrip [OF b] build_hello_length [OF b] by simp
qed

end
