(* ===== verification/Fragment.thy ===== *)
theory Fragment
  imports Prelude
begin

text \<open>
  The reference cutter: how a message of \<open>tot\<close> bytes is cut into pieces of at most \<open>mp\<close>
  bytes. It specifies both the frames a sender emits (\<open>tbv_rel_tx_next_frame\<close>) and the
  fragments a receiver accepts (\<open>tbv_native_data_fragment_shape\<close>). A cut is its byte offset,
  its length and whether it is the last one; an empty message is one empty cut.
\<close>

function frag_cuts :: "nat \<Rightarrow> nat \<Rightarrow> nat \<Rightarrow> (nat \<times> nat \<times> bool) list" where
  "frag_cuts mp tot off =
     (if mp = 0 \<or> tot \<le> off + mp then [(off, tot - off, True)]
      else (off, mp, False) # frag_cuts mp tot (off + mp))"
  by pat_completeness auto
termination
  by (relation "measure (\<lambda>(mp, tot, off). tot - off)") auto

declare frag_cuts.simps [simp del]

definition frag_count :: "nat \<Rightarrow> nat \<Rightarrow> nat" where
  "frag_count mp tot = length (frag_cuts mp tot 0)"

text \<open>The cuts tile the message: their lengths add up to it, each starts where the last ended.\<close>

lemma frag_cuts_sum: "off \<le> tot \<Longrightarrow> (\<Sum>c \<leftarrow> frag_cuts mp tot off. fst (snd c)) = tot - off"
proof (induction mp tot off rule: frag_cuts.induct)
  case (1 mp tot off)
  then show ?case by (subst frag_cuts.simps) auto
qed

lemma frag_cuts_nonempty [simp]: "frag_cuts mp tot off \<noteq> []"
  by (subst frag_cuts.simps) simp

lemma frag_count_pos [simp]: "0 < frag_count mp tot"
  by (simp add: frag_count_def)

lemma frag_count_neq_0 [simp]: "frag_count mp tot \<noteq> 0"
  by (simp add: frag_count_def)

lemma frag_cuts_length:
  assumes "0 < mp" and "off \<le> tot"
  shows "length (frag_cuts mp tot off) = max 1 ((tot - off + mp - 1) div mp)"
  using assms
proof (induction mp tot off rule: frag_cuts.induct)
  case (1 mp tot off)
  show ?case
  proof (cases "tot \<le> off + mp")
    case True
    then have "(tot - off + mp - 1) div mp \<le> 1"
      using 1(2) by (simp add: less_eq_div_iff_mult_less_eq div_le_mono le_div_geq less_Suc_eq_le
          div_less_iff_less_mult flip: less_Suc_eq_le)
    with True show ?thesis by (subst frag_cuts.simps) simp
  next
    case False
    then have "length (frag_cuts mp tot (off + mp)) = max 1 ((tot - (off + mp) + mp - 1) div mp)"
      using 1 by simp
    also have "tot - (off + mp) + mp - 1 = tot - off - 1" using False by simp
    finally have l: "length (frag_cuts mp tot (off + mp)) = max 1 ((tot - off - 1) div mp)" .
    have "tot - off + mp - 1 = tot - off - 1 + mp" using False by simp
    then have "(tot - off + mp - 1) div mp = Suc ((tot - off - 1) div mp)"
      unfolding \<open>tot - off + mp - 1 = tot - off - 1 + mp\<close> using 1(2) by (subst div_add_self2) simp_all
    moreover have "1 \<le> (tot - off - 1) div mp"
      using False 1(2) by (simp add: less_eq_div_iff_mult_less_eq)
    ultimately show ?thesis using False 1(2) l by (subst frag_cuts.simps) simp
  qed
qed

lemma frag_count_eq: "0 < mp \<Longrightarrow> frag_count mp tot = max 1 ((tot + mp - 1) div mp)"
  by (simp add: frag_count_def frag_cuts_length)

lemma frag_cuts_nth:
  assumes "0 < mp" and "i < length (frag_cuts mp tot off)"
  shows "frag_cuts mp tot off ! i =
    (off + i * mp, min mp (tot - (off + i * mp)), Suc i = length (frag_cuts mp tot off))"
  using assms
proof (induction mp tot off arbitrary: i rule: frag_cuts.induct)
  case (1 mp tot off)
  show ?case
  proof (cases "tot \<le> off + mp")
    case True
    have c: "frag_cuts mp tot off = [(off, tot - off, True)]"
      using True by (subst frag_cuts.simps) simp
    with 1(3) have "i = 0" by simp
    then show ?thesis unfolding c using True by (simp add: min_def) linarith
  next
    case False
    have c: "frag_cuts mp tot off = (off, mp, False) # frag_cuts mp tot (off + mp)"
      using False 1(2) by (subst frag_cuts.simps) simp
    show ?thesis
    proof (cases i)
      case 0
      then show ?thesis unfolding c using False by (simp add: min_def)
    next
      case (Suc j)
      then have "j < length (frag_cuts mp tot (off + mp))" using 1(3) c by simp
      then have "frag_cuts mp tot (off + mp) ! j =
        (off + mp + j * mp, min mp (tot - (off + mp + j * mp)),
         Suc j = length (frag_cuts mp tot (off + mp)))"
        using 1(1) False 1(2) by simp
      then show ?thesis unfolding c using Suc by (simp add: algebra_simps)
    qed
  qed
qed

lemma frag_count_mult:
  assumes "0 < mp" and "0 < tot"
  shows "tot \<le> frag_count mp tot * mp" and "(frag_count mp tot - 1) * mp < tot"
proof -
  let ?q = "(tot + mp - 1) div mp"
  have "1 \<le> ?q" using assms by (simp add: less_eq_div_iff_mult_less_eq)
  then have q: "frag_count mp tot = ?q" using assms(1) by (simp add: frag_count_eq)
  have m: "?q * mp + (tot + mp - 1) mod mp = tot + mp - 1" by simp
  have r: "(tot + mp - 1) mod mp < mp" using assms(1) by simp
  show "tot \<le> frag_count mp tot * mp" unfolding q using m r assms(1) by linarith
  show "(frag_count mp tot - 1) * mp < tot"
    unfolding q diff_mult_distrib using m assms(2) by linarith
qed

lemma frag_count_unique:
  assumes "0 < mp" and "0 < tot" and "tot \<le> n * mp" and "(n - 1) * mp < tot"
  shows "n = frag_count mp tot"
proof -
  have a: "frag_count mp tot - 1 < n"
    using frag_count_mult(2) [OF assms(1,2)] assms(3) assms(1)
    by (meson less_le_trans mult_less_cancel2)
  have b: "n - 1 < frag_count mp tot"
    using frag_count_mult(1) [OF assms(1,2)] assms(4) assms(1)
    by (meson less_le_trans mult_less_cancel2)
  have "0 < frag_count mp tot" by simp
  with a b show ?thesis by linarith
qed

text \<open>The rounded-up quotient of the 32-bit code is the number of cuts, or 0 on overflow.\<close>

lemma div_round_up_frag_count:
  assumes "mp \<noteq> 0" and "tot \<noteq> 0"
  shows "unat (div_round_up_u32 tot mp) =
    (if unat tot + unat mp \<le> 4294967296 then frag_count (unat mp) (unat tot) else 0)"
proof (cases "unat tot + unat mp \<le> 4294967296")
  case True
  have p: "0 < unat mp" "0 < unat tot" using assms by (simp_all add: unat_gt_0)
  have "1 \<le> (unat tot + unat mp - 1) div unat mp"
    using p by (simp add: less_eq_div_iff_mult_less_eq)
  then show ?thesis
    using True p by (simp add: div_round_up_exact [OF assms(1) True assms(2)] frag_count_eq)
next
  case False
  then show ?thesis using div_round_up_wraps [OF assms(1)] by simp
qed

lemma cut_offset_below:
  assumes "0 < mp" and "0 < tot" and "i < frag_count mp tot"
  shows "i * mp < tot"
proof -
  have "i \<le> frag_count mp tot - 1" using assms(3) by linarith
  then have "i * mp \<le> (frag_count mp tot - 1) * mp" by (rule mult_le_mono1)
  with frag_count_mult(2) [OF assms(1,2)] show ?thesis by linarith
qed

lemma frag_count_0 [simp]: "frag_count mp 0 = 1"
proof -
  have "frag_cuts mp 0 0 = [(0, 0, True)]" by (subst frag_cuts.simps) simp
  then show ?thesis by (simp add: frag_count_def)
qed

lemma sum_cut_lengths:
  assumes "0 < mp"
  shows "(\<Sum>i<frag_count mp tot. min mp (tot - i * mp)) = tot"
proof -
  have "(\<Sum>i<frag_count mp tot. min mp (tot - i * mp))
      = (\<Sum>i<length (frag_cuts mp tot 0). fst (snd (frag_cuts mp tot 0 ! i)))"
    unfolding frag_count_def
    by (rule sum.cong) (simp_all add: frag_cuts_nth [OF assms])
  also have "\<dots> = (\<Sum>c \<leftarrow> frag_cuts mp tot 0. fst (snd c))"
    by (simp add: sum_list_sum_nth atLeast0LessThan)
  also have "\<dots> = tot" by (simp add: frag_cuts_sum)
  finally show ?thesis .
qed

end
