(* ===== verification/Native_Data.thy ===== *)
theory Native_Data
  imports Wire Fragment
begin

text \<open>
  \<^verbatim>\<open>src/proto/native_data.h\<close>: the 48-byte header of a data frame, the credit thresholds, the
  payload headers synthesised for a raw stream, and the shape check a receiver applies to a
  fragment. The shape check is proved equivalent to the reference cutter of \<open>Fragment\<close>.
\<close>

section \<open>Constants\<close>

abbreviation TBV_NATIVE_DATA_MAGIC :: u32 where "TBV_NATIVE_DATA_MAGIC \<equiv> 0x31445654"
abbreviation TBV_NATIVE_DATA_VERSION :: u16 where "TBV_NATIVE_DATA_VERSION \<equiv> 1"
abbreviation TBV_NATIVE_DATA_HDR_SIZE :: nat where "TBV_NATIVE_DATA_HDR_SIZE \<equiv> 48"
abbreviation TBV_NATIVE_DATA_FRAME_SIZE :: u32 where "TBV_NATIVE_DATA_FRAME_SIZE \<equiv> 4096"
abbreviation TBV_NATIVE_DATA_MAX_PAYLOAD :: u32 where "TBV_NATIVE_DATA_MAX_PAYLOAD \<equiv> 4048"
abbreviation TBV_NATIVE_DATA_MAX_MSG_SIZE :: u32 where
  "TBV_NATIVE_DATA_MAX_MSG_SIZE \<equiv> 16777216"
abbreviation TBV_NATIVE_DATA_CREDIT_BATCH :: u32 where "TBV_NATIVE_DATA_CREDIT_BATCH \<equiv> 256"
abbreviation TBV_NATIVE_DATA_MAX_FRAGS :: u32 where "TBV_NATIVE_DATA_MAX_FRAGS \<equiv> 4145"

abbreviation TBV_NATIVE_DATA_OP_SEND :: u8 where "TBV_NATIVE_DATA_OP_SEND \<equiv> 1"
abbreviation TBV_NATIVE_DATA_OP_SEND_ACK :: u8 where "TBV_NATIVE_DATA_OP_SEND_ACK \<equiv> 2"
abbreviation TBV_NATIVE_DATA_OP_RDMA_WRITE :: u8 where "TBV_NATIVE_DATA_OP_RDMA_WRITE \<equiv> 3"
abbreviation TBV_NATIVE_DATA_OP_RDMA_WRITE_IMM :: u8 where
  "TBV_NATIVE_DATA_OP_RDMA_WRITE_IMM \<equiv> 4"
abbreviation TBV_NATIVE_DATA_OP_RECV_CREDIT :: u8 where "TBV_NATIVE_DATA_OP_RECV_CREDIT \<equiv> 5"
abbreviation TBV_NATIVE_DATA_OP_SEND_IMM :: u8 where "TBV_NATIVE_DATA_OP_SEND_IMM \<equiv> 6"
abbreviation TBV_NATIVE_DATA_OP_RDMA_READ_REQ :: u8 where
  "TBV_NATIVE_DATA_OP_RDMA_READ_REQ \<equiv> 7"
abbreviation TBV_NATIVE_DATA_OP_RDMA_READ_RESP :: u8 where
  "TBV_NATIVE_DATA_OP_RDMA_READ_RESP \<equiv> 8"
abbreviation TBV_NATIVE_DATA_OP_PATH_CREDIT :: u8 where "TBV_NATIVE_DATA_OP_PATH_CREDIT \<equiv> 9"
abbreviation TBV_NATIVE_DATA_OP_RDMA_READ_ACK :: u8 where
  "TBV_NATIVE_DATA_OP_RDMA_READ_ACK \<equiv> 10"
abbreviation TBV_NATIVE_DATA_OP_MAD :: u8 where "TBV_NATIVE_DATA_OP_MAD \<equiv> 11"
abbreviation TBV_NATIVE_DATA_OP_MAX :: u8 where "TBV_NATIVE_DATA_OP_MAX \<equiv> 11"

abbreviation TBV_NATIVE_DATA_F_LAST :: u8 where "TBV_NATIVE_DATA_F_LAST \<equiv> 1"
abbreviation TBV_NATIVE_DATA_F_SOLICITED :: u8 where "TBV_NATIVE_DATA_F_SOLICITED \<equiv> 2"
abbreviation TBV_NATIVE_DATA_F_RAW_STREAM :: u8 where "TBV_NATIVE_DATA_F_RAW_STREAM \<equiv> 4"

section \<open>Data\<close>

record tbv_native_data_header =
  d_opcode :: u8
  d_flags :: u8
  d_dest_qp :: u32
  d_src_qp :: u32
  d_psn :: u32
  d_length :: u32
  d_imm_data :: u32
  d_remote_addr :: u64
  d_rkey :: u32
  d_frag_offset :: u32

section \<open>Operations\<close>

definition tbv_native_data_credit_return_threshold :: "u32 \<Rightarrow> u32" where
  "tbv_native_data_credit_return_threshold credit_window =
     (if credit_window \<noteq> 0 \<and> credit_window < TBV_NATIVE_DATA_CREDIT_BATCH
      then credit_window else TBV_NATIVE_DATA_CREDIT_BATCH)"

definition tbv_native_data_start_credit_required :: "u32 \<Rightarrow> u32 \<Rightarrow> u32" where
  "tbv_native_data_start_credit_required frames credit_window =
     (if frames = 0 then 0
      else let threshold = tbv_native_data_credit_return_threshold credit_window
           in if frames < threshold then frames else threshold)"

text \<open>The bound both the builder and the parser put on the payload length.\<close>

definition tbv_native_data_length_limit :: "u8 \<Rightarrow> u32" where
  "tbv_native_data_length_limit flags =
     (if flags AND TBV_NATIVE_DATA_F_RAW_STREAM \<noteq> 0 then TBV_NATIVE_DATA_MAX_MSG_SIZE
      else TBV_NATIVE_DATA_MAX_PAYLOAD)"

definition tbv_native_data_build_header ::
  "u8 list ptr \<Rightarrow> tbv_native_data_header ptr \<Rightarrow> (u8 list \<times> nat) res" where
  "tbv_native_data_build_header buf hdr =
     (case (buf, hdr) of
        (Some b, Some h) \<Rightarrow>
          if length b < TBV_NATIVE_DATA_HDR_SIZE then Inl ENOSPC
          else if d_opcode h = 0 \<or> d_opcode h > TBV_NATIVE_DATA_OP_MAX then Inl EINVAL
          else if d_length h > tbv_native_data_length_limit (d_flags h) then Inl EMSGSIZE
          else
            (let b = memset_zero b 0 TBV_NATIVE_DATA_HDR_SIZE;
                 b = tbv_wire_put_le32 b 0 TBV_NATIVE_DATA_MAGIC;
                 b = tbv_wire_put_le16 b 4 TBV_NATIVE_DATA_VERSION;
                 b = tbv_wire_put_le16 b 6 48;
                 b = b[8 := d_opcode h];
                 b = b[9 := d_flags h];
                 b = tbv_wire_put_le32 b 12 (d_dest_qp h);
                 b = tbv_wire_put_le32 b 16 (d_src_qp h);
                 b = tbv_wire_put_le32 b 20 (d_psn h);
                 b = tbv_wire_put_le32 b 24 (d_length h);
                 b = tbv_wire_put_le32 b 28 (d_imm_data h);
                 b = tbv_wire_put_le64 b 32 (d_remote_addr h);
                 b = tbv_wire_put_le32 b 40 (d_rkey h);
                 b = tbv_wire_put_le32 b 44 (d_frag_offset h)
             in Inr (b, TBV_NATIVE_DATA_HDR_SIZE))
      | _ \<Rightarrow> Inl EINVAL)"

definition tbv_native_data_parse_header :: "u8 list ptr \<Rightarrow> tbv_native_data_header res" where
  "tbv_native_data_parse_header buf =
     (case buf of
        None \<Rightarrow> Inl EINVAL
      | Some b \<Rightarrow>
          if length b < TBV_NATIVE_DATA_HDR_SIZE then Inl EINVAL
          else if tbv_wire_get_le32 b 0 \<noteq> TBV_NATIVE_DATA_MAGIC then Inl EINVAL
          else if tbv_wire_get_le16 b 4 \<noteq> TBV_NATIVE_DATA_VERSION
                  \<or> tbv_wire_get_le16 b 6 \<noteq> 48 then Inl EINVAL
          else
            (let h = \<lparr>d_opcode = b ! 8, d_flags = b ! 9,
                      d_dest_qp = tbv_wire_get_le32 b 12, d_src_qp = tbv_wire_get_le32 b 16,
                      d_psn = tbv_wire_get_le32 b 20, d_length = tbv_wire_get_le32 b 24,
                      d_imm_data = tbv_wire_get_le32 b 28,
                      d_remote_addr = tbv_wire_get_le64 b 32,
                      d_rkey = tbv_wire_get_le32 b 40, d_frag_offset = tbv_wire_get_le32 b 44\<rparr>
             in if d_opcode h = 0 \<or> d_opcode h > TBV_NATIVE_DATA_OP_MAX then Inl EINVAL
                else if d_length h > tbv_native_data_length_limit (d_flags h) then Inl EMSGSIZE
                else Inr h))"

definition tbv_native_data_raw_payload_header ::
  "tbv_native_data_header ptr \<Rightarrow> u32 \<Rightarrow> u32 \<Rightarrow> u32 \<Rightarrow> tbv_native_data_header res" where
  "tbv_native_data_raw_payload_header stream done remaining payload_len =
     (case stream of
        None \<Rightarrow> Inl EINVAL
      | Some s \<Rightarrow>
          if d_flags s AND TBV_NATIVE_DATA_F_RAW_STREAM = 0 then Inl EINVAL
          else if payload_len = 0 \<or> payload_len > remaining then Inl EINVAL
          else
            (let flags = d_flags s AND NOT (TBV_NATIVE_DATA_F_RAW_STREAM
                           OR TBV_NATIVE_DATA_F_LAST OR TBV_NATIVE_DATA_F_SOLICITED);
                 flags = (if payload_len = remaining
                          then flags OR (d_flags s AND (TBV_NATIVE_DATA_F_LAST
                                 OR TBV_NATIVE_DATA_F_SOLICITED))
                          else flags)
             in Inr (s\<lparr>d_flags := flags, d_length := payload_len, d_frag_offset := done\<rparr>)))"

definition tbv_native_data_fragment_shape ::
  "u32 \<Rightarrow> u32 \<Rightarrow> u32 \<Rightarrow> u32 \<Rightarrow> u32 \<Rightarrow> bool \<Rightarrow> (u32 \<times> u32) res" where
  "tbv_native_data_fragment_shape total_len max_payload max_frags offset len is_last =
     (if max_payload = 0 \<or> max_frags = 0 then Inl EINVAL
      else if total_len = 0 then
        (if offset \<noteq> 0 \<or> len \<noteq> 0 \<or> \<not> is_last then Inl EINVAL else Inr (0, 1))
      else if offset mod max_payload \<noteq> 0 then Inl EINVAL
      else
        (let idx = offset div max_payload;
             count = div_round_up_u32 total_len max_payload
         in if idx \<ge> count \<or> count > max_frags then Inl EINVAL
            else
              (let expected_len = (if idx = count - 1 then total_len - idx * max_payload
                                   else max_payload)
               in if len \<noteq> expected_len then Inl EINVAL
                  else if is_last \<noteq> (idx = count - 1) then Inl EINVAL
                  else Inr (idx, count))))"

section \<open>Header round trip\<close>

lemma build_parse_header:
  assumes "tbv_native_data_build_header (Some b) (Some h) = Inr (b', n)"
  shows "tbv_native_data_parse_header (Some b') = Inr h \<and> length b' = length b \<and> n = 48"
proof -
  from assms have len: "48 \<le> length b" and op: "\<not> (d_opcode h = 0 \<or> 11 < d_opcode h)"
    and lim: "\<not> tbv_native_data_length_limit (d_flags h) < d_length h"
    by (auto simp: tbv_native_data_build_header_def Let_def split: if_splits)
  show ?thesis
    using assms len op lim
    by (auto simp: tbv_native_data_build_header_def tbv_native_data_parse_header_def
        memset_zero_def Let_def wire_simps)
qed

text \<open>
  C21: a data header that the builder accepts is parsed back unchanged, whatever the buffer
  held before.
\<close>

theorem data_header_roundtrip:
  assumes "tbv_native_data_build_header (Some b) (Some h) = Inr (b', n)"
  shows "tbv_native_data_parse_header (Some b') = Inr h \<and> length b' = length b \<and> n = 48"
  using assms by (rule build_parse_header)

theorem data_header_roundtrip_witness:
  "\<exists>b h. d_opcode h = TBV_NATIVE_DATA_OP_RDMA_WRITE \<and> d_remote_addr h = 0x123456789abcdef0 \<and>
     tbv_native_data_build_header (Some (replicate 64 0xff)) (Some h) = Inr (b, 48) \<and>
     tbv_native_data_parse_header (Some b) = Inr h"
proof -
  let ?h = "\<lparr>d_opcode = 3, d_flags = 1, d_dest_qp = 17, d_src_qp = 18, d_psn = 0xffffff,
    d_length = 4048, d_imm_data = 0, d_remote_addr = 0x123456789abcdef0, d_rkey = 99,
    d_frag_offset = 8096\<rparr>"
  obtain b n where b: "tbv_native_data_build_header (Some (replicate 64 0xff)) (Some ?h) = Inr (b, n)"
    by (simp add: tbv_native_data_build_header_def tbv_native_data_length_limit_def Let_def)
  show ?thesis
    by (rule exI [of _ b], rule exI [of _ ?h]) (use b data_header_roundtrip [OF b] in simp)
qed

section \<open>Fragment shape\<close>

lemma unat_div_mult: "unat (a div b) * unat b \<le> unat (a :: u32)"
  by (simp add: unat_div)

lemma shape_expected_len:
  fixes tot mp idx :: u32
  assumes mp: "mp \<noteq> 0" and tot: "tot \<noteq> 0"
    and idx: "unat idx < frag_count (unat mp) (unat tot)"
  shows "unat (if Suc (unat idx) = frag_count (unat mp) (unat tot) then tot - idx * mp else mp)
    = min (unat mp) (unat tot - unat idx * unat mp)"
proof -
  let ?n = "frag_count (unat mp) (unat tot)"
  have p: "0 < unat mp" "0 < unat tot" using mp tot by (simp_all add: unat_gt_0)
  note n = frag_count_mult [OF p]
  have below: "unat idx * unat mp < unat tot" by (rule cut_offset_below [OF p idx])
  then have m: "unat (idx * mp) = unat idx * unat mp"
    using unat_less_2p32 [of tot] by (intro unat_mult_u32) linarith
  show ?thesis
  proof (cases "Suc (unat idx) = ?n")
    case True
    then have "unat tot \<le> unat idx * unat mp + unat mp" using n(1) by (metis add.commute mult_Suc)
    moreover have "idx * mp \<le> tot" using below m by (simp add: word_le_nat_alt)
    ultimately show ?thesis using True m by (simp add: unat_sub)
  next
    case False
    then have "Suc (unat idx) < ?n" using idx by simp
    then have "Suc (unat idx) * unat mp < unat tot" by (rule cut_offset_below [OF p])
    then show ?thesis using False by simp
  qed
qed

lemma shape_zero_iff:
  assumes "mp \<noteq> 0" and "mf \<noteq> 0"
  shows "tbv_native_data_fragment_shape 0 mp mf off len is_last = Inr (idx, cnt) \<longleftrightarrow>
    idx = 0 \<and> cnt = 1 \<and> off = 0 \<and> len = 0 \<and> is_last"
  using assms by (auto simp: tbv_native_data_fragment_shape_def)

lemma shape_pos_iff:
  assumes "mp \<noteq> 0" and "mf \<noteq> 0" and "tot \<noteq> 0"
  shows "tbv_native_data_fragment_shape tot mp mf off len is_last = Inr (idx, cnt) \<longleftrightarrow>
    cnt = div_round_up_u32 tot mp \<and> idx < cnt \<and> cnt \<le> mf \<and>
    off mod mp = 0 \<and> idx = off div mp \<and>
    len = (if idx = cnt - 1 then tot - idx * mp else mp) \<and> is_last = (idx = cnt - 1)"
  using assms by (auto simp: tbv_native_data_fragment_shape_def Let_def)

lemma last_index_iff: "idx < cnt \<Longrightarrow> idx = cnt - 1 \<longleftrightarrow> Suc (unat idx) = unat (cnt :: u32)"
  by (metis Suc_eq_plus1 add_diff_cancel diff_add_cancel unat_Suc_u32 word_unat_eq_iff)

lemma aligned_offset_iff:
  assumes "mp \<noteq> 0" and "unat idx * unat mp < 4294967296"
  shows "off mod mp = 0 \<and> idx = off div mp \<longleftrightarrow> unat (off :: u32) = unat idx * unat mp"
proof -
  have p: "0 < unat mp" using assms(1) by (simp add: unat_gt_0)
  have m: "off mod mp = 0 \<longleftrightarrow> unat off mod unat mp = 0"
    by (metis unat_0 unat_mod word_unat_eq_iff)
  have d: "idx = off div mp \<longleftrightarrow> unat idx = unat off div unat mp"
    by (simp add: word_unat_eq_iff unat_div)
  show ?thesis unfolding m d using p by auto
qed

definition shape_spec :: "u32 \<Rightarrow> u32 \<Rightarrow> u32 \<Rightarrow> u32 \<Rightarrow> u32 \<Rightarrow> bool \<Rightarrow> u32 \<Rightarrow> u32 \<Rightarrow> bool" where
  "shape_spec tot mp mf off len is_last idx cnt \<longleftrightarrow>
     mp \<noteq> 0 \<and> mf \<noteq> 0 \<and> unat tot + unat mp \<le> 4294967296 \<and>
     unat cnt = frag_count (unat mp) (unat tot) \<and> cnt \<le> mf \<and> idx < cnt \<and>
     frag_cuts (unat mp) (unat tot) 0 ! unat idx = (unat off, unat len, is_last)"

lemma shape_spec_zero:
  assumes mp: "mp \<noteq> 0" and mf: "mf \<noteq> 0"
  shows "shape_spec 0 mp mf off len is_last idx cnt \<longleftrightarrow>
    idx = 0 \<and> cnt = 1 \<and> off = 0 \<and> len = 0 \<and> is_last"
proof -
  have c: "frag_cuts (unat mp) 0 0 = [(0, 0, True)]" by (subst frag_cuts.simps) simp
  then have n: "frag_count (unat mp) 0 = 1" by (simp add: frag_count_def)
  have le: "1 \<le> mf" using mf by (simp add: word_le_nat_alt unat_gt_0 Suc_leI)
  have lt: "unat mp \<le> 4294967296" using unat_less_2p32 [of mp] by simp
  have cnt: "unat cnt = 1 \<longleftrightarrow> cnt = 1"
    by (metis unat_1 word_unat_eq_iff)
  have idx: "idx < 1 \<longleftrightarrow> idx = 0"
    by (metis unat_1 unat_gt_0 less_one word_less_nat_alt unat_eq_zero)
  show ?thesis
    unfolding shape_spec_def unat_0 n cnt using mp mf c le lt idx
    by (auto simp: unat_eq_zero)
qed

lemma shape_spec_pos:
  assumes mp: "mp \<noteq> 0" and mf: "mf \<noteq> 0" and tot: "tot \<noteq> 0"
    and fits: "unat tot + unat mp \<le> 4294967296"
    and cnt: "unat cnt = frag_count (unat mp) (unat tot)" and idx: "idx < cnt"
  shows "shape_spec tot mp mf off len is_last idx cnt \<longleftrightarrow>
    cnt \<le> mf \<and> off mod mp = 0 \<and> idx = off div mp \<and>
    len = (if idx = cnt - 1 then tot - idx * mp else mp) \<and> is_last = (idx = cnt - 1)"
proof -
  let ?n = "frag_count (unat mp) (unat tot)"
  have p: "0 < unat mp" "0 < unat tot" using mp tot by (simp_all add: unat_gt_0)
  have i: "unat idx < ?n" using cnt idx by (simp add: word_less_nat_alt)
  have fit: "unat idx * unat mp < 4294967296"
    using cut_offset_below [OF p i] unat_less_2p32 [of tot] by linarith
  have nth: "frag_cuts (unat mp) (unat tot) 0 ! unat idx =
      (unat idx * unat mp, min (unat mp) (unat tot - unat idx * unat mp), Suc (unat idx) = ?n)"
    using frag_cuts_nth [OF p(1), of "unat idx" "unat tot" 0] i by (simp add: frag_count_def)
  have lst: "idx = cnt - 1 \<longleftrightarrow> Suc (unat idx) = ?n"
    using last_index_iff [OF idx] cnt by simp
  have len: "len = (if Suc (unat idx) = ?n then tot - idx * mp else mp) \<longleftrightarrow>
      unat len = min (unat mp) (unat tot - unat idx * unat mp)"
    unfolding shape_expected_len [OF mp tot i, symmetric] by (rule word_unat_eq_iff)
  show ?thesis
    unfolding shape_spec_def nth lst len prod.inject
    using mp mf fits cnt idx aligned_offset_iff [OF mp fit, of off] by metis
qed

text \<open>
  C17: the receiver's shape check accepts exactly the fragments the reference cutter produces:
  it answers with an index and a count if and only if the triple of offset, length and last
  flag is the cut at that index, the count is the number of cuts and it does not exceed the
  limit. A total length whose rounding-up would wrap around is never accepted.
\<close>

theorem fragment_shape_iff:
  "tbv_native_data_fragment_shape tot mp mf off len is_last = Inr (idx, cnt) \<longleftrightarrow>
     shape_spec tot mp mf off len is_last idx cnt"
proof (cases "mp = 0 \<or> mf = 0")
  case True
  then show ?thesis by (auto simp: tbv_native_data_fragment_shape_def shape_spec_def)
next
  case False
  then have mp: "mp \<noteq> 0" and mf: "mf \<noteq> 0" by auto
  show ?thesis
  proof (cases "tot = 0")
    case True
    then show ?thesis by (simp add: shape_zero_iff [OF mp mf] shape_spec_zero [OF mp mf])
  next
    case tot: False
    have dru: "cnt = div_round_up_u32 tot mp \<longleftrightarrow> unat cnt =
        (if unat tot + unat mp \<le> 4294967296 then frag_count (unat mp) (unat tot) else 0)"
      using div_round_up_frag_count [OF mp tot] by (simp add: word_unat_eq_iff)
    show ?thesis
    proof (cases "unat tot + unat mp \<le> 4294967296
        \<and> unat cnt = frag_count (unat mp) (unat tot) \<and> idx < cnt")
      case True
      then show ?thesis
        using shape_pos_iff [OF mp mf tot] shape_spec_pos [OF mp mf tot] dru by auto
    next
      case False
      then show ?thesis
        unfolding shape_pos_iff [OF mp mf tot] dru
        by (auto simp: shape_spec_def unat_eq_zero split: if_splits)
    qed
  qed
qed

end
