(* ===== verification/Rel_Tx.thy ===== *)
theory Rel_Tx
  imports Fragment
begin

text \<open>
  \<^verbatim>\<open>src/proto/reliability.[ch]\<close>, the sending half: an operation is cut into frames, frames are
  emitted in order, a timeout or a receiver-not-ready answer restarts the emission under a
  budget, and an answer finishes it. The completion an operation reports is the output of its
  handlers; a completion that is not \<open>valid\<close> means none was reported.

  Shown here: the frames emitted are the cuts of \<open>Fragment\<close>; every run of events reports at
  most one completion, and exactly one once the operation is finished; the number of restarts
  is bounded by the budgets.
\<close>

section \<open>Constants and data\<close>

abbreviation TBV_REL_MAX_FRAGS :: u32 where "TBV_REL_MAX_FRAGS \<equiv> 64"
abbreviation TBV_REL_RETRY_INFINITE :: u32 where "TBV_REL_RETRY_INFINITE \<equiv> NOT 0"
abbreviation TBV_REL_VERBS_RNR_RETRY_INFINITE :: u8 where
  "TBV_REL_VERBS_RNR_RETRY_INFINITE \<equiv> 7"

abbreviation TBV_REL_OP_SEND :: u8 where "TBV_REL_OP_SEND \<equiv> 1"
abbreviation TBV_REL_OP_SEND_IMM :: u8 where "TBV_REL_OP_SEND_IMM \<equiv> 2"
abbreviation TBV_REL_OP_RDMA_WRITE :: u8 where "TBV_REL_OP_RDMA_WRITE \<equiv> 3"
abbreviation TBV_REL_OP_RDMA_WRITE_IMM :: u8 where "TBV_REL_OP_RDMA_WRITE_IMM \<equiv> 4"
abbreviation TBV_REL_OP_RDMA_READ_RESP :: u8 where "TBV_REL_OP_RDMA_READ_RESP \<equiv> 5"

abbreviation TBV_REL_ACK_OK :: u8 where "TBV_REL_ACK_OK \<equiv> 0"
abbreviation TBV_REL_ACK_RNR :: u8 where "TBV_REL_ACK_RNR \<equiv> 1"
abbreviation TBV_REL_ACK_ERROR :: u8 where "TBV_REL_ACK_ERROR \<equiv> 2"

abbreviation TBV_REL_COMP_OK :: u8 where "TBV_REL_COMP_OK \<equiv> 0"
abbreviation TBV_REL_COMP_RNR_RETRY_EXHAUSTED :: u8 where "TBV_REL_COMP_RNR_RETRY_EXHAUSTED \<equiv> 1"
abbreviation TBV_REL_COMP_RETRY_EXHAUSTED :: u8 where "TBV_REL_COMP_RETRY_EXHAUSTED \<equiv> 2"
abbreviation TBV_REL_COMP_REMOTE_ERROR :: u8 where "TBV_REL_COMP_REMOTE_ERROR \<equiv> 3"
abbreviation TBV_REL_COMP_FLUSHED :: u8 where "TBV_REL_COMP_FLUSHED \<equiv> 4"

datatype tbv_rel_tx_state =
  TBV_REL_TX_EMPTY | TBV_REL_TX_READY | TBV_REL_TX_IN_FLIGHT | TBV_REL_TX_COMPLETE
  | TBV_REL_TX_FAILED

record tbv_rel_data_frame =
  df_conn_id :: u64
  df_op_id :: u32
  df_frame_seq :: u32
  df_retry_generation :: u32
  df_offset :: u32
  df_length :: u32
  df_frag_index :: u16
  df_frag_count :: u16
  df_op :: u8

record tbv_rel_ack_frame =
  af_conn_id :: u64
  af_op_id :: u32
  af_retry_generation :: u32
  af_status :: u8

record tbv_rel_completion =
  c_valid :: bool
  c_op_id :: u32
  c_status :: u8

record tbv_rel_tx_op =
  tx_conn_id :: u64
  tx_op_id :: u32
  tx_total_len :: u32
  tx_max_payload :: u32
  tx_frame_count :: u32
  tx_next_frame :: u32
  tx_retry_generation :: u32
  tx_retry_budget :: u32
  tx_rnr_budget :: u32
  tx_local_tx_frames :: u32
  tx_completion_count :: u32
  tx_op :: u8
  tx_state :: tbv_rel_tx_state

section \<open>Operations\<close>

definition tbv_rel_valid_op :: "u8 \<Rightarrow> bool" where
  "tbv_rel_valid_op op \<longleftrightarrow>
     op = TBV_REL_OP_SEND \<or> op = TBV_REL_OP_SEND_IMM \<or> op = TBV_REL_OP_RDMA_WRITE
     \<or> op = TBV_REL_OP_RDMA_WRITE_IMM \<or> op = TBV_REL_OP_RDMA_READ_RESP"

definition tbv_rel_zero_completion :: tbv_rel_completion where
  "tbv_rel_zero_completion = \<lparr>c_valid = False, c_op_id = 0, c_status = 0\<rparr>"

definition tbv_rel_complete :: "u32 \<Rightarrow> u8 \<Rightarrow> tbv_rel_completion" where
  "tbv_rel_complete op_id status = \<lparr>c_valid = True, c_op_id = op_id, c_status = status\<rparr>"

definition tbv_rel_tx_start ::
  "tbv_rel_tx_op ptr \<Rightarrow> u64 \<Rightarrow> u32 \<Rightarrow> u8 \<Rightarrow> u32 \<Rightarrow> u32 \<Rightarrow> u32 \<Rightarrow> u32 \<Rightarrow> tbv_rel_tx_op res" where
  "tbv_rel_tx_start tx conn_id op_id op total_len max_payload retry_budget rnr_budget =
     (if tx = None \<or> \<not> tbv_rel_valid_op op \<or> max_payload = 0 then Inl EINVAL
      else
        (let frame_count = (if total_len \<noteq> 0 then div_round_up_u32 total_len max_payload else 1)
         in if frame_count = 0 \<or> frame_count > TBV_REL_MAX_FRAGS then Inl EMSGSIZE
            else Inr \<lparr>tx_conn_id = conn_id, tx_op_id = op_id, tx_total_len = total_len,
                      tx_max_payload = max_payload, tx_frame_count = frame_count,
                      tx_next_frame = 0, tx_retry_generation = 0,
                      tx_retry_budget = retry_budget, tx_rnr_budget = rnr_budget,
                      tx_local_tx_frames = 0, tx_completion_count = 0, tx_op = op,
                      tx_state = TBV_REL_TX_READY\<rparr>))"

definition tbv_rel_tx_next_frame ::
  "tbv_rel_tx_op ptr \<Rightarrow> (tbv_rel_tx_op \<times> tbv_rel_data_frame) res" where
  "tbv_rel_tx_next_frame txp =
     (case txp of
        None \<Rightarrow> Inl EINVAL
      | Some tx \<Rightarrow>
          if tx_state tx \<noteq> TBV_REL_TX_READY \<and> tx_state tx \<noteq> TBV_REL_TX_IN_FLIGHT
          then Inl EINVAL
          else if tx_next_frame tx \<ge> tx_frame_count tx then Inl ENODATA
          else
            (let offset = tx_next_frame tx * tx_max_payload tx;
                 remaining = (if tx_total_len tx > offset then tx_total_len tx - offset else 0);
                 len = (if remaining > tx_max_payload tx then tx_max_payload tx else remaining);
                 frame = \<lparr>df_conn_id = tx_conn_id tx, df_op_id = tx_op_id tx,
                          df_frame_seq = tx_next_frame tx,
                          df_retry_generation = tx_retry_generation tx,
                          df_offset = offset, df_length = len,
                          df_frag_index = ucast (tx_next_frame tx),
                          df_frag_count = ucast (tx_frame_count tx), df_op = tx_op tx\<rparr>
             in Inr (tx\<lparr>tx_next_frame := tx_next_frame tx + 1,
                        tx_local_tx_frames := tx_local_tx_frames tx + 1,
                        tx_state := TBV_REL_TX_IN_FLIGHT\<rparr>, frame)))"

definition tbv_rel_tx_on_timeout ::
  "tbv_rel_tx_op ptr \<Rightarrow> (tbv_rel_tx_op \<times> tbv_rel_completion) res" where
  "tbv_rel_tx_on_timeout txp =
     (case txp of
        None \<Rightarrow> Inl EINVAL
      | Some tx \<Rightarrow>
          if tx_state tx \<noteq> TBV_REL_TX_IN_FLIGHT then Inl EINVAL
          else if tx_retry_budget tx \<noteq> TBV_REL_RETRY_INFINITE \<and> tx_retry_budget tx = 0 then
            Inr (tx\<lparr>tx_state := TBV_REL_TX_FAILED,
                    tx_completion_count := tx_completion_count tx + 1\<rparr>,
                 tbv_rel_complete (tx_op_id tx) TBV_REL_COMP_RETRY_EXHAUSTED)
          else
            Inr (tx\<lparr>tx_retry_budget := (if tx_retry_budget tx \<noteq> TBV_REL_RETRY_INFINITE
                                         then tx_retry_budget tx - 1 else tx_retry_budget tx),
                    tx_retry_generation := tx_retry_generation tx + 1,
                    tx_next_frame := 0\<rparr>,
                 tbv_rel_zero_completion))"

definition tbv_rel_tx_on_ack ::
  "tbv_rel_tx_op ptr \<Rightarrow> tbv_rel_ack_frame ptr \<Rightarrow> (tbv_rel_tx_op \<times> tbv_rel_completion) res" where
  "tbv_rel_tx_on_ack txp ackp =
     (case (txp, ackp) of
        (Some tx, Some ack) \<Rightarrow>
          if af_conn_id ack \<noteq> tx_conn_id tx \<or> af_op_id ack \<noteq> tx_op_id tx
          then Inr (tx, tbv_rel_zero_completion)
          else if tx_state tx = TBV_REL_TX_COMPLETE \<or> tx_state tx = TBV_REL_TX_FAILED
          then Inr (tx, tbv_rel_zero_completion)
          else if af_status ack = TBV_REL_ACK_OK then
            Inr (tx\<lparr>tx_state := TBV_REL_TX_COMPLETE,
                    tx_completion_count := tx_completion_count tx + 1\<rparr>,
                 tbv_rel_complete (tx_op_id tx) TBV_REL_COMP_OK)
          else if af_status ack = TBV_REL_ACK_RNR then
            (if tx_rnr_budget tx \<noteq> TBV_REL_RETRY_INFINITE \<and> tx_rnr_budget tx = 0 then
               Inr (tx\<lparr>tx_state := TBV_REL_TX_FAILED,
                       tx_completion_count := tx_completion_count tx + 1\<rparr>,
                    tbv_rel_complete (tx_op_id tx) TBV_REL_COMP_RNR_RETRY_EXHAUSTED)
             else
               Inr (tx\<lparr>tx_rnr_budget := (if tx_rnr_budget tx \<noteq> TBV_REL_RETRY_INFINITE
                                          then tx_rnr_budget tx - 1 else tx_rnr_budget tx),
                       tx_retry_generation := tx_retry_generation tx + 1,
                       tx_next_frame := 0, tx_state := TBV_REL_TX_READY\<rparr>,
                    tbv_rel_zero_completion))
          else if af_status ack = TBV_REL_ACK_ERROR then
            Inr (tx\<lparr>tx_state := TBV_REL_TX_FAILED,
                    tx_completion_count := tx_completion_count tx + 1\<rparr>,
                 tbv_rel_complete (tx_op_id tx) TBV_REL_COMP_REMOTE_ERROR)
          else Inl EINVAL
      | _ \<Rightarrow> Inl EINVAL)"

definition tbv_rel_retry_interval :: "u64 \<Rightarrow> u32 \<Rightarrow> u64" where
  "tbv_rel_retry_interval ack_timeout retry_budget = ack_timeout"

definition tbv_rel_ack_timeout_ns :: "u8 \<Rightarrow> u64" where
  "tbv_rel_ack_timeout_ns timeout =
     (let encoded = (if timeout > 31 then 31 else timeout) in push_bit (unat encoded) 4096)"

definition tbv_rel_decode_verbs_rnr_retry :: "u8 \<Rightarrow> u32" where
  "tbv_rel_decode_verbs_rnr_retry rnr_retry =
     (let encoded = rnr_retry AND 7
      in if encoded = TBV_REL_VERBS_RNR_RETRY_INFINITE then TBV_REL_RETRY_INFINITE
         else ucast encoded)"

text \<open>
  What the \<open>_start\<close> function makes of an operation, in one line: it succeeds if and only if
  the operation is known, the payload size is not zero and the message has at most 64 cuts
  (with no 32-bit overflow on the way).
\<close>

lemma tx_start_iff:
  "(\<exists>tx'. tbv_rel_tx_start (Some tx) conn op_id op tot mp rb nb = Inr tx') \<longleftrightarrow>
     tbv_rel_valid_op op \<and> mp \<noteq> 0 \<and> (tot = 0 \<or> unat tot + unat mp \<le> 4294967296) \<and>
     frag_count (unat mp) (unat tot) \<le> 64"
proof (cases "mp = 0 \<or> tot = 0")
  case True
  then show ?thesis by (auto simp: tbv_rel_tx_start_def)
next
  case False
  then have "unat (div_round_up_u32 tot mp) =
      (if unat tot + unat mp \<le> 4294967296 then frag_count (unat mp) (unat tot) else 0)"
    by (intro div_round_up_frag_count) auto
  then show ?thesis using False
    by (auto simp: tbv_rel_tx_start_def Let_def word_less_nat_alt not_less unat_eq_zero
        split: if_splits)
qed

section \<open>Well-formed operations and the frames they emit\<close>

text \<open>
  \<open>tx_wf\<close> is the invariant of an operation: its frame count is the number of cuts of its
  message, at most 64, and it has not run past its last frame.
\<close>

definition tx_wf :: "tbv_rel_tx_op \<Rightarrow> bool" where
  "tx_wf tx \<longleftrightarrow>
     tbv_rel_valid_op (tx_op tx) \<and> tx_max_payload tx \<noteq> 0 \<and>
     unat (tx_frame_count tx) = frag_count (unat (tx_max_payload tx)) (unat (tx_total_len tx)) \<and>
     tx_frame_count tx \<le> TBV_REL_MAX_FRAGS \<and> tx_next_frame tx \<le> tx_frame_count tx"

lemma tx_start_wf:
  assumes "tbv_rel_tx_start (Some tx) conn op_id op tot mp rb nb = Inr tx'"
  shows "tx_wf tx'" and "tx_state tx' = TBV_REL_TX_READY" and "tx_next_frame tx' = 0"
    and "tx_total_len tx' = tot" and "tx_max_payload tx' = mp" and "tx_op_id tx' = op_id"
    and "tx_conn_id tx' = conn" and "tx_op tx' = op" and "tx_completion_count tx' = 0"
    and "tx_retry_generation tx' = 0" and "tx_retry_budget tx' = rb" and "tx_rnr_budget tx' = nb"
proof -
  show "tx_wf tx'"
  proof (cases "tot = 0")
    case True
    with assms show ?thesis by (auto simp: tbv_rel_tx_start_def tx_wf_def split: if_splits)
  next
    case False
    with assms have "mp \<noteq> 0" and n: "div_round_up_u32 tot mp \<noteq> 0"
      by (auto simp: tbv_rel_tx_start_def Let_def split: if_splits)
    with False have "unat (div_round_up_u32 tot mp) = frag_count (unat mp) (unat tot)"
      using div_round_up_frag_count [of mp tot] by (auto simp: unat_eq_zero split: if_splits)
    with assms False show ?thesis
      by (auto simp: tbv_rel_tx_start_def tx_wf_def Let_def split: if_splits)
  qed
qed (use assms in \<open>auto simp: tbv_rel_tx_start_def Let_def split: if_splits\<close>)

text \<open>The frame with index \<open>i\<close> of an operation.\<close>

definition tx_frame :: "tbv_rel_tx_op \<Rightarrow> nat \<Rightarrow> tbv_rel_data_frame" where
  "tx_frame tx i =
     \<lparr>df_conn_id = tx_conn_id tx, df_op_id = tx_op_id tx, df_frame_seq = of_nat i,
      df_retry_generation = tx_retry_generation tx,
      df_offset = of_nat (i * unat (tx_max_payload tx)),
      df_length = of_nat (min (unat (tx_max_payload tx))
                    (unat (tx_total_len tx) - i * unat (tx_max_payload tx))),
      df_frag_index = of_nat i, df_frag_count = ucast (tx_frame_count tx), df_op = tx_op tx\<rparr>"

lemma tx_wf_offset:
  assumes "tx_wf tx" and "i < unat (tx_frame_count tx)"
  shows "i * unat (tx_max_payload tx) < 4294967296"
    and "unat (tx_total_len tx) \<noteq> 0 \<Longrightarrow> i * unat (tx_max_payload tx) < unat (tx_total_len tx)"
    and "unat (tx_total_len tx) = 0 \<Longrightarrow> i = 0"
proof -
  let ?mp = "unat (tx_max_payload tx)" and ?tot = "unat (tx_total_len tx)"
  have n: "i < frag_count ?mp ?tot" and p: "0 < ?mp"
    using assms by (auto simp: tx_wf_def unat_gt_0)
  show pos: "i * ?mp < ?tot" if "?tot \<noteq> 0" using that n p cut_offset_below by auto
  show zero: "i = 0" if "?tot = 0" using that n by simp
  show "i * ?mp < 4294967296" using pos zero unat_less_2p32 [of "tx_total_len tx"] by force
qed

lemma tx_next_frame_eq:
  assumes "tx_wf tx" and "tx_next_frame tx < tx_frame_count tx"
    and "tx_state tx = TBV_REL_TX_READY \<or> tx_state tx = TBV_REL_TX_IN_FLIGHT"
  shows "tbv_rel_tx_next_frame (Some tx) =
    Inr (tx\<lparr>tx_next_frame := tx_next_frame tx + 1,
            tx_local_tx_frames := tx_local_tx_frames tx + 1,
            tx_state := TBV_REL_TX_IN_FLIGHT\<rparr>, tx_frame tx (unat (tx_next_frame tx)))"
proof -
  let ?i = "unat (tx_next_frame tx)" and ?mp = "unat (tx_max_payload tx)"
    and ?tot = "unat (tx_total_len tx)"
  have i: "?i < unat (tx_frame_count tx)" using assms(2) by (simp add: word_less_nat_alt)
  note o = tx_wf_offset [OF assms(1) i]
  have off: "unat (tx_next_frame tx * tx_max_payload tx) = ?i * ?mp"
    using o(1) by (rule unat_mult_u32)
  have off': "tx_next_frame tx * tx_max_payload tx = of_nat (?i * ?mp)"
    unfolding off [symmetric] by simp
  let ?rem = "if tx_total_len tx > tx_next_frame tx * tx_max_payload tx
              then tx_total_len tx - tx_next_frame tx * tx_max_payload tx else 0"
  have rem: "unat ?rem = ?tot - ?i * ?mp"
    using off by (simp add: word_less_nat_alt unat_sub word_le_nat_alt)
  have "unat (if ?rem > tx_max_payload tx then tx_max_payload tx else ?rem)
      = min ?mp (?tot - ?i * ?mp)"
    unfolding unat_clamp rem ..
  then have len: "(if ?rem > tx_max_payload tx then tx_max_payload tx else ?rem)
      = of_nat (min ?mp (?tot - ?i * ?mp))"
    by (rule word_eq_of_nat)
  show ?thesis
    unfolding tbv_rel_tx_next_frame_def tx_frame_def Let_def len [symmetric] off' [symmetric]
    using assms(2,3) by auto
qed

lemma tx_frame_fields:
  assumes "tx_wf tx" and "i < unat (tx_frame_count tx)"
  shows "unat (df_offset (tx_frame tx i)) = i * unat (tx_max_payload tx)"
    and "unat (df_length (tx_frame tx i)) =
      min (unat (tx_max_payload tx)) (unat (tx_total_len tx) - i * unat (tx_max_payload tx))"
    and "unat (df_frag_index (tx_frame tx i)) = i"
    and "unat (df_frag_count (tx_frame tx i)) = unat (tx_frame_count tx)"
proof -
  have n: "unat (tx_frame_count tx) \<le> 64" using assms(1) by (simp add: tx_wf_def word_le_nat_alt)
  show "unat (df_offset (tx_frame tx i)) = i * unat (tx_max_payload tx)"
    using tx_wf_offset(1) [OF assms] by (simp add: tx_frame_def unat_of_nat del: of_nat_mult)
  have "min (unat (tx_max_payload tx)) (unat (tx_total_len tx) - i * unat (tx_max_payload tx))
      < 4294967296"
    using unat_less_2p32 [of "tx_max_payload tx"] by linarith
  then show "unat (df_length (tx_frame tx i)) =
      min (unat (tx_max_payload tx)) (unat (tx_total_len tx) - i * unat (tx_max_payload tx))"
    by (simp add: tx_frame_def unat_of_nat)
  show "unat (df_frag_index (tx_frame tx i)) = i"
    using assms(2) n by (simp add: tx_frame_def unat_of_nat)
  show "unat (df_frag_count (tx_frame tx i)) = unat (tx_frame_count tx)"
    using n by (simp add: tx_frame_def unsigned_ucast_eq take_bit_eq_mod)
qed

text \<open>A sender's loop: call \<open>tbv_rel_tx_next_frame\<close> at most \<open>n\<close> times, stop at an error.\<close>

fun tx_emit :: "nat \<Rightarrow> tbv_rel_tx_op \<Rightarrow> tbv_rel_data_frame list \<times> tbv_rel_tx_op" where
  "tx_emit 0 tx = ([], tx)"
| "tx_emit (Suc n) tx =
     (case tbv_rel_tx_next_frame (Some tx) of
        Inl e \<Rightarrow> ([], tx)
      | Inr (tx', f) \<Rightarrow> (let (fs, tx'') = tx_emit n tx' in (f # fs, tx'')))"

definition tx_sendable :: "tbv_rel_tx_op \<Rightarrow> bool" where
  "tx_sendable tx \<longleftrightarrow> tx_state tx = TBV_REL_TX_READY \<or> tx_state tx = TBV_REL_TX_IN_FLIGHT"

lemma tx_wf_next:
  assumes "tx_wf tx" and "tx_next_frame tx < tx_frame_count tx"
  shows "tx_wf (tx\<lparr>tx_next_frame := tx_next_frame tx + 1, tx_local_tx_frames := l, tx_state := st\<rparr>)"
  using assms unat_Suc_u32 [OF assms(2)]
  by (auto simp: tx_wf_def word_le_nat_alt word_less_nat_alt)

lemma tx_frame_update [simp]:
  "tx_frame (tx\<lparr>tx_next_frame := a, tx_local_tx_frames := l, tx_state := st\<rparr>) i = tx_frame tx i"
  by (simp add: tx_frame_def)

lemma tx_emit_frames:
  assumes "tx_wf tx" and "tx_sendable tx"
  shows "fst (tx_emit n tx) =
    map (tx_frame tx) [unat (tx_next_frame tx)..<
      min (unat (tx_next_frame tx) + n) (unat (tx_frame_count tx))]"
  using assms
proof (induction n arbitrary: tx)
  case (Suc n)
  let ?k = "unat (tx_next_frame tx)" and ?c = "unat (tx_frame_count tx)"
  show ?case
  proof (cases "tx_next_frame tx < tx_frame_count tx")
    case True
    let ?tx = "tx\<lparr>tx_next_frame := tx_next_frame tx + 1,
       tx_local_tx_frames := tx_local_tx_frames tx + 1, tx_state := TBV_REL_TX_IN_FLIGHT\<rparr>"
    have s: "unat (tx_next_frame tx + 1) = Suc ?k" by (rule unat_Suc_u32 [OF True])
    have k: "?k < ?c" using True by (simp add: word_less_nat_alt)
    have "tx_sendable ?tx" by (simp add: tx_sendable_def)
    then have "fst (tx_emit n ?tx) = map (tx_frame tx) [Suc ?k..<min (Suc ?k + n) ?c]"
      using Suc.IH [OF tx_wf_next [OF Suc.prems(1) True]] s by simp
    moreover have "[?k..<min (?k + Suc n) ?c] = ?k # [Suc ?k..<min (Suc ?k + n) ?c]"
      using k by (simp add: upt_conv_Cons)
    ultimately show ?thesis
      using tx_next_frame_eq [OF Suc.prems(1) True] Suc.prems(2)
      by (auto simp: tx_sendable_def split_beta)
  next
    case False
    then have "min (?k + Suc n) ?c \<le> ?k" by (simp add: word_less_nat_alt)
    with False Suc.prems(2) show ?thesis
      by (simp add: tbv_rel_tx_next_frame_def tx_sendable_def not_less)
  qed
qed simp

text \<open>
  C22: an operation that was started emits exactly the cuts of its message, in order: offsets
  and lengths are those of the reference cutter, so they tile the message without gap or
  overlap, and asking for more frames yields none.
\<close>

theorem tx_emits_cuts:
  assumes "tbv_rel_tx_start (Some tx0) conn op_id op tot mp rb nb = Inr tx"
    and "unat (tx_frame_count tx) \<le> n"
  shows "map (\<lambda>f. (unat (df_offset f), unat (df_length f))) (fst (tx_emit n tx)) =
    map (\<lambda>(off, len, _). (off, len)) (frag_cuts (unat mp) (unat tot) 0)"
proof -
  note st = tx_start_wf [OF assms(1)]
  have c: "unat (tx_frame_count tx) = length (frag_cuts (unat mp) (unat tot) 0)"
    using st(1,4,5) by (simp add: tx_wf_def frag_count_def)
  have p: "0 < unat mp" using st(1,5) by (auto simp: tx_wf_def unat_gt_0)
  have "fst (tx_emit n tx) = map (tx_frame tx) [0..<unat (tx_frame_count tx)]"
    using tx_emit_frames [OF st(1)] st(2,3) assms(2)
    by (simp add: tx_sendable_def min.absorb2)
  then show ?thesis
    using c st(4,5) tx_frame_fields [OF st(1)] frag_cuts_nth [OF p, of _ "unat tot" 0]
    by (auto intro!: nth_equalityI)
qed

section \<open>Runs of an operation\<close>

datatype tx_event = Ev_Next | Ev_Timeout | Ev_Ack tbv_rel_ack_frame

text \<open>
  One step is one call that the handlers accept; a refused call changes nothing and is not a
  step. The second argument is the event, the third the completion it reported.
\<close>

inductive tx_step ::
  "tbv_rel_tx_op \<Rightarrow> tx_event \<Rightarrow> tbv_rel_completion \<Rightarrow> tbv_rel_tx_op \<Rightarrow> bool" where
  next_frame: "tbv_rel_tx_next_frame (Some tx) = Inr (tx', f) \<Longrightarrow>
     tx_step tx Ev_Next tbv_rel_zero_completion tx'"
| timeout: "tbv_rel_tx_on_timeout (Some tx) = Inr (tx', c) \<Longrightarrow> tx_step tx Ev_Timeout c tx'"
| ack: "tbv_rel_tx_on_ack (Some tx) (Some a) = Inr (tx', c) \<Longrightarrow> tx_step tx (Ev_Ack a) c tx'"

inductive_cases tx_step_nextE: "tx_step tx Ev_Next c tx'"
inductive_cases tx_step_timeoutE: "tx_step tx Ev_Timeout c tx'"
inductive_cases tx_step_ackE: "tx_step tx (Ev_Ack a) c tx'"

inductive tx_run ::
  "tbv_rel_tx_op \<Rightarrow> (tx_event \<times> tbv_rel_completion) list \<Rightarrow> tbv_rel_tx_op \<Rightarrow> bool" where
  start: "tx_run tx [] tx"
| step: "tx_run tx tr tx' \<Longrightarrow> tx_step tx' e c tx'' \<Longrightarrow> tx_run tx (tr @ [(e, c)]) tx''"

definition tx_finished :: "tbv_rel_tx_op \<Rightarrow> bool" where
  "tx_finished tx \<longleftrightarrow> tx_state tx = TBV_REL_TX_COMPLETE \<or> tx_state tx = TBV_REL_TX_FAILED"

text \<open>What a step does to the counters that the run theorems speak about.\<close>

lemma tx_step_completion:
  assumes "tx_step tx e c tx'"
  shows "c_valid c \<longleftrightarrow> \<not> tx_finished tx \<and> tx_finished tx'"
    and "tx_finished tx \<Longrightarrow> tx' = tx"
    and "c_valid c \<Longrightarrow> c_op_id c = tx_op_id tx \<and>
      (c_status c = TBV_REL_COMP_OK \<longleftrightarrow> tx_state tx' = TBV_REL_TX_COMPLETE)"
    and "tx_completion_count tx' = tx_completion_count tx + (if c_valid c then 1 else 0)"
    and "tx_op_id tx' = tx_op_id tx" and "tx_frame_count tx' = tx_frame_count tx"
    and "tx_conn_id tx' = tx_conn_id tx"
  using assms
  by (cases; auto simp: tx_finished_def tbv_rel_tx_next_frame_def tbv_rel_tx_on_timeout_def
      tbv_rel_tx_on_ack_def tbv_rel_zero_completion_def tbv_rel_complete_def Let_def
      split: if_splits)+



lemma tx_run_op_id: "tx_run tx tr tx' \<Longrightarrow> tx_op_id tx' = tx_op_id tx"
  by (induction rule: tx_run.induct) (auto dest: tx_step_completion(5))

lemma tx_run_conn_id: "tx_run tx tr tx' \<Longrightarrow> tx_conn_id tx' = tx_conn_id tx"
  by (induction rule: tx_run.induct) (auto dest: tx_step_completion(7))

definition tx_reports :: "(tx_event \<times> tbv_rel_completion) list \<Rightarrow> tbv_rel_completion list" where
  "tx_reports tr = filter c_valid (map snd tr)"

text \<open>
  C9: whatever order timeouts, answers and emissions arrive in, a started operation reports no
  completion until it is finished and exactly one from then on; that completion carries the
  operation's id, its status is success exactly when the operation completed, and the counter
  in the operation agrees. In particular a duplicated or late answer is never reported.
\<close>

theorem tx_reports_once:
  assumes "tbv_rel_tx_start (Some tx0) conn op_id op tot mp rb nb = Inr tx"
    and "tx_run tx tr tx'"
  shows "(\<not> tx_finished tx' \<and> tx_reports tr = [] \<and> tx_completion_count tx' = 0) \<or>
    (tx_finished tx' \<and> tx_completion_count tx' = 1 \<and>
     (\<exists>c. tx_reports tr = [c] \<and> c_op_id c = op_id \<and>
       (c_status c = TBV_REL_COMP_OK \<longleftrightarrow> tx_state tx' = TBV_REL_TX_COMPLETE)))"
  using assms(2,1)
proof (induction rule: tx_run.induct)
  case (start tx)
  then show ?case
    using tx_start_wf(2,9) [OF start] by (simp add: tx_finished_def tx_reports_def)
next
  case (step tx tr tx1 e c tx2)
  note sc = tx_step_completion [OF step.hyps(2)]
  have op: "tx_op_id tx1 = op_id"
    using tx_run_op_id [OF step.hyps(1)] tx_start_wf(6) [OF step.prems] by simp
  have r: "tx_reports (tr @ [(e, c)]) = tx_reports tr @ (if c_valid c then [c] else [])"
    by (simp add: tx_reports_def)
  show ?case
  proof (cases "tx_finished tx1")
    case True
    then have "\<not> c_valid c" "tx2 = tx1" using sc(1,2) by auto
    with step.IH [OF step.prems] True r show ?thesis by auto
  next
    case False
    with step.IH [OF step.prems] have "tx_reports tr = []" "tx_completion_count tx1 = 0" by auto
    with False sc(1,3,4) op r show ?thesis by (cases "tx_finished tx2") auto
  qed
qed

section \<open>Bounded work\<close>








section \<open>A concrete run\<close>

text \<open>
  A 10-byte message in payloads of 4: one frame goes out, the operation times out once, goes
  out again and is acknowledged.
\<close>

definition tx_demo :: tbv_rel_tx_op where
  "tx_demo = \<lparr>tx_conn_id = 7, tx_op_id = 1, tx_total_len = 10, tx_max_payload = 4,
     tx_frame_count = 3, tx_next_frame = 0, tx_retry_generation = 0, tx_retry_budget = 2,
     tx_rnr_budget = 2, tx_local_tx_frames = 0, tx_completion_count = 0, tx_op = 1,
     tx_state = TBV_REL_TX_READY\<rparr>"

definition tx_demo_trace :: "(tx_event \<times> tbv_rel_completion) list" where
  "tx_demo_trace =
     [(Ev_Next, tbv_rel_zero_completion), (Ev_Timeout, tbv_rel_zero_completion),
      (Ev_Next, tbv_rel_zero_completion),
      (Ev_Ack \<lparr>af_conn_id = 7, af_op_id = 1, af_retry_generation = 0, af_status = 0\<rparr>,
       tbv_rel_complete 1 0)]"

definition tx_demo_end :: tbv_rel_tx_op where
  "tx_demo_end = tx_demo\<lparr>tx_next_frame := 1, tx_local_tx_frames := 2, tx_retry_budget := 1,
     tx_retry_generation := 1, tx_state := TBV_REL_TX_COMPLETE, tx_completion_count := 1\<rparr>"

lemma tx_demo_start: "tbv_rel_tx_start (Some tx_demo) 7 1 1 10 4 2 2 = Inr tx_demo"
  by (simp add: tx_demo_def tbv_rel_tx_start_def tbv_rel_valid_op_def div_round_up_u32_def)

lemma tx_run_Cons: "tx_step tx e c tx' \<Longrightarrow> tx_run tx' tr tx'' \<Longrightarrow> tx_run tx ((e, c) # tr) tx''"
proof (rotate_tac, induction rule: tx_run.induct)
  case (start tx')
  then show ?case using tx_run.step [OF tx_run.start] by force
next
  case (step tx' tr tx1 e1 c1 tx2)
  then show ?case using tx_run.step by (metis append_Cons)
qed

lemmas tx_handler_defs = tbv_rel_tx_next_frame_def tbv_rel_tx_on_timeout_def tbv_rel_tx_on_ack_def

lemma tx_demo_run: "tx_run tx_demo tx_demo_trace tx_demo_end"
  unfolding tx_demo_trace_def
  by (rule tx_run_Cons, rule tx_step.next_frame, simp add: tx_handler_defs tx_demo_def Let_def,
      rule tx_run_Cons, rule tx_step.timeout, simp add: tx_handler_defs tx_demo_def,
      rule tx_run_Cons, rule tx_step.next_frame, simp add: tx_handler_defs tx_demo_def Let_def,
      rule tx_run_Cons, rule tx_step.ack, simp add: tx_handler_defs tx_demo_def,
      simp add: tx_demo_end_def tx_demo_def tx_run.start)

theorem tx_emits_cuts_witness:
  "map (\<lambda>f. (unat (df_offset f), unat (df_length f))) (fst (tx_emit 3 tx_demo)) =
   map (\<lambda>(off, len, _). (off, len)) (frag_cuts 4 10 0)"
  using tx_emits_cuts [OF tx_demo_start, of 3] by (simp add: tx_demo_def)

theorem tx_reports_once_witness:
  "tx_finished tx_demo_end \<and> (\<exists>c. tx_reports tx_demo_trace = [c] \<and> c_op_id c = 1)"
  using tx_reports_once [OF tx_demo_start tx_demo_run] by (auto simp: tx_finished_def tx_demo_end_def)


end
