(* ===== verification/Rel_Rx.thy ===== *)
theory Rel_Rx
  imports Rel_Tx
begin

text \<open>
  \<^verbatim>\<open>src/proto/reliability.[ch]\<close>, the receiving half: one operation at a time is reassembled
  under a bitmap of received fragments, its acknowledgement is remembered in a 16-entry
  history, and a frame of a remembered operation is answered from there.

  Shown here: any arrival order of the frames of an operation, with any duplicates, produces
  exactly one completion, at the frame that closes the last gap, and the received length is
  the message's length; frames of an operation still in the history never produce another one.
\<close>

abbreviation TBV_REL_ACK_HISTORY_SIZE :: nat where "TBV_REL_ACK_HISTORY_SIZE \<equiv> 16"

record tbv_rel_rx_event =
  ev_ack_valid :: bool
  ev_completion_valid :: bool
  ev_duplicate :: bool
  ev_stale :: bool
  ev_rnr :: bool
  ev_ack :: tbv_rel_ack_frame
  ev_completion :: tbv_rel_completion

record tbv_rel_rx_ack_history_entry =
  he_valid :: bool
  he_op_id :: u32
  he_ack :: tbv_rel_ack_frame

record tbv_rel_rx_op =
  rx_conn_id :: u64
  rx_max_payload :: u32
  rx_op_id :: u32
  rx_total_len :: u32
  rx_frame_count :: u32
  rx_received_count :: u32
  rx_completion_count :: u32
  rx_ack_history_next :: u32
  rx_received_bitmap :: u64
  rx_cached_ack :: tbv_rel_ack_frame
  rx_ack_history :: "tbv_rel_rx_ack_history_entry list"
  rx_op :: u8
  rx_active :: bool
  rx_accepted :: bool

definition zero_ack :: tbv_rel_ack_frame where
  "zero_ack = \<lparr>af_conn_id = 0, af_op_id = 0, af_retry_generation = 0, af_status = 0\<rparr>"

definition zero_history_entry :: tbv_rel_rx_ack_history_entry where
  "zero_history_entry = \<lparr>he_valid = False, he_op_id = 0, he_ack = zero_ack\<rparr>"

definition zero_event :: tbv_rel_rx_event where
  "zero_event = \<lparr>ev_ack_valid = False, ev_completion_valid = False, ev_duplicate = False,
     ev_stale = False, ev_rnr = False, ev_ack = zero_ack,
     ev_completion = tbv_rel_zero_completion\<rparr>"

section \<open>Operations\<close>

definition tbv_rel_build_ack :: "tbv_rel_data_frame \<Rightarrow> u8 \<Rightarrow> tbv_rel_ack_frame" where
  "tbv_rel_build_ack frame status =
     \<lparr>af_conn_id = df_conn_id frame, af_op_id = df_op_id frame,
      af_retry_generation = df_retry_generation frame, af_status = status\<rparr>"

text \<open>The first valid history entry of the frame's operation, as the C loop finds it.\<close>

definition tbv_rel_rx_find_cached_ack ::
  "tbv_rel_rx_op \<Rightarrow> tbv_rel_data_frame \<Rightarrow> tbv_rel_ack_frame option" where
  "tbv_rel_rx_find_cached_ack rx frame =
     map_option he_ack
       (find (\<lambda>entry. he_valid entry \<and> he_op_id entry = df_op_id frame) (rx_ack_history rx))"

definition tbv_rel_rx_store_cached_ack ::
  "tbv_rel_rx_op \<Rightarrow> tbv_rel_ack_frame \<Rightarrow> tbv_rel_rx_op" where
  "tbv_rel_rx_store_cached_ack rx ack =
     rx\<lparr>rx_ack_history := (rx_ack_history rx)
          [unat (rx_ack_history_next rx) mod TBV_REL_ACK_HISTORY_SIZE :=
             \<lparr>he_valid = True, he_op_id = af_op_id ack, he_ack = ack\<rparr>],
        rx_ack_history_next := rx_ack_history_next rx + 1\<rparr>"

definition tbv_rel_rx_init :: "u64 \<Rightarrow> u32 \<Rightarrow> tbv_rel_rx_op" where
  "tbv_rel_rx_init conn_id max_payload =
     \<lparr>rx_conn_id = conn_id, rx_max_payload = max_payload, rx_op_id = 0, rx_total_len = 0,
      rx_frame_count = 0, rx_received_count = 0, rx_completion_count = 0,
      rx_ack_history_next = 0, rx_received_bitmap = 0, rx_cached_ack = zero_ack,
      rx_ack_history = replicate TBV_REL_ACK_HISTORY_SIZE zero_history_entry,
      rx_op = 0, rx_active = False, rx_accepted = False\<rparr>"

definition tbv_rel_rx_validate_frame ::
  "tbv_rel_rx_op ptr \<Rightarrow> tbv_rel_data_frame ptr \<Rightarrow> unit res" where
  "tbv_rel_rx_validate_frame rxp framep =
     (case (rxp, framep) of
        (Some rx, Some frame) \<Rightarrow>
          if \<not> tbv_rel_valid_op (df_op frame) then Inl EINVAL
          else if rx_max_payload rx = 0 \<or> df_frag_count frame = 0
               \<or> ucast (df_frag_count frame) > TBV_REL_MAX_FRAGS
               \<or> df_frag_index frame \<ge> df_frag_count frame then Inl EINVAL
          else if df_offset frame \<noteq> ucast (df_frag_index frame) * rx_max_payload rx
          then Inl EINVAL
          else if df_length frame > rx_max_payload rx then Inl EMSGSIZE
          else Inr ()
      | _ \<Rightarrow> Inl EINVAL)"

text \<open>The reassembly step of \<open>tbv_rel_rx_on_data\<close>, once the receiver works on the operation.\<close>

definition rx_reassemble ::
  "tbv_rel_rx_op \<Rightarrow> tbv_rel_data_frame \<Rightarrow> (tbv_rel_rx_op \<times> tbv_rel_rx_event) res" where
  "rx_reassemble rx frame =
     (if df_op_id frame \<noteq> rx_op_id rx \<or> df_op frame \<noteq> rx_op rx
         \<or> ucast (df_frag_count frame) \<noteq> rx_frame_count rx then Inl EBUSY
      else
        (let b = push_bit (unat (df_frag_index frame)) 1;
             dup = (rx_received_bitmap rx AND b \<noteq> 0);
             ev = zero_event\<lparr>ev_duplicate := dup\<rparr>;
             rx = (if dup then rx
                   else rx\<lparr>rx_received_bitmap := rx_received_bitmap rx OR b,
                           rx_received_count := rx_received_count rx + 1,
                           rx_total_len := rx_total_len rx + df_length frame\<rparr>)
         in if rx_received_count rx = rx_frame_count rx then
              (let ack = tbv_rel_build_ack frame TBV_REL_ACK_OK;
                   rx = rx\<lparr>rx_accepted := True, rx_active := False,
                           rx_completion_count := rx_completion_count rx + 1,
                           rx_cached_ack := ack\<rparr>
               in Inr (tbv_rel_rx_store_cached_ack rx ack,
                       ev\<lparr>ev_ack_valid := True, ev_ack := ack, ev_completion_valid := True,
                          ev_completion := tbv_rel_complete (df_op_id frame) TBV_REL_COMP_OK\<rparr>))
            else Inr (rx, ev)))"

definition tbv_rel_rx_on_data ::
  "tbv_rel_rx_op ptr \<Rightarrow> tbv_rel_data_frame ptr \<Rightarrow> bool
     \<Rightarrow> (tbv_rel_rx_op \<times> tbv_rel_rx_event) res" where
  "tbv_rel_rx_on_data rxp framep recv_available =
     (case tbv_rel_rx_validate_frame rxp framep of
        Inl e \<Rightarrow> Inl e
      | Inr _ \<Rightarrow>
          (let rx = the rxp; frame = the framep
           in if df_conn_id frame \<noteq> rx_conn_id rx then Inr (rx, zero_event\<lparr>ev_stale := True\<rparr>)
              else if rx_active rx then rx_reassemble rx frame
              else
                (case tbv_rel_rx_find_cached_ack rx frame of
                   Some ack \<Rightarrow>
                     Inr (rx, zero_event\<lparr>ev_duplicate := True, ev_ack_valid := True, ev_ack := ack\<rparr>)
                 | None \<Rightarrow>
                     if \<not> recv_available then
                       Inr (rx, zero_event\<lparr>ev_rnr := True, ev_ack_valid := True,
                                  ev_ack := tbv_rel_build_ack frame TBV_REL_ACK_RNR\<rparr>)
                     else
                       rx_reassemble
                         (rx\<lparr>rx_active := True, rx_op_id := df_op_id frame, rx_op := df_op frame,
                             rx_frame_count := ucast (df_frag_count frame),
                             rx_received_count := 0, rx_received_bitmap := 0,
                             rx_total_len := 0\<rparr>) frame)))"

section \<open>Reassembly\<close>

text \<open>The fragments received so far, and the frames of one operation of \<open>n\<close> fragments whose
  lengths are given by \<open>L\<close>.\<close>

definition rx_got :: "tbv_rel_rx_op \<Rightarrow> nat set" where
  "rx_got rx = {j. bit (rx_received_bitmap rx) j}"

record op_shape =
  os_conn :: u64
  os_id :: u32
  os_op :: u8
  os_mp :: u32
  os_n :: nat
  os_len :: "nat \<Rightarrow> nat"

definition os_wf :: "op_shape \<Rightarrow> bool" where
  "os_wf s \<longleftrightarrow> tbv_rel_valid_op (os_op s) \<and> os_mp s \<noteq> 0 \<and> 0 < os_n s \<and> os_n s \<le> 64 \<and>
     (\<Sum>i<os_n s. os_len s i) < 4294967296"

definition op_frame :: "op_shape \<Rightarrow> tbv_rel_data_frame \<Rightarrow> bool" where
  "op_frame s f \<longleftrightarrow>
     df_conn_id f = os_conn s \<and> df_op_id f = os_id s \<and> df_op f = os_op s \<and>
     unat (df_frag_count f) = os_n s \<and> df_frag_index f < df_frag_count f \<and>
     df_offset f = ucast (df_frag_index f) * os_mp s \<and> df_length f \<le> os_mp s \<and>
     unat (df_length f) = os_len s (unat (df_frag_index f))"

definition rx_for :: "op_shape \<Rightarrow> tbv_rel_rx_op \<Rightarrow> bool" where
  "rx_for s rx \<longleftrightarrow> rx_conn_id rx = os_conn s \<and> rx_max_payload rx = os_mp s \<and>
     length (rx_ack_history rx) = TBV_REL_ACK_HISTORY_SIZE"

text \<open>The receiver is in the middle of the operation.\<close>

definition rx_mid :: "op_shape \<Rightarrow> tbv_rel_rx_op \<Rightarrow> bool" where
  "rx_mid s rx \<longleftrightarrow> rx_for s rx \<and> rx_active rx \<and> rx_op_id rx = os_id s \<and> rx_op rx = os_op s \<and>
     unat (rx_frame_count rx) = os_n s \<and> rx_got rx \<subset> {..<os_n s} \<and>
     unat (rx_received_count rx) = card (rx_got rx) \<and>
     unat (rx_total_len rx) = (\<Sum>i \<in> rx_got rx. os_len s i)"

text \<open>The receiver has finished the operation and remembers its acknowledgement.\<close>

definition rx_remembers :: "op_shape \<Rightarrow> tbv_rel_rx_op \<Rightarrow> bool" where
  "rx_remembers s rx \<longleftrightarrow> rx_for s rx \<and> \<not> rx_active rx \<and>
     (\<exists>e \<in> set (rx_ack_history rx). he_valid e \<and> he_op_id e = os_id s)"

lemma bitmap_test: "(bm :: u64) AND push_bit i 1 \<noteq> 0 \<longleftrightarrow> bit bm i"
  by (simp add: push_bit_of_1 and_exp_eq_0_iff_not_bit)

lemma bitmap_set:
  "i < 64 \<Longrightarrow> {j. bit ((bm :: u64) OR push_bit i 1) j} = insert i {j. bit bm j}"
  by (auto simp: push_bit_of_1 bit_or_iff bit_exp_iff)

lemma op_frame_index:
  assumes "op_frame s f"
  shows "unat (df_frag_index f) < os_n s"
  using assms by (simp add: op_frame_def word_less_nat_alt)

lemma op_frame_valid:
  assumes "os_wf s" and "op_frame s f" and "rx_for s rx"
  shows "tbv_rel_rx_validate_frame (Some rx) (Some f) = Inr ()"
proof -
  have "unat (ucast (df_frag_count f) :: u32) \<le> 64"
    using assms(1,2) by (simp add: os_wf_def op_frame_def unsigned_ucast_eq take_bit_eq_mod)
  then have "\<not> TBV_REL_MAX_FRAGS < ucast (df_frag_count f)" by (simp add: word_less_nat_alt)
  moreover have "df_frag_count f \<noteq> 0" using assms(1,2) by (auto simp: os_wf_def op_frame_def)
  ultimately show ?thesis
    using assms by (simp add: tbv_rel_rx_validate_frame_def os_wf_def op_frame_def rx_for_def
        not_le not_less)
qed

lemma ucast_frag_count:
  assumes "os_wf s" and "op_frame s f"
  shows "unat (ucast (df_frag_count f) :: u32) = os_n s"
  using assms by (simp add: os_wf_def op_frame_def unsigned_ucast_eq take_bit_eq_mod)

text \<open>Adding one fragment to a partly received operation.\<close>

lemma rx_count_fragment:
  assumes "os_wf s" and "rx_mid s rx" and "op_frame s f"
    and "unat (df_frag_index f) \<notin> rx_got rx"
  shows "unat (rx_received_count rx + 1) = Suc (card (rx_got rx))"
    and "unat (rx_total_len rx + df_length f) =
      (\<Sum>i \<in> insert (unat (df_frag_index f)) (rx_got rx). os_len s i)"
    and "insert (unat (df_frag_index f)) (rx_got rx) \<subseteq> {..<os_n s}"
    and "card (insert (unat (df_frag_index f)) (rx_got rx)) = Suc (card (rx_got rx))"
proof -
  let ?i = "unat (df_frag_index f)" and ?S = "rx_got rx"
  have sub: "?S \<subset> {..<os_n s}" and n: "os_n s \<le> 64"
    using assms(1,2) by (auto simp: rx_mid_def os_wf_def)
  have fin: "finite ?S" using sub finite_subset by blast
  show ins: "insert ?i ?S \<subseteq> {..<os_n s}" using sub op_frame_index [OF assms(3)] by auto
  have "card ?S < os_n s" using psubset_card_mono [OF _ sub] by simp
  then have "unat (rx_received_count rx) + 1 < 4294967296"
    using assms(2) n by (simp add: rx_mid_def)
  then show "unat (rx_received_count rx + 1) = Suc (card ?S)"
    using assms(2) unat_add_u32 [of "rx_received_count rx" 1] by (simp add: rx_mid_def)
  have sum: "(\<Sum>i \<in> insert ?i ?S. os_len s i) = os_len s ?i + (\<Sum>i \<in> ?S. os_len s i)"
    using fin assms(4) by simp
  have "(\<Sum>i \<in> insert ?i ?S. os_len s i) \<le> (\<Sum>i<os_n s. os_len s i)"
    by (rule sum_mono2) (use ins in auto)
  then have "unat (rx_total_len rx) + unat (df_length f) < 4294967296"
    using assms sum by (simp add: rx_mid_def op_frame_def os_wf_def)
  then show "unat (rx_total_len rx + df_length f) = (\<Sum>i \<in> insert ?i ?S. os_len s i)"
    using assms(2,3) sum unat_add_u32 by (simp add: rx_mid_def op_frame_def)
  show "card (insert ?i ?S) = Suc (card ?S)" using fin assms(4) by simp
qed

lemma rx_reassemble_dup:
  assumes "os_wf s" and "rx_mid s rx" and "op_frame s f" and "unat (df_frag_index f) \<in> rx_got rx"
  shows "rx_reassemble rx f = Inr (rx, zero_event\<lparr>ev_duplicate := True\<rparr>)"
proof -
  have "card (rx_got rx) < os_n s"
    using assms(2) psubset_card_mono [of "{..<os_n s}" "rx_got rx"] by (simp add: rx_mid_def)
  then have "rx_received_count rx \<noteq> rx_frame_count rx"
    using assms(2) by (auto simp: rx_mid_def)
  moreover have "rx_frame_count rx = ucast (df_frag_count f)"
    using assms(2) ucast_frag_count [OF assms(1,3)] by (simp add: rx_mid_def word_unat_eq_iff)
  ultimately show ?thesis
    using assms(2-4) bitmap_test [of "rx_received_bitmap rx" "unat (df_frag_index f)"]
    by (simp add: rx_reassemble_def Let_def rx_mid_def op_frame_def rx_got_def)
qed

text \<open>What a fragment that was missing does, before the check whether it was the last.\<close>

definition rx_take :: "tbv_rel_rx_op \<Rightarrow> tbv_rel_data_frame \<Rightarrow> tbv_rel_rx_op" where
  "rx_take rx f =
     rx\<lparr>rx_received_bitmap := rx_received_bitmap rx OR push_bit (unat (df_frag_index f)) 1,
        rx_received_count := rx_received_count rx + 1,
        rx_total_len := rx_total_len rx + df_length f\<rparr>"

lemma rx_reassemble_new:
  assumes "os_wf s" and "rx_mid s rx" and "op_frame s f" and "unat (df_frag_index f) \<notin> rx_got rx"
  shows "rx_reassemble rx f =
    (if rx_received_count (rx_take rx f) = rx_frame_count rx
     then let ack = tbv_rel_build_ack f TBV_REL_ACK_OK
          in Inr (tbv_rel_rx_store_cached_ack
                    ((rx_take rx f)\<lparr>rx_accepted := True, rx_active := False,
                       rx_completion_count := rx_completion_count rx + 1, rx_cached_ack := ack\<rparr>) ack,
                  zero_event\<lparr>ev_ack_valid := True, ev_ack := ack, ev_completion_valid := True,
                    ev_completion := tbv_rel_complete (df_op_id f) TBV_REL_COMP_OK\<rparr>)
     else Inr (rx_take rx f, zero_event))"
proof -
  have "rx_frame_count rx = ucast (df_frag_count f)"
    using assms(2) ucast_frag_count [OF assms(1,3)] by (simp add: rx_mid_def word_unat_eq_iff)
  moreover have "zero_event\<lparr>ev_duplicate := False\<rparr> = zero_event" by (simp add: zero_event_def)
  ultimately show ?thesis
    using assms(2-4) bitmap_test [of "rx_received_bitmap rx" "unat (df_frag_index f)"]
    by (simp add: rx_reassemble_def Let_def rx_mid_def op_frame_def rx_got_def rx_take_def)
qed

lemma rx_take_fields:
  assumes "os_wf s" and "rx_mid s rx" and "op_frame s f" and "unat (df_frag_index f) \<notin> rx_got rx"
  shows "rx_got (rx_take rx f) = insert (unat (df_frag_index f)) (rx_got rx)"
    and "unat (rx_received_count (rx_take rx f)) = card (rx_got (rx_take rx f))"
    and "unat (rx_total_len (rx_take rx f)) = (\<Sum>i \<in> rx_got (rx_take rx f). os_len s i)"
    and "rx_received_count (rx_take rx f) = rx_frame_count rx \<longleftrightarrow>
      insert (unat (df_frag_index f)) (rx_got rx) = {..<os_n s}"
proof -
  let ?S = "insert (unat (df_frag_index f)) (rx_got rx)"
  note c = rx_count_fragment [OF assms]
  have "unat (df_frag_index f) < 64"
    using op_frame_index [OF assms(3)] assms(1) by (simp add: os_wf_def)
  then show got: "rx_got (rx_take rx f) = ?S"
    using bitmap_set by (simp add: rx_got_def rx_take_def)
  show cnt: "unat (rx_received_count (rx_take rx f)) = card (rx_got (rx_take rx f))"
    unfolding got c(4) using c(1) by (simp add: rx_take_def)
  show "unat (rx_total_len (rx_take rx f)) = (\<Sum>i \<in> rx_got (rx_take rx f). os_len s i)"
    unfolding got using c(2) by (simp add: rx_take_def)
  have "card ?S = os_n s \<longleftrightarrow> ?S = {..<os_n s}"
    using c(3) by (metis card_lessThan card_subset_eq finite_lessThan)
  then show "rx_received_count (rx_take rx f) = rx_frame_count rx \<longleftrightarrow> ?S = {..<os_n s}"
    using cnt got assms(2) by (simp add: word_unat_eq_iff rx_mid_def)
qed

lemma rx_reassemble_gap:
  assumes "os_wf s" and "rx_mid s rx" and "op_frame s f" and "unat (df_frag_index f) \<notin> rx_got rx"
    and "insert (unat (df_frag_index f)) (rx_got rx) \<noteq> {..<os_n s}"
  shows "rx_reassemble rx f = Inr (rx_take rx f, zero_event)" and "rx_mid s (rx_take rx f)"
proof -
  note t = rx_take_fields [OF assms(1-4)] and c = rx_count_fragment [OF assms(1-4)]
  show "rx_reassemble rx f = Inr (rx_take rx f, zero_event)"
    using rx_reassemble_new [OF assms(1-4)] t(4) assms(5) by simp
  show "rx_mid s (rx_take rx f)"
    using assms(2,5) t(1-3) c(3)
    by (auto simp: rx_mid_def rx_for_def rx_take_def)
qed

lemma rx_reassemble_full:
  assumes "os_wf s" and "rx_mid s rx" and "op_frame s f" and "unat (df_frag_index f) \<notin> rx_got rx"
    and "insert (unat (df_frag_index f)) (rx_got rx) = {..<os_n s}"
  obtains rx' ev where "rx_reassemble rx f = Inr (rx', ev)" and "ev_completion_valid ev"
    and "ev_ack_valid ev" and "ev_ack ev = tbv_rel_build_ack f TBV_REL_ACK_OK"
    and "ev_completion ev = tbv_rel_complete (os_id s) TBV_REL_COMP_OK"
    and "rx_remembers s rx'" and "unat (rx_total_len rx') = (\<Sum>i<os_n s. os_len s i)"
    and "rx_completion_count rx' = rx_completion_count rx + 1"
proof -
  note t = rx_take_fields [OF assms(1-4)]
  let ?ack = "tbv_rel_build_ack f TBV_REL_ACK_OK"
  let ?rx = "tbv_rel_rx_store_cached_ack ((rx_take rx f)\<lparr>rx_accepted := True, rx_active := False,
     rx_completion_count := rx_completion_count rx + 1, rx_cached_ack := ?ack\<rparr>) ?ack"
  let ?e = "\<lparr>he_valid = True, he_op_id = os_id s, he_ack = ?ack\<rparr>"
  let ?k = "unat (rx_ack_history_next rx) mod 16"
  have id: "df_op_id f = os_id s" using assms(3) by (simp add: op_frame_def)
  have h: "length (rx_ack_history rx) = 16" using assms(2) by (simp add: rx_mid_def rx_for_def)
  have hist: "rx_ack_history ?rx = (rx_ack_history rx)[?k := ?e]"
    by (simp add: tbv_rel_rx_store_cached_ack_def rx_take_def tbv_rel_build_ack_def id)
  have "?e \<in> set (rx_ack_history ?rx)"
    unfolding hist using h by (intro set_update_memI) simp
  moreover have "rx_for s ?rx" and "\<not> rx_active ?rx"
    using assms(2)
    by (simp_all add: rx_mid_def rx_for_def tbv_rel_rx_store_cached_ack_def rx_take_def)
  ultimately have rem: "rx_remembers s ?rx" by (auto simp: rx_remembers_def intro!: bexI)
  have tot: "unat (rx_total_len ?rx) = (\<Sum>i<os_n s. os_len s i)"
    using t(1,3) assms(5) by (simp add: tbv_rel_rx_store_cached_ack_def)
  show thesis
    by (rule that [of ?rx "zero_event\<lparr>ev_ack_valid := True, ev_ack := ?ack,
          ev_completion_valid := True,
          ev_completion := tbv_rel_complete (os_id s) TBV_REL_COMP_OK\<rparr>", OF _ _ _ _ _ rem tot])
      (use rx_reassemble_new [OF assms(1-4)] t(4) assms(5) id in
        \<open>simp_all add: Let_def tbv_rel_rx_store_cached_ack_def\<close>)
qed

section \<open>Feeding frames to a receiver\<close>

text \<open>
  Frames arrive in any order, each with the answer whether a receive buffer is available at that
  moment; a refused frame leaves no event.
\<close>

type_synonym arrival = "tbv_rel_data_frame \<times> bool"

fun rx_feed :: "tbv_rel_rx_op \<Rightarrow> arrival list \<Rightarrow> tbv_rel_rx_op \<times> tbv_rel_rx_event list" where
  "rx_feed rx [] = (rx, [])"
| "rx_feed rx ((f, avail) # as) =
     (case tbv_rel_rx_on_data (Some rx) (Some f) avail of
        Inl e \<Rightarrow> rx_feed rx as
      | Inr (rx', ev) \<Rightarrow> (let (rx'', evs) = rx_feed rx' as in (rx'', ev # evs)))"

definition rx_completions :: "tbv_rel_rx_event list \<Rightarrow> tbv_rel_completion list" where
  "rx_completions evs = map ev_completion (filter ev_completion_valid evs)"

definition arrival_index :: "arrival \<Rightarrow> nat" where
  "arrival_index a = unat (df_frag_index (fst a))"

text \<open>
  An idle receiver turns frames away until one finds a buffer; from then on it works on the
  operation and needs no further buffer.
\<close>

definition turned_away :: "arrival list \<Rightarrow> arrival list" where
  "turned_away as = takeWhile (\<lambda>a. \<not> snd a) as"

definition admitted :: "arrival list \<Rightarrow> arrival list" where
  "admitted as = dropWhile (\<lambda>a. \<not> snd a) as"

definition rnr_event :: "arrival \<Rightarrow> tbv_rel_rx_event" where
  "rnr_event a = zero_event\<lparr>ev_rnr := True, ev_ack_valid := True,
     ev_ack := tbv_rel_build_ack (fst a) TBV_REL_ACK_RNR\<rparr>"

text \<open>An event that acknowledges the operation with success.\<close>

definition ev_acks :: "op_shape \<Rightarrow> tbv_rel_rx_event \<Rightarrow> bool" where
  "ev_acks s ev \<longleftrightarrow> ev_ack_valid ev \<and> af_conn_id (ev_ack ev) = os_conn s \<and>
     af_op_id (ev_ack ev) = os_id s \<and> af_status (ev_ack ev) = TBV_REL_ACK_OK"

lemma rx_on_data_mid:
  assumes "os_wf s" and "rx_mid s rx" and "op_frame s f"
  shows "tbv_rel_rx_on_data (Some rx) (Some f) avail = rx_reassemble rx f"
  using op_frame_valid [OF assms(1,3)] assms(2,3)
  by (simp add: tbv_rel_rx_on_data_def rx_mid_def rx_for_def op_frame_def)

lemma rx_on_data_mid_ok:
  assumes "os_wf s" and "rx_mid s rx" and "op_frame s f"
  obtains rx' ev where "tbv_rel_rx_on_data (Some rx) (Some f) avail = Inr (rx', ev)"
  using rx_on_data_mid [OF assms] rx_reassemble_dup [OF assms] rx_reassemble_new [OF assms]
  by (cases "unat (df_frag_index f) \<in> rx_got rx") (auto simp: Let_def split: if_splits)

lemma rx_on_data_remembers:
  assumes "os_wf s" and "rx_remembers s rx" and "op_frame s f"
  shows "\<exists>a. tbv_rel_rx_on_data (Some rx) (Some f) avail =
    Inr (rx, zero_event\<lparr>ev_duplicate := True, ev_ack_valid := True, ev_ack := a\<rparr>)"
proof -
  have "find (\<lambda>e. he_valid e \<and> he_op_id e = df_op_id f) (rx_ack_history rx) \<noteq> None"
    using assms(2,3) by (auto simp: find_None_iff rx_remembers_def op_frame_def)
  then show ?thesis
    using op_frame_valid [OF assms(1,3)] assms(2,3)
    by (auto simp: tbv_rel_rx_on_data_def tbv_rel_rx_find_cached_ack_def rx_remembers_def
        rx_for_def op_frame_def)
qed

lemma rx_feed_remembers:
  assumes "os_wf s" and "rx_remembers s rx" and "\<forall>a \<in> set as. op_frame s (fst a)"
  shows "fst (rx_feed rx as) = rx \<and> rx_completions (snd (rx_feed rx as)) = []
    \<and> length (snd (rx_feed rx as)) = length as"
  using assms(3)
proof (induction as)
  case (Cons a as)
  obtain f avail where a: "a = (f, avail)" by (cases a)
  then obtain k where "tbv_rel_rx_on_data (Some rx) (Some f) avail =
      Inr (rx, zero_event\<lparr>ev_duplicate := True, ev_ack_valid := True, ev_ack := k\<rparr>)"
    using rx_on_data_remembers [OF assms(1,2)] Cons.prems by force
  with Cons a show ?case
    by (simp add: split_beta rx_completions_def zero_event_def)
qed (simp add: rx_completions_def)

lemma rx_feed_mid:
  assumes "os_wf s" and "rx_mid s rx" and "\<forall>a \<in> set as. op_frame s (fst a)"
    and "rx_feed rx as = (rx', evs)" and "got = rx_got rx \<union> arrival_index ` set as"
  shows "length evs = length as \<and>
    (if got = {..<os_n s}
     then rx_completions evs = [tbv_rel_complete (os_id s) TBV_REL_COMP_OK] \<and>
       rx_remembers s rx' \<and> unat (rx_total_len rx') = (\<Sum>i<os_n s. os_len s i) \<and>
       rx_completion_count rx' = rx_completion_count rx + 1 \<and> (\<exists>ev \<in> set evs. ev_acks s ev)
     else rx_completions evs = [] \<and> rx_mid s rx')"
  using assms(2-5)
proof (induction as arbitrary: rx rx' evs got)
  case Nil
  then show ?case by (auto simp: rx_mid_def rx_completions_def)
next
  case (Cons a as)
  obtain f avail where a: "a = (f, avail)" by (cases a)
  let ?i = "unat (df_frag_index f)"
  have f: "op_frame s f" and as: "\<forall>a \<in> set as. op_frame s (fst a)" using Cons.prems(2) a by auto
  have od: "tbv_rel_rx_on_data (Some rx) (Some f) avail = rx_reassemble rx f"
    by (rule rx_on_data_mid [OF assms(1) Cons.prems(1) f])
  have z: "rx_completions (zero_event # xs) = rx_completions xs"
    "rx_completions (zero_event\<lparr>ev_duplicate := True\<rparr> # xs) = rx_completions xs" for xs
    by (simp_all add: rx_completions_def zero_event_def)
  have ai: "arrival_index a = ?i" by (simp add: a arrival_index_def)
  consider "?i \<in> rx_got rx" | "?i \<notin> rx_got rx" "insert ?i (rx_got rx) \<noteq> {..<os_n s}"
    | "?i \<notin> rx_got rx" "insert ?i (rx_got rx) = {..<os_n s}" by blast
  then show ?case
  proof cases
    case 1
    then have "got = rx_got rx \<union> arrival_index ` set as"
      using Cons.prems(4) ai by auto
    note ih = Cons.IH [OF Cons.prems(1) as prod.collapse [symmetric] this]
    have "rx' = fst (rx_feed rx as)" "evs = zero_event\<lparr>ev_duplicate := True\<rparr> # snd (rx_feed rx as)"
      using Cons.prems(3) od rx_reassemble_dup [OF assms(1) Cons.prems(1) f 1]
      by (simp_all add: split_beta a)
    then show ?thesis using ih z by simp
  next
    case 2
    note g = rx_reassemble_gap [OF assms(1) Cons.prems(1) f 2]
    have "got = rx_got (rx_take rx f) \<union> arrival_index ` set as"
      using rx_take_fields(1) [OF assms(1) Cons.prems(1) f 2(1)] Cons.prems(4) ai by auto
    note ih = Cons.IH [OF g(2) as prod.collapse [symmetric] this]
    have "rx' = fst (rx_feed (rx_take rx f) as)"
      "evs = zero_event # snd (rx_feed (rx_take rx f) as)"
      using Cons.prems(3) od g(1) by (simp_all add: split_beta a)
    moreover have "rx_completion_count (rx_take rx f) = rx_completion_count rx"
      by (simp add: rx_take_def)
    ultimately show ?thesis using ih z by simp
  next
    case 3
    obtain rx1 ev where r: "rx_reassemble rx f = Inr (rx1, ev)" "ev_completion_valid ev"
      "ev_ack_valid ev" "ev_ack ev = tbv_rel_build_ack f TBV_REL_ACK_OK"
      "ev_completion ev = tbv_rel_complete (os_id s) TBV_REL_COMP_OK" "rx_remembers s rx1"
      "unat (rx_total_len rx1) = (\<Sum>i<os_n s. os_len s i)"
      "rx_completion_count rx1 = rx_completion_count rx + 1"
      by (rule rx_reassemble_full [OF assms(1) Cons.prems(1) f 3])
    have "arrival_index ` set as \<subseteq> {..<os_n s}"
      using as op_frame_index by (auto simp: arrival_index_def)
    then have "got = {..<os_n s}" using Cons.prems(4) 3(2) ai by auto
    moreover have "ev_acks s ev"
      using r(3,4) f by (simp add: ev_acks_def tbv_rel_build_ack_def op_frame_def)
    ultimately show ?thesis
      using rx_feed_remembers [OF assms(1) r(6) as] r Cons.prems(3) od
      by (auto simp: split_beta rx_completions_def a)
  qed
qed

text \<open>An idle receiver that does not remember the operation.\<close>

definition rx_idle :: "op_shape \<Rightarrow> tbv_rel_rx_op \<Rightarrow> bool" where
  "rx_idle s rx \<longleftrightarrow> rx_for s rx \<and> \<not> rx_active rx \<and>
     (\<forall>e \<in> set (rx_ack_history rx). he_valid e \<longrightarrow> he_op_id e \<noteq> os_id s)"

definition rx_open :: "op_shape \<Rightarrow> tbv_rel_rx_op \<Rightarrow> tbv_rel_rx_op" where
  "rx_open s rx = rx\<lparr>rx_active := True, rx_op_id := os_id s, rx_op := os_op s,
     rx_frame_count := of_nat (os_n s), rx_received_count := 0, rx_received_bitmap := 0,
     rx_total_len := 0\<rparr>"

lemma rx_open_mid:
  assumes "os_wf s" and "rx_idle s rx"
  shows "rx_mid s (rx_open s rx)" and "rx_got (rx_open s rx) = {}"
    and "rx_completion_count (rx_open s rx) = rx_completion_count rx"
proof -
  show g: "rx_got (rx_open s rx) = {}" by (simp add: rx_open_def rx_got_def)
  have "unat (of_nat (os_n s) :: u32) = os_n s"
    using assms(1) by (simp add: os_wf_def unat_of_nat)
  then show "rx_mid s (rx_open s rx)"
    using assms unfolding rx_mid_def g
    by (auto simp: rx_open_def rx_idle_def rx_for_def os_wf_def)
qed (simp add: rx_open_def)

lemma idle_finds_nothing:
  "rx_idle s rx \<Longrightarrow> op_frame s f \<Longrightarrow>
     find (\<lambda>e. he_valid e \<and> he_op_id e = df_op_id f) (rx_ack_history rx) = None"
  by (auto simp: find_None_iff rx_idle_def op_frame_def)

lemma rx_on_data_idle:
  assumes "os_wf s" and "rx_idle s rx" and "op_frame s f"
  shows "tbv_rel_rx_on_data (Some rx) (Some f) True =
    tbv_rel_rx_on_data (Some (rx_open s rx)) (Some f) True"
proof -
  have fc: "(ucast (df_frag_count f) :: u32) = of_nat (os_n s)"
    using ucast_frag_count [OF assms(1,3)] by (rule word_eq_of_nat)
  have "tbv_rel_rx_on_data (Some (rx_open s rx)) (Some f) True = rx_reassemble (rx_open s rx) f"
    by (rule rx_on_data_mid [OF assms(1) rx_open_mid(1) [OF assms(1,2)] assms(3)])
  moreover have "tbv_rel_rx_on_data (Some rx) (Some f) True = rx_reassemble (rx_open s rx) f"
    using op_frame_valid [OF assms(1,3)] assms(2,3) idle_finds_nothing [OF assms(2,3)] fc
    by (simp add: tbv_rel_rx_on_data_def tbv_rel_rx_find_cached_ack_def rx_idle_def rx_for_def
        op_frame_def rx_open_def)
  ultimately show ?thesis by simp
qed

lemma rx_on_data_rnr:
  assumes "os_wf s" and "rx_idle s rx" and "op_frame s (fst a)"
  shows "tbv_rel_rx_on_data (Some rx) (Some (fst a)) False = Inr (rx, rnr_event a)"
  using op_frame_valid [OF assms(1,3)] assms(2,3) idle_finds_nothing [OF assms(2,3)]
  by (simp add: tbv_rel_rx_on_data_def tbv_rel_rx_find_cached_ack_def rx_idle_def rx_for_def
      op_frame_def rnr_event_def)

lemma rx_feed_idle:
  assumes "os_wf s" and "rx_idle s rx" and "\<forall>a \<in> set as. op_frame s (fst a)"
  shows "rx_feed rx as =
    (let (rx', evs) = rx_feed (if admitted as = [] then rx else rx_open s rx) (admitted as)
     in (rx', map rnr_event (turned_away as) @ evs))"
  using assms(3)
proof (induction as)
  case (Cons a as)
  obtain f avail where a: "a = (f, avail)" by (cases a)
  have f: "op_frame s f" using Cons.prems a by simp
  show ?case
  proof (cases avail)
    case True
    obtain rx' ev where "tbv_rel_rx_on_data (Some (rx_open s rx)) (Some f) True = Inr (rx', ev)"
      by (rule rx_on_data_mid_ok [OF assms(1) rx_open_mid(1) [OF assms(1,2)] f])
    with True show ?thesis
      using rx_on_data_idle [OF assms(1,2) f] by (simp add: a admitted_def turned_away_def split_beta)
  next
    case False
    then show ?thesis
      using rx_on_data_rnr [OF assms(1,2), of a] Cons f
      by (simp add: a admitted_def turned_away_def split_beta Let_def)
  qed
qed (simp add: admitted_def turned_away_def)

lemma rx_feed_once:
  assumes "os_wf s" and "rx_idle s rx" and "\<forall>a \<in> set as. op_frame s (fst a)"
    and "rx_feed rx as = (rx', evs)"
  shows "length evs = length as \<and>
    take (length (turned_away as)) evs = map rnr_event (turned_away as) \<and>
    (if arrival_index ` set (admitted as) = {..<os_n s}
     then rx_completions evs = [tbv_rel_complete (os_id s) TBV_REL_COMP_OK] \<and>
       rx_remembers s rx' \<and> unat (rx_total_len rx') = (\<Sum>i<os_n s. os_len s i) \<and>
       rx_completion_count rx' = rx_completion_count rx + 1 \<and> (\<exists>ev \<in> set evs. ev_acks s ev)
     else rx_completions evs = [])"
proof -
  have len: "length as = length (turned_away as) + length (admitted as)"
    unfolding turned_away_def admitted_def by (metis length_append takeWhile_dropWhile_id)
  have none: "rx_completions (map rnr_event xs @ ys) = rx_completions ys" for xs ys
    by (induction xs) (simp_all add: rx_completions_def rnr_event_def zero_event_def)
  note feed = rx_feed_idle [OF assms(1-3)]
  show ?thesis
  proof (cases "admitted as = []")
    case True
    then have "evs = map rnr_event (turned_away as)" using feed assms(4) by simp
    then show ?thesis
      using True len none [of "turned_away as" "[]"] assms(1)
      by (auto simp: rx_completions_def os_wf_def dest: equalityD2)
  next
    case False
    note o = rx_open_mid [OF assms(1,2)]
    define evs' where "evs' = snd (rx_feed (rx_open s rx) (admitted as))"
    have r: "rx_feed (rx_open s rx) (admitted as) = (rx', evs')"
      and e: "evs = map rnr_event (turned_away as) @ evs'"
      using feed assms(4) False by (auto simp: split_beta evs'_def)
    have "\<forall>a \<in> set (admitted as). op_frame s (fst a)"
      using assms(3) by (auto simp: admitted_def dest: set_dropWhileD)
    from rx_feed_mid [OF assms(1) o(1) this r refl] o(2,3)
    show ?thesis by (auto simp: e none len split: if_splits)
  qed
qed

text \<open>
  C8: frames of one operation reach an idle receiver in any order, with any duplicates, and each
  finds a receive buffer available or not. No frame is refused. Until the first one finds a buffer,
  each is answered \<open>RNR\<close> and forgotten; from then on no buffer is asked for. If every fragment
  is among the frames from there on, exactly one completion is produced, for this operation and with status
  success; the length counted is the sum of the fragments' lengths, and the operation is
  remembered. Otherwise none is produced.
\<close>

theorem rx_exactly_once:
  assumes "os_wf s" and "rx_idle s rx" and "\<forall>a \<in> set as. op_frame s (fst a)"
    and "rx_feed rx as = (rx', evs)"
  shows "length evs = length as \<and>
    take (length (turned_away as)) evs = map rnr_event (turned_away as) \<and>
    (if arrival_index ` set (admitted as) = {..<os_n s}
     then rx_completions evs = [tbv_rel_complete (os_id s) TBV_REL_COMP_OK] \<and>
       rx_remembers s rx' \<and> unat (rx_total_len rx') = (\<Sum>i<os_n s. os_len s i) \<and>
       rx_completion_count rx' = rx_completion_count rx + 1 \<and> (\<exists>ev \<in> set evs. ev_acks s ev)
     else rx_completions evs = [])"
  using assms by (rule rx_feed_once)

section \<open>A concrete exchange\<close>

text \<open>
  A fresh receiver gets the three fragments of a 10-byte message out of order, one twice; the first
  two frames find no buffer.
\<close>

definition rx_demo_shape :: op_shape where
  "rx_demo_shape = \<lparr>os_conn = 7, os_id = 1, os_op = 1, os_mp = 4, os_n = 3,
     os_len = (\<lambda>i. min 4 (10 - i * 4))\<rparr>"

definition rx_demo_frames :: "arrival list" where
  "rx_demo_frames = map (\<lambda>(i, avail). ((tx_frame tx_demo i)\<lparr>df_retry_generation := of_nat i\<rparr>, avail))
     [(0, False), (1, False), (2, True), (0, False), (2, True), (1, False)]"

lemma rx_demo_idle: "rx_idle rx_demo_shape (tbv_rel_rx_init 7 4)"
  by (simp add: rx_idle_def rx_for_def rx_demo_shape_def tbv_rel_rx_init_def zero_history_entry_def)

theorem rx_exactly_once_witness:
  "rx_completions (snd (rx_feed (tbv_rel_rx_init 7 4) rx_demo_frames)) = [tbv_rel_complete 1 0] \<and>
   unat (rx_total_len (fst (rx_feed (tbv_rel_rx_init 7 4) rx_demo_frames))) = 10"
proof -
  have wf: "os_wf rx_demo_shape"
    by (simp add: os_wf_def rx_demo_shape_def tbv_rel_valid_op_def lessThan_nat_numeral lessThan_Suc)
  have fr: "\<forall>a \<in> set rx_demo_frames. op_frame rx_demo_shape (fst a)"
    by (simp add: rx_demo_frames_def op_frame_def rx_demo_shape_def tx_frame_def tx_demo_def)
  have all: "arrival_index ` set (admitted rx_demo_frames) = {..<os_n rx_demo_shape}"
    by (auto simp: rx_demo_frames_def rx_demo_shape_def tx_frame_def lessThan_nat_numeral
        lessThan_Suc admitted_def arrival_index_def)
  have sum: "(\<Sum>i<os_n rx_demo_shape. os_len rx_demo_shape i) = 10"
    by (simp add: rx_demo_shape_def lessThan_nat_numeral lessThan_Suc)
  show ?thesis
    using rx_exactly_once [OF wf rx_demo_idle fr prod.collapse [symmetric]] all sum
    by (simp add: rx_demo_shape_def)
qed

end
