(* ===== verification/Rel_Link.thy ===== *)
theory Rel_Link
  imports Rel_Rx
begin

text \<open>
  The two halves of \<^verbatim>\<open>src/proto/reliability.c\<close> put together over a link that may lose, repeat
  and reorder frames: what a sender emits, in any number of transmissions, is delivered once.
\<close>

text \<open>The shape of a started operation, as a receiver sees it.\<close>

definition tx_shape :: "tbv_rel_tx_op \<Rightarrow> op_shape" where
  "tx_shape tx =
     \<lparr>os_conn = tx_conn_id tx, os_id = tx_op_id tx, os_op = tx_op tx,
      os_mp = tx_max_payload tx, os_n = unat (tx_frame_count tx),
      os_len = (\<lambda>i. min (unat (tx_max_payload tx))
                 (unat (tx_total_len tx) - i * unat (tx_max_payload tx)))\<rparr>"

lemma tx_shape_sum:
  assumes "tx_wf tx"
  shows "(\<Sum>i<os_n (tx_shape tx). os_len (tx_shape tx) i) = unat (tx_total_len tx)"
  using assms sum_cut_lengths [of "unat (tx_max_payload tx)" "unat (tx_total_len tx)"]
  by (simp add: tx_shape_def tx_wf_def unat_gt_0)

lemma tx_shape_wf: "tx_wf tx \<Longrightarrow> os_wf (tx_shape tx)"
  using tx_shape_sum [of tx] unat_less_2p32 [of "tx_total_len tx"]
  by (simp add: os_wf_def) (simp add: tx_shape_def tx_wf_def word_le_nat_alt)

text \<open>A transmission of fragment \<open>i\<close>, in whatever generation it was sent.\<close>

definition tx_transmission :: "tbv_rel_tx_op \<Rightarrow> tbv_rel_data_frame \<Rightarrow> bool" where
  "tx_transmission tx f \<longleftrightarrow>
     (\<exists>i g. i < unat (tx_frame_count tx) \<and> f = (tx_frame tx i)\<lparr>df_retry_generation := g\<rparr>)"

lemma tx_transmission_op_frame:
  assumes "tx_wf tx" and "tx_transmission tx f"
  shows "op_frame (tx_shape tx) f"
proof -
  obtain i g where i: "i < unat (tx_frame_count tx)"
    and f: "f = (tx_frame tx i)\<lparr>df_retry_generation := g\<rparr>"
    using assms(2) by (auto simp: tx_transmission_def)
  note t = tx_frame_fields [OF assms(1) i]
  have idx: "df_frag_index (tx_frame tx i) < df_frag_count (tx_frame tx i)"
    using t(3,4) i by (simp add: word_less_nat_alt)
  have "i < 64" using assms(1) i by (simp add: tx_wf_def word_le_nat_alt)
  then have "unat (ucast (of_nat i :: u16) :: u32) = i"
    by (simp add: unsigned_ucast_eq take_bit_eq_mod unat_of_nat)
  then have "(ucast (of_nat i :: u16) :: u32) = of_nat i" by (rule word_eq_of_nat)
  then have off: "df_offset (tx_frame tx i) =
      ucast (df_frag_index (tx_frame tx i)) * tx_max_payload tx"
    by (simp add: tx_frame_def)
  have "df_length (tx_frame tx i) \<le> tx_max_payload tx"
    using t(2) by (simp add: word_le_nat_alt)
  then show ?thesis
    unfolding op_frame_def f using idx off t
    by (simp add: tx_shape_def) (simp add: tx_frame_def)
qed

lemma tx_transmission_index:
  assumes "tx_wf tx"
  shows "(\<lambda>f. unat (df_frag_index f)) ` {f. tx_transmission tx f} = {..<unat (tx_frame_count tx)}"
proof
  show "(\<lambda>f. unat (df_frag_index f)) ` {f. tx_transmission tx f} \<subseteq> {..<unat (tx_frame_count tx)}"
    using tx_transmission_op_frame [OF assms] op_frame_index by (force simp: tx_shape_def)
  show "{..<unat (tx_frame_count tx)} \<subseteq> (\<lambda>f. unat (df_frag_index f)) ` {f. tx_transmission tx f}"
  proof
    fix i assume "i \<in> {..<unat (tx_frame_count tx)}"
    then have i: "i < unat (tx_frame_count tx)" by simp
    then have "tx_transmission tx ((tx_frame tx i)\<lparr>df_retry_generation := 0\<rparr>)"
      by (auto simp: tx_transmission_def)
    moreover have "unat (df_frag_index ((tx_frame tx i)\<lparr>df_retry_generation := 0\<rparr>)) = i"
      using tx_frame_fields(3) [OF assms i] by simp
    ultimately show "i \<in> (\<lambda>f. unat (df_frag_index f)) ` {f. tx_transmission tx f}" by force
  qed
qed

lemma tx_on_ack_completes:
  assumes "ev_acks (tx_shape tx) ev" and "tx_conn_id tx' = tx_conn_id tx"
    and "tx_op_id tx' = tx_op_id tx" and "\<not> tx_finished tx'"
  shows "tbv_rel_tx_on_ack (Some tx') (Some (ev_ack ev)) =
    Inr (tx'\<lparr>tx_state := TBV_REL_TX_COMPLETE,
             tx_completion_count := tx_completion_count tx' + 1\<rparr>,
         tbv_rel_complete (tx_op_id tx) TBV_REL_COMP_OK)"
  using assms by (simp add: tbv_rel_tx_on_ack_def ev_acks_def tx_shape_def tx_finished_def)

text \<open>
  C1: delivery over an unreliable link. An operation is started; the frames that reach an idle
  receiver are transmissions of its fragments, in any order, from any generation, with any
  repetition, and each finds a receive buffer available or not. Frames that arrive before the first one that
  finds a buffer are answered \<open>RNR\<close>; every fragment arrives at least once from that one on. Then no frame is
  refused, the receiver produces exactly one completion, the length it counted is the length of the message, and an
  acknowledgement it produced completes the sender, whatever unfinished state the sender is in.
\<close>

theorem delivered_exactly_once:
  assumes "tbv_rel_tx_start (Some tx0) conn op_id op tot mp rb nb = Inr tx"
    and "rx_idle (tx_shape tx) rx" and "rx_feed rx as = (rx', evs)"
    and "\<forall>a \<in> set as. tx_transmission tx (fst a)"
    and "\<forall>i < unat (tx_frame_count tx). \<exists>a \<in> set (admitted as). arrival_index a = i"
  shows "length evs = length as \<and>
    take (length (turned_away as)) evs = map rnr_event (turned_away as) \<and>
    rx_completions evs = [tbv_rel_complete op_id TBV_REL_COMP_OK] \<and>
    unat (rx_total_len rx') = unat tot \<and>
    (\<exists>ev \<in> set evs. ev_ack_valid ev \<and>
      (\<forall>tr tx'. tx_run tx tr tx' \<and> \<not> tx_finished tx' \<longrightarrow>
        (\<exists>tx''. tbv_rel_tx_on_ack (Some tx') (Some (ev_ack ev)) =
           Inr (tx'', tbv_rel_complete op_id TBV_REL_COMP_OK))))"
proof -
  note st = tx_start_wf [OF assms(1)]
  have fr: "\<forall>a \<in> set as. op_frame (tx_shape tx) (fst a)"
    using assms(4) tx_transmission_op_frame [OF st(1)] by blast
  have "arrival_index ` set (admitted as) \<subseteq> {..<unat (tx_frame_count tx)}"
    using fr op_frame_index by (force simp: admitted_def arrival_index_def tx_shape_def dest: set_dropWhileD)
  moreover have "{..<unat (tx_frame_count tx)} \<subseteq> arrival_index ` set (admitted as)"
    using assms(5) by force
  ultimately have full: "arrival_index ` set (admitted as) = {..<os_n (tx_shape tx)}"
    by (simp add: tx_shape_def)
  have id: "os_id (tx_shape tx) = op_id" using st(6) by (simp add: tx_shape_def)
  note once = rx_feed_once [OF tx_shape_wf [OF st(1)] assms(2) fr assms(3)]
  then obtain ev where ev: "ev \<in> set evs" "ev_acks (tx_shape tx) ev"
    unfolding full by auto
  have "\<exists>tx''. tbv_rel_tx_on_ack (Some tx') (Some (ev_ack ev)) =
      Inr (tx'', tbv_rel_complete op_id TBV_REL_COMP_OK)"
    if "tx_run tx tr tx'" "\<not> tx_finished tx'" for tr tx'
    using tx_on_ack_completes [OF ev(2), of tx'] that tx_run_op_id [OF that(1)]
      tx_run_conn_id [OF that(1)] st(6) by auto
  then show ?thesis
    using once ev tx_shape_sum [OF st(1)] st(4) unfolding full id
    by (auto simp: ev_acks_def intro!: bexI [of _ ev])
qed

theorem delivered_exactly_once_witness:
  "rx_completions (snd (rx_feed (tbv_rel_rx_init 7 4) rx_demo_frames)) = [tbv_rel_complete 1 0] \<and>
   unat (rx_total_len (fst (rx_feed (tbv_rel_rx_init 7 4) rx_demo_frames))) = 10"
proof -
  have idle: "rx_idle (tx_shape tx_demo) (tbv_rel_rx_init 7 4)"
    by (simp add: rx_idle_def rx_for_def tx_shape_def tx_demo_def tbv_rel_rx_init_def
        zero_history_entry_def)
  have "unat (tx_frame_count tx_demo) = 3" by (simp add: tx_demo_def)
  then have one: "tx_transmission tx_demo ((tx_frame tx_demo i)\<lparr>df_retry_generation := of_nat i\<rparr>)"
    if "i < 3" for i
    using that by (auto simp: tx_transmission_def)
  have tr: "\<forall>a \<in> set rx_demo_frames. tx_transmission tx_demo (fst a)"
    using one [of 0] one [of 1] one [of 2] by (simp add: rx_demo_frames_def)
  have all: "\<forall>i < unat (tx_frame_count tx_demo). \<exists>a \<in> set (admitted rx_demo_frames). arrival_index a = i"
    by (auto simp: tx_demo_def rx_demo_frames_def tx_frame_def admitted_def arrival_index_def)
  show ?thesis
    using delivered_exactly_once [OF tx_demo_start idle prod.collapse [symmetric] tr all] by simp
qed

end
