(* ===== verification/Rel_Order.thy ===== *)
theory Rel_Order
  imports Rel_Tx
begin

text \<open>
  \<^verbatim>\<open>src/proto/reliability.[ch]\<close>, the completion order queue: operations are pushed in posting
  order, marked ready in any order, and drained in posting order, from a ring of 128 slots.
  The ring is refined to a list of pending operations by an interpretation of the locale
  \<open>order_queue\<close>; that whole runs are first-in first-out is proved once, in the locale.

  The end of the file holds the wrap-around comparison of sequence numbers of the header.
\<close>

abbreviation TBV_REL_ORDER_MAX :: nat where "TBV_REL_ORDER_MAX \<equiv> 128"

record tbv_rel_order_entry =
  oe_op_id :: u32
  oe_status :: u8
  oe_occupied :: bool
  oe_ready :: bool

record tbv_rel_order_queue =
  oq_capacity :: u32
  oq_head :: u32
  oq_count :: u32
  oq_entries :: "tbv_rel_order_entry list"

definition zero_order_entry :: tbv_rel_order_entry where
  "zero_order_entry = \<lparr>oe_op_id = 0, oe_status = 0, oe_occupied = False, oe_ready = False\<rparr>"

section \<open>Operations\<close>

definition tbv_rel_order_init :: "tbv_rel_order_queue ptr \<Rightarrow> u32 \<Rightarrow> tbv_rel_order_queue res" where
  "tbv_rel_order_init q capacity =
     (if q = None \<or> capacity = 0 \<or> capacity > 128 then Inl EINVAL
      else Inr \<lparr>oq_capacity = capacity, oq_head = 0, oq_count = 0,
                oq_entries = replicate TBV_REL_ORDER_MAX zero_order_entry\<rparr>)"

definition tbv_rel_order_index :: "tbv_rel_order_queue \<Rightarrow> u32 \<Rightarrow> u32" where
  "tbv_rel_order_index q offset = (oq_head q + offset) mod oq_capacity q"

text \<open>The slot the C loops look at in iteration \<open>i\<close>, and the iterations they run through.\<close>

definition order_slot :: "tbv_rel_order_queue \<Rightarrow> nat \<Rightarrow> nat" where
  "order_slot q i = unat (tbv_rel_order_index q (of_nat i))"

definition order_iterations :: "tbv_rel_order_queue \<Rightarrow> nat list" where
  "order_iterations q = [0..<unat (oq_count q)]"

definition tbv_rel_order_push :: "tbv_rel_order_queue ptr \<Rightarrow> u32 \<Rightarrow> tbv_rel_order_queue res" where
  "tbv_rel_order_push qp op_id =
     (case qp of
        None \<Rightarrow> Inl EINVAL
      | Some q \<Rightarrow>
          if oq_capacity q = 0 then Inl EINVAL
          else if oq_count q = oq_capacity q then Inl ENOSPC
          else if \<exists>i \<in> set (order_iterations q).
                    oe_occupied (oq_entries q ! order_slot q i)
                    \<and> oe_op_id (oq_entries q ! order_slot q i) = op_id then Inl EEXIST
          else Inr (q\<lparr>oq_entries := (oq_entries q)[unat (tbv_rel_order_index q (oq_count q)) :=
                        zero_order_entry\<lparr>oe_occupied := True, oe_op_id := op_id\<rparr>],
                      oq_count := oq_count q + 1\<rparr>))"

definition tbv_rel_order_mark ::
  "tbv_rel_order_queue ptr \<Rightarrow> u32 \<Rightarrow> u8 \<Rightarrow> tbv_rel_order_queue res" where
  "tbv_rel_order_mark qp op_id status =
     (case qp of
        None \<Rightarrow> Inl EINVAL
      | Some q \<Rightarrow>
          if oq_capacity q = 0 then Inl EINVAL
          else
            (case find (\<lambda>i. oe_occupied (oq_entries q ! order_slot q i)
                          \<and> oe_op_id (oq_entries q ! order_slot q i) = op_id)
                    (order_iterations q) of
               None \<Rightarrow> Inl ENOENT
             | Some i \<Rightarrow>
                 (let entry = oq_entries q ! order_slot q i
                  in if oe_ready entry then
                       (if oe_status entry = status then Inr q else Inl EALREADY)
                     else Inr (q\<lparr>oq_entries := (oq_entries q)[order_slot q i :=
                                   entry\<lparr>oe_ready := True, oe_status := status\<rparr>]\<rparr>))))"

definition order_flush_slot :: "u8 \<Rightarrow> nat \<Rightarrow> tbv_rel_order_entry list \<Rightarrow> tbv_rel_order_entry list"
where
  "order_flush_slot status k es =
     (if \<not> oe_ready (es ! k) then es[k := (es ! k)\<lparr>oe_ready := True, oe_status := status\<rparr>]
      else es)"

definition tbv_rel_order_flush ::
  "tbv_rel_order_queue ptr \<Rightarrow> u8 \<Rightarrow> tbv_rel_order_queue res" where
  "tbv_rel_order_flush qp status =
     (case qp of
        None \<Rightarrow> Inl EINVAL
      | Some q \<Rightarrow>
          if oq_capacity q = 0 then Inl EINVAL
          else Inr (q\<lparr>oq_entries := fold (\<lambda>i. order_flush_slot status (order_slot q i))
                        (order_iterations q) (oq_entries q)\<rparr>))"

function order_drain_loop ::
  "tbv_rel_order_queue \<Rightarrow> u32 \<Rightarrow> u32 \<Rightarrow> tbv_rel_order_queue \<times> tbv_rel_completion list" where
  "order_drain_loop q n max_n =
     (if oq_count q = 0 \<or> \<not> n < max_n then (q, [])
      else
        (let entry = oq_entries q ! unat (oq_head q)
         in if \<not> oe_occupied entry \<or> \<not> oe_ready entry then (q, [])
            else
              (let q' = q\<lparr>oq_entries := (oq_entries q)[unat (oq_head q) := zero_order_entry],
                          oq_head := (oq_head q + 1) mod oq_capacity q,
                          oq_count := oq_count q - 1\<rparr>;
                   (q'', out) = order_drain_loop q' (n + 1) max_n
               in (q'', tbv_rel_complete (oe_op_id entry) (oe_status entry) # out))))"
  by pat_completeness auto
termination
  by (relation "measure (\<lambda>(q, n, m). unat (oq_count q))")
    (auto simp: unat_pred_u32 unat_gt_0)

declare order_drain_loop.simps [simp del]

text \<open>\<open>out_given\<close> is whether the caller passes an array for the completions.\<close>

definition tbv_rel_order_drain ::
  "tbv_rel_order_queue ptr \<Rightarrow> bool \<Rightarrow> u32 \<Rightarrow> (tbv_rel_order_queue \<times> tbv_rel_completion list) res" where
  "tbv_rel_order_drain qp out_given max_n =
     (case qp of
        None \<Rightarrow> Inl EINVAL
      | Some q \<Rightarrow>
          if oq_capacity q = 0 \<or> max_n \<noteq> 0 \<and> \<not> out_given then Inl EINVAL
          else
            (let (q', out) = order_drain_loop q 0 max_n
             in Inr (if oq_count q' = 0 then q'\<lparr>oq_head := 0\<rparr> else q', out)))"

section \<open>The contract: an in-order completion queue\<close>

text \<open>
  What the queue promises, over the list of its pending operations in posting order; an
  operation without a status is not ready.
\<close>

type_synonym pending = "u32 \<times> u8 option"

definition aq_push :: "nat \<Rightarrow> pending list \<Rightarrow> u32 \<Rightarrow> pending list res" where
  "aq_push cap xs op_id =
     (if length xs = cap then Inl ENOSPC
      else if op_id \<in> fst ` set xs then Inl EEXIST
      else Inr (xs @ [(op_id, None)]))"

fun aq_mark :: "pending list \<Rightarrow> u32 \<Rightarrow> u8 \<Rightarrow> pending list res" where
  "aq_mark [] op_id status = Inl ENOENT"
| "aq_mark ((i, st) # xs) op_id status =
     (if i = op_id then
        (case st of None \<Rightarrow> Inr ((i, Some status) # xs)
         | Some s \<Rightarrow> if s = status then Inr ((i, st) # xs) else Inl EALREADY)
      else map_sum id (Cons (i, st)) (aq_mark xs op_id status))"

definition aq_flush :: "u8 \<Rightarrow> pending list \<Rightarrow> pending list" where
  "aq_flush status = map (\<lambda>(i, st). (i, case st of None \<Rightarrow> Some status | Some s \<Rightarrow> Some s))"

fun aq_drain :: "nat \<Rightarrow> pending list \<Rightarrow> pending list \<times> tbv_rel_completion list" where
  "aq_drain (Suc n) ((i, Some s) # xs) = apsnd (Cons (tbv_rel_complete i s)) (aq_drain n xs)"
| "aq_drain n xs = (xs, [])"

datatype oq_call = Push u32 | Mark u32 u8 | Flush u8 | Drain u32

lemma aq_drain_fifo: "map c_op_id (snd (aq_drain n xs)) @ map fst (fst (aq_drain n xs)) = map fst xs"
  by (induction n xs rule: aq_drain.induct) (auto simp: tbv_rel_complete_def)

lemma aq_mark_ids: "aq_mark xs i s = Inr ys \<Longrightarrow> map fst ys = map fst xs"
  by (induction xs i s arbitrary: ys rule: aq_mark.induct) (auto split: if_splits option.splits)

lemma aq_flush_ids: "map fst (aq_flush s xs) = map fst xs"
  by (auto simp: aq_flush_def)

lemma aq_drain_flushed:
  "length xs \<le> n \<Longrightarrow> fst (aq_drain n (aq_flush s xs)) = [] \<and>
     map (\<lambda>c. (c_op_id c, c_status c)) (snd (aq_drain n (aq_flush s xs))) =
     map (\<lambda>(i, st). (i, case st of None \<Rightarrow> s | Some s' \<Rightarrow> s')) xs"
proof (induction xs arbitrary: n)
  case (Cons x xs)
  then show ?case
    by (cases n; cases x; cases "snd x") (auto simp: aq_flush_def tbv_rel_complete_def)
qed (simp add: aq_flush_def)

text \<open>
  A history of calls on some implementation: the final queue, the operations pushed with
  success and the completions drained, each in order. A refused call changes nothing.
\<close>

fun oq_run ::
  "('q \<Rightarrow> u32 \<Rightarrow> 'q res) \<Rightarrow> ('q \<Rightarrow> u32 \<Rightarrow> u8 \<Rightarrow> 'q res) \<Rightarrow> ('q \<Rightarrow> u8 \<Rightarrow> 'q res)
     \<Rightarrow> ('q \<Rightarrow> u32 \<Rightarrow> ('q \<times> tbv_rel_completion list) res)
     \<Rightarrow> 'q \<Rightarrow> oq_call list \<Rightarrow> 'q \<times> u32 list \<times> tbv_rel_completion list" where
  "oq_run push mark flush drain q [] = (q, [], [])"
| "oq_run push mark flush drain q (Push i # cs) =
     (case push q i of
        Inl _ \<Rightarrow> oq_run push mark flush drain q cs
      | Inr q' \<Rightarrow> apsnd (apfst (Cons i)) (oq_run push mark flush drain q' cs))"
| "oq_run push mark flush drain q (Mark i s # cs) =
     (case mark q i s of
        Inl _ \<Rightarrow> oq_run push mark flush drain q cs
      | Inr q' \<Rightarrow> oq_run push mark flush drain q' cs)"
| "oq_run push mark flush drain q (Flush s # cs) =
     (case flush q s of
        Inl _ \<Rightarrow> oq_run push mark flush drain q cs
      | Inr q' \<Rightarrow> oq_run push mark flush drain q' cs)"
| "oq_run push mark flush drain q (Drain m # cs) =
     (case drain q m of
        Inl _ \<Rightarrow> oq_run push mark flush drain q cs
      | Inr (q', out) \<Rightarrow> apsnd (apsnd (append out)) (oq_run push mark flush drain q' cs))"

locale order_queue =
  fixes abs :: "'q \<Rightarrow> pending list" and invar :: "'q \<Rightarrow> bool" and cap :: "'q \<Rightarrow> nat"
    and push :: "'q \<Rightarrow> u32 \<Rightarrow> 'q res" and mark :: "'q \<Rightarrow> u32 \<Rightarrow> u8 \<Rightarrow> 'q res"
    and flush :: "'q \<Rightarrow> u8 \<Rightarrow> 'q res"
    and drain :: "'q \<Rightarrow> u32 \<Rightarrow> ('q \<times> tbv_rel_completion list) res"
  assumes push_refines: "invar q \<Longrightarrow> map_sum id abs (push q i) = aq_push (cap q) (abs q) i"
    and push_keeps: "invar q \<Longrightarrow> push q i = Inr q' \<Longrightarrow> invar q' \<and> cap q' = cap q"
    and mark_refines: "invar q \<Longrightarrow> map_sum id abs (mark q i s) = aq_mark (abs q) i s"
    and mark_keeps: "invar q \<Longrightarrow> mark q i s = Inr q' \<Longrightarrow> invar q' \<and> cap q' = cap q"
    and flush_refines: "invar q \<Longrightarrow> map_sum id abs (flush q s) = Inr (aq_flush s (abs q))"
    and flush_keeps: "invar q \<Longrightarrow> flush q s = Inr q' \<Longrightarrow> invar q' \<and> cap q' = cap q"
    and drain_refines: "invar q \<Longrightarrow>
      map_sum id (apfst abs) (drain q m) = Inr (aq_drain (unat m) (abs q))"
    and drain_keeps: "invar q \<Longrightarrow> drain q m = Inr (q', out) \<Longrightarrow> invar q' \<and> cap q' = cap q"
begin

lemma push_abs: "invar q \<Longrightarrow> push q i = Inr q' \<Longrightarrow> map fst (abs q') = map fst (abs q) @ [i]"
  using push_refines [of q i] by (auto simp: aq_push_def split: if_splits)

lemma mark_abs: "invar q \<Longrightarrow> mark q i s = Inr q' \<Longrightarrow> map fst (abs q') = map fst (abs q)"
  using mark_refines [of q i s] by (auto simp: aq_mark_ids)

lemma flush_abs: "invar q \<Longrightarrow> flush q s = Inr q' \<Longrightarrow> map fst (abs q') = map fst (abs q)"
  using flush_refines [of q s] by (auto simp: aq_flush_ids)

lemma drain_eq:
  "invar q \<Longrightarrow> drain q m = Inr (q', out) \<Longrightarrow> aq_drain (unat m) (abs q) = (abs q', out)"
  using drain_refines [of q m] by simp

lemma drain_abs:
  "invar q \<Longrightarrow> drain q m = Inr (q', out) \<Longrightarrow>
     map c_op_id out @ map fst (abs q') = map fst (abs q)"
  using drain_eq [of q m] aq_drain_fifo [of "unat m" "abs q"] by simp

text \<open>Over any history, the drained completions followed by what is pending are what was
  pending followed by what was pushed.\<close>

lemma run_fifo:
  "invar q \<Longrightarrow> oq_run push mark flush drain q cs = (q', ps, ds) \<Longrightarrow>
     invar q' \<and> cap q' = cap q \<and> map c_op_id ds @ map fst (abs q') = map fst (abs q) @ ps"
proof (induction cs arbitrary: q q' ps ds)
  case (Cons c cs)
  show ?case
  proof (cases c)
    case (Push i)
    show ?thesis
    proof (cases "push q i")
      case (Inr q1)
      obtain ps' where ps: "oq_run push mark flush drain q1 cs = (q', ps', ds)" "ps = i # ps'"
        using Cons.prems(2) Push Inr
        by (cases "oq_run push mark flush drain q1 cs") auto
      show ?thesis
        using Cons.IH [OF _ ps(1)] push_keeps [OF Cons.prems(1) Inr] push_abs [OF Cons.prems(1) Inr]
          ps(2) by simp
    qed (use Cons.IH [OF Cons.prems(1)] Cons.prems(2) Push in simp)
  next
    case (Mark i s)
    show ?thesis
    proof (cases "mark q i s")
      case (Inr q1)
      then show ?thesis
        using Cons.IH [of q1] Cons.prems(2) Mark mark_keeps [OF Cons.prems(1) Inr]
          mark_abs [OF Cons.prems(1) Inr] by simp
    qed (use Cons.IH [OF Cons.prems(1)] Cons.prems(2) Mark in simp)
  next
    case (Flush s)
    show ?thesis
    proof (cases "flush q s")
      case (Inr q1)
      then show ?thesis
        using Cons.IH [of q1] Cons.prems(2) Flush flush_keeps [OF Cons.prems(1) Inr]
          flush_abs [OF Cons.prems(1) Inr] by simp
    qed (use Cons.IH [OF Cons.prems(1)] Cons.prems(2) Flush in simp)
  next
    case (Drain m)
    show ?thesis
    proof (cases "drain q m")
      case (Inr r)
      obtain q1 out where r: "drain q m = Inr (q1, out)" using Inr by (cases r) auto
      obtain ds' where ds: "oq_run push mark flush drain q1 cs = (q', ps, ds')" "ds = out @ ds'"
        using Cons.prems(2) Drain r
        by (cases "oq_run push mark flush drain q1 cs") auto
      show ?thesis
        using Cons.IH [OF _ ds(1)] drain_keeps [OF Cons.prems(1) r] drain_abs [OF Cons.prems(1) r]
          ds(2) by simp
    qed (use Cons.IH [OF Cons.prems(1)] Cons.prems(2) Drain in simp)
  qed
qed simp

lemma flush_then_drain:
  assumes "invar q" and "flush q s = Inr q1" and "drain q1 m = Inr (q2, out)"
    and "length (abs q) \<le> unat m"
  shows "abs q2 = [] \<and> map (\<lambda>c. (c_op_id c, c_status c)) out =
    map (\<lambda>(i, st). (i, case st of None \<Rightarrow> s | Some s' \<Rightarrow> s')) (abs q)"
  using flush_refines [OF assms(1), of s] drain_eq [OF _ assms(3)]
    flush_keeps [OF assms(1,2)] aq_drain_flushed [OF assms(4), of s] assms(2) by simp

end

section \<open>The ring implements the contract\<close>

definition order_pending :: "tbv_rel_order_entry \<Rightarrow> pending" where
  "order_pending e = (oe_op_id e, if oe_ready e then Some (oe_status e) else None)"

definition order_abs :: "tbv_rel_order_queue \<Rightarrow> pending list" where
  "order_abs q = map (\<lambda>i. order_pending (oq_entries q ! order_slot q i)) (order_iterations q)"

definition order_wf :: "tbv_rel_order_queue \<Rightarrow> bool" where
  "order_wf q \<longleftrightarrow> oq_capacity q \<noteq> 0 \<and> unat (oq_capacity q) \<le> TBV_REL_ORDER_MAX \<and>
     length (oq_entries q) = TBV_REL_ORDER_MAX \<and> oq_head q < oq_capacity q \<and>
     oq_count q \<le> oq_capacity q \<and>
     (\<forall>i < unat (oq_count q). oe_occupied (oq_entries q ! order_slot q i))"

lemma order_slot_eq:
  assumes "unat (oq_head q) < 128" and "i \<le> 128"
  shows "order_slot q i = (unat (oq_head q) + i) mod unat (oq_capacity q)"
proof -
  have i: "unat (of_nat i :: u32) = i" using assms(2) by (simp add: unat_of_nat)
  have "unat (oq_head q + of_nat i) = unat (oq_head q) + unat (of_nat i :: u32)"
    by (rule unat_add_u32) (use i assms in linarith)
  then show ?thesis by (simp add: order_slot_def tbv_rel_order_index_def unat_mod i)
qed

lemma order_wf_head: "order_wf q \<Longrightarrow> unat (oq_head q) < 128"
  by (simp add: order_wf_def word_less_nat_alt)

lemma order_slot_less: "order_wf q \<Longrightarrow> order_slot q i < length (oq_entries q)"
  by (auto simp: order_wf_def order_slot_def tbv_rel_order_index_def unat_mod unat_gt_0
      intro: order.strict_trans2 [OF mod_less_divisor])

lemma mod_window_inj:
  assumes "(h + i) mod c = (h + j) mod (c :: nat)" and "i < c" and "j < c"
  shows "i = j"
  using assms
proof (induction i j rule: linorder_wlog)
  case (le i j)
  then have "c dvd (h + j) - (h + i)" by (metis add_le_cancel_left mod_eq_dvd_iff_nat)
  then have "c dvd j - i" by simp
  then show ?case using le by (metis diff_is_0_eq le_antisym less_imp_diff_less nat_dvd_not_less neq0_conv)
qed simp

lemma order_slot_inj:
  assumes "order_wf q" and "i < unat (oq_capacity q)" and "j < unat (oq_capacity q)"
  shows "order_slot q i = order_slot q j \<longleftrightarrow> i = j"
proof -
  have "i \<le> 128" "j \<le> 128" using assms by (auto simp: order_wf_def)
  then show ?thesis
    using mod_window_inj [OF _ assms(2,3)] order_slot_eq [OF order_wf_head [OF assms(1)]] by metis
qed

lemma order_count_less:
  "order_wf q \<Longrightarrow> i < unat (oq_count q) \<Longrightarrow> i < unat (oq_capacity q)"
  by (simp add: order_wf_def word_le_nat_alt)

lemma length_order_abs [simp]: "length (order_abs q) = unat (oq_count q)"
  by (simp add: order_abs_def order_iterations_def)

lemma nth_order_abs:
  "i < unat (oq_count q) \<Longrightarrow> order_abs q ! i = order_pending (oq_entries q ! order_slot q i)"
  by (simp add: order_abs_def order_iterations_def)

lemma order_abs_ids:
  assumes "order_wf q"
  shows "(\<exists>i \<in> set (order_iterations q). oe_occupied (oq_entries q ! order_slot q i)
      \<and> oe_op_id (oq_entries q ! order_slot q i) = x) \<longleftrightarrow> x \<in> fst ` set (order_abs q)"
proof -
  have "fst ` set (order_abs q) =
      (\<lambda>i. oe_op_id (oq_entries q ! order_slot q i)) ` set (order_iterations q)"
    by (simp add: order_abs_def order_pending_def image_image)
  moreover have "\<forall>i \<in> set (order_iterations q). oe_occupied (oq_entries q ! order_slot q i)"
    using assms by (simp add: order_wf_def order_iterations_def)
  ultimately show ?thesis by auto
qed

lemma order_push_ok:
  assumes "order_wf q" and "oq_count q \<noteq> oq_capacity q"
    and "q' = q\<lparr>oq_entries := (oq_entries q)[unat (tbv_rel_order_index q (oq_count q)) :=
           zero_order_entry\<lparr>oe_occupied := True, oe_op_id := x\<rparr>], oq_count := oq_count q + 1\<rparr>"
  shows "order_wf q'" and "order_abs q' = order_abs q @ [(x, None)]"
proof -
  let ?n = "unat (oq_count q)" and ?e = "zero_order_entry\<lparr>oe_occupied := True, oe_op_id := x\<rparr>"
  have lt: "oq_count q < oq_capacity q" using assms(1,2) by (simp add: order_wf_def order_less_le)
  then have n: "?n < unat (oq_capacity q)" by (simp add: word_less_nat_alt)
  have cnt: "unat (oq_count q') = Suc ?n" using lt assms(3) by (simp add: unat_Suc_u32)
  have slot: "order_slot q' i = order_slot q i" for i
    by (simp add: order_slot_def tbv_rel_order_index_def assms(3))
  have "unat (tbv_rel_order_index q (oq_count q)) = order_slot q ?n" by (simp add: order_slot_def)
  then have es: "oq_entries q' ! order_slot q i = (if i = ?n then ?e else oq_entries q ! order_slot q i)"
    if "i \<le> ?n" for i
    using that n order_slot_less [OF assms(1)] order_slot_inj [OF assms(1), of i ?n]
    by (auto simp: assms(3) nth_list_update)
  have c: "unat (oq_count q') \<le> unat (oq_capacity q)" using cnt n by simp
  show "order_wf q'"
    unfolding order_wf_def slot cnt using assms(1) c es
    by (auto simp: order_wf_def word_le_nat_alt less_Suc_eq_le) (auto simp: assms(3))
  show "order_abs q' = order_abs q @ [(x, None)]"
    using es slot
    by (simp add: order_abs_def order_iterations_def cnt)
      (simp add: order_pending_def zero_order_entry_def)
qed

lemma order_push_refines:
  assumes "order_wf q"
  shows "map_sum id order_abs (tbv_rel_order_push (Some q) x) =
    aq_push (unat (oq_capacity q)) (order_abs q) x"
  using assms order_push_ok(2) [OF assms _ refl, of x] order_abs_ids [OF assms, of x]
  by (simp add: tbv_rel_order_push_def aq_push_def order_wf_def word_unat_eq_iff)

lemma order_push_keeps:
  assumes "order_wf q" and "tbv_rel_order_push (Some q) x = Inr q'"
  shows "order_wf q' \<and> oq_capacity q' = oq_capacity q"
  using assms order_push_ok(1) [OF assms(1) _ refl, of x]
  by (auto simp: tbv_rel_order_push_def split: if_splits)

text \<open>Replacing a queued entry replaces the pending operation.\<close>

lemma order_update:
  assumes "order_wf q" and "i < unat (oq_count q)" and "oe_occupied e"
    and "q' = q\<lparr>oq_entries := (oq_entries q)[order_slot q i := e]\<rparr>"
  shows "order_wf q'" and "order_abs q' = (order_abs q)[i := order_pending e]"
proof -
  have slot: "order_slot q' j = order_slot q j" for j
    by (simp add: order_slot_def tbv_rel_order_index_def assms(4))
  have es: "oq_entries q' ! order_slot q j = (if j = i then e else oq_entries q ! order_slot q j)"
    if "j < unat (oq_count q)" for j
    using that order_slot_less [OF assms(1)] assms(2) order_count_less [OF assms(1)]
      order_slot_inj [OF assms(1), of i j]
    by (auto simp: assms(4) nth_list_update)
  show "order_wf q'"
    unfolding order_wf_def slot using assms(1,3) es
    by (auto simp: order_wf_def) (auto simp: assms(4) order_wf_def)
  show "order_abs q' = (order_abs q)[i := order_pending e]"
  proof (rule nth_equalityI)
    fix j assume "j < length (order_abs q')"
    then have "j < unat (oq_count q)" by (simp add: assms(4))
    then show "order_abs q' ! j = (order_abs q)[i := order_pending e] ! j"
      using assms(2) es slot by (simp add: nth_order_abs assms(4) nth_list_update)
  qed (simp add: assms(4))
qed

lemma aq_mark_find:
  "aq_mark xs x s =
     (case find (\<lambda>i. fst (xs ! i) = x) [0..<length xs] of
        None \<Rightarrow> Inl ENOENT
      | Some i \<Rightarrow> (case snd (xs ! i) of
            None \<Rightarrow> Inr (xs[i := (x, Some s)])
          | Some t \<Rightarrow> if t = s then Inr xs else Inl EALREADY))"
proof (induction xs)
  case (Cons p xs)
  have "[0..<Suc (length xs)] = 0 # map Suc [0..<length xs]"
    by (simp add: upt_conv_Cons map_Suc_upt del: upt_Suc)
  with Cons show ?case
    by (cases p) (auto simp: find_map_index comp_def simp del: upt_Suc split: option.splits)
qed simp

lemma order_mark_cases:
  assumes "order_wf q"
  shows "tbv_rel_order_mark (Some q) x s =
    (case find (\<lambda>i. fst (order_abs q ! i) = x) [0..<unat (oq_count q)] of
       None \<Rightarrow> Inl ENOENT
     | Some i \<Rightarrow> (case snd (order_abs q ! i) of
           None \<Rightarrow> Inr (q\<lparr>oq_entries := (oq_entries q)[order_slot q i :=
             (oq_entries q ! order_slot q i)\<lparr>oe_ready := True, oe_status := s\<rparr>]\<rparr>)
         | Some t \<Rightarrow> if t = s then Inr q else Inl EALREADY))"
proof -
  let ?P = "\<lambda>i. oe_occupied (oq_entries q ! order_slot q i)
              \<and> oe_op_id (oq_entries q ! order_slot q i) = x"
  have f: "find ?P (order_iterations q) =
      find (\<lambda>i. fst (order_abs q ! i) = x) [0..<unat (oq_count q)]"
    by (rule find_cong)
      (use assms in \<open>auto simp: order_iterations_def nth_order_abs order_pending_def order_wf_def\<close>)
  have "order_abs q ! i = order_pending (oq_entries q ! order_slot q i)"
    if "find (\<lambda>i. fst (order_abs q ! i) = x) [0..<unat (oq_count q)] = Some i" for i
    using that by (auto simp: find_Some_iff nth_order_abs)
  then show ?thesis
    using assms unfolding tbv_rel_order_mark_def option.case f
    by (auto simp: order_wf_def Let_def order_pending_def split: option.splits)
qed

lemma order_mark_refines:
  assumes "order_wf q"
  shows "map_sum id order_abs (tbv_rel_order_mark (Some q) x s) = aq_mark (order_abs q) x s"
    and "tbv_rel_order_mark (Some q) x s = Inr q' \<Longrightarrow> order_wf q' \<and> oq_capacity q' = oq_capacity q"
proof -
  let ?f = "find (\<lambda>i. fst (order_abs q ! i) = x) [0..<unat (oq_count q)]"
  have i: "i < unat (oq_count q)" "fst (order_abs q ! i) = x"
      "oe_occupied (oq_entries q ! order_slot q i)"
    if "?f = Some i" for i
    using that assms by (auto simp: find_Some_iff order_wf_def)
  have "map_sum id order_abs (tbv_rel_order_mark (Some q) x s) = aq_mark (order_abs q) x s \<and>
      (\<forall>q'. tbv_rel_order_mark (Some q) x s = Inr q' \<longrightarrow>
        order_wf q' \<and> oq_capacity q' = oq_capacity q)"
  proof (cases ?f)
    case (Some i)
    let ?e = "(oq_entries q ! order_slot q i)\<lparr>oe_ready := True, oe_status := s\<rparr>"
    have "order_pending ?e = (x, Some s)"
      using i [OF Some] by (simp add: order_pending_def nth_order_abs)
    then show ?thesis
      using Some i [OF Some] order_update [OF assms i(1) [OF Some], of ?e] assms
      by (auto simp: order_mark_cases [OF assms] aq_mark_find split: option.splits)
  qed (simp add: order_mark_cases [OF assms] aq_mark_find)
  then show "map_sum id order_abs (tbv_rel_order_mark (Some q) x s) = aq_mark (order_abs q) x s"
    and "tbv_rel_order_mark (Some q) x s = Inr q' \<Longrightarrow> order_wf q' \<and> oq_capacity q' = oq_capacity q"
    by auto
qed

definition order_flush_entry :: "u8 \<Rightarrow> tbv_rel_order_entry \<Rightarrow> tbv_rel_order_entry" where
  "order_flush_entry s e = (if oe_ready e then e else e\<lparr>oe_ready := True, oe_status := s\<rparr>)"

lemma length_fold_flush [simp]:
  "length (fold (\<lambda>i. order_flush_slot s (f i)) js es) = length es"
  by (induction js arbitrary: es) (auto simp: order_flush_slot_def)

lemma fold_flush_nth:
  "k < length es \<Longrightarrow> fold (\<lambda>i. order_flush_slot s (f i)) js es ! k =
     (if k \<in> f ` set js then order_flush_entry s (es ! k) else es ! k)"
proof (induction js arbitrary: es)
  case (Cons j js)
  have "length (order_flush_slot s (f j) es) = length es" by (simp add: order_flush_slot_def)
  moreover have "order_flush_slot s (f j) es ! k =
      (if k = f j then order_flush_entry s (es ! k) else es ! k)"
    using Cons.prems by (auto simp: order_flush_slot_def order_flush_entry_def)
  moreover have "order_flush_entry s (order_flush_entry s e) = order_flush_entry s e" for e
    by (simp add: order_flush_entry_def)
  ultimately show ?case using Cons by auto
qed simp

lemma order_flush_refines:
  assumes "order_wf q" and "tbv_rel_order_flush (Some q) s = Inr q'"
  shows "order_wf q'" and "oq_capacity q' = oq_capacity q"
    and "order_abs q' = aq_flush s (order_abs q)"
proof -
  have q': "q' = q\<lparr>oq_entries := fold (\<lambda>i. order_flush_slot s (order_slot q i))
      (order_iterations q) (oq_entries q)\<rparr>"
    using assms by (simp add: tbv_rel_order_flush_def order_wf_def)
  have slot: "order_slot q' j = order_slot q j" for j
    by (simp add: order_slot_def tbv_rel_order_index_def q')
  have es: "oq_entries q' ! order_slot q j = order_flush_entry s (oq_entries q ! order_slot q j)"
    if "j < unat (oq_count q)" for j
    using that fold_flush_nth [OF order_slot_less [OF assms(1)], of s "order_slot q"]
    by (auto simp: q' order_iterations_def)
  show "order_wf q'"
    unfolding order_wf_def slot using assms(1) es
    by (auto simp: order_wf_def q' order_flush_entry_def)
  show "oq_capacity q' = oq_capacity q" by (simp add: q')
  show "order_abs q' = aq_flush s (order_abs q)"
  proof (rule nth_equalityI)
    fix j assume "j < length (order_abs q')"
    then have j: "j < unat (oq_count q)" by (simp add: q')
    then have "order_abs q' ! j = order_pending (order_flush_entry s (oq_entries q ! order_slot q j))"
      using es slot nth_order_abs [of j q'] by (simp add: q')
    then show "order_abs q' ! j = aq_flush s (order_abs q) ! j"
      using j by (simp add: aq_flush_def nth_order_abs order_pending_def order_flush_entry_def)
  qed (simp add: q' aq_flush_def)
qed

text \<open>Taking the entry at the head.\<close>

definition order_pop :: "tbv_rel_order_queue \<Rightarrow> tbv_rel_order_queue" where
  "order_pop q = q\<lparr>oq_entries := (oq_entries q)[unat (oq_head q) := zero_order_entry],
     oq_head := (oq_head q + 1) mod oq_capacity q, oq_count := oq_count q - 1\<rparr>"

lemma order_pop:
  assumes "order_wf q" and "oq_count q \<noteq> 0"
  shows "order_wf (order_pop q)"
    and "order_abs q = order_pending (oq_entries q ! unat (oq_head q)) # order_abs (order_pop q)"
    and "oe_occupied (oq_entries q ! unat (oq_head q))"
proof -
  let ?q = "order_pop q" and ?c = "unat (oq_capacity q)" and ?h = "unat (oq_head q)"
  have c: "0 < ?c" "?c \<le> 128" "?h < ?c"
    using assms(1) by (auto simp: order_wf_def unat_gt_0 word_less_nat_alt)
  have n: "unat (oq_count q) = Suc (unat (oq_count ?q))"
    using assms(2) by (simp add: order_pop_def unat_pred_u32 unat_gt_0)
  have h1: "unat (oq_head q + 1) = ?h + 1" using c unat_add_u32 [of "oq_head q" 1] by simp
  then have h': "unat (oq_head ?q) = (?h + 1) mod ?c" by (simp add: order_pop_def unat_mod)
  then have "unat (oq_head ?q) < ?c" using c by simp
  then have "unat (oq_head ?q) < 128" using c by simp
  then have slot: "order_slot ?q i = order_slot q (Suc i)" if "Suc i \<le> 128" for i
    using that order_slot_eq [of ?q i] order_slot_eq [OF order_wf_head [OF assms(1)], of "Suc i"] h'
    by (simp add: order_pop_def mod_add_left_eq)
  have s0: "order_slot q 0 = ?h" using order_slot_eq [OF order_wf_head [OF assms(1)], of 0] c by simp
  show "oe_occupied (oq_entries q ! ?h)" using assms(1) n s0 by (auto simp: order_wf_def)
  have lt: "Suc i < ?c" "Suc i < 128" if "i < unat (oq_count ?q)" for i
    using that order_count_less [OF assms(1), of "Suc i"] n c by auto
  have es: "oq_entries ?q ! order_slot ?q i = oq_entries q ! order_slot q (Suc i)"
    if "i < unat (oq_count ?q)" for i
    using lt [OF that] slot [of i] order_slot_inj [OF assms(1), of 0 "Suc i"] s0 c
    by (simp add: order_pop_def)
  have "unat (oq_count ?q) \<le> ?c" using assms(1) n by (simp add: order_wf_def word_le_nat_alt)
  moreover have "oe_occupied (oq_entries ?q ! order_slot ?q i)" if "i < unat (oq_count ?q)" for i
    unfolding es [OF that] using that assms(1) n by (simp add: order_wf_def)
  moreover have "unat (oq_head ?q) < ?c" using h' c by simp
  ultimately show "order_wf ?q"
    using assms(1) unfolding order_wf_def word_le_nat_alt word_less_nat_alt
    by (simp add: order_pop_def)
  show "order_abs q = order_pending (oq_entries q ! ?h) # order_abs ?q"
    using es s0 n by (auto simp: nth_order_abs nth_Cons' intro!: nth_equalityI)
qed

lemma order_drain_loop_refines:
  assumes "order_wf q" and "order_drain_loop q n m = (q', out)"
  shows "order_wf q' \<and> oq_capacity q' = oq_capacity q \<and>
    aq_drain (unat m - unat n) (order_abs q) = (order_abs q', out)"
  using assms
proof (induction q n m arbitrary: q' out rule: order_drain_loop.induct)
  case (1 q n m)
  let ?e = "oq_entries q ! unat (oq_head q)"
  consider "oq_count q = 0" | "oq_count q \<noteq> 0" "\<not> n < m"
    | "oq_count q \<noteq> 0" "n < m" "\<not> oe_ready ?e" | "oq_count q \<noteq> 0" "n < m" "oe_ready ?e"
    by blast
  then show ?case
  proof cases
    case 1
    then have "order_abs q = []" using length_order_abs [of q] by (simp del: length_order_abs)
    with 1 "1.prems" show ?thesis by (simp add: order_drain_loop.simps)
  next
    case 2
    then have "unat m - unat n = 0" by (simp add: word_less_nat_alt)
    with 2 "1.prems" show ?thesis by (simp add: order_drain_loop.simps)
  next
    case 3
    then show ?thesis
      using "1.prems" order_pop(2) [OF "1.prems"(1) 3(1)]
      by (cases "unat m - unat n") (auto simp: order_drain_loop.simps order_pending_def)
  next
    case 4
    note p = order_pop [OF "1.prems"(1) 4(1)]
    obtain out' where o: "order_drain_loop (order_pop q) (n + 1) m = (q', out')"
      and out: "out = tbv_rel_complete (oe_op_id ?e) (oe_status ?e) # out'"
      using "1.prems"(2) 4 p(3)
      by (subst (asm) order_drain_loop.simps)
        (auto simp: Let_def order_pop_def split: prod.splits)
    have "order_wf q' \<and> oq_capacity q' = oq_capacity (order_pop q) \<and>
        aq_drain (unat m - unat (n + 1)) (order_abs (order_pop q)) = (order_abs q', out')"
      using "1.IH" [OF _ refl _ order_pop_def p(1) o] 4 p(3) by simp
    moreover have "unat m - unat n = Suc (unat m - unat (n + 1))"
      using 4(2) unat_Suc_u32 [OF 4(2)] by (simp add: word_less_nat_alt)
    ultimately show ?thesis
      using 4(3) p(2) out by (simp add: order_pending_def) (simp add: order_pop_def)
  qed
qed

lemma order_drain_refines:
  assumes "order_wf q" and "tbv_rel_order_drain (Some q) True m = Inr (q', out)"
  shows "order_wf q'" and "oq_capacity q' = oq_capacity q"
    and "aq_drain (unat m) (order_abs q) = (order_abs q', out)"
proof -
  obtain q1 where l: "order_drain_loop q 0 m = (q1, out)"
    and q': "q' = (if oq_count q1 = 0 then q1\<lparr>oq_head := 0\<rparr> else q1)"
    using assms by (auto simp: tbv_rel_order_drain_def order_wf_def split: prod.splits)
  note d = order_drain_loop_refines [OF assms(1) l]
  have "order_wf q'" "order_abs q' = order_abs q1" "oq_capacity q' = oq_capacity q1"
    using d by (auto simp: q' order_wf_def order_abs_def order_iterations_def word_neq_0_conv)
  with d show "order_wf q'" "oq_capacity q' = oq_capacity q"
    "aq_drain (unat m) (order_abs q) = (order_abs q', out)" by auto
qed

lemma order_init:
  assumes "tbv_rel_order_init (Some q0) c = Inr q"
  shows "order_wf q" and "order_abs q = []" and "oq_capacity q = c"
  using assms
  by (auto simp: tbv_rel_order_init_def order_wf_def order_abs_def order_iterations_def
      word_neq_0_conv word_less_nat_alt split: if_splits)

interpretation ring: order_queue order_abs order_wf "\<lambda>q. unat (oq_capacity q)"
  "\<lambda>q. tbv_rel_order_push (Some q)" "\<lambda>q. tbv_rel_order_mark (Some q)"
  "\<lambda>q. tbv_rel_order_flush (Some q)" "\<lambda>q. tbv_rel_order_drain (Some q) True"
proof
  fix q s assume q: "order_wf q"
  then show "map_sum id order_abs (tbv_rel_order_flush (Some q) s) = Inr (aq_flush s (order_abs q))"
    using order_flush_refines(3) [OF q, of s] by (simp add: tbv_rel_order_flush_def order_wf_def)
next
  fix q m assume q: "order_wf q"
  then show "map_sum id (apfst order_abs) (tbv_rel_order_drain (Some q) True m) =
      Inr (aq_drain (unat m) (order_abs q))"
    using order_drain_refines(3) [OF q, of m]
    by (auto simp: tbv_rel_order_drain_def order_wf_def split: prod.splits)
qed (auto simp: order_push_refines order_mark_refines(1) dest: order_push_keeps
      order_mark_refines(2) order_flush_refines(1,2) order_drain_refines(1,2))

section \<open>Properties\<close>

abbreviation order_run ::
  "tbv_rel_order_queue \<Rightarrow> oq_call list \<Rightarrow> tbv_rel_order_queue \<times> u32 list \<times> tbv_rel_completion list"
where
  "order_run \<equiv> oq_run (\<lambda>q. tbv_rel_order_push (Some q)) (\<lambda>q. tbv_rel_order_mark (Some q))
     (\<lambda>q. tbv_rel_order_flush (Some q)) (\<lambda>q. tbv_rel_order_drain (Some q) True)"

text \<open>
  Completions are reported in posting order. Over any history of pushes, marks, flushes
  and drains on a fresh queue, of any capacity and across any number of turns of the ring, the
  operations drained so far followed by those still queued are exactly the operations
  accepted, in the order they were posted, and the queue never exceeds its capacity.
\<close>

theorem order_queue_fifo:
  assumes "tbv_rel_order_init (Some q0) c = Inr q" and "order_run q cs = (q', ps, ds)"
  shows "map c_op_id ds @ map fst (order_abs q') = ps \<and> length (order_abs q') \<le> unat c"
  using ring.run_fifo [OF order_init(1) [OF assms(1)] assms(2)] order_init(2,3) [OF assms(1)]
  by (auto simp: order_wf_def word_le_nat_alt)

text \<open>
  C10: the ring implements the in-order queue on every call: what each operation answers, errors
  included, and the pending list it leaves are those of the list specification.
\<close>

theorem order_queue_refines:
  assumes "order_wf q"
  shows "map_sum id order_abs (tbv_rel_order_push (Some q) x) =
      aq_push (unat (oq_capacity q)) (order_abs q) x \<and>
    map_sum id order_abs (tbv_rel_order_mark (Some q) x s) = aq_mark (order_abs q) x s \<and>
    map_sum id order_abs (tbv_rel_order_flush (Some q) s) = Inr (aq_flush s (order_abs q)) \<and>
    map_sum id (apfst order_abs) (tbv_rel_order_drain (Some q) out_given m) =
      (if m \<noteq> 0 \<and> \<not> out_given then Inl EINVAL else Inr (aq_drain (unat m) (order_abs q)))"
  using assms ring.push_refines ring.mark_refines ring.flush_refines ring.drain_refines [OF assms, of m]
  by (auto simp: tbv_rel_order_drain_def split: if_splits)

text \<open>
  Nothing stays behind a flush. After a flush with some status, a drain with room for every
  queued operation empties the queue and reports each of them once, in order, with the status
  it was marked with, or the flush status when it was not marked.
\<close>

theorem order_flush_drains_all:
  assumes "order_wf q" and "tbv_rel_order_flush (Some q) s = Inr q1"
    and "tbv_rel_order_drain (Some q1) True m = Inr (q2, out)" and "oq_count q \<le> m"
  shows "order_abs q2 = [] \<and> map (\<lambda>c. (c_op_id c, c_status c)) out =
    map (\<lambda>(i, st). (i, case st of None \<Rightarrow> s | Some s' \<Rightarrow> s')) (order_abs q)"
  using ring.flush_then_drain [OF assms(1-3)] assms(4) by (simp add: word_le_nat_alt)

section \<open>Sequence numbers\<close>

text \<open>Serial-number comparison on 32 bits.\<close>

definition tbv_rel_u32_before :: "u32 \<Rightarrow> u32 \<Rightarrow> bool" where
  "tbv_rel_u32_before a b \<longleftrightarrow> a \<noteq> b \<and> a - b > 0x80000000"

definition tbv_rel_u32_after :: "u32 \<Rightarrow> u32 \<Rightarrow> bool" where
  "tbv_rel_u32_after a b = tbv_rel_u32_before b a"

text \<open>
  The 32-bit comparison orders sequence numbers across the wrap-around: \<open>a\<close> is before
  the number \<open>d\<close> steps later exactly for \<open>0 < d < 2^31\<close>. At distance \<open>2^31\<close> neither is before
  the other, and no two numbers are both before each other.
\<close>

theorem rel_u32_before_iff:
  "(tbv_rel_u32_before a b \<longleftrightarrow> 0 < unat (b - a) \<and> unat (b - a) < 2 ^ 31) \<and>
   (tbv_rel_u32_after a b \<longleftrightarrow> 2 ^ 31 < unat (b - a)) \<and>
   \<not> (tbv_rel_u32_before a b \<and> tbv_rel_u32_after a b)"
proof -
  have half: "unat (0x80000000 :: u32) = 2147483648" by simp
  have eq: "a \<noteq> b \<longleftrightarrow> b - a \<noteq> 0" by auto
  have pos: "b - a \<noteq> 0 \<longleftrightarrow> 0 < unat (b - a)" by (simp add: unat_gt_0)
  have lt: "unat (b - a) < 4294967296" "unat (a - b) < 4294967296" by (rule unat_less_2p32)+
  have "(unat (a - b) + unat (b - a)) mod 4294967296 = 0"
    using unat_word_ariths(1) [of "a - b" "b - a"] by simp
  then have neg: "unat (a - b) = 4294967296 - unat (b - a)" if "b - a \<noteq> 0"
    by (rule complement_mod) (use lt pos that in auto)
  have before: "tbv_rel_u32_before a b \<longleftrightarrow> 0 < unat (b - a) \<and> unat (b - a) < 2147483648"
    unfolding tbv_rel_u32_before_def word_less_nat_alt half eq
    using neg lt pos by auto
  have "tbv_rel_u32_after a b \<longleftrightarrow> 2147483648 < unat (b - a)"
    unfolding tbv_rel_u32_after_def tbv_rel_u32_before_def word_less_nat_alt half
    using eq pos by auto
  with before show ?thesis by auto
qed

section \<open>A concrete history\<close>

text \<open>A queue of two slots: the head turns around the ring while operation 3 is queued.\<close>

definition order_demo :: tbv_rel_order_queue where
  "order_demo = \<lparr>oq_capacity = 2, oq_head = 0, oq_count = 0,
     oq_entries = replicate TBV_REL_ORDER_MAX zero_order_entry\<rparr>"

definition order_demo_calls :: "oq_call list" where
  "order_demo_calls = [Push 1, Push 2, Push 9, Mark 2 0, Drain 4, Mark 1 0, Drain 1, Push 3, Drain 4]"

lemma order_demo_init: "tbv_rel_order_init (Some order_demo) 2 = Inr order_demo"
  by (simp add: tbv_rel_order_init_def order_demo_def)

lemma order_demo_run:
  "snd (order_run order_demo order_demo_calls) =
     ([1, 2, 3], [tbv_rel_complete 1 0, tbv_rel_complete 2 0])"
  by code_simp

theorem order_queue_fifo_witness:
  "map fst (order_abs (fst (order_run order_demo order_demo_calls))) = [3]"
proof -
  obtain q' where r: "order_run order_demo order_demo_calls =
      (q', [1, 2, 3], [tbv_rel_complete 1 0, tbv_rel_complete 2 0])"
    using order_demo_run by (cases "order_run order_demo order_demo_calls") auto
  show ?thesis
    using order_queue_fifo [OF order_demo_init r] r by (simp add: tbv_rel_complete_def)
qed

theorem order_queue_refines_witness:
  "map_sum id order_abs (tbv_rel_order_mark (Some order_demo) 1 0) = Inl ENOENT"
  using order_queue_refines [OF order_init(1) [OF order_demo_init], of 1 0]
    order_init(2) [OF order_demo_init] by simp

theorem order_flush_drains_all_witness:
  "\<exists>q q1 q2 out. order_abs q = [(1, None)] \<and> tbv_rel_order_flush (Some q) 4 = Inr q1 \<and>
     tbv_rel_order_drain (Some q1) True 16 = Inr (q2, out) \<and> map c_status out = [4]"
proof -
  note w = order_init [OF order_demo_init]
  obtain q where q: "tbv_rel_order_push (Some order_demo) 1 = Inr q" "order_abs q = [(1, None)]"
    using ring.push_refines [OF w(1), of 1] w(2) by (auto simp: aq_push_def order_demo_def)
  have wf: "order_wf q" by (rule ring.push_keeps [OF w(1) q(1), THEN conjunct1])
  obtain q1 where f: "tbv_rel_order_flush (Some q) 4 = Inr q1"
    using wf by (simp add: tbv_rel_order_flush_def order_wf_def)
  obtain q2 out where d: "tbv_rel_order_drain (Some q1) True 16 = Inr (q2, out)"
    using ring.drain_refines [of q1 16] ring.flush_keeps [OF wf f] by auto
  have "oq_count q = 1"
    using length_order_abs [of q] q(2) by (intro word_unat_eq_iff [THEN iffD2]) simp
  then have "oq_count q \<le> 16" by simp
  from order_flush_drains_all [OF wf f d this] q(2)
  have "map c_status out = [4]" by (cases out) auto
  with q(2) f d show ?thesis by (intro exI conjI)
qed

end
