(* ===== verification/Identity.thy ===== *)
theory Identity
  imports Prelude
begin

text \<open>
  \<^verbatim>\<open>src/proto/identity.[ch]\<close>: which GID an application would use. One function follows the
  address an application binds to, another the policy a collective library applies, and the
  compatibility check demands that both pick an entry with the same key. Shown: what each selection
  answers on every input, that the prefix match compares exactly the leading bits, and what
  an accepted table guarantees.
\<close>

section \<open>Data\<close>

abbreviation TBV_ID_ADDR_BYTES :: nat where "TBV_ID_ADDR_BYTES \<equiv> 16"
abbreviation TBV_ID_AF_NONE :: u8 where "TBV_ID_AF_NONE \<equiv> 0"
abbreviation TBV_ID_AF_INET :: u8 where "TBV_ID_AF_INET \<equiv> 4"
abbreviation TBV_ID_AF_INET6 :: u8 where "TBV_ID_AF_INET6 \<equiv> 6"
abbreviation TBV_ID_GID_IB :: u8 where "TBV_ID_GID_IB \<equiv> 0"
abbreviation TBV_ID_GID_ROCE_V1 :: u8 where "TBV_ID_GID_ROCE_V1 \<equiv> 1"
abbreviation TBV_ID_GID_ROCE_V2 :: u8 where "TBV_ID_GID_ROCE_V2 \<equiv> 2"

record tbv_id_addr =
  a_family :: u8
  a_bytes :: "u8 list"

record tbv_id_gid =
  g_device_id :: u32
  g_port :: u8
  g_gid_index :: u8
  g_gid_type :: u8
  g_addr :: tbv_id_addr

record tbv_id_route =
  r_peer_addr :: tbv_id_addr
  r_local_src_addr :: tbv_id_addr

record tbv_id_nccl_policy =
  p_family :: u8
  p_roce_version :: u8
  p_has_addr_range :: bool
  p_addr_range :: tbv_id_addr
  p_addr_range_bits :: u8

record tbv_id_selection =
  s_valid :: bool
  s_device_id :: u32
  s_port :: u8
  s_gid_index :: u8
  s_gid_type :: u8
  s_addr :: tbv_id_addr

definition zero_addr :: tbv_id_addr where
  "zero_addr = \<lparr>a_family = 0, a_bytes = replicate TBV_ID_ADDR_BYTES 0\<rparr>"

section \<open>Operations\<close>

definition tbv_id_selection_clear :: tbv_id_selection where
  "tbv_id_selection_clear = \<lparr>s_valid = False, s_device_id = 0, s_port = 0, s_gid_index = 0,
     s_gid_type = 0, s_addr = zero_addr\<rparr>"

definition tbv_id_addr_v4 :: "u8 \<Rightarrow> u8 \<Rightarrow> u8 \<Rightarrow> u8 \<Rightarrow> tbv_id_addr" where
  "tbv_id_addr_v4 a b c d =
     \<lparr>a_family = TBV_ID_AF_INET,
      a_bytes = (a_bytes zero_addr)[12 := a, 13 := b, 14 := c, 15 := d]\<rparr>"

definition tbv_id_addr_v6 :: "u8 list \<Rightarrow> tbv_id_addr" where
  "tbv_id_addr_v6 bytes =
     \<lparr>a_family = TBV_ID_AF_INET6, a_bytes = take TBV_ID_ADDR_BYTES bytes\<rparr>"

definition tbv_id_addr_equal :: "tbv_id_addr \<Rightarrow> tbv_id_addr \<Rightarrow> bool" where
  "tbv_id_addr_equal a b \<longleftrightarrow> a_family a = a_family b \<and>
     take TBV_ID_ADDR_BYTES (a_bytes a) = take TBV_ID_ADDR_BYTES (a_bytes b)"

definition tbv_id_nccl_policy_default :: tbv_id_nccl_policy where
  "tbv_id_nccl_policy_default = \<lparr>p_family = TBV_ID_AF_INET, p_roce_version = 2,
     p_has_addr_range = False, p_addr_range = zero_addr, p_addr_range_bits = 0\<rparr>"

definition tbv_id_gid_is_roce :: "tbv_id_gid \<Rightarrow> bool" where
  "tbv_id_gid_is_roce gid \<longleftrightarrow>
     g_gid_type gid = TBV_ID_GID_ROCE_V1 \<or> g_gid_type gid = TBV_ID_GID_ROCE_V2"

definition tbv_id_gid_roce_version :: "tbv_id_gid \<Rightarrow> u8" where
  "tbv_id_gid_roce_version gid =
     (if g_gid_type gid = TBV_ID_GID_ROCE_V1 then 1
      else if g_gid_type gid = TBV_ID_GID_ROCE_V2 then 2 else 0)"

definition tbv_id_addr_is_zero :: "tbv_id_addr \<Rightarrow> bool" where
  "tbv_id_addr_is_zero addr \<longleftrightarrow> (\<forall>i \<in> set [0..<TBV_ID_ADDR_BYTES]. a_bytes addr ! i = 0)"

definition tbv_id_addr_is_link_local_v6 :: "tbv_id_addr \<Rightarrow> bool" where
  "tbv_id_addr_is_link_local_v6 addr \<longleftrightarrow> a_family addr = TBV_ID_AF_INET6 \<and>
     a_bytes addr ! 0 = 0xfe \<and> a_bytes addr ! 1 AND 0xc0 = 0x80"

definition tbv_id_gid_is_global_roce :: "tbv_id_gid \<Rightarrow> bool" where
  "tbv_id_gid_is_global_roce gid \<longleftrightarrow> tbv_id_gid_is_roce gid \<and>
     a_family (g_addr gid) \<noteq> TBV_ID_AF_NONE \<and> \<not> tbv_id_addr_is_zero (g_addr gid) \<and>
     \<not> tbv_id_addr_is_link_local_v6 (g_addr gid)"

definition tbv_id_same_endpoint :: "tbv_id_gid \<Rightarrow> tbv_id_gid \<Rightarrow> bool" where
  "tbv_id_same_endpoint a b \<longleftrightarrow> g_device_id a = g_device_id b \<and> g_port a = g_port b"

definition tbv_id_select_gid :: "tbv_id_gid \<Rightarrow> tbv_id_selection" where
  "tbv_id_select_gid gid =
     \<lparr>s_valid = True, s_device_id = g_device_id gid, s_port = g_port gid,
      s_gid_index = g_gid_index gid, s_gid_type = g_gid_type gid, s_addr = g_addr gid\<rparr>"

definition tbv_id_prefix_match_bytes :: "u8 list \<Rightarrow> u8 list \<Rightarrow> u8 \<Rightarrow> u8 \<Rightarrow> bool" where
  "tbv_id_prefix_match_bytes addr prefix bits max_bits =
     (if bits > max_bits then False
      else
        (let full_bytes = unat (bits div 8); rem_bits = bits mod 8
         in if full_bytes \<noteq> 0 \<and> take full_bytes addr \<noteq> take full_bytes prefix then False
            else if rem_bits \<noteq> 0 then
              (let m = (push_bit (8 - unat rem_bits) 0xff :: u8)
               in addr ! full_bytes AND m = prefix ! full_bytes AND m)
            else True))"

definition tbv_id_gid_matches_range :: "tbv_id_gid \<Rightarrow> tbv_id_nccl_policy \<Rightarrow> bool" where
  "tbv_id_gid_matches_range gid policy =
     (if \<not> p_has_addr_range policy then True
      else if a_family (g_addr gid) \<noteq> p_family policy
              \<or> a_family (p_addr_range policy) \<noteq> p_family policy then False
      else if p_family policy = TBV_ID_AF_INET then
        tbv_id_prefix_match_bytes (drop 12 (a_bytes (g_addr gid)))
          (drop 12 (a_bytes (p_addr_range policy))) (p_addr_range_bits policy) 32
      else if p_family policy = TBV_ID_AF_INET6 then
        tbv_id_prefix_match_bytes (a_bytes (g_addr gid))
          (a_bytes (p_addr_range policy)) (p_addr_range_bits policy) 128
      else False)"

text \<open>
  The loops of the two selections, over the entries still to visit and the best entry so far.
\<close>

fun llama_loop :: "tbv_id_route \<Rightarrow> tbv_id_gid list \<Rightarrow> tbv_id_gid ptr \<Rightarrow> tbv_id_gid ptr res" where
  "llama_loop route [] best = Inr best"
| "llama_loop route (gid # gids) best =
     (if \<not> tbv_id_gid_is_roce gid \<or> \<not> tbv_id_addr_equal (g_addr gid) (r_local_src_addr route)
      then llama_loop route gids best
      else
        (case best of
           None \<Rightarrow> llama_loop route gids (Some gid)
         | Some b \<Rightarrow>
             if tbv_id_same_endpoint b gid then
               (if g_gid_type b \<noteq> TBV_ID_GID_ROCE_V2 \<and> g_gid_type gid = TBV_ID_GID_ROCE_V2
                then llama_loop route gids (Some gid)
                else llama_loop route gids best)
             else Inl EEXIST))"

fun nccl_loop ::
  "tbv_id_nccl_policy \<Rightarrow> tbv_id_gid list \<Rightarrow> tbv_id_gid ptr \<Rightarrow> tbv_id_gid ptr res" where
  "nccl_loop policy [] best = Inr best"
| "nccl_loop policy (gid # gids) best =
     (if \<not> tbv_id_gid_is_global_roce gid \<or> a_family (g_addr gid) \<noteq> p_family policy
         \<or> tbv_id_gid_roce_version gid \<noteq> p_roce_version policy
         \<or> \<not> tbv_id_gid_matches_range gid policy
      then nccl_loop policy gids best
      else
        (case best of
           None \<Rightarrow> nccl_loop policy gids (Some gid)
         | Some b \<Rightarrow>
             if tbv_id_same_endpoint b gid then nccl_loop policy gids best else Inl EEXIST))"

text \<open>A failure leaves the caller's selection cleared (\<open>tbv_id_selection_clear\<close>).\<close>

definition tbv_id_select_llama ::
  "tbv_id_gid list \<Rightarrow> u32 \<Rightarrow> tbv_id_route \<Rightarrow> tbv_id_selection res" where
  "tbv_id_select_llama gids gid_count route =
     (case llama_loop route (take (unat gid_count) gids) None of
        Inl e \<Rightarrow> Inl e
      | Inr None \<Rightarrow> Inl ENODEV
      | Inr (Some best) \<Rightarrow> Inr (tbv_id_select_gid best))"

definition tbv_id_select_nccl ::
  "tbv_id_gid list \<Rightarrow> u32 \<Rightarrow> tbv_id_nccl_policy \<Rightarrow> tbv_id_selection res" where
  "tbv_id_select_nccl gids gid_count policy =
     (case nccl_loop policy (take (unat gid_count) gids) None of
        Inl e \<Rightarrow> Inl e
      | Inr None \<Rightarrow> Inl ENODEV
      | Inr (Some best) \<Rightarrow> Inr (tbv_id_select_gid best))"

definition tbv_id_validate_app_compat ::
  "tbv_id_gid list \<Rightarrow> u32 \<Rightarrow> tbv_id_route \<Rightarrow> tbv_id_nccl_policy \<Rightarrow> tbv_id_selection res" where
  "tbv_id_validate_app_compat gids gid_count route policy =
     (case tbv_id_select_llama gids gid_count route of
        Inl e \<Rightarrow> Inl e
      | Inr llama \<Rightarrow>
          (case tbv_id_select_nccl gids gid_count policy of
             Inl e \<Rightarrow> Inl e
           | Inr nccl \<Rightarrow>
               if s_device_id llama \<noteq> s_device_id nccl \<or> s_port llama \<noteq> s_port nccl
                  \<or> s_gid_index llama \<noteq> s_gid_index nccl \<or> s_gid_type llama \<noteq> s_gid_type nccl
               then Inl EXDEV else Inr llama))"

section \<open>What a selection answers\<close>

definition llama_candidate :: "tbv_id_route \<Rightarrow> tbv_id_gid \<Rightarrow> bool" where
  "llama_candidate route gid \<longleftrightarrow>
     tbv_id_gid_is_roce gid \<and> tbv_id_addr_equal (g_addr gid) (r_local_src_addr route)"

definition nccl_candidate :: "tbv_id_nccl_policy \<Rightarrow> tbv_id_gid \<Rightarrow> bool" where
  "nccl_candidate policy gid \<longleftrightarrow> tbv_id_gid_is_global_roce gid \<and>
     a_family (g_addr gid) = p_family policy \<and>
     tbv_id_gid_roce_version gid = p_roce_version policy \<and> tbv_id_gid_matches_range gid policy"

text \<open>
  The rule both selections implement on the candidates: none is an error, candidates on two
  endpoints are an error, and otherwise the preferred candidate is chosen.
\<close>

definition unique_endpoint ::
  "(tbv_id_gid \<Rightarrow> bool) \<Rightarrow> tbv_id_gid list \<Rightarrow> tbv_id_selection res" where
  "unique_endpoint preferred cs =
     (if cs = [] then Inl ENODEV
      else if \<exists>c \<in> set cs. \<not> tbv_id_same_endpoint (hd cs) c then Inl EEXIST
      else Inr (tbv_id_select_gid
             (case find preferred cs of Some g \<Rightarrow> g | None \<Rightarrow> hd cs)))"

lemma same_endpoint_equiv:
  "tbv_id_same_endpoint a a"
  "tbv_id_same_endpoint a b \<Longrightarrow> tbv_id_same_endpoint a c = tbv_id_same_endpoint b c"
  by (auto simp: tbv_id_same_endpoint_def)

text \<open>
  The contract of a selection loop: it skips entries that are not candidates, keeps the first
  candidate unless a preferred one turns up on the same endpoint, and stops on another endpoint.
\<close>

locale endpoint_selection =
  fixes candidate preferred :: "tbv_id_gid \<Rightarrow> bool"
    and loop :: "tbv_id_gid list \<Rightarrow> tbv_id_gid ptr \<Rightarrow> tbv_id_gid ptr res"
  assumes loop_Nil: "loop [] best = Inr best"
    and loop_skip: "\<not> candidate g \<Longrightarrow> loop (g # gs) best = loop gs best"
    and loop_first: "candidate g \<Longrightarrow> loop (g # gs) None = loop gs (Some g)"
    and loop_same: "candidate g \<Longrightarrow> tbv_id_same_endpoint b g \<Longrightarrow>
      loop (g # gs) (Some b) = loop gs (Some (if \<not> preferred b \<and> preferred g then g else b))"
    and loop_other: "candidate g \<Longrightarrow> \<not> tbv_id_same_endpoint b g \<Longrightarrow>
      loop (g # gs) (Some b) = Inl EEXIST"
begin

lemma loop_Some:
  "loop gs (Some b) =
     (if \<exists>c \<in> set (filter candidate gs). \<not> tbv_id_same_endpoint b c then Inl EEXIST
      else Inr (Some (case find preferred (b # filter candidate gs) of
                        Some g \<Rightarrow> g | None \<Rightarrow> b)))"
proof (induction gs arbitrary: b)
  case (Cons g gs)
  show ?case
  proof (cases "candidate g \<and> tbv_id_same_endpoint b g")
    case True
    then show ?thesis
      using Cons same_endpoint_equiv(2) [of b g] by (auto simp: loop_same)
  qed (use Cons in \<open>auto simp: loop_skip loop_other\<close>)
qed (simp add: loop_Nil)

lemma loop_None:
  "loop gs None =
     (case filter candidate gs of [] \<Rightarrow> Inr None | c # cs \<Rightarrow> loop cs (Some c))"
proof (induction gs)
  case (Cons g gs)
  have "loop (filter candidate gs) (Some g) = loop gs (Some g)" by (auto simp: loop_Some)
  with Cons show ?case by (cases "candidate g") (simp_all add: loop_first loop_skip)
qed (simp add: loop_Nil)

lemma selection:
  "(case loop gs None of
      Inl e \<Rightarrow> Inl e | Inr None \<Rightarrow> Inl ENODEV | Inr (Some g) \<Rightarrow> Inr (tbv_id_select_gid g))
   = unique_endpoint preferred (filter candidate gs)"
proof (cases "filter candidate gs")
  case (Cons c cs)
  have "\<forall>x \<in> set (c # cs). candidate x" unfolding Cons [symmetric] by simp
  then have "filter candidate cs = cs" by simp
  then have "loop cs (Some c) =
     (if \<exists>c' \<in> set cs. \<not> tbv_id_same_endpoint c c' then Inl EEXIST
      else Inr (Some (case find preferred (c # cs) of Some g \<Rightarrow> g | None \<Rightarrow> c)))"
    using loop_Some [of cs c] by simp
  then show ?thesis
    using Cons same_endpoint_equiv(1) [of c] by (simp add: loop_None unique_endpoint_def split: option.split)
qed (simp add: loop_None unique_endpoint_def)

end

interpretation llama: endpoint_selection "llama_candidate route"
  "\<lambda>g. g_gid_type g = TBV_ID_GID_ROCE_V2" "llama_loop route" for route
  by unfold_locales (auto simp: llama_candidate_def)

interpretation nccl: endpoint_selection "nccl_candidate policy" "\<lambda>_. False" "nccl_loop policy"
  for policy
  by unfold_locales (auto simp: nccl_candidate_def)

text \<open>
  What each selection answers. On the entries that qualify (by bound address, respectively by
  policy), no entry is \<open>ENODEV\<close>, entries on two device ports are \<open>EEXIST\<close>; otherwise the entry
  is the first RoCE v2 one for the address rule, or the first one, and the first one for the
  policy rule. Nothing else is ever selected.
\<close>

theorem select_spec:
  "tbv_id_select_llama gids n route =
     unique_endpoint (\<lambda>g. g_gid_type g = TBV_ID_GID_ROCE_V2)
       (filter (llama_candidate route) (take (unat n) gids)) \<and>
   tbv_id_select_nccl gids n policy =
     unique_endpoint (\<lambda>_. False) (filter (nccl_candidate policy) (take (unat n) gids))"
  by (simp add: tbv_id_select_llama_def tbv_id_select_nccl_def llama.selection nccl.selection)

lemma select_llama: "tbv_id_select_llama gids n route =
     unique_endpoint (\<lambda>g. g_gid_type g = TBV_ID_GID_ROCE_V2)
       (filter (llama_candidate route) (take (unat n) gids))"
  and select_nccl: "tbv_id_select_nccl gids n policy =
     unique_endpoint (\<lambda>_. False) (filter (nccl_candidate policy) (take (unat n) gids))"
  by (simp_all add: tbv_id_select_llama_def tbv_id_select_nccl_def llama.selection nccl.selection)

lemma unique_endpoint_ok:
  assumes "unique_endpoint P cs = Inr sel"
  obtains g where "g \<in> set cs" and "sel = tbv_id_select_gid g"
    and "\<forall>c \<in> set cs. tbv_id_same_endpoint g c"
proof -
  let ?g = "case find P cs of Some g \<Rightarrow> g | None \<Rightarrow> hd cs"
  have ne: "cs \<noteq> []" and same: "\<forall>c \<in> set cs. tbv_id_same_endpoint (hd cs) c"
    and sel: "sel = tbv_id_select_gid ?g"
    using assms by (auto simp: unique_endpoint_def split: if_splits)
  have g: "?g \<in> set cs" using ne by (auto split: option.splits simp: find_Some_iff)
  have "\<forall>c \<in> set cs. tbv_id_same_endpoint ?g c"
    using same g same_endpoint_equiv(2) [of "hd cs" ?g] by blast
  with g sel show thesis by (rule that)
qed

section \<open>The compatibility check\<close>

definition gid_key :: "tbv_id_gid \<Rightarrow> u32 \<times> u8 \<times> u8" where
  "gid_key g = (g_device_id g, g_port g, g_gid_index g)"

text \<open>
  C23: what the compatibility check guarantees. If it accepts, the selection is an entry of the table
  that is a RoCE entry with the address the application binds to; an entry with the same device, port, index and
  type is global, of the policy's family and version and inside its range; and no entry that satisfies either rule is on
  another device port. If the entries of the table have distinct device, port and index, which the code does not
  enforce, the two are the same entry.
\<close>

theorem app_compat_sound:
  assumes "tbv_id_validate_app_compat gids n route policy = Inr sel"
  shows "\<exists>g \<in> set (take (unat n) gids). \<exists>h \<in> set (take (unat n) gids).
    sel = tbv_id_select_gid g \<and> llama_candidate route g \<and> nccl_candidate policy h \<and>
    gid_key g = gid_key h \<and> g_gid_type g = g_gid_type h \<and>
    (\<forall>g' \<in> set (take (unat n) gids). llama_candidate route g' \<or> nccl_candidate policy g' \<longrightarrow>
      tbv_id_same_endpoint g g') \<and>
    (distinct (map gid_key (take (unat n) gids)) \<longrightarrow> g = h)"
proof -
  let ?gs = "take (unat n) gids"
  obtain l c where l: "tbv_id_select_llama gids n route = Inr l"
    and c: "tbv_id_select_nccl gids n policy = Inr c" and sel: "sel = l"
    and eq: "s_device_id l = s_device_id c" "s_port l = s_port c" "s_gid_index l = s_gid_index c"
      "s_gid_type l = s_gid_type c"
    using assms by (auto simp: tbv_id_validate_app_compat_def split: sum.splits if_splits)
  obtain g where g: "g \<in> set (filter (llama_candidate route) ?gs)" "l = tbv_id_select_gid g"
    "\<forall>g' \<in> set (filter (llama_candidate route) ?gs). tbv_id_same_endpoint g g'"
    using l unfolding select_llama by (rule unique_endpoint_ok)
  obtain h where h: "h \<in> set (filter (nccl_candidate policy) ?gs)" "c = tbv_id_select_gid h"
    "\<forall>g' \<in> set (filter (nccl_candidate policy) ?gs). tbv_id_same_endpoint h g'"
    using c unfolding select_nccl by (rule unique_endpoint_ok)
  have k: "gid_key g = gid_key h" "g_gid_type g = g_gid_type h"
    using eq g(2) h(2) by (simp_all add: tbv_id_select_gid_def gid_key_def)
  have m: "g \<in> set ?gs" "h \<in> set ?gs" using g(1) h(1) by auto
  have d: "distinct (map gid_key ?gs) \<longrightarrow> g = h" using k(1) m by (metis distinct_map inj_on_eq_iff)
  have e: "tbv_id_same_endpoint g = tbv_id_same_endpoint h"
    using k(1) by (simp add: tbv_id_same_endpoint_def gid_key_def fun_eq_iff)
  show ?thesis
    by (rule bexI [OF _ m(1)], rule bexI [OF _ m(2)]) (use g h sel k d e in auto)
qed

section \<open>The prefix match\<close>

text \<open>Bit \<open>i\<close> of an address in network order: bit 0 is the top bit of the first byte.\<close>

definition addr_bit :: "u8 list \<Rightarrow> nat \<Rightarrow> bool" where
  "addr_bit bs i = bit (bs ! (i div 8)) (7 - i mod 8)"

lemma byte_eq_iff: "(x :: u8) = y \<longleftrightarrow> (\<forall>i<8. bit x (7 - i) = bit y (7 - i))"
proof
  assume b: "\<forall>i<8. bit x (7 - i) = bit y (7 - i)"
  show "x = y"
  proof (rule bit_word_eqI)
    fix n assume "n < LENGTH(8)"
    then have "n = 7 - (7 - n)" "7 - n < 8" by auto
    then show "bit x n \<longleftrightarrow> bit y n" using b by metis
  qed
qed simp

lemma masked_eq_iff:
  assumes "r \<le> 8"
  shows "(x :: u8) AND push_bit (8 - r) 0xff = y AND push_bit (8 - r) 0xff \<longleftrightarrow>
    (\<forall>i<r. bit x (7 - i) = bit y (7 - i))"
proof -
  have ff: "(0xff :: u8) = mask 8" by (simp add: mask_eq_exp_minus_1)
  have b: "bit (z AND push_bit (8 - r) (0xff :: u8)) (7 - i) \<longleftrightarrow> i < r \<and> bit z (7 - i)"
    if "i < 8" for z :: u8 and i
    unfolding ff using that assms by (auto simp: bit_simps)
  show ?thesis unfolding byte_eq_iff [of "x AND _"] using b assms by (auto intro: less_le_trans)
qed

lemma take_eq_bits_iff:
  assumes "k \<le> length a" and "k \<le> length p"
  shows "take k a = take k p \<longleftrightarrow> (\<forall>i < 8 * k. addr_bit a i = addr_bit p i)"
proof -
  have "take k a = take k p \<longleftrightarrow> (\<forall>j<k. a ! j = p ! j)"
    using assms by (auto simp: list_eq_iff_nth_eq)
  also have "\<dots> \<longleftrightarrow> (\<forall>j<k. \<forall>i<8. bit (a ! j) (7 - i) = bit (p ! j) (7 - i))"
    by (subst byte_eq_iff) (rule refl)
  also have "\<dots> \<longleftrightarrow> (\<forall>i < 8 * k. addr_bit a i = addr_bit p i)"
  proof
    assume h: "\<forall>j<k. \<forall>i<8. bit (a ! j) (7 - i) = bit (p ! j) (7 - i)"
    show "\<forall>i < 8 * k. addr_bit a i = addr_bit p i"
      using h by (simp add: addr_bit_def less_mult_imp_div_less)
  next
    assume h: "\<forall>i < 8 * k. addr_bit a i = addr_bit p i"
    have "bit (a ! j) (7 - i) = bit (p ! j) (7 - i)" if "j < k" "i < 8" for i j
    proof -
      have "j * 8 + i < 8 * k" using that by linarith
      with h have "addr_bit a (j * 8 + i) = addr_bit p (j * 8 + i)" by blast
      with that(2) show ?thesis by (simp add: addr_bit_def)
    qed
    then show "\<forall>j<k. \<forall>i<8. bit (a ! j) (7 - i) = bit (p ! j) (7 - i)" by blast
  qed
  finally show ?thesis .
qed

lemma all_less_div_mod:
  "(\<forall>i < n. Q i) \<longleftrightarrow> (\<forall>i < m * (n div m). Q i) \<and> (\<forall>i < n mod m. Q (m * (n div m) + i))"
  for n m :: nat
proof -
  have n: "n = m * (n div m) + n mod m" by simp
  have "i < n \<longleftrightarrow> i < m * (n div m) \<or> (\<exists>j < n mod m. i = m * (n div m) + j)" for i
  proof (cases "i < m * (n div m)")
    case False
    then have "i = m * (n div m) + (i - m * (n div m))" by simp
    then show ?thesis using n False by (metis add_less_cancel_left)
  qed (use n in linarith)
  then show ?thesis by blast
qed

text \<open>
  The prefix match compares exactly the leading bits: for buffers that hold \<open>max_bits\<close> bits,
  it answers true if and only if the prefix length does not exceed that and the first \<open>bits\<close>
  bits, in network order, agree.
\<close>

theorem prefix_match_iff:
  assumes "unat max_bits \<le> 8 * length addr" and "unat max_bits \<le> 8 * length prefix"
  shows "tbv_id_prefix_match_bytes addr prefix bits max_bits \<longleftrightarrow>
    bits \<le> max_bits \<and> (\<forall>i < unat bits. addr_bit addr i = addr_bit prefix i)"
proof (cases "bits \<le> max_bits")
  case True
  let ?k = "unat bits div 8" and ?r = "unat bits mod 8"
  have n: "unat bits \<le> 8 * length addr" "unat bits \<le> 8 * length prefix"
    using True assms by (auto simp: word_le_nat_alt)
  then have k: "?k \<le> length addr" "?k \<le> length prefix" by auto
  have fb: "unat (bits div 8) = ?k" "unat (bits mod 8) = ?r" by (simp_all add: unat_div unat_mod)
  then have z: "bits mod 8 = 0 \<longleftrightarrow> ?r = 0" by (metis unat_eq_0)
  have r: "(\<forall>i<?r. addr_bit addr (8 * ?k + i) = addr_bit prefix (8 * ?k + i)) \<longleftrightarrow>
      (\<forall>i<?r. bit (addr ! ?k) (7 - i) = bit (prefix ! ?k) (7 - i))"
    by (simp add: addr_bit_def)
  have t: "take ?k addr = take ?k prefix \<longleftrightarrow> (\<forall>i < 8 * ?k. addr_bit addr i = addr_bit prefix i)"
    by (rule take_eq_bits_iff [OF k])
  have m: "addr ! ?k AND push_bit (8 - ?r) 0xff = prefix ! ?k AND push_bit (8 - ?r) 0xff \<longleftrightarrow>
      (\<forall>i<?r. addr_bit addr (8 * ?k + i) = addr_bit prefix (8 * ?k + i))"
    unfolding r by (rule masked_eq_iff) simp
  have "tbv_id_prefix_match_bytes addr prefix bits max_bits \<longleftrightarrow>
      take ?k addr = take ?k prefix \<and>
      (\<forall>i<?r. addr_bit addr (8 * ?k + i) = addr_bit prefix (8 * ?k + i))"
    unfolding tbv_id_prefix_match_bytes_def Let_def fb z m
    using True leD [OF True] by (cases "?r = 0"; cases "?k = 0") simp_all
  then show ?thesis
    unfolding t using True all_less_div_mod [of "unat bits" _ 8] by simp
qed (simp add: tbv_id_prefix_match_bytes_def not_le)

section \<open>A concrete table\<close>

definition id_demo_gids :: "tbv_id_gid list" where
  "id_demo_gids =
     [\<lparr>g_device_id = 1, g_port = 1, g_gid_index = 0, g_gid_type = TBV_ID_GID_ROCE_V1,
       g_addr = tbv_id_addr_v4 10 0 0 1\<rparr>,
      \<lparr>g_device_id = 1, g_port = 1, g_gid_index = 1, g_gid_type = TBV_ID_GID_ROCE_V2,
       g_addr = tbv_id_addr_v4 10 0 0 1\<rparr>]"

definition id_demo_route :: tbv_id_route where
  "id_demo_route = \<lparr>r_peer_addr = tbv_id_addr_v4 10 0 0 2,
     r_local_src_addr = tbv_id_addr_v4 10 0 0 1\<rparr>"

lemma id_demo_ok:
  "tbv_id_validate_app_compat id_demo_gids 2 id_demo_route tbv_id_nccl_policy_default =
     Inr (tbv_id_select_gid (id_demo_gids ! 1))"
  by code_simp

theorem app_compat_sound_witness:
  "\<exists>g \<in> set id_demo_gids. tbv_id_select_gid (id_demo_gids ! 1) = tbv_id_select_gid g \<and>
     llama_candidate id_demo_route g \<and> nccl_candidate tbv_id_nccl_policy_default g"
proof -
  have "distinct (map gid_key (take (unat (2 :: u32)) id_demo_gids))" by code_simp
  with app_compat_sound [OF id_demo_ok] show ?thesis by (auto simp: id_demo_gids_def)
qed

text \<open>
  Two entries with one device, port and index: the check accepts the first, whose address is outside the
  policy's range, because the second is inside it.
\<close>

definition twin_gids :: "tbv_id_gid list" where
  "twin_gids = map (\<lambda>c. \<lparr>g_device_id = 1, g_port = 1, g_gid_index = 0, g_gid_type = TBV_ID_GID_ROCE_V2,
     g_addr = tbv_id_addr_v4 10 0 c 1\<rparr>) [0, 1]"

definition twin_policy :: tbv_id_nccl_policy where
  "twin_policy = tbv_id_nccl_policy_default\<lparr>p_has_addr_range := True, p_addr_range := tbv_id_addr_v4 10 0 1 0,
     p_addr_range_bits := 24\<rparr>"

lemma twin_entries_accepted:
  "tbv_id_validate_app_compat twin_gids 2 id_demo_route twin_policy = Inr (tbv_id_select_gid (twin_gids ! 0))"
  "\<not> nccl_candidate twin_policy (twin_gids ! 0)"
  by code_simp+

theorem prefix_match_iff_witness:
  "tbv_id_prefix_match_bytes [10, 0, 3, 1] [10, 0, 2, 9] 23 32 \<and>
   map (addr_bit [10, 0, 3, 1]) [0..<23] = map (addr_bit [10, 0, 2, 9]) [0..<23]"
proof -
  have "tbv_id_prefix_match_bytes [10, 0, 3, 1] [10, 0, 2, 9] 23 32" by code_simp
  with prefix_match_iff [of 32 "[10, 0, 3, 1]" "[10, 0, 2, 9]" 23] show ?thesis by auto
qed

end
