(* ===== verification/Config.thy ===== *)
theory Config
  imports Identity
begin

text \<open>
  \<^verbatim>\<open>src/proto/config.[ch]\<close>: the configuration of one link. A link is edited while it is empty or
  a draft, sealed once its contents pass the compatibility check of \<open>Identity\<close>, and then only
  switched between sealed and active. Operations return a status and the link, because a
  refused seal still clears the stored selection.
\<close>

section \<open>Data\<close>

abbreviation TBV_CFG_MAX_APP_GIDS :: nat where "TBV_CFG_MAX_APP_GIDS \<equiv> 8"
abbreviation TBV_CFG_LINK_NAME_PREFIX :: string where "TBV_CFG_LINK_NAME_PREFIX \<equiv> ''usb4_rdma''"
abbreviation TBV_CFG_LINK_NAME_MAX :: nat where "TBV_CFG_LINK_NAME_MAX \<equiv> 15"
abbreviation TBV_CFG_BACKEND_NONE :: u8 where "TBV_CFG_BACKEND_NONE \<equiv> 0"
abbreviation TBV_CFG_BACKEND_NATIVE :: u8 where "TBV_CFG_BACKEND_NATIVE \<equiv> 1"
abbreviation TBV_CFG_BACKEND_APPLE :: u8 where "TBV_CFG_BACKEND_APPLE \<equiv> 2"

datatype tbv_cfg_state = TBV_CFG_EMPTY | TBV_CFG_DRAFT | TBV_CFG_SEALED | TBV_CFG_ACTIVE

record tbv_cfg_link =
  l_link_id :: u32
  l_state :: tbv_cfg_state
  l_backend :: u8
  l_route_set :: bool
  l_nccl_policy_set :: bool
  l_route :: tbv_id_route
  l_nccl_policy :: tbv_id_nccl_policy
  l_app_gids :: "tbv_id_gid list"
  l_app_gid_count :: u32
  l_app_selection :: tbv_id_selection

definition zero_gid :: tbv_id_gid where
  "zero_gid = \<lparr>g_device_id = 0, g_port = 0, g_gid_index = 0, g_gid_type = 0, g_addr = zero_addr\<rparr>"

section \<open>Operations\<close>

definition tbv_cfg_link_mutable :: "tbv_cfg_link \<Rightarrow> bool" where
  "tbv_cfg_link_mutable link \<longleftrightarrow> l_state link = TBV_CFG_EMPTY \<or> l_state link = TBV_CFG_DRAFT"

definition tbv_cfg_link_name_char_allowed :: "char \<Rightarrow> bool" where
  "tbv_cfg_link_name_char_allowed c \<longleftrightarrow>
     (let n = (of_char c :: nat)
      in (of_char (CHR ''a'') \<le> n \<and> n \<le> of_char (CHR ''z''))
         \<or> (of_char (CHR ''A'') \<le> n \<and> n \<le> of_char (CHR ''Z''))
         \<or> (of_char (CHR ''0'') \<le> n \<and> n \<le> of_char (CHR ''9''))
         \<or> c = CHR ''_'' \<or> c = CHR ''-'')"

text \<open>
  A C string is the list of its characters before the terminator; reading the position after
  the last one gives the terminator.
\<close>

definition c_char_at :: "string \<Rightarrow> nat \<Rightarrow> char" where
  "c_char_at s i = (if i < length s then s ! i else CHR 0x00)"

fun validate_name_tail :: "string \<Rightarrow> nat \<Rightarrow> unit res" where
  "validate_name_tail [] i = Inr ()"
| "validate_name_tail (c # cs) i =
     (if i \<ge> TBV_CFG_LINK_NAME_MAX then Inl ENAMETOOLONG
      else if \<not> tbv_cfg_link_name_char_allowed c then Inl EINVAL
      else validate_name_tail cs (i + 1))"

definition tbv_cfg_link_validate_name :: "string ptr \<Rightarrow> unit res" where
  "tbv_cfg_link_validate_name namep =
     (case namep of
        None \<Rightarrow> Inl EINVAL
      | Some name \<Rightarrow>
          (let n = length TBV_CFG_LINK_NAME_PREFIX
           in if \<exists>i \<in> set [0..<n]. c_char_at name i \<noteq> TBV_CFG_LINK_NAME_PREFIX ! i then Inl EINVAL
              else if c_char_at name n = CHR 0x00 then Inl EINVAL
              else validate_name_tail (drop n name) n))"

definition tbv_cfg_link_init :: "u32 \<Rightarrow> tbv_cfg_link" where
  "tbv_cfg_link_init link_id =
     \<lparr>l_link_id = link_id, l_state = TBV_CFG_EMPTY, l_backend = 0, l_route_set = False,
      l_nccl_policy_set = False,
      l_route = \<lparr>r_peer_addr = zero_addr, r_local_src_addr = zero_addr\<rparr>,
      l_nccl_policy = tbv_id_nccl_policy_default,
      l_app_gids = replicate TBV_CFG_MAX_APP_GIDS zero_gid, l_app_gid_count = 0,
      l_app_selection = tbv_id_selection_clear\<rparr>"

definition tbv_cfg_link_set_backend :: "tbv_cfg_link \<Rightarrow> u8 \<Rightarrow> unit res \<times> tbv_cfg_link" where
  "tbv_cfg_link_set_backend link backend =
     (if \<not> tbv_cfg_link_mutable link then (Inl EBUSY, link)
      else if backend \<noteq> TBV_CFG_BACKEND_NATIVE \<and> backend \<noteq> TBV_CFG_BACKEND_APPLE
      then (Inl EINVAL, link)
      else (Inr (), link\<lparr>l_backend := backend, l_state := TBV_CFG_DRAFT\<rparr>))"

definition tbv_cfg_link_set_route ::
  "tbv_cfg_link \<Rightarrow> tbv_id_route \<Rightarrow> unit res \<times> tbv_cfg_link" where
  "tbv_cfg_link_set_route link route =
     (if \<not> tbv_cfg_link_mutable link then (Inl EBUSY, link)
      else (Inr (), link\<lparr>l_route := route, l_route_set := True, l_state := TBV_CFG_DRAFT\<rparr>))"

definition tbv_cfg_link_set_nccl_policy ::
  "tbv_cfg_link \<Rightarrow> tbv_id_nccl_policy \<Rightarrow> unit res \<times> tbv_cfg_link" where
  "tbv_cfg_link_set_nccl_policy link policy =
     (if \<not> tbv_cfg_link_mutable link then (Inl EBUSY, link)
      else (Inr (), link\<lparr>l_nccl_policy := policy, l_nccl_policy_set := True,
                         l_state := TBV_CFG_DRAFT\<rparr>))"

definition tbv_cfg_link_set_app_gids ::
  "tbv_cfg_link \<Rightarrow> tbv_id_gid list ptr \<Rightarrow> u32 \<Rightarrow> unit res \<times> tbv_cfg_link" where
  "tbv_cfg_link_set_app_gids link gidsp gid_count =
     (if \<not> tbv_cfg_link_mutable link then (Inl EBUSY, link)
      else
        (case gidsp of
           None \<Rightarrow> (Inl EINVAL, link)
         | Some gids \<Rightarrow>
             if gid_count = 0 \<or> unat gid_count > TBV_CFG_MAX_APP_GIDS then (Inl EINVAL, link)
             else (Inr (), link\<lparr>l_app_gids := take (unat gid_count) gids
                                  @ drop (unat gid_count) (l_app_gids link),
                                l_app_gid_count := gid_count, l_state := TBV_CFG_DRAFT\<rparr>)))"

text \<open>The policy in force: the stored one, or the default when none was set.\<close>

definition effective_policy :: "tbv_cfg_link \<Rightarrow> tbv_id_nccl_policy" where
  "effective_policy link =
     (if l_nccl_policy_set link then l_nccl_policy link else tbv_id_nccl_policy_default)"

definition tbv_cfg_link_seal :: "tbv_cfg_link \<Rightarrow> unit res \<times> tbv_cfg_link" where
  "tbv_cfg_link_seal link =
     (if \<not> tbv_cfg_link_mutable link then (Inl EBUSY, link)
      else if l_backend link \<noteq> TBV_CFG_BACKEND_NATIVE \<and> l_backend link \<noteq> TBV_CFG_BACKEND_APPLE
      then (Inl EINVAL, link)
      else if \<not> l_route_set link \<or> l_app_gid_count link = 0 then (Inl EINVAL, link)
      else
        (case tbv_id_validate_app_compat (l_app_gids link) (l_app_gid_count link) (l_route link)
                (effective_policy link) of
           Inl e \<Rightarrow> (Inl e, link\<lparr>l_app_selection := tbv_id_selection_clear\<rparr>)
         | Inr sel \<Rightarrow> (Inr (), link\<lparr>l_app_selection := sel, l_state := TBV_CFG_SEALED\<rparr>)))"

definition tbv_cfg_link_activate :: "tbv_cfg_link \<Rightarrow> unit res \<times> tbv_cfg_link" where
  "tbv_cfg_link_activate link =
     (if l_state link \<noteq> TBV_CFG_SEALED then (Inl EINVAL, link)
      else (Inr (), link\<lparr>l_state := TBV_CFG_ACTIVE\<rparr>))"

definition tbv_cfg_link_deactivate :: "tbv_cfg_link \<Rightarrow> unit res \<times> tbv_cfg_link" where
  "tbv_cfg_link_deactivate link =
     (if l_state link \<noteq> TBV_CFG_ACTIVE then (Inl EINVAL, link)
      else (Inr (), link\<lparr>l_state := TBV_CFG_SEALED\<rparr>))"

lemmas cfg_op_defs = tbv_cfg_link_set_backend_def tbv_cfg_link_set_route_def
  tbv_cfg_link_set_nccl_policy_def tbv_cfg_link_set_app_gids_def tbv_cfg_link_seal_def
  tbv_cfg_link_activate_def tbv_cfg_link_deactivate_def

section \<open>Link names\<close>

lemma validate_name_tail_iff:
  "validate_name_tail cs i = Inr () \<longleftrightarrow>
     list_all tbv_cfg_link_name_char_allowed cs \<and> (cs = [] \<or> i + length cs \<le> TBV_CFG_LINK_NAME_MAX)"
  by (induction cs i rule: validate_name_tail.induct) auto

lemma c_prefix_iff:
  assumes "CHR 0x00 \<notin> set p"
  shows "(\<forall>i < length p. c_char_at s i = p ! i) \<longleftrightarrow> take (length p) s = p"
proof
  assume h: "\<forall>i < length p. c_char_at s i = p ! i"
  have "length p \<le> length s"
  proof (rule ccontr)
    assume "\<not> length p \<le> length s"
    then have "c_char_at s (length s) = p ! length s" using h by simp
    then show False using assms \<open>\<not> length p \<le> length s\<close> nth_mem [of "length s" p]
      by (simp add: c_char_at_def)
  qed
  then show "take (length p) s = p" using h by (auto simp: c_char_at_def intro!: nth_equalityI)
next
  assume h: "take (length p) s = p"
  then have "length p \<le> length s" by (metis length_take min.cobounded1)
  then show "\<forall>i < length p. c_char_at s i = p ! i"
    using h by (metis c_char_at_def less_le_trans nth_take)
qed

text \<open>
  A link name is accepted if and only if it is the prefix \<open>usb4_rdma\<close> followed by one to six
  letters, digits, underscores or dashes (at most 15 characters in all).
\<close>

theorem validate_name_iff:
  assumes "CHR 0x00 \<notin> set name"
  shows "tbv_cfg_link_validate_name (Some name) = Inr () \<longleftrightarrow>
    (\<exists>tl. name = TBV_CFG_LINK_NAME_PREFIX @ tl \<and> tl \<noteq> [] \<and> length name \<le> TBV_CFG_LINK_NAME_MAX \<and>
       list_all tbv_cfg_link_name_char_allowed tl)"
proof -
  let ?p = "TBV_CFG_LINK_NAME_PREFIX"
  have p: "(\<exists>i \<in> set [0..<length ?p]. c_char_at name i \<noteq> ?p ! i) \<longleftrightarrow> take (length ?p) name \<noteq> ?p"
    using c_prefix_iff [of ?p name] by (auto simp del: list.size)
  have z: "c_char_at name (length ?p) = CHR 0x00 \<longleftrightarrow> length name \<le> length ?p"
    unfolding c_char_at_def using assms by (metis not_less nth_mem)
  have "tbv_cfg_link_validate_name (Some name) = Inr () \<longleftrightarrow>
      take (length ?p) name = ?p \<and> length ?p < length name \<and>
      list_all tbv_cfg_link_name_char_allowed (drop (length ?p) name) \<and> length name \<le> 15"
    unfolding tbv_cfg_link_validate_name_def option.case Let_def p z
    by (auto simp: validate_name_tail_iff)
  also have "\<dots> \<longleftrightarrow> (\<exists>tl. name = ?p @ tl \<and> tl \<noteq> [] \<and> length name \<le> 15 \<and>
       list_all tbv_cfg_link_name_char_allowed tl)"
    by (metis append_Nil2 append_eq_conv_conj append_take_drop_id drop_eq_Nil less_irrefl not_le)
  finally show ?thesis .
qed

section \<open>The life of a link\<close>

datatype cfg_call =
  Set_Backend u8 | Set_Route tbv_id_route | Set_Policy tbv_id_nccl_policy
  | Set_Gids "tbv_id_gid list ptr" u32 | Seal | Activate | Deactivate

fun cfg_apply :: "cfg_call \<Rightarrow> tbv_cfg_link \<Rightarrow> unit res \<times> tbv_cfg_link" where
  "cfg_apply (Set_Backend b) l = tbv_cfg_link_set_backend l b"
| "cfg_apply (Set_Route r) l = tbv_cfg_link_set_route l r"
| "cfg_apply (Set_Policy p) l = tbv_cfg_link_set_nccl_policy l p"
| "cfg_apply (Set_Gids gs n) l = tbv_cfg_link_set_app_gids l gs n"
| "cfg_apply Seal l = tbv_cfg_link_seal l"
| "cfg_apply Activate l = tbv_cfg_link_activate l"
| "cfg_apply Deactivate l = tbv_cfg_link_deactivate l"

text \<open>A caller that hands over a table hands over as many entries as it says.\<close>

fun cfg_call_ok :: "cfg_call \<Rightarrow> bool" where
  "cfg_call_ok (Set_Gids (Some gs) n) = (unat n \<le> length gs)"
| "cfg_call_ok _ = True"

inductive cfg_reachable :: "u32 \<Rightarrow> tbv_cfg_link \<Rightarrow> bool" for link_id where
  fresh: "cfg_reachable link_id (tbv_cfg_link_init link_id)"
| call: "cfg_reachable link_id l \<Longrightarrow> cfg_call_ok c \<Longrightarrow> cfg_reachable link_id (snd (cfg_apply c l))"

definition cfg_sealed :: "tbv_cfg_link \<Rightarrow> bool" where
  "cfg_sealed l \<longleftrightarrow> l_state l = TBV_CFG_SEALED \<or> l_state l = TBV_CFG_ACTIVE"

definition cfg_validated :: "tbv_cfg_link \<Rightarrow> bool" where
  "cfg_validated l \<longleftrightarrow>
     (l_backend l = TBV_CFG_BACKEND_NATIVE \<or> l_backend l = TBV_CFG_BACKEND_APPLE) \<and>
     l_route_set l \<and> l_app_gid_count l \<noteq> 0 \<and>
     tbv_id_validate_app_compat (l_app_gids l) (l_app_gid_count l) (l_route l) (effective_policy l) =
       Inr (l_app_selection l)"

definition cfg_inv :: "tbv_cfg_link \<Rightarrow> bool" where
  "cfg_inv l \<longleftrightarrow> length (l_app_gids l) = TBV_CFG_MAX_APP_GIDS \<and>
     unat (l_app_gid_count l) \<le> TBV_CFG_MAX_APP_GIDS \<and> (cfg_sealed l \<longrightarrow> cfg_validated l)"

lemma mutable_iff: "tbv_cfg_link_mutable l \<longleftrightarrow> \<not> cfg_sealed l"
  unfolding tbv_cfg_link_mutable_def cfg_sealed_def by (cases "l_state l") simp_all

lemma cfg_sealed_step:
  assumes "cfg_sealed l"
  shows "cfg_sealed (snd (cfg_apply c l)) \<and>
    (\<exists>st. snd (cfg_apply c l) = l\<lparr>l_state := st\<rparr>)"
proof -
  have "l = l\<lparr>l_state := l_state l\<rparr>" by simp
  then have same: "\<exists>st. l = l\<lparr>l_state := st\<rparr>" by metis
  have "\<not> tbv_cfg_link_mutable l" using assms by (simp add: mutable_iff)
  then show ?thesis
    using assms same by (cases c) (auto simp: cfg_op_defs cfg_sealed_def)
qed

lemma validated_state: "cfg_validated (l\<lparr>l_state := st\<rparr>) = cfg_validated l"
  by (simp add: cfg_validated_def effective_policy_def)

lemma cfg_draft_step:
  assumes "\<not> cfg_sealed l" and "cfg_sealed (snd (cfg_apply c l))"
  shows "c = Seal \<and> cfg_validated (snd (cfg_apply c l))"
  using assms
  by (cases c) (auto simp: cfg_op_defs mutable_iff cfg_sealed_def cfg_validated_def
      effective_policy_def split: if_splits option.splits sum.splits)

lemma cfg_apply_table:
  assumes "length (l_app_gids l) = TBV_CFG_MAX_APP_GIDS"
    and "unat (l_app_gid_count l) \<le> TBV_CFG_MAX_APP_GIDS" and "cfg_call_ok c"
  shows "length (l_app_gids (snd (cfg_apply c l))) = TBV_CFG_MAX_APP_GIDS \<and>
    unat (l_app_gid_count (snd (cfg_apply c l))) \<le> TBV_CFG_MAX_APP_GIDS"
  using assms by (cases c) (auto simp: cfg_op_defs split: option.splits sum.splits)

lemma cfg_inv_step:
  assumes "cfg_inv l" and "cfg_call_ok c"
  shows "cfg_inv (snd (cfg_apply c l))"
proof (cases "cfg_sealed l")
  case True
  then obtain st where "snd (cfg_apply c l) = l\<lparr>l_state := st\<rparr>" using cfg_sealed_step by blast
  then show ?thesis
    using assms(1) True unfolding cfg_inv_def by (simp add: validated_state)
next
  case False
  then show ?thesis
    using assms cfg_draft_step [OF False, of c] cfg_apply_table [of l c] by (simp add: cfg_inv_def)
qed

lemma cfg_reachable_inv: "cfg_reachable link_id l \<Longrightarrow> cfg_inv l"
proof (induction rule: cfg_reachable.induct)
  case fresh
  then show ?case by (simp add: cfg_inv_def tbv_cfg_link_init_def cfg_sealed_def)
qed (rule cfg_inv_step)

text \<open>
  A link that is sealed or active, after any sequence of calls, has a backend, a route and a
  non-empty table of at most eight entries, and its stored selection is the one the
  compatibility check gives for exactly these contents.
\<close>

theorem sealed_is_validated:
  assumes "cfg_reachable link_id l" and "cfg_sealed l"
  shows "cfg_validated l \<and> unat (l_app_gid_count l) \<le> TBV_CFG_MAX_APP_GIDS \<and>
    s_valid (l_app_selection l)"
proof -
  have v: "cfg_validated l" and n: "unat (l_app_gid_count l) \<le> TBV_CFG_MAX_APP_GIDS"
    using cfg_reachable_inv [OF assms(1)] assms(2) by (auto simp: cfg_inv_def)
  then have "tbv_id_select_llama (l_app_gids l) (l_app_gid_count l) (l_route l) =
      Inr (l_app_selection l)"
    by (auto simp: cfg_validated_def tbv_id_validate_app_compat_def split: sum.splits if_splits)
  then obtain g where "l_app_selection l = tbv_id_select_gid g"
    unfolding select_llama by (rule unique_endpoint_ok)
  then have "s_valid (l_app_selection l)" by (simp add: tbv_id_select_gid_def)
  with v n show ?thesis by simp
qed

text \<open>
  Sealing is final. Once sealed, whatever calls follow, the link stays sealed or active and
  nothing but that state ever changes.
\<close>

theorem sealed_is_final:
  assumes "cfg_sealed l"
  shows "cfg_sealed (snd (fold (\<lambda>c (_, l). cfg_apply c l) cs (r, l))) \<and>
    (\<exists>st. snd (fold (\<lambda>c (_, l). cfg_apply c l) cs (r, l)) = l\<lparr>l_state := st\<rparr>)"
  using assms
proof (induction cs arbitrary: r l)
  case Nil
  have "l = l\<lparr>l_state := l_state l\<rparr>" by simp
  with Nil show ?case by (metis fold_simps(1) snd_conv)
next
  case (Cons c cs)
  note s = cfg_sealed_step [OF Cons.prems, of c]
  obtain r' l' where a: "cfg_apply c l = (r', l')" by (cases "cfg_apply c l")
  then show ?case using Cons.IH [of l' r'] s by auto
qed

section \<open>A concrete link\<close>

definition cfg_demo :: tbv_cfg_link where
  "cfg_demo = snd (cfg_apply Seal (snd (cfg_apply (Set_Gids (Some id_demo_gids) 2)
     (snd (cfg_apply (Set_Route id_demo_route) (snd (cfg_apply (Set_Backend TBV_CFG_BACKEND_NATIVE)
       (tbv_cfg_link_init 3))))))))"

lemma cfg_demo_reachable: "cfg_reachable 3 cfg_demo"
  unfolding cfg_demo_def
  by (intro cfg_reachable.intros) (simp_all add: id_demo_gids_def)

lemma cfg_demo_sealed: "l_state cfg_demo = TBV_CFG_SEALED"
  by code_simp

theorem validate_name_iff_witness:
  "tbv_cfg_link_validate_name (Some ''usb4_rdma0'') = Inr () \<and>
   tbv_cfg_link_validate_name (Some ''usb4_rdma'') \<noteq> Inr ()"
  using validate_name_iff [of "''usb4_rdma0''"] validate_name_iff [of "''usb4_rdma''"]
  by (simp add: tbv_cfg_link_name_char_allowed_def)

theorem sealed_is_validated_witness: "cfg_validated cfg_demo \<and> s_valid (l_app_selection cfg_demo)"
  using sealed_is_validated [OF cfg_demo_reachable] cfg_demo_sealed by (simp add: cfg_sealed_def)

theorem sealed_is_final_witness:
  "\<exists>st. snd (fold (\<lambda>c (_, l). cfg_apply c l) [Activate, Set_Backend 2, Deactivate] (Inr (), cfg_demo))
     = cfg_demo\<lparr>l_state := st\<rparr>"
  using sealed_is_final [of cfg_demo "[Activate, Set_Backend 2, Deactivate]" "Inr ()"]
    cfg_demo_sealed by (simp add: cfg_sealed_def)

end
