(* ===== verification/Scan.thy ===== *)
theory Scan
  imports Prelude
begin

text \<open>
  The pieces of the kernel's string library that the text interfaces use: \<open>sscanf\<close> with the
  conversions \<open>%u\<close>, \<open>%Ns\<close>, \<open>%N[^/]\<close>, literal characters and white space, \<open>%u\<close> printing, and
  \<open>sysfs_streq\<close>. Each conversion is a function from the rest of the input to its value and what
  is left; \<open>None\<close> is the point where \<open>sscanf\<close> stops counting. A \<open>%u\<close> keeps the low 32 bits of
  the number, as the kernel's does.
\<close>

definition is_space :: "char \<Rightarrow> bool" where
  "is_space c \<longleftrightarrow> c \<in> {CHR '' '', CHR 0x09, CHR 0x0A, CHR 0x0B, CHR 0x0C, CHR 0x0D, CHR 0xA0}"

definition is_digit :: "char \<Rightarrow> bool" where
  "is_digit c \<longleftrightarrow> 48 \<le> (of_char c :: nat) \<and> (of_char c :: nat) \<le> 57"

definition skip_spaces :: "string \<Rightarrow> string" where
  "skip_spaces = dropWhile is_space"

definition digit_val :: "char \<Rightarrow> nat" where
  "digit_val c = of_char c - 48"

definition dec_val :: "string \<Rightarrow> nat" where
  "dec_val ds = foldl (\<lambda>v d. 10 * v + digit_val d) 0 ds"

definition scan_u :: "string \<Rightarrow> (u32 \<times> string) option" where
  "scan_u s =
     (let s = skip_spaces s; ds = takeWhile is_digit s
      in if ds = [] then None else Some (of_nat (dec_val ds), dropWhile is_digit s))"

definition scan_char :: "char \<Rightarrow> string \<Rightarrow> string option" where
  "scan_char c s = (case s of [] \<Rightarrow> None | x # xs \<Rightarrow> if x = c then Some xs else None)"

definition scan_word :: "nat \<Rightarrow> string \<Rightarrow> (string \<times> string) option" where
  "scan_word width s =
     (if s = [] then None
      else let s = skip_spaces s; w = take width (takeWhile (\<lambda>c. \<not> is_space c) s)
           in Some (w, drop (length w) s))"

definition scan_until :: "nat \<Rightarrow> char \<Rightarrow> string \<Rightarrow> (string \<times> string) option" where
  "scan_until width stop s =
     (let w = take width (takeWhile (\<lambda>c. c \<noteq> stop) s)
      in if w = [] then None else Some (w, drop (length w) s))"

definition sysfs_streq :: "string \<Rightarrow> string \<Rightarrow> bool" where
  "sysfs_streq s t \<longleftrightarrow> s = t \<or> s = t @ [CHR 0x0A] \<or> t = s @ [CHR 0x0A]"

section \<open>Printing\<close>

definition digit_char :: "nat \<Rightarrow> char" where
  "digit_char n = char_of (48 + n)"

fun dec :: "nat \<Rightarrow> string" where
  "dec n = (if n < 10 then [digit_char n] else dec (n div 10) @ [digit_char (n mod 10)])"

declare dec.simps [simp del]

lemma digit_char_props:
  assumes "n < 10"
  shows "is_digit (digit_char n)" and "digit_val (digit_char n) = n"
  using assms by (simp_all add: is_digit_def digit_val_def digit_char_def)

lemma dec_digits: "list_all is_digit (dec n)"
  by (induction n rule: dec.induct) (subst dec.simps, simp add: digit_char_props)

lemma dec_not_Nil [simp]: "dec n \<noteq> []"
  by (subst dec.simps) simp

lemma dec_val_dec [simp]: "dec_val (dec n) = n"
proof (induction n rule: dec.induct)
  case (1 n)
  show ?case
  proof (cases "n < 10")
    case True
    then show ?thesis by (subst dec.simps) (simp add: dec_val_def digit_char_props)
  next
    case False
    then have "dec_val (dec (n div 10)) = n div 10" by (rule 1)
    then show ?thesis using False by (subst dec.simps) (simp add: dec_val_def digit_char_props)
  qed
qed

lemma digit_not_space: "is_digit c \<Longrightarrow> \<not> is_space c"
  by (auto simp: is_digit_def is_space_def)

lemma skip_spaces_dec: "skip_spaces (dec n @ s) = dec n @ s"
proof (cases "dec n")
  case (Cons c cs)
  then have "is_digit c" using dec_digits [of n] by simp
  then show ?thesis using Cons by (simp add: skip_spaces_def digit_not_space)
qed simp

text \<open>A printed number is scanned back, up to the next character that is not a digit.\<close>

lemma scan_u_dec [simp]:
  assumes "s = [] \<or> \<not> is_digit (hd s)"
  shows "scan_u (dec n @ s) = Some (of_nat n, s)"
proof -
  have d: "\<forall>c \<in> set (dec n). is_digit c" using dec_digits [of n] by (simp add: list_all_iff)
  have "takeWhile is_digit s = []" "dropWhile is_digit s = s" using assms by (cases s; simp)+
  then show ?thesis
    using d by (simp add: scan_u_def Let_def skip_spaces_dec)
qed

lemma scan_u_space [simp]:
  assumes "is_space c"
  shows "scan_u (c # s) = scan_u s"
  using assms by (simp add: scan_u_def skip_spaces_def)

lemma scan_char_hit [simp]: "scan_char c (c # s) = Some s"
  by (simp add: scan_char_def)

lemma special_chars [simp]:
  "\<not> is_digit (CHR ''.'')" "\<not> is_digit (CHR ''-'')" "\<not> is_digit (CHR ''/'')"
  "\<not> is_digit (CHR 0x0A)" "\<not> is_digit (CHR '' '')"
  by (simp_all add: is_digit_def)

end
