(* ===== verification/Profile.thy ===== *)
theory Profile
  imports Scan
begin

text \<open>
  \<^verbatim>\<open>src/kernel/profile.c\<close>: the module parameters as text, their resolution to a profile, and the
  names printed for them. Shown: names and parsers are inverse, what resolution answers for
  every request, and which lane specifications are accepted.
\<close>

section \<open>Data\<close>

datatype tbv_compat_mode = TBV_COMPAT_AUTO | TBV_COMPAT_FORCE | TBV_COMPAT_OFF

datatype tbv_profile =
  TBV_PROFILE_AUTO | TBV_PROFILE_MAC_COMPAT | TBV_PROFILE_LINUX_PERF | TBV_PROFILE_MIXED

datatype tbv_tbnet_policy =
  TBV_TBNET_AUTO | TBV_TBNET_ALLOW | TBV_TBNET_PREFER_RDMA | TBV_TBNET_BLOCK

datatype tbv_tbnet_identity_mode =
  TBV_TBNET_ID_AUTO | TBV_TBNET_ID_STOCK | TBV_TBNET_ID_STOCK_PROXY
  | TBV_TBNET_ID_MINIMAL_PACKET | TBV_TBNET_ID_OFF

datatype tbv_backend_type = TBV_BACKEND_NATIVE | TBV_BACKEND_APPLE

record tbv_config =
  cfg_compat :: tbv_compat_mode
  cfg_profile :: tbv_profile
  cfg_tbnet :: tbv_tbnet_policy
  cfg_tbnet_identity :: tbv_tbnet_identity_mode
  cfg_lanes_min :: u32
  cfg_lanes_max :: u32
  cfg_lanes_auto :: bool

record tbv_resolved_config =
  rc_requested :: tbv_config
  rc_profile :: tbv_profile
  rc_tbnet_identity :: tbv_tbnet_identity_mode
  rc_native_enabled :: bool
  rc_apple_enabled :: bool
  rc_rc_supported :: bool
  rc_uc_supported :: bool

section \<open>Operations\<close>

definition tbv_parse_enum :: "string ptr \<Rightarrow> (string \<times> 'v) list \<Rightarrow> 'v res" where
  "tbv_parse_enum inputp tab =
     (case inputp of
        None \<Rightarrow> Inl EINVAL
      | Some input \<Rightarrow>
          if input = [] then Inl EINVAL
          else (case find (\<lambda>(name, _). input = name) tab of
                  Some (_, value) \<Rightarrow> Inr value | None \<Rightarrow> Inl EINVAL))"

text \<open>The four tables inside \<open>tbv_config_parse\<close>.\<close>

definition compat_map :: "(string \<times> tbv_compat_mode) list" where
  "compat_map = [(''auto'', TBV_COMPAT_AUTO), (''force'', TBV_COMPAT_FORCE), (''off'', TBV_COMPAT_OFF)]"

definition profile_map :: "(string \<times> tbv_profile) list" where
  "profile_map = [(''auto'', TBV_PROFILE_AUTO), (''mac_compat'', TBV_PROFILE_MAC_COMPAT),
     (''linux_perf'', TBV_PROFILE_LINUX_PERF), (''mixed'', TBV_PROFILE_MIXED)]"

definition tbnet_map :: "(string \<times> tbv_tbnet_policy) list" where
  "tbnet_map = [(''auto'', TBV_TBNET_AUTO), (''allow'', TBV_TBNET_ALLOW),
     (''prefer_rdma'', TBV_TBNET_PREFER_RDMA), (''block'', TBV_TBNET_BLOCK)]"

definition identity_map :: "(string \<times> tbv_tbnet_identity_mode) list" where
  "identity_map = [(''auto'', TBV_TBNET_ID_AUTO), (''stock'', TBV_TBNET_ID_STOCK),
     (''stock_proxy'', TBV_TBNET_ID_STOCK_PROXY), (''minimal_packet'', TBV_TBNET_ID_MINIMAL_PACKET),
     (''off'', TBV_TBNET_ID_OFF)]"

text \<open>\<open>sscanf\<close> with the format \<open>%u-%u\<close>: the numbers it converted before it stopped.\<close>

definition scan_range :: "string \<Rightarrow> u32 list" where
  "scan_range s =
     (case scan_u s of
        None \<Rightarrow> []
      | Some (a, s) \<Rightarrow>
          a # (case Option.bind (scan_char (CHR ''-'') s) scan_u of
                 None \<Rightarrow> [] | Some (b, _) \<Rightarrow> [b]))"

definition tbv_parse_lanes :: "tbv_config \<Rightarrow> string ptr \<Rightarrow> tbv_config res" where
  "tbv_parse_lanes cfg inputp =
     (if inputp = None \<or> inputp = Some [] \<or> inputp = Some ''auto'' then
        Inr (cfg\<lparr>cfg_lanes_auto := True, cfg_lanes_min := 0, cfg_lanes_max := 0\<rparr>)
      else
        (let check = (\<lambda>lo hi.
               if lo = 0 \<or> hi < lo then Inl EINVAL
               else Inr (cfg\<lparr>cfg_lanes_auto := False, cfg_lanes_min := lo, cfg_lanes_max := hi\<rparr>))
         in case scan_range (the inputp) of
              [lo] \<Rightarrow> check lo lo
            | [lo, hi] \<Rightarrow> check lo hi
            | _ \<Rightarrow> Inl EINVAL))"

definition tbv_config_parse ::
  "string ptr \<Rightarrow> string ptr \<Rightarrow> string ptr \<Rightarrow> string ptr \<Rightarrow> string ptr \<Rightarrow> tbv_config res" where
  "tbv_config_parse compat_s profile tbnet tbnet_identity lanes =
     (case tbv_parse_enum compat_s compat_map of
        Inl e \<Rightarrow> Inl e
      | Inr c \<Rightarrow>
      (case tbv_parse_enum profile profile_map of
        Inl e \<Rightarrow> Inl e
      | Inr p \<Rightarrow>
      (case tbv_parse_enum tbnet tbnet_map of
        Inl e \<Rightarrow> Inl e
      | Inr t \<Rightarrow>
      (case tbv_parse_enum tbnet_identity identity_map of
        Inl e \<Rightarrow> Inl e
      | Inr i \<Rightarrow>
          tbv_parse_lanes
            \<lparr>cfg_compat = c, cfg_profile = p, cfg_tbnet = t, cfg_tbnet_identity = i,
             cfg_lanes_min = 0, cfg_lanes_max = 0, cfg_lanes_auto = False\<rparr> lanes))))"

definition tbv_resolve_profile :: "tbv_config \<Rightarrow> tbv_profile" where
  "tbv_resolve_profile cfg =
     (if cfg_profile cfg \<noteq> TBV_PROFILE_AUTO then cfg_profile cfg
      else (case cfg_compat cfg of
              TBV_COMPAT_FORCE \<Rightarrow> TBV_PROFILE_MAC_COMPAT
            | TBV_COMPAT_OFF \<Rightarrow> TBV_PROFILE_LINUX_PERF
            | TBV_COMPAT_AUTO \<Rightarrow> TBV_PROFILE_MIXED))"

definition tbv_resolve_tbnet_identity ::
  "tbv_config \<Rightarrow> tbv_profile \<Rightarrow> tbv_tbnet_identity_mode" where
  "tbv_resolve_tbnet_identity cfg profile =
     (if cfg_tbnet_identity cfg \<noteq> TBV_TBNET_ID_AUTO then cfg_tbnet_identity cfg
      else if profile = TBV_PROFILE_MAC_COMPAT \<or> profile = TBV_PROFILE_MIXED
      then TBV_TBNET_ID_MINIMAL_PACKET
      else TBV_TBNET_ID_OFF)"

definition tbv_config_resolve :: "tbv_config \<Rightarrow> tbv_resolved_config res" where
  "tbv_config_resolve cfg =
     (let profile = tbv_resolve_profile cfg
      in if cfg_compat cfg = TBV_COMPAT_FORCE \<and> profile = TBV_PROFILE_LINUX_PERF then Inl EINVAL
         else if cfg_compat cfg = TBV_COMPAT_OFF \<and> profile = TBV_PROFILE_MAC_COMPAT
         then Inl EINVAL
         else
           (let native = (profile = TBV_PROFILE_LINUX_PERF \<or> profile = TBV_PROFILE_MIXED);
                apple = (profile = TBV_PROFILE_MAC_COMPAT \<or> profile = TBV_PROFILE_MIXED)
            in Inr \<lparr>rc_requested = cfg, rc_profile = profile,
                    rc_tbnet_identity = tbv_resolve_tbnet_identity cfg profile,
                    rc_native_enabled = native, rc_apple_enabled = apple,
                    rc_rc_supported = native, rc_uc_supported = (native \<or> apple)\<rparr>))"

fun tbv_compat_name :: "tbv_compat_mode \<Rightarrow> string" where
  "tbv_compat_name TBV_COMPAT_AUTO = ''auto''"
| "tbv_compat_name TBV_COMPAT_FORCE = ''force''"
| "tbv_compat_name TBV_COMPAT_OFF = ''off''"

fun tbv_profile_name :: "tbv_profile \<Rightarrow> string" where
  "tbv_profile_name TBV_PROFILE_AUTO = ''auto''"
| "tbv_profile_name TBV_PROFILE_MAC_COMPAT = ''mac_compat''"
| "tbv_profile_name TBV_PROFILE_LINUX_PERF = ''linux_perf''"
| "tbv_profile_name TBV_PROFILE_MIXED = ''mixed''"

fun tbv_tbnet_policy_name :: "tbv_tbnet_policy \<Rightarrow> string" where
  "tbv_tbnet_policy_name TBV_TBNET_AUTO = ''auto''"
| "tbv_tbnet_policy_name TBV_TBNET_ALLOW = ''allow''"
| "tbv_tbnet_policy_name TBV_TBNET_PREFER_RDMA = ''prefer_rdma''"
| "tbv_tbnet_policy_name TBV_TBNET_BLOCK = ''block''"

fun tbv_tbnet_identity_name :: "tbv_tbnet_identity_mode \<Rightarrow> string" where
  "tbv_tbnet_identity_name TBV_TBNET_ID_AUTO = ''auto''"
| "tbv_tbnet_identity_name TBV_TBNET_ID_STOCK = ''stock''"
| "tbv_tbnet_identity_name TBV_TBNET_ID_STOCK_PROXY = ''stock_proxy''"
| "tbv_tbnet_identity_name TBV_TBNET_ID_MINIMAL_PACKET = ''minimal_packet''"
| "tbv_tbnet_identity_name TBV_TBNET_ID_OFF = ''off''"

fun tbv_backend_name :: "tbv_backend_type \<Rightarrow> string" where
  "tbv_backend_name TBV_BACKEND_NATIVE = ''native''"
| "tbv_backend_name TBV_BACKEND_APPLE = ''apple''"

section \<open>Names and parsers\<close>

text \<open>
  The contract between a table of names and the printer of the same enumeration, and what
  follows for the parser.
\<close>

locale enum_names =
  fixes tab :: "(string \<times> 'v) list" and name :: "'v \<Rightarrow> string"
  assumes tab_complete: "(name v, v) \<in> set tab"
    and tab_sound: "(s, v) \<in> set tab \<Longrightarrow> s = name v"
    and tab_nonempty: "(s, v) \<in> set tab \<Longrightarrow> s \<noteq> []"
    and tab_distinct: "distinct (map fst tab)"
begin

lemma name_inj: "name v = name w \<Longrightarrow> v = w"
  using tab_complete tab_distinct by (metis eq_key_imp_eq_value)

lemma parse_iff: "tbv_parse_enum (Some s) tab = Inr v \<longleftrightarrow> s = name v"
proof
  assume "tbv_parse_enum (Some s) tab = Inr v"
  then obtain n where "find (\<lambda>(name, _). s = name) tab = Some (n, v)"
    by (auto simp: tbv_parse_enum_def split: if_splits option.splits)
  then have "(n, v) \<in> set tab" "s = n" by (auto dest: find_Some_iff_set)
  then show "s = name v" using tab_sound by simp
next
  assume s: "s = name v"
  then have "s \<noteq> []" using tab_nonempty [OF tab_complete] by simp
  moreover obtain n w where f: "find (\<lambda>(name, _). s = name) tab = Some (n, w)"
    using tab_complete [of v] s
    by (cases "find (\<lambda>(name, _). s = name) tab") (auto simp: find_None_iff)
  moreover have "w = v"
  proof -
    have "(n, w) \<in> set tab" "s = n" using f by (auto dest: find_Some_iff_set)
    then show ?thesis using s tab_sound name_inj by metis
  qed
  ultimately show "tbv_parse_enum (Some s) tab = Inr v" by (simp add: tbv_parse_enum_def)
qed

end

interpretation compat: enum_names compat_map tbv_compat_name
proof
  fix v show "(tbv_compat_name v, v) \<in> set compat_map" by (cases v) (simp_all add: compat_map_def)
qed (auto simp: compat_map_def)

interpretation profile: enum_names profile_map tbv_profile_name
proof
  fix v show "(tbv_profile_name v, v) \<in> set profile_map"
    by (cases v) (simp_all add: profile_map_def)
qed (auto simp: profile_map_def)

interpretation tbnet: enum_names tbnet_map tbv_tbnet_policy_name
proof
  fix v show "(tbv_tbnet_policy_name v, v) \<in> set tbnet_map"
    by (cases v) (simp_all add: tbnet_map_def)
qed (auto simp: tbnet_map_def)

interpretation identity: enum_names identity_map tbv_tbnet_identity_name
proof
  fix v show "(tbv_tbnet_identity_name v, v) \<in> set identity_map"
    by (cases v) (simp_all add: identity_map_def)
qed (auto simp: identity_map_def)

lemma parse_lanes_other:
  assumes "tbv_parse_lanes cfg l = Inr cfg'"
  shows "cfg_compat cfg' = cfg_compat cfg" "cfg_profile cfg' = cfg_profile cfg"
    "cfg_tbnet cfg' = cfg_tbnet cfg" "cfg_tbnet_identity cfg' = cfg_tbnet_identity cfg"
  using assms
  by (auto simp: tbv_parse_lanes_def Let_def split: if_splits list.splits)

definition params_demo :: tbv_config where
  "params_demo = \<lparr>cfg_compat = TBV_COMPAT_AUTO, cfg_profile = TBV_PROFILE_AUTO,
     cfg_tbnet = TBV_TBNET_AUTO, cfg_tbnet_identity = TBV_TBNET_ID_AUTO, cfg_lanes_min = 0,
     cfg_lanes_max = 0, cfg_lanes_auto = True\<rparr>"

text \<open>
  The printed names are exactly the accepted spellings. A configuration parses if and only
  if its first four parameters are the printed names of values and the lanes parse, and then
  those values are the ones stored.
\<close>

theorem config_parse_iff:
  "(\<exists>cfg'. tbv_config_parse (Some c) (Some p) (Some t) (Some i) l = Inr cfg' \<and>
      cfg_compat cfg' = vc \<and> cfg_profile cfg' = vp \<and> cfg_tbnet cfg' = vt \<and>
      cfg_tbnet_identity cfg' = vi) \<longleftrightarrow>
   c = tbv_compat_name vc \<and> p = tbv_profile_name vp \<and> t = tbv_tbnet_policy_name vt \<and>
   i = tbv_tbnet_identity_name vi \<and> (\<forall>cfg. \<exists>cfg'. tbv_parse_lanes cfg l = Inr cfg')"
proof -
  have any: "(\<exists>cfg'. tbv_parse_lanes cfg l = Inr cfg') \<longleftrightarrow>
      (\<forall>cfg. \<exists>cfg'. tbv_parse_lanes cfg l = Inr cfg')" for cfg
    by (auto simp: tbv_parse_lanes_def Let_def split: if_splits list.splits)
  have parse: "tbv_config_parse (Some c) (Some p) (Some t) (Some i) l = Inr cfg' \<longleftrightarrow>
      (\<exists>vc vp vt vi. tbv_parse_enum (Some c) compat_map = Inr vc \<and>
        tbv_parse_enum (Some p) profile_map = Inr vp \<and>
        tbv_parse_enum (Some t) tbnet_map = Inr vt \<and>
        tbv_parse_enum (Some i) identity_map = Inr vi \<and>
        tbv_parse_lanes \<lparr>cfg_compat = vc, cfg_profile = vp, cfg_tbnet = vt,
          cfg_tbnet_identity = vi, cfg_lanes_min = 0, cfg_lanes_max = 0,
          cfg_lanes_auto = False\<rparr> l = Inr cfg')" for cfg'
    unfolding tbv_config_parse_def by (simp split: sum.split)
  show ?thesis (is "?L \<longleftrightarrow> ?R")
  proof
    assume ?L
    then obtain cfg' vc' vp' vt' vi' where e: "c = tbv_compat_name vc'" "p = tbv_profile_name vp'"
        "t = tbv_tbnet_policy_name vt'" "i = tbv_tbnet_identity_name vi'"
      and l: "tbv_parse_lanes \<lparr>cfg_compat = vc', cfg_profile = vp', cfg_tbnet = vt',
          cfg_tbnet_identity = vi', cfg_lanes_min = 0, cfg_lanes_max = 0,
          cfg_lanes_auto = False\<rparr> l = Inr cfg'"
      and f: "cfg_compat cfg' = vc" "cfg_profile cfg' = vp" "cfg_tbnet cfg' = vt"
        "cfg_tbnet_identity cfg' = vi"
      unfolding parse compat.parse_iff profile.parse_iff tbnet.parse_iff identity.parse_iff
      by (elim exE conjE)
    have "\<forall>cfg. \<exists>cfg'. tbv_parse_lanes cfg l = Inr cfg'" using any l by metis
    then show ?R using e f parse_lanes_other [OF l] by simp
  next
    assume r: ?R
    then obtain cfg' where l: "tbv_parse_lanes \<lparr>cfg_compat = vc, cfg_profile = vp, cfg_tbnet = vt,
          cfg_tbnet_identity = vi, cfg_lanes_min = 0, cfg_lanes_max = 0,
          cfg_lanes_auto = False\<rparr> l = Inr cfg'" by blast
    then show ?L
      using r parse_lanes_other [OF l]
      unfolding parse compat.parse_iff profile.parse_iff tbnet.parse_iff identity.parse_iff
      by (intro exI [of _ cfg']) auto
  qed
qed

section \<open>Resolution\<close>

text \<open>
  What resolution answers. A request is refused exactly when \<open>compat=force\<close> meets the
  Linux-only profile or \<open>compat=off\<close> meets the Apple-only one. Otherwise the profile is never
  \<open>auto\<close>, it is the requested one if one was requested, at least one backend is enabled (so the
  core never starts without one), forcing compatibility enables the Apple backend, switching it
  off enables the native one, reliable connections need the native backend and unreliable ones
  are always supported.
\<close>

theorem config_resolve_spec:
  "case tbv_config_resolve cfg of
     Inl e \<Rightarrow> e = EINVAL \<and>
       (cfg_compat cfg = TBV_COMPAT_FORCE \<and> cfg_profile cfg = TBV_PROFILE_LINUX_PERF \<or>
        cfg_compat cfg = TBV_COMPAT_OFF \<and> cfg_profile cfg = TBV_PROFILE_MAC_COMPAT)
   | Inr r \<Rightarrow> rc_requested r = cfg \<and> rc_profile r \<noteq> TBV_PROFILE_AUTO \<and>
       (cfg_profile cfg = TBV_PROFILE_AUTO \<or> rc_profile r = cfg_profile cfg) \<and>
       (rc_native_enabled r \<or> rc_apple_enabled r) \<and>
       (cfg_compat cfg = TBV_COMPAT_FORCE \<longrightarrow> rc_apple_enabled r) \<and>
       (cfg_compat cfg = TBV_COMPAT_OFF \<longrightarrow> rc_native_enabled r) \<and>
       rc_rc_supported r = rc_native_enabled r \<and> rc_uc_supported r \<and>
       rc_tbnet_identity r \<noteq> TBV_TBNET_ID_AUTO \<and>
       \<not> (cfg_compat cfg = TBV_COMPAT_FORCE \<and> cfg_profile cfg = TBV_PROFILE_LINUX_PERF) \<and>
       \<not> (cfg_compat cfg = TBV_COMPAT_OFF \<and> cfg_profile cfg = TBV_PROFILE_MAC_COMPAT)"
  by (cases "cfg_compat cfg"; cases "cfg_profile cfg"; cases "cfg_tbnet_identity cfg")
    (simp_all add: tbv_config_resolve_def tbv_resolve_profile_def tbv_resolve_tbnet_identity_def
      Let_def)

theorem config_resolve_spec_witness:
  "\<exists>r. tbv_config_resolve (params_demo\<lparr>cfg_compat := TBV_COMPAT_FORCE\<rparr>) = Inr r \<and> rc_apple_enabled r"
  using config_resolve_spec [of "params_demo\<lparr>cfg_compat := TBV_COMPAT_FORCE\<rparr>"]
  by (cases "tbv_config_resolve (params_demo\<lparr>cfg_compat := TBV_COMPAT_FORCE\<rparr>)")
    (simp_all add: params_demo_def)

section \<open>Lanes\<close>

lemma parse_lanes_ok:
  assumes "tbv_parse_lanes cfg l = Inr cfg'"
  shows "cfg_lanes_auto cfg' \<and> cfg_lanes_min cfg' = 0 \<and> cfg_lanes_max cfg' = 0 \<or>
    \<not> cfg_lanes_auto cfg' \<and> 0 < cfg_lanes_min cfg' \<and> cfg_lanes_min cfg' \<le> cfg_lanes_max cfg'"
  using assms
  by (auto simp: tbv_parse_lanes_def Let_def word_neq_0_conv not_less split: if_splits list.splits)

lemma dec_not_auto: "dec a @ s \<noteq> ''auto''"
proof
  assume h: "dec a @ s = ''auto''"
  obtain c cs where d: "dec a = c # cs" by (cases "dec a") auto
  with h have "c = CHR ''a''" by simp
  moreover have "is_digit c" using dec_digits [of a] d by simp
  ultimately show False by (simp add: is_digit_def)
qed

definition lanes_range :: "tbv_config \<Rightarrow> u32 \<Rightarrow> u32 \<Rightarrow> tbv_config res" where
  "lanes_range cfg lo hi =
     (if 0 < lo \<and> lo \<le> hi
      then Inr (cfg\<lparr>cfg_lanes_auto := False, cfg_lanes_min := lo, cfg_lanes_max := hi\<rparr>)
      else Inl EINVAL)"

text \<open>
  Lane ranges. A printed range \<open>a-b\<close> of 32-bit numbers is accepted exactly when
  \<open>0 < a \<le> b\<close>, and stored as it is; a single number is the range of that number alone; and
  whatever else is accepted is \<open>auto\<close> or a range with these bounds.
\<close>

theorem parse_lanes_spec:
  "tbv_parse_lanes cfg (Some (dec (unat a) @ ''-'' @ dec (unat b))) = lanes_range cfg a b \<and>
   tbv_parse_lanes cfg (Some (dec (unat a))) = lanes_range cfg a a \<and>
   (tbv_parse_lanes cfg l = Inr cfg' \<longrightarrow>
     cfg_lanes_auto cfg' \<and> cfg_lanes_min cfg' = 0 \<and> cfg_lanes_max cfg' = 0 \<or>
     \<not> cfg_lanes_auto cfg' \<and> 0 < cfg_lanes_min cfg' \<and> cfg_lanes_min cfg' \<le> cfg_lanes_max cfg')"
proof -
  have r2: "scan_range (dec (unat a) @ ''-'' @ dec (unat b)) = [a, b]"
    using scan_u_dec [of "''-'' @ dec (unat b)" "unat a"] scan_u_dec [of "[]" "unat b"]
    by (simp add: scan_range_def)
  have r1: "scan_range (dec (unat a)) = [a]"
    using scan_u_dec [of "[]" "unat a"] by (simp add: scan_range_def scan_char_def)
  have "tbv_parse_lanes cfg (Some (dec (unat a) @ ''-'' @ dec (unat b))) = lanes_range cfg a b"
    using dec_not_auto [of "unat a" "''-'' @ dec (unat b)"] r2
    by (auto simp: tbv_parse_lanes_def lanes_range_def word_neq_0_conv)
  moreover have "tbv_parse_lanes cfg (Some (dec (unat a))) = lanes_range cfg a a"
    using dec_not_auto [of "unat a" "[]"] r1
    by (auto simp: tbv_parse_lanes_def lanes_range_def word_neq_0_conv)
  ultimately show ?thesis using parse_lanes_ok [of cfg l cfg'] by blast
qed

theorem parse_lanes_spec_witness:
  "\<exists>cfg'. tbv_parse_lanes params_demo (Some ''2-4'') = Inr cfg' \<and> cfg_lanes_min cfg' \<le> cfg_lanes_max cfg'"
proof -
  have d: "dec 2 = ''2''" "dec 4 = ''4''" by code_simp+
  obtain cfg' where c: "tbv_parse_lanes params_demo (Some ''2-4'') = Inr cfg'"
    using parse_lanes_spec [of params_demo 2 4 None params_demo] by (simp add: d lanes_range_def)
  then show ?thesis using parse_lanes_spec [of params_demo 2 4 "Some ''2-4''" cfg'] by auto
qed

end
