(* ===== verification/Links.thy ===== *)
theory Links
  imports Config Profile
begin

text \<open>
  The transports (\<^verbatim>\<open>src/kernel/backend.c\<close>, \<^verbatim>\<open>native.c\<close>, \<^verbatim>\<open>apple.c\<close>, \<^verbatim>\<open>transport.h\<close>) and the registry of
  published links (\<^verbatim>\<open>src/kernel/link.c\<close>). The registry is a list with a counter; the locale
  \<open>link_table\<close> states what it promises as a finite map, and the registry is interpreted there.
\<close>

section \<open>Transports\<close>

record tbv_backend_ops =
  bo_type :: tbv_backend_type
  bo_name :: string
  bo_supports_rc :: bool
  bo_supports_uc :: bool
  bo_needs_tbnet_identity :: bool

definition tbv_native_backend_ops :: tbv_backend_ops where
  "tbv_native_backend_ops = \<lparr>bo_type = TBV_BACKEND_NATIVE, bo_name = ''native-linux'',
     bo_supports_rc = True, bo_supports_uc = True, bo_needs_tbnet_identity = False\<rparr>"

definition tbv_apple_backend_ops :: tbv_backend_ops where
  "tbv_apple_backend_ops = \<lparr>bo_type = TBV_BACKEND_APPLE, bo_name = ''apple-fa57'',
     bo_supports_rc = False, bo_supports_uc = True, bo_needs_tbnet_identity = True\<rparr>"

definition tbv_backend_get :: "tbv_backend_type \<Rightarrow> tbv_backend_ops ptr" where
  "tbv_backend_get type =
     (case type of TBV_BACKEND_NATIVE \<Rightarrow> Some tbv_native_backend_ops
      | TBV_BACKEND_APPLE \<Rightarrow> Some tbv_apple_backend_ops)"

definition tbv_native_validate_config :: "tbv_cfg_link \<Rightarrow> unit res" where
  "tbv_native_validate_config link =
     (if l_backend link \<noteq> TBV_CFG_BACKEND_NATIVE then Inl EINVAL
      else if \<not> s_valid (l_app_selection link) then Inl EINVAL
      else if s_gid_type (l_app_selection link) \<noteq> TBV_ID_GID_ROCE_V2 then Inl EINVAL
      else Inr ())"

definition tbv_apple_validate_config :: "tbv_cfg_link \<Rightarrow> unit res" where
  "tbv_apple_validate_config link =
     (if l_backend link \<noteq> TBV_CFG_BACKEND_APPLE then Inl EINVAL
      else if \<not> s_valid (l_app_selection link) then Inl EINVAL
      else Inr ())"

text \<open>
  A transport's table of operations. Both \<open>activate\<close> operations only log and succeed, and both
  \<open>deactivate\<close> operations only log.
\<close>

record tbv_transport_ops =
  to_type :: tbv_backend_type
  to_name :: string
  to_validate_config :: "(tbv_cfg_link \<Rightarrow> unit res) ptr"
  to_activate :: "(tbv_cfg_link \<Rightarrow> unit res) ptr"

definition tbv_native_activate :: "tbv_cfg_link \<Rightarrow> unit res" where
  "tbv_native_activate link = Inr ()"

definition tbv_apple_activate :: "tbv_cfg_link \<Rightarrow> unit res" where
  "tbv_apple_activate link = Inr ()"

definition tbv_native_transport_ops :: tbv_transport_ops where
  "tbv_native_transport_ops = \<lparr>to_type = TBV_BACKEND_NATIVE, to_name = ''native-linux'',
     to_validate_config = Some tbv_native_validate_config,
     to_activate = Some tbv_native_activate\<rparr>"

definition tbv_apple_transport_ops :: tbv_transport_ops where
  "tbv_apple_transport_ops = \<lparr>to_type = TBV_BACKEND_APPLE, to_name = ''apple-fa57'',
     to_validate_config = Some tbv_apple_validate_config, to_activate = Some tbv_apple_activate\<rparr>"

definition tbv_transport_get :: "tbv_backend_type \<Rightarrow> tbv_transport_ops ptr" where
  "tbv_transport_get type =
     (case type of TBV_BACKEND_NATIVE \<Rightarrow> Some tbv_native_transport_ops
      | TBV_BACKEND_APPLE \<Rightarrow> Some tbv_apple_transport_ops)"

section \<open>The registry\<close>

record tbv_configured_link =
  cl_link_id :: u32
  cl_backend :: tbv_backend_type
  cl_app_selection :: tbv_id_selection
  cl_name :: string

text \<open>The two fields of \<open>struct tbv_state\<close> the registry lives in.\<close>

record link_registry =
  st_configured_links :: "tbv_configured_link list"
  st_configured_link_count :: u32

abbreviation TBV_CONFIGURED_LINK_NAME_LEN :: nat where "TBV_CONFIGURED_LINK_NAME_LEN \<equiv> 16"

definition empty_registry :: link_registry where
  "empty_registry = \<lparr>st_configured_links = [], st_configured_link_count = 0\<rparr>"

definition tbv_link_find_locked :: "link_registry \<Rightarrow> u32 \<Rightarrow> tbv_configured_link ptr" where
  "tbv_link_find_locked state link_id =
     find (\<lambda>link. cl_link_id link = link_id) (st_configured_links state)"

text \<open>The entry a link is published as; \<open>strscpy\<close> keeps at most 15 characters of its name.\<close>

definition published_link :: "string \<Rightarrow> tbv_backend_type \<Rightarrow> tbv_cfg_link \<Rightarrow> tbv_configured_link" where
  "published_link name backend cfg =
     \<lparr>cl_link_id = l_link_id cfg, cl_backend = backend, cl_app_selection = l_app_selection cfg,
      cl_name = take (TBV_CONFIGURED_LINK_NAME_LEN - 1) name\<rparr>"

text \<open>\<open>alloc\<close> says whether the allocation succeeds.\<close>

definition tbv_link_activate_config ::
  "bool \<Rightarrow> link_registry \<Rightarrow> string \<Rightarrow> tbv_backend_type \<Rightarrow> tbv_cfg_link \<Rightarrow> unit res \<times> link_registry"
where
  "tbv_link_activate_config alloc state name backend cfg =
     (if \<not> s_valid (l_app_selection cfg) then (Inl EINVAL, state)
      else if \<not> alloc then (Inl ENOMEM, state)
      else if tbv_link_find_locked state (l_link_id cfg) \<noteq> None then (Inl EEXIST, state)
      else (Inr (), state\<lparr>st_configured_links := st_configured_links state
                      @ [published_link name backend cfg],
                    st_configured_link_count := st_configured_link_count state + 1\<rparr>))"

definition tbv_link_deactivate_config :: "link_registry \<Rightarrow> u32 \<Rightarrow> link_registry" where
  "tbv_link_deactivate_config state link_id =
     (case tbv_link_find_locked state link_id of
        None \<Rightarrow> state
      | Some link \<Rightarrow> state\<lparr>st_configured_links := remove1 link (st_configured_links state),
                           st_configured_link_count := st_configured_link_count state - 1\<rparr>)"

definition tbv_link_count :: "link_registry \<Rightarrow> u32" where
  "tbv_link_count state = st_configured_link_count state"

section \<open>The registry as a map\<close>

definition reg_wf :: "link_registry \<Rightarrow> bool" where
  "reg_wf r \<longleftrightarrow> distinct (map cl_link_id (st_configured_links r)) \<and>
     st_configured_link_count r = of_nat (length (st_configured_links r))"

definition reg_map :: "link_registry \<Rightarrow> u32 \<Rightarrow> tbv_configured_link option" where
  "reg_map r = tbv_link_find_locked r"

lemma find_key_map_of:
  "find (\<lambda>x. f x = k) xs = map_of (map (\<lambda>x. (f x, x)) xs) k"
  by (induction xs) auto

lemma reg_map_eq:
  "reg_map r = map_of (map (\<lambda>x. (cl_link_id x, x)) (st_configured_links r))"
  by (auto simp: reg_map_def tbv_link_find_locked_def find_key_map_of)

lemma reg_map_Some:
  assumes "reg_wf r"
  shows "reg_map r i = Some l \<longleftrightarrow> l \<in> set (st_configured_links r) \<and> cl_link_id l = i"
proof -
  have "distinct (map fst (map (\<lambda>x. (cl_link_id x, x)) (st_configured_links r)))"
    using assms by (simp add: reg_wf_def comp_def)
  then show ?thesis unfolding reg_map_eq by (auto simp: map_of_eq_Some_iff)
qed

text \<open>What a table of links promises: publishing and unpublishing are updates of a finite map
  that never replace an entry, and the counter is its size.\<close>

locale link_table =
  fixes tab :: "'t \<Rightarrow> u32 \<Rightarrow> tbv_configured_link option" and invar :: "'t \<Rightarrow> bool"
    and publish :: "'t \<Rightarrow> string \<Rightarrow> tbv_backend_type \<Rightarrow> tbv_cfg_link \<Rightarrow> unit res \<times> 't"
    and unpublish :: "'t \<Rightarrow> u32 \<Rightarrow> 't" and count :: "'t \<Rightarrow> u32"
  assumes publish_ok: "invar t \<Longrightarrow> publish t n b c = (Inr (), t') \<Longrightarrow>
      invar t' \<and> tab t (l_link_id c) = None \<and> s_valid (l_app_selection c) \<and>
      tab t' = (tab t)(l_link_id c \<mapsto> published_link n b c)"
    and publish_err: "publish t n b c = (Inl e, t') \<Longrightarrow> t' = t"
    and unpublish: "invar t \<Longrightarrow> invar (unpublish t i) \<and> tab (unpublish t i) = (tab t)(i := None)"
    and count: "invar t \<Longrightarrow> finite (dom (tab t)) \<and> count t = of_nat (card (dom (tab t)))"
begin

text \<open>Unpublishing what was just published restores the map.\<close>

lemma publish_unpublish:
  assumes "invar t" and "publish t n b c = (Inr (), t')"
  shows "tab (unpublish t' (l_link_id c)) = tab t"
proof -
  note p = publish_ok [OF assms]
  then show ?thesis
    using unpublish [of t' "l_link_id c"] by (auto simp: fun_eq_iff)
qed

end

lemma reg_publish_ok:
  assumes "reg_wf r" and "tbv_link_activate_config al r n b c = (Inr (), r')"
  shows "reg_wf r' \<and> reg_map r (l_link_id c) = None \<and> s_valid (l_app_selection c) \<and>
    reg_map r' = (reg_map r)(l_link_id c \<mapsto> published_link n b c)"
proof -
  let ?l = "published_link n b c"
  have v: "s_valid (l_app_selection c)" and none: "reg_map r (l_link_id c) = None"
    and r': "r' = r\<lparr>st_configured_links := st_configured_links r @ [?l],
      st_configured_link_count := st_configured_link_count r + 1\<rparr>"
    using assms(2) by (auto simp: tbv_link_activate_config_def reg_map_def split: if_splits)
  have id: "cl_link_id ?l = l_link_id c" by (simp add: published_link_def)
  have "l_link_id c \<notin> cl_link_id ` set (st_configured_links r)"
    using none by (auto simp: reg_map_def tbv_link_find_locked_def find_None_iff)
  then have "reg_wf r'" using assms(1) id by (auto simp: reg_wf_def r')
  moreover have "reg_map r' = (reg_map r)(l_link_id c \<mapsto> ?l)"
    using none id unfolding reg_map_eq r' by (auto simp: fun_eq_iff map_add_def split: option.split)
  ultimately show ?thesis using v none by blast
qed

lemma reg_unpublish:
  assumes "reg_wf r"
  shows "reg_wf (tbv_link_deactivate_config r i) \<and>
    reg_map (tbv_link_deactivate_config r i) = (reg_map r)(i := None)"
proof (cases "tbv_link_find_locked r i")
  case None
  then show ?thesis
    using assms by (auto simp: tbv_link_deactivate_config_def reg_map_def fun_eq_iff)
next
  case (Some l)
  let ?xs = "st_configured_links r"
  let ?r = "r\<lparr>st_configured_links := remove1 l ?xs,
    st_configured_link_count := st_configured_link_count r - 1\<rparr>"
  have l: "l \<in> set ?xs" "cl_link_id l = i"
    using Some by (auto simp: tbv_link_find_locked_def dest: find_Some_iff_set)
  have d: "distinct (map cl_link_id ?xs)" using assms by (simp add: reg_wf_def)
  have "of_nat (length (remove1 l ?xs)) = (of_nat (length ?xs) - 1 :: u32)"
    using l(1) length_pos_if_in_set [OF l(1)]
    by (cases "length ?xs") (simp_all add: length_remove1)
  then have wf: "reg_wf ?r" using assms by (simp add: reg_wf_def distinct_key_remove1)
  have "reg_map ?r = (reg_map r)(i := None)"
    using find_key_remove1 [OF d l(1)] l(2)
    by (auto simp: reg_map_def tbv_link_find_locked_def fun_eq_iff)
  then show ?thesis using wf Some by (simp add: tbv_link_deactivate_config_def)
qed

lemma reg_count:
  assumes "reg_wf r"
  shows "finite (dom (reg_map r)) \<and> tbv_link_count r = of_nat (card (dom (reg_map r)))"
proof -
  have "dom (reg_map r) = set (map cl_link_id (st_configured_links r))"
    unfolding reg_map_eq by (simp add: dom_map_of_conv_image_fst image_image)
  then show ?thesis
    using assms distinct_card [of "map cl_link_id (st_configured_links r)"]
    by (simp add: reg_wf_def tbv_link_count_def)
qed

interpretation registry: link_table reg_map reg_wf "tbv_link_activate_config al"
  tbv_link_deactivate_config tbv_link_count for al
proof
  fix t n b c e t' assume "tbv_link_activate_config al t n b c = (Inl e, t')"
  then show "t' = t" by (auto simp: tbv_link_activate_config_def split: if_splits)
qed (use reg_publish_ok reg_unpublish reg_count in auto)

text \<open>
  C25: the registry of published links is a finite map with a counter. Publishing succeeds only
  for a link with a valid selection whose id is not published, adds exactly that entry and
  keeps the others; unpublishing removes exactly the id; a refused publication changes nothing;
  the counter is the number of published links modulo \<open>2^32\<close>; unpublishing right after
  publishing restores the map.
\<close>

theorem link_registry_is_map:
  assumes "reg_wf r"
  shows "(case tbv_link_activate_config al r n b c of
      (Inl e, r') \<Rightarrow> r' = r \<and> (e = EINVAL \<longleftrightarrow> \<not> s_valid (l_app_selection c))
    | (Inr _, r') \<Rightarrow> reg_wf r' \<and> reg_map r (l_link_id c) = None \<and> s_valid (l_app_selection c) \<and>
        reg_map r' = (reg_map r)(l_link_id c \<mapsto> published_link n b c) \<and>
        reg_map (tbv_link_deactivate_config r' (l_link_id c)) = reg_map r) \<and>
    reg_map (tbv_link_deactivate_config r i) = (reg_map r)(i := None) \<and>
    tbv_link_count r = of_nat (card (dom (reg_map r)))"
proof -
  obtain x r' where a: "tbv_link_activate_config al r n b c = (x, r')"
    by (cases "tbv_link_activate_config al r n b c")
  show ?thesis
  proof (cases x)
    case (Inl e)
    then have "e = EINVAL \<longleftrightarrow> \<not> s_valid (l_app_selection c)"
      using a by (auto simp: tbv_link_activate_config_def split: if_splits)
    then show ?thesis
      using a Inl registry.publish_err registry.unpublish [OF assms] registry.count [OF assms]
      by auto
  next
    case (Inr u)
    then have a': "tbv_link_activate_config al r n b c = (Inr (), r')" using a by simp
    show ?thesis
      using a' registry.publish_ok [OF assms a'] registry.publish_unpublish [OF assms a']
        registry.unpublish [OF assms] registry.count [OF assms]
      by auto
  qed
qed

theorem link_registry_is_map_witness:
  "tbv_link_count empty_registry = 0 \<and> reg_map (tbv_link_deactivate_config empty_registry 7) 7 = None"
proof -
  have "reg_wf empty_registry" by (simp add: reg_wf_def empty_registry_def)
  moreover have "reg_map empty_registry = Map.empty"
    by (simp add: reg_map_def tbv_link_find_locked_def empty_registry_def fun_eq_iff)
  ultimately show ?thesis
    using link_registry_is_map [of empty_registry cfg_demo "[]" TBV_BACKEND_NATIVE True 7] by simp
qed

section \<open>What a sealed link satisfies\<close>

text \<open>
  A sealed link whose policy asks for RoCE v2 passes the check of its own transport: the
  native one demands RoCE v2 in addition.
\<close>

definition backend_of :: "tbv_cfg_link \<Rightarrow> tbv_backend_type" where
  "backend_of link = (if l_backend link = TBV_CFG_BACKEND_NATIVE then TBV_BACKEND_NATIVE
                      else TBV_BACKEND_APPLE)"

lemma compat_selection_v2:
  assumes "tbv_id_validate_app_compat gids n route policy = Inr sel" and "p_roce_version policy = 2"
  shows "s_valid sel \<and> s_gid_type sel = TBV_ID_GID_ROCE_V2"
proof -
  obtain c where l: "tbv_id_select_llama gids n route = Inr sel"
    and c: "tbv_id_select_nccl gids n policy = Inr c" and t: "s_gid_type sel = s_gid_type c"
    using assms(1) by (auto simp: tbv_id_validate_app_compat_def split: sum.splits if_splits)
  obtain g where "sel = tbv_id_select_gid g" using l unfolding select_llama by (rule unique_endpoint_ok)
  then have "s_valid sel" by (simp add: tbv_id_select_gid_def)
  moreover obtain h where "h \<in> set (filter (nccl_candidate policy) (take (unat n) gids))"
    and h: "c = tbv_id_select_gid h"
    using c unfolding select_nccl by (rule unique_endpoint_ok)
  then have "tbv_id_gid_roce_version h = 2" using assms(2) by (simp add: nccl_candidate_def)
  then have "g_gid_type h = TBV_ID_GID_ROCE_V2"
    by (auto simp: tbv_id_gid_roce_version_def split: if_splits)
  ultimately show ?thesis using t h by (simp add: tbv_id_select_gid_def)
qed

lemma validated_transport_ok:
  assumes "cfg_validated l" and "p_roce_version (effective_policy l) = 2"
    and "tbv_transport_get (backend_of l) = Some ops" and "to_validate_config ops = Some v"
  shows "v l = Inr ()"
  using assms(1,3,4) compat_selection_v2 [OF _ assms(2)]
  by (auto simp: cfg_validated_def backend_of_def tbv_transport_get_def tbv_native_transport_ops_def
      tbv_apple_transport_ops_def tbv_native_validate_config_def tbv_apple_validate_config_def
      split: if_splits)

end
