(* ===== verification/Configfs.thy ===== *)
theory Configfs
  imports Links "HOL-Library.Monad_Syntax"
begin

text \<open>
  \<^verbatim>\<open>src/kernel/configfs.c\<close>: links as directories with text attributes. Every store handler is
  modelled whole, from the text written to the change of the link and of the registry, and
  every show handler that prints more than a name. Creating and removing a directory are
  \<open>tbv_cfgfs_make_link\<close> and \<open>tbv_cfgfs_link_release\<close>.

  Shown: what a show handler prints, the store handler reads back; a seal that reports an error
  has not sealed; and the registry of published links is at every moment exactly the set of
  active links. Also shown, as a fact about the code: a store to a sealed link's address is
  refused but its text is kept and shown.
\<close>

record tbv_cfgfs_link =
  fl_cfg :: tbv_cfg_link
  fl_staged_route :: tbv_id_route
  fl_local_src_set :: bool
  fl_peer_set :: bool

section \<open>Names\<close>

fun tbv_cfgfs_state_name :: "tbv_cfg_state \<Rightarrow> string" where
  "tbv_cfgfs_state_name TBV_CFG_EMPTY = ''empty''"
| "tbv_cfgfs_state_name TBV_CFG_DRAFT = ''draft''"
| "tbv_cfgfs_state_name TBV_CFG_SEALED = ''sealed''"
| "tbv_cfgfs_state_name TBV_CFG_ACTIVE = ''active''"

definition tbv_cfgfs_backend_name :: "u8 \<Rightarrow> string" where
  "tbv_cfgfs_backend_name backend =
     (if backend = TBV_CFG_BACKEND_NATIVE then ''native''
      else if backend = TBV_CFG_BACKEND_APPLE then ''apple'' else ''unset'')"

definition tbv_cfgfs_gid_type_name :: "u8 \<Rightarrow> string" where
  "tbv_cfgfs_gid_type_name gid_type =
     (if gid_type = TBV_ID_GID_ROCE_V1 then ''roce-v1''
      else if gid_type = TBV_ID_GID_ROCE_V2 then ''roce-v2''
      else if gid_type = TBV_ID_GID_IB then ''ib'' else ''unknown'')"

definition tbv_cfgfs_parse_gid_type :: "string \<Rightarrow> u8 res" where
  "tbv_cfgfs_parse_gid_type type =
     (if type = ''roce-v2'' then Inr TBV_ID_GID_ROCE_V2
      else if type = ''roce-v1'' then Inr TBV_ID_GID_ROCE_V1
      else if type = ''ib'' then Inr TBV_ID_GID_IB
      else Inl EINVAL)"

section \<open>Addresses\<close>

definition newline :: string where "newline = [CHR 0x0A]"

definition scan_quad :: "string \<Rightarrow> (u32 \<times> u32 \<times> u32 \<times> u32) option" where
  "scan_quad s = do {
     (a, s) \<leftarrow> scan_u s; s \<leftarrow> scan_char (CHR ''.'') s;
     (b, s) \<leftarrow> scan_u s; s \<leftarrow> scan_char (CHR ''.'') s;
     (c, s) \<leftarrow> scan_u s; s \<leftarrow> scan_char (CHR ''.'') s;
     (d, s) \<leftarrow> scan_u s;
     Some (a, b, c, d)}"

definition tbv_cfgfs_parse_ipv4 :: "string \<Rightarrow> tbv_id_addr res" where
  "tbv_cfgfs_parse_ipv4 buf =
     (case scan_quad buf of
        None \<Rightarrow> Inl EINVAL
      | Some (a, b, c, d) \<Rightarrow>
          if a > 255 \<or> b > 255 \<or> c > 255 \<or> d > 255 then Inl EINVAL
          else Inr (tbv_id_addr_v4 (ucast a) (ucast b) (ucast c) (ucast d)))"

text \<open>The format \<open>%u.%u.%u.%u\<close> on the last four bytes of an address.\<close>

definition format_quad :: "tbv_id_addr \<Rightarrow> string" where
  "format_quad addr =
     dec (unat (a_bytes addr ! 12)) @ ''.'' @ dec (unat (a_bytes addr ! 13)) @ ''.''
     @ dec (unat (a_bytes addr ! 14)) @ ''.'' @ dec (unat (a_bytes addr ! 15))"

definition tbv_cfgfs_format_ipv4 :: "tbv_id_addr \<Rightarrow> string" where
  "tbv_cfgfs_format_ipv4 addr =
     (if a_family addr \<noteq> TBV_ID_AF_INET then ''<unset>'' @ newline
      else format_quad addr @ newline)"

section \<open>Attributes\<close>

definition tbv_cfgfs_apply_route_locked :: "tbv_cfgfs_link \<Rightarrow> unit res \<times> tbv_cfgfs_link" where
  "tbv_cfgfs_apply_route_locked link =
     (if \<not> fl_local_src_set link \<or> \<not> fl_peer_set link then (Inr (), link)
      else (let (ret, cfg) = tbv_cfg_link_set_route (fl_cfg link) (fl_staged_route link)
            in (ret, link\<lparr>fl_cfg := cfg\<rparr>)))"

definition backend_show :: "tbv_cfgfs_link \<Rightarrow> string" where
  "backend_show link = tbv_cfgfs_backend_name (l_backend (fl_cfg link)) @ newline"

definition backend_store :: "tbv_cfgfs_link \<Rightarrow> string \<Rightarrow> unit res \<times> tbv_cfgfs_link" where
  "backend_store link buf =
     (if sysfs_streq buf ''native'' then
        (let (ret, cfg) = tbv_cfg_link_set_backend (fl_cfg link) TBV_CFG_BACKEND_NATIVE
         in (ret, link\<lparr>fl_cfg := cfg\<rparr>))
      else if sysfs_streq buf ''apple'' then
        (let (ret, cfg) = tbv_cfg_link_set_backend (fl_cfg link) TBV_CFG_BACKEND_APPLE
         in (ret, link\<lparr>fl_cfg := cfg\<rparr>))
      else (Inl EINVAL, link))"

definition local_src_ipv4_show :: "tbv_cfgfs_link \<Rightarrow> string" where
  "local_src_ipv4_show link = tbv_cfgfs_format_ipv4 (r_local_src_addr (fl_staged_route link))"

definition local_src_ipv4_store :: "tbv_cfgfs_link \<Rightarrow> string \<Rightarrow> unit res \<times> tbv_cfgfs_link" where
  "local_src_ipv4_store link buf =
     (case tbv_cfgfs_parse_ipv4 buf of
        Inl e \<Rightarrow> (Inl e, link)
      | Inr addr \<Rightarrow> tbv_cfgfs_apply_route_locked
          (link\<lparr>fl_staged_route := (fl_staged_route link)\<lparr>r_local_src_addr := addr\<rparr>,
                fl_local_src_set := True\<rparr>))"

definition peer_ipv4_show :: "tbv_cfgfs_link \<Rightarrow> string" where
  "peer_ipv4_show link = tbv_cfgfs_format_ipv4 (r_peer_addr (fl_staged_route link))"

definition peer_ipv4_store :: "tbv_cfgfs_link \<Rightarrow> string \<Rightarrow> unit res \<times> tbv_cfgfs_link" where
  "peer_ipv4_store link buf =
     (case tbv_cfgfs_parse_ipv4 buf of
        Inl e \<Rightarrow> (Inl e, link)
      | Inr addr \<Rightarrow> tbv_cfgfs_apply_route_locked
          (link\<lparr>fl_staged_route := (fl_staged_route link)\<lparr>r_peer_addr := addr\<rparr>,
                fl_peer_set := True\<rparr>))"

definition nccl_addr_range_show :: "tbv_cfgfs_link \<Rightarrow> string" where
  "nccl_addr_range_show link =
     (let policy = l_nccl_policy (fl_cfg link)
      in if \<not> l_nccl_policy_set (fl_cfg link) \<or> \<not> p_has_addr_range policy then ''<unset>'' @ newline
         else format_quad (p_addr_range policy) @ ''/'' @ dec (unat (p_addr_range_bits policy))
              @ newline)"

text \<open>\<open>sscanf\<close> with the format \<open>%31[^/]/%u\<close>, the range check and the address.\<close>

definition parse_addr_range :: "string \<Rightarrow> tbv_id_nccl_policy res" where
  "parse_addr_range buf =
     (case do {(ip, s) \<leftarrow> scan_until 31 (CHR ''/'') buf; s \<leftarrow> scan_char (CHR ''/'') s;
               (bits, s) \<leftarrow> scan_u s; Some (ip, bits)} of
        None \<Rightarrow> Inl EINVAL
      | Some (ip, bits) \<Rightarrow>
          if bits > 32 then Inl EINVAL
          else (case tbv_cfgfs_parse_ipv4 ip of
                  Inl e \<Rightarrow> Inl e
                | Inr addr \<Rightarrow>
                    Inr (tbv_id_nccl_policy_default\<lparr>p_addr_range := addr, p_has_addr_range := True,
                           p_addr_range_bits := ucast bits\<rparr>)))"

definition nccl_addr_range_store :: "tbv_cfgfs_link \<Rightarrow> string \<Rightarrow> unit res \<times> tbv_cfgfs_link" where
  "nccl_addr_range_store link buf =
     (case parse_addr_range buf of
        Inl e \<Rightarrow> (Inl e, link)
      | Inr policy \<Rightarrow>
          (let (ret, cfg) = tbv_cfg_link_set_nccl_policy (fl_cfg link) policy
           in (ret, link\<lparr>fl_cfg := cfg\<rparr>)))"

text \<open>One line of the table: the format \<open>%u %u %u %s %u.%u.%u.%u\<close>.\<close>

definition format_gid :: "tbv_id_gid \<Rightarrow> string" where
  "format_gid gid =
     dec (unat (g_device_id gid)) @ '' '' @ dec (unat (g_port gid)) @ '' ''
     @ dec (unat (g_gid_index gid)) @ '' '' @ tbv_cfgfs_gid_type_name (g_gid_type gid) @ '' ''
     @ format_quad (g_addr gid) @ newline"

definition app_gids_show :: "tbv_cfgfs_link \<Rightarrow> string" where
  "app_gids_show link =
     concat (map format_gid (take (unat (l_app_gid_count (fl_cfg link))) (l_app_gids (fl_cfg link))))"

text \<open>The text half of \<open>app_gids_store\<close>: format \<open>%u %u %u %15s %31s\<close>, checks, and the entry.\<close>

definition parse_gid :: "string \<Rightarrow> tbv_id_gid res" where
  "parse_gid buf =
     (case do {
        (dev, s) \<leftarrow> scan_u buf; (port, s) \<leftarrow> scan_u (skip_spaces s);
        (index, s) \<leftarrow> scan_u (skip_spaces s); (type, s) \<leftarrow> scan_word 15 (skip_spaces s);
        (ip, s) \<leftarrow> scan_word 31 (skip_spaces s); Some (dev, port, index, type, ip)} of
        None \<Rightarrow> Inl EINVAL
      | Some (dev, port, index, type, ip) \<Rightarrow>
          if port > 255 \<or> index > 255 then Inl EINVAL
          else (case tbv_cfgfs_parse_gid_type type of
                  Inl e \<Rightarrow> Inl e
                | Inr gid_type \<Rightarrow>
                    (case tbv_cfgfs_parse_ipv4 ip of
                       Inl e \<Rightarrow> Inl e
                     | Inr addr \<Rightarrow>
                         Inr \<lparr>g_device_id = dev, g_port = ucast port, g_gid_index = ucast index,
                              g_gid_type = gid_type, g_addr = addr\<rparr>)))"

definition app_gids_store :: "tbv_cfgfs_link \<Rightarrow> string \<Rightarrow> unit res \<times> tbv_cfgfs_link" where
  "app_gids_store link buf =
     (case parse_gid buf of
        Inl e \<Rightarrow> (Inl e, link)
      | Inr gid \<Rightarrow>
          (let cfg = fl_cfg link; n = l_app_gid_count cfg
           in if unat n \<ge> TBV_CFG_MAX_APP_GIDS then (Inl ENOSPC, link)
              else (let (ret, cfg) = tbv_cfg_link_set_app_gids cfg
                          (Some (take (unat n) (l_app_gids cfg) @ [gid])) (n + 1)
                    in (ret, link\<lparr>fl_cfg := cfg\<rparr>))))"

definition state_show :: "tbv_cfgfs_link \<Rightarrow> string" where
  "state_show link = tbv_cfgfs_state_name (l_state (fl_cfg link)) @ newline"

definition selection_show :: "tbv_cfgfs_link \<Rightarrow> string" where
  "selection_show link =
     (let sel = l_app_selection (fl_cfg link)
      in if \<not> s_valid sel then ''<unset>'' @ newline
         else dec (unat (s_device_id sel)) @ '' '' @ dec (unat (s_port sel)) @ '' ''
              @ dec (unat (s_gid_index sel)) @ '' '' @ tbv_cfgfs_gid_type_name (s_gid_type sel)
              @ '' '' @ format_quad (s_addr sel) @ newline)"

definition seal_store :: "tbv_cfgfs_link \<Rightarrow> string \<Rightarrow> unit res \<times> tbv_cfgfs_link" where
  "seal_store link buf =
     (if \<not> sysfs_streq buf ''1'' then (Inl EINVAL, link)
      else
        (case tbv_cfg_link_seal (fl_cfg link) of
           (Inl e, cfg) \<Rightarrow> (Inl e, link\<lparr>fl_cfg := cfg\<rparr>)
         | (Inr _, cfg) \<Rightarrow>
             (case Option.bind (tbv_transport_get (backend_of cfg)) to_validate_config of
                None \<Rightarrow> (Inl EINVAL, link\<lparr>fl_cfg := cfg\<rparr>)
              | Some validate_config \<Rightarrow> (validate_config cfg, link\<lparr>fl_cfg := cfg\<rparr>))))"

definition activate_store ::
  "bool \<Rightarrow> link_registry \<Rightarrow> string \<Rightarrow> tbv_cfgfs_link \<Rightarrow> string
     \<Rightarrow> unit res \<times> tbv_cfgfs_link \<times> link_registry" where
  "activate_store alloc reg name link buf =
     (if \<not> sysfs_streq buf ''1'' then (Inl EINVAL, link, reg)
      else
        (let cfg = fl_cfg link; backend = backend_of cfg
         in case Option.bind (tbv_transport_get backend) to_activate of
              None \<Rightarrow> (Inl EINVAL, link, reg)
            | Some activate \<Rightarrow>
                if l_state cfg \<noteq> TBV_CFG_SEALED then (Inl EINVAL, link, reg)
                else
                  (case activate cfg of
                     Inl e \<Rightarrow> (Inl e, link, reg)
                   | Inr _ \<Rightarrow>
                       (case tbv_cfg_link_activate cfg of
                          (Inl e, cfg) \<Rightarrow> (Inl e, link\<lparr>fl_cfg := cfg\<rparr>, reg)
                        | (Inr _, cfg) \<Rightarrow>
                            (case tbv_link_activate_config alloc reg name backend cfg of
                               (Inl e, reg) \<Rightarrow>
                                 (Inl e, link\<lparr>fl_cfg := snd (tbv_cfg_link_deactivate cfg)\<rparr>, reg)
                             | (Inr _, reg) \<Rightarrow> (Inr (), link\<lparr>fl_cfg := cfg\<rparr>, reg))))))"

definition tbv_cfgfs_link_release :: "tbv_cfgfs_link \<Rightarrow> link_registry \<Rightarrow> link_registry" where
  "tbv_cfgfs_link_release link reg =
     (if l_state (fl_cfg link) = TBV_CFG_ACTIVE
      then tbv_link_deactivate_config reg (l_link_id (fl_cfg link)) else reg)"

text \<open>\<open>next_link_id\<close> is the global counter; \<open>alloc\<close> says whether the allocation succeeds.\<close>

definition tbv_cfgfs_make_link :: "bool \<Rightarrow> string ptr \<Rightarrow> u32 \<Rightarrow> (tbv_cfgfs_link \<times> u32) res" where
  "tbv_cfgfs_make_link alloc name next_link_id =
     (case tbv_cfg_link_validate_name name of
        Inl e \<Rightarrow> Inl e
      | Inr _ \<Rightarrow>
          if \<not> alloc then Inl ENOMEM
          else Inr (\<lparr>fl_cfg = tbv_cfg_link_init (next_link_id + 1),
                     fl_staged_route = \<lparr>r_peer_addr = zero_addr, r_local_src_addr = zero_addr\<rparr>,
                     fl_local_src_set = False, fl_peer_set = False\<rparr>, next_link_id + 1))"

section \<open>Text round trips\<close>

lemma length_dec: "n < 10 ^ k \<Longrightarrow> 0 < k \<Longrightarrow> length (dec n) \<le> k"
proof (induction n arbitrary: k rule: dec.induct)
  case (1 n)
  show ?case
  proof (cases "n < 10")
    case True
    then show ?thesis using 1(3) by (subst dec.simps) simp
  next
    case False
    then obtain j where k: "k = Suc j" "0 < j"
      using 1(2,3) by (cases k; cases "k - 1") auto
    then have "n div 10 < 10 ^ j" using 1(2) by (simp add: less_mult_imp_div_less mult.commute)
    then have "length (dec (n div 10)) \<le> j" using 1(1) [OF False] k(2) by blast
    then show ?thesis using False k(1) by (subst dec.simps) simp
  qed
qed

lemma length_dec_u8: "length (dec (unat (b :: u8))) \<le> 3"
proof (rule length_dec)
  show "unat b < 10 ^ 3" using unsigned_less [of b, where 'a = nat] by simp
qed simp

lemma length_format_quad: "length (format_quad addr) \<le> 15"
  unfolding format_quad_def
  using length_dec_u8 [of "a_bytes addr ! 12"] length_dec_u8 [of "a_bytes addr ! 13"]
    length_dec_u8 [of "a_bytes addr ! 14"] length_dec_u8 [of "a_bytes addr ! 15"]
  by simp

definition quad_char :: "char \<Rightarrow> bool" where
  "quad_char c \<longleftrightarrow> is_digit c \<or> c = CHR ''.''"

lemma quad_char_plain: "quad_char c \<Longrightarrow> \<not> is_space c \<and> c \<noteq> CHR ''/''"
  by (auto simp: quad_char_def is_digit_def is_space_def)

lemma format_quad_chars: "\<forall>c \<in> set (format_quad addr). quad_char c"
  using dec_digits by (auto simp: format_quad_def quad_char_def list_all_iff)

lemma format_quad_not_Nil [simp]: "format_quad addr \<noteq> []"
  by (simp add: format_quad_def)

lemma scan_quad_format:
  assumes "s = [] \<or> \<not> is_digit (hd s)"
  shows "scan_quad (format_quad addr @ s) =
    Some (of_nat (unat (a_bytes addr ! 12)), of_nat (unat (a_bytes addr ! 13)),
          of_nat (unat (a_bytes addr ! 14)), of_nat (unat (a_bytes addr ! 15)))"
  using assms by (simp add: scan_quad_def format_quad_def)

definition v4_addr :: "tbv_id_addr \<Rightarrow> bool" where
  "v4_addr addr \<longleftrightarrow> (\<exists>a b c d. addr = tbv_id_addr_v4 a b c d)"

lemma u8_via_u32:
  "ucast (of_nat (unat (b :: u8)) :: u32) = b" "\<not> 255 < (of_nat (unat (b :: u8)) :: u32)"
proof -
  have "unat b < 256" using unsigned_less [of b, where 'a = nat] by simp
  then show "\<not> 255 < (of_nat (unat b) :: u32)" by (simp add: word_less_nat_alt unat_of_nat del: of_nat_unat)
  show "ucast (of_nat (unat b) :: u32) = b" by (rule bit_word_eqI) (simp add: bit_simps)
qed

lemma parse_ipv4_format:
  assumes "v4_addr addr" and "s = [] \<or> \<not> is_digit (hd s)"
  shows "tbv_cfgfs_parse_ipv4 (format_quad addr @ s) = Inr addr"
proof -
  obtain a b c d where addr: "addr = tbv_id_addr_v4 a b c d" using assms(1) by (auto simp: v4_addr_def)
  have "a_bytes addr ! 12 = a" "a_bytes addr ! 13 = b" "a_bytes addr ! 14 = c" "a_bytes addr ! 15 = d"
    by (simp_all add: addr tbv_id_addr_v4_def zero_addr_def)
  then show ?thesis
    using scan_quad_format [OF assms(2), of addr] addr
    by (simp add: tbv_cfgfs_parse_ipv4_def u8_via_u32 del: of_nat_unat)
qed

text \<open>A word or a field followed by its delimiter is scanned whole.\<close>

lemma scan_word_whole:
  assumes "w \<noteq> []" and "\<forall>c \<in> set w. \<not> is_space c" and "length w \<le> n"
    and "s = [] \<or> is_space (hd s)"
  shows "scan_word n (w @ s) = Some (w, s)" and "skip_spaces (w @ s) = w @ s"
proof -
  obtain c cs where w: "w = c # cs" using assms(1) by (cases w) auto
  then show sk: "skip_spaces (w @ s) = w @ s" using assms(2) by (simp add: skip_spaces_def)
  have "takeWhile (\<lambda>c. \<not> is_space c) s = []" using assms(4) by (cases s) auto
  then have "takeWhile (\<lambda>c. \<not> is_space c) (w @ s) = w" using assms(2) by simp
  then show "scan_word n (w @ s) = Some (w, s)"
    using assms(1,3) sk by (simp add: scan_word_def Let_def)
qed

lemma scan_until_whole:
  assumes "w \<noteq> []" and "\<forall>c \<in> set w. c \<noteq> stop" and "length w \<le> n"
  shows "scan_until n stop (w @ stop # s) = Some (w, stop # s)"
  using assms by (simp add: scan_until_def Let_def)

lemma skip_one_space: "skip_spaces (CHR '' '' # s) = skip_spaces s"
  by (simp add: skip_spaces_def is_space_def)

lemma gid_type_name_word:
  "tbv_cfgfs_gid_type_name t \<noteq> []" "\<forall>c \<in> set (tbv_cfgfs_gid_type_name t). \<not> is_space c"
  "length (tbv_cfgfs_gid_type_name t) \<le> 15"
  by (auto simp: tbv_cfgfs_gid_type_name_def is_space_def)

lemma parse_gid_type_name:
  "t \<in> {TBV_ID_GID_IB, TBV_ID_GID_ROCE_V1, TBV_ID_GID_ROCE_V2} \<Longrightarrow>
     tbv_cfgfs_parse_gid_type (tbv_cfgfs_gid_type_name t) = Inr t"
  by (auto simp: tbv_cfgfs_parse_gid_type_def tbv_cfgfs_gid_type_name_def)

lemma space_newline: "is_space (CHR '' '')" "is_space (CHR 0x0A)"
  by (simp_all add: is_space_def)

lemma parse_gid_format:
  assumes "v4_addr (g_addr g)"
    and "g_gid_type g \<in> {TBV_ID_GID_IB, TBV_ID_GID_ROCE_V1, TBV_ID_GID_ROCE_V2}"
  shows "parse_gid (format_gid g) = Inr g"
proof -
  let ?ip = "format_quad (g_addr g)" and ?t = "tbv_cfgfs_gid_type_name (g_gid_type g)"
  have ip: "\<forall>c \<in> set ?ip. \<not> is_space c" using format_quad_chars quad_char_plain by blast
  note w2 = scan_word_whole [OF format_quad_not_Nil ip _, of 31 newline]
  note w1 = scan_word_whole [OF gid_type_name_word, of "'' '' @ ?ip @ newline"]
  have i: "tbv_cfgfs_parse_ipv4 ?ip = Inr (g_addr g)"
    using parse_ipv4_format [OF assms(1), of "[]"] by simp
  show ?thesis
    using w1 w2 i parse_gid_type_name [OF assms(2)] length_format_quad [of "g_addr g"]
    by (simp add: parse_gid_def format_gid_def skip_one_space skip_spaces_dec u8_via_u32
        newline_def space_newline del: of_nat_unat) (simp add: of_nat_unat)
qed

lemma parse_addr_range_format:
  assumes "v4_addr addr" and "bits \<le> 32"
  shows "parse_addr_range (format_quad addr @ ''/'' @ dec (unat (bits :: u8)) @ newline) =
    Inr (tbv_id_nccl_policy_default\<lparr>p_addr_range := addr, p_has_addr_range := True,
           p_addr_range_bits := bits\<rparr>)"
proof -
  have ip: "\<forall>c \<in> set (format_quad addr). c \<noteq> CHR ''/''"
    using format_quad_chars quad_char_plain by blast
  have b: "\<not> 32 < (of_nat (unat bits) :: u32)"
    using assms(2) by (simp add: word_less_nat_alt word_le_nat_alt unat_of_nat del: of_nat_unat)
  have "tbv_cfgfs_parse_ipv4 (format_quad addr) = Inr addr"
    using parse_ipv4_format [OF assms(1), of "[]"] by simp
  then show ?thesis
    using scan_until_whole [OF format_quad_not_Nil ip, of 31] length_format_quad [of addr] b
    by (simp add: parse_addr_range_def newline_def u8_via_u32 del: of_nat_unat)
qed

text \<open>
  What is shown can be stored back. The printed form of an IPv4 address, of an address
  range and of a table entry, as the show handlers print them, is parsed to the same value.
\<close>

theorem show_store_roundtrip:
  assumes "v4_addr addr" and "bits \<le> 32" and "v4_addr (g_addr g)"
    and "g_gid_type g \<in> {TBV_ID_GID_IB, TBV_ID_GID_ROCE_V1, TBV_ID_GID_ROCE_V2}"
  shows "tbv_cfgfs_parse_ipv4 (tbv_cfgfs_format_ipv4 addr) = Inr addr \<and>
    parse_addr_range (format_quad addr @ ''/'' @ dec (unat bits) @ newline) =
      Inr (tbv_id_nccl_policy_default\<lparr>p_addr_range := addr, p_has_addr_range := True,
             p_addr_range_bits := bits\<rparr>) \<and>
    parse_gid (format_gid g) = Inr g"
proof -
  have "tbv_cfgfs_format_ipv4 addr = format_quad addr @ newline"
    using assms(1) by (auto simp: tbv_cfgfs_format_ipv4_def v4_addr_def tbv_id_addr_v4_def)
  moreover have "tbv_cfgfs_parse_ipv4 (format_quad addr @ newline) = Inr addr"
    by (rule parse_ipv4_format [OF assms(1)]) (simp add: newline_def)
  ultimately show ?thesis
    using parse_addr_range_format [OF assms(1,2)] parse_gid_format [OF assms(3,4)] by simp
qed

section \<open>The links of the subsystem\<close>

record cfgfs =
  fs_items :: "string \<Rightarrow> tbv_cfgfs_link option"
  fs_next_link_id :: u32
  fs_reg :: link_registry

datatype cfgfs_attr =
  A_backend | A_local_src | A_peer | A_range | A_gids | A_seal | A_activate bool

fun cfgfs_store ::
  "cfgfs_attr \<Rightarrow> link_registry \<Rightarrow> string \<Rightarrow> tbv_cfgfs_link \<Rightarrow> string
     \<Rightarrow> unit res \<times> tbv_cfgfs_link \<times> link_registry" where
  "cfgfs_store A_backend reg n l buf = (case backend_store l buf of (r, l') \<Rightarrow> (r, l', reg))"
| "cfgfs_store A_local_src reg n l buf = (case local_src_ipv4_store l buf of (r, l') \<Rightarrow> (r, l', reg))"
| "cfgfs_store A_peer reg n l buf = (case peer_ipv4_store l buf of (r, l') \<Rightarrow> (r, l', reg))"
| "cfgfs_store A_range reg n l buf = (case nccl_addr_range_store l buf of (r, l') \<Rightarrow> (r, l', reg))"
| "cfgfs_store A_gids reg n l buf = (case app_gids_store l buf of (r, l') \<Rightarrow> (r, l', reg))"
| "cfgfs_store A_seal reg n l buf = (case seal_store l buf of (r, l') \<Rightarrow> (r, l', reg))"
| "cfgfs_store (A_activate alloc) reg n l buf = activate_store alloc reg n l buf"

text \<open>
  The steps configfs drives: it never makes a directory under a name in use, writes only to
  existing directories and releases a removed one. A directory is made before the 32-bit
  counter of link ids has gone all the way round.
\<close>

inductive cfgfs_step :: "cfgfs \<Rightarrow> cfgfs \<Rightarrow> bool" where
  make: "tbv_cfgfs_make_link alloc (Some n) (fs_next_link_id fs) = Inr (l, i) \<Longrightarrow>
     fs_items fs n = None \<Longrightarrow> fs_next_link_id fs \<noteq> NOT 0 \<Longrightarrow>
     cfgfs_step fs (fs\<lparr>fs_items := (fs_items fs)(n \<mapsto> l), fs_next_link_id := i\<rparr>)"
| store: "fs_items fs n = Some l \<Longrightarrow> cfgfs_store a (fs_reg fs) n l buf = (r, l', reg) \<Longrightarrow>
     cfgfs_step fs (fs\<lparr>fs_items := (fs_items fs)(n \<mapsto> l'), fs_reg := reg\<rparr>)"
| release: "fs_items fs n = Some l \<Longrightarrow>
     cfgfs_step fs (fs\<lparr>fs_items := (fs_items fs)(n := None),
                       fs_reg := tbv_cfgfs_link_release l (fs_reg fs)\<rparr>)"

inductive cfgfs_reachable :: "cfgfs \<Rightarrow> bool" where
  start: "cfgfs_reachable \<lparr>fs_items = Map.empty, fs_next_link_id = 0, fs_reg = empty_registry\<rparr>"
| step: "cfgfs_reachable fs \<Longrightarrow> cfgfs_step fs fs' \<Longrightarrow> cfgfs_reachable fs'"

text \<open>One link: its configuration is reachable and asks for RoCE v2.\<close>

definition fl_inv :: "tbv_cfgfs_link \<Rightarrow> bool" where
  "fl_inv l \<longleftrightarrow> cfg_reachable (l_link_id (fl_cfg l)) (fl_cfg l) \<and>
     p_roce_version (l_nccl_policy (fl_cfg l)) = 2"

lemma fl_inv_policy: "fl_inv l \<Longrightarrow> p_roce_version (effective_policy (fl_cfg l)) = 2"
  by (simp add: fl_inv_def effective_policy_def tbv_id_nccl_policy_default_def)

lemma cfg_apply_id: "l_link_id (snd (cfg_apply c l)) = l_link_id l"
  by (cases c) (simp_all add: cfg_op_defs split: option.split sum.split)

lemma cfg_apply_policy:
  assumes "P (l_nccl_policy l)" and "\<forall>p. c = Set_Policy p \<longrightarrow> P p"
  shows "P (l_nccl_policy (snd (cfg_apply c l)))"
  using assms by (cases c) (simp_all add: cfg_op_defs split: option.split sum.split)

lemma cfg_apply_active:
  assumes "c \<noteq> Activate" and "c \<noteq> Deactivate"
  shows "l_state (snd (cfg_apply c l)) = TBV_CFG_ACTIVE \<longleftrightarrow> l_state l = TBV_CFG_ACTIVE"
  using assms
  by (cases c)
    (simp_all add: cfg_op_defs tbv_cfg_link_mutable_def split: option.split sum.split; auto)+

lemma fl_inv_apply:
  assumes "fl_inv l" and "cfg_call_ok c" and "\<forall>p. c = Set_Policy p \<longrightarrow> p_roce_version p = 2"
    and "fl_cfg l' = snd (cfg_apply c (fl_cfg l))"
  shows "fl_inv l'"
proof -
  have "cfg_reachable (l_link_id (fl_cfg l)) (fl_cfg l')"
    using assms cfg_reachable.call by (auto simp: fl_inv_def)
  moreover have "p_roce_version (l_nccl_policy (fl_cfg l')) = 2"
    unfolding assms(4) using assms(1,3)
    by (intro cfg_apply_policy [where P = "\<lambda>p. p_roce_version p = 2"]) (simp_all add: fl_inv_def)
  ultimately show ?thesis using assms(4) cfg_apply_id by (simp add: fl_inv_def)
qed

text \<open>What a store handler other than \<open>activate\<close> may do to the configuration.\<close>

definition cfg_edited :: "tbv_cfg_link \<Rightarrow> tbv_cfg_link \<Rightarrow> bool" where
  "cfg_edited l l' \<longleftrightarrow> l' = l \<or> (\<exists>c. cfg_call_ok c \<and> c \<noteq> Activate \<and> c \<noteq> Deactivate \<and>
     (\<forall>p. c = Set_Policy p \<longrightarrow> p_roce_version p = 2) \<and> l' = snd (cfg_apply c l))"

lemma cfg_edited_intros:
  "cfg_edited l l"
  "cfg_edited l (snd (tbv_cfg_link_set_backend l b))"
  "cfg_edited l (snd (tbv_cfg_link_set_route l r))"
  "p_roce_version p = 2 \<Longrightarrow> cfg_edited l (snd (tbv_cfg_link_set_nccl_policy l p))"
  "unat n \<le> length gs \<Longrightarrow> cfg_edited l (snd (tbv_cfg_link_set_app_gids l (Some gs) n))"
  "cfg_edited l (snd (tbv_cfg_link_seal l))"
  unfolding cfg_edited_def
  by (simp, rule disjI2, rule exI [of _ "Set_Backend b"], simp,
      rule disjI2, rule exI [of _ "Set_Route r"], simp,
      rule disjI2, rule exI [of _ "Set_Policy p"], simp,
      rule disjI2, rule exI [of _ "Set_Gids (Some gs) n"], simp,
      rule disjI2, rule exI [of _ "Seal"], simp)

lemma store_edits:
  "cfg_edited (fl_cfg l) (fl_cfg (snd (backend_store l buf)))"
  "cfg_edited (fl_cfg l) (fl_cfg (snd (local_src_ipv4_store l buf)))"
  "cfg_edited (fl_cfg l) (fl_cfg (snd (peer_ipv4_store l buf)))"
  "cfg_edited (fl_cfg l) (fl_cfg (snd (nccl_addr_range_store l buf)))"
  "fl_inv l \<Longrightarrow> cfg_edited (fl_cfg l) (fl_cfg (snd (app_gids_store l buf)))"
  "cfg_edited (fl_cfg l) (fl_cfg (snd (seal_store l buf)))"
proof -
  show "cfg_edited (fl_cfg l) (fl_cfg (snd (backend_store l buf)))"
    by (simp add: backend_store_def split_beta cfg_edited_intros)
  show "cfg_edited (fl_cfg l) (fl_cfg (snd (local_src_ipv4_store l buf)))"
    by (simp add: local_src_ipv4_store_def tbv_cfgfs_apply_route_locked_def split_beta
        cfg_edited_intros split: sum.split)
  show "cfg_edited (fl_cfg l) (fl_cfg (snd (peer_ipv4_store l buf)))"
    by (simp add: peer_ipv4_store_def tbv_cfgfs_apply_route_locked_def split_beta
        cfg_edited_intros split: sum.split)
  have "parse_addr_range buf = Inr p \<Longrightarrow> p_roce_version p = 2" for p
    by (auto simp: parse_addr_range_def tbv_id_nccl_policy_default_def
        split: option.splits if_splits sum.splits)
  then show "cfg_edited (fl_cfg l) (fl_cfg (snd (nccl_addr_range_store l buf)))"
    by (simp add: nccl_addr_range_store_def split_beta cfg_edited_intros split: sum.split)
  show "cfg_edited (fl_cfg l) (fl_cfg (snd (seal_store l buf)))"
    using cfg_edited_intros(6) [of "fl_cfg l"]
    by (auto simp: seal_store_def cfg_edited_intros(1) split: prod.split sum.split option.split)
  assume "fl_inv l"
  then have "unat (l_app_gid_count (fl_cfg l)) \<le> length (l_app_gids (fl_cfg l))"
    using cfg_reachable_inv by (auto simp: fl_inv_def cfg_inv_def)
  moreover have "unat (n + 1) = Suc (unat n)" if "unat n < 8" for n :: u32
    using that unat_add_u32 [of n 1] by simp
  ultimately show "cfg_edited (fl_cfg l) (fl_cfg (snd (app_gids_store l buf)))"
    by (simp add: app_gids_store_def Let_def split_beta cfg_edited_intros split: sum.split)
qed

lemma cfg_edited_keeps:
  assumes "cfg_edited l l'"
  shows "l_link_id l' = l_link_id l"
    and "l_state l' = TBV_CFG_ACTIVE \<longleftrightarrow> l_state l = TBV_CFG_ACTIVE"
    and "l_state l = TBV_CFG_ACTIVE \<Longrightarrow> l' = l"
proof -
  show "l_link_id l' = l_link_id l"
    using assms cfg_apply_id by (auto simp: cfg_edited_def)
  show act: "l_state l' = TBV_CFG_ACTIVE \<longleftrightarrow> l_state l = TBV_CFG_ACTIVE"
    using assms cfg_apply_active by (auto simp: cfg_edited_def)
  assume a: "l_state l = TBV_CFG_ACTIVE"
  then have "\<exists>st. l' = l\<lparr>l_state := st\<rparr>"
    using assms cfg_sealed_step [of l] by (auto simp: cfg_edited_def cfg_sealed_def intro: exI [of _ "l_state l"])
  then show "l' = l" using act a by (metis tbv_cfg_link.select_convs(2) tbv_cfg_link.surjective
        tbv_cfg_link.update_convs(2))
qed

lemma fl_inv_edited: "fl_inv l \<Longrightarrow> cfg_edited (fl_cfg l) (fl_cfg l') \<Longrightarrow> fl_inv l'"
  using fl_inv_apply by (auto simp: cfg_edited_def fl_inv_def)

lemma store_edited:
  assumes "cfgfs_store a reg n l buf = (r, l', reg')" and "\<And>b. a \<noteq> A_activate b" and "fl_inv l"
  shows "reg' = reg \<and> cfg_edited (fl_cfg l) (fl_cfg l')"
  using assms store_edits [of l buf] by (cases a) (auto split: prod.splits)

lemma activate_store_cases:
  assumes "activate_store al reg n l buf = (r, l', reg')"
  shows "fl_cfg l' = fl_cfg l \<and> reg' = reg \<or>
    r = Inr () \<and> l_state (fl_cfg l) = TBV_CFG_SEALED \<and>
    fl_cfg l' = (fl_cfg l)\<lparr>l_state := TBV_CFG_ACTIVE\<rparr> \<and>
    tbv_link_activate_config al reg n (backend_of (fl_cfg l)) (fl_cfg l') = (Inr (), reg')"
proof -
  have "l_state c = TBV_CFG_SEALED \<Longrightarrow> c\<lparr>l_state := TBV_CFG_SEALED\<rparr> = c" for c :: tbv_cfg_link
    by simp
  then show ?thesis
    using assms registry.publish_err
    by (auto simp: activate_store_def Let_def cfg_op_defs
        split: if_splits option.splits sum.splits prod.splits)
qed

text \<open>The registry mirrors the active links.\<close>

definition mirrors :: "link_registry \<Rightarrow> (string \<Rightarrow> tbv_cfgfs_link option) \<Rightarrow> bool" where
  "mirrors reg items \<longleftrightarrow> (\<forall>i c. reg_map reg i = Some c \<longleftrightarrow>
     (\<exists>n l. items n = Some l \<and> l_state (fl_cfg l) = TBV_CFG_ACTIVE \<and> l_link_id (fl_cfg l) = i \<and>
        c = published_link n (backend_of (fl_cfg l)) (fl_cfg l)))"

lemma mirrorsD:
  "mirrors reg items \<Longrightarrow> reg_map reg i = Some c \<longleftrightarrow>
     (\<exists>n l. items n = Some l \<and> l_state (fl_cfg l) = TBV_CFG_ACTIVE \<and> l_link_id (fl_cfg l) = i \<and>
        c = published_link n (backend_of (fl_cfg l)) (fl_cfg l))"
  unfolding mirrors_def by (erule allE, erule allE)

text \<open>Every link is well-formed, its id is at most the counter, and no two links share an id.\<close>

definition items_ok :: "(string \<Rightarrow> tbv_cfgfs_link option) \<Rightarrow> u32 \<Rightarrow> bool" where
  "items_ok items next_id \<longleftrightarrow>
     (\<forall>n l. items n = Some l \<longrightarrow> fl_inv l \<and> l_link_id (fl_cfg l) \<le> next_id) \<and>
     (\<forall>n l m k. items n = Some l \<and> items m = Some k \<and>
        l_link_id (fl_cfg l) = l_link_id (fl_cfg k) \<longrightarrow> n = m)"

definition fs_inv :: "cfgfs \<Rightarrow> bool" where
  "fs_inv fs \<longleftrightarrow> reg_wf (fs_reg fs) \<and> items_ok (fs_items fs) (fs_next_link_id fs) \<and>
     mirrors (fs_reg fs) (fs_items fs)"

lemma items_ok_update:
  assumes "items_ok items i" and "items n = Some l" and "fl_inv l'"
    and "l_link_id (fl_cfg l') = l_link_id (fl_cfg l)"
  shows "items_ok (items(n \<mapsto> l')) i"
proof -
  have id: "(items(n \<mapsto> l')) m = Some k \<Longrightarrow>
      \<exists>k'. items m = Some k' \<and> l_link_id (fl_cfg k') = l_link_id (fl_cfg k)" for m k
    using assms(2,4) by (auto split: if_splits)
  have "fl_inv k" if "(items(n \<mapsto> l')) m = Some k" for m k
    using that assms(1,3) by (auto simp: items_ok_def split: if_splits)
  moreover have "l_link_id (fl_cfg k) \<le> i" if "(items(n \<mapsto> l')) m = Some k" for m k
    using id [OF that] assms(1) unfolding items_ok_def by metis
  moreover have "m = m'" if "(items(n \<mapsto> l')) m = Some k" "(items(n \<mapsto> l')) m' = Some k'"
      "l_link_id (fl_cfg k) = l_link_id (fl_cfg k')" for m k m' k'
    using id [OF that(1)] id [OF that(2)] that(3) assms(1) unfolding items_ok_def by metis
  ultimately show ?thesis unfolding items_ok_def by blast
qed

lemma items_ok_new:
  assumes "items_ok items i" and "fl_inv l" and "l_link_id (fl_cfg l) = j" and "i < j"
  shows "items_ok (items(n \<mapsto> l)) j"
proof -
  have lt: "l_link_id (fl_cfg k) < j" if "items m = Some k" for m k
    using that assms(1,4) unfolding items_ok_def by (meson order.strict_trans1)
  have "fl_inv k \<and> l_link_id (fl_cfg k) \<le> j" if "(items(n \<mapsto> l)) m = Some k" for m k
    using that assms(1-3) lt [of m k] by (auto simp: items_ok_def split: if_splits)
  moreover have "m = m'" if "(items(n \<mapsto> l)) m = Some k" "(items(n \<mapsto> l)) m' = Some k'"
      "l_link_id (fl_cfg k) = l_link_id (fl_cfg k')" for m k m' k'
  proof (cases "m = n \<or> m' = n")
    case True
    then show ?thesis using that assms(3) lt [of m k] lt [of m' k'] by (auto split: if_splits)
  next
    case False
    then show ?thesis using that assms(1) by (auto simp: items_ok_def)
  qed
  ultimately show ?thesis unfolding items_ok_def by blast
qed

lemma items_ok_remove: "items_ok items i \<Longrightarrow> items_ok (items(n := None)) i"
  by (auto simp: items_ok_def split: if_splits)

lemma items_ok_same:
  "items_ok items i \<Longrightarrow> items n = Some l \<Longrightarrow>
     \<forall>m k. items m = Some k \<and> l_link_id (fl_cfg k) = l_link_id (fl_cfg l) \<longrightarrow> m = n"
  by (auto simp: items_ok_def)

lemma mirrors_edit:
  assumes "mirrors reg items" and "items n = Some l" and "cfg_edited (fl_cfg l) (fl_cfg l')"
  shows "mirrors reg (items(n \<mapsto> l'))"
proof -
  note k = cfg_edited_keeps [OF assms(3)]
  have "(\<exists>k. (items(n \<mapsto> l')) m = Some k \<and> l_state (fl_cfg k) = TBV_CFG_ACTIVE \<and>
        l_link_id (fl_cfg k) = i \<and> c = published_link m (backend_of (fl_cfg k)) (fl_cfg k)) \<longleftrightarrow>
      (\<exists>k. items m = Some k \<and> l_state (fl_cfg k) = TBV_CFG_ACTIVE \<and>
        l_link_id (fl_cfg k) = i \<and> c = published_link m (backend_of (fl_cfg k)) (fl_cfg k))" for m i c
  proof (cases "m = n")
    case True
    then show ?thesis using assms(2) k by (cases "l_state (fl_cfg l) = TBV_CFG_ACTIVE") simp_all
  qed simp
  then show ?thesis using assms(1) unfolding mirrors_def by simp
qed

lemma mirrors_publish:
  assumes "mirrors reg items" and "reg_wf reg" and "items n = Some l"
    and "fl_cfg l' = (fl_cfg l)\<lparr>l_state := TBV_CFG_ACTIVE\<rparr>"
    and "tbv_link_activate_config al reg n (backend_of (fl_cfg l)) (fl_cfg l') = (Inr (), reg')"
    and "\<forall>m k. items m = Some k \<and> l_link_id (fl_cfg k) = l_link_id (fl_cfg l) \<longrightarrow> m = n"
  shows "mirrors reg' (items(n \<mapsto> l'))"
proof -
  let ?i = "l_link_id (fl_cfg l)" and ?c = "published_link n (backend_of (fl_cfg l)) (fl_cfg l')"
  have b: "backend_of (fl_cfg l') = backend_of (fl_cfg l)" and i: "l_link_id (fl_cfg l') = ?i"
    and a: "l_state (fl_cfg l') = TBV_CFG_ACTIVE"
    using assms(4) by (simp_all add: backend_of_def)
  have m: "reg_map reg' = (reg_map reg)(?i \<mapsto> ?c)"
    using registry.publish_ok [OF assms(2,5)] i by simp
  have "reg_map reg' j = Some c \<longleftrightarrow> (\<exists>m k. (items(n \<mapsto> l')) m = Some k \<and>
      l_state (fl_cfg k) = TBV_CFG_ACTIVE \<and> l_link_id (fl_cfg k) = j \<and>
      c = published_link m (backend_of (fl_cfg k)) (fl_cfg k))" for j c
  proof (cases "j = ?i")
    case True
    have "(items(n \<mapsto> l')) m = Some k \<and> l_link_id (fl_cfg k) = ?i \<longleftrightarrow> m = n \<and> k = l'" for m k
      using assms(6) i by (auto split: if_splits)
    then have "(\<exists>m k. (items(n \<mapsto> l')) m = Some k \<and>
      l_state (fl_cfg k) = TBV_CFG_ACTIVE \<and> l_link_id (fl_cfg k) = j \<and>
      c = published_link m (backend_of (fl_cfg k)) (fl_cfg k)) \<longleftrightarrow> c = ?c"
      unfolding True using a b by (metis (no_types, lifting))
    moreover have "reg_map reg' j = Some c \<longleftrightarrow> c = ?c" using m True by auto
    ultimately show ?thesis by blast
  next
    case False
    then have "reg_map reg' j = reg_map reg j" using m by simp
    moreover have "(items(n \<mapsto> l')) m = Some k \<and> l_link_id (fl_cfg k) = j \<longleftrightarrow>
        items m = Some k \<and> l_link_id (fl_cfg k) = j" for m k
      using False i assms(3) by auto
    ultimately show ?thesis using assms(1) unfolding mirrors_def by metis
  qed
  then show ?thesis unfolding mirrors_def by blast
qed

lemma mirrors_release:
  assumes "mirrors reg items" and "reg_wf reg" and "items n = Some l"
    and "\<forall>m k. items m = Some k \<and> l_link_id (fl_cfg k) = l_link_id (fl_cfg l) \<longrightarrow> m = n"
  shows "reg_wf (tbv_cfgfs_link_release l reg) \<and>
    mirrors (tbv_cfgfs_link_release l reg) (items(n := None))"
proof (cases "l_state (fl_cfg l) = TBV_CFG_ACTIVE")
  case True
  let ?i = "l_link_id (fl_cfg l)"
  have u: "reg_wf (tbv_link_deactivate_config reg ?i)"
    "reg_map (tbv_link_deactivate_config reg ?i) = (reg_map reg)(?i := None)"
    using registry.unpublish [OF assms(2)] by auto
  have "(items(n := None)) m = Some k \<longleftrightarrow> items m = Some k \<and> l_link_id (fl_cfg k) \<noteq> ?i" for m k
    using assms(3,4) by auto
  then have "mirrors (tbv_link_deactivate_config reg ?i) (items(n := None))"
    using assms(1) u(2) unfolding mirrors_def by auto
  with u(1) True show ?thesis by (simp add: tbv_cfgfs_link_release_def)
next
  case False
  then have "(items(n := None)) m = Some k \<and> l_state (fl_cfg k) = TBV_CFG_ACTIVE \<longleftrightarrow>
      items m = Some k \<and> l_state (fl_cfg k) = TBV_CFG_ACTIVE" for m k
    using assms(3) by auto
  then have "mirrors reg (items(n := None))" using assms(1) unfolding mirrors_def by metis
  with False assms(2) show ?thesis by (simp add: tbv_cfgfs_link_release_def)
qed

lemma make_link_fresh:
  assumes "tbv_cfgfs_make_link al n i = Inr (l, j)" and "i \<noteq> NOT 0"
  shows "fl_inv l \<and> l_link_id (fl_cfg l) = j \<and> i < j \<and> l_state (fl_cfg l) = TBV_CFG_EMPTY"
proof -
  have l: "fl_cfg l = tbv_cfg_link_init (i + 1)" "j = i + 1"
    using assms(1) by (auto simp: tbv_cfgfs_make_link_def split: sum.splits if_splits)
  have "i < - 1" using assms(2) by (simp add: word_order.not_eq_extremum)
  then have "i < i + 1" by (simp add: word_less_nat_alt unat_Suc_u32 [of i "- 1"])
  then show ?thesis
    using l cfg_reachable.fresh
    by (simp add: fl_inv_def tbv_cfg_link_init_def tbv_id_nccl_policy_default_def)
qed

lemma store_inv:
  assumes "reg_wf reg" and "items_ok items i" and "mirrors reg items" and "items n = Some l"
    and "cfgfs_store a reg n l buf = (r, l', reg')"
  shows "fl_inv l' \<and> l_link_id (fl_cfg l') = l_link_id (fl_cfg l) \<and> reg_wf reg' \<and>
    mirrors reg' (items(n \<mapsto> l'))"
proof -
  have fl: "fl_inv l" using assms(2,4) by (auto simp: items_ok_def)
  have edit: ?thesis if "reg' = reg" "cfg_edited (fl_cfg l) (fl_cfg l')"
    using mirrors_edit [OF assms(3,4) that(2)] fl_inv_edited [OF fl that(2)] assms(1)
      cfg_edited_keeps(1) [OF that(2)] that(1) by simp
  show ?thesis
  proof (cases "\<exists>b. a = A_activate b")
    case False
    then show ?thesis using store_edited [OF assms(5) _ fl] edit by auto
  next
    case True
    then obtain b where "activate_store b reg n l buf = (r, l', reg')" using assms(5) by auto
    from activate_store_cases [OF this]
    consider (none) "cfg_edited (fl_cfg l) (fl_cfg l')" "reg' = reg"
      | (pub) "l_state (fl_cfg l) = TBV_CFG_SEALED"
        "fl_cfg l' = (fl_cfg l)\<lparr>l_state := TBV_CFG_ACTIVE\<rparr>"
        "tbv_link_activate_config b reg n (backend_of (fl_cfg l)) (fl_cfg l') = (Inr (), reg')"
      by (auto simp: cfg_edited_def)
    then show ?thesis
    proof cases
      case none
      then show ?thesis by (rule edit [rotated])
    next
      case pub
      have "fl_cfg l' = snd (cfg_apply Activate (fl_cfg l))"
        using pub by (simp add: tbv_cfg_link_activate_def)
      then have "fl_inv l'" using fl fl_inv_apply [of l Activate l'] by simp
      moreover have "mirrors reg' (items(n \<mapsto> l'))"
        by (rule mirrors_publish [OF assms(3,1,4) pub(2,3) items_ok_same [OF assms(2,4)]])
      ultimately show ?thesis using registry.publish_ok [OF assms(1) pub(3)] pub(2) by simp
    qed
  qed
qed

lemma fs_inv_step:
  assumes "cfgfs_step fs fs'" and "fs_inv fs"
  shows "fs_inv fs'"
proof -
  have wf: "reg_wf (fs_reg fs)" and mir: "mirrors (fs_reg fs) (fs_items fs)"
    and ok: "items_ok (fs_items fs) (fs_next_link_id fs)"
    using assms(2) by (auto simp: fs_inv_def)
  show ?thesis
    using assms(1)
  proof cases
    case (make al n l i)
    note f = make_link_fresh [OF make(2) make(4)]
    have "((fs_items fs)(n \<mapsto> l)) m = Some k \<and> l_state (fl_cfg k) = TBV_CFG_ACTIVE \<longleftrightarrow>
        fs_items fs m = Some k \<and> l_state (fl_cfg k) = TBV_CFG_ACTIVE" for m k
      using make(3) f by auto
    then have "mirrors (fs_reg fs) ((fs_items fs)(n \<mapsto> l))" using mir unfolding mirrors_def by metis
    then show ?thesis using make(1) wf items_ok_new [OF ok, of l i n] f by (simp add: fs_inv_def)
  next
    case (store n l a buf r l' reg)
    note s = store_inv [OF wf ok mir store(2,3)]
    then show ?thesis
      using store(1) items_ok_update [OF ok store(2), of l'] by (simp add: fs_inv_def)
  next
    case (release n l)
    note r = mirrors_release [OF mir wf release(2) items_ok_same [OF ok release(2)]]
    then show ?thesis using release(1) items_ok_remove [OF ok, of n] by (simp add: fs_inv_def)
  qed
qed

lemma fs_reachable_inv: "cfgfs_reachable fs \<Longrightarrow> fs_inv fs"
proof (induction rule: cfgfs_reachable.induct)
  case start
  have "reg_map empty_registry i = None" for i
    by (simp add: reg_map_def tbv_link_find_locked_def empty_registry_def)
  then show ?case by (simp add: fs_inv_def items_ok_def mirrors_def reg_wf_def empty_registry_def)
qed (rule fs_inv_step)

section \<open>Properties of the subsystem\<close>

definition active_names :: "cfgfs \<Rightarrow> string set" where
  "active_names fs = {n. \<exists>l. fs_items fs n = Some l \<and> l_state (fl_cfg l) = TBV_CFG_ACTIVE}"

lemma card_active_names:
  assumes "fs_inv fs"
  shows "card (active_names fs) = card (dom (reg_map (fs_reg fs)))"
proof (rule bij_betw_same_card)
  let ?id = "\<lambda>n. l_link_id (fl_cfg (the (fs_items fs n)))"
  have "inj_on ?id (active_names fs)"
    using assms by (intro inj_onI) (auto simp: active_names_def fs_inv_def items_ok_def)
  moreover have "?id ` active_names fs = dom (reg_map (fs_reg fs))"
    using assms unfolding fs_inv_def mirrors_def active_names_def by (force simp: dom_def)
  ultimately show "bij_betw ?id (active_names fs) (dom (reg_map (fs_reg fs)))"
    by (simp add: bij_betw_def)
qed

lemma fl_inv_sealed_valid:
  assumes "fl_inv l" and "cfg_sealed (fl_cfg l)"
  shows "cfg_validated (fl_cfg l)"
    and "s_valid (l_app_selection (fl_cfg l)) \<and>
      s_gid_type (l_app_selection (fl_cfg l)) = TBV_ID_GID_ROCE_V2"
proof -
  show v: "cfg_validated (fl_cfg l)"
    using assms cfg_reachable_inv by (auto simp: fl_inv_def cfg_inv_def)
  then show "s_valid (l_app_selection (fl_cfg l)) \<and>
      s_gid_type (l_app_selection (fl_cfg l)) = TBV_ID_GID_ROCE_V2"
    using compat_selection_v2 fl_inv_policy [OF assms(1)] by (auto simp: cfg_validated_def)
qed

text \<open>
  C5: the registry is exactly the set of active links. After any sequence of directory
  creations, writes to any attribute and removals, an entry is published under an id if and
  only if some link with that id is active, and then it is that link's backend, selection and
  name; the counter is the number of active links; and every published selection is valid and
  RoCE v2.
\<close>

theorem published_iff_active:
  assumes "cfgfs_reachable fs"
  shows "(reg_map (fs_reg fs) i = Some c \<longleftrightarrow>
      (\<exists>n l. fs_items fs n = Some l \<and> l_state (fl_cfg l) = TBV_CFG_ACTIVE \<and>
         l_link_id (fl_cfg l) = i \<and> c = published_link n (backend_of (fl_cfg l)) (fl_cfg l))) \<and>
    tbv_link_count (fs_reg fs) = of_nat (card (active_names fs)) \<and>
    (reg_map (fs_reg fs) i = Some c \<longrightarrow> s_valid (cl_app_selection c) \<and>
       s_gid_type (cl_app_selection c) = TBV_ID_GID_ROCE_V2)"
proof -
  note inv = fs_reachable_inv [OF assms]
  then have m: "mirrors (fs_reg fs) (fs_items fs)" and wf: "reg_wf (fs_reg fs)" by (auto simp: fs_inv_def)
  have "s_valid (cl_app_selection c) \<and> s_gid_type (cl_app_selection c) = TBV_ID_GID_ROCE_V2"
    if pub: "reg_map (fs_reg fs) i = Some c"
  proof -
    obtain n l where l: "fs_items fs n = Some l" "l_state (fl_cfg l) = TBV_CFG_ACTIVE"
      "c = published_link n (backend_of (fl_cfg l)) (fl_cfg l)"
      using pub unfolding mirrorsD [OF m] by blast
    have "fl_inv l" using inv l(1) by (auto simp: fs_inv_def items_ok_def)
    then show ?thesis
      using fl_inv_sealed_valid(2) [of l] l(2,3) by (simp add: cfg_sealed_def published_link_def)
  qed
  moreover have "reg_map (fs_reg fs) i = Some c \<longleftrightarrow>
      (\<exists>n l. fs_items fs n = Some l \<and> l_state (fl_cfg l) = TBV_CFG_ACTIVE \<and>
         l_link_id (fl_cfg l) = i \<and> c = published_link n (backend_of (fl_cfg l)) (fl_cfg l))"
    by (rule mirrorsD [OF m])
  moreover have "tbv_link_count (fs_reg fs) = of_nat (card (active_names fs))"
    using card_active_names [OF inv] registry.count [OF wf] by simp
  ultimately show ?thesis by blast
qed

text \<open>
  C24: a seal is all or nothing. For a link reached through the attributes, a write to \<open>seal\<close>
  that reports an error leaves the link's state as it was, and one that succeeds seals it with
  contents that pass both the compatibility check and the check of the chosen transport: the
  transport's check never refuses what has just been sealed.
\<close>

theorem seal_store_all_or_nothing:
  assumes "cfgfs_reachable fs" and "fs_items fs n = Some l" and "seal_store l buf = (r, l')"
  shows "case r of
      Inl e \<Rightarrow> l_state (fl_cfg l') = l_state (fl_cfg l)
    | Inr _ \<Rightarrow> l_state (fl_cfg l') = TBV_CFG_SEALED \<and> cfg_validated (fl_cfg l') \<and>
        \<not> cfg_sealed (fl_cfg l)"
proof -
  have fl: "fl_inv l"
    using fs_reachable_inv [OF assms(1)] assms(2) by (auto simp: fs_inv_def items_ok_def)
  have "fl_inv l'"
    using fl_inv_edited [OF fl] store_edits(6) [of l buf] assms(3) by simp
  show ?thesis
  proof (cases "sysfs_streq buf ''1''")
    case True
    obtain s cfg where seal: "tbv_cfg_link_seal (fl_cfg l) = (s, cfg)"
      by (cases "tbv_cfg_link_seal (fl_cfg l)")
    show ?thesis
    proof (cases s)
      case (Inl e)
      then have "l_state cfg = l_state (fl_cfg l)"
        using seal by (auto simp: tbv_cfg_link_seal_def split: if_splits sum.splits)
      then show ?thesis using assms(3) True seal Inl by (auto simp: seal_store_def)
    next
      case (Inr u)
      have st: "l_state cfg = TBV_CFG_SEALED" "\<not> cfg_sealed (fl_cfg l)"
        using seal Inr by (auto simp: tbv_cfg_link_seal_def mutable_iff split: if_splits sum.splits)
      obtain ops v where o: "tbv_transport_get (backend_of cfg) = Some ops"
          "to_validate_config ops = Some v"
        by (cases "backend_of cfg") (auto simp: tbv_transport_get_def tbv_native_transport_ops_def
            tbv_apple_transport_ops_def)
      have l': "l' = l\<lparr>fl_cfg := cfg\<rparr>" "r = v cfg"
        using assms(3) True seal Inr o by (auto simp: seal_store_def)
      then have "cfg_validated cfg"
        using fl_inv_sealed_valid(1) [OF \<open>fl_inv l'\<close>] st by (simp add: cfg_sealed_def)
      moreover have "v cfg = Inr ()"
        using validated_transport_ok [OF calculation _ o] fl_inv_policy [OF \<open>fl_inv l'\<close>] l' by simp
      ultimately show ?thesis using l' st by simp
    qed
  qed (use assms(3) in \<open>auto simp: seal_store_def\<close>)
qed

text \<open>
  A refused address is still recorded. A write of a well-formed address to a sealed or
  active link is refused with \<open>EBUSY\<close> and the link's configuration is untouched, but the text
  is staged: reading the attribute afterwards shows the refused address, not the one in force.
\<close>

theorem refused_address_is_shown:
  assumes "cfg_sealed (fl_cfg l)" and "fl_peer_set l" and "fl_local_src_set l"
    and "tbv_cfgfs_parse_ipv4 buf = Inr addr"
  shows "\<exists>l'. local_src_ipv4_store l buf = (Inl EBUSY, l') \<and> fl_cfg l' = fl_cfg l \<and>
    local_src_ipv4_show l' = tbv_cfgfs_format_ipv4 addr"
  using assms
  by (simp add: local_src_ipv4_store_def tbv_cfgfs_apply_route_locked_def local_src_ipv4_show_def
      tbv_cfg_link_set_route_def mutable_iff)

section \<open>A concrete session\<close>

fun cfgfs_stores ::
  "string \<Rightarrow> (cfgfs_attr \<times> string) list \<Rightarrow> tbv_cfgfs_link \<times> link_registry
     \<Rightarrow> tbv_cfgfs_link \<times> link_registry" where
  "cfgfs_stores n [] s = s"
| "cfgfs_stores n ((a, buf) # bs) (l, reg) = cfgfs_stores n bs (snd (cfgfs_store a reg n l buf))"

lemma cfgfs_stores_reachable:
  "cfgfs_reachable fs \<Longrightarrow> fs_items fs n = Some l \<Longrightarrow> cfgfs_stores n bs (l, fs_reg fs) = (l', reg') \<Longrightarrow>
     cfgfs_reachable (fs\<lparr>fs_items := (fs_items fs)(n \<mapsto> l'), fs_reg := reg'\<rparr>)"
proof (induction bs arbitrary: fs l)
  case Nil
  then have "(fs_items fs)(n \<mapsto> l') = fs_items fs" "reg' = fs_reg fs" by auto
  with Nil(1) show ?case by simp
next
  case (Cons b bs)
  obtain a buf where b: "b = (a, buf)" by (cases b)
  obtain r l1 reg1 where s: "cfgfs_store a (fs_reg fs) n l buf = (r, l1, reg1)"
    by (cases "cfgfs_store a (fs_reg fs) n l buf")
  let ?fs = "fs\<lparr>fs_items := (fs_items fs)(n \<mapsto> l1), fs_reg := reg1\<rparr>"
  have "cfgfs_reachable ?fs"
    using cfgfs_reachable.step [OF Cons.prems(1) cfgfs_step.store [OF Cons.prems(2) s]] .
  moreover have "fs_items ?fs n = Some l1" by simp
  moreover have "cfgfs_stores n bs (l1, fs_reg ?fs) = (l', reg')" using Cons.prems(3) b s by simp
  ultimately have r: "cfgfs_reachable (?fs\<lparr>fs_items := (fs_items ?fs)(n \<mapsto> l'), fs_reg := reg'\<rparr>)"
    by (rule Cons.IH)
  have "?fs\<lparr>fs_items := (fs_items ?fs)(n \<mapsto> l'), fs_reg := reg'\<rparr> =
      fs\<lparr>fs_items := (fs_items fs)(n \<mapsto> l'), fs_reg := reg'\<rparr>"
    by (rule cfgfs.equality) auto
  with r show ?case by metis
qed

definition fs_demo_link :: tbv_cfgfs_link where
  "fs_demo_link = (case tbv_cfgfs_make_link True (Some ''usb4_rdma0'') 0 of Inr (l, _) \<Rightarrow> l)"

definition fs_demo_draft :: "(cfgfs_attr \<times> string) list" where
  "fs_demo_draft = [(A_backend, ''native''), (A_local_src, ''10.0.0.1''), (A_peer, ''10.0.0.2''),
     (A_gids, ''1 1 1 roce-v2 10.0.0.1'')]"

definition fs_demo :: "(cfgfs_attr \<times> string) list \<Rightarrow> cfgfs" where
  "fs_demo bs = (case cfgfs_stores ''usb4_rdma0'' bs (fs_demo_link, empty_registry) of
     (l, reg) \<Rightarrow> \<lparr>fs_items = [''usb4_rdma0'' \<mapsto> l], fs_next_link_id = 1, fs_reg = reg\<rparr>)"

lemma fs_demo_make: "tbv_cfgfs_make_link True (Some ''usb4_rdma0'') 0 = Inr (fs_demo_link, 1)"
  by code_simp

lemma fs_demo_reachable: "cfgfs_reachable (fs_demo bs)"
proof -
  obtain l reg where s: "cfgfs_stores ''usb4_rdma0'' bs (fs_demo_link, empty_registry) = (l, reg)"
    by (cases "cfgfs_stores ''usb4_rdma0'' bs (fs_demo_link, empty_registry)")
  have "cfgfs_reachable \<lparr>fs_items = [''usb4_rdma0'' \<mapsto> fs_demo_link], fs_next_link_id = 1,
      fs_reg = empty_registry\<rparr>"
    using cfgfs_reachable.step [OF cfgfs_reachable.start cfgfs_step.make [of True "''usb4_rdma0''"]]
      fs_demo_make by simp
  from cfgfs_stores_reachable [OF this, of "''usb4_rdma0''" fs_demo_link bs l reg] s
  show ?thesis by (simp add: fs_demo_def)
qed

theorem show_store_roundtrip_witness:
  "tbv_cfgfs_parse_ipv4 (tbv_cfgfs_format_ipv4 (tbv_id_addr_v4 10 0 0 1)) = Inr (tbv_id_addr_v4 10 0 0 1) \<and>
   parse_gid (format_gid (id_demo_gids ! 1)) = Inr (id_demo_gids ! 1)"
  using show_store_roundtrip [of "tbv_id_addr_v4 10 0 0 1" 24 "id_demo_gids ! 1"]
  by (auto simp: v4_addr_def id_demo_gids_def)

theorem published_iff_active_witness:
  "\<exists>c. reg_map (fs_reg (fs_demo (fs_demo_draft @ [(A_seal, ''1''), (A_activate True, ''1'')])))
     1 = Some c \<and> s_gid_type (cl_app_selection c) = TBV_ID_GID_ROCE_V2"
proof -
  let ?fs = "fs_demo (fs_demo_draft @ [(A_seal, ''1''), (A_activate True, ''1'')])"
  have "map_option (\<lambda>l. (l_state (fl_cfg l), l_link_id (fl_cfg l))) (fs_items ?fs ''usb4_rdma0'')
      = Some (TBV_CFG_ACTIVE, 1)"
    by code_simp
  then obtain l where l: "fs_items ?fs ''usb4_rdma0'' = Some l" "l_state (fl_cfg l) = TBV_CFG_ACTIVE"
    "l_link_id (fl_cfg l) = 1" by auto
  note p = published_iff_active [OF fs_demo_reachable, of "fs_demo_draft @ [(A_seal, ''1''),
    (A_activate True, ''1'')]" 1 "published_link ''usb4_rdma0'' (backend_of (fl_cfg l)) (fl_cfg l)"]
  then show ?thesis using l by blast
qed

theorem seal_store_all_or_nothing_witness:
  "\<exists>l l'. fs_items (fs_demo fs_demo_draft) ''usb4_rdma0'' = Some l \<and>
     seal_store l ''1'' = (Inr (), l') \<and> l_state (fl_cfg l') = TBV_CFG_SEALED"
proof -
  have "map_option (\<lambda>l. fst (seal_store l ''1'')) (fs_items (fs_demo fs_demo_draft) ''usb4_rdma0'')
      = Some (Inr ())" by code_simp
  then obtain l l' where l: "fs_items (fs_demo fs_demo_draft) ''usb4_rdma0'' = Some l"
    "seal_store l ''1'' = (Inr (), l')" by (auto simp: prod_eq_iff)
  from seal_store_all_or_nothing [OF fs_demo_reachable this] l show ?thesis by auto
qed

theorem refused_address_is_shown_witness:
  "\<exists>l l'. fs_items (fs_demo (fs_demo_draft @ [(A_seal, ''1'')])) ''usb4_rdma0'' = Some l \<and>
     local_src_ipv4_store l ''10.0.0.9'' = (Inl EBUSY, l') \<and>
     local_src_ipv4_show l' = ''10.0.0.9'' @ newline"
proof -
  let ?fs = "fs_demo (fs_demo_draft @ [(A_seal, ''1'')])"
  have "map_option (\<lambda>l. (l_state (fl_cfg l), fl_peer_set l, fl_local_src_set l))
      (fs_items ?fs ''usb4_rdma0'') = Some (TBV_CFG_SEALED, True, True)" by code_simp
  then obtain l where l: "fs_items ?fs ''usb4_rdma0'' = Some l" "cfg_sealed (fl_cfg l)" "fl_peer_set l"
    "fl_local_src_set l" by (auto simp: cfg_sealed_def)
  have a: "tbv_cfgfs_parse_ipv4 ''10.0.0.9'' = Inr (tbv_id_addr_v4 10 0 0 9)" by code_simp
  have "tbv_cfgfs_format_ipv4 (tbv_id_addr_v4 10 0 0 9) = ''10.0.0.9'' @ newline" by code_simp
  with refused_address_is_shown [OF l(2-4) a] l(1) show ?thesis by auto
qed

end
