(* ===== verification/Path.thy ===== *)
theory Path
  imports Native_Data Profile
begin

text \<open>
  The state of a data path, \<^verbatim>\<open>src/kernel/path.c\<close> and \<^verbatim>\<open>struct tbv_path\<close> of \<^verbatim>\<open>src/kernel/tbv.h\<close>:
  its record, the packets it queues, the limits it derives from its configuration, the
  window of receive credits, the bookkeeping of raw streams and the admission of sends.

  Two fields of the record stand for what is outside the file. \<open>p_ring\<close> is the list of
  descriptors handed to the transmit ring and not yet retired, oldest first: the contents of
  the kernel's \<^verbatim>\<open>struct tb_ring\<close>. \<open>p_log\<close> is the history of what a client or the hardware sees:
  packets accepted into a queue, frames the ring accepted, completion callbacks, packets
  released, frames given to the verbs layer. Statistics of
  \<^verbatim>\<open>struct tbv_state\<close>, wake-ups, the pollers and log messages are not modelled.
\<close>

section \<open>Constants\<close>

abbreviation TBV_NATIVE_RING_SIZE :: u32 where "TBV_NATIVE_RING_SIZE \<equiv> 4096"
abbreviation TBV_APPLE_RING_SIZE :: u32 where "TBV_APPLE_RING_SIZE \<equiv> 1024"
abbreviation TBV_DATA_FRAME_SIZE :: u32 where "TBV_DATA_FRAME_SIZE \<equiv> 4096"
abbreviation TBV_CONTROL_FRAME_SIZE :: u32 where "TBV_CONTROL_FRAME_SIZE \<equiv> 256"
abbreviation TBV_CONTROL_QUEUE_MULTIPLIER :: u32 where "TBV_CONTROL_QUEUE_MULTIPLIER \<equiv> 4"
abbreviation TBV_DATA_CREDIT_CONTROL_RESERVE :: u32 where "TBV_DATA_CREDIT_CONTROL_RESERVE \<equiv> 256"
abbreviation TBV_DATA_TX_MAX_INFLIGHT :: u32 where "TBV_DATA_TX_MAX_INFLIGHT \<equiv> 32"
abbreviation TBV_DATA_QUEUE_MULTIPLIER :: u32 where "TBV_DATA_QUEUE_MULTIPLIER \<equiv> 64"
abbreviation TBV_DATA_PACKET_POOL_LIMIT :: u32 where "TBV_DATA_PACKET_POOL_LIMIT \<equiv> 1024"
abbreviation TBV_DATA_PDF_FRAME_START :: u8 where "TBV_DATA_PDF_FRAME_START \<equiv> 1"
abbreviation TBV_DATA_PDF_FRAME_END :: u8 where "TBV_DATA_PDF_FRAME_END \<equiv> 3"

section \<open>Data\<close>

datatype tbv_path_state =
    TBV_PATH_NEW | TBV_PATH_RING_ALLOCATED | TBV_PATH_RING_STARTED
  | TBV_PATH_TUNNEL_ENABLED | TBV_PATH_STOPPED

text \<open>The kernel's ring flags, of which the code only sets and tests these two.\<close>

datatype ring_flag = RING_FLAG_FRAME | RING_FLAG_E2E

record tbv_path_config =
  pc_tx_ring_size :: u32
  pc_rx_ring_size :: u32
  pc_tx_flags :: "ring_flag list"
  pc_rx_flags :: "ring_flag list"
  pc_tx_hop :: int
  pc_rx_hop :: int
  pc_transmit_path :: int
  pc_receive_path :: int
  pc_sof_mask :: u16
  pc_eof_mask :: u16
  pc_e2e :: bool

text \<open>
  A packet waiting for, or owned by, the transmit ring. \<open>pk_addr\<close> is its address; callbacks
  and contexts are addresses too.
\<close>

record tbv_tx_packet =
  pk_addr :: nat
  pk_buf :: "u8 list"
  pk_len :: u32
  pk_dma :: u64
  pk_done :: "nat ptr"
  pk_done_ctx :: "nat ptr"
  pk_owner_ctx :: "nat ptr"
  pk_sof :: u8
  pk_eof :: u8
  pk_start_credit_group_frames :: u32
  pk_control :: bool
  pk_pooled :: bool
  pk_queued :: bool
  pk_inflight :: bool
  pk_zcopy :: bool
  pk_unmap_dma :: bool
  pk_raw_stream_start :: bool
  pk_raw_stream_end :: bool
  pk_raw_stream_counted :: bool
  pk_canceled :: bool

text \<open>The observations the log records.\<close>

datatype path_event =
    Enqueued tbv_tx_packet
  | Posted tbv_tx_packet
  | Done nat "nat ptr" "errno ptr"
  | Released tbv_tx_packet "errno ptr"
  | Rx_native tbv_native_data_header "u8 list"
  | Rx_frame "u8 list"
  | Rx_apple "u8 list" u8 u8

record tbv_path =
  p_state :: tbv_path_state
  p_cfg :: tbv_path_config
  p_backend :: "tbv_backend_type ptr"
  p_tx_frame_count :: u32
  p_rx_frame_count :: u32
  p_tx_control_queued :: u32
  p_tx_data_queued :: u32
  p_tx_data_reserved :: u32
  p_tx_data_queue_limit :: u32
  p_tx_remote_data_credits :: u32
  p_tx_remote_data_credit_max :: u32
  p_rx_data_credit_pending :: u32
  p_tx_free :: "nat list"
  p_tx_control_free :: "tbv_tx_packet list"
  p_tx_data_free :: "tbv_tx_packet list"
  p_tx_control_queue :: "tbv_tx_packet list"
  p_tx_data_queue :: "tbv_tx_packet list"
  p_tx_inflight :: u32
  p_data_tx_enqueued :: u64
  p_data_tx_posted :: u64
  p_data_tx_completed :: u64
  p_data_tx_canceled :: u64
  p_control_tx_enqueued :: u64
  p_control_tx_posted :: u64
  p_control_tx_completed :: u64
  p_data_tx_credit_stalls :: u64
  p_data_tx_credit_received :: u64
  p_data_rx_completed :: u64
  p_data_rx_canceled :: u64
  p_data_rx_credit_sent :: u64
  p_data_rx_credit_send_error :: u64
  p_data_rx_repost_failed :: u64
  p_rx_raw_opcode :: u8
  p_rx_raw_flags :: u8
  p_rx_raw_dest_qp :: u32
  p_rx_raw_src_qp :: u32
  p_rx_raw_psn :: u32
  p_rx_raw_imm_data :: u32
  p_rx_raw_rkey :: u32
  p_rx_raw_done :: u32
  p_rx_raw_remaining :: u32
  p_rx_raw_base :: u64
  p_rx_raw_pending :: bool
  p_tx_scheduling :: bool
  p_tx_closed :: bool
  p_tx_raw_stream_active :: bool
  p_tx_raw_stream_end_seen :: bool
  p_tx_raw_stream_inflight :: u32
  p_tx_raw_stream_owner :: "nat ptr"
  p_local_transmit_path :: int
  p_local_tx_hop :: int
  p_local_rx_hop :: int
  p_remote_transmit_path :: int
  p_ring :: "(nat ptr \<times> tbv_tx_packet) list"
  p_log :: "path_event list"

text \<open>Appends an observation to the log.\<close>

definition emit :: "path_event \<Rightarrow> tbv_path \<Rightarrow> tbv_path" where
  "emit e path = path\<lparr>p_log := p_log path @ [e]\<rparr>"

section \<open>Limits\<close>

text \<open>The kernel's \<open>clamp\<close>: the upper bound wins when the bounds cross.\<close>

definition clamp_u32 :: "u32 \<Rightarrow> u32 \<Rightarrow> u32 \<Rightarrow> u32" where
  "clamp_u32 v lo hi = (if v \<ge> hi then hi else if v \<le> lo then lo else v)"

definition tbv_frame_len :: "u32 \<Rightarrow> u32" where
  "tbv_frame_len frame_size = (if frame_size \<noteq> 0 then frame_size else TBV_DATA_FRAME_SIZE)"

definition tbv_path_control_packet_count :: "tbv_path \<Rightarrow> u32" where
  "tbv_path_control_packet_count path =
     clamp_u32 (pc_tx_ring_size (p_cfg path) * TBV_CONTROL_QUEUE_MULTIPLIER) 64 4096"

text \<open>\<open>native_tx_max_inflight\<close> is a module parameter.\<close>

definition tbv_path_tx_inflight_limit :: "u32 \<Rightarrow> tbv_path \<Rightarrow> u32" where
  "tbv_path_tx_inflight_limit native_tx_max_inflight path =
     (let limit = (if p_backend path = Some TBV_BACKEND_NATIVE then native_tx_max_inflight
                   else TBV_DATA_TX_MAX_INFLIGHT)
      in if limit = 0 then 0 else clamp_u32 limit 1 (pc_tx_ring_size (p_cfg path)))"

definition tbv_path_data_packet_count :: "tbv_path \<Rightarrow> u32" where
  "tbv_path_data_packet_count path =
     min (pc_tx_ring_size (p_cfg path) * TBV_DATA_QUEUE_MULTIPLIER) TBV_DATA_PACKET_POOL_LIMIT"

definition tbv_path_tx_control_frame_reserve :: "tbv_path \<Rightarrow> u32" where
  "tbv_path_tx_control_frame_reserve path =
     (if p_tx_frame_count path \<le> 1 then 0
      else clamp_u32 (p_tx_frame_count path div 4) 1 TBV_DATA_CREDIT_CONTROL_RESERVE)"

definition tbv_path_data_credit_window :: "u32 \<Rightarrow> u32" where
  "tbv_path_data_credit_window rx_ring_size =
     (if rx_ring_size = 0 then 0
      else
        (let credits = (if rx_ring_size \<le> TBV_DATA_CREDIT_CONTROL_RESERVE then rx_ring_size div 2
                        else rx_ring_size - TBV_DATA_CREDIT_CONTROL_RESERVE);
             credits = (if credits > TBV_NATIVE_DATA_CREDIT_BATCH
                        then credits - credits mod TBV_NATIVE_DATA_CREDIT_BATCH else credits)
         in if credits = 0 then 1 else credits))"

definition tbv_native_data_consumes_rx_credit :: "u8 \<Rightarrow> bool" where
  "tbv_native_data_consumes_rx_credit opcode \<longleftrightarrow>
     opcode = TBV_NATIVE_DATA_OP_SEND \<or> opcode = TBV_NATIVE_DATA_OP_SEND_IMM
     \<or> opcode = TBV_NATIVE_DATA_OP_RDMA_WRITE \<or> opcode = TBV_NATIVE_DATA_OP_RDMA_WRITE_IMM
     \<or> opcode = TBV_NATIVE_DATA_OP_RDMA_READ_REQ \<or> opcode = TBV_NATIVE_DATA_OP_RDMA_READ_RESP
     \<or> opcode = TBV_NATIVE_DATA_OP_MAD"

definition tbv_native_data_valid_path_credit :: "tbv_native_data_header \<Rightarrow> bool" where
  "tbv_native_data_valid_path_credit hdr \<longleftrightarrow>
     d_opcode hdr = TBV_NATIVE_DATA_OP_PATH_CREDIT \<and> d_imm_data hdr \<noteq> 0 \<and> d_flags hdr = 0
     \<and> d_dest_qp hdr = 0 \<and> d_src_qp hdr = 0 \<and> d_psn hdr = 0 \<and> d_length hdr = 0
     \<and> d_remote_addr hdr = 0 \<and> d_rkey hdr = 0"

section \<open>Configuration and reset\<close>

text \<open>
  The module parameter \<open>apple_rx_raw_mode\<close> is read and ignored, so
  \<open>tbv_path_apple_rx_raw_mode\<close> is always false; \<open>apple_tx_raw_mode\<close> and \<open>apple_tx_e2e\<close> are
  arguments.
\<close>

definition tbv_path_apple_rx_raw_mode :: "bool \<Rightarrow> bool" where
  "tbv_path_apple_rx_raw_mode apple_rx_raw_mode = False"

definition tbv_path_default_config ::
  "bool \<Rightarrow> bool \<Rightarrow> bool \<Rightarrow> tbv_backend_type \<Rightarrow> tbv_path_config" where
  "tbv_path_default_config apple_tx_raw_mode apple_rx_raw_mode apple_tx_e2e backend =
     (case backend of
        TBV_BACKEND_APPLE \<Rightarrow>
          \<lparr>pc_tx_ring_size = TBV_APPLE_RING_SIZE, pc_rx_ring_size = TBV_APPLE_RING_SIZE,
           pc_tx_flags = (if \<not> apple_tx_raw_mode then [RING_FLAG_FRAME] else [])
             @ (if apple_tx_e2e then [RING_FLAG_E2E] else []),
           pc_rx_flags = [RING_FLAG_E2E]
             @ (if \<not> tbv_path_apple_rx_raw_mode apple_rx_raw_mode then [RING_FLAG_FRAME] else []),
           pc_tx_hop = 2, pc_rx_hop = 2, pc_transmit_path = 9, pc_receive_path = 9,
           pc_sof_mask = (if tbv_path_apple_rx_raw_mode apple_rx_raw_mode then 0xffff else 2),
           pc_eof_mask = (if tbv_path_apple_rx_raw_mode apple_rx_raw_mode then 0xffff else 12),
           pc_e2e = True\<rparr>
      | _ \<Rightarrow>
          \<lparr>pc_tx_ring_size = TBV_NATIVE_RING_SIZE, pc_rx_ring_size = TBV_NATIVE_RING_SIZE,
           pc_tx_flags = [RING_FLAG_FRAME], pc_rx_flags = [RING_FLAG_FRAME],
           pc_tx_hop = - 1, pc_rx_hop = - 1, pc_transmit_path = - 1, pc_receive_path = - 1,
           pc_sof_mask = 2, pc_eof_mask = 12, pc_e2e = False\<rparr>)"

definition zero_path_config :: tbv_path_config where
  "zero_path_config =
     \<lparr>pc_tx_ring_size = 0, pc_rx_ring_size = 0, pc_tx_flags = [], pc_rx_flags = [],
      pc_tx_hop = 0, pc_rx_hop = 0, pc_transmit_path = 0, pc_receive_path = 0,
      pc_sof_mask = 0, pc_eof_mask = 0, pc_e2e = False\<rparr>"

text \<open>
  The record after \<open>memset\<close> and \<open>tbv_path_init_common\<close>: lists empty, counters zero, path
  numbers -1. The two observation fields start empty.
\<close>

definition tbv_path_init_common ::
  "tbv_path_state \<Rightarrow> tbv_path_config \<Rightarrow> tbv_backend_type ptr \<Rightarrow> tbv_path" where
  "tbv_path_init_common state cfg backend =
     \<lparr>p_state = state, p_cfg = cfg, p_backend = backend,
      p_tx_frame_count = 0, p_rx_frame_count = 0, p_tx_control_queued = 0, p_tx_data_queued = 0,
      p_tx_data_reserved = 0, p_tx_data_queue_limit = 0, p_tx_remote_data_credits = 0,
      p_tx_remote_data_credit_max = 0, p_rx_data_credit_pending = 0, p_tx_free = [],
      p_tx_control_free = [], p_tx_data_free = [], p_tx_control_queue = [],
      p_tx_data_queue = [], p_tx_inflight = 0, p_data_tx_enqueued = 0, p_data_tx_posted = 0,
      p_data_tx_completed = 0, p_data_tx_canceled = 0, p_control_tx_enqueued = 0,
      p_control_tx_posted = 0, p_control_tx_completed = 0, p_data_tx_credit_stalls = 0,
      p_data_tx_credit_received = 0, p_data_rx_completed = 0, p_data_rx_canceled = 0,
      p_data_rx_credit_sent = 0, p_data_rx_credit_send_error = 0, p_data_rx_repost_failed = 0,
      p_rx_raw_opcode = 0, p_rx_raw_flags = 0, p_rx_raw_dest_qp = 0, p_rx_raw_src_qp = 0,
      p_rx_raw_psn = 0, p_rx_raw_imm_data = 0, p_rx_raw_rkey = 0, p_rx_raw_done = 0,
      p_rx_raw_remaining = 0, p_rx_raw_base = 0, p_rx_raw_pending = False,
      p_tx_scheduling = False, p_tx_closed = False, p_tx_raw_stream_active = False,
      p_tx_raw_stream_end_seen = False, p_tx_raw_stream_inflight = 0,
      p_tx_raw_stream_owner = None, p_local_transmit_path = - 1, p_local_tx_hop = - 1,
      p_local_rx_hop = - 1, p_remote_transmit_path = - 1, p_ring = [], p_log = []\<rparr>"

definition tbv_path_init :: "tbv_path_config \<Rightarrow> tbv_backend_type ptr \<Rightarrow> tbv_path" where
  "tbv_path_init cfg backend = tbv_path_init_common TBV_PATH_NEW cfg backend"

definition tbv_path_reset :: "tbv_path \<Rightarrow> tbv_path" where
  "tbv_path_reset path = tbv_path_init_common TBV_PATH_STOPPED zero_path_config None"

definition tbv_path_state_name :: "tbv_path_state \<Rightarrow> string" where
  "tbv_path_state_name state =
     (case state of
        TBV_PATH_NEW \<Rightarrow> ''new''
      | TBV_PATH_RING_ALLOCATED \<Rightarrow> ''ring_allocated''
      | TBV_PATH_RING_STARTED \<Rightarrow> ''ring_started''
      | TBV_PATH_TUNNEL_ENABLED \<Rightarrow> ''tunnel_enabled''
      | TBV_PATH_STOPPED \<Rightarrow> ''stopped'')"

section \<open>Admission and raw stream bookkeeping\<close>

definition tbv_path_tx_admits_locked :: "tbv_path \<Rightarrow> bool" where
  "tbv_path_tx_admits_locked path \<longleftrightarrow> p_state path = TBV_PATH_TUNNEL_ENABLED \<and> \<not> p_tx_closed path"

definition tbv_path_count_raw_stream_locked ::
  "tbv_path \<Rightarrow> tbv_tx_packet \<Rightarrow> tbv_path \<times> tbv_tx_packet" where
  "tbv_path_count_raw_stream_locked path packet =
     (let path = (if pk_raw_stream_start packet
                  then path\<lparr>p_tx_raw_stream_active := True,
                            p_tx_raw_stream_owner := pk_owner_ctx packet,
                            p_tx_raw_stream_inflight := 0,
                            p_tx_raw_stream_end_seen := False\<rparr>
                  else path)
      in if p_tx_raw_stream_active path \<and> pk_owner_ctx packet = p_tx_raw_stream_owner path
         then (path\<lparr>p_tx_raw_stream_inflight := p_tx_raw_stream_inflight path + 1\<rparr>,
               packet\<lparr>pk_raw_stream_counted := True\<rparr>)
         else (path, packet))"

text \<open>The stream fields as they are when no stream is active.\<close>

definition clear_raw_stream :: "tbv_path \<Rightarrow> tbv_path" where
  "clear_raw_stream path =
     path\<lparr>p_tx_raw_stream_active := False, p_tx_raw_stream_owner := None,
          p_tx_raw_stream_end_seen := False, p_tx_raw_stream_inflight := 0\<rparr>"

definition finish_raw_stream_locked :: "tbv_path \<Rightarrow> tbv_tx_packet \<Rightarrow> tbv_path" where
  "finish_raw_stream_locked path packet =
     (let path =
            (if p_tx_raw_stream_owner path = pk_owner_ctx packet
             then
               (let path = (if pk_raw_stream_end packet
                            then path\<lparr>p_tx_raw_stream_end_seen := True\<rparr> else path);
                    path = (if p_tx_raw_stream_inflight path \<noteq> 0
                            then path\<lparr>p_tx_raw_stream_inflight :=
                                        p_tx_raw_stream_inflight path - 1\<rparr>
                            else path)
                in if p_tx_raw_stream_end_seen path \<and> p_tx_raw_stream_inflight path = 0
                   then path\<lparr>p_tx_raw_stream_active := False, p_tx_raw_stream_owner := None,
                             p_tx_raw_stream_end_seen := False\<rparr>
                   else path)
             else path)
      in if \<not> p_tx_raw_stream_active path then clear_raw_stream path else path)"

definition tbv_path_finish_raw_stream_if_needed ::
  "tbv_path \<Rightarrow> tbv_tx_packet \<Rightarrow> tbv_path \<times> tbv_tx_packet" where
  "tbv_path_finish_raw_stream_if_needed path packet =
     (if \<not> pk_raw_stream_counted packet then (path, packet)
      else (finish_raw_stream_locked path packet, packet\<lparr>pk_raw_stream_counted := False\<rparr>))"

section \<open>Facts on the limits\<close>

lemma clamp_bounds: "lo \<le> hi \<Longrightarrow> lo \<le> clamp_u32 v lo hi \<and> clamp_u32 v lo hi \<le> hi"
  by (auto simp: clamp_u32_def)

text \<open>
  The window: never zero for a usable ring, always smaller than the ring (from two frames on),
  and with room for the reserved control frames above 256.
\<close>

lemma credit_window_pos: "rx_ring_size \<noteq> 0 \<Longrightarrow> tbv_path_data_credit_window rx_ring_size \<noteq> 0"
  by (auto simp: tbv_path_data_credit_window_def Let_def)

lemma credit_window_le_half:
  assumes "1 < n" and "n \<le> 256"
  shows "tbv_path_data_credit_window n = n div 2"
proof -
  have u: "1 < unat n" "unat n \<le> 256"
    using assms by (simp_all add: word_less_nat_alt word_le_nat_alt)
  have d: "unat (n div 2) = unat n div 2" by (simp add: unat_div)
  have "0 < unat (n div 2)" using u by (simp add: d div_greater_zero_iff)
  then have "n div 2 \<noteq> 0" by (simp add: unat_gt_0)
  moreover have "\<not> n div 2 > 256" using u d by (simp add: word_less_nat_alt)
  moreover have "n \<noteq> 0" using u by auto
  ultimately show ?thesis
    unfolding tbv_path_data_credit_window_def Let_def by (simp only: assms if_True if_False)
qed

lemma credit_window_large:
  assumes "256 < n"
  shows "unat (tbv_path_data_credit_window n) + 256 \<le> unat n"
proof -
  have u: "256 < unat n" using assms by (simp add: word_less_nat_alt)
  have s: "unat (n - 256) = unat n - 256"
    using u by (subst unat_sub) (simp_all add: word_le_nat_alt)
  have le: "unat (n - 256 - (n - 256) mod 256) \<le> unat n - 256"
    using s by (subst unat_sub) (simp_all add: word_le_nat_alt unat_mod)
  have nz: "n - 256 - (n - 256) mod 256 \<noteq> 0" if "n - 256 > 256"
  proof -
    have "(n - 256) mod 256 < 256" by (rule word_mod_less_divisor) simp
    then show ?thesis using that by force
  qed
  have "n \<noteq> 0" "\<not> n \<le> 256" "n - 256 \<noteq> 0" using assms s u by auto
  then show ?thesis
    using le nz s u by (auto simp: tbv_path_data_credit_window_def Let_def)
qed

end
