(* ===== verification/Path_Tx.thy ===== *)
theory Path_Tx
  imports Path "HOL-Library.Multiset" "HOL-Library.Sublist"
begin

text \<open>
  The transmit side of a path: the queues, reservations, the scheduler and the retirement of
  descriptors (\<^verbatim>\<open>src/kernel/path.c\<close>, from \<open>tbv_path_tx_packet_release\<close> to
  \<open>tbv_path_send_marked_owned\<close>, and the cancellations).

  The C functions take the lock \<open>tx_lock\<close> around each access of the queues and release it
  around the call of \<open>tb_ring_tx\<close>, so other threads run between the choice of a packet and the
  answer of the ring. The scheduler is therefore defined in two parts, \<open>tx_pick\<close> (the locked
  part of one round) and \<open>tx_post\<close> (the round's end, with the answer of the ring as argument).
  \<open>tbv_path_schedule_tx\<close> composes them as the code does when nothing interferes; \<open>tx_step\<close>
  interleaves the locked sections of all functions, with at most one packet in the hands of
  the scheduler.
\<close>

section \<open>Release of a packet\<close>

definition tbv_path_tx_packet_release :: "tbv_tx_packet \<Rightarrow> errno ptr \<Rightarrow> tbv_path \<Rightarrow> tbv_path" where
  "tbv_path_tx_packet_release packet status path =
     (let path = (case pk_done packet of
                    None \<Rightarrow> path
                  | Some done \<Rightarrow> emit (Done done (pk_done_ctx packet) status) path);
          path = emit (Released packet status) path;
          packet = packet\<lparr>pk_done := None, pk_done_ctx := None, pk_owner_ctx := None, pk_len := 0,
                          pk_start_credit_group_frames := 0, pk_queued := False,
                          pk_inflight := False\<rparr>
      in if pk_zcopy packet then path
         else if \<not> pk_control packet \<and> pk_pooled packet
         then path\<lparr>p_tx_data_free := p_tx_data_free path @ [packet]\<rparr>
         else if \<not> pk_control packet then path
         else if \<not> pk_pooled packet then path
         else path\<lparr>p_tx_control_free := p_tx_control_free path @ [packet]\<rparr>)"

section \<open>One round of the scheduler\<close>

text \<open>
  The packet a round takes, whether it comes from the control queue and whether it needs a
  staging frame. While a raw stream is active only its owner's zero-copy frames may go.
\<close>

definition tx_select :: "tbv_path \<Rightarrow> (tbv_tx_packet \<times> bool \<times> bool) option" where
  "tx_select path =
     (if \<not> tbv_path_tx_admits_locked path
         \<or> (p_tx_control_queue path = [] \<and> p_tx_data_queue path = []) then None
      else if p_tx_raw_stream_active path then
        (case p_tx_data_queue path of
           [] \<Rightarrow> None
         | packet # _ \<Rightarrow>
             if \<not> pk_zcopy packet \<or> pk_raw_stream_start packet
                \<or> pk_owner_ctx packet \<noteq> p_tx_raw_stream_owner path then None
             else Some (packet, False, False))
      else
        (case p_tx_control_queue path of
           packet # _ \<Rightarrow> Some (packet, True, True)
         | [] \<Rightarrow>
             (case p_tx_data_queue path of
                [] \<Rightarrow> None
              | packet # _ \<Rightarrow> Some (packet, False, \<not> pk_zcopy packet))))"

text \<open>The limits on descriptors in flight and on staging frames.\<close>

definition tx_has_room :: "u32 \<Rightarrow> tbv_path \<Rightarrow> bool \<Rightarrow> bool \<Rightarrow> bool" where
  "tx_has_room nmax path from_control needs_staging =
     (let limit = tbv_path_tx_inflight_limit nmax path;
          reserve = tbv_path_tx_control_frame_reserve path;
          inflight = p_tx_inflight path;
          available = (if p_tx_frame_count path > inflight
                       then p_tx_frame_count path - inflight else 0)
      in if \<not> from_control \<and> limit \<noteq> 0 \<and> inflight \<ge> limit then False
         else if needs_staging \<and> p_tx_free path = [] then False
         else if needs_staging \<and> \<not> from_control \<and> available \<le> reserve then False
         else True)"

text \<open>What the scheduler holds while it calls the ring.\<close>

record tx_hand =
  h_packet :: tbv_tx_packet
  h_frame :: "nat ptr"
  h_old_raw_stream_active :: bool
  h_old_raw_stream_owner :: "nat ptr"
  h_old_raw_stream_end_seen :: bool
  h_old_raw_stream_inflight :: u32
  h_charged_data_credit :: bool
  h_old_start_credit_group_frames :: u32

text \<open>The packet and the path after the credit check: the packet leaves its queue.\<close>

definition tx_take ::
  "tbv_path \<Rightarrow> tbv_tx_packet \<Rightarrow> bool \<Rightarrow> bool \<Rightarrow> bool \<Rightarrow> tbv_path \<times> tx_hand" where
  "tx_take path packet from_control needs_staging charged =
     (let old_group = pk_start_credit_group_frames packet;
          path = (if charged then path\<lparr>p_tx_remote_data_credits := p_tx_remote_data_credits path - 1\<rparr>
                  else path);
          packet = packet\<lparr>pk_start_credit_group_frames := 0\<rparr>;
          path = (if from_control
                  then path\<lparr>p_tx_control_queued := p_tx_control_queued path - 1,
                            p_tx_control_queue := tl (p_tx_control_queue path)\<rparr>
                  else path\<lparr>p_tx_data_queued := p_tx_data_queued path - 1,
                            p_tx_data_queue := tl (p_tx_data_queue path)\<rparr>);
          packet = packet\<lparr>pk_queued := False\<rparr>;
          old_active = p_tx_raw_stream_active path;
          old_owner = p_tx_raw_stream_owner path;
          old_end_seen = p_tx_raw_stream_end_seen path;
          old_inflight = p_tx_raw_stream_inflight path;
          (path, packet) = tbv_path_count_raw_stream_locked path packet;
          f = (if needs_staging then Some (hd (p_tx_free path)) else None);
          path = (if needs_staging then path\<lparr>p_tx_free := tl (p_tx_free path)\<rparr> else path);
          path = path\<lparr>p_tx_inflight := p_tx_inflight path + 1\<rparr>
      in (path, \<lparr>h_packet = packet, h_frame = f, h_old_raw_stream_active = old_active,
                 h_old_raw_stream_owner = old_owner, h_old_raw_stream_end_seen = old_end_seen,
                 h_old_raw_stream_inflight = old_inflight, h_charged_data_credit = charged,
                 h_old_start_credit_group_frames = old_group\<rparr>))"

definition tx_pick :: "u32 \<Rightarrow> tbv_path \<Rightarrow> tbv_path \<times> tx_hand option" where
  "tx_pick nmax path =
     (case tx_select path of
        None \<Rightarrow> (path\<lparr>p_tx_scheduling := False\<rparr>, None)
      | Some (packet, from_control, needs_staging) \<Rightarrow>
          if \<not> tx_has_room nmax path from_control needs_staging
          then (path\<lparr>p_tx_scheduling := False\<rparr>, None)
          else
            (let charge = (\<not> pk_control packet \<and> p_tx_remote_data_credit_max path \<noteq> 0);
                 required = tbv_native_data_start_credit_required
                   (pk_start_credit_group_frames packet) (p_tx_remote_data_credit_max path)
             in if charge \<and> p_tx_remote_data_credits path < max 1 required
                then (path\<lparr>p_data_tx_credit_stalls := p_data_tx_credit_stalls path + 1,
                           p_tx_scheduling := False\<rparr>, None)
                else map_prod id Some (tx_take path packet from_control needs_staging charge)))"

text \<open>The ring accepted the frame: the loop goes on.\<close>

definition tx_posted :: "tbv_path \<Rightarrow> tx_hand \<Rightarrow> tbv_path" where
  "tx_posted path h =
     (let packet = (h_packet h)\<lparr>pk_inflight := pk_zcopy (h_packet h)\<rparr>;
          path = path\<lparr>p_ring := p_ring path @ [(h_frame h, packet)]\<rparr>;
          path = (if pk_control packet \<and> \<not> pk_zcopy packet
                  then path\<lparr>p_control_tx_posted := p_control_tx_posted path + 1\<rparr>
                  else path\<lparr>p_data_tx_posted := p_data_tx_posted path + 1\<rparr>)
      in emit (Posted packet) path)"

text \<open>
  The ring refused the frame with the error \<open>e\<close>: the staging frame, the stream fields and the
  credit are given back; the packet returns to the head of its queue when the ring was only
  full, and is released otherwise. The loop ends.
\<close>

definition tx_refused :: "errno \<Rightarrow> tbv_path \<Rightarrow> tx_hand \<Rightarrow> tbv_path" where
  "tx_refused e path h =
     (let packet = (h_packet h)\<lparr>pk_inflight := False, pk_raw_stream_counted := False\<rparr>;
          path = (case h_frame h of
                    None \<Rightarrow> path
                  | Some f \<Rightarrow> path\<lparr>p_tx_free := p_tx_free path @ [f]\<rparr>);
          path = path\<lparr>p_tx_raw_stream_active := h_old_raw_stream_active h,
                      p_tx_raw_stream_owner := h_old_raw_stream_owner h,
                      p_tx_raw_stream_end_seen := h_old_raw_stream_end_seen h,
                      p_tx_raw_stream_inflight := h_old_raw_stream_inflight h\<rparr>;
          path = (if h_charged_data_credit h
                     \<and> p_tx_remote_data_credits path < p_tx_remote_data_credit_max path
                  then path\<lparr>p_tx_remote_data_credits := p_tx_remote_data_credits path + 1\<rparr>
                  else path);
          back = packet\<lparr>pk_queued := True,
                        pk_start_credit_group_frames := h_old_start_credit_group_frames h\<rparr>;
          path =
            (if e = ENOMEM \<and> p_state path = TBV_PATH_TUNNEL_ENABLED
                \<and> (\<not> pk_zcopy packet \<and> pk_control packet
                   \<or> pk_done packet \<noteq> None \<or> pk_owner_ctx packet \<noteq> None)
             then
               (if \<not> pk_zcopy packet \<and> pk_control packet
                then path\<lparr>p_tx_control_queue := packet\<lparr>pk_queued := True\<rparr> # p_tx_control_queue path,
                          p_tx_control_queued := p_tx_control_queued path + 1\<rparr>
                else path\<lparr>p_tx_data_queue := back # p_tx_data_queue path,
                          p_tx_data_queued := p_tx_data_queued path + 1\<rparr>)
             else (case tbv_path_finish_raw_stream_if_needed path packet of
                     (path, packet) \<Rightarrow> tbv_path_tx_packet_release packet (Some e) path))
      in path\<lparr>p_tx_inflight := p_tx_inflight path - 1, p_tx_scheduling := False\<rparr>)"

section \<open>The scheduler\<close>

text \<open>
  The environment of the transmit functions: the module parameter, and the answer of
  \<open>tb_ring_tx\<close> for a packet. Within one call of the scheduler a packet is offered once.
\<close>

record tx_env =
  e_native_tx_max_inflight :: u32
  e_ring_tx :: "tbv_tx_packet \<Rightarrow> unit res"

abbreviation backlog :: "tbv_path \<Rightarrow> nat" where
  "backlog path \<equiv> length (p_tx_control_queue path) + length (p_tx_data_queue path)"

text \<open>The effect of taking a packet, field by field.\<close>

definition joins_stream :: "tbv_path \<Rightarrow> tbv_tx_packet \<Rightarrow> bool" where
  "joins_stream path packet \<longleftrightarrow>
     pk_raw_stream_start packet
     \<or> (p_tx_raw_stream_active path \<and> pk_owner_ctx packet = p_tx_raw_stream_owner path)"

lemma count_raw_stream_eq:
  "tbv_path_count_raw_stream_locked path packet =
     (path\<lparr>p_tx_raw_stream_active := p_tx_raw_stream_active path \<or> pk_raw_stream_start packet,
           p_tx_raw_stream_owner := (if pk_raw_stream_start packet then pk_owner_ctx packet
                                     else p_tx_raw_stream_owner path),
           p_tx_raw_stream_end_seen := p_tx_raw_stream_end_seen path \<and> \<not> pk_raw_stream_start packet,
           p_tx_raw_stream_inflight :=
             (if pk_raw_stream_start packet then 0 else p_tx_raw_stream_inflight path)
             + (if joins_stream path packet then 1 else 0)\<rparr>,
      packet\<lparr>pk_raw_stream_counted := joins_stream path packet \<or> pk_raw_stream_counted packet\<rparr>)"
  by (auto simp: tbv_path_count_raw_stream_locked_def joins_stream_def Let_def
      intro!: tbv_tx_packet.equality)

lemma tx_take_eq:
  "tx_take path packet fc ns ch =
     (path\<lparr>p_tx_remote_data_credits := p_tx_remote_data_credits path - (if ch then 1 else 0),
           p_tx_control_queued := p_tx_control_queued path - (if fc then 1 else 0),
           p_tx_control_queue := (if fc then tl (p_tx_control_queue path)
                                  else p_tx_control_queue path),
           p_tx_data_queued := p_tx_data_queued path - (if fc then 0 else 1),
           p_tx_data_queue := (if fc then p_tx_data_queue path else tl (p_tx_data_queue path)),
           p_tx_raw_stream_active := p_tx_raw_stream_active path \<or> pk_raw_stream_start packet,
           p_tx_raw_stream_owner := (if pk_raw_stream_start packet then pk_owner_ctx packet
                                     else p_tx_raw_stream_owner path),
           p_tx_raw_stream_end_seen := p_tx_raw_stream_end_seen path \<and> \<not> pk_raw_stream_start packet,
           p_tx_raw_stream_inflight :=
             (if pk_raw_stream_start packet then 0 else p_tx_raw_stream_inflight path)
             + (if joins_stream path packet then 1 else 0),
           p_tx_free := (if ns then tl (p_tx_free path) else p_tx_free path),
           p_tx_inflight := p_tx_inflight path + 1\<rparr>,
      \<lparr>h_packet = packet\<lparr>pk_start_credit_group_frames := 0, pk_queued := False,
         pk_raw_stream_counted := joins_stream path packet \<or> pk_raw_stream_counted packet\<rparr>,
       h_frame = (if ns then Some (hd (p_tx_free path)) else None),
       h_old_raw_stream_active = p_tx_raw_stream_active path,
       h_old_raw_stream_owner = p_tx_raw_stream_owner path,
       h_old_raw_stream_end_seen = p_tx_raw_stream_end_seen path,
       h_old_raw_stream_inflight = p_tx_raw_stream_inflight path,
       h_charged_data_credit = ch,
       h_old_start_credit_group_frames = pk_start_credit_group_frames packet\<rparr>)"
  by (simp add: tx_take_def Let_def count_raw_stream_eq joins_stream_def)

lemma tx_select_queue:
  assumes "tx_select path = Some (packet, from_control, ns)"
  shows "if from_control
         then p_tx_control_queue path = packet # tl (p_tx_control_queue path)
         else p_tx_data_queue path = packet # tl (p_tx_data_queue path)"
  using assms by (auto simp: tx_select_def split: if_splits list.splits)

lemma tx_pick_Some:
  assumes "tx_pick nmax path = (path', Some h)"
  obtains packet from_control ns ch where
    "tx_select path = Some (packet, from_control, ns)"
    "tx_has_room nmax path from_control ns"
    "ch \<longleftrightarrow> \<not> pk_control packet \<and> p_tx_remote_data_credit_max path \<noteq> 0"
    "ch \<longrightarrow> max 1 (tbv_native_data_start_credit_required
        (pk_start_credit_group_frames packet) (p_tx_remote_data_credit_max path))
      \<le> p_tx_remote_data_credits path"
    "tx_take path packet from_control ns ch = (path', h)"
  using assms
  by (auto simp: tx_pick_def Let_def not_less map_prod_def
      split: option.splits if_splits prod.splits)

lemma tx_pick_backlog:
  assumes "tx_pick nmax path = (path', Some h)"
  shows "backlog path = Suc (backlog path')"
proof -
  obtain packet fc ns ch where s: "tx_select path = Some (packet, fc, ns)"
    and t: "tx_take path packet fc ns ch = (path', h)"
    using assms by (rule tx_pick_Some)
  have "Suc (length (tl q)) = length q" if "q = packet # tl q" for q
    using that by (metis length_Cons)
  then show ?thesis
    using tx_select_queue [OF s] t by (cases fc) (auto simp: tx_take_eq)
qed

lemma tx_posted_queues [simp]:
  "p_tx_control_queue (tx_posted path h) = p_tx_control_queue path"
  "p_tx_data_queue (tx_posted path h) = p_tx_data_queue path"
  by (simp_all add: tx_posted_def Let_def emit_def)

function schedule_loop :: "tx_env \<Rightarrow> tbv_path \<Rightarrow> tbv_path" where
  "schedule_loop env path =
     (case tx_pick (e_native_tx_max_inflight env) path of
        (path', None) \<Rightarrow> path'
      | (path', Some h) \<Rightarrow>
          (case e_ring_tx env (h_packet h) of
             Inr _ \<Rightarrow> schedule_loop env (tx_posted path' h)
           | Inl e \<Rightarrow> tx_refused e path' h))"
  by pat_completeness auto
termination
proof (relation "measure (\<lambda>(env, path). backlog path)", goal_cases)
  case 1
  then show ?case by simp
next
  case (2 env path x y h u)
  then show ?case using tx_pick_backlog [of _ path x h] by simp
qed

declare schedule_loop.simps [simp del]

definition tbv_path_schedule_tx :: "tx_env \<Rightarrow> tbv_path \<Rightarrow> tbv_path" where
  "tbv_path_schedule_tx env path =
     (if p_tx_scheduling path then path
      else schedule_loop env (path\<lparr>p_tx_scheduling := True\<rparr>))"

section \<open>Queues and reservations\<close>

text \<open>
  Each operation is its locked section (\<open>_locked\<close>) followed by a call of the scheduler.
  \<open>addr\<close> is the address the allocator returned for a new packet, \<open>None\<close> when it failed.
\<close>

definition fresh_packet :: "nat \<Rightarrow> tbv_tx_packet" where
  "fresh_packet addr =
     \<lparr>pk_addr = addr, pk_buf = [], pk_len = 0, pk_dma = 0, pk_done = None, pk_done_ctx = None,
      pk_owner_ctx = None, pk_sof = 0, pk_eof = 0, pk_start_credit_group_frames = 0,
      pk_control = False, pk_pooled = False, pk_queued = False, pk_inflight = False,
      pk_zcopy = False, pk_unmap_dma = False, pk_raw_stream_start = False,
      pk_raw_stream_end = False, pk_raw_stream_counted = False, pk_canceled = False\<rparr>"

definition tbv_path_alloc_data_packet_owned ::
  "nat ptr \<Rightarrow> u8 list \<Rightarrow> u32 \<Rightarrow> nat ptr \<Rightarrow> nat ptr \<Rightarrow> tbv_tx_packet ptr" where
  "tbv_path_alloc_data_packet_owned addr buf len done done_ctx =
     map_option (\<lambda>a. (fresh_packet a)\<lparr>pk_buf := buf, pk_len := len, pk_done := done,
         pk_done_ctx := done_ctx, pk_owner_ctx := done_ctx, pk_sof := TBV_DATA_PDF_FRAME_START,
         pk_eof := TBV_DATA_PDF_FRAME_END\<rparr>) addr"

definition tbv_path_alloc_zcopy_packet ::
  "nat ptr \<Rightarrow> u64 \<Rightarrow> u32 \<Rightarrow> bool \<Rightarrow> nat ptr \<Rightarrow> nat ptr \<Rightarrow> tbv_tx_packet ptr" where
  "tbv_path_alloc_zcopy_packet addr dma len unmap_dma done done_ctx =
     map_option (\<lambda>a. (fresh_packet a)\<lparr>pk_len := len, pk_dma := dma, pk_done := done,
         pk_done_ctx := done_ctx, pk_owner_ctx := done_ctx, pk_sof := TBV_DATA_PDF_FRAME_START,
         pk_eof := TBV_DATA_PDF_FRAME_END, pk_zcopy := True, pk_unmap_dma := unmap_dma\<rparr>) addr"

definition tbv_path_alloc_pooled_data_packet ::
  "u32 \<Rightarrow> nat ptr \<Rightarrow> nat ptr \<Rightarrow> tbv_path \<Rightarrow> tbv_tx_packet ptr \<times> tbv_path" where
  "tbv_path_alloc_pooled_data_packet len done done_ctx path =
     (case p_tx_data_free path of
        [] \<Rightarrow> (None, path)
      | packet # rest \<Rightarrow>
          (Some (packet\<lparr>pk_len := len, pk_done := done, pk_done_ctx := done_ctx,
             pk_owner_ctx := done_ctx, pk_sof := TBV_DATA_PDF_FRAME_START,
             pk_eof := TBV_DATA_PDF_FRAME_END, pk_control := False, pk_queued := False,
             pk_zcopy := False, pk_unmap_dma := False, pk_raw_stream_start := False,
             pk_raw_stream_end := False, pk_raw_stream_counted := False, pk_canceled := False,
             pk_start_credit_group_frames := 0\<rparr>),
           path\<lparr>p_tx_data_free := rest\<rparr>))"

definition enqueue_control_locked ::
  "nat ptr \<Rightarrow> u8 list \<Rightarrow> u32 \<Rightarrow> nat ptr \<Rightarrow> nat ptr \<Rightarrow> tbv_path \<Rightarrow> unit res \<times> tbv_path" where
  "enqueue_control_locked addr data len done done_ctx path =
     (if len > TBV_CONTROL_FRAME_SIZE then (Inl EMSGSIZE, path)
      else if \<not> tbv_path_tx_admits_locked path then (Inl ENOTCONN, path)
      else
        (let (found, path) =
               (case p_tx_control_free path of
                  [] \<Rightarrow> (map_option (\<lambda>a. (fresh_packet a)\<lparr>pk_control := True, pk_pooled := False\<rparr>) addr,
                         path)
                | packet # rest \<Rightarrow>
                    (Some (packet\<lparr>pk_pooled := True\<rparr>), path\<lparr>p_tx_control_free := rest\<rparr>))
         in case found of
              None \<Rightarrow> (Inl ENOMEM, path)
            | Some packet \<Rightarrow>
                (let packet = packet\<lparr>pk_len := len, pk_done := done, pk_done_ctx := done_ctx,
                       pk_owner_ctx := done_ctx, pk_sof := TBV_DATA_PDF_FRAME_START,
                       pk_eof := TBV_DATA_PDF_FRAME_END, pk_queued := True,
                       pk_buf := take (unat len) data\<rparr>
                 in (Inr (), emit (Enqueued packet)
                       (path\<lparr>p_tx_control_queue := p_tx_control_queue path @ [packet],
                             p_tx_control_queued := p_tx_control_queued path + 1,
                             p_control_tx_enqueued := p_control_tx_enqueued path + 1\<rparr>)))))"

definition tbv_path_enqueue_control ::
  "tx_env \<Rightarrow> nat ptr \<Rightarrow> u8 list \<Rightarrow> u32 \<Rightarrow> nat ptr \<Rightarrow> nat ptr \<Rightarrow> tbv_path \<Rightarrow> unit res \<times> tbv_path" where
  "tbv_path_enqueue_control env addr data len done done_ctx path =
     (case enqueue_control_locked addr data len done done_ctx path of
        (Inl e, path) \<Rightarrow> (Inl e, path)
      | (Inr u, path) \<Rightarrow> (Inr u, tbv_path_schedule_tx env path))"

definition put_data :: "tbv_tx_packet \<Rightarrow> tbv_path \<Rightarrow> tbv_path" where
  "put_data packet path =
     emit (Enqueued packet)
       (path\<lparr>p_tx_data_queue := p_tx_data_queue path @ [packet],
             p_tx_data_queued := p_tx_data_queued path + 1,
             p_data_tx_enqueued := p_data_tx_enqueued path + 1\<rparr>)"

definition enqueue_data_locked :: "tbv_tx_packet \<Rightarrow> tbv_path \<Rightarrow> unit res \<times> tbv_path" where
  "enqueue_data_locked packet path =
     (if \<not> tbv_path_tx_admits_locked path then (Inl ENOTCONN, path)
      else if p_tx_data_reserved path = 0 \<and> p_tx_data_queued path \<ge> p_tx_data_queue_limit path
      then (Inl ENOMEM, path)
      else
        (let path = (if p_tx_data_reserved path \<noteq> 0
                     then path\<lparr>p_tx_data_reserved := p_tx_data_reserved path - 1\<rparr> else path)
         in (Inr (), put_data (packet\<lparr>pk_start_credit_group_frames := 1, pk_queued := True\<rparr>) path)))"

definition tbv_path_enqueue_data ::
  "tx_env \<Rightarrow> tbv_tx_packet \<Rightarrow> bool \<Rightarrow> tbv_path \<Rightarrow> unit res \<times> tbv_path" where
  "tbv_path_enqueue_data env packet defer_schedule path =
     (case enqueue_data_locked packet path of
        (Inl e, path) \<Rightarrow> (Inl e, path)
      | (Inr u, path) \<Rightarrow>
          (Inr u, if defer_schedule then path else tbv_path_schedule_tx env path))"

text \<open>The loop over a list of packets: the first one carries the size of the group.\<close>

fun put_group :: "u32 \<Rightarrow> tbv_tx_packet list \<Rightarrow> tbv_path \<Rightarrow> tbv_path" where
  "put_group grp [] path = path"
| "put_group grp (packet # packets) path =
     put_group 0 packets
       (put_data (packet\<lparr>pk_start_credit_group_frames := grp, pk_queued := True\<rparr>) path)"

definition has_space :: "u32 \<Rightarrow> tbv_path \<Rightarrow> bool" where
  "has_space cnt path \<longleftrightarrow>
     \<not> (cnt > p_tx_data_queue_limit path
        \<or> p_tx_data_queued path + p_tx_data_reserved path > p_tx_data_queue_limit path - cnt)"

definition enqueue_data_list_locked ::
  "tbv_tx_packet list \<Rightarrow> u32 \<Rightarrow> tbv_path \<Rightarrow> unit res \<times> tbv_path" where
  "enqueue_data_list_locked packets cnt path =
     (if cnt = 0 then (Inr (), path)
      else if \<not> tbv_path_tx_admits_locked path then (Inl ENOTCONN, path)
      else if \<not> has_space cnt path then (Inl ENOMEM, path)
      else (Inr (), put_group cnt packets path))"

definition tbv_path_enqueue_data_list ::
  "tx_env \<Rightarrow> tbv_tx_packet list \<Rightarrow> u32 \<Rightarrow> bool \<Rightarrow> tbv_path \<Rightarrow> unit res \<times> tbv_path" where
  "tbv_path_enqueue_data_list env packets cnt defer_schedule path =
     (case enqueue_data_list_locked packets cnt path of
        (Inl e, path) \<Rightarrow> (Inl e, path)
      | (Inr u, path) \<Rightarrow>
          (Inr u, if cnt = 0 \<or> defer_schedule then path else tbv_path_schedule_tx env path))"

definition enqueue_reserved_data_list_locked ::
  "tbv_tx_packet list \<Rightarrow> u32 \<Rightarrow> tbv_path \<Rightarrow> unit res \<times> tbv_path" where
  "enqueue_reserved_data_list_locked packets cnt path =
     (if cnt = 0 then (Inr (), path)
      else if \<not> tbv_path_tx_admits_locked path then (Inl ENOTCONN, path)
      else if p_tx_data_reserved path < cnt then (Inl ENOMEM, path)
      else (Inr (), put_group cnt packets
              (path\<lparr>p_tx_data_reserved := p_tx_data_reserved path - cnt\<rparr>)))"

definition tbv_path_enqueue_reserved_data_list ::
  "tx_env \<Rightarrow> tbv_tx_packet list \<Rightarrow> u32 \<Rightarrow> bool \<Rightarrow> tbv_path \<Rightarrow> unit res \<times> tbv_path" where
  "tbv_path_enqueue_reserved_data_list env packets cnt defer_schedule path =
     (case enqueue_reserved_data_list_locked packets cnt path of
        (Inl e, path) \<Rightarrow> (Inl e, path)
      | (Inr u, path) \<Rightarrow>
          (Inr u, if cnt = 0 \<or> defer_schedule then path else tbv_path_schedule_tx env path))"

definition tbv_path_reserve_data :: "u32 \<Rightarrow> tbv_path \<Rightarrow> unit res \<times> tbv_path" where
  "tbv_path_reserve_data frames path =
     (if frames = 0 then (Inr (), path)
      else if \<not> tbv_path_tx_admits_locked path then (Inl ENOTCONN, path)
      else if \<not> has_space frames path then (Inl ENOMEM, path)
      else (Inr (), path\<lparr>p_tx_data_reserved := p_tx_data_reserved path + frames\<rparr>))"

definition tbv_path_release_data_reservation :: "u32 \<Rightarrow> tbv_path \<Rightarrow> tbv_path" where
  "tbv_path_release_data_reservation frames path =
     (if frames = 0 then path
      else if p_tx_data_reserved path \<ge> frames
      then path\<lparr>p_tx_data_reserved := p_tx_data_reserved path - frames\<rparr>
      else path\<lparr>p_tx_data_reserved := 0\<rparr>)"

definition tbv_path_data_space_available :: "u32 \<Rightarrow> tbv_path \<Rightarrow> bool" where
  "tbv_path_data_space_available frames path =
     (if \<not> tbv_path_tx_admits_locked path then True
      else if frames > p_tx_data_queue_limit path then True
      else p_tx_data_queued path + p_tx_data_reserved path \<le> p_tx_data_queue_limit path - frames)"

section \<open>Retirement of a descriptor\<close>

text \<open>
  The callbacks of the ring for a staged frame and for a zero-copy frame, up to the call of
  the scheduler at their end. The descriptor leaves the ring.
\<close>

definition retire_status :: "bool \<Rightarrow> tbv_tx_packet \<Rightarrow> errno ptr" where
  "retire_status canceled packet = (if canceled \<or> pk_canceled packet then Some ECANCELED else None)"

definition tbv_path_tx_retire_one :: "tbv_path \<Rightarrow> tbv_path" where
  "tbv_path_tx_retire_one path = path\<lparr>p_tx_inflight := p_tx_inflight path - 1\<rparr>"

definition tx_complete_locked :: "nat \<Rightarrow> tbv_tx_packet \<Rightarrow> bool \<Rightarrow> tbv_path \<Rightarrow> tbv_path" where
  "tx_complete_locked f packet canceled path =
     (let path = path\<lparr>p_ring := remove1 (Some f, packet) (p_ring path),
                      p_tx_free := p_tx_free path @ [f]\<rparr>;
          path = (if \<not> canceled
                  then (if pk_control packet
                        then path\<lparr>p_control_tx_completed := p_control_tx_completed path + 1\<rparr>
                        else path\<lparr>p_data_tx_completed := p_data_tx_completed path + 1\<rparr>)
                  else if \<not> pk_control packet
                  then path\<lparr>p_data_tx_canceled := p_data_tx_canceled path + 1\<rparr>
                  else path);
          (path, packet) = tbv_path_finish_raw_stream_if_needed path packet;
          path = tbv_path_tx_packet_release packet (retire_status canceled packet) path
      in tbv_path_tx_retire_one path)"

definition zcopy_tx_complete_locked :: "tbv_tx_packet \<Rightarrow> bool \<Rightarrow> tbv_path \<Rightarrow> tbv_path" where
  "zcopy_tx_complete_locked packet canceled path =
     (let path = path\<lparr>p_ring := remove1 (None, packet) (p_ring path)\<rparr>;
          path = (if \<not> canceled
                  then path\<lparr>p_data_tx_completed := p_data_tx_completed path + 1\<rparr>
                  else path\<lparr>p_data_tx_canceled := p_data_tx_canceled path + 1\<rparr>);
          (path, packet) = tbv_path_finish_raw_stream_if_needed path packet;
          path = tbv_path_tx_packet_release packet (retire_status canceled packet) path
      in tbv_path_tx_retire_one path)"

definition tbv_path_tx_complete ::
  "tx_env \<Rightarrow> nat \<Rightarrow> tbv_tx_packet \<Rightarrow> bool \<Rightarrow> tbv_path \<Rightarrow> tbv_path" where
  "tbv_path_tx_complete env f packet canceled path =
     tbv_path_schedule_tx env (tx_complete_locked f packet canceled path)"

definition tbv_path_zcopy_tx_complete ::
  "tx_env \<Rightarrow> tbv_tx_packet \<Rightarrow> bool \<Rightarrow> tbv_path \<Rightarrow> tbv_path" where
  "tbv_path_zcopy_tx_complete env packet canceled path =
     tbv_path_schedule_tx env (zcopy_tx_complete_locked packet canceled path)"

text \<open>The ring retires the descriptor through the callback it was posted with.\<close>

definition retire_locked :: "nat ptr \<times> tbv_tx_packet \<Rightarrow> bool \<Rightarrow> tbv_path \<Rightarrow> tbv_path" where
  "retire_locked d canceled path =
     (case d of
        (Some f, packet) \<Rightarrow> tx_complete_locked f packet canceled path
      | (None, packet) \<Rightarrow> zcopy_tx_complete_locked packet canceled path)"

section \<open>Cancellation\<close>

definition tbv_path_packet_matches ::
  "tbv_tx_packet \<Rightarrow> nat ptr \<Rightarrow> nat ptr \<Rightarrow> nat ptr \<Rightarrow> bool" where
  "tbv_path_packet_matches packet done done_ctx owner_ctx \<longleftrightarrow>
     (owner_ctx \<noteq> None \<and> pk_owner_ctx packet = owner_ctx)
     \<or> (done \<noteq> None \<and> done_ctx \<noteq> None \<and> pk_done packet = done \<and> pk_done_ctx packet = done_ctx)"

fun tbv_path_release_packet_list :: "tbv_tx_packet list \<Rightarrow> errno ptr \<Rightarrow> tbv_path \<Rightarrow> tbv_path" where
  "tbv_path_release_packet_list [] status path = path"
| "tbv_path_release_packet_list (packet # packets) status path =
     tbv_path_release_packet_list packets status (tbv_path_tx_packet_release packet status path)"

definition mark_canceled :: "(tbv_tx_packet \<Rightarrow> bool) \<Rightarrow> tbv_tx_packet \<Rightarrow> tbv_tx_packet" where
  "mark_canceled m packet = (if m packet then packet\<lparr>pk_canceled := True\<rparr> else packet)"

text \<open>
  The packets of an owner that still wait are released with \<open>ECANCELED\<close>; those the ring owns
  are only marked. The loops over the staging frames skip control packets.
\<close>

definition cancel_data_match_locked ::
  "nat ptr \<Rightarrow> nat ptr \<Rightarrow> nat ptr \<Rightarrow> tbv_path \<Rightarrow> tbv_path" where
  "cancel_data_match_locked done done_ctx owner_ctx path =
     (if (done = None \<or> done_ctx = None) \<and> owner_ctx = None then path
      else
        (let m = (\<lambda>packet. tbv_path_packet_matches packet done done_ctx owner_ctx);
             path = (if owner_ctx \<noteq> None \<and> p_tx_raw_stream_active path
                        \<and> p_tx_raw_stream_owner path = owner_ctx
                     then clear_raw_stream path else path);
             cancel = filter m (p_tx_data_queue path);
             path = path\<lparr>p_tx_data_queue := filter (\<lambda>packet. \<not> m packet) (p_tx_data_queue path),
                         p_tx_data_queued := of_nat (unat (p_tx_data_queued path) - length cancel),
                         p_ring := map (map_prod id (mark_canceled
                           (\<lambda>packet. \<not> (pk_control packet \<and> \<not> pk_zcopy packet) \<and> m packet)))
                           (p_ring path)\<rparr>
         in tbv_path_release_packet_list
              (map (\<lambda>packet. packet\<lparr>pk_queued := False, pk_owner_ctx := None\<rparr>) cancel)
              (Some ECANCELED) path))"

definition tbv_path_cancel_data_match ::
  "tx_env \<Rightarrow> nat ptr \<Rightarrow> nat ptr \<Rightarrow> nat ptr \<Rightarrow> tbv_path \<Rightarrow> tbv_path" where
  "tbv_path_cancel_data_match env done done_ctx owner_ctx path =
     (let path' = cancel_data_match_locked done done_ctx owner_ctx path
      in if owner_ctx \<noteq> None \<and> p_tx_raw_stream_active path
            \<and> p_tx_raw_stream_owner path = owner_ctx
         then tbv_path_schedule_tx env path' else path')"

definition tbv_path_cancel_queued_tx_status :: "errno ptr \<Rightarrow> tbv_path \<Rightarrow> tbv_path" where
  "tbv_path_cancel_queued_tx_status status path =
     (let control = p_tx_control_queue path; data = p_tx_data_queue path;
          path = clear_raw_stream (path\<lparr>p_tx_control_queue := [], p_tx_data_queue := [],
                   p_tx_control_queued := 0, p_tx_data_queued := 0, p_tx_data_reserved := 0\<rparr>)
      in tbv_path_release_packet_list data status
           (tbv_path_release_packet_list control status path))"

definition tbv_path_tx_retired :: "tbv_path \<Rightarrow> bool" where
  "tbv_path_tx_retired path \<longleftrightarrow>
     p_tx_inflight path = 0 \<and> p_tx_control_queue path = [] \<and> p_tx_data_queue path = []"

section \<open>Receive credits of the peer\<close>

definition set_remote_rx_capacity_locked :: "u32 \<Rightarrow> tbv_path \<Rightarrow> tbv_path" where
  "set_remote_rx_capacity_locked rx_ring_size path =
     (let credits = tbv_path_data_credit_window rx_ring_size
      in path\<lparr>p_tx_remote_data_credit_max := credits, p_tx_remote_data_credits := credits,
              p_rx_data_credit_pending := 0\<rparr>)"

definition tbv_path_set_remote_rx_capacity :: "tx_env \<Rightarrow> u32 \<Rightarrow> tbv_path \<Rightarrow> tbv_path" where
  "tbv_path_set_remote_rx_capacity env rx_ring_size path =
     tbv_path_schedule_tx env (set_remote_rx_capacity_locked rx_ring_size path)"

text \<open>The credits taken, at most what is missing to the window, and the path.\<close>

definition add_remote_rx_credits_locked :: "u32 \<Rightarrow> tbv_path \<Rightarrow> u32 \<times> tbv_path" where
  "add_remote_rx_credits_locked credits path =
     (if credits = 0 then (0, path)
      else if p_tx_remote_data_credit_max path = 0 then (0, path)
      else
        (let old = p_tx_remote_data_credits path; cmax = p_tx_remote_data_credit_max path;
             new = (if old \<ge> cmax then cmax else if credits > cmax - old then cmax
                    else old + credits)
         in (new - old, path\<lparr>p_tx_remote_data_credits := new,
              p_data_tx_credit_received := p_data_tx_credit_received path + ucast (new - old)\<rparr>)))"

definition tbv_path_add_remote_rx_credits :: "tx_env \<Rightarrow> u32 \<Rightarrow> tbv_path \<Rightarrow> tbv_path" where
  "tbv_path_add_remote_rx_credits env credits path =
     (case add_remote_rx_credits_locked credits path of
        (accepted, path) \<Rightarrow> if accepted = 0 then path else tbv_path_schedule_tx env path)"

section \<open>Closing and opening admission\<close>

definition tbv_path_close_tx :: "tbv_path \<Rightarrow> tbv_path" where
  "tbv_path_close_tx path = path\<lparr>p_tx_closed := True\<rparr>"

definition open_tx_locked :: "tbv_path \<Rightarrow> tbv_path" where
  "open_tx_locked path = path\<lparr>p_tx_closed := False\<rparr>"

definition tbv_path_open_tx :: "tx_env \<Rightarrow> tbv_path \<Rightarrow> tbv_path" where
  "tbv_path_open_tx env path = tbv_path_schedule_tx env (open_tx_locked path)"

end
