(* ===== verification/Path_Run.thy ===== *)
theory Path_Run
  imports Path_Tx
begin

text \<open>
  Interleavings of the transmit side: the locked sections of \<open>Path_Tx\<close> as steps of a system
  made of the path and the packet the scheduler holds, the invariants of all runs, and the
  guarantees towards the client (every packet released once, order kept, queue bounded) and
  towards the peer (credits, raw streams never interleaved).
\<close>

section \<open>Steps\<close>

datatype tx_label =
    Enter
  | Pick
  | Ring "errno ptr"
  | Retire nat bool
  | Put_control "nat ptr" "u8 list" u32 "nat ptr" "nat ptr"
  | Put_data tbv_tx_packet
  | Put_list "tbv_tx_packet list"
  | Put_reserved "tbv_tx_packet list"
  | Reserve u32
  | Unreserve u32
  | Credits u32
  | Capacity u32
  | Cancel "nat ptr" "nat ptr" "nat ptr" bool
  | Cancel_queued "errno ptr"
  | Close
  | Open
  | Set_state tbv_path_state

text \<open>
  A packet as the allocation functions make it for the data queue: not a control packet and
  not yet counted for a stream. The list operations are given the length of their list.
\<close>

definition data_packet :: "tbv_tx_packet \<Rightarrow> bool" where
  "data_packet packet \<longleftrightarrow> \<not> pk_control packet \<and> \<not> pk_raw_stream_counted packet"

definition client_list :: "tbv_tx_packet list \<Rightarrow> bool" where
  "client_list packets \<longleftrightarrow> list_all data_packet packets \<and> length packets < 4294967296"

type_synonym tx_sys = "tbv_path \<times> tx_hand option"

text \<open>The loop of the cancellation may or may not see the packet in the scheduler's hands.\<close>

definition cancel_hand :: "nat ptr \<Rightarrow> nat ptr \<Rightarrow> nat ptr \<Rightarrow> tx_hand \<Rightarrow> tx_hand" where
  "cancel_hand done done_ctx owner_ctx h =
     h\<lparr>h_packet := mark_canceled (\<lambda>packet. \<not> pk_control packet
         \<and> tbv_path_packet_matches packet done done_ctx owner_ctx) (h_packet h)\<rparr>"

fun tx_step :: "u32 \<Rightarrow> tx_label \<Rightarrow> tx_sys \<Rightarrow> tx_sys" where
  "tx_step nmax Enter (path, hand) =
     (if p_tx_scheduling path then (path, hand) else (path\<lparr>p_tx_scheduling := True\<rparr>, hand))"
| "tx_step nmax Pick (path, hand) =
     (if p_tx_scheduling path \<and> hand = None then tx_pick nmax path else (path, hand))"
| "tx_step nmax (Ring r) (path, hand) =
     (case (hand, r) of
        (None, _) \<Rightarrow> (path, None)
      | (Some h, None) \<Rightarrow> (tx_posted path h, None)
      | (Some h, Some e) \<Rightarrow> (tx_refused e path h, None))"
| "tx_step nmax (Retire i canceled) (path, hand) =
     (if i < length (p_ring path) then retire_locked (p_ring path ! i) canceled path else path, hand)"
| "tx_step nmax (Put_control addr data len done done_ctx) (path, hand) =
     (snd (enqueue_control_locked addr data len done done_ctx path), hand)"
| "tx_step nmax (Put_data packet) (path, hand) =
     (if data_packet packet then snd (enqueue_data_locked packet path) else path, hand)"
| "tx_step nmax (Put_list packets) (path, hand) =
     (if client_list packets
      then snd (enqueue_data_list_locked packets (of_nat (length packets)) path) else path, hand)"
| "tx_step nmax (Put_reserved packets) (path, hand) =
     (if client_list packets
      then snd (enqueue_reserved_data_list_locked packets (of_nat (length packets)) path)
      else path, hand)"
| "tx_step nmax (Reserve frames) (path, hand) = (snd (tbv_path_reserve_data frames path), hand)"
| "tx_step nmax (Unreserve frames) (path, hand) =
     (tbv_path_release_data_reservation frames path, hand)"
| "tx_step nmax (Credits credits) (path, hand) =
     (snd (add_remote_rx_credits_locked credits path), hand)"
| "tx_step nmax (Capacity rx_ring_size) (path, hand) =
     (set_remote_rx_capacity_locked rx_ring_size path, hand)"
| "tx_step nmax (Cancel done done_ctx owner_ctx seen) (path, hand) =
     (cancel_data_match_locked done done_ctx owner_ctx path,
      if seen then map_option (cancel_hand done done_ctx owner_ctx) hand else hand)"
| "tx_step nmax (Cancel_queued status) (path, hand) =
     (tbv_path_cancel_queued_tx_status status path, hand)"
| "tx_step nmax Close (path, hand) = (tbv_path_close_tx path, hand)"
| "tx_step nmax Open (path, hand) = (open_tx_locked path, hand)"
| "tx_step nmax (Set_state st) (path, hand) = (path\<lparr>p_state := st\<rparr>, hand)"

definition tx_run :: "u32 \<Rightarrow> tx_label list \<Rightarrow> tx_sys \<Rightarrow> tx_sys" where
  "tx_run nmax labels sys = fold (tx_step nmax) labels sys"

lemma tx_run_simps [simp]:
  "tx_run nmax [] sys = sys"
  "tx_run nmax (l # labels) sys = tx_run nmax labels (tx_step nmax l sys)"
  by (simp_all add: tx_run_def)

lemma tx_run_append: "tx_run nmax (as @ bs) sys = tx_run nmax bs (tx_run nmax as sys)"
  by (simp add: tx_run_def)

text \<open>An invariant of every step is an invariant of every run.\<close>

lemma tx_run_invariant:
  assumes "\<And>l path hand. P (path, hand) \<Longrightarrow> P (tx_step nmax l (path, hand))" and "P sys"
  shows "P (tx_run nmax labels sys)"
  using assms(2)
proof (induction labels arbitrary: sys)
  case (Cons l labels)
  then show ?case by (cases sys) (simp add: assms(1))
qed simp

text \<open>
  The sequential scheduler is one of the interleavings: rounds of \<open>Pick\<close> and \<open>Ring\<close> with no
  step of another thread between them.
\<close>

lemma schedule_loop_run:
  "p_tx_scheduling path \<Longrightarrow>
   \<exists>labels. tx_run (e_native_tx_max_inflight env) labels (path, None) = (schedule_loop env path, None)"
proof (induction env path rule: schedule_loop.induct)
  case (1 env path)
  let ?n = "e_native_tx_max_inflight env"
  obtain path' hand where p: "tx_pick ?n path = (path', hand)" by fastforce
  show ?case
  proof (cases hand)
    case None
    then show ?thesis
      using p 1(2) by (intro exI [of _ "[Pick]"]) (simp add: schedule_loop.simps)
  next
    case (Some h)
    then have p: "tx_pick ?n path = (path', Some h)" using p by simp
    show ?thesis
    proof (cases "e_ring_tx env (h_packet h)")
      case (Inl e)
      then show ?thesis
        using p 1(2) by (intro exI [of _ "[Pick, Ring (Some e)]"]) (simp add: schedule_loop.simps)
    next
      case (Inr u)
      have "p_tx_scheduling (tx_posted path' h)"
        using p 1(2)
        by (auto simp: tx_posted_def Let_def emit_def tx_take_eq elim!: tx_pick_Some)
      then obtain labels where
        "tx_run ?n labels (tx_posted path' h, None) = (schedule_loop env (tx_posted path' h), None)"
        using 1(1) [OF p [symmetric] refl Inr] by blast
      then show ?thesis
        using p 1(2) Inr
        by (intro exI [of _ "Pick # Ring None # labels"]) (simp add: schedule_loop.simps)
    qed
  qed
qed

lemma schedule_tx_run:
  "\<exists>labels. tx_run (e_native_tx_max_inflight env) labels (path, None)
     = (tbv_path_schedule_tx env path, None)"
proof (cases "p_tx_scheduling path")
  case True
  then show ?thesis
    by (intro exI [of _ "[]"]) (simp add: tbv_path_schedule_tx_def)
next
  case False
  obtain labels where "tx_run (e_native_tx_max_inflight env) labels (path\<lparr>p_tx_scheduling := True\<rparr>, None)
      = (schedule_loop env (path\<lparr>p_tx_scheduling := True\<rparr>), None)"
    using schedule_loop_run [of "path\<lparr>p_tx_scheduling := True\<rparr>" env] by auto
  then show ?thesis
    using False
    by (intro exI [of _ "Enter # labels"]) (simp add: tbv_path_schedule_tx_def)
qed

section \<open>What each operation leaves alone\<close>

lemma release_frame [simp]:
  "p_state (tbv_path_tx_packet_release packet status path) = p_state path"
  "p_cfg (tbv_path_tx_packet_release packet status path) = p_cfg path"
  "p_backend (tbv_path_tx_packet_release packet status path) = p_backend path"
  "p_tx_frame_count (tbv_path_tx_packet_release packet status path) = p_tx_frame_count path"
  "p_tx_control_queued (tbv_path_tx_packet_release packet status path) = p_tx_control_queued path"
  "p_tx_data_queued (tbv_path_tx_packet_release packet status path) = p_tx_data_queued path"
  "p_tx_data_reserved (tbv_path_tx_packet_release packet status path) = p_tx_data_reserved path"
  "p_tx_data_queue_limit (tbv_path_tx_packet_release packet status path) = p_tx_data_queue_limit path"
  "p_tx_remote_data_credits (tbv_path_tx_packet_release packet status path) = p_tx_remote_data_credits path"
  "p_tx_remote_data_credit_max (tbv_path_tx_packet_release packet status path) = p_tx_remote_data_credit_max path"
  "p_rx_data_credit_pending (tbv_path_tx_packet_release packet status path) = p_rx_data_credit_pending path"
  "p_tx_free (tbv_path_tx_packet_release packet status path) = p_tx_free path"
  "p_tx_control_queue (tbv_path_tx_packet_release packet status path) = p_tx_control_queue path"
  "p_tx_data_queue (tbv_path_tx_packet_release packet status path) = p_tx_data_queue path"
  "p_tx_inflight (tbv_path_tx_packet_release packet status path) = p_tx_inflight path"
  "p_tx_scheduling (tbv_path_tx_packet_release packet status path) = p_tx_scheduling path"
  "p_tx_closed (tbv_path_tx_packet_release packet status path) = p_tx_closed path"
  "p_ring (tbv_path_tx_packet_release packet status path) = p_ring path"
  "p_tx_raw_stream_active (tbv_path_tx_packet_release packet status path) = p_tx_raw_stream_active path"
  "p_tx_raw_stream_end_seen (tbv_path_tx_packet_release packet status path) = p_tx_raw_stream_end_seen path"
  "p_tx_raw_stream_inflight (tbv_path_tx_packet_release packet status path) = p_tx_raw_stream_inflight path"
  "p_tx_raw_stream_owner (tbv_path_tx_packet_release packet status path) = p_tx_raw_stream_owner path"
  by (auto simp: tbv_path_tx_packet_release_def Let_def emit_def split: option.splits)

lemma release_log:
  "p_log (tbv_path_tx_packet_release packet status path) =
     p_log path @ (case pk_done packet of None \<Rightarrow> [] | Some done \<Rightarrow> [Done done (pk_done_ctx packet) status])
     @ [Released packet status]"
  by (auto simp: tbv_path_tx_packet_release_def Let_def emit_def split: option.splits)

lemma release_list_frame [simp]:
  "p_state (tbv_path_release_packet_list packets status path) = p_state path"
  "p_cfg (tbv_path_release_packet_list packets status path) = p_cfg path"
  "p_backend (tbv_path_release_packet_list packets status path) = p_backend path"
  "p_tx_frame_count (tbv_path_release_packet_list packets status path) = p_tx_frame_count path"
  "p_tx_control_queued (tbv_path_release_packet_list packets status path) = p_tx_control_queued path"
  "p_tx_data_queued (tbv_path_release_packet_list packets status path) = p_tx_data_queued path"
  "p_tx_data_reserved (tbv_path_release_packet_list packets status path) = p_tx_data_reserved path"
  "p_tx_data_queue_limit (tbv_path_release_packet_list packets status path) = p_tx_data_queue_limit path"
  "p_tx_remote_data_credits (tbv_path_release_packet_list packets status path) = p_tx_remote_data_credits path"
  "p_tx_remote_data_credit_max (tbv_path_release_packet_list packets status path) = p_tx_remote_data_credit_max path"
  "p_rx_data_credit_pending (tbv_path_release_packet_list packets status path) = p_rx_data_credit_pending path"
  "p_tx_free (tbv_path_release_packet_list packets status path) = p_tx_free path"
  "p_tx_control_queue (tbv_path_release_packet_list packets status path) = p_tx_control_queue path"
  "p_tx_data_queue (tbv_path_release_packet_list packets status path) = p_tx_data_queue path"
  "p_tx_inflight (tbv_path_release_packet_list packets status path) = p_tx_inflight path"
  "p_tx_scheduling (tbv_path_release_packet_list packets status path) = p_tx_scheduling path"
  "p_tx_closed (tbv_path_release_packet_list packets status path) = p_tx_closed path"
  "p_ring (tbv_path_release_packet_list packets status path) = p_ring path"
  "p_tx_raw_stream_active (tbv_path_release_packet_list packets status path) = p_tx_raw_stream_active path"
  "p_tx_raw_stream_end_seen (tbv_path_release_packet_list packets status path) = p_tx_raw_stream_end_seen path"
  "p_tx_raw_stream_inflight (tbv_path_release_packet_list packets status path) = p_tx_raw_stream_inflight path"
  "p_tx_raw_stream_owner (tbv_path_release_packet_list packets status path) = p_tx_raw_stream_owner path"
  by (induction packets arbitrary: path) simp_all

lemma finish_raw_frame [simp]:
  "p_state (fst (tbv_path_finish_raw_stream_if_needed path packet)) = p_state path"
  "p_cfg (fst (tbv_path_finish_raw_stream_if_needed path packet)) = p_cfg path"
  "p_backend (fst (tbv_path_finish_raw_stream_if_needed path packet)) = p_backend path"
  "p_tx_frame_count (fst (tbv_path_finish_raw_stream_if_needed path packet)) = p_tx_frame_count path"
  "p_tx_control_queued (fst (tbv_path_finish_raw_stream_if_needed path packet)) = p_tx_control_queued path"
  "p_tx_data_queued (fst (tbv_path_finish_raw_stream_if_needed path packet)) = p_tx_data_queued path"
  "p_tx_data_reserved (fst (tbv_path_finish_raw_stream_if_needed path packet)) = p_tx_data_reserved path"
  "p_tx_data_queue_limit (fst (tbv_path_finish_raw_stream_if_needed path packet)) = p_tx_data_queue_limit path"
  "p_tx_remote_data_credits (fst (tbv_path_finish_raw_stream_if_needed path packet)) = p_tx_remote_data_credits path"
  "p_tx_remote_data_credit_max (fst (tbv_path_finish_raw_stream_if_needed path packet)) = p_tx_remote_data_credit_max path"
  "p_rx_data_credit_pending (fst (tbv_path_finish_raw_stream_if_needed path packet)) = p_rx_data_credit_pending path"
  "p_tx_free (fst (tbv_path_finish_raw_stream_if_needed path packet)) = p_tx_free path"
  "p_tx_control_queue (fst (tbv_path_finish_raw_stream_if_needed path packet)) = p_tx_control_queue path"
  "p_tx_data_queue (fst (tbv_path_finish_raw_stream_if_needed path packet)) = p_tx_data_queue path"
  "p_tx_inflight (fst (tbv_path_finish_raw_stream_if_needed path packet)) = p_tx_inflight path"
  "p_tx_scheduling (fst (tbv_path_finish_raw_stream_if_needed path packet)) = p_tx_scheduling path"
  "p_tx_closed (fst (tbv_path_finish_raw_stream_if_needed path packet)) = p_tx_closed path"
  "p_ring (fst (tbv_path_finish_raw_stream_if_needed path packet)) = p_ring path"
  "p_log (fst (tbv_path_finish_raw_stream_if_needed path packet)) = p_log path"
  by (auto simp: tbv_path_finish_raw_stream_if_needed_def finish_raw_stream_locked_def Let_def
      clear_raw_stream_def)

lemma finish_raw_packet [simp]:
  "snd (tbv_path_finish_raw_stream_if_needed path packet) = packet\<lparr>pk_raw_stream_counted := False\<rparr>"
  by (auto simp: tbv_path_finish_raw_stream_if_needed_def intro!: tbv_tx_packet.equality)

lemma put_data_frame [simp]:
  "p_state (put_data packet path) = p_state path"
  "p_cfg (put_data packet path) = p_cfg path"
  "p_backend (put_data packet path) = p_backend path"
  "p_tx_frame_count (put_data packet path) = p_tx_frame_count path"
  "p_tx_control_queued (put_data packet path) = p_tx_control_queued path"
  "p_tx_data_reserved (put_data packet path) = p_tx_data_reserved path"
  "p_tx_data_queue_limit (put_data packet path) = p_tx_data_queue_limit path"
  "p_tx_remote_data_credits (put_data packet path) = p_tx_remote_data_credits path"
  "p_tx_remote_data_credit_max (put_data packet path) = p_tx_remote_data_credit_max path"
  "p_rx_data_credit_pending (put_data packet path) = p_rx_data_credit_pending path"
  "p_tx_free (put_data packet path) = p_tx_free path"
  "p_tx_control_queue (put_data packet path) = p_tx_control_queue path"
  "p_tx_inflight (put_data packet path) = p_tx_inflight path"
  "p_tx_scheduling (put_data packet path) = p_tx_scheduling path"
  "p_tx_closed (put_data packet path) = p_tx_closed path"
  "p_ring (put_data packet path) = p_ring path"
  "p_tx_raw_stream_active (put_data packet path) = p_tx_raw_stream_active path"
  "p_tx_raw_stream_end_seen (put_data packet path) = p_tx_raw_stream_end_seen path"
  "p_tx_raw_stream_inflight (put_data packet path) = p_tx_raw_stream_inflight path"
  "p_tx_raw_stream_owner (put_data packet path) = p_tx_raw_stream_owner path"
  by (simp_all add: put_data_def emit_def)

lemma put_group_frame [simp]:
  "p_state (put_group grp packets path) = p_state path"
  "p_cfg (put_group grp packets path) = p_cfg path"
  "p_backend (put_group grp packets path) = p_backend path"
  "p_tx_frame_count (put_group grp packets path) = p_tx_frame_count path"
  "p_tx_control_queued (put_group grp packets path) = p_tx_control_queued path"
  "p_tx_data_reserved (put_group grp packets path) = p_tx_data_reserved path"
  "p_tx_data_queue_limit (put_group grp packets path) = p_tx_data_queue_limit path"
  "p_tx_remote_data_credits (put_group grp packets path) = p_tx_remote_data_credits path"
  "p_tx_remote_data_credit_max (put_group grp packets path) = p_tx_remote_data_credit_max path"
  "p_rx_data_credit_pending (put_group grp packets path) = p_rx_data_credit_pending path"
  "p_tx_free (put_group grp packets path) = p_tx_free path"
  "p_tx_control_queue (put_group grp packets path) = p_tx_control_queue path"
  "p_tx_inflight (put_group grp packets path) = p_tx_inflight path"
  "p_tx_scheduling (put_group grp packets path) = p_tx_scheduling path"
  "p_tx_closed (put_group grp packets path) = p_tx_closed path"
  "p_ring (put_group grp packets path) = p_ring path"
  "p_tx_raw_stream_active (put_group grp packets path) = p_tx_raw_stream_active path"
  "p_tx_raw_stream_end_seen (put_group grp packets path) = p_tx_raw_stream_end_seen path"
  "p_tx_raw_stream_inflight (put_group grp packets path) = p_tx_raw_stream_inflight path"
  "p_tx_raw_stream_owner (put_group grp packets path) = p_tx_raw_stream_owner path"
  by (induction packets arbitrary: grp path) simp_all

section \<open>The queues\<close>

text \<open>The packets of a group as they enter the queue.\<close>

fun stamp :: "u32 \<Rightarrow> tbv_tx_packet list \<Rightarrow> tbv_tx_packet list" where
  "stamp grp [] = []"
| "stamp grp (packet # packets) =
     packet\<lparr>pk_start_credit_group_frames := grp, pk_queued := True\<rparr> # stamp 0 packets"

lemma length_stamp [simp]: "length (stamp grp packets) = length packets"
  by (induction grp packets rule: stamp.induct) simp_all

lemma put_group_queue:
  "p_tx_data_queue (put_group grp packets path) = p_tx_data_queue path @ stamp grp packets"
  "p_tx_data_queued (put_group grp packets path) = p_tx_data_queued path + of_nat (length packets)"
  "p_log (put_group grp packets path) = p_log path @ map Enqueued (stamp grp packets)"
  by (induction packets arbitrary: grp path) (simp_all add: put_data_def emit_def)

lemma list_all_stamp:
  assumes "\<And>packet g. P (packet\<lparr>pk_start_credit_group_frames := g, pk_queued := True\<rparr>) = P packet"
  shows "list_all P (stamp grp packets) = list_all P packets"
  by (induction grp packets rule: stamp.induct) (simp_all add: assms)

abbreviation is_control :: "tbv_tx_packet \<Rightarrow> bool" where
  "is_control packet \<equiv> pk_control packet \<and> \<not> pk_zcopy packet"

definition hand_data :: "tx_hand option \<Rightarrow> nat" where
  "hand_data hand = (case hand of None \<Rightarrow> 0 | Some h \<Rightarrow> if pk_control (h_packet h) then 0 else 1)"

text \<open>
  The counters are the lengths of the lists, the queues hold their own kind of packet, and the
  data queue with its reservations holds at most one packet more than its limit: the one the
  ring gave back.
\<close>

definition queue_ok :: "tx_sys \<Rightarrow> bool" where
  "queue_ok sys \<longleftrightarrow>
     (case sys of (path, hand) \<Rightarrow>
        p_tx_control_queued path = of_nat (length (p_tx_control_queue path))
        \<and> p_tx_data_queued path = of_nat (length (p_tx_data_queue path))
        \<and> length (p_tx_data_queue path) + unat (p_tx_data_reserved path) + hand_data hand
            \<le> Suc (unat (p_tx_data_queue_limit path))
        \<and> p_tx_data_queue_limit path \<noteq> U32_MAX
        \<and> list_all is_control (p_tx_control_queue path)
        \<and> list_all is_control (p_tx_control_free path)
        \<and> list_all (\<lambda>packet. \<not> pk_control packet) (p_tx_data_queue path)
        \<and> (hand \<noteq> None \<longrightarrow> p_tx_scheduling path)
        \<and> (case hand of None \<Rightarrow> True
             | Some h \<Rightarrow> pk_control (h_packet h) \<longrightarrow> \<not> pk_zcopy (h_packet h)))"

lemma limit_bound: "(limit :: u32) \<noteq> U32_MAX \<Longrightarrow> Suc (unat limit) < 4294967296"
  using word_order.not_eq_extremum [of limit]
  by (simp add: word_less_nat_alt unsigned_minus_1_eq_mask mask_eq_exp_minus_1)

lemma queue_length_unat:
  assumes "queue_ok (path, hand)"
  shows "unat (p_tx_data_queued path) = length (p_tx_data_queue path)"
    and "unat (p_tx_data_queued path + p_tx_data_reserved path)
          = length (p_tx_data_queue path) + unat (p_tx_data_reserved path)"
proof -
  have b: "length (p_tx_data_queue path) + unat (p_tx_data_reserved path) < 4294967296"
    and q: "p_tx_data_queued path = of_nat (length (p_tx_data_queue path))"
    using assms limit_bound [of "p_tx_data_queue_limit path"] by (auto simp: queue_ok_def)
  show u: "unat (p_tx_data_queued path) = length (p_tx_data_queue path)"
    using b q by (simp add: unat_of_nat)
  show "unat (p_tx_data_queued path + p_tx_data_reserved path)
          = length (p_tx_data_queue path) + unat (p_tx_data_reserved path)"
    using b u unat_add_u32 [of "p_tx_data_queued path" "p_tx_data_reserved path"] by simp
qed

lemma has_space_iff:
  assumes "queue_ok (path, hand)"
  shows "has_space cnt path \<longleftrightarrow>
    length (p_tx_data_queue path) + unat (p_tx_data_reserved path) + unat cnt
      \<le> unat (p_tx_data_queue_limit path)"
  using queue_length_unat(2) [OF assms]
  by (auto simp: has_space_def not_less word_le_nat_alt unat_sub_u32)

lemma release_control_free:
  "list_all is_control (p_tx_control_free (tbv_path_tx_packet_release packet status path))
     = list_all is_control (p_tx_control_free path)"
  by (auto simp: tbv_path_tx_packet_release_def Let_def emit_def split: option.splits)

lemma release_list_control_free:
  "list_all is_control (p_tx_control_free (tbv_path_release_packet_list packets status path))
     = list_all is_control (p_tx_control_free path)"
  by (induction packets arbitrary: path) (simp_all add: release_control_free)

lemma finish_raw_control_free [simp]:
  "p_tx_control_free (fst (tbv_path_finish_raw_stream_if_needed path packet)) = p_tx_control_free path"
  by (simp add: tbv_path_finish_raw_stream_if_needed_def finish_raw_stream_locked_def Let_def
      clear_raw_stream_def)

lemma put_group_control_free [simp]:
  "p_tx_control_free (put_group grp packets path) = p_tx_control_free path"
  by (induction packets arbitrary: grp path) (simp_all add: put_data_def emit_def)

lemma pick_None:
  assumes "hand = None" and "tx_pick nmax path = (path', hand)"
  shows "\<exists>s. path' = path\<lparr>p_data_tx_credit_stalls := s, p_tx_scheduling := False\<rparr>"
  using assms
  by (auto simp: tx_pick_def Let_def map_prod_def split: option.splits if_splits prod.splits
      intro: exI [of _ "p_data_tx_credit_stalls path"])

lemma queue_ok_pick:
  assumes "queue_ok (path, None)" and "p_tx_scheduling path"
  shows "queue_ok (tx_pick nmax path)"
proof (cases "tx_pick nmax path")
  case (Pair path' hand)
  show ?thesis
  proof (cases hand)
    case None
    then have "\<exists>s. path' = path\<lparr>p_data_tx_credit_stalls := s, p_tx_scheduling := False\<rparr>"
      using Pair by (rule pick_None)
    then show ?thesis
      using assms Pair None by (auto simp: queue_ok_def hand_data_def)
  next
    case (Some h)
    then have "tx_pick nmax path = (path', Some h)" using Pair by simp
    then obtain packet fc ns ch where s: "tx_select path = Some (packet, fc, ns)"
      and t: "tx_take path packet fc ns ch = (path', h)"
      by (rule tx_pick_Some)
    obtain rest where "if fc then p_tx_control_queue path = packet # rest
        else p_tx_data_queue path = packet # rest"
      using tx_select_queue [OF s] by (cases fc) auto
    then show ?thesis
      using assms t Pair Some by (cases fc) (auto simp: queue_ok_def hand_data_def tx_take_eq)
  qed
qed

lemma queue_ok_posted:
  "queue_ok (path, Some h) \<Longrightarrow> queue_ok (tx_posted path h, None)"
  by (auto simp: queue_ok_def tx_posted_def Let_def emit_def hand_data_def)

lemma queue_ok_refused:
  "queue_ok (path, Some h) \<Longrightarrow> queue_ok (tx_refused e path h, None)"
  by (auto simp: queue_ok_def tx_refused_def Let_def hand_data_def release_control_free
      case_prod_beta split: option.splits if_splits)

lemma queue_ok_retire:
  "queue_ok (path, hand) \<Longrightarrow> queue_ok (retire_locked d canceled path, hand)"
  by (auto simp: queue_ok_def retire_locked_def tx_complete_locked_def zcopy_tx_complete_locked_def
      tbv_path_tx_retire_one_def Let_def release_control_free case_prod_beta split: prod.splits option.splits)

lemma queue_ok_put_control:
  "queue_ok (path, hand) \<Longrightarrow>
   queue_ok (snd (enqueue_control_locked addr data len done done_ctx path), hand)"
  by (auto simp: queue_ok_def enqueue_control_locked_def Let_def emit_def fresh_packet_def
      split: list.splits option.splits)

lemma queue_ok_put_data:
  assumes "queue_ok (path, hand)" and "data_packet packet"
  shows "queue_ok (snd (enqueue_data_locked packet path), hand)"
proof (cases "fst (enqueue_data_locked packet path)")
  case (Inl e)
  then show ?thesis
    using assms(1) by (auto simp: enqueue_data_locked_def Let_def split: if_splits)
next
  case (Inr u)
  note q = queue_length_unat(1) [OF assms(1)]
  show ?thesis
  proof (cases "p_tx_data_reserved path = 0")
    case True
    then have "length (p_tx_data_queue path) < unat (p_tx_data_queue_limit path)"
      using Inr q by (auto simp: enqueue_data_locked_def word_le_nat_alt split: if_splits)
    then show ?thesis
      using assms Inr True
      by (auto simp: queue_ok_def enqueue_data_locked_def put_data_def emit_def data_packet_def
          hand_data_def split: if_splits option.splits)
  next
    case False
    then have "unat (p_tx_data_reserved path) = Suc (unat (p_tx_data_reserved path - 1))"
      using unat_pred_u32 [OF False] by (simp add: unat_gt_0)
    then show ?thesis
      using assms Inr False
      by (auto simp: queue_ok_def enqueue_data_locked_def put_data_def emit_def data_packet_def
          split: if_splits)
  qed
qed

text \<open>A group enters a queue that has room for it.\<close>

lemma queue_ok_put_group:
  assumes ok: "queue_ok (path, hand)" and "list_all data_packet packets"
    and room: "length (p_tx_data_queue path) + unat reserved + hand_data hand + length packets
      \<le> Suc (unat (p_tx_data_queue_limit path))"
  shows "queue_ok (put_group grp packets (path\<lparr>p_tx_data_reserved := reserved\<rparr>), hand)"
proof -
  have "list_all (\<lambda>packet. \<not> pk_control packet) (stamp grp packets)"
    using assms(2) by (subst list_all_stamp) (auto simp: list_all_iff data_packet_def)
  then show ?thesis
    using ok room by (auto simp: queue_ok_def put_group_queue)
qed

lemma hand_data_le_1: "hand_data hand \<le> 1"
  by (simp add: hand_data_def split: option.splits)

lemma client_list_unat: "client_list packets \<Longrightarrow> unat (of_nat (length packets) :: u32) = length packets"
  by (simp add: client_list_def unat_of_nat)

lemma queue_ok_put_list:
  assumes "queue_ok (path, hand)" and "client_list packets"
  shows "queue_ok (snd (enqueue_data_list_locked packets (of_nat (length packets)) path), hand)"
proof -
  have "queue_ok (put_group (of_nat (length packets))
      packets (path\<lparr>p_tx_data_reserved := p_tx_data_reserved path\<rparr>), hand)"
    if "has_space (of_nat (length packets)) path"
    using that has_space_iff [OF assms(1)] client_list_unat [OF assms(2)] assms(2)
      hand_data_le_1 [of hand]
    by (intro queue_ok_put_group [OF assms(1)]) (auto simp: client_list_def)
  then show ?thesis
    using assms(1) by (simp add: enqueue_data_list_locked_def)
qed

lemma queue_ok_put_reserved:
  assumes "queue_ok (path, hand)" and "client_list packets"
  shows "queue_ok (snd (enqueue_reserved_data_list_locked packets (of_nat (length packets)) path), hand)"
proof -
  let ?n = "of_nat (length packets) :: u32"
  have "unat (p_tx_data_reserved path) = unat (p_tx_data_reserved path - ?n) + length packets"
    if "\<not> p_tx_data_reserved path < ?n"
    using that client_list_unat [OF assms(2)] by (simp add: unat_sub_u32 word_le_nat_alt not_less)
  then have "queue_ok (put_group ?n packets
      (path\<lparr>p_tx_data_reserved := p_tx_data_reserved path - ?n\<rparr>), hand)"
    if "\<not> p_tx_data_reserved path < ?n"
    using that assms
    by (intro queue_ok_put_group [OF assms(1)]) (auto simp: client_list_def queue_ok_def)
  then show ?thesis
    using assms(1) by (simp add: enqueue_reserved_data_list_locked_def)
qed

lemma queue_ok_reserve:
  assumes "queue_ok (path, hand)"
  shows "queue_ok (snd (tbv_path_reserve_data frames path), hand)"
proof -
  have "unat (p_tx_data_reserved path + frames) = unat (p_tx_data_reserved path) + unat frames
      \<and> length (p_tx_data_queue path) + unat (p_tx_data_reserved path) + unat frames
        \<le> unat (p_tx_data_queue_limit path)" if "has_space frames path"
    using that has_space_iff [OF assms] unat_less_2p32 [of "p_tx_data_queue_limit path"]
      unat_add_u32 [of "p_tx_data_reserved path" frames]
    by simp
  then show ?thesis
    using assms hand_data_le_1 [of hand] by (auto simp: tbv_path_reserve_data_def queue_ok_def)
qed

lemma queue_ok_unreserve:
  assumes "queue_ok (path, hand)"
  shows "queue_ok (tbv_path_release_data_reservation frames path, hand)"
  using assms
  by (auto simp: tbv_path_release_data_reservation_def queue_ok_def unat_sub_u32)

lemma no_match: "(done = None \<or> done_ctx = None) \<and> owner_ctx = None \<Longrightarrow>
   \<not> tbv_path_packet_matches packet done done_ctx owner_ctx"
  by (auto simp: tbv_path_packet_matches_def)

lemma cancel_frame [simp]:
  "p_tx_control_queued (cancel_data_match_locked done done_ctx owner_ctx path) = p_tx_control_queued path"
  "p_tx_data_reserved (cancel_data_match_locked done done_ctx owner_ctx path) = p_tx_data_reserved path"
  "p_tx_data_queue_limit (cancel_data_match_locked done done_ctx owner_ctx path) = p_tx_data_queue_limit path"
  "p_tx_control_queue (cancel_data_match_locked done done_ctx owner_ctx path) = p_tx_control_queue path"
  "p_tx_scheduling (cancel_data_match_locked done done_ctx owner_ctx path) = p_tx_scheduling path"
  "p_tx_inflight (cancel_data_match_locked done done_ctx owner_ctx path) = p_tx_inflight path"
  "p_tx_free (cancel_data_match_locked done done_ctx owner_ctx path) = p_tx_free path"
  "p_tx_frame_count (cancel_data_match_locked done done_ctx owner_ctx path) = p_tx_frame_count path"
  "p_tx_remote_data_credits (cancel_data_match_locked done done_ctx owner_ctx path) = p_tx_remote_data_credits path"
  "p_tx_remote_data_credit_max (cancel_data_match_locked done done_ctx owner_ctx path) = p_tx_remote_data_credit_max path"
  "p_state (cancel_data_match_locked done done_ctx owner_ctx path) = p_state path"
  "p_cfg (cancel_data_match_locked done done_ctx owner_ctx path) = p_cfg path"
  "p_backend (cancel_data_match_locked done done_ctx owner_ctx path) = p_backend path"
  "p_tx_closed (cancel_data_match_locked done done_ctx owner_ctx path) = p_tx_closed path"
  by (simp_all add: cancel_data_match_locked_def Let_def clear_raw_stream_def)

lemma cancel_queue:
  fixes dn dc ow
  defines "m \<equiv> \<lambda>packet. tbv_path_packet_matches packet dn dc ow"
  shows "p_tx_data_queue (cancel_data_match_locked dn dc ow path)
       = filter (\<lambda>packet. \<not> m packet) (p_tx_data_queue path)"
    and "p_tx_data_queued (cancel_data_match_locked dn dc ow path)
       = of_nat (unat (p_tx_data_queued path) - length (filter m (p_tx_data_queue path)))"
    and "p_ring (cancel_data_match_locked dn dc ow path)
       = map (map_prod id (mark_canceled (\<lambda>packet. \<not> is_control packet \<and> m packet))) (p_ring path)"
  using no_match [of dn dc ow]
  by (simp_all add: cancel_data_match_locked_def Let_def clear_raw_stream_def m_def
      mark_canceled_def map_prod_def)

lemma cancel_control_free:
  "list_all is_control (p_tx_control_free (cancel_data_match_locked done done_ctx owner_ctx path))
     = list_all is_control (p_tx_control_free path)"
  by (simp add: cancel_data_match_locked_def Let_def clear_raw_stream_def release_list_control_free)

lemma queue_ok_cancel:
  assumes "queue_ok (path, hand)"
  shows "queue_ok (cancel_data_match_locked done done_ctx owner_ctx path, hand)"
proof -
  let ?m = "\<lambda>packet. tbv_path_packet_matches packet done done_ctx owner_ctx"
  let ?q = "p_tx_data_queue path"
  have "length (filter ?m ?q) + length (filter (\<lambda>x. \<not> ?m x) ?q) = length ?q"
    by (rule sum_length_filter_compl)
  then have "unat (p_tx_data_queued path) - length (filter ?m ?q) = length (filter (\<lambda>x. \<not> ?m x) ?q)"
    and "length (filter (\<lambda>x. \<not> ?m x) ?q) + unat (p_tx_data_reserved path) + hand_data hand
      \<le> Suc (unat (p_tx_data_queue_limit path))"
    using queue_length_unat(1) [OF assms] assms by (auto simp: queue_ok_def)
  moreover have "list_all (\<lambda>packet. \<not> pk_control packet) (filter (\<lambda>x. \<not> ?m x) ?q)"
    using assms by (auto simp: queue_ok_def list_all_iff)
  ultimately show ?thesis
    using assms unfolding queue_ok_def by (simp add: cancel_queue cancel_control_free)
qed

lemma queue_ok_cancel_hand:
  "queue_ok (path, Some h) \<Longrightarrow> queue_ok (path, Some (cancel_hand done done_ctx owner_ctx h))"
  by (auto simp: queue_ok_def cancel_hand_def mark_canceled_def hand_data_def)

lemma queue_ok_cancel_queued:
  "queue_ok (path, hand) \<Longrightarrow> queue_ok (tbv_path_cancel_queued_tx_status status path, hand)"
  by (auto simp: queue_ok_def tbv_path_cancel_queued_tx_status_def Let_def clear_raw_stream_def
      release_list_control_free)

lemma queue_ok_step:
  assumes "queue_ok (path, hand)"
  shows "queue_ok (tx_step nmax l (path, hand))"
proof (cases l)
  case Pick
  then show ?thesis using assms queue_ok_pick by auto
next
  case (Ring r)
  then show ?thesis
    using assms by (cases hand; cases r) (simp_all add: queue_ok_posted queue_ok_refused)
next
  case (Cancel dn dc ow seen)
  then show ?thesis
    using queue_ok_cancel [OF assms, of dn dc ow]
    by (cases hand) (auto intro: queue_ok_cancel_hand)
qed (use assms in \<open>auto simp: queue_ok_retire queue_ok_put_control queue_ok_put_data
  queue_ok_put_list queue_ok_put_reserved queue_ok_reserve queue_ok_unreserve
  queue_ok_cancel_queued\<close>,
  auto simp: queue_ok_def add_remote_rx_credits_locked_def Let_def
    set_remote_rx_capacity_locked_def tbv_path_close_tx_def open_tx_locked_def)

section \<open>Evaluation\<close>

text \<open>The definitions with which the simplifier evaluates a run on a concrete path.\<close>

lemmas path_eval =
  tbv_path_init_def tbv_path_init_common_def tbv_path_default_config_def
  tbv_path_tx_admits_locked_def tx_pick_def tx_select_def tx_has_room_def tx_take_eq
  joins_stream_def tbv_path_tx_inflight_limit_def tbv_path_tx_control_frame_reserve_def
  clamp_u32_def tbv_native_data_start_credit_required_def
  tbv_native_data_credit_return_threshold_def fresh_packet_def tx_posted_def tx_refused_def
  retire_locked_def tx_complete_locked_def zcopy_tx_complete_locked_def retire_status_def
  tbv_path_tx_retire_one_def tbv_path_finish_raw_stream_if_needed_def finish_raw_stream_locked_def
  clear_raw_stream_def
  tbv_path_tx_packet_release_def enqueue_control_locked_def enqueue_data_locked_def
  enqueue_data_list_locked_def enqueue_reserved_data_list_locked_def has_space_def put_data_def
  emit_def cancel_data_match_locked_def tbv_path_packet_matches_def mark_canceled_def
  data_packet_def client_list_def tbv_path_reserve_data_def tbv_path_data_space_available_def
  add_remote_rx_credits_locked_def word_le_nat_alt word_less_nat_alt Let_def

end
