(* ===== verification/Path_History.thy ===== *)
theory Path_History
  imports Path_Run
begin

text \<open>
  The history of a path over all interleavings: no packet is lost or released twice, callbacks
  run once, and the ring sees the packets of each kind in the order the client queued them.
\<close>

section \<open>The history\<close>

text \<open>
  What identifies a packet for its client: its address and its callback. The address of a
  pooled packet is used again, so packets are counted, not only compared.
\<close>

definition key :: "tbv_tx_packet \<Rightarrow> nat \<times> nat ptr \<times> nat ptr" where
  "key packet = (pk_addr packet, pk_done packet, pk_done_ctx packet)"

lemma key_upd [simp]:
  "key (packet\<lparr>pk_start_credit_group_frames := g\<rparr>) = key packet"
  "key (packet\<lparr>pk_queued := q\<rparr>) = key packet"
  "key (packet\<lparr>pk_inflight := q\<rparr>) = key packet"
  "key (packet\<lparr>pk_raw_stream_counted := q\<rparr>) = key packet"
  "key (packet\<lparr>pk_canceled := q\<rparr>) = key packet"
  "key (packet\<lparr>pk_owner_ctx := ow\<rparr>) = key packet"
  by (simp_all add: key_def)

lemma key_mark [simp]: "key (mark_canceled m packet) = key packet"
  by (simp add: mark_canceled_def)

fun enqueued :: "path_event list \<Rightarrow> tbv_tx_packet list" where
  "enqueued [] = []"
| "enqueued (Enqueued packet # evs) = packet # enqueued evs"
| "enqueued (_ # evs) = enqueued evs"

fun posted :: "path_event list \<Rightarrow> tbv_tx_packet list" where
  "posted [] = []"
| "posted (Posted packet # evs) = packet # posted evs"
| "posted (_ # evs) = posted evs"

fun released :: "path_event list \<Rightarrow> (tbv_tx_packet \<times> errno ptr) list" where
  "released [] = []"
| "released (Released packet status # evs) = (packet, status) # released evs"
| "released (_ # evs) = released evs"

fun calls :: "path_event list \<Rightarrow> (nat \<times> nat ptr \<times> errno ptr) list" where
  "calls [] = []"
| "calls (Done dn dc status # evs) = (dn, dc, status) # calls evs"
| "calls (_ # evs) = calls evs"

lemma log_append [simp]:
  "enqueued (xs @ ys) = enqueued xs @ enqueued ys"
  "posted (xs @ ys) = posted xs @ posted ys"
  "released (xs @ ys) = released xs @ released ys"
  "calls (xs @ ys) = calls xs @ calls ys"
  subgoal by (induction xs rule: enqueued.induct) simp_all
  subgoal by (induction xs rule: posted.induct) simp_all
  subgoal by (induction xs rule: released.induct) simp_all
  subgoal by (induction xs rule: calls.induct) simp_all
  done

lemma log_enqueued_map [simp]:
  "enqueued (map Enqueued packets) = packets" "posted (map Enqueued packets) = []"
  "released (map Enqueued packets) = []" "calls (map Enqueued packets) = []"
  by (induction packets) simp_all

text \<open>The callback a released packet is owed.\<close>

fun owed :: "tbv_tx_packet \<times> errno ptr \<Rightarrow> (nat \<times> nat ptr \<times> errno ptr) list" where
  "owed (packet, status) =
     (case pk_done packet of None \<Rightarrow> [] | Some dn \<Rightarrow> [(dn, pk_done_ctx packet, status)])"

lemma release_history:
  "enqueued (p_log (tbv_path_tx_packet_release packet status path)) = enqueued (p_log path)"
  "posted (p_log (tbv_path_tx_packet_release packet status path)) = posted (p_log path)"
  "released (p_log (tbv_path_tx_packet_release packet status path))
     = released (p_log path) @ [(packet, status)]"
  "calls (p_log (tbv_path_tx_packet_release packet status path))
     = calls (p_log path) @ owed (packet, status)"
  by (simp_all add: release_log split: option.splits)

lemma release_list_history:
  "enqueued (p_log (tbv_path_release_packet_list packets status path)) = enqueued (p_log path)"
  "posted (p_log (tbv_path_release_packet_list packets status path)) = posted (p_log path)"
  "released (p_log (tbv_path_release_packet_list packets status path))
     = released (p_log path) @ map (\<lambda>packet. (packet, status)) packets"
  "calls (p_log (tbv_path_release_packet_list packets status path))
     = calls (p_log path) @ concat (map (\<lambda>packet. owed (packet, status)) packets)"
  by (induction packets arbitrary: path) (simp_all add: release_history)

text \<open>The packets the path is responsible for.\<close>

definition hand_packets :: "tx_hand option \<Rightarrow> tbv_tx_packet list" where
  "hand_packets hand = (case hand of None \<Rightarrow> [] | Some h \<Rightarrow> [h_packet h])"

lemma hand_packets_simps [simp]: "hand_packets None = []" "hand_packets (Some h) = [h_packet h]"
  by (simp_all add: hand_packets_def)

definition held :: "tx_sys \<Rightarrow> tbv_tx_packet list" where
  "held sys = (case sys of (path, hand) \<Rightarrow>
     p_tx_control_queue path @ p_tx_data_queue path @ hand_packets hand @ map snd (p_ring path))"

text \<open>
  Conservation: every packet that entered a queue is still held or has been released, as often
  as it entered; the callbacks that ran are those owed by the released packets.
\<close>

definition conserved :: "tx_sys \<Rightarrow> bool" where
  "conserved sys \<longleftrightarrow>
     (case sys of (path, hand) \<Rightarrow>
        mset (map key (enqueued (p_log path)))
          = mset (map key (held sys)) + mset (map (key \<circ> fst) (released (p_log path)))
        \<and> calls (p_log path) = concat (map owed (released (p_log path)))
        \<and> p_tx_inflight path = of_nat (length (p_ring path) + length (hand_packets hand)))"

text \<open>
  Order: the frames given to the ring, then the packet in hand, then the queue, are in the order
  in which they entered, for the data packets and for the control packets.
\<close>

definition sel :: "bool \<Rightarrow> tbv_tx_packet list \<Rightarrow> (nat \<times> nat ptr \<times> nat ptr) list" where
  "sel ctl packets = map key (filter (\<lambda>packet. pk_control packet = ctl) packets)"

lemma sel_simps [simp]:
  "sel ctl [] = []"
  "sel ctl (packet # packets) = (if pk_control packet = ctl then [key packet] else []) @ sel ctl packets"
  "sel ctl (xs @ ys) = sel ctl xs @ sel ctl ys"
  by (simp_all add: sel_def)

definition ordered :: "tx_sys \<Rightarrow> bool" where
  "ordered sys \<longleftrightarrow>
     (case sys of (path, hand) \<Rightarrow>
        subseq (sel False (posted (p_log path)) @ sel False (hand_packets hand)
                @ sel False (p_tx_data_queue path)) (sel False (enqueued (p_log path)))
        \<and> subseq (sel True (posted (p_log path)) @ sel True (hand_packets hand)
                @ sel True (p_tx_control_queue path)) (sel True (enqueued (p_log path))))"

section \<open>Conservation\<close>

lemma conserved_pick:
  assumes "conserved (path, None)" and "queue_ok (path, None)"
  shows "conserved (tx_pick nmax path)"
proof (cases "tx_pick nmax path")
  case (Pair path' hand)
  show ?thesis
  proof (cases hand)
    case None
    then have "\<exists>s. path' = path\<lparr>p_data_tx_credit_stalls := s, p_tx_scheduling := False\<rparr>"
      using Pair by (rule pick_None)
    then show ?thesis
      using assms Pair None by (auto simp: conserved_def held_def)
  next
    case (Some h)
    then have "tx_pick nmax path = (path', Some h)" using Pair by simp
    then obtain packet fc ns ch where s: "tx_select path = Some (packet, fc, ns)"
      and t: "tx_take path packet fc ns ch = (path', h)"
      by (rule tx_pick_Some)
    obtain rest where "if fc then p_tx_control_queue path = packet # rest
        else p_tx_data_queue path = packet # rest"
      using tx_select_queue [OF s] by (cases fc) auto
    then show ?thesis
      using assms(1) t Pair Some by (cases fc) (auto simp: conserved_def held_def tx_take_eq)
  qed
qed

lemma conserved_posted:
  "conserved (path, Some h) \<Longrightarrow> conserved (tx_posted path h, None)"
  by (auto simp: conserved_def held_def tx_posted_def Let_def emit_def)

lemma conserved_refused:
  "conserved (path, Some h) \<Longrightarrow> conserved (tx_refused e path h, None)"
  by (auto simp: conserved_def held_def tx_refused_def Let_def release_history
      case_prod_beta split: option.splits if_splits)

lemma conserved_retire:
  assumes "conserved (path, hand)" and "d \<in> set (p_ring path)"
  shows "conserved (retire_locked d canceled path, hand)"
proof -
  obtain f packet where d: "d = (f, packet)" by (cases d)
  have "mset (p_ring path) = add_mset d (mset (remove1 d (p_ring path)))"
    using assms(2) by simp
  then have "image_mset (key \<circ> snd) (mset (p_ring path))
      = image_mset (key \<circ> snd) (add_mset d (mset (remove1 d (p_ring path))))"
    by (rule arg_cong)
  then have m: "image_mset (\<lambda>x. key (snd x)) (mset (p_ring path))
      = add_mset (key packet) (image_mset (\<lambda>x. key (snd x)) (mset (remove1 d (p_ring path))))"
    using d by (simp only: image_mset_add_mset comp_def snd_conv)
  have l: "length (p_ring path) = Suc (length (remove1 d (p_ring path)))"
    using assms(2) length_pos_if_in_set [OF assms(2)] by (simp add: length_remove1)
  show ?thesis
    using assms(1) m l unfolding d
    by (cases f) (simp_all del: mset_remove1 add: conserved_def held_def retire_locked_def
        tx_complete_locked_def zcopy_tx_complete_locked_def tbv_path_tx_retire_one_def Let_def
        release_history comp_def case_prod_beta)
qed

lemma conserved_put_control:
  "conserved (path, hand) \<Longrightarrow>
   conserved (snd (enqueue_control_locked addr data len done done_ctx path), hand)"
  by (auto simp: conserved_def held_def enqueue_control_locked_def Let_def emit_def
      split: list.splits option.splits)

lemma conserved_put_data:
  "conserved (path, hand) \<Longrightarrow> conserved (snd (enqueue_data_locked packet path), hand)"
  by (auto simp: conserved_def held_def enqueue_data_locked_def Let_def put_data_def emit_def)

lemma conserved_put_group:
  "conserved (path, hand) \<Longrightarrow>
   conserved (put_group grp packets (path\<lparr>p_tx_data_reserved := r\<rparr>), hand)"
  by (auto simp: conserved_def held_def put_group_queue)

lemma conserved_put_list:
  "conserved (path, hand) \<Longrightarrow> conserved (snd (enqueue_data_list_locked packets cnt path), hand)"
  using conserved_put_group [of path hand cnt packets "p_tx_data_reserved path"]
  by (simp add: enqueue_data_list_locked_def)

lemma conserved_put_reserved:
  "conserved (path, hand) \<Longrightarrow>
   conserved (snd (enqueue_reserved_data_list_locked packets cnt path), hand)"
  using conserved_put_group [of path hand cnt packets "p_tx_data_reserved path - cnt"]
  by (simp add: enqueue_reserved_data_list_locked_def)

lemma cancel_history:
  fixes dn dc ow
  defines "m \<equiv> \<lambda>packet. tbv_path_packet_matches packet dn dc ow"
  defines "gone \<equiv> \<lambda>path. map (\<lambda>packet. packet\<lparr>pk_queued := False, pk_owner_ctx := None\<rparr>)
      (filter m (p_tx_data_queue path))"
  shows "enqueued (p_log (cancel_data_match_locked dn dc ow path)) = enqueued (p_log path)"
    and "posted (p_log (cancel_data_match_locked dn dc ow path)) = posted (p_log path)"
    and "released (p_log (cancel_data_match_locked dn dc ow path))
       = released (p_log path) @ map (\<lambda>packet. (packet, Some ECANCELED)) (gone path)"
    and "calls (p_log (cancel_data_match_locked dn dc ow path))
       = calls (p_log path) @ concat (map (\<lambda>packet. owed (packet, Some ECANCELED)) (gone path))"
  using no_match [of dn dc ow]
  by (simp_all add: cancel_data_match_locked_def Let_def clear_raw_stream_def release_list_history
      m_def gone_def)

lemma mset_split_filter: "image_mset f (mset xs) =
   image_mset f (mset (filter P xs)) + image_mset f (mset (filter (\<lambda>x. \<not> P x) xs))"
  by (induction xs) simp_all

lemma conserved_cancel:
  assumes "conserved (path, hand)"
  shows "conserved (cancel_data_match_locked dn dc ow path, hand)"
proof -
  let ?m = "\<lambda>packet. tbv_path_packet_matches packet dn dc ow"
  have "image_mset key (mset (p_tx_data_queue path))
      = image_mset key (mset (filter ?m (p_tx_data_queue path)))
        + image_mset key (mset (filter (\<lambda>x. \<not> ?m x) (p_tx_data_queue path)))"
    by (rule mset_split_filter)
  then show ?thesis
    using assms
    by (simp del: mset_filter add: conserved_def held_def cancel_queue cancel_history comp_def
        image_mset.compositionality)
qed

lemma conserved_cancel_hand:
  "conserved (path, hand) \<Longrightarrow> conserved (path, map_option (cancel_hand dn dc ow) hand)"
  by (cases hand) (auto simp: conserved_def held_def cancel_hand_def)

lemma conserved_cancel_queued:
  "conserved (path, hand) \<Longrightarrow> conserved (tbv_path_cancel_queued_tx_status status path, hand)"
  by (simp add: conserved_def held_def tbv_path_cancel_queued_tx_status_def Let_def
      clear_raw_stream_def release_list_history comp_def image_mset.compositionality)

lemma conserved_step:
  assumes "conserved (path, hand)" and "queue_ok (path, hand)"
  shows "conserved (tx_step nmax l (path, hand))"
proof (cases l)
  case Pick
  then show ?thesis using assms conserved_pick by auto
next
  case (Ring r)
  then show ?thesis
    using assms by (cases hand; cases r) (simp_all add: conserved_posted conserved_refused)
next
  case (Cancel dn dc ow seen)
  then show ?thesis
    using conserved_cancel [OF assms(1), of dn dc ow] conserved_cancel_hand by simp
qed (use assms in \<open>auto simp: conserved_retire conserved_put_control conserved_put_data
  conserved_put_list conserved_put_reserved conserved_cancel_queued\<close>,
  auto simp: conserved_def held_def add_remote_rx_credits_locked_def Let_def
    tbv_path_reserve_data_def tbv_path_release_data_reservation_def
    set_remote_rx_capacity_locked_def tbv_path_close_tx_def open_tx_locked_def)

section \<open>Order\<close>

lemma subseq_drop_one: "subseq (a @ x # c) d \<Longrightarrow> subseq (a @ c) d"
proof -
  assume "subseq (a @ x # c) d"
  moreover have "subseq (a @ c) (a @ x # c)"
    by (intro list_emb_append_mono) auto
  ultimately show ?thesis by (rule subseq_order.trans [rotated])
qed

lemma subseq_thin: "subseq (a @ b @ c) d \<Longrightarrow> subseq c' c \<Longrightarrow> subseq (a @ b @ c') d"
proof -
  assume *: "subseq (a @ b @ c) d" and "subseq c' c"
  then have "subseq (a @ b @ c') (a @ b @ c)"
    by (intro list_emb_append_mono) auto
  then show ?thesis using * by (rule subseq_order.trans)
qed

lemma subseq_snoc: "subseq (a @ b @ c) d \<Longrightarrow> subseq (a @ b @ c @ x) (d @ x)"
  using list_emb_append_mono [of "(=)" "a @ b @ c" d x x] by simp

lemma sel_all: "list_all (\<lambda>packet. pk_control packet = ctl) packets \<Longrightarrow> sel ctl packets = map key packets"
  by (simp add: sel_def list_all_iff filter_id_conv)

lemma sel_none: "list_all (\<lambda>packet. pk_control packet \<noteq> ctl) packets \<Longrightarrow> sel ctl packets = []"
  by (simp add: sel_def list_all_iff)

lemma sel_stamp:
  "list_all data_packet packets \<Longrightarrow> sel False (stamp grp packets) = map key packets"
  "list_all data_packet packets \<Longrightarrow> sel True (stamp grp packets) = []"
  by (induction grp packets rule: stamp.induct) (simp_all add: data_packet_def)

lemma subseq_sel_filter: "subseq (sel ctl (filter P packets)) (sel ctl packets)"
  by (induction packets) (auto intro: list_emb_append2)

lemma ordered_pick:
  assumes "ordered (path, None)" and "queue_ok (path, None)"
  shows "ordered (tx_pick nmax path)"
proof (cases "tx_pick nmax path")
  case (Pair path' hand)
  show ?thesis
  proof (cases hand)
    case None
    then have "\<exists>s. path' = path\<lparr>p_data_tx_credit_stalls := s, p_tx_scheduling := False\<rparr>"
      using Pair by (rule pick_None)
    then show ?thesis
      using assms Pair None by (auto simp: ordered_def)
  next
    case (Some h)
    then have "tx_pick nmax path = (path', Some h)" using Pair by simp
    then obtain packet fc ns ch where s: "tx_select path = Some (packet, fc, ns)"
      and t: "tx_take path packet fc ns ch = (path', h)"
      by (rule tx_pick_Some)
    obtain rest where "if fc then p_tx_control_queue path = packet # rest
        else p_tx_data_queue path = packet # rest"
      using tx_select_queue [OF s] by (cases fc) auto
    then show ?thesis
      using assms t Pair Some
      by (cases fc) (auto simp: ordered_def tx_take_eq queue_ok_def)
  qed
qed

lemma ordered_posted: "ordered (path, Some h) \<Longrightarrow> ordered (tx_posted path h, None)"
  by (cases "pk_control (h_packet h)") (simp_all add: ordered_def tx_posted_def Let_def emit_def)

lemma ordered_refused:
  assumes "ordered (path, Some h)" and "queue_ok (path, Some h)"
  shows "ordered (tx_refused e path h, None)"
proof -
  have "\<not> (pk_control (h_packet h) \<and> pk_zcopy (h_packet h))"
    using assms(2) by (simp add: queue_ok_def)
  then show ?thesis
    using assms(1)
    by (auto simp: ordered_def tx_refused_def Let_def release_history
        case_prod_beta split: option.splits if_splits dest: subseq_drop_one)
qed

lemma ordered_retire:
  "ordered (path, hand) \<Longrightarrow> ordered (retire_locked d canceled path, hand)"
  by (auto simp: ordered_def retire_locked_def tx_complete_locked_def zcopy_tx_complete_locked_def
      tbv_path_tx_retire_one_def Let_def release_history case_prod_beta split: prod.splits option.splits)

lemma ordered_put_control:
  assumes "ordered (path, hand)" and "queue_ok (path, hand)"
  shows "ordered (snd (enqueue_control_locked addr data len done done_ctx path), hand)"
  using assms
  by (auto simp: ordered_def queue_ok_def enqueue_control_locked_def Let_def emit_def
      fresh_packet_def subseq_snoc split: list.splits option.splits)

lemma ordered_put_data:
  assumes "ordered (path, hand)" and "data_packet packet"
  shows "ordered (snd (enqueue_data_locked packet path), hand)"
  using assms
  by (auto simp: ordered_def enqueue_data_locked_def Let_def put_data_def emit_def data_packet_def
      subseq_snoc)

lemma ordered_put_group:
  assumes "ordered (path, hand)" and "list_all data_packet packets"
  shows "ordered (put_group grp packets (path\<lparr>p_tx_data_reserved := r\<rparr>), hand)"
  using assms by (simp add: ordered_def put_group_queue sel_stamp subseq_snoc)

lemma ordered_put_list:
  assumes "ordered (path, hand)" and "client_list packets"
  shows "ordered (snd (enqueue_data_list_locked packets cnt path), hand)"
  using assms ordered_put_group [of path hand packets cnt "p_tx_data_reserved path"]
  by (simp add: enqueue_data_list_locked_def client_list_def)

lemma ordered_put_reserved:
  assumes "ordered (path, hand)" and "client_list packets"
  shows "ordered (snd (enqueue_reserved_data_list_locked packets cnt path), hand)"
  using assms ordered_put_group [of path hand packets cnt "p_tx_data_reserved path - cnt"]
  by (simp add: enqueue_reserved_data_list_locked_def client_list_def)

lemma ordered_cancel:
  "ordered (path, hand) \<Longrightarrow> ordered (cancel_data_match_locked dn dc ow path, hand)"
  by (auto simp: ordered_def cancel_queue cancel_history intro: subseq_thin subseq_sel_filter)

lemma ordered_cancel_hand:
  "ordered (path, hand) \<Longrightarrow> ordered (path, map_option (cancel_hand dn dc ow) hand)"
  by (cases hand) (auto simp: ordered_def cancel_hand_def mark_canceled_def)

lemma ordered_cancel_queued:
  assumes "ordered (path, hand)"
  shows "ordered (tbv_path_cancel_queued_tx_status status path, hand)"
  using assms subseq_thin [of _ _ _ _ "[]"]
  by (fastforce simp: ordered_def tbv_path_cancel_queued_tx_status_def Let_def clear_raw_stream_def
      release_list_history)

lemma ordered_step:
  assumes "ordered (path, hand)" and "queue_ok (path, hand)"
  shows "ordered (tx_step nmax l (path, hand))"
proof (cases l)
  case Pick
  then show ?thesis using assms ordered_pick by auto
next
  case (Ring r)
  then show ?thesis
    using assms by (cases hand; cases r) (simp_all add: ordered_posted ordered_refused)
next
  case (Cancel dn dc ow seen)
  then show ?thesis
    using ordered_cancel [OF assms(1), of dn dc ow] ordered_cancel_hand by simp
qed (use assms in \<open>auto simp: ordered_retire ordered_put_control ordered_put_data
  ordered_put_list ordered_put_reserved ordered_cancel_queued\<close>,
  auto simp: ordered_def add_remote_rx_credits_locked_def Let_def
    tbv_path_reserve_data_def tbv_path_release_data_reservation_def
    set_remote_rx_capacity_locked_def tbv_path_close_tx_def open_tx_locked_def)

section \<open>Runs from an idle path\<close>

text \<open>
  A path whose rings and packet pools were just set up: nothing queued, reserved, posted or
  logged. The limit of the data queue is a multiple of 64, so it is not the largest integer.
\<close>

definition idle_path :: "tbv_path \<Rightarrow> bool" where
  "idle_path path \<longleftrightarrow>
     p_tx_control_queue path = [] \<and> p_tx_data_queue path = [] \<and> p_ring path = [] \<and> p_log path = []
     \<and> p_tx_control_queued path = 0 \<and> p_tx_data_queued path = 0 \<and> p_tx_data_reserved path = 0
     \<and> p_tx_inflight path = 0 \<and> p_tx_data_queue_limit path \<noteq> U32_MAX
     \<and> list_all is_control (p_tx_control_free path)
     \<and> \<not> p_tx_raw_stream_active path \<and> p_tx_raw_stream_inflight path = 0
     \<and> p_tx_remote_data_credits path \<le> p_tx_remote_data_credit_max path"

lemma idle_run:
  assumes "idle_path path"
  shows "queue_ok (tx_run nmax labels (path, None))"
    and "conserved (tx_run nmax labels (path, None))"
    and "ordered (tx_run nmax labels (path, None))"
proof -
  let ?P = "\<lambda>sys. queue_ok sys \<and> conserved sys \<and> ordered sys"
  have "?P (tx_run nmax labels (path, None))"
  proof (rule tx_run_invariant)
    show "?P (path, None)"
      using assms
      by (auto simp: idle_path_def queue_ok_def conserved_def ordered_def held_def hand_data_def)
  qed (auto intro: queue_ok_step conserved_step ordered_step)
  then show "queue_ok (tx_run nmax labels (path, None))"
    and "conserved (tx_run nmax labels (path, None))"
    and "ordered (tx_run nmax labels (path, None))" by auto
qed

text \<open>A native path with four staging frames and room for eight packets, and a run on it.\<close>

definition demo_path :: tbv_path where
  "demo_path =
     (tbv_path_init (tbv_path_default_config False False False TBV_BACKEND_NATIVE)
        (Some TBV_BACKEND_NATIVE))
     \<lparr>p_state := TBV_PATH_TUNNEL_ENABLED, p_tx_frame_count := 4, p_tx_free := [0, 1, 2, 3],
      p_tx_data_queue_limit := 8, p_tx_remote_data_credits := 2, p_tx_remote_data_credit_max := 2\<rparr>"

definition demo_packet :: "nat \<Rightarrow> tbv_tx_packet" where
  "demo_packet a = (fresh_packet a)\<lparr>pk_len := 64, pk_done := Some 7, pk_done_ctx := Some a,
     pk_owner_ctx := Some a\<rparr>"

definition demo_labels :: "tx_label list" where
  "demo_labels = [Put_data (demo_packet 100), Put_list [demo_packet 101, demo_packet 102],
     Put_control (Some 200) [1, 2] 2 None None, Enter, Pick, Ring None, Pick, Ring (Some ENOMEM),
     Cancel None None (Some 102) True, Enter, Pick, Ring None, Retire 1 False,
     Credits 1, Pick, Ring (Some ESHUTDOWN), Retire 0 True]"

lemma demo_idle: "idle_path demo_path"
  by (simp add: idle_path_def demo_path_def path_eval)

lemmas demo_eval = path_eval demo_path_def demo_packet_def demo_labels_def tbv_path_tx_retired_def

text \<open>
  C3: Whatever the interleaving of sends, scheduler rounds, answers of the ring, retirements
  and cancellations, every packet that entered a queue is either still held by the path (in a
  queue, in the hands of the scheduler or owned by the ring) or has been released, as often as
  it entered; and the callbacks that ran are those of the released packets, once each, in the
  order of release and with the status of the release.
\<close>

theorem packet_released_once:
  assumes "idle_path path" and "tx_run nmax labels (path, None) = (path', hand')"
  shows "mset (map key (enqueued (p_log path')))
           = mset (map key (held (path', hand'))) + mset (map (key \<circ> fst) (released (p_log path')))
         \<and> calls (p_log path') = concat (map owed (released (p_log path')))"
  using idle_run(2) [OF assms(1), of nmax labels] assms(2) by (auto simp: conserved_def)

theorem packet_released_once_witness:
  "let sys = tx_run 32 demo_labels (demo_path, None)
   in mset (map key (enqueued (p_log (fst sys))))
        = mset (map key (held sys)) + mset (map (key \<circ> fst) (released (p_log (fst sys))))
      \<and> map (pk_addr \<circ> fst) (released (p_log (fst sys))) = [102, 100, 101, 200]
      \<and> calls (p_log (fst sys)) = [(7, Some 102, Some ECANCELED), (7, Some 100, None),
           (7, Some 101, Some ESHUTDOWN)]"
proof -
  have "map (pk_addr \<circ> fst) (released (p_log (fst (tx_run 32 demo_labels (demo_path, None)))))
      = [102, 100, 101, 200]"
    "calls (p_log (fst (tx_run 32 demo_labels (demo_path, None))))
      = [(7, Some 102, Some ECANCELED), (7, Some 100, None), (7, Some 101, Some ESHUTDOWN)]"
    by (simp_all add: demo_eval)
  then show ?thesis
    using packet_released_once [OF demo_idle, of 32 demo_labels
        "fst (tx_run 32 demo_labels (demo_path, None))" "snd (tx_run 32 demo_labels (demo_path, None))"]
    by (simp add: Let_def)
qed

lemma retired_holds_nothing:
  assumes "conserved (path, hand)" and "tbv_path_tx_retired path"
    and "length (p_ring path) < 4294967295"
  shows "held (path, hand) = []"
proof -
  let ?n = "length (p_ring path) + length (hand_packets hand)"
  have "length (hand_packets hand) \<le> 1" by (cases hand) simp_all
  then have n: "?n < 4294967296" using assms(3) by simp
  have "(of_nat ?n :: u32) = 0"
    using assms(1,2) unfolding conserved_def tbv_path_tx_retired_def by simp
  then have "unat (of_nat ?n :: u32) = 0" by simp
  moreover have "unat (of_nat ?n :: u32) = ?n"
    using n by (simp only: unat_of_nat) simp
  ultimately have "?n = 0" by (rule trans [OF sym, rotated])
  then show ?thesis
    using assms(2) by (simp add: held_def tbv_path_tx_retired_def)
qed

text \<open>The callback of a packet, without its status.\<close>

definition callback :: "nat \<times> nat ptr \<times> nat ptr \<Rightarrow> (nat \<times> nat ptr) list" where
  "callback k = (case k of (a, dn, dc) \<Rightarrow> case dn of None \<Rightarrow> [] | Some d \<Rightarrow> [(d, dc)])"

lemma owed_callback: "map (\<lambda>(d, dc, st). (d, dc)) (owed ps) = callback (key (fst ps))"
  by (cases ps) (simp add: callback_def key_def split: option.splits)

lemma mset_concat_callback:
  "mset (map key xs) = mset (map key ys) \<Longrightarrow>
   mset (concat (map (callback \<circ> key) xs)) = mset (concat (map (callback \<circ> key) ys))"
proof -
  assume "mset (map key xs) = mset (map key ys)"
  then have "sum_mset (image_mset (\<lambda>k. mset (callback k)) (mset (map key xs)))
      = sum_mset (image_mset (\<lambda>k. mset (callback k)) (mset (map key ys)))" by simp
  moreover have "mset (concat (map (callback \<circ> key) zs))
      = sum_mset (image_mset (\<lambda>k. mset (callback k)) (mset (map key zs)))" for zs
    by (induction zs) simp_all
  ultimately show ?thesis by simp
qed

text \<open>
  C20: The ring receives the data packets in the order in which clients queued them, and so the
  control packets: the frames posted, then the packet in hand, then the waiting queue form a
  subsequence of the packets queued (those missing were cancelled or dropped). A packet the
  ring gave back keeps its place.
\<close>

theorem posting_keeps_order:
  assumes "idle_path path" and "tx_run nmax labels (path, None) = (path', hand')"
  shows "subseq (sel False (posted (p_log path')) @ sel False (hand_packets hand')
           @ sel False (p_tx_data_queue path')) (sel False (enqueued (p_log path')))
         \<and> subseq (sel True (posted (p_log path')) @ sel True (hand_packets hand')
           @ sel True (p_tx_control_queue path')) (sel True (enqueued (p_log path')))"
  using idle_run(3) [OF assms(1), of nmax labels] assms(2) by (auto simp: ordered_def)

theorem posting_keeps_order_witness:
  "let (path', hand') = tx_run 32 (take 13 demo_labels) (demo_path, None)
   in subseq (sel False (posted (p_log path')) @ sel False (hand_packets hand')
           @ sel False (p_tx_data_queue path')) (sel False (enqueued (p_log path')))
      \<and> map pk_addr (posted (p_log path')) = [200, 100]
      \<and> map pk_addr (enqueued (p_log path')) = [100, 101, 102, 200]"
proof -
  have "map pk_addr (posted (p_log (fst (tx_run 32 (take 13 demo_labels) (demo_path, None)))))
      = [200, 100]"
    "map pk_addr (enqueued (p_log (fst (tx_run 32 (take 13 demo_labels) (demo_path, None)))))
      = [100, 101, 102, 200]"
    by (simp_all add: demo_eval)
  then show ?thesis
    using posting_keeps_order [OF demo_idle, of 32 "take 13 demo_labels"
        "fst (tx_run 32 (take 13 demo_labels) (demo_path, None))"
        "snd (tx_run 32 (take 13 demo_labels) (demo_path, None))"]
    by (simp add: case_prod_beta)
qed

text \<open>
  The bound on the data queue and the test senders wait on. In every reachable state the
  queue and the reservations exceed the limit by at most one packet, the one the ring may give
  back; a reservation is refused for lack of room exactly when the sum would pass the limit;
  and the predicate a waiting sender sleeps on is true exactly when its reservation would not
  be refused for lack of room, or could never be granted.
\<close>

theorem reservation_spec:
  assumes "idle_path path" and "tx_run nmax labels (path, None) = (path', hand')"
    and "frames \<noteq> 0"
  shows "length (p_tx_data_queue path') + unat (p_tx_data_reserved path')
           \<le> Suc (unat (p_tx_data_queue_limit path'))
         \<and> (fst (tbv_path_reserve_data frames path') = Inl ENOMEM \<longleftrightarrow>
              tbv_path_tx_admits_locked path'
              \<and> unat (p_tx_data_queue_limit path')
                < length (p_tx_data_queue path') + unat (p_tx_data_reserved path') + unat frames)
         \<and> (tbv_path_data_space_available frames path' \<longleftrightarrow>
              fst (tbv_path_reserve_data frames path') \<noteq> Inl ENOMEM
              \<or> frames > p_tx_data_queue_limit path')"
proof -
  have ok: "queue_ok (path', hand')"
    using idle_run(1) [OF assms(1), of nmax labels] assms(2) by simp
  show ?thesis
    using ok assms(3) has_space_iff [OF ok, of frames] queue_length_unat(2) [OF ok]
    by (auto simp: tbv_path_reserve_data_def tbv_path_data_space_available_def has_space_def
        queue_ok_def not_less)
qed

theorem reservation_spec_witness:
  "let path' = fst (tx_run 32 (take 3 demo_labels) (demo_path, None))
   in length (p_tx_data_queue path') = 3
      \<and> fst (tbv_path_reserve_data 5 path') = Inr ()
      \<and> fst (tbv_path_reserve_data 6 path') = Inl ENOMEM
      \<and> \<not> tbv_path_data_space_available 6 path' \<and> tbv_path_data_space_available 9 path'"
proof -
  let ?S = "tx_run 32 (take 3 demo_labels) (demo_path, None)"
  have "length (p_tx_data_queue (fst ?S)) = 3" "fst (tbv_path_reserve_data 5 (fst ?S)) = Inr ()"
    "fst (tbv_path_reserve_data 6 (fst ?S)) = Inl ENOMEM" "p_tx_data_queue_limit (fst ?S) = 8"
    by (simp_all add: demo_eval)
  then show ?thesis
    using reservation_spec [OF demo_idle, of 32 "take 3 demo_labels" "fst ?S" "snd ?S" 6]
      reservation_spec [OF demo_idle, of 32 "take 3 demo_labels" "fst ?S" "snd ?S" 9]
    by (simp add: Let_def)
qed

end
