(* ===== verification/Path_Stream.thy ===== *)
theory Path_Stream
  imports Path_History
begin

text \<open>
  What the transmit side guarantees to its peer and to its own control traffic, over all
  interleavings: frames of a raw stream are never interleaved with other frames, credits stay
  within the window, and staging frames remain for control packets. The last section shows how
  a refusal of the ring that races with a retirement leaves a stream open for ever.
\<close>

section \<open>Raw streams on the ring\<close>

text \<open>
  The sequence of frames on the ring, read as the peer reads it. The state is the open stream:
  its owner, and whether the frame that ends it has been seen. A stream that has not ended
  admits only zero-copy frames of its owner; the answer \<open>None\<close> is a violation.
\<close>

type_synonym open_stream = "(nat ptr \<times> bool) option"

definition opens :: "tbv_tx_packet \<Rightarrow> open_stream" where
  "opens packet = (if pk_raw_stream_start packet
                   then Some (pk_owner_ctx packet, pk_raw_stream_end packet) else None)"

fun frame_step :: "open_stream \<Rightarrow> tbv_tx_packet \<Rightarrow> open_stream option" where
  "frame_step None packet = Some (opens packet)"
| "frame_step (Some (ow, ended)) packet =
     (if pk_zcopy packet \<and> \<not> pk_raw_stream_start packet \<and> pk_owner_ctx packet = ow
      then Some (Some (ow, ended \<or> pk_raw_stream_end packet))
      else if ended then Some (opens packet) else None)"

fun frames_read :: "open_stream \<Rightarrow> tbv_tx_packet list \<Rightarrow> open_stream option" where
  "frames_read s [] = Some s"
| "frames_read s (packet # packets) =
     (case frame_step s packet of None \<Rightarrow> None | Some s' \<Rightarrow> frames_read s' packets)"

lemma frames_read_append:
  "frames_read s (xs @ ys) = (case frames_read s xs of None \<Rightarrow> None | Some s' \<Rightarrow> frames_read s' ys)"
  by (induction xs arbitrary: s) (simp_all split: option.splits)

lemma frame_step_inflight [simp]: "frame_step s (packet\<lparr>pk_inflight := b\<rparr>) = frame_step s packet"
  by (cases "(s, packet)" rule: frame_step.cases) (simp_all add: opens_def)

lemma frame_step_closed:
  "s = None \<or> (\<exists>ow. s = Some (ow, True)) \<Longrightarrow>
   \<exists>s'. frame_step s packet = Some s' \<and>
     (if pk_raw_stream_start packet then s' = Some (pk_owner_ctx packet, pk_raw_stream_end packet)
      else s' = None \<or> (\<exists>ow. s' = Some (ow, True)))"
  by (elim disjE exE) (simp_all add: opens_def)

text \<open>The steps with no refusal of the ring and no cancellation.\<close>

fun undisturbed :: "tx_label \<Rightarrow> bool" where
  "undisturbed (Ring (Some e)) = False"
| "undisturbed (Cancel dn dc ow seen) = False"
| "undisturbed (Cancel_queued status) = False"
| "undisturbed _ = True"

definition owned :: "tx_sys \<Rightarrow> tbv_tx_packet list" where
  "owned sys = (case sys of (path, hand) \<Rightarrow> hand_packets hand @ map snd (p_ring path))"

definition counted :: "tx_sys \<Rightarrow> tbv_tx_packet list" where
  "counted sys = filter pk_raw_stream_counted (owned sys)"

text \<open>
  The counter of the stream is the number of its frames the ring has not retired; the stream is
  open as long as there is one; and the reading of the frames agrees with the stream fields.
\<close>

definition stream_rel ::
  "bool \<Rightarrow> nat ptr \<Rightarrow> bool \<Rightarrow> u32 \<Rightarrow> tbv_tx_packet list \<Rightarrow> open_stream \<Rightarrow> bool" where
  "stream_rel active ow end_seen n cs s \<longleftrightarrow>
     n = of_nat (length cs)
     \<and> (\<forall>packet\<in>set cs. active \<and> pk_owner_ctx packet = ow)
     \<and> (if active
        then \<exists>ended. s = Some (ow, ended) \<and> (end_seen \<longrightarrow> ended)
               \<and> (\<forall>packet\<in>set cs. pk_raw_stream_end packet \<longrightarrow> ended)
        else s = None \<or> (\<exists>o'. s = Some (o', True)))"

lemma rel_take_active:
  assumes "stream_rel True ow e n cs s"
    and "pk_zcopy packet" "\<not> pk_raw_stream_start packet" "pk_owner_ctx packet = ow"
    and "pk_owner_ctx packet' = ow" "pk_raw_stream_end packet' = pk_raw_stream_end packet"
  shows "\<exists>s'. frame_step s packet = Some s' \<and> stream_rel True ow e (n + 1) (packet' # cs) s'"
proof -
  obtain ended where s: "s = Some (ow, ended)" "e \<longrightarrow> ended"
    "\<forall>packet\<in>set cs. pk_raw_stream_end packet \<longrightarrow> ended"
    using assms(1) by (auto simp: stream_rel_def)
  then have "frame_step s packet = Some (Some (ow, ended \<or> pk_raw_stream_end packet))"
    using assms by simp
  then show ?thesis
    using s assms by (auto simp: stream_rel_def)
qed

lemma rel_take_inactive:
  assumes "stream_rel False ow e n cs s"
    and "pk_owner_ctx packet' = pk_owner_ctx packet"
    "pk_raw_stream_end packet' = pk_raw_stream_end packet"
  shows "cs = [] \<and> (\<exists>s'. frame_step s packet = Some s' \<and>
     (if pk_raw_stream_start packet then stream_rel True (pk_owner_ctx packet) False 1 [packet'] s'
      else stream_rel False ow e 0 [] s'))"
proof -
  have "cs = []" using assms(1) by (cases cs) (auto simp: stream_rel_def)
  moreover have "s = None \<or> (\<exists>o'. s = Some (o', True))" using assms(1) by (simp add: stream_rel_def)
  then obtain s' where "frame_step s packet = Some s'"
    "if pk_raw_stream_start packet then s' = Some (pk_owner_ctx packet, pk_raw_stream_end packet)
     else s' = None \<or> (\<exists>o'. s' = Some (o', True))"
    using frame_step_closed by blast
  ultimately show ?thesis
    using assms(2,3) by (auto simp: stream_rel_def)
qed

lemma rel_retire:
  assumes rel: "stream_rel active ow e n cs s" and mem: "packet \<in> set cs" and sub: "set cs' \<subseteq> set cs"
    and len: "length cs = Suc (length cs')"
  shows "active" and "ow = pk_owner_ctx packet" and "n = of_nat (length cs') + 1"
    and "stream_rel active ow (e \<or> pk_raw_stream_end packet) (of_nat (length cs')) cs' s"
    and "cs' = [] \<Longrightarrow> e \<or> pk_raw_stream_end packet \<Longrightarrow> stream_rel False None False 0 cs' s"
proof -
  show act: "active" and ow: "ow = pk_owner_ctx packet"
    using rel mem by (auto simp: stream_rel_def)
  show "n = of_nat (length cs') + 1"
    using rel len by (simp add: stream_rel_def)
  obtain ended where s: "s = Some (ow, ended)" and e: "e \<longrightarrow> ended"
    and c: "\<forall>packet\<in>set cs. pk_raw_stream_end packet \<longrightarrow> ended"
    using rel act by (auto simp: stream_rel_def)
  have e': "e \<or> pk_raw_stream_end packet \<longrightarrow> ended" using e c mem by blast
  have own: "\<forall>packet\<in>set cs'. active \<and> pk_owner_ctx packet = ow"
    using rel sub unfolding stream_rel_def by blast
  have c': "\<forall>packet\<in>set cs'. pk_raw_stream_end packet \<longrightarrow> ended" using c sub by blast
  show "stream_rel active ow (e \<or> pk_raw_stream_end packet) (of_nat (length cs')) cs' s"
    unfolding stream_rel_def using act s e' own c' by simp
  show "stream_rel False None False 0 cs' s" if "cs' = []" "e \<or> pk_raw_stream_end packet"
    using that s e' by (simp add: stream_rel_def)
qed

definition stream_ok :: "nat \<Rightarrow> tx_sys \<Rightarrow> bool" where
  "stream_ok bound sys \<longleftrightarrow>
     (case sys of (path, hand) \<Rightarrow>
        length (p_ring path) + length (hand_packets hand) \<le> bound
        \<and> list_all (\<lambda>packet. \<not> pk_raw_stream_counted packet) (p_tx_data_queue path)
        \<and> list_all (\<lambda>packet. \<not> pk_raw_stream_counted packet \<and> \<not> pk_raw_stream_start packet)
             (p_tx_control_queue path @ p_tx_control_free path)
        \<and> list_all (\<lambda>packet. pk_control packet \<longrightarrow> \<not> pk_raw_stream_start packet) (owned sys)
        \<and> (\<exists>s. frames_read None (posted (p_log path) @ hand_packets hand) = Some s
             \<and> stream_rel (p_tx_raw_stream_active path) (p_tx_raw_stream_owner path)
                 (p_tx_raw_stream_end_seen path) (p_tx_raw_stream_inflight path) (counted sys) s))"

lemma stream_okI:
  assumes "length (p_ring path) + length (hand_packets hand) \<le> bound"
    and "list_all (\<lambda>packet. \<not> pk_raw_stream_counted packet) (p_tx_data_queue path)"
    and "list_all (\<lambda>packet. \<not> pk_raw_stream_counted packet \<and> \<not> pk_raw_stream_start packet)
             (p_tx_control_queue path)"
    and "list_all (\<lambda>packet. \<not> pk_raw_stream_counted packet \<and> \<not> pk_raw_stream_start packet)
             (p_tx_control_free path)"
    and "list_all (\<lambda>packet. pk_control packet \<longrightarrow> \<not> pk_raw_stream_start packet) (owned (path, hand))"
    and "frames_read None (posted (p_log path) @ hand_packets hand) = Some s"
    and "stream_rel (p_tx_raw_stream_active path) (p_tx_raw_stream_owner path)
           (p_tx_raw_stream_end_seen path) (p_tx_raw_stream_inflight path) (counted (path, hand)) s"
  shows "stream_ok bound (path, hand)"
  using assms by (auto simp: stream_ok_def)

lemma stream_okE:
  assumes "stream_ok bound (path, hand)"
  obtains s where "length (p_ring path) + length (hand_packets hand) \<le> bound"
    "list_all (\<lambda>packet. \<not> pk_raw_stream_counted packet) (p_tx_data_queue path)"
    "list_all (\<lambda>packet. \<not> pk_raw_stream_counted packet \<and> \<not> pk_raw_stream_start packet)
             (p_tx_control_queue path)"
    "list_all (\<lambda>packet. \<not> pk_raw_stream_counted packet \<and> \<not> pk_raw_stream_start packet)
             (p_tx_control_free path)"
    "list_all (\<lambda>packet. pk_control packet \<longrightarrow> \<not> pk_raw_stream_start packet) (owned (path, hand))"
    "frames_read None (posted (p_log path) @ hand_packets hand) = Some s"
    "stream_rel (p_tx_raw_stream_active path) (p_tx_raw_stream_owner path)
       (p_tx_raw_stream_end_seen path) (p_tx_raw_stream_inflight path) (counted (path, hand)) s"
  using assms by (auto simp: stream_ok_def)

lemma stream_ok_take:
  assumes ok: "stream_ok bound (path, None)" and q: "queue_ok (path, None)"
    and s: "tx_select path = Some (packet, fc, ns)"
    and t: "tx_take path packet fc ns ch = (path', h)"
  shows "stream_ok (Suc bound) (path', Some h)"
proof -
  obtain st where o: "length (p_ring path) + length (hand_packets None) \<le> bound"
    "list_all (\<lambda>packet. \<not> pk_raw_stream_counted packet) (p_tx_data_queue path)"
    "list_all (\<lambda>packet. \<not> pk_raw_stream_counted packet \<and> \<not> pk_raw_stream_start packet)
             (p_tx_control_queue path)"
    "list_all (\<lambda>packet. \<not> pk_raw_stream_counted packet \<and> \<not> pk_raw_stream_start packet)
             (p_tx_control_free path)"
    "list_all (\<lambda>packet. pk_control packet \<longrightarrow> \<not> pk_raw_stream_start packet) (owned (path, None))"
    "frames_read None (posted (p_log path) @ hand_packets None) = Some st"
    "stream_rel (p_tx_raw_stream_active path) (p_tx_raw_stream_owner path)
       (p_tx_raw_stream_end_seen path) (p_tx_raw_stream_inflight path) (counted (path, None)) st"
    using ok by (rule stream_okE)
  have h: "h_packet h = packet\<lparr>pk_start_credit_group_frames := 0, pk_queued := False,
         pk_raw_stream_counted := joins_stream path packet \<or> pk_raw_stream_counted packet\<rparr>"
    using t by (auto simp: tx_take_eq)
  obtain rest where r: "if fc then p_tx_control_queue path = packet # rest
      else p_tx_data_queue path = packet # rest"
    using tx_select_queue [OF s] by (cases fc) auto
  have nc: "\<not> pk_raw_stream_counted packet" and cs: "pk_control packet \<longrightarrow> \<not> pk_raw_stream_start packet"
    using o(2,3) r q by (cases fc; simp add: queue_ok_def)+
  have act: "pk_zcopy packet" "\<not> pk_raw_stream_start packet"
    "pk_owner_ctx packet = p_tx_raw_stream_owner path" if "p_tx_raw_stream_active path"
    using s that by (auto simp: tx_select_def split: if_splits list.splits)
  have c: "counted (path', Some h) =
      (if joins_stream path packet then [h_packet h] else []) @ counted (path, None)"
    using t h nc by (auto simp: counted_def owned_def tx_take_eq)
  have fl: "p_tx_raw_stream_active path' = (p_tx_raw_stream_active path \<or> pk_raw_stream_start packet)"
    "p_tx_raw_stream_owner path' = (if pk_raw_stream_start packet then pk_owner_ctx packet
       else p_tx_raw_stream_owner path)"
    "p_tx_raw_stream_end_seen path' = (p_tx_raw_stream_end_seen path \<and> \<not> pk_raw_stream_start packet)"
    "p_tx_raw_stream_inflight path' = (if pk_raw_stream_start packet then 0
       else p_tx_raw_stream_inflight path) + (if joins_stream path packet then 1 else 0)"
    using t by (auto simp: tx_take_eq)
  have hp: "pk_owner_ctx (h_packet h) = pk_owner_ctx packet"
    "pk_raw_stream_end (h_packet h) = pk_raw_stream_end packet" by (simp_all add: h)
  have "\<exists>s'. frame_step st packet = Some s' \<and> stream_rel (p_tx_raw_stream_active path')
      (p_tx_raw_stream_owner path') (p_tx_raw_stream_end_seen path')
      (p_tx_raw_stream_inflight path') (counted (path', Some h)) s'"
  proof (cases "p_tx_raw_stream_active path")
    case True
    then have j: "joins_stream path packet" using act by (simp add: joins_stream_def)
    have o7: "stream_rel True (p_tx_raw_stream_owner path) (p_tx_raw_stream_end_seen path)
        (p_tx_raw_stream_inflight path) (counted (path, None)) st" using o(7) True by simp
    show ?thesis
      using rel_take_active [OF o7 act [OF True], of "h_packet h"] act(2,3) [OF True] True j
      by (simp add: fl c hp)
  next
    case False
    then have j: "joins_stream path packet = pk_raw_stream_start packet"
      by (simp add: joins_stream_def)
    have o7: "stream_rel False (p_tx_raw_stream_owner path) (p_tx_raw_stream_end_seen path)
        (p_tx_raw_stream_inflight path) (counted (path, None)) st" using o(7) False by simp
    note take = rel_take_inactive [OF o7 hp]
    then have "counted (path, None) = []" by blast
    moreover from this have "p_tx_raw_stream_inflight path = 0"
      using o7 by (simp add: stream_rel_def)
    ultimately show ?thesis
      using take False j by (cases "pk_raw_stream_start packet") (simp_all add: fl c)
  qed
  then obtain s' where s': "frame_step st packet = Some s'"
    "stream_rel (p_tx_raw_stream_active path') (p_tx_raw_stream_owner path')
      (p_tx_raw_stream_end_seen path') (p_tx_raw_stream_inflight path') (counted (path', Some h)) s'"
    by blast
  have fh: "frame_step st (h_packet h) = frame_step st packet"
    unfolding h by (cases "(st, packet)" rule: frame_step.cases) (simp_all add: opens_def)
  have keep: "p_ring path' = p_ring path" "p_log path' = p_log path"
    "p_tx_control_free path' = p_tx_control_free path"
    "p_tx_control_queue path' = (if fc then rest else p_tx_control_queue path)"
    "p_tx_data_queue path' = (if fc then p_tx_data_queue path else rest)"
    using t r by (auto simp: tx_take_eq)
  show ?thesis
  proof (rule stream_okI [OF _ _ _ _ _ _ s'(2)])
    show "frames_read None (posted (p_log path') @ hand_packets (Some h)) = Some s'"
      using o(6) s'(1) fh by (simp add: keep frames_read_append)
    show "list_all (\<lambda>packet. pk_control packet \<longrightarrow> \<not> pk_raw_stream_start packet) (owned (path', Some h))"
      using o(5) cs h by (simp add: owned_def keep)
  qed (use o r in \<open>cases fc; simp add: keep\<close>)+
qed

lemma stream_ok_mono: "stream_ok bound sys \<Longrightarrow> bound \<le> bound' \<Longrightarrow> stream_ok bound' sys"
  by (auto simp: stream_ok_def)

text \<open>What a step has to keep when it touches neither the ring nor the stream.\<close>

lemma stream_ok_keep:
  assumes "stream_ok bound (path, hand)"
    and "p_ring path' = p_ring path" "posted (p_log path') = posted (p_log path)"
    and "p_tx_raw_stream_active path' = p_tx_raw_stream_active path"
    and "p_tx_raw_stream_owner path' = p_tx_raw_stream_owner path"
    and "p_tx_raw_stream_end_seen path' = p_tx_raw_stream_end_seen path"
    and "p_tx_raw_stream_inflight path' = p_tx_raw_stream_inflight path"
    and "list_all (\<lambda>packet. \<not> pk_raw_stream_counted packet) (p_tx_data_queue path)
      \<Longrightarrow> list_all (\<lambda>packet. \<not> pk_raw_stream_counted packet) (p_tx_data_queue path')"
    and "list_all (\<lambda>packet. \<not> pk_raw_stream_counted packet \<and> \<not> pk_raw_stream_start packet)
             (p_tx_control_queue path @ p_tx_control_free path)
      \<Longrightarrow> list_all (\<lambda>packet. \<not> pk_raw_stream_counted packet \<and> \<not> pk_raw_stream_start packet)
             (p_tx_control_queue path' @ p_tx_control_free path')"
  shows "stream_ok bound (path', hand)"
  using assms by (simp add: stream_ok_def counted_def owned_def)

lemma stream_ok_pick:
  assumes "stream_ok bound (path, None)" and "queue_ok (path, None)"
  shows "stream_ok (Suc bound) (tx_pick nmax path)"
proof (cases "tx_pick nmax path")
  case (Pair path' hand)
  show ?thesis
  proof (cases hand)
    case None
    then obtain s where "path' = path\<lparr>p_data_tx_credit_stalls := s, p_tx_scheduling := False\<rparr>"
      using Pair pick_None by blast
    then show ?thesis
      using Pair None stream_ok_mono [OF assms(1), of "Suc bound"]
      by (auto intro: stream_ok_keep)
  next
    case (Some h)
    then have "tx_pick nmax path = (path', Some h)" using Pair by simp
    then show ?thesis
      using assms Pair Some stream_ok_take by (metis tx_pick_Some)
  qed
qed

lemma stream_rel_counted_cong:
  assumes "stream_rel active ow e n cs s" and "length cs' = length cs"
    and "\<And>q. q \<in> set cs' \<Longrightarrow> \<exists>p\<in>set cs. pk_owner_ctx q = pk_owner_ctx p
          \<and> pk_raw_stream_end q = pk_raw_stream_end p"
  shows "stream_rel active ow e n cs' s"
proof -
  have "\<forall>q\<in>set cs'. active \<and> pk_owner_ctx q = ow"
    using assms(1,3) unfolding stream_rel_def by metis
  moreover have "\<forall>q\<in>set cs'. pk_raw_stream_end q \<longrightarrow> ended"
    if "\<forall>p\<in>set cs. pk_raw_stream_end p \<longrightarrow> ended" for ended
    using that assms(3) by metis
  ultimately show ?thesis
    using assms(1,2) unfolding stream_rel_def by (cases active) auto
qed

lemma stream_ok_posted:
  assumes "stream_ok bound (path, Some h)"
  shows "stream_ok bound (tx_posted path h, None)"
proof -
  let ?pk = "(h_packet h)\<lparr>pk_inflight := pk_zcopy (h_packet h)\<rparr>"
  have r: "p_ring (tx_posted path h) = p_ring path @ [(h_frame h, ?pk)]"
    and l: "posted (p_log (tx_posted path h)) = posted (p_log path) @ [?pk]"
    and k: "p_tx_control_free (tx_posted path h) = p_tx_control_free path"
    "p_tx_raw_stream_active (tx_posted path h) = p_tx_raw_stream_active path"
    "p_tx_raw_stream_owner (tx_posted path h) = p_tx_raw_stream_owner path"
    "p_tx_raw_stream_end_seen (tx_posted path h) = p_tx_raw_stream_end_seen path"
    "p_tx_raw_stream_inflight (tx_posted path h) = p_tx_raw_stream_inflight path"
    by (simp_all add: tx_posted_def Let_def emit_def)
  have f: "frames_read None (posted (p_log path) @ [?pk]) = frames_read None (posted (p_log path) @ [h_packet h])"
    by (simp add: frames_read_append split: option.splits)
  have c: "counted (tx_posted path h, None) = map snd (filter (pk_raw_stream_counted \<circ> snd) (p_ring path))
      @ (if pk_raw_stream_counted (h_packet h) then [?pk] else [])"
    and c0: "counted (path, Some h) = (if pk_raw_stream_counted (h_packet h) then [h_packet h] else [])
      @ map snd (filter (pk_raw_stream_counted \<circ> snd) (p_ring path))"
    by (simp_all add: counted_def owned_def r filter_map)
  have "stream_rel active ow e n (counted (tx_posted path h, None)) s"
    if "stream_rel active ow e n (counted (path, Some h)) s" for active ow e n s
    using that by (rule stream_rel_counted_cong) (auto simp: c c0 split: if_splits)
  then show ?thesis
    using assms f by (auto simp: stream_ok_def owned_def r l k)
qed

lemma of_nat_succ_nz: "n < 4294967295 \<Longrightarrow> (of_nat n :: u32) + 1 \<noteq> 0"
proof -
  assume "n < 4294967295"
  then have "unat (of_nat (Suc n) :: u32) = Suc n" by (simp only: unat_of_nat) simp
  then have "(of_nat (Suc n) :: u32) \<noteq> 0" by (metis nat.distinct(1) unat_0)
  then show ?thesis by (simp add: add.commute)
qed

lemma filter_remove1_mem:
  "x \<in> set xs \<Longrightarrow> length (filter P xs) = length (filter P (remove1 x xs)) + (if P x then 1 else 0)"
  by (induction xs) auto

lemma counted_ring:
  "counted (path, hand) = filter pk_raw_stream_counted (hand_packets hand)
     @ map snd (filter (pk_raw_stream_counted \<circ> snd) (p_ring path))"
  by (simp add: counted_def owned_def filter_map)

text \<open>The stream fields after the retirement of a counted frame of the open stream.\<close>

lemma finish_counted:
  assumes "p_tx_raw_stream_active path" and "p_tx_raw_stream_owner path = pk_owner_ctx packet"
    and "p_tx_raw_stream_inflight path = n + 1" and "n + 1 \<noteq> 0"
  shows "finish_raw_stream_locked path packet =
     (if (p_tx_raw_stream_end_seen path \<or> pk_raw_stream_end packet) \<and> n = 0
      then clear_raw_stream path
      else path\<lparr>p_tx_raw_stream_end_seen := p_tx_raw_stream_end_seen path \<or> pk_raw_stream_end packet,
                p_tx_raw_stream_inflight := n\<rparr>)"
proof -
  have "p_tx_raw_stream_inflight path \<noteq> 0" "p_tx_raw_stream_inflight path - 1 = n"
    using assms(3,4) by auto
  then show ?thesis
    unfolding finish_raw_stream_locked_def Let_def clear_raw_stream_def
    by (cases "pk_raw_stream_end packet"; cases "p_tx_raw_stream_end_seen path")
       (simp_all add: assms(1,2))
qed

text \<open>The fields a retirement leaves, in terms of the update of the stream.\<close>

lemma retire_stream_fields:
  fixes f packet canceled path
  defines "fin \<equiv> fst (tbv_path_finish_raw_stream_if_needed path packet)"
  shows "p_ring (retire_locked (f, packet) canceled path) = remove1 (f, packet) (p_ring path)"
    and "posted (p_log (retire_locked (f, packet) canceled path)) = posted (p_log path)"
    and "p_tx_data_queue (retire_locked (f, packet) canceled path) = p_tx_data_queue path"
    and "p_tx_control_queue (retire_locked (f, packet) canceled path) = p_tx_control_queue path"
    and "p_tx_raw_stream_active (retire_locked (f, packet) canceled path) = p_tx_raw_stream_active fin"
    and "p_tx_raw_stream_owner (retire_locked (f, packet) canceled path) = p_tx_raw_stream_owner fin"
    and "p_tx_raw_stream_end_seen (retire_locked (f, packet) canceled path) = p_tx_raw_stream_end_seen fin"
    and "p_tx_raw_stream_inflight (retire_locked (f, packet) canceled path) = p_tx_raw_stream_inflight fin"
  unfolding fin_def
  by (cases f; cases canceled; cases "pk_control packet";
      simp add: retire_locked_def tx_complete_locked_def zcopy_tx_complete_locked_def Let_def
        tbv_path_tx_retire_one_def case_prod_beta release_history
        tbv_path_finish_raw_stream_if_needed_def finish_raw_stream_locked_def clear_raw_stream_def)+

abbreviation plain_control :: "tbv_tx_packet \<Rightarrow> bool" where
  "plain_control packet \<equiv> \<not> pk_raw_stream_counted packet \<and> \<not> pk_raw_stream_start packet"

lemma release_plain_control:
  assumes "list_all plain_control (p_tx_control_free path)"
    and "is_control packet \<Longrightarrow> plain_control packet"
  shows "list_all plain_control (p_tx_control_free (tbv_path_tx_packet_release packet status path))"
  using assms
  by (auto simp: tbv_path_tx_packet_release_def Let_def emit_def split: option.splits)

lemma retire_plain_control:
  assumes "list_all plain_control (p_tx_control_free path)"
    and "pk_control packet \<longrightarrow> \<not> pk_raw_stream_start packet"
  shows "list_all plain_control (p_tx_control_free (retire_locked (f, packet) canceled path))"
proof -
  have r: "list_all plain_control (p_tx_control_free (tbv_path_tx_packet_release
      (packet\<lparr>pk_raw_stream_counted := False\<rparr>) st p))"
    if "p_tx_control_free p = p_tx_control_free path" for st p
    using that assms by (intro release_plain_control) auto
  show ?thesis
    by (cases f) (simp_all add: retire_locked_def tx_complete_locked_def zcopy_tx_complete_locked_def
        Let_def tbv_path_tx_retire_one_def case_prod_beta r)
qed

lemma stream_ok_retire:
  assumes ok: "stream_ok bound (path, hand)" and d: "d \<in> set (p_ring path)"
    and b: "bound < 4294967295"
  shows "stream_ok bound (retire_locked d canceled path, hand)"
proof -
  obtain f packet where dd: "d = (f, packet)" by (cases d)
  let ?path = "retire_locked d canceled path"
  obtain s where o: "length (p_ring path) + length (hand_packets hand) \<le> bound"
    "list_all (\<lambda>packet. \<not> pk_raw_stream_counted packet) (p_tx_data_queue path)"
    "list_all plain_control (p_tx_control_queue path)"
    "list_all plain_control (p_tx_control_free path)"
    "list_all (\<lambda>packet. pk_control packet \<longrightarrow> \<not> pk_raw_stream_start packet) (owned (path, hand))"
    "frames_read None (posted (p_log path) @ hand_packets hand) = Some s"
    "stream_rel (p_tx_raw_stream_active path) (p_tx_raw_stream_owner path)
       (p_tx_raw_stream_end_seen path) (p_tx_raw_stream_inflight path) (counted (path, hand)) s"
    using ok by (rule stream_okE)
  note fields = retire_stream_fields [of f packet canceled path, folded dd]
  have pc: "pk_control packet \<longrightarrow> \<not> pk_raw_stream_start packet"
    using o(5) d dd by (force simp: owned_def list_all_iff)
  have sub: "set (counted (?path, hand)) \<subseteq> set (counted (path, hand))"
    using set_remove1_subset [of d "p_ring path"] by (auto simp: counted_ring fields)
  have len: "length (counted (path, hand)) =
      length (counted (?path, hand)) + (if pk_raw_stream_counted packet then 1 else 0)"
  proof -
    have "(pk_raw_stream_counted \<circ> snd) d = pk_raw_stream_counted packet" by (simp add: dd)
    then show ?thesis
      using filter_remove1_mem [OF d, of "pk_raw_stream_counted \<circ> snd"]
      by (simp add: counted_ring fields)
  qed
  have rel: "stream_rel (p_tx_raw_stream_active ?path) (p_tx_raw_stream_owner ?path)
      (p_tx_raw_stream_end_seen ?path) (p_tx_raw_stream_inflight ?path) (counted (?path, hand)) s"
  proof (cases "pk_raw_stream_counted packet")
    case False
    have "stream_rel (p_tx_raw_stream_active path) (p_tx_raw_stream_owner path)
       (p_tx_raw_stream_end_seen path) (p_tx_raw_stream_inflight path) (counted (?path, hand)) s"
      using len False sub by (intro stream_rel_counted_cong [OF o(7)]) auto
    then show ?thesis
      using False by (simp add: fields tbv_path_finish_raw_stream_if_needed_def)
  next
    case True
    have mem: "packet \<in> set (counted (path, hand))"
      using True d dd by (force simp: counted_ring)
    let ?n = "length (counted (?path, hand))"
    have len': "length (counted (path, hand)) = Suc ?n" using len True by simp
    note rr = rel_retire [OF o(7) mem sub len']
    have "length (counted (path, hand)) \<le> length (owned (path, hand))"
      unfolding counted_def by (rule length_filter_le)
    then have n: "?n < 4294967295" using o(1) b len' by (simp add: owned_def)
    then have un: "unat (of_nat ?n :: u32) = ?n" by (simp add: unat_of_nat)
    have nz: "(of_nat ?n :: u32) + 1 \<noteq> 0" using n by (rule of_nat_succ_nz)
    have z: "(of_nat ?n :: u32) = 0 \<longleftrightarrow> counted (?path, hand) = []"
    proof
      assume "(of_nat ?n :: u32) = 0"
      then have "unat (of_nat ?n :: u32) = 0" by (simp only: unat_0)
      then have "?n = 0" using un by linarith
      then show "counted (?path, hand) = []" by simp
    qed simp
    have fin: "fst (tbv_path_finish_raw_stream_if_needed path packet)
        = finish_raw_stream_locked path packet"
      using True by (simp add: tbv_path_finish_raw_stream_if_needed_def)
    note fc = finish_counted [OF rr(1) rr(2) rr(3) nz]
    show ?thesis
    proof (cases "(p_tx_raw_stream_end_seen path \<or> pk_raw_stream_end packet) \<and> (of_nat ?n :: u32) = 0")
      case True
      then have "stream_rel False None False 0 (counted (?path, hand)) s"
        using rr(5) z by blast
      then show ?thesis
        using True by (simp add: fields fin fc clear_raw_stream_def)
    next
      case False
      then show ?thesis
        using rr(4) by (simp only: fields fin fc if_False) simp
    qed
  qed
  have own: "list_all (\<lambda>packet. pk_control packet \<longrightarrow> \<not> pk_raw_stream_start packet) (owned (?path, hand))"
    using o(5) set_remove1_subset [of d "p_ring path"] by (auto simp: owned_def list_all_iff fields)
  have "length (p_ring ?path) \<le> length (p_ring path)"
    by (simp add: fields length_remove1)
  then show ?thesis
    using o rel own retire_plain_control [OF o(4) pc, of f canceled, folded dd]
    by (intro stream_okI [where s = s]) (simp_all add: fields)
qed

lemma stream_ok_put_control:
  "stream_ok bound (path, hand) \<Longrightarrow>
   stream_ok bound (snd (enqueue_control_locked addr data len done done_ctx path), hand)"
  by (erule stream_ok_keep)
     (auto simp: enqueue_control_locked_def Let_def emit_def fresh_packet_def
       split: list.splits option.splits)

lemma stream_ok_put_data:
  "stream_ok bound (path, hand) \<Longrightarrow> data_packet packet \<Longrightarrow>
   stream_ok bound (snd (enqueue_data_locked packet path), hand)"
  by (erule stream_ok_keep)
     (auto simp: enqueue_data_locked_def Let_def put_data_def emit_def data_packet_def)

lemma stream_ok_put_group:
  assumes "stream_ok bound (path, hand)" and "list_all data_packet packets"
  shows "stream_ok bound (put_group grp packets (path\<lparr>p_tx_data_reserved := r\<rparr>), hand)"
proof -
  have "list_all (\<lambda>packet. \<not> pk_raw_stream_counted packet) (stamp grp packets)"
    using assms(2) by (subst list_all_stamp) (auto simp: list_all_iff data_packet_def)
  then show ?thesis
    by (intro stream_ok_keep [OF assms(1)]) (simp_all add: put_group_queue)
qed

lemma stream_ok_put_list:
  assumes "stream_ok bound (path, hand)" and "client_list packets"
  shows "stream_ok bound (snd (enqueue_data_list_locked packets cnt path), hand)"
  using assms stream_ok_put_group [of bound path hand packets cnt "p_tx_data_reserved path"]
  by (simp add: enqueue_data_list_locked_def client_list_def)

lemma stream_ok_put_reserved:
  assumes "stream_ok bound (path, hand)" and "client_list packets"
  shows "stream_ok bound (snd (enqueue_reserved_data_list_locked packets cnt path), hand)"
  using assms stream_ok_put_group [of bound path hand packets cnt "p_tx_data_reserved path - cnt"]
  by (simp add: enqueue_reserved_data_list_locked_def client_list_def)

lemma stream_ok_step:
  assumes ok: "stream_ok bound (path, hand)" and q: "queue_ok (path, hand)" and "undisturbed l"
    and b: "bound < 4294967295"
  shows "stream_ok (Suc bound) (tx_step nmax l (path, hand))"
proof -
  note up = stream_ok_mono [of bound _ "Suc bound"]
  show ?thesis
  proof (cases l)
    case Pick
    then show ?thesis using ok q stream_ok_pick up [OF ok] by auto
  next
    case (Ring r)
    then show ?thesis
      using assms by (cases r; cases hand) (auto intro: up stream_ok_posted)
  next
    case (Retire i canceled)
    then show ?thesis using ok b up [OF ok] by (auto intro!: up stream_ok_retire)
  qed (use assms in \<open>auto intro: up stream_ok_put_control stream_ok_put_data stream_ok_put_list
      stream_ok_put_reserved\<close>,
      auto intro!: stream_ok_keep [OF up [OF ok]]
        simp: add_remote_rx_credits_locked_def Let_def tbv_path_reserve_data_def
        tbv_path_release_data_reservation_def set_remote_rx_capacity_locked_def
        tbv_path_close_tx_def open_tx_locked_def)
qed

lemma stream_ok_run:
  assumes "stream_ok bound (path, hand)" and "queue_ok (path, hand)" and "list_all undisturbed labels"
    and "bound + length labels < 4294967295"
  shows "stream_ok (bound + length labels) (tx_run nmax labels (path, hand))"
  using assms
proof (induction labels arbitrary: bound path hand)
  case (Cons l labels)
  obtain path' hand' where s: "tx_step nmax l (path, hand) = (path', hand')" by fastforce
  have "stream_ok (Suc bound) (path', hand')"
    using stream_ok_step [OF Cons.prems(1,2), of l nmax] Cons.prems(3,4) s by simp
  moreover have "queue_ok (path', hand')"
    using queue_ok_step [OF Cons.prems(2), of nmax l] s by simp
  ultimately show ?case
    using Cons.IH [of "Suc bound" path' hand'] Cons.prems(3,4) s by simp
qed simp

text \<open>
  C19: The frames of a raw stream are never interleaved with others. Whatever sends, scheduler
  rounds, retirements, credits and closings do, the sequence of frames given to the ring reads
  as the peer needs it: after the header frame of a stream come only zero-copy frames of the
  same owner, at least until the frame that ends the stream. (Runs with no refusal by the ring
  and no cancellation, and shorter than the range of the 32-bit counter.)
\<close>

theorem streams_not_interleaved:
  assumes "idle_path path" and "list_all plain_control (p_tx_control_free path)"
    and "list_all undisturbed labels" and "length labels < 4294967295"
    and "tx_run nmax labels (path, None) = (path', hand')"
  shows "frames_read None (posted (p_log path')) \<noteq> None"
proof -
  have "stream_ok 0 (path, None)" and "queue_ok (path, None)"
    using assms(1,2)
    by (auto simp: idle_path_def stream_ok_def stream_rel_def counted_def owned_def queue_ok_def
        hand_data_def)
  then have "stream_ok (0 + length labels) (path', hand')"
    using stream_ok_run [of 0 path None labels nmax] assms(3-5) by simp
  then obtain s where "frames_read None (posted (p_log path') @ hand_packets hand') = Some s"
    by (rule stream_okE) blast
  then show ?thesis
    by (auto simp: frames_read_append split: option.splits)
qed

text \<open>A stream of a header and two payload frames, with other traffic around it.\<close>

definition stream_packets :: "tbv_tx_packet list" where
  "stream_packets =
     [(demo_packet 300)\<lparr>pk_raw_stream_start := True, pk_owner_ctx := Some 9\<rparr>,
      (demo_packet 301)\<lparr>pk_zcopy := True, pk_owner_ctx := Some 9\<rparr>,
      (demo_packet 302)\<lparr>pk_zcopy := True, pk_raw_stream_end := True, pk_owner_ctx := Some 9\<rparr>]"

definition stream_labels :: "tx_label list" where
  "stream_labels = [Capacity 0, Put_list stream_packets, Enter, Pick, Ring None,
     Put_control (Some 200) [1, 2] 2 None None, Put_data (demo_packet 100), Pick, Ring None,
     Pick, Ring None, Pick, Retire 0 False, Retire 0 False, Retire 0 False, Enter, Pick, Ring None,
     Pick, Ring None]"

lemmas stream_eval = demo_eval stream_packets_def stream_labels_def set_remote_rx_capacity_locked_def
  tbv_path_data_credit_window_def

theorem streams_not_interleaved_witness:
  "let path' = fst (tx_run 32 stream_labels (demo_path, None))
   in map pk_addr (posted (p_log path')) = [300, 301, 302, 200, 100]
      \<and> frames_read None (posted (p_log path')) \<noteq> None"
proof -
  have "map pk_addr (posted (p_log (fst (tx_run 32 stream_labels (demo_path, None)))))
      = [300, 301, 302, 200, 100]"
    by (simp add: stream_eval)
  moreover have "list_all undisturbed stream_labels" "length stream_labels < 4294967295"
    "list_all plain_control (p_tx_control_free demo_path)"
    by (simp_all add: stream_eval)
  ultimately show ?thesis
    using streams_not_interleaved [OF demo_idle, of stream_labels 32
        "fst (tx_run 32 stream_labels (demo_path, None))"
        "snd (tx_run 32 stream_labels (demo_path, None))"]
    by (simp add: Let_def)
qed

section \<open>A refusal that races with a retirement\<close>

text \<open>
  A stream stalls the path when it is active and the head of the data queue is none of its
  frames: nothing is chosen, however many control packets wait.
\<close>

lemma stream_blocks_others:
  assumes "p_tx_raw_stream_active path"
    and "case p_tx_data_queue path of [] \<Rightarrow> True
         | packet # _ \<Rightarrow> \<not> pk_zcopy packet \<or> pk_raw_stream_start packet
             \<or> pk_owner_ctx packet \<noteq> p_tx_raw_stream_owner path"
  shows "snd (tx_pick nmax path) = None"
  using assms by (auto simp: tx_pick_def tx_select_def split: list.splits)

definition race_labels :: "tx_label list" where
  "race_labels = [Capacity 0, Put_list stream_packets, Enter, Pick, Ring None, Pick, Ring None,
     Pick, Retire 0 False, Retire 0 False, Ring (Some ENOMEM), Enter, Pick, Ring None,
     Retire 0 False]"

text \<open>
  An example run: the ring reports that it is full (\<open>ENOMEM\<close>) for a frame of a stream while earlier
  frames of the stream retire, and the scheduler writes back the counter it saved before the
  retirements. The frame is queued again, posted and retired, so every packet has left the
  path, and still the stream is marked active: control packets queued in that state are not chosen for the
  ring. Cancelling the owner, or another frame of it, ends the state.
\<close>

theorem refusal_race_blocks_path:
  "let path = fst (tx_run 32 race_labels (demo_path, None))
   in snd (tx_run 32 race_labels (demo_path, None)) = None
      \<and> tbv_path_tx_retired path \<and> p_ring path = []
      \<and> map (pk_addr \<circ> fst) (released (p_log path)) = [300, 301, 302]
      \<and> p_tx_raw_stream_active path \<and> p_tx_raw_stream_inflight path = 2
      \<and> (\<forall>nmax control. snd (tx_pick nmax (path\<lparr>p_tx_control_queue := control\<rparr>)) = None)"
proof -
  let ?path = "fst (tx_run 32 race_labels (demo_path, None))"
  have 1: "snd (tx_run 32 race_labels (demo_path, None)) = None" "tbv_path_tx_retired ?path"
    "p_ring ?path = []" "p_tx_raw_stream_active ?path" "p_tx_raw_stream_inflight ?path = 2"
    "map (pk_addr \<circ> fst) (released (p_log ?path)) = [300, 301, 302]"
    by (simp_all add: stream_eval race_labels_def)
  then have "p_tx_data_queue ?path = []" by (simp add: tbv_path_tx_retired_def)
  then have "snd (tx_pick nmax (?path\<lparr>p_tx_control_queue := control\<rparr>)) = None" for nmax control
    using 1(4) by (intro stream_blocks_others) simp_all
  then show ?thesis using 1 by (simp add: Let_def)
qed

section \<open>Credits and staging frames\<close>

text \<open>
  The credits never exceed the window; the staging frames are those free, those in hand and
  those on the ring.
\<close>

definition frame_list :: "nat ptr list \<Rightarrow> nat list" where
  "frame_list fs = concat (map (\<lambda>f. case f of None \<Rightarrow> [] | Some n \<Rightarrow> [n]) fs)"

definition hand_frame :: "tx_hand option \<Rightarrow> nat ptr list" where
  "hand_frame hand = (case hand of None \<Rightarrow> [] | Some h \<Rightarrow> [h_frame h])"


lemma frame_list_simps [simp]:
  "frame_list [] = []" "frame_list (Some n # fs) = n # frame_list fs"
  "frame_list (None # fs) = frame_list fs" "frame_list (fs @ gs) = frame_list fs @ frame_list gs"
  by (simp_all add: frame_list_def)

lemma hand_frame_simps [simp]: "hand_frame None = []" "hand_frame (Some h) = [h_frame h]"
  by (simp_all add: hand_frame_def)














end
