(* ===== verification/Path_Send.thy ===== *)
theory Path_Send
  imports Path_Stream
begin

text \<open>
  The sending interface of a path (\<^verbatim>\<open>src/kernel/path.c\<close>, from \<open>tbv_path_kick_tx\<close> to
  \<open>tbv_path_send_page_stream\<close>): single frames, frames filled in place, lists of frames sent
  against a reservation, and the raw stream of pages. Each function validates its arguments,
  builds packets and gives them to the queue operations of \<open>Path_Tx\<close>.

  Answers of the allocator, of the DMA mapping and of the callbacks are arguments: \<open>None\<close> for an
  address stands for a failed allocation.
\<close>

abbreviation TBV_PATH_SEND_CONTROL :: u32 where "TBV_PATH_SEND_CONTROL \<equiv> 1"
abbreviation TBV_PATH_SEND_DEFER :: u32 where "TBV_PATH_SEND_DEFER \<equiv> 2"

definition only_flags :: "u32 \<Rightarrow> u32 \<Rightarrow> bool" where
  "only_flags allowed send_flags \<longleftrightarrow> send_flags AND NOT allowed = 0"

section \<open>Single frames\<close>

definition tbv_path_send ::
  "tx_env \<Rightarrow> nat ptr \<Rightarrow> u8 list \<Rightarrow> u32 \<Rightarrow> u32 \<Rightarrow> nat ptr \<Rightarrow> nat ptr \<Rightarrow> tbv_path
    \<Rightarrow> unit res \<times> tbv_path" where
  "tbv_path_send env addr data len send_flags done done_ctx path =
     (if len = 0 \<or> len > TBV_DATA_FRAME_SIZE then (Inl EINVAL, path)
      else if \<not> only_flags (TBV_PATH_SEND_CONTROL OR TBV_PATH_SEND_DEFER) send_flags
      then (Inl EINVAL, path)
      else if send_flags AND TBV_PATH_SEND_CONTROL \<noteq> 0 then
        (if send_flags AND TBV_PATH_SEND_DEFER \<noteq> 0 then (Inl EINVAL, path)
         else tbv_path_enqueue_control env addr data len done done_ctx path)
      else
        (case tbv_path_alloc_data_packet_owned addr (take (unat len) data) len done done_ctx of
           None \<Rightarrow> (Inl ENOMEM, path)
         | Some packet \<Rightarrow>
             tbv_path_enqueue_data env packet (send_flags AND TBV_PATH_SEND_DEFER \<noteq> 0) path))"

definition tbv_path_send_marked_owned ::
  "tx_env \<Rightarrow> nat ptr \<Rightarrow> u8 list ptr \<Rightarrow> u32 \<Rightarrow> u8 \<Rightarrow> u8 \<Rightarrow> u32 \<Rightarrow> nat ptr \<Rightarrow> nat ptr \<Rightarrow> tbv_path
    \<Rightarrow> unit res \<times> tbv_path" where
  "tbv_path_send_marked_owned env addr data len sof eof send_flags done done_ctx path =
     (case data of
        None \<Rightarrow> (Inl EINVAL, path)
      | Some buf \<Rightarrow>
          if len = 0 \<or> len > TBV_DATA_FRAME_SIZE
             \<or> \<not> only_flags (TBV_PATH_SEND_CONTROL OR TBV_PATH_SEND_DEFER) send_flags
             \<or> send_flags AND TBV_PATH_SEND_CONTROL \<noteq> 0 then (Inl EINVAL, path)
          else
            (case tbv_path_alloc_data_packet_owned addr buf len done done_ctx of
               None \<Rightarrow> (Inl ENOMEM, path)
             | Some packet \<Rightarrow>
                 tbv_path_enqueue_data env (packet\<lparr>pk_sof := sof, pk_eof := eof\<rparr>)
                   (send_flags AND TBV_PATH_SEND_DEFER \<noteq> 0) path))"

definition tbv_path_send_owned ::
  "tx_env \<Rightarrow> nat ptr \<Rightarrow> u8 list ptr \<Rightarrow> u32 \<Rightarrow> u32 \<Rightarrow> nat ptr \<Rightarrow> nat ptr \<Rightarrow> tbv_path
    \<Rightarrow> unit res \<times> tbv_path" where
  "tbv_path_send_owned env addr data len send_flags done done_ctx path =
     tbv_path_send_marked_owned env addr data len TBV_DATA_PDF_FRAME_START TBV_DATA_PDF_FRAME_END
       send_flags done done_ctx path"

text \<open>
  The client's callback \<open>fill\<close> writes the frame; its answer is the contents or an error. The
  packet comes from the pool when there is one. A packet that cannot be used is released
  without its callback.
\<close>

definition silent :: "tbv_tx_packet \<Rightarrow> tbv_tx_packet" where
  "silent packet = packet\<lparr>pk_done := None, pk_done_ctx := None\<rparr>"

definition tbv_path_send_marked_fill ::
  "tx_env \<Rightarrow> nat ptr \<Rightarrow> nat ptr \<Rightarrow> u32 \<Rightarrow> u8 \<Rightarrow> u8 \<Rightarrow> u32 \<Rightarrow> (u32 \<Rightarrow> u8 list res) ptr \<Rightarrow> nat ptr
    \<Rightarrow> nat ptr \<Rightarrow> tbv_path \<Rightarrow> unit res \<times> tbv_path" where
  "tbv_path_send_marked_fill env buf_addr addr len sof eof send_flags fill done done_ctx path =
     (case fill of
        None \<Rightarrow> (Inl EINVAL, path)
      | Some fill \<Rightarrow>
          if len = 0 \<or> len > TBV_DATA_FRAME_SIZE
             \<or> \<not> only_flags (TBV_PATH_SEND_CONTROL OR TBV_PATH_SEND_DEFER) send_flags
             \<or> send_flags AND TBV_PATH_SEND_CONTROL \<noteq> 0 then (Inl EINVAL, path)
          else
            (let (found, path) =
                   (case tbv_path_alloc_pooled_data_packet len done done_ctx path of
                      (Some packet, path) \<Rightarrow>
                        (case fill len of
                           Inl e \<Rightarrow> (Inl e, tbv_path_tx_packet_release (silent packet) (Some e) path)
                         | Inr buf \<Rightarrow> (Inr (packet\<lparr>pk_buf := buf\<rparr>), path))
                    | (None, path) \<Rightarrow>
                        (if buf_addr = None then (Inl ENOMEM, path)
                         else
                           (case fill len of
                              Inl e \<Rightarrow> (Inl e, path)
                            | Inr buf \<Rightarrow>
                                (case tbv_path_alloc_data_packet_owned addr buf len done done_ctx of
                                   None \<Rightarrow> (Inl ENOMEM, path)
                                 | Some packet \<Rightarrow> (Inr packet, path)))))
             in case found of
                  Inl e \<Rightarrow> (Inl e, path)
                | Inr packet \<Rightarrow>
                    (let packet = packet\<lparr>pk_sof := sof, pk_eof := eof\<rparr>
                     in case tbv_path_enqueue_data env packet
                               (send_flags AND TBV_PATH_SEND_DEFER \<noteq> 0) path of
                          (Inl e, path) \<Rightarrow>
                            (Inl e, tbv_path_tx_packet_release (silent packet) (Some e) path)
                        | (Inr u, path) \<Rightarrow> (Inr u, path))))"

section \<open>Lists of frames\<close>

record tbv_path_owned_frame =
  of_data :: "u8 list ptr"
  of_len :: u32
  of_sof :: u8
  of_eof :: u8

definition tbv_path_release_packet_list_silent ::
  "tbv_tx_packet list \<Rightarrow> errno ptr \<Rightarrow> tbv_path \<Rightarrow> tbv_path" where
  "tbv_path_release_packet_list_silent packets status path =
     tbv_path_release_packet_list (map silent packets) status path"

text \<open>The loop that turns frames into packets; \<open>prepared\<close> are the packets made so far.\<close>

fun prepare_owned ::
  "(tbv_path_owned_frame \<times> nat ptr) list \<Rightarrow> nat ptr \<Rightarrow> nat ptr \<Rightarrow> tbv_tx_packet list
    \<Rightarrow> (errno + unit) \<times> tbv_tx_packet list" where
  "prepare_owned [] done done_ctx prepared = (Inr (), prepared)"
| "prepare_owned ((owned_frame, addr) # frames) done done_ctx prepared =
     (case of_data owned_frame of
        None \<Rightarrow> (Inl EINVAL, prepared)
      | Some buf \<Rightarrow>
          if of_len owned_frame = 0 \<or> of_len owned_frame > TBV_DATA_FRAME_SIZE
          then (Inl EINVAL, prepared)
          else
            (case tbv_path_alloc_data_packet_owned addr buf (of_len owned_frame) done done_ctx of
               None \<Rightarrow> (Inl ENOMEM, prepared)
             | Some packet \<Rightarrow>
                 prepare_owned frames done done_ctx
                   (prepared @ [packet\<lparr>pk_sof := of_sof owned_frame, pk_eof := of_eof owned_frame\<rparr>])))"

definition tbv_path_prepare_owned_list ::
  "(tbv_path_owned_frame \<times> nat ptr) list \<Rightarrow> u32 \<Rightarrow> nat ptr \<Rightarrow> nat ptr \<Rightarrow> tbv_path
    \<Rightarrow> tbv_tx_packet list res \<times> tbv_path" where
  "tbv_path_prepare_owned_list frames send_flags done done_ctx path =
     (if \<not> only_flags TBV_PATH_SEND_DEFER send_flags then (Inl EINVAL, path)
      else
        (case prepare_owned frames done done_ctx [] of
           (Inr _, prepared) \<Rightarrow> (Inr prepared, path)
         | (Inl e, prepared) \<Rightarrow>
             (Inl e, tbv_path_release_packet_list_silent prepared (Some e) path)))"

definition tbv_path_enqueue_prepared_reserved ::
  "tx_env \<Rightarrow> tbv_tx_packet list \<Rightarrow> u32 \<Rightarrow> u32 \<Rightarrow> tbv_path \<Rightarrow> unit res \<times> tbv_path" where
  "tbv_path_enqueue_prepared_reserved env packets packet_count send_flags path =
     (if \<not> only_flags TBV_PATH_SEND_DEFER send_flags
      then (Inl EINVAL, tbv_path_release_packet_list_silent packets (Some EINVAL) path)
      else
        (case tbv_path_enqueue_reserved_data_list env packets packet_count
                (send_flags AND TBV_PATH_SEND_DEFER \<noteq> 0) path of
           (Inl e, path) \<Rightarrow> (Inl e, tbv_path_release_packet_list_silent packets (Some e) path)
         | (Inr u, path) \<Rightarrow> (Inr u, path)))"

definition tbv_path_send_owned_list_reserved ::
  "tx_env \<Rightarrow> (tbv_path_owned_frame \<times> nat ptr) list \<Rightarrow> u32 \<Rightarrow> nat ptr \<Rightarrow> nat ptr \<Rightarrow> tbv_path
    \<Rightarrow> unit res \<times> tbv_path" where
  "tbv_path_send_owned_list_reserved env frames send_flags done done_ctx path =
     (case tbv_path_prepare_owned_list frames send_flags done done_ctx path of
        (Inl e, path) \<Rightarrow> (Inl e, path)
      | (Inr packets, path) \<Rightarrow>
          tbv_path_enqueue_prepared_reserved env packets (of_nat (length packets)) send_flags path)"

section \<open>The raw stream\<close>

text \<open>
  The size of a page, and the \<open>k\<close>-th answers of the environment while a stream is prepared: of the client's \<open>next\<close> (is
  there a page, its offset and length, its callback), of the DMA mapping and of the allocator.
\<close>

record stream_page =
  sp_page :: bool
  sp_off :: u32
  sp_len :: u32
  sp_done :: "nat ptr"
  sp_done_ctx :: "nat ptr"

record stream_env =
  se_page_size :: u32
  se_next :: "nat \<Rightarrow> stream_page res"
  se_dma :: "nat \<Rightarrow> u64 ptr"
  se_addr :: "nat \<Rightarrow> nat ptr"

text \<open>A callback the code runs directly, if there is one.\<close>

definition run_done :: "nat ptr \<Rightarrow> nat ptr \<Rightarrow> errno ptr \<Rightarrow> tbv_path \<Rightarrow> tbv_path" where
  "run_done done done_ctx status path =
     (case done of None \<Rightarrow> path | Some d \<Rightarrow> emit (Done d done_ctx status) path)"

lemma page_step:
  assumes "\<not> total_length \<le> prepared" and "len \<noteq> 0" and "\<not> len > total_length - prepared"
  shows "unat (total_length - (prepared + len)) < unat (total_length - (prepared :: u32))"
    and "unat (prepared + len) = unat prepared + unat len" and "prepared + len \<le> total_length"
proof -
  have d: "unat (total_length - prepared) = unat total_length - unat prepared"
    using assms(1) by (simp add: unat_sub_u32)
  have l: "unat len \<le> unat total_length - unat prepared" and p: "unat prepared < unat total_length"
    using assms(1,3) d by (simp_all add: word_le_nat_alt word_less_nat_alt)
  show s: "unat (prepared + len) = unat prepared + unat len"
    using l p unat_less_2p32 [of total_length] by (intro unat_add_u32) linarith
  show le: "prepared + len \<le> total_length"
    using l p s by (simp add: word_le_nat_alt)
  have "0 < unat len" using assms(2) by (simp add: unat_gt_0)
  then show "unat (total_length - (prepared + len)) < unat (total_length - prepared)"
    using d s le l p by (simp add: unat_sub_u32)
qed

text \<open>
  The loop over the pages, \<open>k\<close> the number of pages taken. It ends because every page is not
  empty and within what is left.
\<close>

function stream_pages ::
  "stream_env \<Rightarrow> u32 \<Rightarrow> u32 \<Rightarrow> nat ptr \<Rightarrow> nat \<Rightarrow> u32 \<Rightarrow> tbv_tx_packet list \<Rightarrow> tbv_path
    \<Rightarrow> unit res \<times> tbv_tx_packet list \<times> tbv_path" where
  "stream_pages se max_raw_payload total_length meta_done_ctx k prepared packets path =
     (if prepared \<ge> total_length then (Inr (), packets, path)
      else
        (case se_next se k of
           Inl e \<Rightarrow> (Inl e, packets, path)
         | Inr sp \<Rightarrow>
             if \<not> sp_page sp \<or> sp_len sp = 0 \<or> sp_len sp > max_raw_payload
                \<or> sp_len sp > total_length - prepared
                \<or> sp_off sp > se_page_size se \<or> sp_len sp > se_page_size se - sp_off sp
             then (Inl EINVAL, packets, run_done (sp_done sp) (sp_done_ctx sp) (Some EINVAL) path)
             else
               (case se_dma se k of
                  None \<Rightarrow> (Inl EIO, packets, run_done (sp_done sp) (sp_done_ctx sp) (Some EIO) path)
                | Some dma \<Rightarrow>
                    (case tbv_path_alloc_zcopy_packet (se_addr se k) dma (sp_len sp) True
                            (sp_done sp) (sp_done_ctx sp) of
                       None \<Rightarrow>
                         (Inl ENOMEM, packets,
                          run_done (sp_done sp) (sp_done_ctx sp) (Some ENOMEM) path)
                     | Some packet \<Rightarrow>
                         stream_pages se max_raw_payload total_length meta_done_ctx (Suc k)
                           (prepared + sp_len sp)
                           (packets @ [packet\<lparr>
                              pk_owner_ctx := (if meta_done_ctx \<noteq> None then meta_done_ctx
                                               else sp_done_ctx sp),
                              pk_raw_stream_end := (prepared + sp_len sp = total_length)\<rparr>])
                           path))))"
  by pat_completeness auto

termination
proof (relation "measure (\<lambda>(se, m, tot, mc, k, prepared, ps, path). unat (tot - prepared))", goal_cases)
  case 1
  then show ?case by simp
next
  case (2 se m tot mc k prepared packets path sp dma packet)
  then show ?case using page_step(1) [of tot prepared "sp_len sp"] by simp
qed

declare stream_pages.simps [simp del]

text \<open>The header frame of a stream, as the sender fills it in.\<close>

definition sent_stream_header :: "tbv_native_data_header \<Rightarrow> u32 \<Rightarrow> tbv_native_data_header" where
  "sent_stream_header hdr total_length = hdr\<lparr>d_length := total_length,
     d_flags := d_flags hdr OR (TBV_NATIVE_DATA_F_LAST OR TBV_NATIVE_DATA_F_RAW_STREAM)\<rparr>"

definition tbv_path_send_page_stream ::
  "tx_env \<Rightarrow> stream_env \<Rightarrow> nat ptr \<Rightarrow> nat ptr \<Rightarrow> bool \<Rightarrow> bool \<Rightarrow> tbv_native_data_header ptr \<Rightarrow> u32 \<Rightarrow> u32
    \<Rightarrow> nat ptr \<Rightarrow> nat ptr \<Rightarrow> tbv_path \<Rightarrow> unit res \<times> tbv_path" where
  "tbv_path_send_page_stream env se hdr_addr pkt_addr has_ring dma_ready hdr total_length send_flags
       meta_done meta_done_ctx path =
     (let err_meta_done = (\<lambda>e. (Inl e, run_done meta_done meta_done_ctx (Some e) path))
      in case hdr of
           None \<Rightarrow> err_meta_done EINVAL
         | Some hdr \<Rightarrow>
             if total_length = 0 then err_meta_done EINVAL
             else if \<not> only_flags TBV_PATH_SEND_DEFER send_flags then err_meta_done EINVAL
             else if total_length > TBV_NATIVE_DATA_MAX_MSG_SIZE then err_meta_done EMSGSIZE
             else if \<not> has_ring then err_meta_done ENOTCONN
             else if \<not> dma_ready then err_meta_done EPROBE_DEFER
             else if hdr_addr = None then err_meta_done ENOMEM
             else
               (let max_raw_payload =
                      (if d_opcode hdr = TBV_NATIVE_DATA_OP_RDMA_WRITE
                          \<or> d_opcode hdr = TBV_NATIVE_DATA_OP_RDMA_WRITE_IMM
                       then TBV_DATA_FRAME_SIZE else TBV_NATIVE_DATA_MAX_PAYLOAD);
                    stream_hdr = sent_stream_header hdr total_length
                in case tbv_native_data_build_header (Some (replicate TBV_NATIVE_DATA_HDR_SIZE 0))
                          (Some stream_hdr) of
                     Inl e \<Rightarrow> err_meta_done e
                   | Inr (hdr_buf, n) \<Rightarrow>
                       (case tbv_path_alloc_data_packet_owned pkt_addr hdr_buf 48 meta_done
                               meta_done_ctx of
                          None \<Rightarrow> err_meta_done ENOMEM
                        | Some packet \<Rightarrow>
                            (case stream_pages se max_raw_payload total_length meta_done_ctx 0 0
                                    [packet\<lparr>pk_raw_stream_start := True\<rparr>] path of
                               (Inl e, packets, path) \<Rightarrow>
                                 (Inl e, tbv_path_release_packet_list packets (Some e) path)
                             | (Inr _, packets, path) \<Rightarrow>
                                 (case tbv_path_enqueue_data_list env packets
                                         (of_nat (length packets))
                                         (send_flags AND TBV_PATH_SEND_DEFER \<noteq> 0) path of
                                    (Inl e, path) \<Rightarrow>
                                      (Inl e, tbv_path_release_packet_list packets (Some e) path)
                                  | (Inr u, path) \<Rightarrow> (Inr u, path))))))"

definition tbv_path_kick_tx :: "tx_env \<Rightarrow> tbv_path \<Rightarrow> tbv_path" where
  "tbv_path_kick_tx env path = tbv_path_schedule_tx env path"

section \<open>The packets of a stream\<close>

text \<open>
  What a stream of \<open>n\<close> bytes is made of, from the offset \<open>off\<close> on: zero-copy frames of one owner,
  none empty, none a header, of which the last and only the last is marked as the end.
\<close>

fun stream_shape :: "nat ptr \<Rightarrow> nat \<Rightarrow> nat \<Rightarrow> tbv_tx_packet list \<Rightarrow> bool" where
  "stream_shape ow off n [] \<longleftrightarrow> off = n"
| "stream_shape ow off n (packet # packets) \<longleftrightarrow>
     pk_zcopy packet \<and> \<not> pk_control packet \<and> \<not> pk_raw_stream_start packet
     \<and> \<not> pk_raw_stream_counted packet \<and> (ow \<noteq> None \<longrightarrow> pk_owner_ctx packet = ow) \<and> pk_len packet \<noteq> 0
     \<and> pk_len packet \<le> TBV_DATA_FRAME_SIZE
     \<and> (pk_raw_stream_end packet \<longleftrightarrow> off + unat (pk_len packet) = n)
     \<and> off + unat (pk_len packet) \<le> n
     \<and> stream_shape ow (off + unat (pk_len packet)) n packets"

lemma stream_shape_length: "stream_shape ow off n packets \<Longrightarrow> off + length packets \<le> n"
proof (induction packets arbitrary: off)
  case (Cons packet packets)
  then have "off + unat (pk_len packet) + length packets \<le> n" "0 < unat (pk_len packet)"
    by (auto simp: unat_gt_0)
  then show ?case by simp
qed simp

lemma stream_pages_shape:
  assumes "stream_pages se m tot mc k prepared packets path = (Inr u, packets', path')"
    and "m \<le> TBV_DATA_FRAME_SIZE" and "prepared \<le> tot"
  shows "path' = path
    \<and> (\<exists>more. packets' = packets @ more \<and> stream_shape mc (unat prepared) (unat tot) more)"
  using assms
proof (induction se m tot mc k prepared packets path rule: stream_pages.induct)
  case (1 se m tot mc k prepared packets path)
  show ?case
  proof (cases "prepared \<ge> tot")
    case True
    then have "stream_pages se m tot mc k prepared packets path = (Inr (), packets, path)"
      by (subst stream_pages.simps) simp
    moreover have "tot = prepared" using True 1(4) by simp
    ultimately show ?thesis using 1(2) by simp
  next
    case False
    obtain sp where sp: "se_next se k = Inr sp"
      using 1(2) False
      by (cases "se_next se k") (auto simp: stream_pages.simps [of se m tot mc k prepared])
    have guard: "\<not> (\<not> sp_page sp \<or> sp_len sp = 0 \<or> sp_len sp > m \<or> sp_len sp > tot - prepared
        \<or> sp_off sp > se_page_size se \<or> sp_len sp > se_page_size se - sp_off sp)"
      using 1(2) False sp
      by (auto simp: stream_pages.simps [of se m tot mc k prepared] split: if_splits)
    obtain dma where dma: "se_dma se k = Some dma"
      using 1(2) False sp guard
      by (cases "se_dma se k") (auto simp: stream_pages.simps [of se m tot mc k prepared])
    obtain pk where pk: "tbv_path_alloc_zcopy_packet (se_addr se k) dma (sp_len sp) True
        (sp_done sp) (sp_done_ctx sp) = Some pk"
      using 1(2) False sp guard dma
      by (cases "tbv_path_alloc_zcopy_packet (se_addr se k) dma (sp_len sp) True
        (sp_done sp) (sp_done_ctx sp)") (auto simp: stream_pages.simps [of se m tot mc k prepared])
    let ?pk = "pk\<lparr>pk_owner_ctx := (if mc \<noteq> None then mc else sp_done_ctx sp),
        pk_raw_stream_end := (prepared + sp_len sp = tot)\<rparr>"
    have rec: "stream_pages se m tot mc (Suc k) (prepared + sp_len sp) (packets @ [?pk]) path
        = (Inr u, packets', path')"
      using 1(2) False sp guard dma pk by (simp add: stream_pages.simps [of se m tot mc k prepared])
    have st: "unat (prepared + sp_len sp) = unat prepared + unat (sp_len sp)"
      "prepared + sp_len sp \<le> tot"
      using page_step(2,3) [OF False] guard by auto
    have "path' = path \<and> (\<exists>more. packets' = (packets @ [?pk]) @ more
        \<and> stream_shape mc (unat (prepared + sp_len sp)) (unat tot) more)"
      using 1(1) [OF False sp guard dma pk rec 1(3) st(2)] .
    then obtain more where more: "path' = path" "packets' = packets @ ?pk # more"
      "stream_shape mc (unat prepared + unat (sp_len sp)) (unat tot) more" using st(1) by auto
    have e: "prepared + sp_len sp = tot \<longleftrightarrow> unat prepared + unat (sp_len sp) = unat tot"
      using st(1) by (metis word_unat_eq_iff)
    have "pk_len ?pk = sp_len sp" "pk_zcopy ?pk" "\<not> pk_control ?pk" "\<not> pk_raw_stream_start ?pk"
      "\<not> pk_raw_stream_counted ?pk"
      using pk by (auto simp: tbv_path_alloc_zcopy_packet_def fresh_packet_def)
    moreover have "unat prepared + unat (sp_len sp) \<le> unat tot"
      using st by (simp add: word_le_nat_alt)
    moreover have "sp_len sp \<le> TBV_DATA_FRAME_SIZE" "sp_len sp \<noteq> 0"
      using guard 1(3) by auto
    ultimately have "stream_shape mc (unat prepared) (unat tot) (?pk # more)"
      using more(3) e by simp
    then show ?thesis using more(1,2) by blast
  qed
qed

end
