(* ===== verification/Path_Rx.thy ===== *)
theory Path_Rx
  imports Path_Send
begin

text \<open>
  The receive side of a path (\<^verbatim>\<open>src/kernel/path.c\<close>, \<open>tbv_path_rx_complete\<close> and the functions it
  calls): frames of a raw stream, credit messages of the peer, and the return of credits for
  the frames consumed. The verbs layer that takes the frames is outside; its calls are
  recorded in the log. The last section joins the two sides: what a raw stream delivers.
\<close>

section \<open>Returning credits\<close>

definition zero_data_header :: tbv_native_data_header where
  "zero_data_header = \<lparr>d_opcode = 0, d_flags = 0, d_dest_qp = 0, d_src_qp = 0, d_psn = 0,
     d_length = 0, d_imm_data = 0, d_remote_addr = 0, d_rkey = 0, d_frag_offset = 0\<rparr>"

definition credit_header :: "u32 \<Rightarrow> tbv_native_data_header" where
  "credit_header credits =
     zero_data_header\<lparr>d_opcode := TBV_NATIVE_DATA_OP_PATH_CREDIT, d_imm_data := credits\<rparr>"

definition tbv_path_send_rx_credit ::
  "tx_env \<Rightarrow> nat ptr \<Rightarrow> u32 \<Rightarrow> tbv_path \<Rightarrow> unit res \<times> tbv_path" where
  "tbv_path_send_rx_credit env addr credits path =
     (case tbv_native_data_build_header (Some (replicate TBV_NATIVE_DATA_HDR_SIZE 0))
             (Some (credit_header credits)) of
        Inl e \<Rightarrow> (Inl e, path)
      | Inr (frame, len) \<Rightarrow>
          tbv_path_send env addr frame (of_nat len) TBV_PATH_SEND_CONTROL None None path)"

text \<open>Addition that stops at the largest integer, as the pending credits are added.\<close>

definition sat_add :: "u32 \<Rightarrow> u32 \<Rightarrow> u32" where
  "sat_add pending credits = (if credits > U32_MAX - pending then U32_MAX else pending + credits)"

definition rx_credit_threshold :: "tbv_path \<Rightarrow> u32" where
  "rx_credit_threshold path = tbv_native_data_credit_return_threshold
     (tbv_path_data_credit_window (pc_rx_ring_size (p_cfg path)))"

definition tbv_path_return_rx_data_credit ::
  "tx_env \<Rightarrow> nat ptr \<Rightarrow> u32 \<Rightarrow> tbv_path \<Rightarrow> tbv_path" where
  "tbv_path_return_rx_data_credit env addr credits path =
     (if credits = 0 then path
      else
        (let pending = sat_add (p_rx_data_credit_pending path) credits
         in if pending \<ge> rx_credit_threshold path
            then
              (let send = pending; path = path\<lparr>p_rx_data_credit_pending := 0\<rparr>
               in if send = 0 then path
                  else
                    (case tbv_path_send_rx_credit env addr send path of
                       (Inl e, path) \<Rightarrow>
                         path\<lparr>p_rx_data_credit_pending := sat_add (p_rx_data_credit_pending path) send,
                              p_data_rx_credit_send_error := p_data_rx_credit_send_error path + 1\<rparr>
                     | (Inr _, path) \<Rightarrow>
                         path\<lparr>p_data_rx_credit_sent := p_data_rx_credit_sent path + ucast send\<rparr>))
            else path\<lparr>p_rx_data_credit_pending := pending\<rparr>))"

section \<open>Raw streams\<close>

definition tbv_path_rx_start_raw :: "tbv_native_data_header \<Rightarrow> tbv_path \<Rightarrow> tbv_path" where
  "tbv_path_rx_start_raw hdr path =
     path\<lparr>p_rx_raw_opcode := d_opcode hdr, p_rx_raw_flags := d_flags hdr,
          p_rx_raw_dest_qp := d_dest_qp hdr, p_rx_raw_src_qp := d_src_qp hdr,
          p_rx_raw_psn := d_psn hdr, p_rx_raw_imm_data := d_imm_data hdr,
          p_rx_raw_rkey := d_rkey hdr, p_rx_raw_base := d_remote_addr hdr, p_rx_raw_done := 0,
          p_rx_raw_remaining := d_length hdr, p_rx_raw_pending := (d_length hdr \<noteq> 0)\<rparr>"

definition abort_raw :: "tbv_path \<Rightarrow> tbv_path" where
  "abort_raw path = path\<lparr>p_rx_raw_pending := False, p_rx_raw_remaining := 0\<rparr>"

definition raw_stream_header :: "tbv_path \<Rightarrow> tbv_native_data_header" where
  "raw_stream_header path =
     \<lparr>d_opcode = p_rx_raw_opcode path, d_flags = p_rx_raw_flags path,
      d_dest_qp = p_rx_raw_dest_qp path, d_src_qp = p_rx_raw_src_qp path,
      d_psn = p_rx_raw_psn path, d_length = p_rx_raw_done path + p_rx_raw_remaining path,
      d_imm_data = p_rx_raw_imm_data path, d_remote_addr = p_rx_raw_base path,
      d_rkey = p_rx_raw_rkey path, d_frag_offset = 0\<rparr>"

definition tbv_path_rx_raw_payload :: "u8 list \<Rightarrow> u32 \<Rightarrow> tbv_path \<Rightarrow> tbv_path" where
  "tbv_path_rx_raw_payload payload len path =
     (if \<not> p_rx_raw_pending path \<or> len = 0 \<or> len > p_rx_raw_remaining path then abort_raw path
      else
        (case tbv_native_data_raw_payload_header (Some (raw_stream_header path))
                (p_rx_raw_done path) (p_rx_raw_remaining path) len of
           Inl e \<Rightarrow> abort_raw path
         | Inr hdr \<Rightarrow>
             (let path = (if len = p_rx_raw_remaining path then path\<lparr>p_rx_raw_pending := False\<rparr>
                          else path);
                  path = path\<lparr>p_rx_raw_done := p_rx_raw_done path + len,
                              p_rx_raw_remaining := p_rx_raw_remaining path - len\<rparr>
              in emit (Rx_native hdr payload) path)))"

section \<open>Completion of a received frame\<close>

text \<open>
  The classification of a frame: the path, the credits to return and the credits granted. A
  path that belongs to no rail only recycles its buffers.
\<close>

definition rx_classify :: "u8 list \<Rightarrow> u32 \<Rightarrow> u8 \<Rightarrow> u8 \<Rightarrow> tbv_path \<Rightarrow> tbv_path \<times> u32 \<times> u32" where
  "rx_classify buf len sof eof path =
     (case p_backend path of
        None \<Rightarrow> (path, 0, 0)
      | Some backend \<Rightarrow>
          if len > TBV_DATA_FRAME_SIZE then (path, 0, 0)
          else if backend = TBV_BACKEND_APPLE
          then (emit (Rx_apple (take (unat len) buf) sof eof) path, 0, 0)
          else if p_rx_raw_pending path
          then (tbv_path_rx_raw_payload (take (unat len) buf) len path, 1, 0)
          else
            (case tbv_native_data_parse_header (Some (take (unat len) buf)) of
               Inl e \<Rightarrow> (emit (Rx_frame (take (unat len) buf)) path, 0, 0)
             | Inr hdr \<Rightarrow>
                 if d_opcode hdr = TBV_NATIVE_DATA_OP_PATH_CREDIT then
                   (path, 0, if tbv_native_data_valid_path_credit hdr then d_imm_data hdr else 0)
                 else if d_flags hdr AND TBV_NATIVE_DATA_F_RAW_STREAM \<noteq> 0 then
                   (if len \<noteq> 48 \<or> d_length hdr = 0
                       \<or> d_flags hdr AND NOT (TBV_NATIVE_DATA_F_LAST OR TBV_NATIVE_DATA_F_SOLICITED
                           OR TBV_NATIVE_DATA_F_RAW_STREAM) \<noteq> 0
                    then (path, 0, 0)
                    else (tbv_path_rx_start_raw hdr path, 1, 0))
                 else
                   (emit (Rx_frame (take (unat len) buf)) path,
                    if tbv_native_data_consumes_rx_credit (d_opcode hdr) then 1 else 0, 0)))"

text \<open>\<open>repost\<close> is the answer of the receive ring to which the buffer goes back.\<close>

definition tbv_path_rx_complete ::
  "tx_env \<Rightarrow> nat ptr \<Rightarrow> unit res \<Rightarrow> u8 list \<Rightarrow> u32 \<Rightarrow> u8 \<Rightarrow> u8 \<Rightarrow> bool \<Rightarrow> tbv_path \<Rightarrow> tbv_path" where
  "tbv_path_rx_complete env addr repost buf frame_size sof eof canceled path =
     (if canceled then path\<lparr>p_data_rx_canceled := p_data_rx_canceled path + 1\<rparr>
      else
        (let len = tbv_frame_len frame_size;
             path = path\<lparr>p_data_rx_completed := p_data_rx_completed path + 1\<rparr>;
             (path, return_rx_credits, add_remote_credits) = rx_classify buf len sof eof path
         in if p_state path = TBV_PATH_RING_STARTED \<or> p_state path = TBV_PATH_TUNNEL_ENABLED
            then
              (case repost of
                 Inl e \<Rightarrow> path\<lparr>p_data_rx_repost_failed := p_data_rx_repost_failed path + 1\<rparr>
               | Inr _ \<Rightarrow>
                   (let path = (if return_rx_credits \<noteq> 0
                                then tbv_path_return_rx_data_credit env addr return_rx_credits path
                                else path)
                    in if add_remote_credits \<noteq> 0
                       then tbv_path_add_remote_rx_credits env add_remote_credits path else path))
            else path))"

section \<open>What a raw stream delivers\<close>

definition raw_receiving :: "tbv_native_data_header \<Rightarrow> u32 \<Rightarrow> tbv_path \<Rightarrow> bool" where
  "raw_receiving hdr off path \<longleftrightarrow>
     p_rx_raw_pending path \<and> p_rx_raw_opcode path = d_opcode hdr \<and> p_rx_raw_flags path = d_flags hdr
     \<and> p_rx_raw_dest_qp path = d_dest_qp hdr \<and> p_rx_raw_src_qp path = d_src_qp hdr
     \<and> p_rx_raw_psn path = d_psn hdr \<and> p_rx_raw_imm_data path = d_imm_data hdr
     \<and> p_rx_raw_rkey path = d_rkey hdr \<and> p_rx_raw_base path = d_remote_addr hdr
     \<and> p_rx_raw_done path = off \<and> p_rx_raw_remaining path = d_length hdr - off"

text \<open>
  The header the verbs layer is given for the piece of a stream at an offset: the stream's own
  header with the piece's length and offset; \<open>LAST\<close> and \<open>SOLICITED\<close> only on the last piece.
\<close>

definition piece_header :: "tbv_native_data_header \<Rightarrow> u32 \<Rightarrow> u32 \<Rightarrow> tbv_native_data_header" where
  "piece_header hdr off len =
     hdr\<lparr>d_length := len, d_frag_offset := off,
         d_flags := (let keep = d_flags hdr AND NOT (TBV_NATIVE_DATA_F_RAW_STREAM
                           OR TBV_NATIVE_DATA_F_LAST OR TBV_NATIVE_DATA_F_SOLICITED)
                     in if off + len = d_length hdr
                        then keep OR (d_flags hdr AND (TBV_NATIVE_DATA_F_LAST OR TBV_NATIVE_DATA_F_SOLICITED))
                        else keep)\<rparr>"

lemma raw_payload_step:
  assumes r: "raw_receiving hdr off path" and raw: "d_flags hdr AND TBV_NATIVE_DATA_F_RAW_STREAM \<noteq> 0"
    and off: "off < d_length hdr" and len: "len \<noteq> 0" and fit: "unat off + unat len \<le> unat (d_length hdr)"
  shows "p_log (tbv_path_rx_raw_payload payload len path)
      = p_log path @ [Rx_native (piece_header hdr off len) payload]"
    and "off + len < d_length hdr \<Longrightarrow> raw_receiving hdr (off + len) (tbv_path_rx_raw_payload payload len path)"
    and "off + len = d_length hdr \<Longrightarrow> \<not> p_rx_raw_pending (tbv_path_rx_raw_payload payload len path)"
proof -
  have rem: "unat (d_length hdr - off) = unat (d_length hdr) - unat off"
    using off by (simp add: unat_sub_u32)
  have le: "\<not> len > d_length hdr - off"
    using fit rem by (simp add: word_less_nat_alt)
  have eq: "len = d_length hdr - off \<longleftrightarrow> off + len = d_length hdr" by (auto simp: algebra_simps)
  note defs = tbv_path_rx_raw_payload_def tbv_native_data_raw_payload_header_def raw_stream_header_def
    Let_def emit_def
  have fl: "p_rx_raw_flags path AND TBV_NATIVE_DATA_F_RAW_STREAM \<noteq> 0"
    "p_rx_raw_remaining path = d_length hdr - off" "p_rx_raw_pending path"
    using r raw by (simp_all add: raw_receiving_def)
  show "p_log (tbv_path_rx_raw_payload payload len path)
      = p_log path @ [Rx_native (piece_header hdr off len) payload]"
    using r fl le len eq
    by (cases "off + len = d_length hdr")
       (auto simp: defs raw_receiving_def piece_header_def intro!: tbv_native_data_header.equality)
  show "raw_receiving hdr (off + len) (tbv_path_rx_raw_payload payload len path)"
    if "off + len < d_length hdr"
    using that r fl le len eq by (auto simp: defs raw_receiving_def diff_diff_eq)
  show "\<not> p_rx_raw_pending (tbv_path_rx_raw_payload payload len path)" if "off + len = d_length hdr"
    using that r fl le len eq by (simp add: defs)
qed

text \<open>
  A frame on the wire: the size field the sender writes (0 for a full frame), and what the
  receiver makes of it. The bytes of a zero-copy frame are those of the mapped page.
\<close>

definition wire_size :: "u32 \<Rightarrow> u32" where
  "wire_size len = (if len = TBV_DATA_FRAME_SIZE then 0 else len)"

lemma frame_len_wire_size: "len \<noteq> 0 \<Longrightarrow> tbv_frame_len (wire_size len) = len"
  by (simp add: tbv_frame_len_def wire_size_def)

definition wire_bytes :: "(tbv_tx_packet \<Rightarrow> u8 list) \<Rightarrow> tbv_tx_packet \<Rightarrow> u8 list" where
  "wire_bytes page packet = (if pk_zcopy packet then page packet else pk_buf packet)"

definition rx_packets :: "(tbv_tx_packet \<Rightarrow> u8 list) \<Rightarrow> tbv_tx_packet list \<Rightarrow> tbv_path \<Rightarrow> tbv_path" where
  "rx_packets page packets path =
     fold (\<lambda>packet path. fst (rx_classify (wire_bytes page packet)
       (tbv_frame_len (wire_size (pk_len packet))) (pk_sof packet) (pk_eof packet) path)) packets path"

fun pieces :: "(tbv_tx_packet \<Rightarrow> u8 list) \<Rightarrow> tbv_native_data_header \<Rightarrow> u32 \<Rightarrow> tbv_tx_packet list
    \<Rightarrow> path_event list" where
  "pieces page hdr off [] = []"
| "pieces page hdr off (packet # packets) =
     Rx_native (piece_header hdr off (pk_len packet)) (page packet)
     # pieces page hdr (off + pk_len packet) packets"

lemma raw_payload_backend [simp]:
  "p_backend (tbv_path_rx_raw_payload payload len path) = p_backend path"
  by (simp add: tbv_path_rx_raw_payload_def abort_raw_def emit_def Let_def split: sum.splits)

lemma rx_packets_stream:
  assumes "stream_shape ow (unat off) (unat (d_length hdr)) packets" and "raw_receiving hdr off path"
    and "off < d_length hdr" and "d_flags hdr AND TBV_NATIVE_DATA_F_RAW_STREAM \<noteq> 0"
    and "p_backend path = Some TBV_BACKEND_NATIVE" and "\<And>packet. length (page packet) = unat (pk_len packet)"
  shows "p_log (rx_packets page packets path) = p_log path @ pieces page hdr off packets
    \<and> \<not> p_rx_raw_pending (rx_packets page packets path)"
  using assms
proof (induction packets arbitrary: off path)
  case Nil
  then show ?case by (simp add: word_less_nat_alt)
next
  case (Cons packet packets)
  let ?len = "pk_len packet"
  let ?path = "tbv_path_rx_raw_payload (page packet) ?len path"
  have sh: "pk_zcopy packet" "?len \<noteq> 0" "?len \<le> TBV_DATA_FRAME_SIZE"
    "unat off + unat ?len \<le> unat (d_length hdr)"
    "stream_shape ow (unat off + unat ?len) (unat (d_length hdr)) packets"
    using Cons.prems(1) by simp_all
  have un: "unat (off + ?len) = unat off + unat ?len"
    using sh(4) unat_less_2p32 [of "d_length hdr"] by (intro unat_add_u32) linarith
  have "\<not> ?len > TBV_DATA_FRAME_SIZE" using sh(3) by simp
  then have cls: "fst (rx_classify (wire_bytes page packet) (tbv_frame_len (wire_size ?len))
      (pk_sof packet) (pk_eof packet) path) = ?path"
    using Cons.prems(2,5) sh(1,2) Cons.prems(6) [of packet]
    by (simp add: rx_classify_def frame_len_wire_size wire_bytes_def raw_receiving_def)
  then have run: "rx_packets page (packet # packets) path = rx_packets page packets ?path"
    by (simp add: rx_packets_def)
  note step = raw_payload_step [OF Cons.prems(2,4,3) sh(2,4), of "page packet"]
  show ?case
  proof (cases "off + ?len = d_length hdr")
    case True
    then have "packets = []" using sh(5) un
      by (cases packets) (auto simp: unat_eq_0 simp flip: un)
    then show ?thesis using run step(1,3) True by (simp add: rx_packets_def)
  next
    case False
    then have lt: "off + ?len < d_length hdr"
      using sh(4) un by (metis order_le_less word_le_nat_alt)
    have "p_log (rx_packets page packets ?path) = p_log ?path @ pieces page hdr (off + ?len) packets
        \<and> \<not> p_rx_raw_pending (rx_packets page packets ?path)"
      using Cons.IH [of "off + ?len" ?path] sh(5) un step(2) [OF lt] lt Cons.prems by simp
    then show ?thesis using run step(1) by simp
  qed
qed

lemma page_stream_queued:
  assumes "tbv_path_send_page_stream env se hdr_addr pkt_addr True True (Some hdr) tot
      TBV_PATH_SEND_DEFER md mc path = (Inr u, path')"
  obtains head more where "p_tx_data_queue path' = p_tx_data_queue path @ stamp (of_nat (Suc (length more))) (head # more)"
    "stream_shape mc 0 (unat tot) more" "tot \<noteq> 0" "\<not> pk_zcopy head" "pk_len head = 48"
    "tbv_native_data_parse_header (Some (pk_buf head)) = Inr (sent_stream_header hdr tot)"
    "length (pk_buf head) = 48" "pk_raw_stream_start head"
proof -
  let ?m = "if d_opcode hdr = TBV_NATIVE_DATA_OP_RDMA_WRITE
      \<or> d_opcode hdr = TBV_NATIVE_DATA_OP_RDMA_WRITE_IMM then TBV_DATA_FRAME_SIZE
      else TBV_NATIVE_DATA_MAX_PAYLOAD"
  note defs = tbv_path_send_page_stream_def Let_def
  have tot: "tot \<noteq> 0" using assms by (auto simp: defs split: if_splits)
  obtain buf n where b: "tbv_native_data_build_header (Some (replicate 48 0))
      (Some (sent_stream_header hdr tot)) = Inr (buf, n)"
    using assms by (auto simp: defs split: if_splits sum.splits)
  obtain pk where pk: "tbv_path_alloc_data_packet_owned pkt_addr buf 48 md mc = Some pk"
    using assms b by (auto simp: defs split: if_splits option.splits)
  obtain packets path1 where sp: "stream_pages se ?m tot mc 0 0 [pk\<lparr>pk_raw_stream_start := True\<rparr>] path
      = (Inr (), packets, path1)"
    using assms b pk
    by (cases "stream_pages se ?m tot mc 0 0 [pk\<lparr>pk_raw_stream_start := True\<rparr>] path")
       (auto simp: defs split: if_splits sum.splits)
  have "?m \<le> TBV_DATA_FRAME_SIZE" by simp
  then obtain more where more: "path1 = path" "packets = pk\<lparr>pk_raw_stream_start := True\<rparr> # more"
    "stream_shape mc 0 (unat tot) more"
    using stream_pages_shape [OF sp] by auto
  have q: "enqueue_data_list_locked packets (of_nat (length packets)) path = (Inr (), path')"
    using assms b pk sp more(1) tot
    by (auto simp: defs tbv_path_enqueue_data_list_def split: if_splits sum.splits prod.splits)
  have "tot \<le> TBV_NATIVE_DATA_MAX_MSG_SIZE" using assms by (auto simp: defs split: if_splits)
  then have "length packets \<le> 16777217"
    using stream_shape_length [OF more(3)] more(2) by (simp add: word_le_nat_alt)
  then have "unat (of_nat (length packets) :: u32) = length packets" by (simp add: unat_of_nat)
  then have "(of_nat (length packets) :: u32) \<noteq> 0" using more(2) by auto
  then have "p_tx_data_queue path' = p_tx_data_queue path @ stamp (of_nat (length packets)) packets"
    using q by (auto simp: enqueue_data_list_locked_def put_group_queue split: if_splits)
  moreover have "tbv_native_data_parse_header (Some buf) = Inr (sent_stream_header hdr tot)"
    "length buf = 48"
    using build_parse_header [OF b] by simp_all
  ultimately show ?thesis
    using that [of more "pk\<lparr>pk_raw_stream_start := True\<rparr>"] more(2,3) tot pk
    by (auto simp: tbv_path_alloc_data_packet_owned_def fresh_packet_def)
qed

lemma stream_shape_stamp: "stream_shape ow off n (stamp g packets) = stream_shape ow off n packets"
  by (induction g packets arbitrary: off rule: stamp.induct) simp_all

lemma stream_shape_sum:
  "stream_shape ow off n packets \<Longrightarrow> off + sum_list (map (unat \<circ> pk_len) packets) = n"
proof (induction packets arbitrary: off)
  case (Cons packet packets)
  have "off + unat (pk_len packet) + sum_list (map (unat \<circ> pk_len) packets) = n"
    by (rule Cons.IH) (use Cons.prems in simp)
  then show ?case by (simp add: comp_def add.assoc)
qed simp

lemma sent_flags:
  fixes f :: u8
  assumes "f AND NOT (TBV_NATIVE_DATA_F_LAST OR TBV_NATIVE_DATA_F_SOLICITED
    OR TBV_NATIVE_DATA_F_RAW_STREAM) = 0"
  shows "(f OR (TBV_NATIVE_DATA_F_LAST OR TBV_NATIVE_DATA_F_RAW_STREAM)) AND TBV_NATIVE_DATA_F_RAW_STREAM \<noteq> 0"
    and "(f OR (TBV_NATIVE_DATA_F_LAST OR TBV_NATIVE_DATA_F_RAW_STREAM)) AND
      NOT (TBV_NATIVE_DATA_F_LAST OR TBV_NATIVE_DATA_F_SOLICITED OR TBV_NATIVE_DATA_F_RAW_STREAM) = 0"
  using assms by (simp_all add: bit.conj_disj_distrib2 or_eq_0_iff)

text \<open>
  C11: A raw stream arrives as it was sent. When \<open>tbv_path_send_page_stream\<close> accepts a message,
  it queues a header frame and page frames; a receiving path that is given these frames in that
  order (which the scheduler guarantees) hands the verbs layer one fragment per page frame, with
  the bytes of the page, consecutive offsets from 0 and the stream's own addresses; the lengths
  add up to the message, the flags \<open>LAST\<close> and \<open>SOLICITED\<close> are on the final fragment only, and
  the receiver is back to reading headers afterwards.
\<close>

theorem raw_stream_delivered:
  assumes "tbv_path_send_page_stream env se hdr_addr pkt_addr True True (Some hdr) tot
      TBV_PATH_SEND_DEFER md mc path = (Inr u, path')"
    and "d_flags hdr AND NOT (TBV_NATIVE_DATA_F_LAST OR TBV_NATIVE_DATA_F_SOLICITED
        OR TBV_NATIVE_DATA_F_RAW_STREAM) = 0"
    and "d_opcode hdr \<noteq> TBV_NATIVE_DATA_OP_PATH_CREDIT"
    and "p_backend peer = Some TBV_BACKEND_NATIVE" and "\<not> p_rx_raw_pending peer"
    and "\<And>packet. length (page packet) = unat (pk_len packet)"
  shows "\<exists>head more. p_tx_data_queue path' = p_tx_data_queue path @ head # more
    \<and> pk_raw_stream_start head
    \<and> p_log (rx_packets page (head # more) peer)
        = p_log peer @ pieces page (sent_stream_header hdr tot) 0 more
    \<and> sum_list (map (unat \<circ> pk_len) more) = unat tot
    \<and> \<not> p_rx_raw_pending (rx_packets page (head # more) peer)"
proof -
  let ?hdr = "sent_stream_header hdr tot"
  obtain head more where q: "p_tx_data_queue path' =
      p_tx_data_queue path @ stamp (of_nat (Suc (length more))) (head # more)"
    and sh: "stream_shape mc 0 (unat tot) more" and tot: "tot \<noteq> 0"
    and hd: "\<not> pk_zcopy head" "pk_len head = 48"
      "tbv_native_data_parse_header (Some (pk_buf head)) = Inr ?hdr" "length (pk_buf head) = 48"
      "pk_raw_stream_start head"
    using assms(1) by (rule page_stream_queued)
  let ?head = "head\<lparr>pk_start_credit_group_frames := of_nat (Suc (length more)), pk_queued := True\<rparr>"
  let ?more = "stamp 0 more"
  have fl: "d_flags ?hdr AND TBV_NATIVE_DATA_F_RAW_STREAM \<noteq> 0"
    "d_flags ?hdr AND NOT (TBV_NATIVE_DATA_F_LAST OR TBV_NATIVE_DATA_F_SOLICITED
        OR TBV_NATIVE_DATA_F_RAW_STREAM) = 0"
    using sent_flags [OF assms(2)] by (simp_all add: sent_stream_header_def)
  have lh: "d_length ?hdr = tot" "d_opcode ?hdr = d_opcode hdr"
    by (simp_all add: sent_stream_header_def)
  let ?peer = "tbv_path_rx_start_raw ?hdr peer"
  have "rx_classify (wire_bytes page ?head) (tbv_frame_len (wire_size (pk_len ?head)))
      (pk_sof ?head) (pk_eof ?head) peer = (?peer, 1, 0)"
    using hd assms(3-5) fl lh tot
    by (simp add: rx_classify_def wire_bytes_def wire_size_def tbv_frame_len_def)
  then have run: "rx_packets page (?head # ?more) peer = rx_packets page ?more ?peer"
    by (simp add: rx_packets_def)
  have recv: "raw_receiving ?hdr 0 ?peer"
    using lh tot by (simp add: raw_receiving_def tbv_path_rx_start_raw_def)
  have "stream_shape mc (unat 0) (unat (d_length ?hdr)) ?more"
    using sh lh by (simp add: stream_shape_stamp)
  from rx_packets_stream [OF this recv _ fl(1) _ assms(6)]
  have "p_log (rx_packets page ?more ?peer) = p_log ?peer @ pieces page ?hdr 0 ?more
      \<and> \<not> p_rx_raw_pending (rx_packets page ?more ?peer)"
    using lh tot assms(4) by (simp add: tbv_path_rx_start_raw_def word_neq_0_conv)
  moreover have "sum_list (map (unat \<circ> pk_len) ?more) = unat tot"
    using stream_shape_sum [of mc 0 "unat tot" ?more] sh by (simp add: stream_shape_stamp)
  moreover have "p_log ?peer = p_log peer" by (simp add: tbv_path_rx_start_raw_def)
  ultimately show ?thesis
    using q run hd(5) by (intro exI [of _ ?head] exI [of _ ?more]) simp
qed

text \<open>A write of 4196 bytes in two pages.\<close>

definition demo_stream_env :: stream_env where
  "demo_stream_env =
     \<lparr>se_page_size = 4096,
      se_next = (\<lambda>k. if k = 0 then Inr \<lparr>sp_page = True, sp_off = 0, sp_len = 4096, sp_done = Some 1,
                       sp_done_ctx = Some 2\<rparr>
                     else Inr \<lparr>sp_page = True, sp_off = 16, sp_len = 100, sp_done = Some 1,
                       sp_done_ctx = Some 2\<rparr>),
      se_dma = (\<lambda>k. Some 0), se_addr = (\<lambda>k. Some (500 + k))\<rparr>"

definition demo_stream_header :: tbv_native_data_header where
  "demo_stream_header = zero_data_header\<lparr>d_opcode := TBV_NATIVE_DATA_OP_RDMA_WRITE,
     d_dest_qp := 17, d_remote_addr := 0x1000\<rparr>"

definition demo_tx_env :: tx_env where
  "demo_tx_env = \<lparr>e_native_tx_max_inflight = 32, e_ring_tx = (\<lambda>packet. Inr ())\<rparr>"

theorem raw_stream_delivered_witness:
  "\<exists>path' head more.
     tbv_path_send_page_stream demo_tx_env demo_stream_env (Some 1) (Some 499) True True
       (Some demo_stream_header) 4196 TBV_PATH_SEND_DEFER (Some 3) (Some 4) demo_path = (Inr (), path')
     \<and> p_tx_data_queue path' = head # more
     \<and> p_log (rx_packets (\<lambda>packet. replicate (unat (pk_len packet)) 7) (head # more) demo_path)
       = pieces (\<lambda>packet. replicate (unat (pk_len packet)) 7)
           (sent_stream_header demo_stream_header 4196) 0 more"
proof -
  let ?send = "tbv_path_send_page_stream demo_tx_env demo_stream_env (Some 1) (Some 499) True True
      (Some demo_stream_header) 4196 TBV_PATH_SEND_DEFER (Some 3) (Some 4) demo_path"
  obtain buf n where b: "tbv_native_data_build_header (Some (replicate 48 0))
      (Some (sent_stream_header demo_stream_header 4196)) = Inr (buf, n)"
    by (simp add: tbv_native_data_build_header_def sent_stream_header_def demo_stream_header_def
        zero_data_header_def tbv_native_data_length_limit_def Let_def)
  have h: "d_flags demo_stream_header = 0" "d_opcode demo_stream_header = TBV_NATIVE_DATA_OP_RDMA_WRITE"
    by (simp_all add: demo_stream_header_def zero_data_header_def)
  have "fst ?send = Inr ()"
    by (simp add: h tbv_path_send_page_stream_def Let_def only_flags_def b
        tbv_path_alloc_data_packet_owned_def stream_pages.simps demo_stream_env_def
        tbv_path_alloc_zcopy_packet_def tbv_path_enqueue_data_list_def enqueue_data_list_locked_def
        demo_eval case_prod_beta)
  then have s: "?send = (Inr (), snd ?send)" by (simp add: prod_eq_iff)
  have d: "p_backend demo_path = Some TBV_BACKEND_NATIVE" "\<not> p_rx_raw_pending demo_path"
    "p_tx_data_queue demo_path = []" "p_log demo_path = []"
    by (simp_all add: demo_eval)
  show ?thesis
    using raw_stream_delivered [OF s _ _ d(1,2), of "\<lambda>packet. replicate (unat (pk_len packet)) 7"] s h d
    by auto
qed

end
