(* ===== verification/Path_Credit.thy ===== *)
theory Path_Credit
  imports Path_Rx
begin

text \<open>
  Credits across the link: the credit message is read as it was sent, and what happens to the
  return of credits while a raw stream is active.
\<close>

section \<open>The credit message\<close>

lemma credit_header_valid: "credits \<noteq> 0 \<Longrightarrow> tbv_native_data_valid_path_credit (credit_header credits)"
  by (simp add: credit_header_def zero_data_header_def tbv_native_data_valid_path_credit_def)

lemma credit_build:
  obtains frame where "tbv_native_data_build_header (Some (replicate 48 0)) (Some (credit_header credits))
    = Inr (frame, 48)"
  by (simp add: tbv_native_data_build_header_def credit_header_def zero_data_header_def
      tbv_native_data_length_limit_def Let_def)

lemma send_rx_credit_eq:
  assumes "tbv_native_data_build_header (Some (replicate 48 0)) (Some (credit_header credits))
    = Inr (frame, 48)"
  shows "tbv_path_send_rx_credit env addr credits path =
    tbv_path_enqueue_control env addr frame 48 None None path"
  using assms by (simp add: tbv_path_send_rx_credit_def tbv_path_send_def only_flags_def)

text \<open>
  The credits a path returns arrive. A credit return that is accepted puts exactly one
  control packet at the end of the queue (before the scheduler runs), and the peer that reads
  this frame outside a raw stream takes it for a credit message of exactly that many credits,
  consumes no credit itself and gives nothing to the verbs layer.
\<close>

theorem credit_return_roundtrip:
  assumes "credits \<noteq> 0" and "tbv_path_tx_admits_locked path" and "p_tx_control_free path = []"
    and "p_backend peer = Some TBV_BACKEND_NATIVE" and "\<not> p_rx_raw_pending peer"
  shows "\<exists>packet. tbv_path_send_rx_credit env (Some a) credits path
           = (Inr (), tbv_path_schedule_tx env (emit (Enqueued packet)
               (path\<lparr>p_tx_control_queue := p_tx_control_queue path @ [packet],
                     p_tx_control_queued := p_tx_control_queued path + 1,
                     p_control_tx_enqueued := p_control_tx_enqueued path + 1\<rparr>)))
         \<and> rx_classify (pk_buf packet) (tbv_frame_len (wire_size (pk_len packet)))
             (pk_sof packet) (pk_eof packet) peer = (peer, 0, credits)"
proof -
  obtain frame where f: "tbv_native_data_build_header (Some (replicate 48 0))
      (Some (credit_header credits)) = Inr (frame, 48)"
    by (rule credit_build)
  note p = build_parse_header [OF f]
  let ?pk = "(fresh_packet a)\<lparr>pk_control := True, pk_pooled := False, pk_len := 48, pk_done := None,
     pk_done_ctx := None, pk_owner_ctx := None, pk_sof := TBV_DATA_PDF_FRAME_START,
     pk_eof := TBV_DATA_PDF_FRAME_END, pk_queued := True, pk_buf := frame\<rparr>"
  have "tbv_path_send_rx_credit env (Some a) credits path
      = (Inr (), tbv_path_schedule_tx env (emit (Enqueued ?pk)
          (path\<lparr>p_tx_control_queue := p_tx_control_queue path @ [?pk],
                p_tx_control_queued := p_tx_control_queued path + 1,
                p_control_tx_enqueued := p_control_tx_enqueued path + 1\<rparr>)))"
    using assms(2,3) p
    by (simp add: send_rx_credit_eq [OF f] tbv_path_enqueue_control_def enqueue_control_locked_def Let_def)
  moreover have "rx_classify frame (tbv_frame_len (wire_size 48)) TBV_DATA_PDF_FRAME_START
      TBV_DATA_PDF_FRAME_END peer = (peer, 0, credits)"
    using assms(4,5) p credit_header_valid [OF assms(1)]
    by (simp add: rx_classify_def wire_size_def tbv_frame_len_def credit_header_def)
  ultimately show ?thesis by (intro exI [of _ ?pk]) simp
qed

theorem credit_return_roundtrip_witness:
  "\<exists>packet :: tbv_tx_packet. fst (tbv_path_send_rx_credit demo_tx_env (Some 200) 256 demo_path) = Inr ()
     \<and> rx_classify (pk_buf packet) (tbv_frame_len (wire_size (pk_len packet)))
         (pk_sof packet) (pk_eof packet) demo_path = (demo_path, 0, 256)"
proof -
  have d: "(256 :: u32) \<noteq> 0" "tbv_path_tx_admits_locked demo_path" "p_tx_control_free demo_path = []"
    "p_backend demo_path = Some TBV_BACKEND_NATIVE" "\<not> p_rx_raw_pending demo_path"
    by (simp_all add: demo_eval)
  obtain packet where
    r: "tbv_path_send_rx_credit demo_tx_env (Some 200) 256 demo_path
      = (Inr (), tbv_path_schedule_tx demo_tx_env (emit (Enqueued packet)
          (demo_path\<lparr>p_tx_control_queue := p_tx_control_queue demo_path @ [packet],
             p_tx_control_queued := p_tx_control_queued demo_path + 1,
             p_control_tx_enqueued := p_control_tx_enqueued demo_path + 1\<rparr>)))"
    and c: "rx_classify (pk_buf packet) (tbv_frame_len (wire_size (pk_len packet)))
       (pk_sof packet) (pk_eof packet) demo_path = (demo_path, 0, 256)"
    using credit_return_roundtrip [OF d, of demo_tx_env 200] by blast
  have "fst (tbv_path_send_rx_credit demo_tx_env (Some 200) 256 demo_path) = Inr ()"
    unfolding r by (rule fst_conv)
  then show ?thesis using c by blast
qed

section \<open>A stream without credits\<close>

text \<open>
  A path whose raw stream is active and which has used up its credits. Nothing is chosen for the
  ring then, whatever the control queue holds.
\<close>

definition starved :: "tbv_path \<Rightarrow> bool" where
  "starved path \<longleftrightarrow>
     p_tx_raw_stream_active path \<and> p_tx_remote_data_credits path = 0
     \<and> p_tx_remote_data_credit_max path \<noteq> 0
     \<and> list_all (\<lambda>packet. \<not> pk_control packet) (p_tx_data_queue path)"

lemma starved_pick:
  assumes "starved path"
  shows "\<exists>s. tx_pick nmax path = (path\<lparr>p_data_tx_credit_stalls := s, p_tx_scheduling := False\<rparr>, None)"
proof -
  obtain path' hand where p: "tx_pick nmax path = (path', hand)" by fastforce
  have "hand = None"
  proof (rule ccontr)
    assume "hand \<noteq> None"
    then obtain h where "tx_pick nmax path = (path', Some h)" using p by auto
    then obtain packet fc ns ch where s: "tx_select path = Some (packet, fc, ns)"
      and c: "ch \<longleftrightarrow> \<not> pk_control packet \<and> p_tx_remote_data_credit_max path \<noteq> 0"
      "ch \<longrightarrow> max 1 (tbv_native_data_start_credit_required
        (pk_start_credit_group_frames packet) (p_tx_remote_data_credit_max path))
      \<le> p_tx_remote_data_credits path"
      by (rule tx_pick_Some)
    have "packet \<in> set (p_tx_data_queue path)"
      using s assms by (auto simp: tx_select_def starved_def split: if_splits list.splits)
    then have "ch" using assms c(1) by (auto simp: starved_def list_all_iff)
    then have "max 1 (tbv_native_data_start_credit_required
        (pk_start_credit_group_frames packet) (p_tx_remote_data_credit_max path)) \<le> 0"
      using c(2) assms by (simp add: starved_def)
    then show False by (simp add: max_def split: if_splits)
  qed
  then show ?thesis using p pick_None by blast
qed

lemma starved_schedule:
  assumes "starved path" and "\<not> p_tx_scheduling path"
  shows "\<exists>s. tbv_path_schedule_tx env path = path\<lparr>p_data_tx_credit_stalls := s\<rparr>"
proof -
  have "starved (path\<lparr>p_tx_scheduling := True\<rparr>)" using assms(1) by (simp add: starved_def)
  then obtain s where "tx_pick (e_native_tx_max_inflight env) (path\<lparr>p_tx_scheduling := True\<rparr>)
      = (path\<lparr>p_tx_scheduling := True, p_data_tx_credit_stalls := s, p_tx_scheduling := False\<rparr>, None)"
    using starved_pick by blast
  then have "tbv_path_schedule_tx env path = path\<lparr>p_data_tx_credit_stalls := s, p_tx_scheduling := False\<rparr>"
    using assms(2) by (simp add: tbv_path_schedule_tx_def schedule_loop.simps)
  also have "\<dots> = path\<lparr>p_data_tx_credit_stalls := s\<rparr>"
    using assms(2) by (intro tbv_path.equality) simp_all
  finally show ?thesis by blast
qed

text \<open>The part of the state the receive path leaves to the transmit side while it is starved.\<close>

definition stuck :: "tbv_path \<Rightarrow> tbv_path \<Rightarrow> bool" where
  "stuck path path' \<longleftrightarrow>
     starved path' \<and> \<not> p_tx_scheduling path' \<and> posted (p_log path') = posted (p_log path)
     \<and> p_ring path' = p_ring path \<and> p_tx_data_queue path' = p_tx_data_queue path
     \<and> p_backend path' = p_backend path"

lemma stuck_refl: "starved path \<Longrightarrow> \<not> p_tx_scheduling path \<Longrightarrow> stuck path path"
  by (simp add: stuck_def)

lemma stuck_enqueue_control:
  assumes "stuck path path1"
  shows "stuck path (snd (tbv_path_enqueue_control env addr data len dn dc path1))"
proof -
  let ?l = "enqueue_control_locked addr data len dn dc path1"
  have keep: "stuck path (snd ?l)"
    using assms
    by (auto simp: stuck_def starved_def enqueue_control_locked_def emit_def Let_def
        split: list.splits option.splits)
  then obtain s where "tbv_path_schedule_tx env (snd ?l) = (snd ?l)\<lparr>p_data_tx_credit_stalls := s\<rparr>"
    using starved_schedule by (auto simp: stuck_def)
  then have "stuck path (tbv_path_schedule_tx env (snd ?l))"
    using keep by (auto simp: stuck_def starved_def)
  then show ?thesis
    using keep
    by (cases ?l; cases "fst ?l") (simp_all add: tbv_path_enqueue_control_def)
qed

lemma stuck_send_rx_credit:
  assumes "stuck path path1"
  shows "stuck path (snd (tbv_path_send_rx_credit env addr credits path1))"
proof -
  obtain frame where f: "tbv_native_data_build_header (Some (replicate 48 0))
      (Some (credit_header credits)) = Inr (frame, 48)"
    by (rule credit_build)
  show ?thesis
    using assms stuck_enqueue_control by (simp add: send_rx_credit_eq [OF f])
qed

lemma stuck_return_credit:
  assumes "stuck path path1"
  shows "stuck path (tbv_path_return_rx_data_credit env addr credits path1)"
proof -
  have upd: "stuck path (p\<lparr>p_rx_data_credit_pending := x\<rparr>)"
    "stuck path (p\<lparr>p_rx_data_credit_pending := x, p_data_rx_credit_send_error := y\<rparr>)"
    "stuck path (p\<lparr>p_data_rx_credit_sent := z\<rparr>)" if "stuck path p" for p x y z
    using that by (auto simp: stuck_def starved_def)
  have "stuck path (snd (tbv_path_send_rx_credit env addr n (path1\<lparr>p_rx_data_credit_pending := 0\<rparr>)))" for n
    by (intro stuck_send_rx_credit upd assms)
  then show ?thesis
    using assms
    by (auto simp: tbv_path_return_rx_data_credit_def Let_def split: prod.splits sum.splits
        intro!: upd) (metis snd_conv upd)+
qed

lemma stuck_raw_payload:
  "stuck path path1 \<Longrightarrow> stuck path (tbv_path_rx_raw_payload payload len path1)"
  by (auto simp: stuck_def starved_def tbv_path_rx_raw_payload_def abort_raw_def emit_def Let_def
      split: sum.splits)

lemma stuck_rx_complete:
  assumes "stuck path path1" and "p_rx_raw_pending path1" and "p_backend path1 = Some TBV_BACKEND_NATIVE"
  shows "stuck path (tbv_path_rx_complete env addr repost buf frame_size sof eof canceled path1)"
proof -
  have c: "stuck path (p\<lparr>p_data_rx_completed := x\<rparr>)" "stuck path (p\<lparr>p_data_rx_canceled := x\<rparr>)"
    "stuck path (p\<lparr>p_data_rx_repost_failed := x\<rparr>)" if "stuck path p" for p x
    using that by (auto simp: stuck_def starved_def)
  let ?p = "path1\<lparr>p_data_rx_completed := p_data_rx_completed path1 + 1\<rparr>"
  obtain p2 r a where cl: "rx_classify buf (tbv_frame_len frame_size) sof eof ?p = (p2, r, a)"
    by (metis prod_cases3)
  have p2: "stuck path p2" and a: "a = 0"
    using cl assms c(1) [OF assms(1)] stuck_raw_payload [OF c(1) [OF assms(1)]]
    by (auto simp: rx_classify_def split: if_splits)
  then show ?thesis
    using cl c assms(1) stuck_return_credit [OF p2]
    by (auto simp: tbv_path_rx_complete_def Let_def split: sum.splits)
qed

text \<open>
  A run into that state: a stream of a header and three pages on a path whose peer granted two
  credits. Two frames go out and retire; the stream waits for credits.
\<close>

definition long_stream :: "tbv_tx_packet list" where
  "long_stream =
     [(demo_packet 300)\<lparr>pk_raw_stream_start := True, pk_owner_ctx := Some 9\<rparr>,
      (demo_packet 301)\<lparr>pk_zcopy := True, pk_owner_ctx := Some 9\<rparr>,
      (demo_packet 302)\<lparr>pk_zcopy := True, pk_owner_ctx := Some 9\<rparr>,
      (demo_packet 303)\<lparr>pk_zcopy := True, pk_raw_stream_end := True, pk_owner_ctx := Some 9\<rparr>]"

definition starving_labels :: "tx_label list" where
  "starving_labels = [Capacity 4, Put_list long_stream, Enter, Pick, Ring None, Pick, Ring None,
     Pick, Retire 0 False, Retire 0 False]"

text \<open>
  A path in the middle of its own raw stream does not return credits. Suppose its credits
  are used up (a reachable state, for any stream longer than the credits at hand) while it
  receives the peer's raw stream: whatever frames of that stream arrive, and although credit
  messages are queued for them, no frame at all is given to the ring and the path stays in
  that state. When both ends of a link are in it, neither gets the credits it waits for.
\<close>

theorem streams_starve_each_other:
  assumes "starved path" and "\<not> p_tx_scheduling path" and "p_rx_raw_pending path"
    and "p_backend path = Some TBV_BACKEND_NATIVE"
  shows "(let path' = tbv_path_rx_complete env addr repost buf frame_size sof eof canceled path
          in starved path' \<and> posted (p_log path') = posted (p_log path) \<and> p_ring path' = p_ring path
             \<and> (\<forall>nmax control. snd (tx_pick nmax (path'\<lparr>p_tx_control_queue := control\<rparr>)) = None))
         \<and> (let reached = fst (tx_run 32 starving_labels (demo_path, None))
            in starved reached \<and> \<not> p_tx_scheduling reached \<and> p_ring reached = []
               \<and> map pk_addr (posted (p_log reached)) = [300, 301])"
proof
  let ?path = "tbv_path_rx_complete env addr repost buf frame_size sof eof canceled path"
  have s: "stuck path ?path"
    using assms by (intro stuck_rx_complete stuck_refl)
  then have "starved (?path\<lparr>p_tx_control_queue := control\<rparr>)" for control
    by (auto simp: stuck_def starved_def)
  then have "snd (tx_pick nmax (?path\<lparr>p_tx_control_queue := control\<rparr>)) = None" for nmax control
    using starved_pick by (metis snd_conv)
  then show "let path' = ?path in starved path' \<and> posted (p_log path') = posted (p_log path)
      \<and> p_ring path' = p_ring path
      \<and> (\<forall>nmax control. snd (tx_pick nmax (path'\<lparr>p_tx_control_queue := control\<rparr>)) = None)"
    using s by (simp add: stuck_def Let_def)
  show "let reached = fst (tx_run 32 starving_labels (demo_path, None))
      in starved reached \<and> \<not> p_tx_scheduling reached \<and> p_ring reached = []
         \<and> map pk_addr (posted (p_log reached)) = [300, 301]"
    by (simp add: stream_eval starving_labels_def long_stream_def starved_def)
qed

theorem streams_starve_each_other_witness:
  "let path = (fst (tx_run 32 starving_labels (demo_path, None)))
         \<lparr>p_rx_raw_pending := True, p_rx_raw_remaining := 8192, p_rx_raw_flags := 5\<rparr>;
       path' = tbv_path_rx_complete demo_tx_env (Some 200) (Inr ()) (replicate 4096 0) 0 1 3 False path
   in starved path' \<and> posted (p_log path') = posted (p_log path)"
proof -
  let ?path = "(fst (tx_run 32 starving_labels (demo_path, None)))
      \<lparr>p_rx_raw_pending := True, p_rx_raw_remaining := 8192, p_rx_raw_flags := 5\<rparr>"
  have "starved ?path" "\<not> p_tx_scheduling ?path" "p_rx_raw_pending ?path"
    "p_backend ?path = Some TBV_BACKEND_NATIVE"
    by (simp_all add: stream_eval starving_labels_def long_stream_def starved_def)
  then show ?thesis
    unfolding Let_def
    using streams_starve_each_other [of ?path demo_tx_env "Some 200" "Inr ()" "replicate 4096 0" 0 1 3 False]
    by (simp only: Let_def) blast
qed

end
