(* ===== verification/Path_Life.thy ===== *)
theory Path_Life
  imports Path_History
begin

text \<open>
  The life of a path, \<^verbatim>\<open>src/kernel/path.c\<close>: allocation of its hop numbers, rings, frames and
  packet pools, start of the rings, the tunnel, the stop of the rings and the destruction.

  \<open>path_hw\<close> adds to the path of \<open>Path\<close> the pointers to what was allocated, the table
  \<open>tbv_thr_rings\<close> of the file (shared by all paths) and a log of the calls that acquire and
  release resources of the kernel. The answers of the kernel are arguments, collected in
  \<open>life_env\<close>; a pointer to an array that the code only tests for NULL is a truth value.
\<close>

section \<open>Resources and the answers of the kernel\<close>

text \<open>What the code reads of a ring; \<open>rg_iobase\<close> says that its controller is mapped.\<close>

record tb_ring =
  rg_addr :: nat
  rg_hop :: int
  rg_is_tx :: bool
  rg_vector :: int
  rg_iobase :: bool

datatype resource =
    In_hop int | Out_hop int
  | Ring_mem nat | Running nat
  | Frames bool | Frame_buf bool nat | Frame_map bool nat
  | Control_packets | Data_packets | Data_buf nat
  | Tx_trace | Tx_wq

text \<open>
  \<open>Abandon\<close> records that a call which would give something back was left out because the device behind it
  is gone: the mapping of a frame when the DMA device is not ready, and the stop of a ring when the
  controller is going away.
\<close>

datatype hw_event =
    Acquire resource
  | Release resource
  | Abandon resource
  | Throttle nat int u32

record life_env =
  le_txtrace :: bool
  le_tx_worker_cpu :: int
  le_tx_worker_dedicated :: bool
  le_wq :: bool
  le_alloc_in_hopid :: "int \<Rightarrow> int res"
  le_alloc_out_hopid :: "int \<Rightarrow> int res"
  le_ring_alloc_tx :: "tb_ring ptr"
  le_ring_alloc_rx :: "tb_ring ptr"
  le_ring_throttling :: "(tb_ring \<Rightarrow> u32 \<Rightarrow> unit res) ptr"
  le_nhi_throttle_direct :: bool
  le_nhi_interrupt_throttle_ns :: u32
  le_dma_ready :: "bool \<Rightarrow> bool"
  le_frames :: "bool \<Rightarrow> bool"
  le_frame_buf :: "bool \<Rightarrow> nat \<Rightarrow> bool"
  le_frame_map :: "bool \<Rightarrow> nat \<Rightarrow> bool"
  le_control_packets :: "nat ptr"
  le_data_packets :: "nat ptr"
  le_data_buf :: "nat \<Rightarrow> bool"
  le_tx_progress_poll :: int
  le_rx_supp_poll :: int

record path_hw =
  hw_path :: tbv_path
  hw_tx_ring :: "tb_ring ptr"
  hw_rx_ring :: "tb_ring ptr"
  hw_tx_frames :: bool
  hw_rx_frames :: bool
  hw_tx_control_packets :: bool
  hw_tx_control_packet_count :: u32
  hw_tx_data_packets :: bool
  hw_tx_data_packet_count :: u32
  hw_tx_trace :: bool
  hw_tx_wq :: bool
  hw_tx_poll_enabled :: bool
  hw_rx_supp_poll_enabled :: bool
  hw_rings_stopped :: bool
  hw_thr_rings :: "tb_ring ptr list"
  hw_log :: "hw_event list"

definition hw_emit :: "hw_event list \<Rightarrow> path_hw \<Rightarrow> path_hw" where
  "hw_emit es hw = hw\<lparr>hw_log := hw_log hw @ es\<rparr>"

definition on_path :: "(tbv_path \<Rightarrow> tbv_path) \<Rightarrow> path_hw \<Rightarrow> path_hw" where
  "on_path f hw = hw\<lparr>hw_path := f (hw_path hw)\<rparr>"

section \<open>Interrupt throttling\<close>

abbreviation TBV_THR_MAX_RINGS :: nat where "TBV_THR_MAX_RINGS \<equiv> 16"

definition tbv_path_ring_throttling_direct :: "tb_ring \<Rightarrow> u32 \<Rightarrow> path_hw \<Rightarrow> unit res \<times> path_hw" where
  "tbv_path_ring_throttling_direct ring interval_nsec hw =
     (if \<not> rg_iobase ring then (Inl ENODEV, hw)
      else if rg_vector ring < 0 \<or> rg_vector ring \<ge> 16 then (Inl EINVAL, hw)
      else (Inr (), hw_emit [Throttle (rg_addr ring) (rg_vector ring)
              (div_round_up_u32 interval_nsec 256)] hw))"

text \<open>The ring takes the first slot that is empty or already its own.\<close>

fun thr_add :: "tb_ring \<Rightarrow> tb_ring ptr list \<Rightarrow> tb_ring ptr list" where
  "thr_add ring [] = []"
| "thr_add ring (slot # slots) =
     (if slot = Some ring then slot # slots
      else if slot = None then Some ring # slots
      else slot # thr_add ring slots)"

definition tbv_thr_add :: "tb_ring ptr \<Rightarrow> path_hw \<Rightarrow> path_hw" where
  "tbv_thr_add ring hw =
     (case ring of None \<Rightarrow> hw
      | Some ring \<Rightarrow> hw\<lparr>hw_thr_rings := thr_add ring (hw_thr_rings hw)\<rparr>)"

definition tbv_thr_del :: "tb_ring ptr \<Rightarrow> path_hw \<Rightarrow> path_hw" where
  "tbv_thr_del ring hw =
     (case ring of None \<Rightarrow> hw
      | Some ring \<Rightarrow> hw\<lparr>hw_thr_rings :=
          map (\<lambda>slot. if slot = Some ring then None else slot) (hw_thr_rings hw)\<rparr>)"

text \<open>A write of the module parameter programs every ring of the table of one direction.\<close>

definition thr_selects :: "bool \<Rightarrow> tb_ring ptr \<Rightarrow> bool" where
  "thr_selects want_tx slot =
     (case slot of None \<Rightarrow> False
      | Some ring \<Rightarrow> rg_is_tx ring = want_tx \<and> rg_iobase ring \<and> 0 \<le> rg_vector ring \<and> rg_vector ring < 16)"

definition tbv_thr_program :: "bool \<Rightarrow> u32 \<Rightarrow> path_hw \<Rightarrow> nat \<times> path_hw" where
  "tbv_thr_program want_tx interval hw =
     (let rings = map the (filter (thr_selects want_tx) (hw_thr_rings hw))
      in (length rings,
          hw_emit (map (\<lambda>ring. Throttle (rg_addr ring) (rg_vector ring)
                                 (div_round_up_u32 interval 256)) rings) hw))"

definition tbv_path_is_apple :: "tbv_path \<Rightarrow> bool" where
  "tbv_path_is_apple path \<longleftrightarrow> p_backend path = Some TBV_BACKEND_APPLE"

text \<open>Called with both rings allocated.\<close>

definition tbv_path_configure_ring_throttling ::
  "life_env \<Rightarrow> tb_ring \<Rightarrow> tb_ring \<Rightarrow> path_hw \<Rightarrow> unit res \<times> path_hw" where
  "tbv_path_configure_ring_throttling env tx rx hw =
     (let interval = le_nhi_interrupt_throttle_ns env
      in case le_ring_throttling env of
           None \<Rightarrow>
             if le_nhi_throttle_direct env \<and> tbv_path_is_apple (hw_path hw) then (Inr (), hw)
             else
               (let hw = (if le_nhi_throttle_direct env
                          then tbv_thr_add (Some rx) (tbv_thr_add (Some tx) hw) else hw)
                in if interval \<noteq> 0 \<and> le_nhi_throttle_direct env
                   then (case tbv_path_ring_throttling_direct tx interval hw of
                           (Inl e, hw) \<Rightarrow> (Inl e, hw)
                         | (Inr _, hw) \<Rightarrow> tbv_path_ring_throttling_direct rx interval hw)
                   else (Inr (), hw))
         | Some throttling \<Rightarrow>
             (case throttling tx interval of
                Inl e \<Rightarrow> (Inl e, hw)
              | Inr _ \<Rightarrow> (throttling rx interval, hw)))"

section \<open>Frames and packet pools\<close>

definition unmap_events :: "bool \<Rightarrow> nat \<Rightarrow> hw_event list" where
  "unmap_events tx i = [Release (Frame_map tx i), Release (Frame_buf tx i)]"

text \<open>
  The loop of \<open>tbv_path_alloc_frames\<close>, with the frames mapped so far, the latest first. On an
  error they are unmapped in that order; the nodes they have on \<open>tx_free\<close> stay there.
\<close>

fun map_frames ::
  "life_env \<Rightarrow> bool \<Rightarrow> nat list \<Rightarrow> nat list \<Rightarrow> path_hw \<Rightarrow> unit res \<times> path_hw" where
  "map_frames env tx mapped [] hw = (Inr (), hw)"
| "map_frames env tx mapped (i # is) hw =
     (if \<not> le_frame_buf env tx i
      then (Inl ENOMEM, hw_emit (concat (map (unmap_events tx) mapped)) hw)
      else if \<not> le_frame_map env tx i
      then (Inl EIO, hw_emit ([Acquire (Frame_buf tx i), Release (Frame_buf tx i)]
              @ concat (map (unmap_events tx) mapped)) hw)
      else
        (let hw = hw_emit [Acquire (Frame_buf tx i), Acquire (Frame_map tx i)] hw;
             hw = (if tx then on_path (\<lambda>path. path\<lparr>p_tx_free := p_tx_free path @ [i]\<rparr>) hw else hw)
         in map_frames env tx (i # mapped) is hw))"

definition frame_count :: "bool \<Rightarrow> path_hw \<Rightarrow> u32" where
  "frame_count tx hw =
     (if tx then p_tx_frame_count (hw_path hw) else p_rx_frame_count (hw_path hw))"

definition tbv_path_alloc_frames :: "life_env \<Rightarrow> bool \<Rightarrow> path_hw \<Rightarrow> unit res \<times> path_hw" where
  "tbv_path_alloc_frames env tx hw =
     (let cnt = (if tx then pc_tx_ring_size (p_cfg (hw_path hw))
                 else pc_rx_ring_size (p_cfg (hw_path hw)))
      in if \<not> le_dma_ready env tx then (Inl EPROBE_DEFER, hw)
         else if \<not> le_frames env tx then (Inl ENOMEM, hw)
         else (case map_frames env tx [] [0..<unat cnt] (hw_emit [Acquire (Frames tx)] hw) of
                 (Inl e, hw) \<Rightarrow> (Inl e, hw_emit [Release (Frames tx)] hw)
               | (Inr _, hw) \<Rightarrow>
                   (Inr (), if tx then on_path (\<lambda>path. path\<lparr>p_tx_frame_count := cnt\<rparr>)
                                         (hw\<lparr>hw_tx_frames := True\<rparr>)
                            else on_path (\<lambda>path. path\<lparr>p_rx_frame_count := cnt\<rparr>)
                                   (hw\<lparr>hw_rx_frames := True\<rparr>))))"

definition tbv_path_free_frames :: "life_env \<Rightarrow> bool \<Rightarrow> path_hw \<Rightarrow> path_hw" where
  "tbv_path_free_frames env tx hw =
     (if \<not> (if tx then hw_tx_frames hw else hw_rx_frames hw)
         \<or> (if tx then hw_tx_ring hw else hw_rx_ring hw) = None then hw
      else
        (let hw = hw_emit (concat (map (\<lambda>i. [(if le_dma_ready env tx then Release else Abandon) (Frame_map tx i),
                                               Release (Frame_buf tx i)])
                                   [0..<unat (frame_count tx hw)])) hw;
             hw = (if tx then on_path (\<lambda>path. path\<lparr>p_tx_frame_count := 0, p_tx_free := []\<rparr>)
                                (hw\<lparr>hw_tx_frames := False\<rparr>)
                   else on_path (\<lambda>path. path\<lparr>p_rx_frame_count := 0\<rparr>) (hw\<lparr>hw_rx_frames := False\<rparr>))
         in hw_emit [Release (Frames tx)] hw))"

text \<open>Element \<open>i\<close> of an array of packets is identified by the address of the array plus \<open>i\<close>.\<close>

definition pool_packet :: "bool \<Rightarrow> nat \<Rightarrow> nat \<Rightarrow> tbv_tx_packet" where
  "pool_packet control base i = (fresh_packet (base + i))\<lparr>pk_control := control, pk_pooled := True\<rparr>"

definition tbv_path_alloc_control_packets :: "life_env \<Rightarrow> path_hw \<Rightarrow> unit res \<times> path_hw" where
  "tbv_path_alloc_control_packets env hw =
     (let cnt = tbv_path_control_packet_count (hw_path hw)
      in case le_control_packets env of
           None \<Rightarrow> (Inl ENOMEM, hw)
         | Some base \<Rightarrow>
             (Inr (), hw_emit [Acquire Control_packets]
                (on_path (\<lambda>path. path\<lparr>p_tx_control_free := p_tx_control_free path
                             @ map (pool_packet True base) [0..<unat cnt],
                           p_tx_data_queue_limit :=
                             pc_tx_ring_size (p_cfg path) * TBV_DATA_QUEUE_MULTIPLIER\<rparr>)
                   (hw\<lparr>hw_tx_control_packets := True, hw_tx_control_packet_count := cnt\<rparr>))))"

text \<open>\<open>kfree\<close> of NULL does nothing.\<close>

definition tbv_path_free_control_packets :: "path_hw \<Rightarrow> path_hw" where
  "tbv_path_free_control_packets hw =
     on_path (\<lambda>path. path\<lparr>p_tx_control_queued := 0, p_tx_data_queued := 0, p_tx_data_reserved := 0,
                          p_tx_data_queue_limit := 0, p_tx_control_free := []\<rparr>)
       ((hw_emit (if hw_tx_control_packets hw then [Release Control_packets] else []) hw)
          \<lparr>hw_tx_control_packets := False, hw_tx_control_packet_count := 0\<rparr>)"

fun alloc_data_bufs ::
  "life_env \<Rightarrow> nat \<Rightarrow> nat list \<Rightarrow> nat list \<Rightarrow> path_hw \<Rightarrow> unit res \<times> path_hw" where
  "alloc_data_bufs env base got [] hw = (Inr (), hw)"
| "alloc_data_bufs env base got (i # is) hw =
     (if \<not> le_data_buf env i
      then (Inl ENOMEM, on_path (\<lambda>path. path\<lparr>p_tx_data_free := []\<rparr>)
              (hw_emit (map (\<lambda>j. Release (Data_buf j)) got @ [Release Data_packets]) hw))
      else alloc_data_bufs env base (i # got) is
             (on_path (\<lambda>path. path\<lparr>p_tx_data_free := p_tx_data_free path @ [pool_packet False base i]\<rparr>)
               (hw_emit [Acquire (Data_buf i)] hw)))"

definition tbv_path_alloc_data_packets :: "life_env \<Rightarrow> path_hw \<Rightarrow> unit res \<times> path_hw" where
  "tbv_path_alloc_data_packets env hw =
     (let cnt = tbv_path_data_packet_count (hw_path hw)
      in if p_backend (hw_path hw) \<noteq> Some TBV_BACKEND_APPLE then (Inr (), hw)
         else case le_data_packets env of
                None \<Rightarrow> (Inl ENOMEM, hw)
              | Some base \<Rightarrow>
                  (case alloc_data_bufs env base [] [0..<unat cnt] (hw_emit [Acquire Data_packets] hw) of
                     (Inl e, hw) \<Rightarrow> (Inl e, hw)
                   | (Inr _, hw) \<Rightarrow> (Inr (), hw\<lparr>hw_tx_data_packets := True,
                                                hw_tx_data_packet_count := cnt\<rparr>)))"

definition tbv_path_free_data_packets :: "path_hw \<Rightarrow> path_hw" where
  "tbv_path_free_data_packets hw =
     on_path (\<lambda>path. path\<lparr>p_tx_data_free := []\<rparr>)
       ((hw_emit (map (\<lambda>i. Release (Data_buf i)) [0..<unat (hw_tx_data_packet_count hw)]
                  @ (if hw_tx_data_packets hw then [Release Data_packets] else [])) hw)
          \<lparr>hw_tx_data_packets := False, hw_tx_data_packet_count := 0\<rparr>)"

section \<open>The rings\<close>

definition tbv_path_progress_poll_enabled :: "int \<Rightarrow> tbv_path \<Rightarrow> bool" where
  "tbv_path_progress_poll_enabled mode path =
     (if p_backend path = None then False
      else if mode = 0 then False
      else if mode > 0 then True
      else p_backend path = Some TBV_BACKEND_NATIVE)"

definition tbv_path_rx_supp_poll_enabled :: "int \<Rightarrow> tbv_path \<Rightarrow> bool" where
  "tbv_path_rx_supp_poll_enabled mode path =
     (if p_backend path = None then False
      else if mode = 0 then False
      else if mode > 0 then True
      else p_backend path = Some TBV_BACKEND_NATIVE)"

definition tbv_path_create_tx_wq :: "life_env \<Rightarrow> path_hw \<Rightarrow> path_hw" where
  "tbv_path_create_tx_wq env hw =
     (if hw_tx_wq hw \<or> \<not> (le_tx_worker_dedicated env \<or> le_tx_worker_cpu env \<ge> 0) then hw
      else if \<not> le_wq env then hw
      else hw_emit [Acquire Tx_wq] (hw\<lparr>hw_tx_wq := True\<rparr>))"

definition tbv_path_destroy_tx_wq :: "path_hw \<Rightarrow> path_hw" where
  "tbv_path_destroy_tx_wq hw =
     (if \<not> hw_tx_wq hw then hw else (hw_emit [Release Tx_wq] hw)\<lparr>hw_tx_wq := False\<rparr>)"

text \<open>Stops of the error path of \<open>tbv_path_alloc_rings\<close>, each falling through to the next.\<close>

definition err_in_hop :: "path_hw \<Rightarrow> path_hw" where
  "err_in_hop hw =
     (if p_remote_transmit_path (hw_path hw) \<ge> 0
      then on_path (\<lambda>path. path\<lparr>p_remote_transmit_path := - 1\<rparr>)
             (hw_emit [Release (In_hop (p_remote_transmit_path (hw_path hw)))] hw)
      else hw)"

definition err_tx_ring :: "tb_ring \<Rightarrow> path_hw \<Rightarrow> path_hw" where
  "err_tx_ring tx hw =
     err_in_hop (on_path (\<lambda>path. path\<lparr>p_local_tx_hop := - 1\<rparr>)
       ((hw_emit [Release (Ring_mem (rg_addr tx))] hw)\<lparr>hw_tx_ring := None\<rparr>))"

definition err_out_hop :: "tb_ring \<Rightarrow> path_hw \<Rightarrow> path_hw" where
  "err_out_hop tx hw =
     err_tx_ring tx (on_path (\<lambda>path. path\<lparr>p_local_transmit_path := - 1\<rparr>)
       (hw_emit [Release (Out_hop (p_local_transmit_path (hw_path hw)))] hw))"

definition err_rx_ring :: "tb_ring \<Rightarrow> tb_ring \<Rightarrow> path_hw \<Rightarrow> path_hw" where
  "err_rx_ring tx rx hw =
     err_out_hop tx (on_path (\<lambda>path. path\<lparr>p_local_rx_hop := - 1\<rparr>)
       ((hw_emit [Release (Ring_mem (rg_addr rx))] hw)\<lparr>hw_rx_ring := None\<rparr>))"

definition err_tx_frames :: "life_env \<Rightarrow> tb_ring \<Rightarrow> tb_ring \<Rightarrow> path_hw \<Rightarrow> path_hw" where
  "err_tx_frames env tx rx hw = err_rx_ring tx rx (tbv_path_free_frames env True hw)"

definition err_rx_frames :: "life_env \<Rightarrow> tb_ring \<Rightarrow> tb_ring \<Rightarrow> path_hw \<Rightarrow> path_hw" where
  "err_rx_frames env tx rx hw = err_tx_frames env tx rx (tbv_path_free_frames env False hw)"

definition err_control_packets :: "life_env \<Rightarrow> tb_ring \<Rightarrow> tb_ring \<Rightarrow> path_hw \<Rightarrow> path_hw" where
  "err_control_packets env tx rx hw = err_rx_frames env tx rx (tbv_path_free_control_packets hw)"

text \<open>The second half, from the moment both rings exist.\<close>

definition alloc_pools :: "life_env \<Rightarrow> tb_ring \<Rightarrow> tb_ring \<Rightarrow> path_hw \<Rightarrow> unit res \<times> path_hw" where
  "alloc_pools env tx rx hw =
     (case tbv_path_configure_ring_throttling env tx rx hw of
        (Inl e, hw) \<Rightarrow> (Inl e, err_rx_ring tx rx hw)
      | (Inr _, hw) \<Rightarrow>
     (case tbv_path_alloc_frames env True hw of
        (Inl e, hw) \<Rightarrow> (Inl e, err_rx_ring tx rx hw)
      | (Inr _, hw) \<Rightarrow>
     (case tbv_path_alloc_frames env False hw of
        (Inl e, hw) \<Rightarrow> (Inl e, err_tx_frames env tx rx hw)
      | (Inr _, hw) \<Rightarrow>
     (case tbv_path_alloc_control_packets env hw of
        (Inl e, hw) \<Rightarrow> (Inl e, err_rx_frames env tx rx hw)
      | (Inr _, hw) \<Rightarrow>
     (case tbv_path_alloc_data_packets env hw of
        (Inl e, hw) \<Rightarrow> (Inl e, err_control_packets env tx rx hw)
      | (Inr _, hw) \<Rightarrow>
          (Inr (), on_path (\<lambda>path. path\<lparr>p_state := TBV_PATH_RING_ALLOCATED\<rparr>) hw))))))"

text \<open>The in-hop of a fixed receive path, the transmit ring, the out-hop, the receive ring.\<close>

definition alloc_in_hop :: "life_env \<Rightarrow> path_hw \<Rightarrow> unit res \<times> path_hw" where
  "alloc_in_hop env hw =
     (let receive_path = pc_receive_path (p_cfg (hw_path hw))
      in if receive_path < 0 then (Inr (), hw)
         else case le_alloc_in_hopid env receive_path of
                Inl e \<Rightarrow> (Inl e, hw)
              | Inr hop \<Rightarrow>
                  if hop \<noteq> receive_path
                  then (Inl EBUSY, hw_emit [Acquire (In_hop hop), Release (In_hop hop)] hw)
                  else (Inr (), on_path (\<lambda>path. path\<lparr>p_remote_transmit_path := hop\<rparr>)
                          (hw_emit [Acquire (In_hop hop)] hw)))"

definition alloc_ring_pair ::
  "life_env \<Rightarrow> int \<Rightarrow> path_hw \<Rightarrow> unit res \<times> path_hw" where
  "alloc_ring_pair env requested_transmit_path hw =
     (case le_ring_alloc_tx env of
        None \<Rightarrow> (Inl ENOMEM, err_in_hop hw)
      | Some tx \<Rightarrow>
          (let hw = (hw_emit [Acquire (Ring_mem (rg_addr tx))] hw)\<lparr>hw_tx_ring := Some tx\<rparr>
           in case le_alloc_out_hopid env requested_transmit_path of
                Inl e \<Rightarrow> (Inl e, err_tx_ring tx hw)
              | Inr transmit_path \<Rightarrow>
                  (let hw = on_path (\<lambda>path. path\<lparr>p_local_transmit_path := transmit_path,
                                                 p_local_tx_hop := rg_hop tx\<rparr>)
                              (hw_emit [Acquire (Out_hop transmit_path)] hw);
                       hw = hw\<lparr>hw_tx_poll_enabled :=
                                 tbv_path_progress_poll_enabled (le_tx_progress_poll env) (hw_path hw),
                               hw_rx_supp_poll_enabled :=
                                 tbv_path_rx_supp_poll_enabled (le_rx_supp_poll env) (hw_path hw)\<rparr>
                   in case le_ring_alloc_rx env of
                        None \<Rightarrow> (Inl ENOMEM, err_out_hop tx hw)
                      | Some rx \<Rightarrow>
                          alloc_pools env tx rx
                            (on_path (\<lambda>path. path\<lparr>p_local_rx_hop := rg_hop rx\<rparr>)
                              ((hw_emit [Acquire (Ring_mem (rg_addr rx))] hw)
                                 \<lparr>hw_rx_ring := Some rx\<rparr>)))))"

definition tbv_path_alloc_rings ::
  "life_env \<Rightarrow> int \<Rightarrow> path_hw \<Rightarrow> unit res \<times> path_hw" where
  "tbv_path_alloc_rings env requested_transmit_path hw =
     (if p_state (hw_path hw) \<noteq> TBV_PATH_NEW \<and> p_state (hw_path hw) \<noteq> TBV_PATH_STOPPED
      then (Inl EBUSY, hw)
      else
        (let hw = (if hw_tx_trace hw \<or> \<not> le_txtrace env then hw
                   else hw_emit [Acquire Tx_trace] (hw\<lparr>hw_tx_trace := True\<rparr>));
             hw = tbv_path_create_tx_wq env hw;
             requested = (if requested_transmit_path < 0
                          then pc_transmit_path (p_cfg (hw_path hw)) else requested_transmit_path)
         in case alloc_in_hop env hw of
              (Inl e, hw) \<Rightarrow> (Inl e, hw)
            | (Inr _, hw) \<Rightarrow> alloc_ring_pair env requested hw))"

section \<open>Starting the rings and the tunnel\<close>

text \<open>
  \<open>post i\<close> is the answer of \<open>tb_ring_rx\<close> for receive frame \<open>i\<close>. The interrupt interval stored in
  the rings and its read-back are not modelled.
\<close>

fun post_rx_frames :: "(nat \<Rightarrow> unit res) \<Rightarrow> nat list \<Rightarrow> unit res" where
  "post_rx_frames post [] = Inr ()"
| "post_rx_frames post (i # is) =
     (case post i of Inl e \<Rightarrow> Inl e | Inr _ \<Rightarrow> post_rx_frames post is)"

definition ring_events :: "(resource \<Rightarrow> hw_event) \<Rightarrow> tb_ring ptr \<Rightarrow> hw_event list" where
  "ring_events ev ring = (case ring of None \<Rightarrow> [] | Some r \<Rightarrow> [ev (Running (rg_addr r))])"

definition tbv_path_start_rings :: "(nat \<Rightarrow> unit res) \<Rightarrow> path_hw \<Rightarrow> unit res \<times> path_hw" where
  "tbv_path_start_rings post hw =
     (if p_state (hw_path hw) \<noteq> TBV_PATH_RING_ALLOCATED then (Inl EINVAL, hw)
      else (post_rx_frames post [0..<unat (p_rx_frame_count (hw_path hw))],
            on_path (\<lambda>path. path\<lparr>p_state := TBV_PATH_RING_STARTED\<rparr>)
              (hw_emit (ring_events Acquire (hw_tx_ring hw) @ ring_events Acquire (hw_rx_ring hw)) hw)))"

definition release_in_hop :: "path_hw \<Rightarrow> path_hw" where
  "release_in_hop hw =
     on_path (\<lambda>path. path\<lparr>p_remote_transmit_path := - 1\<rparr>)
       (hw_emit [Release (In_hop (p_remote_transmit_path (hw_path hw)))] hw)"

text \<open>\<open>enable\<close> is the answer of \<open>tb_xdomain_enable_paths\<close>, \<open>disable\<close> that of \<open>tb_xdomain_disable_paths\<close>.\<close>

definition tbv_path_enable_tunnel ::
  "tx_env \<Rightarrow> (int \<Rightarrow> int res) \<Rightarrow> unit res \<Rightarrow> int \<Rightarrow> path_hw \<Rightarrow> unit res \<times> path_hw" where
  "tbv_path_enable_tunnel env alloc_in_hopid enable remote_transmit_path hw =
     (let finish = (\<lambda>hw. case enable of
            Inl e \<Rightarrow> (Inl e, release_in_hop hw)
          | Inr _ \<Rightarrow> (Inr (), on_path (\<lambda>path. tbv_path_schedule_tx env
              (path\<lparr>p_remote_transmit_path := remote_transmit_path,
                    p_state := TBV_PATH_TUNNEL_ENABLED\<rparr>)) hw))
      in if p_state (hw_path hw) \<noteq> TBV_PATH_RING_STARTED then (Inl EINVAL, hw)
         else if p_remote_transmit_path (hw_path hw) \<ge> 0
         then (if p_remote_transmit_path (hw_path hw) \<noteq> remote_transmit_path then (Inl EBUSY, hw)
               else finish hw)
         else case alloc_in_hopid remote_transmit_path of
                Inl e \<Rightarrow> (Inl e, hw)
              | Inr hop \<Rightarrow>
                  if hop \<noteq> remote_transmit_path
                  then (Inl EBUSY, hw_emit [Acquire (In_hop hop), Release (In_hop hop)] hw)
                  else finish (on_path (\<lambda>path. path\<lparr>p_remote_transmit_path := hop\<rparr>)
                                 (hw_emit [Acquire (In_hop hop)] hw)))"

definition tbv_path_disable_tunnel :: "unit res \<Rightarrow> path_hw \<Rightarrow> unit res \<times> path_hw" where
  "tbv_path_disable_tunnel disable hw =
     (if p_state (hw_path hw) \<noteq> TBV_PATH_TUNNEL_ENABLED then (Inr (), hw)
      else case disable of
             Inl e \<Rightarrow> (Inl e, hw)
           | Inr _ \<Rightarrow> (Inr (), on_path (\<lambda>path. path\<lparr>p_state := TBV_PATH_RING_STARTED\<rparr>)
                                (release_in_hop hw)))"

section \<open>Draining, the ring barrier and destruction\<close>

text \<open>
  The descriptors the hardware has completed are taken off the tail of the ring, oldest first;
  \<open>n\<close> is how many times \<open>tb_ring_poll\<close> returns one.
\<close>

fun tbv_path_reap_tx :: "tx_env \<Rightarrow> nat \<Rightarrow> tbv_path \<Rightarrow> tbv_path" where
  "tbv_path_reap_tx env 0 path = path"
| "tbv_path_reap_tx env (Suc n) path =
     (case p_ring path of
        [] \<Rightarrow> path
      | d # _ \<Rightarrow> tbv_path_reap_tx env n (tbv_path_schedule_tx env (retire_locked d False path)))"

text \<open>
  The wait for the retirement of everything submitted. Each slice gives the descriptors found
  completed and the steps of other threads during the wait that follows; the deadline passes
  after the last slice.
\<close>

fun tbv_path_drain_tx ::
  "tx_env \<Rightarrow> (nat \<times> tx_label list) list \<Rightarrow> nat \<Rightarrow> tx_sys \<Rightarrow> unit res \<times> tx_sys" where
  "tbv_path_drain_tx env [] n (path, hand) =
     (let path = tbv_path_reap_tx env n path
      in (if tbv_path_tx_retired path then Inr () else Inl ETIMEDOUT, (path, hand)))"
| "tbv_path_drain_tx env ((m, labels) # slices) n (path, hand) =
     (let path = tbv_path_reap_tx env m path
      in if tbv_path_tx_retired path then (Inr (), (path, hand))
         else tbv_path_drain_tx env slices n
                (tx_run (e_native_tx_max_inflight env) labels (path, hand)))"

definition tbv_path_flush_tx_queue :: "errno ptr \<Rightarrow> tbv_path \<Rightarrow> tbv_path" where
  "tbv_path_flush_tx_queue status path =
     (tbv_path_cancel_queued_tx_status status path)\<lparr>p_tx_scheduling := False\<rparr>"

text \<open>
  \<open>tb_ring_stop\<close> on the transmit ring: every descriptor the ring owns is retired through its
  callback as cancelled, and a stopped ring refuses frames with \<open>ESHUTDOWN\<close>. When the
  controller is going away the call does nothing.
\<close>

definition stopped_env :: "tx_env \<Rightarrow> tx_env" where
  "stopped_env env = env\<lparr>e_ring_tx := (\<lambda>_. Inl ESHUTDOWN)\<rparr>"

fun stop_retire :: "tx_env \<Rightarrow> (nat ptr \<times> tbv_tx_packet) list \<Rightarrow> tbv_path \<Rightarrow> tbv_path" where
  "stop_retire env [] path = path"
| "stop_retire env (d # ds) path =
     stop_retire env ds (tbv_path_schedule_tx (stopped_env env) (retire_locked d True path))"

definition ring_stop_tx :: "tx_env \<Rightarrow> bool \<Rightarrow> tbv_path \<Rightarrow> tbv_path" where
  "ring_stop_tx env going_away path =
     (if going_away then path else stop_retire env (p_ring path) path)"

text \<open>On the receive ring: \<open>n\<close> frames are handed back, each counted as cancelled.\<close>

definition ring_stop_rx :: "nat \<Rightarrow> tbv_path \<Rightarrow> tbv_path" where
  "ring_stop_rx n path = path\<lparr>p_data_rx_canceled := p_data_rx_canceled path + of_nat n\<rparr>"

definition tbv_path_rings_started :: "tbv_path \<Rightarrow> bool" where
  "tbv_path_rings_started path \<longleftrightarrow>
     p_state path = TBV_PATH_RING_STARTED \<or> p_state path = TBV_PATH_TUNNEL_ENABLED"

definition tbv_path_restart_rings :: "(nat \<Rightarrow> unit res) \<Rightarrow> path_hw \<Rightarrow> unit res \<times> path_hw" where
  "tbv_path_restart_rings post hw =
     (post_rx_frames post [0..<unat (p_rx_frame_count (hw_path hw))],
      on_path (\<lambda>path. path\<lparr>p_rx_raw_pending := False, p_rx_raw_remaining := 0\<rparr>)
        ((hw_emit (ring_events Acquire (hw_tx_ring hw) @ ring_events Acquire (hw_rx_ring hw)) hw)
           \<lparr>hw_rings_stopped := False\<rparr>))"

text \<open>What the kernel does during a stop.\<close>

record stop_env =
  se_tx :: tx_env
  se_reaped :: nat
  se_going_away :: bool
  se_rx_posted :: nat
  se_post_rx :: "nat \<Rightarrow> unit res"

definition stop_event :: "stop_env \<Rightarrow> resource \<Rightarrow> hw_event" where
  "stop_event env = (if se_going_away env then Abandon else Release)"

definition stop_pair :: "stop_env \<Rightarrow> path_hw \<Rightarrow> path_hw" where
  "stop_pair env hw =
     (on_path (ring_stop_rx (se_rx_posted env) \<circ> ring_stop_tx (se_tx env) (se_going_away env))
       (hw_emit (ring_events (stop_event env) (hw_tx_ring hw) @ ring_events (stop_event env) (hw_rx_ring hw)) hw))
       \<lparr>hw_rings_stopped := True\<rparr>"

definition tbv_path_ring_barrier :: "stop_env \<Rightarrow> bool \<Rightarrow> path_hw \<Rightarrow> unit res \<times> path_hw" where
  "tbv_path_ring_barrier env restart hw =
     (if \<not> tbv_path_rings_started (hw_path hw) \<or> hw_tx_ring hw = None \<or> hw_rx_ring hw = None
      then (if p_tx_inflight (hw_path hw) \<noteq> 0 then Inl EIO else Inr (), hw)
      else
        (let hw = (if \<not> hw_rings_stopped hw
                   then stop_pair env (on_path (tbv_path_reap_tx (se_tx env) (se_reaped env)) hw)
                   else hw)
         in if p_tx_inflight (hw_path hw) \<noteq> 0 then (Inl EIO, hw)
            else if \<not> restart then (Inr (), hw)
            else tbv_path_restart_rings (se_post_rx env) hw))"

definition free_ring :: "tb_ring ptr \<Rightarrow> hw_event list" where
  "free_ring ring = (case ring of None \<Rightarrow> [] | Some r \<Rightarrow> [Release (Ring_mem (rg_addr r))])"

definition destroy_rx :: "life_env \<Rightarrow> path_hw \<Rightarrow> path_hw" where
  "destroy_rx env hw =
     (if hw_rx_ring hw = None then hw
      else
        (let hw = tbv_path_free_frames env False (tbv_thr_del (hw_rx_ring hw) hw)
         in on_path (\<lambda>path. path\<lparr>p_local_rx_hop := - 1\<rparr>)
              ((hw_emit (free_ring (hw_rx_ring hw)) hw)\<lparr>hw_rx_ring := None\<rparr>)))"

definition destroy_tx :: "life_env \<Rightarrow> path_hw \<Rightarrow> path_hw" where
  "destroy_tx env hw =
     (if hw_tx_ring hw = None then hw
      else
        (let hw = tbv_path_free_frames env True (tbv_thr_del (hw_tx_ring hw) hw)
         in on_path (\<lambda>path. path\<lparr>p_local_tx_hop := - 1\<rparr>)
              ((hw_emit (free_ring (hw_tx_ring hw)) hw)\<lparr>hw_tx_ring := None\<rparr>)))"

text \<open>The end of the tunnel, and the end of the rings; the receive ring is stopped first here.\<close>

definition destroy_tunnel :: "unit res \<Rightarrow> path_hw \<Rightarrow> path_hw" where
  "destroy_tunnel disable hw =
     (case tbv_path_disable_tunnel disable hw of
        (Inl e, hw) \<Rightarrow> if p_remote_transmit_path (hw_path hw) \<ge> 0 then release_in_hop hw else hw
      | (Inr _, hw) \<Rightarrow> hw)"

definition destroy_halt :: "stop_env \<Rightarrow> path_hw \<Rightarrow> path_hw" where
  "destroy_halt senv hw =
     on_path (\<lambda>path. path\<lparr>p_state := TBV_PATH_RING_ALLOCATED\<rparr>)
       (if hw_rings_stopped hw then hw
        else (on_path (ring_stop_tx (se_tx senv) (se_going_away senv) \<circ> ring_stop_rx (se_rx_posted senv))
               (hw_emit (ring_events (stop_event senv) (hw_rx_ring hw) @ ring_events (stop_event senv) (hw_tx_ring hw)) hw))
               \<lparr>hw_rings_stopped := True\<rparr>)"

definition destroy_stop :: "stop_env \<Rightarrow> unit res \<Rightarrow> path_hw \<Rightarrow> path_hw" where
  "destroy_stop senv disable hw =
     (let tunnel_enabled = (p_state (hw_path hw) = TBV_PATH_TUNNEL_ENABLED);
          rings_started = tbv_path_rings_started (hw_path hw);
          hw = (if tunnel_enabled then destroy_tunnel disable hw else hw);
          hw = (if rings_started then destroy_halt senv hw else hw)
      in if \<not> tunnel_enabled \<and> p_remote_transmit_path (hw_path hw) \<ge> 0 then release_in_hop hw else hw)"

definition tbv_path_destroy :: "life_env \<Rightarrow> stop_env \<Rightarrow> unit res \<Rightarrow> path_hw \<Rightarrow> path_hw" where
  "tbv_path_destroy env senv disable hw =
     (let hw = destroy_stop senv disable hw;
          hw = on_path (tbv_path_flush_tx_queue (Some ECANCELED)) hw;
          hw = destroy_rx env hw;
          hw = (if p_local_transmit_path (hw_path hw) \<ge> 0
                then on_path (\<lambda>path. path\<lparr>p_local_transmit_path := - 1\<rparr>)
                       (hw_emit [Release (Out_hop (p_local_transmit_path (hw_path hw)))] hw)
                else hw);
          hw = destroy_tx env hw;
          hw = tbv_path_free_control_packets (tbv_path_free_data_packets hw);
          hw = (if hw_tx_trace hw then (hw_emit [Release Tx_trace] hw)\<lparr>hw_tx_trace := False\<rparr> else hw);
          hw = tbv_path_destroy_tx_wq hw
      in on_path (\<lambda>path. path\<lparr>p_state := TBV_PATH_STOPPED\<rparr>) hw)"

end
