(* ===== verification/Path_Ledger.thy ===== *)
theory Path_Ledger
  imports Path_Life
begin

text \<open>
  The resources of a path: the log of acquisitions and releases is read as a ledger, and every
  operation keeps it equal to what the fields of the path say it owns.
\<close>

section \<open>The ledger\<close>

text \<open>
  What is held after a log of calls, or nothing when a call releases what is not held or frees
  a ring that still runs. Only when devices may be \<open>gone\<close>, and only mappings and running rings, can be abandoned.
\<close>

definition abandonable :: "resource \<Rightarrow> bool" where
  "abandonable r \<longleftrightarrow> (case r of Running a \<Rightarrow> True | Frame_map tx i \<Rightarrow> True | _ \<Rightarrow> False)"

fun ledger :: "bool \<Rightarrow> resource multiset \<Rightarrow> hw_event list \<Rightarrow> resource multiset option" where
  "ledger gone M [] = Some M"
| "ledger gone M (Acquire r # es) = ledger gone (add_mset r M) es"
| "ledger gone M (Release r # es) =
     (if r \<in># M \<and> (case r of Ring_mem a \<Rightarrow> Running a \<notin># M | _ \<Rightarrow> True)
      then ledger gone (M - {#r#}) es else None)"
| "ledger gone M (Abandon r # es) =
     (if gone \<and> abandonable r \<and> r \<in># M then ledger gone (M - {#r#}) es else None)"
| "ledger gone M (Throttle a v x # es) = ledger gone M es"

lemma ledger_append:
  "ledger gone M (as @ bs) = (case ledger gone M as of None \<Rightarrow> None | Some M \<Rightarrow> ledger gone M bs)"
  by (induction gone M as rule: ledger.induct) (auto split: resource.splits)

definition plain :: "resource \<Rightarrow> bool" where
  "plain r \<longleftrightarrow> (case r of Ring_mem a \<Rightarrow> False | _ \<Rightarrow> True)"

lemma plain_simps [simp]:
  "plain (In_hop i)" "plain (Out_hop i)" "plain (Running a)" "plain (Frames tx)"
  "plain (Frame_buf tx j)" "plain (Frame_map tx j)" "plain Control_packets" "plain Data_packets"
  "plain (Data_buf j)" "plain Tx_trace" "plain Tx_wq" "\<not> plain (Ring_mem a)"
  by (simp_all add: plain_def)

lemma ledger_release:
  "plain r \<Longrightarrow> ledger gone (add_mset r M) (Release r # es) = ledger gone M es"
  by (cases r) simp_all

lemma ledger_free_ring:
  "Running a \<notin># M \<Longrightarrow> ledger gone (add_mset (Ring_mem a) M) (Release (Ring_mem a) # es) = ledger gone M es"
  by simp

lemma ledger_release_list:
  "list_all plain rs \<Longrightarrow> ledger gone (mset rs + M) (map Release rs) = Some M"
proof (induction rs arbitrary: M)
  case (Cons r rs)
  then show ?case using ledger_release [of r gone "mset rs + M" "map Release rs"] by simp
qed simp

lemma ledger_abandon:
  "gone \<Longrightarrow> abandonable r \<Longrightarrow> ledger gone (add_mset r M) (Abandon r # es) = ledger gone M es"
  by simp

lemma ledger_acquire_list: "ledger gone M (map Acquire rs) = Some (mset rs + M)"
  by (induction rs arbitrary: M) simp_all

section \<open>What a path owns\<close>

definition ring_res :: "(nat \<Rightarrow> resource) \<Rightarrow> tb_ring ptr \<Rightarrow> resource multiset" where
  "ring_res c ring = (case ring of None \<Rightarrow> {#} | Some r \<Rightarrow> {#c (rg_addr r)#})"

lemma ring_res_simps [simp]:
  "ring_res c None = {#}" "ring_res c (Some r) = {#c (rg_addr r)#}"
  by (simp_all add: ring_res_def)

definition frame_res :: "bool \<Rightarrow> nat list \<Rightarrow> resource list" where
  "frame_res tx is = concat (map (\<lambda>i. [Frame_map tx i, Frame_buf tx i]) is)"

lemma frame_res_simps [simp]:
  "frame_res tx [] = []"
  "frame_res tx (i # is) = Frame_map tx i # Frame_buf tx i # frame_res tx is"
  "frame_res tx (is @ js) = frame_res tx is @ frame_res tx js"
  by (simp_all add: frame_res_def)

lemma frame_res_plain [simp]: "list_all plain (frame_res tx is)"
  by (induction "is") simp_all

definition pool_res :: "bool \<Rightarrow> resource \<Rightarrow> resource list \<Rightarrow> resource multiset" where
  "pool_res present r rs = (if present then add_mset r (mset rs) else {#})"

lemma pool_res_simps [simp]:
  "pool_res True r rs = add_mset r (mset rs)" "pool_res False r rs = {#}"
  by (simp_all add: pool_res_def)

definition running :: "path_hw \<Rightarrow> bool" where
  "running hw \<longleftrightarrow> tbv_path_rings_started (hw_path hw) \<and> \<not> hw_rings_stopped hw"

definition owned :: "path_hw \<Rightarrow> resource multiset" where
  "owned hw =
     pool_res (p_remote_transmit_path (hw_path hw) \<ge> 0) (In_hop (p_remote_transmit_path (hw_path hw))) []
     + pool_res (p_local_transmit_path (hw_path hw) \<ge> 0) (Out_hop (p_local_transmit_path (hw_path hw))) []
     + ring_res Ring_mem (hw_tx_ring hw) + ring_res Ring_mem (hw_rx_ring hw)
     + (if running hw then ring_res Running (hw_tx_ring hw) + ring_res Running (hw_rx_ring hw) else {#})
     + pool_res (hw_tx_frames hw) (Frames True)
         (frame_res True [0..<unat (p_tx_frame_count (hw_path hw))])
     + pool_res (hw_rx_frames hw) (Frames False)
         (frame_res False [0..<unat (p_rx_frame_count (hw_path hw))])
     + pool_res (hw_tx_control_packets hw) Control_packets []
     + pool_res (hw_tx_data_packets hw) Data_packets
         (map Data_buf [0..<unat (hw_tx_data_packet_count hw)])
     + pool_res (hw_tx_trace hw) Tx_trace [] + pool_res (hw_tx_wq hw) Tx_wq []"

definition accounted :: "bool \<Rightarrow> path_hw \<Rightarrow> bool" where
  "accounted gone hw \<longleftrightarrow> ledger gone {#} (hw_log hw) = Some (owned hw)"

lemma accounted_emit:
  assumes "accounted gone hw" and "hw_log hw' = hw_log hw @ es"
    and "ledger gone (owned hw) es = Some (owned hw')"
  shows "accounted gone hw'"
  using assms by (simp add: accounted_def ledger_append)

lemma frame_res_no_ring [simp]:
  "Running a \<notin> set (frame_res tx is)" "Ring_mem a \<notin> set (frame_res tx is)"
  by (auto simp: frame_res_def)

lemma not_running_owned:
  "\<not> running hw \<Longrightarrow> Running a \<notin># owned hw"
  by (auto simp: owned_def pool_res_def ring_res_def split: option.splits)

lemma hw_emit_log [simp]: "hw_log (hw_emit es hw) = hw_log hw @ es"
  by (simp add: hw_emit_def)

lemma hw_emit_fields [simp]:
  "hw_path (hw_emit es hw) = hw_path hw" "hw_tx_ring (hw_emit es hw) = hw_tx_ring hw"
  "hw_rx_ring (hw_emit es hw) = hw_rx_ring hw" "hw_tx_frames (hw_emit es hw) = hw_tx_frames hw"
  "hw_rx_frames (hw_emit es hw) = hw_rx_frames hw"
  "hw_tx_control_packets (hw_emit es hw) = hw_tx_control_packets hw"
  "hw_tx_data_packets (hw_emit es hw) = hw_tx_data_packets hw"
  "hw_tx_data_packet_count (hw_emit es hw) = hw_tx_data_packet_count hw"
  "hw_tx_trace (hw_emit es hw) = hw_tx_trace hw" "hw_tx_wq (hw_emit es hw) = hw_tx_wq hw"
  "hw_rings_stopped (hw_emit es hw) = hw_rings_stopped hw"
  "hw_thr_rings (hw_emit es hw) = hw_thr_rings hw"
  by (simp_all add: hw_emit_def)

lemma on_path_fields [simp]:
  "hw_path (on_path f hw) = f (hw_path hw)" "hw_tx_ring (on_path f hw) = hw_tx_ring hw"
  "hw_rx_ring (on_path f hw) = hw_rx_ring hw" "hw_tx_frames (on_path f hw) = hw_tx_frames hw"
  "hw_rx_frames (on_path f hw) = hw_rx_frames hw"
  "hw_tx_control_packets (on_path f hw) = hw_tx_control_packets hw"
  "hw_tx_data_packets (on_path f hw) = hw_tx_data_packets hw"
  "hw_tx_data_packet_count (on_path f hw) = hw_tx_data_packet_count hw"
  "hw_tx_trace (on_path f hw) = hw_tx_trace hw" "hw_tx_wq (on_path f hw) = hw_tx_wq hw"
  "hw_rings_stopped (on_path f hw) = hw_rings_stopped hw"
  "hw_thr_rings (on_path f hw) = hw_thr_rings hw"
  "hw_log (on_path f hw) = hw_log hw"
  by (simp_all add: on_path_def)

lemma hw_norm [simp]:
  "hw_emit bs (hw_emit as hw) = hw_emit (as @ bs) hw"
  "hw_emit es (on_path f hw) = on_path f (hw_emit es hw)"
  "on_path f (on_path g hw) = on_path (\<lambda>path. f (g path)) hw"
  "on_path f (hw\<lparr>hw_tx_frames := b\<rparr>) = (on_path f hw)\<lparr>hw_tx_frames := b\<rparr>"
  "on_path f (hw\<lparr>hw_rx_frames := b\<rparr>) = (on_path f hw)\<lparr>hw_rx_frames := b\<rparr>"
  "hw_emit es (hw\<lparr>hw_tx_frames := b\<rparr>) = (hw_emit es hw)\<lparr>hw_tx_frames := b\<rparr>"
  "hw_emit es (hw\<lparr>hw_rx_frames := b\<rparr>) = (hw_emit es hw)\<lparr>hw_rx_frames := b\<rparr>"
  by (simp_all add: hw_emit_def on_path_def)

lemma hw_unchanged:
  "on_path (\<lambda>path. path\<lparr>p_tx_free := p_tx_free (hw_path hw)\<rparr>) (hw_emit [] hw) = hw"
  "on_path (\<lambda>path. path\<lparr>p_tx_data_free := p_tx_data_free (hw_path hw)\<rparr>) (hw_emit [] hw) = hw"
  by (simp_all add: hw_emit_def on_path_def)

lemma running_fields [simp]:
  "running (hw_emit es hw) = running hw"
  by (simp add: running_def)

section \<open>The pools\<close>

text \<open>The structure of a path outside the operations.\<close>

definition idle_rings :: "path_hw \<Rightarrow> bool" where
  "idle_rings hw \<longleftrightarrow>
     hw_tx_ring hw = None \<and> hw_rx_ring hw = None \<and> \<not> hw_tx_frames hw \<and> \<not> hw_rx_frames hw
     \<and> \<not> hw_tx_control_packets hw \<and> \<not> hw_tx_data_packets hw \<and> hw_tx_data_packet_count hw = 0
     \<and> p_remote_transmit_path (hw_path hw) < 0 \<and> p_local_transmit_path (hw_path hw) < 0"

definition full_rings :: "path_hw \<Rightarrow> bool" where
  "full_rings hw \<longleftrightarrow>
     hw_tx_ring hw \<noteq> None \<and> hw_rx_ring hw \<noteq> None \<and> hw_tx_frames hw \<and> hw_rx_frames hw
     \<and> hw_tx_control_packets hw \<and> p_local_transmit_path (hw_path hw) \<ge> 0
     \<and> (\<not> hw_tx_data_packets hw \<longrightarrow> hw_tx_data_packet_count hw = 0)"

definition life_wf :: "path_hw \<Rightarrow> bool" where
  "life_wf hw \<longleftrightarrow>
     (case p_state (hw_path hw) of
        TBV_PATH_NEW \<Rightarrow> idle_rings hw \<and> \<not> hw_rings_stopped hw
      | TBV_PATH_STOPPED \<Rightarrow> idle_rings hw
      | TBV_PATH_RING_ALLOCATED \<Rightarrow> full_rings hw \<and> \<not> hw_rings_stopped hw
      | TBV_PATH_RING_STARTED \<Rightarrow> full_rings hw
      | TBV_PATH_TUNNEL_ENABLED \<Rightarrow> full_rings hw \<and> p_remote_transmit_path (hw_path hw) \<ge> 0)"

text \<open>
  Answers of the kernel that respect its interface: hop numbers are not negative. The DMA devices are ready
  unless devices may be gone.
\<close>

definition env_ok :: "bool \<Rightarrow> life_env \<Rightarrow> bool" where
  "env_ok gone env \<longleftrightarrow> (\<forall>n hop. le_alloc_out_hopid env n = Inr hop \<longrightarrow> hop \<ge> 0)
     \<and> (gone \<or> le_dma_ready env True \<and> le_dma_ready env False)"

lemma env_ok_dma: "env_ok gone env \<Longrightarrow> gone \<or> le_dma_ready env b"
  by (cases b) (auto simp: env_ok_def)

lemma map_frames_effect:
  assumes "map_frames env tx mapped is hw = (r, hw')"
  shows "\<exists>es free. hw' = on_path (\<lambda>path. path\<lparr>p_tx_free := free\<rparr>) (hw_emit es hw)
    \<and> (\<forall>M. ledger gone (mset (frame_res tx mapped) + M) es
          = Some (if is_ok r then mset (frame_res tx (mapped @ is)) + M else M))"
  using assms
proof (induction "is" arbitrary: mapped hw)
  case Nil
  then show ?case
    by (intro exI [of _ "[]"] exI [of _ "p_tx_free (hw_path hw)"]) (auto simp: on_path_def hw_emit_def)
next
  case (Cons i "is")
  have rel: "ledger gone (mset (frame_res tx mapped) + M) (concat (map (unmap_events tx) mapped)) = Some M" for M
  proof -
    have "concat (map (unmap_events tx) mapped) = map Release (frame_res tx mapped)"
      by (induction mapped) (simp_all add: unmap_events_def)
    then show ?thesis by (simp add: ledger_release_list)
  qed
  have unchanged: "on_path (\<lambda>path. path\<lparr>p_tx_free := p_tx_free (hw_path hw)\<rparr>) (hw_emit es hw) = hw_emit es hw" for es
    by (simp add: on_path_def hw_emit_def)
  consider (no_buf) "\<not> le_frame_buf env tx i" | (no_map) "le_frame_buf env tx i" "\<not> le_frame_map env tx i"
    | (go) "le_frame_buf env tx i" "le_frame_map env tx i" by blast
  then show ?case
  proof cases
    case no_buf
    then show ?thesis
      using Cons.prems rel unchanged
      by (intro exI [of _ "concat (map (unmap_events tx) mapped)"] exI [of _ "p_tx_free (hw_path hw)"]) auto
  next
    case no_map
    then show ?thesis
      using Cons.prems rel unchanged
      by (intro exI [of _ "[Acquire (Frame_buf tx i), Release (Frame_buf tx i)]
             @ concat (map (unmap_events tx) mapped)"] exI [of _ "p_tx_free (hw_path hw)"]) auto
  next
    case go
    let ?hw = "hw_emit [Acquire (Frame_buf tx i), Acquire (Frame_map tx i)] hw"
    let ?f = "if tx then p_tx_free (hw_path hw) @ [i] else p_tx_free (hw_path hw)"
    let ?hw1 = "on_path (\<lambda>path. path\<lparr>p_tx_free := ?f\<rparr>) ?hw"
    have "map_frames env tx (i # mapped) is ?hw1 = (r, hw')"
      using Cons.prems go unchanged by (cases tx) (simp_all add: Let_def on_path_def hw_emit_def)
    from Cons.IH [OF this] obtain es free where
      e: "hw' = on_path (\<lambda>path. path\<lparr>p_tx_free := free\<rparr>) (hw_emit es ?hw1)"
      and l: "\<And>M. ledger gone (mset (frame_res tx (i # mapped)) + M) es
          = Some (if is_ok r then mset (frame_res tx ((i # mapped) @ is)) + M else M)"
      by blast
    have "hw' = on_path (\<lambda>path. path\<lparr>p_tx_free := free\<rparr>)
        (hw_emit ([Acquire (Frame_buf tx i), Acquire (Frame_map tx i)] @ es) hw)"
      using e by (simp add: on_path_def hw_emit_def)
    moreover have "ledger gone (mset (frame_res tx mapped) + M)
        ([Acquire (Frame_buf tx i), Acquire (Frame_map tx i)] @ es)
        = Some (if is_ok r then mset (frame_res tx (mapped @ i # is)) + M else M)" for M
      using l [of M] by (simp add: add_mset_commute)
    ultimately show ?thesis by blast
  qed
qed

lemma accounted_acquire:
  assumes "accounted gone hw" and "owned hw' = add_mset r (owned hw)"
    and "hw_log hw' = hw_log hw @ [Acquire r]"
  shows "accounted gone hw'"
  using assms by (intro accounted_emit [OF assms(1)]) auto

lemma accounted_release:
  assumes "accounted gone hw" and "owned hw = add_mset r (owned hw')" and "plain r"
    and "hw_log hw' = hw_log hw @ [Release r]"
  shows "accounted gone hw'"
  using assms ledger_release [of r gone "owned hw'" "[]"] by (intro accounted_emit [OF assms(1)]) auto

lemma accounted_free_ring:
  assumes "accounted gone hw" and "owned hw = add_mset (Ring_mem a) (owned hw')" and "\<not> running hw'"
    and "hw_log hw' = hw_log hw @ [Release (Ring_mem a)]"
  shows "accounted gone hw'"
  using assms not_running_owned [of hw' a]
  by (intro accounted_emit [OF assms(1)]) (auto simp: ledger_free_ring)

lemma accounted_same:
  assumes "accounted gone hw" and "owned hw' = owned hw" and "hw_log hw' = hw_log hw"
  shows "accounted gone hw'"
  using assms by (simp add: accounted_def)

lemmas acct_simps = owned_def running_def tbv_path_rings_started_def

lemma alloc_frames_effect:
  assumes "tbv_path_alloc_frames env tx hw = (r, hw')"
  defines "cnt \<equiv> if tx then pc_tx_ring_size (p_cfg (hw_path hw)) else pc_rx_ring_size (p_cfg (hw_path hw))"
  shows "\<exists>es free. (\<forall>M. ledger gone M es = Some (if is_ok r
            then add_mset (Frames tx) (mset (frame_res tx [0..<unat cnt]) + M) else M))
    \<and> hw' = (if \<not> is_ok r then on_path (\<lambda>path. path\<lparr>p_tx_free := free\<rparr>) (hw_emit es hw)
             else if tx then (on_path (\<lambda>path. path\<lparr>p_tx_free := free, p_tx_frame_count := cnt\<rparr>)
                                (hw_emit es hw))\<lparr>hw_tx_frames := True\<rparr>
             else (on_path (\<lambda>path. path\<lparr>p_tx_free := free, p_rx_frame_count := cnt\<rparr>)
                                (hw_emit es hw))\<lparr>hw_rx_frames := True\<rparr>)"
proof (cases "le_dma_ready env tx \<and> le_frames env tx")
  case False
  then have "\<not> is_ok r" "hw' = hw"
    using assms(1) by (auto simp: tbv_path_alloc_frames_def Let_def split: if_splits)
  then show ?thesis
    by (intro exI [of _ "[]"] exI [of _ "p_tx_free (hw_path hw)"]) (simp add: hw_unchanged)
next
  case True
  obtain r1 hw1 where m: "map_frames env tx [] [0..<unat cnt] (hw_emit [Acquire (Frames tx)] hw) = (r1, hw1)"
    by fastforce
  from map_frames_effect [where gone = gone, OF m] obtain es free where
    e: "hw1 = on_path (\<lambda>path. path\<lparr>p_tx_free := free\<rparr>) (hw_emit es (hw_emit [Acquire (Frames tx)] hw))"
    and l: "\<And>M. ledger gone M es = Some (if is_ok r1 then mset (frame_res tx [0..<unat cnt]) + M else M)"
    by auto
  show ?thesis
  proof (cases r1)
    case (Inl x)
    have "r = Inl x" "hw' = hw_emit [Release (Frames tx)] hw1"
      using assms(1) True m Inl by (simp_all add: tbv_path_alloc_frames_def Let_def flip: cnt_def)
    then show ?thesis
      using e l Inl
      by (intro exI [of _ "Acquire (Frames tx) # es @ [Release (Frames tx)]"] exI [of _ free])
        (simp add: ledger_append)
  next
    case (Inr u)
    have "r = Inr ()" "hw' = (if tx then on_path (\<lambda>path. path\<lparr>p_tx_frame_count := cnt\<rparr>) (hw1\<lparr>hw_tx_frames := True\<rparr>)
        else on_path (\<lambda>path. path\<lparr>p_rx_frame_count := cnt\<rparr>) (hw1\<lparr>hw_rx_frames := True\<rparr>))"
      using assms(1) True m Inr by (simp_all add: tbv_path_alloc_frames_def Let_def flip: cnt_def)
    then show ?thesis
      using e l Inr
      by (intro exI [of _ "Acquire (Frames tx) # es"] exI [of _ free]) simp
  qed
qed

definition free_events :: "bool \<Rightarrow> bool \<Rightarrow> nat list \<Rightarrow> hw_event list" where
  "free_events ready tx is =
     concat (map (\<lambda>i. [(if ready then Release else Abandon) (Frame_map tx i), Release (Frame_buf tx i)]) is)"

lemma ledger_free_events:
  assumes "gone \<or> ready"
  shows "ledger gone (mset (frame_res tx is) + M) (free_events ready tx is) = Some M"
proof (induction "is" arbitrary: M)
  case (Cons i "is")
  have "abandonable (Frame_map tx i)" by (simp add: abandonable_def)
  then show ?case
    using assms Cons by (cases ready) (simp_all add: free_events_def add_mset_commute)
qed (simp add: free_events_def)

lemma free_frames_effect:
  assumes "if tx then hw_tx_frames hw else hw_rx_frames hw"
    and "(if tx then hw_tx_ring hw else hw_rx_ring hw) \<noteq> None"
  defines "is \<equiv> [0..<unat (frame_count tx hw)]"
  shows "tbv_path_free_frames env tx hw =
    (let hw = hw_emit (free_events (le_dma_ready env tx) tx is @ [Release (Frames tx)]) hw
     in if tx then on_path (\<lambda>path. path\<lparr>p_tx_frame_count := 0, p_tx_free := []\<rparr>) (hw\<lparr>hw_tx_frames := False\<rparr>)
        else on_path (\<lambda>path. path\<lparr>p_rx_frame_count := 0\<rparr>) (hw\<lparr>hw_rx_frames := False\<rparr>))"
  using assms(1,2) unfolding tbv_path_free_frames_def is_def
  by (cases tx) (auto simp: Let_def frame_count_def free_events_def)

lemma ledger_release_pool:
  assumes "list_all plain rs" and "plain r"
  shows "ledger gone (add_mset r (mset rs + M)) (map Release rs @ [Release r]) = Some M"
    and "ledger gone (add_mset r (mset rs + M)) (map Release rs @ Release r # es) = ledger gone M es"
  using ledger_release_list [OF assms(1), of gone "add_mset r M"] ledger_release [OF assms(2), of gone M]
  by (simp_all add: ledger_append)

lemma free_frames_accounted:
  assumes "accounted gone hw" and "gone \<or> le_dma_ready env tx"
    and "hw_tx_frames hw \<Longrightarrow> hw_tx_ring hw \<noteq> None" and "hw_rx_frames hw \<Longrightarrow> hw_rx_ring hw \<noteq> None"
  shows "accounted gone (tbv_path_free_frames env tx hw)"
proof (cases "if tx then hw_tx_frames hw else hw_rx_frames hw")
  case False
  then have "tbv_path_free_frames env tx hw = hw" by (auto simp: tbv_path_free_frames_def)
  then show ?thesis using assms(1) by simp
next
  case True
  let ?rs = "frame_res tx [0..<unat (frame_count tx hw)]"
  have ring: "(if tx then hw_tx_ring hw else hw_rx_ring hw) \<noteq> None"
    using True assms(3,4) by (cases tx) auto
  note eff = free_frames_effect [OF True ring, of env]
  let ?es = "free_events (le_dma_ready env tx) tx [0..<unat (frame_count tx hw)] @ [Release (Frames tx)]"
  show ?thesis
  proof (rule accounted_emit [OF assms(1), where es = ?es])
    show "hw_log (tbv_path_free_frames env tx hw) = hw_log hw @ ?es"
      by (simp add: eff Let_def)
    have "owned hw = mset ?rs + add_mset (Frames tx) (owned (tbv_path_free_frames env tx hw))"
      using True unfolding eff by (cases tx) (simp_all add: Let_def acct_simps frame_count_def)
    then show "ledger gone (owned hw) ?es = Some (owned (tbv_path_free_frames env tx hw))"
      using ledger_free_events [OF assms(2), of tx _ "add_mset (Frames tx) _"] by (simp add: ledger_append)
  qed
qed

lemma alloc_data_bufs_effect:
  assumes "alloc_data_bufs env base got is hw = (r, hw')"
  shows "\<exists>es free. hw' = on_path (\<lambda>path. path\<lparr>p_tx_data_free := free\<rparr>) (hw_emit es hw)
    \<and> (\<forall>M. ledger gone (add_mset Data_packets (mset (map Data_buf got) + M)) es
          = Some (if is_ok r then add_mset Data_packets (mset (map Data_buf (got @ is)) + M) else M))"
  using assms
proof (induction "is" arbitrary: got hw)
  case Nil
  then show ?case
    by (intro exI [of _ "[]"] exI [of _ "p_tx_data_free (hw_path hw)"]) (auto simp: on_path_def hw_emit_def)
next
  case (Cons i "is")
  show ?case
  proof (cases "le_data_buf env i")
    case False
    have "ledger gone (add_mset Data_packets (mset (map Data_buf got) + M))
        (map (\<lambda>j. Release (Data_buf j)) got @ [Release Data_packets]) = Some M" for M
      using ledger_release_pool(1) [of "map Data_buf got" Data_packets gone M]
      by (simp add: comp_def list_all_iff)
    then show ?thesis
      using Cons.prems False
      by (intro exI [of _ "map (\<lambda>j. Release (Data_buf j)) got @ [Release Data_packets]"] exI [of _ "[]"]) auto
  next
    case True
    let ?f = "p_tx_data_free (hw_path hw) @ [pool_packet False base i]"
    let ?hw1 = "on_path (\<lambda>path. path\<lparr>p_tx_data_free := ?f\<rparr>) (hw_emit [Acquire (Data_buf i)] hw)"
    have "alloc_data_bufs env base (i # got) is ?hw1 = (r, hw')"
      using Cons.prems True by (simp add: on_path_def hw_emit_def)
    from Cons.IH [OF this] obtain es free where
      e: "hw' = on_path (\<lambda>path. path\<lparr>p_tx_data_free := free\<rparr>) (hw_emit es ?hw1)"
      and l: "\<And>M. ledger gone (add_mset Data_packets (mset (map Data_buf (i # got)) + M)) es
          = Some (if is_ok r then add_mset Data_packets (mset (map Data_buf ((i # got) @ is)) + M) else M)"
      by blast
    have "hw' = on_path (\<lambda>path. path\<lparr>p_tx_data_free := free\<rparr>) (hw_emit (Acquire (Data_buf i) # es) hw)"
      using e by (simp add: on_path_def hw_emit_def)
    moreover have "ledger gone (add_mset Data_packets (mset (map Data_buf got) + M)) (Acquire (Data_buf i) # es)
        = Some (if is_ok r then add_mset Data_packets (mset (map Data_buf (got @ i # is)) + M) else M)" for M
      using l [of M] by (simp add: add_mset_commute)
    ultimately show ?thesis by blast
  qed
qed

section \<open>Allocation\<close>

text \<open>The state in which rings may be allocated.\<close>

definition dormant :: "tbv_path \<Rightarrow> bool" where
  "dormant path \<longleftrightarrow> \<not> tbv_path_rings_started path \<and> p_state path \<noteq> TBV_PATH_RING_ALLOCATED"

text \<open>
  A path in the middle of an allocation: both rings exist and nothing runs. The predicate says
  which of the pools have been filled.
\<close>

definition building :: "bool \<Rightarrow> tb_ring \<Rightarrow> tb_ring \<Rightarrow> bool \<Rightarrow> bool \<Rightarrow> bool \<Rightarrow> path_hw \<Rightarrow> bool" where
  "building gone tx rx txf rxf ctl hw \<longleftrightarrow>
     accounted gone hw \<and> dormant (hw_path hw)
     \<and> hw_tx_ring hw = Some tx \<and> hw_rx_ring hw = Some rx
     \<and> hw_tx_frames hw = txf \<and> hw_rx_frames hw = rxf \<and> hw_tx_control_packets hw = ctl
     \<and> \<not> hw_tx_data_packets hw \<and> hw_tx_data_packet_count hw = 0
     \<and> p_local_transmit_path (hw_path hw) \<ge> 0"

definition stopped_clean :: "bool \<Rightarrow> path_hw \<Rightarrow> bool" where
  "stopped_clean gone hw \<longleftrightarrow> accounted gone hw \<and> idle_rings hw \<and> dormant (hw_path hw)"

lemma err_in_hop_accounted: "accounted gone hw \<Longrightarrow> accounted gone (err_in_hop hw)"
  by (auto simp: err_in_hop_def acct_simps dormant_def intro: accounted_release)

lemma err_tx_ring_clean:
  assumes "accounted gone hw" and "dormant (hw_path hw)" and "hw_tx_ring hw = Some tx"
    and "hw_rx_ring hw = None" and "\<not> hw_tx_frames hw" and "\<not> hw_rx_frames hw"
    and "\<not> hw_tx_control_packets hw" and "\<not> hw_tx_data_packets hw" and "hw_tx_data_packet_count hw = 0"
    and "p_local_transmit_path (hw_path hw) < 0"
  shows "stopped_clean gone (err_tx_ring tx hw)"
proof -
  let ?hw = "on_path (\<lambda>path. path\<lparr>p_local_tx_hop := - 1\<rparr>)
       ((hw_emit [Release (Ring_mem (rg_addr tx))] hw)\<lparr>hw_tx_ring := None\<rparr>)"
  have "accounted gone ?hw"
    using assms(2-) by (intro accounted_free_ring [OF assms(1)]) (simp_all add: acct_simps dormant_def)
  then have "accounted gone (err_in_hop ?hw)" by (rule err_in_hop_accounted)
  then show ?thesis
    using assms by (auto simp: stopped_clean_def err_tx_ring_def idle_rings_def err_in_hop_def
        dormant_def tbv_path_rings_started_def)
qed

lemma err_out_hop_clean:
  assumes "accounted gone hw" and "dormant (hw_path hw)" and "hw_tx_ring hw = Some tx"
    and "hw_rx_ring hw = None" and "\<not> hw_tx_frames hw" and "\<not> hw_rx_frames hw"
    and "\<not> hw_tx_control_packets hw" and "\<not> hw_tx_data_packets hw" and "hw_tx_data_packet_count hw = 0"
    and "p_local_transmit_path (hw_path hw) \<ge> 0"
  shows "stopped_clean gone (err_out_hop tx hw)"
  unfolding err_out_hop_def
proof (rule err_tx_ring_clean)
  show "accounted gone (on_path (\<lambda>path. path\<lparr>p_local_transmit_path := - 1\<rparr>)
       (hw_emit [Release (Out_hop (p_local_transmit_path (hw_path hw)))] hw))"
    using assms(2-) by (intro accounted_release [OF assms(1)]) (simp_all add: acct_simps dormant_def)
qed (use assms in \<open>simp_all add: dormant_def tbv_path_rings_started_def\<close>)

lemma err_rx_ring_clean:
  assumes "building gone tx rx False False False hw"
  shows "stopped_clean gone (err_rx_ring tx rx hw)"
  unfolding err_rx_ring_def
proof (rule err_out_hop_clean)
  have a: "accounted gone hw" using assms by (simp add: building_def)
  show "accounted gone (on_path (\<lambda>path. path\<lparr>p_local_rx_hop := - 1\<rparr>)
       ((hw_emit [Release (Ring_mem (rg_addr rx))] hw)\<lparr>hw_rx_ring := None\<rparr>))"
    using assms by (intro accounted_free_ring [OF a]) (simp_all add: building_def acct_simps dormant_def)
qed (use assms in \<open>simp_all add: building_def dormant_def tbv_path_rings_started_def\<close>)

lemma free_frames_building:
  assumes "building gone tx rx txf rxf ctl hw" and "env_ok gone env"
  shows "txf \<Longrightarrow> building gone tx rx False rxf ctl (tbv_path_free_frames env True hw)"
    and "rxf \<Longrightarrow> building gone tx rx txf False ctl (tbv_path_free_frames env False hw)"
proof -
  have a: "accounted gone (tbv_path_free_frames env b hw)" for b
    using assms by (intro free_frames_accounted) (auto simp: building_def env_ok_dma)
  show "txf \<Longrightarrow> building gone tx rx False rxf ctl (tbv_path_free_frames env True hw)"
    using assms a [of True] free_frames_effect [of True hw env]
    by (auto simp: building_def env_ok_def Let_def dormant_def tbv_path_rings_started_def)
  show "rxf \<Longrightarrow> building gone tx rx txf False ctl (tbv_path_free_frames env False hw)"
    using assms a [of False] free_frames_effect [of False hw env]
    by (auto simp: building_def env_ok_def Let_def dormant_def tbv_path_rings_started_def)
qed

lemma free_control_building:
  assumes "building gone tx rx txf rxf True hw"
  shows "building gone tx rx txf rxf False (tbv_path_free_control_packets hw)"
proof -
  have a: "accounted gone hw" using assms by (simp add: building_def)
  have "accounted gone (tbv_path_free_control_packets hw)"
    using assms
    by (intro accounted_release [OF a, of Control_packets])
      (simp_all add: building_def tbv_path_free_control_packets_def acct_simps dormant_def)
  then show ?thesis
    using assms by (simp add: building_def tbv_path_free_control_packets_def dormant_def tbv_path_rings_started_def)
qed

lemma throttling_building:
  assumes "building gone tx rx False False False hw"
    and "tbv_path_configure_ring_throttling env tx rx hw = (r, hw')"
  shows "building gone tx rx False False False hw'"
proof -
  define same where "same h \<longleftrightarrow> building gone tx rx False False False h" for h
  have d: "same (snd (tbv_path_ring_throttling_direct ring i h))" if "same h" for ring i h
  proof -
    have "accounted gone h" using that by (simp add: same_def building_def)
    then have "accounted gone (hw_emit [Throttle a v x] h)" for a v x
      by (rule accounted_emit [where es = "[Throttle a v x]"]) (simp_all add: acct_simps dormant_def)
    then show ?thesis
      using that by (simp add: same_def building_def tbv_path_ring_throttling_direct_def)
  qed
  have t: "same (tbv_thr_add (Some ring) h)" if "same h" for ring h
  proof -
    have "accounted gone h" using that by (simp add: same_def building_def)
    then have "accounted gone (h\<lparr>hw_thr_rings := xs\<rparr>)" for xs
      by (rule accounted_same) (simp_all add: acct_simps dormant_def)
    then show ?thesis using that by (simp add: same_def building_def tbv_thr_add_def)
  qed
  have d2: "same h'" if "tbv_path_ring_throttling_direct ring i h = (r', h')" "same h" for ring i h r' h'
    using d [OF that(2), of ring i] that(1) by simp
  have d3: "same h''" if "tbv_path_ring_throttling_direct a i h = (r', h')"
      "tbv_path_ring_throttling_direct b i h' = (r'', h'')" "same h" for a b i h r' h' r'' h''
    using d2 [OF that(2) d2 [OF that(1,3)]] .
  have "same hw" using assms(1) by (simp add: same_def)
  then have "same hw'"
    using assms(2)
    by (auto simp: tbv_path_configure_ring_throttling_def Let_def t
        split: option.splits if_splits sum.splits prod.splits intro: d2 d3 t)
  then show ?thesis by (simp add: same_def)
qed

lemma alloc_frames_building:
  assumes "tbv_path_alloc_frames env b hw = (r, hw')"
    and "building gone tx rx txf rxf ctl hw" and "if b then \<not> txf else \<not> rxf"
  shows "building gone tx rx (txf \<or> b \<and> is_ok r) (rxf \<or> \<not> b \<and> is_ok r) ctl hw'"
proof -
  define cnt where "cnt = (if b then pc_tx_ring_size (p_cfg (hw_path hw)) else pc_rx_ring_size (p_cfg (hw_path hw)))"
  obtain es free where
    l: "\<And>M. ledger gone M es = Some (if is_ok r then add_mset (Frames b) (mset (frame_res b [0..<unat cnt]) + M) else M)"
    and e: "hw' = (if \<not> is_ok r then on_path (\<lambda>path. path\<lparr>p_tx_free := free\<rparr>) (hw_emit es hw)
             else if b then (on_path (\<lambda>path. path\<lparr>p_tx_free := free, p_tx_frame_count := cnt\<rparr>)
                                (hw_emit es hw))\<lparr>hw_tx_frames := True\<rparr>
             else (on_path (\<lambda>path. path\<lparr>p_tx_free := free, p_rx_frame_count := cnt\<rparr>)
                                (hw_emit es hw))\<lparr>hw_rx_frames := True\<rparr>)"
    using alloc_frames_effect [where gone = gone, OF assms(1)] unfolding cnt_def by blast
  have a: "accounted gone hw" using assms(2) by (simp add: building_def)
  have "accounted gone hw'"
  proof (rule accounted_emit [OF a])
    show "hw_log hw' = hw_log hw @ es" by (simp add: e)
    show "ledger gone (owned hw) es = Some (owned hw')"
      using assms(2,3) by (simp add: l e building_def acct_simps dormant_def split: if_splits)
  qed
  then show ?thesis
    using assms(2,3) by (auto simp: e building_def dormant_def tbv_path_rings_started_def split: if_splits)
qed

lemma alloc_control_building:
  assumes "tbv_path_alloc_control_packets env hw = (r, hw')" and "building gone tx rx txf rxf False hw"
  shows "building gone tx rx txf rxf (is_ok r) hw'"
proof (cases "le_control_packets env")
  case None
  then show ?thesis
    using assms by (auto simp: tbv_path_alloc_control_packets_def Let_def)
next
  case (Some base)
  have a: "accounted gone hw" using assms by (simp add: building_def)
  have "accounted gone hw'"
    using assms Some
    by (intro accounted_acquire [OF a, of _ Control_packets])
      (auto simp: building_def tbv_path_alloc_control_packets_def Let_def acct_simps dormant_def)
  then show ?thesis
    using assms Some
    by (auto simp: building_def tbv_path_alloc_control_packets_def Let_def dormant_def tbv_path_rings_started_def)
qed

text \<open>The last step: the pool of data packets, after which the path is complete.\<close>

definition complete_rings :: "bool \<Rightarrow> path_hw \<Rightarrow> bool" where
  "complete_rings gone hw \<longleftrightarrow> accounted gone hw \<and> full_rings hw \<and> \<not> tbv_path_rings_started (hw_path hw)"

lemma alloc_data_building:
  assumes "tbv_path_alloc_data_packets env hw = (r, hw')" and "building gone tx rx True True True hw"
  shows "if is_ok r then complete_rings gone hw' else building gone tx rx True True True hw'"
proof (cases "p_backend (hw_path hw) \<noteq> Some TBV_BACKEND_APPLE \<or> le_data_packets env = None")
  case True
  then show ?thesis
    using assms
    by (auto simp: tbv_path_alloc_data_packets_def Let_def building_def complete_rings_def full_rings_def dormant_def
        split: if_splits option.splits)
next
  case False
  then obtain base where b: "le_data_packets env = Some base" and ap: "p_backend (hw_path hw) = Some TBV_BACKEND_APPLE"
    by auto
  let ?cnt = "tbv_path_data_packet_count (hw_path hw)"
  obtain r1 hw1 where m: "alloc_data_bufs env base [] [0..<unat ?cnt] (hw_emit [Acquire Data_packets] hw) = (r1, hw1)"
    by fastforce
  from alloc_data_bufs_effect [where gone = gone, OF m] obtain es free where
    e: "hw1 = on_path (\<lambda>path. path\<lparr>p_tx_data_free := free\<rparr>) (hw_emit ([Acquire Data_packets] @ es) hw)"
    and l: "\<And>M. ledger gone (add_mset Data_packets M) es
        = Some (if is_ok r1 then add_mset Data_packets (mset (map Data_buf [0..<unat ?cnt]) + M) else M)"
    by auto
  have a: "accounted gone hw" using assms by (simp add: building_def)
  have h: "r = (if is_ok r1 then Inr () else r1)"
      "hw' = (if is_ok r1 then hw1\<lparr>hw_tx_data_packets := True, hw_tx_data_packet_count := ?cnt\<rparr> else hw1)"
    using assms(1) b ap m by (auto simp: tbv_path_alloc_data_packets_def Let_def split: sum.splits)
  have "accounted gone hw'"
  proof (rule accounted_emit [OF a, where es = "Acquire Data_packets # es"])
    show "hw_log hw' = hw_log hw @ Acquire Data_packets # es" by (simp add: h e)
    show "ledger gone (owned hw) (Acquire Data_packets # es) = Some (owned hw')"
      using assms(2) by (simp add: l h e building_def acct_simps dormant_def)
  qed
  then show ?thesis
    using assms(2) by (auto simp: h e building_def complete_rings_def full_rings_def dormant_def tbv_path_rings_started_def)
qed

lemma alloc_pools_result:
  assumes "building gone tx rx False False False hw" and "env_ok gone env" and "alloc_pools env tx rx hw = (r, hw')"
  shows "if is_ok r then p_state (hw_path hw') = TBV_PATH_RING_ALLOCATED \<and> accounted gone hw' \<and> full_rings hw'
         else stopped_clean gone hw'"
proof -
  obtain r1 h1 where s1: "tbv_path_configure_ring_throttling env tx rx hw = (r1, h1)" by fastforce
  have b1: "building gone tx rx False False False h1" by (rule throttling_building [OF assms(1) s1])
  obtain r2 h2 where s2: "tbv_path_alloc_frames env True h1 = (r2, h2)" by fastforce
  have b2: "building gone tx rx (is_ok r2) False False h2" using alloc_frames_building [OF s2 b1] by simp
  obtain r3 h3 where s3: "tbv_path_alloc_frames env False h2 = (r3, h3)" by fastforce
  have b3: "is_ok r2 \<Longrightarrow> building gone tx rx True (is_ok r3) False h3" using alloc_frames_building [OF s3 b2] by simp
  obtain r4 h4 where s4: "tbv_path_alloc_control_packets env h3 = (r4, h4)" by fastforce
  have b4: "is_ok r2 \<Longrightarrow> is_ok r3 \<Longrightarrow> building gone tx rx True True (is_ok r4) h4"
    using alloc_control_building [OF s4] b3 by simp
  obtain r5 h5 where s5: "tbv_path_alloc_data_packets env h4 = (r5, h5)" by fastforce
  have b5: "is_ok r2 \<Longrightarrow> is_ok r3 \<Longrightarrow> is_ok r4
      \<Longrightarrow> if is_ok r5 then complete_rings gone h5 else building gone tx rx True True True h5"
    using alloc_data_building [OF s5] b4 by simp
  have clean: "stopped_clean gone (err_tx_frames env tx rx h)" if "building gone tx rx True False False h" for h
    unfolding err_tx_frames_def by (intro err_rx_ring_clean free_frames_building(1) [OF that assms(2)]) simp
  have clean2: "stopped_clean gone (err_rx_frames env tx rx h)" if "building gone tx rx True True False h" for h
    unfolding err_rx_frames_def by (intro clean free_frames_building(2) [OF that assms(2)]) simp
  have clean3: "stopped_clean gone (err_control_packets env tx rx h)" if "building gone tx rx True True True h" for h
    unfolding err_control_packets_def by (intro clean2 free_control_building that)
  have fin: "accounted gone (on_path (\<lambda>path. path\<lparr>p_state := TBV_PATH_RING_ALLOCATED\<rparr>) h)
      \<and> full_rings (on_path (\<lambda>path. path\<lparr>p_state := TBV_PATH_RING_ALLOCATED\<rparr>) h)" if "complete_rings gone h" for h
    using that accounted_same [of gone h "on_path (\<lambda>path. path\<lparr>p_state := TBV_PATH_RING_ALLOCATED\<rparr>) h"]
    by (simp add: complete_rings_def full_rings_def acct_simps dormant_def)
  show ?thesis
    using assms(3) b1 b2 b3 b4 b5
    unfolding alloc_pools_def s1 s2 s3 s4 s5 prod.case
    by (cases r1; cases r2; cases r3; cases r4; cases r5;
        auto simp: s2 s3 s4 s5 fin intro: err_rx_ring_clean clean clean2 clean3)
qed

text \<open>A path whose rings do not exist, with or without the in-hop.\<close>

definition ringless :: "bool \<Rightarrow> path_hw \<Rightarrow> bool" where
  "ringless gone hw \<longleftrightarrow>
     accounted gone hw \<and> dormant (hw_path hw)
     \<and> hw_tx_ring hw = None \<and> hw_rx_ring hw = None \<and> \<not> hw_tx_frames hw \<and> \<not> hw_rx_frames hw
     \<and> \<not> hw_tx_control_packets hw \<and> \<not> hw_tx_data_packets hw \<and> hw_tx_data_packet_count hw = 0
     \<and> p_local_transmit_path (hw_path hw) < 0"

lemma alloc_in_hop_clean:
  assumes "alloc_in_hop env hw = (r, hw')" and "stopped_clean gone hw"
  shows "if is_ok r then ringless gone hw' else stopped_clean gone hw'"
proof -
  have a: "accounted gone hw" and neg: "p_remote_transmit_path (hw_path hw) < 0"
    using assms(2) by (simp_all add: stopped_clean_def idle_rings_def)
  have rl: "ringless gone hw" using assms(2) by (simp add: ringless_def stopped_clean_def idle_rings_def)
  let ?n = "pc_receive_path (p_cfg (hw_path hw))"
  show ?thesis
  proof (cases "?n < 0")
    case True
    then show ?thesis using assms(1) rl by (auto simp: alloc_in_hop_def Let_def)
  next
    case n: False
    show ?thesis
    proof (cases "le_alloc_in_hopid env ?n")
      case (Inl e)
      then show ?thesis using assms n by (auto simp: alloc_in_hop_def Let_def)
    next
      case (Inr hop)
      let ?es = "[Acquire (In_hop hop), Release (In_hop hop)]"
      have other: "accounted gone (hw_emit ?es hw)"
        by (rule accounted_emit [OF a, where es = ?es]) (simp_all add: acct_simps dormant_def)
      have taken: "accounted gone (on_path (\<lambda>path. path\<lparr>p_remote_transmit_path := ?n\<rparr>) (hw_emit [Acquire (In_hop ?n)] hw))"
        using n neg by (intro accounted_acquire [OF a]) (simp_all add: acct_simps dormant_def)
      show ?thesis
      proof (cases "hop = ?n")
        case True
        have "r = Inr ()" "hw' = on_path (\<lambda>path. path\<lparr>p_remote_transmit_path := ?n\<rparr>) (hw_emit [Acquire (In_hop ?n)] hw)"
          using assms(1) n Inr True by (simp_all add: alloc_in_hop_def Let_def)
        then show ?thesis using taken rl by (simp add: ringless_def dormant_def tbv_path_rings_started_def)
      next
        case False
        have "r = Inl EBUSY" "hw' = hw_emit ?es hw"
          using assms(1) n Inr False by (simp_all add: alloc_in_hop_def Let_def)
        then show ?thesis using other assms(2) by (simp add: stopped_clean_def idle_rings_def)
      qed
    qed
  qed
qed

lemma alloc_ring_pair_result:
  assumes "ringless gone hw" and "env_ok gone env" and "alloc_ring_pair env req hw = (r, hw')"
  shows "if is_ok r then p_state (hw_path hw') = TBV_PATH_RING_ALLOCATED \<and> accounted gone hw' \<and> full_rings hw'
         else stopped_clean gone hw'"
proof (cases "le_ring_alloc_tx env")
  case None
  then have "r = Inl ENOMEM" "hw' = err_in_hop hw" using assms(3) by (simp_all add: alloc_ring_pair_def)
  then show ?thesis
    using assms(1) err_in_hop_accounted [of gone hw]
    by (auto simp: stopped_clean_def ringless_def idle_rings_def err_in_hop_def dormant_def tbv_path_rings_started_def)
next
  case (Some tx)
  define h1 where "h1 = (hw_emit [Acquire (Ring_mem (rg_addr tx))] hw)\<lparr>hw_tx_ring := Some tx\<rparr>"
  have a: "accounted gone hw" using assms(1) by (simp add: ringless_def)
  have a1: "accounted gone h1"
    unfolding h1_def using assms(1) by (intro accounted_acquire [OF a]) (simp_all add: ringless_def acct_simps dormant_def)
  show ?thesis
  proof (cases "le_alloc_out_hopid env req")
    case (Inl e)
    then have "r = Inl e" "hw' = err_tx_ring tx h1"
      using assms(3) Some by (simp_all add: alloc_ring_pair_def h1_def)
    moreover have "stopped_clean gone (err_tx_ring tx h1)"
      using assms(1) by (intro err_tx_ring_clean a1) (simp_all add: h1_def ringless_def)
    ultimately show ?thesis by simp
  next
    case (Inr tp)
    have tp: "tp \<ge> 0" using assms(2) Inr by (auto simp: env_ok_def)
    define h2 where "h2 = (let h = on_path (\<lambda>path. path\<lparr>p_local_transmit_path := tp,
                 p_local_tx_hop := rg_hop tx\<rparr>) (hw_emit [Acquire (Out_hop tp)] h1)
       in h\<lparr>hw_tx_poll_enabled := tbv_path_progress_poll_enabled (le_tx_progress_poll env) (hw_path h),
            hw_rx_supp_poll_enabled := tbv_path_rx_supp_poll_enabled (le_rx_supp_poll env) (hw_path h)\<rparr>)"
    have a2: "accounted gone h2"
      unfolding h2_def Let_def using assms(1) tp
      by (intro accounted_acquire [OF a1, of _ "Out_hop tp"]) (simp_all add: h1_def ringless_def acct_simps dormant_def)
    show ?thesis
    proof (cases "le_ring_alloc_rx env")
      case None
      then have "r = Inl ENOMEM" "hw' = err_out_hop tx h2"
        using assms(3) Some Inr by (simp_all add: alloc_ring_pair_def h2_def h1_def Let_def)
      moreover have "stopped_clean gone (err_out_hop tx h2)"
        using assms(1) tp
        by (intro err_out_hop_clean a2)
          (simp_all add: h2_def h1_def Let_def ringless_def dormant_def tbv_path_rings_started_def)
      ultimately show ?thesis by simp
    next
      case (Some rx)
      let ?h3 = "on_path (\<lambda>path. path\<lparr>p_local_rx_hop := rg_hop rx\<rparr>)
        ((hw_emit [Acquire (Ring_mem (rg_addr rx))] h2)\<lparr>hw_rx_ring := Some rx\<rparr>)"
      have "accounted gone ?h3"
        using assms(1) by (intro accounted_acquire [OF a2]) (simp_all add: h2_def h1_def Let_def ringless_def acct_simps dormant_def)
      then have "building gone tx rx False False False ?h3"
        using assms(1) tp by (simp add: building_def h2_def h1_def Let_def ringless_def dormant_def tbv_path_rings_started_def)
      moreover have "alloc_pools env tx rx ?h3 = (r, hw')"
        using assms(3) Some Inr \<open>le_ring_alloc_tx env = Some tx\<close>
        by (simp add: alloc_ring_pair_def h2_def h1_def Let_def)
      ultimately show ?thesis by (rule alloc_pools_result [OF _ assms(2)])
    qed
  qed
qed

lemma create_tx_wq_clean: "stopped_clean gone hw \<Longrightarrow> stopped_clean gone (tbv_path_create_tx_wq env hw)"
proof -
  assume c: "stopped_clean gone hw"
  then have a: "accounted gone hw" by (simp add: stopped_clean_def)
  have "accounted gone (hw_emit [Acquire Tx_wq] (hw\<lparr>hw_tx_wq := True\<rparr>))" if "\<not> hw_tx_wq hw"
    using that by (intro accounted_acquire [OF a]) (simp_all add: acct_simps dormant_def hw_emit_def)
  then show ?thesis
    using c by (simp add: tbv_path_create_tx_wq_def stopped_clean_def idle_rings_def)
qed

lemma txtrace_clean:
  assumes "stopped_clean gone hw"
  shows "stopped_clean gone (if hw_tx_trace hw \<or> \<not> b then hw
           else hw_emit [Acquire Tx_trace] (hw\<lparr>hw_tx_trace := True\<rparr>))"
proof -
  have a: "accounted gone hw" using assms by (simp add: stopped_clean_def)
  have "accounted gone (hw_emit [Acquire Tx_trace] (hw\<lparr>hw_tx_trace := True\<rparr>))" if "\<not> hw_tx_trace hw"
    using that by (intro accounted_acquire [OF a]) (simp_all add: acct_simps dormant_def hw_emit_def)
  then show ?thesis using assms by (simp add: stopped_clean_def idle_rings_def)
qed

text \<open>Allocation is all or nothing: either the path is complete, or it owns no ring, hop or pool.\<close>

lemma alloc_rings_result:
  assumes "stopped_clean gone hw" and "env_ok gone env" and "tbv_path_alloc_rings env req hw = (r, hw')"
  shows "if is_ok r then p_state (hw_path hw') = TBV_PATH_RING_ALLOCATED \<and> accounted gone hw' \<and> full_rings hw'
         else stopped_clean gone hw'"
proof -
  define h1 where "h1 = tbv_path_create_tx_wq env (if hw_tx_trace hw \<or> \<not> le_txtrace env then hw
           else hw_emit [Acquire Tx_trace] (hw\<lparr>hw_tx_trace := True\<rparr>))"
  have c1: "stopped_clean gone h1" unfolding h1_def by (intro create_tx_wq_clean txtrace_clean assms(1))
  obtain r2 h2 where s2: "alloc_in_hop env h1 = (r2, h2)" by fastforce
  note c2 = alloc_in_hop_clean [OF s2 c1]
  show ?thesis
  proof (cases "p_state (hw_path hw) \<noteq> TBV_PATH_NEW \<and> p_state (hw_path hw) \<noteq> TBV_PATH_STOPPED")
    case True
    then show ?thesis using assms by (auto simp: tbv_path_alloc_rings_def)
  next
    case ok: False
    show ?thesis
    proof (cases r2)
      case (Inl e)
      then show ?thesis
        using assms(3) ok s2 c2 by (auto simp: tbv_path_alloc_rings_def Let_def h1_def [symmetric])
    next
      case (Inr u)
      have "ringless gone h2"
        using c2 Inr by simp
      moreover have "\<exists>q. alloc_ring_pair env q h2 = (r, hw')"
        using assms(3) ok s2 Inr by (auto simp: tbv_path_alloc_rings_def Let_def h1_def [symmetric])
      ultimately show ?thesis using alloc_ring_pair_result [OF _ assms(2)] by blast
    qed
  qed
qed

section \<open>What the transmit side leaves alone\<close>

definition hw_view :: "tbv_path \<Rightarrow> tbv_path_state \<times> int \<times> int \<times> u32 \<times> u32" where
  "hw_view path = (p_state path, p_remote_transmit_path path, p_local_transmit_path path,
     p_tx_frame_count path, p_rx_frame_count path)"

lemma release_view [simp]: "hw_view (tbv_path_tx_packet_release packet status path) = hw_view path"
  by (simp add: hw_view_def tbv_path_tx_packet_release_def Let_def emit_def split: option.splits)

lemma release_list_view [simp]: "hw_view (tbv_path_release_packet_list packets status path) = hw_view path"
  by (induction packets arbitrary: path) simp_all

lemma finish_view [simp]: "hw_view (fst (tbv_path_finish_raw_stream_if_needed path packet)) = hw_view path"
  by (simp add: hw_view_def tbv_path_finish_raw_stream_if_needed_def finish_raw_stream_locked_def
      clear_raw_stream_def Let_def)

lemma view_updates [simp]:
  "hw_view (path\<lparr>p_ring := a\<rparr>) = hw_view path"
  "hw_view (path\<lparr>p_tx_free := b\<rparr>) = hw_view path"
  "hw_view (path\<lparr>p_tx_inflight := c\<rparr>) = hw_view path"
  "hw_view (path\<lparr>p_tx_scheduling := d\<rparr>) = hw_view path"
  "hw_view (path\<lparr>p_control_tx_completed := e\<rparr>) = hw_view path"
  "hw_view (path\<lparr>p_data_tx_completed := e\<rparr>) = hw_view path"
  "hw_view (path\<lparr>p_data_tx_canceled := e\<rparr>) = hw_view path"
  "hw_view (path\<lparr>p_data_rx_canceled := e\<rparr>) = hw_view path"
  by (simp_all add: hw_view_def)

lemma retire_view [simp]: "hw_view (retire_locked d canceled path) = hw_view path"
proof -
  have f: "hw_view p' = hw_view p" if "tbv_path_finish_raw_stream_if_needed p k = (p', k')" for p p' k k'
    using finish_view [of p k] that by simp
  show ?thesis
    by (auto simp: retire_locked_def tx_complete_locked_def zcopy_tx_complete_locked_def
        tbv_path_tx_retire_one_def Let_def dest!: f split: option.splits prod.splits)
qed

lemma pick_view: "tx_pick n path = (path', h) \<Longrightarrow> hw_view path' = hw_view path"
proof (cases h)
  case None
  assume "tx_pick n path = (path', h)"
  then show ?thesis
    using None by (auto simp: tx_pick_def hw_view_def Let_def map_prod_def split: option.splits prod.splits if_splits)
next
  case (Some h')
  assume "tx_pick n path = (path', h)"
  then show ?thesis
    using Some by (auto elim!: tx_pick_Some simp: tx_take_eq hw_view_def)
qed

lemma posted_view [simp]: "hw_view (tx_posted path h) = hw_view path"
  by (simp add: tx_posted_def hw_view_def emit_def Let_def)

lemma refused_view [simp]: "hw_view (tx_refused e path h) = hw_view path"
proof -
  have f: "hw_view p' = hw_view p" if "tbv_path_finish_raw_stream_if_needed p k = (p', k')" for p p' k k'
    using finish_view [of p k] that by simp
  have g: "hw_view (path\<lparr>p_tx_raw_stream_active := a, p_tx_raw_stream_owner := b,
      p_tx_raw_stream_end_seen := c, p_tx_raw_stream_inflight := d\<rparr>) = hw_view path" for a b c d path
    by (simp add: hw_view_def)
  have q: "hw_view (path\<lparr>p_tx_control_queue := a, p_tx_control_queued := b\<rparr>) = hw_view path"
      "hw_view (path\<lparr>p_tx_data_queue := a, p_tx_data_queued := b\<rparr>) = hw_view path"
      "hw_view (path\<lparr>p_tx_remote_data_credits := b\<rparr>) = hw_view path" for a b path
    by (simp_all add: hw_view_def)
  show ?thesis
    by (auto simp: tx_refused_def Let_def g q dest!: f split: option.splits prod.splits)
qed

lemma loop_view: "hw_view (schedule_loop env path) = hw_view path"
proof (induction env path rule: schedule_loop.induct)
  case (1 env path)
  obtain path' h where p: "tx_pick (e_native_tx_max_inflight env) path = (path', h)" by fastforce
  then show ?case
    using 1 pick_view [OF p]
    by (subst schedule_loop.simps) (auto split: option.splits sum.splits)
qed

lemma schedule_view [simp]: "hw_view (tbv_path_schedule_tx env path) = hw_view path"
  by (simp add: tbv_path_schedule_tx_def loop_view)

lemma reap_view [simp]: "hw_view (tbv_path_reap_tx env n path) = hw_view path"
  by (induction n arbitrary: path) (simp_all split: list.splits)

lemma stop_retire_view [simp]: "hw_view (stop_retire env ds path) = hw_view path"
  by (induction ds arbitrary: path) simp_all

lemma stops_view [simp]:
  "hw_view (ring_stop_tx env g path) = hw_view path" "hw_view (ring_stop_rx n path) = hw_view path"
  by (simp_all add: ring_stop_tx_def ring_stop_rx_def)

lemma flush_view [simp]: "hw_view (tbv_path_flush_tx_queue status path) = hw_view path"
  by (simp add: tbv_path_flush_tx_queue_def tbv_path_cancel_queued_tx_status_def Let_def)
    (simp add: hw_view_def clear_raw_stream_def)

lemma view_fields:
  assumes "hw_view path' = hw_view path"
  shows "p_state path' = p_state path" "p_remote_transmit_path path' = p_remote_transmit_path path"
    "p_local_transmit_path path' = p_local_transmit_path path"
    "p_tx_frame_count path' = p_tx_frame_count path" "p_rx_frame_count path' = p_rx_frame_count path"
  using assms by (simp_all add: hw_view_def)

text \<open>A change of the path that keeps the view keeps the accounts.\<close>

lemma view_accounted:
  assumes "accounted gone hw" and "hw_view (f (hw_path hw)) = hw_view (hw_path hw)"
  shows "accounted gone (on_path f hw)" and "full_rings (on_path f hw) = full_rings hw"
    and "idle_rings (on_path f hw) = idle_rings hw"
  using view_fields [OF assms(2)]
  by (auto intro!: accounted_same [OF assms(1)] simp: acct_simps full_rings_def idle_rings_def)

section \<open>Start, tunnel, barrier\<close>

definition life_ok :: "bool \<Rightarrow> path_hw \<Rightarrow> bool" where
  "life_ok gone hw \<longleftrightarrow> accounted gone hw \<and> life_wf hw"

lemma life_ok_full:
  "life_ok gone hw \<Longrightarrow> tbv_path_rings_started (hw_path hw) \<Longrightarrow> full_rings hw"
  by (auto simp: life_ok_def life_wf_def tbv_path_rings_started_def)

lemma full_rings_some:
  assumes "full_rings hw"
  obtains tx rx where "hw_tx_ring hw = Some tx" "hw_rx_ring hw = Some rx"
  using assms by (auto simp: full_rings_def)

lemma start_rings_ok:
  assumes "life_ok gone hw" and "tbv_path_start_rings post hw = (r, hw')"
  shows "life_ok gone hw'"
proof (cases "p_state (hw_path hw) = TBV_PATH_RING_ALLOCATED")
  case False
  then show ?thesis using assms by (simp add: tbv_path_start_rings_def)
next
  case True
  then have f: "full_rings hw" and s: "\<not> hw_rings_stopped hw" and a: "accounted gone hw"
    using assms(1) by (simp_all add: life_ok_def life_wf_def)
  obtain tx rx where t: "hw_tx_ring hw = Some tx" "hw_rx_ring hw = Some rx"
    using f by (rule full_rings_some)
  have h: "hw' = on_path (\<lambda>path. path\<lparr>p_state := TBV_PATH_RING_STARTED\<rparr>)
      (hw_emit [Acquire (Running (rg_addr tx)), Acquire (Running (rg_addr rx))] hw)"
    using assms(2) True t by (simp add: tbv_path_start_rings_def ring_events_def)
  have "accounted gone hw'"
    by (rule accounted_emit [OF a, where es = "[Acquire (Running (rg_addr tx)), Acquire (Running (rg_addr rx))]"])
      (simp_all add: h t s True acct_simps)
  then show ?thesis using f by (simp add: life_ok_def life_wf_def h full_rings_def)
qed

lemma release_in_hop_accounted:
  assumes "accounted gone hw" and "p_remote_transmit_path (hw_path hw) \<ge> 0"
  shows "accounted gone (release_in_hop hw)"
  using assms(2) unfolding release_in_hop_def
  by (intro accounted_release [OF assms(1)]) (simp_all add: acct_simps)

lemma release_in_hop_fields [simp]:
  "p_state (hw_path (release_in_hop hw)) = p_state (hw_path hw)"
  "p_remote_transmit_path (hw_path (release_in_hop hw)) = - 1"
  "hw_rings_stopped (release_in_hop hw) = hw_rings_stopped hw"
  "full_rings (release_in_hop hw) = full_rings hw"
  "hw_tx_ring (release_in_hop hw) = hw_tx_ring hw" "hw_rx_ring (release_in_hop hw) = hw_rx_ring hw"
  by (simp_all add: release_in_hop_def full_rings_def)

text \<open>The two ends of \<open>tbv_path_enable_tunnel\<close>, once the in-hop is there.\<close>

lemma enable_finish_ok:
  assumes "accounted gone hw" and "full_rings hw" and "p_state (hw_path hw) = TBV_PATH_RING_STARTED"
    and "p_remote_transmit_path (hw_path hw) = n" and "n \<ge> 0"
  shows "life_ok gone (release_in_hop hw)"
    and "life_ok gone (on_path (\<lambda>path. tbv_path_schedule_tx env
              (path\<lparr>p_remote_transmit_path := n, p_state := TBV_PATH_TUNNEL_ENABLED\<rparr>)) hw)"
proof -
  show "life_ok gone (release_in_hop hw)"
    using assms release_in_hop_accounted [OF assms(1)] by (simp add: life_ok_def life_wf_def)
  let ?h = "on_path (\<lambda>path. path\<lparr>p_remote_transmit_path := n, p_state := TBV_PATH_TUNNEL_ENABLED\<rparr>) hw"
  have a: "accounted gone ?h" using assms by (intro accounted_same [OF assms(1)]) (simp_all add: acct_simps)
  have w: "full_rings ?h" using assms(2) by (simp add: full_rings_def)
  have v: "hw_view (tbv_path_schedule_tx env (hw_path ?h)) = hw_view (hw_path ?h)" by simp
  show "life_ok gone (on_path (\<lambda>path. tbv_path_schedule_tx env
              (path\<lparr>p_remote_transmit_path := n, p_state := TBV_PATH_TUNNEL_ENABLED\<rparr>)) hw)"
    using view_accounted(1,2) [where f = "tbv_path_schedule_tx env", OF a v] view_fields [OF v] w assms(5) by (simp add: life_ok_def life_wf_def)
qed

lemma enable_tunnel_ok:
  assumes "life_ok gone hw" and "n \<ge> 0"
  shows "life_ok gone (snd (tbv_path_enable_tunnel env alloc enable n hw))"
proof (cases "p_state (hw_path hw) = TBV_PATH_RING_STARTED")
  case False
  then show ?thesis using assms by (simp add: tbv_path_enable_tunnel_def Let_def)
next
  case True
  then have f: "full_rings hw" and a: "accounted gone hw"
    using assms(1) by (simp_all add: life_ok_def life_wf_def)
  have fin: "life_ok gone (snd (case enable of Inl e \<Rightarrow> (Inl e, release_in_hop h)
       | Inr _ \<Rightarrow> (Inr (), on_path (\<lambda>path. tbv_path_schedule_tx env
           (path\<lparr>p_remote_transmit_path := n, p_state := TBV_PATH_TUNNEL_ENABLED\<rparr>)) h)))"
    if "accounted gone h" "full_rings h" "p_state (hw_path h) = TBV_PATH_RING_STARTED"
      "p_remote_transmit_path (hw_path h) = n" for h
    using enable_finish_ok [OF that assms(2)] by (auto split: sum.splits)
  have "accounted gone (hw_emit [Acquire (In_hop hop), Release (In_hop hop)] hw)" for hop
    by (rule accounted_emit [OF a, where es = "[Acquire (In_hop hop), Release (In_hop hop)]"])
      (simp_all add: acct_simps)
  then have other: "life_ok gone (hw_emit [Acquire (In_hop hop), Release (In_hop hop)] hw)" for hop
    using True f by (simp add: life_ok_def life_wf_def full_rings_def)
  have taken: "accounted gone (on_path (\<lambda>path. path\<lparr>p_remote_transmit_path := n\<rparr>) (hw_emit [Acquire (In_hop n)] hw))"
    if "p_remote_transmit_path (hw_path hw) < 0"
    using that assms(2) by (intro accounted_acquire [OF a]) (simp_all add: acct_simps)
  have full: "full_rings (on_path (\<lambda>path. path\<lparr>p_remote_transmit_path := n\<rparr>) (hw_emit [Acquire (In_hop n)] hw))"
    using f by (simp add: full_rings_def)
  show ?thesis
  proof (cases "p_remote_transmit_path (hw_path hw) \<ge> 0")
    case True
    then show ?thesis
      using \<open>p_state (hw_path hw) = TBV_PATH_RING_STARTED\<close> fin [OF a f] assms(1)
      by (simp add: tbv_path_enable_tunnel_def Let_def)
  next
    case False
    let ?h = "on_path (\<lambda>path. path\<lparr>p_remote_transmit_path := n\<rparr>) (hw_emit [Acquire (In_hop n)] hw)"
    have "accounted gone ?h" "full_rings ?h"
      using False taken full by simp_all
    note F = fin [OF this]
    show ?thesis
      using False True F other assms(1)
      by (auto simp: tbv_path_enable_tunnel_def Let_def split: sum.splits)
  qed
qed

lemma disable_tunnel_ok:
  assumes "life_ok gone hw"
  shows "life_ok gone (snd (tbv_path_disable_tunnel disable hw))"
proof (cases "p_state (hw_path hw) = TBV_PATH_TUNNEL_ENABLED")
  case False
  then show ?thesis using assms by (simp add: tbv_path_disable_tunnel_def)
next
  case True
  then have f: "full_rings hw" "p_remote_transmit_path (hw_path hw) \<ge> 0" and a: "accounted gone hw"
    using assms by (simp_all add: life_ok_def life_wf_def)
  let ?h = "on_path (\<lambda>path. path\<lparr>p_state := TBV_PATH_RING_STARTED\<rparr>) (release_in_hop hw)"
  have "accounted gone ?h"
    using True by (intro accounted_same [OF release_in_hop_accounted [OF a f(2)]])
      (simp_all add: acct_simps)
  then have "life_ok gone ?h" using f(1) by (simp add: life_ok_def life_wf_def full_rings_def release_in_hop_def)
  then show ?thesis using True assms by (auto simp: tbv_path_disable_tunnel_def split: sum.splits)
qed

text \<open>Both orders of stopping the pair.\<close>

lemma stop_accounted:
  assumes "accounted gone hw" and "running hw" and "hw_tx_ring hw = Some tx" and "hw_rx_ring hw = Some rx"
    and "es = [stop_event senv (Running (rg_addr tx)), stop_event senv (Running (rg_addr rx))]
       \<or> es = [stop_event senv (Running (rg_addr rx)), stop_event senv (Running (rg_addr tx))]"
    and "\<And>path. hw_view (f path) = hw_view path" and "gone \<or> \<not> se_going_away senv"
  shows "accounted gone ((on_path f (hw_emit es hw))\<lparr>hw_rings_stopped := True\<rparr>)" (is "accounted gone ?h")
proof (rule accounted_emit [OF assms(1)])
  show "hw_log ?h = hw_log hw @ es" by simp
  define M where "M = owned ?h"
  have o: "owned hw = add_mset (Running (rg_addr tx)) (add_mset (Running (rg_addr rx)) M)"
    using assms(2-4) view_fields [OF assms(6), of "hw_path hw"] by (simp add: M_def acct_simps)
  show "ledger gone (owned hw) es = Some (owned ?h)"
    using assms(5,7) unfolding o M_def [symmetric]
    by (auto simp: add_mset_commute stop_event_def abandonable_def)
qed

lemma barrier_ok:
  assumes "life_ok gone hw" and "gone \<or> \<not> se_going_away env"
  shows "life_ok gone (snd (tbv_path_ring_barrier env restart hw))"
proof (cases "tbv_path_rings_started (hw_path hw)")
  case False
  then show ?thesis using assms by (simp add: tbv_path_ring_barrier_def)
next
  case True
  have f: "full_rings hw" using assms(1) True by (rule life_ok_full)
  obtain tx rx where t: "hw_tx_ring hw = Some tx" "hw_rx_ring hw = Some rx"
    using f by (rule full_rings_some)
  let ?h1 = "on_path (tbv_path_reap_tx (se_tx env) (se_reaped env)) hw"
  define h2 where "h2 = (if \<not> hw_rings_stopped hw then stop_pair env ?h1 else hw)"
  have a: "accounted gone hw" using assms by (simp add: life_ok_def)
  have v: "hw_view (hw_path h2) = hw_view (hw_path hw)" by (simp add: h2_def stop_pair_def)
  have r: "hw_tx_ring h2 = Some tx" "hw_rx_ring h2 = Some rx" "hw_rings_stopped h2"
      "full_rings h2"
    using t f view_fields [OF v] by (auto simp: h2_def stop_pair_def full_rings_def)
  have "running hw" if "\<not> hw_rings_stopped hw"
    using that True by (simp add: running_def)
  then have a2: "accounted gone h2"
    using a t assms(2) by (auto simp: h2_def stop_pair_def ring_events_def intro!: stop_accounted)
  have ok2: "life_ok gone h2"
    using assms r a2 view_fields [OF v] True
    by (auto simp: life_ok_def life_wf_def tbv_path_rings_started_def)
  define h3 where "h3 = snd (tbv_path_restart_rings (se_post_rx env) h2)"
  have a3: "accounted gone h3"
    using r view_fields [OF v] True
    by (intro accounted_emit [OF a2, where es = "[Acquire (Running (rg_addr tx)), Acquire (Running (rg_addr rx))]"])
      (simp_all add: h3_def tbv_path_restart_rings_def ring_events_def acct_simps)
  then have "life_ok gone h3"
    using ok2 r view_fields [OF v] True
    by (auto simp: h3_def tbv_path_restart_rings_def life_ok_def life_wf_def full_rings_def tbv_path_rings_started_def)
  then show ?thesis
    using ok2 True t by (simp add: tbv_path_ring_barrier_def Let_def h3_def flip: h2_def)
qed

section \<open>Destruction\<close>

text \<open>A path whose rings do not run, on the way to its end.\<close>

definition halted :: "bool \<Rightarrow> path_hw \<Rightarrow> bool" where
  "halted gone hw \<longleftrightarrow>
     accounted gone hw \<and> \<not> tbv_path_rings_started (hw_path hw)
     \<and> (hw_tx_frames hw \<longrightarrow> hw_tx_ring hw \<noteq> None) \<and> (hw_rx_frames hw \<longrightarrow> hw_rx_ring hw \<noteq> None)
     \<and> (\<not> hw_tx_data_packets hw \<longrightarrow> hw_tx_data_packet_count hw = 0)"

lemma halted_of_rings:
  assumes "accounted gone hw" and "\<not> tbv_path_rings_started (hw_path hw)" and "idle_rings hw \<or> full_rings hw"
  shows "halted gone hw"
  using assms by (auto simp: halted_def idle_rings_def full_rings_def)

lemma destroy_tunnel_result:
  assumes "life_ok gone hw" and "p_state (hw_path hw) = TBV_PATH_TUNNEL_ENABLED"
  shows "accounted gone (destroy_tunnel disable hw)" and "full_rings (destroy_tunnel disable hw)"
    and "tbv_path_rings_started (hw_path (destroy_tunnel disable hw))"
    and "p_remote_transmit_path (hw_path (destroy_tunnel disable hw)) < 0"
proof -
  have f: "full_rings hw" "p_remote_transmit_path (hw_path hw) \<ge> 0" and a: "accounted gone hw"
    using assms by (simp_all add: life_ok_def life_wf_def)
  have "accounted gone (on_path (\<lambda>path. path\<lparr>p_state := TBV_PATH_RING_STARTED\<rparr>) (release_in_hop hw))"
    using assms(2) by (intro accounted_same [OF release_in_hop_accounted [OF a f(2)]]) (simp_all add: acct_simps)
  then show "accounted gone (destroy_tunnel disable hw)" and "full_rings (destroy_tunnel disable hw)"
    and "tbv_path_rings_started (hw_path (destroy_tunnel disable hw))"
    and "p_remote_transmit_path (hw_path (destroy_tunnel disable hw)) < 0"
    using assms(2) f release_in_hop_accounted [OF a f(2)]
    by (cases disable; simp add: destroy_tunnel_def tbv_path_disable_tunnel_def tbv_path_rings_started_def
          full_rings_def release_in_hop_def)+
qed

lemma destroy_halt_result:
  assumes "accounted gone hw" and "full_rings hw" and "tbv_path_rings_started (hw_path hw)"
    and "gone \<or> \<not> se_going_away senv"
  shows "halted gone (destroy_halt senv hw)"
    and "p_remote_transmit_path (hw_path (destroy_halt senv hw)) = p_remote_transmit_path (hw_path hw)"
proof -
  obtain tx rx where t: "hw_tx_ring hw = Some tx" "hw_rx_ring hw = Some rx"
    using assms(2) by (rule full_rings_some)
  define h where "h = (if hw_rings_stopped hw then hw
      else (on_path (ring_stop_tx (se_tx senv) (se_going_away senv) \<circ> ring_stop_rx (se_rx_posted senv))
             (hw_emit (ring_events (stop_event senv) (hw_rx_ring hw) @ ring_events (stop_event senv) (hw_tx_ring hw)) hw))
             \<lparr>hw_rings_stopped := True\<rparr>)"
  have "running hw" if "\<not> hw_rings_stopped hw" using that assms(3) by (simp add: running_def)
  then have ah: "accounted gone h" "hw_rings_stopped h"
    using assms(1,4) t by (auto simp: h_def ring_events_def intro!: stop_accounted)
  have v: "hw_view (hw_path h) = hw_view (hw_path hw)" by (simp add: h_def)
  have fh: "full_rings h" using assms(2) view_fields [OF v] by (simp add: h_def full_rings_def)
  have e: "destroy_halt senv hw = on_path (\<lambda>path. path\<lparr>p_state := TBV_PATH_RING_ALLOCATED\<rparr>) h"
    by (simp add: destroy_halt_def h_def)
  have "accounted gone (on_path (\<lambda>path. path\<lparr>p_state := TBV_PATH_RING_ALLOCATED\<rparr>) h)"
    using ah by (intro accounted_same [OF ah(1)]) (simp_all add: acct_simps)
  then show "halted gone (destroy_halt senv hw)"
    unfolding e using fh by (intro halted_of_rings) (simp_all add: full_rings_def tbv_path_rings_started_def)
  show "p_remote_transmit_path (hw_path (destroy_halt senv hw)) = p_remote_transmit_path (hw_path hw)"
    unfolding e using view_fields [OF v] by simp
qed

lemma release_in_hop_halted:
  "halted gone hw \<Longrightarrow> p_remote_transmit_path (hw_path hw) \<ge> 0 \<Longrightarrow> halted gone (release_in_hop hw)"
  using release_in_hop_accounted [of gone hw] by (simp add: halted_def release_in_hop_def tbv_path_rings_started_def)

lemma life_ok_halted:
  assumes "life_ok gone hw" and "\<not> tbv_path_rings_started (hw_path hw)"
  shows "halted gone hw"
  using assms by (intro halted_of_rings)
    (auto simp: life_ok_def life_wf_def tbv_path_rings_started_def split: tbv_path_state.splits)

lemma destroy_stop_halted:
  assumes "life_ok gone hw" and "gone \<or> \<not> se_going_away senv"
  shows "halted gone (destroy_stop senv disable hw)
    \<and> p_remote_transmit_path (hw_path (destroy_stop senv disable hw)) < 0"
proof (cases "p_state (hw_path hw) = TBV_PATH_TUNNEL_ENABLED")
  case True
  then have "tbv_path_rings_started (hw_path hw)" by (simp add: tbv_path_rings_started_def)
  then show ?thesis
    using True destroy_tunnel_result [OF assms(1) True, of disable] assms(2)
      destroy_halt_result [of gone "destroy_tunnel disable hw" senv]
    by (simp add: destroy_stop_def Let_def)
next
  case False
  define h where "h = (if tbv_path_rings_started (hw_path hw) then destroy_halt senv hw else hw)"
  have "accounted gone hw" using assms by (simp add: life_ok_def)
  then have "halted gone h"
    using destroy_halt_result(1) assms(2) life_ok_full [OF assms(1)] life_ok_halted [OF assms(1)] by (simp add: h_def)
  moreover have "destroy_stop senv disable hw =
      (if 0 \<le> p_remote_transmit_path (hw_path h) then release_in_hop h else h)"
    unfolding destroy_stop_def Let_def h_def using False by simp
  ultimately show ?thesis
    using release_in_hop_halted [of gone h] by simp
qed

text \<open>Each of the remaining steps clears its own resources and keeps the rest.\<close>

lemma thr_del_accounted: "accounted gone hw \<Longrightarrow> accounted gone (tbv_thr_del ring hw)"
  by (auto simp: tbv_thr_del_def acct_simps intro!: accounted_same [of gone hw] split: option.splits)

lemma thr_del_fields [simp]:
  "hw_path (tbv_thr_del ring hw) = hw_path hw" "hw_tx_ring (tbv_thr_del ring hw) = hw_tx_ring hw"
  "hw_rx_ring (tbv_thr_del ring hw) = hw_rx_ring hw" "hw_tx_frames (tbv_thr_del ring hw) = hw_tx_frames hw"
  "hw_rx_frames (tbv_thr_del ring hw) = hw_rx_frames hw"
  "hw_tx_control_packets (tbv_thr_del ring hw) = hw_tx_control_packets hw"
  "hw_tx_data_packets (tbv_thr_del ring hw) = hw_tx_data_packets hw"
  "hw_tx_data_packet_count (tbv_thr_del ring hw) = hw_tx_data_packet_count hw"
  "hw_tx_trace (tbv_thr_del ring hw) = hw_tx_trace hw" "hw_tx_wq (tbv_thr_del ring hw) = hw_tx_wq hw"
  by (simp_all add: tbv_thr_del_def split: option.splits)

lemma free_frames_fields:
  fixes env tx
  defines "f \<equiv> tbv_path_free_frames env tx"
  shows "hw_tx_ring (f hw) = hw_tx_ring hw" "hw_rx_ring (f hw) = hw_rx_ring hw"
    "hw_tx_control_packets (f hw) = hw_tx_control_packets hw"
    "hw_tx_data_packets (f hw) = hw_tx_data_packets hw"
    "hw_tx_data_packet_count (f hw) = hw_tx_data_packet_count hw"
    "hw_tx_trace (f hw) = hw_tx_trace hw" "hw_tx_wq (f hw) = hw_tx_wq hw"
    "p_state (hw_path (f hw)) = p_state (hw_path hw)"
    "p_remote_transmit_path (hw_path (f hw)) = p_remote_transmit_path (hw_path hw)"
    "p_local_transmit_path (hw_path (f hw)) = p_local_transmit_path (hw_path hw)"
    "hw_tx_frames (f hw) = (hw_tx_frames hw \<and> \<not> (tx \<and> hw_tx_ring hw \<noteq> None))"
    "hw_rx_frames (f hw) = (hw_rx_frames hw \<and> \<not> (\<not> tx \<and> hw_rx_ring hw \<noteq> None))"
  by (auto simp: f_def tbv_path_free_frames_def Let_def)

lemma destroy_rx_result:
  assumes "halted gone hw" and "env_ok gone env"
  defines "hw' \<equiv> destroy_rx env hw"
  shows "halted gone hw' \<and> hw_rx_ring hw' = None \<and> \<not> hw_rx_frames hw'
    \<and> p_remote_transmit_path (hw_path hw') = p_remote_transmit_path (hw_path hw)"
proof (cases "hw_rx_ring hw")
  case None
  then show ?thesis using assms(1) by (auto simp: hw'_def destroy_rx_def halted_def)
next
  case (Some rx)
  define h where "h = tbv_path_free_frames env False (tbv_thr_del (Some rx) hw)"
  have a: "accounted gone h"
    unfolding h_def using assms(1,2)
    by (intro free_frames_accounted thr_del_accounted) (auto simp: halted_def env_ok_dma)
  note f = free_frames_fields [of env False "tbv_thr_del (Some rx) hw", folded h_def]
  have e: "hw' = on_path (\<lambda>path. path\<lparr>p_local_rx_hop := - 1\<rparr>)
      ((hw_emit [Release (Ring_mem (rg_addr rx))] h)\<lparr>hw_rx_ring := None\<rparr>)"
    using Some f by (simp add: hw'_def destroy_rx_def Let_def free_ring_def h_def)
  have "accounted gone hw'"
    unfolding e using assms(1) Some f
    by (intro accounted_free_ring [OF a, of "rg_addr rx"]) (simp_all add: halted_def acct_simps)
  then show ?thesis
    using assms(1) Some f by (auto simp: e halted_def tbv_path_rings_started_def)
qed

lemma destroy_tx_result:
  assumes "halted gone hw" and "env_ok gone env" and "hw_rx_ring hw = None" and "\<not> hw_rx_frames hw"
  defines "hw' \<equiv> destroy_tx env hw"
  shows "halted gone hw' \<and> hw_tx_ring hw' = None \<and> \<not> hw_tx_frames hw' \<and> hw_rx_ring hw' = None \<and> \<not> hw_rx_frames hw'
    \<and> p_remote_transmit_path (hw_path hw') = p_remote_transmit_path (hw_path hw)
    \<and> p_local_transmit_path (hw_path hw') = p_local_transmit_path (hw_path hw)"
proof (cases "hw_tx_ring hw")
  case None
  then show ?thesis using assms(1,3,4) by (auto simp: hw'_def destroy_tx_def halted_def)
next
  case (Some tx)
  define h where "h = tbv_path_free_frames env True (tbv_thr_del (Some tx) hw)"
  have a: "accounted gone h"
    unfolding h_def using assms(1,2)
    by (intro free_frames_accounted thr_del_accounted) (auto simp: halted_def env_ok_dma)
  note f = free_frames_fields [of env True "tbv_thr_del (Some tx) hw", folded h_def]
  have e: "hw' = on_path (\<lambda>path. path\<lparr>p_local_tx_hop := - 1\<rparr>)
      ((hw_emit [Release (Ring_mem (rg_addr tx))] h)\<lparr>hw_tx_ring := None\<rparr>)"
    using Some f by (simp add: hw'_def destroy_tx_def Let_def free_ring_def h_def)
  have "accounted gone hw'"
    unfolding e using assms(1) Some f
    by (intro accounted_free_ring [OF a, of "rg_addr tx"]) (simp_all add: halted_def acct_simps)
  then show ?thesis
    using assms(1,3,4) Some f by (auto simp: e halted_def tbv_path_rings_started_def)
qed

lemma free_data_accounted:
  assumes "halted gone hw"
  shows "accounted gone (tbv_path_free_data_packets hw)"
proof (cases "hw_tx_data_packets hw")
  case False
  have a: "accounted gone hw" and c: "hw_tx_data_packet_count hw = 0"
    using False assms by (simp_all add: halted_def)
  show ?thesis
  proof (rule accounted_same [OF a])
    show "owned (tbv_path_free_data_packets hw) = owned hw"
      by (simp add: tbv_path_free_data_packets_def acct_simps False)
    show "hw_log (tbv_path_free_data_packets hw) = hw_log hw"
      by (simp add: tbv_path_free_data_packets_def False c)
  qed
next
  case True
  have a: "accounted gone hw" using assms by (simp add: halted_def)
  let ?rs = "map Data_buf [0..<unat (hw_tx_data_packet_count hw)]"
  show ?thesis
  proof (rule accounted_emit [OF a, where es = "map Release ?rs @ [Release Data_packets]"])
    show "hw_log (tbv_path_free_data_packets hw) = hw_log hw @ map Release ?rs @ [Release Data_packets]"
      using True by (simp add: tbv_path_free_data_packets_def comp_def)
    have "owned hw = add_mset Data_packets (mset ?rs + owned (tbv_path_free_data_packets hw))"
      using True by (simp add: tbv_path_free_data_packets_def acct_simps)
    then show "ledger gone (owned hw) (map Release ?rs @ [Release Data_packets])
        = Some (owned (tbv_path_free_data_packets hw))"
      using ledger_release_pool(1) [of ?rs Data_packets gone "owned (tbv_path_free_data_packets hw)"]
      by (simp add: list_all_iff)
  qed
qed

lemma free_control_accounted:
  assumes "accounted gone hw"
  shows "accounted gone (tbv_path_free_control_packets hw)"
proof (cases "hw_tx_control_packets hw")
  case False
  then show ?thesis
    by (intro accounted_same [OF assms]) (simp_all add: tbv_path_free_control_packets_def acct_simps)
next
  case True
  then show ?thesis
    by (intro accounted_release [OF assms, of Control_packets])
      (simp_all add: tbv_path_free_control_packets_def acct_simps)
qed

lemma flag_release_accounted:
  assumes "accounted gone hw"
  shows "accounted gone (if hw_tx_trace hw then (hw_emit [Release Tx_trace] hw)\<lparr>hw_tx_trace := False\<rparr> else hw)"
    and "accounted gone (tbv_path_destroy_tx_wq hw)"
    and "p_local_transmit_path (hw_path hw) \<ge> 0 \<Longrightarrow>
      accounted gone (on_path (\<lambda>path. path\<lparr>p_local_transmit_path := - 1\<rparr>)
        (hw_emit [Release (Out_hop (p_local_transmit_path (hw_path hw)))] hw))"
proof -
  have "accounted gone ((hw_emit [Release Tx_trace] hw)\<lparr>hw_tx_trace := False\<rparr>)" if "hw_tx_trace hw"
    using that by (intro accounted_release [OF assms]) (simp_all add: acct_simps)
  then show "accounted gone (if hw_tx_trace hw then (hw_emit [Release Tx_trace] hw)\<lparr>hw_tx_trace := False\<rparr> else hw)"
    using assms by simp
  have "accounted gone ((hw_emit [Release Tx_wq] hw)\<lparr>hw_tx_wq := False\<rparr>)" if "hw_tx_wq hw"
    using that by (intro accounted_release [OF assms]) (simp_all add: acct_simps)
  then show "accounted gone (tbv_path_destroy_tx_wq hw)"
    using assms by (simp add: tbv_path_destroy_tx_wq_def)
  show "accounted gone (on_path (\<lambda>path. path\<lparr>p_local_transmit_path := - 1\<rparr>)
        (hw_emit [Release (Out_hop (p_local_transmit_path (hw_path hw)))] hw))"
    if "p_local_transmit_path (hw_path hw) \<ge> 0"
    using that by (intro accounted_release [OF assms]) (simp_all add: acct_simps)
qed

lemma destroy_result:
  fixes senv disable
  assumes "life_ok gone hw" and "env_ok gone env" and "gone \<or> \<not> se_going_away senv"
  defines "hw' \<equiv> tbv_path_destroy env senv disable hw"
  shows "accounted gone hw'" and "idle_rings hw'" and "owned hw' = {#}" and "p_state (hw_path hw') = TBV_PATH_STOPPED"
proof -
  define h1 where "h1 = on_path (tbv_path_flush_tx_queue (Some ECANCELED)) (destroy_stop senv disable hw)"
  have d: "halted gone (destroy_stop senv disable hw)"
      "p_remote_transmit_path (hw_path (destroy_stop senv disable hw)) < 0"
    using destroy_stop_halted [OF assms(1,3)] by auto
  have "accounted gone h1" unfolding h1_def using d(1) by (intro view_accounted(1)) (simp_all add: halted_def)
  then have h1: "halted gone h1" "p_remote_transmit_path (hw_path h1) < 0"
    using d view_fields [OF flush_view] by (simp_all add: h1_def halted_def tbv_path_rings_started_def)
  define h2 where "h2 = destroy_rx env h1"
  have h2: "halted gone h2" "hw_rx_ring h2 = None" "\<not> hw_rx_frames h2" "p_remote_transmit_path (hw_path h2) < 0"
    using destroy_rx_result [OF h1(1) assms(2)] h1(2) by (simp_all add: h2_def)
  define h3 where "h3 = (if p_local_transmit_path (hw_path h2) \<ge> 0
        then on_path (\<lambda>path. path\<lparr>p_local_transmit_path := - 1\<rparr>)
               (hw_emit [Release (Out_hop (p_local_transmit_path (hw_path h2)))] h2) else h2)"
  have "accounted gone h3" using flag_release_accounted(3) [of gone h2] h2(1) by (simp add: h3_def halted_def)
  then have h3: "halted gone h3" "hw_rx_ring h3 = None" "\<not> hw_rx_frames h3"
      "p_remote_transmit_path (hw_path h3) < 0" "p_local_transmit_path (hw_path h3) < 0"
    using h2 by (auto simp: h3_def halted_def tbv_path_rings_started_def)
  define h4 where "h4 = destroy_tx env h3"
  have h4: "halted gone h4" "hw_tx_ring h4 = None" "\<not> hw_tx_frames h4" "hw_rx_ring h4 = None" "\<not> hw_rx_frames h4"
      "p_remote_transmit_path (hw_path h4) < 0" "p_local_transmit_path (hw_path h4) < 0"
    using destroy_tx_result [OF h3(1) assms(2) h3(2,3)] h3(4,5) by (simp_all add: h4_def)
  define h5 where "h5 = tbv_path_free_control_packets (tbv_path_free_data_packets h4)"
  have a5: "accounted gone h5" unfolding h5_def by (intro free_control_accounted free_data_accounted h4(1))
  define h6 where "h6 = tbv_path_destroy_tx_wq (if hw_tx_trace h5
      then (hw_emit [Release Tx_trace] h5)\<lparr>hw_tx_trace := False\<rparr> else h5)"
  have a6: "accounted gone h6" unfolding h6_def by (intro flag_release_accounted(1,2) a5)
  have e: "hw' = on_path (\<lambda>path. path\<lparr>p_state := TBV_PATH_STOPPED\<rparr>) h6"
    by (simp add: hw'_def tbv_path_destroy_def Let_def h6_def h5_def h4_def h3_def h2_def h1_def)
  have i6: "idle_rings h6" "\<not> hw_tx_trace h6" "\<not> hw_tx_wq h6" "\<not> tbv_path_rings_started (hw_path h6)"
    using h4 by (auto simp: h6_def h5_def idle_rings_def halted_def tbv_path_free_control_packets_def
        tbv_path_free_data_packets_def tbv_path_destroy_tx_wq_def tbv_path_rings_started_def)
  show "accounted gone hw'" unfolding e using i6 by (intro accounted_same [OF a6]) (simp_all add: acct_simps)
  show "idle_rings hw'" "p_state (hw_path hw') = TBV_PATH_STOPPED"
    using i6(1) by (simp_all add: e idle_rings_def)
  show "owned hw' = {#}" using i6 by (simp add: e acct_simps idle_rings_def)
qed

section \<open>The life of a path\<close>

text \<open>
  A path as \<open>tbv_path_init\<close> leaves it, and what may follow: the operations in any order, with
  any answers of the kernel, and any traffic between them. Rings are allocated on a path whose
  rings were never stopped: the only caller allocates them once, on a new path.
\<close>

definition fresh_hw :: "tbv_path \<Rightarrow> tb_ring ptr list \<Rightarrow> path_hw" where
  "fresh_hw path thr =
     \<lparr>hw_path = path, hw_tx_ring = None, hw_rx_ring = None, hw_tx_frames = False, hw_rx_frames = False,
      hw_tx_control_packets = False, hw_tx_control_packet_count = 0, hw_tx_data_packets = False,
      hw_tx_data_packet_count = 0, hw_tx_trace = False, hw_tx_wq = False, hw_tx_poll_enabled = False,
      hw_rx_supp_poll_enabled = False, hw_rings_stopped = False, hw_thr_rings = thr, hw_log = []\<rparr>"

text \<open>
  When \<open>gone\<close> is false, the controller stays and the DMA devices are ready throughout.
\<close>

inductive path_life :: "bool \<Rightarrow> path_hw \<Rightarrow> bool" for gone where
  life_init: "path_life gone (fresh_hw (tbv_path_init cfg backend) thr)"
| life_alloc: "path_life gone hw \<Longrightarrow> env_ok gone env \<Longrightarrow> \<not> hw_rings_stopped hw
    \<Longrightarrow> path_life gone (snd (tbv_path_alloc_rings env req hw))"
| life_start: "path_life gone hw \<Longrightarrow> path_life gone (snd (tbv_path_start_rings post hw))"
| life_enable: "path_life gone hw \<Longrightarrow> n \<ge> 0 \<Longrightarrow> path_life gone (snd (tbv_path_enable_tunnel env alloc enable n hw))"
| life_disable: "path_life gone hw \<Longrightarrow> path_life gone (snd (tbv_path_disable_tunnel disable hw))"
| life_barrier: "path_life gone hw \<Longrightarrow> gone \<or> \<not> se_going_away senv
    \<Longrightarrow> path_life gone (snd (tbv_path_ring_barrier senv restart hw))"
| life_traffic: "path_life gone hw \<Longrightarrow> hw_view path = hw_view (hw_path hw) \<Longrightarrow> path_life gone (hw\<lparr>hw_path := path\<rparr>)"
| life_destroy: "path_life gone hw \<Longrightarrow> env_ok gone env \<Longrightarrow> gone \<or> \<not> se_going_away senv
    \<Longrightarrow> path_life gone (tbv_path_destroy env senv disable hw)"

lemma alloc_rings_stopped:
  "hw_rings_stopped (snd (tbv_path_alloc_rings env req hw)) = hw_rings_stopped hw"
proof -
  have fr: "hw_rings_stopped (tbv_path_free_frames env tx h) = hw_rings_stopped h" for tx h
    by (simp add: tbv_path_free_frames_def Let_def)
  have fc: "hw_rings_stopped (tbv_path_free_control_packets h) = hw_rings_stopped h" for h
    by (simp add: tbv_path_free_control_packets_def)
  have af: "hw_rings_stopped h' = hw_rings_stopped h" if "tbv_path_alloc_frames env tx h = (r, h')" for tx h r h'
    using alloc_frames_effect [where gone = True, OF that] by (auto split: if_splits)
  have ad: "hw_rings_stopped h' = hw_rings_stopped h" if "alloc_data_bufs env b g is h = (r, h')" for b g "is" h r h'
    using alloc_data_bufs_effect [where gone = True, OF that] by auto
  have th: "hw_rings_stopped h' = hw_rings_stopped h"
    if "tbv_path_configure_ring_throttling env tx rx h = (r, h')" for tx rx h r h'
    using that
    by (auto simp: tbv_path_configure_ring_throttling_def tbv_path_ring_throttling_direct_def tbv_thr_add_def
        Let_def split: option.splits if_splits sum.splits prod.splits)
  have er: "hw_rings_stopped (err_rx_ring tx rx h) = hw_rings_stopped h"
      "hw_rings_stopped (err_out_hop tx h) = hw_rings_stopped h"
      "hw_rings_stopped (err_tx_ring tx h) = hw_rings_stopped h" "hw_rings_stopped (err_in_hop h) = hw_rings_stopped h"
    for tx rx h
    by (simp_all add: err_rx_ring_def err_out_hop_def err_tx_ring_def err_in_hop_def)
  have ap: "hw_rings_stopped (snd (alloc_pools env tx rx h)) = hw_rings_stopped h" for tx rx h
    by (auto simp: alloc_pools_def err_tx_frames_def err_rx_frames_def err_control_packets_def er fr fc
        tbv_path_alloc_control_packets_def tbv_path_alloc_data_packets_def Let_def
        dest!: af ad th split: sum.splits prod.splits option.splits)
  have pair: "hw_rings_stopped (snd (alloc_ring_pair env q h)) = hw_rings_stopped h" for q h
    by (auto simp: alloc_ring_pair_def Let_def er ap split: option.splits sum.splits)
  have hop: "hw_rings_stopped h' = hw_rings_stopped h" if "alloc_in_hop env h = (r, h')" for h r h'
    using that by (auto simp: alloc_in_hop_def Let_def split: if_splits sum.splits)
  have wq: "hw_rings_stopped (tbv_path_create_tx_wq env h) = hw_rings_stopped h" for h
    by (simp add: tbv_path_create_tx_wq_def)
  show ?thesis
    by (auto simp: tbv_path_alloc_rings_def Let_def pair wq dest!: hop split: sum.splits prod.splits)
qed

lemma path_life_ok: "path_life gone hw \<Longrightarrow> life_ok gone hw"
proof (induction rule: path_life.induct)
  case (life_init cfg backend thr)
  then show ?case
    by (simp add: fresh_hw_def life_ok_def life_wf_def idle_rings_def accounted_def acct_simps
        tbv_path_init_def tbv_path_init_common_def)
next
  case (life_alloc hw env req)
  obtain r hw' where a: "tbv_path_alloc_rings env req hw = (r, hw')" by fastforce
  show ?case
  proof (cases "p_state (hw_path hw) = TBV_PATH_NEW \<or> p_state (hw_path hw) = TBV_PATH_STOPPED")
    case True
    then have "stopped_clean gone hw"
      using life_alloc.IH
      by (auto simp: stopped_clean_def life_ok_def life_wf_def dormant_def tbv_path_rings_started_def)
    from alloc_rings_result [OF this life_alloc.hyps(2) a] show ?thesis
      using a alloc_rings_stopped [of env req hw] life_alloc.hyps(3)
      by (cases "is_ok r")
        (auto simp: life_ok_def life_wf_def stopped_clean_def dormant_def tbv_path_rings_started_def idle_rings_def
          full_rings_def split: tbv_path_state.splits)
  next
    case False
    then show ?thesis using life_alloc.IH by (simp add: tbv_path_alloc_rings_def)
  qed
next
  case (life_start hw post)
  then show ?case using start_rings_ok by (metis prod.collapse)
next
  case (life_enable hw n env alloc enable)
  then show ?case by (intro enable_tunnel_ok)
next
  case (life_disable hw disable)
  then show ?case by (intro disable_tunnel_ok)
next
  case (life_barrier hw senv restart)
  then show ?case by (intro barrier_ok)
next
  case (life_traffic hw path)
  have e: "hw\<lparr>hw_path := path\<rparr> = on_path (\<lambda>_. path) hw" by (simp add: on_path_def)
  have a: "accounted gone hw" using life_traffic.IH by (simp add: life_ok_def)
  note v = view_accounted [OF a, of "\<lambda>_. path", OF life_traffic.hyps(2)]
  show ?case
    unfolding e using life_traffic.IH v view_fields [OF life_traffic.hyps(2)]
    by (simp add: life_ok_def life_wf_def split: tbv_path_state.splits)
next
  case (life_destroy hw env senv disable)
  then show ?case
    using destroy_result [OF life_destroy.IH life_destroy.hyps(2,3), of disable]
    by (simp add: life_ok_def life_wf_def)
qed

section \<open>Theorems\<close>

text \<open>
  C7: A path never loses, doubly releases or frees too early anything it takes from the
  kernel. Take any life of a path (allocation of rings that were not stopped before, with hop identifiers that are not negative, start, tunnel, barrier, traffic and
  destruction in any order, with any answers of the kernel). The log of its calls never releases what is
  not held and never frees a ring that runs, and what is held at any time is what the fields of the
  path say; an allocation that fails leaves no ring, hop or pool behind; and a destruction
  releases everything. If the controller may be going away or DMA devices may be missing (\<open>gone\<close>), a ring that
  could not be stopped and a mapping that could not be removed count as abandoned, and nothing else may be; if not,
  nothing is abandoned.
\<close>

theorem path_resources_balanced:
  assumes "path_life gone hw" and "env_ok gone env" and "gone \<or> \<not> se_going_away senv"
  shows "ledger gone {#} (hw_log hw) = Some (owned hw)
    \<and> ledger gone {#} (hw_log (tbv_path_destroy env senv disable hw)) = Some {#}
    \<and> (dormant (hw_path hw) \<and> \<not> is_ok (fst (tbv_path_alloc_rings env req hw)) \<longrightarrow>
         idle_rings (snd (tbv_path_alloc_rings env req hw)))"
proof (intro conjI impI)
  have ok: "life_ok gone hw" by (rule path_life_ok [OF assms(1)])
  then show "ledger gone {#} (hw_log hw) = Some (owned hw)" by (simp add: life_ok_def accounted_def)
  show "ledger gone {#} (hw_log (tbv_path_destroy env senv disable hw)) = Some {#}"
    using destroy_result(1,3) [OF ok assms(2,3), of disable] by (simp add: accounted_def)
  assume d: "dormant (hw_path hw) \<and> \<not> is_ok (fst (tbv_path_alloc_rings env req hw))"
  then have "stopped_clean gone hw"
    using ok by (auto simp: stopped_clean_def dormant_def life_ok_def life_wf_def tbv_path_rings_started_def
        split: tbv_path_state.splits)
  then show "idle_rings (snd (tbv_path_alloc_rings env req hw))"
    using alloc_rings_result [OF _ assms(2), of hw req "fst (tbv_path_alloc_rings env req hw)"
        "snd (tbv_path_alloc_rings env req hw)"] d by (simp add: stopped_clean_def)
qed

text \<open>
  A native path with rings of three frames, on a machine without \<open>tb_ring_throttling\<close> where the
  direct programming of the throttle is requested.
\<close>

definition small_path :: tbv_path where
  "small_path = tbv_path_init
     ((tbv_path_default_config False False False TBV_BACKEND_NATIVE)\<lparr>pc_tx_ring_size := 3, pc_rx_ring_size := 3\<rparr>)
     (Some TBV_BACKEND_NATIVE)"

definition demo_ring :: "bool \<Rightarrow> tb_ring" where
  "demo_ring tx = \<lparr>rg_addr = (if tx then 10 else 20), rg_hop = 1, rg_is_tx = tx,
     rg_vector = (if tx then 0 else 1), rg_iobase = True\<rparr>"

definition demo_life_env :: life_env where
  "demo_life_env =
     \<lparr>le_txtrace = True, le_tx_worker_cpu = - 1, le_tx_worker_dedicated = False, le_wq = True,
      le_alloc_in_hopid = Inr, le_alloc_out_hopid = (\<lambda>_. Inr 8),
      le_ring_alloc_tx = Some (demo_ring True), le_ring_alloc_rx = Some (demo_ring False),
      le_ring_throttling = None, le_nhi_throttle_direct = True, le_nhi_interrupt_throttle_ns = 0,
      le_dma_ready = (\<lambda>_. True), le_frames = (\<lambda>_. True), le_frame_buf = (\<lambda>_ _. True),
      le_frame_map = (\<lambda>_ _. True), le_control_packets = Some 1000, le_data_packets = Some 2000,
      le_data_buf = (\<lambda>_. True), le_tx_progress_poll = - 1, le_rx_supp_poll = - 1\<rparr>"

definition demo_stop_env :: stop_env where
  "demo_stop_env = \<lparr>se_tx = \<lparr>e_native_tx_max_inflight = 32, e_ring_tx = (\<lambda>_. Inr ())\<rparr>, se_reaped = 0,
     se_going_away = False, se_rx_posted = 3, se_post_rx = (\<lambda>_. Inr ())\<rparr>"

lemmas life_eval = small_path_def demo_ring_def demo_life_env_def demo_stop_env_def fresh_hw_def
  tbv_path_init_def tbv_path_init_common_def tbv_path_default_config_def tbv_path_alloc_rings_def
  tbv_path_create_tx_wq_def alloc_in_hop_def alloc_ring_pair_def alloc_pools_def
  tbv_path_configure_ring_throttling_def tbv_thr_add_def tbv_path_alloc_frames_def
  err_rx_ring_def err_out_hop_def err_tx_ring_def err_in_hop_def unmap_events_def
  tbv_path_is_apple_def hw_emit_def on_path_def
  tbv_thr_program_def thr_selects_def div_round_up_u32_def
  tbv_path_alloc_control_packets_def tbv_path_alloc_data_packets_def

lemma three_frames: "[0..<3] = [0, 1, 2 :: nat]"
  by (simp add: upt_rec)

lemma sixteen_slots: "replicate 16 (None :: 'a option) = [None, None] @ replicate 14 None"
  by (simp add: numeral_eq_Suc)

lemma demo_env_ok: "env_ok gone demo_life_env"
  by (simp add: env_ok_def demo_life_env_def)

lemma demo_gone_ok: "env_ok True (demo_life_env\<lparr>le_dma_ready := \<lambda>_. False\<rparr>)"
  by (simp add: env_ok_def demo_life_env_def)

lemma demo_started:
  defines "hw \<equiv> snd (tbv_path_start_rings (\<lambda>_. Inr ())
    (snd (tbv_path_alloc_rings demo_life_env (- 1) (fresh_hw small_path (replicate 16 None)))))"
  shows "path_life gone hw" and "hw_log hw \<noteq> []"
proof -
  let ?a = "snd (tbv_path_alloc_rings demo_life_env (- 1) (fresh_hw small_path (replicate 16 None)))"
  have "path_life gone ?a"
    unfolding small_path_def
    by (intro life_alloc life_init demo_env_ok) (simp add: fresh_hw_def)
  then show "path_life gone hw" unfolding hw_def by (rule life_start)
  have "hw_log ?a \<noteq> []" by (simp add: life_eval Let_def three_frames sixteen_slots)
  then show "hw_log hw \<noteq> []" by (simp add: hw_def tbv_path_start_rings_def)
qed

theorem path_resources_balanced_witness:
  "let hw = snd (tbv_path_start_rings (\<lambda>_. Inr ())
         (snd (tbv_path_alloc_rings demo_life_env (- 1) (fresh_hw small_path (replicate 16 None)))))
   in hw_log hw \<noteq> [] \<and> ledger False {#} (hw_log hw) = Some (owned hw)
      \<and> ledger False {#} (hw_log (tbv_path_destroy demo_life_env demo_stop_env (Inr ()) hw)) = Some {#}
      \<and> ledger True {#} (hw_log (tbv_path_destroy (demo_life_env\<lparr>le_dma_ready := \<lambda>_. False\<rparr>)
           (demo_stop_env\<lparr>se_going_away := True\<rparr>) (Inr ()) hw)) = Some {#}"
  using path_resources_balanced [OF demo_started(1) [where gone = False] demo_env_ok,
      where senv = demo_stop_env and disable = "Inr ()"]
    path_resources_balanced [OF demo_started(1) demo_gone_ok,
      where senv = "demo_stop_env\<lparr>se_going_away := True\<rparr>" and disable = "Inr ()"]
    demo_started(2) by (simp add: Let_def demo_stop_env_def)

text \<open>
  Why rings may not be allocated again once they were stopped. The flag \<open>rings_stopped\<close> is not cleared by an
  allocation, nor by the start that follows, so that a later destruction stops nothing and frees running rings.
\<close>

lemma second_life_is_never_stopped:
  assumes "hw_rings_stopped hw" and "tbv_path_alloc_rings env req hw = (Inr (), h1)"
    and "tbv_path_start_rings post h1 = (Inr (), h2)"
  shows "tbv_path_rings_started (hw_path h2) \<and> hw_rings_stopped h2 \<and> hw_log (destroy_halt senv h2) = hw_log h2"
  using assms alloc_rings_stopped [of env req hw]
  by (auto simp: tbv_path_start_rings_def destroy_halt_def tbv_path_rings_started_def split: if_splits)

text \<open>
  A failed allocation leaves two traces behind. When the buffer of the third transmit frame
  cannot be allocated, the rings are freed (the ledger is empty but for the trace buffer of the
  path), yet both stay in the table \<open>tbv_thr_rings\<close>, so that the next write of the module
  parameter programs, and reads through, a freed ring; and the list of free transmit frames
  keeps the two frames whose array was freed.
\<close>

theorem failed_alloc_leaves_traces:
  "let env = demo_life_env\<lparr>le_frame_buf := (\<lambda>tx i. \<not> (tx \<and> i = 2))\<rparr>;
       (r, hw) = tbv_path_alloc_rings env (- 1) (fresh_hw small_path (replicate 16 None));
       (n, hw') = tbv_thr_program True 1000 hw
   in r = Inl ENOMEM
      \<and> ledger gone {#} (hw_log hw) = Some {#Tx_trace#}
      \<and> hw_tx_ring hw = None \<and> hw_rx_ring hw = None
      \<and> hw_thr_rings hw = [Some (demo_ring True), Some (demo_ring False)] @ replicate 14 None
      \<and> n = 1 \<and> last (hw_log hw') = Throttle 10 0 4
      \<and> p_tx_frame_count (hw_path hw) = 0 \<and> p_tx_free (hw_path hw) = [0, 1]"
  by (simp add: life_eval Let_def three_frames sixteen_slots)

end
