(* ===== verification/Path_Quiesce.thy ===== *)
theory Path_Quiesce
  imports Path_Ledger
begin

text \<open>
  The end of transmission on a path: \<open>tbv_path_drain_tx\<close>, which waits until every descriptor has
  retired, and \<open>tbv_path_ring_barrier\<close>, which makes the ring give them back. Both are runs of the
  system of \<open>Path_Run\<close>, so what holds of every run holds of them.
\<close>

section \<open>Retirements as runs\<close>

lemma retire_fields:
  "p_tx_scheduling (retire_locked d canceled path) = p_tx_scheduling path"
  "p_ring (retire_locked d canceled path) = remove1 d (p_ring path)"
  by (cases d; cases "fst d"; simp add: retire_locked_def tx_complete_locked_def zcopy_tx_complete_locked_def
      Let_def split_beta tbv_path_tx_retire_one_def)+

lemma retire_ring: "p_ring path = d # ds \<Longrightarrow> p_ring (retire_locked d canceled path) = ds"
  by (simp add: retire_fields)

text \<open>While the scheduler holds a packet, a second call of it returns at once.\<close>

lemma schedule_run:
  assumes "hand \<noteq> None \<Longrightarrow> p_tx_scheduling path"
  shows "\<exists>labels. tx_run (e_native_tx_max_inflight env) labels (path, hand)
     = (tbv_path_schedule_tx env path, hand)"
proof (cases hand)
  case None
  then show ?thesis using schedule_tx_run [of env path] by simp
next
  case (Some h)
  then have "tbv_path_schedule_tx env path = path" using assms by (simp add: tbv_path_schedule_tx_def)
  then show ?thesis by (intro exI [of _ "[]"]) simp
qed

lemma retire_schedule_run:
  assumes "hand \<noteq> None \<Longrightarrow> p_tx_scheduling path" and "p_ring path = d # ds"
  shows "\<exists>labels. tx_run (e_native_tx_max_inflight env) labels (path, hand)
     = (tbv_path_schedule_tx env (retire_locked d canceled path), hand)"
proof -
  obtain labels where "tx_run (e_native_tx_max_inflight env) labels (retire_locked d canceled path, hand)
      = (tbv_path_schedule_tx env (retire_locked d canceled path), hand)"
    using schedule_run [of hand "retire_locked d canceled path" env] assms(1) by (auto simp: retire_fields)
  then show ?thesis
    using assms(2) by (intro exI [of _ "Retire 0 canceled # labels"]) simp
qed

lemma schedule_keeps_scheduling: "p_tx_scheduling path \<Longrightarrow> p_tx_scheduling (tbv_path_schedule_tx env path)"
  by (simp add: tbv_path_schedule_tx_def)

lemma reap_run:
  assumes "hand \<noteq> None \<Longrightarrow> p_tx_scheduling path"
  shows "\<exists>labels. tx_run (e_native_tx_max_inflight env) labels (path, hand)
     = (tbv_path_reap_tx env n path, hand)"
  using assms
proof (induction n arbitrary: path)
  case 0
  then show ?case by (intro exI [of _ "[]"]) simp
next
  case (Suc n)
  show ?case
  proof (cases "p_ring path")
    case Nil
    then show ?thesis by (intro exI [of _ "[]"]) simp
  next
    case (Cons d ds)
    let ?p = "tbv_path_schedule_tx env (retire_locked d False path)"
    obtain ls where 1: "tx_run (e_native_tx_max_inflight env) ls (path, hand) = (?p, hand)"
      using retire_schedule_run [OF Suc.prems Cons] by blast
    obtain ls' where 2: "tx_run (e_native_tx_max_inflight env) ls' (?p, hand) = (tbv_path_reap_tx env n ?p, hand)"
      using Suc.IH [of ?p] Suc.prems schedule_keeps_scheduling by (auto simp: retire_fields)
    show ?thesis using Cons 1 2 by (intro exI [of _ "ls @ ls'"]) (simp add: tx_run_append)
  qed
qed

text \<open>A stopped ring takes nothing.\<close>

lemma refused_ring [simp]: "p_ring (tx_refused e path h) = p_ring path"
  by (simp add: tx_refused_def Let_def split_beta split: option.splits)

lemma pick_ring: "tx_pick n path = (path', h) \<Longrightarrow> p_ring path' = p_ring path"
  by (cases h) (auto elim!: tx_pick_Some simp: tx_take_eq,
    auto simp: tx_pick_def Let_def map_prod_def split: option.splits prod.splits if_splits)

lemma stopped_schedule_ring [simp]: "p_ring (tbv_path_schedule_tx (stopped_env env) path) = p_ring path"
proof -
  have "p_ring (schedule_loop (stopped_env env) path) = p_ring path" for path
    by (subst schedule_loop.simps)
      (auto simp: stopped_env_def dest: pick_ring split: option.splits prod.splits)
  then show ?thesis by (simp add: tbv_path_schedule_tx_def)
qed

lemma stopped_env_limit [simp]: "e_native_tx_max_inflight (stopped_env env) = e_native_tx_max_inflight env"
  by (simp add: stopped_env_def)

lemma stop_retire_run:
  assumes "hand \<noteq> None \<Longrightarrow> p_tx_scheduling path" and "p_ring path = ds"
  shows "\<exists>labels. tx_run (e_native_tx_max_inflight env) labels (path, hand)
     = (stop_retire env ds path, hand) \<and> p_ring (stop_retire env ds path) = []"
  using assms
proof (induction ds arbitrary: path)
  case Nil
  then show ?case by (intro exI [of _ "[]"]) simp
next
  case (Cons d ds)
  let ?p = "tbv_path_schedule_tx (stopped_env env) (retire_locked d True path)"
  obtain ls where 1: "tx_run (e_native_tx_max_inflight env) ls (path, hand) = (?p, hand)"
    using retire_schedule_run [of hand path d ds "stopped_env env" True] Cons.prems by auto
  have "hand \<noteq> None \<Longrightarrow> p_tx_scheduling ?p"
    using Cons.prems(1) schedule_keeps_scheduling by (auto simp: retire_fields)
  then obtain ls' where 2: "tx_run (e_native_tx_max_inflight env) ls' (?p, hand) = (stop_retire env ds ?p, hand)"
    and e: "p_ring (stop_retire env ds ?p) = []"
    using Cons.IH [of ?p] retire_ring [OF Cons.prems(2)] by auto
  show ?case
    using 1 2 e by (intro exI [of _ "ls @ ls'"]) (simp add: tx_run_append)
qed

section \<open>Draining\<close>

lemma drain_run:
  assumes "queue_ok sys"
  shows "\<exists>labels. tx_run (e_native_tx_max_inflight env) labels sys = snd (tbv_path_drain_tx env slices n sys)
    \<and> (fst (tbv_path_drain_tx env slices n sys) = Inr () \<longrightarrow>
         tbv_path_tx_retired (fst (snd (tbv_path_drain_tx env slices n sys))))"
  using assms
proof (induction slices arbitrary: sys)
  case Nil
  obtain path hand where s: "sys = (path, hand)" by fastforce
  have "hand \<noteq> None \<Longrightarrow> p_tx_scheduling path" using Nil s by (simp add: queue_ok_def)
  then obtain ls where "tx_run (e_native_tx_max_inflight env) ls (path, hand) = (tbv_path_reap_tx env n path, hand)"
    using reap_run by blast
  then show ?case using s by (intro exI [of _ ls]) (simp add: Let_def)
next
  case (Cons slice slices)
  obtain path hand where s: "sys = (path, hand)" by fastforce
  obtain m steps where sl: "slice = (m, steps)" by fastforce
  have "hand \<noteq> None \<Longrightarrow> p_tx_scheduling path" using Cons.prems s by (simp add: queue_ok_def)
  then obtain ls where 1: "tx_run (e_native_tx_max_inflight env) ls (path, hand) = (tbv_path_reap_tx env m path, hand)"
    using reap_run by blast
  let ?sys = "tx_run (e_native_tx_max_inflight env) steps (tbv_path_reap_tx env m path, hand)"
  show ?case
  proof (cases "tbv_path_tx_retired (tbv_path_reap_tx env m path)")
    case True
    then show ?thesis using s sl 1 by (intro exI [of _ ls]) (simp add: Let_def)
  next
    case False
    have "queue_ok ?sys"
      unfolding 1 [symmetric] tx_run_append [symmetric] using Cons.prems s
      by (intro tx_run_invariant [where P = queue_ok]) (auto intro: queue_ok_step)
    from Cons.IH [OF this] obtain ls' where
      2: "tx_run (e_native_tx_max_inflight env) ls' ?sys = snd (tbv_path_drain_tx env slices n ?sys)"
      and 3: "fst (tbv_path_drain_tx env slices n ?sys) = Inr ()
         \<longrightarrow> tbv_path_tx_retired (fst (snd (tbv_path_drain_tx env slices n ?sys)))" by blast
    then show ?thesis
      using s sl 1 False by (intro exI [of _ "ls @ steps @ ls'"]) (simp add: Let_def tx_run_append)
  qed
qed

lemma nothing_held_callbacks:
  assumes "conserved (path, hand)" and "held (path, hand) = []"
  shows "mset (map (\<lambda>(d, dc, st). (d, dc)) (calls (p_log path)))
           = mset (concat (map (callback \<circ> key) (enqueued (p_log path))))"
proof -
  have "mset (map key (enqueued (p_log path))) = mset (map key (map fst (released (p_log path))))"
    using assms by (simp add: conserved_def comp_def image_mset.compositionality)
  then have "mset (concat (map (callback \<circ> key) (enqueued (p_log path))))
      = mset (concat (map (callback \<circ> key) (map fst (released (p_log path)))))"
    by (rule mset_concat_callback)
  moreover have "map (\<lambda>(d, dc, st). (d, dc)) (calls (p_log path))
      = concat (map (callback \<circ> key) (map fst (released (p_log path))))"
    using assms(1) by (simp add: conserved_def map_concat owed_callback comp_def)
  ultimately show ?thesis by simp
qed

text \<open>
  A drain that reports success has drained. Whatever the other threads do between its
  polls, when \<open>tbv_path_drain_tx\<close> returns 0 the ring owns no descriptor, the scheduler holds no
  packet, both queues are empty, and each packet that ever entered a queue has had its
  completion callback run exactly once. (The counter of descriptors has 32 bits, the ring far
  fewer entries.)
\<close>

theorem drain_tx_sound:
  assumes "idle_path path" and "tx_run (e_native_tx_max_inflight env) labels (path, None) = sys"
    and "tbv_path_drain_tx env slices n sys = (Inr (), (path', hand'))"
    and "length (p_ring path') < 4294967295"
  shows "p_ring path' = [] \<and> hand' = None \<and> p_tx_data_queue path' = [] \<and> p_tx_control_queue path' = []
         \<and> mset (map (\<lambda>(d, dc, st). (d, dc)) (calls (p_log path')))
           = mset (concat (map (callback \<circ> key) (enqueued (p_log path'))))"
proof -
  have "queue_ok sys" using idle_run(1) [OF assms(1)] assms(2) by blast
  then obtain ls where l: "tx_run (e_native_tx_max_inflight env) ls sys = (path', hand')"
    and r: "tbv_path_tx_retired path'"
    using drain_run [of sys env slices n] assms(3) by auto
  have c: "conserved (path', hand')"
    using idle_run(2) [OF assms(1), of "e_native_tx_max_inflight env" "labels @ ls"] assms(2) l
    by (simp add: tx_run_append)
  then have h: "held (path', hand') = []" using r assms(4) by (rule retired_holds_nothing)
  then show ?thesis
    using nothing_held_callbacks [OF c h] by (cases hand') (simp_all add: held_def)
qed

section \<open>The barrier\<close>

lemma ring_stop_rx_fields [simp]:
  "conserved (ring_stop_rx n path, hand) = conserved (path, hand)"
  "p_ring (ring_stop_rx n path) = p_ring path"
  by (simp_all add: ring_stop_rx_def conserved_def held_def)

lemma flush_conserved:
  assumes "conserved (path, None)" and "queue_ok (path, None)" and "p_ring path = []"
  shows "conserved (tbv_path_flush_tx_queue status path, None)"
    and "held (tbv_path_flush_tx_queue status path, None) = []"
proof -
  let ?p = "tbv_path_cancel_queued_tx_status status path"
  have "conserved (tx_step 0 (Cancel_queued status) (path, None))"
    by (rule conserved_step [OF assms(1)]) (use assms(2) in simp)
  then have "conserved (?p, None)" by simp
  then show "conserved (tbv_path_flush_tx_queue status path, None)"
    by (simp add: tbv_path_flush_tx_queue_def conserved_def held_def)
  show "held (tbv_path_flush_tx_queue status path, None) = []"
    using assms(3)
    by (simp add: tbv_path_flush_tx_queue_def tbv_path_cancel_queued_tx_status_def held_def clear_raw_stream_def Let_def)
qed

text \<open>When the barrier stops the rings, and when their descriptors come back.\<close>

definition stops_rings :: "path_hw \<Rightarrow> bool" where
  "stops_rings hw \<longleftrightarrow> tbv_path_rings_started (hw_path hw) \<and> hw_tx_ring hw \<noteq> None \<and> hw_rx_ring hw \<noteq> None
     \<and> \<not> hw_rings_stopped hw"

lemma barrier_run:
  assumes "queue_ok (hw_path hw, hand)" and "tbv_path_ring_barrier senv False hw = (r, hw')"
  shows "\<exists>labels path n. tx_run (e_native_tx_max_inflight (se_tx senv)) labels (hw_path hw, hand) = (path, hand)
    \<and> hw_path hw' = ring_stop_rx n path \<and> r = (if p_tx_inflight path \<noteq> 0 then Inl EIO else Inr ())
    \<and> (stops_rings hw \<and> \<not> se_going_away senv \<longrightarrow> p_ring path = [])"
proof (cases "stops_rings hw")
  case False
  then have "hw_path hw' = hw_path hw \<and> r = (if p_tx_inflight (hw_path hw) \<noteq> 0 then Inl EIO else Inr ())"
    using assms(2) by (auto simp: tbv_path_ring_barrier_def stops_rings_def Let_def split: if_splits)
  then show ?thesis
    using False by (intro exI [of _ "[]"] exI [of _ "hw_path hw"] exI [of _ 0]) (simp add: ring_stop_rx_def)
next
  case True
  let ?env = "se_tx senv" and ?p1 = "tbv_path_reap_tx (se_tx senv) (se_reaped senv) (hw_path hw)"
  let ?p2 = "ring_stop_tx ?env (se_going_away senv) ?p1"
  have sch: "hand \<noteq> None \<Longrightarrow> p_tx_scheduling (hw_path hw)" using assms(1) by (simp add: queue_ok_def)
  obtain ls where 1: "tx_run (e_native_tx_max_inflight ?env) ls (hw_path hw, hand) = (?p1, hand)"
    using reap_run [OF sch] by blast
  have "queue_ok (?p1, hand)"
    unfolding 1 [symmetric] using assms(1) by (intro tx_run_invariant [where P = queue_ok]) (auto intro: queue_ok_step)
  then have "hand \<noteq> None \<Longrightarrow> p_tx_scheduling ?p1" by (simp add: queue_ok_def)
  then have "\<exists>ls'. tx_run (e_native_tx_max_inflight ?env) ls' (?p1, hand) = (?p2, hand)
      \<and> (\<not> se_going_away senv \<longrightarrow> p_ring ?p2 = [])"
    using stop_retire_run [OF _ refl, of hand ?p1 ?env]
    by (cases "se_going_away senv") (auto simp: ring_stop_tx_def intro: exI [of _ "[]"])
  then obtain ls' where 2: "tx_run (e_native_tx_max_inflight ?env) ls' (?p1, hand) = (?p2, hand)"
    and e: "\<not> se_going_away senv \<longrightarrow> p_ring ?p2 = []" by blast
  have "hw_path hw' = ring_stop_rx (se_rx_posted senv) ?p2"
      "r = (if p_tx_inflight ?p2 \<noteq> 0 then Inl EIO else Inr ())"
    using assms(2) True
    by (auto simp: tbv_path_ring_barrier_def stops_rings_def Let_def stop_pair_def ring_stop_rx_def split: if_splits)
  moreover have "tx_run (e_native_tx_max_inflight ?env) (ls @ ls') (hw_path hw, hand) = (?p2, hand)"
    using 1 2 by (simp add: tx_run_append)
  ultimately show ?thesis using e by blast
qed

text \<open>
  C6: The barrier reports success exactly when no transfer is left. On a path that started idle and carried any
  traffic, \<open>tbv_path_ring_barrier\<close> without restart returns 0 if and only if the ring owns no
  descriptor and no scheduler holds a packet, and \<open>-EIO\<close> otherwise. If it stops the rings (they were started and not
  stopped before) and the controller is not going away, the ring owns no descriptor afterwards. On success, the flush of
  the queues that follows in a destruction leaves each packet that ever entered a queue with its completion
  callback run exactly once. (The counter of descriptors has 32 bits, the ring far fewer entries.)
\<close>

theorem barrier_ends_all_transfers:
  assumes "idle_path path" and "tx_run (e_native_tx_max_inflight (se_tx senv)) labels (path, None) = (hw_path hw, hand)"
    and "tbv_path_ring_barrier senv False hw = (r, hw')" and "length (p_ring (hw_path hw')) < 4294967295"
  defines "path' \<equiv> tbv_path_flush_tx_queue (Some ECANCELED) (hw_path hw')"
  shows "r = (if p_ring (hw_path hw') = [] \<and> hand = None then Inr () else Inl EIO)
    \<and> (stops_rings hw \<and> \<not> se_going_away senv \<longrightarrow> p_ring (hw_path hw') = [])
    \<and> (r = Inr () \<longrightarrow> mset (map (\<lambda>(d, dc, st). (d, dc)) (calls (p_log path')))
      = mset (concat (map (callback \<circ> key) (enqueued (p_log path')))))"
proof -
  let ?n = "e_native_tx_max_inflight (se_tx senv)"
  have q: "queue_ok (hw_path hw, hand)" using idle_run(1) [OF assms(1), of ?n labels] assms(2) by simp
  obtain ls p n where l: "tx_run ?n ls (hw_path hw, hand) = (p, hand)"
    and h: "hw_path hw' = ring_stop_rx n p" and r: "r = (if p_tx_inflight p \<noteq> 0 then Inl EIO else Inr ())"
    and e: "stops_rings hw \<and> \<not> se_going_away senv \<longrightarrow> p_ring p = []"
    using barrier_run [OF q assms(3)] by blast
  have run: "tx_run ?n (labels @ ls) (path, None) = (p, hand)" using assms(2) l by (simp add: tx_run_append)
  have c: "conserved (p, hand)" "queue_ok (p, hand)"
    using idle_run(1,2) [OF assms(1), of ?n "labels @ ls"] run by simp_all
  have "p_tx_inflight p = 0 \<longleftrightarrow> length (p_ring p) + length (hand_packets hand) = 0"
  proof -
    have "length (hand_packets hand) \<le> 1" by (cases hand) simp_all
    then have "length (p_ring p) + length (hand_packets hand) < 4294967296" using assms(4) by (simp add: h)
    then have "unat (of_nat (length (p_ring p) + length (hand_packets hand)) :: u32)
        = length (p_ring p) + length (hand_packets hand)" by (simp only: unat_of_nat) simp
    moreover have "p_tx_inflight p = of_nat (length (p_ring p) + length (hand_packets hand))"
      using c(1) by (simp add: conserved_def)
    ultimately show ?thesis by (metis unat_eq_zero)
  qed
  then have z: "p_tx_inflight p = 0 \<longleftrightarrow> p_ring p = [] \<and> hand = None" by (cases hand) auto
  have "mset (map (\<lambda>(d, dc, st). (d, dc)) (calls (p_log path')))
      = mset (concat (map (callback \<circ> key) (enqueued (p_log path'))))" if "p_ring p = []" "hand = None"
  proof -
    have c': "conserved (hw_path hw', None)" "p_ring (hw_path hw') = []" using c that by (simp_all add: h)
    have q': "queue_ok (hw_path hw', None)" using c that by (simp add: h queue_ok_def ring_stop_rx_def hand_data_def)
    show ?thesis
      unfolding path'_def by (rule nothing_held_callbacks) (rule flush_conserved [OF c'(1) q' c'(2)])+
  qed
  then show ?thesis using r z e by (auto simp: h)
qed

text \<open>A path in use: one data packet on the ring, one waiting for credits.\<close>

definition busy_labels :: "tx_label list" where
  "busy_labels = [Put_data (demo_packet 100), Put_list [demo_packet 101, demo_packet 102], Enter, Pick, Ring None,
     Pick]"

definition busy_hw :: path_hw where
  "busy_hw = (fresh_hw (fst (tx_run 32 busy_labels (demo_path, None))) (replicate 16 None))
     \<lparr>hw_tx_ring := Some (demo_ring True), hw_rx_ring := Some (demo_ring False)\<rparr>"

lemma busy_facts:
  "tx_run 32 busy_labels (demo_path, None) = (hw_path busy_hw, None)"
  "tbv_path_rings_started (hw_path busy_hw)"
  "length (p_ring (hw_path busy_hw)) = 1" "length (p_tx_data_queue (hw_path busy_hw)) = 2"
  by (simp_all add: busy_hw_def busy_labels_def fresh_hw_def demo_eval tbv_path_rings_started_def)

theorem barrier_ends_all_transfers_witness:
  "let (r, hw) = tbv_path_ring_barrier demo_stop_env False busy_hw;
       path = tbv_path_flush_tx_queue (Some ECANCELED) (hw_path hw)
   in length (p_ring (hw_path busy_hw)) = 1 \<and> r = Inr () \<and> p_ring (hw_path hw) = []
      \<and> mset (map (\<lambda>(d, dc, st). (d, dc)) (calls (p_log path)))
        = mset (concat (map (callback \<circ> key) (enqueued (p_log path))))"
proof -
  have n: "e_native_tx_max_inflight (se_tx demo_stop_env) = 32" by (simp add: demo_stop_env_def)
  obtain r hw where b: "tbv_path_ring_barrier demo_stop_env False busy_hw = (r, hw)" by fastforce
  have run: "tx_run (e_native_tx_max_inflight (se_tx demo_stop_env)) busy_labels (demo_path, None)
      = (hw_path busy_hw, None)" unfolding n by (rule busy_facts(1))
  have s: "stops_rings busy_hw" using busy_facts(2) by (simp add: stops_rings_def busy_hw_def fresh_hw_def)
  have g: "\<not> se_going_away demo_stop_env" by (simp add: demo_stop_env_def)
  have "queue_ok (hw_path busy_hw, None)" using idle_run(1) [OF demo_idle, of 32 busy_labels] busy_facts(1) by simp
  from barrier_run [OF this b] have "p_ring (hw_path hw) = []" using s g by (auto simp: ring_stop_rx_def)
  then show ?thesis
    using barrier_ends_all_transfers [OF demo_idle run b] b busy_facts(3) by (simp add: Let_def)
qed

text \<open>The drain of a path whose last packet is retired by another thread during the wait.\<close>

definition drain_labels :: "tx_label list" where
  "drain_labels = [Put_data (demo_packet 100), Put_list [demo_packet 101, demo_packet 102], Enter, Pick, Ring None,
     Pick, Close, Cancel_queued (Some ECANCELED)]"

theorem drain_tx_sound_witness:
  "let env = \<lparr>e_native_tx_max_inflight = 32, e_ring_tx = (\<lambda>_. Inr ())\<rparr>;
       sys = tx_run 32 drain_labels (demo_path, None);
       (r, (path, hand)) = tbv_path_drain_tx env [(0, [Retire 0 False])] 0 sys
   in r = Inr () \<and> p_ring path = [] \<and> hand = None
      \<and> mset (map (\<lambda>(d, dc, st). (d, dc)) (calls (p_log path)))
        = mset (concat (map (callback \<circ> key) (enqueued (p_log path))))"
proof -
  let ?env = "\<lparr>e_native_tx_max_inflight = 32, e_ring_tx = (\<lambda>_. Inr ())\<rparr> :: tx_env"
  let ?sys = "tx_run 32 drain_labels (demo_path, None)"
  let ?d = "tbv_path_drain_tx ?env [(0, [Retire 0 False])] 0 ?sys"
  have s: "fst ?d = Inr ()" "p_ring (fst (snd ?d)) = []"
    by (simp_all add: drain_labels_def demo_eval tbv_path_cancel_queued_tx_status_def tbv_path_close_tx_def
        clear_raw_stream_def)
  have "?d = (Inr (), (fst (snd ?d), snd (snd ?d)))" using s(1) by (metis prod.collapse)
  from drain_tx_sound [OF demo_idle _ this, of drain_labels] show ?thesis
    using s by (simp add: Let_def split_beta)
qed

end
