(* ===== verification/Rail.thy ===== *)
theory Rail
  imports Path_Quiesce Links Hello "HOL-Library.Product_Lexorder"
begin

text \<open>
  Rails and their keys, \<^verbatim>\<open>src/kernel/rail.c\<close> and \<^verbatim>\<open>struct tbv_rail\<close>, \<^verbatim>\<open>struct tbv_peer\<close> and the
  topology part of \<^verbatim>\<open>struct tbv_state\<close> of \<^verbatim>\<open>src/kernel/tbv.h\<close>. A rail is one data path to a peer; a peer
  keeps its rails in a list ordered by key, and \<open>tbv_rail_key_cmp\<close> makes the keys a linear order of the
  library.
\<close>

section \<open>Keys\<close>

datatype tbv_rail_key =
  Rail_key (k_route: u64) (k_local_adapter: u32) (k_remote_adapter: u32) (k_path_id: u32)

definition tbv_rail_key_init :: "u64 \<Rightarrow> u32 \<Rightarrow> u32 \<Rightarrow> u32 \<Rightarrow> tbv_rail_key" where
  "tbv_rail_key_init route local_adapter remote_adapter path_id =
     Rail_key route local_adapter remote_adapter path_id"

definition tbv_rail_key_cmp :: "tbv_rail_key \<Rightarrow> tbv_rail_key \<Rightarrow> int" where
  "tbv_rail_key_cmp a b =
     (if k_route a < k_route b then - 1
      else if k_route a > k_route b then 1
      else if k_local_adapter a < k_local_adapter b then - 1
      else if k_local_adapter a > k_local_adapter b then 1
      else if k_remote_adapter a < k_remote_adapter b then - 1
      else if k_remote_adapter a > k_remote_adapter b then 1
      else if k_path_id a < k_path_id b then - 1
      else if k_path_id a > k_path_id b then 1
      else 0)"

text \<open>\<open>jhash2\<close> is the kernel's hash of an array of words.\<close>

definition tbv_rail_key_hash :: "(u32 list \<Rightarrow> u32 \<Rightarrow> u32) \<Rightarrow> tbv_rail_key \<Rightarrow> u32" where
  "tbv_rail_key_hash jhash2 k =
     jhash2 [ucast (k_route k), ucast (drop_bit 32 (k_route k)),
             k_local_adapter k XOR push_bit 16 (k_remote_adapter k), k_path_id k] 0"

definition key_tuple :: "tbv_rail_key \<Rightarrow> u64 \<times> u32 \<times> u32 \<times> u32" where
  "key_tuple k = (k_route k, k_local_adapter k, k_remote_adapter k, k_path_id k)"

lemma key_tuple_inj [simp]: "key_tuple a = key_tuple b \<longleftrightarrow> a = b"
  by (cases a; cases b) (simp add: key_tuple_def)

lemma cmp_less: "tbv_rail_key_cmp a b < 0 \<longleftrightarrow> key_tuple a < key_tuple b"
  by (auto simp: tbv_rail_key_cmp_def key_tuple_def less_prod_simp)

lemma cmp_zero: "tbv_rail_key_cmp a b = 0 \<longleftrightarrow> a = b"
  by (cases a; cases b) (auto simp: tbv_rail_key_cmp_def)

instantiation tbv_rail_key :: linorder
begin

definition less_eq_tbv_rail_key :: "tbv_rail_key \<Rightarrow> tbv_rail_key \<Rightarrow> bool" where
  "less_eq_tbv_rail_key a b \<longleftrightarrow> tbv_rail_key_cmp a b \<le> 0"

definition less_tbv_rail_key :: "tbv_rail_key \<Rightarrow> tbv_rail_key \<Rightarrow> bool" where
  "less_tbv_rail_key a b \<longleftrightarrow> tbv_rail_key_cmp a b < 0"

instance
proof
  have le: "a \<le> b \<longleftrightarrow> key_tuple a \<le> key_tuple b" for a b :: tbv_rail_key
    by (auto simp: less_eq_tbv_rail_key_def order_le_less cmp_less cmp_zero)
  fix x y z :: tbv_rail_key
  show "x < y \<longleftrightarrow> x \<le> y \<and> \<not> y \<le> x"
    unfolding le less_tbv_rail_key_def cmp_less by (rule less_le_not_le)
  show "x \<le> x" by (simp add: le)
  show "x \<le> y \<Longrightarrow> y \<le> z \<Longrightarrow> x \<le> z" unfolding le by (rule order_trans)
  show "x \<le> y \<Longrightarrow> y \<le> x \<Longrightarrow> x = y" unfolding le using key_tuple_inj order_antisym by blast
  show "x \<le> y \<or> y \<le> x" unfolding le by (rule linear)
qed

end

section \<open>Rails\<close>

datatype tbv_rail_bind_state =
    TBV_RAIL_UNBOUND | TBV_RAIL_BOUND | TBV_RAIL_QUIESCING | TBV_RAIL_QUARANTINED

record tbv_rail_bind =
  rb_state :: tbv_rail_bind_state
  rb_qp :: "nat ptr"
  rb_epoch :: u64
  rb_local_qpn :: u32
  rb_remote_qpn :: u32
  rb_remote_qpn_known :: bool
  rb_quiesce_count :: u64
  rb_ring_stops :: u64
  rb_bind_refused :: u64
  rb_last_teardown_error :: "errno ptr"
  rb_last_teardown_reason :: string
  rb_quarantine_rx_mark :: u64
  rb_quarantine_reason :: string
  rb_quarantine_epoch :: u64

definition tbv_rail_bind_init :: tbv_rail_bind where
  "tbv_rail_bind_init =
     \<lparr>rb_state = TBV_RAIL_UNBOUND, rb_qp = None, rb_epoch = 0, rb_local_qpn = 0, rb_remote_qpn = 0,
      rb_remote_qpn_known = False, rb_quiesce_count = 0, rb_ring_stops = 0, rb_bind_refused = 0,
      rb_last_teardown_error = None, rb_last_teardown_reason = ''none'', rb_quarantine_rx_mark = 0,
      rb_quarantine_reason = ''none'', rb_quarantine_epoch = 0\<rparr>"

definition tbv_rail_bind_state_name :: "tbv_rail_bind_state \<Rightarrow> string" where
  "tbv_rail_bind_state_name state =
     (case state of
        TBV_RAIL_UNBOUND \<Rightarrow> ''unbound''
      | TBV_RAIL_BOUND \<Rightarrow> ''bound''
      | TBV_RAIL_QUIESCING \<Rightarrow> ''quiescing''
      | TBV_RAIL_QUARANTINED \<Rightarrow> ''quarantined'')"

text \<open>
  A rail. \<open>ra_addr\<close> is its address; \<open>ra_work\<close> says that its delayed work is scheduled,
  \<open>ra_native_work_state\<close> that its pointer to the state is set, \<open>ra_ibdev\<close> is the device of the verbs
  layer that is published for it.
\<close>

record tbv_ibdev =
  ib_name :: string
  ib_backend :: tbv_backend_type
  ib_node_guid :: u64
  ib_netdev :: "string ptr"

record tbv_rail =
  ra_addr :: nat
  ra_native_work_state :: bool
  ra_key :: tbv_rail_key
  ra_hw :: path_hw
  ra_work :: bool
  ra_refcnt :: nat
  ra_refs_zero :: bool
  ra_bind :: tbv_rail_bind
  ra_ibdev :: "tbv_ibdev ptr"
  ra_rail_id :: u32
  ra_link_speed :: u32
  ra_link_width :: u32
  ra_remote_rail_id :: u32
  ra_remote_transmit_path :: int
  ra_remote_tx_hop :: int
  ra_remote_rx_hop :: int
  ra_native_attempts :: u32
  ra_native_tunnel_attempts :: u32
  ra_native_ready_attempts :: u32
  ra_native_last_error :: "errno ptr"
  ra_native_lane :: u32
  ra_active :: bool
  ra_removing :: bool
  ra_ibdev_register_failed :: bool
  ra_ibdev_register_deferred :: bool
  ra_native_negotiated :: bool
  ra_native_ready_sent :: bool
  ra_native_remote_ready :: bool
  ra_native_work_stop :: bool

abbreviation ra_path :: "tbv_rail \<Rightarrow> tbv_path" where "ra_path rail \<equiv> hw_path (ra_hw rail)"
abbreviation ra_path_state :: "tbv_rail \<Rightarrow> tbv_path_state" where
  "ra_path_state rail \<equiv> p_state (hw_path (ra_hw rail))"

text \<open>
  The XDomain connection of the kernel: what the code reads of it. \<open>xd_tb_index\<close> is the index of its
  domain, when it has one.
\<close>

record tb_xdomain =
  xd_addr :: nat
  xd_route :: u64
  xd_link :: u32
  xd_depth :: u32
  xd_remote_uuid :: "u8 list ptr"
  xd_vendor_name :: "string ptr"
  xd_link_speed :: u32
  xd_link_width :: u32
  xd_tb_index :: "int ptr"

record tbv_peer =
  pe_addr :: nat
  pe_refcnt :: nat
  pe_peer_id :: u32
  pe_backend :: tbv_backend_type
  pe_xd :: tb_xdomain
  pe_rails :: "tbv_rail list"
  pe_rail_ids :: "u32 list"
  pe_nr_rails :: u32

text \<open>
  The topology part of the state of the module. \<open>ts_log\<close> records the devices of the verbs layer
  that are registered and unregistered: the rail as it was, and whether its device appeared;
  \<open>ts_sent\<close> records the control requests sent, with the XDomain.
\<close>

record tbv_state =
  ts_cfg :: tbv_resolved_config
  ts_peers :: "tbv_peer list"
  ts_next_peer_id :: u32
  ts_allocate_rings :: bool
  ts_start_rings :: bool
  ts_negotiate_native :: bool
  ts_enable_tunnels :: bool
  ts_native_data :: bool
  ts_apple_data :: bool
  ts_services_registered :: bool
  ts_native_control_registered :: bool
  ts_native_control_source_aware :: bool
  ts_native_legacy_multicable_warned :: bool
  ts_apple_rails_wait_tbnet :: bool
  ts_apple_rails_pending :: bool
  ts_native_legacy_ambiguous_limited :: u64
  ts_register_verbs :: bool
  ts_verbs_registered :: bool
  ts_register_enabled :: bool
  ts_ibdev_netdev_nb_registered :: bool
  ts_log :: "(tbv_rail \<times> bool) list"
  ts_sent :: "(nat \<times> u8 list) list"

definition tbv_rail_data_ready :: "tbv_backend_type \<Rightarrow> tbv_rail \<Rightarrow> bool" where
  "tbv_rail_data_ready backend rail =
     (if ra_path_state rail \<noteq> TBV_PATH_TUNNEL_ENABLED then False
      else if backend \<noteq> TBV_BACKEND_NATIVE then True
      else ra_native_ready_sent rail \<and> ra_native_remote_ready rail)"

definition tbv_rail_apple_data_ready :: "tbv_rail \<Rightarrow> bool" where
  "tbv_rail_apple_data_ready rail \<longleftrightarrow> ra_path_state rail = TBV_PATH_TUNNEL_ENABLED"

definition tbv_rail_apple_service_ready :: "tbv_rail \<Rightarrow> bool" where
  "tbv_rail_apple_service_ready rail \<longleftrightarrow>
     ra_path_state rail = TBV_PATH_RING_STARTED \<or> ra_path_state rail = TBV_PATH_TUNNEL_ENABLED"

text \<open>The rails of a list ordered by key: the new one is put before the first larger one.\<close>

fun insert_rail :: "tbv_rail \<Rightarrow> tbv_rail list \<Rightarrow> tbv_rail list option" where
  "insert_rail rail [] = Some [rail]"
| "insert_rail rail (pos # rails) =
     (let cmp = tbv_rail_key_cmp (ra_key rail) (ra_key pos)
      in if cmp = 0 then None
         else if cmp < 0 then Some (rail # pos # rails)
         else map_option (Cons pos) (insert_rail rail rails))"

text \<open>
  On a list in strict order the loop is the library's ordered insertion, and it refuses exactly
  the keys that are present.
\<close>

lemma cmp_order:
  "tbv_rail_key_cmp a b = 0 \<longleftrightarrow> a = b" "tbv_rail_key_cmp a b < 0 \<longleftrightarrow> a < b"
  by (simp_all add: cmp_zero less_tbv_rail_key_def)

lemma insert_rail_None:
  assumes "sorted_wrt (<) (map ra_key rails)"
  shows "insert_rail rail rails = None \<longleftrightarrow> ra_key rail \<in> ra_key ` set rails"
  using assms by (induction rails) (auto simp: cmp_order Let_def)

lemma insert_rail_Some:
  assumes "sorted_wrt (<) (map ra_key rails)" and "insert_rail rail rails = Some rails'"
  shows "rails' = insort_key ra_key rail rails"
  using assms
proof (induction rails arbitrary: rails')
  case (Cons pos rails)
  then show ?case
    by (auto simp: cmp_order Let_def not_less split: if_splits)
qed simp

lemma insort_strict:
  assumes "sorted_wrt (<) (map ra_key rails)" and "ra_key rail \<notin> ra_key ` set rails"
  shows "sorted_wrt (<) (map ra_key (insort_key ra_key rail rails))"
  using assms strict_sorted_iff sorted_insort_key [of ra_key rail rails]
  by (simp add: strict_sorted_iff distinct_insort_key distinct_map) (metis distinct_insort_key distinct_map)

end
