(* ===== verification/Peer.thy ===== *)
theory Peer
  imports Rail
begin

text \<open>
  Peers and the registry of their rails, \<^verbatim>\<open>src/kernel/peer.c\<close>: creation and reuse of peers, the
  restrictions of the source-blind control mode, insertion of rails in key order, reference
  counts, and removal of a rail in two phases. A pointer to a peer or a rail is its address; a
  critical section is a function on the state. Allocation answers are arguments.
\<close>

section \<open>Operations\<close>

definition tbv_native_e2e_auto_enabled :: "(u32 ptr) ptr \<Rightarrow> bool" where
  "tbv_native_e2e_auto_enabled pci =
     (case pci of None \<Rightarrow> True | Some None \<Rightarrow> True | Some (Some vendor) \<Rightarrow> vendor \<noteq> 0x1022)"

text \<open>
  \<open>native_e2e\<close> is the module parameter; \<open>pci\<close> is the parent device of the domain when there is
  one, with its vendor when it is a PCI device.
\<close>

definition tbv_native_e2e_enabled :: "int \<Rightarrow> (u32 ptr) ptr \<Rightarrow> bool" where
  "tbv_native_e2e_enabled native_e2e pci =
     (if native_e2e \<ge> 0 then native_e2e > 0 else tbv_native_e2e_auto_enabled pci)"

definition tbv_peer_matches :: "tbv_peer \<Rightarrow> tbv_backend_type \<Rightarrow> tb_xdomain \<Rightarrow> bool" where
  "tbv_peer_matches peer backend xd \<longleftrightarrow> pe_backend peer = backend \<and> xd_addr (pe_xd peer) = xd_addr xd"

definition tbv_xdomain_same_remote_host :: "tb_xdomain ptr \<Rightarrow> tb_xdomain ptr \<Rightarrow> bool" where
  "tbv_xdomain_same_remote_host a b =
     (case (a, b) of
        (None, None) \<Rightarrow> True
      | (Some a, Some b) \<Rightarrow>
          if xd_addr a = xd_addr b then True
          else (case (xd_remote_uuid a, xd_remote_uuid b) of
                  (Some u, Some v) \<Rightarrow> u = v
                | _ \<Rightarrow> xd_route a = xd_route b \<and> xd_link a = xd_link b \<and> xd_depth a = xd_depth b)
      | _ \<Rightarrow> False)"

fun legacy_xdomain_allowed :: "tb_xdomain \<Rightarrow> tbv_peer list \<Rightarrow> bool" where
  "legacy_xdomain_allowed xd [] = True"
| "legacy_xdomain_allowed xd (pos # peers) =
     (if pe_backend pos \<noteq> TBV_BACKEND_NATIVE then legacy_xdomain_allowed xd peers
      else if xd_addr (pe_xd pos) = xd_addr xd then True
      else if \<not> tbv_xdomain_same_remote_host (Some (pe_xd pos)) (Some xd)
      then legacy_xdomain_allowed xd peers
      else False)"

definition tbv_native_legacy_xdomain_allowed_locked :: "tbv_state \<Rightarrow> tb_xdomain \<Rightarrow> bool" where
  "tbv_native_legacy_xdomain_allowed_locked state xd = legacy_xdomain_allowed xd (ts_peers state)"

definition tbv_native_legacy_rail_key_allowed_locked ::
  "tbv_state \<Rightarrow> nat \<Rightarrow> tbv_rail_key \<Rightarrow> bool" where
  "tbv_native_legacy_rail_key_allowed_locked state peer k \<longleftrightarrow>
     list_all (\<lambda>pos_peer. pe_backend pos_peer \<noteq> TBV_BACKEND_NATIVE \<or> pe_addr pos_peer = peer
                \<or> list_all (\<lambda>pos_rail. tbv_rail_key_cmp k (ra_key pos_rail) \<noteq> 0) (pe_rails pos_peer))
       (ts_peers state)"

definition count_legacy_limited :: "tbv_state \<Rightarrow> tbv_state" where
  "count_legacy_limited state =
     state\<lparr>ts_native_legacy_ambiguous_limited := ts_native_legacy_ambiguous_limited state + 1,
           ts_native_legacy_multicable_warned := True\<rparr>"

definition on_peer :: "nat \<Rightarrow> (tbv_peer \<Rightarrow> tbv_peer) \<Rightarrow> tbv_state \<Rightarrow> tbv_state" where
  "on_peer a f state =
     state\<lparr>ts_peers := map (\<lambda>peer. if pe_addr peer = a then f peer else peer) (ts_peers state)\<rparr>"

definition find_peer :: "nat \<Rightarrow> tbv_state \<Rightarrow> tbv_peer option" where
  "find_peer a state = find (\<lambda>peer. pe_addr peer = a) (ts_peers state)"

definition fresh_peer :: "nat \<Rightarrow> tbv_backend_type \<Rightarrow> tb_xdomain \<Rightarrow> u32 \<Rightarrow> tbv_peer" where
  "fresh_peer a backend xd peer_id =
     \<lparr>pe_addr = a, pe_refcnt = 1, pe_peer_id = peer_id, pe_backend = backend, pe_xd = xd, pe_rails = [],
      pe_rail_ids = [], pe_nr_rails = 0\<rparr>"

definition tbv_peer_get_or_create ::
  "nat ptr \<Rightarrow> tbv_backend_type \<Rightarrow> tb_xdomain \<Rightarrow> tbv_state \<Rightarrow> nat res \<times> tbv_state" where
  "tbv_peer_get_or_create alloc backend xd state =
     (if tbv_backend_get backend = None then (Inl EINVAL, state)
      else case alloc of
             None \<Rightarrow> (Inl ENOMEM, state)
           | Some a \<Rightarrow>
               (case find (\<lambda>pos. tbv_peer_matches pos backend xd) (ts_peers state) of
                  Some pos \<Rightarrow>
                    (Inr (pe_addr pos),
                     on_peer (pe_addr pos) (\<lambda>peer. peer\<lparr>pe_refcnt := pe_refcnt peer + 1\<rparr>) state)
                | None \<Rightarrow>
                    if backend = TBV_BACKEND_NATIVE \<and> \<not> ts_native_control_source_aware state
                       \<and> \<not> tbv_native_legacy_xdomain_allowed_locked state xd
                    then (Inl EBUSY, count_legacy_limited state)
                    else (Inr a, state\<lparr>ts_peers := ts_peers state
                                         @ [fresh_peer a backend xd (ts_next_peer_id state)],
                                       ts_next_peer_id := ts_next_peer_id state + 1\<rparr>)))"

definition tbv_peer_put :: "nat ptr \<Rightarrow> tbv_state \<Rightarrow> tbv_state" where
  "tbv_peer_put peer state =
     (case peer of
        None \<Rightarrow> state
      | Some a \<Rightarrow>
          (let state = on_peer a (\<lambda>peer. peer\<lparr>pe_refcnt := pe_refcnt peer - 1\<rparr>) state
           in state\<lparr>ts_peers := filter (\<lambda>peer. \<not> (pe_addr peer = a \<and> pe_refcnt peer = 0))
                                 (ts_peers state)\<rparr>))"

text \<open>
  What \<open>tbv_peer_add_rail\<close> reads besides the state: the address of the new rail, the answer of
  \<open>ida_alloc\<close> for the numbers in use, and the module parameters of the path.
\<close>

record rail_env =
  re_alloc :: "nat ptr"
  re_ida_alloc :: "u32 list \<Rightarrow> u32 res"
  re_native_e2e :: int
  re_pci :: "(u32 ptr) ptr"
  re_apple_tx_raw_mode :: bool
  re_apple_rx_raw_mode :: bool
  re_apple_tx_e2e :: bool
  re_thr_rings :: "tb_ring ptr list"

definition rail_path_config :: "rail_env \<Rightarrow> tbv_backend_type \<Rightarrow> tbv_path_config" where
  "rail_path_config env backend =
     (let cfg = tbv_path_default_config (re_apple_tx_raw_mode env) (re_apple_rx_raw_mode env)
                  (re_apple_tx_e2e env) backend
      in if backend = TBV_BACKEND_NATIVE \<and> tbv_native_e2e_enabled (re_native_e2e env) (re_pci env)
         then cfg\<lparr>pc_tx_flags := pc_tx_flags cfg @ [RING_FLAG_E2E],
                  pc_rx_flags := pc_rx_flags cfg @ [RING_FLAG_E2E], pc_e2e := True\<rparr>
         else cfg)"

definition fresh_rail ::
  "rail_env \<Rightarrow> nat \<Rightarrow> tbv_backend_type \<Rightarrow> tbv_rail_key \<Rightarrow> u32 \<Rightarrow> u32 \<Rightarrow> tbv_rail" where
  "fresh_rail env a backend k rail_id native_lane =
     \<lparr>ra_addr = a, ra_native_work_state = False, ra_key = k,
      ra_hw = fresh_hw (tbv_path_init (rail_path_config env backend) (Some backend)) (re_thr_rings env),
      ra_work = False, ra_refcnt = 1, ra_refs_zero = False, ra_bind = tbv_rail_bind_init, ra_ibdev = None,
      ra_rail_id = rail_id, ra_link_speed = 0, ra_link_width = 0, ra_remote_rail_id = 0,
      ra_remote_transmit_path = - 1, ra_remote_tx_hop = - 1, ra_remote_rx_hop = - 1,
      ra_native_attempts = 0, ra_native_tunnel_attempts = 0, ra_native_ready_attempts = 0,
      ra_native_last_error = None, ra_native_lane = native_lane, ra_active = True, ra_removing = False,
      ra_ibdev_register_failed = False, ra_ibdev_register_deferred = False,
      ra_native_negotiated = False, ra_native_ready_sent = False, ra_native_remote_ready = False,
      ra_native_work_stop = False\<rparr>"

text \<open>The number of a rail is allocated before the lock is taken and given back on refusal.\<close>

definition tbv_peer_add_rail ::
  "rail_env \<Rightarrow> nat \<Rightarrow> tbv_rail_key \<Rightarrow> u32 \<Rightarrow> tbv_state \<Rightarrow> nat res \<times> tbv_state" where
  "tbv_peer_add_rail env peer k native_lane state =
     (case (re_alloc env, find_peer peer state) of
        (None, _) \<Rightarrow> (Inl ENOMEM, state)
      | (_, None) \<Rightarrow> (Inl EINVAL, state)
      | (Some a, Some pe) \<Rightarrow>
          (case re_ida_alloc env (pe_rail_ids pe) of
             Inl e \<Rightarrow> (Inl e, state)
           | Inr rail_id \<Rightarrow>
               if pe_backend pe = TBV_BACKEND_NATIVE \<and> \<not> ts_native_control_source_aware state
                  \<and> \<not> tbv_native_legacy_rail_key_allowed_locked state peer k
               then (Inl EBUSY, count_legacy_limited state)
               else (case insert_rail (fresh_rail env a (pe_backend pe) k rail_id native_lane) (pe_rails pe) of
                       None \<Rightarrow> (Inl EEXIST, state)
                     | Some rails \<Rightarrow>
                         (Inr a, on_peer peer (\<lambda>pe. pe\<lparr>pe_rails := rails,
                                    pe_rail_ids := rail_id # pe_rail_ids pe,
                                    pe_nr_rails := pe_nr_rails pe + 1\<rparr>) state))))"

definition on_rail :: "nat \<Rightarrow> (tbv_rail \<Rightarrow> tbv_rail) \<Rightarrow> tbv_state \<Rightarrow> tbv_state" where
  "on_rail a f state =
     state\<lparr>ts_peers := map (\<lambda>peer. peer\<lparr>pe_rails :=
        map (\<lambda>rail. if ra_addr rail = a then f rail else rail) (pe_rails peer)\<rparr>) (ts_peers state)\<rparr>"

text \<open>The last reference completes \<open>refs_zero\<close>.\<close>

definition rail_put :: "tbv_rail \<Rightarrow> tbv_rail" where
  "rail_put rail =
     (let rail = rail\<lparr>ra_refcnt := ra_refcnt rail - 1\<rparr>
      in if ra_refcnt rail = 0 then rail\<lparr>ra_refs_zero := True\<rparr> else rail)"

definition tbv_rail_put :: "nat \<Rightarrow> tbv_state \<Rightarrow> tbv_state" where
  "tbv_rail_put a = on_rail a rail_put"

definition rail_get :: "tbv_rail \<Rightarrow> tbv_rail" where
  "rail_get rail = rail\<lparr>ra_refcnt := ra_refcnt rail + 1\<rparr>"

text \<open>\<open>cancel_delayed_work_sync\<close> waits for a running work and removes a pending one.\<close>

definition cancel_rail :: "tbv_rail \<Rightarrow> tbv_rail" where
  "cancel_rail rail = rail\<lparr>ra_native_work_stop := True, ra_work := False, ra_native_work_state := False\<rparr>"

definition tbv_native_control_cancel_rail :: "nat \<Rightarrow> tbv_state \<Rightarrow> tbv_state" where
  "tbv_native_control_cancel_rail a = on_rail a cancel_rail"

text \<open>
  Removal up to the wait for the last reference, and after it. Between the two, users of the rail
  drop their references. The quiesce of the Apple path belongs to the verbs layer; the down edge of
  \<open>tbv_ibdev_rail_event\<close> unregisters the device of the rail, if it has one.
\<close>

definition find_rail :: "nat \<Rightarrow> tbv_peer \<Rightarrow> tbv_rail option" where
  "find_rail a peer = find (\<lambda>rail. ra_addr rail = a) (pe_rails peer)"

definition rail_down :: "tbv_rail \<Rightarrow> tbv_rail" where
  "rail_down rail = rail\<lparr>ra_ibdev := None, ra_ibdev_register_deferred := False\<rparr>"

definition ibdev_rail_down :: "nat \<Rightarrow> tbv_state \<Rightarrow> tbv_state" where
  "ibdev_rail_down a state =
     (let down = filter (\<lambda>rail. ra_addr rail = a \<and> ra_ibdev rail \<noteq> None) (concat (map pe_rails (ts_peers state)))
      in on_rail a rail_down (state\<lparr>ts_log := ts_log state @ map (\<lambda>rail. (rail, False)) down\<rparr>))"

definition remove_rail_begin :: "nat \<Rightarrow> tbv_state \<Rightarrow> tbv_state" where
  "remove_rail_begin a state =
     (let state = on_rail a (\<lambda>rail. rail\<lparr>ra_removing := True\<rparr>) state;
          state = ibdev_rail_down a state
      in tbv_rail_put a (tbv_native_control_cancel_rail a state))"

text \<open>The rail is unlinked and its path destroyed: the result is the path at its end.\<close>

definition unlink_rail :: "nat \<Rightarrow> tbv_peer \<Rightarrow> tbv_peer" where
  "unlink_rail a peer =
     (case find_rail a peer of
        None \<Rightarrow> peer
      | Some rail \<Rightarrow> peer\<lparr>pe_rails := filter (\<lambda>rail. ra_addr rail \<noteq> a) (pe_rails peer),
          pe_nr_rails := (if pe_nr_rails peer \<noteq> 0 then pe_nr_rails peer - 1 else 0),
          pe_rail_ids := remove1 (ra_rail_id rail) (pe_rail_ids peer)\<rparr>)"

definition remove_rail_finish ::
  "life_env \<Rightarrow> stop_env \<Rightarrow> unit res \<Rightarrow> nat \<Rightarrow> tbv_state \<Rightarrow> path_hw list \<times> tbv_state" where
  "remove_rail_finish env senv disable a state =
     (map (\<lambda>rail. tbv_path_destroy env senv disable (ra_hw rail))
        (filter (\<lambda>rail. ra_addr rail = a) (concat (map pe_rails (ts_peers state)))),
      state\<lparr>ts_peers := map (unlink_rail a) (ts_peers state)\<rparr>)"

section \<open>The invariant of the topology\<close>

definition rail_ok :: "tbv_rail \<Rightarrow> bool" where
  "rail_ok rail \<longleftrightarrow> (ra_refs_zero rail \<longleftrightarrow> ra_refcnt rail = 0) \<and> (\<not> ra_removing rail \<longrightarrow> ra_refcnt rail > 0)"

definition peer_ok :: "tbv_peer \<Rightarrow> bool" where
  "peer_ok peer \<longleftrightarrow>
     sorted_wrt (<) (map ra_key (pe_rails peer))
     \<and> distinct (map ra_rail_id (pe_rails peer))
     \<and> mset (pe_rail_ids peer) = mset (map ra_rail_id (pe_rails peer))
     \<and> distinct (map ra_addr (pe_rails peer))
     \<and> pe_nr_rails peer = of_nat (length (pe_rails peer))
     \<and> length (pe_rails peer) \<le> pe_refcnt peer \<and> 0 < pe_refcnt peer
     \<and> length (pe_rails peer) < 4294967296
     \<and> list_all rail_ok (pe_rails peer)"

text \<open>Two peers that the source-blind control mode can tell apart.\<close>

definition tellable :: "tbv_peer \<Rightarrow> tbv_peer \<Rightarrow> bool" where
  "tellable p q \<longleftrightarrow>
     pe_backend p = TBV_BACKEND_NATIVE \<longrightarrow> pe_backend q = TBV_BACKEND_NATIVE \<longrightarrow>
     \<not> tbv_xdomain_same_remote_host (Some (pe_xd p)) (Some (pe_xd q))
     \<and> ra_key ` set (pe_rails p) \<inter> ra_key ` set (pe_rails q) = {}"

definition apart :: "tbv_peer \<Rightarrow> tbv_peer \<Rightarrow> bool" where
  "apart p q \<longleftrightarrow>
     pe_addr p \<noteq> pe_addr q
     \<and> (pe_backend p, xd_addr (pe_xd p)) \<noteq> (pe_backend q, xd_addr (pe_xd q))
     \<and> ra_addr ` set (pe_rails p) \<inter> ra_addr ` set (pe_rails q) = {}"

definition topo_ok :: "tbv_state \<Rightarrow> bool" where
  "topo_ok state \<longleftrightarrow>
     list_all peer_ok (ts_peers state) \<and> sorted_wrt apart (ts_peers state)
     \<and> (\<not> ts_native_control_source_aware state \<longrightarrow> sorted_wrt tellable (ts_peers state))"

text \<open>
  A discipline of the callers, that of \<open>tbv_service_probe\<close> and \<open>tbv_service_remove\<close>: addresses given by
  the allocator are new; a peer is referenced once per binding, and each binding has at most one rail;
  a user of a rail takes its reference while the rail is not being removed and drops only its own; the
  second phase of a removal waits for \<open>refs_zero\<close>.
\<close>

definition rail_addrs :: "tbv_state \<Rightarrow> nat list" where
  "rail_addrs state = concat (map (map ra_addr \<circ> pe_rails) (ts_peers state))"

text \<open>Updates of a rail by the control plane.\<close>

definition quiet :: "(tbv_rail \<Rightarrow> tbv_rail) \<Rightarrow> bool" where
  "quiet f \<longleftrightarrow> (\<forall>rail. ra_addr (f rail) = ra_addr rail \<and> ra_key (f rail) = ra_key rail
     \<and> ra_rail_id (f rail) = ra_rail_id rail \<and> ra_refcnt (f rail) = ra_refcnt rail
     \<and> ra_refs_zero (f rail) = ra_refs_zero rail \<and> ra_removing (f rail) = ra_removing rail)"

definition all_rails :: "tbv_state \<Rightarrow> tbv_rail set" where
  "all_rails state = (\<Union>peer \<in> set (ts_peers state). set (pe_rails peer))"

inductive topo_reachable :: "tbv_state \<Rightarrow> bool" where
  topo_init: "ts_peers state = [] \<Longrightarrow> topo_reachable state"
| topo_create: "topo_reachable state \<Longrightarrow> a \<notin> pe_addr ` set (ts_peers state)
    \<Longrightarrow> topo_reachable (snd (tbv_peer_get_or_create (Some a) backend xd state))"
| topo_put: "topo_reachable state
    \<Longrightarrow> (\<And>peer. peer \<in> set (ts_peers state) \<Longrightarrow> pe_addr peer = a \<Longrightarrow> length (pe_rails peer) < pe_refcnt peer)
    \<Longrightarrow> topo_reachable (tbv_peer_put (Some a) state)"
| topo_add: "topo_reachable state \<Longrightarrow> re_alloc env = Some b \<Longrightarrow> b \<notin> set (rail_addrs state)
    \<Longrightarrow> (\<And>ids n. re_ida_alloc env ids = Inr n \<Longrightarrow> n \<notin> set ids)
    \<Longrightarrow> (\<And>peer. peer \<in> set (ts_peers state) \<Longrightarrow> pe_addr peer = a \<Longrightarrow>
          length (pe_rails peer) < pe_refcnt peer \<and> length (pe_rails peer) < 4294967295)
    \<Longrightarrow> topo_reachable (snd (tbv_peer_add_rail env a k lane state))"
| topo_get: "topo_reachable state
    \<Longrightarrow> (\<And>rail. rail \<in> all_rails state \<Longrightarrow> ra_addr rail = a \<Longrightarrow> \<not> ra_removing rail)
    \<Longrightarrow> topo_reachable (on_rail a rail_get state)"
| topo_rail_put: "topo_reachable state
    \<Longrightarrow> (\<And>rail. rail \<in> all_rails state \<Longrightarrow> ra_addr rail = a \<Longrightarrow> (if ra_removing rail then 0 else 1) < ra_refcnt rail)
    \<Longrightarrow> topo_reachable (tbv_rail_put a state)"
| topo_quiet: "topo_reachable state \<Longrightarrow> quiet f \<Longrightarrow> topo_reachable (on_rail a f state)"
| topo_other: "topo_reachable state \<Longrightarrow> ts_peers state' = ts_peers state
    \<Longrightarrow> ts_native_control_source_aware state' = ts_native_control_source_aware state
    \<Longrightarrow> topo_reachable state'"
| topo_remove: "topo_reachable state
    \<Longrightarrow> (\<And>rail. rail \<in> all_rails state \<Longrightarrow> ra_addr rail = a \<Longrightarrow> \<not> ra_removing rail)
    \<Longrightarrow> topo_reachable (remove_rail_begin a state)"
| topo_finish: "topo_reachable state
    \<Longrightarrow> (\<And>rail. rail \<in> all_rails state \<Longrightarrow> ra_addr rail = a \<Longrightarrow> ra_removing rail \<and> ra_refs_zero rail)
    \<Longrightarrow> topo_reachable (snd (remove_rail_finish env senv disable a state))"

section \<open>Preservation\<close>

text \<open>
  A change of rails that keeps addresses, keys and numbers keeps everything but the reference counts,
  which it must keep in order.
\<close>

definition steady :: "(tbv_rail \<Rightarrow> tbv_rail) \<Rightarrow> bool" where
  "steady f \<longleftrightarrow> (\<forall>rail. ra_addr (f rail) = ra_addr rail \<and> ra_key (f rail) = ra_key rail
     \<and> ra_rail_id (f rail) = ra_rail_id rail)"

lemma steady_maps:
  assumes "steady f"
  shows "ra_addr (f rail) = ra_addr rail" "ra_key (f rail) = ra_key rail" "ra_rail_id (f rail) = ra_rail_id rail"
  using assms by (simp_all add: steady_def)

lemma peer_ok_on_rail:
  assumes "peer_ok peer" and "steady f"
    and "\<And>rail. rail \<in> set (pe_rails peer) \<Longrightarrow> ra_addr rail = a \<Longrightarrow> rail_ok (f rail)"
  shows "peer_ok (peer\<lparr>pe_rails := map (\<lambda>rail. if ra_addr rail = a then f rail else rail) (pe_rails peer)\<rparr>)"
proof -
  let ?g = "\<lambda>rail. if ra_addr rail = a then f rail else rail"
  have m: "map ra_key (map ?g rs) = map ra_key rs" "map ra_rail_id (map ?g rs) = map ra_rail_id rs"
      "map ra_addr (map ?g rs) = map ra_addr rs" for rs
    by (simp_all add: steady_maps [OF assms(2)])
  have "list_all rail_ok (map ?g (pe_rails peer))"
    using assms(1,3) by (auto simp: list_all_iff peer_ok_def)
  then show ?thesis using assms(1) by (simp add: peer_ok_def m del: map_map)
qed

text \<open>A change of each peer that keeps them apart.\<close>

lemma topo_ok_map:
  assumes "topo_ok state" and "\<And>peer. peer \<in> set (ts_peers state) \<Longrightarrow> peer_ok (g peer)"
    and "\<And>p q. apart (g p) (g q) \<longleftrightarrow> apart p q" and "\<And>p q. tellable (g p) (g q) \<longleftrightarrow> tellable p q"
  shows "topo_ok (state\<lparr>ts_peers := map g (ts_peers state)\<rparr>)"
  using assms by (simp add: topo_ok_def sorted_wrt_map list_all_iff)

lemma topo_ok_on_rail:
  assumes "topo_ok state" and "steady f"
    and "\<And>rail. rail \<in> all_rails state \<Longrightarrow> ra_addr rail = a \<Longrightarrow> rail_ok (f rail)"
  shows "topo_ok (on_rail a f state)"
proof -
  let ?g = "\<lambda>rail. if ra_addr rail = a then f rail else rail"
  let ?h = "\<lambda>peer. peer\<lparr>pe_rails := map ?g (pe_rails peer)\<rparr>"
  have "map ra_addr (map ?g rs) = map ra_addr rs" "map ra_key (map ?g rs) = map ra_key rs" for rs
    by (simp_all add: steady_maps [OF assms(2)])
  then have s: "ra_addr ` set (map ?g rs) = ra_addr ` set rs" "ra_key ` set (map ?g rs) = ra_key ` set rs" for rs
    by (metis set_map)+
  have "peer_ok (?h peer)" if "peer \<in> set (ts_peers state)" for peer
    using that assms(1,3) by (intro peer_ok_on_rail assms(2)) (auto simp: list_all_iff topo_ok_def all_rails_def)
  moreover have "apart (?h p) (?h q) \<longleftrightarrow> apart p q" "tellable (?h p) (?h q) \<longleftrightarrow> tellable p q" for p q
    by (simp_all add: apart_def tellable_def s del: set_map)
  ultimately show ?thesis unfolding on_rail_def using assms(1) by (intro topo_ok_map)
qed

lemma steady_ops:
  "steady rail_get" "steady rail_put" "steady cancel_rail" "quiet f \<Longrightarrow> steady f"
  "steady (\<lambda>rail. rail\<lparr>ra_removing := b\<rparr>)" "steady rail_down"
  by (simp_all add: steady_def rail_get_def rail_put_def cancel_rail_def rail_down_def quiet_def Let_def)

lemma all_rails_ok: "topo_ok state \<Longrightarrow> rail \<in> all_rails state \<Longrightarrow> rail_ok rail"
  by (auto simp: topo_ok_def all_rails_def list_all_iff peer_ok_def)

lemma all_rails_on_rail:
  "all_rails (on_rail a f state) = (\<lambda>rail. if ra_addr rail = a then f rail else rail) ` all_rails state"
  by (auto simp: all_rails_def on_rail_def)

lemma on_rail_memE:
  assumes "rail \<in> all_rails (on_rail a f state)"
  obtains r where "r \<in> all_rails state" and "rail = (if ra_addr r = a then f r else r)"
  using assms unfolding all_rails_on_rail image_iff by blast

lemma topo_ok_cong:
  assumes "topo_ok state" and "ts_peers state' = ts_peers state"
    and "ts_native_control_source_aware state' = ts_native_control_source_aware state"
  shows "topo_ok state'"
  using assms by (simp add: topo_ok_def)

lemma same_remote_host_sym: "tbv_xdomain_same_remote_host a b = tbv_xdomain_same_remote_host b a"
  by (auto simp: tbv_xdomain_same_remote_host_def split: option.splits)

lemma legacy_xdomain_none:
  assumes "find (\<lambda>pos. tbv_peer_matches pos TBV_BACKEND_NATIVE xd) peers = None"
    and "legacy_xdomain_allowed xd peers" and "peer \<in> set peers" and "pe_backend peer = TBV_BACKEND_NATIVE"
  shows "\<not> tbv_xdomain_same_remote_host (Some (pe_xd peer)) (Some xd)"
  using assms
  by (induction peers) (auto simp: tbv_peer_matches_def split: if_splits)

lemma topo_ok_create:
  assumes "topo_ok state" and "a \<notin> pe_addr ` set (ts_peers state)"
  shows "topo_ok (snd (tbv_peer_get_or_create (Some a) backend xd state))"
proof (cases "find (\<lambda>pos. tbv_peer_matches pos backend xd) (ts_peers state)")
  case (Some pos)
  let ?f = "\<lambda>peer. peer\<lparr>pe_refcnt := pe_refcnt peer + 1\<rparr>"
  let ?g = "\<lambda>peer. if pe_addr peer = pe_addr pos then ?f peer else peer"
  have "peer_ok (?g peer)" if "peer \<in> set (ts_peers state)" for peer
    using that assms(1) by (auto simp: topo_ok_def list_all_iff peer_ok_def)
  moreover have "apart (?g p) (?g q) \<longleftrightarrow> apart p q" "tellable (?g p) (?g q) \<longleftrightarrow> tellable p q" for p q
    by (auto simp: apart_def tellable_def)
  ultimately have "topo_ok (on_peer (pe_addr pos) ?f state)"
    unfolding on_peer_def using assms(1) by (intro topo_ok_map)
  then show ?thesis
    using Some assms(1) by (simp add: tbv_peer_get_or_create_def)
next
  case None
  let ?p = "fresh_peer a backend xd (ts_next_peer_id state)"
  have ok: "peer_ok ?p" by (simp add: fresh_peer_def peer_ok_def)
  have ap: "apart p ?p" if "p \<in> set (ts_peers state)" for p
    using that assms(2) None by (auto simp: apart_def fresh_peer_def find_None_iff tbv_peer_matches_def)
  have te: "tellable p ?p" if "p \<in> set (ts_peers state)" "legacy_xdomain_allowed xd (ts_peers state)" for p
    using that None legacy_xdomain_none [of xd "ts_peers state" p]
    by (auto simp: tellable_def fresh_peer_def)
  have te': "tellable p ?p" if "backend \<noteq> TBV_BACKEND_NATIVE" for p
    using that by (simp add: tellable_def fresh_peer_def)
  show ?thesis
    using assms(1) None ok ap te te'
    by (auto simp: tbv_peer_get_or_create_def topo_ok_def sorted_wrt_append list_all_iff count_legacy_limited_def
        tbv_native_legacy_xdomain_allowed_locked_def)
qed

lemma topo_ok_put:
  assumes "topo_ok state"
    and "\<And>peer. peer \<in> set (ts_peers state) \<Longrightarrow> pe_addr peer = a \<Longrightarrow> length (pe_rails peer) < pe_refcnt peer"
  shows "topo_ok (tbv_peer_put (Some a) state)"
proof -
  define g where "g = (\<lambda>peer :: tbv_peer. if pe_addr peer = a then peer\<lparr>pe_refcnt := pe_refcnt peer - 1\<rparr> else peer)"
  let ?keep = "\<lambda>peer. \<not> (pe_addr peer = a \<and> pe_refcnt peer = 0)"
  have keep: "peer_ok (g peer)" if "peer \<in> set (ts_peers state)" "?keep (g peer)" for peer
  proof -
    have "peer_ok peer" using that(1) assms(1) by (auto simp: topo_ok_def list_all_iff)
    then show ?thesis
      using that assms(2) [OF that(1)] by (cases "pe_addr peer = a") (simp_all add: g_def peer_ok_def)
  qed
  have g: "apart (g p) (g q) \<longleftrightarrow> apart p q" "tellable (g p) (g q) \<longleftrightarrow> tellable p q" for p q
    by (auto simp: g_def apart_def tellable_def)
  have "list_all peer_ok (filter ?keep (map g (ts_peers state)))"
    using keep by (auto simp: list_all_iff)
  moreover have "sorted_wrt P (map g (ts_peers state)) = sorted_wrt P (ts_peers state)"
    if "\<And>p q. P (g p) (g q) \<longleftrightarrow> P p q" for P
    unfolding sorted_wrt_map that ..
  moreover have "tbv_peer_put (Some a) state = state\<lparr>ts_peers := filter ?keep (map g (ts_peers state))\<rparr>"
    unfolding tbv_peer_put_def on_peer_def Let_def g_def by simp
  ultimately show ?thesis
    using assms(1) g by (simp add: topo_ok_def sorted_wrt_filter del: filter_map)
qed

text \<open>Insertion of a rail.\<close>

lemma insort_perm: "set (insort_key f x xs) = insert x (set xs)" "mset (insort_key f x xs) = add_mset x (mset xs)"
  by (simp_all add: set_insort_key)

lemma peer_ok_insert:
  assumes "peer_ok peer" and "insert_rail rail (pe_rails peer) = Some rails" and "rail_ok rail"
    and "ra_rail_id rail \<notin> set (pe_rail_ids peer)" and "ra_addr rail \<notin> ra_addr ` set (pe_rails peer)"
    and "length (pe_rails peer) < pe_refcnt peer" and "length (pe_rails peer) < 4294967295"
  shows "peer_ok (peer\<lparr>pe_rails := rails, pe_rail_ids := ra_rail_id rail # pe_rail_ids peer,
           pe_nr_rails := pe_nr_rails peer + 1\<rparr>)"
proof -
  have srt: "sorted_wrt (<) (map ra_key (pe_rails peer))" using assms(1) by (simp add: peer_ok_def)
  have r: "rails = insort_key ra_key rail (pe_rails peer)" by (rule insert_rail_Some [OF srt assms(2)])
  have k: "ra_key rail \<notin> ra_key ` set (pe_rails peer)" using insert_rail_None [OF srt, of rail] assms(2) by simp
  have perm: "mset rails = add_mset rail (mset (pe_rails peer))" by (simp add: r)
  then have len: "length rails = Suc (length (pe_rails peer))" by (metis size_add_mset size_mset)
  have ids: "set (pe_rail_ids peer) = ra_rail_id ` set (pe_rails peer)"
    using assms(1) by (metis peer_ok_def set_map set_mset_mset)
  have "distinct (map g rails)" if "g rail \<notin> g ` set (pe_rails peer)" "distinct (map g (pe_rails peer))" for g :: "tbv_rail \<Rightarrow> 'b"
  proof -
    have "mset (map g rails) = mset (map g (rail # pe_rails peer))" using perm by simp
    then have "distinct (map g rails) = distinct (map g (rail # pe_rails peer))" by (rule mset_eq_imp_distinct_iff)
    then show ?thesis using that by simp
  qed
  note d = this
  have "distinct (map ra_rail_id rails)" "distinct (map ra_addr rails)"
    using assms(1,4,5) ids d [of ra_rail_id] d [of ra_addr] by (simp_all add: peer_ok_def)
  moreover have "sorted_wrt (<) (map ra_key rails)" unfolding r by (rule insort_strict [OF srt k])
  moreover have "list_all rail_ok rails" using assms(1,3) by (auto simp: r peer_ok_def list_all_iff set_insort_key)
  ultimately show ?thesis
    using assms(1,6,7) len perm by (simp add: peer_ok_def)
qed

lemma find_peer_on_peer:
  assumes "topo_ok state" and "find_peer a state = Some pe" and "peer \<in> set (ts_peers state)" and "pe_addr peer = a"
  shows "peer = pe"
proof -
  have "pe \<in> set (ts_peers state)" "pe_addr pe = a" using assms(2) by (auto simp: find_peer_def find_Some_iff)
  moreover have "p = q" if "sorted_wrt apart ps" "p \<in> set ps" "q \<in> set ps" "pe_addr p = pe_addr q" for p q ps
    using that by (induction ps) (auto simp: apart_def)
  ultimately show ?thesis using assms(1,3,4) by (auto simp: topo_ok_def)
qed

lemma sorted_wrt_map_replace:
  assumes "sorted_wrt P xs" and "\<And>x y. x \<in> set xs \<Longrightarrow> y \<in> set xs \<Longrightarrow> P x y \<Longrightarrow> P (g x) (g y)"
  shows "sorted_wrt P (map g xs)"
  using assms by (induction xs) auto

lemma sorted_wrt_conj:
  "sorted_wrt (\<lambda>x y. P x y \<and> Q x y) xs \<longleftrightarrow> sorted_wrt P xs \<and> sorted_wrt Q xs"
  by (induction xs) auto

lemma add_rail_cases:
  assumes "re_alloc env = Some b"
  obtains (same) "ts_peers (snd (tbv_peer_add_rail env a k lane state)) = ts_peers state"
      "ts_native_control_source_aware (snd (tbv_peer_add_rail env a k lane state)) = ts_native_control_source_aware state"
    | (new) pe n rails where "find_peer a state = Some pe" "re_ida_alloc env (pe_rail_ids pe) = Inr n"
        "pe_backend pe = TBV_BACKEND_NATIVE \<and> \<not> ts_native_control_source_aware state
          \<longrightarrow> tbv_native_legacy_rail_key_allowed_locked state a k"
        "insert_rail (fresh_rail env b (pe_backend pe) k n lane) (pe_rails pe) = Some rails"
        "snd (tbv_peer_add_rail env a k lane state) = on_peer a (\<lambda>pe. pe\<lparr>pe_rails := rails,
           pe_rail_ids := n # pe_rail_ids pe, pe_nr_rails := pe_nr_rails pe + 1\<rparr>) state"
proof (cases "find_peer a state")
  case None
  then show ?thesis using same assms by (simp add: tbv_peer_add_rail_def)
next
  case (Some pe)
  show ?thesis
  proof (cases "re_ida_alloc env (pe_rail_ids pe)")
    case (Inl e)
    then show ?thesis using same assms Some by (simp add: tbv_peer_add_rail_def)
  next
    case (Inr n)
    note c = assms Some Inr
    show ?thesis
    proof (cases "pe_backend pe = TBV_BACKEND_NATIVE \<and> \<not> ts_native_control_source_aware state
        \<and> \<not> tbv_native_legacy_rail_key_allowed_locked state a k")
      case True
      then show ?thesis using same c by (simp add: tbv_peer_add_rail_def count_legacy_limited_def)
    next
      case False
      show ?thesis
      proof (cases "insert_rail (fresh_rail env b (pe_backend pe) k n lane) (pe_rails pe)")
        case None
        then show ?thesis
          by (intro same) (simp_all add: tbv_peer_add_rail_def c count_legacy_limited_def)
      next
        case (Some rails)
        then show ?thesis
          using False by (intro new [OF c(2,3)]) (auto simp: tbv_peer_add_rail_def c)
      qed
    qed
  qed
qed

lemma topo_ok_add:
  assumes "topo_ok state" and "re_alloc env = Some b" and "b \<notin> set (rail_addrs state)"
    and "\<And>ids n. re_ida_alloc env ids = Inr n \<Longrightarrow> n \<notin> set ids"
    and "\<And>peer. peer \<in> set (ts_peers state) \<Longrightarrow> pe_addr peer = a \<Longrightarrow>
          length (pe_rails peer) < pe_refcnt peer \<and> length (pe_rails peer) < 4294967295"
  shows "topo_ok (snd (tbv_peer_add_rail env a k lane state))"
proof -
  show ?thesis
    using assms(2)
  proof (cases rule: add_rail_cases [where a = a and state = state and k = k and lane = lane, consumes 1, case_names same new])
    case same
    then show ?thesis by (rule topo_ok_cong [OF assms(1)])
  next
    case (new pe n rails)
    let ?r = "fresh_rail env b (pe_backend pe) k n lane"
    define g where "g = (\<lambda>peer :: tbv_peer. if pe_addr peer = a then peer\<lparr>pe_rails := rails,
           pe_rail_ids := n # pe_rail_ids peer, pe_nr_rails := pe_nr_rails peer + 1\<rparr> else peer)"
    have pe: "pe \<in> set (ts_peers state)" "pe_addr pe = a" "peer_ok pe"
      using new(1) assms(1) by (auto simp: find_peer_def find_Some_iff topo_ok_def list_all_iff)
    have uniq: "peer = pe" if "peer \<in> set (ts_peers state)" "pe_addr peer = a" for peer
      by (rule find_peer_on_peer [OF assms(1) new(1) that])
    have b: "b \<notin> ra_addr ` set (pe_rails peer)" if "peer \<in> set (ts_peers state)" for peer
      using that assms(3) by (auto simp: rail_addrs_def)
    have srt: "sorted_wrt (<) (map ra_key (pe_rails pe))" using pe(3) by (simp add: peer_ok_def)
    have rs: "set rails = insert ?r (set (pe_rails pe))"
      using insert_rail_Some [OF srt new(4)] by (simp add: set_insort_key)
    have r: "ra_addr ?r = b" "ra_key ?r = k" "ra_rail_id ?r = n" "rail_ok ?r"
      by (simp_all add: fresh_rail_def rail_ok_def)
    have "peer_ok (pe\<lparr>pe_rails := rails, pe_rail_ids := ra_rail_id ?r # pe_rail_ids pe,
        pe_nr_rails := pe_nr_rails pe + 1\<rparr>)"
      using new(2,4) pe r b [OF pe(1)] assms(4,5) by (intro peer_ok_insert) auto
    then have ok: "peer_ok (g peer)" if "peer \<in> set (ts_peers state)" for peer
      using that uniq pe(2) r assms(1) by (auto simp: g_def topo_ok_def list_all_iff)
    have ap: "apart (g p) (g q)" if "p \<in> set (ts_peers state)" "q \<in> set (ts_peers state)" "apart p q" for p q
      using that(3) uniq [OF that(1)] uniq [OF that(2)] b [OF that(1)] b [OF that(2)] rs r
      by (auto simp: g_def apart_def)
    have te: "tellable (g p) (g q)" if "p \<in> set (ts_peers state)" "q \<in> set (ts_peers state)"
        "tellable p q" "apart p q" "\<not> ts_native_control_source_aware state" for p q
    proof -
      have kn: "k \<notin> ra_key ` set (pe_rails peer)" if "peer \<in> set (ts_peers state)" "pe_addr peer \<noteq> a"
          "pe_backend peer = TBV_BACKEND_NATIVE" "pe_backend pe = TBV_BACKEND_NATIVE" for peer
        using that new(3) \<open>\<not> ts_native_control_source_aware state\<close>
        by (auto simp: tbv_native_legacy_rail_key_allowed_locked_def list_all_iff cmp_order)
      show ?thesis
        using that(3,4) uniq [OF that(1)] uniq [OF that(2)] kn [OF that(1)] kn [OF that(2)] rs r
        by (auto simp: g_def tellable_def apart_def)
    qed
    have "sorted_wrt apart (map g (ts_peers state))"
      using assms(1) by (intro sorted_wrt_map_replace ap) (auto simp: topo_ok_def)
    moreover have "sorted_wrt tellable (map g (ts_peers state))" if "\<not> ts_native_control_source_aware state"
    proof -
      have "sorted_wrt (\<lambda>p q. tellable p q \<and> apart p q) (map g (ts_peers state))"
        using assms(1) that ap te
        by (intro sorted_wrt_map_replace) (auto simp: topo_ok_def sorted_wrt_conj)
      then show ?thesis by (rule sorted_wrt_mono_rel [rotated]) simp
    qed
    ultimately show ?thesis
      using ok assms(1) new(5) by (simp add: topo_ok_def on_peer_def g_def [symmetric] list_all_iff)
  qed
qed

text \<open>Removal: the unlinked rail takes its number and its place in the count with it.\<close>

lemma find_rail_Some:
  assumes "peer_ok peer" and "find_rail a peer = Some rail"
  shows "rail \<in> set (pe_rails peer)" "ra_addr rail = a"
    and "mset (pe_rails peer) = add_mset rail (mset (filter (\<lambda>r. ra_addr r \<noteq> a) (pe_rails peer)))"
proof -
  show 1: "rail \<in> set (pe_rails peer)" and 2: "ra_addr rail = a"
    using assms(2) by (auto simp: find_rail_def find_Some_iff)
  have "filter (\<lambda>r. ra_addr r = a) rs = [rail]" if "rail \<in> set rs" "distinct (map ra_addr rs)" for rs
    using that 2 by (induction rs) (auto simp: filter_empty_conv, metis image_eqI)
  then have "filter (\<lambda>r. ra_addr r = a) (pe_rails peer) = [rail]" using 1 assms(1) by (simp add: peer_ok_def)
  then have one: "mset (filter (\<lambda>r. ra_addr r = a) (pe_rails peer)) = {#rail#}" by simp
  have "mset (pe_rails peer) = mset (filter (\<lambda>r. ra_addr r = a) (pe_rails peer))
      + mset (filter (\<lambda>r. ra_addr r \<noteq> a) (pe_rails peer))"
    unfolding mset_filter by (rule multiset_partition)
  also have "\<dots> = add_mset rail (mset (filter (\<lambda>r. ra_addr r \<noteq> a) (pe_rails peer)))"
    unfolding one by simp
  finally show "mset (pe_rails peer) = add_mset rail (mset (filter (\<lambda>r. ra_addr r \<noteq> a) (pe_rails peer)))" .
qed

lemma peer_ok_unlink:
  assumes "peer_ok peer"
  shows "peer_ok (unlink_rail a peer)"
proof (cases "find_rail a peer")
  case None
  then show ?thesis using assms by (simp add: unlink_rail_def)
next
  case (Some rail)
  let ?rs = "filter (\<lambda>r. ra_addr r \<noteq> a) (pe_rails peer)"
  have perm: "mset (pe_rails peer) = add_mset rail (mset ?rs)" by (rule find_rail_Some(3) [OF assms Some])
  then have len: "length (pe_rails peer) = Suc (length ?rs)" by (metis size_add_mset size_mset)
  have lt: "length (pe_rails peer) < 4294967296" and nr: "pe_nr_rails peer = of_nat (length (pe_rails peer))"
    using assms by (simp_all add: peer_ok_def)
  have "unat (pe_nr_rails peer) = length (pe_rails peer)" using lt nr by (simp add: unat_of_nat)
  then have nz: "pe_nr_rails peer \<noteq> 0" using len by auto
  have "pe_nr_rails peer - 1 = of_nat (length ?rs)" using nr len by simp
  moreover have "mset (remove1 (ra_rail_id rail) (pe_rail_ids peer)) = mset (map ra_rail_id ?rs)"
  proof -
    have "mset (pe_rail_ids peer) = mset (map ra_rail_id (pe_rails peer))"
      using assms by (simp add: peer_ok_def)
    then show ?thesis using perm by (simp del: mset_filter)
  qed
  ultimately show ?thesis
    using assms Some nz len
    by (simp add: unlink_rail_def peer_ok_def distinct_map_filter list_all_iff sorted_wrt_map sorted_wrt_filter
        del: mset_filter)
qed

lemma topo_ok_finish:
  assumes "topo_ok state"
  shows "topo_ok (snd (remove_rail_finish env senv disable a state))"
proof -
  have sub: "set (pe_rails (unlink_rail a p)) \<subseteq> set (pe_rails p)" for p
    by (auto simp: unlink_rail_def split: option.splits)
  have same: "pe_addr (unlink_rail a p) = pe_addr p" "pe_backend (unlink_rail a p) = pe_backend p"
      "pe_xd (unlink_rail a p) = pe_xd p" for p
    by (simp_all add: unlink_rail_def split: option.splits)
  have ap: "apart p q \<Longrightarrow> apart (unlink_rail a p) (unlink_rail a q)" for p q
    using sub [of p] sub [of q] by (simp add: apart_def same) blast
  have te: "tellable p q \<Longrightarrow> tellable (unlink_rail a p) (unlink_rail a q)" for p q
    using sub [of p] sub [of q] by (simp add: tellable_def same) blast
  have "list_all peer_ok (map (unlink_rail a) (ts_peers state))"
    using assms peer_ok_unlink by (simp add: topo_ok_def list_all_iff)
  moreover have "sorted_wrt apart (map (unlink_rail a) (ts_peers state))"
    using assms by (intro sorted_wrt_map_replace ap) (simp_all add: topo_ok_def)
  moreover have "sorted_wrt tellable (map (unlink_rail a) (ts_peers state))"
    if "\<not> ts_native_control_source_aware state"
    using assms that by (intro sorted_wrt_map_replace te) (simp_all add: topo_ok_def)
  ultimately show ?thesis by (simp add: remove_rail_finish_def topo_ok_def)
qed

lemma topo_ok_remove:
  assumes "topo_ok state" and "\<And>rail. rail \<in> all_rails state \<Longrightarrow> ra_addr rail = a \<Longrightarrow> \<not> ra_removing rail"
  shows "topo_ok (remove_rail_begin a state)"
proof -
  let ?mark = "\<lambda>rail. rail\<lparr>ra_removing := True\<rparr>"
  define s1 where "s1 = on_rail a ?mark state"
  have 1: "topo_ok s1" unfolding s1_def
    by (intro topo_ok_on_rail assms(1) steady_ops) (drule all_rails_ok [OF assms(1)], simp add: rail_ok_def)
  have p1: "ra_refcnt rail > 0 \<and> ra_removing rail" if m: "rail \<in> all_rails s1" and ad: "ra_addr rail = a" for rail
  proof -
    obtain r where r: "r \<in> all_rails state" "rail = (if ra_addr r = a then ?mark r else r)"
      using m unfolding s1_def by (rule on_rail_memE)
    then have "ra_addr r = a" using ad by (simp split: if_splits)
    then show ?thesis using r all_rails_ok [OF assms(1) r(1)] assms(2) [OF r(1)] by (simp add: rail_ok_def)
  qed
  define s2 where "s2 = s1\<lparr>ts_log := ts_log s1
      @ map (\<lambda>rail. (rail, False)) (filter (\<lambda>rail. ra_addr rail = a \<and> ra_ibdev rail \<noteq> None) (concat (map pe_rails (ts_peers s1))))\<rparr>"
  have 2: "topo_ok s2" by (rule topo_ok_cong [OF 1]) (simp_all add: s2_def)
  have p2: "all_rails s2 = all_rails s1" by (simp add: s2_def all_rails_def)
  define s3 where "s3 = tbv_native_control_cancel_rail a (on_rail a rail_down s2)"
  have d: "topo_ok (on_rail a rail_down s2)"
    by (intro topo_ok_on_rail 2 steady_ops) (drule all_rails_ok [OF 2], simp add: rail_ok_def rail_down_def)
  have 3: "topo_ok s3" unfolding s3_def tbv_native_control_cancel_rail_def
    by (rule topo_ok_on_rail [OF d steady_ops(3)], drule all_rails_ok [OF d])
      (simp add: rail_ok_def cancel_rail_def)
  have p3: "ra_refcnt rail > 0 \<and> ra_removing rail" if m: "rail \<in> all_rails s3" and ad: "ra_addr rail = a" for rail
  proof -
    obtain r' where r': "r' \<in> all_rails (on_rail a rail_down s2)" "rail = (if ra_addr r' = a then cancel_rail r' else r')"
      using m unfolding s3_def tbv_native_control_cancel_rail_def by (rule on_rail_memE)
    obtain r where r: "r \<in> all_rails s2" "r' = (if ra_addr r = a then rail_down r else r)"
      using r'(1) by (rule on_rail_memE)
    have "ra_addr r' = a" using ad r'(2) by (simp add: cancel_rail_def split: if_splits)
    then have "ra_addr r = a" using r(2) by (simp add: rail_down_def split: if_splits)
    then show ?thesis using r r' p1 [of r] p2 by (simp add: cancel_rail_def rail_down_def)
  qed
  have put: "rail_ok (rail_put rail)" if "rail \<in> all_rails s3" "ra_addr rail = a" for rail
    using all_rails_ok [OF 3 that(1)] p3 [OF that] by (auto simp: rail_ok_def rail_put_def Let_def)
  have "topo_ok (tbv_rail_put a s3)" unfolding tbv_rail_put_def
    by (intro topo_ok_on_rail 3 steady_ops put)
  then show ?thesis
    by (simp add: remove_rail_begin_def ibdev_rail_down_def Let_def s3_def s2_def s1_def)
qed

lemma topo_reachable_ok: "topo_reachable state \<Longrightarrow> topo_ok state"
proof (induction rule: topo_reachable.induct)
  case (topo_init state)
  then show ?case by (simp add: topo_ok_def)
next
  case (topo_create state a backend xd)
  then show ?case by (intro topo_ok_create)
next
  case (topo_put state a)
  then show ?case by (intro topo_ok_put)
next
  case (topo_add state env b a k lane)
  then show ?case by (intro topo_ok_add)
next
  case (topo_get state a)
  have "rail_ok (rail_get rail)" if "rail \<in> all_rails state" "ra_addr rail = a" for rail
    using all_rails_ok [OF topo_get.IH that(1)] topo_get.hyps(2) [OF that] by (simp add: rail_ok_def rail_get_def)
  then show ?case by (intro topo_ok_on_rail topo_get.IH steady_ops)
next
  case (topo_rail_put state a)
  have "rail_ok (rail_put rail)" if "rail \<in> all_rails state" "ra_addr rail = a" for rail
    using all_rails_ok [OF topo_rail_put.IH that(1)] topo_rail_put.hyps(2) [OF that]
    by (auto simp: rail_ok_def rail_put_def Let_def split: if_splits)
  then show ?case unfolding tbv_rail_put_def by (intro topo_ok_on_rail topo_rail_put.IH steady_ops)
next
  case (topo_quiet state f a)
  have "rail_ok (f rail)" if "rail \<in> all_rails state" "ra_addr rail = a" for rail
    using all_rails_ok [OF topo_quiet.IH that(1)] topo_quiet.hyps(2) by (simp add: rail_ok_def quiet_def)
  then show ?case by (intro topo_ok_on_rail topo_quiet.IH steady_ops(4) topo_quiet.hyps(2))
next
  case (topo_other state state')
  show ?case by (rule topo_ok_cong [OF topo_other.IH topo_other.hyps(2,3)])
next
  case (topo_remove state a)
  then show ?case by (intro topo_ok_remove)
next
  case (topo_finish state a env senv disable)
  then show ?case by (intro topo_ok_finish)
qed

section \<open>Theorems\<close>

text \<open>
  C4: The registry of peers and rails stays consistent. After any sequence of probes, removals,
  uses and control updates: the rails of a peer are in strictly increasing order of key, their
  numbers are distinct and are exactly the allocated ones, and the counter is their number; there is
  one peer per backend and XDomain; a rail that is not being removed is referenced, and the
  completion a removal waits for is reached exactly when no reference is left; a peer has at
  least as many references as rails, so that it is never freed with a live rail; and in the
  source-blind control mode no two native peers are the same host or hold the same key.
\<close>

theorem topology_invariant:
  assumes "topo_reachable state" and "peer \<in> set (ts_peers state)"
  shows "sorted_wrt (<) (map ra_key (pe_rails peer))
    \<and> distinct (map ra_rail_id (pe_rails peer))
    \<and> mset (pe_rail_ids peer) = mset (map ra_rail_id (pe_rails peer))
    \<and> unat (pe_nr_rails peer) = length (pe_rails peer)
    \<and> length (pe_rails peer) \<le> pe_refcnt peer \<and> 0 < pe_refcnt peer
    \<and> (\<forall>rail \<in> set (pe_rails peer). (ra_refs_zero rail \<longleftrightarrow> ra_refcnt rail = 0)
         \<and> (\<not> ra_removing rail \<longrightarrow> 0 < ra_refcnt rail))
    \<and> (\<forall>peer' \<in> set (ts_peers state). peer' \<noteq> peer \<longrightarrow>
         (pe_backend peer', xd_addr (pe_xd peer')) \<noteq> (pe_backend peer, xd_addr (pe_xd peer))
         \<and> (\<not> ts_native_control_source_aware state \<and> pe_backend peer = TBV_BACKEND_NATIVE
             \<and> pe_backend peer' = TBV_BACKEND_NATIVE \<longrightarrow>
            \<not> tbv_xdomain_same_remote_host (Some (pe_xd peer)) (Some (pe_xd peer'))
            \<and> ra_key ` set (pe_rails peer) \<inter> ra_key ` set (pe_rails peer') = {}))"
proof -
  have ok: "topo_ok state" by (rule topo_reachable_ok [OF assms(1)])
  then have p: "peer_ok peer" using assms(2) by (simp add: topo_ok_def list_all_iff)
  have pair: "P peer peer' \<or> P peer' peer"
    if "sorted_wrt P (ts_peers state)" "peer' \<in> set (ts_peers state)" "peer' \<noteq> peer" for P peer'
  proof -
    have "P x y \<or> P y x" if "sorted_wrt P ps" "x \<in> set ps" "y \<in> set ps" "x \<noteq> y" for ps x y
      using that by (induction ps) auto
    then show ?thesis using that assms(2) by blast
  qed
  have ap: "apart peer peer' \<or> apart peer' peer" if "peer' \<in> set (ts_peers state)" "peer' \<noteq> peer" for peer'
    using pair [of apart] ok that by (simp add: topo_ok_def)
  have te: "tellable peer peer' \<or> tellable peer' peer"
    if "peer' \<in> set (ts_peers state)" "peer' \<noteq> peer" "\<not> ts_native_control_source_aware state" for peer'
    using pair [of tellable] ok that by (simp add: topo_ok_def)
  have "unat (pe_nr_rails peer) = length (pe_rails peer)"
    using p by (auto simp: peer_ok_def unat_of_nat)
  then show ?thesis
    using p ap te
    by (fastforce simp: peer_ok_def rail_ok_def list_all_iff apart_def tellable_def same_remote_host_sym)
qed

text \<open>A state without peers, two XDomains of different hosts on the same route, and an allocator of numbers.\<close>

definition empty_state :: "bool \<Rightarrow> tbv_state" where
  "empty_state source_aware =
     \<lparr>ts_cfg = \<lparr>rc_requested = params_demo, rc_profile = TBV_PROFILE_LINUX_PERF, rc_tbnet_identity = TBV_TBNET_ID_OFF,
                rc_native_enabled = True, rc_apple_enabled = False, rc_rc_supported = True, rc_uc_supported = True\<rparr>,
      ts_peers = [], ts_next_peer_id = 1, ts_allocate_rings = True, ts_start_rings = True,
      ts_negotiate_native = True, ts_enable_tunnels = True, ts_native_data = True, ts_apple_data = False,
      ts_services_registered = True, ts_native_control_registered = True,
      ts_native_control_source_aware = source_aware, ts_native_legacy_multicable_warned = False,
      ts_apple_rails_wait_tbnet = False, ts_apple_rails_pending = False,
      ts_native_legacy_ambiguous_limited = 0, ts_register_verbs = True, ts_verbs_registered = False,
      ts_register_enabled = False, ts_ibdev_netdev_nb_registered = False, ts_log = [], ts_sent = []\<rparr>"

definition demo_xd :: "nat \<Rightarrow> tb_xdomain" where
  "demo_xd a = \<lparr>xd_addr = a, xd_route = 1, xd_link = 0, xd_depth = 0, xd_remote_uuid = Some [of_nat a],
     xd_vendor_name = None, xd_link_speed = 40, xd_link_width = 2, xd_tb_index = Some 0\<rparr>"

definition demo_rail_env :: "nat \<Rightarrow> rail_env" where
  "demo_rail_env a = \<lparr>re_alloc = Some a,
     re_ida_alloc = (\<lambda>ids. if 0 \<notin> set ids then Inr 0 else if 1 \<notin> set ids then Inr 1 else Inl ENOSPC),
     re_native_e2e = - 1, re_pci = None, re_apple_tx_raw_mode = False, re_apple_rx_raw_mode = False,
     re_apple_tx_e2e = False, re_thr_rings = []\<rparr>"

lemmas topo_eval = empty_state_def demo_xd_def demo_rail_env_def tbv_peer_get_or_create_def tbv_backend_get_def
  tbv_native_legacy_xdomain_allowed_locked_def fresh_peer_def on_peer_def tbv_peer_add_rail_def find_peer_def
  tbv_native_legacy_rail_key_allowed_locked_def fresh_rail_def tbv_rail_key_cmp_def rail_addrs_def
  tbv_peer_matches_def tbv_xdomain_same_remote_host_def count_legacy_limited_def

text \<open>One peer; its second lane is probed first.\<close>

definition demo_topology :: tbv_state where
  "demo_topology =
     snd (tbv_peer_add_rail (demo_rail_env 31) 10 (Rail_key 1 0 0 1) 0
       (snd (tbv_peer_add_rail (demo_rail_env 30) 10 (Rail_key 1 0 0 257) 1
         (snd (tbv_peer_get_or_create (Some 11) TBV_BACKEND_NATIVE (demo_xd 5)
           (snd (tbv_peer_get_or_create (Some 10) TBV_BACKEND_NATIVE (demo_xd 5) (empty_state False))))))))"

lemma demo_topology_eval:
  "map (\<lambda>peer. (pe_addr peer, pe_refcnt peer, map (\<lambda>r. (ra_addr r, k_path_id (ra_key r), ra_rail_id r)) (pe_rails peer)))
     (ts_peers demo_topology) = [(10, 2, [(31, 1, 1), (30, 257, 0)])]"
  by (simp add: demo_topology_def topo_eval Let_def)

lemma demo_reachable: "topo_reachable demo_topology"
proof -
  let ?s0 = "snd (tbv_peer_get_or_create (Some 10) TBV_BACKEND_NATIVE (demo_xd 5) (empty_state False))"
  let ?s1 = "snd (tbv_peer_get_or_create (Some 11) TBV_BACKEND_NATIVE (demo_xd 5) ?s0)"
  let ?s2 = "snd (tbv_peer_add_rail (demo_rail_env 30) 10 (Rail_key 1 0 0 257) 1 ?s1)"
  have "topo_reachable (empty_state False)" by (rule topo_init) (simp add: empty_state_def)
  then have "topo_reachable ?s0" by (rule topo_create) (simp add: empty_state_def)
  then have "topo_reachable ?s1" by (rule topo_create) (simp add: topo_eval)
  then have "topo_reachable ?s2"
    by (rule topo_add [where b = 30]) (auto simp: topo_eval Let_def split: if_splits)
  then show ?thesis
    unfolding demo_topology_def
    by (rule topo_add [where b = 31]) (auto simp: topo_eval Let_def split: if_splits)
qed

theorem topology_invariant_witness:
  "\<exists>peer. ts_peers demo_topology = [peer] \<and> map (k_path_id \<circ> ra_key) (pe_rails peer) = [1, 257]
     \<and> sorted_wrt (<) (map ra_key (pe_rails peer)) \<and> distinct (map ra_rail_id (pe_rails peer))
     \<and> unat (pe_nr_rails peer) = length (pe_rails peer) \<and> length (pe_rails peer) \<le> pe_refcnt peer"
proof -
  obtain peer where p: "ts_peers demo_topology = [peer]"
      "map (k_path_id \<circ> ra_key) (pe_rails peer) = [1, 257]"
    by (simp add: demo_topology_def topo_eval Let_def)
  then show ?thesis using topology_invariant [OF demo_reachable, of peer] by auto
qed

end
