(* ===== verification/Publish.thy ===== *)
theory Publish
  imports Peer Scan
begin

text \<open>
  Publication of rails as verbs devices, from \<^verbatim>\<open>src/kernel/ibdev.c\<close>: when a rail may be published, the name
  and the GUID of its device, the up and down edges, the loop that catches up with rails that became
  ready before the verbs layer started, the retry when a network device appears, and the loop that
  unregisters everything at the end. Each loop is a \<open>partial_function\<close>: that it returns is proved.
\<close>

section \<open>Operations\<close>

text \<open>
  What the verbs layer reads and asks besides the state: sessions of the packet mode (the remote host
  and whether its path is enabled), network devices by name with whether they are registered, and
  the answers of the RDMA core, which for a registration may depend on the names in use.
\<close>

record pub_env =
  pb_mode :: tbv_tbnet_identity_mode
  pb_sessions :: "(u8 list \<times> bool) list"
  pb_roce_netdev :: "string ptr"
  pb_gid_netdev_name :: string
  pb_netdev :: "string \<Rightarrow> bool ptr"
  pb_alloc :: bool
  pb_set_netdev :: "unit res"
  pb_register :: "string list \<Rightarrow> string \<Rightarrow> unit res"

definition tbv_tbnet_minimal_path_ready :: "pub_env \<Rightarrow> u8 list ptr \<Rightarrow> bool" where
  "tbv_tbnet_minimal_path_ready env remote_uuid \<longleftrightarrow>
     pb_mode env = TBV_TBNET_ID_MINIMAL_PACKET
     \<and> list_ex (\<lambda>(uuid, path_enabled).
          (case remote_uuid of None \<Rightarrow> True | Some u \<Rightarrow> uuid = u) \<and> path_enabled) (pb_sessions env)"

definition tbv_ibdev_rail_publish_ready_locked :: "pub_env \<Rightarrow> tbv_state \<Rightarrow> tbv_peer \<Rightarrow> tbv_rail \<Rightarrow> bool" where
  "tbv_ibdev_rail_publish_ready_locked env state peer rail =
     (if ra_removing rail then False
      else if pe_backend peer = TBV_BACKEND_NATIVE then tbv_rail_data_ready (pe_backend peer) rail
      else if pe_backend peer \<noteq> TBV_BACKEND_APPLE then False
      else if ts_apple_rails_wait_tbnet state
              \<and> \<not> tbv_tbnet_minimal_path_ready env (xd_remote_uuid (pe_xd peer)) then False
      else if \<not> tbv_rail_apple_data_ready rail then False
      else True)"

abbreviation TBV_NATIVE_MAX_LANES :: nat where "TBV_NATIVE_MAX_LANES \<equiv> 4"

definition tbv_ibdev_rail_name_index :: "tbv_peer \<Rightarrow> tbv_rail \<Rightarrow> int res" where
  "tbv_ibdev_rail_name_index peer rail =
     (case xd_tb_index (pe_xd peer) of
        None \<Rightarrow> Inl ENODEV
      | Some domain_idx \<Rightarrow>
          if domain_idx < 0 then Inl ENODEV
          else if pe_backend peer = TBV_BACKEND_NATIVE
          then (if unat (ra_native_lane rail) \<ge> TBV_NATIVE_MAX_LANES then Inl ERANGE
                else Inr (domain_idx * 5 + uint (ra_native_lane rail)))
          else Inr (domain_idx * 5 + 4))"

text \<open>\<open>snprintf\<close> into 16 bytes.\<close>

definition ibdev_name :: "int \<Rightarrow> string" where
  "ibdev_name idx = take 15 (''usb4_rdma'' @ dec (nat idx))"

definition tbv_ibdev_netdev_name_for :: "pub_env \<Rightarrow> tbv_backend_type \<Rightarrow> string ptr" where
  "tbv_ibdev_netdev_name_for env backend =
     (let name = (if backend = TBV_BACKEND_APPLE \<and> pb_gid_netdev_name env \<noteq> '''' then Some (pb_gid_netdev_name env)
                  else pb_roce_netdev env)
      in if name = None \<or> name = Some '''' then None else name)"

definition tbv_ibdev_attach_netdev :: "pub_env \<Rightarrow> tbv_backend_type \<Rightarrow> (string ptr) res" where
  "tbv_ibdev_attach_netdev env backend =
     (case tbv_ibdev_netdev_name_for env backend of
        None \<Rightarrow> Inr None
      | Some name \<Rightarrow>
          (case pb_netdev env name of
             None \<Rightarrow> Inl EPROBE_DEFER
           | Some registered \<Rightarrow>
               if \<not> registered then Inl EPROBE_DEFER
               else (case pb_set_netdev env of Inl e \<Rightarrow> Inl e | Inr _ \<Rightarrow> Inr (Some name))))"

definition tbv_ibdev_required_netdev_registered :: "pub_env \<Rightarrow> tbv_peer \<Rightarrow> bool" where
  "tbv_ibdev_required_netdev_registered env peer =
     (case tbv_ibdev_netdev_name_for env (pe_backend peer) of
        None \<Rightarrow> True
      | Some name \<Rightarrow> (case pb_netdev env name of None \<Rightarrow> False | Some registered \<Rightarrow> registered))"

fun backend_number :: "tbv_backend_type \<Rightarrow> u64" where
  "backend_number TBV_BACKEND_NATIVE = 0"
| "backend_number TBV_BACKEND_APPLE = 1"

definition rail_node_guid :: "tbv_peer \<Rightarrow> tbv_rail \<Rightarrow> u64" where
  "rail_node_guid peer rail =
     0x0200544256524253 + push_bit 56 (backend_number (pe_backend peer))
     + push_bit 24 (ucast (pe_peer_id peer)) + ucast (ra_rail_id rail)"

text \<open>All rails with their peers, in the order of the nested loops, and a rail by its address.\<close>

definition pairs :: "tbv_state \<Rightarrow> (tbv_peer \<times> tbv_rail) list" where
  "pairs state = concat (map (\<lambda>peer. map (Pair peer) (pe_rails peer)) (ts_peers state))"

definition locate :: "nat \<Rightarrow> tbv_state \<Rightarrow> (tbv_peer \<times> tbv_rail) option" where
  "locate a state = find (\<lambda>(peer, rail). ra_addr rail = a) (pairs state)"

definition device_names :: "tbv_state \<Rightarrow> string list" where
  "device_names state = map ib_name (List.map_filter (\<lambda>(peer, rail). ra_ibdev rail) (pairs state))"

definition tbv_ibdev_register_one ::
  "pub_env \<Rightarrow> tbv_state \<Rightarrow> tbv_peer \<Rightarrow> tbv_rail \<Rightarrow> string \<Rightarrow> tbv_ibdev res" where
  "tbv_ibdev_register_one env state peer rail name =
     (if hw_tx_ring (ra_hw rail) = None then Inl ENODEV
      else if \<not> pb_alloc env then Inl ENOMEM
      else case tbv_ibdev_attach_netdev env (pe_backend peer) of
             Inl e \<Rightarrow> Inl e
           | Inr netdev \<Rightarrow>
               (case pb_register env (device_names state) name of
                  Inl e \<Rightarrow> Inl e
                | Inr _ \<Rightarrow> Inr \<lparr>ib_name = name, ib_backend = pe_backend peer,
                                ib_node_guid = rail_node_guid peer rail, ib_netdev = netdev\<rparr>))"

definition mark_failed :: "tbv_rail \<Rightarrow> tbv_rail" where
  "mark_failed rail = rail\<lparr>ra_ibdev_register_failed := True, ra_ibdev_register_deferred := False\<rparr>"

definition mark_deferred :: "bool \<Rightarrow> tbv_rail \<Rightarrow> tbv_rail" where
  "mark_deferred b rail = rail\<lparr>ra_ibdev_register_deferred := b\<rparr>"

definition mark_published :: "tbv_ibdev \<Rightarrow> tbv_rail \<Rightarrow> tbv_rail" where
  "mark_published dev rail = rail\<lparr>ra_ibdev_register_deferred := False, ra_ibdev := Some dev\<rparr>"

definition handled :: "tbv_rail \<Rightarrow> bool" where
  "handled rail \<longleftrightarrow> ra_ibdev rail \<noteq> None \<or> ra_ibdev_register_failed rail \<or> ra_ibdev_register_deferred rail"

definition tbv_ibdev_rail_event :: "pub_env \<Rightarrow> nat \<Rightarrow> bool \<Rightarrow> tbv_state \<Rightarrow> unit res \<times> tbv_state" where
  "tbv_ibdev_rail_event env a joined state =
     (if \<not> joined then (Inr (), ibdev_rail_down a state)
      else if \<not> ts_register_enabled state then (Inr (), state)
      else case locate a state of
        None \<Rightarrow> (Inr (), state)
      | Some (peer, rail) \<Rightarrow>
          if ra_ibdev rail \<noteq> None then (Inr (), state)
          else if ra_ibdev_register_failed rail then (Inr (), state)
          else if ra_ibdev_register_deferred rail then (Inr (), state)
          else if \<not> tbv_ibdev_rail_publish_ready_locked env state peer rail then (Inr (), state)
          else case tbv_ibdev_rail_name_index peer rail of
            Inl e \<Rightarrow> (Inl e, on_rail a mark_failed state)
          | Inr idx \<Rightarrow>
              (case tbv_ibdev_register_one env state peer rail (ibdev_name idx) of
                 Inl e \<Rightarrow>
                   if e = EPROBE_DEFER then (Inl e, on_rail a (mark_deferred True) state)
                   else (Inl e, on_rail a mark_failed state)
               | Inr dev \<Rightarrow>
                   (Inr (), on_rail a (mark_published dev)
                      (state\<lparr>ts_log := ts_log state @ [(mark_published dev rail, True)]\<rparr>))))"

text \<open>A rail is used, with a reference, outside the lock.\<close>

definition with_rail :: "nat \<Rightarrow> (tbv_state \<Rightarrow> tbv_state) \<Rightarrow> tbv_state \<Rightarrow> tbv_state" where
  "with_rail a f state = tbv_rail_put a (f (on_rail a rail_get state))"

definition next_rail :: "(tbv_peer \<Rightarrow> tbv_rail \<Rightarrow> bool) \<Rightarrow> tbv_state \<Rightarrow> nat option" where
  "next_rail P state = map_option (ra_addr \<circ> snd) (find (\<lambda>(peer, rail). P peer rail) (pairs state))"

definition catchup_rail :: "pub_env \<Rightarrow> tbv_state \<Rightarrow> tbv_peer \<Rightarrow> tbv_rail \<Rightarrow> bool" where
  "catchup_rail env state peer rail \<longleftrightarrow>
     \<not> handled rail \<and> tbv_ibdev_rail_publish_ready_locked env state peer rail"

partial_function (option) ibdev_catchup :: "pub_env \<Rightarrow> tbv_state \<Rightarrow> tbv_state option" where
  "ibdev_catchup env state =
     (case next_rail (catchup_rail env state) state of
        None \<Rightarrow> Some state
      | Some a \<Rightarrow> ibdev_catchup env (with_rail a (snd \<circ> tbv_ibdev_rail_event env a True) state))"

text \<open>\<open>notifier\<close> is the answer of \<open>register_netdevice_notifier\<close>.\<close>

definition tbv_ibdev_register_netdev_notifier :: "unit res \<Rightarrow> tbv_state \<Rightarrow> unit res \<times> tbv_state" where
  "tbv_ibdev_register_netdev_notifier notifier state =
     (if ts_ibdev_netdev_nb_registered state then (Inr (), state)
      else case notifier of
             Inl e \<Rightarrow> (Inl e, state)
           | Inr _ \<Rightarrow> (Inr (), state\<lparr>ts_ibdev_netdev_nb_registered := True\<rparr>))"

definition tbv_ibdev_start :: "pub_env \<Rightarrow> unit res \<Rightarrow> bool \<Rightarrow> tbv_state \<Rightarrow> (unit res \<times> tbv_state) option" where
  "tbv_ibdev_start env notifier register_verbs state =
     (let state = state\<lparr>ts_register_verbs := register_verbs\<rparr>
      in if \<not> register_verbs then Some (Inr (), state)
         else case tbv_ibdev_register_netdev_notifier notifier state of
                (Inl e, state) \<Rightarrow> Some (Inl e, state)
              | (Inr _, state) \<Rightarrow>
                  map_option (Pair (Inr ()))
                    (ibdev_catchup env (state\<lparr>ts_verbs_registered := True, ts_register_enabled := True\<rparr>)))"

text \<open>The retry when a network device appears: deferred rails are replayed one by one.\<close>

definition retry_rail :: "pub_env \<Rightarrow> tbv_state \<Rightarrow> tbv_peer \<Rightarrow> tbv_rail \<Rightarrow> bool" where
  "retry_rail env state peer rail \<longleftrightarrow>
     \<not> (\<not> ra_ibdev_register_deferred rail \<or> ra_ibdev rail \<noteq> None \<or> ra_ibdev_register_failed rail)
     \<and> tbv_ibdev_required_netdev_registered env peer
     \<and> tbv_ibdev_rail_publish_ready_locked env state peer rail"

definition retry_one :: "pub_env \<Rightarrow> nat \<Rightarrow> tbv_state \<Rightarrow> tbv_state" where
  "retry_one env a state =
     (case locate a state of
        None \<Rightarrow> state
      | Some (peer, target) \<Rightarrow>
          if ra_ibdev_register_deferred target \<and> ra_ibdev target = None \<and> \<not> ra_ibdev_register_failed target
          then snd (tbv_ibdev_rail_event env a True (on_rail a (mark_deferred False) state))
          else state)"

partial_function (option) tbv_ibdev_netdev_retry_work :: "pub_env \<Rightarrow> tbv_state \<Rightarrow> tbv_state option" where
  "tbv_ibdev_netdev_retry_work env state =
     (case next_rail (retry_rail env state) state of
        None \<Rightarrow> Some state
      | Some a \<Rightarrow> tbv_ibdev_netdev_retry_work env (with_rail a (retry_one env a) state))"

text \<open>The loop of \<open>tbv_ibdev_stop\<close> that unregisters what is still published.\<close>

partial_function (option) ibdev_unregister_all :: "pub_env \<Rightarrow> tbv_state \<Rightarrow> tbv_state option" where
  "ibdev_unregister_all env state =
     (case next_rail (\<lambda>peer rail. ra_ibdev rail \<noteq> None) state of
        None \<Rightarrow> Some state
      | Some a \<Rightarrow> ibdev_unregister_all env (with_rail a (snd \<circ> tbv_ibdev_rail_event env a False) state))"

text \<open>A network device that is renamed or goes away is detached from the devices that use it.\<close>

definition detach_netdev :: "tbv_ibdev \<Rightarrow> tbv_ibdev" where
  "detach_netdev dev = dev\<lparr>ib_netdev := None\<rparr>"

definition tbv_ibdev_detach_matching_netdev :: "pub_env \<Rightarrow> string \<Rightarrow> string \<Rightarrow> bool \<Rightarrow> tbv_state \<Rightarrow> tbv_state" where
  "tbv_ibdev_detach_matching_netdev env ndev new_name detach_renamed state =
     state\<lparr>ts_peers := map (\<lambda>peer. peer\<lparr>pe_rails := map (\<lambda>rail.
        (case ra_ibdev rail of
           None \<Rightarrow> rail
         | Some dev \<Rightarrow>
             if ib_netdev dev \<noteq> Some ndev then rail
             else if detach_renamed \<and> tbv_ibdev_netdev_name_for env (ib_backend dev) = Some new_name then rail
             else rail\<lparr>ra_ibdev := Some (detach_netdev dev)\<rparr>)) (pe_rails peer)\<rparr>) (ts_peers state)\<rparr>"

section \<open>Rails by address\<close>

definition moved :: "nat \<Rightarrow> (tbv_rail \<Rightarrow> tbv_rail) \<Rightarrow> tbv_rail \<Rightarrow> tbv_rail" where
  "moved a f rail = (if ra_addr rail = a then f rail else rail)"

definition with_rails :: "(tbv_rail \<Rightarrow> tbv_rail) \<Rightarrow> tbv_peer \<Rightarrow> tbv_peer" where
  "with_rails g peer = peer\<lparr>pe_rails := map g (pe_rails peer)\<rparr>"

lemma with_rails_simps [simp]:
  "pe_rails (with_rails g peer) = map g (pe_rails peer)" "pe_backend (with_rails g peer) = pe_backend peer"
  "pe_xd (with_rails g peer) = pe_xd peer" "pe_peer_id (with_rails g peer) = pe_peer_id peer"
  "pe_addr (with_rails g peer) = pe_addr peer"
  by (simp_all add: with_rails_def)

lemma on_rail_alt: "on_rail a f state = state\<lparr>ts_peers := map (with_rails (moved a f)) (ts_peers state)\<rparr>"
  by (simp add: on_rail_def with_rails_def moved_def fun_eq_iff)

lemma on_rail_fields [simp]:
  "ts_register_enabled (on_rail a f state) = ts_register_enabled state"
  "ts_apple_rails_wait_tbnet (on_rail a f state) = ts_apple_rails_wait_tbnet state"
  "ts_log (on_rail a f state) = ts_log state" "ts_cfg (on_rail a f state) = ts_cfg state"
  "ts_native_control_source_aware (on_rail a f state) = ts_native_control_source_aware state"
  "ts_negotiate_native (on_rail a f state) = ts_negotiate_native state"
  "ts_enable_tunnels (on_rail a f state) = ts_enable_tunnels state"
  by (simp_all add: on_rail_def)

lemma on_rail_log: "on_rail a f (state\<lparr>ts_log := l\<rparr>) = (on_rail a f state)\<lparr>ts_log := l\<rparr>"
  by (simp add: on_rail_def)

lemma pairs_log [simp]: "pairs (state\<lparr>ts_log := l\<rparr>) = pairs state"
  by (simp add: pairs_def)

lemma pairs_on_rail: "pairs (on_rail a f state) = map (map_prod (with_rails (moved a f)) (moved a f)) (pairs state)"
  by (simp add: pairs_def on_rail_alt map_concat comp_def)

lemma set_pairs: "(peer, rail) \<in> set (pairs state) \<longleftrightarrow> peer \<in> set (ts_peers state) \<and> rail \<in> set (pe_rails peer)"
  by (auto simp: pairs_def)

lemma pair_in_all_rails: "(peer, rail) \<in> set (pairs state) \<Longrightarrow> rail \<in> all_rails state"
  by (auto simp: set_pairs all_rails_def)

text \<open>Addresses of rails are distinct over all peers, so that an address finds its rail.\<close>

lemma topo_ok_distinct_addrs:
  assumes "topo_ok state" shows "distinct (map (ra_addr \<circ> snd) (pairs state))"
proof -
  have "distinct (concat (map (map ra_addr \<circ> pe_rails) peers))"
    if "list_all peer_ok peers" "sorted_wrt apart peers" for peers
    using that
  proof (induction peers)
    case (Cons peer peers)
    have "ra_addr ` set (pe_rails peer) \<inter> ra_addr ` set (pe_rails q) = {}" if "q \<in> set peers" for q
      using Cons.prems(2) that by (simp add: apart_def)
    then show ?case using Cons by (auto simp: peer_ok_def)
  qed simp
  moreover have "map (ra_addr \<circ> snd) (pairs state) = concat (map (map ra_addr \<circ> pe_rails) (ts_peers state))"
    by (simp add: pairs_def map_concat comp_def)
  ultimately show ?thesis using assms by (simp add: topo_ok_def)
qed

lemma find_distinct_key:
  assumes "distinct (map k xs)" and "x \<in> set xs" and "k x = a"
  shows "find (\<lambda>x. k x = a) xs = Some x"
  using assms by (induction xs) (auto simp: rev_image_eqI)

lemma filter_distinct_key:
  assumes "distinct (map k xs)" and "x \<in> set xs"
  shows "filter (\<lambda>y. k y = k x) xs = [x]"
  using assms by (induction xs) (auto simp: filter_empty_conv rev_image_eqI)

lemma locate_pair:
  assumes "topo_ok state" and "(peer, rail) \<in> set (pairs state)"
  shows "locate (ra_addr rail) state = Some (peer, rail)"
  using find_distinct_key [OF topo_ok_distinct_addrs [OF assms(1)] assms(2)]
  by (simp add: locate_def case_prod_unfold)

lemma locate_Some: "locate a state = Some (peer, rail) \<Longrightarrow> (peer, rail) \<in> set (pairs state) \<and> ra_addr rail = a"
  by (auto simp: locate_def dest: find_Some_iff_set)

lemma locate_on_rail:
  assumes "\<And>rail. ra_addr (f rail) = ra_addr rail"
  shows "locate b (on_rail a f state)
    = map_option (map_prod (with_rails (moved a f)) (moved a f)) (locate b state)"
proof -
  have "(\<lambda>(peer, rail). ra_addr rail = b) \<circ> map_prod (with_rails (moved a f)) (moved a f)
      = (\<lambda>(peer, rail). ra_addr rail = b)"
    using assms by (auto simp: fun_eq_iff moved_def)
  then show ?thesis by (simp add: locate_def pairs_on_rail find_map_index)
qed

lemma locate_log [simp]: "locate a (state\<lparr>ts_log := l\<rparr>) = locate a state"
  by (simp add: locate_def)

lemma next_rail_Some:
  assumes "next_rail P state = Some a"
  obtains peer rail where "(peer, rail) \<in> set (pairs state)" "P peer rail" "ra_addr rail = a"
  using assms by (auto simp: next_rail_def dest!: find_Some_iff_set)

lemma next_rail_None: "next_rail P state = None \<longleftrightarrow> (\<forall>(peer, rail) \<in> set (pairs state). \<not> P peer rail)"
  by (auto simp: next_rail_def find_None_iff)

lemma on_rail_comp:
  assumes "\<And>rail. ra_addr (f rail) = ra_addr rail"
  shows "on_rail a g (on_rail a f state) = on_rail a (g \<circ> f) state"
  using assms by (auto simp: on_rail_def comp_def)

lemma on_rail_cong:
  assumes "\<And>rail. rail \<in> all_rails state \<Longrightarrow> ra_addr rail = a \<Longrightarrow> f rail = g rail"
  shows "on_rail a f state = on_rail a g state"
proof -
  have "with_rails (moved a f) peer = with_rails (moved a g) peer" if "peer \<in> set (ts_peers state)" for peer
  proof -
    have "map (moved a f) (pe_rails peer) = map (moved a g) (pe_rails peer)"
      using assms that by (auto simp: moved_def all_rails_def)
    then show ?thesis by (simp add: with_rails_def)
  qed
  then show ?thesis by (simp add: on_rail_alt cong: map_cong)
qed

section \<open>The three loops\<close>

text \<open>
  A loop that takes the next piece of work and handles it, as long as there is one. When every step
  keeps an invariant and reduces the work, the loop returns, with nothing left to take.
\<close>

locale draining_loop =
  fixes sel :: "'s \<Rightarrow> 'a option" and step :: "'a \<Rightarrow> 's \<Rightarrow> 's" and loop :: "'s \<Rightarrow> 's option"
    and inv :: "'s \<Rightarrow> bool" and todo :: "'s \<Rightarrow> nat"
  assumes loop_unfold: "loop s = (case sel s of None \<Rightarrow> Some s | Some a \<Rightarrow> loop (step a s))"
    and inv_step: "inv s \<Longrightarrow> sel s = Some a \<Longrightarrow> inv (step a s)"
    and todo_step: "inv s \<Longrightarrow> sel s = Some a \<Longrightarrow> todo (step a s) < todo s"
begin

lemma loop_returns:
  assumes "inv s" shows "\<exists>s'. loop s = Some s' \<and> inv s' \<and> sel s' = None"
  using assms
proof (induction "todo s" arbitrary: s rule: less_induct)
  case less
  show ?case
  proof (cases "sel s")
    case None
    then show ?thesis using less.prems by (simp add: loop_unfold [of s])
  next
    case (Some a)
    then have "\<exists>s'. loop (step a s) = Some s' \<and> inv s' \<and> sel s' = None"
      using less.prems by (intro less.hyps todo_step inv_step)
    then show ?thesis using Some by (simp add: loop_unfold [of s])
  qed
qed

end

text \<open>What publication may change of a rail.\<close>

definition unpublished :: "tbv_rail \<Rightarrow> tbv_rail" where
  "unpublished rail = rail\<lparr>ra_ibdev := None, ra_ibdev_register_failed := False, ra_ibdev_register_deferred := False\<rparr>"

definition publishing :: "(tbv_rail \<Rightarrow> tbv_rail) \<Rightarrow> bool" where
  "publishing f \<longleftrightarrow> f = mark_failed \<or> (\<exists>b. f = mark_deferred b)
     \<or> (\<exists>dev. f = mark_published dev) \<or> f = rail_down"

lemmas mark_defs = mark_failed_def mark_deferred_def mark_published_def rail_down_def

lemma publishing_unpublished: "publishing f \<Longrightarrow> unpublished (f rail) = unpublished rail"
  by (auto simp: publishing_def unpublished_def mark_defs)

lemma unpublished_fields:
  assumes "unpublished r = unpublished r'"
  shows "ra_addr r = ra_addr r'" "ra_key r = ra_key r'" "ra_rail_id r = ra_rail_id r'" "ra_refcnt r = ra_refcnt r'"
    "ra_refs_zero r = ra_refs_zero r'" "ra_removing r = ra_removing r'" "ra_hw r = ra_hw r'"
    "ra_native_ready_sent r = ra_native_ready_sent r'" "ra_native_remote_ready r = ra_native_remote_ready r'"
    "ra_native_lane r = ra_native_lane r'"
  using arg_cong [OF assms, of ra_addr]
    arg_cong [OF assms, of ra_key]
    arg_cong [OF assms, of ra_rail_id]
    arg_cong [OF assms, of ra_refcnt]
    arg_cong [OF assms, of ra_refs_zero]
    arg_cong [OF assms, of ra_removing]
    arg_cong [OF assms, of ra_hw]
    arg_cong [OF assms, of ra_native_ready_sent]
    arg_cong [OF assms, of ra_native_remote_ready]
    arg_cong [OF assms, of ra_native_lane]
  by (simp_all add: unpublished_def)

lemma ready_cong:
  assumes "unpublished r = unpublished r'" and "pe_backend p = pe_backend p'" and "pe_xd p = pe_xd p'"
    and "ts_apple_rails_wait_tbnet s = ts_apple_rails_wait_tbnet s'"
  shows "tbv_ibdev_rail_publish_ready_locked env s p r = tbv_ibdev_rail_publish_ready_locked env s' p' r'"
  using unpublished_fields [OF assms(1)] assms(2-4)
  by (simp add: tbv_ibdev_rail_publish_ready_locked_def tbv_rail_data_ready_def tbv_rail_apple_data_ready_def)

lemma ready_not_removing: "tbv_ibdev_rail_publish_ready_locked env s p r \<Longrightarrow> \<not> ra_removing r"
  by (auto simp: tbv_ibdev_rail_publish_ready_locked_def)

lemma rail_get_view [simp]:
  "ra_addr (rail_get r) = ra_addr r" "ra_ibdev (rail_get r) = ra_ibdev r" "ra_hw (rail_get r) = ra_hw r"
  "ra_ibdev_register_failed (rail_get r) = ra_ibdev_register_failed r" "handled (rail_get r) = handled r"
  "ra_ibdev_register_deferred (rail_get r) = ra_ibdev_register_deferred r"
  "tbv_rail_data_ready b (rail_get r) = tbv_rail_data_ready b r" "ra_removing (rail_get r) = ra_removing r"
  "tbv_ibdev_rail_publish_ready_locked env s p (rail_get r) = tbv_ibdev_rail_publish_ready_locked env s p r"
  by (simp_all add: rail_get_def handled_def tbv_ibdev_rail_publish_ready_locked_def tbv_rail_data_ready_def
      tbv_rail_apple_data_ready_def)

lemma put_publishing_get:
  assumes "publishing f" and "0 < ra_refcnt r"
  shows "rail_put (f (rail_get r)) = f r"
  using assms by (auto simp: publishing_def mark_defs rail_put_def rail_get_def Let_def)

lemma publishing_addr: "publishing f \<Longrightarrow> ra_addr (f r) = ra_addr r"
  by (auto simp: publishing_def mark_defs)

lemma publishing_steady: "publishing f \<Longrightarrow> steady f"
  by (auto simp: publishing_def mark_defs steady_def)

text \<open>A step of a loop on a rail that is referenced changes only its publication.\<close>

lemma with_rail_publishing:
  assumes "topo_ok state" and "(peer, rail) \<in> set (pairs state)" and "0 < ra_refcnt rail" and "publishing f"
    and "g (on_rail (ra_addr rail) rail_get state)
      = (on_rail (ra_addr rail) f (on_rail (ra_addr rail) rail_get state))\<lparr>ts_log := l\<rparr>"
  shows "with_rail (ra_addr rail) g state = (on_rail (ra_addr rail) f state)\<lparr>ts_log := l\<rparr>"
proof -
  have one: "r = rail" if m: "r \<in> all_rails state" and ad: "ra_addr r = ra_addr rail" for r
  proof -
    obtain p where "(p, r) \<in> set (pairs state)" using m by (auto simp: all_rails_def set_pairs)
    from locate_pair [OF assms(1) this] locate_pair [OF assms(1,2)] ad show ?thesis
      by (metis Pair_inject option.inject)
  qed
  have "on_rail (ra_addr rail) (rail_put \<circ> (f \<circ> rail_get)) state = on_rail (ra_addr rail) f state"
    by (rule on_rail_cong) (use one assms(3,4) put_publishing_get in auto)
  then show ?thesis
    using assms(4,5) by (simp add: with_rail_def tbv_rail_put_def on_rail_log on_rail_comp publishing_addr comp_assoc)
qed

lemma topo_ok_publishing:
  assumes "topo_ok state" and "publishing f" shows "topo_ok ((on_rail a f state)\<lparr>ts_log := l\<rparr>)"
proof -
  have "rail_ok (f r)" if "rail_ok r" for r
    using that unpublished_fields [OF publishing_unpublished [OF assms(2)]] by (simp add: rail_ok_def)
  then have "topo_ok (on_rail a f state)"
    using assms by (intro topo_ok_on_rail publishing_steady) (auto dest: all_rails_ok)
  then show ?thesis by (rule topo_ok_cong) simp_all
qed

text \<open>The number of rails with a property drops when one of them loses it and no other gets it.\<close>

lemma pending_drops:
  assumes "topo_ok state" and "(peer, rail) \<in> set (pairs state)" and "Q rail" and "\<not> Q (f rail)"
  shows "length (filter (Q \<circ> snd) (pairs ((on_rail (ra_addr rail) f state)\<lparr>ts_log := l\<rparr>)))
    < length (filter (Q \<circ> snd) (pairs state))"
proof -
  have "length (filter (Q \<circ> moved (ra_addr rail) f \<circ> snd) ps) < length (filter (Q \<circ> snd) ps)"
    if "distinct (map (ra_addr \<circ> snd) ps)" "(peer, rail) \<in> set ps" for ps :: "(tbv_peer \<times> tbv_rail) list"
    using that
  proof (induction ps)
    case (Cons pr ps)
    show ?case
    proof (cases "pr = (peer, rail)")
      case True
      then have "moved (ra_addr rail) f r = r" if "(p, r) \<in> set ps" for p r
        using Cons.prems(1) that by (force simp: moved_def)
      then have "filter (Q \<circ> moved (ra_addr rail) f \<circ> snd) ps = filter (Q \<circ> snd) ps"
        by (intro filter_cong) auto
      moreover have "Q (snd pr)" "\<not> Q (moved (ra_addr rail) f (snd pr))"
        using True assms(3,4) by (simp_all add: moved_def)
      ultimately show ?thesis by (simp add: comp_def)
    next
      case False
      then have "(peer, rail) \<in> set ps" using Cons.prems(2) by auto
      moreover from this have "ra_addr (snd pr) \<noteq> ra_addr rail" using Cons.prems(1) by force
      ultimately show ?thesis using Cons by (auto simp: moved_def)
    qed
  qed simp
  then show ?thesis
    using topo_ok_distinct_addrs [OF assms(1)] assms(2)
    by (simp add: pairs_on_rail filter_map comp_def map_prod_def case_prod_unfold)
qed

text \<open>The edges, seen as changes of one rail.\<close>

lemma marks [simp]:
  "publishing mark_failed" "publishing (mark_deferred b)" "publishing (mark_published dev)" "publishing rail_down"
  "handled (mark_failed r)" "handled (mark_deferred True r)" "handled (mark_published dev r)"
  "\<not> ra_ibdev_register_deferred (mark_failed r)" "\<not> ra_ibdev_register_deferred (mark_published dev r)"
  "ra_ibdev_register_deferred (mark_deferred b r) = b" "ra_ibdev (mark_deferred b r) = ra_ibdev r"
  "ra_ibdev_register_failed (mark_deferred b r) = ra_ibdev_register_failed r" "ra_ibdev (rail_down r) = None"
  "mark_failed \<circ> mark_deferred b = mark_failed" "mark_published dev \<circ> mark_deferred b = mark_published dev"
  "mark_deferred b' \<circ> mark_deferred b = mark_deferred b'"
  by (auto simp: publishing_def handled_def mark_defs fun_eq_iff)

lemma event_up:
  assumes "locate a state = Some (peer, rail)" and "ts_register_enabled state" and "catchup_rail env state peer rail"
  shows "\<exists>f l. publishing f \<and> (\<forall>r. handled (f r)) \<and> (\<forall>b. f \<circ> mark_deferred b = f)
    \<and> ((\<forall>r. \<not> ra_ibdev_register_deferred (f r))
       \<or> (\<exists>name. tbv_ibdev_register_one env state peer rail name = Inl EPROBE_DEFER))
    \<and> snd (tbv_ibdev_rail_event env a True state) = (on_rail a f state)\<lparr>ts_log := l\<rparr>"
    (is "\<exists>f l. ?P f l")
proof -
  have "\<not> ra_ibdev_register_deferred rail" "ra_ibdev rail = None" "\<not> ra_ibdev_register_failed rail"
      "tbv_ibdev_rail_publish_ready_locked env state peer rail"
    using assms(3) by (simp_all add: catchup_rail_def handled_def)
  note e = tbv_ibdev_rail_event_def assms(1,2) this
  have fail: ?thesis if "snd (tbv_ibdev_rail_event env a True state) = on_rail a mark_failed state"
  proof -
    have "?P mark_failed (ts_log state)" using that by simp
    then show ?thesis by blast
  qed
  show ?thesis
  proof (cases "tbv_ibdev_rail_name_index peer rail")
    case (Inl x)
    then show ?thesis by (intro fail) (simp add: e)
  next
    case i: (Inr idx)
    show ?thesis
    proof (cases "tbv_ibdev_register_one env state peer rail (ibdev_name idx)")
      case (Inl x)
      show ?thesis
      proof (cases "x = EPROBE_DEFER")
        case True
        have "?P (mark_deferred True) (ts_log state)"
          using i Inl unfolding True by (auto simp: e)
        then show ?thesis by blast
      next
        case False
        then show ?thesis using i Inl by (intro fail) (simp add: e)
      qed
    next
      case (Inr dev)
      then have "?P (mark_published dev) (ts_log state @ [(mark_published dev rail, True)])"
        using i by (simp add: e on_rail_log)
      then show ?thesis by blast
    qed
  qed
qed

definition bare :: "tbv_peer \<Rightarrow> tbv_peer" where
  "bare peer = peer\<lparr>pe_rails := []\<rparr>"

lemma bare_fields:
  assumes "bare p = bare p'"
  shows "pe_backend p = pe_backend p'" "pe_xd p = pe_xd p'" "pe_peer_id p = pe_peer_id p'" "pe_addr p = pe_addr p'"
  using arg_cong [OF assms, of pe_backend] arg_cong [OF assms, of pe_xd] arg_cong [OF assms, of pe_peer_id]
    arg_cong [OF assms, of pe_addr]
  by (simp_all add: bare_def)

lemma bare_with_rails [simp]: "bare (with_rails g p) = bare p"
  by (simp add: bare_def with_rails_def)

text \<open>
  A state that differs from an earlier one only in the publication of some rails, each of which
  changed as \<open>R\<close> says.
\<close>

definition pub_rel :: "(tbv_peer \<Rightarrow> tbv_rail \<Rightarrow> tbv_rail \<Rightarrow> bool) \<Rightarrow> tbv_state \<Rightarrow> tbv_state \<Rightarrow> bool" where
  "pub_rel R s0 s \<longleftrightarrow>
     ts_apple_rails_wait_tbnet s = ts_apple_rails_wait_tbnet s0
     \<and> list_all2 (\<lambda>(p0, r0) (p, r). bare p = bare p0 \<and> unpublished r = unpublished r0 \<and> (r = r0 \<or> R p0 r0 r))
         (pairs s0) (pairs s)"

lemma pub_rel_refl: "pub_rel R s s"
  by (auto simp: pub_rel_def intro: list.rel_refl)

lemma pub_rel_step:
  assumes "pub_rel R s0 s" and "publishing f" and "topo_ok s" and "(peer, rail) \<in> set (pairs s)"
    and "\<And>p0 r0. bare p0 = bare peer \<Longrightarrow> unpublished r0 = unpublished rail \<Longrightarrow> rail = r0 \<or> R p0 r0 rail
      \<Longrightarrow> R p0 r0 (f rail)"
  shows "pub_rel R s0 ((on_rail (ra_addr rail) f s)\<lparr>ts_log := l\<rparr>)"
proof -
  let ?a = "ra_addr rail"
  have one: "r = rail \<and> bare p = bare peer" if "(p, r) \<in> set (pairs s)" "ra_addr r = ?a" for p r
    using locate_pair [OF assms(3) that(1)] locate_pair [OF assms(3,4)] that(2)
    by (metis Pair_inject option.inject)
  have "list_all2 (\<lambda>(p0, r0) (p, r). bare p = bare p0 \<and> unpublished r = unpublished r0 \<and> (r = r0 \<or> R p0 r0 r))
      (pairs s0) (map (map_prod (with_rails (moved ?a f)) (moved ?a f)) (pairs s))"
    unfolding list_all2_map2 using assms(1) [unfolded pub_rel_def, THEN conjunct2]
  proof (rule list.rel_mono_strong, clarsimp)
    fix p0 r0 p r
    assume m: "(p, r) \<in> set (pairs s)" and b: "bare p = bare p0" and u: "unpublished r = unpublished r0"
      and c: "r = r0 \<or> R p0 r0 r"
    show "unpublished (moved ?a f r) = unpublished r0 \<and> (moved ?a f r = r0 \<or> R p0 r0 (moved ?a f r))"
    proof (cases "ra_addr r = ?a")
      case True
      then have "r = rail" "bare p = bare peer" using one [OF m] by blast+
      then show ?thesis
        using assms(5) [of p0 r0] b u c True publishing_unpublished [OF assms(2)] by (simp add: moved_def)
    qed (use u c in \<open>simp add: moved_def\<close>)
  qed
  then show ?thesis using assms(1) by (simp add: pub_rel_def pairs_on_rail)
qed

lemma pub_relE:
  assumes "pub_rel R s0 s" and "(p, r) \<in> set (pairs s)"
  obtains p0 r0 where "(p0, r0) \<in> set (pairs s0)" "bare p = bare p0" "unpublished r = unpublished r0" "r = r0 \<or> R p0 r0 r"
  using assms by (force simp: pub_rel_def list_all2_conv_all_nth in_set_conv_nth)

lemma catchup_rail_get: "catchup_rail env s p (rail_get r) = catchup_rail env s p r"
  by (simp add: catchup_rail_def)

lemma ready_state_cong:
  "ts_apple_rails_wait_tbnet s = ts_apple_rails_wait_tbnet s' \<Longrightarrow> pe_backend p = pe_backend p' \<Longrightarrow> pe_xd p = pe_xd p'
    \<Longrightarrow> tbv_ibdev_rail_publish_ready_locked env s p r = tbv_ibdev_rail_publish_ready_locked env s' p' r"
  by (rule ready_cong) simp_all

lemma ready_referenced:
  assumes "topo_ok s" and "(p, r) \<in> set (pairs s)" and "tbv_ibdev_rail_publish_ready_locked env s p r"
  shows "0 < ra_refcnt r"
  using all_rails_ok [OF assms(1) pair_in_all_rails [OF assms(2)]] ready_not_removing [OF assms(3)]
  by (simp add: rail_ok_def)

lemma locate_get:
  assumes "topo_ok s" and "(p, r) \<in> set (pairs s)"
  shows "locate (ra_addr r) (on_rail (ra_addr r) rail_get s)
    = Some (with_rails (moved (ra_addr r) rail_get) p, rail_get r)"
  by (simp add: locate_on_rail locate_pair [OF assms]) (simp add: moved_def)

text \<open>A step of the catch-up.\<close>

lemma catchup_step:
  assumes "topo_ok s" and "ts_register_enabled s" and "next_rail (catchup_rail env s) s = Some a"
  obtains peer rail f l where "(peer, rail) \<in> set (pairs s)" "catchup_rail env s peer rail" "publishing f"
    "\<And>r. handled (f r)" "a = ra_addr rail"
    "with_rail a (snd \<circ> tbv_ibdev_rail_event env a True) s = (on_rail a f s)\<lparr>ts_log := l\<rparr>"
proof -
  obtain peer rail where m: "(peer, rail) \<in> set (pairs s)" and c: "catchup_rail env s peer rail" and a: "ra_addr rail = a"
    using assms(3) by (rule next_rail_Some)
  let ?s = "on_rail a rail_get s" and ?p = "with_rails (moved a rail_get) peer"
  have loc: "locate a ?s = Some (?p, rail_get rail)" using locate_get [OF assms(1) m] a by simp
  have "catchup_rail env ?s ?p (rail_get rail)"
    using c ready_state_cong [of ?s s ?p peer] by (simp add: catchup_rail_def)
  then obtain f l where f: "publishing f" "\<forall>r. handled (f r)"
      "snd (tbv_ibdev_rail_event env a True ?s) = (on_rail a f ?s)\<lparr>ts_log := l\<rparr>"
    using event_up [OF loc, of env] assms(2) by auto
  have "0 < ra_refcnt rail" using ready_referenced [OF assms(1) m, of env] c by (simp add: catchup_rail_def)
  then have "with_rail a (snd \<circ> tbv_ibdev_rail_event env a True) s = (on_rail a f s)\<lparr>ts_log := l\<rparr>"
    using with_rail_publishing [OF assms(1) m _ f(1)] f(3) a by simp
  then show ?thesis using that m c f(1,2) a by blast
qed

definition catchup_inv :: "pub_env \<Rightarrow> tbv_state \<Rightarrow> tbv_state \<Rightarrow> bool" where
  "catchup_inv env s0 s \<longleftrightarrow> topo_ok s \<and> ts_register_enabled s
     \<and> pub_rel (\<lambda>p0 r0 r. catchup_rail env s0 p0 r0 \<and> handled r) s0 s"

definition unhandled :: "tbv_state \<Rightarrow> nat" where
  "unhandled s = length (filter ((Not \<circ> handled) \<circ> snd) (pairs s))"

interpretation catchup: draining_loop "\<lambda>s. next_rail (catchup_rail env s) s"
  "\<lambda>a. with_rail a (snd \<circ> tbv_ibdev_rail_event env a True)" "ibdev_catchup env" "catchup_inv env s0" unhandled
  for env s0
proof
  show "ibdev_catchup env s = (case next_rail (catchup_rail env s) s of None \<Rightarrow> Some s
      | Some a \<Rightarrow> ibdev_catchup env (with_rail a (snd \<circ> tbv_ibdev_rail_event env a True) s))" for s
    by (rule ibdev_catchup.simps)
  fix s a assume i: "catchup_inv env s0 s" and n: "next_rail (catchup_rail env s) s = Some a"
  have ok: "topo_ok s" and en: "ts_register_enabled s"
    and rel: "pub_rel (\<lambda>p0 r0 r. catchup_rail env s0 p0 r0 \<and> handled r) s0 s"
    using i by (simp_all add: catchup_inv_def)
  obtain peer rail f l where m: "(peer, rail) \<in> set (pairs s)" and c: "catchup_rail env s peer rail"
    and f: "publishing f" "\<And>r. handled (f r)" and a: "a = ra_addr rail"
    and eq: "with_rail a (snd \<circ> tbv_ibdev_rail_event env a True) s = (on_rail a f s)\<lparr>ts_log := l\<rparr>"
    using catchup_step [OF ok en n] by metis
  have w: "ts_apple_rails_wait_tbnet s = ts_apple_rails_wait_tbnet s0" using rel by (simp add: pub_rel_def)
  have c0: "catchup_rail env s0 p0 rail" if "bare p0 = bare peer" for p0
    using c ready_state_cong [OF w bare_fields(1,2) [OF that, symmetric]] by (simp add: catchup_rail_def)
  have "pub_rel (\<lambda>p0 r0 r. catchup_rail env s0 p0 r0 \<and> handled r) s0 ((on_rail (ra_addr rail) f s)\<lparr>ts_log := l\<rparr>)"
    by (rule pub_rel_step [OF rel f(1) ok m]) (use c0 c f(2) in \<open>auto simp: catchup_rail_def\<close>)
  then show "catchup_inv env s0 (with_rail a (snd \<circ> tbv_ibdev_rail_event env a True) s)"
    unfolding catchup_inv_def eq unfolding a using topo_ok_publishing [OF ok f(1)] en by simp
  show "unhandled (with_rail a (snd \<circ> tbv_ibdev_rail_event env a True) s) < unhandled s"
    unfolding unhandled_def eq unfolding a using c f(2)
    by (intro pending_drops [OF ok m]) (simp_all add: catchup_rail_def)
qed

text \<open>
  C16: Starting the verbs layer returns and leaves no rail behind. On any reachable topology the
  catch-up loop ends; afterwards every rail that may be published has a device, or is marked as
  failed or as waiting for its network device; only rails that were ready and unhandled changed,
  and of them only their publication; and the reference counts are as before.
\<close>

theorem start_publishes_all_ready:
  assumes "topo_reachable state"
  shows "\<exists>state'. tbv_ibdev_start env (Inr ()) True state = Some (Inr (), state')
    \<and> (\<forall>(peer, rail) \<in> set (pairs state'). tbv_ibdev_rail_publish_ready_locked env state' peer rail
          \<longrightarrow> ra_ibdev rail \<noteq> None \<or> ra_ibdev_register_failed rail \<or> ra_ibdev_register_deferred rail)
    \<and> list_all2 (\<lambda>(p0, r0) (p, r). unpublished r = unpublished r0
         \<and> (r = r0 \<or> \<not> handled r0 \<and> tbv_ibdev_rail_publish_ready_locked env state p0 r0))
       (pairs state) (pairs state')"
proof -
  define s1 where "s1 = snd (tbv_ibdev_register_netdev_notifier (Inr ()) (state\<lparr>ts_register_verbs := True\<rparr>))"
  define s0 where "s0 = s1\<lparr>ts_verbs_registered := True, ts_register_enabled := True\<rparr>"
  note s0_def = s0_def s1_def tbv_ibdev_register_netdev_notifier_def
  have p: "pairs s0 = pairs state" and r: "tbv_ibdev_rail_publish_ready_locked env s0 = tbv_ibdev_rail_publish_ready_locked env state"
    by (simp_all add: s0_def pairs_def tbv_ibdev_rail_publish_ready_locked_def fun_eq_iff)
  have "topo_ok s0" by (rule topo_ok_cong [OF topo_reachable_ok [OF assms]]) (simp_all add: s0_def)
  then have "catchup_inv env s0 s0" by (simp add: catchup_inv_def pub_rel_refl) (simp add: s0_def)
  then obtain s' where s': "ibdev_catchup env s0 = Some s'" "catchup_inv env s0 s'"
      "next_rail (catchup_rail env s') s' = None"
    using catchup.loop_returns by blast
  have "tbv_ibdev_start env (Inr ()) True state = Some (Inr (), s')"
    using s'(1) by (simp add: tbv_ibdev_start_def s0_def split: if_splits)
  moreover have "\<forall>(peer, rail) \<in> set (pairs s'). tbv_ibdev_rail_publish_ready_locked env s' peer rail \<longrightarrow> handled rail"
    using s'(3) by (auto simp: next_rail_None catchup_rail_def)
  moreover have "list_all2 (\<lambda>(p0, r0) (p, r). unpublished r = unpublished r0
      \<and> (r = r0 \<or> \<not> handled r0 \<and> tbv_ibdev_rail_publish_ready_locked env state p0 r0)) (pairs state) (pairs s')"
    using s'(2) unfolding catchup_inv_def pub_rel_def p catchup_rail_def r
    by (elim conjE, elim list_all2_mono) auto
  ultimately show ?thesis unfolding handled_def by blast
qed

text \<open>The loop that unregisters.\<close>

definition devices_held :: "tbv_state \<Rightarrow> bool" where
  "devices_held s \<longleftrightarrow> list_all (\<lambda>(peer, rail). ra_ibdev rail \<noteq> None \<longrightarrow> 0 < ra_refcnt rail) (pairs s)"

definition devices :: "tbv_state \<Rightarrow> nat list" where
  "devices s = map (ra_addr \<circ> snd) (filter ((\<lambda>rail. ra_ibdev rail \<noteq> None) \<circ> snd) (pairs s))"

definition unregister_inv :: "tbv_state \<Rightarrow> tbv_state \<Rightarrow> bool" where
  "unregister_inv s0 s \<longleftrightarrow> topo_ok s \<and> devices_held s
     \<and> pub_rel (\<lambda>p0 r0 r. ra_ibdev r0 \<noteq> None \<and> r = rail_down r0) s0 s
     \<and> (\<exists>l. ts_log s = ts_log s0 @ l \<and> list_all (Not \<circ> snd) l \<and> map (ra_addr \<circ> fst) l @ devices s = devices s0)"

lemma devices_down:
  "devices ((on_rail a rail_down s)\<lparr>ts_log := l\<rparr>) = filter (\<lambda>b. b \<noteq> a) (devices s)"
proof -
  have "map (ra_addr \<circ> snd) (filter ((\<lambda>rail. ra_ibdev rail \<noteq> None) \<circ> snd)
        (map (map_prod (with_rails (moved a rail_down)) (moved a rail_down)) ps))
      = filter (\<lambda>b. b \<noteq> a) (map (ra_addr \<circ> snd) (filter ((\<lambda>rail. ra_ibdev rail \<noteq> None) \<circ> snd) ps))" for ps
    by (induction ps) (auto simp: moved_def)
  then show ?thesis by (simp add: devices_def pairs_on_rail)
qed

lemma next_device:
  assumes "next_rail (\<lambda>peer rail. ra_ibdev rail \<noteq> None) s = Some a"
  shows "\<exists>as. devices s = a # as"
proof -
  have "find (\<lambda>(peer :: tbv_peer, rail). ra_ibdev rail \<noteq> None) ps = Some x
      \<Longrightarrow> \<exists>as. map (ra_addr \<circ> snd) (filter ((\<lambda>rail. ra_ibdev rail \<noteq> None) \<circ> snd) ps) = ra_addr (snd x) # as" for ps x
    by (induction ps) (auto split: if_splits)
  then show ?thesis using assms by (auto simp: next_rail_def devices_def)
qed

lemma unregister_step:
  assumes "topo_ok s" and "devices_held s" and "next_rail (\<lambda>peer rail. ra_ibdev rail \<noteq> None) s = Some a"
  obtains peer rail where "(peer, rail) \<in> set (pairs s)" "ra_ibdev rail \<noteq> None" "a = ra_addr rail"
    "with_rail a (snd \<circ> tbv_ibdev_rail_event env a False) s
      = (on_rail a rail_down s)\<lparr>ts_log := ts_log s @ [(rail_get rail, False)]\<rparr>"
proof -
  obtain peer rail where m: "(peer, rail) \<in> set (pairs s)" and c: "ra_ibdev rail \<noteq> None" and a: "ra_addr rail = a"
    using assms(3) by (rule next_rail_Some)
  let ?s = "on_rail a rail_get s"
  have f: "filter (\<lambda>r. ra_addr r = ra_addr rail) (map snd (pairs s)) = [rail]"
    using m topo_ok_distinct_addrs [OF assms(1)] by (intro filter_distinct_key) force+
  have g: "filter (\<lambda>r. ra_addr r = a \<and> ra_ibdev r \<noteq> None) (map (moved a rail_get) rs)
      = map rail_get (filter (\<lambda>r. ra_ibdev r \<noteq> None) (filter (\<lambda>r. ra_addr r = a) rs))" for rs
    by (induction rs) (auto simp: moved_def)
  have h: "map snd (pairs ?s) = map (moved a rail_get) (map snd (pairs s))" by (simp add: pairs_on_rail comp_def)
  have "filter (\<lambda>r. ra_addr r = a \<and> ra_ibdev r \<noteq> None) (map snd (pairs ?s)) = [rail_get rail]"
    unfolding h g f [unfolded a] using c by simp
  moreover have "concat (map pe_rails (ts_peers s')) = map snd (pairs s')" for s'
    by (simp add: pairs_def map_concat comp_def)
  ultimately have "ibdev_rail_down a ?s = (on_rail a rail_down ?s)\<lparr>ts_log := ts_log s @ [(rail_get rail, False)]\<rparr>"
    by (simp add: ibdev_rail_down_def on_rail_log)
  moreover have "0 < ra_refcnt rail" using assms(2) m c by (auto simp: devices_held_def list_all_iff)
  ultimately have "with_rail a (snd \<circ> tbv_ibdev_rail_event env a False) s
      = (on_rail a rail_down s)\<lparr>ts_log := ts_log s @ [(rail_get rail, False)]\<rparr>"
    using with_rail_publishing [OF assms(1) m, of rail_down] a by (simp add: tbv_ibdev_rail_event_def)
  then show ?thesis using that m c a by blast
qed

interpretation unregister: draining_loop "next_rail (\<lambda>peer rail. ra_ibdev rail \<noteq> None)"
  "\<lambda>a. with_rail a (snd \<circ> tbv_ibdev_rail_event env a False)" "ibdev_unregister_all env" "unregister_inv s0"
  "length \<circ> devices"
  for env s0
proof
  show "ibdev_unregister_all env s = (case next_rail (\<lambda>peer rail. ra_ibdev rail \<noteq> None) s of None \<Rightarrow> Some s
      | Some a \<Rightarrow> ibdev_unregister_all env (with_rail a (snd \<circ> tbv_ibdev_rail_event env a False) s))" for s
    by (rule ibdev_unregister_all.simps)
  fix s a assume i: "unregister_inv s0 s" and n: "next_rail (\<lambda>peer rail. ra_ibdev rail \<noteq> None) s = Some a"
  let ?s = "with_rail a (snd \<circ> tbv_ibdev_rail_event env a False) s"
  from i obtain l where ok: "topo_ok s" and dh: "devices_held s"
    and rel: "pub_rel (\<lambda>p0 r0 r. ra_ibdev r0 \<noteq> None \<and> r = rail_down r0) s0 s"
    and l: "ts_log s = ts_log s0 @ l" "list_all (Not \<circ> snd) l" "map (ra_addr \<circ> fst) l @ devices s = devices s0"
    by (auto simp: unregister_inv_def)
  obtain peer rail where m: "(peer, rail) \<in> set (pairs s)" and c: "ra_ibdev rail \<noteq> None" and a: "a = ra_addr rail"
    and eq: "?s = (on_rail a rail_down s)\<lparr>ts_log := ts_log s @ [(rail_get rail, False)]\<rparr>"
    using unregister_step [OF ok dh n] by metis
  obtain as where as: "devices s = a # as" using next_device [OF n] by blast
  moreover have "distinct (devices s)"
    using topo_ok_distinct_addrs [OF ok] by (simp add: devices_def distinct_map inj_on_def)
  ultimately have d: "devices ?s = as" unfolding eq devices_down by (auto simp: filter_id_conv)
  show "(length \<circ> devices) ?s < (length \<circ> devices) s" using as d by simp
  have "pub_rel (\<lambda>p0 r0 r. ra_ibdev r0 \<noteq> None \<and> r = rail_down r0) s0 ?s"
    unfolding eq unfolding a by (rule pub_rel_step [OF rel _ ok m]) (use c in auto)
  moreover have "devices_held ?s"
    using dh unfolding eq
    by (fastforce simp: devices_held_def pairs_on_rail list_all_iff moved_def)
  moreover have "ts_log ?s = ts_log s0 @ (l @ [(rail_get rail, False)])" unfolding eq using l by simp
  moreover have "topo_ok ?s" unfolding eq by (rule topo_ok_publishing [OF ok]) simp
  moreover have "map (ra_addr \<circ> fst) (l @ [(rail_get rail, False)]) @ devices ?s = devices s0"
    "list_all (Not \<circ> snd) (l @ [(rail_get rail, False)])"
    using l as d a by simp_all
  ultimately show "unregister_inv s0 ?s" unfolding unregister_inv_def by blast
qed

text \<open>
  The end of the verbs layer withdraws every device, once. The loop returns; afterwards no rail
  has a device, rails without one are untouched, and exactly the devices that were published are
  unregistered, each once and in the order of the rails.
\<close>

theorem stop_unregisters_all:
  assumes "topo_reachable state" and "devices_held state"
  shows "\<exists>state' l. ibdev_unregister_all env state = Some state'
    \<and> list_all2 (\<lambda>(p0, r0) (p, r). r = (if ra_ibdev r0 = None then r0 else rail_down r0)) (pairs state) (pairs state')
    \<and> ts_log state' = ts_log state @ l
    \<and> map (\<lambda>(r, up). (ra_addr r, up)) l = map (\<lambda>a. (a, False)) (devices state)"
proof -
  have "unregister_inv state state"
    using assms by (simp add: unregister_inv_def pub_rel_refl topo_reachable_ok)
  then obtain s' where s': "ibdev_unregister_all env state = Some s'" "unregister_inv state s'"
      "next_rail (\<lambda>peer rail. ra_ibdev rail \<noteq> None) s' = None"
    using unregister.loop_returns by blast
  have none: "\<forall>(p, r) \<in> set (pairs s'). ra_ibdev r = None" using s'(3) by (simp add: next_rail_None)
  then have d: "devices s' = []" by (auto simp: devices_def filter_empty_conv)
  from s'(2) obtain l where rel: "pub_rel (\<lambda>p0 r0 r. ra_ibdev r0 \<noteq> None \<and> r = rail_down r0) state s'"
    and l: "ts_log s' = ts_log state @ l" "list_all (Not \<circ> snd) l" "map (ra_addr \<circ> fst) l = devices state"
    by (auto simp: unregister_inv_def d)
  have "map (\<lambda>(r, up). (ra_addr r, up)) l = map (\<lambda>a. (a, False)) (map (ra_addr \<circ> fst) l)"
    using l(2) by (induction l) auto
  moreover have "list_all2 (\<lambda>(p0, r0) (p, r). r = (if ra_ibdev r0 = None then r0 else rail_down r0)) (pairs state) (pairs s')"
    using rel [unfolded pub_rel_def, THEN conjunct2]
  proof (rule list.rel_mono_strong, clarify)
    fix p0 r0 p r assume m: "(p, r) \<in> set (pairs s')" and c: "r = r0 \<or> ra_ibdev r0 \<noteq> None \<and> r = rail_down r0"
    have "ra_ibdev r = None" using none m by blast
    then show "r = (if ra_ibdev r0 = None then r0 else rail_down r0)" using c by auto
  qed
  ultimately show ?thesis using s'(1) l(1) unfolding l(3) by (intro exI [of _ s'] exI [of _ l] conjI)
qed

text \<open>The retry.\<close>

definition answers_settle :: "pub_env \<Rightarrow> bool" where
  "answers_settle env \<longleftrightarrow> pb_set_netdev env \<noteq> Inl EPROBE_DEFER \<and> (\<forall>names name. pb_register env names name \<noteq> Inl EPROBE_DEFER)"

lemma register_deferred:
  assumes "tbv_ibdev_register_one env s peer rail name = Inl EPROBE_DEFER" and "answers_settle env"
  shows "\<not> tbv_ibdev_required_netdev_registered env peer"
  using assms
  by (auto simp: tbv_ibdev_register_one_def tbv_ibdev_attach_netdev_def tbv_ibdev_required_netdev_registered_def
      answers_settle_def split: if_splits option.splits sum.splits)

lemma retry_step:
  assumes "topo_ok s" and "ts_register_enabled s" and "answers_settle env"
    and "next_rail (retry_rail env s) s = Some a"
  obtains peer rail f l where "(peer, rail) \<in> set (pairs s)" "retry_rail env s peer rail" "publishing f"
    "\<And>r. handled (f r)" "\<And>r. \<not> ra_ibdev_register_deferred (f r)" "a = ra_addr rail"
    "with_rail a (retry_one env a) s = (on_rail a f s)\<lparr>ts_log := l\<rparr>"
proof -
  obtain peer rail where m: "(peer, rail) \<in> set (pairs s)" and c: "retry_rail env s peer rail" and a: "ra_addr rail = a"
    using assms(4) by (rule next_rail_Some)
  let ?s = "on_rail a rail_get s" and ?p = "with_rails (moved a rail_get) peer"
  let ?t = "on_rail a (mark_deferred False) ?s" and ?q = "with_rails (moved a (mark_deferred False)) ?p"
  have loc: "locate a ?s = Some (?p, rail_get rail)" using locate_get [OF assms(1) m] a by simp
  have d: "ra_addr (mark_deferred b r) = ra_addr r" for b r by (rule publishing_addr) simp
  have loc': "locate a ?t = Some (?q, mark_deferred False (rail_get rail))"
    unfolding locate_on_rail [where f = "mark_deferred False", OF d] loc using a by (simp add: moved_def)
  have rdy: "tbv_ibdev_rail_publish_ready_locked env ?t ?q (mark_deferred False (rail_get rail))"
    using c ready_cong [of "mark_deferred False (rail_get rail)" "rail_get rail" ?q peer ?t s env]
    by (simp add: retry_rail_def publishing_unpublished)
  then have "catchup_rail env ?t ?q (mark_deferred False (rail_get rail))"
    using c by (simp add: catchup_rail_def handled_def retry_rail_def)
  from event_up [OF loc' _ this] assms(2) obtain f l where f: "publishing f" "\<forall>r. handled (f r)"
      "f \<circ> mark_deferred False = f"
      "(\<forall>r. \<not> ra_ibdev_register_deferred (f r))
        \<or> (\<exists>name. tbv_ibdev_register_one env ?t ?q (mark_deferred False (rail_get rail)) name = Inl EPROBE_DEFER)"
      "snd (tbv_ibdev_rail_event env a True ?t) = (on_rail a f ?t)\<lparr>ts_log := l\<rparr>"
    by auto
  have nd: "\<forall>r. \<not> ra_ibdev_register_deferred (f r)"
    using f(4) register_deferred [OF _ assms(3)] c
    by (fastforce simp: retry_rail_def tbv_ibdev_required_netdev_registered_def)
  have "retry_one env a ?s = snd (tbv_ibdev_rail_event env a True ?t)"
    using c loc by (simp add: retry_one_def retry_rail_def)
  also have "\<dots> = (on_rail a f ?s)\<lparr>ts_log := l\<rparr>" unfolding f(5) on_rail_comp [of "mark_deferred False", OF d] f(3) ..
  finally have "with_rail a (retry_one env a) s = (on_rail a f s)\<lparr>ts_log := l\<rparr>"
    using with_rail_publishing [OF assms(1) m _ f(1)] ready_referenced [OF assms(1) m, of env] c a
    by (simp add: retry_rail_def)
  then show ?thesis using that m c f(1,2) nd a by blast
qed

definition retry_inv :: "pub_env \<Rightarrow> tbv_state \<Rightarrow> tbv_state \<Rightarrow> bool" where
  "retry_inv env s0 s \<longleftrightarrow> topo_ok s \<and> ts_register_enabled s \<and> answers_settle env
     \<and> pub_rel (\<lambda>p0 r0 r. retry_rail env s0 p0 r0 \<and> handled r \<and> \<not> ra_ibdev_register_deferred r) s0 s"

definition deferred :: "tbv_state \<Rightarrow> nat" where
  "deferred s = length (filter (ra_ibdev_register_deferred \<circ> snd) (pairs s))"

interpretation retry: draining_loop "\<lambda>s. next_rail (retry_rail env s) s"
  "\<lambda>a. with_rail a (retry_one env a)" "tbv_ibdev_netdev_retry_work env" "retry_inv env s0" deferred
  for env s0
proof
  show "tbv_ibdev_netdev_retry_work env s = (case next_rail (retry_rail env s) s of None \<Rightarrow> Some s
      | Some a \<Rightarrow> tbv_ibdev_netdev_retry_work env (with_rail a (retry_one env a) s))" for s
    by (rule tbv_ibdev_netdev_retry_work.simps)
  fix s a assume i: "retry_inv env s0 s" and n: "next_rail (retry_rail env s) s = Some a"
  let ?R = "\<lambda>p0 r0 r. retry_rail env s0 p0 r0 \<and> handled r \<and> \<not> ra_ibdev_register_deferred r"
  have ok: "topo_ok s" and en: "ts_register_enabled s" and st: "answers_settle env" and rel: "pub_rel ?R s0 s"
    using i by (simp_all add: retry_inv_def)
  obtain peer rail f l where m: "(peer, rail) \<in> set (pairs s)" and c: "retry_rail env s peer rail"
    and f: "publishing f" "\<And>r. handled (f r)" "\<And>r. \<not> ra_ibdev_register_deferred (f r)" and a: "a = ra_addr rail"
    and eq: "with_rail a (retry_one env a) s = (on_rail a f s)\<lparr>ts_log := l\<rparr>"
    using retry_step [OF ok en st n] by metis
  have w: "ts_apple_rails_wait_tbnet s = ts_apple_rails_wait_tbnet s0" using rel by (simp add: pub_rel_def)
  have c0: "retry_rail env s0 p0 rail" if "bare p0 = bare peer" for p0
    using c ready_state_cong [OF w bare_fields(1,2) [OF that, symmetric]] bare_fields [OF that]
    by (simp add: retry_rail_def tbv_ibdev_required_netdev_registered_def)
  have "pub_rel ?R s0 ((on_rail (ra_addr rail) f s)\<lparr>ts_log := l\<rparr>)"
    by (rule pub_rel_step [OF rel f(1) ok m]) (use c0 c f(2,3) in \<open>auto simp: retry_rail_def\<close>)
  then show "retry_inv env s0 (with_rail a (retry_one env a) s)"
    unfolding retry_inv_def eq unfolding a using topo_ok_publishing [OF ok f(1)] en st by simp
  show "deferred (with_rail a (retry_one env a) s) < deferred s"
    unfolding deferred_def eq unfolding a using c f(3)
    by (intro pending_drops [OF ok m]) (simp_all add: retry_rail_def)
qed

text \<open>
  The retry after a network device appeared returns, provided that attaching a registered network
  device and registering a verbs device are not themselves answered with "try again later". Every
  waiting rail whose network device is there and that may be published has then been published or
  marked as failed, and no other rail changed.
\<close>

theorem netdev_retry_returns:
  assumes "topo_reachable state" and "ts_register_enabled state" and "answers_settle env"
  shows "\<exists>state'. tbv_ibdev_netdev_retry_work env state = Some state'
    \<and> list_all2 (\<lambda>(p0, r0) (p, r).
         if retry_rail env state p0 r0
         then unpublished r = unpublished r0 \<and> \<not> ra_ibdev_register_deferred r
           \<and> (ra_ibdev r \<noteq> None \<or> ra_ibdev_register_failed r)
         else r = r0) (pairs state) (pairs state')"
proof -
  let ?R = "\<lambda>p0 r0 r. retry_rail env state p0 r0 \<and> handled r \<and> \<not> ra_ibdev_register_deferred r"
  have "retry_inv env state state"
    using assms by (simp add: retry_inv_def pub_rel_refl topo_reachable_ok)
  then obtain s' where s': "tbv_ibdev_netdev_retry_work env state = Some s'" "retry_inv env state s'"
      "next_rail (retry_rail env s') s' = None"
    using retry.loop_returns by blast
  have rel: "pub_rel ?R state s'" using s'(2) by (simp add: retry_inv_def)
  have w: "ts_apple_rails_wait_tbnet s' = ts_apple_rails_wait_tbnet state" using rel by (simp add: pub_rel_def)
  have "list_all2 (\<lambda>(p0, r0) (p, r).
      if retry_rail env state p0 r0
      then unpublished r = unpublished r0 \<and> \<not> ra_ibdev_register_deferred r
        \<and> (ra_ibdev r \<noteq> None \<or> ra_ibdev_register_failed r)
      else r = r0) (pairs state) (pairs s')"
    using rel [unfolded pub_rel_def, THEN conjunct2]
  proof (rule list.rel_mono_strong, clarify)
    fix p0 r0 p r
    assume m: "(p, r) \<in> set (pairs s')" and b: "bare p = bare p0" and u: "unpublished r = unpublished r0"
      and c: "r = r0 \<or> ?R p0 r0 r"
    have "\<not> retry_rail env s' p r" using s'(3) m by (auto simp: next_rail_None)
    then have "\<not> (r = r0 \<and> retry_rail env state p0 r0)"
      using ready_state_cong [OF w bare_fields(1,2) [OF b]] bare_fields [OF b]
      by (auto simp: retry_rail_def tbv_ibdev_required_netdev_registered_def)
    then show "if retry_rail env state p0 r0
      then unpublished r = unpublished r0 \<and> \<not> ra_ibdev_register_deferred r
        \<and> (ra_ibdev r \<noteq> None \<or> ra_ibdev_register_failed r)
      else r = r0"
      using c u by (auto simp: handled_def)
  qed
  then show ?thesis using s'(1) by blast
qed

section \<open>Names and GUIDs\<close>

lemma two_digits:
  assumes "q * m + r = q' * m + r'" and "r < m" and "r' < (m :: nat)" shows "q = q' \<and> r = r'"
proof -
  have "(q * m + r) div m = q" "(q' * m + r') div m = q'" using assms(2,3) by simp_all
  then have "q = q'" using assms(1) by simp
  then show ?thesis using assms(1) by simp
qed

lemma three_digits:
  assumes "b * 72057594037927936 + i * 16777216 + r = b' * 72057594037927936 + i' * 16777216 + (r' :: nat)"
    and "r < 16777216" and "r' < 16777216" and "i < 4294967296" and "i' < 4294967296"
  shows "b = b' \<and> i = i' \<and> r = r'"
proof -
  have "(b * 4294967296 + i) * 16777216 + r = (b' * 4294967296 + i') * 16777216 + r'"
    using assms(1) by (simp add: algebra_simps)
  from two_digits [OF this assms(2,3)] have "b * 4294967296 + i = b' * 4294967296 + i'" "r = r'" by simp_all
  then show ?thesis using two_digits [OF _ assms(4,5)] by blast
qed

text \<open>
  Every device has its own GUID: two rails with different peer number, rail number or backend
  get different GUIDs, as long as rail numbers are below \<open>2 ^ 24\<close>.
\<close>

theorem node_guid_injective:
  assumes "(pe_backend p, pe_peer_id p, ra_rail_id r) \<noteq> (pe_backend p', pe_peer_id p', ra_rail_id r')"
    and "unat (ra_rail_id r) < 16777216" and "unat (ra_rail_id r') < 16777216"
  shows "rail_node_guid p r \<noteq> rail_node_guid p' r'"
proof
  assume eq: "rail_node_guid p r = rail_node_guid p' r'"
  define b where "b p = (case pe_backend p of TBV_BACKEND_NATIVE \<Rightarrow> 0 | TBV_BACKEND_APPLE \<Rightarrow> (1 :: nat))" for p :: tbv_peer
  have num: "unat (push_bit 56 (backend_number (pe_backend p)) + push_bit 24 (ucast (pe_peer_id p)) + (ucast (ra_rail_id r) :: u64))
      = b p * 72057594037927936 + unat (pe_peer_id p) * 16777216 + unat (ra_rail_id r)"
    if "unat (ra_rail_id r) < 16777216" for p r
  proof -
    have lt: "unat (pe_peer_id p) < 4294967296" by (rule unat_less_2p32)
    have wide: "unat (ucast x :: u64) = unat x" for x :: u32
      using unat_less_2p32 [of x] by (simp add: unsigned_ucast_eq take_bit_nat_eq_self)
    have "unat (push_bit 56 (backend_number (pe_backend p))) = b p * 72057594037927936"
      by (cases "pe_backend p") (simp_all add: b_def)
    moreover have "unat (push_bit 24 (ucast (pe_peer_id p) :: u64)) = unat (pe_peer_id p) * 16777216"
      using lt by (simp add: push_bit_eq_mult unat_word_ariths wide)
    moreover have "b p \<le> 1" by (cases "pe_backend p") (simp_all add: b_def)
    ultimately show ?thesis using lt that by (simp add: unat_word_ariths wide)
  qed
  have "b p * 72057594037927936 + unat (pe_peer_id p) * 16777216 + unat (ra_rail_id r)
      = b p' * 72057594037927936 + unat (pe_peer_id p') * 16777216 + unat (ra_rail_id r')"
    using eq unfolding num [OF assms(2), symmetric] num [OF assms(3), symmetric]
    by (simp add: rail_node_guid_def add.assoc)
  then have "b p = b p' \<and> unat (pe_peer_id p) = unat (pe_peer_id p') \<and> unat (ra_rail_id r) = unat (ra_rail_id r')"
    using assms(2,3) unat_less_2p32 [of "pe_peer_id p"] unat_less_2p32 [of "pe_peer_id p'"] by (intro three_digits)
  then show False using assms(1) by (cases "pe_backend p"; cases "pe_backend p'") (simp_all add: b_def word_unat_eq_iff)
qed

section \<open>Concrete runs\<close>

text \<open>Rails made ready, and a core that refuses a name in use.\<close>

definition make_ready :: "tbv_rail \<Rightarrow> tbv_rail" where
  "make_ready rail = rail\<lparr>ra_hw := (ra_hw rail)\<lparr>hw_path := (hw_path (ra_hw rail))\<lparr>p_state := TBV_PATH_TUNNEL_ENABLED\<rparr>,
       hw_tx_ring := Some (demo_ring True)\<rparr>,
     ra_native_ready_sent := True, ra_native_remote_ready := True\<rparr>"

definition demo_pub_env :: pub_env where
  "demo_pub_env = \<lparr>pb_mode = TBV_TBNET_ID_OFF, pb_sessions = [], pb_roce_netdev = Some ''eth0'', pb_gid_netdev_name = [],
     pb_netdev = (\<lambda>name. if name = ''eth0'' then Some True else None), pb_alloc = True, pb_set_netdev = Inr (),
     pb_register = (\<lambda>names name. if name \<in> set names then Inl EEXIST else Inr ())\<rparr>"

text \<open>Two hosts behind one domain, each with its first lane ready.\<close>

definition two_hosts :: tbv_state where
  "two_hosts =
     on_rail 31 make_ready (on_rail 30 make_ready
       (snd (tbv_peer_add_rail (demo_rail_env 31) 11 (Rail_key 2 0 0 1) 0
         (snd (tbv_peer_add_rail (demo_rail_env 30) 10 (Rail_key 1 0 0 1) 0
           (snd (tbv_peer_get_or_create (Some 11) TBV_BACKEND_NATIVE ((demo_xd 6)\<lparr>xd_route := 2\<rparr>)
             (snd (tbv_peer_get_or_create (Some 10) TBV_BACKEND_NATIVE (demo_xd 5) (empty_state True))))))))))"

lemma quiet_make_ready: "quiet make_ready"
  by (simp add: quiet_def make_ready_def)

lemma two_hosts_reachable: "topo_reachable two_hosts"
proof -
  let ?s0 = "snd (tbv_peer_get_or_create (Some 10) TBV_BACKEND_NATIVE (demo_xd 5) (empty_state True))"
  let ?s1 = "snd (tbv_peer_get_or_create (Some 11) TBV_BACKEND_NATIVE ((demo_xd 6)\<lparr>xd_route := 2\<rparr>) ?s0)"
  let ?s2 = "snd (tbv_peer_add_rail (demo_rail_env 30) 10 (Rail_key 1 0 0 1) 0 ?s1)"
  let ?s3 = "snd (tbv_peer_add_rail (demo_rail_env 31) 11 (Rail_key 2 0 0 1) 0 ?s2)"
  have "topo_reachable (empty_state True)" by (rule topo_init) (simp add: empty_state_def)
  then have "topo_reachable ?s0" by (rule topo_create) (simp add: empty_state_def)
  then have "topo_reachable ?s1" by (rule topo_create) (simp add: topo_eval)
  then have "topo_reachable ?s2"
    by (rule topo_add [where b = 30]) (auto simp: topo_eval Let_def split: if_splits)
  then have "topo_reachable ?s3"
    by (rule topo_add [where b = 31]) (auto simp: topo_eval Let_def split: if_splits)
  then show ?thesis unfolding two_hosts_def by (intro topo_quiet quiet_make_ready)
qed

lemma ibdev_name_0: "ibdev_name 0 = ''usb4_rdma0''"
  by code_simp

lemma list_all2_carry:
  "list_all2 P xs ys \<Longrightarrow> list_all Q xs \<Longrightarrow> (\<And>x y. P x y \<Longrightarrow> Q x \<Longrightarrow> R y) \<Longrightarrow> list_all R ys"
  by (induction rule: list_all2_induct) auto

lemmas pub_eval = two_hosts_def topo_eval Let_def on_rail_def make_ready_def pairs_def locate_def
  next_rail_def catchup_rail_def handled_def tbv_ibdev_rail_publish_ready_locked_def tbv_rail_data_ready_def
  tbv_ibdev_rail_event_def tbv_ibdev_rail_name_index_def tbv_ibdev_register_one_def tbv_ibdev_attach_netdev_def
  tbv_ibdev_netdev_name_for_def demo_pub_env_def device_names_def with_rail_def rail_get_def rail_put_def tbv_rail_put_def
  mark_defs tbv_ibdev_start_def tbv_ibdev_register_netdev_notifier_def map_filter_simps

text \<open>
  The name of a device is that of its domain and lane. Two hosts behind one Thunderbolt domain
  therefore ask for the same name: with a core that refuses names in use, the second rail is
  marked as failed for good although it is ready.
\<close>

theorem same_domain_name_clash:
  "topo_reachable two_hosts
   \<and> (\<exists>state'. tbv_ibdev_start demo_pub_env (Inr ()) True two_hosts = Some (Inr (), state')
      \<and> map (\<lambda>(peer, rail). (ra_addr rail, tbv_ibdev_rail_publish_ready_locked demo_pub_env state' peer rail,
                map_option ib_name (ra_ibdev rail), ra_ibdev_register_failed rail)) (pairs state')
        = [(30, True, Some ''usb4_rdma0'', False), (31, True, None, True)])"
proof
  show "topo_reachable two_hosts" by (rule two_hosts_reachable)
  show "\<exists>state'. tbv_ibdev_start demo_pub_env (Inr ()) True two_hosts = Some (Inr (), state')
      \<and> map (\<lambda>(peer, rail). (ra_addr rail, tbv_ibdev_rail_publish_ready_locked demo_pub_env state' peer rail,
                map_option ib_name (ra_ibdev rail), ra_ibdev_register_failed rail)) (pairs state')
        = [(30, True, Some ''usb4_rdma0'', False), (31, True, None, True)]"
    apply (simp add: pub_eval)
    apply (subst ibdev_catchup.simps, simp add: pub_eval)
    apply (subst ibdev_catchup.simps, simp add: pub_eval)
    apply (subst ibdev_catchup.simps, simp add: pub_eval)
    apply (rule ibdev_name_0)
    done
qed

theorem node_guid_injective_witness:
  "rail_node_guid (fresh_peer 10 TBV_BACKEND_NATIVE (demo_xd 5) 1) (fresh_rail (demo_rail_env 30) 30 TBV_BACKEND_NATIVE (Rail_key 1 0 0 1) 0 0)
   \<noteq> rail_node_guid (fresh_peer 11 TBV_BACKEND_NATIVE (demo_xd 6) 2) (fresh_rail (demo_rail_env 31) 31 TBV_BACKEND_NATIVE (Rail_key 2 0 0 1) 0 0)"
  by (rule node_guid_injective) (simp_all add: fresh_peer_def fresh_rail_def)

theorem start_publishes_all_ready_witness:
  "\<exists>state'. tbv_ibdev_start demo_pub_env (Inr ()) True two_hosts = Some (Inr (), state')
     \<and> length (pairs state') = 2
     \<and> list_all (\<lambda>(peer, rail). tbv_ibdev_rail_publish_ready_locked demo_pub_env state' peer rail
          \<longrightarrow> ra_ibdev rail \<noteq> None \<or> ra_ibdev_register_failed rail \<or> ra_ibdev_register_deferred rail) (pairs state')"
proof -
  have "length (pairs two_hosts) = 2" by (simp add: pub_eval)
  then show ?thesis
    using start_publishes_all_ready [OF two_hosts_reachable, of demo_pub_env]
    by (auto simp: list_all_iff dest: list_all2_lengthD)
qed

definition demo_device :: tbv_ibdev where
  "demo_device = \<lparr>ib_name = ''usb4_rdma0'', ib_backend = TBV_BACKEND_NATIVE, ib_node_guid = 7, ib_netdev = None\<rparr>"

definition one_device :: tbv_state where
  "one_device = on_rail 31 (mark_deferred True) (on_rail 30 (mark_published demo_device) two_hosts)\<lparr>ts_register_enabled := True\<rparr>"

lemma one_device_reachable: "topo_reachable one_device"
  unfolding one_device_def
  by (rule topo_other [OF topo_quiet [OF topo_quiet [OF two_hosts_reachable, of "mark_published demo_device" 30],
      of "mark_deferred True" 31]]) (simp_all add: quiet_def mark_defs)

theorem stop_unregisters_all_witness:
  "\<exists>state' l. ibdev_unregister_all demo_pub_env one_device = Some state'
     \<and> list_all (\<lambda>(peer, rail). ra_ibdev rail = None) (pairs state')
     \<and> ts_log state' = ts_log one_device @ l \<and> map (\<lambda>(r, up). (ra_addr r, up)) l = [(30, False)]"
proof -
  have "devices_held one_device" by (simp add: devices_held_def one_device_def pub_eval)
  moreover have "devices one_device = [30]" by (simp add: devices_def one_device_def pub_eval)
  ultimately show ?thesis
    using stop_unregisters_all [OF one_device_reachable, of demo_pub_env]
    by (fastforce simp: list_all_iff list_all2_conv_all_nth in_set_conv_nth split: if_splits)
qed

theorem netdev_retry_returns_witness:
  "\<exists>state'. tbv_ibdev_netdev_retry_work demo_pub_env one_device = Some state'
     \<and> map (ra_ibdev_register_deferred \<circ> snd) (pairs one_device) = [False, True]
     \<and> list_all (\<lambda>(peer, rail). \<not> ra_ibdev_register_deferred rail) (pairs state')"
proof -
  have "answers_settle demo_pub_env" by (simp add: answers_settle_def demo_pub_env_def)
  moreover have "ts_register_enabled one_device" by (simp add: one_device_def)
  moreover have d: "map (ra_ibdev_register_deferred \<circ> snd) (pairs one_device) = [False, True]"
    by (simp add: one_device_def pub_eval)
  moreover have "list_all (\<lambda>(p, r). ra_ibdev_register_deferred r \<longrightarrow> retry_rail demo_pub_env one_device p r) (pairs one_device)"
    by (simp add: one_device_def pub_eval retry_rail_def tbv_ibdev_required_netdev_registered_def)
  ultimately obtain s' where s: "tbv_ibdev_netdev_retry_work demo_pub_env one_device = Some s'"
    and rel: "list_all2 (\<lambda>(p0, r0) (p, r).
         if retry_rail demo_pub_env one_device p0 r0
         then unpublished r = unpublished r0 \<and> \<not> ra_ibdev_register_deferred r
           \<and> (ra_ibdev r \<noteq> None \<or> ra_ibdev_register_failed r)
         else r = r0) (pairs one_device) (pairs s')"
    and q: "list_all (\<lambda>(p, r). ra_ibdev_register_deferred r \<longrightarrow> retry_rail demo_pub_env one_device p r) (pairs one_device)"
    using netdev_retry_returns [OF one_device_reachable, of demo_pub_env] by blast
  have "list_all (\<lambda>(peer, rail). \<not> ra_ibdev_register_deferred rail) (pairs s')"
    by (rule list_all2_carry [OF rel q]) (auto split: if_splits)
  then show ?thesis using s d by (intro exI [of _ s'] conjI)
qed

end
