(* ===== verification/Native_Control.thy ===== *)
theory Native_Control
  imports Publish
begin

text \<open>
  The control plane of native rails, \<^verbatim>\<open>src/kernel/native_control.c\<close> with its two registration variants
  \<^verbatim>\<open>native_control_legacy.c\<close> and \<^verbatim>\<open>native_control_xdomain.c\<close>: the messages HELLO and READY with their
  acknowledgements, the handler of received packets, and the delayed work that negotiates a rail,
  enables its tunnel and announces it, with bounded retries.

  A critical section under the lock of the state is a function on the state. \<open>tb_xdomain_request\<close>
  waits: as a parameter it gets the state and gives back the answer and the state that whatever ran in
  the meantime left. The request is recorded in \<open>ts_sent\<close> first. \<open>tb_xdomain_response\<close>
  does not wait; its answer is a parameter.
\<close>

section \<open>Messages\<close>

record ctl_env =
  ce_tx :: tx_env
  ce_pub :: pub_env
  ce_request :: "tb_xdomain \<Rightarrow> u8 list \<Rightarrow> tbv_state \<Rightarrow> u8 list res \<times> tbv_state"
  ce_response :: "tb_xdomain \<Rightarrow> u8 list \<Rightarrow> unit res"
  ce_alloc_in_hopid :: "int \<Rightarrow> int res"
  ce_enable_paths :: "unit res"

abbreviation TBV_NATIVE_HELLO_RETRIES :: u32 where "TBV_NATIVE_HELLO_RETRIES \<equiv> 5"
abbreviation TBV_NATIVE_TUNNEL_RETRIES :: u32 where "TBV_NATIVE_TUNNEL_RETRIES \<equiv> 20"
abbreviation TBV_NATIVE_READY_RETRIES :: u32 where "TBV_NATIVE_READY_RETRIES \<equiv> 10"

definition tbv_native_control_caps :: "tbv_state \<Rightarrow> tbv_peer \<Rightarrow> u32" where
  "tbv_native_control_caps state peer =
     (let caps = 0;
          caps = (if rc_uc_supported (ts_cfg state) then caps OR 1 else caps);
          caps = (if rc_rc_supported (ts_cfg state) then caps OR 2 else caps)
      in if pe_nr_rails peer > 1 then caps OR 4 else caps)"

definition tbv_native_control_path_flags :: "tbv_path \<Rightarrow> u32" where
  "tbv_native_control_path_flags path =
     (let flags = 0;
          flags = (if RING_FLAG_FRAME \<in> set (pc_tx_flags (p_cfg path)) then flags OR 1 else flags)
      in if pc_e2e (p_cfg path) then flags OR 2 else flags)"

definition ring_hop :: "tb_ring ptr \<Rightarrow> u32" where
  "ring_hop ring = (case ring of None \<Rightarrow> U32_MAX | Some r \<Rightarrow> word_of_int (rg_hop r))"

definition tbv_native_control_fill_hello :: "tbv_state \<Rightarrow> tbv_peer \<Rightarrow> tbv_rail \<Rightarrow> tbv_native_wire_hello" where
  "tbv_native_control_fill_hello state peer rail =
     \<lparr>h_capabilities = tbv_native_control_caps state peer,
      h_rail_id = ra_rail_id rail,
      h_route = k_route (ra_key rail),
      h_tx_hop = ring_hop (hw_tx_ring (ra_hw rail)),
      h_rx_hop = ring_hop (hw_rx_ring (ra_hw rail)),
      h_transmit_path = (if p_local_transmit_path (ra_path rail) \<ge> 0
                         then word_of_int (p_local_transmit_path (ra_path rail)) else U32_MAX),
      h_tx_ring_size = pc_tx_ring_size (p_cfg (ra_path rail)),
      h_rx_ring_size = pc_rx_ring_size (p_cfg (ra_path rail)),
      h_path_flags = tbv_native_control_path_flags (ra_path rail)\<rparr>"

definition tbv_native_control_sequence :: "tbv_rail \<Rightarrow> u8" where
  "tbv_native_control_sequence rail =
     (if p_local_transmit_path (ra_path rail) \<ge> 0 then word_of_int (p_local_transmit_path (ra_path rail)) AND 3
      else ucast (ra_rail_id rail) AND 3)"

section \<open>Matching a message with a rail\<close>

definition tbv_native_control_peer_matches_source :: "tbv_peer \<Rightarrow> tb_xdomain ptr \<Rightarrow> bool" where
  "tbv_native_control_peer_matches_source peer source_xd =
     (case source_xd of None \<Rightarrow> True | Some xd \<Rightarrow> xd_addr (pe_xd peer) = xd_addr xd)"

text \<open>
  The nested loops that all the functions below share: the first rail, in the order of peers and
  rails, of a native peer that matches the source and that satisfies \<open>P\<close>.
\<close>

definition ctl_find :: "tb_xdomain ptr \<Rightarrow> (tbv_rail \<Rightarrow> bool) \<Rightarrow> tbv_state \<Rightarrow> (tbv_peer \<times> tbv_rail) option" where
  "ctl_find source_xd P state =
     find (\<lambda>(peer, rail). pe_backend peer = TBV_BACKEND_NATIVE
             \<and> tbv_native_control_peer_matches_source peer source_xd \<and> P rail) (pairs state)"

definition addressed :: "tbv_native_wire_info \<Rightarrow> u32 \<Rightarrow> tbv_rail \<Rightarrow> bool" where
  "addressed info rail_id rail \<longleftrightarrow> k_route (ra_key rail) = i_route info \<and> ra_rail_id rail = rail_id"

definition tbv_native_control_can_kick_rail :: "tbv_rail \<Rightarrow> bool" where
  "tbv_native_control_can_kick_rail rail \<longleftrightarrow>
     ra_native_work_state rail \<and> \<not> ra_native_work_stop rail \<and> ra_path_state rail \<noteq> TBV_PATH_STOPPED"

definition schedule_work :: "tbv_rail \<Rightarrow> tbv_rail" where
  "schedule_work rail = rail\<lparr>ra_work := True\<rparr>"

definition tbv_native_control_kick_matching_rail ::
  "tb_xdomain ptr \<Rightarrow> tbv_native_wire_info \<Rightarrow> u32 \<Rightarrow> tbv_state \<Rightarrow> unit res \<times> tbv_state" where
  "tbv_native_control_kick_matching_rail source_xd info rail_id state =
     (case ctl_find source_xd (addressed info rail_id) state of
        None \<Rightarrow> (Inl ENOENT, state)
      | Some (peer, rail) \<Rightarrow>
          (Inr (), if tbv_native_control_can_kick_rail rail
                   then on_rail (ra_addr rail) schedule_work state else state))"

definition tbv_native_control_snapshot ::
  "tb_xdomain ptr \<Rightarrow> tbv_native_wire_info \<Rightarrow> u32 \<Rightarrow> bool \<Rightarrow> bool \<Rightarrow> tbv_state
     \<Rightarrow> (tbv_native_wire_hello \<times> tb_xdomain) res" where
  "tbv_native_control_snapshot source_xd info rail_id require_matching_rail require_tunnel_enabled state =
     (case ctl_find source_xd (\<lambda>rail. k_route (ra_key rail) = i_route info
             \<and> \<not> (require_matching_rail \<and> ra_rail_id rail \<noteq> rail_id)
             \<and> \<not> (require_tunnel_enabled \<and> ra_path_state rail \<noteq> TBV_PATH_TUNNEL_ENABLED)) state of
        None \<Rightarrow> Inl ENOENT
      | Some (peer, rail) \<Rightarrow> Inr (tbv_native_control_fill_hello state peer rail, pe_xd peer))"

text \<open>The unsigned fields of the message are stored into fields of type \<open>int\<close>.\<close>

definition learn_remote :: "tx_env \<Rightarrow> tbv_native_wire_hello \<Rightarrow> tbv_rail \<Rightarrow> tbv_rail" where
  "learn_remote env remote rail =
     rail\<lparr>ra_native_negotiated := True, ra_remote_rail_id := h_rail_id remote,
          ra_remote_transmit_path := sint (h_transmit_path remote),
          ra_remote_tx_hop := sint (h_tx_hop remote), ra_remote_rx_hop := sint (h_rx_hop remote),
          ra_hw := on_path (tbv_path_set_remote_rx_capacity env (h_rx_ring_size remote)) (ra_hw rail)\<rparr>"

definition tbv_native_control_apply_remote ::
  "tx_env \<Rightarrow> tb_xdomain ptr \<Rightarrow> tbv_native_wire_info \<Rightarrow> tbv_native_wire_hello \<Rightarrow> bool \<Rightarrow> tbv_state
     \<Rightarrow> unit res \<times> tbv_state" where
  "tbv_native_control_apply_remote env source_xd info remote require_matching_rail state =
     (case ctl_find source_xd (\<lambda>rail. k_route (ra_key rail) = i_route info
             \<and> \<not> (require_matching_rail \<and> ra_rail_id rail \<noteq> h_rail_id remote)) state of
        None \<Rightarrow> (Inl ENOENT, state)
      | Some (peer, rail) \<Rightarrow> (Inr (), on_rail (ra_addr rail) (learn_remote env remote) state))"

definition tbv_native_control_apply_ack ::
  "tx_env \<Rightarrow> tb_xdomain ptr \<Rightarrow> tbv_native_wire_info \<Rightarrow> tbv_native_wire_hello \<Rightarrow> tbv_state
     \<Rightarrow> unit res \<times> tbv_state" where
  "tbv_native_control_apply_ack env source_xd info remote state =
     tbv_native_control_apply_remote env source_xd info remote True state"

text \<open>A rail that is ready and not being removed is published, with a reference, outside the lock.\<close>

definition publish_if_ready :: "pub_env \<Rightarrow> nat \<Rightarrow> tbv_state \<Rightarrow> tbv_state" where
  "publish_if_ready env a state =
     (case locate a state of
        None \<Rightarrow> state
      | Some (peer, rail) \<Rightarrow>
          if tbv_rail_data_ready (pe_backend peer) rail \<and> \<not> ra_removing rail
          then with_rail a (snd \<circ> tbv_ibdev_rail_event env a True) state else state)"

definition tbv_native_control_mark_remote_ready ::
  "pub_env \<Rightarrow> tb_xdomain ptr \<Rightarrow> tbv_native_wire_info \<Rightarrow> tbv_native_wire_hello \<Rightarrow> tbv_state
     \<Rightarrow> unit res \<times> tbv_state" where
  "tbv_native_control_mark_remote_ready env source_xd info remote state =
     (case ctl_find source_xd (addressed info (h_rail_id remote)) state of
        None \<Rightarrow> (Inl ENOENT, state)
      | Some (peer, rail) \<Rightarrow>
          (Inr (), publish_if_ready env (ra_addr rail)
             (on_rail (ra_addr rail) (\<lambda>rail. rail\<lparr>ra_native_remote_ready := True\<rparr>) state)))"

definition tbv_native_control_mark_local_ready_sent ::
  "pub_env \<Rightarrow> tb_xdomain ptr \<Rightarrow> tbv_native_wire_info \<Rightarrow> u32 \<Rightarrow> tbv_state \<Rightarrow> unit res \<times> tbv_state" where
  "tbv_native_control_mark_local_ready_sent env source_xd info rail_id state =
     (case ctl_find source_xd (addressed info rail_id) state of
        None \<Rightarrow> (Inl ENOENT, state)
      | Some (peer, rail) \<Rightarrow>
          (Inr (), publish_if_ready env (ra_addr rail)
             (on_rail (ra_addr rail)
                (\<lambda>rail. rail\<lparr>ra_native_ready_sent := True, ra_native_last_error := None\<rparr>) state)))"

section \<open>Received packets\<close>

text \<open>A message built in a local buffer.\<close>

definition ctl_message :: "tbv_native_wire_hello \<Rightarrow> u16 \<Rightarrow> u32 \<Rightarrow> u64 \<Rightarrow> u8 \<Rightarrow> u8 list res" where
  "ctl_message hello op seq route xdomain_sequence =
     map_sum id fst (tbv_native_wire_build_hello (Some (replicate TBV_NATIVE_WIRE_HELLO_MSG_SIZE 0)) (Some hello)
                       op 0 seq route xdomain_sequence)"

text \<open>A reply: whether it went out, and what was handed to \<open>tb_xdomain_response\<close>.\<close>

definition ctl_reply ::
  "ctl_env \<Rightarrow> tb_xdomain \<Rightarrow> tbv_native_wire_hello \<Rightarrow> u16 \<Rightarrow> tbv_native_wire_info \<Rightarrow> bool \<times> u8 list list" where
  "ctl_reply env xd local op info =
     (case ctl_message local op (i_seq info) (h_route local) (i_xdomain_sequence info) of
        Inl e \<Rightarrow> (False, [])
      | Inr reply \<Rightarrow> (is_ok (ce_response env xd reply), [reply]))"

definition handle_ready ::
  "ctl_env \<Rightarrow> tb_xdomain ptr \<Rightarrow> tbv_native_wire_info \<Rightarrow> tbv_native_wire_hello \<Rightarrow> tbv_state
     \<Rightarrow> int \<times> u8 list list \<times> tbv_state" where
  "handle_ready env source_xd info remote state =
     (case tbv_native_control_snapshot source_xd info (h_rail_id remote) True False state of
        Inl e \<Rightarrow> (1, [], state)
      | Inr _ \<Rightarrow>
          (case tbv_native_control_snapshot source_xd info (h_rail_id remote) True True state of
             Inl e \<Rightarrow>
               (let state = snd (tbv_native_control_mark_remote_ready (ce_pub env) source_xd info remote state)
                in (1, [], snd (tbv_native_control_kick_matching_rail source_xd info (h_rail_id remote) state)))
           | Inr (local, xd) \<Rightarrow>
               (let state = snd (tbv_native_control_mark_remote_ready (ce_pub env) source_xd info remote state);
                    (sent, replies) = ctl_reply env xd local TBV_NATIVE_WIRE_OP_READY_ACK info;
                    state = (if sent then snd (tbv_native_control_mark_local_ready_sent (ce_pub env) source_xd info
                                                 (h_rail_id local) state) else state)
                in (1, replies,
                    snd (tbv_native_control_kick_matching_rail source_xd info (h_rail_id remote) state)))))"

definition handle_hello ::
  "ctl_env \<Rightarrow> tb_xdomain ptr \<Rightarrow> tbv_native_wire_info \<Rightarrow> tbv_native_wire_hello \<Rightarrow> tbv_state
     \<Rightarrow> int \<times> u8 list list \<times> tbv_state" where
  "handle_hello env source_xd info remote state =
     (case tbv_native_control_snapshot source_xd info (h_rail_id remote) True False state of
        Inl e \<Rightarrow> (1, [], state)
      | Inr (local, xd) \<Rightarrow>
          (let state = snd (tbv_native_control_apply_remote (ce_tx env) source_xd info remote True state);
               (sent, replies) = ctl_reply env xd local TBV_NATIVE_WIRE_OP_HELLO_ACK info
           in (1, replies, snd (tbv_native_control_kick_matching_rail source_xd info (h_rail_id remote) state))))"

text \<open>
  The handler: 1 when it consumes the packet, the replies, and the state. An acknowledgement is
  applied and left to the waiting request.
\<close>

definition tbv_native_control_handle_packet ::
  "ctl_env \<Rightarrow> tb_xdomain ptr \<Rightarrow> u8 list ptr \<Rightarrow> tbv_state ptr \<Rightarrow> int \<times> u8 list list \<times> tbv_state ptr" where
  "tbv_native_control_handle_packet env source_xd buf statep =
     (case statep of
        None \<Rightarrow> (0, [], None)
      | Some state \<Rightarrow>
          (case tbv_native_wire_parse_hello buf of
             Inl e \<Rightarrow> (0, [], Some state)
           | Inr (remote, info) \<Rightarrow>
               if i_op info = TBV_NATIVE_WIRE_OP_HELLO_ACK
               then (0, [], Some (snd (tbv_native_control_apply_ack (ce_tx env) source_xd info remote state)))
               else if i_op info = TBV_NATIVE_WIRE_OP_READY_ACK then (0, [], Some state)
               else if i_op info = TBV_NATIVE_WIRE_OP_READY
               then map_prod id (map_prod id Some) (handle_ready env source_xd info remote state)
               else if i_op info \<noteq> TBV_NATIVE_WIRE_OP_HELLO then (0, [], Some state)
               else map_prod id (map_prod id Some) (handle_hello env source_xd info remote state)))"

section \<open>Transactions\<close>

definition request_and_wait :: "ctl_env \<Rightarrow> tb_xdomain \<Rightarrow> u8 list \<Rightarrow> tbv_state \<Rightarrow> u8 list res \<times> tbv_state" where
  "request_and_wait env xd request state =
     ce_request env xd request (state\<lparr>ts_sent := ts_sent state @ [(xd_addr xd, request)]\<rparr>)"

text \<open>The response is received into a zeroed buffer of the size of a message.\<close>

definition response_buffer :: "u8 list \<Rightarrow> u8 list" where
  "response_buffer bytes = take TBV_NATIVE_WIRE_HELLO_MSG_SIZE (bytes @ replicate TBV_NATIVE_WIRE_HELLO_MSG_SIZE 0)"

text \<open>A request for the rail at address \<open>a\<close>, and the parsed answer.\<close>

definition ctl_transaction ::
  "ctl_env \<Rightarrow> tbv_peer \<Rightarrow> tbv_rail \<Rightarrow> u16 \<Rightarrow> tbv_state
     \<Rightarrow> (tbv_native_wire_hello \<times> tbv_native_wire_info) res \<times> tbv_state" where
  "ctl_transaction env peer rail op state =
     (let local = tbv_native_control_fill_hello state peer rail
      in case ctl_message local op (ra_rail_id rail) (h_route local) (tbv_native_control_sequence rail) of
           Inl e \<Rightarrow> (Inl e, state)
         | Inr request \<Rightarrow>
             (case request_and_wait env (pe_xd peer) request state of
                (Inl e, state) \<Rightarrow> (Inl e, state)
              | (Inr response, state) \<Rightarrow> (tbv_native_wire_parse_hello (Some (response_buffer response)), state)))"

definition tbv_native_control_exchange_once :: "ctl_env \<Rightarrow> nat \<Rightarrow> tbv_state \<Rightarrow> unit res \<times> tbv_state" where
  "tbv_native_control_exchange_once env a state =
     (case locate a state of
        None \<Rightarrow> (Inl EINVAL, state)
      | Some (peer, rail) \<Rightarrow>
          if pe_backend peer \<noteq> TBV_BACKEND_NATIVE then (Inr (), state)
          else if ra_path_state rail \<noteq> TBV_PATH_RING_STARTED then (Inl EINVAL, state)
          else (case ctl_transaction env peer rail TBV_NATIVE_WIRE_OP_HELLO state of
                  (Inl e, state) \<Rightarrow> (Inl e, state)
                | (Inr (remote, info), state) \<Rightarrow>
                    if i_op info \<noteq> TBV_NATIVE_WIRE_OP_HELLO_ACK then (Inl EPROTO, state)
                    else tbv_native_control_apply_ack (ce_tx env) (Some (pe_xd peer)) info remote state))"

definition tbv_native_control_ready_once :: "ctl_env \<Rightarrow> nat \<Rightarrow> tbv_state \<Rightarrow> unit res \<times> tbv_state" where
  "tbv_native_control_ready_once env a state =
     (case locate a state of
        None \<Rightarrow> (Inl EINVAL, state)
      | Some (peer, rail) \<Rightarrow>
          if pe_backend peer \<noteq> TBV_BACKEND_NATIVE then (Inr (), state)
          else if ra_path_state rail \<noteq> TBV_PATH_TUNNEL_ENABLED then (Inl EINVAL, state)
          else (case ctl_transaction env peer rail TBV_NATIVE_WIRE_OP_READY state of
                  (Inl e, state) \<Rightarrow> (Inl e, state)
                | (Inr (remote, info), state) \<Rightarrow>
                    if i_op info \<noteq> TBV_NATIVE_WIRE_OP_READY_ACK \<or> h_rail_id remote \<noteq> ra_rail_id rail
                    then (Inl EPROTO, state)
                    else tbv_native_control_mark_remote_ready (ce_pub env) (Some (pe_xd peer)) info remote state))"

definition tbv_native_control_enable_tunnel_once :: "ctl_env \<Rightarrow> nat \<Rightarrow> tbv_state \<Rightarrow> unit res \<times> tbv_state" where
  "tbv_native_control_enable_tunnel_once env a state =
     (case locate a state of
        None \<Rightarrow> (Inl EINVAL, state)
      | Some (peer, rail) \<Rightarrow>
          (case tbv_path_enable_tunnel (ce_tx env) (ce_alloc_in_hopid env) (ce_enable_paths env)
                  (ra_remote_transmit_path rail) (ra_hw rail) of
             (ret, hw) \<Rightarrow> (ret, on_rail a (\<lambda>rail. rail\<lparr>ra_hw := hw\<rparr>) state)))"

text \<open>The synchronous exchange: \<open>attempts\<close> are the numbers of the attempts still to make.\<close>

fun exchange_loop :: "ctl_env \<Rightarrow> nat \<Rightarrow> nat list \<Rightarrow> unit res \<Rightarrow> tbv_state \<Rightarrow> unit res \<times> tbv_state" where
  "exchange_loop env a [] ret state = (ret, state)"
| "exchange_loop env a (attempt # attempts) ret state =
     (case tbv_native_control_exchange_once env a state of
        (Inr _, state) \<Rightarrow> (Inr (), state)
      | (Inl e, state) \<Rightarrow>
          if e \<noteq> ETIMEDOUT then (Inl e, state) else exchange_loop env a attempts (Inl e) state)"

definition tbv_native_control_exchange :: "ctl_env \<Rightarrow> nat \<Rightarrow> tbv_state \<Rightarrow> unit res \<times> tbv_state" where
  "tbv_native_control_exchange env a state = exchange_loop env a [1..<6] (Inr ()) state"

section \<open>The work of a rail\<close>

definition error_of :: "unit res \<Rightarrow> errno ptr" where
  "error_of ret = (case ret of Inl e \<Rightarrow> Some e | Inr _ \<Rightarrow> None)"

definition set_last_error :: "unit res \<Rightarrow> tbv_rail \<Rightarrow> tbv_rail" where
  "set_last_error ret rail = rail\<lparr>ra_native_last_error := error_of ret\<rparr>"

text \<open>
  The three parts of the work. \<open>None\<close> means that it goes on; \<open>Some retry\<close> that it jumps to its
  end, with the flag that asks for a retry.
\<close>

definition work_hello :: "ctl_env \<Rightarrow> nat \<Rightarrow> tbv_state \<Rightarrow> bool option \<times> tbv_state" where
  "work_hello env a state =
     (case locate a state of
        None \<Rightarrow> (Some False, state)
      | Some (peer, rail) \<Rightarrow>
          if ts_negotiate_native state \<and> \<not> ra_native_negotiated rail
          then (let attempt = ra_native_attempts rail + 1;
                    state = on_rail a (\<lambda>rail. rail\<lparr>ra_native_attempts := attempt\<rparr>) state;
                    (ret, state) = tbv_native_control_exchange_once env a state;
                    state = on_rail a (set_last_error ret) state
                in (case ret of Inl e \<Rightarrow> Some (attempt < TBV_NATIVE_HELLO_RETRIES) | Inr _ \<Rightarrow> None, state))
          else (None, state))"

definition work_tunnel :: "ctl_env \<Rightarrow> nat \<Rightarrow> tbv_state \<Rightarrow> bool option \<times> tbv_state" where
  "work_tunnel env a state =
     (case locate a state of
        None \<Rightarrow> (Some False, state)
      | Some (peer, rail) \<Rightarrow>
          if ts_enable_tunnels state \<and> ra_path_state rail = TBV_PATH_RING_STARTED
          then (if \<not> ra_native_negotiated rail \<or> ra_remote_transmit_path rail < 0
                then (Some False, on_rail a (set_last_error (Inl ENOTCONN)) state)
                else (let attempt = ra_native_tunnel_attempts rail + 1;
                          state = on_rail a (\<lambda>rail. rail\<lparr>ra_native_tunnel_attempts := attempt\<rparr>) state;
                          (ret, state) = tbv_native_control_enable_tunnel_once env a state;
                          state = on_rail a (set_last_error ret) state
                      in case ret of
                           Inl e \<Rightarrow> (Some (attempt < TBV_NATIVE_TUNNEL_RETRIES), state)
                         | Inr _ \<Rightarrow> (None, publish_if_ready (ce_pub env) a state)))
          else (None, state))"

definition tbv_native_control_rail_data_ready :: "nat \<Rightarrow> tbv_state \<Rightarrow> bool" where
  "tbv_native_control_rail_data_ready a state =
     (case locate a state of None \<Rightarrow> False | Some (peer, rail) \<Rightarrow> tbv_rail_data_ready (pe_backend peer) rail)"

definition work_ready :: "ctl_env \<Rightarrow> nat \<Rightarrow> tbv_state \<Rightarrow> bool option \<times> tbv_state" where
  "work_ready env a state =
     (case locate a state of
        None \<Rightarrow> (Some False, state)
      | Some (peer, rail) \<Rightarrow>
          if ts_enable_tunnels state \<and> ra_path_state rail = TBV_PATH_TUNNEL_ENABLED \<and> \<not> ra_native_ready_sent rail
          then (let attempt = ra_native_ready_attempts rail + 1;
                    state = on_rail a (\<lambda>rail. rail\<lparr>ra_native_ready_attempts := attempt\<rparr>) state;
                    (ret, state) = tbv_native_control_ready_once env a state;
                    ret = (if \<not> is_ok ret \<and> tbv_native_control_rail_data_ready a state then Inr () else ret);
                    state = on_rail a (set_last_error ret) state
                in case ret of
                     Inl e \<Rightarrow> (Some (attempt < TBV_NATIVE_READY_RETRIES), state)
                   | Inr _ \<Rightarrow> (None, publish_if_ready (ce_pub env) a
                                 (on_rail a (\<lambda>rail. rail\<lparr>ra_native_ready_sent := True\<rparr>) state)))
          else (None, state))"

definition work_body :: "ctl_env \<Rightarrow> nat \<Rightarrow> tbv_state \<Rightarrow> bool option \<times> tbv_state" where
  "work_body env a state =
     (case work_hello env a state of
        (Some retry, state) \<Rightarrow> (Some retry, state)
      | (None, state) \<Rightarrow>
          (case work_tunnel env a state of
             (Some retry, state) \<Rightarrow> (Some retry, state)
           | (None, state) \<Rightarrow> work_ready env a state))"

text \<open>The end of the work: a retry is scheduled unless the work is being stopped.\<close>

definition work_out :: "nat \<Rightarrow> bool option \<times> tbv_state \<Rightarrow> tbv_state" where
  "work_out a = (\<lambda>(retry, state).
     if retry = Some True
     then on_rail a (\<lambda>rail. if \<not> ra_native_work_stop rail then schedule_work rail else rail) state
     else state)"

text \<open>The work starts when its timer expires: it is no longer scheduled.\<close>

definition tbv_native_control_work :: "ctl_env \<Rightarrow> nat \<Rightarrow> tbv_state \<Rightarrow> tbv_state" where
  "tbv_native_control_work env a state =
     (let state = on_rail a (\<lambda>rail. rail\<lparr>ra_work := False\<rparr>) state
      in case locate a state of
           None \<Rightarrow> state
         | Some (peer, rail) \<Rightarrow>
             if \<not> ra_native_work_state rail \<or> ra_native_work_stop rail then state
             else if pe_backend peer \<noteq> TBV_BACKEND_NATIVE then state
             else if ra_path_state rail \<noteq> TBV_PATH_RING_STARTED \<and> ra_path_state rail \<noteq> TBV_PATH_TUNNEL_ENABLED
             then state
             else work_out a (work_body env a state))"

definition queue_rail :: "tbv_rail \<Rightarrow> tbv_rail" where
  "queue_rail rail =
     rail\<lparr>ra_native_work_state := True, ra_native_work_stop := False, ra_native_attempts := 0,
          ra_native_tunnel_attempts := 0, ra_native_ready_attempts := 0, ra_native_last_error := None,
          ra_native_ready_sent := False, ra_native_remote_ready := False, ra_work := True\<rparr>"

definition tbv_native_control_queue_rail :: "nat \<Rightarrow> tbv_state \<Rightarrow> tbv_state" where
  "tbv_native_control_queue_rail a state = on_rail a queue_rail state"

section \<open>Registration\<close>

text \<open>
  The static flags of the two variants. \<open>xdomain\<close> says that the kernel passes the source of a packet
  (\<open>TB_PROTOCOL_HANDLER_HAS_XDOMAIN\<close>), \<open>register\<close> is the answer of \<open>tb_register_protocol_handler\<close>.
\<close>

record ctl_handlers =
  ch_legacy_registered :: bool
  ch_xdomain_registered :: bool

definition tbv_native_control_legacy_handle ::
  "ctl_env \<Rightarrow> u8 list ptr \<Rightarrow> tbv_state ptr \<Rightarrow> int \<times> u8 list list \<times> tbv_state ptr" where
  "tbv_native_control_legacy_handle env buf statep =
     (if statep = None then (0, [], statep) else tbv_native_control_handle_packet env None buf statep)"

definition tbv_native_control_xdomain_handle ::
  "ctl_env \<Rightarrow> tb_xdomain ptr \<Rightarrow> u8 list ptr \<Rightarrow> tbv_state ptr \<Rightarrow> int \<times> u8 list list \<times> tbv_state ptr" where
  "tbv_native_control_xdomain_handle env source_xd buf statep =
     (if source_xd = None \<or> statep = None then (0, [], statep)
      else tbv_native_control_handle_packet env source_xd buf statep)"

definition tbv_native_control_legacy_start :: "unit res \<Rightarrow> ctl_handlers \<Rightarrow> unit res \<times> ctl_handlers" where
  "tbv_native_control_legacy_start register ch =
     (case register of Inl e \<Rightarrow> (Inl e, ch) | Inr _ \<Rightarrow> (Inr (), ch\<lparr>ch_legacy_registered := True\<rparr>))"

definition tbv_native_control_xdomain_start :: "unit res \<Rightarrow> ctl_handlers \<Rightarrow> unit res \<times> ctl_handlers" where
  "tbv_native_control_xdomain_start register ch =
     (case register of Inl e \<Rightarrow> (Inl e, ch) | Inr _ \<Rightarrow> (Inr (), ch\<lparr>ch_xdomain_registered := True\<rparr>))"

definition tbv_native_control_legacy_stop :: "ctl_handlers \<Rightarrow> ctl_handlers" where
  "tbv_native_control_legacy_stop ch =
     (if \<not> ch_legacy_registered ch then ch else ch\<lparr>ch_legacy_registered := False\<rparr>)"

definition tbv_native_control_xdomain_stop :: "ctl_handlers \<Rightarrow> ctl_handlers" where
  "tbv_native_control_xdomain_stop ch =
     (if \<not> ch_xdomain_registered ch then ch else ch\<lparr>ch_xdomain_registered := False\<rparr>)"

definition tbv_native_control_start ::
  "bool \<Rightarrow> unit res \<Rightarrow> ctl_handlers \<Rightarrow> tbv_state \<Rightarrow> unit res \<times> ctl_handlers \<times> tbv_state" where
  "tbv_native_control_start xdomain register ch state =
     (if \<not> rc_native_enabled (ts_cfg state) then (Inr (), ch, state)
      else
        (let state = state\<lparr>ts_native_control_source_aware := xdomain\<rparr>;
             (ret, ch) = (if xdomain then tbv_native_control_xdomain_start register ch
                          else tbv_native_control_legacy_start register ch)
         in (ret, ch, if is_ok ret then state\<lparr>ts_native_control_registered := True\<rparr> else state)))"

definition tbv_native_control_stop :: "bool \<Rightarrow> ctl_handlers \<Rightarrow> tbv_state ptr \<Rightarrow> ctl_handlers \<times> tbv_state ptr" where
  "tbv_native_control_stop xdomain ch statep =
     (if xdomain then tbv_native_control_xdomain_stop ch else tbv_native_control_legacy_stop ch,
      map_option (\<lambda>state. state\<lparr>ts_native_control_registered := False,
                                ts_native_control_source_aware := False\<rparr>) statep)"

definition tbv_native_control_mode_name :: "tbv_state ptr \<Rightarrow> string" where
  "tbv_native_control_mode_name statep =
     (case statep of
        None \<Rightarrow> ''off''
      | Some state \<Rightarrow>
          if \<not> rc_native_enabled (ts_cfg state) \<or> \<not> ts_native_control_registered state then ''off''
          else if ts_native_control_source_aware state then ''source_aware'' else ''legacy'')"

end
