(* ===== verification/Control_Laws.thy ===== *)
theory Control_Laws
  imports Native_Control
begin

text \<open>
  Properties of the control plane: a message with a known source reaches the one rail it addresses; the
  work of a rail stops rescheduling itself; and only ready rails are published.
\<close>

section \<open>Reaching a rail\<close>

lemma find_unique:
  assumes "x \<in> set xs" and "P x" and "\<And>y. y \<in> set xs \<Longrightarrow> P y \<Longrightarrow> y = x"
  shows "find P xs = Some x"
  using assms
proof (induction xs)
  case (Cons y ys)
  show ?case
  proof (cases "P y")
    case True
    have "y = x" by (rule Cons.prems(3)) (simp_all add: True)
    then show ?thesis using True by simp
  next
    case False
    have "x \<in> set ys" using Cons.prems(1,2) False by auto
    then have "find P ys = Some x"
      by (rule Cons.IH [OF _ Cons.prems(2)]) (rule Cons.prems(3), simp_all)
    then show ?thesis using False by simp
  qed
qed simp

lemma sorted_wrt_pair:
  assumes "sorted_wrt P xs" and "x \<in> set xs" and "y \<in> set xs" and "x \<noteq> y" shows "P x y \<or> P y x"
  using assms by (induction xs) auto

lemma apart_peer_eq:
  assumes "topo_ok state" and "p \<in> set (ts_peers state)" and "q \<in> set (ts_peers state)"
    and "pe_backend p = pe_backend q" and "xd_addr (pe_xd p) = xd_addr (pe_xd q)"
  shows "p = q"
proof (rule ccontr)
  assume "p \<noteq> q"
  have "sorted_wrt apart (ts_peers state)" using assms(1) by (simp add: topo_ok_def)
  from sorted_wrt_pair [OF this assms(2,3) \<open>p \<noteq> q\<close>] have "apart p q \<or> apart q p" .
  then show False using assms(4,5) by (auto simp: apart_def)
qed

lemma rail_id_eq:
  assumes "topo_ok state" and "(p, r) \<in> set (pairs state)" and "(p, r') \<in> set (pairs state)" and "ra_rail_id r = ra_rail_id r'"
  shows "r = r'"
proof -
  have "distinct (map ra_rail_id (pe_rails p))"
    using assms(1,2) by (auto simp: set_pairs topo_ok_def list_all_iff peer_ok_def)
  then show ?thesis using assms(2-4) by (auto simp: set_pairs distinct_map dest: inj_onD)
qed

lemma ctl_find_iff:
  assumes "topo_ok state"
  shows "ctl_find (Some xd) (addressed info rail_id) state = Some (peer, rail)
    \<longleftrightarrow> (peer, rail) \<in> set (pairs state) \<and> pe_backend peer = TBV_BACKEND_NATIVE
       \<and> xd_addr (pe_xd peer) = xd_addr xd \<and> addressed info rail_id rail" (is "?l \<longleftrightarrow> ?r")
proof
  assume ?l
  then show ?r
    unfolding ctl_find_def
    by (auto simp: tbv_native_control_peer_matches_source_def dest!: find_Some_iff_set)
next
  assume r: ?r
  have "(p', r') = (peer, rail)"
    if m: "(p', r') \<in> set (pairs state)" and b: "pe_backend p' = TBV_BACKEND_NATIVE" "xd_addr (pe_xd p') = xd_addr xd"
      "addressed info rail_id r'" for p' r'
  proof -
    have "p' = peer" using apart_peer_eq [OF assms, of p' peer] r m b by (auto simp: set_pairs)
    moreover have "r' = rail" using rail_id_eq [OF assms, of peer r' rail] r m b calculation by (auto simp: addressed_def)
    ultimately show ?thesis by simp
  qed
  then show ?l
    unfolding ctl_find_def using r
    by (intro find_unique) (auto simp: tbv_native_control_peer_matches_source_def)
qed

text \<open>
  C27: When the kernel passes the source of a control message, the message reaches the rail it
  means: for every reachable topology the search by source, route and rail number finds a rail exactly
  when it is the rail of that number of the native peer behind that connection; there is no other.
\<close>

theorem message_reaches_its_rail:
  assumes "topo_reachable state"
  shows "ctl_find (Some xd) (addressed info rail_id) state = Some (peer, rail)
    \<longleftrightarrow> (peer, rail) \<in> set (pairs state) \<and> pe_backend peer = TBV_BACKEND_NATIVE
       \<and> xd_addr (pe_xd peer) = xd_addr xd \<and> k_route (ra_key rail) = i_route info \<and> ra_rail_id rail = rail_id"
  using ctl_find_iff [OF topo_reachable_ok [OF assms]] by (simp add: addressed_def)

section \<open>The view of one rail\<close>

text \<open>What an operation on the rail at address \<open>a\<close> reads: its peer without the list of rails, and itself.\<close>

definition view :: "nat \<Rightarrow> tbv_state \<Rightarrow> (tbv_peer \<times> tbv_rail) option" where
  "view a state = map_option (map_prod bare id) (locate a state)"

lemma view_on_rail:
  assumes "\<And>r. ra_addr (f r) = ra_addr r"
  shows "view a (on_rail a f state) = map_option (map_prod id f) (view a state)"
proof (cases "locate a state")
  case None
  then show ?thesis using assms by (simp add: view_def locate_on_rail)
next
  case (Some pr)
  then have "ra_addr (snd pr) = a" using locate_Some [of a state "fst pr" "snd pr"] by simp
  then show ?thesis using assms Some by (cases pr) (simp add: view_def locate_on_rail moved_def)
qed

lemma view_frame [simp]:
  "view a (state\<lparr>ts_log := l\<rparr>) = view a state" "view a (state\<lparr>ts_sent := m\<rparr>) = view a state"
  by (simp_all add: view_def) (simp add: locate_def pairs_def)

lemma view_locate:
  "view a state = Some (p, r) \<longleftrightarrow> (\<exists>peer. locate a state = Some (peer, r) \<and> p = bare peer)"
  by (auto simp: view_def)

lemma view_None: "view a state = None \<longleftrightarrow> locate a state = None"
  by (simp add: view_def)

section \<open>The work comes to rest\<close>

text \<open>Whether the work of a rail is scheduled, and its three counters of attempts.\<close>

definition ctl_part :: "tbv_rail \<Rightarrow> bool \<times> u32 \<times> u32 \<times> u32" where
  "ctl_part r = (ra_work r, ra_native_attempts r, ra_native_tunnel_attempts r, ra_native_ready_attempts r)"

definition ctl :: "nat \<Rightarrow> tbv_state \<Rightarrow> (bool \<times> u32 \<times> u32 \<times> u32) option" where
  "ctl a state = map_option (ctl_part \<circ> snd) (locate a state)"

definition keeps_ctl :: "(tbv_rail \<Rightarrow> tbv_rail) \<Rightarrow> bool" where
  "keeps_ctl f \<longleftrightarrow> (\<forall>r. ra_addr (f r) = ra_addr r \<and> ctl_part (f r) = ctl_part r)"

lemma ctl_on_rail: "keeps_ctl f \<Longrightarrow> ctl a (on_rail b f state) = ctl a state"
  by (auto simp: ctl_def keeps_ctl_def locate_on_rail moved_def option.map_comp comp_def intro!: map_option_cong)

lemma ctl_log [simp]: "ctl a (state\<lparr>ts_log := l\<rparr>) = ctl a state" "ctl a (state\<lparr>ts_sent := m\<rparr>) = ctl a state"
  by (simp_all add: ctl_def locate_def pairs_def)

lemma keeps_ctl_ops [simp]:
  "keeps_ctl rail_get" "keeps_ctl rail_put" "keeps_ctl (learn_remote env h)" "keeps_ctl (set_last_error ret)"
  "keeps_ctl (\<lambda>r. r\<lparr>ra_native_remote_ready := b\<rparr>)" "keeps_ctl (\<lambda>r. r\<lparr>ra_native_ready_sent := b\<rparr>)"
  "keeps_ctl (\<lambda>r. r\<lparr>ra_native_ready_sent := b, ra_native_last_error := e\<rparr>)" "keeps_ctl (\<lambda>r. r\<lparr>ra_hw := hw\<rparr>)"
  "keeps_ctl mark_failed" "keeps_ctl (mark_deferred b)" "keeps_ctl (mark_published dev)"
  by (simp_all add: keeps_ctl_def ctl_part_def rail_get_def rail_put_def Let_def learn_remote_def set_last_error_def mark_defs)

lemma ctl_event [simp]: "ctl a (snd (tbv_ibdev_rail_event env b True state)) = ctl a state"
  by (auto simp: tbv_ibdev_rail_event_def ctl_on_rail split: option.split sum.split)

lemma ctl_publish [simp]: "ctl a (publish_if_ready env b state) = ctl a state"
  by (auto simp: publish_if_ready_def with_rail_def tbv_rail_put_def ctl_on_rail split: option.split)

lemma ctl_apply_remote [simp]:
  "ctl a (snd (tbv_native_control_apply_remote env xd info h b state)) = ctl a state"
  by (auto simp: tbv_native_control_apply_remote_def ctl_on_rail split: option.split)

lemma ctl_mark_remote_ready [simp]:
  "ctl a (snd (tbv_native_control_mark_remote_ready env xd info h state)) = ctl a state"
  by (auto simp: tbv_native_control_mark_remote_ready_def ctl_on_rail split: option.split)

text \<open>
  While a run waits for an answer, packets may arrive. What they do to a rail is to schedule its work; they do not touch
  its counters. An environment in which none arrives leaves the state alone.
\<close>

definition attempts :: "nat \<Rightarrow> tbv_state \<Rightarrow> (u32 \<times> u32 \<times> u32) option" where
  "attempts a state = map_option snd (ctl a state)"

definition attempts_kept :: "ctl_env \<Rightarrow> bool" where
  "attempts_kept env \<longleftrightarrow> (\<forall>xd request state a. attempts a (snd (ce_request env xd request state)) = attempts a state)"

definition undisturbed :: "ctl_env \<Rightarrow> bool" where
  "undisturbed env \<longleftrightarrow> (\<forall>xd request state. snd (ce_request env xd request state) = state)"

definition ctl_moves :: "ctl_env \<Rightarrow> nat \<Rightarrow> tbv_state \<Rightarrow> tbv_state \<Rightarrow> bool" where
  "ctl_moves env a state state' \<longleftrightarrow>
     attempts a state' = attempts a state \<and> (undisturbed env \<longrightarrow> ctl a state' = ctl a state)"

lemma ctl_moves_same: "ctl a state' = ctl a state \<Longrightarrow> ctl_moves env a state state'"
  by (simp add: ctl_moves_def attempts_def)

lemma ctl_moves_Some:
  assumes "ctl_moves env a state state'" and "ctl a state = Some (w, h, t, r)"
  obtains w' where "ctl a state' = Some (w', h, t, r)" and "undisturbed env \<Longrightarrow> w' = w"
  using assms by (auto simp: ctl_moves_def attempts_def)

lemma ctl_transaction_keeps:
  assumes "attempts_kept env" shows "ctl_moves env a state (snd (ctl_transaction env peer rail op state))"
proof -
  have "ctl_moves env a state (snd (request_and_wait env xd b state))" for xd b
    using assms by (simp add: request_and_wait_def undisturbed_def ctl_moves_def attempts_kept_def) (simp add: attempts_def)
  then show ?thesis
    by (auto simp: ctl_transaction_def Let_def ctl_moves_same split: sum.split prod.split) (metis snd_conv)+
qed

lemma ctl_moves_then: "ctl_moves env a s1 s2 \<Longrightarrow> ctl a s3 = ctl a s2 \<Longrightarrow> ctl_moves env a s1 s3"
  by (simp add: ctl_moves_def attempts_def)

lemma ctl_exchange_once:
  assumes "attempts_kept env" shows "ctl_moves env a state (snd (tbv_native_control_exchange_once env b state))"
  using ctl_transaction_keeps [OF assms]
  by (auto simp: tbv_native_control_exchange_once_def tbv_native_control_apply_ack_def ctl_moves_same
      split: option.split sum.split prod.split intro: ctl_moves_then) (metis ctl_moves_then ctl_apply_remote snd_conv)+

lemma ctl_ready_once:
  assumes "attempts_kept env" shows "ctl_moves env a state (snd (tbv_native_control_ready_once env b state))"
  using ctl_transaction_keeps [OF assms]
  by (auto simp: tbv_native_control_ready_once_def ctl_moves_same
      split: option.split sum.split prod.split) (metis ctl_moves_then ctl_mark_remote_ready snd_conv)+

lemma ctl_enable_tunnel_once: "ctl a (snd (tbv_native_control_enable_tunnel_once env b state)) = ctl a state"
  by (auto simp: tbv_native_control_enable_tunnel_once_def ctl_on_rail split: option.split prod.split)

text \<open>What is left of the attempts, and a measure that no run increases; it keeps the counters from wrapping.\<close>

fun budget :: "bool \<times> u32 \<times> u32 \<times> u32 \<Rightarrow> nat" where
  "budget (w, h, t, r) = (5 - unat h) + (20 - unat t) + (10 - unat r)"

fun spent :: "bool \<times> u32 \<times> u32 \<times> u32 \<Rightarrow> nat" where
  "spent (w, h, t, r) = unat h + unat t + unat r"

lemma ctl_update:
  assumes "ctl a state = Some c" and "\<And>r. ra_addr (f r) = ra_addr r" and "\<And>r. ctl_part (f r) = g (ctl_part r)"
  shows "ctl a (on_rail a f state) = Some (g c)"
proof -
  obtain p r where pr: "locate a state = Some (p, r)" "c = ctl_part r" using assms(1) by (auto simp: ctl_def)
  then have "ra_addr r = a" using locate_Some by blast
  then show ?thesis using pr assms(2,3) by (simp add: ctl_def locate_on_rail moved_def)
qed

lemma work_hello_ctl:
  assumes "attempts_kept env" and "ctl a state = Some (w, h, t, r)" and "work_hello env a state = (out, state')"
  shows "\<exists>w' h'. ctl a state' = Some (w', h', t, r) \<and> (undisturbed env \<longrightarrow> w' = w) \<and> (h' = h \<or> h' = h + 1)
    \<and> (out = Some True \<longrightarrow> h' = h + 1 \<and> h + 1 < 5)"
proof -
  obtain p rail where l: "locate a state = Some (p, rail)" "ctl_part rail = (w, h, t, r)"
    using assms(2) by (auto simp: ctl_def)
  let ?s = "on_rail a (\<lambda>rail. rail\<lparr>ra_native_attempts := h + 1\<rparr>) state"
  have "ctl a ?s = Some ((\<lambda>(w, h', t, r). (w, h + 1, t, r)) (w, h, t, r))"
    by (rule ctl_update [OF assms(2)]) (simp_all add: ctl_part_def)
  then obtain w' where "ctl a (snd (tbv_native_control_exchange_once env a ?s)) = Some (w', h + 1, t, r)"
      "undisturbed env \<Longrightarrow> w' = w"
    using ctl_moves_Some [OF ctl_exchange_once [OF assms(1)], of a ?s w "h + 1" t r a] by auto
  moreover have "ra_native_attempts rail = h" using l(2) by (simp add: ctl_part_def)
  ultimately show ?thesis
    using assms(2,3) l(1)
    by (auto simp: work_hello_def Let_def case_prod_unfold ctl_on_rail split: if_splits sum.splits)
qed

lemma work_tunnel_ctl:
  assumes "ctl a state = Some (w, h, t, r)" and "work_tunnel env a state = (out, state')"
  shows "\<exists>t'. ctl a state' = Some (w, h, t', r) \<and> (t' = t \<or> t' = t + 1) \<and> (out = Some True \<longrightarrow> t' = t + 1 \<and> t + 1 < 20)"
proof -
  obtain p rail where l: "locate a state = Some (p, rail)" "ctl_part rail = (w, h, t, r)"
    using assms(1) by (auto simp: ctl_def)
  let ?s = "on_rail a (\<lambda>rail. rail\<lparr>ra_native_tunnel_attempts := t + 1\<rparr>) state"
  have "ctl a ?s = Some ((\<lambda>(w, h, t', r). (w, h, t + 1, r)) (w, h, t, r))"
    by (rule ctl_update [OF assms(1)]) (simp_all add: ctl_part_def)
  then have "ctl a (snd (tbv_native_control_enable_tunnel_once env a ?s)) = Some (w, h, t + 1, r)"
    by (simp add: ctl_enable_tunnel_once)
  moreover have "ra_native_tunnel_attempts rail = t" using l(2) by (simp add: ctl_part_def)
  ultimately show ?thesis
    using assms l(1)
    by (auto simp: work_tunnel_def Let_def case_prod_unfold ctl_on_rail split: if_splits sum.splits)
qed

lemma work_ready_ctl:
  assumes "attempts_kept env" and "ctl a state = Some (w, h, t, r)" and "work_ready env a state = (out, state')"
  shows "\<exists>w' r'. ctl a state' = Some (w', h, t, r') \<and> (undisturbed env \<longrightarrow> w' = w) \<and> (r' = r \<or> r' = r + 1)
    \<and> (out = Some True \<longrightarrow> r' = r + 1 \<and> r + 1 < 10)"
proof -
  obtain p rail where l: "locate a state = Some (p, rail)" "ctl_part rail = (w, h, t, r)"
    using assms(2) by (auto simp: ctl_def)
  let ?s = "on_rail a (\<lambda>rail. rail\<lparr>ra_native_ready_attempts := r + 1\<rparr>) state"
  have "ctl a ?s = Some ((\<lambda>(w, h, t, r'). (w, h, t, r + 1)) (w, h, t, r))"
    by (rule ctl_update [OF assms(2)]) (simp_all add: ctl_part_def)
  then obtain w' where "ctl a (snd (tbv_native_control_ready_once env a ?s)) = Some (w', h, t, r + 1)"
      "undisturbed env \<Longrightarrow> w' = w"
    using ctl_moves_Some [OF ctl_ready_once [OF assms(1)], of a ?s w h t "r + 1" a] by auto
  moreover have "ra_native_ready_attempts rail = r" using l(2) by (simp add: ctl_part_def)
  ultimately show ?thesis
    using assms(2,3) l(1)
    by (auto simp: work_ready_def Let_def case_prod_unfold ctl_on_rail split: if_splits sum.splits)
qed

text \<open>A counter that takes at most one step uses up budget, and the last retry uses it strictly.\<close>

lemma counter_step:
  assumes "x' = x \<or> x' = x + 1" and "unat (x :: u32) + 1 < 4294967296"
  shows "unat x' \<le> unat x + 1" "n - unat x' \<le> n - unat x" "x' = x + 1 \<Longrightarrow> x + 1 < of_nat n \<Longrightarrow> n < 100 \<Longrightarrow> n - unat x' < n - unat x"
proof -
  have u: "unat (x + 1) = unat x + 1" using unat_add_u32 [of x 1] assms(2) by simp
  then show "unat x' \<le> unat x + 1" "n - unat x' \<le> n - unat x" using assms(1) by auto
  assume "x' = x + 1" "x + 1 < of_nat n" "n < 100"
  moreover have "unat (of_nat n :: u32) = n" using \<open>n < 100\<close> by (simp add: unat_of_nat)
  ultimately show "n - unat x' < n - unat x" using u by (simp add: word_less_nat_alt)
qed

lemma budget_step:
  assumes "unat h' \<le> unat h + 1" and "5 - unat h' \<le> 5 - unat h" and "unat t' \<le> unat t + 1" and "20 - unat t' \<le> 20 - unat t"
    and "unat r' \<le> unat r + 1" and "10 - unat r' \<le> 10 - unat r"
    and "b \<longrightarrow> 5 - unat h' < 5 - unat h \<or> 20 - unat t' < 20 - unat t \<or> 10 - unat r' < 10 - unat r"
  shows "spent (w', h', t', r') \<le> spent (w, h, t, r) + 3 \<and> budget (w', h', t', r') \<le> budget (w, h, t, r)
    \<and> (b \<longrightarrow> budget (w', h', t', r') < budget (w, h, t, r))"
proof -
  have "x' + y' + z' \<le> x + y + z \<and> (b \<longrightarrow> x' + y' + z' < x + y + z)"
    if "x' \<le> x" "y' \<le> y" "z' \<le> z" "b \<longrightarrow> x' < x \<or> y' < y \<or> z' < z" for x x' y y' z z' :: nat
    using that by auto
  from this [OF assms(2,4,6,7)] show ?thesis using assms(1,3,5) by simp
qed

lemma work_body_ctl:
  assumes "attempts_kept env" and "ctl a state = Some (w, h, t, r)" and "spent (w, h, t, r) + 3 < 4294967296"
    and "work_body env a state = (out, state')"
  shows "\<exists>w' h' t' r'. ctl a state' = Some (w', h', t', r') \<and> (undisturbed env \<longrightarrow> w' = w)
    \<and> spent (w', h', t', r') \<le> spent (w, h, t, r) + 3 \<and> budget (w', h', t', r') \<le> budget (w, h, t, r)
    \<and> (out = Some True \<longrightarrow> budget (w', h', t', r') < budget (w, h, t, r))"
proof -
  have hb: "unat h + 1 < 4294967296" "unat t + 1 < 4294967296" "unat r + 1 < 4294967296" using assms(3) by simp_all
  obtain o1 s1 where s1: "work_hello env a state = (o1, s1)" by fastforce
  obtain w1 h' where h': "ctl a s1 = Some (w1, h', t, r)" "h' = h \<or> h' = h + 1" "o1 = Some True \<longrightarrow> h' = h + 1 \<and> h + 1 < 5"
    and w1: "undisturbed env \<longrightarrow> w1 = w"
    using work_hello_ctl [OF assms(1,2) s1] by blast
  note hs = counter_step(1) [OF h'(2) hb(1)] counter_step(2,3) [OF h'(2) hb(1), of 5]
  show ?thesis
  proof (cases o1)
    case (Some b)
    then have "out = o1" "state' = s1" using assms(4) s1 by (simp_all add: work_body_def)
    moreover have "o1 = Some True \<longrightarrow> 5 - unat h' < 5 - unat h" using h'(3) hs(3) by simp
    ultimately show ?thesis using h'(1) w1 hs(1,2)
      by (intro exI [of _ w1] exI [of _ h'] exI [of _ t] exI [of _ r] conjI [OF _ conjI [OF _ budget_step]]) simp_all
  next
    case None
    obtain o2 s2 where s2: "work_tunnel env a s1 = (o2, s2)" by fastforce
    obtain t' where t': "ctl a s2 = Some (w1, h', t', r)" "t' = t \<or> t' = t + 1" "o2 = Some True \<longrightarrow> t' = t + 1 \<and> t + 1 < 20"
      using work_tunnel_ctl [OF h'(1) s2] by blast
    note ts = counter_step(1) [OF t'(2) hb(2)] counter_step(2,3) [OF t'(2) hb(2), of 20]
    show ?thesis
    proof (cases o2)
      case (Some b)
      then have "out = o2" "state' = s2" using assms(4) s1 s2 None by (simp_all add: work_body_def)
      moreover have "o2 = Some True \<longrightarrow> 20 - unat t' < 20 - unat t" using t'(3) ts(3) by simp
      ultimately show ?thesis using t'(1) w1 ts(1,2) hs(1,2)
        by (intro exI [of _ w1] exI [of _ h'] exI [of _ t'] exI [of _ r] conjI [OF _ conjI [OF _ budget_step]]) simp_all
    next
      case None
      then have "work_ready env a s2 = (out, state')" using assms(4) s1 s2 \<open>o1 = None\<close> by (simp add: work_body_def)
      from work_ready_ctl [OF assms(1) t'(1) this] obtain w2 r' where r': "ctl a state' = Some (w2, h', t', r')"
        "r' = r \<or> r' = r + 1" "out = Some True \<longrightarrow> r' = r + 1 \<and> r + 1 < 10" and w2: "undisturbed env \<longrightarrow> w2 = w1" by blast
      note rs = counter_step(1) [OF r'(2) hb(3)] counter_step(2,3) [OF r'(2) hb(3), of 10]
      have "out = Some True \<longrightarrow> 10 - unat r' < 10 - unat r" using r'(3) rs(3) by simp
      then show ?thesis using r'(1) w1 w2 rs(1,2) ts(1,2) hs(1,2)
        by (intro exI [of _ w2] exI [of _ h'] exI [of _ t'] exI [of _ r'] conjI [OF _ conjI [OF _ budget_step]]) simp_all
    qed
  qed
qed

lemma work_ctl:
  assumes "attempts_kept env" and "ctl a state = Some c" and "spent c + 3 < 4294967296"
  shows "\<exists>c'. ctl a (tbv_native_control_work env a state) = Some c'
    \<and> spent c' \<le> spent c + 3 \<and> budget c' \<le> budget c \<and> (fst c' \<and> undisturbed env \<longrightarrow> budget c' < budget c)"
proof -
  obtain w h t r where c: "c = (w, h, t, r)" by (cases c)
  let ?s = "on_rail a (\<lambda>rail. rail\<lparr>ra_work := False\<rparr>) state"
  have "ctl a ?s = Some ((\<lambda>(w, h, t, r). (False, h, t, r)) c)"
    by (rule ctl_update [OF assms(2)]) (simp_all add: ctl_part_def)
  then have s: "ctl a ?s = Some (False, h, t, r)" by (simp add: c)
  obtain out s' where b: "work_body env a ?s = (out, s')" by fastforce
  have "spent (False, h, t, r) + 3 < 4294967296" using assms(3) c by simp
  from work_body_ctl [OF assms(1) s this b] obtain w1 h' t' r' where s': "ctl a s' = Some (w1, h', t', r')"
    "spent (w1, h', t', r') \<le> spent (False, h, t, r) + 3" "budget (w1, h', t', r') \<le> budget (False, h, t, r)"
    "out = Some True \<longrightarrow> budget (w1, h', t', r') < budget (False, h, t, r)" "undisturbed env \<longrightarrow> \<not> w1" by blast
  obtain p rail where l: "locate a ?s = Some (p, rail)" using s by (auto simp: ctl_def)
  show ?thesis
  proof (cases "tbv_native_control_work env a state = ?s")
    case True
    then show ?thesis using s c by simp
  next
    case False
    then have w: "tbv_native_control_work env a state = work_out a (out, s')"
      using l b by (auto simp: tbv_native_control_work_def Let_def split: if_splits)
    obtain p1 r1 where l1: "locate a s' = Some (p1, r1)" "ctl_part r1 = (w1, h', t', r')" using s' by (auto simp: ctl_def)
    then have "ra_addr r1 = a" using locate_Some by blast
    then have "\<exists>w'. ctl a (work_out a (out, s')) = Some (w', h', t', r') \<and> (w' \<longrightarrow> out = Some True \<or> w1)"
      using l1 by (auto simp: work_out_def ctl_def locate_on_rail schedule_work_def moved_def ctl_part_def)
    then show ?thesis using w s' c by auto
  qed
qed

text \<open>What a received packet does: it may schedule the work, and leaves the counters alone.\<close>

lemma attempts_kick [simp]:
  "attempts a (snd (tbv_native_control_kick_matching_rail xd info n state)) = attempts a state"
  by (auto simp: tbv_native_control_kick_matching_rail_def attempts_def ctl_def locate_on_rail moved_def schedule_work_def
      ctl_part_def option.map_comp comp_def split: option.split intro!: map_option_cong)

lemma attempts_ctl: "ctl a state' = ctl a state \<Longrightarrow> attempts a state' = attempts a state"
  by (simp add: attempts_def)

lemma ctl_mark_local_ready_sent [simp]:
  "ctl a (snd (tbv_native_control_mark_local_ready_sent env xd info n state)) = ctl a state"
  by (auto simp: tbv_native_control_mark_local_ready_sent_def ctl_on_rail split: option.split)

lemma attempts_ready: "attempts a (snd (snd (handle_ready env xd info remote state))) = attempts a state"
proof (cases "tbv_native_control_snapshot xd info (h_rail_id remote) True False state")
  case (Inr x)
  have m: "attempts a (snd (tbv_native_control_mark_remote_ready e xd info remote state)) = attempts a state"
    "attempts a (snd (tbv_native_control_mark_local_ready_sent e xd info n st)) = attempts a st" for e n st
    by (rule attempts_ctl, simp)+
  show ?thesis
    using Inr by (simp add: handle_ready_def Let_def case_prod_unfold m split: sum.split)
qed (simp add: handle_ready_def)

lemma attempts_hello: "attempts a (snd (snd (handle_hello env xd info remote state))) = attempts a state"
proof (cases "tbv_native_control_snapshot xd info (h_rail_id remote) True False state")
  case (Inr x)
  have m: "attempts a (snd (tbv_native_control_apply_remote e xd info remote True state)) = attempts a state" for e
    by (rule attempts_ctl) simp
  show ?thesis using Inr by (simp add: handle_hello_def Let_def case_prod_unfold m)
qed (simp add: handle_hello_def)

lemma attempts_packet:
  assumes "tbv_native_control_handle_packet env xd buf (Some state) = (n, replies, Some state')"
  shows "attempts a state' = attempts a state"
proof (cases "tbv_native_wire_parse_hello buf")
  case (Inl e)
  then show ?thesis using assms by (simp add: tbv_native_control_handle_packet_def)
next
  case (Inr x)
  obtain remote info where x: "x = (remote, info)" by fastforce
  have ack: "attempts a (snd (tbv_native_control_apply_ack e xd info remote state)) = attempts a state" for e
    by (rule attempts_ctl) (simp add: tbv_native_control_apply_ack_def split: option.split)
  have "state' \<in> {state, snd (tbv_native_control_apply_ack (ce_tx env) xd info remote state),
      snd (snd (handle_ready env xd info remote state)), snd (snd (handle_hello env xd info remote state))}"
    using assms Inr x by (simp add: tbv_native_control_handle_packet_def map_prod_def case_prod_unfold split: if_splits)
  then show ?thesis using ack attempts_ready attempts_hello by auto
qed

section \<open>Runs of the work between packets\<close>

text \<open>
  What happens to a rail after it was queued: its work runs, which it does only when it is scheduled, each time with
  answers of its own, and packets with any contents are received.
\<close>

datatype ctl_step = Run_work ctl_env | Packet ctl_env "tb_xdomain ptr" "u8 list ptr"

definition scheduled :: "nat \<Rightarrow> tbv_state \<Rightarrow> bool" where
  "scheduled a state \<longleftrightarrow> (\<exists>peer rail. locate a state = Some (peer, rail) \<and> ra_work rail)"

fun take_step :: "nat \<Rightarrow> ctl_step \<Rightarrow> tbv_state \<Rightarrow> tbv_state" where
  "take_step a (Run_work env) state = tbv_native_control_work env a state"
| "take_step a (Packet env xd buf) state =
     (case tbv_native_control_handle_packet env xd buf (Some state) of
        (n, replies, Some state') \<Rightarrow> state' | (n, replies, None) \<Rightarrow> state)"

fun legal_steps :: "nat \<Rightarrow> ctl_step list \<Rightarrow> tbv_state \<Rightarrow> bool" where
  "legal_steps a [] state = True"
| "legal_steps a (s # ss) state =
     ((case s of Run_work env \<Rightarrow> scheduled a state \<and> attempts_kept env | Packet _ _ _ \<Rightarrow> True)
      \<and> legal_steps a ss (take_step a s state))"

definition is_run :: "ctl_step \<Rightarrow> bool" where
  "is_run s \<longleftrightarrow> (case s of Run_work env \<Rightarrow> True | _ \<Rightarrow> False)"

text \<open>A received packet, between runs or while a run waits.\<close>

definition brings_packet :: "ctl_step \<Rightarrow> bool" where
  "brings_packet s \<longleftrightarrow> (case s of Run_work env \<Rightarrow> \<not> undisturbed env | Packet _ _ _ \<Rightarrow> True)"

lemma attempts_step_packet: "attempts a (take_step a (Packet env xd buf) state) = attempts a state"
  using attempts_packet [of env xd buf state] by (auto split: prod.split option.split)

lemma runs_bounded:
  assumes "ctl a state = Some c" and "legal_steps a ss state" and "spent c + 3 * length ss < 4294967296"
  shows "length (filter is_run ss) \<le> budget c + (if fst c then 1 else 0) + length (filter brings_packet ss)"
  using assms
proof (induction ss arbitrary: state c)
  case (Cons s ss)
  show ?case
  proof (cases s)
    case (Run_work env)
    have k: "attempts_kept env" and w: "fst c"
      using Cons.prems(1,2) Run_work by (auto simp: scheduled_def ctl_def ctl_part_def)
    have "spent c + 3 < 4294967296" using Cons.prems(3) by simp
    from work_ctl [OF k Cons.prems(1) this] obtain c' where c': "ctl a (tbv_native_control_work env a state) = Some c'"
      "spent c' \<le> spent c + 3" "budget c' \<le> budget c" "fst c' \<and> undisturbed env \<longrightarrow> budget c' < budget c" by blast
    have "legal_steps a ss (tbv_native_control_work env a state)" using Cons.prems(2) Run_work by simp
    from Cons.IH [OF c'(1) this] show ?thesis
      using c' w Cons.prems(3) Run_work by (auto simp: is_run_def brings_packet_def split: if_splits)
  next
    case (Packet env xd buf)
    obtain w h t r where c: "c = (w, h, t, r)" by (cases c)
    obtain w' where c': "ctl a (take_step a s state) = Some (w', h, t, r)"
      using attempts_step_packet [of a env xd buf state] Cons.prems(1) Packet c by (auto simp: attempts_def)
    have "legal_steps a ss (take_step a s state)" using Cons.prems(2) by simp
    from Cons.IH [OF c' this] show ?thesis
      using Cons.prems(3) Packet c by (simp add: is_run_def brings_packet_def split: if_splits)
  qed
qed simp

text \<open>
  C15: The work of a rail comes to rest. After it was queued for negotiation, its work runs at most 36 times, and at most
  once more for every packet that is received, whatever the packets contain and whatever the answers of the other
  end and of the controller are, each time anew. (The attempts are at most 5 for HELLO, 20 for the tunnel and 10
  for READY. A run during which packets arrive counts as one packet; what happens during the waits does
  not touch the counters of attempts, which is what packets do. The counters have 32 bits.)
\<close>

theorem work_comes_to_rest:
  assumes "legal_steps a ss (tbv_native_control_queue_rail a state)" and "length ss < 1000000000"
  shows "length (filter is_run ss) \<le> 36 + length (filter brings_packet ss)"
proof (cases "ctl a state")
  case (Some c)
  then have "ctl a (tbv_native_control_queue_rail a state) = Some ((\<lambda>c. (True, 0, 0, 0)) c)"
    unfolding tbv_native_control_queue_rail_def by (rule ctl_update) (simp_all add: queue_rail_def ctl_part_def)
  from runs_bounded [OF this assms(1)] assms(2) show ?thesis by simp
next
  case None
  have none: "locate a (take_step a s st) = None" if "locate a st = None" "\<not> is_run s" for s st
  proof (cases s)
    case (Packet env xd buf)
    then show ?thesis using attempts_step_packet [of a env xd buf st] that(1) by (simp add: attempts_def ctl_def)
  qed (use that in \<open>simp add: is_run_def\<close>)
  have "filter is_run ss = []" if "locate a st = None" "legal_steps a ss st" for st
    using that
  proof (induction ss arbitrary: st)
    case (Cons s ss)
    then have "\<not> is_run s" by (auto simp: is_run_def scheduled_def split: ctl_step.splits)
    then show ?case using Cons none [of st s] by simp
  qed simp
  moreover have "locate a (tbv_native_control_queue_rail a state) = None"
    using None by (simp add: ctl_def tbv_native_control_queue_rail_def locate_on_rail queue_rail_def)
  ultimately show ?thesis using assms(1) by simp
qed

section \<open>Only ready rails are published\<close>

text \<open>
  Every device that was registered belonged to a rail that was not being removed, whose tunnel was
  enabled and, for a native rail, that had announced itself and knew that the other end is ready.
\<close>

definition registered_ready :: "tbv_rail \<Rightarrow> bool" where
  "registered_ready rail \<longleftrightarrow> \<not> ra_removing rail \<and> ra_path_state rail = TBV_PATH_TUNNEL_ENABLED
     \<and> (case ra_ibdev rail of None \<Rightarrow> False | Some dev \<Rightarrow>
          ib_backend dev = TBV_BACKEND_NATIVE \<longrightarrow> ra_native_ready_sent rail \<and> ra_native_remote_ready rail)"

definition log_ok :: "tbv_state \<Rightarrow> bool" where
  "log_ok state \<longleftrightarrow> list_all (\<lambda>(rail, up). up \<longrightarrow> registered_ready rail) (ts_log state)"

lemma log_ok_on_rail [simp]: "log_ok (on_rail a f state) = log_ok state"
  by (simp add: log_ok_def)

lemma log_ok_sent [simp]: "log_ok (state\<lparr>ts_sent := m\<rparr>) = log_ok state"
  by (simp add: log_ok_def)

lemma log_ok_event: "log_ok state \<Longrightarrow> log_ok (snd (tbv_ibdev_rail_event env a joined state))"
proof (cases joined)
  case False
  assume "log_ok state"
  then show ?thesis using False
    by (auto simp: tbv_ibdev_rail_event_def ibdev_rail_down_def Let_def log_ok_def list_all_iff)
next
  case True
  assume ok: "log_ok state"
  have "registered_ready (mark_published dev rail)"
    if "tbv_ibdev_rail_publish_ready_locked env state peer rail" "ib_backend dev = pe_backend peer" for dev peer rail
    using that by (auto simp: registered_ready_def mark_published_def tbv_ibdev_rail_publish_ready_locked_def
        tbv_rail_data_ready_def tbv_rail_apple_data_ready_def split: if_splits)
  moreover have "ib_backend dev = pe_backend peer"
    if "tbv_ibdev_register_one env state peer rail name = Inr dev" for dev peer rail name
    using that by (auto simp: tbv_ibdev_register_one_def split: if_splits sum.splits)
  ultimately show ?thesis
    using ok True
    by (auto simp: tbv_ibdev_rail_event_def log_ok_def on_rail_log split: option.split sum.split)
qed

lemma log_ok_publish: "log_ok state \<Longrightarrow> log_ok (publish_if_ready env a state)"
  by (auto simp: publish_if_ready_def with_rail_def tbv_rail_put_def intro: log_ok_event split: option.split)

lemma log_ok_ops:
  "log_ok state \<Longrightarrow> log_ok (snd (tbv_native_control_apply_remote tx xd info h b state))"
  "log_ok state \<Longrightarrow> log_ok (snd (tbv_native_control_mark_remote_ready pub xd info h state))"
  "log_ok state \<Longrightarrow> log_ok (snd (tbv_native_control_mark_local_ready_sent pub xd info n state))"
  "log_ok state \<Longrightarrow> log_ok (snd (tbv_native_control_kick_matching_rail xd info n state))"
  "log_ok state \<Longrightarrow> log_ok (snd (tbv_native_control_enable_tunnel_once env a state))"
  by (auto simp: tbv_native_control_apply_remote_def tbv_native_control_mark_remote_ready_def
      tbv_native_control_mark_local_ready_sent_def tbv_native_control_kick_matching_rail_def
      tbv_native_control_enable_tunnel_once_def intro: log_ok_publish split: option.split prod.split)

lemma log_ok_handle:
  assumes "log_ok state" and "tbv_native_control_handle_packet env xd buf (Some state) = (c, replies, Some state')"
  shows "log_ok state'"
proof -
  have "log_ok (snd (snd (handle_ready env xd info h state)))" for info h
    using assms(1) by (auto simp: handle_ready_def Let_def intro!: log_ok_ops split: sum.split prod.split)
  moreover have "log_ok (snd (snd (handle_hello env xd info h state)))" for info h
    using assms(1) by (auto simp: handle_hello_def Let_def intro!: log_ok_ops split: sum.split prod.split)
  ultimately show ?thesis
    using assms log_ok_ops(1) [OF assms(1)]
    by (auto simp: tbv_native_control_handle_packet_def tbv_native_control_apply_ack_def map_prod_def case_prod_unfold
        split: sum.splits if_splits)
qed

definition keeps_log :: "ctl_env \<Rightarrow> bool" where
  "keeps_log env \<longleftrightarrow> (\<forall>xd request state. log_ok state \<longrightarrow> log_ok (snd (ce_request env xd request state)))"

lemma log_ok_transaction:
  assumes "keeps_log env" and "log_ok state" shows "log_ok (snd (ctl_transaction env peer rail op state))"
proof -
  have "log_ok (snd (request_and_wait env xd b state))" for xd b
    using assms by (simp add: request_and_wait_def keeps_log_def)
  then show ?thesis
    using assms(2) by (auto simp: ctl_transaction_def Let_def split: sum.split prod.split) (metis snd_conv)+
qed

lemma log_ok_exchange:
  assumes "keeps_log env" and "log_ok state"
  shows "log_ok (snd (tbv_native_control_exchange_once env a state))"
    and "log_ok (snd (tbv_native_control_ready_once env a state))"
  using log_ok_transaction [OF assms] assms(2)
  by (auto simp: tbv_native_control_exchange_once_def tbv_native_control_ready_once_def tbv_native_control_apply_ack_def
      intro!: log_ok_ops split: option.split sum.split prod.split) (metis snd_conv)+

lemma log_ok_parts:
  assumes "keeps_log env" and "log_ok state"
  shows "log_ok (snd (work_hello env a state))" and "log_ok (snd (work_tunnel env a state))"
    and "log_ok (snd (work_ready env a state))"
  using log_ok_exchange [OF assms(1)] assms(2)
  by (auto simp: work_hello_def work_tunnel_def work_ready_def Let_def case_prod_unfold
      intro!: log_ok_publish log_ok_ops split: option.split sum.split)

lemma log_ok_body:
  assumes "keeps_log env" and "log_ok state" shows "log_ok (snd (work_body env a state))"
proof -
  obtain o1 s1 where 1: "work_hello env a state = (o1, s1)" by fastforce
  obtain o2 s2 where 2: "work_tunnel env a s1 = (o2, s2)" by fastforce
  have "log_ok s1" using log_ok_parts(1) [OF assms, of a] 1 by simp
  moreover from this have "log_ok s2" using log_ok_parts(2) [OF assms(1), of s1 a] 2 by simp
  ultimately show ?thesis
    using log_ok_parts(3) [OF assms(1), of s2 a] 1 2 by (simp add: work_body_def split: option.split)
qed

text \<open>
  C14: The control plane only publishes rails that are ready. If every device registered so far
  belonged to a rail that was then ready and not being removed, and whatever runs while a request waits
  keeps this, then it still holds after a run of the work of a rail, after any received packet, from a known
  or unknown source and with any bytes, and after any edge the verbs layer is told.
\<close>

theorem published_only_when_ready:
  assumes "log_ok state" and "keeps_log env"
  shows "log_ok (tbv_native_control_work env a state)
    \<and> log_ok (snd (tbv_ibdev_rail_event pub a joined state))
    \<and> (\<exists>c replies state'. tbv_native_control_handle_packet env xd buf (Some state) = (c, replies, Some state')
         \<and> log_ok state')"
proof (intro conjI)
  have "log_ok (work_out a (work_body env a s))" if "log_ok s" for s
    using log_ok_body [OF assms(2) that, of a] by (simp add: work_out_def case_prod_unfold)
  then show "log_ok (tbv_native_control_work env a state)"
    using assms(1) by (simp add: tbv_native_control_work_def Let_def split: option.split)
  show "log_ok (snd (tbv_ibdev_rail_event pub a joined state))" by (rule log_ok_event [OF assms(1)])
  obtain c replies s' where h: "tbv_native_control_handle_packet env xd buf (Some state) = (c, replies, s')"
    by (cases "tbv_native_control_handle_packet env xd buf (Some state)")
  moreover have "s' \<noteq> None"
    using h by (auto simp: tbv_native_control_handle_packet_def map_prod_def case_prod_unfold
        split: sum.splits if_splits)
  ultimately show "\<exists>c replies state'. tbv_native_control_handle_packet env xd buf (Some state) = (c, replies, Some state') \<and> log_ok state'"
    using log_ok_handle [OF assms(1)] by auto
qed

section \<open>Concrete runs\<close>

text \<open>An end whose requests are never answered, and a rail with started rings on path \<open>n\<close> that is queued for negotiation.\<close>

definition silent_env :: ctl_env where
  "silent_env = \<lparr>ce_tx = \<lparr>e_native_tx_max_inflight = 32, e_ring_tx = (\<lambda>packet. Inr ())\<rparr>, ce_pub = demo_pub_env, ce_request = (\<lambda>xd m state. (Inl ETIMEDOUT, state)),
     ce_response = (\<lambda>xd reply. Inr ()), ce_alloc_in_hopid = Inr, ce_enable_paths = Inr ()\<rparr>"

definition rings_started :: "int \<Rightarrow> tbv_rail \<Rightarrow> tbv_rail" where
  "rings_started n rail = rail\<lparr>ra_hw := (ra_hw rail)\<lparr>hw_path := (hw_path (ra_hw rail))
     \<lparr>p_state := TBV_PATH_RING_STARTED, p_local_transmit_path := n, p_remote_transmit_path := - 1\<rparr>\<rparr>\<rparr>"

definition demo_end :: "int \<Rightarrow> tbv_state" where
  "demo_end n = (on_rail 31 queue_rail (on_rail 31 (rings_started n) demo_topology))\<lparr>ts_register_enabled := True\<rparr>"

lemma demo_end_reachable: "topo_reachable (demo_end n)"
proof -
  have "quiet (rings_started n)" "quiet queue_rail" by (simp_all add: quiet_def rings_started_def queue_rail_def)
  then show ?thesis
    unfolding demo_end_def by (intro topo_other [OF topo_quiet [OF topo_quiet [OF demo_reachable, of "rings_started n" 31]]]) simp_all
qed

lemma demo_end_locate: "\<exists>p r. locate 31 (demo_end n) = Some (p, r)"
  by (simp add: demo_end_def locate_def pairs_def on_rail_def demo_topology_def topo_eval Let_def rings_started_def queue_rail_def)

theorem message_reaches_its_rail_witness:
  "\<exists>peer rail. ctl_find (Some (demo_xd 5)) (addressed \<lparr>i_op = 1, i_flags = 0, i_xdomain_sequence = 0, i_seq = 0, i_route = 1\<rparr> 1)
     demo_topology = Some (peer, rail) \<and> ra_addr rail = 31"
proof -
  obtain peer r1 r2 where p: "ts_peers demo_topology = [peer]" "pe_rails peer = [r1, r2]" "ra_addr r1 = 31" "ra_rail_id r1 = 1"
      "k_route (ra_key r1) = 1" "pe_backend peer = TBV_BACKEND_NATIVE" "xd_addr (pe_xd peer) = 5"
    by (simp add: demo_topology_def topo_eval Let_def)
  then have "(peer, r1) \<in> set (pairs demo_topology)" by (simp add: pairs_def)
  then show ?thesis using p message_reaches_its_rail [OF demo_reachable] by (auto simp: demo_xd_def)
qed

theorem work_comes_to_rest_witness:
  "\<not> legal_steps 31 (replicate 37 (Run_work silent_env)) (tbv_native_control_queue_rail 31 (demo_end 9)) \<and>
   legal_steps 31 [Run_work silent_env] (tbv_native_control_queue_rail 31 (demo_end 9))"
proof
  have u: "undisturbed silent_env" by (simp add: undisturbed_def silent_env_def)
  then have "filter brings_packet (replicate n (Run_work silent_env)) = []" for n by (simp add: brings_packet_def)
  moreover have "filter is_run (replicate n (Run_work silent_env)) = replicate n (Run_work silent_env)" for n
    by (simp add: is_run_def)
  ultimately show "\<not> legal_steps 31 (replicate 37 (Run_work silent_env)) (tbv_native_control_queue_rail 31 (demo_end 9))"
    using work_comes_to_rest [of 31 "replicate 37 (Run_work silent_env)" "demo_end 9"] by auto
  have "attempts_kept silent_env" by (simp add: attempts_kept_def silent_env_def)
  moreover obtain p r where "locate 31 (demo_end 9) = Some (p, r)" using demo_end_locate by blast
  ultimately show "legal_steps 31 [Run_work silent_env] (tbv_native_control_queue_rail 31 (demo_end 9))"
    by (auto simp: scheduled_def tbv_native_control_queue_rail_def locate_on_rail queue_rail_def moved_def dest: locate_Some)
qed

theorem published_only_when_ready_witness:
  "\<exists>state'. snd (tbv_ibdev_rail_event demo_pub_env 30 True (two_hosts\<lparr>ts_register_enabled := True\<rparr>)) = state'
     \<and> map (\<lambda>(rail, up). (ra_addr rail, up)) (ts_log state') = [(30, True)] \<and> log_ok state'"
proof -
  have "keeps_log silent_env" by (simp add: keeps_log_def silent_env_def)
  moreover have "log_ok (two_hosts\<lparr>ts_register_enabled := True\<rparr>)" by (simp add: log_ok_def pub_eval)
  ultimately have "log_ok (snd (tbv_ibdev_rail_event demo_pub_env 30 True (two_hosts\<lparr>ts_register_enabled := True\<rparr>)))"
    using published_only_when_ready by blast
  moreover have "map (\<lambda>(rail, up). (ra_addr rail, up))
      (ts_log (snd (tbv_ibdev_rail_event demo_pub_env 30 True (two_hosts\<lparr>ts_register_enabled := True\<rparr>)))) = [(30, True)]"
    by (simp add: pub_eval)
  ultimately show ?thesis by simp
qed

end
