(* ===== verification/Handshake.thy ===== *)
theory Handshake
  imports Control_Laws
begin

text \<open>
  Two ends of a link that exchange the real control messages, as bytes, through the handlers of each
  other: after one run of the work on either side both rails are ready and published.
\<close>

section \<open>The fabric\<close>

text \<open>
  The XDomain fabric delivers a message with the route of its header replaced by the receiver's route to
  the sender (with or without the top bit); the other bytes are unchanged.
\<close>

definition carried :: "u64 \<Rightarrow> u8 list \<Rightarrow> u8 list" where
  "carried route b =
     tbv_wire_put_le32 (tbv_wire_put_le32 b 0 (ucast (drop_bit 32 route))) 4 (ucast (route AND 0xffffffff))"

lemma carried_length [simp]: "length (carried route b) = length b"
  by (simp add: carried_def wire_simps)

lemma ctl_message_ok:
  assumes "tbv_native_wire_valid_op (ucast op)"
  obtains b where "ctl_message h op seq route s = Inr b"
  using assms by (auto simp: ctl_message_def tbv_native_wire_build_hello_def Let_def)

lemma ctl_message_length: "ctl_message h op seq route s = Inr b \<Longrightarrow> length b = 88"
  by (auto simp: ctl_message_def dest!: build_hello_length)

lemma carried_codec:
  assumes "ctl_message h op seq route s = Inr b"
  shows "tbv_native_wire_parse_hello (Some (carried r b)) =
    Inr (h, \<lparr>i_op = op, i_flags = 0, i_xdomain_sequence = s AND 3, i_seq = seq,
             i_route = r AND NOT (push_bit 63 1)\<rparr>)"
proof -
  from assms have op: "tbv_native_wire_valid_op (ucast op)"
    by (auto simp: ctl_message_def tbv_native_wire_build_hello_def Let_def split: if_splits)
  then show ?thesis
    using assms
    by (auto simp: ctl_message_def carried_def tbv_native_wire_build_hello_def tbv_native_wire_parse_hello_def
        tbv_native_wire_put_header_def tbv_native_wire_put_xdomain_header_def
        memset_zero_def Let_def wire_simps length_sn_low length_sn_high route_words)
qed

lemma carried_response:
  assumes "ctl_message h op seq route s = Inr b" shows "response_buffer (carried r b) = carried r b"
  using ctl_message_length [OF assms] by (simp add: response_buffer_def)

section \<open>What the negotiation reads of a rail\<close>

record digest =
  dg_state :: tbv_path_state
  dg_remote_path :: int
  dg_local_path :: int
  dg_rail_id :: u32
  dg_route :: u64
  dg_work_state :: bool
  dg_stop :: bool
  dg_removing :: bool
  dg_negotiated :: bool
  dg_ready_sent :: bool
  dg_remote_ready :: bool
  dg_remote_transmit_path :: int

definition digest_of :: "tbv_rail \<Rightarrow> digest" where
  "digest_of r = \<lparr>dg_state = ra_path_state r, dg_remote_path = p_remote_transmit_path (ra_path r),
     dg_local_path = p_local_transmit_path (ra_path r), dg_rail_id = ra_rail_id r, dg_route = k_route (ra_key r),
     dg_work_state = ra_native_work_state r, dg_stop = ra_native_work_stop r, dg_removing = ra_removing r,
     dg_negotiated = ra_native_negotiated r, dg_ready_sent = ra_native_ready_sent r,
     dg_remote_ready = ra_native_remote_ready r, dg_remote_transmit_path = ra_remote_transmit_path r\<rparr>"

text \<open>The rail at \<open>a\<close> belongs to the peer \<open>p\<close> and looks like \<open>d\<close>.\<close>

definition rail_at :: "nat \<Rightarrow> tbv_peer \<Rightarrow> digest \<Rightarrow> tbv_state \<Rightarrow> bool" where
  "rail_at a p d state \<longleftrightarrow> topo_ok state \<and> (\<exists>r. view a state = Some (p, r) \<and> digest_of r = d)"

definition globals :: "tbv_state \<Rightarrow> (nat \<times> u8 list) list \<times> bool \<times> bool \<times> bool" where
  "globals state = (ts_sent state, ts_negotiate_native state, ts_enable_tunnels state, ts_register_enabled state)"

lemma globals_on_rail [simp]: "globals (on_rail a f state) = globals state"
  by (simp add: globals_def on_rail_def)

lemma globals_log [simp]: "globals (state\<lparr>ts_log := l\<rparr>) = globals state"
  by (simp add: globals_def)

lemma topo_ok_quiet:
  assumes "topo_ok state" and "quiet f" shows "topo_ok (on_rail a f state)"
proof (rule topo_ok_on_rail [OF assms(1) steady_ops(4) [OF assms(2)]])
  show "rail_ok (f r)" if "r \<in> all_rails state" "ra_addr r = a" for r
    using all_rails_ok [OF assms(1) that(1)] assms(2) by (simp add: rail_ok_def quiet_def)
qed

lemma rail_at_on_rail:
  assumes "rail_at a p d state" and "quiet f" and "\<And>r. digest_of r = d \<Longrightarrow> digest_of (f r) = d'"
  shows "rail_at a p d' (on_rail a f state)"
proof -
  have "ra_addr (f r) = ra_addr r" for r using assms(2) by (simp add: quiet_def)
  then show ?thesis
    using assms topo_ok_quiet [OF _ assms(2)] by (auto simp: rail_at_def view_on_rail)
qed

lemma rail_at_sent: "rail_at a p d (state\<lparr>ts_sent := m\<rparr>) = rail_at a p d state"
proof -
  have "topo_ok (state\<lparr>ts_sent := m\<rparr>) = topo_ok state" by (simp add: topo_ok_def)
  then show ?thesis by (simp add: rail_at_def)
qed

lemma schedule_fields [simp]:
  "p_state (tbv_path_schedule_tx env path) = p_state path"
  "p_remote_transmit_path (tbv_path_schedule_tx env path) = p_remote_transmit_path path"
  "p_local_transmit_path (tbv_path_schedule_tx env path) = p_local_transmit_path path"
  using schedule_view [of env path] by (simp_all add: hw_view_def)

lemma digest_learn:
  "digest_of (learn_remote tx h r)
    = (digest_of r)\<lparr>dg_negotiated := True, dg_remote_transmit_path := sint (h_transmit_path h)\<rparr>"
  by (simp add: digest_of_def learn_remote_def on_path_def tbv_path_set_remote_rx_capacity_def
      set_remote_rx_capacity_locked_def Let_def)

lemma quiet_ops [simp]:
  "quiet (learn_remote tx h)" "quiet (set_last_error ret)" "quiet schedule_work"
  "quiet (\<lambda>r. r\<lparr>ra_native_remote_ready := b\<rparr>)" "quiet (\<lambda>r. r\<lparr>ra_native_ready_sent := b\<rparr>)"
  "quiet (\<lambda>r. r\<lparr>ra_native_ready_sent := b, ra_native_last_error := e\<rparr>)" "quiet (\<lambda>r. r\<lparr>ra_hw := hw\<rparr>)"
  "quiet (\<lambda>r. r\<lparr>ra_work := b\<rparr>)" "quiet (\<lambda>r. r\<lparr>ra_native_attempts := n\<rparr>)"
  "quiet (\<lambda>r. r\<lparr>ra_native_tunnel_attempts := n\<rparr>)" "quiet (\<lambda>r. r\<lparr>ra_native_ready_attempts := n\<rparr>)"
  "quiet (\<lambda>r. if \<not> ra_native_work_stop r then schedule_work r else r)"
  by (simp_all add: quiet_def learn_remote_def set_last_error_def schedule_work_def)

lemma digest_ops [simp]:
  "digest_of (set_last_error ret r) = digest_of r" "digest_of (schedule_work r) = digest_of r"
  "digest_of (r\<lparr>ra_work := b\<rparr>) = digest_of r" "digest_of (r\<lparr>ra_native_attempts := n\<rparr>) = digest_of r"
  "digest_of (r\<lparr>ra_native_tunnel_attempts := n\<rparr>) = digest_of r" "digest_of (r\<lparr>ra_native_ready_attempts := n\<rparr>) = digest_of r"
  "digest_of (r\<lparr>ra_native_remote_ready := b\<rparr>) = (digest_of r)\<lparr>dg_remote_ready := b\<rparr>"
  "digest_of (r\<lparr>ra_native_ready_sent := b\<rparr>) = (digest_of r)\<lparr>dg_ready_sent := b\<rparr>"
  "digest_of (r\<lparr>ra_native_ready_sent := b, ra_native_last_error := e\<rparr>) = (digest_of r)\<lparr>dg_ready_sent := b\<rparr>"
  by (simp_all add: digest_of_def set_last_error_def schedule_work_def)

text \<open>Publication does not show in the digest.\<close>

definition ready_digest :: "digest \<Rightarrow> bool" where
  "ready_digest d \<longleftrightarrow> dg_state d = TBV_PATH_TUNNEL_ENABLED \<and> dg_ready_sent d \<and> dg_remote_ready d"

lemma digest_unpublished:
  assumes "unpublished r = unpublished r'" shows "digest_of r = digest_of r'"
proof -
  have "digest_of (unpublished r) = digest_of r" for r by (simp add: digest_of_def unpublished_def)
  then show ?thesis using assms by metis
qed

lemma data_ready_digest:
  "pe_backend p = TBV_BACKEND_NATIVE \<Longrightarrow> tbv_rail_data_ready (pe_backend p) r \<longleftrightarrow> ready_digest (digest_of r)"
  by (auto simp: tbv_rail_data_ready_def ready_digest_def digest_of_def)

lemma on_rail_idle:
  assumes "\<And>r. r \<in> all_rails state \<Longrightarrow> ra_addr r = a \<Longrightarrow> f r = r" shows "on_rail a f state = state"
proof -
  have "on_rail a f state = on_rail a (\<lambda>r. r) state" by (rule on_rail_cong) (rule assms)
  then show ?thesis by (simp add: on_rail_def)
qed

lemma all_rails_locate:
  assumes "topo_ok state" and "locate a state = Some (peer, rail)" and "r \<in> all_rails state" and "ra_addr r = a"
  shows "r = rail"
proof -
  obtain q where "(q, r) \<in> set (pairs state)" using assms(3) by (auto simp: all_rails_def set_pairs)
  from locate_pair [OF assms(1) this] show ?thesis using assms(2,4) by simp
qed

definition published_at :: "nat \<Rightarrow> tbv_state \<Rightarrow> bool" where
  "published_at a state \<longleftrightarrow> (\<exists>p r. view a state = Some (p, r) \<and> handled r)"

lemma publish_event:
  assumes ok: "topo_ok state" and l: "locate a state = Some (peer, rail)" and nr: "\<not> ra_removing rail"
    and rd: "tbv_rail_data_ready (pe_backend peer) rail" and nat: "pe_backend peer = TBV_BACKEND_NATIVE"
  shows "\<exists>f log. (\<forall>r. unpublished (f r) = unpublished r) \<and> topo_ok ((on_rail a f state)\<lparr>ts_log := log\<rparr>)
    \<and> (ts_register_enabled state \<longrightarrow> handled (f rail))
    \<and> with_rail a (snd \<circ> tbv_ibdev_rail_event env a True) state = (on_rail a f state)\<lparr>ts_log := log\<rparr>"
proof -
  have m: "(peer, rail) \<in> set (pairs state)" and a: "ra_addr rail = a" using locate_Some [OF l] by simp_all
  have ref: "0 < ra_refcnt rail"
    using all_rails_ok [OF ok pair_in_all_rails [OF m]] nr by (simp add: rail_ok_def)
  let ?s = "on_rail a rail_get state" and ?p = "with_rails (moved a rail_get) peer"
  have loc: "locate a ?s = Some (?p, rail_get rail)" using locate_get [OF ok m] a by simp
  have ready: "tbv_ibdev_rail_publish_ready_locked env ?s ?p (rail_get rail)"
    using nr rd nat by (simp add: tbv_ibdev_rail_publish_ready_locked_def)
  show ?thesis
  proof (cases "ts_register_enabled state \<and> \<not> handled rail")
    case True
    then have "catchup_rail env ?s ?p (rail_get rail)" using ready by (simp add: catchup_rail_def)
    from event_up [OF loc _ this] True obtain f lg where f: "publishing f" "\<forall>r. handled (f r)"
        "snd (tbv_ibdev_rail_event env a True ?s) = (on_rail a f ?s)\<lparr>ts_log := lg\<rparr>" by auto
    then have "with_rail a (snd \<circ> tbv_ibdev_rail_event env a True) state = (on_rail a f state)\<lparr>ts_log := lg\<rparr>"
      using with_rail_publishing [OF ok m ref f(1)] a by simp
    then show ?thesis using f(2)
      by (intro exI [of _ f] exI [of _ lg] conjI allI impI topo_ok_publishing [OF ok f(1)] publishing_unpublished [OF f(1)])
        simp_all
  next
    case False
    then have "snd (tbv_ibdev_rail_event env a True ?s) = ?s"
      using loc by (auto simp: tbv_ibdev_rail_event_def handled_def)
    then have "with_rail a (snd \<circ> tbv_ibdev_rail_event env a True) state = on_rail a (rail_put \<circ> rail_get) state"
      by (simp add: with_rail_def tbv_rail_put_def on_rail_comp)
    also have "\<dots> = state"
    proof (rule on_rail_idle)
      show "(rail_put \<circ> rail_get) r = r" if "r \<in> all_rails state" "ra_addr r = a" for r
        using all_rails_locate [OF ok l that] ref by (simp add: rail_put_def rail_get_def Let_def)
    qed
    finally have "with_rail a (snd \<circ> tbv_ibdev_rail_event env a True) state = state" .
    moreover have "on_rail a (\<lambda>r. r) state = state" by (rule on_rail_idle) simp
    ultimately show ?thesis
      using False ok by (intro exI [of _ "\<lambda>r. r"] exI [of _ "ts_log state"]) auto
  qed
qed

lemma publish_at:
  assumes "rail_at a p d state" and "pe_backend p = TBV_BACKEND_NATIVE"
  shows "rail_at a p d (publish_if_ready env a state)" and "globals (publish_if_ready env a state) = globals state"
    and "ready_digest d \<Longrightarrow> \<not> dg_removing d \<Longrightarrow> ts_register_enabled state \<Longrightarrow> published_at a (publish_if_ready env a state)"
proof -
  obtain peer r where ok: "topo_ok state" and l: "locate a state = Some (peer, r)" and p: "p = bare peer" and d: "digest_of r = d"
    using assms(1) by (auto simp: rail_at_def view_locate)
  have nat: "pe_backend peer = TBV_BACKEND_NATIVE" using assms(2) p by (simp add: bare_def)
  have "rail_at a p d (publish_if_ready env a state) \<and> globals (publish_if_ready env a state) = globals state
    \<and> (ready_digest d \<and> \<not> dg_removing d \<and> ts_register_enabled state \<longrightarrow> published_at a (publish_if_ready env a state))"
  proof (cases "tbv_rail_data_ready (pe_backend peer) r \<and> \<not> ra_removing r")
    case True
    then obtain f log where f: "\<forall>r. unpublished (f r) = unpublished r" "topo_ok ((on_rail a f state)\<lparr>ts_log := log\<rparr>)"
        "ts_register_enabled state \<longrightarrow> handled (f r)"
        "with_rail a (snd \<circ> tbv_ibdev_rail_event env a True) state = (on_rail a f state)\<lparr>ts_log := log\<rparr>"
      using publish_event [OF ok l _ _ nat, of env] by blast
    have e: "publish_if_ready env a state = (on_rail a f state)\<lparr>ts_log := log\<rparr>"
      using True l f(4) by (simp add: publish_if_ready_def)
    have "ra_addr (f r') = ra_addr r'" for r' using f(1) unpublished_fields(1) by blast
    then have v: "view a (publish_if_ready env a state) = Some (p, f r)"
      unfolding e using l p by (simp add: view_on_rail) (simp add: view_def)
    have "digest_of (f r) = d" using digest_unpublished [of "f r" r] f(1) d by simp
    then show ?thesis using f(2,3) v unfolding rail_at_def published_at_def by (simp add: e)
  next
    case False
    then have "publish_if_ready env a state = state" using l by (auto simp: publish_if_ready_def)
    moreover have "\<not> (ready_digest d \<and> \<not> dg_removing d)"
      using False d data_ready_digest [OF nat, of r] by (auto simp: digest_of_def)
    ultimately show ?thesis using assms(1) by auto
  qed
  then show "rail_at a p d (publish_if_ready env a state)" "globals (publish_if_ready env a state) = globals state"
    "ready_digest d \<Longrightarrow> \<not> dg_removing d \<Longrightarrow> ts_register_enabled state \<Longrightarrow> published_at a (publish_if_ready env a state)"
    by blast+
qed

section \<open>Operations on the digest\<close>

text \<open>A message from the connection of the peer that addresses the rail finds it.\<close>

definition for_rail :: "tbv_peer \<Rightarrow> digest \<Rightarrow> tb_xdomain \<Rightarrow> tbv_native_wire_info \<Rightarrow> u32 \<Rightarrow> bool" where
  "for_rail p d xd info rail_id \<longleftrightarrow> pe_backend p = TBV_BACKEND_NATIVE \<and> xd_addr (pe_xd p) = xd_addr xd
     \<and> i_route info = dg_route d \<and> rail_id = dg_rail_id d"

lemma ctl_find_at:
  assumes "rail_at a p d state" and "for_rail p d xd info rail_id"
  obtains peer r where "ctl_find (Some xd) (addressed info rail_id) state = Some (peer, r)" "view a state = Some (p, r)"
    "bare peer = p" "digest_of r = d" "ra_addr r = a"
proof -
  obtain peer r where l: "locate a state = Some (peer, r)" and p: "p = bare peer" and d: "digest_of r = d" and ok: "topo_ok state"
    using assms(1) by (auto simp: rail_at_def view_locate)
  have "pe_backend peer = pe_backend p" "pe_xd peer = pe_xd p" using p by (simp_all add: bare_def)
  then have f: "ctl_find (Some xd) (addressed info rail_id) state = Some (peer, r)"
    using assms(2) d locate_Some [OF l] by (auto simp: ctl_find_iff [OF ok] for_rail_def addressed_def digest_of_def)
  have v: "view a state = Some (p, r)" using l p by (simp add: view_def)
  show ?thesis by (rule that [OF f v p [symmetric] d]) (use locate_Some [OF l] in blast)
qed

lemma ctl_find_tunnel:
  assumes "rail_at a p d state" and "for_rail p d xd info rail_id"
    and "ctl_find (Some xd) (addressed info rail_id) state = Some (peer, r)"
  shows "ctl_find (Some xd) (\<lambda>rail. k_route (ra_key rail) = i_route info \<and> \<not> ra_rail_id rail \<noteq> rail_id
      \<and> \<not> ra_path_state rail \<noteq> TBV_PATH_TUNNEL_ENABLED) state
    = (if ra_path_state r = TBV_PATH_TUNNEL_ENABLED then Some (peer, r) else None)"
proof -
  have ok: "topo_ok state" using assms(1) by (simp add: rail_at_def)
  note iff = ctl_find_iff [OF ok, of xd info rail_id]
  have u: "(q, x) = (peer, r)" if "(q, x) \<in> set (pairs state)" "pe_backend q = TBV_BACKEND_NATIVE"
      "xd_addr (pe_xd q) = xd_addr xd" "addressed info rail_id x" for q x
    using iff [of q x] that assms(3) by simp
  have m: "(peer, r) \<in> set (pairs state)" "pe_backend peer = TBV_BACKEND_NATIVE" "xd_addr (pe_xd peer) = xd_addr xd"
    "addressed info rail_id r" using iff assms(3) by blast+
  show ?thesis
  proof (cases "ra_path_state r = TBV_PATH_TUNNEL_ENABLED")
    case True
    have "ctl_find (Some xd) (\<lambda>rail. k_route (ra_key rail) = i_route info \<and> \<not> ra_rail_id rail \<noteq> rail_id
        \<and> \<not> ra_path_state rail \<noteq> TBV_PATH_TUNNEL_ENABLED) state = Some (peer, r)"
      unfolding ctl_find_def
    proof (rule find_unique [OF m(1)])
      show "case (peer, r) of (peer, rail) \<Rightarrow> pe_backend peer = TBV_BACKEND_NATIVE
          \<and> tbv_native_control_peer_matches_source peer (Some xd) \<and> k_route (ra_key rail) = i_route info
          \<and> \<not> ra_rail_id rail \<noteq> rail_id \<and> \<not> ra_path_state rail \<noteq> TBV_PATH_TUNNEL_ENABLED"
        using True m by (simp add: tbv_native_control_peer_matches_source_def addressed_def)
      fix y
      assume y: "y \<in> set (pairs state)" "case y of (peer, rail) \<Rightarrow> pe_backend peer = TBV_BACKEND_NATIVE
          \<and> tbv_native_control_peer_matches_source peer (Some xd) \<and> k_route (ra_key rail) = i_route info
          \<and> \<not> ra_rail_id rail \<noteq> rail_id \<and> \<not> ra_path_state rail \<noteq> TBV_PATH_TUNNEL_ENABLED"
      obtain q x where qx: "y = (q, x)" by (cases y)
      have "(q, x) = (peer, r)"
        by (rule u) (use y qx in \<open>simp_all add: tbv_native_control_peer_matches_source_def addressed_def\<close>)
      then show "y = (peer, r)" using qx by simp
    qed
    then show ?thesis using True by simp
  next
    case False
    have "\<not> (pe_backend q = TBV_BACKEND_NATIVE \<and> tbv_native_control_peer_matches_source q (Some xd)
        \<and> k_route (ra_key x) = i_route info \<and> \<not> ra_rail_id x \<noteq> rail_id \<and> \<not> ra_path_state x \<noteq> TBV_PATH_TUNNEL_ENABLED)"
      if "(q, x) \<in> set (pairs state)" for q x
      using u [OF that] False by (auto simp: tbv_native_control_peer_matches_source_def addressed_def)
    then show ?thesis using False by (auto simp: ctl_find_def find_None_iff)
  qed
qed

lemma snapshot_at:
  assumes "rail_at a p d state" and "for_rail p d xd info rail_id"
  shows "\<exists>r. view a state = Some (p, r) \<and> digest_of r = d
    \<and> tbv_native_control_snapshot (Some xd) info rail_id True tunnel state
      = (if tunnel \<and> dg_state d \<noteq> TBV_PATH_TUNNEL_ENABLED then Inl ENOENT
         else Inr (tbv_native_control_fill_hello state p r, pe_xd p))"
proof -
  obtain peer r where f: "ctl_find (Some xd) (addressed info rail_id) state = Some (peer, r)"
    "view a state = Some (p, r)" "bare peer = p" "digest_of r = d" "ra_addr r = a"
    using ctl_find_at [OF assms] by blast
  have "tbv_native_control_fill_hello state peer r = tbv_native_control_fill_hello state p r" "pe_xd peer = pe_xd p"
    using f(3) by (auto simp: tbv_native_control_fill_hello_def tbv_native_control_caps_def bare_def)
  moreover have "ra_path_state r = dg_state d" using f(4) by (auto simp: digest_of_def)
  ultimately show ?thesis
    using f(1,2,4) ctl_find_tunnel [OF assms f(1)]
    by (cases tunnel) (auto simp: tbv_native_control_snapshot_def addressed_def [abs_def])
qed

lemma apply_remote_at:
  assumes "rail_at a p d state" and "for_rail p d xd info (h_rail_id h)"
  shows "\<exists>state'. tbv_native_control_apply_remote tx (Some xd) info h True state = (Inr (), state')
    \<and> rail_at a p (d\<lparr>dg_negotiated := True, dg_remote_transmit_path := sint (h_transmit_path h)\<rparr>) state'
    \<and> globals state' = globals state"
proof -
  obtain peer r where f: "ctl_find (Some xd) (addressed info (h_rail_id h)) state = Some (peer, r)" "ra_addr r = a"
    using ctl_find_at [OF assms] by metis
  moreover have "rail_at a p (d\<lparr>dg_negotiated := True, dg_remote_transmit_path := sint (h_transmit_path h)\<rparr>)
      (on_rail a (learn_remote tx h) state)"
    by (rule rail_at_on_rail [OF assms(1)]) (simp_all add: digest_learn)
  ultimately show ?thesis
    by (auto simp: tbv_native_control_apply_remote_def addressed_def [abs_def])
qed

lemma kick_at:
  assumes "rail_at a p d state" and "for_rail p d xd info rail_id"
  shows "rail_at a p d (snd (tbv_native_control_kick_matching_rail (Some xd) info rail_id state))"
    and "globals (snd (tbv_native_control_kick_matching_rail (Some xd) info rail_id state)) = globals state"
    and "published_at a state \<Longrightarrow> published_at a (snd (tbv_native_control_kick_matching_rail (Some xd) info rail_id state))"
proof -
  obtain peer r where f: "ctl_find (Some xd) (addressed info rail_id) state = Some (peer, r)" "ra_addr r = a"
    using ctl_find_at [OF assms] by metis
  have k: "rail_at a p d (on_rail a schedule_work state)" by (rule rail_at_on_rail [OF assms(1)]) simp_all
  show "rail_at a p d (snd (tbv_native_control_kick_matching_rail (Some xd) info rail_id state))"
    "globals (snd (tbv_native_control_kick_matching_rail (Some xd) info rail_id state)) = globals state"
    using f k assms(1) by (simp_all add: tbv_native_control_kick_matching_rail_def)
  show "published_at a (snd (tbv_native_control_kick_matching_rail (Some xd) info rail_id state))" if "published_at a state"
    using f that by (auto simp: tbv_native_control_kick_matching_rail_def published_at_def view_on_rail schedule_work_def handled_def)
qed

lemma mark_remote_ready_at:
  assumes "rail_at a p d state" and "for_rail p d xd info (h_rail_id h)"
  shows "\<exists>state'. tbv_native_control_mark_remote_ready pub (Some xd) info h state = (Inr (), state')
    \<and> rail_at a p (d\<lparr>dg_remote_ready := True\<rparr>) state' \<and> globals state' = globals state"
proof -
  have nat: "pe_backend p = TBV_BACKEND_NATIVE" using assms(2) by (simp add: for_rail_def)
  obtain peer r where f: "ctl_find (Some xd) (addressed info (h_rail_id h)) state = Some (peer, r)" "ra_addr r = a"
    using ctl_find_at [OF assms] by metis
  have "rail_at a p (d\<lparr>dg_remote_ready := True\<rparr>) (on_rail a (\<lambda>r. r\<lparr>ra_native_remote_ready := True\<rparr>) state)"
    by (rule rail_at_on_rail [OF assms(1)]) simp_all
  from publish_at [OF this nat, of pub] f show ?thesis by (simp add: tbv_native_control_mark_remote_ready_def)
qed

lemma mark_local_ready_at:
  assumes "rail_at a p d state" and "for_rail p d xd info rail_id"
  shows "\<exists>state'. tbv_native_control_mark_local_ready_sent pub (Some xd) info rail_id state = (Inr (), state')
    \<and> rail_at a p (d\<lparr>dg_ready_sent := True\<rparr>) state' \<and> globals state' = globals state
    \<and> (ready_digest (d\<lparr>dg_ready_sent := True\<rparr>) \<and> \<not> dg_removing d \<and> ts_register_enabled state \<longrightarrow> published_at a state')"
proof -
  have nat: "pe_backend p = TBV_BACKEND_NATIVE" using assms(2) by (simp add: for_rail_def)
  obtain peer r where f: "ctl_find (Some xd) (addressed info rail_id) state = Some (peer, r)" "ra_addr r = a"
    using ctl_find_at [OF assms] by metis
  have "rail_at a p (d\<lparr>dg_ready_sent := True\<rparr>)
      (on_rail a (\<lambda>r. r\<lparr>ra_native_ready_sent := True, ra_native_last_error := None\<rparr>) state)"
    by (rule rail_at_on_rail [OF assms(1)]) simp_all
  from publish_at [OF this nat, of pub] f show ?thesis by (simp add: tbv_native_control_mark_local_ready_sent_def)
qed

section \<open>Received messages\<close>

text \<open>What the sender of a message says of its rail, and a message in transit to the rail.\<close>

definition says :: "digest \<Rightarrow> tbv_native_wire_hello \<Rightarrow> bool" where
  "says d h \<longleftrightarrow> h_rail_id h = dg_rail_id d \<and> h_route h = dg_route d
     \<and> (0 \<le> dg_local_path d \<and> dg_local_path d < 2147483648 \<longrightarrow> sint (h_transmit_path h) = dg_local_path d)"

lemma fill_hello_says: "digest_of r = d \<Longrightarrow> says d (tbv_native_control_fill_hello state p r)"
  by (auto simp: says_def tbv_native_control_fill_hello_def digest_of_def sint_sbintrunc' signed_take_bit_int_eq_self)

definition in_transit :: "u16 \<Rightarrow> tbv_native_wire_hello \<Rightarrow> u8 list \<Rightarrow> bool" where
  "in_transit op h m \<longleftrightarrow> (\<exists>seq route s. ctl_message h op seq route s = Inr m)"

definition msg_info :: "u16 \<Rightarrow> u32 \<Rightarrow> u8 \<Rightarrow> u64 \<Rightarrow> tbv_native_wire_info" where
  "msg_info op seq s route = \<lparr>i_op = op, i_flags = 0, i_xdomain_sequence = s, i_seq = seq,
     i_route = route AND NOT (push_bit 63 1)\<rparr>"

lemma in_transit_parse:
  assumes "in_transit op h m"
  obtains seq s where "tbv_native_wire_parse_hello (Some (carried w m)) = Inr (h, msg_info op seq s w)"
    "response_buffer (carried w m) = carried w m"
  using assms carried_codec carried_response unfolding in_transit_def msg_info_def by blast

text \<open>The connection, the route and the number by which a message reaches the rail.\<close>

definition lane_to :: "tbv_peer \<Rightarrow> digest \<Rightarrow> tb_xdomain \<Rightarrow> u64 \<Rightarrow> u32 \<Rightarrow> bool" where
  "lane_to p d xd w rail_id \<longleftrightarrow> pe_backend p = TBV_BACKEND_NATIVE \<and> xd_addr (pe_xd p) = xd_addr xd
     \<and> w AND NOT (push_bit 63 1) = dg_route d \<and> rail_id = dg_rail_id d"

lemma lane_to_for_rail: "lane_to p d xd w rail_id \<Longrightarrow> for_rail p d xd (msg_info op seq s w) rail_id"
  by (simp add: lane_to_def for_rail_def msg_info_def)

definition answering :: "ctl_env \<Rightarrow> bool" where
  "answering env \<longleftrightarrow> (\<forall>xd reply. ce_response env xd reply = Inr ())"

lemma ctl_reply_says:
  assumes "answering env" and "says d l" and "tbv_native_wire_valid_op (ucast op)"
  shows "\<exists>m. ctl_reply env xd l op info = (True, [m]) \<and> in_transit op l m"
proof -
  obtain m where "ctl_message l op (i_seq info) (h_route l) (i_xdomain_sequence info) = Inr m"
    using ctl_message_ok [OF assms(3)] by blast
  then show ?thesis using assms(1) by (auto simp: ctl_reply_def answering_def in_transit_def)
qed

lemma valid_ops:
  "tbv_native_wire_valid_op (ucast (1 :: u16))" "tbv_native_wire_valid_op (ucast (2 :: u16))"
  "tbv_native_wire_valid_op (ucast (3 :: u16))" "tbv_native_wire_valid_op (ucast (4 :: u16))"
  by (simp_all add: tbv_native_wire_valid_op_def)

lemma receive_hello:
  assumes "rail_at a p d state" and "lane_to p d xd w (h_rail_id h)" and "answering env" and "in_transit TBV_NATIVE_WIRE_OP_HELLO h m"
  shows "\<exists>l reply state'. tbv_native_control_handle_packet env (Some xd) (Some (carried w m)) (Some state)
      = (1, [reply], Some state')
    \<and> says d l \<and> in_transit TBV_NATIVE_WIRE_OP_HELLO_ACK l reply
    \<and> rail_at a p (d\<lparr>dg_negotiated := True, dg_remote_transmit_path := sint (h_transmit_path h)\<rparr>) state'
    \<and> globals state' = globals state"
proof -
  obtain seq s where parse: "tbv_native_wire_parse_hello (Some (carried w m)) = Inr (h, msg_info TBV_NATIVE_WIRE_OP_HELLO seq s w)"
    using in_transit_parse [OF assms(4)] by blast
  let ?i = "msg_info TBV_NATIVE_WIRE_OP_HELLO seq s w"
  let ?d = "d\<lparr>dg_negotiated := True, dg_remote_transmit_path := sint (h_transmit_path h)\<rparr>"
  have fr: "for_rail p d xd ?i (h_rail_id h)" by (rule lane_to_for_rail [OF assms(2)])
  obtain r where r: "digest_of r = d"
    "tbv_native_control_snapshot (Some xd) ?i (h_rail_id h) True False state = Inr (tbv_native_control_fill_hello state p r, pe_xd p)"
    using snapshot_at [OF assms(1) fr, of False] by auto
  obtain s1 where s1: "tbv_native_control_apply_remote (ce_tx env) (Some xd) ?i h True state = (Inr (), s1)"
    "rail_at a p ?d s1" "globals s1 = globals state"
    using apply_remote_at [OF assms(1) fr] by blast
  obtain reply where m: "ctl_reply env (pe_xd p) (tbv_native_control_fill_hello state p r) TBV_NATIVE_WIRE_OP_HELLO_ACK ?i = (True, [reply])"
    "in_transit TBV_NATIVE_WIRE_OP_HELLO_ACK (tbv_native_control_fill_hello state p r) reply"
    using ctl_reply_says [OF assms(3) fill_hello_says [OF r(1)] valid_ops(2)] by blast
  have "for_rail p ?d xd ?i (h_rail_id h)" using fr by (simp add: for_rail_def)
  from kick_at [OF s1(2) this] show ?thesis
    using parse r m s1(1,3) fill_hello_says [OF r(1)]
    by (auto simp: tbv_native_control_handle_packet_def handle_hello_def msg_info_def)
qed

lemma receive_early_ready:
  assumes "rail_at a p d state" and "lane_to p d xd w (h_rail_id h)" and "in_transit TBV_NATIVE_WIRE_OP_READY h m"
    and "dg_state d \<noteq> TBV_PATH_TUNNEL_ENABLED"
  shows "\<exists>state'. tbv_native_control_handle_packet env (Some xd) (Some (carried w m)) (Some state) = (1, [], Some state')
    \<and> rail_at a p (d\<lparr>dg_remote_ready := True\<rparr>) state' \<and> globals state' = globals state"
proof -
  obtain seq s where parse: "tbv_native_wire_parse_hello (Some (carried w m)) = Inr (h, msg_info TBV_NATIVE_WIRE_OP_READY seq s w)"
    using in_transit_parse [OF assms(3)] by blast
  let ?i = "msg_info TBV_NATIVE_WIRE_OP_READY seq s w"
  have fr: "for_rail p d xd ?i (h_rail_id h)" by (rule lane_to_for_rail [OF assms(2)])
  obtain s1 where s1: "tbv_native_control_mark_remote_ready (ce_pub env) (Some xd) ?i h state = (Inr (), s1)"
    "rail_at a p (d\<lparr>dg_remote_ready := True\<rparr>) s1" "globals s1 = globals state"
    using mark_remote_ready_at [OF assms(1) fr] by blast
  have "for_rail p (d\<lparr>dg_remote_ready := True\<rparr>) xd ?i (h_rail_id h)" using fr by (simp add: for_rail_def)
  from kick_at [OF s1(2) this] show ?thesis
    using parse s1(1,3) snapshot_at [OF assms(1) fr, of False] snapshot_at [OF assms(1) fr, of True] assms(4)
    by (auto simp: tbv_native_control_handle_packet_def handle_ready_def msg_info_def)
qed

lemma receive_ready:
  assumes "rail_at a p d state" and "lane_to p d xd w (h_rail_id h)" and "answering env" and "in_transit TBV_NATIVE_WIRE_OP_READY h m"
    and "dg_state d = TBV_PATH_TUNNEL_ENABLED" and "\<not> dg_removing d"
  shows "\<exists>l reply state'. tbv_native_control_handle_packet env (Some xd) (Some (carried w m)) (Some state)
      = (1, [reply], Some state')
    \<and> says d l \<and> in_transit TBV_NATIVE_WIRE_OP_READY_ACK l reply
    \<and> rail_at a p (d\<lparr>dg_remote_ready := True, dg_ready_sent := True\<rparr>) state' \<and> globals state' = globals state
    \<and> (ts_register_enabled state \<longrightarrow> published_at a state')"
proof -
  obtain seq s where parse: "tbv_native_wire_parse_hello (Some (carried w m)) = Inr (h, msg_info TBV_NATIVE_WIRE_OP_READY seq s w)"
    using in_transit_parse [OF assms(4)] by blast
  let ?i = "msg_info TBV_NATIVE_WIRE_OP_READY seq s w"
  have fr: "for_rail p d xd ?i (h_rail_id h)" by (rule lane_to_for_rail [OF assms(2)])
  obtain r where r: "digest_of r = d"
    "tbv_native_control_snapshot (Some xd) ?i (h_rail_id h) True True state = Inr (tbv_native_control_fill_hello state p r, pe_xd p)"
    using snapshot_at [OF assms(1) fr, of True] assms(5) by auto
  let ?l = "tbv_native_control_fill_hello state p r"
  obtain s1 where s1: "tbv_native_control_mark_remote_ready (ce_pub env) (Some xd) ?i h state = (Inr (), s1)"
    "rail_at a p (d\<lparr>dg_remote_ready := True\<rparr>) s1" "globals s1 = globals state"
    using mark_remote_ready_at [OF assms(1) fr] by blast
  obtain reply where m: "ctl_reply env (pe_xd p) ?l TBV_NATIVE_WIRE_OP_READY_ACK ?i = (True, [reply])"
    "in_transit TBV_NATIVE_WIRE_OP_READY_ACK ?l reply"
    using ctl_reply_says [OF assms(3) fill_hello_says [OF r(1)] valid_ops(4)] by blast
  have "h_rail_id ?l = h_rail_id h" using fr fill_hello_says [OF r(1), of state p] by (simp add: says_def for_rail_def)
  then have fr1: "for_rail p (d\<lparr>dg_remote_ready := True\<rparr>) xd ?i (h_rail_id ?l)" using fr by (simp add: for_rail_def)
  obtain s2 where s2: "tbv_native_control_mark_local_ready_sent (ce_pub env) (Some xd) ?i (h_rail_id ?l) s1 = (Inr (), s2)"
    "rail_at a p (d\<lparr>dg_remote_ready := True, dg_ready_sent := True\<rparr>) s2" "globals s2 = globals s1"
    "ts_register_enabled s1 \<longrightarrow> published_at a s2"
    using mark_local_ready_at [OF s1(2) fr1, of "ce_pub env"] assms(5,6) by (auto simp: ready_digest_def)
  have "for_rail p (d\<lparr>dg_remote_ready := True, dg_ready_sent := True\<rparr>) xd ?i (h_rail_id h)"
    using fr by (simp add: for_rail_def)
  note k = kick_at [OF s2(2) this]
  have "ts_register_enabled s1 = ts_register_enabled state" using s1(3) by (simp add: globals_def)
  then show ?thesis
    using k parse r m s1(1,3) s2(1,3,4) fill_hello_says [OF r(1), of state p] snapshot_at [OF assms(1) fr, of False]
    by (auto simp: tbv_native_control_handle_packet_def handle_ready_def msg_info_def)
qed

section \<open>Transactions\<close>

definition sent :: "tbv_peer \<Rightarrow> u8 list \<Rightarrow> tbv_state \<Rightarrow> tbv_state" where
  "sent p m state = state\<lparr>ts_sent := ts_sent state @ [(xd_addr (pe_xd p), m)]\<rparr>"

lemma rail_at_sent' [simp]: "rail_at a p d (sent q m state) = rail_at a p d state"
  by (simp add: sent_def rail_at_sent)

lemma rail_at_locate:
  assumes "rail_at a p d state"
  obtains peer r where "locate a state = Some (peer, r)" "bare peer = p" "digest_of r = d" "topo_ok state"
  using assms by (auto simp: rail_at_def view_locate)

text \<open>A request of the rail, answered by \<open>ans\<close> with nothing else changing the state.\<close>

lemma transaction_at:
  assumes "rail_at a p d state" and "locate a state = Some (peer, r)" and "tbv_native_wire_valid_op (ucast op)"
    and "\<And>h m. says d h \<Longrightarrow> in_transit op h m \<Longrightarrow> ce_request env (pe_xd p) m (sent p m state) = (ans m, sent p m state)"
  shows "\<exists>h m. says d h \<and> in_transit op h m \<and> ctl_transaction env peer r op state
    = (case ans m of Inl e \<Rightarrow> Inl e | Inr b \<Rightarrow> tbv_native_wire_parse_hello (Some (response_buffer b)), sent p m state)"
proof -
  obtain peer' r' where l: "locate a state = Some (peer', r')" "bare peer' = p" "digest_of r' = d"
    using rail_at_locate [OF assms(1)] by blast
  then have p: "bare peer = p" "digest_of r = d" using assms(2) by simp_all
  let ?h = "tbv_native_control_fill_hello state peer r"
  obtain m where m: "ctl_message ?h op (ra_rail_id r) (h_route ?h) (tbv_native_control_sequence r) = Inr m"
    using ctl_message_ok [OF assms(3)] by blast
  then have h: "says d ?h" "in_transit op ?h m"
    using fill_hello_says [OF p(2)] by (auto simp: in_transit_def)
  have "pe_xd peer = pe_xd p" using p(1) by (auto simp: bare_def)
  then have "request_and_wait env (pe_xd peer) m state = (ans m, sent p m state)"
    using assms(4) [OF h] by (simp add: request_and_wait_def sent_def)
  then show ?thesis
    using h m by (intro exI [of _ ?h] exI [of _ m]) (auto simp: ctl_transaction_def Let_def split: sum.split)
qed

lemma exchange_at:
  assumes "rail_at a p d state" and "pe_backend p = TBV_BACKEND_NATIVE" and "dg_state d = TBV_PATH_RING_STARTED"
    and "w AND NOT (push_bit 63 1) = dg_route d"
    and "\<And>h m. says d h \<Longrightarrow> in_transit TBV_NATIVE_WIRE_OP_HELLO h m \<Longrightarrow>
      ce_request env (pe_xd p) m (sent p m state) = (Inr (carried w (rep m)), sent p m state)
      \<and> (\<exists>l. in_transit TBV_NATIVE_WIRE_OP_HELLO_ACK l (rep m) \<and> h_rail_id l = dg_rail_id d \<and> sint (h_transmit_path l) = rp)"
  shows "\<exists>h m state'. tbv_native_control_exchange_once env a state = (Inr (), state')
    \<and> says d h \<and> in_transit TBV_NATIVE_WIRE_OP_HELLO h m \<and> globals state' = globals (sent p m state)
    \<and> rail_at a p (d\<lparr>dg_negotiated := True, dg_remote_transmit_path := rp\<rparr>) state'"
proof -
  obtain peer r where l: "locate a state = Some (peer, r)" "bare peer = p" "digest_of r = d"
    using rail_at_locate [OF assms(1)] by blast
  have pe: "pe_backend peer = TBV_BACKEND_NATIVE" "pe_xd peer = pe_xd p" "ra_path_state r = TBV_PATH_RING_STARTED"
    using l assms(2,3) by (auto simp: bare_def digest_of_def)
  obtain h m where hm: "says d h" "in_transit TBV_NATIVE_WIRE_OP_HELLO h m"
    "ctl_transaction env peer r TBV_NATIVE_WIRE_OP_HELLO state
      = (tbv_native_wire_parse_hello (Some (response_buffer (carried w (rep m)))), sent p m state)"
    using transaction_at [OF assms(1) l(1) valid_ops(1), of env "\<lambda>m. Inr (carried w (rep m))"] assms(5) by auto
  obtain ack where ack: "in_transit TBV_NATIVE_WIRE_OP_HELLO_ACK ack (rep m)" "h_rail_id ack = dg_rail_id d"
    "sint (h_transmit_path ack) = rp"
    using assms(5) [OF hm(1,2)] by blast
  obtain seq s where parse: "tbv_native_wire_parse_hello (Some (response_buffer (carried w (rep m))))
      = Inr (ack, msg_info TBV_NATIVE_WIRE_OP_HELLO_ACK seq s w)"
    using in_transit_parse [OF ack(1)] by metis
  have "for_rail p d (pe_xd p) (msg_info TBV_NATIVE_WIRE_OP_HELLO_ACK seq s w) (h_rail_id ack)"
    using assms(2,4) ack(2) by (simp add: for_rail_def msg_info_def)
  moreover have "rail_at a p d (sent p m state)" using assms(1) by simp
  ultimately obtain s' where "tbv_native_control_apply_remote (ce_tx env) (Some (pe_xd p))
      (msg_info TBV_NATIVE_WIRE_OP_HELLO_ACK seq s w) ack True (sent p m state) = (Inr (), s')"
    "rail_at a p (d\<lparr>dg_negotiated := True, dg_remote_transmit_path := rp\<rparr>) s'" "globals s' = globals (sent p m state)"
    using apply_remote_at ack(3) by metis
  then show ?thesis
    using l(1) pe hm parse
    by (auto simp: tbv_native_control_exchange_once_def tbv_native_control_apply_ack_def msg_info_def)
qed

lemma ready_refused_at:
  assumes "rail_at a p d state" and "pe_backend p = TBV_BACKEND_NATIVE" and "dg_state d = TBV_PATH_TUNNEL_ENABLED"
    and "\<And>h m. says d h \<Longrightarrow> in_transit TBV_NATIVE_WIRE_OP_READY h m \<Longrightarrow>
      ce_request env (pe_xd p) m (sent p m state) = (Inl e, sent p m state)"
  shows "\<exists>h m. tbv_native_control_ready_once env a state = (Inl e, sent p m state)
    \<and> says d h \<and> in_transit TBV_NATIVE_WIRE_OP_READY h m"
proof -
  obtain peer r where l: "locate a state = Some (peer, r)" "bare peer = p" "digest_of r = d"
    using rail_at_locate [OF assms(1)] by blast
  have pe: "pe_backend peer = TBV_BACKEND_NATIVE" "ra_path_state r = TBV_PATH_TUNNEL_ENABLED"
    using l assms(2,3) by (auto simp: bare_def digest_of_def)
  obtain h m where "says d h" "in_transit TBV_NATIVE_WIRE_OP_READY h m"
    "ctl_transaction env peer r TBV_NATIVE_WIRE_OP_READY state = (Inl e, sent p m state)"
    using transaction_at [OF assms(1) l(1) valid_ops(3), of env "\<lambda>m. Inl e"] assms(4) by auto
  then show ?thesis using l(1) pe by (auto simp: tbv_native_control_ready_once_def)
qed

lemma ready_at:
  assumes "rail_at a p d state" and "pe_backend p = TBV_BACKEND_NATIVE" and "dg_state d = TBV_PATH_TUNNEL_ENABLED"
    and "w AND NOT (push_bit 63 1) = dg_route d"
    and "\<And>h m. says d h \<Longrightarrow> in_transit TBV_NATIVE_WIRE_OP_READY h m \<Longrightarrow>
      ce_request env (pe_xd p) m (sent p m state) = (Inr (carried w (rep m)), sent p m state)
      \<and> (\<exists>l. in_transit TBV_NATIVE_WIRE_OP_READY_ACK l (rep m) \<and> h_rail_id l = dg_rail_id d)"
  shows "\<exists>h m state'. tbv_native_control_ready_once env a state = (Inr (), state')
    \<and> says d h \<and> in_transit TBV_NATIVE_WIRE_OP_READY h m \<and> globals state' = globals (sent p m state)
    \<and> rail_at a p (d\<lparr>dg_remote_ready := True\<rparr>) state'"
proof -
  obtain peer r where l: "locate a state = Some (peer, r)" "bare peer = p" "digest_of r = d"
    using rail_at_locate [OF assms(1)] by blast
  have pe: "pe_backend peer = TBV_BACKEND_NATIVE" "pe_xd peer = pe_xd p" "ra_path_state r = TBV_PATH_TUNNEL_ENABLED"
    "ra_rail_id r = dg_rail_id d"
    using l assms(2,3) by (auto simp: bare_def digest_of_def)
  obtain h m where hm: "says d h" "in_transit TBV_NATIVE_WIRE_OP_READY h m"
    "ctl_transaction env peer r TBV_NATIVE_WIRE_OP_READY state
      = (tbv_native_wire_parse_hello (Some (response_buffer (carried w (rep m)))), sent p m state)"
    using transaction_at [OF assms(1) l(1) valid_ops(3), of env "\<lambda>m. Inr (carried w (rep m))"] assms(5) by auto
  obtain ack where ack: "in_transit TBV_NATIVE_WIRE_OP_READY_ACK ack (rep m)" "h_rail_id ack = dg_rail_id d"
    using assms(5) [OF hm(1,2)] by blast
  obtain seq s where parse: "tbv_native_wire_parse_hello (Some (response_buffer (carried w (rep m))))
      = Inr (ack, msg_info TBV_NATIVE_WIRE_OP_READY_ACK seq s w)"
    using in_transit_parse [OF ack(1)] by metis
  have "for_rail p d (pe_xd p) (msg_info TBV_NATIVE_WIRE_OP_READY_ACK seq s w) (h_rail_id ack)"
    using assms(2,4) ack(2) by (simp add: for_rail_def msg_info_def)
  moreover have "rail_at a p d (sent p m state)" using assms(1) by simp
  ultimately obtain s' where "tbv_native_control_mark_remote_ready (ce_pub env) (Some (pe_xd p))
      (msg_info TBV_NATIVE_WIRE_OP_READY_ACK seq s w) ack (sent p m state) = (Inr (), s')"
    "rail_at a p (d\<lparr>dg_remote_ready := True\<rparr>) s'" "globals s' = globals (sent p m state)"
    using mark_remote_ready_at by metis
  then show ?thesis
    using l(1) pe hm parse ack(2) by (auto simp: tbv_native_control_ready_once_def msg_info_def)
qed

definition granting :: "ctl_env \<Rightarrow> bool" where
  "granting env \<longleftrightarrow> (\<forall>hop. ce_alloc_in_hopid env hop = Inr hop) \<and> ce_enable_paths env = Inr ()"

lemma enable_tunnel_at:
  assumes "rail_at a p d state" and "granting env" and "dg_state d = TBV_PATH_RING_STARTED" and "dg_remote_path d < 0"
  shows "\<exists>state'. tbv_native_control_enable_tunnel_once env a state = (Inr (), state') \<and> globals state' = globals state
    \<and> rail_at a p (d\<lparr>dg_state := TBV_PATH_TUNNEL_ENABLED, dg_remote_path := dg_remote_transmit_path d\<rparr>) state'"
proof -
  obtain peer r where l: "locate a state = Some (peer, r)" "bare peer = p" "digest_of r = d"
    using rail_at_locate [OF assms(1)] by blast
  obtain hw where hw: "tbv_path_enable_tunnel (ce_tx env) (ce_alloc_in_hopid env) (ce_enable_paths env)
      (ra_remote_transmit_path r) (ra_hw r) = (Inr (), hw)"
    "p_state (hw_path hw) = TBV_PATH_TUNNEL_ENABLED" "p_remote_transmit_path (hw_path hw) = ra_remote_transmit_path r"
    "p_local_transmit_path (hw_path hw) = p_local_transmit_path (ra_path r)"
    using assms(2-4) l(3)
    by (auto simp: tbv_path_enable_tunnel_def granting_def digest_of_def on_path_def hw_emit_def Let_def)
  have "rail_at a p (d\<lparr>dg_state := TBV_PATH_TUNNEL_ENABLED, dg_remote_path := dg_remote_transmit_path d\<rparr>)
      (on_rail a (\<lambda>r. r\<lparr>ra_hw := hw\<rparr>) state)"
  proof (rule rail_at_on_rail [OF assms(1)])
    show "digest_of (x\<lparr>ra_hw := hw\<rparr>)
        = d\<lparr>dg_state := TBV_PATH_TUNNEL_ENABLED, dg_remote_path := dg_remote_transmit_path d\<rparr>" if "digest_of x = d" for x
    proof -
      have "dg_remote_transmit_path d = ra_remote_transmit_path r" "dg_local_path d = p_local_transmit_path (ra_path r)"
        using l(3) by (auto simp: digest_of_def)
      then show ?thesis using hw(2-4) that by (auto simp: digest_of_def)
    qed
  qed simp
  then show ?thesis using l(1) hw(1) by (simp add: tbv_native_control_enable_tunnel_once_def)
qed

section \<open>Runs of the work\<close>

definition flags :: "tbv_state \<Rightarrow> bool \<times> bool \<times> bool" where
  "flags state = (ts_negotiate_native state, ts_enable_tunnels state, ts_register_enabled state)"

lemma globals_iff: "globals s = globals s' \<longleftrightarrow> ts_sent s = ts_sent s' \<and> flags s = flags s'"
  by (auto simp: globals_def flags_def)

lemma flags_sent [simp]: "flags (sent p m s) = flags s" "ts_sent (sent p m s) = ts_sent s @ [(xd_addr (pe_xd p), m)]"
  by (simp_all add: flags_def sent_def)

lemma flags_on_rail [simp]: "flags (on_rail a f s) = flags s" "ts_sent (on_rail a f s) = ts_sent s"
  by (simp_all add: flags_def on_rail_def)

lemma work_tunnel_at:
  assumes "rail_at a p d state" and "pe_backend p = TBV_BACKEND_NATIVE" and "granting env" and "ts_enable_tunnels state"
    and "dg_state d = TBV_PATH_RING_STARTED" and "dg_remote_path d < 0" and "dg_negotiated d" and "0 \<le> dg_remote_transmit_path d"
  shows "\<exists>state'. work_tunnel env a state = (None, state') \<and> globals state' = globals state
    \<and> rail_at a p (d\<lparr>dg_state := TBV_PATH_TUNNEL_ENABLED, dg_remote_path := dg_remote_transmit_path d\<rparr>) state'"
proof -
  obtain peer r where l: "locate a state = Some (peer, r)" "bare peer = p" "digest_of r = d"
    using rail_at_locate [OF assms(1)] by blast
  let ?s = "on_rail a (\<lambda>rail. rail\<lparr>ra_native_tunnel_attempts := ra_native_tunnel_attempts r + 1\<rparr>) state"
  let ?d = "d\<lparr>dg_state := TBV_PATH_TUNNEL_ENABLED, dg_remote_path := dg_remote_transmit_path d\<rparr>"
  have "rail_at a p d ?s" by (rule rail_at_on_rail [OF assms(1)]) simp_all
  from enable_tunnel_at [OF this assms(3,5,6)] obtain s1 where s1:
    "tbv_native_control_enable_tunnel_once env a ?s = (Inr (), s1)" "globals s1 = globals ?s" "rail_at a p ?d s1" by blast
  have "rail_at a p ?d (on_rail a (set_last_error (Inr ())) s1)" by (rule rail_at_on_rail [OF s1(3)]) simp_all
  note pub = publish_at [OF this assms(2), of "ce_pub env"]
  have "ra_path_state r = TBV_PATH_RING_STARTED" "ra_native_negotiated r" "0 \<le> ra_remote_transmit_path r"
    using l(3) assms(5,7,8) by (auto simp: digest_of_def)
  then have "work_tunnel env a state = (None, publish_if_ready (ce_pub env) a (on_rail a (set_last_error (Inr ())) s1))"
    using l(1) s1(1) assms(4) by (simp add: work_tunnel_def Let_def)
  then show ?thesis using pub(1,2) s1(2) by auto
qed

lemma work_hello_at:
  assumes "rail_at a p d state" and "pe_backend p = TBV_BACKEND_NATIVE" and "dg_state d = TBV_PATH_RING_STARTED"
    and "w AND NOT (push_bit 63 1) = dg_route d" and "ts_negotiate_native state" and "\<not> dg_negotiated d"
    and "\<And>h m s. says d h \<Longrightarrow> in_transit TBV_NATIVE_WIRE_OP_HELLO h m \<Longrightarrow> ts_sent s = ts_sent state \<Longrightarrow>
      ce_request env (pe_xd p) m (sent p m s) = (Inr (carried w (rep m)), sent p m s)
      \<and> (\<exists>l. in_transit TBV_NATIVE_WIRE_OP_HELLO_ACK l (rep m) \<and> h_rail_id l = dg_rail_id d \<and> sint (h_transmit_path l) = rp)"
  shows "\<exists>h m state'. work_hello env a state = (None, state')
    \<and> says d h \<and> in_transit TBV_NATIVE_WIRE_OP_HELLO h m \<and> globals state' = globals (sent p m state)
    \<and> rail_at a p (d\<lparr>dg_negotiated := True, dg_remote_transmit_path := rp\<rparr>) state'"
proof -
  obtain peer r where l: "locate a state = Some (peer, r)" "bare peer = p" "digest_of r = d"
    using rail_at_locate [OF assms(1)] by blast
  let ?s = "on_rail a (\<lambda>rail. rail\<lparr>ra_native_attempts := ra_native_attempts r + 1\<rparr>) state"
  let ?d = "d\<lparr>dg_negotiated := True, dg_remote_transmit_path := rp\<rparr>"
  have at: "rail_at a p d ?s" by (rule rail_at_on_rail [OF assms(1)]) simp_all
  have ts: "ts_sent ?s = ts_sent state" by simp
  obtain h m s1 where s1: "tbv_native_control_exchange_once env a ?s = (Inr (), s1)" "says d h"
    "in_transit TBV_NATIVE_WIRE_OP_HELLO h m" "globals s1 = globals (sent p m ?s)" "rail_at a p ?d s1"
    using exchange_at [OF at assms(2-4), of env rep rp] assms(7) [OF _ _ ts] by blast
  have "rail_at a p ?d (on_rail a (set_last_error (Inr ())) s1)" by (rule rail_at_on_rail [OF s1(5)]) simp_all
  moreover have "globals s1 = globals (sent p m state)"
    using s1(4) by (simp add: globals_iff)
  moreover have "\<not> ra_native_negotiated r" using l(3) assms(6) by (auto simp: digest_of_def)
  ultimately show ?thesis
    using l(1) s1(1-3) assms(5) by (auto simp: work_hello_def Let_def)
qed

lemma work_ready_refused_at:
  assumes "rail_at a p d state" and "pe_backend p = TBV_BACKEND_NATIVE" and "dg_state d = TBV_PATH_TUNNEL_ENABLED"
    and "ts_enable_tunnels state" and "\<not> dg_ready_sent d"
    and "\<And>h m s. says d h \<Longrightarrow> in_transit TBV_NATIVE_WIRE_OP_READY h m \<Longrightarrow> ts_sent s = ts_sent state \<Longrightarrow>
      ce_request env (pe_xd p) m (sent p m s) = (Inl e, sent p m s)"
  shows "\<exists>h m retry state'. work_ready env a state = (Some retry, state')
    \<and> says d h \<and> in_transit TBV_NATIVE_WIRE_OP_READY h m \<and> globals state' = globals (sent p m state) \<and> rail_at a p d state'"
proof -
  obtain peer r where l: "locate a state = Some (peer, r)" "bare peer = p" "digest_of r = d"
    using rail_at_locate [OF assms(1)] by blast
  let ?s = "on_rail a (\<lambda>rail. rail\<lparr>ra_native_ready_attempts := ra_native_ready_attempts r + 1\<rparr>) state"
  have at: "rail_at a p d ?s" by (rule rail_at_on_rail [OF assms(1)]) simp_all
  have ts: "ts_sent ?s = ts_sent state" by simp
  obtain h m where s1: "tbv_native_control_ready_once env a ?s = (Inl e, sent p m ?s)" "says d h"
    "in_transit TBV_NATIVE_WIRE_OP_READY h m"
    using ready_refused_at [OF at assms(2,3), of env e] assms(6) [OF _ _ ts] by blast
  have at1: "rail_at a p d (sent p m ?s)" using at by simp
  obtain peer1 r1 where l1: "locate a (sent p m ?s) = Some (peer1, r1)" "bare peer1 = p" "digest_of r1 = d"
    using rail_at_locate [OF at1] by blast
  have "pe_backend peer1 = TBV_BACKEND_NATIVE" using l1(2) assms(2) by (auto simp: bare_def)
  then have "\<not> tbv_native_control_rail_data_ready a (sent p m ?s)"
    using l1 data_ready_digest [of peer1 r1] assms(5)
    by (simp add: tbv_native_control_rail_data_ready_def ready_digest_def)
  moreover have "rail_at a p d (on_rail a (set_last_error (Inl e)) (sent p m ?s))"
    by (rule rail_at_on_rail [OF at1]) simp_all
  moreover have "globals (sent p m ?s) = globals (sent p m state)"
    by (simp add: globals_iff)
  moreover have "ra_path_state r = TBV_PATH_TUNNEL_ENABLED" "\<not> ra_native_ready_sent r"
    using l(3) assms(3,5) by (auto simp: digest_of_def)
  ultimately show ?thesis
    using l(1) s1 assms(4) by (auto simp: work_ready_def Let_def)
qed

lemma work_ready_at:
  assumes "rail_at a p d state" and "pe_backend p = TBV_BACKEND_NATIVE" and "dg_state d = TBV_PATH_TUNNEL_ENABLED"
    and "w AND NOT (push_bit 63 1) = dg_route d" and "ts_enable_tunnels state" and "\<not> dg_ready_sent d" and "\<not> dg_removing d"
    and "\<And>h m s. says d h \<Longrightarrow> in_transit TBV_NATIVE_WIRE_OP_READY h m \<Longrightarrow> ts_sent s = ts_sent state \<Longrightarrow>
      ce_request env (pe_xd p) m (sent p m s) = (Inr (carried w (rep m)), sent p m s)
      \<and> (\<exists>l. in_transit TBV_NATIVE_WIRE_OP_READY_ACK l (rep m) \<and> h_rail_id l = dg_rail_id d)"
  shows "\<exists>h m state'. work_ready env a state = (None, state')
    \<and> says d h \<and> in_transit TBV_NATIVE_WIRE_OP_READY h m \<and> globals state' = globals (sent p m state)
    \<and> rail_at a p (d\<lparr>dg_remote_ready := True, dg_ready_sent := True\<rparr>) state'
    \<and> (ts_register_enabled state \<longrightarrow> published_at a state')"
proof -
  obtain peer r where l: "locate a state = Some (peer, r)" "bare peer = p" "digest_of r = d"
    using rail_at_locate [OF assms(1)] by blast
  let ?s = "on_rail a (\<lambda>rail. rail\<lparr>ra_native_ready_attempts := ra_native_ready_attempts r + 1\<rparr>) state"
  let ?d = "d\<lparr>dg_remote_ready := True, dg_ready_sent := True\<rparr>"
  have at: "rail_at a p d ?s" by (rule rail_at_on_rail [OF assms(1)]) simp_all
  have ts: "ts_sent ?s = ts_sent state" by simp
  obtain h m s1 where s1: "tbv_native_control_ready_once env a ?s = (Inr (), s1)" "says d h"
    "in_transit TBV_NATIVE_WIRE_OP_READY h m" "globals s1 = globals (sent p m ?s)" "rail_at a p (d\<lparr>dg_remote_ready := True\<rparr>) s1"
    using ready_at [OF at assms(2-4), of env rep] assms(8) [OF _ _ ts] by blast
  let ?s2 = "on_rail a (\<lambda>rail. rail\<lparr>ra_native_ready_sent := True\<rparr>) (on_rail a (set_last_error (Inr ())) s1)"
  have "rail_at a p (d\<lparr>dg_remote_ready := True\<rparr>) (on_rail a (set_last_error (Inr ())) s1)"
    by (rule rail_at_on_rail [OF s1(5)]) simp_all
  then have at2: "rail_at a p ?d ?s2" by (rule rail_at_on_rail) simp_all
  note pub = publish_at [OF at2 assms(2), of "ce_pub env"]
  have g: "globals s1 = globals (sent p m state)"
    using s1(4) by (simp add: globals_iff)
  have "ts_register_enabled ?s2 = ts_register_enabled state" using g by (simp add: globals_def sent_def)
  moreover have "ra_path_state r = TBV_PATH_TUNNEL_ENABLED" "\<not> ra_native_ready_sent r"
    using l(3) assms(3,6) by (auto simp: digest_of_def)
  moreover have "ready_digest ?d" "\<not> dg_removing ?d" using assms(3,7) by (simp_all add: ready_digest_def)
  ultimately show ?thesis
    using l(1) s1(1-3) assms(5) pub g by (auto simp: work_ready_def Let_def)
qed

lemma rail_at_work_out:
  assumes "rail_at a p d state" shows "rail_at a p d (work_out a (retry, state))" "globals (work_out a (retry, state)) = globals state"
proof -
  have "rail_at a p d (on_rail a (\<lambda>rail. if \<not> ra_native_work_stop rail then schedule_work rail else rail) state)"
    by (rule rail_at_on_rail [OF assms]) simp_all
  then show "rail_at a p d (work_out a (retry, state))" "globals (work_out a (retry, state)) = globals state"
    using assms by (simp_all add: work_out_def)
qed

lemma work_unfold:
  assumes "rail_at a p d state" and "pe_backend p = TBV_BACKEND_NATIVE" and "dg_work_state d" and "\<not> dg_stop d"
    and "dg_state d = TBV_PATH_RING_STARTED \<or> dg_state d = TBV_PATH_TUNNEL_ENABLED"
  shows "tbv_native_control_work env a state = work_out a (work_body env a (on_rail a (\<lambda>rail. rail\<lparr>ra_work := False\<rparr>) state))"
    and "rail_at a p d (on_rail a (\<lambda>rail. rail\<lparr>ra_work := False\<rparr>) state)"
proof -
  show at: "rail_at a p d (on_rail a (\<lambda>rail. rail\<lparr>ra_work := False\<rparr>) state)"
    by (rule rail_at_on_rail [OF assms(1)]) simp_all
  obtain peer r where l: "locate a (on_rail a (\<lambda>rail. rail\<lparr>ra_work := False\<rparr>) state) = Some (peer, r)"
    "bare peer = p" "digest_of r = d"
    using rail_at_locate [OF at] by blast
  have "pe_backend peer = TBV_BACKEND_NATIVE" "ra_native_work_state r" "\<not> ra_native_work_stop r"
    "ra_path_state r = TBV_PATH_RING_STARTED \<or> ra_path_state r = TBV_PATH_TUNNEL_ENABLED"
    using l(2,3) assms(2-5) by (auto simp: bare_def digest_of_def)
  then show "tbv_native_control_work env a state = work_out a (work_body env a (on_rail a (\<lambda>rail. rail\<lparr>ra_work := False\<rparr>) state))"
    using l(1) by (auto simp: tbv_native_control_work_def Let_def)
qed

text \<open>A rail whose rings are started and that has not heard of the other end.\<close>

definition waiting :: "nat \<Rightarrow> tbv_peer \<Rightarrow> digest \<Rightarrow> tbv_state \<Rightarrow> bool" where
  "waiting a p d state \<longleftrightarrow> rail_at a p d state \<and> pe_backend p = TBV_BACKEND_NATIVE
     \<and> ts_negotiate_native state \<and> ts_enable_tunnels state
     \<and> dg_state d = TBV_PATH_RING_STARTED \<and> dg_remote_path d < 0
     \<and> 0 \<le> dg_local_path d \<and> dg_local_path d < 2147483648
     \<and> dg_work_state d \<and> \<not> dg_stop d \<and> \<not> dg_removing d
     \<and> \<not> dg_negotiated d \<and> \<not> dg_ready_sent d \<and> \<not> dg_remote_ready d"

text \<open>The first run: the other end answers HELLO, but is not yet able to answer READY.\<close>

lemma first_run:
  assumes w: "waiting a p d state" and gr: "granting env" and rt: "w AND NOT (push_bit 63 1) = dg_route d" and rp: "0 \<le> rp"
    and hello: "\<And>h m s. says d h \<Longrightarrow> in_transit TBV_NATIVE_WIRE_OP_HELLO h m \<Longrightarrow> ts_sent s = ts_sent state \<Longrightarrow>
      ce_request env (pe_xd p) m (sent p m s) = (Inr (carried w (rep m)), sent p m s)
      \<and> (\<exists>l. in_transit TBV_NATIVE_WIRE_OP_HELLO_ACK l (rep m) \<and> h_rail_id l = dg_rail_id d \<and> sint (h_transmit_path l) = rp)"
    and ready: "\<And>h1 m1 h m s. says d h1 \<Longrightarrow> in_transit TBV_NATIVE_WIRE_OP_HELLO h1 m1 \<Longrightarrow> says d h
      \<Longrightarrow> in_transit TBV_NATIVE_WIRE_OP_READY h m \<Longrightarrow> ts_sent s = ts_sent state @ [(xd_addr (pe_xd p), m1)] \<Longrightarrow>
      ce_request env (pe_xd p) m (sent p m s) = (Inl e, sent p m s)"
  shows "\<exists>h1 m1 h2 m2. says d h1 \<and> in_transit TBV_NATIVE_WIRE_OP_HELLO h1 m1 \<and> says d h2 \<and> in_transit TBV_NATIVE_WIRE_OP_READY h2 m2
    \<and> ts_sent (tbv_native_control_work env a state) = ts_sent state @ [(xd_addr (pe_xd p), m1), (xd_addr (pe_xd p), m2)]
    \<and> flags (tbv_native_control_work env a state) = flags state
    \<and> rail_at a p (d\<lparr>dg_negotiated := True, dg_remote_transmit_path := rp, dg_state := TBV_PATH_TUNNEL_ENABLED, dg_remote_path := rp\<rparr>)
        (tbv_native_control_work env a state)"
proof -
  note W = w [unfolded waiting_def]
  have at: "rail_at a p d state" and nat: "pe_backend p = TBV_BACKEND_NATIVE" using W by simp_all
  let ?s0 = "on_rail a (\<lambda>rail. rail\<lparr>ra_work := False\<rparr>) state"
  have wk: "tbv_native_control_work env a state = work_out a (work_body env a ?s0)" and at0: "rail_at a p d ?s0"
    using work_unfold(1) [OF at nat, of env] work_unfold(2) [OF at nat] W by blast+
  have f0: "ts_sent ?s0 = ts_sent state" "flags ?s0 = flags state" by simp_all
  have n0: "ts_negotiate_native ?s0" "ts_enable_tunnels ?s0" using W by simp_all
  let ?d1 = "d\<lparr>dg_negotiated := True, dg_remote_transmit_path := rp\<rparr>"
  let ?d2 = "?d1\<lparr>dg_state := TBV_PATH_TUNNEL_ENABLED, dg_remote_path := rp\<rparr>"
  have hello0: "ce_request env (pe_xd p) m (sent p m s) = (Inr (carried w (rep m)), sent p m s)
      \<and> (\<exists>l. in_transit TBV_NATIVE_WIRE_OP_HELLO_ACK l (rep m) \<and> h_rail_id l = dg_rail_id d \<and> sint (h_transmit_path l) = rp)"
    if "says d h" "in_transit TBV_NATIVE_WIRE_OP_HELLO h m" "ts_sent s = ts_sent ?s0" for h m s
    using hello [OF that(1,2)] that(3) f0(1) by simp
  obtain h1 m1 s1 where s1: "work_hello env a ?s0 = (None, s1)" "says d h1" "in_transit TBV_NATIVE_WIRE_OP_HELLO h1 m1"
    "globals s1 = globals (sent p m1 ?s0)" "rail_at a p ?d1 s1"
  proof -
    have st: "dg_state d = TBV_PATH_RING_STARTED" and nn: "\<not> dg_negotiated d" using W by simp_all
    have "\<exists>h m s'. work_hello env a ?s0 = (None, s') \<and> says d h \<and> in_transit TBV_NATIVE_WIRE_OP_HELLO h m
        \<and> globals s' = globals (sent p m ?s0) \<and> rail_at a p ?d1 s'"
      by (rule work_hello_at [where rep = rep, OF at0 nat st rt n0(1) nn]) (fact hello0)
    then show thesis using that by blast
  qed
  have f1: "ts_sent s1 = ts_sent state @ [(xd_addr (pe_xd p), m1)]" "flags s1 = flags state"
    using s1(4) f0 by (simp_all add: globals_iff)
  have n1: "ts_enable_tunnels s1" using f1(2) W by (simp add: flags_def)
  have p2: "dg_state ?d1 = TBV_PATH_RING_STARTED" "dg_remote_path ?d1 < 0" "dg_negotiated ?d1" "0 \<le> dg_remote_transmit_path ?d1"
    using W rp by simp_all
  obtain s2 where s2: "work_tunnel env a s1 = (None, s2)" "globals s2 = globals s1" "rail_at a p ?d2 s2"
    using work_tunnel_at [OF s1(5) nat gr n1 p2] by auto
  have f2: "ts_sent s2 = ts_sent state @ [(xd_addr (pe_xd p), m1)]" "flags s2 = flags state"
    using s2(2) f1 by (simp_all add: globals_iff)
  have n2: "ts_enable_tunnels s2" using f2(2) W by (simp add: flags_def)
  have sd: "says ?d2 h = says d h" for h by (simp add: says_def)
  have ready2: "ce_request env (pe_xd p) m (sent p m s) = (Inl e, sent p m s)"
    if "says ?d2 h" "in_transit TBV_NATIVE_WIRE_OP_READY h m" "ts_sent s = ts_sent s2" for h m s
    using ready [OF s1(2,3)] that f2(1) sd by simp
  have p3: "dg_state ?d2 = TBV_PATH_TUNNEL_ENABLED" "\<not> dg_ready_sent ?d2" using W by simp_all
  obtain h2 m2 retry s3 where s3: "work_ready env a s2 = (Some retry, s3)" "says d h2" "in_transit TBV_NATIVE_WIRE_OP_READY h2 m2"
    "globals s3 = globals (sent p m2 s2)" "rail_at a p ?d2 s3"
  proof -
    have "\<exists>h m retry s'. work_ready env a s2 = (Some retry, s') \<and> says ?d2 h \<and> in_transit TBV_NATIVE_WIRE_OP_READY h m
        \<and> globals s' = globals (sent p m s2) \<and> rail_at a p ?d2 s'"
      by (rule work_ready_refused_at [where e = e, OF s2(3) nat p3(1) n2 p3(2)]) (fact ready2)
    then show thesis using that sd by blast
  qed
  have "tbv_native_control_work env a state = work_out a (Some retry, s3)"
    using wk s1(1) s2(1) s3(1) by (simp add: work_body_def)
  then have "rail_at a p ?d2 (tbv_native_control_work env a state)" "globals (tbv_native_control_work env a state) = globals s3"
    using rail_at_work_out [OF s3(5), of "Some retry"] by simp_all
  moreover have "ts_sent s3 = ts_sent state @ [(xd_addr (pe_xd p), m1), (xd_addr (pe_xd p), m2)]" "flags s3 = flags state"
    using s3(4) f2 by (simp_all add: globals_iff)
  ultimately show ?thesis using s1(2,3) s3(2,3) by (auto simp: globals_iff)
qed

text \<open>The run of the other end: it has been negotiated and has heard READY.\<close>

lemma second_run:
  assumes at: "rail_at a p d state" and nat: "pe_backend p = TBV_BACKEND_NATIVE" and gr: "granting env"
    and rt: "w AND NOT (push_bit 63 1) = dg_route d" and en: "ts_enable_tunnels state"
    and st: "dg_state d = TBV_PATH_RING_STARTED" "dg_remote_path d < 0" "dg_negotiated d" "0 \<le> dg_remote_transmit_path d"
      "dg_work_state d" "\<not> dg_stop d" "\<not> dg_removing d" "\<not> dg_ready_sent d"
    and ready: "\<And>h m s. says d h \<Longrightarrow> in_transit TBV_NATIVE_WIRE_OP_READY h m \<Longrightarrow> ts_sent s = ts_sent state \<Longrightarrow>
      ce_request env (pe_xd p) m (sent p m s) = (Inr (carried w (rep m)), sent p m s)
      \<and> (\<exists>l. in_transit TBV_NATIVE_WIRE_OP_READY_ACK l (rep m) \<and> h_rail_id l = dg_rail_id d)"
  shows "\<exists>h m. says d h \<and> in_transit TBV_NATIVE_WIRE_OP_READY h m
    \<and> ts_sent (tbv_native_control_work env a state) = ts_sent state @ [(xd_addr (pe_xd p), m)]
    \<and> flags (tbv_native_control_work env a state) = flags state
    \<and> rail_at a p (d\<lparr>dg_state := TBV_PATH_TUNNEL_ENABLED, dg_remote_path := dg_remote_transmit_path d,
          dg_remote_ready := True, dg_ready_sent := True\<rparr>) (tbv_native_control_work env a state)
    \<and> (ts_register_enabled state \<longrightarrow> published_at a (tbv_native_control_work env a state))"
proof -
  let ?s0 = "on_rail a (\<lambda>rail. rail\<lparr>ra_work := False\<rparr>) state"
  have wk: "tbv_native_control_work env a state = work_out a (work_body env a ?s0)" and at0: "rail_at a p d ?s0"
    using work_unfold(1) [OF at nat, of env] work_unfold(2) [OF at nat] st by blast+
  obtain peer r where l: "locate a ?s0 = Some (peer, r)" "digest_of r = d" using rail_at_locate [OF at0] by blast
  have "ra_native_negotiated r" using l(2) st(3) by (auto simp: digest_of_def)
  then have h0: "work_hello env a ?s0 = (None, ?s0)" using l(1) by (simp add: work_hello_def)
  have n0: "ts_enable_tunnels ?s0" using en by simp
  let ?d1 = "d\<lparr>dg_state := TBV_PATH_TUNNEL_ENABLED, dg_remote_path := dg_remote_transmit_path d\<rparr>"
  obtain s1 where s1: "work_tunnel env a ?s0 = (None, s1)" "globals s1 = globals ?s0" "rail_at a p ?d1 s1"
    using work_tunnel_at [OF at0 nat gr n0 st(1-4)] by blast
  have f1: "ts_sent s1 = ts_sent state" "flags s1 = flags state" using s1(2) by (simp_all add: globals_iff)
  have n1: "ts_enable_tunnels s1" "ts_register_enabled s1 = ts_register_enabled state" using f1(2) en by (simp_all add: flags_def)
  have sd: "says ?d1 h = says d h" for h by (simp add: says_def)
  have ready1: "ce_request env (pe_xd p) m (sent p m s) = (Inr (carried w (rep m)), sent p m s)
      \<and> (\<exists>l. in_transit TBV_NATIVE_WIRE_OP_READY_ACK l (rep m) \<and> h_rail_id l = dg_rail_id ?d1)"
    if "says ?d1 h" "in_transit TBV_NATIVE_WIRE_OP_READY h m" "ts_sent s = ts_sent s1" for h m s
    using ready [of h m s] that f1(1) sd by simp
  have p1: "dg_state ?d1 = TBV_PATH_TUNNEL_ENABLED" "w AND NOT (push_bit 63 1) = dg_route ?d1" "\<not> dg_ready_sent ?d1" "\<not> dg_removing ?d1"
    using st rt by simp_all
  let ?d2 = "?d1\<lparr>dg_remote_ready := True, dg_ready_sent := True\<rparr>"
  obtain h m s2 where s2: "work_ready env a s1 = (None, s2)" "says d h" "in_transit TBV_NATIVE_WIRE_OP_READY h m"
    "globals s2 = globals (sent p m s1)" "rail_at a p ?d2 s2" "ts_register_enabled s1 \<longrightarrow> published_at a s2"
  proof -
    have "\<exists>h m s'. work_ready env a s1 = (None, s') \<and> says ?d1 h \<and> in_transit TBV_NATIVE_WIRE_OP_READY h m
        \<and> globals s' = globals (sent p m s1) \<and> rail_at a p ?d2 s' \<and> (ts_register_enabled s1 \<longrightarrow> published_at a s')"
      by (rule work_ready_at [where rep = rep, OF s1(3) nat p1(1,2) n1(1) p1(3,4)]) (fact ready1)
    then show thesis using that sd by blast
  qed
  have "tbv_native_control_work env a state = s2" using wk h0 s1(1) s2(1) by (simp add: work_body_def work_out_def)
  moreover have "ts_sent s2 = ts_sent state @ [(xd_addr (pe_xd p), m)]" "flags s2 = flags state"
    using s2(4) f1 by (simp_all add: globals_iff)
  ultimately show ?thesis using s2(2,3,5,6) n1(2) by auto
qed

section \<open>The two ends together\<close>

text \<open>
  A message delivered to an end: the replies of its handler and the state it leaves. Several messages
  are handled in their order.
\<close>

definition deliver :: "ctl_env \<Rightarrow> tb_xdomain \<Rightarrow> u64 \<Rightarrow> u8 list \<Rightarrow> tbv_state \<Rightarrow> u8 list list \<times> tbv_state" where
  "deliver env xd w m state =
     (case tbv_native_control_handle_packet env (Some xd) (Some (carried w m)) (Some state) of
        (_, replies, None) \<Rightarrow> (replies, state)
      | (_, replies, Some state') \<Rightarrow> (replies, state'))"

definition receive :: "ctl_env \<Rightarrow> tb_xdomain \<Rightarrow> u64 \<Rightarrow> u8 list list \<Rightarrow> tbv_state \<Rightarrow> tbv_state" where
  "receive env xd w ms state = fold (\<lambda>m state. snd (deliver env xd w m state)) ms state"

text \<open>
  An end whose requests are answered by the other end: the other end has handled the messages sent
  since message \<open>n\<close>, handles the request, and its first reply is carried back. No reply is a
  timeout.
\<close>

definition linked ::
  "ctl_env \<Rightarrow> u64 \<Rightarrow> nat \<Rightarrow> ctl_env \<Rightarrow> tb_xdomain \<Rightarrow> u64 \<Rightarrow> tbv_state \<Rightarrow> ctl_env" where
  "linked env w n env' xd' w' state' =
     env\<lparr>ce_request := \<lambda>xd m state.
       (case fst (deliver env' xd' w' m (receive env' xd' w' (map snd (butlast (drop n (ts_sent state)))) state')) of
          [] \<Rightarrow> Inl ETIMEDOUT
        | reply # _ \<Rightarrow> Inr (carried w reply), state)\<rparr>"

text \<open>One run of the work of a rail against the other end, and the state of both ends after it.\<close>

definition run_against ::
  "ctl_env \<Rightarrow> u64 \<Rightarrow> nat \<Rightarrow> tbv_state \<Rightarrow> ctl_env \<Rightarrow> tb_xdomain \<Rightarrow> u64 \<Rightarrow> tbv_state \<Rightarrow> tbv_state \<times> tbv_state" where
  "run_against env w a state env' xd' w' state' =
     (let n = length (ts_sent state);
          state1 = tbv_native_control_work (linked env w n env' xd' w' state') a state
      in (state1, receive env' xd' w' (map snd (drop n (ts_sent state1))) state'))"

lemma linked_fields [simp]:
  "granting (linked env w n env' xd' w' state') = granting env"
  by (simp add: linked_def granting_def)

lemma linked_request:
  assumes "ts_sent s = before @ ms" and "n = length before"
  shows "ce_request (linked env w n env' xd' w' state') xd m (sent p m s)
    = (case fst (deliver env' xd' w' m (receive env' xd' w' (map snd ms) state')) of
         [] \<Rightarrow> Inl ETIMEDOUT | reply # _ \<Rightarrow> Inr (carried w reply), sent p m s)"
  using assms by (simp add: linked_def butlast_append)

lemma receive_Cons: "receive env xd w (m # ms) state = receive env xd w ms (snd (deliver env xd w m state))"
  "receive env xd w [] state = state"
  by (simp_all add: receive_def)

text \<open>The three ways in which a message is received, as deliveries.\<close>

lemma deliver_hello:
  assumes "rail_at a p d state" and "lane_to p d xd w (h_rail_id h)" and "answering env" and "in_transit TBV_NATIVE_WIRE_OP_HELLO h m"
  shows "\<exists>l reply. fst (deliver env xd w m state) = [reply] \<and> says d l \<and> in_transit TBV_NATIVE_WIRE_OP_HELLO_ACK l reply"
    and "rail_at a p (d\<lparr>dg_negotiated := True, dg_remote_transmit_path := sint (h_transmit_path h)\<rparr>) (snd (deliver env xd w m state))"
    and "globals (snd (deliver env xd w m state)) = globals state"
  using receive_hello [OF assms] by (auto simp: deliver_def)

lemma deliver_early_ready:
  assumes "rail_at a p d state" and "lane_to p d xd w (h_rail_id h)" and "in_transit TBV_NATIVE_WIRE_OP_READY h m"
    and "dg_state d \<noteq> TBV_PATH_TUNNEL_ENABLED"
  shows "fst (deliver env xd w m state) = []"
    and "rail_at a p (d\<lparr>dg_remote_ready := True\<rparr>) (snd (deliver env xd w m state))"
    and "globals (snd (deliver env xd w m state)) = globals state"
  using receive_early_ready [OF assms, of env] by (auto simp: deliver_def)

lemma deliver_ready:
  assumes "rail_at a p d state" and "lane_to p d xd w (h_rail_id h)" and "answering env" and "in_transit TBV_NATIVE_WIRE_OP_READY h m"
    and "dg_state d = TBV_PATH_TUNNEL_ENABLED" and "\<not> dg_removing d"
  shows "\<exists>l reply. fst (deliver env xd w m state) = [reply] \<and> says d l \<and> in_transit TBV_NATIVE_WIRE_OP_READY_ACK l reply"
    and "rail_at a p (d\<lparr>dg_remote_ready := True, dg_ready_sent := True\<rparr>) (snd (deliver env xd w m state))"
    and "globals (snd (deliver env xd w m state)) = globals state"
    and "ts_register_enabled state \<Longrightarrow> published_at a (snd (deliver env xd w m state))"
  using receive_ready [OF assms] by (auto simp: deliver_def)

text \<open>The first run against an end that waits too.\<close>

lemma first_run_against:
  assumes wa: "waiting a p d sa" and wb: "waiting b q e sb" and ids: "dg_rail_id d = dg_rail_id e"
    and gr: "granting env" and an: "answering env'"
    and rt: "w AND NOT (push_bit 63 1) = dg_route d" and rt': "w' AND NOT (push_bit 63 1) = dg_route e"
    and run: "run_against env w a sa env' (pe_xd q) w' sb = (sa1, sb1)"
  shows "rail_at a p (d\<lparr>dg_negotiated := True, dg_remote_transmit_path := dg_local_path e,
           dg_state := TBV_PATH_TUNNEL_ENABLED, dg_remote_path := dg_local_path e\<rparr>) sa1"
    and "flags sa1 = flags sa"
    and "rail_at b q (e\<lparr>dg_negotiated := True, dg_remote_transmit_path := dg_local_path d, dg_remote_ready := True\<rparr>) sb1"
    and "flags sb1 = flags sb"
proof -
  note A = wa [unfolded waiting_def] and B = wb [unfolded waiting_def]
  let ?n = "length (ts_sent sa)"
  let ?env = "linked env w ?n env' (pe_xd q) w' sb"
  let ?e1 = "e\<lparr>dg_negotiated := True, dg_remote_transmit_path := dg_local_path d\<rparr>"
  define rep where "rep m = hd (fst (deliver env' (pe_xd q) w' m sb))" for m
  have atb: "rail_at b q e sb" and nb: "dg_state e \<noteq> TBV_PATH_TUNNEL_ENABLED" using B by simp_all
  have lane: "lane_to q e (pe_xd q) w' (h_rail_id h)" if "says d h" for h
    using that B rt' ids by (simp add: lane_to_def says_def)
  have path: "sint (h_transmit_path h) = dg_local_path d" if "says d h" for h using that A by (simp add: says_def)
  have path': "sint (h_transmit_path h) = dg_local_path e" if "says e h" for h using that B by (simp add: says_def)
  have hello: "ce_request ?env (pe_xd p) m (sent p m s) = (Inr (carried w (rep m)), sent p m s)
      \<and> (\<exists>l. in_transit TBV_NATIVE_WIRE_OP_HELLO_ACK l (rep m) \<and> h_rail_id l = dg_rail_id d \<and> sint (h_transmit_path l) = dg_local_path e)"
    if h: "says d h" "in_transit TBV_NATIVE_WIRE_OP_HELLO h m" "ts_sent s = ts_sent sa" for h m s
  proof -
    obtain l reply where l: "fst (deliver env' (pe_xd q) w' m sb) = [reply]" "says e l" "in_transit TBV_NATIVE_WIRE_OP_HELLO_ACK l reply"
      using deliver_hello(1) [OF atb lane [OF h(1)] an h(2)] by blast
    then show ?thesis
      using linked_request [of s "ts_sent sa" "[]" ?n] h(3) path' [OF l(2)] ids
      by (auto simp: rep_def receive_Cons says_def)
  qed
  have after: "rail_at b q ?e1 (snd (deliver env' (pe_xd q) w' m sb))" "globals (snd (deliver env' (pe_xd q) w' m sb)) = globals sb"
    if "says d h" "in_transit TBV_NATIVE_WIRE_OP_HELLO h m" for h m
    using deliver_hello(2,3) [OF atb lane [OF that(1)] an that(2)] path [OF that(1)] by simp_all
  have lane1: "lane_to q ?e1 (pe_xd q) w' (h_rail_id h)" if "says d h" for h
    using lane [OF that] by (simp add: lane_to_def)
  have nb1: "dg_state ?e1 \<noteq> TBV_PATH_TUNNEL_ENABLED" using nb by simp
  have ready: "ce_request ?env (pe_xd p) m (sent p m s) = (Inl ETIMEDOUT, sent p m s)"
    if h: "says d h1" "in_transit TBV_NATIVE_WIRE_OP_HELLO h1 m1" "says d h" "in_transit TBV_NATIVE_WIRE_OP_READY h m"
      "ts_sent s = ts_sent sa @ [(xd_addr (pe_xd p), m1)]" for h1 m1 h m s
    using linked_request [OF h(5), of ?n] deliver_early_ready(1) [OF after(1) [OF h(1,2)] lane1 [OF h(3)] h(4) nb1]
    by (simp add: receive_Cons)
  have rp: "0 \<le> dg_local_path e" using B by simp
  have gr': "granting ?env" using gr by simp
  have sa1: "sa1 = tbv_native_control_work ?env a sa" using run by (auto simp: run_against_def Let_def)
  have "\<exists>h1 m1 h2 m2. says d h1 \<and> in_transit TBV_NATIVE_WIRE_OP_HELLO h1 m1 \<and> says d h2 \<and> in_transit TBV_NATIVE_WIRE_OP_READY h2 m2
    \<and> ts_sent sa1 = ts_sent sa @ [(xd_addr (pe_xd p), m1), (xd_addr (pe_xd p), m2)] \<and> flags sa1 = flags sa
    \<and> rail_at a p (d\<lparr>dg_negotiated := True, dg_remote_transmit_path := dg_local_path e, dg_state := TBV_PATH_TUNNEL_ENABLED,
       dg_remote_path := dg_local_path e\<rparr>) sa1"
    unfolding sa1 by (rule first_run [where rep = rep and e = ETIMEDOUT, OF wa gr' rt rp]) (fact hello, fact ready)
  then obtain h1 m1 h2 m2 where r: "says d h1" "in_transit TBV_NATIVE_WIRE_OP_HELLO h1 m1" "says d h2" "in_transit TBV_NATIVE_WIRE_OP_READY h2 m2"
    "ts_sent sa1 = ts_sent sa @ [(xd_addr (pe_xd p), m1), (xd_addr (pe_xd p), m2)]" "flags sa1 = flags sa"
    "rail_at a p (d\<lparr>dg_negotiated := True, dg_remote_transmit_path := dg_local_path e, dg_state := TBV_PATH_TUNNEL_ENABLED,
       dg_remote_path := dg_local_path e\<rparr>) sa1"
    by blast
  have sb1: "sb1 = snd (deliver env' (pe_xd q) w' m2 (snd (deliver env' (pe_xd q) w' m1 sb)))"
    using run r(5) by (auto simp: run_against_def Let_def receive_Cons)
  note er = deliver_early_ready [OF after(1) [OF r(1,2)] lane1 [OF r(3)] r(4) nb1, of env']
  show "rail_at a p (d\<lparr>dg_negotiated := True, dg_remote_transmit_path := dg_local_path e,
      dg_state := TBV_PATH_TUNNEL_ENABLED, dg_remote_path := dg_local_path e\<rparr>) sa1" by (rule r(7))
  show "flags sa1 = flags sa" by (rule r(6))
  show "rail_at b q (e\<lparr>dg_negotiated := True, dg_remote_transmit_path := dg_local_path d, dg_remote_ready := True\<rparr>) sb1"
    using er(2) sb1 by simp
  show "flags sb1 = flags sb" using er(3) after(2) [OF r(1,2)] sb1 by (simp add: globals_iff)
qed

text \<open>The run of the end that has been negotiated, against an end with an enabled tunnel.\<close>

lemma second_run_against:
  assumes ata: "rail_at a p d sa" and atb: "rail_at b q e sb" and ids: "dg_rail_id d = dg_rail_id e"
    and nat: "pe_backend p = TBV_BACKEND_NATIVE" "pe_backend q = TBV_BACKEND_NATIVE"
    and gr: "granting env" and an: "answering env'" and en: "ts_enable_tunnels sa"
    and rt: "w AND NOT (push_bit 63 1) = dg_route d" and rt': "w' AND NOT (push_bit 63 1) = dg_route e"
    and st: "dg_state d = TBV_PATH_RING_STARTED" "dg_remote_path d < 0" "dg_negotiated d" "0 \<le> dg_remote_transmit_path d"
      "dg_work_state d" "\<not> dg_stop d" "\<not> dg_removing d" "\<not> dg_ready_sent d"
    and st': "dg_state e = TBV_PATH_TUNNEL_ENABLED" "\<not> dg_removing e"
    and run: "run_against env w a sa env' (pe_xd q) w' sb = (sa1, sb1)"
  shows "rail_at a p (d\<lparr>dg_state := TBV_PATH_TUNNEL_ENABLED, dg_remote_path := dg_remote_transmit_path d,
           dg_remote_ready := True, dg_ready_sent := True\<rparr>) sa1"
    and "ts_register_enabled sa \<Longrightarrow> published_at a sa1"
    and "rail_at b q (e\<lparr>dg_remote_ready := True, dg_ready_sent := True\<rparr>) sb1"
    and "ts_register_enabled sb \<Longrightarrow> published_at b sb1"
    and "flags sa1 = flags sa" and "flags sb1 = flags sb"
proof -
  let ?n = "length (ts_sent sa)"
  let ?env = "linked env w ?n env' (pe_xd q) w' sb"
  define rep where "rep m = hd (fst (deliver env' (pe_xd q) w' m sb))" for m
  have lane: "lane_to q e (pe_xd q) w' (h_rail_id h)" if "says d h" for h
    using that nat rt' ids by (simp add: lane_to_def says_def)
  have ready: "ce_request ?env (pe_xd p) m (sent p m s) = (Inr (carried w (rep m)), sent p m s)
      \<and> (\<exists>l. in_transit TBV_NATIVE_WIRE_OP_READY_ACK l (rep m) \<and> h_rail_id l = dg_rail_id d)"
    if h: "says d h" "in_transit TBV_NATIVE_WIRE_OP_READY h m" "ts_sent s = ts_sent sa" for h m s
  proof -
    obtain l reply where l: "fst (deliver env' (pe_xd q) w' m sb) = [reply]" "says e l" "in_transit TBV_NATIVE_WIRE_OP_READY_ACK l reply"
      using deliver_ready(1) [OF atb lane [OF h(1)] an h(2) st'] by blast
    then show ?thesis
      using linked_request [of s "ts_sent sa" "[]" ?n] h(3) ids by (auto simp: rep_def receive_Cons says_def)
  qed
  have gr': "granting ?env" using gr by simp
  have sa1: "sa1 = tbv_native_control_work ?env a sa" using run by (auto simp: run_against_def Let_def)
  have "\<exists>h m. says d h \<and> in_transit TBV_NATIVE_WIRE_OP_READY h m \<and> ts_sent sa1 = ts_sent sa @ [(xd_addr (pe_xd p), m)]
    \<and> flags sa1 = flags sa \<and> rail_at a p (d\<lparr>dg_state := TBV_PATH_TUNNEL_ENABLED, dg_remote_path := dg_remote_transmit_path d,
           dg_remote_ready := True, dg_ready_sent := True\<rparr>) sa1
    \<and> (ts_register_enabled sa \<longrightarrow> published_at a sa1)"
    unfolding sa1 by (rule second_run [where rep = rep, OF ata nat(1) gr' rt en st]) (fact ready)
  then obtain h m where r: "says d h" "in_transit TBV_NATIVE_WIRE_OP_READY h m" "ts_sent sa1 = ts_sent sa @ [(xd_addr (pe_xd p), m)]"
    "rail_at a p (d\<lparr>dg_state := TBV_PATH_TUNNEL_ENABLED, dg_remote_path := dg_remote_transmit_path d,
       dg_remote_ready := True, dg_ready_sent := True\<rparr>) sa1" "ts_register_enabled sa \<longrightarrow> published_at a sa1" "flags sa1 = flags sa" by blast
  have sb1: "sb1 = snd (deliver env' (pe_xd q) w' m sb)"
    using run r(3) by (auto simp: run_against_def Let_def receive_Cons)
  note rd = deliver_ready [OF atb lane [OF r(1)] an r(2) st']
  show "rail_at a p (d\<lparr>dg_state := TBV_PATH_TUNNEL_ENABLED, dg_remote_path := dg_remote_transmit_path d,
      dg_remote_ready := True, dg_ready_sent := True\<rparr>) sa1" by (rule r(4))
  show "published_at a sa1" if "ts_register_enabled sa" using that r(5) by simp
  show "rail_at b q (e\<lparr>dg_remote_ready := True, dg_ready_sent := True\<rparr>) sb1" using rd(2) sb1 by simp
  show "published_at b sb1" if "ts_register_enabled sb" using that rd(4) sb1 by simp
  show "flags sa1 = flags sa" by (rule r(6))
  show "flags sb1 = flags sb" using rd(3) sb1 by (simp add: globals_iff)
qed

text \<open>
  A rail that is connected to the rail of the other end: it is ready for data, and its tunnel leads to
  the path \<open>remote\<close> of the other end. It has been offered for publication when devices are registered.
\<close>

definition connected :: "nat \<Rightarrow> int \<Rightarrow> tbv_state \<Rightarrow> bool" where
  "connected a remote state \<longleftrightarrow> tbv_native_control_rail_data_ready a state
     \<and> (\<exists>peer r. locate a state = Some (peer, r) \<and> p_remote_transmit_path (ra_path r) = remote
          \<and> (ts_register_enabled state \<longrightarrow> handled r))"

lemma connectedI:
  assumes "rail_at a p d state" and "pe_backend p = TBV_BACKEND_NATIVE" and "ready_digest d"
    and "ts_register_enabled state \<Longrightarrow> published_at a state"
  shows "connected a (dg_remote_path d) state"
proof -
  obtain peer r where l: "locate a state = Some (peer, r)" "bare peer = p" "digest_of r = d"
    using rail_at_locate [OF assms(1)] by blast
  have "pe_backend peer = TBV_BACKEND_NATIVE" using l(2) assms(2) by (auto simp: bare_def)
  moreover have "p_remote_transmit_path (ra_path r) = dg_remote_path d" using l(3) by (auto simp: digest_of_def)
  moreover have "ts_register_enabled state \<longrightarrow> handled r" using assms(4) l(1) by (auto simp: published_at_def view_def)
  ultimately show ?thesis
    using l(1,3) assms(3) data_ready_digest [of peer r] by (simp add: connected_def tbv_native_control_rail_data_ready_def)
qed

text \<open>A rail with started rings that has been queued for negotiation and has heard nothing yet.\<close>

definition negotiable :: "tbv_state \<Rightarrow> tbv_peer \<Rightarrow> tbv_rail \<Rightarrow> bool" where
  "negotiable state peer rail \<longleftrightarrow> pe_backend peer = TBV_BACKEND_NATIVE
     \<and> ts_negotiate_native state \<and> ts_enable_tunnels state
     \<and> ra_path_state rail = TBV_PATH_RING_STARTED \<and> p_remote_transmit_path (ra_path rail) < 0
     \<and> 0 \<le> p_local_transmit_path (ra_path rail) \<and> p_local_transmit_path (ra_path rail) < 2147483648
     \<and> ra_native_work_state rail \<and> \<not> ra_native_work_stop rail \<and> \<not> ra_removing rail
     \<and> \<not> ra_native_negotiated rail \<and> \<not> ra_native_ready_sent rail \<and> \<not> ra_native_remote_ready rail"

lemma negotiable_waiting:
  assumes "topo_ok state" and "locate a state = Some (peer, rail)" and "negotiable state peer rail"
  shows "waiting a (bare peer) (digest_of rail) state"
  using assms by (simp add: waiting_def negotiable_def rail_at_def view_def digest_of_def bare_def)

text \<open>
  C2: The handshake connects two ends. Let each end have a rail whose rings are started and that is
  queued for negotiation, with the same rail number and any reachable topology around it, and
  let the fabric carry messages between the two connections and both controllers grant what is asked.
  After one run of the work at the first end and then one at the second end, with every message built,
  carried, parsed and handled as bytes by the code of the two ends, both rails are ready for data, each has its
  tunnel to the transmit path of the other, and each has been offered for publication if its end registers devices.
\<close>

theorem handshake_completes:
  assumes "topo_reachable sa" and "locate a sa = Some (p, r)" and "negotiable sa p r"
    and "topo_reachable sb" and "locate b sb = Some (q, x)" and "negotiable sb q x"
    and "ra_rail_id r = ra_rail_id x"
    and "w AND NOT (push_bit 63 1) = k_route (ra_key r)" and "w' AND NOT (push_bit 63 1) = k_route (ra_key x)"
    and "granting env" and "answering env" and "granting env'" and "answering env'"
    and "run_against env w a sa env' (pe_xd q) w' sb = (sa1, sb1)"
    and "run_against env' w' b sb1 env (pe_xd p) w sa1 = (sb2, sa2)"
  shows "connected a (p_local_transmit_path (ra_path x)) sa2
    \<and> connected b (p_local_transmit_path (ra_path r)) sb2"
proof -
  let ?d = "digest_of r" and ?e = "digest_of x" and ?p = "bare p" and ?q = "bare q"
  have wa: "waiting a ?p ?d sa" and wb: "waiting b ?q ?e sb"
    using negotiable_waiting topo_reachable_ok assms(1-6) by blast+
  have dx: "dg_rail_id ?d = dg_rail_id ?e" "w AND NOT (push_bit 63 1) = dg_route ?d" "w' AND NOT (push_bit 63 1) = dg_route ?e"
    "dg_local_path ?d = p_local_transmit_path (ra_path r)" "dg_local_path ?e = p_local_transmit_path (ra_path x)"
    using assms(7-9) by (simp_all add: digest_of_def)
  have xd: "pe_xd ?q = pe_xd q" "pe_xd ?p = pe_xd p" by (simp_all add: bare_def)
  let ?d1 = "?d\<lparr>dg_negotiated := True, dg_remote_transmit_path := dg_local_path ?e,
    dg_state := TBV_PATH_TUNNEL_ENABLED, dg_remote_path := dg_local_path ?e\<rparr>"
  let ?e1 = "?e\<lparr>dg_negotiated := True, dg_remote_transmit_path := dg_local_path ?d, dg_remote_ready := True\<rparr>"
  have "run_against env w a sa env' (pe_xd ?q) w' sb = (sa1, sb1)" using assms(14) xd by simp
  note f = first_run_against [OF wa wb dx(1) assms(10,13) dx(2,3) this]
  note A = wa [unfolded waiting_def] and B = wb [unfolded waiting_def]
  have run2: "run_against env' w' b sb1 env (pe_xd ?p) w sa1 = (sb2, sa2)" using assms(15) xd by simp
  have nat: "pe_backend ?p = TBV_BACKEND_NATIVE" "pe_backend ?q = TBV_BACKEND_NATIVE" using A B by simp_all
  have st: "dg_state ?e1 = TBV_PATH_RING_STARTED" "dg_remote_path ?e1 < 0" "dg_negotiated ?e1" "0 \<le> dg_remote_transmit_path ?e1"
    "dg_work_state ?e1" "\<not> dg_stop ?e1" "\<not> dg_removing ?e1" "\<not> dg_ready_sent ?e1" "dg_rail_id ?e1 = dg_rail_id ?d1"
    "w' AND NOT (push_bit 63 1) = dg_route ?e1" "w AND NOT (push_bit 63 1) = dg_route ?d1" "ts_enable_tunnels sb1"
    using A B dx(1-3) f(4) by (simp_all add: flags_def)
  have st': "dg_state ?d1 = TBV_PATH_TUNNEL_ENABLED" "\<not> dg_removing ?d1" using A by simp_all
  note s = second_run_against [OF f(3) f(1) st(9) nat(2,1) assms(12,11) st(12,10,11,1-8) st' run2]
  let ?d2 = "?d1\<lparr>dg_remote_ready := True, dg_ready_sent := True\<rparr>"
  let ?e2 = "?e1\<lparr>dg_state := TBV_PATH_TUNNEL_ENABLED, dg_remote_path := dg_remote_transmit_path ?e1,
    dg_remote_ready := True, dg_ready_sent := True\<rparr>"
  have rd: "ready_digest ?d2" "ready_digest ?e2" by (simp_all add: ready_digest_def)
  show ?thesis
  proof
    have "connected a (dg_remote_path ?d2) sa2"
      by (rule connectedI [OF s(3) nat(1) rd(1)]) (use s(4,6) in \<open>simp add: flags_def\<close>)
    then show "connected a (p_local_transmit_path (ra_path x)) sa2" using dx(5) by simp
    have "connected b (dg_remote_path ?e2) sb2"
      by (rule connectedI [OF s(1) nat(2) rd(2)]) (use s(2,5) in \<open>simp add: flags_def\<close>)
    then show "connected b (p_local_transmit_path (ra_path r)) sb2" using dx(4) by simp
  qed
qed

theorem handshake_completes_witness:
  "\<exists>sa1 sb1 sb2 sa2. run_against silent_env 1 31 (demo_end 9) silent_env (demo_xd 5) 9223372036854775809 (demo_end 8) = (sa1, sb1)
     \<and> run_against silent_env 9223372036854775809 31 sb1 silent_env (demo_xd 5) 1 sa1 = (sb2, sa2)
     \<and> connected 31 8 sa2 \<and> connected 31 9 sb2"
proof -
  have l: "\<exists>p r. locate 31 (demo_end n) = Some (p, r) \<and> negotiable (demo_end n) p r \<and> pe_xd p = demo_xd 5
      \<and> ra_rail_id r = 1 \<and> k_route (ra_key r) = 1 \<and> p_local_transmit_path (ra_path r) = n"
    if "0 \<le> n" "n < 2147483648" for n
    using that by (simp add: demo_end_def demo_topology_def negotiable_def rings_started_def queue_rail_def pub_eval)
  obtain p r where a: "locate 31 (demo_end 9) = Some (p, r)" "negotiable (demo_end 9) p r" "pe_xd p = demo_xd 5"
    "ra_rail_id r = 1" "k_route (ra_key r) = 1" "p_local_transmit_path (ra_path r) = 9" using l [of 9] by auto
  obtain q x where b: "locate 31 (demo_end 8) = Some (q, x)" "negotiable (demo_end 8) q x" "pe_xd q = demo_xd 5"
    "ra_rail_id x = 1" "k_route (ra_key x) = 1" "p_local_transmit_path (ra_path x) = 8" using l [of 8] by auto
  obtain sa1 sb1 where r1: "run_against silent_env 1 31 (demo_end 9) silent_env (demo_xd 5) 9223372036854775809 (demo_end 8) = (sa1, sb1)"
    by fastforce
  obtain sb2 sa2 where r2: "run_against silent_env 9223372036854775809 31 sb1 silent_env (demo_xd 5) 1 sa1 = (sb2, sa2)" by fastforce
  have env: "granting silent_env" "answering silent_env" by (simp_all add: granting_def answering_def silent_env_def)
  have rt: "(1 :: u64) AND NOT (push_bit 63 1) = k_route (ra_key r)" "(9223372036854775809 :: u64) AND NOT (push_bit 63 1) = k_route (ra_key x)"
    using a(5) b(5) by simp_all
  have "ra_rail_id r = ra_rail_id x" using a(4) b(4) by simp
  from handshake_completes [OF demo_end_reachable a(1,2) demo_end_reachable b(1,2) this rt env env] r1 r2 a(3,6) b(3,6)
  show ?thesis by auto
qed

end
