(* ===== verification/Control_Faults.thy ===== *)
theory Control_Faults
  imports Handshake
begin

text \<open>
  Where the control plane goes wrong: an answer for the wrong rail in \<^verbatim>\<open>native_control.c\<close>, and rails
  that a source-blind end cannot tell apart although \<^verbatim>\<open>peer.c\<close> admits them.
\<close>

text \<open>The acknowledgement of the rail numbered 0, as the bytes of an answer, and an end whose requests get it.\<close>

definition stray_ack :: "u8 list res" where
  "stray_ack = ctl_message \<lparr>h_capabilities = 3, h_rail_id = 0, h_route = 1, h_tx_hop = 1, h_rx_hop = 1, h_transmit_path = 8,
     h_tx_ring_size = 64, h_rx_ring_size = 64, h_path_flags = 1\<rparr> TBV_NATIVE_WIRE_OP_HELLO_ACK 0 1 1"

definition stray_env :: ctl_env where
  "stray_env = silent_env\<lparr>ce_request := \<lambda>xd m state. (map_sum id (carried 1) stray_ack, state)\<rparr>"

text \<open>
  An example of an acknowledgement of another rail that ends a negotiation. Unlike READY, HELLO does not check
  which rail the answer is about: with the answer for the sibling rail (a late one, the sequence
  has two bits) the exchange reports success and marks the sibling; the rail itself is not negotiated,
  the work stops with \<open>ENOTCONN\<close>, and no retry is scheduled although only one of five attempts was made.
\<close>

theorem stray_ack_stops_rail:
  "fst (tbv_native_control_exchange_once stray_env 31 (demo_end 9)) = Inr ()
   \<and> map (\<lambda>(peer, r). (ra_addr r, ra_native_negotiated r, ra_native_last_error r, ra_native_attempts r, ra_work r))
        (pairs (tbv_native_control_work stray_env 31 (demo_end 9)))
      = [(31, False, Some ENOTCONN, 1, False), (30, True, None, 0, False)]"
proof -
  let ?h = "\<lparr>h_capabilities = 3, h_rail_id = 0, h_route = 1, h_tx_hop = 1, h_rx_hop = 1, h_transmit_path = 8,
     h_tx_ring_size = 64, h_rx_ring_size = 64, h_path_flags = 1\<rparr> :: tbv_native_wire_hello"
  obtain b where b: "ctl_message ?h 2 0 1 1 = Inr b" using ctl_message_ok [OF valid_ops(2)] by blast
  have parse: "tbv_native_wire_parse_hello (Some (response_buffer (carried 1 b)))
      = Inr (?h, \<lparr>i_op = 2, i_flags = 0, i_xdomain_sequence = 1, i_seq = 0, i_route = 1\<rparr>)"
    using carried_response [OF b] carried_codec [OF b, of 1] by simp
  have msg: "\<exists>m. ctl_message h 1 seq route s = Inr m" for h seq route s
    using ctl_message_ok [OF valid_ops(1)] by metis
  have tr: "\<exists>ms. ctl_transaction stray_env peer rail 1 state
      = (Inr (?h, \<lparr>i_op = 2, i_flags = 0, i_xdomain_sequence = 1, i_seq = 0, i_route = 1\<rparr>), state\<lparr>ts_sent := ms\<rparr>)" for peer rail state
    using msg [of "tbv_native_control_fill_hello state peer rail" "ra_rail_id rail" "k_route (ra_key rail)" "tbv_native_control_sequence rail"] parse b
    by (auto simp: ctl_transaction_def request_and_wait_def stray_env_def stray_ack_def Let_def tbv_native_control_fill_hello_def)
  obtain ms where tr': "ctl_transaction stray_env peer rail 1 state
      = (Inr (?h, \<lparr>i_op = 2, i_flags = 0, i_xdomain_sequence = 1, i_seq = 0, i_route = 1\<rparr>), state\<lparr>ts_sent := ms peer rail state\<rparr>)"
    for peer rail state using tr by metis
  show ?thesis
    by (simp add: tr' demo_end_def demo_topology_def rings_started_def queue_rail_def pub_eval
        tbv_native_control_work_def work_out_def work_body_def work_hello_def work_tunnel_def set_last_error_def error_of_def
        tbv_native_control_exchange_once_def tbv_native_control_apply_ack_def tbv_native_control_apply_remote_def
        ctl_find_def tbv_native_control_peer_matches_source_def learn_remote_def)
qed

text \<open>
  A source-blind end (the kernel does not pass the source of a packet) with two hosts on the same route
  of two controllers: the first host offers its first lane, the second host its second lane.
\<close>

definition two_lanes :: tbv_state where
  "two_lanes =
     snd (tbv_peer_add_rail (demo_rail_env 31) 11 (Rail_key 1 0 0 257) 1
       (snd (tbv_peer_add_rail (demo_rail_env 30) 10 (Rail_key 1 0 0 1) 0
         (snd (tbv_peer_get_or_create (Some 11) TBV_BACKEND_NATIVE (demo_xd 6)
           (snd (tbv_peer_get_or_create (Some 10) TBV_BACKEND_NATIVE (demo_xd 5) (empty_state False))))))))"

lemma two_lanes_reachable: "topo_reachable two_lanes"
proof -
  let ?s0 = "snd (tbv_peer_get_or_create (Some 10) TBV_BACKEND_NATIVE (demo_xd 5) (empty_state False))"
  let ?s1 = "snd (tbv_peer_get_or_create (Some 11) TBV_BACKEND_NATIVE (demo_xd 6) ?s0)"
  let ?s2 = "snd (tbv_peer_add_rail (demo_rail_env 30) 10 (Rail_key 1 0 0 1) 0 ?s1)"
  have "topo_reachable (empty_state False)" by (rule topo_init) (simp add: empty_state_def)
  then have "topo_reachable ?s0" by (rule topo_create) (simp add: empty_state_def)
  then have "topo_reachable ?s1" by (rule topo_create) (simp add: topo_eval)
  then have "topo_reachable ?s2"
    by (rule topo_add [where b = 30]) (auto simp: topo_eval Let_def split: if_splits)
  then show ?thesis
    unfolding two_lanes_def
    by (rule topo_add [where b = 31]) (auto simp: topo_eval Let_def split: if_splits)
qed

text \<open>
  In the source-blind mode a message can reach the rail of another host. The check that keeps rails
  apart when they are added compares whole keys, but a message is matched by route and rail number, and each peer
  numbers its rails from 0: in this reachable topology a HELLO of the second host for its rail marks the
  rail of the first host as negotiated and leaves its own rail alone. With the source known it reaches its own rail.
\<close>

theorem legacy_rails_confused:
  "topo_reachable two_lanes
   \<and> (let info = \<lparr>i_op = 1, i_flags = 0, i_xdomain_sequence = 0, i_seq = 0, i_route = 1\<rparr>;
          hello = \<lparr>h_capabilities = 3, h_rail_id = 0, h_route = 1, h_tx_hop = 1, h_rx_hop = 1, h_transmit_path = 8,
                   h_tx_ring_size = 64, h_rx_ring_size = 64, h_path_flags = 1\<rparr>;
          negotiated = (\<lambda>state. map (\<lambda>(peer, r). (xd_addr (pe_xd peer), ra_rail_id r, ra_native_negotiated r)) (pairs state))
      in negotiated (snd (snd (handle_hello silent_env None info hello two_lanes))) = [(5, 0, True), (6, 0, False)]
       \<and> negotiated (snd (snd (handle_hello silent_env (Some (demo_xd 6)) info hello two_lanes))) = [(5, 0, False), (6, 0, True)])"
proof
  show "topo_reachable two_lanes" by (rule two_lanes_reachable)
  show "let info = \<lparr>i_op = 1, i_flags = 0, i_xdomain_sequence = 0, i_seq = 0, i_route = 1\<rparr>;
          hello = \<lparr>h_capabilities = 3, h_rail_id = 0, h_route = 1, h_tx_hop = 1, h_rx_hop = 1, h_transmit_path = 8,
                   h_tx_ring_size = 64, h_rx_ring_size = 64, h_path_flags = 1\<rparr>;
          negotiated = (\<lambda>state. map (\<lambda>(peer, r). (xd_addr (pe_xd peer), ra_rail_id r, ra_native_negotiated r)) (pairs state))
      in negotiated (snd (snd (handle_hello silent_env None info hello two_lanes))) = [(5, 0, True), (6, 0, False)]
       \<and> negotiated (snd (snd (handle_hello silent_env (Some (demo_xd 6)) info hello two_lanes))) = [(5, 0, False), (6, 0, True)]"
    by (simp add: two_lanes_def pub_eval handle_hello_def tbv_native_control_snapshot_def ctl_find_def
        tbv_native_control_peer_matches_source_def tbv_native_control_apply_remote_def learn_remote_def
        tbv_native_control_kick_matching_rail_def addressed_def schedule_work_def tbv_native_control_can_kick_rail_def
        case_prod_unfold)
qed

end
