(* ===== verification/Service.thy ===== *)
theory Service
  imports Control_Laws
begin

text \<open>
  Thunderbolt services, \<^verbatim>\<open>src/kernel/service.c\<close>: the advertised property directories, the start and the stop
  of the service layer with their unwinding, the probe and the removal of a service with everything
  a failed probe undoes, and the work that enables and publishes Apple rails.

  The start of the packet service of \<^verbatim>\<open>tbnet_minimal.c\<close> is an answer, and that it runs is a flag; so are the
  answers of the kernel. Probes that the registration of the driver triggers are steps of their own. \<open>ss_log\<close> records what is taken from and given back to the kernel.
\<close>

section \<open>State\<close>

record tb_property_dir =
  pd_uuid :: "u8 list"
  pd_properties :: "(string \<times> u32) list"

datatype svc_resource = Dir string | Advert string | Service_driver

datatype svc_event = Take svc_resource | Give svc_resource

record svc_state =
  ss_state :: tbv_state
  ss_native_dirs :: "tb_property_dir ptr list"
  ss_native_dir_count :: u32
  ss_apple_dir :: "tb_property_dir ptr"
  ss_apple_rail_work :: bool
  ss_service_state :: bool
  ss_handlers :: ctl_handlers
  ss_minimal :: bool
  ss_log :: "svc_event list"

record svc_env =
  sv_create_dir :: "string \<Rightarrow> bool"
  sv_add_immediate :: "string \<Rightarrow> string \<Rightarrow> unit res"
  sv_register_dir :: "string \<Rightarrow> unit res"
  sv_register_driver :: "unit res"
  sv_start_minimal :: "unit res"
  sv_xdomain :: bool
  sv_register_handler :: "unit res"
  sv_binding :: bool
  sv_peer :: "nat ptr"
  sv_rail :: rail_env
  sv_life :: life_env
  sv_post :: "nat \<Rightarrow> unit res"
  sv_stop :: stop_env
  sv_disable :: "unit res"
  sv_pub :: pub_env
  sv_tx :: tx_env
  sv_alloc_in_hopid :: "int \<Rightarrow> int res"
  sv_enable_paths :: "unit res"

record tbv_service_config =
  sc_native_prtcstns :: u32
  sc_apple_prtcstns :: u32
  sc_allocate_rings :: bool
  sc_start_rings :: bool
  sc_negotiate_native :: bool
  sc_enable_tunnels :: bool

definition svc_emit :: "svc_event list \<Rightarrow> svc_state \<Rightarrow> svc_state" where
  "svc_emit ev s = s\<lparr>ss_log := ss_log s @ ev\<rparr>"

definition on_state :: "(tbv_state \<Rightarrow> tbv_state) \<Rightarrow> svc_state \<Rightarrow> svc_state" where
  "on_state f s = s\<lparr>ss_state := f (ss_state s)\<rparr>"

section \<open>Property directories\<close>

abbreviation (input) TBV_NATIVE_PRTCID :: u32 where "TBV_NATIVE_PRTCID \<equiv> 1"
abbreviation (input) TBV_NATIVE_PRTCVERS :: u32 where "TBV_NATIVE_PRTCVERS \<equiv> 1"
abbreviation (input) TBV_NATIVE_PRTCREVS :: u32 where "TBV_NATIVE_PRTCREVS \<equiv> 0"
abbreviation (input) TBV_APPLE_PRTCID :: u32 where "TBV_APPLE_PRTCID \<equiv> 0xfa57"
abbreviation (input) TBV_APPLE_PRTCVERS :: u32 where "TBV_APPLE_PRTCVERS \<equiv> 1"
abbreviation (input) TBV_APPLE_PRTCREVS :: u32 where "TBV_APPLE_PRTCREVS \<equiv> 0"

definition tbv_native_service_uuid :: "u8 list" where
  "tbv_native_service_uuid =
     [0x7c, 0x2c, 0x8f, 0x1e, 0x5b, 0x4d, 0x4a, 0x01, 0x9f, 0x3a, 0x2b, 0x8e, 0x6d, 0x4c, 0x1a, 0x07]"

definition tbv_apple_service_uuid :: "u8 list" where
  "tbv_apple_service_uuid =
     [0x49, 0xbf, 0x22, 0x3e, 0xd4, 0xaa, 0x44, 0xd7, 0x87, 0x91, 0x50, 0x44, 0x5a, 0xc5, 0x2d, 0x5e]"

definition tbv_apple_ca_key :: string where
  "tbv_apple_ca_key = replicate 6 (CHR 0xff) @ ''CA''"

definition tbv_apple_ad_key :: string where
  "tbv_apple_ad_key = replicate 6 (CHR 0xff) @ ''AD''"

definition tbv_native_protocol_keys :: "string list" where
  "tbv_native_protocol_keys = [''tbverbs'', ''tbverb1'', ''tbverb2'', ''tbverb3'']"

definition tbv_native_protocol_key :: "nat \<Rightarrow> string ptr" where
  "tbv_native_protocol_key lane =
     (if lane \<ge> length tbv_native_protocol_keys then None else Some (tbv_native_protocol_keys ! lane))"

text \<open>The chain \<open>ret ?:\<close>: the first error ends the additions.\<close>

fun add_immediates ::
  "(string \<Rightarrow> unit res) \<Rightarrow> (string \<times> u32) list \<Rightarrow> tb_property_dir \<Rightarrow> tb_property_dir res" where
  "add_immediates add [] dir = Inr dir"
| "add_immediates add ((k, v) # ps) dir =
     (case add k of
        Inl e \<Rightarrow> Inl e
      | Inr _ \<Rightarrow> add_immediates add ps (dir\<lparr>pd_properties := pd_properties dir @ [(k, v)]\<rparr>))"

text \<open>\<open>slot\<close> names the directory for the ledger and for the answers.\<close>

definition tbv_service_create_dir_common ::
  "svc_env \<Rightarrow> string \<Rightarrow> u8 list \<Rightarrow> u32 \<Rightarrow> u32 \<Rightarrow> u32 \<Rightarrow> u32 \<Rightarrow> svc_state \<Rightarrow> tb_property_dir res \<times> svc_state" where
  "tbv_service_create_dir_common env slot uuid prtcid prtcvers prtcrevs prtcstns s =
     (if \<not> sv_create_dir env slot then (Inl ENOMEM, s)
      else case add_immediates (sv_add_immediate env slot)
                  [(''prtcid'', prtcid), (''prtcvers'', prtcvers), (''prtcrevs'', prtcrevs), (''prtcstns'', prtcstns)]
                  \<lparr>pd_uuid = uuid, pd_properties = []\<rparr> of
             Inl e \<Rightarrow> (Inl e, svc_emit [Take (Dir slot), Give (Dir slot)] s)
           | Inr dir \<Rightarrow> (Inr dir, svc_emit [Take (Dir slot)] s))"

definition tbv_service_create_native_dir :: "svc_env \<Rightarrow> string \<Rightarrow> svc_state \<Rightarrow> tb_property_dir res \<times> svc_state" where
  "tbv_service_create_native_dir env slot s =
     tbv_service_create_dir_common env slot tbv_native_service_uuid TBV_NATIVE_PRTCID TBV_NATIVE_PRTCVERS
       TBV_NATIVE_PRTCREVS 0 s"

definition tbv_service_create_apple_dir :: "svc_env \<Rightarrow> u32 \<Rightarrow> svc_state \<Rightarrow> tb_property_dir res \<times> svc_state" where
  "tbv_service_create_apple_dir env prtcstns s =
     (case tbv_service_create_dir_common env tbv_apple_ad_key tbv_apple_service_uuid TBV_APPLE_PRTCID
             TBV_APPLE_PRTCVERS TBV_APPLE_PRTCREVS prtcstns s of
        (Inl e, s) \<Rightarrow> (Inl e, s)
      | (Inr dir, s) \<Rightarrow>
          (case add_immediates (sv_add_immediate env tbv_apple_ad_key) [(tbv_apple_ca_key, 1)] dir of
             Inl e \<Rightarrow> (Inl e, svc_emit [Give (Dir tbv_apple_ad_key)] s)
           | Inr dir \<Rightarrow> (Inr dir, s)))"

definition tbv_config_native_lane_count :: "tbv_state \<Rightarrow> u32" where
  "tbv_config_native_lane_count state =
     (if cfg_lanes_auto (rc_requested (ts_cfg state)) then min 2 (of_nat TBV_NATIVE_MAX_LANES)
      else cfg_lanes_max (rc_requested (ts_cfg state)))"

definition tbv_register_native_dir :: "svc_env \<Rightarrow> nat \<Rightarrow> u32 \<Rightarrow> svc_state \<Rightarrow> unit res \<times> svc_state" where
  "tbv_register_native_dir env lane prtcstns s =
     (case tbv_native_protocol_key lane of
        None \<Rightarrow> (Inl EINVAL, s)
      | Some k \<Rightarrow>
          (case tbv_service_create_dir_common env k tbv_native_service_uuid TBV_NATIVE_PRTCID TBV_NATIVE_PRTCVERS
                  TBV_NATIVE_PRTCREVS prtcstns s of
             (Inl e, s) \<Rightarrow> (Inl e, s\<lparr>ss_native_dirs := (ss_native_dirs s)[lane := None]\<rparr>)
           | (Inr dir, s) \<Rightarrow>
               (case sv_register_dir env k of
                  Inl e \<Rightarrow> (Inl e, svc_emit [Give (Dir k)] (s\<lparr>ss_native_dirs := (ss_native_dirs s)[lane := None]\<rparr>))
                | Inr _ \<Rightarrow> (Inr (), svc_emit [Take (Advert k)]
                               (s\<lparr>ss_native_dirs := (ss_native_dirs s)[lane := Some dir]\<rparr>)))))"

definition unregister_native_dir :: "nat \<Rightarrow> svc_state \<Rightarrow> svc_state" where
  "unregister_native_dir lane s =
     (if ss_native_dirs s ! lane = None then s
      else case tbv_native_protocol_key lane of
             None \<Rightarrow> s
           | Some k \<Rightarrow> svc_emit [Give (Advert k), Give (Dir k)]
                         (s\<lparr>ss_native_dirs := (ss_native_dirs s)[lane := None]\<rparr>))"

definition tbv_unregister_native_dirs :: "svc_state \<Rightarrow> svc_state" where
  "tbv_unregister_native_dirs s =
     (fold unregister_native_dir [0..<TBV_NATIVE_MAX_LANES] s)\<lparr>ss_native_dir_count := 0\<rparr>"

fun register_native_lanes :: "svc_env \<Rightarrow> u32 \<Rightarrow> nat list \<Rightarrow> svc_state \<Rightarrow> unit res \<times> svc_state" where
  "register_native_lanes env prtcstns [] s = (Inr (), s)"
| "register_native_lanes env prtcstns (lane # lanes) s =
     (case tbv_register_native_dir env lane prtcstns s of
        (Inl e, s) \<Rightarrow> (Inl e, tbv_unregister_native_dirs s)
      | (Inr _, s) \<Rightarrow>
          register_native_lanes env prtcstns lanes (s\<lparr>ss_native_dir_count := of_nat lane + 1\<rparr>))"

definition tbv_register_native_dirs :: "svc_env \<Rightarrow> u32 \<Rightarrow> svc_state \<Rightarrow> unit res \<times> svc_state" where
  "tbv_register_native_dirs env prtcstns s =
     (let state = ss_state s; count = tbv_config_native_lane_count state
      in if \<not> rc_native_enabled (ts_cfg state) \<or> \<not> ts_native_data state then (Inr (), s)
         else if count = 0 \<or> unat count > TBV_NATIVE_MAX_LANES then (Inl EINVAL, s)
         else register_native_lanes env prtcstns [0..<unat count] s)"

definition tbv_register_apple_dir :: "svc_env \<Rightarrow> u32 \<Rightarrow> svc_state \<Rightarrow> unit res \<times> svc_state" where
  "tbv_register_apple_dir env prtcstns s =
     (case tbv_service_create_apple_dir env prtcstns s of
        (Inl e, s) \<Rightarrow> (Inl e, s\<lparr>ss_apple_dir := None\<rparr>)
      | (Inr dir, s) \<Rightarrow>
          (case sv_register_dir env tbv_apple_ad_key of
             Inl e \<Rightarrow> (Inl e, svc_emit [Give (Dir tbv_apple_ad_key)] (s\<lparr>ss_apple_dir := None\<rparr>))
           | Inr _ \<Rightarrow> (Inr (), svc_emit [Take (Advert tbv_apple_ad_key)] (s\<lparr>ss_apple_dir := Some dir\<rparr>))))"

definition unregister_apple_dir :: "svc_state \<Rightarrow> svc_state" where
  "unregister_apple_dir s =
     (if ss_apple_dir s = None then s
      else svc_emit [Give (Advert tbv_apple_ad_key), Give (Dir tbv_apple_ad_key)] (s\<lparr>ss_apple_dir := None\<rparr>))"

section \<open>Apple rails\<close>

definition tbv_service_tbnet_path_ready :: "pub_env \<Rightarrow> tbv_state \<Rightarrow> tb_xdomain ptr \<Rightarrow> bool" where
  "tbv_service_tbnet_path_ready env state xd =
     (if rc_tbnet_identity (ts_cfg state) \<noteq> TBV_TBNET_ID_MINIMAL_PACKET then True
      else tbv_tbnet_minimal_path_ready env (case xd of None \<Rightarrow> None | Some x \<Rightarrow> xd_remote_uuid x))"

definition tbv_service_should_defer_apple_rail :: "pub_env \<Rightarrow> tbv_state \<Rightarrow> tb_xdomain ptr \<Rightarrow> bool" where
  "tbv_service_should_defer_apple_rail env state xd \<longleftrightarrow>
     ts_apple_rails_wait_tbnet state \<and> \<not> tbv_service_tbnet_path_ready env state xd"

definition pending_apple :: "tbv_peer \<Rightarrow> tbv_rail \<Rightarrow> bool" where
  "pending_apple peer rail \<longleftrightarrow> pe_backend peer = TBV_BACKEND_APPLE
     \<and> \<not> ra_removing rail \<and> ra_ibdev rail = None \<and> \<not> ra_ibdev_register_failed rail
     \<and> \<not> ra_ibdev_register_deferred rail \<and> tbv_rail_apple_service_ready rail"

definition tbv_service_has_pending_apple_rail_locked :: "tbv_state \<Rightarrow> bool" where
  "tbv_service_has_pending_apple_rail_locked state = list_ex (\<lambda>(peer, rail). pending_apple peer rail) (pairs state)"

definition tbv_service_refresh_apple_rails_pending :: "tbv_state \<Rightarrow> tbv_state" where
  "tbv_service_refresh_apple_rails_pending state =
     state\<lparr>ts_apple_rails_pending := tbv_service_has_pending_apple_rail_locked state\<rparr>"

definition tbv_service_queue_apple_rail_work :: "svc_state \<Rightarrow> svc_state" where
  "tbv_service_queue_apple_rail_work s =
     (if \<not> ts_enable_tunnels (ss_state s) then s else s\<lparr>ss_apple_rail_work := True\<rparr>)"

definition tbv_service_enable_apple_rail_tunnel :: "svc_env \<Rightarrow> nat \<Rightarrow> tbv_state \<Rightarrow> unit res \<times> tbv_state" where
  "tbv_service_enable_apple_rail_tunnel env a state =
     (case locate a state of
        None \<Rightarrow> (Inl ENODEV, state)
      | Some (peer, rail) \<Rightarrow>
          if ra_removing rail then (Inl ENODEV, state)
          else if ra_path_state rail = TBV_PATH_TUNNEL_ENABLED then (Inr (), state)
          else if ra_path_state rail = TBV_PATH_RING_STARTED
          then (case tbv_path_enable_tunnel (sv_tx env) (sv_alloc_in_hopid env) (sv_enable_paths env)
                       (pc_receive_path (p_cfg (ra_path rail))) (ra_hw rail) of
                  (ret, hw) \<Rightarrow> (ret, on_rail a (\<lambda>rail. rail\<lparr>ra_hw := hw\<rparr>) state))
          else (Inl ENOTCONN, state))"

definition tbv_service_publish_apple_rail :: "svc_env \<Rightarrow> nat \<Rightarrow> tbv_state \<Rightarrow> unit res \<times> tbv_state" where
  "tbv_service_publish_apple_rail env a state =
     (case tbv_service_enable_apple_rail_tunnel env a state of
        (Inl e, state) \<Rightarrow> (Inl e, state)
      | (Inr _, state) \<Rightarrow> tbv_ibdev_rail_event (sv_pub env) a True state)"

definition tbv_service_next_pending_apple_rail :: "pub_env \<Rightarrow> tbv_state \<Rightarrow> nat option \<times> tbv_state" where
  "tbv_service_next_pending_apple_rail env state =
     (case next_rail (\<lambda>peer rail. pending_apple peer rail
              \<and> tbv_service_tbnet_path_ready env state (Some (pe_xd peer))) state of
        Some a \<Rightarrow> (Some a, on_rail a rail_get state)
      | None \<Rightarrow> (None, tbv_service_refresh_apple_rails_pending state))"

text \<open>The loop of the work. \<open>True\<close> asks for a retry.\<close>

partial_function (option) apple_rail_loop :: "svc_env \<Rightarrow> tbv_state \<Rightarrow> (bool \<times> tbv_state) option" where
  "apple_rail_loop env state =
     (case tbv_service_next_pending_apple_rail (sv_pub env) state of
        (None, state) \<Rightarrow> Some (False, state)
      | (Some a, state) \<Rightarrow>
          (case tbv_service_publish_apple_rail env a state of
             (Inl e, state) \<Rightarrow>
               (let state = tbv_rail_put a (tbv_service_refresh_apple_rails_pending state)
                in Some (ts_apple_rails_pending state, state))
           | (Inr _, state) \<Rightarrow> apple_rail_loop env (tbv_rail_put a state)))"

definition tbv_service_apple_rail_work :: "svc_env \<Rightarrow> svc_state \<Rightarrow> svc_state option" where
  "tbv_service_apple_rail_work env s =
     (let s = s\<lparr>ss_apple_rail_work := False\<rparr>; state = ss_state s
      in if \<not> ts_services_registered state \<or> \<not> ts_enable_tunnels state then Some s
         else if \<not> tbv_service_tbnet_path_ready (sv_pub env) state None then Some s
         else map_option (\<lambda>(retry, state).
                let s = s\<lparr>ss_state := state\<rparr> in if retry then tbv_service_queue_apple_rail_work s else s)
              (apple_rail_loop env state))"

definition tbv_services_tbnet_identity_ready :: "svc_env \<Rightarrow> svc_state \<Rightarrow> svc_state" where
  "tbv_services_tbnet_identity_ready env s =
     (if \<not> ss_service_state s then s
      else if \<not> ts_services_registered (ss_state s) \<or> \<not> ts_apple_rails_wait_tbnet (ss_state s) then s
      else if \<not> tbv_service_tbnet_path_ready (sv_pub env) (ss_state s) None then s
      else tbv_service_queue_apple_rail_work s)"

section \<open>Probe and removal\<close>

record tb_service_id =
  si_protocol_id :: u32
  si_driver_data :: u64

record tb_service =
  sb_prtcid :: u32
  sb_parent :: tb_xdomain

record tbv_service_binding =
  bi_peer :: nat
  bi_rail :: nat

definition tbv_service_backend_from_id :: "tb_service_id \<Rightarrow> tbv_backend_type" where
  "tbv_service_backend_from_id sid =
     (if si_protocol_id sid = TBV_APPLE_PRTCID then TBV_BACKEND_APPLE else TBV_BACKEND_NATIVE)"

definition tbv_service_backend_enabled :: "tbv_state \<Rightarrow> tbv_backend_type \<Rightarrow> bool" where
  "tbv_service_backend_enabled state backend =
     (if backend = TBV_BACKEND_APPLE then rc_apple_enabled (ts_cfg state) \<and> ts_apple_data state
      else rc_native_enabled (ts_cfg state) \<and> ts_native_data state)"

definition tbv_service_backend_data_enabled :: "tbv_state \<Rightarrow> tbv_backend_type \<Rightarrow> bool" where
  "tbv_service_backend_data_enabled state backend =
     (if backend = TBV_BACKEND_APPLE then ts_apple_data state else ts_native_data state)"

definition tbv_service_apple_xdomain_allowed :: "tb_xdomain ptr \<Rightarrow> bool" where
  "tbv_service_apple_xdomain_allowed xd =
     (let vendor = (case xd of None \<Rightarrow> None | Some x \<Rightarrow> xd_vendor_name x)
      in if vendor = Some ''Apple Inc.'' then True else if vendor = None then True else False)"

definition tbv_service_native_lane :: "tb_service_id \<Rightarrow> u32" where
  "tbv_service_native_lane sid = ucast (si_driver_data sid)"

definition tbv_service_path_id :: "tb_service \<Rightarrow> tb_service_id \<Rightarrow> tbv_backend_type \<Rightarrow> u32" where
  "tbv_service_path_id svc sid backend =
     (if backend \<noteq> TBV_BACKEND_NATIVE then sb_prtcid svc
      else let lane = tbv_service_native_lane sid
           in if lane = 0 then sb_prtcid svc else push_bit 8 (sb_prtcid svc) OR lane)"

text \<open>\<open>tbv_peer_remove_rail\<close> when no other thread holds a reference: the wait ends at once.\<close>

definition tbv_peer_remove_rail :: "svc_env \<Rightarrow> nat \<Rightarrow> tbv_state \<Rightarrow> tbv_state" where
  "tbv_peer_remove_rail env a state =
     snd (remove_rail_finish (sv_life env) (sv_stop env) (sv_disable env) a (remove_rail_begin a state))"

definition probe_unwind :: "svc_env \<Rightarrow> tbv_backend_type \<Rightarrow> nat \<Rightarrow> nat \<Rightarrow> tbv_state \<Rightarrow> tbv_state" where
  "probe_unwind env backend peer a state =
     (let state = tbv_peer_remove_rail env a state;
          state = (if backend = TBV_BACKEND_APPLE then tbv_service_refresh_apple_rails_pending state else state)
      in tbv_peer_put (Some peer) state)"

text \<open>What happens to a rail that has been added: rings are allocated and started. \<open>on_hw\<close> runs an operation on its path.\<close>

definition on_hw :: "(path_hw \<Rightarrow> unit res \<times> path_hw) \<Rightarrow> nat \<Rightarrow> tbv_state \<Rightarrow> unit res \<times> tbv_state" where
  "on_hw f a state =
     (case locate a state of
        None \<Rightarrow> (Inl EINVAL, state)
      | Some (peer, rail) \<Rightarrow>
          (case f (ra_hw rail) of (ret, hw) \<Rightarrow> (ret, on_rail a (\<lambda>rail. rail\<lparr>ra_hw := hw\<rparr>) state)))"

definition has_rings :: "nat \<Rightarrow> tbv_state \<Rightarrow> bool" where
  "has_rings a state = (case locate a state of None \<Rightarrow> False
     | Some (peer, rail) \<Rightarrow> hw_tx_ring (ra_hw rail) \<noteq> None \<and> hw_rx_ring (ra_hw rail) \<noteq> None)"

definition probe_rings :: "svc_env \<Rightarrow> tbv_backend_type \<Rightarrow> nat \<Rightarrow> tbv_state \<Rightarrow> unit res \<times> tbv_state" where
  "probe_rings env backend a state =
     (if ts_allocate_rings state \<and> tbv_service_backend_data_enabled state backend
      then (case on_hw (tbv_path_alloc_rings (sv_life env) (- 1)) a state of
              (Inl e, state) \<Rightarrow> (Inl e, state)
            | (Inr _, state) \<Rightarrow>
                if \<not> has_rings a state then (Inl EIO, state)
                else if ts_start_rings state then on_hw (tbv_path_start_rings (sv_post env)) a state
                else (Inr (), state))
      else (Inr (), state))"

text \<open>The last step of a probe hands the rail to its worker.\<close>

definition probe_handover :: "svc_env \<Rightarrow> tbv_backend_type \<Rightarrow> tb_xdomain \<Rightarrow> nat \<Rightarrow> svc_state \<Rightarrow> svc_state" where
  "probe_handover env backend xd a s =
     (let state = ss_state s
      in if ts_allocate_rings state \<and> tbv_service_backend_data_enabled state backend \<and> ts_start_rings state
         then (if backend = TBV_BACKEND_NATIVE \<and> ts_negotiate_native state
               then on_state (tbv_native_control_queue_rail a) s
               else if backend = TBV_BACKEND_APPLE \<and> ts_enable_tunnels state
               then (let s = on_state (\<lambda>state. state\<lparr>ts_apple_rails_pending := True\<rparr>) s
                     in if tbv_service_should_defer_apple_rail (sv_pub env) (ss_state s) (Some xd) then s
                        else tbv_service_queue_apple_rail_work s)
               else s)
         else s)"

definition tbv_service_probe ::
  "svc_env \<Rightarrow> tb_service \<Rightarrow> tb_service_id \<Rightarrow> svc_state \<Rightarrow> tbv_service_binding res \<times> svc_state" where
  "tbv_service_probe env svc sid s =
     (let backend = tbv_service_backend_from_id sid; xd = sb_parent svc; native_lane = tbv_service_native_lane sid;
          state = ss_state s
      in if \<not> ss_service_state s then (Inl ENODEV, s)
         else if \<not> tbv_service_backend_enabled state backend then (Inl ENODEV, s)
         else if backend = TBV_BACKEND_APPLE \<and> \<not> tbv_service_apple_xdomain_allowed (Some xd) then (Inl ENODEV, s)
         else if backend = TBV_BACKEND_NATIVE \<and> native_lane \<ge> tbv_config_native_lane_count state then (Inl ENODEV, s)
         else if \<not> sv_binding env then (Inl ENOMEM, s)
         else case tbv_peer_get_or_create (sv_peer env) backend xd state of
                (Inl e, state) \<Rightarrow> (Inl e, s\<lparr>ss_state := state\<rparr>)
              | (Inr peer, state) \<Rightarrow>
                  (case tbv_peer_add_rail (sv_rail env) peer
                          (tbv_rail_key_init (xd_route xd) (xd_link xd) (xd_depth xd) (tbv_service_path_id svc sid backend))
                          native_lane state of
                     (Inl e, state) \<Rightarrow> (Inl e, s\<lparr>ss_state := tbv_peer_put (Some peer) state\<rparr>)
                   | (Inr a, state) \<Rightarrow>
                       (let state = on_rail a (\<lambda>rail. rail\<lparr>ra_link_speed := xd_link_speed xd,
                                                          ra_link_width := xd_link_width xd\<rparr>) state
                        in case probe_rings env backend a state of
                             (Inl e, state) \<Rightarrow> (Inl e, s\<lparr>ss_state := probe_unwind env backend peer a state\<rparr>)
                           | (Inr _, state) \<Rightarrow>
                               (Inr \<lparr>bi_peer = peer, bi_rail = a\<rparr>, probe_handover env backend xd a (s\<lparr>ss_state := state\<rparr>)))))"

text \<open>\<open>binding\<close> is what \<open>tb_service_get_drvdata\<close> gives.\<close>

definition tbv_service_remove :: "svc_env \<Rightarrow> tbv_service_binding ptr \<Rightarrow> svc_state \<Rightarrow> svc_state" where
  "tbv_service_remove env binding s =
     (case binding of
        None \<Rightarrow> s
      | Some b \<Rightarrow>
          if \<not> ss_service_state s then s
          else case find_peer (bi_peer b) (ss_state s) of
                 None \<Rightarrow> s
               | Some peer \<Rightarrow> on_state (probe_unwind env (pe_backend peer) (bi_peer b) (bi_rail b)) s)"

section \<open>Start and stop\<close>

text \<open>The stops of the error path of \<open>tbv_services_start\<close>, each falling through to the next.\<close>

definition svc_control_stop :: "svc_env \<Rightarrow> svc_state \<Rightarrow> svc_state" where
  "svc_control_stop env s =
     (case tbv_native_control_stop (sv_xdomain env) (ss_handlers s) (Some (ss_state s)) of
        (ch, state) \<Rightarrow> s\<lparr>ss_handlers := ch, ss_state := (case state of None \<Rightarrow> ss_state s | Some st \<Rightarrow> st)\<rparr>)"

definition err_clear :: "svc_env \<Rightarrow> svc_state \<Rightarrow> svc_state" where
  "err_clear env s = (svc_control_stop env s)\<lparr>ss_service_state := False\<rparr>"

definition err_stop_minimal :: "svc_env \<Rightarrow> svc_state \<Rightarrow> svc_state" where
  "err_stop_minimal env s = err_clear env (s\<lparr>ss_minimal := False\<rparr>)"

definition err_unregister_native :: "svc_env \<Rightarrow> svc_state \<Rightarrow> svc_state" where
  "err_unregister_native env s = err_stop_minimal env (tbv_unregister_native_dirs s)"

definition err_unregister_apple :: "svc_env \<Rightarrow> svc_state \<Rightarrow> svc_state" where
  "err_unregister_apple env s = err_unregister_native env (unregister_apple_dir s)"

definition start_minimal :: "svc_env \<Rightarrow> svc_state \<Rightarrow> unit res \<times> svc_state" where
  "start_minimal env s =
     (if rc_tbnet_identity (ts_cfg (ss_state s)) = TBV_TBNET_ID_MINIMAL_PACKET
      then (sv_start_minimal env, if is_ok (sv_start_minimal env) then s\<lparr>ss_minimal := True\<rparr> else s)
      else (Inr (), s))"

definition start_control :: "svc_env \<Rightarrow> svc_state \<Rightarrow> unit res \<times> svc_state" where
  "start_control env s =
     (case tbv_native_control_start (sv_xdomain env) (sv_register_handler env) (ss_handlers s) (ss_state s) of
        (ret, ch, state) \<Rightarrow> (ret, s\<lparr>ss_handlers := ch, ss_state := state\<rparr>))"

definition start_apple_dir :: "svc_env \<Rightarrow> u32 \<Rightarrow> svc_state \<Rightarrow> unit res \<times> svc_state" where
  "start_apple_dir env prtcstns s =
     (if rc_apple_enabled (ts_cfg (ss_state s)) \<and> ts_apple_data (ss_state s)
      then tbv_register_apple_dir env prtcstns s else (Inr (), s))"

definition services_configure :: "tbv_service_config \<Rightarrow> svc_state \<Rightarrow> svc_state" where
  "services_configure cfg s =
     (on_state (\<lambda>state. state\<lparr>ts_allocate_rings := sc_allocate_rings cfg, ts_start_rings := sc_start_rings cfg,
        ts_negotiate_native := sc_negotiate_native cfg, ts_enable_tunnels := sc_enable_tunnels cfg,
        ts_apple_rails_wait_tbnet := (rc_tbnet_identity (ts_cfg state) = TBV_TBNET_ID_MINIMAL_PACKET),
        ts_apple_rails_pending := False\<rparr>) s)\<lparr>ss_apple_rail_work := False\<rparr>"

definition services_started :: "svc_env \<Rightarrow> svc_state \<Rightarrow> svc_state" where
  "services_started env s =
     (let s = svc_emit [Take Service_driver] (on_state (\<lambda>state. state\<lparr>ts_services_registered := True\<rparr>) s);
          s = (if ts_apple_rails_pending (ss_state s) then tbv_service_queue_apple_rail_work s else s)
      in tbv_services_tbnet_identity_ready env s)"

definition tbv_services_start ::
  "svc_env \<Rightarrow> bool \<Rightarrow> tbv_service_config \<Rightarrow> svc_state \<Rightarrow> unit res \<times> svc_state" where
  "tbv_services_start env bind_services cfg s =
     (let s = services_configure cfg s
      in if \<not> bind_services then (Inr (), s)
         else case start_minimal env (s\<lparr>ss_service_state := True\<rparr>) of
                (Inl e, s) \<Rightarrow> (Inl e, err_clear env s)
              | (Inr _, s) \<Rightarrow>
         (case start_control env s of
            (Inl e, s) \<Rightarrow> (Inl e, err_stop_minimal env s)
          | (Inr _, s) \<Rightarrow>
         (case tbv_register_native_dirs env (sc_native_prtcstns cfg) s of
            (Inl e, s) \<Rightarrow> (Inl e, err_stop_minimal env s)
          | (Inr _, s) \<Rightarrow>
         (case start_apple_dir env (sc_apple_prtcstns cfg) s of
            (Inl e, s) \<Rightarrow> (Inl e, err_unregister_native env s)
          | (Inr _, s) \<Rightarrow>
         (case sv_register_driver env of
            Inl e \<Rightarrow> (Inl e, err_unregister_apple env s)
          | Inr _ \<Rightarrow> (Inr (), services_started env s))))))"

text \<open>
  Unregistering the driver removes the bound services first: \<open>bindings\<close> are those of the kernel.
\<close>

definition tbv_services_stop :: "svc_env \<Rightarrow> tbv_service_binding list \<Rightarrow> svc_state \<Rightarrow> svc_state" where
  "tbv_services_stop env bindings s =
     (let s = (if ts_services_registered (ss_state s)
               then svc_emit [Give Service_driver] (on_state (\<lambda>state. state\<lparr>ts_services_registered := False\<rparr>)
                      (fold (\<lambda>b. tbv_service_remove env (Some b)) bindings s))
               else s);
          s = on_state (\<lambda>state. state\<lparr>ts_apple_rails_pending := False\<rparr>) (s\<lparr>ss_apple_rail_work := False\<rparr>);
          s = svc_control_stop env (s\<lparr>ss_minimal := False\<rparr>)
      in (tbv_unregister_native_dirs (unregister_apple_dir s))\<lparr>ss_service_state := False\<rparr>)"

section \<open>A concrete kernel\<close>

definition demo_svc_env :: svc_env where
  "demo_svc_env = \<lparr>sv_create_dir = (\<lambda>k. True), sv_add_immediate = (\<lambda>k p. Inr ()), sv_register_dir = (\<lambda>k. Inr ()),
     sv_register_driver = Inr (), sv_start_minimal = Inr (), sv_xdomain = False, sv_register_handler = Inr (),
     sv_binding = True, sv_peer = Some 10, sv_rail = demo_rail_env 30, sv_life = demo_life_env,
     sv_post = (\<lambda>i. Inr ()), sv_stop = demo_stop_env, sv_disable = Inr (), sv_pub = demo_pub_env,
     sv_tx = \<lparr>e_native_tx_max_inflight = 32, e_ring_tx = (\<lambda>packet. Inr ())\<rparr>,
     sv_alloc_in_hopid = Inr, sv_enable_paths = Inr ()\<rparr>"

definition demo_svc :: "tbv_state \<Rightarrow> svc_state" where
  "demo_svc state = \<lparr>ss_state = state, ss_native_dirs = [None, None, None, None], ss_native_dir_count = 0,
     ss_apple_dir = None, ss_apple_rail_work = False, ss_service_state = True,
     ss_handlers = \<lparr>ch_legacy_registered = False, ch_xdomain_registered = False\<rparr>, ss_minimal = False, ss_log = []\<rparr>"

end
