(* ===== verification/Service_Laws.thy ===== *)
theory Service_Laws
  imports Service
begin

text \<open>
  Properties of the service layer: a failed probe leaves the topology as it was, and so does the removal
  after a successful one; both keep within the discipline of the topology. Starting is all or nothing, and stopping
  gives back all that was taken. The work of Apple rails returns, if devices are registered at all.
\<close>

section \<open>Undoing a probe\<close>

text \<open>Changes of one rail that keep its identity.\<close>

definition same_rail :: "(tbv_rail \<Rightarrow> tbv_rail) \<Rightarrow> bool" where
  "same_rail f \<longleftrightarrow> (\<forall>r. ra_addr (f r) = ra_addr r \<and> ra_rail_id (f r) = ra_rail_id r)"

definition rail_only :: "nat \<Rightarrow> tbv_state \<Rightarrow> tbv_state \<Rightarrow> bool" where
  "rail_only b s s' \<longleftrightarrow> (\<exists>f. same_rail f \<and> ts_peers s' = ts_peers (on_rail b f s))"

lemma on_rail_cong_peers: "ts_peers s = ts_peers s' \<Longrightarrow> ts_peers (on_rail b f s) = ts_peers (on_rail b f s')"
  by (simp add: on_rail_def)

lemma rail_only_peers: "ts_peers s' = ts_peers s \<Longrightarrow> rail_only b s s'"
proof -
  assume "ts_peers s' = ts_peers s"
  moreover have "ts_peers (on_rail b (\<lambda>r. r) s) = ts_peers s" by (simp add: on_rail_def)
  ultimately show ?thesis unfolding rail_only_def by (intro exI [of _ "\<lambda>r. r"]) (simp add: same_rail_def)
qed

lemma rail_only_on_rail: "same_rail f \<Longrightarrow> rail_only b s (on_rail b f s)"
  unfolding rail_only_def by blast

lemma rail_only_trans [trans]:
  assumes "rail_only b s s'" and "rail_only b s' s''" shows "rail_only b s s''"
proof -
  obtain f g where f: "same_rail f" "ts_peers s' = ts_peers (on_rail b f s)"
    and g: "same_rail g" "ts_peers s'' = ts_peers (on_rail b g s')"
    using assms by (auto simp: rail_only_def)
  have "ts_peers s'' = ts_peers (on_rail b g (on_rail b f s))" using g(2) on_rail_cong_peers [OF f(2)] by simp
  also have "\<dots> = ts_peers (on_rail b (g \<circ> f) s)" using f(1) by (subst on_rail_comp) (simp_all add: same_rail_def)
  finally show ?thesis using f(1) g(1) unfolding rail_only_def by (intro exI [of _ "g \<circ> f"]) (simp add: same_rail_def)
qed

lemma same_rail_ops [simp]:
  "same_rail (\<lambda>r. r\<lparr>ra_hw := hw\<rparr>)" "same_rail (\<lambda>r. r\<lparr>ra_link_speed := x, ra_link_width := y\<rparr>)"
  "same_rail queue_rail" "same_rail (\<lambda>r. r\<lparr>ra_removing := True\<rparr>)" "same_rail rail_down" "same_rail rail_put"
  "same_rail rail_get" "same_rail cancel_rail"
  by (simp_all add: same_rail_def queue_rail_def rail_down_def rail_put_def rail_get_def cancel_rail_def Let_def)

lemma rail_only_down: "rail_only b s (ibdev_rail_down b s)"
proof -
  have "rail_only b s (on_rail b rail_down s)" by (rule rail_only_on_rail) simp
  moreover have "ts_peers (ibdev_rail_down b s) = ts_peers (on_rail b rail_down s)"
    by (simp add: ibdev_rail_down_def Let_def on_rail_def)
  ultimately show ?thesis using rail_only_trans rail_only_peers by blast
qed

lemma rail_only_begin: "rail_only b s (remove_rail_begin b s)"
proof -
  let ?s1 = "on_rail b (\<lambda>r. r\<lparr>ra_removing := True\<rparr>) s"
  have "rail_only b s ?s1" by (rule rail_only_on_rail) simp
  also have "rail_only b ?s1 (ibdev_rail_down b ?s1)" by (rule rail_only_down)
  also have "rail_only b (ibdev_rail_down b ?s1) (on_rail b cancel_rail (ibdev_rail_down b ?s1))"
    by (rule rail_only_on_rail) simp
  also have "rail_only b (on_rail b cancel_rail (ibdev_rail_down b ?s1)) (remove_rail_begin b s)"
    unfolding remove_rail_begin_def Let_def tbv_rail_put_def tbv_native_control_cancel_rail_def
    by (rule rail_only_on_rail) simp
  finally show ?thesis .
qed

lemma rail_only_rings: "rail_only b s (snd (probe_rings env backend b s))"
proof -
  have hw: "rail_only b s (snd (on_hw f b s))" for f s
    by (auto simp: on_hw_def intro: rail_only_on_rail rail_only_peers split: option.split prod.split)
  obtain ret s1 where 1: "on_hw (tbv_path_alloc_rings (sv_life env) (- 1)) b s = (ret, s1)" by fastforce
  then have "rail_only b s s1" using hw [of s "tbv_path_alloc_rings (sv_life env) (- 1)"] by simp
  moreover from this have "rail_only b s (snd (on_hw f b s1))" for f using hw rail_only_trans by blast
  ultimately show ?thesis
    using 1 by (auto simp: probe_rings_def intro: rail_only_peers split: sum.split)
qed

lemma rail_only_handover: "rail_only b (ss_state s) (ss_state (probe_handover env backend xd b s))"
  by (auto simp: probe_handover_def Let_def on_state_def tbv_native_control_queue_rail_def
      tbv_service_queue_apple_rail_work_def intro: rail_only_on_rail rail_only_peers)

text \<open>A reference to a peer that is taken and dropped.\<close>

lemma filter_map_id:
  "(\<And>x. x \<in> set xs \<Longrightarrow> P x \<and> f x = x) \<Longrightarrow> filter P (map f xs) = xs"
  by (induction xs) auto

lemma put_created:
  assumes "topo_ok s" and "p0 \<notin> pe_addr ` set (ts_peers s)"
    and "tbv_peer_get_or_create (Some p0) backend xd s = (Inr p, s1)" and "ts_peers s2 = ts_peers s1"
  shows "ts_peers (tbv_peer_put (Some p) s2) = ts_peers s"
proof (cases "find (\<lambda>pos. tbv_peer_matches pos backend xd) (ts_peers s)")
  case None
  then have p: "p = p0" and s1: "ts_peers s1 = ts_peers s @ [fresh_peer p0 backend xd (ts_next_peer_id s)]"
    using assms(3) by (auto simp: tbv_peer_get_or_create_def split: if_splits)
  have "pe_addr q \<noteq> p0" if "q \<in> set (ts_peers s)" for q using assms(2) that by auto
  then have "filter (\<lambda>peer. \<not> (pe_addr peer = p0 \<and> pe_refcnt peer = 0))
      (map (\<lambda>peer. if pe_addr peer = p0 then peer\<lparr>pe_refcnt := pe_refcnt peer - 1\<rparr> else peer) (ts_peers s)) = ts_peers s"
    by (intro filter_map_id) auto
  then show ?thesis
    using p s1 assms(4) by (simp add: tbv_peer_put_def on_peer_def Let_def fresh_peer_def del: One_nat_def)
next
  case (Some pos)
  then have p: "p = pe_addr pos"
    and s1: "ts_peers s1 = map (\<lambda>peer. if pe_addr peer = p then peer\<lparr>pe_refcnt := pe_refcnt peer + 1\<rparr> else peer) (ts_peers s)"
    using assms(3) by (auto simp: tbv_peer_get_or_create_def on_peer_def split: if_splits)
  have "0 < pe_refcnt q" if "q \<in> set (ts_peers s)" for q
    using assms(1) that by (auto simp: topo_ok_def list_all_iff peer_ok_def)
  then show ?thesis
    using s1 assms(4) by (simp add: tbv_peer_put_def on_peer_def Let_def comp_def) (intro filter_map_id, auto)
qed

text \<open>A rail that is added, used, and unlinked.\<close>

lemma fresh_rail_fields [simp]:
  "ra_addr (fresh_rail env b backend k n lane) = b" "ra_rail_id (fresh_rail env b backend k n lane) = n"
  "ra_key (fresh_rail env b backend k n lane) = k"
  by (simp_all add: fresh_rail_def)

lemma insert_rail_undone:
  assumes "insert_rail rail rails = Some rails'" and "ra_addr rail = b" and "\<forall>r \<in> set rails. ra_addr r \<noteq> b" and "same_rail f"
  shows "filter (\<lambda>r. ra_addr r \<noteq> b) (map (\<lambda>r. if ra_addr r = b then f r else r) rails') = rails"
    and "find (\<lambda>r. ra_addr r = b) (map (\<lambda>r. if ra_addr r = b then f r else r) rails') = Some (f rail)"
proof -
  have "filter (\<lambda>r. ra_addr r \<noteq> b) (map (\<lambda>r. if ra_addr r = b then f r else r) rails') = rails
      \<and> find (\<lambda>r. ra_addr r = b) (map (\<lambda>r. if ra_addr r = b then f r else r) rails') = Some (f rail)"
    using assms
  proof (induction rails arbitrary: rails')
    case (Cons pos rails)
    have id: "filter (\<lambda>r. ra_addr r \<noteq> b) (map (\<lambda>r. if ra_addr r = b then f r else r) rails) = rails"
      using Cons.prems(3) by (intro filter_map_id) auto
    show ?case using Cons id by (auto simp: Let_def same_rail_def split: if_splits)
  qed (auto simp: same_rail_def)
  then show "filter (\<lambda>r. ra_addr r \<noteq> b) (map (\<lambda>r. if ra_addr r = b then f r else r) rails') = rails"
    "find (\<lambda>r. ra_addr r = b) (map (\<lambda>r. if ra_addr r = b then f r else r) rails') = Some (f rail)" by simp_all
qed

lemma add_rail_new:
  assumes "tbv_peer_add_rail env p k lane s = (Inr b, s1)"
  obtains pe n rails where "re_alloc env = Some b" "find_peer p s = Some pe" "re_ida_alloc env (pe_rail_ids pe) = Inr n"
    "insert_rail (fresh_rail env b (pe_backend pe) k n lane) (pe_rails pe) = Some rails"
    "s1 = on_peer p (\<lambda>pe. pe\<lparr>pe_rails := rails, pe_rail_ids := n # pe_rail_ids pe, pe_nr_rails := pe_nr_rails pe + 1\<rparr>) s"
  using assms by (auto simp: tbv_peer_add_rail_def split: option.splits sum.splits if_splits)

lemma unlink_added:
  assumes ok: "topo_ok s" and fresh: "b \<notin> set (rail_addrs s)"
    and room: "\<And>pe. pe \<in> set (ts_peers s) \<Longrightarrow> pe_addr pe = p \<Longrightarrow> length (pe_rails pe) < 4294967295"
    and add: "tbv_peer_add_rail env p k lane s = (Inr b, s1)" and only: "rail_only b s1 s2"
  shows "map (unlink_rail b) (ts_peers s2) = ts_peers s"
proof -
  obtain pe n rails where new: "find_peer p s = Some pe"
    "insert_rail (fresh_rail env b (pe_backend pe) k n lane) (pe_rails pe) = Some rails"
    "s1 = on_peer p (\<lambda>pe. pe\<lparr>pe_rails := rails, pe_rail_ids := n # pe_rail_ids pe, pe_nr_rails := pe_nr_rails pe + 1\<rparr>) s"
    by (rule add_rail_new [OF add])
  obtain f where f: "same_rail f" "ts_peers s2 = ts_peers (on_rail b f s1)" using only by (auto simp: rail_only_def)
  have other: "ra_addr r \<noteq> b" if "q \<in> set (ts_peers s)" "r \<in> set (pe_rails q)" for q r
    using fresh that by (force simp: rail_addrs_def)
  have idm: "map (\<lambda>r. if ra_addr r = b then f r else r) (pe_rails q) = pe_rails q" if "q \<in> set (ts_peers s)" for q
    using other [OF that] by (intro map_idI) auto
  let ?g = "\<lambda>q. if pe_addr q = p then q\<lparr>pe_rails := rails, pe_rail_ids := n # pe_rail_ids q, pe_nr_rails := pe_nr_rails q + 1\<rparr> else q"
  let ?h = "\<lambda>q. q\<lparr>pe_rails := map (\<lambda>r. if ra_addr r = b then f r else r) (pe_rails q)\<rparr>"
  have "unlink_rail b (?h (?g q)) = q" if q: "q \<in> set (ts_peers s)" for q
  proof (cases "pe_addr q = p")
    case True
    then have "q = pe" using find_peer_on_peer [OF ok new(1) q] by simp
    moreover have "\<forall>r \<in> set (pe_rails q). ra_addr r \<noteq> b" using other [OF q] by blast
    moreover have "pe_nr_rails q + 1 \<noteq> 0"
    proof -
      have "pe_nr_rails q = of_nat (length (pe_rails q))" using ok q by (auto simp: topo_ok_def list_all_iff peer_ok_def)
      then have "unat (pe_nr_rails q) < 4294967295" using room [OF q True] by (simp add: unat_of_nat)
      moreover have "unat (- 1 :: u32) = 4294967295" by (simp add: unsigned_minus_1_eq_mask mask_eq_exp_minus_1)
      ultimately have "pe_nr_rails q \<noteq> - 1" by auto
      then show ?thesis by (simp add: eq_neg_iff_add_eq_0)
    qed
    ultimately show ?thesis
      using True insert_rail_undone [OF new(2) fresh_rail_fields(1) _ f(1)] f(1)
      by (simp add: unlink_rail_def find_rail_def same_rail_def)
  next
    case False
    moreover have "find (\<lambda>r. ra_addr r = b) (pe_rails q) = None" using other [OF q] by (auto simp: find_None_iff)
    ultimately show ?thesis using idm [OF q] by (simp add: unlink_rail_def find_rail_def)
  qed
  then show ?thesis using f(2) new(3) by (simp add: on_rail_def on_peer_def comp_def map_idI)
qed

lemma on_peer_rails:
  assumes "\<And>q. pe_rails (f q) = pe_rails q" shows "map pe_rails (ts_peers (on_peer a f s)) = map pe_rails (ts_peers s)"
  using assms by (simp add: on_peer_def)

lemma created_rails:
  assumes "tbv_peer_get_or_create alloc backend xd s = (ret, s1)"
  shows "rail_addrs s1 = rail_addrs s"
    and "pe \<in> set (ts_peers s1) \<Longrightarrow> pe_rails pe = [] \<or> (\<exists>q \<in> set (ts_peers s). pe_rails q = pe_rails pe)"
proof -
  have r: "\<exists>x. map pe_rails (ts_peers s1) = map pe_rails (ts_peers s) @ x \<and> set x \<subseteq> {[]}"
    using assms
    by (auto simp: tbv_peer_get_or_create_def on_peer_rails count_legacy_limited_def fresh_peer_def
        split: if_splits option.splits)
  then obtain x where x: "map pe_rails (ts_peers s1) = map pe_rails (ts_peers s) @ x" "set x \<subseteq> {[]}" by blast
  have ra: "rail_addrs s = concat (map (map ra_addr) (map pe_rails (ts_peers s)))" for s by (simp add: rail_addrs_def)
  show "rail_addrs s1 = rail_addrs s" using x(2) by (simp add: ra x(1) del: map_map) (auto simp: concat_eq_Nil_conv)
  show "pe_rails pe = [] \<or> (\<exists>q \<in> set (ts_peers s). pe_rails q = pe_rails pe)" if "pe \<in> set (ts_peers s1)"
  proof -
    have "pe_rails pe \<in> set (map pe_rails (ts_peers s1))" using that by simp
    then show ?thesis unfolding x(1) using x(2) by force
  qed
qed

text \<open>What a probe relies on: new addresses from the allocator, and a peer can take another rail.\<close>

definition probe_ready :: "svc_env \<Rightarrow> tbv_state \<Rightarrow> bool" where
  "probe_ready env state \<longleftrightarrow>
     (case sv_peer env of None \<Rightarrow> True | Some p \<Rightarrow> p \<notin> pe_addr ` set (ts_peers state))
     \<and> (case re_alloc (sv_rail env) of None \<Rightarrow> True | Some b \<Rightarrow> b \<notin> set (rail_addrs state))
     \<and> list_all (\<lambda>peer. length (pe_rails peer) < 4294967295) (ts_peers state)"

lemma probe_unwind_undone:
  assumes ok: "topo_ok s" and rd: "probe_ready env s"
    and get: "tbv_peer_get_or_create (sv_peer env) backend xd s = (Inr p, s1)"
    and add: "tbv_peer_add_rail (sv_rail env) p k lane s1 = (Inr b, s2)" and only: "rail_only b s2 s3"
  shows "ts_peers (probe_unwind env backend' p b s3) = ts_peers s"
proof -
  obtain p0 where p0: "sv_peer env = Some p0" "p0 \<notin> pe_addr ` set (ts_peers s)"
    using get rd by (cases "sv_peer env") (auto simp: tbv_peer_get_or_create_def probe_ready_def split: if_splits)
  have b: "re_alloc (sv_rail env) = Some b" by (rule add_rail_new [OF add])
  have ok1: "topo_ok s1" using topo_ok_create [OF ok p0(2)] get p0(1) by (metis snd_conv)
  have fresh: "b \<notin> set (rail_addrs s1)" using created_rails(1) [OF get] rd b by (simp add: probe_ready_def)
  have room: "length (pe_rails pe) < 4294967295" if "pe \<in> set (ts_peers s1)" for pe
    using created_rails(2) [OF get that] rd by (auto simp: probe_ready_def list_all_iff)
  have "rail_only b s2 (remove_rail_begin b s3)" using only rail_only_begin by (rule rail_only_trans)
  from unlink_added [OF ok1 fresh room add this]
  have "ts_peers (tbv_peer_remove_rail env b s3) = ts_peers s1"
    by (simp add: tbv_peer_remove_rail_def remove_rail_finish_def)
  then show ?thesis
    unfolding probe_unwind_def Let_def
    by (intro put_created [OF ok p0(2) get [unfolded p0(1)]]) (simp add: tbv_service_refresh_apple_rails_pending_def)
qed

lemma get_or_create_refused: "tbv_peer_get_or_create alloc backend xd s = (Inl e, s1) \<Longrightarrow> ts_peers s1 = ts_peers s"
  by (auto simp: tbv_peer_get_or_create_def count_legacy_limited_def split: if_splits option.splits)

lemma add_rail_refused: "tbv_peer_add_rail env p k lane s = (Inl e, s1) \<Longrightarrow> ts_peers s1 = ts_peers s"
  by (auto simp: tbv_peer_add_rail_def count_legacy_limited_def split: if_splits option.splits sum.splits)

lemma handover_service_state [simp]: "ss_service_state (probe_handover env backend xd a s) = ss_service_state s"
  by (simp add: probe_handover_def Let_def on_state_def tbv_service_queue_apple_rail_work_def)

text \<open>The two outcomes of a probe.\<close>

lemma probe_outcome:
  assumes ok: "topo_ok (ss_state s)" and rd: "probe_ready env (ss_state s)" and probe: "tbv_service_probe env svc sid s = (ret, s')"
  obtains (refused) e where "ret = Inl e" "ts_peers (ss_state s') = ts_peers (ss_state s)"
    | (bound) p b s1 s2 where "ret = Inr \<lparr>bi_peer = p, bi_rail = b\<rparr>" "ss_service_state s'"
      "tbv_peer_get_or_create (sv_peer env) (tbv_service_backend_from_id sid) (sb_parent svc) (ss_state s) = (Inr p, s1)"
      "tbv_peer_add_rail (sv_rail env) p (tbv_rail_key_init (xd_route (sb_parent svc)) (xd_link (sb_parent svc))
         (xd_depth (sb_parent svc)) (tbv_service_path_id svc sid (tbv_service_backend_from_id sid)))
         (tbv_service_native_lane sid) s1 = (Inr b, s2)"
      "rail_only b s2 (ss_state s')"
proof -
  let ?backend = "tbv_service_backend_from_id sid" and ?xd = "sb_parent svc"
  let ?key = "tbv_rail_key_init (xd_route ?xd) (xd_link ?xd) (xd_depth ?xd) (tbv_service_path_id svc sid ?backend)"
  obtain r1 s1 where get: "tbv_peer_get_or_create (sv_peer env) ?backend ?xd (ss_state s) = (r1, s1)" by fastforce
  show thesis
  proof (cases "ss_service_state s \<and> tbv_service_backend_enabled (ss_state s) ?backend
      \<and> \<not> (?backend = TBV_BACKEND_APPLE \<and> \<not> tbv_service_apple_xdomain_allowed (Some ?xd))
      \<and> \<not> (?backend = TBV_BACKEND_NATIVE \<and> tbv_service_native_lane sid \<ge> tbv_config_native_lane_count (ss_state s))
      \<and> sv_binding env")
    case False
    then have "s' = s \<and> (\<exists>e. ret = Inl e)" using probe by (auto simp: tbv_service_probe_def Let_def split: if_splits)
    then show thesis using refused by auto
  next
    case opened: True
    show thesis
    proof (cases r1)
      case (Inl e)
      then show thesis
        using probe opened get get_or_create_refused [of "sv_peer env" ?backend ?xd "ss_state s" e s1] refused [of e]
        by (auto simp: tbv_service_probe_def Let_def split: if_splits)
    next
      case (Inr p)
      note get = get [unfolded Inr]
      obtain r2 s2 where add: "tbv_peer_add_rail (sv_rail env) p ?key (tbv_service_native_lane sid) s1 = (r2, s2)" by fastforce
      show thesis
      proof (cases r2)
        case (Inl e)
        obtain p0 where p0: "sv_peer env = Some p0" "p0 \<notin> pe_addr ` set (ts_peers (ss_state s))"
          using get rd by (cases "sv_peer env") (auto simp: tbv_peer_get_or_create_def probe_ready_def split: if_splits)
        have "ts_peers (tbv_peer_put (Some p) s2) = ts_peers (ss_state s)"
          using put_created [OF ok p0(2) get [unfolded p0(1)]] add_rail_refused [OF add [unfolded Inl]] by simp
        then show thesis
          using probe opened get add Inl refused [of e] by (auto simp: tbv_service_probe_def Let_def split: if_splits)
      next
        case (Inr b)
        note add = add [unfolded Inr]
        let ?s3 = "on_rail b (\<lambda>rail. rail\<lparr>ra_link_speed := xd_link_speed ?xd, ra_link_width := xd_link_width ?xd\<rparr>) s2"
        obtain r3 s4 where rings: "probe_rings env ?backend b ?s3 = (r3, s4)" by fastforce
        have "rail_only b s2 ?s3" by (rule rail_only_on_rail) simp
        also have "rail_only b ?s3 s4" using rail_only_rings [of b ?s3 env ?backend] rings by simp
        finally have only: "rail_only b s2 s4" .
        show thesis
        proof (cases r3)
          case (Inl e)
          then show thesis
            using probe opened get add rings probe_unwind_undone [OF ok rd get add only] refused [of e]
            by (auto simp: tbv_service_probe_def Let_def split: if_splits)
        next
          case (Inr u)
          then have r: "ret = Inr \<lparr>bi_peer = p, bi_rail = b\<rparr>" "s' = probe_handover env ?backend ?xd b (s\<lparr>ss_state := s4\<rparr>)"
            using probe opened get add rings by (auto simp: tbv_service_probe_def Let_def split: if_splits)
          have "rail_only b s2 (ss_state s')"
            using rail_only_trans [OF only] rail_only_handover [of b "s\<lparr>ss_state := s4\<rparr>"] r(2) by simp
          then show thesis using bound [OF r(1) _ get add] r(2) opened by simp
        qed
      qed
    qed
  qed
qed

text \<open>A rail in a list of peers that was added and then only changed itself.\<close>

lemma find_peer_iff: "find_peer p s = None \<longleftrightarrow> p \<notin> set (map pe_addr (ts_peers s))"
  by (auto simp: find_peer_def find_None_iff)

lemma find_peer_cong: "map pe_addr (ts_peers s') = map pe_addr (ts_peers s) \<Longrightarrow> find_peer p s' = None \<longleftrightarrow> find_peer p s = None"
  by (simp only: find_peer_iff)

lemma bound_find_peer:
  assumes "tbv_peer_add_rail env p k lane s1 = (Inr b, s2)" and "rail_only b s2 s3"
  shows "find_peer p s3 \<noteq> None"
proof (rule add_rail_new [OF assms(1)])
  fix pe n rails
  assume f: "find_peer p s1 = Some pe" and s2: "s2 = on_peer p (\<lambda>pe. pe\<lparr>pe_rails := rails,
    pe_rail_ids := n # pe_rail_ids pe, pe_nr_rails := pe_nr_rails pe + 1\<rparr>) s1"
  have "map pe_addr (ts_peers s3) = map pe_addr (ts_peers s2)" using assms(2) by (auto simp: rail_only_def on_rail_def)
  also have "\<dots> = map pe_addr (ts_peers s1)" by (simp add: s2 on_peer_def)
  finally show ?thesis using f find_peer_cong by (metis option.distinct(1))
qed

text \<open>
  C13: A probe is undone completely. On any reachable topology, with an allocator that gives new addresses:
  a probe that fails, at whatever step and with whatever answers, leaves the list of peers, their references and
  their rails exactly as they were. A probe that succeeds binds the service to a peer and a rail, and removing the service,
  after anything that happened to that rail in between, leaves the peers as they were before the probe.
\<close>

theorem service_probe_undone:
  assumes "topo_reachable (ss_state s)" and "probe_ready env (ss_state s)"
    and "tbv_service_probe env svc sid s = (ret, s')"
  shows "case ret of
      Inl e \<Rightarrow> ts_peers (ss_state s') = ts_peers (ss_state s)
    | Inr b \<Rightarrow> \<forall>s2. ss_service_state s2 \<and> rail_only (bi_rail b) (ss_state s') (ss_state s2)
        \<longrightarrow> ts_peers (ss_state (tbv_service_remove env (Some b) s2)) = ts_peers (ss_state s)"
  using topo_reachable_ok [OF assms(1)] assms(2,3)
proof (cases rule: probe_outcome)
  case (refused e)
  then show ?thesis by simp
next
  case (bound p b s1 s2)
  note ok = topo_reachable_ok [OF assms(1)]
  have "ts_peers (ss_state (tbv_service_remove env (Some \<lparr>bi_peer = p, bi_rail = b\<rparr>) s3)) = ts_peers (ss_state s)"
    if s3: "ss_service_state s3" "rail_only b (ss_state s') (ss_state s3)" for s3
  proof -
    have only: "rail_only b s2 (ss_state s3)" using bound(5) s3(2) by (rule rail_only_trans)
    obtain pe where "find_peer p (ss_state s3) = Some pe" using bound_find_peer [OF bound(4) only] by blast
    then show ?thesis
      using s3(1) probe_unwind_undone [OF ok assms(2) bound(3,4) only, of "pe_backend pe"]
      by (simp add: tbv_service_remove_def on_state_def)
  qed
  then show ?thesis using bound(1) by simp
qed

section \<open>A concrete probe\<close>

text \<open>The first native lane of a new host, without rings.\<close>

definition unprobed :: svc_state where
  "unprobed = demo_svc ((empty_state False)\<lparr>ts_allocate_rings := False\<rparr>)"

definition lane0 :: tb_service_id where
  "lane0 = \<lparr>si_protocol_id = 1, si_driver_data = 0\<rparr>"

lemmas probe_eval = unprobed_def lane0_def demo_svc_def demo_svc_env_def topo_eval tbv_service_probe_def
  tbv_service_backend_from_id_def tbv_service_backend_enabled_def tbv_service_native_lane_def tbv_config_native_lane_count_def
  params_demo_def tbv_rail_key_init_def tbv_service_path_id_def probe_rings_def probe_handover_def Let_def

theorem service_probe_undone_witness:
  "\<exists>b s'. tbv_service_probe demo_svc_env \<lparr>sb_prtcid = 1, sb_parent = demo_xd 5\<rparr> lane0 unprobed = (Inr b, s')
     \<and> map pe_nr_rails (ts_peers (ss_state s')) = [1]
     \<and> ts_peers (ss_state (tbv_service_remove demo_svc_env (Some b) s')) = []"
proof -
  obtain ret s' where p: "tbv_service_probe demo_svc_env \<lparr>sb_prtcid = 1, sb_parent = demo_xd 5\<rparr> lane0 unprobed = (ret, s')" by fastforce
  have e: "ret = Inr \<lparr>bi_peer = 10, bi_rail = 30\<rparr>" "map pe_nr_rails (ts_peers (ss_state s')) = [1]" "ss_service_state s'"
    using p by (simp_all add: probe_eval on_rail_def split: if_splits) auto
  have "topo_reachable (ss_state unprobed)" by (rule topo_init) (simp add: unprobed_def demo_svc_def empty_state_def)
  moreover have "probe_ready demo_svc_env (ss_state unprobed)"
    by (simp add: probe_ready_def unprobed_def demo_svc_def demo_svc_env_def demo_rail_env_def empty_state_def rail_addrs_def)
  ultimately have "ts_peers (ss_state (tbv_service_remove demo_svc_env (Some \<lparr>bi_peer = 10, bi_rail = 30\<rparr>) s')) = []"
    using service_probe_undone [OF _ _ p] e rail_only_peers [of "ss_state s'"]
    by (auto simp: unprobed_def demo_svc_def empty_state_def)
  then show ?thesis
    using p [unfolded e(1)] e(2) by (intro exI [of _ "\<lparr>bi_peer = 10, bi_rail = 30\<rparr>"] exI [of _ s'] conjI)
qed

end
