(* ===== verification/Service_Start.thy ===== *)
theory Service_Start
  imports Service
begin

text \<open>
  Starting and stopping the service layer: all or nothing, with a ledger of what is taken from the kernel.
\<close>

section \<open>The ledger\<close>

text \<open>What is held after some events: giving back what is not held, or taking what is held, is an error.\<close>

fun account :: "svc_resource set \<Rightarrow> svc_event list \<Rightarrow> svc_resource set option" where
  "account H [] = Some H"
| "account H (Take r # ev) = (if r \<in> H then None else account (insert r H) ev)"
| "account H (Give r # ev) = (if r \<in> H then account (H - {r}) ev else None)"

lemma account_append: "account H (ev @ ev') = (case account H ev of None \<Rightarrow> None | Some H' \<Rightarrow> account H' ev')"
proof (induction ev arbitrary: H)
  case (Cons e ev)
  then show ?case by (cases e) auto
qed simp

definition lane_dirs :: "tb_property_dir ptr list \<Rightarrow> svc_resource set" where
  "lane_dirs dirs = {r. \<exists>lane < length dirs. dirs ! lane \<noteq> None
     \<and> (r = Dir (tbv_native_protocol_keys ! lane) \<or> r = Advert (tbv_native_protocol_keys ! lane))}"

definition apple_dirs :: "svc_state \<Rightarrow> svc_resource set" where
  "apple_dirs s = (if ss_apple_dir s = None then {} else {Dir tbv_apple_ad_key, Advert tbv_apple_ad_key})"

definition driver_held :: "svc_state \<Rightarrow> svc_resource set" where
  "driver_held s = (if ts_services_registered (ss_state s) then {Service_driver} else {})"

text \<open>The ledger is what the pointers of the state say, and the array of directories has its four places.\<close>

definition books_ok :: "svc_state \<Rightarrow> bool" where
  "books_ok s \<longleftrightarrow> length (ss_native_dirs s) = TBV_NATIVE_MAX_LANES
     \<and> account {} (ss_log s) = Some (lane_dirs (ss_native_dirs s) \<union> apple_dirs s \<union> driver_held s)"

lemma keys_distinct:
  "distinct tbv_native_protocol_keys" "length tbv_native_protocol_keys = 4" "tbv_apple_ad_key \<notin> set tbv_native_protocol_keys"
  by (simp_all add: tbv_native_protocol_keys_def tbv_apple_ad_key_def numeral_eq_Suc)

lemma key_of_lane: "lane < 4 \<Longrightarrow> tbv_native_protocol_key lane = Some (tbv_native_protocol_keys ! lane)"
  by (simp add: tbv_native_protocol_key_def keys_distinct)

lemma key_eq: "i < 4 \<Longrightarrow> j < 4 \<Longrightarrow> tbv_native_protocol_keys ! i = tbv_native_protocol_keys ! j \<longleftrightarrow> i = j"
  using keys_distinct(1,2) by (simp add: nth_eq_iff_index_eq)

lemma key_not_apple: "i < 4 \<Longrightarrow> tbv_native_protocol_keys ! i \<noteq> tbv_apple_ad_key"
  using keys_distinct(2,3) by (metis nth_mem)

lemma lane_dirs_update:
  assumes "lane < 4" and "length dirs = 4"
  shows "lane_dirs (dirs[lane := Some d])
      = insert (Dir (tbv_native_protocol_keys ! lane)) (insert (Advert (tbv_native_protocol_keys ! lane)) (lane_dirs dirs))"
    and "lane_dirs (dirs[lane := None])
      = lane_dirs dirs - {Dir (tbv_native_protocol_keys ! lane), Advert (tbv_native_protocol_keys ! lane)}"
    and "Dir (tbv_native_protocol_keys ! lane) \<in> lane_dirs dirs \<longleftrightarrow> dirs ! lane \<noteq> None"
    and "Advert (tbv_native_protocol_keys ! lane) \<in> lane_dirs dirs \<longleftrightarrow> dirs ! lane \<noteq> None"
  using assms by (auto simp: lane_dirs_def nth_list_update key_eq)

lemma lane_not_apple:
  assumes "length dirs = 4"
  shows "Dir tbv_apple_ad_key \<notin> lane_dirs dirs" "Advert tbv_apple_ad_key \<notin> lane_dirs dirs" "Service_driver \<notin> lane_dirs dirs"
  using assms by (auto simp: lane_dirs_def dest: key_not_apple [symmetric])

lemma lane_dirs_none [simp]: "lane_dirs (replicate n None) = {}"
  by (simp add: lane_dirs_def)

lemma lane_dirs_empty: "length dirs = 4 \<Longrightarrow> lane_dirs dirs = {} \<longleftrightarrow> dirs = replicate 4 None"
  by (auto simp: lane_dirs_def list_eq_iff_nth_eq)

lemma books_emit [simp]:
  "ss_state (svc_emit ev s) = ss_state s" "ss_native_dirs (svc_emit ev s) = ss_native_dirs s"
  "ss_apple_dir (svc_emit ev s) = ss_apple_dir s" "ss_log (svc_emit ev s) = ss_log s @ ev"
  "ss_handlers (svc_emit ev s) = ss_handlers s" "ss_minimal (svc_emit ev s) = ss_minimal s"
  "ss_service_state (svc_emit ev s) = ss_service_state s"
  by (simp_all add: svc_emit_def)

section \<open>Directories\<close>

text \<open>The parts of the state that the directories do not touch.\<close>

definition dir_frame :: "svc_state \<Rightarrow> tbv_state \<times> bool \<times> ctl_handlers \<times> bool" where
  "dir_frame s = (ss_state s, ss_service_state s, ss_handlers s, ss_minimal s)"

lemma register_native_dir_ok:
  assumes "books_ok s" and "lane < 4" and "ss_native_dirs s ! lane = None"
    and "tbv_register_native_dir env lane prtcstns s = (ret, s')"
  shows "books_ok s'" and "dir_frame s' = dir_frame s" and "ss_apple_dir s' = ss_apple_dir s"
    and "\<exists>d. ss_native_dirs s' = (ss_native_dirs s)[lane := if is_ok ret then Some d else None]"
proof -
  let ?k = "tbv_native_protocol_keys ! lane"
  have len: "length (ss_native_dirs s) = 4" using assms(1) by (simp add: books_ok_def)
  have free: "Dir ?k \<notin> lane_dirs (ss_native_dirs s) \<union> apple_dirs s \<union> driver_held s"
    "Advert ?k \<notin> lane_dirs (ss_native_dirs s) \<union> apple_dirs s \<union> driver_held s"
    using lane_dirs_update(3,4) [OF assms(2) len] assms(3) key_not_apple [OF assms(2)]
    by (auto simp: apple_dirs_def driver_held_def)
  have upd: "(ss_native_dirs s)[lane := None] = ss_native_dirs s" using assms(3) by (metis list_update_id)
  note defs = tbv_register_native_dir_def key_of_lane [OF assms(2)] tbv_service_create_dir_common_def
  show "books_ok s'"
    using assms(1,4) free lane_dirs_update(1) [OF assms(2) len]
    by (auto simp: defs books_ok_def account_append upd apple_dirs_def driver_held_def insert_commute
        split: if_splits sum.splits)
  show "dir_frame s' = dir_frame s" "ss_apple_dir s' = ss_apple_dir s"
    using assms(4) by (auto simp: defs dir_frame_def split: if_splits sum.splits)
  show "\<exists>d. ss_native_dirs s' = (ss_native_dirs s)[lane := if is_ok ret then Some d else None]"
    using assms(4) upd by (auto simp: defs is_ok_iff split: if_splits sum.splits)
qed

lemma unregister_native_dir_ok:
  assumes "books_ok s" and "lane < 4"
  shows "books_ok (unregister_native_dir lane s)" and "dir_frame (unregister_native_dir lane s) = dir_frame s"
    and "ss_apple_dir (unregister_native_dir lane s) = ss_apple_dir s"
    and "ss_native_dirs (unregister_native_dir lane s) = (ss_native_dirs s)[lane := None]"
proof -
  let ?k = "tbv_native_protocol_keys ! lane"
  have len: "length (ss_native_dirs s) = 4" using assms(1) by (simp add: books_ok_def)
  have out: "Dir ?k \<notin> apple_dirs s" "Advert ?k \<notin> apple_dirs s" "Dir ?k \<notin> driver_held s" "Advert ?k \<notin> driver_held s"
    using key_not_apple [OF assms(2)] by (auto simp: apple_dirs_def driver_held_def)
  note defs = unregister_native_dir_def key_of_lane [OF assms(2)]
  show "books_ok (unregister_native_dir lane s)"
  proof (cases "ss_native_dirs s ! lane")
    case None
    then show ?thesis using assms(1) by (simp add: defs)
  next
    case (Some d)
    have "lane_dirs (ss_native_dirs s) \<union> apple_dirs s \<union> driver_held s - {Advert ?k} - {Dir ?k}
        = lane_dirs ((ss_native_dirs s)[lane := None]) \<union> apple_dirs s \<union> driver_held s"
      using lane_dirs_update(2) [OF assms(2) len] out by auto
    then show ?thesis
      using Some assms(1) lane_dirs_update(3,4) [OF assms(2) len]
      by (simp add: defs books_ok_def account_append) (simp add: apple_dirs_def driver_held_def)
  qed
  show "dir_frame (unregister_native_dir lane s) = dir_frame s"
    "ss_apple_dir (unregister_native_dir lane s) = ss_apple_dir s"
    "ss_native_dirs (unregister_native_dir lane s) = (ss_native_dirs s)[lane := None]"
    by (auto simp: defs dir_frame_def intro: list_update_id [symmetric]) (metis list_update_id)
qed

lemma unregister_lanes_ok:
  assumes "books_ok s" and "set lanes \<subseteq> {..<4}"
  shows "books_ok (fold unregister_native_dir lanes s) \<and> dir_frame (fold unregister_native_dir lanes s) = dir_frame s
    \<and> ss_apple_dir (fold unregister_native_dir lanes s) = ss_apple_dir s
    \<and> ss_native_dirs (fold unregister_native_dir lanes s) = fold (\<lambda>lane dirs. dirs[lane := None]) lanes (ss_native_dirs s)"
  using assms
proof (induction lanes arbitrary: s)
  case (Cons lane lanes)
  have "lane < 4" using Cons.prems(2) by simp
  note u = unregister_native_dir_ok [OF Cons.prems(1) this]
  show ?case using Cons.IH [OF u(1)] Cons.prems(2) u(2-4) by simp
qed simp

lemma length_4: "length xs = 4 \<longleftrightarrow> (\<exists>a b c d. xs = [a, b, c, d])"
  by (auto simp: numeral_eq_Suc length_Suc_conv)

lemma books_count [simp]: "books_ok (s\<lparr>ss_native_dir_count := n\<rparr>) = books_ok s"
  "dir_frame (s\<lparr>ss_native_dir_count := n\<rparr>) = dir_frame s"
  by (simp_all add: books_ok_def dir_frame_def apple_dirs_def driver_held_def)

lemma unregister_native_dirs_ok:
  assumes "books_ok s"
  shows "books_ok (tbv_unregister_native_dirs s)" and "dir_frame (tbv_unregister_native_dirs s) = dir_frame s"
    and "ss_apple_dir (tbv_unregister_native_dirs s) = ss_apple_dir s"
    and "ss_native_dirs (tbv_unregister_native_dirs s) = replicate 4 None"
proof -
  have l: "length (ss_native_dirs s) = 4" using assms by (simp add: books_ok_def)
  have "fold (\<lambda>lane dirs. dirs[lane := None]) [0..<4] (ss_native_dirs s) = replicate 4 None"
    using l unfolding length_4 by (auto simp: upt_rec numeral_eq_Suc)
  moreover have "set [0..<TBV_NATIVE_MAX_LANES] \<subseteq> {..<4}" by auto
  ultimately show "books_ok (tbv_unregister_native_dirs s)" "dir_frame (tbv_unregister_native_dirs s) = dir_frame s"
    "ss_apple_dir (tbv_unregister_native_dirs s) = ss_apple_dir s"
    "ss_native_dirs (tbv_unregister_native_dirs s) = replicate 4 None"
    using unregister_lanes_ok [OF assms, of "[0..<TBV_NATIVE_MAX_LANES]"] by (simp_all add: tbv_unregister_native_dirs_def)
qed

lemma unregister_apple_dir_ok:
  assumes "books_ok s"
  shows "books_ok (unregister_apple_dir s)" and "dir_frame (unregister_apple_dir s) = dir_frame s"
    and "ss_apple_dir (unregister_apple_dir s) = None" and "ss_native_dirs (unregister_apple_dir s) = ss_native_dirs s"
proof -
  have len: "length (ss_native_dirs s) = 4" using assms by (simp add: books_ok_def)
  have "lane_dirs (ss_native_dirs s) \<union> {Dir tbv_apple_ad_key, Advert tbv_apple_ad_key} \<union> driver_held s
      - {Advert tbv_apple_ad_key} - {Dir tbv_apple_ad_key} = lane_dirs (ss_native_dirs s) \<union> driver_held s"
    using lane_not_apple [OF len] by (auto simp: driver_held_def)
  then show "books_ok (unregister_apple_dir s)"
    using assms by (cases "ss_apple_dir s") (auto simp: unregister_apple_dir_def books_ok_def account_append apple_dirs_def driver_held_def)
  show "dir_frame (unregister_apple_dir s) = dir_frame s" "ss_apple_dir (unregister_apple_dir s) = None"
    "ss_native_dirs (unregister_apple_dir s) = ss_native_dirs s"
    by (simp_all add: unregister_apple_dir_def dir_frame_def)
qed

lemma register_apple_dir_ok:
  assumes "books_ok s" and "ss_apple_dir s = None" and "tbv_register_apple_dir env prtcstns s = (ret, s')"
  shows "books_ok s'" and "dir_frame s' = dir_frame s" and "ss_native_dirs s' = ss_native_dirs s"
    and "ss_apple_dir s' \<noteq> None \<longleftrightarrow> is_ok ret"
proof -
  have len: "length (ss_native_dirs s) = 4" using assms(1) by (simp add: books_ok_def)
  have free: "Dir tbv_apple_ad_key \<notin> lane_dirs (ss_native_dirs s) \<union> apple_dirs s \<union> driver_held s"
    "Advert tbv_apple_ad_key \<notin> lane_dirs (ss_native_dirs s) \<union> apple_dirs s \<union> driver_held s"
    using lane_not_apple [OF len] assms(2) by (auto simp: apple_dirs_def driver_held_def)
  note defs = tbv_register_apple_dir_def tbv_service_create_apple_dir_def tbv_service_create_dir_common_def
  show "books_ok s'"
    using assms free
    by (auto simp: defs books_ok_def account_append apple_dirs_def driver_held_def insert_commute
        split: if_splits sum.splits)
  show "dir_frame s' = dir_frame s" "ss_native_dirs s' = ss_native_dirs s" "ss_apple_dir s' \<noteq> None \<longleftrightarrow> is_ok ret"
    using assms(2,3) by (auto simp: defs dir_frame_def is_ok_iff split: if_splits sum.splits)
qed

text \<open>The lanes in their order: all of them, or none.\<close>

definition lanes_present :: "nat \<Rightarrow> tb_property_dir ptr list \<Rightarrow> bool" where
  "lanes_present n dirs \<longleftrightarrow> length dirs = 4 \<and> (\<forall>i < 4. dirs ! i \<noteq> None \<longleftrightarrow> i < n)"

lemma register_lanes_ok:
  assumes "register_native_lanes env prtcstns [i..<n] s = (ret, s')" and "books_ok s" and "lanes_present i (ss_native_dirs s)"
    and "i \<le> n" and "n \<le> 4"
  shows "books_ok s' \<and> dir_frame s' = dir_frame s \<and> ss_apple_dir s' = ss_apple_dir s
    \<and> lanes_present (if is_ok ret then n else 0) (ss_native_dirs s')"
  using assms
proof (induction "n - i" arbitrary: i s)
  case 0
  then show ?case by (auto simp: is_ok_iff)
next
  case (Suc m)
  then have i: "i < n" "[i..<n] = i # [Suc i..<n]" by (simp_all add: upt_conv_Cons)
  obtain r1 s1 where r: "tbv_register_native_dir env i prtcstns s = (r1, s1)" by fastforce
  have "i < 4" using i(1) Suc.prems(5) by simp
  moreover from this have "ss_native_dirs s ! i = None" using Suc.prems(3) unfolding lanes_present_def by (metis less_irrefl)
  ultimately have i4: "i < 4" "ss_native_dirs s ! i = None" by simp_all
  note reg = register_native_dir_ok [OF Suc.prems(2) i4 r]
  show ?case
  proof (cases r1)
    case (Inl e)
    then have s': "ret = Inl e" "s' = tbv_unregister_native_dirs s1" using Suc.prems(1) r i(2) by simp_all
    have "lanes_present 0 (replicate 4 None)" by (simp add: lanes_present_def)
    then show ?thesis using unregister_native_dirs_ok [OF reg(1)] reg(2,3) s' by simp
  next
    case (Inr u)
    obtain d where d: "ss_native_dirs s1 = (ss_native_dirs s)[i := Some d]" using reg(4) Inr by auto
    have "lanes_present (Suc i) (ss_native_dirs s1)"
      using Suc.prems(3) i4(1) unfolding d by (auto simp: lanes_present_def nth_list_update less_Suc_eq)
    then have "lanes_present (Suc i) (ss_native_dirs (s1\<lparr>ss_native_dir_count := of_nat i + 1\<rparr>))" by simp
    moreover have "register_native_lanes env prtcstns [Suc i..<n] (s1\<lparr>ss_native_dir_count := of_nat i + 1\<rparr>) = (ret, s')"
      using Suc.prems(1) r Inr i(2) by simp
    ultimately show ?thesis
      using Suc.hyps(1) [of "Suc i"] Suc.hyps(2) Suc.prems(5) i(1) reg(1-3) by simp
  qed
qed

lemma register_native_dirs_ok:
  assumes "tbv_register_native_dirs env prtcstns s = (ret, s')" and "books_ok s" and "ss_native_dirs s = replicate 4 None"
  shows "books_ok s'" and "dir_frame s' = dir_frame s" and "ss_apple_dir s' = ss_apple_dir s"
    and "lanes_present (if is_ok ret \<and> rc_native_enabled (ts_cfg (ss_state s)) \<and> ts_native_data (ss_state s)
           then unat (tbv_config_native_lane_count (ss_state s)) else 0) (ss_native_dirs s')"
proof -
  have z: "lanes_present 0 (ss_native_dirs s)" using assms(3) by (simp add: lanes_present_def)
  let ?n = "unat (tbv_config_native_lane_count (ss_state s))"
  have "books_ok s' \<and> dir_frame s' = dir_frame s \<and> ss_apple_dir s' = ss_apple_dir s
    \<and> lanes_present (if is_ok ret \<and> rc_native_enabled (ts_cfg (ss_state s)) \<and> ts_native_data (ss_state s)
         then ?n else 0) (ss_native_dirs s')"
  proof (cases "rc_native_enabled (ts_cfg (ss_state s)) \<and> ts_native_data (ss_state s)
      \<and> tbv_config_native_lane_count (ss_state s) \<noteq> 0 \<and> ?n \<le> 4")
    case True
    then have "register_native_lanes env prtcstns [0..<?n] s = (ret, s')"
      using assms(1) by (auto simp: tbv_register_native_dirs_def Let_def split: if_splits)
    from register_lanes_ok [OF this assms(2) z] True show ?thesis by (auto split: if_splits)
  next
    case False
    then have "s' = s \<and> (is_ok ret \<longrightarrow> \<not> (rc_native_enabled (ts_cfg (ss_state s)) \<and> ts_native_data (ss_state s)))"
      using assms(1) by (auto simp: tbv_register_native_dirs_def Let_def split: if_splits)
    then show ?thesis using assms(2) z by auto
  qed
  then show "books_ok s'" "dir_frame s' = dir_frame s" "ss_apple_dir s' = ss_apple_dir s"
    "lanes_present (if is_ok ret \<and> rc_native_enabled (ts_cfg (ss_state s)) \<and> ts_native_data (ss_state s)
       then ?n else 0) (ss_native_dirs s')" by blast+
qed

section \<open>All or nothing\<close>

text \<open>Of the two variants of the handler only the one of this kernel is ever registered.\<close>

definition one_handler :: "svc_env \<Rightarrow> svc_state \<Rightarrow> bool" where
  "one_handler env s \<longleftrightarrow>
     (if sv_xdomain env then \<not> ch_legacy_registered (ss_handlers s) else \<not> ch_xdomain_registered (ss_handlers s))"

definition svc_idle :: "svc_state \<Rightarrow> bool" where
  "svc_idle s \<longleftrightarrow> length (ss_native_dirs s) = TBV_NATIVE_MAX_LANES \<and> account {} (ss_log s) = Some {}
     \<and> list_all (\<lambda>dir. dir = None) (ss_native_dirs s) \<and> ss_apple_dir s = None
     \<and> \<not> ts_services_registered (ss_state s) \<and> \<not> ss_service_state s \<and> \<not> ss_minimal s
     \<and> \<not> ch_legacy_registered (ss_handlers s) \<and> \<not> ch_xdomain_registered (ss_handlers s)"

lemma none_dirs: "length dirs = 4 \<Longrightarrow> list_all (\<lambda>dir. dir = None) dirs \<longleftrightarrow> dirs = replicate 4 None"
  by (auto simp: list_all_iff intro: replicate_eqI)

lemma svc_idle_iff:
  "svc_idle s \<longleftrightarrow> books_ok s \<and> ss_native_dirs s = replicate 4 None \<and> ss_apple_dir s = None
     \<and> \<not> ts_services_registered (ss_state s) \<and> \<not> ss_service_state s \<and> \<not> ss_minimal s
     \<and> \<not> ch_legacy_registered (ss_handlers s) \<and> \<not> ch_xdomain_registered (ss_handlers s)"
  using none_dirs [of "ss_native_dirs s"] lane_dirs_empty [of "ss_native_dirs s"]
  by (auto simp: svc_idle_def books_ok_def apple_dirs_def driver_held_def)

lemma control_stop_ok:
  "books_ok (svc_control_stop env s) = books_ok s"
  "ss_native_dirs (svc_control_stop env s) = ss_native_dirs s" "ss_apple_dir (svc_control_stop env s) = ss_apple_dir s"
  "ts_services_registered (ss_state (svc_control_stop env s)) = ts_services_registered (ss_state s)"
  "ss_minimal (svc_control_stop env s) = ss_minimal s"
  "one_handler env s \<Longrightarrow> \<not> ch_legacy_registered (ss_handlers (svc_control_stop env s))
     \<and> \<not> ch_xdomain_registered (ss_handlers (svc_control_stop env s))"
  by (auto simp: svc_control_stop_def tbv_native_control_stop_def tbv_native_control_xdomain_stop_def
      tbv_native_control_legacy_stop_def one_handler_def books_ok_def apple_dirs_def driver_held_def)

lemma err_stop_minimal_idle:
  assumes "books_ok s" and "ss_native_dirs s = replicate 4 None" and "ss_apple_dir s = None"
    and "\<not> ts_services_registered (ss_state s)" and "one_handler env s"
  shows "svc_idle (err_stop_minimal env s)"
proof -
  have "one_handler env (s\<lparr>ss_minimal := False\<rparr>)" "books_ok (s\<lparr>ss_minimal := False\<rparr>)"
    using assms(1,5) by (simp_all add: one_handler_def books_ok_def apple_dirs_def driver_held_def)
  moreover have "books_ok (s\<lparr>ss_service_state := b\<rparr>) = books_ok s" for s b
    by (simp add: books_ok_def apple_dirs_def driver_held_def)
  ultimately show ?thesis
    using assms control_stop_ok [where env = env and s = "s\<lparr>ss_minimal := False\<rparr>"]
    by (simp add: svc_idle_iff err_stop_minimal_def err_clear_def)
qed

text \<open>The steps before the directories.\<close>

definition fresh_books :: "svc_env \<Rightarrow> svc_state \<Rightarrow> bool" where
  "fresh_books env s \<longleftrightarrow> books_ok s \<and> ss_native_dirs s = replicate 4 None \<and> ss_apple_dir s = None
     \<and> \<not> ts_services_registered (ss_state s) \<and> one_handler env s"

lemma configure_fields:
  "ss_native_dirs (services_configure cfg s) = ss_native_dirs s" "ss_apple_dir (services_configure cfg s) = ss_apple_dir s"
  "ss_log (services_configure cfg s) = ss_log s" "ss_handlers (services_configure cfg s) = ss_handlers s"
  "ss_minimal (services_configure cfg s) = ss_minimal s" "ss_service_state (services_configure cfg s) = ss_service_state s"
  "ts_services_registered (ss_state (services_configure cfg s)) = ts_services_registered (ss_state s)"
  "ts_cfg (ss_state (services_configure cfg s)) = ts_cfg (ss_state s)"
  "ts_native_data (ss_state (services_configure cfg s)) = ts_native_data (ss_state s)"
  "ts_apple_data (ss_state (services_configure cfg s)) = ts_apple_data (ss_state s)"
  by (simp_all add: services_configure_def on_state_def)

definition svc_config :: "svc_state \<Rightarrow> tbv_resolved_config \<times> bool \<times> bool" where
  "svc_config s = (ts_cfg (ss_state s), ts_native_data (ss_state s), ts_apple_data (ss_state s))"

lemma start_minimal_ok:
  assumes "fresh_books env s" and "start_minimal env s = (ret, s')"
  shows "fresh_books env s'" and "svc_config s' = svc_config s" and "\<not> is_ok ret \<Longrightarrow> s' = s"
  using assms
  by (auto simp: start_minimal_def fresh_books_def books_ok_def one_handler_def apple_dirs_def driver_held_def svc_config_def
      split: if_splits)

lemma start_control_ok:
  assumes "fresh_books env s" and "start_control env s = (ret, s')"
  shows "fresh_books env s'" and "svc_config s' = svc_config s"
  using assms
  by (auto simp: start_control_def tbv_native_control_start_def tbv_native_control_xdomain_start_def
      tbv_native_control_legacy_start_def Let_def fresh_books_def books_ok_def one_handler_def apple_dirs_def driver_held_def
      svc_config_def split: if_splits sum.splits)

lemma start_apple_dir_ok:
  assumes "books_ok s" and "ss_apple_dir s = None" and "start_apple_dir env prtcstns s = (ret, s')"
  shows "books_ok s'" and "dir_frame s' = dir_frame s" and "ss_native_dirs s' = ss_native_dirs s"
    and "ss_apple_dir s' \<noteq> None \<longleftrightarrow> is_ok ret \<and> rc_apple_enabled (ts_cfg (ss_state s)) \<and> ts_apple_data (ss_state s)"
proof -
  have "books_ok s' \<and> dir_frame s' = dir_frame s \<and> ss_native_dirs s' = ss_native_dirs s
    \<and> (ss_apple_dir s' \<noteq> None \<longleftrightarrow> is_ok ret \<and> rc_apple_enabled (ts_cfg (ss_state s)) \<and> ts_apple_data (ss_state s))"
  proof (cases "rc_apple_enabled (ts_cfg (ss_state s)) \<and> ts_apple_data (ss_state s)")
    case True
    then have "tbv_register_apple_dir env prtcstns s = (ret, s')" using assms(3) by (simp add: start_apple_dir_def)
    from register_apple_dir_ok [OF assms(1,2) this] True show ?thesis by simp
  next
    case False
    then have "s' = s" using assms(3) by (auto simp: start_apple_dir_def)
    then show ?thesis using False assms(1,2) by auto
  qed
  then show "books_ok s'" "dir_frame s' = dir_frame s" "ss_native_dirs s' = ss_native_dirs s"
    "ss_apple_dir s' \<noteq> None \<longleftrightarrow> is_ok ret \<and> rc_apple_enabled (ts_cfg (ss_state s)) \<and> ts_apple_data (ss_state s)" by blast+
qed

lemma dir_frame_handler: "dir_frame s' = dir_frame s \<Longrightarrow> one_handler env s' = one_handler env s"
  "dir_frame s' = dir_frame s \<Longrightarrow> ss_state s' = ss_state s"
  by (simp_all add: dir_frame_def one_handler_def)

lemma err_unregister_native_idle:
  assumes "books_ok s" and "ss_apple_dir s = None" and "\<not> ts_services_registered (ss_state s)" and "one_handler env s"
  shows "svc_idle (err_unregister_native env s)"
  unfolding err_unregister_native_def
  using unregister_native_dirs_ok [OF assms(1)] dir_frame_handler [OF unregister_native_dirs_ok(2) [OF assms(1)]] assms
  by (intro err_stop_minimal_idle) simp_all

lemma err_unregister_apple_idle:
  assumes "books_ok s" and "\<not> ts_services_registered (ss_state s)" and "one_handler env s"
  shows "svc_idle (err_unregister_apple env s)"
  unfolding err_unregister_apple_def
  using unregister_apple_dir_ok [OF assms(1)] dir_frame_handler [OF unregister_apple_dir_ok(2) [OF assms(1)]] assms
  by (intro err_unregister_native_idle) simp_all

lemma identity_ready_fields:
  "ss_log (tbv_services_tbnet_identity_ready env s) = ss_log s"
  "ss_native_dirs (tbv_services_tbnet_identity_ready env s) = ss_native_dirs s"
  "ss_apple_dir (tbv_services_tbnet_identity_ready env s) = ss_apple_dir s"
  "ss_state (tbv_services_tbnet_identity_ready env s) = ss_state s"
  "ss_handlers (tbv_services_tbnet_identity_ready env s) = ss_handlers s"
  by (simp_all add: tbv_services_tbnet_identity_ready_def tbv_service_queue_apple_rail_work_def)

lemma services_started_ok:
  assumes "books_ok s" and "\<not> ts_services_registered (ss_state s)" and "one_handler env s"
  shows "books_ok (services_started env s)" and "one_handler env (services_started env s)"
    and "ts_services_registered (ss_state (services_started env s))"
    and "ss_native_dirs (services_started env s) = ss_native_dirs s" "ss_apple_dir (services_started env s) = ss_apple_dir s"
proof -
  have len: "length (ss_native_dirs s) = 4" using assms(1) by (simp add: books_ok_def)
  have "Service_driver \<notin> apple_dirs s" by (simp add: apple_dirs_def)
  moreover have s: "ss_log (services_started env s) = ss_log s @ [Take Service_driver]"
    "ss_native_dirs (services_started env s) = ss_native_dirs s" "ss_apple_dir (services_started env s) = ss_apple_dir s"
    "ss_handlers (services_started env s) = ss_handlers s" "ts_services_registered (ss_state (services_started env s))"
    by (simp_all add: services_started_def Let_def identity_ready_fields on_state_def tbv_service_queue_apple_rail_work_def)
  ultimately show "books_ok (services_started env s)" "one_handler env (services_started env s)"
    using assms lane_not_apple(3) [OF len]
    by (simp_all add: books_ok_def account_append apple_dirs_def driver_held_def one_handler_def)
  show "ts_services_registered (ss_state (services_started env s))" "ss_native_dirs (services_started env s) = ss_native_dirs s"
    "ss_apple_dir (services_started env s) = ss_apple_dir s" using s by simp_all
qed

text \<open>Removing the bound services does not touch what the service layer holds.\<close>

lemma registered_frame:
  "ts_services_registered (on_rail a f state) = ts_services_registered state"
  "ts_services_registered (tbv_peer_put p state) = ts_services_registered state"
  "ts_services_registered (tbv_service_refresh_apple_rails_pending state) = ts_services_registered state"
  by (simp_all add: on_rail_def tbv_peer_put_def on_peer_def tbv_service_refresh_apple_rails_pending_def Let_def split: option.split)

lemma unwind_frame: "ts_services_registered (probe_unwind env backend p a state) = ts_services_registered state"
  by (simp add: probe_unwind_def Let_def registered_frame tbv_peer_remove_rail_def remove_rail_finish_def remove_rail_begin_def
      ibdev_rail_down_def tbv_rail_put_def tbv_native_control_cancel_rail_def)

lemma state_same: "\<exists>state. s = s\<lparr>ss_state := state\<rparr> \<and> ts_services_registered state = ts_services_registered (ss_state s)"
  by (rule exI [of _ "ss_state s"]) simp

lemma remove_frame: "\<exists>state. tbv_service_remove env b s = s\<lparr>ss_state := state\<rparr>
    \<and> ts_services_registered state = ts_services_registered (ss_state s)"
proof -
  have "\<exists>state. on_state (probe_unwind env backend p a) s = s\<lparr>ss_state := state\<rparr>
      \<and> ts_services_registered state = ts_services_registered (ss_state s)" for backend p a
    unfolding on_state_def using unwind_frame by blast
  then show ?thesis
    unfolding tbv_service_remove_def using state_same by (auto split: option.split)
qed

lemma removes_frame: "\<exists>state. fold (\<lambda>b. tbv_service_remove env (Some b)) bindings s = s\<lparr>ss_state := state\<rparr>
    \<and> ts_services_registered state = ts_services_registered (ss_state s)"
proof (induction bindings arbitrary: s)
  case Nil
  show ?case using state_same by simp
next
  case (Cons b bindings)
  obtain st where st: "tbv_service_remove env (Some b) s = s\<lparr>ss_state := st\<rparr>" "ts_services_registered st = ts_services_registered (ss_state s)"
    using remove_frame by blast
  obtain st' where "fold (\<lambda>b. tbv_service_remove env (Some b)) bindings (s\<lparr>ss_state := st\<rparr>) = s\<lparr>ss_state := st\<rparr>\<lparr>ss_state := st'\<rparr>"
    "ts_services_registered st' = ts_services_registered st"
    using Cons [of "s\<lparr>ss_state := st\<rparr>"] by auto
  then show ?case using st by auto
qed

lemma services_stop_idle:
  assumes "books_ok s" and "one_handler env s" shows "svc_idle (tbv_services_stop env bindings s)"
proof -
  define s1 where "s1 = (if ts_services_registered (ss_state s)
     then svc_emit [Give Service_driver] (on_state (\<lambda>state. state\<lparr>ts_services_registered := False\<rparr>)
            (fold (\<lambda>b. tbv_service_remove env (Some b)) bindings s)) else s)"
  let ?f = "fold (\<lambda>b. tbv_service_remove env (Some b)) bindings s"
  obtain st where f: "?f = s\<lparr>ss_state := st\<rparr>" "ts_services_registered st = ts_services_registered (ss_state s)"
    using removes_frame by blast
  have len: "length (ss_native_dirs s) = 4" using assms(1) by (simp add: books_ok_def)
  have 1: "books_ok s1" "one_handler env s1" "\<not> ts_services_registered (ss_state s1)"
    using assms f(2) lane_not_apple(3) [OF len]
    by (auto simp: s1_def f(1) books_ok_def account_append one_handler_def on_state_def driver_held_def apple_dirs_def)
  define s2 where "s2 = (on_state (\<lambda>state. state\<lparr>ts_apple_rails_pending := False\<rparr>) (s1\<lparr>ss_apple_rail_work := False\<rparr>))\<lparr>ss_minimal := False\<rparr>"
  have 2: "books_ok s2" "one_handler env s2" "\<not> ts_services_registered (ss_state s2)" "\<not> ss_minimal s2"
    using 1 by (simp_all add: s2_def on_state_def books_ok_def one_handler_def driver_held_def apple_dirs_def)
  note c = control_stop_ok [where env = env and s = s2]
  note a = unregister_apple_dir_ok [OF c(1) [THEN iffD2, OF 2(1)]]
  note n = unregister_native_dirs_ok [OF a(1)]
  have "tbv_services_stop env bindings s
      = (tbv_unregister_native_dirs (unregister_apple_dir (svc_control_stop env s2)))\<lparr>ss_service_state := False\<rparr>"
    by (simp add: tbv_services_stop_def Let_def s1_def s2_def)
  moreover have "books_ok (t\<lparr>ss_service_state := b\<rparr>) = books_ok t" for t b
    by (simp add: books_ok_def apple_dirs_def driver_held_def)
  moreover have "dir_frame (tbv_unregister_native_dirs (unregister_apple_dir (svc_control_stop env s2))) = dir_frame (svc_control_stop env s2)"
    using a(2) n(2) by simp
  ultimately show ?thesis
    using n(1,3,4) a(3) c(4,5) c(6) [OF 2(2)] 2(3,4) by (simp add: svc_idle_iff dir_frame_def)
qed

text \<open>The resources that a successful start holds.\<close>

definition services_held :: "tbv_state \<Rightarrow> svc_resource set" where
  "services_held state =
     (\<Union>k \<in> (if rc_native_enabled (ts_cfg state) \<and> ts_native_data state
             then set (take (unat (tbv_config_native_lane_count state)) tbv_native_protocol_keys) else {})
         \<union> (if rc_apple_enabled (ts_cfg state) \<and> ts_apple_data state then {tbv_apple_ad_key} else {}).
       {Dir k, Advert k}) \<union> {Service_driver}"

lemma lanes_present_held:
  assumes "lanes_present n dirs"
  shows "lane_dirs dirs = (\<Union>k \<in> set (take n tbv_native_protocol_keys). {Dir k, Advert k})"
proof -
  have "set (take n tbv_native_protocol_keys) = {tbv_native_protocol_keys ! i | i. i < n \<and> i < 4}"
  proof (intro set_eqI iffI)
    fix x assume "x \<in> {tbv_native_protocol_keys ! i | i. i < n \<and> i < 4}"
    then obtain i where i: "x = tbv_native_protocol_keys ! i" "i < n" "i < 4" by blast
    then have "take n tbv_native_protocol_keys ! i = x" "i < length (take n tbv_native_protocol_keys)"
      by (simp_all add: keys_distinct(2))
    then show "x \<in> set (take n tbv_native_protocol_keys)" by (metis nth_mem)
  qed (auto simp: in_set_conv_nth keys_distinct(2))
  moreover have "lane < length dirs \<and> dirs ! lane \<noteq> None \<longleftrightarrow> lane < n \<and> lane < 4" for lane
    using assms by (auto simp: lanes_present_def)
  then have "lane_dirs dirs = {r. \<exists>lane. (lane < n \<and> lane < 4)
      \<and> (r = Dir (tbv_native_protocol_keys ! lane) \<or> r = Advert (tbv_native_protocol_keys ! lane))}"
    unfolding lane_dirs_def by (simp only: conj_assoc [symmetric])
  ultimately show ?thesis by auto
qed

text \<open>
  C12: Starting the service layer is all or nothing. From an idle layer, whatever step fails with
  whatever answer, every directory, every advertisement, the driver, the control handler and the packet
  service are given back, each once, and the layer is idle again. If it succeeds, it holds exactly the
  directories of the configured lanes, the Apple directory if that transport is enabled, and the driver; and
  stopping it later, with any services bound, makes it idle again.
\<close>

theorem services_all_or_nothing:
  assumes "svc_idle s" and "tbv_services_start env bind_services cfg s = (ret, s')"
  shows "case ret of
      Inl e \<Rightarrow> svc_idle s'
    | Inr _ \<Rightarrow> account {} (ss_log s') = Some (if bind_services then services_held (ss_state s) else {})
        \<and> (\<forall>bindings. svc_idle (tbv_services_stop env bindings s'))"
proof (cases bind_services)
  case False
  have "s' = services_configure cfg s" "ret = Inr ()" using assms(2) False by (simp_all add: tbv_services_start_def Let_def)
  moreover have "books_ok s'" "one_handler env s'" "account {} (ss_log s') = Some {}"
    using assms(1) [unfolded svc_idle_iff] assms(1) [unfolded svc_idle_def] unfolding calculation
    by (simp_all add: books_ok_def one_handler_def configure_fields apple_dirs_def driver_held_def lane_dirs_empty)
  ultimately show ?thesis using False services_stop_idle by simp
next
  case True
  define s0 where "s0 = (services_configure cfg s)\<lparr>ss_service_state := True\<rparr>"
  have idle: "books_ok s" "ss_native_dirs s = replicate 4 None" "ss_apple_dir s = None" "\<not> ts_services_registered (ss_state s)"
    "\<not> ss_minimal s" "\<not> ch_legacy_registered (ss_handlers s)" "\<not> ch_xdomain_registered (ss_handlers s)"
    using assms(1) by (simp_all add: svc_idle_iff)
  have f0: "fresh_books env s0" "svc_config s0 = svc_config s" "\<not> ss_minimal s0"
    using idle by (simp_all add: s0_def fresh_books_def books_ok_def one_handler_def configure_fields apple_dirs_def driver_held_def svc_config_def)
  obtain r1 s1 where 1: "start_minimal env s0 = (r1, s1)" by fastforce
  note m = start_minimal_ok [OF f0(1) 1]
  obtain r2 s2 where 2: "start_control env s1 = (r2, s2)" by fastforce
  note c = start_control_ok [OF m(1) 2]
  obtain r3 s3 where 3: "tbv_register_native_dirs env (sc_native_prtcstns cfg) s2 = (r3, s3)" by fastforce
  have b2: "books_ok s2" "ss_native_dirs s2 = replicate 4 None" "ss_apple_dir s2 = None" "one_handler env s2"
    "\<not> ts_services_registered (ss_state s2)" using c(1) by (simp_all add: fresh_books_def)
  note n = register_native_dirs_ok [OF 3 b2(1,2)]
  note fr3 = dir_frame_handler [OF n(2)]
  have "ss_apple_dir s3 = None" using n(3) b2(3) by simp
  obtain r4 s4 where 4: "start_apple_dir env (sc_apple_prtcstns cfg) s3 = (r4, s4)" by fastforce
  note a = start_apple_dir_ok [OF n(1) \<open>ss_apple_dir s3 = None\<close> 4]
  note fr4 = dir_frame_handler [OF a(2)]
  have b4: "books_ok s4" "\<not> ts_services_registered (ss_state s4)" "one_handler env s4"
    using a(1) fr3 fr4 b2(4,5) by simp_all
  have start: "tbv_services_start env bind_services cfg s = (case start_minimal env s0 of
      (Inl e, s) \<Rightarrow> (Inl e, err_clear env s) | (Inr _, s) \<Rightarrow>
      (case start_control env s of (Inl e, s) \<Rightarrow> (Inl e, err_stop_minimal env s) | (Inr _, s) \<Rightarrow>
      (case tbv_register_native_dirs env (sc_native_prtcstns cfg) s of
         (Inl e, s) \<Rightarrow> (Inl e, err_stop_minimal env s) | (Inr _, s) \<Rightarrow>
      (case start_apple_dir env (sc_apple_prtcstns cfg) s of
         (Inl e, s) \<Rightarrow> (Inl e, err_unregister_native env s) | (Inr _, s) \<Rightarrow>
      (case sv_register_driver env of
         Inl e \<Rightarrow> (Inl e, err_unregister_apple env s) | Inr _ \<Rightarrow> (Inr (), services_started env s))))))"
    using True by (simp add: tbv_services_start_def Let_def s0_def)
  show ?thesis
  proof (cases "is_ok r1 \<and> is_ok r2 \<and> is_ok r3 \<and> is_ok r4 \<and> is_ok (sv_register_driver env)")
    case ok: True
    then have r: "ret = Inr ()" "s' = services_started env s4"
      using assms(2) start 1 2 3 4 by (auto simp: is_ok_iff)
    note st = services_started_ok [OF b4(1,2,3)]
    have cfg: "svc_config s2 = svc_config s" "svc_config s3 = svc_config s" using c(2) m(2) f0(2) fr3(2) by (simp_all add: svc_config_def)
    have "lane_dirs (ss_native_dirs s4) \<union> apple_dirs s4 \<union> {Service_driver} = services_held (ss_state s)"
      using lanes_present_held [OF n(4)] a(3,4) ok cfg
      by (auto simp: services_held_def apple_dirs_def svc_config_def tbv_config_native_lane_count_def split: if_splits)
    then have "account {} (ss_log s') = Some (services_held (ss_state s))"
      using st(1,3-5) r(2) by (simp add: books_ok_def driver_held_def apple_dirs_def)
    then show ?thesis using r True services_stop_idle [OF st(1,2)] by simp
  next
    case bad: False
    have clear: "svc_idle (err_clear env s1)" if "\<not> is_ok r1"
    proof -
      have "s1\<lparr>ss_minimal := False\<rparr> = s1" using m(3) [OF that] f0(3) by simp
      then show ?thesis
        using err_stop_minimal_idle [of s1 env] m(1) by (simp add: fresh_books_def err_stop_minimal_def)
    qed
    have e2: "svc_idle (err_stop_minimal env s2)" using b2 by (intro err_stop_minimal_idle) simp_all
    have e3: "svc_idle (err_stop_minimal env s3)" if "\<not> is_ok r3"
    proof (rule err_stop_minimal_idle [OF n(1)])
      have "lanes_present 0 (ss_native_dirs s3)" using n(4) that by simp
      then show "ss_native_dirs s3 = replicate 4 None" by (auto simp: lanes_present_def intro: nth_equalityI)
    qed (use n(3) b2 fr3 in simp_all)
    have e4: "svc_idle (err_unregister_native env s4)" if "\<not> is_ok r4"
      using a(4) that b4 by (intro err_unregister_native_idle) auto
    have e5: "svc_idle (err_unregister_apple env s4)" using b4 by (intro err_unregister_apple_idle)
    show ?thesis
      using assms(2) start 1 2 3 4 bad clear e2 e3 e4 e5 by (auto split: sum.splits)
  qed
qed

section \<open>A concrete start\<close>

text \<open>An idle layer with the default lanes, and a kernel that refuses the second advertisement.\<close>

definition idle_svc :: svc_state where
  "idle_svc = (demo_svc ((empty_state False)\<lparr>ts_services_registered := False\<rparr>))\<lparr>ss_service_state := False\<rparr>"

definition start_cfg :: tbv_service_config where
  "start_cfg = \<lparr>sc_native_prtcstns = 0, sc_apple_prtcstns = 0, sc_allocate_rings = True, sc_start_rings = True,
     sc_negotiate_native = True, sc_enable_tunnels = True\<rparr>"

definition refusing_env :: svc_env where
  "refusing_env = demo_svc_env\<lparr>sv_register_dir := \<lambda>k. if k = ''tbverb1'' then Inl ENOSPC else Inr ()\<rparr>"

lemmas start_eval = idle_svc_def start_cfg_def refusing_env_def demo_svc_def demo_svc_env_def empty_state_def params_demo_def
  tbv_services_start_def services_configure_def on_state_def start_minimal_def start_control_def tbv_native_control_start_def
  tbv_native_control_legacy_start_def tbv_register_native_dirs_def tbv_config_native_lane_count_def upt_rec
  tbv_register_native_dir_def tbv_native_protocol_key_def tbv_native_protocol_keys_def tbv_service_create_dir_common_def
  start_apple_dir_def Let_def

theorem services_all_or_nothing_witness:
  "svc_idle idle_svc
   \<and> fst (tbv_services_start demo_svc_env True start_cfg idle_svc) = Inr ()
   \<and> svc_idle (tbv_services_stop demo_svc_env [] (snd (tbv_services_start demo_svc_env True start_cfg idle_svc)))
   \<and> fst (tbv_services_start refusing_env True start_cfg idle_svc) = Inl ENOSPC
   \<and> svc_idle (snd (tbv_services_start refusing_env True start_cfg idle_svc))"
proof -
  have i: "svc_idle idle_svc" by (simp add: svc_idle_def idle_svc_def demo_svc_def empty_state_def)
  have ok: "fst (tbv_services_start demo_svc_env True start_cfg idle_svc) = Inr ()" by (simp add: start_eval)
  have no: "fst (tbv_services_start refusing_env True start_cfg idle_svc) = Inl ENOSPC" by (simp add: start_eval)
  have "svc_idle (tbv_services_stop demo_svc_env [] (snd (tbv_services_start demo_svc_env True start_cfg idle_svc)))"
    using services_all_or_nothing [OF i prod.collapse [symmetric], of demo_svc_env True start_cfg] ok by simp
  moreover have "svc_idle (snd (tbv_services_start refusing_env True start_cfg idle_svc))"
    using services_all_or_nothing [OF i prod.collapse [symmetric], of refusing_env True start_cfg] no by simp
  ultimately show ?thesis using i ok no by simp
qed

end
