(* ===== verification/Service_Apple.thy ===== *)
theory Service_Apple
  imports Service Handshake
begin

text \<open>
  The work that publishes Apple rails returns when devices are registered, and has then offered every rail
  it could; when devices are not registered it does not return.
\<close>

section \<open>A step of the work\<close>

definition ready_apple :: "pub_env \<Rightarrow> tbv_state \<Rightarrow> tbv_peer \<Rightarrow> tbv_rail \<Rightarrow> bool" where
  "ready_apple env state peer rail \<longleftrightarrow>
     pending_apple peer rail \<and> tbv_service_tbnet_path_ready env state (Some (pe_xd peer))"

lemma next_pending_alt:
  "tbv_service_next_pending_apple_rail env state = (case next_rail (ready_apple env state) state of
     Some a \<Rightarrow> (Some a, on_rail a rail_get state) | None \<Rightarrow> (None, tbv_service_refresh_apple_rails_pending state))"
  by (simp add: tbv_service_next_pending_apple_rail_def ready_apple_def [abs_def])

lemma enable_tunnel_state:
  assumes "tbv_path_enable_tunnel tx alloc enable path hw = (Inr u, hw')"
  shows "p_state (hw_path hw') = TBV_PATH_TUNNEL_ENABLED"
  using assms by (auto simp: tbv_path_enable_tunnel_def on_path_def hw_emit_def Let_def split: if_splits sum.splits)

text \<open>Setting the path commutes with references.\<close>

definition set_hw :: "path_hw option \<Rightarrow> tbv_rail \<Rightarrow> tbv_rail" where
  "set_hw hwp rail = (case hwp of None \<Rightarrow> rail | Some hw \<Rightarrow> rail\<lparr>ra_hw := hw\<rparr>)"

lemma set_hw_simps [simp]:
  "quiet (set_hw hwp)" "set_hw hwp (rail_get r) = rail_get (set_hw hwp r)" "handled (set_hw hwp r) = handled r"
  "ra_addr (set_hw hwp r) = ra_addr r" "ra_refcnt (set_hw hwp r) = ra_refcnt r" "ra_removing (set_hw hwp r) = ra_removing r"
  by (cases hwp; simp add: set_hw_def quiet_def rail_get_def handled_def)+

lemma enable_apple_tunnel:
  assumes "locate a state = Some (peer, rail)" and "pending_apple peer rail"
    and "tbv_service_enable_apple_rail_tunnel env a state = (Inr u, state')"
  shows "\<exists>hwp. state' = on_rail a (set_hw hwp) state \<and> ra_path_state (set_hw hwp rail) = TBV_PATH_TUNNEL_ENABLED"
proof (cases "ra_path_state rail = TBV_PATH_TUNNEL_ENABLED")
  case True
  then have "state' = state" using assms by (auto simp: tbv_service_enable_apple_rail_tunnel_def pending_apple_def)
  moreover have "on_rail a (set_hw None) state = state" by (rule on_rail_idle) (simp add: set_hw_def)
  ultimately show ?thesis using True by (intro exI [of _ None]) (simp add: set_hw_def)
next
  case False
  then have "ra_path_state rail = TBV_PATH_RING_STARTED" "\<not> ra_removing rail"
    using assms(2) by (simp_all add: pending_apple_def tbv_rail_apple_service_ready_def)
  then obtain hw where hw: "tbv_path_enable_tunnel (sv_tx env) (sv_alloc_in_hopid env) (sv_enable_paths env)
      (pc_receive_path (p_cfg (ra_path rail))) (ra_hw rail) = (Inr u, hw)"
    "state' = on_rail a (\<lambda>rail. rail\<lparr>ra_hw := hw\<rparr>) state"
    using assms(1,3) by (auto simp: tbv_service_enable_apple_rail_tunnel_def split: prod.splits)
  have "state' = on_rail a (set_hw (Some hw)) state" unfolding hw(2) by (simp add: set_hw_def [abs_def])
  moreover have "ra_path_state (set_hw (Some hw) rail) = TBV_PATH_TUNNEL_ENABLED"
    using enable_tunnel_state [OF hw(1)] by (simp add: set_hw_def)
  ultimately show ?thesis by blast
qed

definition waits_right :: "tbv_state \<Rightarrow> bool" where
  "waits_right state \<longleftrightarrow>
     ts_apple_rails_wait_tbnet state = (rc_tbnet_identity (ts_cfg state) = TBV_TBNET_ID_MINIMAL_PACKET)"

lemma ready_apple_publishable:
  assumes "waits_right state" and "ready_apple env state peer rail" and "ra_path_state r = TBV_PATH_TUNNEL_ENABLED"
    and "ra_removing r = ra_removing rail"
  shows "tbv_ibdev_rail_publish_ready_locked env state peer r"
  using assms
  by (auto simp: ready_apple_def pending_apple_def waits_right_def tbv_service_tbnet_path_ready_def
      tbv_ibdev_rail_publish_ready_locked_def tbv_rail_apple_data_ready_def split: if_splits)

lemma apple_step:
  assumes ok: "topo_ok s" and en: "ts_register_enabled s" and wr: "waits_right s"
    and n: "next_rail (ready_apple (sv_pub env) s) s = Some a"
    and pub: "tbv_service_publish_apple_rail env a (on_rail a rail_get s) = (Inr u, s3)"
  obtains peer rail f hwp l where "(peer, rail) \<in> set (pairs s)" "a = ra_addr rail" "\<not> handled rail"
    "publishing f" "\<And>r. handled (f r)" "tbv_rail_put a s3 = (on_rail a f (on_rail a (set_hw hwp) s))\<lparr>ts_log := l\<rparr>"
proof -
  obtain peer rail where m: "(peer, rail) \<in> set (pairs s)" and c: "ready_apple (sv_pub env) s peer rail" and a: "ra_addr rail = a"
    using n by (rule next_rail_Some)
  have nh: "\<not> handled rail" and nr: "\<not> ra_removing rail" using c by (auto simp: ready_apple_def pending_apple_def handled_def)
  have ref: "0 < ra_refcnt rail" using all_rails_ok [OF ok pair_in_all_rails [OF m]] nr by (simp add: rail_ok_def)
  let ?s1 = "on_rail a rail_get s" and ?p1 = "with_rails (moved a rail_get) peer"
  have loc: "locate a ?s1 = Some (?p1, rail_get rail)" using locate_get [OF ok m] a by simp
  have pend: "pending_apple ?p1 (rail_get rail)"
    using c by (simp add: ready_apple_def pending_apple_def tbv_rail_apple_service_ready_def)
  obtain u1 s2 where e: "tbv_service_enable_apple_rail_tunnel env a ?s1 = (Inr u1, s2)"
    "tbv_ibdev_rail_event (sv_pub env) a True s2 = (Inr u, s3)"
    using pub by (auto simp: tbv_service_publish_apple_rail_def split: prod.splits sum.splits)
  obtain hwp where s2: "s2 = on_rail a (set_hw hwp) ?s1" and tun: "ra_path_state (set_hw hwp (rail_get rail)) = TBV_PATH_TUNNEL_ENABLED"
    using enable_apple_tunnel [OF loc pend e(1)] by blast
  let ?r2 = "set_hw hwp (rail_get rail)" and ?p2 = "with_rails (moved a (set_hw hwp)) ?p1"
  have loc2: "locate a s2 = Some (?p2, ?r2)"
    unfolding s2 by (subst locate_on_rail) (simp_all add: loc moved_def a)
  have "tbv_ibdev_rail_publish_ready_locked (sv_pub env) s peer ?r2"
    using ready_apple_publishable [OF wr c, of ?r2] tun by simp
  then have "tbv_ibdev_rail_publish_ready_locked (sv_pub env) s2 ?p2 ?r2"
    using ready_state_cong [of s2 s ?p2 peer "sv_pub env" ?r2] by (simp add: s2)
  then have "catchup_rail (sv_pub env) s2 ?p2 ?r2" using nh by (simp add: catchup_rail_def)
  moreover have "ts_register_enabled s2" using en by (simp add: s2)
  ultimately obtain f l where f: "publishing f" "\<forall>r. handled (f r)"
      "snd (tbv_ibdev_rail_event (sv_pub env) a True s2) = (on_rail a f s2)\<lparr>ts_log := l\<rparr>"
    using event_up [OF loc2] by blast
  have s3: "s3 = (on_rail a f s2)\<lparr>ts_log := l\<rparr>" using f(3) e(2) by simp
  have one: "r = rail" if "r \<in> all_rails s" "ra_addr r = a" for r
    using all_rails_locate [OF ok _ that] locate_pair [OF ok m] a by simp
  have "on_rail a (rail_put \<circ> (f \<circ> (set_hw hwp \<circ> rail_get))) s = on_rail a (f \<circ> set_hw hwp) s"
    by (rule on_rail_cong) (use one ref put_publishing_get [OF f(1)] in auto)
  then have "tbv_rail_put a s3 = (on_rail a (f \<circ> set_hw hwp) s)\<lparr>ts_log := l\<rparr>"
    unfolding s3 s2 by (simp add: tbv_rail_put_def on_rail_log on_rail_comp publishing_addr [OF f(1)] comp_assoc)
  then have "tbv_rail_put a s3 = (on_rail a f (on_rail a (set_hw hwp) s))\<lparr>ts_log := l\<rparr>" by (simp add: on_rail_comp)
  then show thesis using that m a nh f(1,2) by blast
qed

section \<open>The work returns\<close>

definition apple_inv :: "tbv_state \<Rightarrow> bool" where
  "apple_inv s \<longleftrightarrow> topo_ok s \<and> ts_register_enabled s \<and> waits_right s"

lemma apple_step_inv:
  assumes "apple_inv s" and n: "next_rail (ready_apple (sv_pub env) s) s = Some a"
    and pub: "tbv_service_publish_apple_rail env a (on_rail a rail_get s) = (Inr u, s3)"
  shows "apple_inv (tbv_rail_put a s3)" and "unhandled (tbv_rail_put a s3) < unhandled s"
proof -
  have ok: "topo_ok s" and en: "ts_register_enabled s" and wr: "waits_right s" using assms(1) by (simp_all add: apple_inv_def)
  obtain peer rail f hwp l where st: "(peer, rail) \<in> set (pairs s)" "a = ra_addr rail" "\<not> handled rail"
    "publishing f" "\<And>r. handled (f r)" "tbv_rail_put a s3 = (on_rail a f (on_rail a (set_hw hwp) s))\<lparr>ts_log := l\<rparr>"
    using apple_step [OF ok en wr n pub] by metis
  have ok1: "topo_ok (on_rail a (set_hw hwp) s)" by (rule topo_ok_quiet [OF ok]) simp
  show "apple_inv (tbv_rail_put a s3)"
    unfolding st(6) apple_inv_def using topo_ok_publishing [OF ok1 st(4)] en wr by (simp add: waits_right_def)
  have "unhandled ((on_rail (ra_addr rail) (f \<circ> set_hw hwp) s)\<lparr>ts_log := l\<rparr>) < unhandled s"
    unfolding unhandled_def using st(3,5) by (intro pending_drops [OF ok st(1)]) simp_all
  then show "unhandled (tbv_rail_put a s3) < unhandled s" unfolding st(6) using st(2) by (simp add: on_rail_comp)
qed

lemma pending_put [simp]: "pending_apple (with_rails g peer) (moved a rail_put r) = pending_apple peer r"
  by (simp add: pending_apple_def moved_def rail_put_def Let_def tbv_rail_apple_service_ready_def)

lemma has_pending_put [simp]:
  "tbv_service_has_pending_apple_rail_locked (tbv_rail_put a s) = tbv_service_has_pending_apple_rail_locked s"
  by (simp add: tbv_service_has_pending_apple_rail_locked_def tbv_rail_put_def pairs_on_rail list_ex_iff case_prod_unfold)

lemma has_pending_field [simp]:
  "tbv_service_has_pending_apple_rail_locked (s\<lparr>ts_apple_rails_pending := b\<rparr>) = tbv_service_has_pending_apple_rail_locked s"
  by (simp add: tbv_service_has_pending_apple_rail_locked_def pairs_def)

lemma ready_apple_field [simp]:
  "ready_apple env (s\<lparr>ts_apple_rails_pending := b\<rparr>) = ready_apple env s" "pairs (s\<lparr>ts_apple_rails_pending := b\<rparr>) = pairs s"
  by (simp_all add: ready_apple_def [abs_def] tbv_service_tbnet_path_ready_def pairs_def)

text \<open>
  C29: The work of the Apple rails returns when devices are registered. On any reachable topology it
  takes finitely many rails, whatever the answers of the controller, the packet service and the registration are. If it does
  not ask for another run, no rail is left that it could still offer, and the flag for waiting rails says whether
  rails still wait for the packet service.
\<close>

theorem apple_work_returns:
  assumes "topo_reachable state" and "ts_register_enabled state"
    and "ts_apple_rails_wait_tbnet state = (rc_tbnet_identity (ts_cfg state) = TBV_TBNET_ID_MINIMAL_PACKET)"
  shows "\<exists>retry state'. apple_rail_loop env state = Some (retry, state')
    \<and> (\<not> retry \<longrightarrow> (\<forall>(peer, rail) \<in> set (pairs state'). \<not> ready_apple (sv_pub env) state' peer rail))
    \<and> ts_apple_rails_pending state' = tbv_service_has_pending_apple_rail_locked state'"
proof -
  have "apple_inv state" using assms topo_reachable_ok by (simp add: apple_inv_def waits_right_def)
  then show ?thesis
  proof (induction "unhandled state" arbitrary: state rule: less_induct)
    case less
    show ?case
    proof (cases "next_rail (ready_apple (sv_pub env) state) state")
      case None
      then have "\<forall>(peer, rail) \<in> set (pairs state). \<not> ready_apple (sv_pub env) state peer rail" by (simp add: next_rail_None)
      then show ?thesis
        using None by (subst apple_rail_loop.simps)
          (auto simp: next_pending_alt tbv_service_refresh_apple_rails_pending_def)
    next
      case (Some a)
      obtain ret s3 where pub: "tbv_service_publish_apple_rail env a (on_rail a rail_get state) = (ret, s3)" by fastforce
      show ?thesis
      proof (cases ret)
        case (Inr u)
        note st = apple_step_inv [OF less.prems Some pub [unfolded Inr]]
        show ?thesis
          using less.hyps [OF st(2,1)] Some pub Inr by (subst apple_rail_loop.simps) (simp add: next_pending_alt)
      next
        case (Inl e)
        let ?s = "tbv_rail_put a (tbv_service_refresh_apple_rails_pending s3)"
        have flag: "ts_apple_rails_pending ?s = tbv_service_has_pending_apple_rail_locked ?s"
          by (simp add: tbv_service_refresh_apple_rails_pending_def) (simp add: tbv_rail_put_def on_rail_def)
        have "\<not> ready_apple (sv_pub env) ?s peer rail"
          if "\<not> ts_apple_rails_pending ?s" "(peer, rail) \<in> set (pairs ?s)" for peer rail
          using that unfolding flag tbv_service_has_pending_apple_rail_locked_def by (auto simp: list_ex_iff ready_apple_def)
        then show ?thesis
          using Some pub Inl flag by (subst apple_rail_loop.simps) (auto simp: next_pending_alt Let_def)
      qed
    qed
  qed
qed

section \<open>The work that does not return\<close>

lemma apple_loop_unchanged:
  assumes "topo_ok s" and "\<not> ts_register_enabled s" and "next_rail (ready_apple (sv_pub env) s) s = Some a"
    and "locate a s = Some (peer, rail)" and "ra_path_state rail = TBV_PATH_TUNNEL_ENABLED"
  shows "tbv_service_publish_apple_rail env a (on_rail a rail_get s) = (Inr (), on_rail a rail_get s)"
    and "tbv_rail_put a (on_rail a rail_get s) = s"
proof -
  obtain p r where m: "(p, r) \<in> set (pairs s)" and c: "ready_apple (sv_pub env) s p r" and a: "ra_addr r = a"
    using assms(3) by (rule next_rail_Some)
  have r: "r = rail" "p = peer" using locate_pair [OF assms(1) m] assms(4) a by simp_all
  have "locate a (on_rail a rail_get s) = Some (with_rails (moved a rail_get) peer, rail_get rail)"
    using locate_get [OF assms(1) m] a r by simp
  then show "tbv_service_publish_apple_rail env a (on_rail a rail_get s) = (Inr (), on_rail a rail_get s)"
    using assms(2,5) c r by (simp add: tbv_service_publish_apple_rail_def tbv_service_enable_apple_rail_tunnel_def
        tbv_ibdev_rail_event_def ready_apple_def pending_apple_def)
  have "0 < ra_refcnt rail" using all_rails_ok [OF assms(1) pair_in_all_rails [OF m]] c r
    by (auto simp: rail_ok_def ready_apple_def pending_apple_def)
  then show "tbv_rail_put a (on_rail a rail_get s) = s"
    using all_rails_locate [OF assms(1,4)]
    by (simp add: tbv_rail_put_def on_rail_comp) (intro on_rail_idle, simp add: rail_put_def rail_get_def Let_def)
qed

lemma apple_loop_spins:
  assumes "topo_ok s" and "\<not> ts_register_enabled s" and "next_rail (ready_apple (sv_pub env) s) s = Some a"
    and "locate a s = Some (peer, rail)" and "ra_path_state rail = TBV_PATH_TUNNEL_ENABLED"
  shows "apple_rail_loop env s = None"
proof -
  note u = apple_loop_unchanged [OF assms]
  have "\<not> (x = env \<and> t = s)" if "apple_rail_loop x t = Some y" for x t y
  proof (rule apple_rail_loop.raw_induct [where P = "\<lambda>x t y. \<not> (x = env \<and> t = s)", OF _ that])
    fix f x t y
    assume IH: "\<And>x t y. f x t = Some y \<Longrightarrow> \<not> (x = env \<and> t = s)"
      and E: "(case tbv_service_next_pending_apple_rail (sv_pub x) t of (None, state) \<Rightarrow> Some (False, state)
        | (Some a, state) \<Rightarrow> (case tbv_service_publish_apple_rail x a state of
            (Inl e, state) \<Rightarrow> (let state = tbv_rail_put a (tbv_service_refresh_apple_rails_pending state)
                in Some (ts_apple_rails_pending state, state))
          | (Inr _, state) \<Rightarrow> f x (tbv_rail_put a state))) = Some y"
    show "\<not> (x = env \<and> t = s)"
    proof
      assume "x = env \<and> t = s"
      then have "f env s = Some y" using E u assms(3) by (simp add: next_pending_alt)
      from IH [OF this] show False by simp
    qed
  qed
  then show ?thesis by (cases "apple_rail_loop env s") auto
qed

text \<open>A rail whose tunnel is still to be enabled is the chosen one again after its tunnel has been enabled.\<close>

lemma ready_apple_tunnel:
  assumes "p_state (hw_path hw) = TBV_PATH_TUNNEL_ENABLED" and "\<And>r. r \<in> all_rails s \<Longrightarrow> ra_addr r = a \<Longrightarrow> tbv_rail_apple_service_ready r"
  shows "next_rail (ready_apple env (on_rail a (set_hw (Some hw)) s)) (on_rail a (set_hw (Some hw)) s)
    = next_rail (ready_apple env s) s"
proof -
  let ?s = "on_rail a (set_hw (Some hw)) s" and ?m = "moved a (set_hw (Some hw))"
  have r: "ready_apple env ?s (with_rails ?m p) (?m r) = ready_apple env s p r" if "(p, r) \<in> set (pairs s)" for p r
    using assms(1) assms(2) [OF pair_in_all_rails [OF that]]
    by (auto simp: ready_apple_def pending_apple_def tbv_service_tbnet_path_ready_def moved_def set_hw_def
        tbv_rail_apple_service_ready_def)
  have "map_option (ra_addr \<circ> snd) (find (\<lambda>(p, r). ready_apple env ?s p r) (map (map_prod (with_rails ?m) ?m) ps))
      = map_option (ra_addr \<circ> snd) (find (\<lambda>(p, r). ready_apple env s p r) ps)"
    if "set ps \<subseteq> set (pairs s)" for ps
    using that by (induction ps) (auto simp: r, auto simp: moved_def)
  then show ?thesis by (simp add: next_rail_def pairs_on_rail)
qed

text \<open>
  C30: The work of the Apple rails never returns while devices are not registered (the default of
  \<open>register_verbs\<close>). The verbs layer then reports success without marking the rail, so that the rail stays
  pending and is taken again, forever: no retry delay, no bound on the loop. It suffices that the first rail
  that is ready has its tunnel, or gets it.
\<close>

theorem apple_work_spins:
  assumes "topo_reachable (ss_state s)" and "\<not> ts_register_enabled (ss_state s)"
    and "ts_services_registered (ss_state s)" and "ts_enable_tunnels (ss_state s)"
    and "next_rail (ready_apple (sv_pub env) (ss_state s)) (ss_state s) = Some a" and "locate a (ss_state s) = Some (peer, rail)"
    and "ra_path_state rail = TBV_PATH_TUNNEL_ENABLED
      \<or> p_remote_transmit_path (ra_path rail) < 0 \<and> (\<forall>hop. sv_alloc_in_hopid env hop = Inr hop) \<and> sv_enable_paths env = Inr ()"
  shows "tbv_service_apple_rail_work env s = None"
proof -
  let ?s = "ss_state s"
  have ok: "topo_ok ?s" by (rule topo_reachable_ok [OF assms(1)])
  obtain p r where m: "(p, r) \<in> set (pairs ?s)" and c: "ready_apple (sv_pub env) ?s p r" and a: "ra_addr r = a"
    using assms(5) by (rule next_rail_Some)
  have r: "r = rail" "p = peer" using locate_pair [OF ok m] assms(6) a by simp_all
  have one: "x = rail" if "x \<in> all_rails ?s" "ra_addr x = a" for x by (rule all_rails_locate [OF ok assms(6) that])
  have "apple_rail_loop env ?s = None"
  proof (cases "ra_path_state rail = TBV_PATH_TUNNEL_ENABLED")
    case True
    then show ?thesis by (rule apple_loop_spins [OF ok assms(2,5,6)])
  next
    case False
    then have st: "ra_path_state rail = TBV_PATH_RING_STARTED" "\<not> ra_removing rail" and ap: "tbv_rail_apple_service_ready rail"
      using c r by (auto simp: ready_apple_def pending_apple_def tbv_rail_apple_service_ready_def)
    obtain hw where hw: "tbv_path_enable_tunnel (sv_tx env) (sv_alloc_in_hopid env) (sv_enable_paths env)
        (pc_receive_path (p_cfg (ra_path rail))) (ra_hw rail) = (Inr (), hw)"
      using False assms(7) st(1) by (auto simp: tbv_path_enable_tunnel_def on_path_def hw_emit_def Let_def)
    have tun: "p_state (hw_path hw) = TBV_PATH_TUNNEL_ENABLED" by (rule enable_tunnel_state [OF hw])
    let ?s' = "on_rail a (set_hw (Some hw)) ?s"
    have "locate a (on_rail a rail_get ?s) = Some (with_rails (moved a rail_get) peer, rail_get rail)"
      using locate_get [OF ok m] a r by simp
    then have "tbv_service_publish_apple_rail env a (on_rail a rail_get ?s) = (Inr (), on_rail a (set_hw (Some hw)) (on_rail a rail_get ?s))"
      using hw st assms(2) by (simp add: tbv_service_publish_apple_rail_def tbv_service_enable_apple_rail_tunnel_def
          tbv_ibdev_rail_event_def set_hw_def [abs_def])
    moreover have "tbv_rail_put a (on_rail a (set_hw (Some hw)) (on_rail a rail_get ?s)) = ?s'"
    proof -
      have "0 < ra_refcnt rail" using all_rails_ok [OF ok pair_in_all_rails [OF m]] st(2) r by (simp add: rail_ok_def)
      then have "on_rail a (rail_put \<circ> (set_hw (Some hw) \<circ> rail_get)) ?s = ?s'"
        by (intro on_rail_cong) (auto dest: one simp: set_hw_def rail_put_def rail_get_def Let_def)
      then show ?thesis by (simp add: tbv_rail_put_def on_rail_comp comp_assoc)
    qed
    ultimately have "apple_rail_loop env ?s = apple_rail_loop env ?s'"
      using assms(5) by (subst apple_rail_loop.simps) (simp add: next_pending_alt)
    also have "\<dots> = None"
    proof (rule apple_loop_spins)
      show "topo_ok ?s'" by (rule topo_ok_quiet [OF ok]) simp
      show "\<not> ts_register_enabled ?s'" using assms(2) by simp
      show "next_rail (ready_apple (sv_pub env) ?s') ?s' = Some a"
        using ready_apple_tunnel [OF tun, of ?s a "sv_pub env"] ap one assms(5) by metis
      show "locate a ?s' = Some (with_rails (moved a (set_hw (Some hw))) peer, set_hw (Some hw) rail)"
        using assms(6) a r by (subst locate_on_rail) (simp_all add: moved_def)
      show "ra_path_state (set_hw (Some hw) rail) = TBV_PATH_TUNNEL_ENABLED" using tun by (simp add: set_hw_def)
    qed
    finally show ?thesis .
  qed
  moreover have "tbv_service_tbnet_path_ready (sv_pub env) ?s None"
    using c by (auto simp: ready_apple_def tbv_service_tbnet_path_ready_def tbv_tbnet_minimal_path_ready_def list_ex_iff
        split: if_splits)
  ultimately show ?thesis using assms(3,4) by (simp add: tbv_service_apple_rail_work_def Let_def)
qed

section \<open>Concrete runs\<close>

text \<open>One Apple peer with a rail whose rings are started.\<close>

definition apple_host :: tbv_state where
  "apple_host = on_rail 30 (rings_started 9)
     (snd (tbv_peer_add_rail (demo_rail_env 30) 10 (Rail_key 1 0 0 64087) 0
       (snd (tbv_peer_get_or_create (Some 10) TBV_BACKEND_APPLE (demo_xd 5) (empty_state False)))))"

lemma apple_host_reachable: "topo_reachable apple_host"
proof -
  let ?s0 = "snd (tbv_peer_get_or_create (Some 10) TBV_BACKEND_APPLE (demo_xd 5) (empty_state False))"
  have "topo_reachable (empty_state False)" by (rule topo_init) (simp add: empty_state_def)
  then have "topo_reachable ?s0" by (rule topo_create) (simp add: empty_state_def)
  then have "topo_reachable (snd (tbv_peer_add_rail (demo_rail_env 30) 10 (Rail_key 1 0 0 64087) 0 ?s0))"
    by (rule topo_add [where b = 30]) (auto simp: topo_eval Let_def split: if_splits)
  then show ?thesis unfolding apple_host_def by (rule topo_quiet) (simp add: quiet_def rings_started_def)
qed

lemmas apple_eval = apple_host_def rings_started_def pub_eval ready_apple_def pending_apple_def tbv_rail_apple_service_ready_def
  tbv_service_tbnet_path_ready_def demo_svc_def demo_svc_env_def

theorem apple_work_spins_witness: "tbv_service_apple_rail_work demo_svc_env (demo_svc apple_host) = None"
proof -
  obtain peer rail where l: "locate 30 apple_host = Some (peer, rail)" "p_remote_transmit_path (ra_path rail) < 0"
    by (simp add: apple_eval)
  have n: "next_rail (ready_apple demo_pub_env apple_host) apple_host = Some 30" by (simp add: apple_eval)
  have f: "\<not> ts_register_enabled apple_host" "ts_services_registered apple_host" "ts_enable_tunnels apple_host"
    by (simp_all add: apple_eval)
  have d: "ss_state (demo_svc apple_host) = apple_host" "sv_pub demo_svc_env = demo_pub_env"
    "\<forall>hop. sv_alloc_in_hopid demo_svc_env hop = Inr hop" "sv_enable_paths demo_svc_env = Inr ()"
    by (simp_all add: demo_svc_def demo_svc_env_def)
  show ?thesis
    by (rule apple_work_spins [of "demo_svc apple_host" demo_svc_env 30 peer rail]) (use apple_host_reachable l n f d in simp_all)
qed

theorem apple_work_returns_witness:
  "\<exists>retry state'. apple_rail_loop demo_svc_env (apple_host\<lparr>ts_register_enabled := True\<rparr>) = Some (retry, state')
     \<and> (\<not> retry \<longrightarrow> (\<forall>(peer, rail) \<in> set (pairs state'). \<not> ready_apple demo_pub_env state' peer rail))"
proof -
  have "topo_reachable (apple_host\<lparr>ts_register_enabled := True\<rparr>)" by (rule topo_other [OF apple_host_reachable]) simp_all
  moreover have "ts_apple_rails_wait_tbnet apple_host = (rc_tbnet_identity (ts_cfg apple_host) = TBV_TBNET_ID_MINIMAL_PACKET)"
    by (simp add: apple_eval)
  ultimately show ?thesis
    using apple_work_returns [of "apple_host\<lparr>ts_register_enabled := True\<rparr>" demo_svc_env] by (auto simp: demo_svc_env_def)
qed

end
