(* ===== verification/Verbs_Memory.thy ===== *)
theory Verbs_Memory
  imports Native_Data Profile "HOL-Library.Multiset"
begin

text \<open>
  \<^verbatim>\<open>src/kernel/ibdev.c\<close>, memory: the registry of memory regions with its reference counts, the bounds
  checks of every access to user memory, the scatter/gather lists of work requests and the copies
  from and to them.

  The pinned pages of a region are a scatterlist over physical memory, a function from
  addresses to bytes, so that two regions over the same pages alias. What copies from and to
  a scatterlist is kernel code: the argument \<open>K\<close> holds the two functions, and \<open>mem_env_ok\<close> is
  their documented behaviour. Memory regions are objects in \<open>vm_heap\<close>; \<open>vm_xa\<close> is
  \<^verbatim>\<open>verbs_mrs_xa\<close>, \<open>vm_free_work\<close> the queued work items.
\<close>

section \<open>Pinned memory\<close>

type_synonym memory = "nat \<Rightarrow> u8"

record tbv_sg =
  sg_pfn :: nat
  sg_offset :: nat
  sg_length :: nat

record ib_umem =
  um_offset :: nat
  um_length :: nat
  um_sgl :: "tbv_sg list"

abbreviation PAGE_SIZE :: nat where "PAGE_SIZE \<equiv> 4096"

text \<open>The physical addresses of the bytes of a scatterlist, and those of the registered range.\<close>

fun sg_addrs :: "tbv_sg list \<Rightarrow> nat list" where
  "sg_addrs [] = []"
| "sg_addrs (sg # sgl) =
     map (\<lambda>j. sg_pfn sg * PAGE_SIZE + sg_offset sg + j) [0..<sg_length sg] @ sg_addrs sgl"

definition umem_addrs :: "ib_umem \<Rightarrow> nat list" where
  "umem_addrs um = take (um_length um) (drop (um_offset um) (sg_addrs (um_sgl um)))"

fun mem_write :: "memory \<Rightarrow> nat list \<Rightarrow> u8 list \<Rightarrow> memory" where
  "mem_write m (a # as) (b # bs) = mem_write (m(a := b)) as bs"
| "mem_write m as bs = m"

record mem_env =
  sg_pcopy_from_buffer :: "tbv_sg list \<Rightarrow> memory \<Rightarrow> u8 list \<Rightarrow> nat \<Rightarrow> memory \<times> nat"
  ib_umem_copy_from :: "ib_umem \<Rightarrow> memory \<Rightarrow> nat \<Rightarrow> nat \<Rightarrow> u8 list res"

text \<open>
  Documented behaviour: \<open>sg_pcopy_from_buffer\<close> skips a number of bytes of the list and
  writes as much of the buffer as the list has room for; \<open>ib_umem_copy_from\<close> reads a range of the
  registered memory and refuses one that leaves it.
\<close>

definition mem_env_ok :: "mem_env \<Rightarrow> bool" where
  "mem_env_ok K \<longleftrightarrow>
     (\<forall>sgl m src skip. sg_pcopy_from_buffer K sgl m src skip =
        (mem_write m (drop skip (sg_addrs sgl)) src,
         min (length src) (length (sg_addrs sgl) - skip))) \<and>
     (\<forall>um m off len. um_offset um + um_length um \<le> length (sg_addrs (um_sgl um)) \<longrightarrow>
        ib_umem_copy_from K um m off len =
          (if off + len \<le> um_length um then Inr (map m (take len (drop off (umem_addrs um))))
           else Inl EINVAL))"

section \<open>Memory regions\<close>

record tbv_mr =
  mr_lkey :: u32
  mr_umem :: "ib_umem ptr"
  mr_refs :: nat
  mr_start :: u64
  mr_length :: u64
  mr_virt_addr :: u64
  mr_access :: u32
  mr_closing :: bool
  mr_dma :: bool

record verbs_mem =
  vm_heap :: "nat \<Rightarrow> tbv_mr option"
  vm_xa :: "u32 \<Rightarrow> nat option"
  vm_mr_key :: u32
  vm_verbs_mrs :: int
  vm_free_work :: "nat list"

abbreviation IB_ACCESS_LOCAL_WRITE :: u32 where "IB_ACCESS_LOCAL_WRITE \<equiv> 1"
abbreviation U64_MAX :: u64 where "U64_MAX \<equiv> - 1"

definition mr_at :: "verbs_mem \<Rightarrow> nat \<Rightarrow> tbv_mr" where
  "mr_at V a = the (vm_heap V a)"

definition set_refs :: "nat \<Rightarrow> nat \<Rightarrow> verbs_mem \<Rightarrow> verbs_mem" where
  "set_refs a n V = V\<lparr>vm_heap := (vm_heap V)(a \<mapsto> (mr_at V a)\<lparr>mr_refs := n\<rparr>)\<rparr>"

text \<open>\<open>refcount_inc_not_zero\<close> under the lock of the array.\<close>

definition tbv_mr_get :: "verbs_mem \<Rightarrow> u32 \<Rightarrow> verbs_mem \<times> nat ptr" where
  "tbv_mr_get V lookup =
     (case vm_xa V lookup of
        None \<Rightarrow> (V, None)
      | Some a \<Rightarrow>
          if \<not> mr_closing (mr_at V a) \<and> mr_refs (mr_at V a) \<noteq> 0
          then (set_refs a (mr_refs (mr_at V a) + 1) V, Some a)
          else (V, None))"

definition tbv_mr_free :: "nat \<Rightarrow> verbs_mem \<Rightarrow> verbs_mem" where
  "tbv_mr_free a V = V\<lparr>vm_verbs_mrs := vm_verbs_mrs V - 1, vm_heap := (vm_heap V)(a := None)\<rparr>"

text \<open>The work item runs once for each time it was queued.\<close>

definition tbv_mr_free_work :: "nat \<Rightarrow> verbs_mem \<Rightarrow> verbs_mem" where
  "tbv_mr_free_work a V = tbv_mr_free a (V\<lparr>vm_free_work := remove1 a (vm_free_work V)\<rparr>)"

text \<open>A \<open>refcount_t\<close> that is already zero is reported and never tests as zero again.\<close>

definition tbv_mr_put :: "verbs_mem \<Rightarrow> nat ptr \<Rightarrow> verbs_mem" where
  "tbv_mr_put V p =
     (case p of
        None \<Rightarrow> V
      | Some a \<Rightarrow>
          (case mr_refs (mr_at V a) of
             0 \<Rightarrow> V
           | Suc n \<Rightarrow>
               (let V' = set_refs a n V
                in if n = 0 then V'\<lparr>vm_free_work := vm_free_work V' @ [a]\<rparr> else V')))"

text \<open>\<open>xa_ok\<close> is whether \<open>__xa_insert\<close> finds the memory it needs.\<close>

definition tbv_mr_publish :: "nat \<Rightarrow> bool \<Rightarrow> verbs_mem \<Rightarrow> verbs_mem \<times> unit res" where
  "tbv_mr_publish a xa_ok V =
     (let new_key = vm_mr_key V + 1;
          V1 = V\<lparr>vm_mr_key := new_key,
                 vm_heap := (vm_heap V)(a \<mapsto> (mr_at V a)\<lparr>mr_lkey := new_key, mr_refs := 1\<rparr>)\<rparr>
      in if vm_xa V1 new_key \<noteq> None then (V1, Inl EBUSY)
         else if \<not> xa_ok then (V1, Inl ENOMEM)
         else (V1\<lparr>vm_xa := (vm_xa V1)(new_key \<mapsto> a), vm_verbs_mrs := vm_verbs_mrs V1 + 1\<rparr>, Inr ()))"

definition zeroed_mr :: tbv_mr where
  "zeroed_mr = \<lparr>mr_lkey = 0, mr_umem = None, mr_refs = 0, mr_start = 0, mr_length = 0,
     mr_virt_addr = 0, mr_access = 0, mr_closing = False, mr_dma = False\<rparr>"

definition kfree_mr :: "nat \<Rightarrow> verbs_mem \<Rightarrow> verbs_mem" where
  "kfree_mr a V = V\<lparr>vm_heap := (vm_heap V)(a := None)\<rparr>"

definition tbv_get_dma_mr :: "nat ptr \<Rightarrow> bool \<Rightarrow> u32 \<Rightarrow> verbs_mem \<Rightarrow> verbs_mem \<times> nat res" where
  "tbv_get_dma_mr mem xa_ok access V =
     (case mem of
        None \<Rightarrow> (V, Inl ENOMEM)
      | Some a \<Rightarrow>
          (let mr = zeroed_mr\<lparr>mr_start := 0, mr_length := U64_MAX, mr_virt_addr := 0,
                              mr_access := access, mr_dma := True\<rparr>;
               (V', ret) = tbv_mr_publish a xa_ok (V\<lparr>vm_heap := (vm_heap V)(a \<mapsto> mr)\<rparr>)
           in case ret of Inl e \<Rightarrow> (kfree_mr a V', Inl e) | Inr _ \<Rightarrow> (V', Inr a)))"

text \<open>\<open>pinned\<close> is the answer of \<open>ib_umem_get\<close>.\<close>

definition tbv_reg_user_mr ::
  "nat ptr \<Rightarrow> ib_umem res \<Rightarrow> bool \<Rightarrow> u64 \<Rightarrow> u64 \<Rightarrow> u64 \<Rightarrow> u32 \<Rightarrow> verbs_mem \<Rightarrow> verbs_mem \<times> nat res" where
  "tbv_reg_user_mr mem pinned xa_ok start len virt_addr access V =
     (if len = 0 then (V, Inl EINVAL)
      else case mem of
        None \<Rightarrow> (V, Inl ENOMEM)
      | Some a \<Rightarrow>
          (case pinned of
             Inl e \<Rightarrow> (V, Inl e)
           | Inr um \<Rightarrow>
               (let mr = zeroed_mr\<lparr>mr_umem := Some um, mr_start := start, mr_length := len,
                                   mr_virt_addr := virt_addr, mr_access := access\<rparr>;
                    (V', ret) = tbv_mr_publish a xa_ok (V\<lparr>vm_heap := (vm_heap V)(a \<mapsto> mr)\<rparr>)
                in case ret of Inl e \<Rightarrow> (kfree_mr a V', Inl e) | Inr _ \<Rightarrow> (V', Inr a))))"

definition tbv_dereg_mr :: "nat \<Rightarrow> verbs_mem \<Rightarrow> verbs_mem" where
  "tbv_dereg_mr a V =
     (let mr = mr_at V a;
          V' = V\<lparr>vm_heap := (vm_heap V)(a \<mapsto> mr\<lparr>mr_closing := True\<rparr>),
                 vm_xa := (vm_xa V)(mr_lkey mr := None)\<rparr>
      in tbv_mr_put V' (Some a))"

section \<open>Access to the memory of a region\<close>

text \<open>\<open>check_add_overflow\<close>: the wrapped sum is smaller than its operand.\<close>

definition add_overflows :: "'a :: len word \<Rightarrow> 'a word \<Rightarrow> bool" where
  "add_overflows a b \<longleftrightarrow> a + b < a"

definition tbv_umem_copy_to ::
  "mem_env \<Rightarrow> tbv_mr \<Rightarrow> u64 \<Rightarrow> u8 list \<Rightarrow> memory \<Rightarrow> memory \<times> unit res" where
  "tbv_umem_copy_to K mr addr src m =
     (let len = of_nat (length src) :: u64
      in if length src = 0 then (m, Inr ())
         else if mr_dma mr then (m, Inl EOPNOTSUPP)
         else if add_overflows addr len then (m, Inl EINVAL)
         else if add_overflows (mr_start mr) (mr_length mr) then (m, Inl EINVAL)
         else if addr < mr_start mr \<or> addr + len > mr_start mr + mr_length mr
         then (m, Inl EFAULT)
         else
           (let um = the (mr_umem mr);
                offset = of_nat (um_offset um) + addr - mr_start mr;
                (m', copied) = sg_pcopy_from_buffer K (um_sgl um) m src (unat offset)
            in (m', if copied = length src then Inr () else Inl EFAULT)))"

definition tbv_umem_copy_to_iova ::
  "mem_env \<Rightarrow> tbv_mr \<Rightarrow> u64 \<Rightarrow> u8 list \<Rightarrow> memory \<Rightarrow> memory \<times> unit res" where
  "tbv_umem_copy_to_iova K mr iova src m =
     (let len = of_nat (length src) :: u64
      in if length src = 0 then (m, Inr ())
         else if mr_dma mr then (m, Inl EOPNOTSUPP)
         else if add_overflows iova len then (m, Inl EINVAL)
         else if add_overflows (mr_virt_addr mr) (mr_length mr) then (m, Inl EINVAL)
         else if iova < mr_virt_addr mr \<or> iova + len > mr_virt_addr mr + mr_length mr
         then (m, Inl EFAULT)
         else if add_overflows (mr_start mr) (iova - mr_virt_addr mr) then (m, Inl EINVAL)
         else tbv_umem_copy_to K mr (mr_start mr + (iova - mr_virt_addr mr)) src m)"

definition tbv_umem_iova_to_addr :: "tbv_mr \<Rightarrow> u64 \<Rightarrow> u64 \<Rightarrow> u64 res" where
  "tbv_umem_iova_to_addr mr iova len =
     (if mr_dma mr then Inl EOPNOTSUPP
      else if add_overflows iova len then Inl EINVAL
      else if add_overflows (mr_virt_addr mr) (mr_length mr) then Inl EINVAL
      else if iova < mr_virt_addr mr \<or> iova + len > mr_virt_addr mr + mr_length mr
      then Inl EFAULT
      else if add_overflows (mr_start mr) (iova - mr_virt_addr mr) then Inl EINVAL
      else Inr (mr_start mr + (iova - mr_virt_addr mr)))"

definition tbv_umem_copy_from_iova ::
  "mem_env \<Rightarrow> tbv_mr \<Rightarrow> u64 \<Rightarrow> u64 \<Rightarrow> memory \<Rightarrow> u8 list res" where
  "tbv_umem_copy_from_iova K mr iova len m =
     (if len = 0 then Inr []
      else case tbv_umem_iova_to_addr mr iova len of
        Inl e \<Rightarrow> Inl e
      | Inr addr \<Rightarrow>
          ib_umem_copy_from K (the (mr_umem mr)) m (unat (addr - mr_start mr)) (unat len))"

text \<open>The walk over the scatterlist, to the page that holds the byte at \<open>offset\<close>.\<close>

fun page_walk :: "tbv_sg list \<Rightarrow> nat \<Rightarrow> nat \<Rightarrow> (nat \<times> nat \<times> nat) res" where
  "page_walk [] offset max_len = Inl EFAULT"
| "page_walk (sg # sgl) offset max_len =
     (if offset \<ge> sg_length sg then page_walk sgl (offset - sg_length sg) max_len
      else
        (let seg_off = sg_offset sg + offset;
             page_off = seg_off mod PAGE_SIZE;
             chunk = min (min (min (PAGE_SIZE - page_off) (sg_length sg - offset)) max_len)
                       (unat TBV_NATIVE_DATA_FRAME_SIZE)
         in if chunk = 0 then Inl EFAULT
            else Inr (sg_pfn sg + seg_off div PAGE_SIZE, page_off, chunk)))"

definition tbv_umem_page_from_addr :: "tbv_mr \<Rightarrow> u64 \<Rightarrow> u32 \<Rightarrow> (nat \<times> nat \<times> nat) res" where
  "tbv_umem_page_from_addr mr addr max_len =
     (let len = ucast max_len :: u64
      in if max_len = 0 then Inl EINVAL
         else if mr_dma mr then Inl EOPNOTSUPP
         else if add_overflows addr len then Inl EINVAL
         else if add_overflows (mr_start mr) (mr_length mr) then Inl EINVAL
         else if addr < mr_start mr \<or> addr + len > mr_start mr + mr_length mr
         then Inl EFAULT
         else
           (let um = the (mr_umem mr)
            in page_walk (um_sgl um) (unat (of_nat (um_offset um) + addr - mr_start mr))
                 (unat max_len)))"

section \<open>Writes to physical memory\<close>

lemma mem_write_take: "mem_write m as bs = mem_write m (take (length bs) as) bs"
  by (induction m as bs rule: mem_write.induct) (auto simp del: fun_upd_apply)

lemma mem_write_other: "p \<notin> set (take (length bs) as) \<Longrightarrow> mem_write m as bs p = m p"
  by (induction m as bs rule: mem_write.induct) auto

lemma map_mem_write:
  "distinct as \<Longrightarrow> length as = length bs \<Longrightarrow> map (mem_write m as bs) as = bs"
proof (induction m as bs rule: mem_write.induct)
  case (1 m a as b bs)
  have "mem_write (m(a := b)) as bs a = b"
    using 1(2) by (subst mem_write_other) (auto dest: in_set_takeD)
  then show ?case using 1 by (simp del: fun_upd_apply)
qed auto

section \<open>What the bounds checks establish\<close>

lemma unat_u64_less: "unat (x :: u64) < 18446744073709551616"
  using unsigned_less [of x, where ?'a = nat] by simp

lemma add_overflows_iff: "add_overflows (a :: u64) b \<longleftrightarrow> 18446744073709551616 \<le> unat a + unat b"
  using unat_u64_less [of a] unat_u64_less [of b]
  by (auto simp: add_overflows_def word_less_nat_alt unat_word_ariths mod_if)

lemma add_overflows_u32_iff: "add_overflows (a :: u32) b \<longleftrightarrow> 4294967296 \<le> unat a + unat b"
  using unat_less_2p32 [of a] unat_less_2p32 [of b]
  by (auto simp: add_overflows_def word_less_nat_alt unat_word_ariths mod_if)

lemma unat_add_u64: "\<not> add_overflows (a :: u64) b \<Longrightarrow> unat (a + b) = unat a + unat b"
  by (simp add: add_overflows_iff unat_word_ariths)

lemma unat_sub_u64: "b \<le> a \<Longrightarrow> unat ((a :: u64) - b) = unat a - unat b"
  by (simp add: unat_sub)

text \<open>
  The memory behind a region: \<open>ib_umem_get\<close> pins the pages of the whole range, which does not wrap
  around, and its offset is that of the start in its page.
\<close>

definition pins :: "ib_umem \<Rightarrow> u64 \<Rightarrow> u64 \<Rightarrow> bool" where
  "pins um start len \<longleftrightarrow>
     unat start + unat len < 18446744073709551616 \<and> um_offset um \<le> unat start \<and>
     um_length um = unat len \<and> um_offset um + um_length um \<le> length (sg_addrs (um_sgl um))"

definition mr_backed :: "tbv_mr \<Rightarrow> bool" where
  "mr_backed mr \<longleftrightarrow>
     mr_dma mr \<or> (\<exists>um. mr_umem mr = Some um \<and> pins um (mr_start mr) (mr_length mr))"

text \<open>The physical addresses of the bytes of a region, in the order of their virtual addresses.\<close>

definition mr_addrs :: "tbv_mr \<Rightarrow> nat list" where
  "mr_addrs mr = (case mr_umem mr of None \<Rightarrow> [] | Some um \<Rightarrow> umem_addrs um)"

definition window :: "tbv_mr \<Rightarrow> nat \<Rightarrow> nat \<Rightarrow> nat list" where
  "window mr off len = take len (drop off (mr_addrs mr))"

lemma length_mr_addrs:
  "mr_backed mr \<Longrightarrow> \<not> mr_dma mr \<Longrightarrow> length (mr_addrs mr) = unat (mr_length mr)"
  by (auto simp: mr_backed_def mr_addrs_def umem_addrs_def pins_def)

lemma length_window:
  "mr_backed mr \<Longrightarrow> \<not> mr_dma mr \<Longrightarrow> off + len \<le> unat (mr_length mr) \<Longrightarrow> length (window mr off len) = len"
  by (simp add: window_def length_mr_addrs)

definition in_region :: "u64 \<Rightarrow> u64 \<Rightarrow> u64 \<Rightarrow> nat \<Rightarrow> bool" where
  "in_region base bytes addr len \<longleftrightarrow>
     unat base + unat bytes < 18446744073709551616 \<and> base \<le> addr \<and> unat addr + len \<le> unat base + unat bytes"

text \<open>Every checked access has the same three tests.\<close>

lemma in_region_iff:
  assumes "unat (len :: u64) = n"
  shows "\<not> add_overflows addr len \<and> \<not> add_overflows base bytes \<and> \<not> (addr < base \<or> addr + len > base + bytes)
    \<longleftrightarrow> in_region base bytes addr n"
proof (cases "add_overflows addr len \<or> add_overflows base bytes")
  case True
  then show ?thesis
    using assms by (auto simp: in_region_def add_overflows_iff)
next
  case False
  then have "unat (addr + len) = unat addr + n" "unat (base + bytes) = unat base + unat bytes"
    using assms by (auto simp: unat_add_u64)
  then show ?thesis
    using False assms by (auto simp: in_region_def add_overflows_iff word_less_nat_alt word_le_nat_alt)
qed

lemma unat_len: "length (bs :: u8 list) < 18446744073709551616 \<Longrightarrow> unat (of_nat (length bs) :: u64) = length bs"
  by (simp add: unat_of_nat)

lemma sg_skip:
  assumes "pins um (mr_start mr) (mr_length mr)"
    and "mr_start mr \<le> addr" and "unat addr \<le> unat (mr_start mr) + unat (mr_length mr)"
  shows "unat (of_nat (um_offset um) + addr - mr_start mr) =
    um_offset um + (unat addr - unat (mr_start mr))"
proof -
  have o: "unat (of_nat (um_offset um) :: u64) = um_offset um"
    using assms(1) unat_u64_less [of "mr_start mr"] by (simp add: pins_def unat_of_nat)
  have d: "unat (addr - mr_start mr) = unat addr - unat (mr_start mr)"
    by (rule unat_sub_u64 [OF assms(2)])
  have "um_offset um + (unat addr - unat (mr_start mr)) < 18446744073709551616"
    using assms unat_u64_less [of addr] by (auto simp: pins_def word_le_nat_alt)
  then have "unat (of_nat (um_offset um) + (addr - mr_start mr)) =
      um_offset um + (unat addr - unat (mr_start mr))"
    using o d unat_add_u64 [of "of_nat (um_offset um)" "addr - mr_start mr"]
    by (simp add: add_overflows_iff)
  moreover have "of_nat (um_offset um) + addr - mr_start mr = of_nat (um_offset um) + (addr - mr_start mr)"
    by simp
  ultimately show ?thesis by (metis)
qed

lemma copy_to_cases:
  assumes "mem_env_ok K" and "mr_backed mr" and "length src < 18446744073709551616"
  shows "tbv_umem_copy_to K mr addr src m =
    (if src = [] then (m, Inr ())
     else if mr_dma mr then (m, Inl EOPNOTSUPP)
     else if in_region (mr_start mr) (mr_length mr) addr (length src)
     then (mem_write m (window mr (unat addr - unat (mr_start mr)) (length src)) src, Inr ())
     else (m, Inl (if add_overflows addr (of_nat (length src)) \<or> add_overflows (mr_start mr) (mr_length mr)
                   then EINVAL else EFAULT)))"
proof (cases "src = [] \<or> mr_dma mr \<or> \<not> in_region (mr_start mr) (mr_length mr) addr (length src)")
  case True
  then show ?thesis
    using in_region_iff [OF unat_len [OF assms(3)], of addr "mr_start mr" "mr_length mr"]
    by (auto simp: tbv_umem_copy_to_def Let_def)
next
  case False
  then obtain um where um: "mr_umem mr = Some um" "pins um (mr_start mr) (mr_length mr)"
    using assms(2) by (auto simp: mr_backed_def)
  define d where "d = unat addr - unat (mr_start mr)"
  have reg: "in_region (mr_start mr) (mr_length mr) addr (length src)" using False by simp
  then have off: "unat (of_nat (um_offset um) + addr - mr_start mr) = um_offset um + d"
    unfolding d_def by (intro sg_skip [OF um(2)]) (auto simp: in_region_def)
  have fits: "d + length src \<le> um_length um"
    using reg um(2) by (auto simp: in_region_def pins_def d_def word_le_nat_alt)
  let ?A = "sg_addrs (um_sgl um)"
  have room: "um_offset um + um_length um \<le> length ?A" using um(2) by (simp add: pins_def)
  have "take (length src) (drop (um_offset um + d) ?A) = window mr d (length src)"
    using fits by (simp add: window_def mr_addrs_def um umem_addrs_def drop_take min_def add.commute)
  then have "mem_write m (drop (um_offset um + d) ?A) src = mem_write m (window mr d (length src)) src"
    by (subst mem_write_take) simp
  moreover have "min (length src) (length ?A - (um_offset um + d)) = length src"
    using fits room by simp
  ultimately have "sg_pcopy_from_buffer K (um_sgl um) m src (um_offset um + d) =
      (mem_write m (window mr d (length src)) src, length src)"
    using assms(1) by (simp add: mem_env_ok_def)
  then show ?thesis
    using False um(1) off reg in_region_iff [OF unat_len [OF assms(3)], of addr "mr_start mr" "mr_length mr"]
    by (simp add: tbv_umem_copy_to_def Let_def d_def)
qed

text \<open>
  For a backed region, a range of the addresses the peer uses lies in the region exactly if
  the range it is translated to does.
\<close>

lemma iova_translated:
  assumes "mr_backed mr" and "\<not> mr_dma mr" and "in_region (mr_virt_addr mr) (mr_length mr) iova n"
  defines "addr \<equiv> mr_start mr + (iova - mr_virt_addr mr)"
  shows "\<not> add_overflows (mr_start mr) (iova - mr_virt_addr mr)"
    and "in_region (mr_start mr) (mr_length mr) addr n"
    and "unat addr - unat (mr_start mr) = unat iova - unat (mr_virt_addr mr)"
    and "unat (addr - mr_start mr) = unat iova - unat (mr_virt_addr mr)"
proof -
  have le: "mr_virt_addr mr \<le> iova" using assms(3) by (simp add: in_region_def)
  have d: "unat (iova - mr_virt_addr mr) = unat iova - unat (mr_virt_addr mr)"
    by (rule unat_sub_u64 [OF le])
  have len: "unat iova - unat (mr_virt_addr mr) + n \<le> unat (mr_length mr)"
    using assms(3) le by (auto simp: in_region_def word_le_nat_alt)
  have total: "unat (mr_start mr) + unat (mr_length mr) < 18446744073709551616"
    using assms(1,2) by (auto simp: mr_backed_def pins_def)
  show no: "\<not> add_overflows (mr_start mr) (iova - mr_virt_addr mr)"
    using d len total by (simp add: add_overflows_iff)
  have a: "unat addr = unat (mr_start mr) + (unat iova - unat (mr_virt_addr mr))"
    unfolding addr_def using unat_add_u64 [OF no] d by simp
  show "in_region (mr_start mr) (mr_length mr) addr n"
    using a len total by (simp add: in_region_def word_le_nat_alt)
  show "unat addr - unat (mr_start mr) = unat iova - unat (mr_virt_addr mr)"
    using a by simp
  show "unat (addr - mr_start mr) = unat iova - unat (mr_virt_addr mr)"
    by (simp add: addr_def d)
qed

lemma copy_to_iova_cases:
  assumes "mem_env_ok K" and "mr_backed mr" and "length src < 18446744073709551616"
    and "src \<noteq> []" and "\<not> mr_dma mr"
  shows "in_region (mr_virt_addr mr) (mr_length mr) iova (length src) \<Longrightarrow>
      tbv_umem_copy_to_iova K mr iova src m =
      (mem_write m (window mr (unat iova - unat (mr_virt_addr mr)) (length src)) src, Inr ())"
    and "\<not> in_region (mr_virt_addr mr) (mr_length mr) iova (length src) \<Longrightarrow>
      \<exists>e. tbv_umem_copy_to_iova K mr iova src m = (m, Inl e)"
proof -
  note r = in_region_iff [OF unat_len [OF assms(3)], of iova "mr_virt_addr mr" "mr_length mr"]
  {
    assume i: "in_region (mr_virt_addr mr) (mr_length mr) iova (length src)"
    note tr = iova_translated [OF assms(2,5) i]
    show "tbv_umem_copy_to_iova K mr iova src m =
      (mem_write m (window mr (unat iova - unat (mr_virt_addr mr)) (length src)) src, Inr ())"
      using r i tr assms(4,5)
      by (simp add: tbv_umem_copy_to_iova_def Let_def copy_to_cases [OF assms(1-3)])
  }
  assume "\<not> in_region (mr_virt_addr mr) (mr_length mr) iova (length src)"
  then show "\<exists>e. tbv_umem_copy_to_iova K mr iova src m = (m, Inl e)"
    using r assms(4,5) by (auto simp: tbv_umem_copy_to_iova_def Let_def)
qed

lemma copy_from_iova_cases:
  assumes "mem_env_ok K" and "mr_backed mr" and "len \<noteq> 0" and "\<not> mr_dma mr"
  shows "in_region (mr_virt_addr mr) (mr_length mr) iova (unat len) \<Longrightarrow>
      tbv_umem_copy_from_iova K mr iova len m =
      Inr (map m (window mr (unat iova - unat (mr_virt_addr mr)) (unat len)))"
    and "\<not> in_region (mr_virt_addr mr) (mr_length mr) iova (unat len) \<Longrightarrow>
      \<exists>e. tbv_umem_copy_from_iova K mr iova len m = Inl e"
proof -
  note r = in_region_iff [OF refl, of iova len "mr_virt_addr mr" "mr_length mr"]
  {
    assume i: "in_region (mr_virt_addr mr) (mr_length mr) iova (unat len)"
    note tr = iova_translated [OF assms(2,4) i]
    obtain um where um: "mr_umem mr = Some um" "pins um (mr_start mr) (mr_length mr)"
      using assms(2,4) by (auto simp: mr_backed_def)
    let ?d = "unat iova - unat (mr_virt_addr mr)"
    have "?d + unat len \<le> um_length um"
      using i um(2) by (auto simp: in_region_def pins_def word_le_nat_alt)
    then have "ib_umem_copy_from K um m ?d (unat len) = Inr (map m (window mr ?d (unat len)))"
      using assms(1) um by (simp add: mem_env_ok_def pins_def window_def mr_addrs_def)
    moreover have "tbv_umem_iova_to_addr mr iova len = Inr (mr_start mr + (iova - mr_virt_addr mr))"
      using r i tr(1) assms(4) by (simp add: tbv_umem_iova_to_addr_def)
    ultimately show "tbv_umem_copy_from_iova K mr iova len m = Inr (map m (window mr ?d (unat len)))"
      using um(1) tr(4) assms(3) by (simp add: tbv_umem_copy_from_iova_def del: add_diff_cancel_left')
  }
  assume "\<not> in_region (mr_virt_addr mr) (mr_length mr) iova (unat len)"
  then show "\<exists>e. tbv_umem_copy_from_iova K mr iova len m = Inl e"
    using r assms(3,4) by (auto simp: tbv_umem_copy_from_iova_def tbv_umem_iova_to_addr_def)
qed

text \<open>
  A page handed out for transmission without a copy: consecutive bytes of one page, and exactly the next
  bytes of the scatterlist.
\<close>

lemma page_walk_addrs:
  "page_walk sgl off max_len = Inr (pfn, page_off, n) \<Longrightarrow>
     0 < n \<and> n \<le> max_len \<and> page_off + n \<le> PAGE_SIZE \<and>
     take n (drop off (sg_addrs sgl)) = map (\<lambda>j. pfn * PAGE_SIZE + page_off + j) [0..<n]"
proof (induction sgl off max_len rule: page_walk.induct)
  case (2 sg sgl off max_len)
  show ?case
  proof (cases "off \<ge> sg_length sg")
    case True
    then show ?thesis using 2 by simp
  next
    case False
    define so where "so = sg_offset sg + off"
    define chunk where "chunk = min (min (min (PAGE_SIZE - so mod PAGE_SIZE) (sg_length sg - off)) max_len)
                       (unat TBV_NATIVE_DATA_FRAME_SIZE)"
    have "page_walk (sg # sgl) off max_len = (if chunk = 0 then Inl EFAULT
        else Inr (sg_pfn sg + so div PAGE_SIZE, so mod PAGE_SIZE, chunk))"
      using False by (simp only: page_walk.simps if_False Let_def so_def chunk_def)
    then have "chunk \<noteq> 0" "n = chunk" and q: "pfn = sg_pfn sg + so div PAGE_SIZE" "page_off = so mod PAGE_SIZE"
      using 2(2) by (simp_all split: if_split_asm)
    moreover have "chunk \<le> PAGE_SIZE - so mod PAGE_SIZE" "chunk \<le> sg_length sg - off" "chunk \<le> max_len"
      unfolding chunk_def by (simp_all only: min.coboundedI1 min.coboundedI2 order_refl)
    ultimately have r: "pfn = sg_pfn sg + so div PAGE_SIZE" "page_off = so mod PAGE_SIZE" "0 < n"
      "n \<le> PAGE_SIZE - page_off" "n \<le> sg_length sg - off" "n \<le> max_len"
      by simp_all
    have "pfn * PAGE_SIZE + page_off = sg_pfn sg * PAGE_SIZE + so"
      unfolding r(1,2) by (simp add: algebra_simps)
    moreover have "take n (drop off (sg_addrs (sg # sgl))) =
        map (\<lambda>j. sg_pfn sg * PAGE_SIZE + so + j) [0..<n]"
      using r(5) False by (intro nth_equalityI) (auto simp: so_def nth_append)
    moreover have "page_off < PAGE_SIZE" unfolding r(2) by simp
    then have "page_off + n \<le> PAGE_SIZE" using r(4) by linarith
    ultimately show ?thesis using r(3,6) by (simp only: simp_thms)
  qed
qed simp

lemma rdma_write_facts:
  assumes "mem_env_ok K" and "mr_backed mr" and "length src < 2 ^ 64"
    and "tbv_umem_copy_to_iova K mr iova src m = (m', ret)"
  defines "w \<equiv> window mr (unat iova - unat (mr_virt_addr mr)) (length src)"
  shows "is_ok ret \<longleftrightarrow> src = [] \<or>
      \<not> mr_dma mr \<and> in_region (mr_virt_addr mr) (mr_length mr) iova (length src)"
    and "p \<notin> set w \<or> \<not> is_ok ret \<Longrightarrow> m' p = m p"
    and "is_ok ret \<Longrightarrow> src \<noteq> [] \<Longrightarrow> distinct (mr_addrs mr) \<Longrightarrow> map m' w = src"
proof -
  have l: "length src < 18446744073709551616" using assms(3) by simp
  consider (none) "src = []" | (dma) "src \<noteq> []" "mr_dma mr"
    | (inside) "src \<noteq> []" "\<not> mr_dma mr" "in_region (mr_virt_addr mr) (mr_length mr) iova (length src)"
    | (outside) "src \<noteq> []" "\<not> mr_dma mr" "\<not> in_region (mr_virt_addr mr) (mr_length mr) iova (length src)"
    by blast
  note by_cases = this
  have r: "is_ok ret \<longleftrightarrow> src = [] \<or>
      \<not> mr_dma mr \<and> in_region (mr_virt_addr mr) (mr_length mr) iova (length src)"
    and e: "m' = (if src \<noteq> [] \<and> is_ok ret then mem_write m w src else m)"
    using by_cases
  proof (atomize(full), cases)
    case inside
    then have "m' = mem_write m w src \<and> ret = Inr ()"
      using copy_to_iova_cases(1) [OF assms(1,2) l inside] assms(4) by (simp add: w_def)
    then show "(is_ok ret \<longleftrightarrow> src = [] \<or>
      \<not> mr_dma mr \<and> in_region (mr_virt_addr mr) (mr_length mr) iova (length src)) \<and>
      m' = (if src \<noteq> [] \<and> is_ok ret then mem_write m w src else m)" using inside by simp
  next
    case outside
    then have "m' = m \<and> \<not> is_ok ret"
      using copy_to_iova_cases(2) [OF assms(1,2) l outside, of m] assms(4) by auto
    then show "(is_ok ret \<longleftrightarrow> src = [] \<or>
      \<not> mr_dma mr \<and> in_region (mr_virt_addr mr) (mr_length mr) iova (length src)) \<and>
      m' = (if src \<noteq> [] \<and> is_ok ret then mem_write m w src else m)" using outside by simp
  qed (use assms(4) in \<open>auto simp: tbv_umem_copy_to_iova_def Let_def\<close>)
  show "is_ok ret \<longleftrightarrow> src = [] \<or>
      \<not> mr_dma mr \<and> in_region (mr_virt_addr mr) (mr_length mr) iova (length src)" by (fact r)
  show "m' p = m p" if "p \<notin> set w \<or> \<not> is_ok ret"
    using that mem_write_other [of p src w m] by (auto simp: e w_def window_def dest: in_set_takeD)
  show "map m' w = src" if "is_ok ret" "src \<noteq> []" "distinct (mr_addrs mr)"
  proof -
    have reg: "\<not> mr_dma mr" "unat iova - unat (mr_virt_addr mr) + length src \<le> unat (mr_length mr)"
      using r that(1,2) by (auto simp: in_region_def word_le_nat_alt)
    have "length w = length src" unfolding w_def by (rule length_window [OF assms(2) reg])
    moreover have "distinct w" using that(3) by (simp add: w_def window_def)
    ultimately show ?thesis using that(1,2) by (simp add: e map_mem_write)
  qed
qed

text \<open>
  C31: an RDMA WRITE reaches only the memory it was given. Whatever address, length and bytes the peer
  sends, the write succeeds exactly if its range lies in the registered region (64-bit sums that
  wrap around included); if it succeeds, the bytes of the range become the bytes
  sent and no other byte of physical memory changes; if not, no byte changes at all.
\<close>

theorem rdma_write_confined:
  assumes "mem_env_ok K" and "mr_backed mr" and "length src < 2 ^ 64"
    and "tbv_umem_copy_to_iova K mr iova src m = (m', ret)"
    and "w = window mr (unat iova - unat (mr_virt_addr mr)) (length src)"
  shows "(is_ok ret \<longleftrightarrow> src = [] \<or>
      \<not> mr_dma mr \<and> in_region (mr_virt_addr mr) (mr_length mr) iova (length src)) \<and>
    (p \<notin> set w \<or> \<not> is_ok ret \<longrightarrow> m' p = m p) \<and>
    (is_ok ret \<and> src \<noteq> [] \<and> distinct (mr_addrs mr) \<longrightarrow> map m' w = src)"
  using rdma_write_facts [OF assms(1-4)] assms(5) by blast

text \<open>The two kernel functions over the modelled memory.\<close>

definition plain_mem_env :: mem_env where
  "plain_mem_env = \<lparr>
     sg_pcopy_from_buffer = (\<lambda>sgl m src skip. (mem_write m (drop skip (sg_addrs sgl)) src,
       min (length src) (length (sg_addrs sgl) - skip))),
     ib_umem_copy_from = (\<lambda>um m off len. if off + len \<le> um_length um
       then Inr (map m (take len (drop off (umem_addrs um)))) else Inl EINVAL)\<rparr>"

lemma plain_mem_env_ok: "mem_env_ok plain_mem_env"
  by (simp add: mem_env_ok_def plain_mem_env_def)

definition demo_mr :: tbv_mr where
  "demo_mr = zeroed_mr\<lparr>mr_umem := Some \<lparr>um_offset = 2, um_length = 4,
     um_sgl = [\<lparr>sg_pfn = 2, sg_offset = 0, sg_length = 4\<rparr>, \<lparr>sg_pfn = 1, sg_offset = 0, sg_length = 4\<rparr>]\<rparr>,
     mr_start := 0x1002, mr_length := 4, mr_virt_addr := 0x9002\<rparr>"

lemma demo_mr_backed: "mr_backed demo_mr"
  by (simp add: mr_backed_def demo_mr_def zeroed_mr_def pins_def)

lemma demo_mr_addrs: "mr_addrs demo_mr = [8194, 8195, 4096, 4097]"
  by (simp add: mr_addrs_def demo_mr_def umem_addrs_def upt_rec)

theorem rdma_write_confined_witness:
  "tbv_umem_copy_to_iova plain_mem_env demo_mr 0x9003 [5, 6] (\<lambda>_. 0) =
     ((\<lambda>_. 0)(8195 := 5, 4096 := 6), Inr ()) \<and>
   ((\<lambda>_ :: nat. 0)(8195 := 5, 4096 := 6 :: u8)) 8194 = 0"
proof -
  have run: "tbv_umem_copy_to_iova plain_mem_env demo_mr 0x9003 [5, 6] (\<lambda>_. 0) =
     ((\<lambda>_. 0)(8195 := 5, 4096 := 6), Inr ())"
    by (simp add: tbv_umem_copy_to_iova_def tbv_umem_copy_to_def plain_mem_env_def demo_mr_def
        zeroed_mr_def add_overflows_def upt_rec Let_def)
  show ?thesis
    using rdma_write_confined [OF plain_mem_env_ok demo_mr_backed _ run refl, of 8194] run
    by (simp add: window_def demo_mr_addrs demo_mr_def zeroed_mr_def)
qed

end
