(* ===== verification/Verbs_Registry.thy ===== *)
theory Verbs_Registry
  imports Verbs_Memory
begin

text \<open>
  The life of memory regions under all interleavings of registration, lookup, release,
  deregistration and the deferred free. A state is the registry with the multiset of the
  references that operations hold. A region is freed only when no operation holds it any more, a
  lookup finds only regions that are registered under its key, and nothing is left when
  every region is deregistered and every reference returned.
\<close>

section \<open>Steps\<close>

text \<open>
  One step is one critical section. The allocator returns addresses that are free; the verbs core
  deregisters a region once; an operation returns or duplicates only references it holds.
\<close>

inductive mr_step :: "verbs_mem \<times> nat multiset \<Rightarrow> verbs_mem \<times> nat multiset \<Rightarrow> bool" where
  reg_user: "tbv_reg_user_mr mem pinned xa_ok start len virt access V = (V', ret) \<Longrightarrow>
    pred_option (\<lambda>a. vm_heap V a = None) mem \<Longrightarrow>
    pred_sum (\<lambda>_. True) (\<lambda>um. pins um start len) pinned \<Longrightarrow> mr_step (V, H) (V', H)"
| get_dma: "tbv_get_dma_mr mem xa_ok access V = (V', ret) \<Longrightarrow>
    pred_option (\<lambda>a. vm_heap V a = None) mem \<Longrightarrow> mr_step (V, H) (V', H)"
| look_up: "tbv_mr_get V k = (V', p) \<Longrightarrow> mr_step (V, H) (V', H + mset_set (set_option p))"
| duplicate: "a \<in># H \<Longrightarrow> mr_step (V, H) (set_refs a (mr_refs (mr_at V a) + 1) V, add_mset a H)"
| put: "a \<in># H \<Longrightarrow> mr_step (V, H) (tbv_mr_put V (Some a), H - {#a#})"
| dereg: "vm_heap V a = Some mr \<Longrightarrow> \<not> mr_closing mr \<Longrightarrow> mr_step (V, H) (tbv_dereg_mr a V, H)"
| free_work: "a \<in> set (vm_free_work V) \<Longrightarrow> mr_step (V, H) (tbv_mr_free_work a V, H)"

definition empty_registry :: verbs_mem where
  "empty_registry = \<lparr>vm_heap = (\<lambda>_. None), vm_xa = (\<lambda>_. None), vm_mr_key = 0, vm_verbs_mrs = 0,
     vm_free_work = []\<rparr>"

inductive mr_reachable :: "verbs_mem \<times> nat multiset \<Rightarrow> bool" where
  initial: "mr_reachable (empty_registry, {#})"
| step: "mr_reachable s \<Longrightarrow> mr_step s s' \<Longrightarrow> mr_reachable s'"

section \<open>The invariant\<close>

text \<open>
  A region has one reference of its own until it is deregistered and one for each holder.
  It waits for its work item exactly when it has none left.
\<close>

fun slot_ok :: "tbv_mr option \<Rightarrow> nat \<Rightarrow> bool" where
  "slot_ok None n \<longleftrightarrow> n = 0"
| "slot_ok (Some mr) n \<longleftrightarrow> mr_refs mr = (if mr_closing mr then 0 else 1) + n \<and> mr_backed mr"

fun unreferenced :: "tbv_mr option \<Rightarrow> bool" where
  "unreferenced None \<longleftrightarrow> False"
| "unreferenced (Some mr) \<longleftrightarrow> mr_refs mr = 0"

text \<open>The key a region can be found under.\<close>

fun live_key :: "tbv_mr option \<Rightarrow> u32 option" where
  "live_key None = None"
| "live_key (Some mr) = (if mr_closing mr then None else Some (mr_lkey mr))"

definition refs_ok :: "verbs_mem \<Rightarrow> nat multiset \<Rightarrow> bool" where
  "refs_ok V H \<longleftrightarrow> (\<forall>a. slot_ok (vm_heap V a) (count H a))"

definition work_ok :: "verbs_mem \<Rightarrow> bool" where
  "work_ok V \<longleftrightarrow> distinct (vm_free_work V) \<and>
     (\<forall>a. a \<in> set (vm_free_work V) \<longleftrightarrow> unreferenced (vm_heap V a))"

definition keys_ok :: "verbs_mem \<Rightarrow> bool" where
  "keys_ok V \<longleftrightarrow> (\<forall>k a. vm_xa V k = Some a \<longleftrightarrow> live_key (vm_heap V a) = Some k)"

definition count_ok :: "verbs_mem \<Rightarrow> bool" where
  "count_ok V \<longleftrightarrow> finite (dom (vm_heap V)) \<and> vm_verbs_mrs V = int (card (dom (vm_heap V)))"

definition mr_inv :: "verbs_mem \<Rightarrow> nat multiset \<Rightarrow> bool" where
  "mr_inv V H \<longleftrightarrow> refs_ok V H \<and> work_ok V \<and> keys_ok V \<and> count_ok V"

lemmas mr_inv_defs = mr_inv_def refs_ok_def work_ok_def keys_ok_def count_ok_def

text \<open>Every step changes one region: what has to be shown of the one slot.\<close>

lemma mr_inv_slot: "mr_inv V H \<Longrightarrow> slot_ok (vm_heap V a) (count H a)"
  by (simp add: mr_inv_def refs_ok_def)

lemma mr_inv_held:
  assumes "mr_inv V H" and "a \<in># H"
  obtains mr n where "vm_heap V a = Some mr" and "mr_refs mr = Suc n"
proof -
  have "0 < count H a" using assms(2) by simp
  then show ?thesis
    using mr_inv_slot [OF assms(1), of a] that
    by (cases "vm_heap V a") (auto split: if_splits simp: gr0_conv_Suc)
qed

lemma mr_inv_update:
  assumes "mr_inv V H"
    and heap: "vm_heap V' = (vm_heap V)(a := s)" and slot: "slot_ok s (count H' a)"
    and others: "\<And>b. b \<noteq> a \<Longrightarrow> count H' b = count H b"
    and work: "distinct (vm_free_work V')" "\<And>b. b \<in> set (vm_free_work V') \<longleftrightarrow>
      (if b = a then unreferenced s else b \<in> set (vm_free_work V))"
    and tally: "vm_verbs_mrs V' = vm_verbs_mrs V
      + (if s = None then 0 else 1) - (if vm_heap V a = None then 0 else 1)"
    and listed: "keys_ok V'"
  shows "mr_inv V' H'"
proof -
  have "refs_ok V' H'"
    using assms(1) slot others by (simp add: mr_inv_def refs_ok_def heap)
  moreover have "work_ok V'"
    using assms(1) work by (simp add: mr_inv_def work_ok_def heap)
  moreover have "count_ok V'"
    using assms(1) tally card_Diff_singleton [of a "dom (vm_heap V)"] card_gt_0_iff [of "dom (vm_heap V)"]
    by (auto simp: mr_inv_def count_ok_def heap dom_fun_upd insert_absorb domI card_insert_if domIff
        split: if_splits)
  ultimately show ?thesis using listed by (simp add: mr_inv_def)
qed

lemma keys_ok_same:
  assumes "mr_inv V H" and "vm_heap V' = (vm_heap V)(a := s)" and "vm_xa V' = vm_xa V"
    and "live_key s = live_key (vm_heap V a)"
  shows "keys_ok V'"
  using assms by (simp add: mr_inv_def keys_ok_def)

lemma keys_ok_changed:
  assumes "mr_inv V H" and "vm_heap V' = (vm_heap V)(a := s)" and "vm_xa V' = (vm_xa V)(k := x)"
    and "vm_xa V k = None \<and> live_key (vm_heap V a) = None \<and> live_key s = Some k \<and> x = Some a
      \<or> vm_xa V k = Some a \<and> live_key s = None \<and> x = None"
  shows "keys_ok V'"
proof -
  have i: "live_key (vm_heap V b) = Some k' \<longleftrightarrow> vm_xa V k' = Some b" for k' b
    using assms(1) by (simp add: mr_inv_def keys_ok_def)
  have "((vm_xa V)(k := x)) k' = Some b \<longleftrightarrow> live_key (((vm_heap V)(a := s)) b) = Some k'" for k' b
    using assms(4) i [of b k'] i [of a k] by (cases "k' = k"; cases "b = a") auto
  then show ?thesis by (simp add: keys_ok_def assms(2,3))
qed

text \<open>Changing only the number of references of a region.\<close>

lemma backed_update [simp]:
  "mr_backed (mr\<lparr>mr_refs := n\<rparr>) = mr_backed mr" "mr_backed (mr\<lparr>mr_lkey := k\<rparr>) = mr_backed mr"
  "mr_backed (mr\<lparr>mr_closing := b\<rparr>) = mr_backed mr"
  by (simp_all add: mr_backed_def)

lemma set_refs_simps [simp]:
  "vm_heap (set_refs a n V) = (vm_heap V)(a \<mapsto> (mr_at V a)\<lparr>mr_refs := n\<rparr>)"
  "vm_xa (set_refs a n V) = vm_xa V" "vm_verbs_mrs (set_refs a n V) = vm_verbs_mrs V"
  "vm_free_work (set_refs a n V) = vm_free_work V" "vm_mr_key (set_refs a n V) = vm_mr_key V"
  by (simp_all add: set_refs_def)

lemma mr_inv_key: "mr_inv V H \<Longrightarrow> live_key (vm_heap V a) = Some k \<longleftrightarrow> vm_xa V k = Some a"
  by (simp add: mr_inv_def keys_ok_def)

lemma mr_inv_recount:
  assumes inv: "mr_inv V H" and mr: "vm_heap V a = Some mr"
    and heap: "vm_heap V' = (vm_heap V)(a \<mapsto> mr\<lparr>mr_refs := n\<rparr>)" "vm_xa V' = vm_xa V"
      "vm_verbs_mrs V' = vm_verbs_mrs V"
    and refs: "n = (if mr_closing mr then 0 else 1) + count H' a" "\<And>b. b \<noteq> a \<Longrightarrow> count H' b = count H b"
    and work: "distinct (vm_free_work V')"
      "\<And>b. b \<in> set (vm_free_work V') \<longleftrightarrow> (if b = a then n = 0 else b \<in> set (vm_free_work V))"
  shows "mr_inv V' H'"
proof (rule mr_inv_update [OF inv heap(1) _ refs(2) work(1)])
  show "slot_ok (Some (mr\<lparr>mr_refs := n\<rparr>)) (count H' a)"
    using refs(1) mr mr_inv_slot [OF inv, of a] by simp
  show "keys_ok V'"
    using mr by (intro keys_ok_same [OF inv heap(1,2)]) simp
qed (use work(2) heap(3) mr in simp_all)

lemma mr_inv_retain:
  assumes "mr_inv V H" and "vm_heap V a = Some mr" and "mr_refs mr \<noteq> 0"
  shows "mr_inv (set_refs a (mr_refs mr + 1) V) (add_mset a H)"
  by (rule mr_inv_recount [OF assms(1,2)])
    (use assms mr_inv_slot [OF assms(1), of a] in \<open>auto simp: mr_at_def mr_inv_def work_ok_def count_eq_zero_iff\<close>)

lemma mr_inv_get:
  assumes "mr_inv V H" and "tbv_mr_get V k = (V', p)"
  shows "mr_inv V' (H + mset_set (set_option p))"
proof (cases p)
  case None
  then show ?thesis using assms by (auto simp: tbv_mr_get_def split: option.splits if_splits)
next
  case (Some a)
  then have a: "vm_xa V k = Some a" "mr_refs (mr_at V a) \<noteq> 0"
    "V' = set_refs a (mr_refs (mr_at V a) + 1) V"
    using assms(2) by (auto simp: tbv_mr_get_def split: option.splits if_splits)
  then obtain mr where mr: "vm_heap V a = Some mr"
    using mr_inv_key [OF assms(1), of a k] by (cases "vm_heap V a") auto
  then show ?thesis using mr_inv_retain [OF assms(1) mr] a Some by (simp add: mr_at_def)
qed

lemma mr_put_Suc:
  assumes "vm_heap V a = Some mr" and "mr_refs mr = Suc n"
  shows "tbv_mr_put V (Some a) = (set_refs a n V)
    \<lparr>vm_free_work := vm_free_work V @ (if n = 0 then [a] else [])\<rparr>"
  using assms by (simp add: tbv_mr_put_def mr_at_def Let_def set_refs_def)

lemma mr_inv_put:
  assumes "mr_inv V H" and "a \<in># H"
  shows "mr_inv (tbv_mr_put V (Some a)) (H - {#a#})"
proof -
  obtain mr n where mr: "vm_heap V a = Some mr" "mr_refs mr = Suc n"
    using mr_inv_held [OF assms] .
  have c: "0 < count H a" using assms(2) by simp
  show ?thesis
    unfolding mr_put_Suc [OF mr]
    by (rule mr_inv_recount [OF assms(1) mr(1)])
      (use assms(1) c mr mr_inv_slot [OF assms(1), of a] in
        \<open>auto simp: mr_at_def mr_inv_def work_ok_def split: if_splits\<close>)
qed

text \<open>
  Deregistering is returning the reference of the registration: until the put, it counts as one that
  is held.
\<close>

lemma mr_inv_dereg:
  assumes "mr_inv V H" and "vm_heap V a = Some mr" and "\<not> mr_closing mr"
  shows "mr_inv (tbv_dereg_mr a V) H"
proof -
  define V' where "V' = V\<lparr>vm_heap := (vm_heap V)(a \<mapsto> mr\<lparr>mr_closing := True\<rparr>),
    vm_xa := (vm_xa V)(mr_lkey mr := None)\<rparr>"
  have k: "vm_xa V (mr_lkey mr) = Some a"
    using mr_inv_key [OF assms(1), of a "mr_lkey mr"] assms(2,3) by simp
  have h: "vm_heap V' = (vm_heap V)(a := Some (mr\<lparr>mr_closing := True\<rparr>))" by (simp add: V'_def)
  have "keys_ok V'"
    by (rule keys_ok_changed [OF assms(1) h]) (use k in \<open>auto simp: V'_def\<close>)
  then have "mr_inv V' (add_mset a H)"
    by (intro mr_inv_update [OF assms(1) h])
      (use assms mr_inv_slot [OF assms(1), of a] in
        \<open>auto simp: V'_def mr_inv_def work_ok_def split: if_splits\<close>)
  from mr_inv_put [OF this, of a] show ?thesis
    using assms(2) by (simp add: tbv_dereg_mr_def V'_def mr_at_def Let_def)
qed

lemma mr_inv_free_work:
  assumes "mr_inv V H" and "a \<in> set (vm_free_work V)"
  shows "mr_inv (tbv_mr_free_work a V) H"
proof -
  have "unreferenced (vm_heap V a)" and d: "distinct (vm_free_work V)"
    using assms by (auto simp: mr_inv_def work_ok_def)
  then obtain mr where mr: "vm_heap V a = Some mr" "mr_refs mr = 0" by (cases "vm_heap V a") auto
  have c: "mr_closing mr" "count H a = 0"
    using mr_inv_slot [OF assms(1), of a] mr by (auto split: if_splits)
  have h: "vm_heap (tbv_mr_free_work a V) = (vm_heap V)(a := None)"
    by (simp add: tbv_mr_free_work_def tbv_mr_free_def)
  have "keys_ok (tbv_mr_free_work a V)"
    by (rule keys_ok_same [OF assms(1) h]) (use mr c in \<open>simp_all add: tbv_mr_free_work_def tbv_mr_free_def\<close>)
  then show ?thesis
    by (intro mr_inv_update [OF assms(1) h])
      (use mr c d in \<open>simp_all add: tbv_mr_free_work_def tbv_mr_free_def\<close>)
qed

text \<open>Both registrations publish a fresh region, or free it again.\<close>

definition fresh_mr :: "tbv_mr \<Rightarrow> bool" where
  "fresh_mr mr \<longleftrightarrow> \<not> mr_closing mr \<and> mr_backed mr"

definition registered :: "nat \<Rightarrow> bool \<Rightarrow> tbv_mr \<Rightarrow> verbs_mem \<Rightarrow> verbs_mem" where
  "registered a xa_ok mr V =
     (let (V', ret) = tbv_mr_publish a xa_ok (V\<lparr>vm_heap := (vm_heap V)(a \<mapsto> mr)\<rparr>)
      in case ret of Inl e \<Rightarrow> kfree_mr a V' | Inr _ \<Rightarrow> V')"

lemma mr_inv_registered:
  assumes "mr_inv V H" and "vm_heap V a = None" and "fresh_mr mr"
  shows "mr_inv (registered a xa_ok mr V) H"
proof -
  let ?k = "vm_mr_key V + 1"
  have h: "(vm_heap V)(a := None) = vm_heap V" using assms(2) by auto
  have new: "a \<notin> set (vm_free_work V)" "count H a = 0"
    using assms(1,2) mr_inv_slot [OF assms(1), of a] by (auto simp: mr_inv_def work_ok_def)
  show ?thesis
  proof (cases "vm_xa V ?k \<noteq> None \<or> \<not> xa_ok")
    case True
    then have "registered a xa_ok mr V = V\<lparr>vm_mr_key := ?k\<rparr>"
      by (auto simp: registered_def tbv_mr_publish_def Let_def kfree_mr_def h)
    then show ?thesis using assms(1) by (simp add: mr_inv_defs)
  next
    case False
    define V' where "V' = registered a xa_ok mr V"
    have f: "vm_heap V' = (vm_heap V)(a \<mapsto> mr\<lparr>mr_lkey := ?k, mr_refs := 1\<rparr>)"
      "vm_xa V' = (vm_xa V)(?k \<mapsto> a)" "vm_verbs_mrs V' = vm_verbs_mrs V + 1"
      "vm_free_work V' = vm_free_work V"
      using False by (simp_all add: V'_def registered_def tbv_mr_publish_def Let_def mr_at_def)
    have "keys_ok V'"
      by (rule keys_ok_changed [OF assms(1) f(1,2)]) (use False assms(2,3) in \<open>auto simp: fresh_mr_def\<close>)
    then have "mr_inv V' H"
      by (intro mr_inv_update [OF assms(1) f(1)])
        (use f(3,4) new assms in \<open>auto simp: fresh_mr_def mr_inv_def work_ok_def\<close>)
    then show ?thesis by (simp add: V'_def)
  qed
qed

lemma fst_let_case:
  "fst (let (V', ret) = x in case ret of Inl e \<Rightarrow> (f V', Inl e) | Inr _ \<Rightarrow> (V', Inr a)) =
     (let (V', ret) = x in case ret of Inl e \<Rightarrow> f V' | Inr _ \<Rightarrow> V')"
  by (simp add: Let_def split: prod.splits sum.splits)

lemma reg_user_registered:
  "fst (tbv_reg_user_mr mem pinned xa_ok start len virt access V) =
     (case (if len = 0 then None else mem, pinned) of
        (Some a, Inr um) \<Rightarrow> registered a xa_ok (zeroed_mr\<lparr>mr_umem := Some um, mr_start := start,
           mr_length := len, mr_virt_addr := virt, mr_access := access\<rparr>) V
      | _ \<Rightarrow> V)"
  by (simp add: tbv_reg_user_mr_def registered_def fst_let_case Let_def split: option.split sum.split)
    (simp split: prod.splits sum.splits)

lemma get_dma_registered:
  "fst (tbv_get_dma_mr mem xa_ok access V) =
     (case mem of None \<Rightarrow> V
      | Some a \<Rightarrow> registered a xa_ok (zeroed_mr\<lparr>mr_start := 0, mr_length := U64_MAX,
          mr_virt_addr := 0, mr_access := access, mr_dma := True\<rparr>) V)"
  by (simp add: tbv_get_dma_mr_def registered_def fst_let_case Let_def split: option.split)
    (simp split: prod.splits sum.splits)

lemma mr_inv_step: "mr_step s s' \<Longrightarrow> mr_inv (fst s) (snd s) \<Longrightarrow> mr_inv (fst s') (snd s')"
proof (induction rule: mr_step.induct)
  case (reg_user mem pinned xa_ok start len virt access V V' ret H)
  have "V' = fst (tbv_reg_user_mr mem pinned xa_ok start len virt access V)" using reg_user(1) by simp
  then show ?case
    using reg_user(2-4)
    by (auto simp: reg_user_registered fresh_mr_def mr_backed_def zeroed_mr_def
        split: option.splits sum.splits if_splits intro!: mr_inv_registered)
next
  case (get_dma mem xa_ok access V V' ret H)
  have "V' = fst (tbv_get_dma_mr mem xa_ok access V)" using get_dma(1) by simp
  then show ?case
    using get_dma(2-3)
    by (auto simp: get_dma_registered fresh_mr_def mr_backed_def zeroed_mr_def
        split: option.splits intro!: mr_inv_registered)
next
  case (look_up V k V' p H)
  then show ?case using mr_inv_get by simp
next
  case (duplicate a H V)
  then have "mr_inv V H" "a \<in># H" by simp_all
  then obtain mr n where "vm_heap V a = Some mr" "mr_refs mr = Suc n" by (rule mr_inv_held)
  then show ?case using mr_inv_retain [of V H a mr] duplicate by (simp add: mr_at_def)
qed (auto intro: mr_inv_put mr_inv_dereg mr_inv_free_work)

lemma mr_reachable_inv: "mr_reachable s \<Longrightarrow> mr_inv (fst s) (snd s)"
proof (induction rule: mr_reachable.induct)
  case initial
  then show ?case by (simp add: mr_inv_defs empty_registry_def)
qed (rule mr_inv_step)

lemma region_facts:
  assumes "mr_reachable (V, H)"
  shows "a \<in># H \<Longrightarrow> \<exists>mr. vm_heap V a = Some mr \<and> 0 < mr_refs mr \<and> a \<notin> set (vm_free_work V)"
    and "(\<exists>V'. tbv_mr_get V k = (V', Some b)) \<longleftrightarrow>
      (\<exists>mr. vm_heap V b = Some mr \<and> \<not> mr_closing mr \<and> mr_lkey mr = k)"
    and "vm_verbs_mrs V = int (card (dom (vm_heap V)))"
    and "H = {#} \<and> vm_xa V = (\<lambda>_. None) \<and> vm_free_work V = [] \<longrightarrow> vm_heap V = (\<lambda>_. None)"
proof -
  have inv: "mr_inv V H" using mr_reachable_inv [OF assms] by simp
  have w: "c \<in> set (vm_free_work V) \<longleftrightarrow> unreferenced (vm_heap V c)" for c
    using inv by (simp add: mr_inv_def work_ok_def)
  show "\<exists>mr. vm_heap V a = Some mr \<and> 0 < mr_refs mr \<and> a \<notin> set (vm_free_work V)" if held: "a \<in># H"
  proof -
    obtain mr n where "vm_heap V a = Some mr" "mr_refs mr = Suc n" by (rule mr_inv_held [OF inv held])
    then show ?thesis by (simp add: w)
  qed
  show "vm_verbs_mrs V = int (card (dom (vm_heap V)))" using inv by (simp add: mr_inv_def count_ok_def)
  show "(\<exists>V'. tbv_mr_get V k = (V', Some b)) \<longleftrightarrow>
      (\<exists>mr. vm_heap V b = Some mr \<and> \<not> mr_closing mr \<and> mr_lkey mr = k)"
    using mr_inv_key [OF inv, of b k] mr_inv_slot [OF inv, of b]
    by (cases "vm_heap V b") (auto simp: tbv_mr_get_def mr_at_def split: option.splits if_splits)
  show "H = {#} \<and> vm_xa V = (\<lambda>_. None) \<and> vm_free_work V = [] \<longrightarrow> vm_heap V = (\<lambda>_. None)"
  proof (intro impI ext)
    fix c
    assume e: "H = {#} \<and> vm_xa V = (\<lambda>_. None) \<and> vm_free_work V = []"
    then show "vm_heap V c = None"
      using mr_inv_key [OF inv, of c] mr_inv_slot [OF inv, of c] w [of c]
      by (cases "vm_heap V c") (auto split: if_splits)
  qed
qed

text \<open>
  C32: in every interleaving of registrations, lookups, releases, deregistrations and deferred frees, a
  memory region that an operation holds is still there and not about to be freed; a lookup
  succeeds exactly on the registered regions and returns the one registered under its key; the
  count of regions is exact; and when nothing is registered, nothing is held and no free is
  outstanding, no region is left.
\<close>

theorem region_lives_while_used:
  assumes "mr_reachable (V, H)"
  shows "(a \<in># H \<longrightarrow> (\<exists>mr. vm_heap V a = Some mr \<and> 0 < mr_refs mr \<and> a \<notin> set (vm_free_work V))) \<and>
    ((\<exists>V'. tbv_mr_get V k = (V', Some b)) \<longleftrightarrow>
      (\<exists>mr. vm_heap V b = Some mr \<and> \<not> mr_closing mr \<and> mr_lkey mr = k)) \<and>
    vm_verbs_mrs V = int (card (dom (vm_heap V))) \<and>
    (H = {#} \<and> vm_xa V = (\<lambda>_. None) \<and> vm_free_work V = [] \<longrightarrow> vm_heap V = (\<lambda>_. None))"
  using region_facts [OF assms] by blast

text \<open>A region of four bytes that is deregistered while an operation holds it.\<close>

definition demo_umem :: ib_umem where
  "demo_umem = \<lparr>um_offset = 0, um_length = 4, um_sgl = [\<lparr>sg_pfn = 2, sg_offset = 0, sg_length = 4\<rparr>]\<rparr>"

definition demo_region :: "verbs_mem" where
  "demo_region = fst (tbv_reg_user_mr (Some 7) (Inr demo_umem) True 0x1000 4 0x9000 7 empty_registry)"

definition demo_held :: "verbs_mem" where
  "demo_held = tbv_dereg_mr 7 (fst (tbv_mr_get demo_region 1))"

lemma demo_pins: "pins demo_umem 0x1000 4"
  by (simp add: pins_def demo_umem_def)

lemma demo_held_reachable: "mr_reachable (demo_held, {#7#})"
proof -
  have "mr_step (empty_registry, {#}) (demo_region, {#})"
    unfolding demo_region_def
    by (rule reg_user [OF surjective_pairing]) (simp_all add: demo_pins empty_registry_def)
  then have "mr_reachable (demo_region, {#})" by (rule step [OF initial])
  moreover have g: "tbv_mr_get demo_region 1 = (fst (tbv_mr_get demo_region 1), Some 7)"
    by (simp add: demo_region_def tbv_reg_user_mr_def tbv_mr_publish_def empty_registry_def
        tbv_mr_get_def mr_at_def zeroed_mr_def Let_def)
  have "mr_step (demo_region, {#}) (fst (tbv_mr_get demo_region 1), {#} + mset_set (set_option (Some 7)))"
    by (rule look_up [OF g])
  ultimately have "mr_reachable (fst (tbv_mr_get demo_region 1), {#7#})"
    using step by fastforce
  moreover have "mr_step (fst (tbv_mr_get demo_region 1), {#7#}) (demo_held, {#7#})"
    unfolding demo_held_def
    by (rule dereg) (auto simp add: demo_region_def tbv_reg_user_mr_def tbv_mr_publish_def empty_registry_def
        tbv_mr_get_def mr_at_def zeroed_mr_def Let_def)
  ultimately show ?thesis by (rule step)
qed

theorem region_lives_while_used_witness:
  "mr_reachable (demo_held, {#7#}) \<and>
   (\<exists>mr. vm_heap demo_held 7 = Some mr \<and> 0 < mr_refs mr \<and> 7 \<notin> set (vm_free_work demo_held))"
  using demo_held_reachable region_lives_while_used [OF demo_held_reachable, of 7] by simp

end
