(* ===== verification/Verbs_Segments.thy ===== *)
theory Verbs_Segments
  imports Verbs_Registry
begin

text \<open>
  \<^verbatim>\<open>src/kernel/ibdev.c\<close>, scatter/gather lists: a work request's list is turned into segments, each
  with a reference on its memory region; ranges of the message are read from the segments when it
  is sent and written to them when a response arrives.

  The two copies walk the segments in the same way. The locale \<open>segment_op\<close> states what the copy
  of one piece does; the walk is proved once, and interpreted for the gathering and the
  scattering copy. Together the segments behave as the one buffer that is their concatenation.
\<close>

record ib_sge =
  sge_addr :: u64
  sge_length :: u32
  sge_lkey :: u32

record ib_send_wr =
  wr_wr_id :: u64
  wr_send_flags :: u32
  wr_num_sge :: int
  wr_sg_list :: "ib_sge list ptr"

record tbv_send_segment =
  seg_mr :: "nat ptr"
  seg_addr :: u64
  seg_length :: u32

type_synonym tbv_read_segment = tbv_send_segment

abbreviation (input) IB_SEND_INLINE :: u32 where "IB_SEND_INLINE \<equiv> 8"
abbreviation (input) TBV_IBDEV_MAX_SGE :: int where "TBV_IBDEV_MAX_SGE \<equiv> 4"

section \<open>Taking and returning the references\<close>

fun tbv_release_send_segments :: "verbs_mem \<Rightarrow> tbv_send_segment list \<Rightarrow> verbs_mem" where
  "tbv_release_send_segments V [] = V"
| "tbv_release_send_segments V (seg # segs) = tbv_release_send_segments (tbv_mr_put V (seg_mr seg)) segs"

fun tbv_release_read_segments :: "verbs_mem \<Rightarrow> tbv_read_segment list \<Rightarrow> verbs_mem" where
  "tbv_release_read_segments V [] = V"
| "tbv_release_read_segments V (seg # segs) = tbv_release_read_segments (tbv_mr_put V (seg_mr seg)) segs"

fun tbv_get_send_segments ::
  "verbs_mem \<Rightarrow> tbv_send_segment list \<Rightarrow> verbs_mem \<times> tbv_send_segment list" where
  "tbv_get_send_segments V [] = (V, [])"
| "tbv_get_send_segments V (seg # segs) =
     (let V1 = (case seg_mr seg of None \<Rightarrow> V
                | Some a \<Rightarrow> set_refs a (mr_refs (mr_at V a) + 1) V);
          (V2, copies) = tbv_get_send_segments V1 segs
      in (V2, seg # copies))"

text \<open>The loop over the list; \<open>segs\<close> holds the segments so far.\<close>

fun prepare_sges ::
  "u32 \<Rightarrow> verbs_mem \<Rightarrow> ib_sge list \<Rightarrow> tbv_send_segment list \<Rightarrow> u32
     \<Rightarrow> verbs_mem \<times> (tbv_send_segment list \<times> u32) res" where
  "prepare_sges max_msg V [] segs tot = (V, Inr (segs, tot))"
| "prepare_sges max_msg V (sge # sges) segs tot =
     (if sge_length sge = 0 then prepare_sges max_msg V sges segs tot
      else if add_overflows tot (sge_length sge) \<or> tot + sge_length sge > max_msg
      then (tbv_release_send_segments V segs, Inl EMSGSIZE)
      else if add_overflows (sge_addr sge) (ucast (sge_length sge))
      then (tbv_release_send_segments V segs, Inl EINVAL)
      else case tbv_mr_get V (sge_lkey sge) of
        (V1, None) \<Rightarrow> (tbv_release_send_segments V1 segs, Inl EINVAL)
      | (V1, Some a) \<Rightarrow>
          (let mr = mr_at V1 a
           in if mr_dma mr
              then (tbv_release_send_segments (tbv_mr_put V1 (Some a)) segs, Inl EOPNOTSUPP)
              else if add_overflows (mr_start mr) (mr_length mr) \<or> sge_addr sge < mr_start mr \<or>
                sge_addr sge + ucast (sge_length sge) > mr_start mr + mr_length mr
              then (tbv_release_send_segments (tbv_mr_put V1 (Some a)) segs, Inl EFAULT)
              else prepare_sges max_msg V1 sges
                (segs @ [\<lparr>seg_mr = Some a, seg_addr = sge_addr sge, seg_length = sge_length sge\<rparr>])
                (tot + sge_length sge)))"

definition tbv_prepare_send_segments ::
  "u32 \<Rightarrow> verbs_mem \<Rightarrow> ib_send_wr \<Rightarrow> verbs_mem \<times> (tbv_send_segment list \<times> u32) res" where
  "tbv_prepare_send_segments max_msg V wr =
     (if wr_send_flags wr AND IB_SEND_INLINE \<noteq> 0 then (V, Inl EOPNOTSUPP)
      else if wr_num_sge wr > TBV_IBDEV_MAX_SGE then (V, Inl EINVAL)
      else if wr_num_sge wr \<noteq> 0 \<and> wr_sg_list wr = None then (V, Inl EINVAL)
      else prepare_sges max_msg V
        (case wr_sg_list wr of None \<Rightarrow> [] | Some sges \<Rightarrow> take (nat (wr_num_sge wr)) sges) [] 0)"

text \<open>Segments already handed over are zeroed, so that the error path does not return them twice.\<close>

definition zeroed_segment :: tbv_send_segment where
  "zeroed_segment = \<lparr>seg_mr = None, seg_addr = 0, seg_length = 0\<rparr>"

fun read_segments_loop ::
  "verbs_mem \<Rightarrow> tbv_read_segment list \<Rightarrow> tbv_send_segment list \<Rightarrow> verbs_mem \<times> tbv_read_segment list res" where
  "read_segments_loop V segs [] = (V, Inr segs)"
| "read_segments_loop V segs (s # send_segs) =
     (if mr_access (mr_at V (the (seg_mr s))) AND IB_ACCESS_LOCAL_WRITE = 0
      then (tbv_release_send_segments (tbv_release_read_segments V segs)
              (map (\<lambda>_. zeroed_segment) segs @ s # send_segs), Inl EACCES)
      else read_segments_loop V (segs @ [s]) send_segs)"

definition tbv_prepare_read_segments ::
  "u32 \<Rightarrow> verbs_mem \<Rightarrow> ib_send_wr \<Rightarrow> verbs_mem \<times> (tbv_read_segment list \<times> u32) res" where
  "tbv_prepare_read_segments max_msg V wr =
     (case tbv_prepare_send_segments max_msg V wr of
        (V1, Inl e) \<Rightarrow> (V1, Inl e)
      | (V1, Inr (send_segs, tot)) \<Rightarrow>
          (case read_segments_loop V1 [] send_segs of
             (V2, Inl e) \<Rightarrow> (V2, Inl e)
           | (V2, Inr segs) \<Rightarrow> (V2, Inr (segs, tot))))"

section \<open>Copying ranges\<close>

text \<open>The walk both copies make: \<open>skipped\<close> bytes of the message lie before the current segment.\<close>

fun walk_segments ::
  "('s \<Rightarrow> tbv_send_segment \<Rightarrow> u32 \<Rightarrow> u32 \<Rightarrow> u32 \<Rightarrow> 's \<times> unit res) \<Rightarrow> u32 \<Rightarrow> u32
     \<Rightarrow> tbv_send_segment list \<Rightarrow> u32 \<Rightarrow> u32 \<Rightarrow> 's \<Rightarrow> 's \<times> unit res" where
  "walk_segments piece offset len [] skipped copied s = (s, Inl EFAULT)"
| "walk_segments piece offset len (seg # segs) skipped copied s =
     (if offset \<ge> skipped + seg_length seg
      then walk_segments piece offset len segs (skipped + seg_length seg) copied s
      else
        (let seg_off = (if offset > skipped then offset - skipped else 0);
             chunk = min (seg_length seg - seg_off) (len - copied)
         in case piece s seg seg_off copied chunk of
              (s', Inl e) \<Rightarrow> (s', Inl e)
            | (s', Inr _) \<Rightarrow>
                if copied + chunk = len then (s', Inr ())
                else walk_segments piece offset len segs (skipped + seg_length seg) (copied + chunk) s'))"

definition gather_piece ::
  "mem_env \<Rightarrow> verbs_mem \<Rightarrow> memory \<Rightarrow> u8 list \<Rightarrow> tbv_send_segment \<Rightarrow> u32 \<Rightarrow> u32 \<Rightarrow> u32 \<Rightarrow> u8 list \<times> unit res" where
  "gather_piece K V m dst seg seg_off copied chunk =
     (let mr = mr_at V (the (seg_mr seg))
      in case ib_umem_copy_from K (the (mr_umem mr)) m
               (unat (seg_addr seg + ucast seg_off - mr_start mr)) (unat chunk) of
           Inl e \<Rightarrow> (dst, Inl e)
         | Inr bs \<Rightarrow> (dst @ bs, Inr ()))"

definition tbv_copy_send_range ::
  "mem_env \<Rightarrow> verbs_mem \<Rightarrow> memory \<Rightarrow> tbv_send_segment list \<Rightarrow> u32 \<Rightarrow> u32 \<Rightarrow> u8 list \<times> unit res" where
  "tbv_copy_send_range K V m segs offset len =
     (if len = 0 then ([], Inr ())
      else walk_segments (gather_piece K V m) offset len segs 0 0 [])"

definition scatter_piece ::
  "mem_env \<Rightarrow> verbs_mem \<Rightarrow> u8 list \<Rightarrow> memory \<Rightarrow> tbv_send_segment \<Rightarrow> u32 \<Rightarrow> u32 \<Rightarrow> u32 \<Rightarrow> memory \<times> unit res" where
  "scatter_piece K V payload m seg seg_off copied chunk =
     tbv_umem_copy_to K (mr_at V (the (seg_mr seg))) (seg_addr seg + ucast seg_off)
       (take (unat chunk) (drop (unat copied) payload)) m"

definition tbv_copy_to_read_segments ::
  "mem_env \<Rightarrow> verbs_mem \<Rightarrow> tbv_read_segment list \<Rightarrow> u32 \<Rightarrow> u8 list \<Rightarrow> memory \<Rightarrow> memory \<times> unit res" where
  "tbv_copy_to_read_segments K V segs offset payload m =
     (let len = of_nat (length payload) :: u32
      in if len = 0 then (m, Inr ())
         else walk_segments (scatter_piece K V payload) offset len segs 0 0 m)"

section \<open>The walk\<close>

text \<open>
  What the copy of a piece is relied on for: on a good segment, a piece inside it is the effect \<open>eff\<close> on
  the physical addresses of the piece, and effects on consecutive address lists compose.
\<close>

locale segment_op =
  fixes piece :: "'s \<Rightarrow> tbv_send_segment \<Rightarrow> u32 \<Rightarrow> u32 \<Rightarrow> u32 \<Rightarrow> 's \<times> unit res"
    and good :: "tbv_send_segment \<Rightarrow> bool"
    and addrs :: "tbv_send_segment \<Rightarrow> nat list"
    and eff :: "'s \<Rightarrow> nat list \<Rightarrow> nat \<Rightarrow> 's"
    and limit :: nat
  assumes nonempty: "good seg \<Longrightarrow> seg_length seg \<noteq> 0"
    and length_addrs: "good seg \<Longrightarrow> length (addrs seg) = unat (seg_length seg)"
    and piece_eff: "good seg \<Longrightarrow> unat off + unat n \<le> unat (seg_length seg) \<Longrightarrow> n \<noteq> 0 \<Longrightarrow>
      unat c + unat n \<le> limit \<Longrightarrow>
      piece s seg off c n = (eff s (take (unat n) (drop (unat off) (addrs seg))) (unat c), Inr ())"
    and eff_compose: "eff (eff s xs at) ys (at + length xs) = eff s (xs @ ys) at"
begin

text \<open>The whole message as one list of addresses.\<close>

definition message :: "tbv_send_segment list \<Rightarrow> nat list" where
  "message segs = concat (map addrs segs)"

lemma length_message:
  "list_all good segs \<Longrightarrow> length (message segs) = sum_list (map (\<lambda>seg. unat (seg_length seg)) segs)"
  by (induction segs) (auto simp: message_def length_addrs)

lemma walk_ok:
  assumes "list_all good segs" and "unat skipped + length (message segs) < 4294967296"
    and "unat copied = unat skipped - unat offset" and "copied < len" and "unat len \<le> limit"
    and "unat offset + unat len \<le> unat skipped + length (message segs)"
  shows "walk_segments piece offset len segs skipped copied s =
    (eff s (take (unat len - unat copied) (drop (unat offset - unat skipped) (message segs))) (unat copied),
     Inr ())"
  using assms
proof (induction segs arbitrary: skipped copied s)
  case Nil
  then show ?case by (simp add: message_def word_less_nat_alt)
next
  case (Cons seg segs)
  have good: "good seg" "list_all good segs" using Cons.prems(1) by auto
  have lm: "length (message (seg # segs)) = unat (seg_length seg) + length (message segs)"
    using length_addrs [OF good(1)] by (simp add: message_def)
  have sk: "unat (skipped + seg_length seg) = unat skipped + unat (seg_length seg)"
    using Cons.prems(2) lm by (intro unat_add_u32) simp
  have c: "unat copied < unat len" using Cons.prems(4) by (simp add: word_less_nat_alt)
  show ?case
  proof (cases "offset \<ge> skipped + seg_length seg")
    case True
    then have le: "unat skipped + unat (seg_length seg) \<le> unat offset" by (simp add: word_le_nat_alt sk)
    have "walk_segments piece offset len segs (skipped + seg_length seg) copied s =
      (eff s (take (unat len - unat copied)
         (drop (unat offset - unat (skipped + seg_length seg)) (message segs))) (unat copied), Inr ())"
      using Cons.prems lm sk le by (intro Cons.IH) (auto simp: good)
    moreover have "drop (unat offset - unat skipped) (message (seg # segs)) =
        drop (unat offset - unat (skipped + seg_length seg)) (message segs)"
      using le length_addrs [OF good(1)] by (simp add: message_def sk)
    ultimately show ?thesis using True by simp
  next
    case False
    define so where "so = (if offset > skipped then offset - skipped else 0)"
    define n where "n = min (seg_length seg - so) (len - copied)"
    have so: "unat so = unat offset - unat skipped"
      by (auto simp: so_def word_less_nat_alt unat_sub_if')
    have lt: "unat so < unat (seg_length seg)"
    proof -
      have "0 < unat (seg_length seg)" using nonempty [OF good(1)] by (simp add: unat_gt_0)
      then show ?thesis using False unfolding so word_le_nat_alt sk by linarith
    qed
    have n: "unat n = min (unat (seg_length seg) - unat so) (unat len - unat copied)"
      using lt Cons.prems(4)
      by (simp add: n_def min_def word_le_nat_alt word_less_nat_alt unat_sub_if')
    have n0: "n \<noteq> 0" using n lt c by (auto simp: unat_eq_0 [symmetric])
    have cn: "unat (copied + n) = unat copied + unat n"
      using n c unat_less_2p32 [of len] by (intro unat_add_u32) linarith
    define q where "q = take (unat n) (drop (unat so) (addrs seg))"
    have lq: "length q = unat n" using n lt by (simp add: q_def length_addrs [OF good(1)])
    have piece: "piece s seg so copied n = (eff s q (unat copied), Inr ())"
      using n lt n0 c Cons.prems(5) unfolding q_def by (intro piece_eff good) auto
    have rest: "take (unat len - unat copied) (drop (unat offset - unat skipped) (message (seg # segs))) =
        q @ take (unat len - unat (copied + n)) (message segs)"
      if "copied + n = len \<or> unat n = unat (seg_length seg) - unat so"
    proof -
      let ?D = "drop (unat so) (addrs seg)" and ?L = "unat len - unat copied"
      have lD: "length ?D = unat (seg_length seg) - unat so" by (simp add: length_addrs [OF good(1)])
      have "drop (unat offset - unat skipped) (message (seg # segs)) = ?D @ message segs"
        using lt by (simp add: message_def so [symmetric] length_addrs [OF good(1)])
      then have "take ?L (drop (unat offset - unat skipped) (message (seg # segs))) =
          take ?L ?D @ take (?L - length ?D) (message segs)" by simp
      moreover have "take ?L ?D = q" unfolding q_def n lD [symmetric] by (cases "?L \<le> length ?D") (simp_all add: min_def)
      moreover have "?L - length ?D = unat len - unat (copied + n)"
        using that n cn lD by (auto simp: min_def split: if_splits)
      ultimately show ?thesis by simp
    qed
    show ?thesis
    proof (cases "copied + n = len")
      case True
      then have "unat n = unat len - unat copied" using cn by simp
      then have "take (unat len - unat copied) (drop (unat offset - unat skipped) (message (seg # segs))) = q"
        using rest True by simp
      then show ?thesis
        using False True piece by (simp add: so_def [symmetric] n_def [symmetric] Let_def)
    next
      case more: False
      have full: "unat n = unat (seg_length seg) - unat so"
        using more n cn c by (auto simp: min_def word_unat_eq_iff split: if_splits)
      have "walk_segments piece offset len segs (skipped + seg_length seg) (copied + n) (eff s q (unat copied)) =
        (eff (eff s q (unat copied)) (take (unat len - unat (copied + n))
          (drop (unat offset - unat (skipped + seg_length seg)) (message segs))) (unat (copied + n)), Inr ())"
      proof (rule Cons.IH)
        show "unat (copied + n) = unat (skipped + seg_length seg) - unat offset"
          using full cn sk so lt Cons.prems(3) by linarith
        show "copied + n < len"
          using more n cn c by (auto simp: word_less_nat_alt word_unat_eq_iff)
      qed (use Cons.prems lm sk good in auto)
      moreover have "unat offset - unat (skipped + seg_length seg) = 0"
        using False by (simp add: word_le_nat_alt)
      ultimately show ?thesis
        using False more piece rest [OF disjI2 [OF full]] eff_compose [of s q "unat copied"]
        by (simp add: so_def [symmetric] n_def [symmetric] Let_def lq cn)
    qed
  qed
qed

end

section \<open>The two copies\<close>

text \<open>A segment inside a live, pinned region; the list of its physical addresses.\<close>

definition seg_in :: "verbs_mem \<Rightarrow> tbv_send_segment \<Rightarrow> bool" where
  "seg_in V seg \<longleftrightarrow> (\<exists>a mr. seg_mr seg = Some a \<and> vm_heap V a = Some mr \<and> mr_backed mr \<and> \<not> mr_dma mr \<and>
     seg_length seg \<noteq> 0 \<and> in_region (mr_start mr) (mr_length mr) (seg_addr seg) (unat (seg_length seg)))"

definition seg_addrs :: "verbs_mem \<Rightarrow> tbv_send_segment \<Rightarrow> nat list" where
  "seg_addrs V seg = (let mr = mr_at V (the (seg_mr seg))
     in window mr (unat (seg_addr seg) - unat (mr_start mr)) (unat (seg_length seg)))"

lemma seg_inE:
  assumes "seg_in V seg"
  obtains mr um where "mr_at V (the (seg_mr seg)) = mr" and "mr_backed mr" and "\<not> mr_dma mr"
    and "mr_umem mr = Some um" and "pins um (mr_start mr) (mr_length mr)" and "seg_length seg \<noteq> 0"
    and "in_region (mr_start mr) (mr_length mr) (seg_addr seg) (unat (seg_length seg))"
  using assms by (auto simp: seg_in_def mr_at_def mr_backed_def)

lemma length_seg_addrs: "seg_in V seg \<Longrightarrow> length (seg_addrs V seg) = unat (seg_length seg)"
  by (erule seg_inE) (auto simp: seg_addrs_def Let_def in_region_def word_le_nat_alt intro!: length_window)

text \<open>A piece of a segment as a range of its region.\<close>

lemma segment_piece:
  assumes "in_region start bytes addr len" and "unat (off :: u32) + n \<le> len"
  shows "in_region start bytes (addr + ucast off) n"
    and "unat (addr + ucast off) = unat addr + unat off"
    and "unat (addr + ucast off - start) = unat addr - unat start + unat off"
proof -
  have off: "unat (ucast off :: u64) = unat off"
    using unat_less_2p32 [of off] by (simp add: unsigned_ucast_eq take_bit_nat_eq_self)
  have sum: "unat addr + unat off < 18446744073709551616"
    using assms by (auto simp: in_region_def)
  then show a: "unat (addr + ucast off) = unat addr + unat off"
    using unat_add_u64 [of addr "ucast off"] by (simp add: add_overflows_iff off)
  then show "in_region start bytes (addr + ucast off) n"
    using assms by (auto simp: in_region_def word_le_nat_alt)
  have "start \<le> addr + ucast off" using assms a by (auto simp: in_region_def word_le_nat_alt)
  then show "unat (addr + ucast off - start) = unat addr - unat start + unat off"
    using a assms by (simp add: unat_sub_u64 in_region_def word_le_nat_alt)
qed

lemma window_piece: "off + n \<le> len \<Longrightarrow> take n (drop off (window mr d len)) = window mr (d + off) n"
  by (simp add: window_def drop_take min_def add.commute)

lemma mem_write_append:
  "mem_write m (xs @ ys) bs = mem_write (mem_write m xs bs) ys (drop (length xs) bs)"
  by (induction m xs bs rule: mem_write.induct) (auto simp del: fun_upd_apply)

lemma mem_write_more: "length as \<le> length bs \<Longrightarrow> mem_write m as (bs @ bs') = mem_write m as bs"
  by (induction m as bs rule: mem_write.induct) (auto simp del: fun_upd_apply)

interpretation gather: segment_op "gather_piece K V m" "\<lambda>seg. mem_env_ok K \<and> seg_in V seg" "seg_addrs V"
  "\<lambda>dst as _. dst @ map m as" "4294967296" for K V m
proof
  fix seg and off n c :: u32 and dst
  assume g: "mem_env_ok K \<and> seg_in V seg" and le: "unat off + unat n \<le> unat (seg_length seg)" and "n \<noteq> 0"
  from g obtain mr um where mr: "mr_at V (the (seg_mr seg)) = mr" "mr_umem mr = Some um"
    "pins um (mr_start mr) (mr_length mr)"
    and reg: "in_region (mr_start mr) (mr_length mr) (seg_addr seg) (unat (seg_length seg))"
    by (auto elim: seg_inE)
  let ?d = "unat (seg_addr seg) - unat (mr_start mr)"
  have "?d + unat off + unat n \<le> um_length um"
    using reg le mr(3) by (auto simp: in_region_def pins_def word_le_nat_alt)
  then have "ib_umem_copy_from K um m (?d + unat off) (unat n) = Inr (map m (window mr (?d + unat off) (unat n)))"
    using g mr by (simp add: mem_env_ok_def pins_def window_def mr_addrs_def)
  then show "gather_piece K V m dst seg off c n =
      (dst @ map m (take (unat n) (drop (unat off) (seg_addrs V seg))), Inr ())"
    by (simp add: gather_piece_def seg_addrs_def mr segment_piece(3) [OF reg le] window_piece [OF le] Let_def)
qed (auto simp: length_seg_addrs elim: seg_inE)

interpretation scatter: segment_op "scatter_piece K V payload" "\<lambda>seg. mem_env_ok K \<and> seg_in V seg" "seg_addrs V"
  "\<lambda>m as at. mem_write m as (drop at payload)" "length payload" for K V payload
proof
  fix seg and off n c :: u32 and m
  assume g: "mem_env_ok K \<and> seg_in V seg" and le: "unat off + unat n \<le> unat (seg_length seg)" and n: "n \<noteq> 0"
    and room: "unat c + unat n \<le> length payload"
  from g obtain mr um where mr: "mr_at V (the (seg_mr seg)) = mr" "mr_backed mr" "\<not> mr_dma mr"
    and reg: "in_region (mr_start mr) (mr_length mr) (seg_addr seg) (unat (seg_length seg))"
    by (auto elim: seg_inE)
  let ?d = "unat (seg_addr seg) - unat (mr_start mr)" and ?bs = "take (unat n) (drop (unat c) payload)"
  have l: "length ?bs = unat n" using room by simp
  have ne: "?bs \<noteq> []" using l n by (metis length_0_conv unat_eq_0)
  have sp: "in_region (mr_start mr) (mr_length mr) (seg_addr seg + ucast off) (length ?bs)"
    using segment_piece(1) [OF reg le] l by simp
  have d: "unat (seg_addr seg + ucast off) - unat (mr_start mr) = ?d + unat off"
    using segment_piece(2) [OF reg le] reg by (simp add: in_region_def word_le_nat_alt)
  have w: "take (unat n) (drop (unat off) (seg_addrs V seg)) = window mr (?d + unat off) (unat n)"
    by (simp add: seg_addrs_def mr Let_def window_piece [OF le])
  have "length ?bs < 18446744073709551616" using l unat_less_2p32 [of n] by simp
  then have "scatter_piece K V payload m seg off c n = (mem_write m (window mr (?d + unat off) (unat n)) ?bs, Inr ())"
    using g mr sp ne
    by (simp add: scatter_piece_def copy_to_cases d l
        del: take_eq_Nil take_eq_Nil2 length_take)
  also have "mem_write m (window mr (?d + unat off) (unat n)) ?bs =
      mem_write m (window mr (?d + unat off) (unat n)) (drop (unat c) payload)"
  proof -
    have lw: "length (window mr (?d + unat off) (unat n)) = unat n"
      using reg le by (intro length_window mr) (auto simp: in_region_def word_le_nat_alt)
    have "mem_write m (window mr (?d + unat off) (unat n)) (?bs @ drop (unat n) (drop (unat c) payload)) =
        mem_write m (window mr (?d + unat off) (unat n)) ?bs"
      by (rule mem_write_more) (simp only: lw l order_refl)
    then show ?thesis by (simp only: append_take_drop_id)
  qed
  finally show "scatter_piece K V payload m seg off c n =
      (mem_write m (take (unat n) (drop (unat off) (seg_addrs V seg))) (drop (unat c) payload), Inr ())"
    by (simp add: w)
qed (auto simp: length_seg_addrs mem_write_append add.commute elim: seg_inE)

text \<open>The whole message of a list of segments, as physical addresses.\<close>

definition message_addrs :: "verbs_mem \<Rightarrow> tbv_send_segment list \<Rightarrow> nat list" where
  "message_addrs V segs = concat (map (seg_addrs V) segs)"

lemma length_message_addrs:
  "list_all (seg_in V) segs \<Longrightarrow> length (message_addrs V segs) = sum_list (map (\<lambda>s. unat (seg_length s)) segs)"
  by (induction segs) (auto simp: message_addrs_def length_seg_addrs)

lemma copy_send_range_eq:
  assumes "mem_env_ok K" and "list_all (seg_in V) segs" and "length (message_addrs V segs) < 4294967296"
    and "unat offset + unat len \<le> length (message_addrs V segs)"
  shows "tbv_copy_send_range K V m segs offset len =
    (map m (take (unat len) (drop (unat offset) (message_addrs V segs))), Inr ())"
proof (cases "len = 0")
  case False
  then have "walk_segments (gather_piece K V m) offset len segs 0 0 [] =
      ([] @ map m (take (unat len - unat (0 :: u32)) (drop (unat offset - unat (0 :: u32)) (gather.message V segs))), Inr ())"
    using assms unat_less_2p32 [of len]
    by (intro gather.walk_ok) (auto simp: gather.message_def message_addrs_def word_gt_0 list_all_iff)
  then show ?thesis using False by (simp add: tbv_copy_send_range_def gather.message_def message_addrs_def)
qed (simp add: tbv_copy_send_range_def)

lemma copy_to_read_segments_eq:
  assumes "mem_env_ok K" and "list_all (seg_in V) segs" and "length (message_addrs V segs) < 4294967296"
    and "unat offset + length payload \<le> length (message_addrs V segs)"
  shows "tbv_copy_to_read_segments K V segs offset payload m =
    (mem_write m (drop (unat offset) (message_addrs V segs)) payload, Inr ())"
proof (cases "payload = []")
  case False
  have l: "unat (of_nat (length payload) :: u32) = length payload"
    using assms(3,4) by (simp add: unat_of_nat)
  then have n0: "(of_nat (length payload) :: u32) \<noteq> 0" using False by (metis length_0_conv unat_0)
  have "walk_segments (scatter_piece K V payload) offset (of_nat (length payload)) segs 0 0 m =
      (mem_write m (take (unat (of_nat (length payload) :: u32) - unat (0 :: u32))
        (drop (unat offset - unat (0 :: u32)) (scatter.message V segs))) (drop (unat (0 :: u32)) payload), Inr ())"
    using assms l n0 by (intro scatter.walk_ok) (auto simp: scatter.message_def message_addrs_def word_gt_0 list_all_iff)
  then have "walk_segments (scatter_piece K V payload) offset (of_nat (length payload)) segs 0 0 m =
      (mem_write m (take (length payload) (drop (unat offset) (message_addrs V segs))) payload, Inr ())"
    by (simp add: l scatter.message_def message_addrs_def)
  then show ?thesis using n0 by (simp add: tbv_copy_to_read_segments_def Let_def mem_write_take [symmetric])
qed (simp add: tbv_copy_to_read_segments_def Let_def)

section \<open>Preparing segments\<close>

text \<open>What lookups and releases do not change: everything but reference counts and queued work.\<close>

definition static :: "verbs_mem \<Rightarrow> (nat \<Rightarrow> tbv_mr option) \<times> (u32 \<Rightarrow> nat option) \<times> u32 \<times> int" where
  "static V = (\<lambda>a. map_option (mr_refs_update (\<lambda>_. 0)) (vm_heap V a), vm_xa V, vm_mr_key V, vm_verbs_mrs V)"

lemma static_set_refs: "vm_heap V a = Some mr \<Longrightarrow> static (set_refs a n V) = static V"
  by (auto simp: static_def mr_at_def)

lemma static_get:
  assumes "mr_inv V H" and "tbv_mr_get V k = (V', p)"
  shows "static V' = static V"
proof (cases "vm_xa V k")
  case (Some a)
  then obtain mr where "vm_heap V a = Some mr"
    using mr_inv_key [OF assms(1), of a k] by (cases "vm_heap V a") auto
  then show ?thesis using assms(2) Some
    by (auto simp: tbv_mr_get_def static_set_refs split: if_splits)
qed (use assms(2) in \<open>simp add: tbv_mr_get_def\<close>)

lemma static_put:
  assumes "mr_inv V H" and "a \<in># H"
  shows "static (tbv_mr_put V (Some a)) = static V"
proof -
  obtain mr n where mr: "vm_heap V a = Some mr" "mr_refs mr = Suc n" by (rule mr_inv_held [OF assms])
  have "static (V'\<lparr>vm_free_work := w\<rparr>) = static V'" for V' w by (simp add: static_def)
  then show ?thesis by (simp add: mr_put_Suc [OF mr] static_set_refs [OF mr(1)])
qed

text \<open>The counts follow from what is held: with the same regions and the same holders the heap is the same.\<close>

lemma static_same_heap:
  assumes "static V' = static V" and "mr_inv V H" and "mr_inv V' H"
  shows "vm_heap V' = vm_heap V"
proof
  fix a
  have s: "map_option (mr_refs_update (\<lambda>_. 0)) (vm_heap V' a) = map_option (mr_refs_update (\<lambda>_. 0)) (vm_heap V a)"
    using assms(1) by (auto simp: static_def fun_eq_iff)
  have r: "slot_ok (vm_heap V a) (count H a)" "slot_ok (vm_heap V' a) (count H a)"
    using assms(2,3) by (auto intro: mr_inv_slot)
  show "vm_heap V' a = vm_heap V a"
  proof (cases "vm_heap V a")
    case (Some mr)
    with s obtain mr' where mr': "vm_heap V' a = Some mr'" "mr'\<lparr>mr_refs := 0\<rparr> = mr\<lparr>mr_refs := 0\<rparr>" by auto
    then have "mr_closing mr' = mr_closing mr" by (metis tbv_mr.select_convs(8) tbv_mr.update_convs(3) tbv_mr.surjective)
    then have "mr_refs mr' = mr_refs mr" using r Some mr'(1) by simp
    then show ?thesis using Some mr'
      by (metis tbv_mr.surjective tbv_mr.update_convs(3) tbv_mr.select_convs(3) tbv_mr.ext_inject)
  qed (use s in simp)
qed

lemma same_but_refs:
  assumes "mr'\<lparr>mr_refs := 0\<rparr> = mr\<lparr>mr_refs := 0\<rparr>"
  shows "mr_start mr' = mr_start mr" "mr_length mr' = mr_length mr" "mr_umem mr' = mr_umem mr"
    "mr_dma mr' = mr_dma mr" "mr_backed mr' = mr_backed mr" "mr_addrs mr' = mr_addrs mr"
    "mr_access mr' = mr_access mr" "mr_virt_addr mr' = mr_virt_addr mr"
  using assms by (cases mr; cases mr'; simp add: mr_backed_def mr_addrs_def)+

lemma static_heap:
  assumes "static V' = static V" and "vm_heap V a = Some mr"
  obtains mr' where "vm_heap V' a = Some mr'" and "mr'\<lparr>mr_refs := 0\<rparr> = mr\<lparr>mr_refs := 0\<rparr>"
proof -
  have "map_option (mr_refs_update (\<lambda>_. 0)) (vm_heap V' a) = map_option (mr_refs_update (\<lambda>_. 0)) (vm_heap V a)"
    using assms(1) by (auto simp: static_def fun_eq_iff)
  then show ?thesis using assms(2) that by auto
qed

lemma static_seg_mono:
  assumes "static V' = static V" and "seg_in V seg"
  shows "seg_in V' seg" and "seg_addrs V' seg = seg_addrs V seg"
proof -
  obtain a mr where a: "seg_mr seg = Some a" "vm_heap V a = Some mr" "mr_backed mr" "\<not> mr_dma mr"
    "seg_length seg \<noteq> 0" "in_region (mr_start mr) (mr_length mr) (seg_addr seg) (unat (seg_length seg))"
    using assms(2) by (auto simp: seg_in_def)
  obtain mr' where mr': "vm_heap V' a = Some mr'" and e: "mr'\<lparr>mr_refs := 0\<rparr> = mr\<lparr>mr_refs := 0\<rparr>"
    by (rule static_heap [OF assms(1) a(2)])
  show "seg_in V' seg" using a mr' same_but_refs [OF e] by (simp add: seg_in_def)
  show "seg_addrs V' seg = seg_addrs V seg"
    using a mr' same_but_refs [OF e] by (simp add: seg_addrs_def mr_at_def window_def Let_def)
qed

lemma static_seg_in: "static V' = static V \<Longrightarrow> seg_in V' seg = seg_in V seg"
  using static_seg_mono(1) [of V' V seg] static_seg_mono(1) [of V V' seg] by auto

definition seg_refs :: "tbv_send_segment list \<Rightarrow> nat multiset" where
  "seg_refs segs = mset (map (the \<circ> seg_mr) segs)"

lemma release_segments:
  assumes "mr_inv V (seg_refs segs + H)" and "list_all (\<lambda>s. seg_mr s \<noteq> None) segs"
  shows "mr_inv (tbv_release_send_segments V segs) H \<and> static (tbv_release_send_segments V segs) = static V"
  using assms
proof (induction segs arbitrary: V)
  case (Cons s segs)
  then obtain a where a: "seg_mr s = Some a" by auto
  have "a \<in># seg_refs (s # segs) + H" by (simp add: seg_refs_def a)
  then have "mr_inv (tbv_mr_put V (seg_mr s)) (seg_refs segs + H)" "static (tbv_mr_put V (seg_mr s)) = static V"
    using mr_inv_put [OF Cons.prems(1), of a] static_put [OF Cons.prems(1), of a] by (auto simp: a seg_refs_def)
  then show ?case using Cons.IH Cons.prems(2) by simp
qed (simp add: seg_refs_def)

lemma release_read_eq: "tbv_release_read_segments V segs = tbv_release_send_segments V segs"
  by (induction V segs rule: tbv_release_read_segments.induct) simp_all

text \<open>The entries of the list that are not empty, as address and length.\<close>

definition used_sges :: "ib_sge list \<Rightarrow> (u64 \<times> u32) list" where
  "used_sges sges = map (\<lambda>s. (sge_addr s, sge_length s)) (filter (\<lambda>s. sge_length s \<noteq> 0) sges)"

lemma used_sges_Cons [simp]:
  "used_sges (s # sges) = (if sge_length s = 0 then [] else [(sge_addr s, sge_length s)]) @ used_sges sges"
  "used_sges [] = []"
  by (simp_all add: used_sges_def)

definition prepared :: "u32 \<Rightarrow> verbs_mem \<Rightarrow> nat multiset \<Rightarrow> verbs_mem \<Rightarrow> tbv_send_segment list \<Rightarrow> u32 \<Rightarrow> bool" where
  "prepared max_msg V0 H V segs tot \<longleftrightarrow> mr_inv V (seg_refs segs + H) \<and> static V = static V0 \<and>
     list_all (seg_in V) segs \<and> unat tot = sum_list (map (\<lambda>s. unat (seg_length s)) segs) \<and>
     (tot = 0 \<or> tot \<le> max_msg)"

lemma prepared_has_mr: "prepared max_msg V0 H V segs tot \<Longrightarrow> list_all (\<lambda>s. seg_mr s \<noteq> None) segs"
  by (auto simp: prepared_def list_all_iff seg_in_def)

lemma prepared_release:
  assumes "prepared max_msg V0 H V segs tot"
  shows "mr_inv (tbv_release_send_segments V segs) H \<and> static (tbv_release_send_segments V segs) = static V0"
  using release_segments [of V segs H] assms prepared_has_mr [OF assms] by (auto simp: prepared_def)

text \<open>One more segment, or the way back from a region that was found and refused.\<close>

lemma prepared_get:
  assumes "prepared max_msg V0 H V segs tot" and "tbv_mr_get V k = (V1, Some a)"
  shows "mr_inv V1 (seg_refs segs + add_mset a H)" and "static V1 = static V0"
    and "prepared max_msg V0 H (tbv_mr_put V1 (Some a)) segs tot"
    and "\<exists>mr. vm_heap V1 a = Some mr \<and> mr_backed mr"
proof -
  have inv: "mr_inv V (seg_refs segs + H)" and st: "static V = static V0" using assms(1) by (auto simp: prepared_def)
  show i1: "mr_inv V1 (seg_refs segs + add_mset a H)"
    using mr_inv_get [OF inv assms(2)] by simp
  show s1: "static V1 = static V0" using static_get [OF inv assms(2)] st by simp
  have "static (tbv_mr_put V1 (Some a)) = static V0" "mr_inv (tbv_mr_put V1 (Some a)) (seg_refs segs + H)"
    using static_put [OF i1, of a] s1 mr_inv_put [OF i1, of a] by simp_all
  then show "prepared max_msg V0 H (tbv_mr_put V1 (Some a)) segs tot"
    using assms(1) static_seg_in [of "tbv_mr_put V1 (Some a)" V] st by (simp add: prepared_def list_all_iff)
  show "\<exists>mr. vm_heap V1 a = Some mr \<and> mr_backed mr"
  proof -
    obtain mr n where "vm_heap V1 a = Some mr" "mr_refs mr = Suc n" by (rule mr_inv_held [OF i1, of a]) auto
    then show ?thesis using mr_inv_slot [OF i1, of a] by simp
  qed
qed

lemma prepare_sges_ok:
  assumes "prepared max_msg V0 H V segs tot" and "prepare_sges max_msg V sges segs tot = (V', ret)"
  shows "case ret of
      Inl e \<Rightarrow> mr_inv V' H \<and> static V' = static V0
    | Inr (segs', tot') \<Rightarrow> prepared max_msg V0 H V' segs' tot' \<and>
        map (\<lambda>s. (seg_addr s, seg_length s)) segs' = map (\<lambda>s. (seg_addr s, seg_length s)) segs @ used_sges sges"
  using assms
proof (induction max_msg V sges segs tot rule: prepare_sges.induct)
  case (1 max_msg V segs tot)
  then show ?case by auto
next
  case (2 max_msg V sge sges segs tot)
  note P = 2(3) and R = 2(4)
  show ?case
  proof (cases "sge_length sge = 0")
    case True
    then show ?thesis using 2(1) P R by (simp split: sum.splits prod.splits)
  next
    case len: False
    show ?thesis
    proof (cases "add_overflows tot (sge_length sge) \<or> tot + sge_length sge > max_msg
        \<or> add_overflows (sge_addr sge) (ucast (sge_length sge))")
      case True
      then show ?thesis using R len prepared_release [OF P] by (auto split: if_splits)
    next
      case ok: False
      show ?thesis
      proof (cases "tbv_mr_get V (sge_lkey sge)")
        case (Pair V1 p)
        show ?thesis
        proof (cases p)
          case None
          then have "V1 = V" using Pair by (auto simp: tbv_mr_get_def split: option.splits if_splits)
          then show ?thesis using R len ok Pair None prepared_release [OF P] by auto
        next
          case (Some a)
          note g = prepared_get [OF P Pair [unfolded Some]]
          define mr where "mr = mr_at V1 a"
          let ?new = "\<lparr>seg_mr = Some a, seg_addr = sge_addr sge, seg_length = sge_length sge\<rparr>"
          have ul: "unat (ucast (sge_length sge) :: u64) = unat (sge_length sge)"
            using unat_less_2p32 [of "sge_length sge"] by (simp add: unsigned_ucast_eq take_bit_nat_eq_self)
          show ?thesis
          proof (cases "mr_dma mr \<or> add_overflows (mr_start mr) (mr_length mr) \<or> sge_addr sge < mr_start mr \<or>
                sge_addr sge + ucast (sge_length sge) > mr_start mr + mr_length mr")
            case True
            then show ?thesis
              using R len ok Pair Some prepared_release [OF g(3)] by (auto simp: mr_def Let_def split: if_splits)
          next
            case in_range: False
            then have reg: "in_region (mr_start mr) (mr_length mr) (sge_addr sge) (unat (sge_length sge))"
              using in_region_iff [OF ul, of "sge_addr sge" "mr_start mr" "mr_length mr"] ok by simp
            have new: "seg_in V1 ?new"
              using g(4) reg len in_range by (auto simp: seg_in_def mr_def mr_at_def)
            have tot: "unat (tot + sge_length sge) = unat tot + unat (sge_length sge)"
              using ok by (intro unat_add_u32) (simp add: add_overflows_u32_iff)
            have "prepared max_msg V0 H V1 (segs @ [?new]) (tot + sge_length sge)"
              using P g(1,2) new tot ok static_seg_in [of V1 V]
              by (auto simp: prepared_def seg_refs_def list_all_iff not_less)
            moreover have "prepare_sges max_msg V1 sges (segs @ [?new]) (tot + sge_length sge) = (V', ret)"
              using R len ok Pair Some in_range by (auto simp: mr_def Let_def)
            ultimately have "case ret of
                Inl e \<Rightarrow> mr_inv V' H \<and> static V' = static V0
              | Inr (segs', tot') \<Rightarrow> prepared max_msg V0 H V' segs' tot' \<and>
                  map (\<lambda>s. (seg_addr s, seg_length s)) segs' =
                  map (\<lambda>s. (seg_addr s, seg_length s)) (segs @ [?new]) @ used_sges sges"
              by (rule 2(2) [rotated -2]) (use len ok Pair Some in_range in \<open>auto simp: mr_def\<close>)
            then show ?thesis using len by (simp split: sum.splits prod.splits)
          qed
        qed
      qed
    qed
  qed
qed

lemma release_append:
  "tbv_release_send_segments V (xs @ ys) = tbv_release_send_segments (tbv_release_send_segments V xs) ys"
  by (induction V xs rule: tbv_release_send_segments.induct) simp_all

lemma release_zeroed: "tbv_release_send_segments V (map (\<lambda>_. zeroed_segment) xs) = V"
  by (induction xs) (simp_all add: zeroed_segment_def tbv_mr_put_def)

text \<open>The segments of a read are those of a send whose regions may be written locally.\<close>

definition may_write :: "verbs_mem \<Rightarrow> tbv_send_segment \<Rightarrow> bool" where
  "may_write V s \<longleftrightarrow> mr_access (mr_at V (the (seg_mr s))) AND IB_ACCESS_LOCAL_WRITE \<noteq> 0"

lemma read_segments_loop_eq:
  "read_segments_loop V segs send_segs =
     (if list_all (may_write V) send_segs then (V, Inr (segs @ send_segs))
      else (tbv_release_send_segments V (segs @ send_segs), Inl EACCES))"
  by (induction V segs send_segs rule: read_segments_loop.induct)
    (auto simp: may_write_def release_append release_zeroed release_read_eq)

lemma prepared_initial: "mr_inv V H \<Longrightarrow> prepared max_msg V H V [] 0"
  by (simp add: prepared_def seg_refs_def)

abbreviation request_sges :: "ib_send_wr \<Rightarrow> ib_sge list" where
  "request_sges wr \<equiv> (case wr_sg_list wr of None \<Rightarrow> [] | Some sges \<Rightarrow> take (nat (wr_num_sge wr)) sges)"

lemma prepare_send_ok:
  assumes "mr_inv V H" and "tbv_prepare_send_segments max_msg V wr = (V', ret)"
  shows "case ret of
      Inl e \<Rightarrow> mr_inv V' H \<and> static V' = static V
    | Inr (segs, tot) \<Rightarrow> prepared max_msg V H V' segs tot \<and>
        map (\<lambda>s. (seg_addr s, seg_length s)) segs = used_sges (request_sges wr)"
proof (cases "wr_send_flags wr AND IB_SEND_INLINE \<noteq> 0 \<or> wr_num_sge wr > TBV_IBDEV_MAX_SGE \<or>
    wr_num_sge wr \<noteq> 0 \<and> wr_sg_list wr = None")
  case True
  then show ?thesis using assms by (auto simp: tbv_prepare_send_segments_def split: if_splits)
next
  case False
  then have "prepare_sges max_msg V (request_sges wr) [] 0 = (V', ret)"
    using assms(2) by (auto simp: tbv_prepare_send_segments_def split: if_splits)
  from prepare_sges_ok [OF prepared_initial [OF assms(1)] this] show ?thesis by (simp only: list.map append_Nil)
qed

lemma prepare_read_ok:
  assumes "mr_inv V H" and "tbv_prepare_read_segments max_msg V wr = (V', ret)"
  shows "case ret of
      Inl e \<Rightarrow> mr_inv V' H \<and> static V' = static V
    | Inr (segs, tot) \<Rightarrow> prepared max_msg V H V' segs tot \<and> list_all (may_write V') segs \<and>
        map (\<lambda>s. (seg_addr s, seg_length s)) segs = used_sges (request_sges wr)"
proof (cases "tbv_prepare_send_segments max_msg V wr")
  case (Pair V1 ret1)
  note p = prepare_send_ok [OF assms(1) Pair]
  show ?thesis
  proof (cases ret1)
    case (Inl e)
    then have "V' = V1" "ret = Inl e" using assms(2) Pair by (simp_all add: tbv_prepare_read_segments_def)
    then show ?thesis using Inl p by simp
  next
    case (Inr x)
    then obtain segs tot where x: "ret1 = Inr (segs, tot)" by (cases x) auto
    then have P: "prepared max_msg V H V1 segs tot" and m: "map (\<lambda>s. (seg_addr s, seg_length s)) segs = used_sges (request_sges wr)"
      using p by auto
    show ?thesis
      using assms(2) Pair x P m prepared_release [OF P]
      by (auto simp: tbv_prepare_read_segments_def read_segments_loop_eq split: if_splits)
  qed
qed

lemma prepared_length:
  "prepared max_msg V0 H V segs tot \<Longrightarrow> length (message_addrs V segs) = unat tot"
  by (simp add: prepared_def length_message_addrs)

lemma send_segments_facts:
  assumes "mr_reachable (V, H)" and "mem_env_ok K"
    and "tbv_prepare_send_segments max_msg V wr = (V', ret)"
  shows "ret = Inl e \<Longrightarrow> vm_heap V' = vm_heap V \<and> vm_xa V' = vm_xa V"
    and "ret = Inr (segs, tot) \<Longrightarrow>
      map (\<lambda>s. (seg_addr s, seg_length s)) segs = used_sges (request_sges wr) \<and>
      list_all (seg_in V') segs \<and> mr_inv V' (seg_refs segs + H) \<and>
      unat tot = sum_list (map (\<lambda>s. unat (seg_length s)) segs) \<and> (tot = 0 \<or> tot \<le> max_msg)"
    and "ret = Inr (segs, tot) \<Longrightarrow> unat offset + unat len \<le> unat tot \<Longrightarrow>
      tbv_copy_send_range K V' m segs offset len =
      (take (unat len) (drop (unat offset) (map m (message_addrs V' segs))), Inr ())"
proof -
  have inv: "mr_inv V H" using mr_reachable_inv [OF assms(1)] by simp
  note p = prepare_send_ok [OF inv assms(3)]
  show "vm_heap V' = vm_heap V \<and> vm_xa V' = vm_xa V" if "ret = Inl e"
    using p that static_same_heap [of V' V H] inv by (simp add: static_def)
  show "map (\<lambda>s. (seg_addr s, seg_length s)) segs = used_sges (request_sges wr) \<and>
      list_all (seg_in V') segs \<and> mr_inv V' (seg_refs segs + H) \<and>
      unat tot = sum_list (map (\<lambda>s. unat (seg_length s)) segs) \<and> (tot = 0 \<or> tot \<le> max_msg)"
    if "ret = Inr (segs, tot)"
    using p that by (simp add: prepared_def)
  show "tbv_copy_send_range K V' m segs offset len =
      (take (unat len) (drop (unat offset) (map m (message_addrs V' segs))), Inr ())"
    if "ret = Inr (segs, tot)" and "unat offset + unat len \<le> unat tot"
  proof -
    have P: "prepared max_msg V H V' segs tot" using p that(1) by simp
    then have "list_all (seg_in V') segs" by (simp add: prepared_def)
    then show ?thesis
      using copy_send_range_eq [OF assms(2), of V' segs offset len m] prepared_length [OF P] that(2)
        unat_less_2p32 [of tot] by (simp add: take_map drop_map)
  qed
qed

text \<open>
  C33: the scatter/gather list of a send request behaves as one buffer. If the request is accepted, its
  segments are its non-empty entries in order, their lengths add up to the length of the
  message without overflow and within the limit, each holds a reference on a region that covers
  it, and every range of the message is read as the corresponding range of the concatenated
  user memory. If the request is refused, every reference taken on the way has been returned.
\<close>

theorem send_segments_are_one_buffer:
  assumes "mr_reachable (V, H)" and "mem_env_ok K"
    and "tbv_prepare_send_segments max_msg V wr = (V', ret)"
  shows "(ret = Inl e \<longrightarrow> vm_heap V' = vm_heap V \<and> vm_xa V' = vm_xa V) \<and>
    (ret = Inr (segs, tot) \<longrightarrow>
      map (\<lambda>s. (seg_addr s, seg_length s)) segs = used_sges (request_sges wr) \<and>
      list_all (seg_in V') segs \<and> mr_inv V' (seg_refs segs + H) \<and>
      unat tot = sum_list (map (\<lambda>s. unat (seg_length s)) segs) \<and> (tot = 0 \<or> tot \<le> max_msg) \<and>
      (unat offset + unat len \<le> unat tot \<longrightarrow>
        tbv_copy_send_range K V' m segs offset len =
        (take (unat len) (drop (unat offset) (map m (message_addrs V' segs))), Inr ())))"
  using send_segments_facts [OF assms] by blast

text \<open>A request with two entries, one of them empty, on the region of the previous example.\<close>

definition demo_wr :: ib_send_wr where
  "demo_wr = \<lparr>wr_wr_id = 1, wr_send_flags = 0, wr_num_sge = 3, wr_sg_list = Some
     [\<lparr>sge_addr = 0x1002, sge_length = 2, sge_lkey = 1\<rparr>, \<lparr>sge_addr = 0, sge_length = 0, sge_lkey = 9\<rparr>,
      \<lparr>sge_addr = 0x1000, sge_length = 1, sge_lkey = 1\<rparr>]\<rparr>"

definition demo_segs :: "tbv_send_segment list" where
  "demo_segs = [\<lparr>seg_mr = Some 7, seg_addr = 0x1002, seg_length = 2\<rparr>,
     \<lparr>seg_mr = Some 7, seg_addr = 0x1000, seg_length = 1\<rparr>]"

lemma demo_region_reachable: "mr_reachable (demo_region, {#})"
  by (rule step [OF initial], unfold demo_region_def, rule reg_user [OF surjective_pairing])
    (simp_all add: demo_pins empty_registry_def)

lemma demo_region_eval:
  "demo_region = \<lparr>vm_heap = [7 \<mapsto> zeroed_mr\<lparr>mr_lkey := 1, mr_umem := Some demo_umem, mr_refs := 1,
     mr_start := 0x1000, mr_length := 4, mr_virt_addr := 0x9000, mr_access := 7\<rparr>],
     vm_xa = [1 \<mapsto> 7], vm_mr_key = 1, vm_verbs_mrs = 1, vm_free_work = []\<rparr>"
  by (simp add: demo_region_def tbv_reg_user_mr_def tbv_mr_publish_def empty_registry_def
      mr_at_def zeroed_mr_def Let_def fun_eq_iff)

lemma demo_prepare: "snd (tbv_prepare_send_segments 100 demo_region demo_wr) = Inr (demo_segs, 3)"
  by (simp add: tbv_prepare_send_segments_def demo_wr_def demo_region_eval tbv_mr_get_def mr_at_def
      zeroed_mr_def add_overflows_def set_refs_def demo_segs_def Let_def)

theorem send_segments_are_one_buffer_witness:
  "\<exists>V'. tbv_prepare_send_segments 100 demo_region demo_wr = (V', Inr (demo_segs, 3)) \<and>
     tbv_copy_send_range plain_mem_env V' (\<lambda>a. of_nat (a - 8190)) demo_segs 1 2 = ([5, 2], Inr ())"
proof -
  obtain V' where run: "tbv_prepare_send_segments 100 demo_region demo_wr = (V', Inr (demo_segs, 3))"
    using demo_prepare by (metis prod.collapse)
  have V': "V' = fst (tbv_prepare_send_segments 100 demo_region demo_wr)" using run by simp
  have "message_addrs V' demo_segs = [8194, 8195, 8192]"
    unfolding V'
    by (simp add: tbv_prepare_send_segments_def demo_wr_def demo_region_eval tbv_mr_get_def mr_at_def
      zeroed_mr_def add_overflows_def set_refs_def demo_segs_def Let_def message_addrs_def seg_addrs_def
      window_def mr_addrs_def umem_addrs_def demo_umem_def upt_rec)
  then show ?thesis
    using run send_segments_are_one_buffer [OF demo_region_reachable plain_mem_env_ok run, of EINVAL demo_segs 3 1 2 "\<lambda>a. of_nat (a - 8190)"]
    by (intro exI [of _ V']) simp
qed

end
