(* ===== verification/Verbs_Qp.thy ===== *)
theory Verbs_Qp
  imports Verbs_Segments Rel_Tx
begin

text \<open>
  \<^verbatim>\<open>src/kernel/ibdev.c\<close>, queue pairs: the state of a queue pair, its sequence numbers and timeouts, the
  checks on the endpoint of a received frame, credits for receive buffers, the history
  of acknowledgements, and the queue of sends that wait for theirs.

  The record holds the fields of \<^verbatim>\<open>struct tbv_qp\<close> these parts use. Pending sends are records
  with the address of the C object. An \<open>int\<close> status is \<open>None\<close> for 0 and \<open>Some e\<close> for \<open>-e\<close>. Conversions
  to jiffies depend on the kernel's configuration and are arguments.
\<close>

section \<open>State\<close>

datatype ib_qp_state =
  IB_QPS_RESET | IB_QPS_INIT | IB_QPS_RTR | IB_QPS_RTS | IB_QPS_SQD | IB_QPS_SQE | IB_QPS_ERR

datatype ib_qp_type = IB_QPT_GSI | IB_QPT_RC | IB_QPT_UC | IB_QPT_OTHER

datatype tbv_send_post_reason =
  TBV_SEND_POST_INITIAL | TBV_SEND_POST_RETRY_TIMEOUT | TBV_SEND_POST_RETRY_RNR

type_synonym status = "errno option"
type_synonym jiffies = u64

record tbv_recv_wqe =
  rw_wr_id :: u64
  rw_wr_cqe :: u64
  rw_addr :: u64
  rw_length :: u32
  rw_lkey :: u32
  rw_kernel_cqe :: bool

record tbv_ack_history_entry =
  ah_psn :: u32
  ah_status :: u32
  ah_valid :: bool

record tbv_send_ctx =
  sc_ptr :: nat
  sc_queued :: jiffies
  sc_first_queued :: jiffies
  sc_wr_id :: u64
  sc_psn :: u32
  sc_retries :: u8
  sc_max_retries :: u8
  sc_rnr_retries :: u8
  sc_max_rnr_retries :: u8
  sc_retry_reason :: tbv_send_post_reason
  sc_status :: status
  sc_tx_pending :: int
  sc_completed :: bool
  sc_ready :: bool
  sc_pending :: bool
  sc_retryable :: bool
  sc_wire_acked :: bool
  sc_retrying :: bool
  sc_rnr_waiting :: bool
  sc_recv_credit_required :: bool
  sc_sq_counted :: bool

record tbv_rx_reorder_frag =
  rf_offset :: u32
  rf_data :: "u8 list"

record tbv_read_ctx =
  rd_ptr :: nat
  rd_queued :: jiffies
  rd_wr_id :: u64
  rd_psn :: u32
  rd_total_len :: u32
  rd_received :: u32
  rd_buffered :: u32
  rd_status :: status
  rd_signaled :: bool
  rd_completed :: bool
  rd_ready :: bool
  rd_sq_counted :: bool
  rd_frags :: "tbv_rx_reorder_frag list"
  rd_segs :: "tbv_read_segment list"

record tbv_qp =
  q_num :: u32
  q_backend :: tbv_backend_type
  q_type :: ib_qp_type
  q_uobject :: bool
  q_local_dma_lkey :: u32
  q_virt_dma :: bool
  q_state :: ib_qp_state
  q_closing :: bool
  q_refs :: nat
  q_qkey :: u32
  q_timeout :: u8
  q_ack_timeout_set :: bool
  q_retry_cnt :: u8
  q_rnr_retry :: u8
  q_min_rnr_timer :: u8
  q_dest_qp_known :: bool
  q_dest_qp_num :: u32
  q_remote_recv_credits :: u32
  q_early_src_known :: bool
  q_early_src_qp :: u32
  q_recvq :: "tbv_recv_wqe list"
  q_recvq_size :: u32
  q_recv_head :: u32
  q_recv_tail :: u32
  q_recv_count :: u32
  q_recv_credits_advertised :: u32
  q_max_send_wr :: u32
  q_sendq_count :: u32
  q_send_psn :: u32
  q_pending_sends :: "tbv_send_ctx list"
  q_pending_reads :: "tbv_read_ctx list"
  q_rx_expected_psn :: u32
  q_ack_history :: "tbv_ack_history_entry list"
  q_timeout_armed :: bool
  q_timeout_due :: "jiffies list"

abbreviation (input) TBV_PSN_MASK :: u32 where "TBV_PSN_MASK \<equiv> 0x00ffffff"
abbreviation (input) TBV_APPLE_MAX_MSG_SIZE :: u32 where "TBV_APPLE_MAX_MSG_SIZE \<equiv> 0x1000000"
abbreviation (input) TBV_SEND_MAX_RETRIES :: u8 where "TBV_SEND_MAX_RETRIES \<equiv> 7"
abbreviation (input) TBV_SEND_RNR_RETRIES_INFINITE :: u8 where "TBV_SEND_RNR_RETRIES_INFINITE \<equiv> 255"
abbreviation (input) TBV_UC_WIRE_MAX_RETRIES :: u8 where "TBV_UC_WIRE_MAX_RETRIES \<equiv> 7"
abbreviation (input) TBV_ACK_HISTORY_SIZE :: u32 where "TBV_ACK_HISTORY_SIZE \<equiv> 1024"
abbreviation (input) TBV_NATIVE_SEND_ACK_OK :: u32 where "TBV_NATIVE_SEND_ACK_OK \<equiv> 0"
abbreviation (input) TBV_NATIVE_SEND_ACK_RNR :: u32 where "TBV_NATIVE_SEND_ACK_RNR \<equiv> 1"
abbreviation (input) TBV_NATIVE_SEND_ACK_ERROR :: u32 where "TBV_NATIVE_SEND_ACK_ERROR \<equiv> 2"
abbreviation (input) MAX_JIFFY_OFFSET :: jiffies where "MAX_JIFFY_OFFSET \<equiv> 0x3ffffffffffffffe"

section \<open>Sequence numbers\<close>

definition tbv_psn_next :: "u32 \<Rightarrow> u32" where
  "tbv_psn_next psn = (psn + 1) AND TBV_PSN_MASK"

definition tbv_psn_delta :: "u32 \<Rightarrow> u32 \<Rightarrow> int" where
  "tbv_psn_delta a b =
     (let delta = (a - b) AND TBV_PSN_MASK
      in if delta AND 0x00800000 \<noteq> 0 then sint (delta OR 0xff000000) else sint delta)"

section \<open>Kinds of queue pairs\<close>

definition tbv_qp_uses_apple_transport :: "tbv_qp \<Rightarrow> bool" where
  "tbv_qp_uses_apple_transport q \<longleftrightarrow> q_backend q = TBV_BACKEND_APPLE"

definition tbv_qp_owns_apple_rail :: "tbv_qp \<Rightarrow> bool" where
  "tbv_qp_owns_apple_rail q \<longleftrightarrow> tbv_qp_uses_apple_transport q \<and> q_type q = IB_QPT_UC"

definition tbv_qp_max_msg_size :: "tbv_qp \<Rightarrow> u32" where
  "tbv_qp_max_msg_size q =
     (if tbv_qp_uses_apple_transport q then TBV_APPLE_MAX_MSG_SIZE else TBV_NATIVE_DATA_MAX_MSG_SIZE)"

definition tbv_qp_is_kernel_gsi :: "tbv_qp \<Rightarrow> bool" where
  "tbv_qp_is_kernel_gsi q \<longleftrightarrow> q_type q = IB_QPT_GSI \<and> \<not> q_uobject q"

definition tbv_qp_accepts_kernel_dma_lkey :: "tbv_qp \<Rightarrow> u32 \<Rightarrow> bool" where
  "tbv_qp_accepts_kernel_dma_lkey q lkey \<longleftrightarrow>
     tbv_qp_is_kernel_gsi q \<and> lkey = q_local_dma_lkey q \<and> q_virt_dma q"

definition tbv_gsi_effective_remote_qkey :: "tbv_qp \<Rightarrow> u32 \<Rightarrow> u32" where
  "tbv_gsi_effective_remote_qkey q qkey = (if qkey = 0x80000000 then q_qkey q else qkey)"

definition tbv_qp_get_live :: "tbv_qp \<Rightarrow> tbv_qp \<times> bool" where
  "tbv_qp_get_live q =
     (if \<not> q_closing q \<and> q_refs q \<noteq> 0 then (q\<lparr>q_refs := q_refs q + 1\<rparr>, True) else (q, False))"

definition tbv_qp_allows_post :: "tbv_qp \<Rightarrow> bool" where
  "tbv_qp_allows_post q \<longleftrightarrow> \<not> q_closing q \<and> q_state q \<noteq> IB_QPS_RESET \<and> q_state q \<noteq> IB_QPS_ERR"

section \<open>Timeouts\<close>

record jiffies_env =
  msecs_to_jiffies :: "u32 \<Rightarrow> jiffies"
  usecs_to_jiffies :: "u32 \<Rightarrow> jiffies"
  nsecs_to_jiffies :: "u64 \<Rightarrow> jiffies"
  qp_timeout_ms :: u32

definition tbv_qp_fallback_timeout_jiffies :: "jiffies_env \<Rightarrow> jiffies" where
  "tbv_qp_fallback_timeout_jiffies E =
     (if qp_timeout_ms E \<noteq> 0 then msecs_to_jiffies E (qp_timeout_ms E) else 0)"

definition tbv_verbs_ack_timeout_jiffies :: "jiffies_env \<Rightarrow> u8 \<Rightarrow> jiffies" where
  "tbv_verbs_ack_timeout_jiffies E timeout =
     (let delay = nsecs_to_jiffies E (tbv_rel_ack_timeout_ns timeout)
      in if delay \<noteq> 0 then delay else 1)"

definition tbv_qp_tx_timeout_jiffies_locked :: "jiffies_env \<Rightarrow> tbv_qp \<Rightarrow> jiffies" where
  "tbv_qp_tx_timeout_jiffies_locked E q =
     (if q_type q = IB_QPT_RC \<and> q_ack_timeout_set q then tbv_verbs_ack_timeout_jiffies E (q_timeout q)
      else tbv_qp_fallback_timeout_jiffies E)"

definition tbv_qp_rx_timeout_jiffies_locked :: "tbv_qp \<Rightarrow> jiffies \<Rightarrow> jiffies" where
  "tbv_qp_rx_timeout_jiffies_locked q tx_timeout =
     (if tx_timeout = 0 then 0
      else
        (let masked = q_retry_cnt q AND 7;
             retry_cnt = (if q_type q \<noteq> IB_QPT_RC \<and> masked = 0 then TBV_UC_WIRE_MAX_RETRIES else masked);
             factor = ucast retry_cnt + 3
         in if unat tx_timeout * unat factor \<ge> 2 ^ 64 then MAX_JIFFY_OFFSET
            else tx_timeout * factor))"

definition tbv_qp_timeout_interval_jiffies_locked :: "jiffies_env \<Rightarrow> tbv_qp \<Rightarrow> jiffies" where
  "tbv_qp_timeout_interval_jiffies_locked E q =
     (let timeout = tbv_qp_tx_timeout_jiffies_locked E q;
          m = msecs_to_jiffies E 1000; max_interval = (if m = 0 then 1 else m);
          r = msecs_to_jiffies E 100; read_interval = (if r = 0 then 1 else r)
      in if timeout = 0 then 0
         else
           (let interval = min timeout (min max_interval read_interval)
            in if interval \<noteq> 0 then interval else 1))"

definition tbv_send_retry_jiffies :: "jiffies \<Rightarrow> u8 \<Rightarrow> jiffies" where
  "tbv_send_retry_jiffies qp_timeout max_retries =
     (if qp_timeout = 0 then 0
      else
        (let retry = tbv_rel_retry_interval qp_timeout (ucast max_retries)
         in if retry > MAX_JIFFY_OFFSET then MAX_JIFFY_OFFSET else retry))"

definition rnr_timer_us :: "u32 list" where
  "rnr_timer_us =
     [655360, 10, 20, 30, 40, 60, 80, 120, 160, 240, 320, 480, 640, 960, 1280, 1920,
      2560, 3840, 5120, 7680, 10240, 15360, 20480, 30720, 40960, 61440, 81920, 122880,
      163840, 245760, 327680, 491520]"

definition tbv_rnr_timer_jiffies :: "jiffies_env \<Rightarrow> u8 \<Rightarrow> jiffies" where
  "tbv_rnr_timer_jiffies E min_rnr_timer =
     (let delay = usecs_to_jiffies E (rnr_timer_us ! unat (min min_rnr_timer 31))
      in if delay \<noteq> 0 then delay else 1)"

definition tbv_read_resp_retry_jiffies :: "jiffies_env \<Rightarrow> jiffies \<Rightarrow> jiffies" where
  "tbv_read_resp_retry_jiffies E qp_timeout =
     (if qp_timeout = 0 then 0
      else
        (let r = msecs_to_jiffies E 100; retry = (if r = 0 then 1 else r)
         in min retry qp_timeout))"

text \<open>\<open>time_after_eq\<close> compares across the wrap-around of the clock.\<close>

definition time_after_eq :: "jiffies \<Rightarrow> jiffies \<Rightarrow> bool" where
  "time_after_eq a b \<longleftrightarrow> 0 \<le> sint (a - b)"

definition tbv_qp_entry_expired :: "jiffies \<Rightarrow> jiffies \<Rightarrow> jiffies \<Rightarrow> bool" where
  "tbv_qp_entry_expired queued now timeout \<longleftrightarrow>
     timeout \<noteq> 0 \<and> queued \<noteq> 0 \<and> time_after_eq now (queued + timeout)"

text \<open>\<open>q_timeout_due\<close> records the delays passed to \<open>mod_delayed_work\<close>.\<close>

definition tbv_qp_schedule_timeout_delay_locked :: "jiffies \<Rightarrow> bool \<Rightarrow> tbv_qp \<Rightarrow> tbv_qp" where
  "tbv_qp_schedule_timeout_delay_locked delay replace q =
     (if delay = 0 \<or> q_closing q \<or> q_timeout_armed q \<and> \<not> replace then q
      else q\<lparr>q_timeout_armed := True, q_timeout_due := q_timeout_due q @ [delay]\<rparr>)"

definition tbv_qp_schedule_timeout_locked :: "jiffies_env \<Rightarrow> tbv_qp \<Rightarrow> tbv_qp" where
  "tbv_qp_schedule_timeout_locked E q =
     tbv_qp_schedule_timeout_delay_locked (tbv_qp_timeout_interval_jiffies_locked E q) False q"

definition tbv_qp_schedule_timeout_now_locked :: "jiffies_env \<Rightarrow> tbv_qp \<Rightarrow> tbv_qp" where
  "tbv_qp_schedule_timeout_now_locked E q =
     (if tbv_qp_tx_timeout_jiffies_locked E q = 0 \<or> q_closing q then q
      else q\<lparr>q_timeout_armed := True, q_timeout_due := q_timeout_due q @ [0]\<rparr>)"

section \<open>Endpoints and credits\<close>

datatype tbv_rx_endpoint_status =
    TBV_RX_ENDPOINT_OK | TBV_RX_ENDPOINT_UNCONNECTED | TBV_RX_ENDPOINT_BAD_PEER | TBV_RX_ENDPOINT_QP_ERROR

definition tbv_qp_validate_native_endpoint :: "tbv_qp \<Rightarrow> tbv_native_data_header \<Rightarrow> tbv_rx_endpoint_status" where
  "tbv_qp_validate_native_endpoint q hdr =
     (if q_closing q \<or> q_state q = IB_QPS_ERR then TBV_RX_ENDPOINT_QP_ERROR
      else if d_dest_qp hdr \<noteq> q_num q then TBV_RX_ENDPOINT_BAD_PEER
      else if \<not> q_dest_qp_known q then TBV_RX_ENDPOINT_UNCONNECTED
      else if d_src_qp hdr \<noteq> q_dest_qp_num q then TBV_RX_ENDPOINT_BAD_PEER
      else TBV_RX_ENDPOINT_OK)"

definition add_credits :: "u32 \<Rightarrow> tbv_qp \<Rightarrow> tbv_qp" where
  "add_credits n q =
     (if add_overflows (q_remote_recv_credits q) n then q
      else q\<lparr>q_remote_recv_credits := q_remote_recv_credits q + n\<rparr>)"

definition tbv_qp_accept_recv_credit ::
  "tbv_qp \<Rightarrow> tbv_native_data_header \<Rightarrow> tbv_qp \<times> tbv_rx_endpoint_status" where
  "tbv_qp_accept_recv_credit q hdr =
     (if q_closing q \<or> q_state q = IB_QPS_ERR then (q, TBV_RX_ENDPOINT_QP_ERROR)
      else if d_dest_qp hdr \<noteq> q_num q then (q, TBV_RX_ENDPOINT_BAD_PEER)
      else if q_dest_qp_known q then
        (if d_src_qp hdr \<noteq> q_dest_qp_num q then (q, TBV_RX_ENDPOINT_BAD_PEER)
         else (add_credits (d_imm_data hdr) q, TBV_RX_ENDPOINT_OK))
      else if q_early_src_known q \<and> q_early_src_qp q \<noteq> d_src_qp hdr then (q, TBV_RX_ENDPOINT_BAD_PEER)
      else (add_credits (d_imm_data hdr)
              (q\<lparr>q_early_src_known := True, q_early_src_qp := d_src_qp hdr\<rparr>), TBV_RX_ENDPOINT_OK))"

definition tbv_qp_try_consume_remote_recv_credit :: "tbv_qp \<Rightarrow> tbv_qp \<times> status option" where
  "tbv_qp_try_consume_remote_recv_credit q =
     (if q_closing q \<or> q_state q = IB_QPS_ERR then (q, Some (Some ECANCELED))
      else if q_remote_recv_credits q \<noteq> 0
      then (q\<lparr>q_remote_recv_credits := q_remote_recv_credits q - 1\<rparr>, Some None)
      else (q, None))"

definition tbv_qp_consume_remote_recv_credit :: "tbv_qp \<Rightarrow> tbv_qp \<times> status" where
  "tbv_qp_consume_remote_recv_credit q =
     (case tbv_qp_try_consume_remote_recv_credit q of
        (q', Some ret) \<Rightarrow> (q', ret)
      | (q', None) \<Rightarrow> (q', Some EAGAIN))"

definition tbv_qp_return_remote_recv_credit :: "tbv_qp \<Rightarrow> tbv_qp" where
  "tbv_qp_return_remote_recv_credit q =
     (if \<not> q_closing q \<and> q_state q \<noteq> IB_QPS_ERR
      then q\<lparr>q_remote_recv_credits := q_remote_recv_credits q + 1\<rparr> else q)"

section \<open>Retry budgets and the history of acknowledgements\<close>

definition tbv_qp_send_max_retries :: "tbv_qp \<Rightarrow> u8" where
  "tbv_qp_send_max_retries q = min (q_retry_cnt q) TBV_SEND_MAX_RETRIES"

definition tbv_qp_send_max_rnr_retries :: "tbv_qp \<Rightarrow> u8" where
  "tbv_qp_send_max_rnr_retries q =
     (let retries = tbv_rel_decode_verbs_rnr_retry (q_rnr_retry q)
      in if retries = TBV_REL_RETRY_INFINITE then TBV_SEND_RNR_RETRIES_INFINITE else ucast retries)"

definition tbv_send_rnr_retries_infinite :: "tbv_send_ctx \<Rightarrow> bool" where
  "tbv_send_rnr_retries_infinite s \<longleftrightarrow> sc_max_rnr_retries s = TBV_SEND_RNR_RETRIES_INFINITE"

definition tbv_send_rnr_retry_allowed :: "tbv_send_ctx \<Rightarrow> bool" where
  "tbv_send_rnr_retry_allowed s \<longleftrightarrow>
     tbv_send_rnr_retries_infinite s \<or> sc_rnr_retries s < sc_max_rnr_retries s"

definition tbv_send_rnr_retry_exhausted :: "tbv_send_ctx \<Rightarrow> bool" where
  "tbv_send_rnr_retry_exhausted s \<longleftrightarrow>
     \<not> tbv_send_rnr_retries_infinite s \<and> sc_rnr_retries s \<ge> sc_max_rnr_retries s"

definition tbv_send_rnr_waits_for_recv_credit :: "tbv_send_ctx \<Rightarrow> bool" where
  "tbv_send_rnr_waits_for_recv_credit s \<longleftrightarrow> sc_recv_credit_required s \<and> tbv_send_rnr_retries_infinite s"

definition tbv_qp_ack_history_store_locked :: "u32 \<Rightarrow> u32 \<Rightarrow> tbv_qp \<Rightarrow> tbv_qp" where
  "tbv_qp_ack_history_store_locked psn ack q =
     q\<lparr>q_ack_history := (q_ack_history q)[unat (psn mod TBV_ACK_HISTORY_SIZE) :=
         \<lparr>ah_psn = psn AND TBV_PSN_MASK, ah_status = ack, ah_valid = True\<rparr>]\<rparr>"

definition tbv_qp_ack_history_lookup_locked :: "tbv_qp \<Rightarrow> u32 \<Rightarrow> u32 option" where
  "tbv_qp_ack_history_lookup_locked q psn =
     (let entry = q_ack_history q ! unat (psn mod TBV_ACK_HISTORY_SIZE)
      in if \<not> ah_valid entry \<or> ah_psn entry \<noteq> (psn AND TBV_PSN_MASK) then None
         else Some (ah_status entry))"

text \<open>The acknowledgement a duplicate is answered with, or \<open>None\<close> if the frame is not one.\<close>

definition tbv_rx_reack_duplicate_locked :: "tbv_qp \<Rightarrow> u32 \<Rightarrow> u32 option" where
  "tbv_rx_reack_duplicate_locked q psn =
     (if tbv_psn_delta psn (q_rx_expected_psn q) \<ge> 0 then None
      else case tbv_qp_ack_history_lookup_locked q psn of
        Some ack \<Rightarrow> Some ack
      | None \<Rightarrow> Some TBV_NATIVE_SEND_ACK_OK)"

section \<open>The queue of pending sends\<close>

definition tbv_send_mark_queued :: "jiffies \<Rightarrow> tbv_send_ctx \<Rightarrow> tbv_send_ctx" where
  "tbv_send_mark_queued now s =
     (let s' = s\<lparr>sc_queued := now\<rparr>
      in if sc_first_queued s' = 0 then s'\<lparr>sc_first_queued := now\<rparr> else s')"

definition tbv_qp_reserve_sendq :: "tbv_qp \<Rightarrow> tbv_qp \<times> unit res" where
  "tbv_qp_reserve_sendq q =
     (if q_closing q \<or> q_state q = IB_QPS_RESET \<or> q_state q = IB_QPS_ERR then (q, Inl EINVAL)
      else if q_sendq_count q \<ge> q_max_send_wr q then (q, Inl ENOMEM)
      else (q\<lparr>q_sendq_count := q_sendq_count q + 1\<rparr>, Inr ()))"

text \<open>Acts on the counter and on the flag \<open>*counted\<close>, which it clears.\<close>

definition tbv_qp_release_sendq_counted_locked :: "bool \<Rightarrow> u32 \<Rightarrow> u32" where
  "tbv_qp_release_sendq_counted_locked counted n =
     (if \<not> counted then n else if n = 0 then 0 else n - 1)"

definition tbv_qp_release_sendq_counted :: "tbv_qp \<Rightarrow> tbv_send_ctx \<Rightarrow> tbv_qp \<times> tbv_send_ctx" where
  "tbv_qp_release_sendq_counted q s =
     (q\<lparr>q_sendq_count := tbv_qp_release_sendq_counted_locked (sc_sq_counted s) (q_sendq_count q)\<rparr>,
      s\<lparr>sc_sq_counted := False\<rparr>)"

definition tbv_qp_queue_send :: "tbv_send_ctx \<Rightarrow> tbv_qp \<Rightarrow> tbv_qp" where
  "tbv_qp_queue_send s q =
     q\<lparr>q_pending_sends := q_pending_sends q @
         [s\<lparr>sc_queued := 0, sc_first_queued := 0, sc_pending := True, sc_retrying := False,
            sc_rnr_waiting := False, sc_retry_reason := TBV_SEND_POST_INITIAL\<rparr>]\<rparr>"

text \<open>Changing the queued sends that satisfy a test.\<close>

definition on_send :: "nat \<Rightarrow> (tbv_send_ctx \<Rightarrow> tbv_send_ctx) \<Rightarrow> tbv_qp \<Rightarrow> tbv_qp" where
  "on_send p f q = q\<lparr>q_pending_sends := map (\<lambda>s. if sc_ptr s = p then f s else s) (q_pending_sends q)\<rparr>"

definition tbv_qp_arm_send_timeout :: "jiffies_env \<Rightarrow> jiffies \<Rightarrow> nat \<Rightarrow> tbv_qp \<Rightarrow> tbv_qp" where
  "tbv_qp_arm_send_timeout E now p q =
     (case find (\<lambda>s. sc_ptr s = p) (q_pending_sends q) of
        None \<Rightarrow> q
      | Some s \<Rightarrow>
          if sc_pending s \<and> sc_queued s = 0
          then tbv_qp_schedule_timeout_locked E (on_send p (tbv_send_mark_queued now) q)
          else q)"

definition unlinked :: "tbv_send_ctx \<Rightarrow> tbv_send_ctx" where
  "unlinked s = s\<lparr>sc_pending := False, sc_retrying := False, sc_rnr_waiting := False, sc_sq_counted := False\<rparr>"

definition tbv_qp_unqueue_send :: "nat \<Rightarrow> tbv_qp \<Rightarrow> tbv_qp \<times> bool" where
  "tbv_qp_unqueue_send p q =
     (case find (\<lambda>s. sc_ptr s = p) (q_pending_sends q) of
        None \<Rightarrow> (q, False)
      | Some s \<Rightarrow>
          (q\<lparr>q_pending_sends := remove1 s (q_pending_sends q),
             q_sendq_count := tbv_qp_release_sendq_counted_locked (sc_sq_counted s) (q_sendq_count q)\<rparr>, True))"

text \<open>The loop over the head of the queue: the rest of the queue, the counter, what is moved.\<close>

fun drain_ready :: "tbv_send_ctx list \<Rightarrow> u32 \<Rightarrow> tbv_send_ctx list \<times> u32 \<times> tbv_send_ctx list" where
  "drain_ready [] n = ([], n, [])"
| "drain_ready (s # ss) n =
     (if \<not> sc_ready s then (s # ss, n, [])
      else
        (let (rest, n', out) = drain_ready ss (tbv_qp_release_sendq_counted_locked (sc_sq_counted s) n)
         in (rest, n', unlinked s # out)))"

definition tbv_qp_drain_ready_sends_locked :: "tbv_qp \<Rightarrow> tbv_qp \<times> tbv_send_ctx list" where
  "tbv_qp_drain_ready_sends_locked q =
     (let (rest, n, out) = drain_ready (q_pending_sends q) (q_sendq_count q)
      in (q\<lparr>q_pending_sends := rest, q_sendq_count := n\<rparr>, out))"

definition mark_ready :: "status \<Rightarrow> tbv_send_ctx \<Rightarrow> tbv_send_ctx" where
  "mark_ready st s =
     (if sc_ready s then s
      else s\<lparr>sc_ready := True, sc_status := st, sc_retrying := False, sc_rnr_waiting := False\<rparr>)"

definition send_of_psn :: "u32 \<Rightarrow> tbv_qp \<Rightarrow> tbv_send_ctx option" where
  "send_of_psn psn q = find (\<lambda>s. sc_psn s = psn AND TBV_PSN_MASK) (q_pending_sends q)"

definition tbv_qp_complete_send_ordered ::
  "u32 \<Rightarrow> status \<Rightarrow> tbv_qp \<Rightarrow> tbv_qp \<times> tbv_send_ctx list \<times> bool" where
  "tbv_qp_complete_send_ordered psn st q =
     (case send_of_psn psn q of
        None \<Rightarrow> (q, [], False)
      | Some s \<Rightarrow>
          (let (q', out) = tbv_qp_drain_ready_sends_locked (on_send (sc_ptr s) (mark_ready st) q)
           in (q', out, True)))"

definition tbv_qp_note_rnr_ack ::
  "jiffies_env \<Rightarrow> jiffies \<Rightarrow> u32 \<Rightarrow> tbv_qp \<Rightarrow> tbv_qp \<times> tbv_send_ctx list \<times> bool" where
  "tbv_qp_note_rnr_ack E now psn q =
     (case send_of_psn psn q of
        None \<Rightarrow> (q, [], False)
      | Some s \<Rightarrow>
          if tbv_send_rnr_retry_exhausted s \<or> q_closing q \<or> q_state q = IB_QPS_ERR
          then (let (q', out) = tbv_qp_drain_ready_sends_locked (on_send (sc_ptr s) (mark_ready (Some EAGAIN)) q)
                in (q', out, True))
          else
            (let q1 = on_send (sc_ptr s)
                   (\<lambda>s. tbv_send_mark_queued now (s\<lparr>sc_rnr_waiting := True, sc_retrying := False\<rparr>)) q
             in (if tbv_send_rnr_waits_for_recv_credit s
                 then (if q_remote_recv_credits q1 \<noteq> 0 then tbv_qp_schedule_timeout_now_locked E q1 else q1)
                 else tbv_qp_schedule_timeout_delay_locked
                        (tbv_rnr_timer_jiffies E (q_min_rnr_timer q)) True q1,
                 [], True)))"

definition tbv_qp_send_retry_pending :: "nat \<Rightarrow> tbv_qp \<Rightarrow> tbv_qp \<times> bool" where
  "tbv_qp_send_retry_pending p q =
     (case find (\<lambda>s. sc_ptr s = p) (q_pending_sends q) of
        None \<Rightarrow> (q, False)
      | Some s \<Rightarrow>
          (let pending = (sc_pending s \<and> \<not> q_closing q \<and> q_state q \<noteq> IB_QPS_ERR \<and>
                 \<not> sc_rnr_waiting s \<and> sc_tx_pending s = 0)
           in (if pending then q else on_send p (sc_retrying_update (\<lambda>_. False)) q, pending)))"

definition tbv_qp_ack_is_late_duplicate :: "tbv_qp \<Rightarrow> u32 \<Rightarrow> bool" where
  "tbv_qp_ack_is_late_duplicate q psn \<longleftrightarrow> tbv_psn_delta (psn AND TBV_PSN_MASK) (q_send_psn q) < 0"

fun flush_loop :: "tbv_send_ctx list \<Rightarrow> u32 \<Rightarrow> u32 \<times> tbv_send_ctx list" where
  "flush_loop [] n = (n, [])"
| "flush_loop (s # ss) n =
     (let s1 = (if sc_ready s then s else s\<lparr>sc_ready := True, sc_status := Some ECANCELED\<rparr>);
          (n', out) = flush_loop ss (tbv_qp_release_sendq_counted_locked (sc_sq_counted s) n)
      in (n', unlinked s1 # out))"

definition tbv_qp_flush_sends :: "tbv_qp \<Rightarrow> tbv_qp \<times> tbv_send_ctx list" where
  "tbv_qp_flush_sends q =
     (let (n, out) = flush_loop (q_pending_sends q) (q_sendq_count q)
      in (q\<lparr>q_pending_sends := [], q_sendq_count := n\<rparr>, out))"

section \<open>The queue of pending reads\<close>

definition tbv_qp_queue_read :: "tbv_read_ctx \<Rightarrow> tbv_qp \<Rightarrow> tbv_qp" where
  "tbv_qp_queue_read r q = q\<lparr>q_pending_reads := q_pending_reads q @ [r\<lparr>rd_queued := 0\<rparr>]\<rparr>"

definition on_read :: "nat \<Rightarrow> (tbv_read_ctx \<Rightarrow> tbv_read_ctx) \<Rightarrow> tbv_qp \<Rightarrow> tbv_qp" where
  "on_read p f q = q\<lparr>q_pending_reads := map (\<lambda>r. if rd_ptr r = p then f r else r) (q_pending_reads q)\<rparr>"

abbreviation find_read :: "nat \<Rightarrow> tbv_qp \<Rightarrow> tbv_read_ctx option" where
  "find_read p q \<equiv> find (\<lambda>r. rd_ptr r = p) (q_pending_reads q)"

definition tbv_qp_arm_read_timeout :: "jiffies_env \<Rightarrow> jiffies \<Rightarrow> nat \<Rightarrow> tbv_qp \<Rightarrow> tbv_qp" where
  "tbv_qp_arm_read_timeout E now p q =
     (case find_read p q of
        None \<Rightarrow> q
      | Some r \<Rightarrow>
          if rd_queued r = 0
          then tbv_qp_schedule_timeout_locked E (on_read p (rd_queued_update (\<lambda>_. now)) q)
          else q)"

definition tbv_qp_unqueue_read :: "nat \<Rightarrow> tbv_qp \<Rightarrow> tbv_qp \<times> bool" where
  "tbv_qp_unqueue_read p q =
     (case find_read p q of
        None \<Rightarrow> (q, False)
      | Some r \<Rightarrow>
          (q\<lparr>q_pending_reads := remove1 r (q_pending_reads q),
             q_sendq_count := tbv_qp_release_sendq_counted_locked (rd_sq_counted r) (q_sendq_count q)\<rparr>, True))"

fun drain_ready_reads :: "tbv_read_ctx list \<Rightarrow> u32 \<Rightarrow> tbv_read_ctx list \<times> u32 \<times> tbv_read_ctx list" where
  "drain_ready_reads [] n = ([], n, [])"
| "drain_ready_reads (r # rs) n =
     (if \<not> rd_ready r then (r # rs, n, [])
      else
        (let (rest, n', out) = drain_ready_reads rs (tbv_qp_release_sendq_counted_locked (rd_sq_counted r) n)
         in (rest, n', r\<lparr>rd_sq_counted := False\<rparr> # out)))"

text \<open>The part under the lock; the caller completes what is returned, in order.\<close>

definition tbv_qp_complete_read_ordered ::
  "nat \<Rightarrow> status \<Rightarrow> tbv_qp \<Rightarrow> tbv_qp \<times> tbv_read_ctx list \<times> bool" where
  "tbv_qp_complete_read_ordered p st q =
     (case find_read p q of
        None \<Rightarrow> (q, [], False)
      | Some _ \<Rightarrow>
          (let q1 = on_read p (\<lambda>r. if rd_ready r then r else r\<lparr>rd_ready := True, rd_status := st\<rparr>) q;
               (rest, n, out) = drain_ready_reads (q_pending_reads q1) (q_sendq_count q1)
           in (q1\<lparr>q_pending_reads := rest, q_sendq_count := n\<rparr>, out, True)))"

definition tbv_qp_find_read_get :: "tbv_qp \<Rightarrow> u32 \<Rightarrow> tbv_read_ctx option" where
  "tbv_qp_find_read_get q psn = find (\<lambda>r. rd_psn r = psn) (q_pending_reads q)"

fun flush_reads_loop :: "tbv_read_ctx list \<Rightarrow> u32 \<Rightarrow> u32" where
  "flush_reads_loop [] n = n"
| "flush_reads_loop (r # rs) n = flush_reads_loop rs (tbv_qp_release_sendq_counted_locked (rd_sq_counted r) n)"

definition tbv_qp_flush_reads :: "tbv_qp \<Rightarrow> tbv_qp \<times> tbv_read_ctx list" where
  "tbv_qp_flush_reads q =
     (q\<lparr>q_pending_reads := [], q_sendq_count := flush_reads_loop (q_pending_reads q) (q_sendq_count q)\<rparr>,
      map (rd_sq_counted_update (\<lambda>_. False)) (q_pending_reads q))"

end
