(* ===== verification/Verbs_Timer.thy ===== *)
theory Verbs_Timer
  imports Verbs_Qp
begin

text \<open>
  \<^verbatim>\<open>src/kernel/ibdev.c\<close>, the timer of a queue pair on the sending side: \<^verbatim>\<open>tbv_qp_timeout_reap_tx\<close> walks the pending
  sends, picks those whose acknowledgement is late for retransmission and completes those whose budget is
  spent; \<^verbatim>\<open>tbv_qp_timeout_work\<close> then retransmits them, and \<open>after_retry\<close> is what it does with the result.

  The walk keeps a pointer to the next node while its body may move nodes to the list of completed
  sends, so the linked lists matter: a cursor is a send or one of the two list heads, and
  \<open>next_node\<close> follows the pointers as they are at that moment. A cursor at the head of the other list is a list
  head that the code takes for a send; the walk is then \<open>Stray\<close>.
\<close>

section \<open>The body of the loop\<close>

record reap =
  rp_qp :: tbv_qp
  rp_retry :: "nat list"
  rp_completed :: "tbv_send_ctx list"
  rp_failed :: bool
  rp_resched :: bool

definition wire_retries :: "tbv_send_ctx \<Rightarrow> u8" where
  "wire_retries s =
     (if \<not> sc_retryable s \<and> sc_max_retries s = 0 then TBV_UC_WIRE_MAX_RETRIES else sc_max_retries s)"

definition send_timeout :: "jiffies \<Rightarrow> tbv_send_ctx \<Rightarrow> jiffies" where
  "send_timeout timeout s =
     (if (sc_retryable s \<or> \<not> sc_wire_acked s) \<and> wire_retries s \<noteq> 0
      then tbv_send_retry_jiffies timeout (wire_retries s) else timeout)"

text \<open>Giving up on a send: it is marked and the head of the queue is drained.\<close>

definition expire :: "status \<Rightarrow> nat \<Rightarrow> reap \<Rightarrow> reap" where
  "expire st p R =
     (let (q, out) = tbv_qp_drain_ready_sends_locked (on_send p (mark_ready st) (rp_qp R))
      in R\<lparr>rp_qp := q, rp_completed := rp_completed R @ out, rp_failed := True\<rparr>)"

definition reap_rnr :: "jiffies_env \<Rightarrow> jiffies \<Rightarrow> tbv_send_ctx \<Rightarrow> reap \<Rightarrow> reap" where
  "reap_rnr E now s R =
     (let q = rp_qp R; p = sc_ptr s;
          credit_wait = tbv_send_rnr_waits_for_recv_credit s;
          credit_ready = (sc_recv_credit_required s \<and> q_remote_recv_credits q \<noteq> 0);
          timer_expired = tbv_qp_entry_expired (sc_queued s) now (tbv_rnr_timer_jiffies E (q_min_rnr_timer q))
      in if credit_wait \<and> \<not> credit_ready then R
         else if \<not> credit_ready \<and> \<not> timer_expired then R\<lparr>rp_resched := True\<rparr>
         else if (sc_retryable s \<or> \<not> sc_wire_acked s) \<and> \<not> sc_retrying s \<and> sc_tx_pending s = 0 \<and>
           tbv_send_rnr_retry_allowed s \<and> \<not> q_closing q \<and> q_state q \<noteq> IB_QPS_ERR
         then
           (let q1 = (if credit_ready then q\<lparr>q_remote_recv_credits := q_remote_recv_credits q - 1\<rparr> else q)
            in R\<lparr>rp_qp := on_send p (\<lambda>s. s\<lparr>sc_retrying := True, sc_rnr_waiting := False,
                   sc_retry_reason := TBV_SEND_POST_RETRY_RNR\<rparr>) q1,
                 rp_retry := rp_retry R @ [p]\<rparr>)
         else expire (Some EAGAIN) p R)"

definition reap_send :: "jiffies_env \<Rightarrow> jiffies \<Rightarrow> jiffies \<Rightarrow> tbv_send_ctx \<Rightarrow> reap \<Rightarrow> reap" where
  "reap_send E now timeout s R =
     (let q = rp_qp R; p = sc_ptr s
      in if sc_ready s then R\<lparr>rp_resched := True\<rparr>
         else if sc_rnr_waiting s then reap_rnr E now s R
         else if \<not> tbv_qp_entry_expired (sc_queued s) now (send_timeout timeout s) then R
         else if sc_retryable s \<and> sc_tx_pending s \<noteq> 0 then R\<lparr>rp_resched := True\<rparr>
         else if sc_retryable s \<and> wire_retries s \<noteq> 0 \<and> sc_retrying s \<and>
           \<not> tbv_qp_entry_expired (sc_queued s) now timeout
         then R\<lparr>rp_resched := True\<rparr>
         else if (sc_retryable s \<or> \<not> sc_wire_acked s) \<and> \<not> sc_retrying s \<and> sc_tx_pending s = 0 \<and>
           sc_retries s < wire_retries s \<and> \<not> q_closing q \<and> q_state q \<noteq> IB_QPS_ERR
         then R\<lparr>rp_qp := on_send p (\<lambda>s. s\<lparr>sc_retrying := True, sc_retry_reason := TBV_SEND_POST_RETRY_TIMEOUT\<rparr>) q,
                rp_retry := rp_retry R @ [p]\<rparr>
         else expire (Some ETIMEDOUT) p R)"

section \<open>The walk\<close>

datatype cursor = At nat | Pending_head | Completed_head

fun successor :: "nat list \<Rightarrow> cursor \<Rightarrow> nat \<Rightarrow> cursor" where
  "successor [] h p = h"
| "successor (x # xs) h p =
     (if x = p then (case xs of [] \<Rightarrow> h | y # _ \<Rightarrow> At y) else successor xs h p)"

abbreviation queued_ptrs :: "reap \<Rightarrow> nat list" where
  "queued_ptrs R \<equiv> map sc_ptr (q_pending_sends (rp_qp R))"

abbreviation completed_ptrs :: "reap \<Rightarrow> nat list" where
  "completed_ptrs R \<equiv> map sc_ptr (rp_completed R)"

definition next_node :: "reap \<Rightarrow> cursor \<Rightarrow> cursor" where
  "next_node R c =
     (case c of
        Pending_head \<Rightarrow> (case queued_ptrs R of [] \<Rightarrow> Pending_head | p # _ \<Rightarrow> At p)
      | Completed_head \<Rightarrow> (case completed_ptrs R of [] \<Rightarrow> Completed_head | p # _ \<Rightarrow> At p)
      | At p \<Rightarrow> if p \<in> set (queued_ptrs R) then successor (queued_ptrs R) Pending_head p
                else successor (completed_ptrs R) Completed_head p)"

definition send_at :: "reap \<Rightarrow> nat \<Rightarrow> tbv_send_ctx" where
  "send_at R p = the (find (\<lambda>s. sc_ptr s = p) (q_pending_sends (rp_qp R) @ rp_completed R))"

datatype reap_result = Finished reap | Stray reap

partial_function (option) reap_loop ::
  "jiffies_env \<Rightarrow> jiffies \<Rightarrow> jiffies \<Rightarrow> cursor \<Rightarrow> cursor \<Rightarrow> reap \<Rightarrow> reap_result option" where
  "reap_loop E now timeout pos nxt R =
     (case pos of
        Pending_head \<Rightarrow> Some (Finished R)
      | Completed_head \<Rightarrow> Some (Stray R)
      | At p \<Rightarrow>
          (let R' = reap_send E now timeout (send_at R p) R
           in reap_loop E now timeout nxt (next_node R' nxt) R'))"

text \<open>The second loop of the function, over the pending reads; only the current node moves.\<close>

fun reap_reads :: "jiffies \<Rightarrow> jiffies \<Rightarrow> tbv_read_ctx list \<Rightarrow> u32 \<Rightarrow> tbv_read_ctx list \<times> u32 \<times> tbv_read_ctx list \<times> bool" where
  "reap_reads now timeout [] n = ([], n, [], False)"
| "reap_reads now timeout (r # rs) n =
     (if rd_ready r \<or> \<not> tbv_qp_entry_expired (rd_queued r) now timeout
      then (let (rest, n', out, rs') = reap_reads now timeout rs n in (r # rest, n', out, rd_ready r \<or> rs'))
      else
        (let (rest, n', out, rs') = reap_reads now timeout rs (tbv_qp_release_sendq_counted_locked (rd_sq_counted r) n)
         in (rest, n', r\<lparr>rd_sq_counted := False\<rparr> # out, rs')))"

definition reap_finish :: "jiffies \<Rightarrow> jiffies \<Rightarrow> reap \<Rightarrow> reap \<times> tbv_read_ctx list" where
  "reap_finish now timeout R =
     (let q = rp_qp R;
          (rest, n, timed_out, ready) = reap_reads now timeout (q_pending_reads q) (q_sendq_count q);
          q1 = q\<lparr>q_pending_reads := rest, q_sendq_count := n\<rparr>
      in (R\<lparr>rp_qp := q1, rp_resched := (rp_resched R \<or> ready \<or> \<not> q_closing q1 \<and>
              (rp_retry R \<noteq> [] \<or> q_pending_sends q1 \<noteq> [] \<or> q_pending_reads q1 \<noteq> []))\<rparr>, timed_out))"

definition tbv_qp_timeout_reap_tx ::
  "jiffies_env \<Rightarrow> jiffies \<Rightarrow> jiffies \<Rightarrow> tbv_qp \<Rightarrow> (reap_result \<times> tbv_read_ctx list) option" where
  "tbv_qp_timeout_reap_tx E now timeout q =
     (let R = \<lparr>rp_qp = q, rp_retry = [], rp_completed = [], rp_failed = False, rp_resched = False\<rparr>;
          first = next_node R Pending_head
      in case reap_loop E now timeout first (next_node R first) R of
           None \<Rightarrow> None
         | Some (Stray R') \<Rightarrow> Some (Stray R', [])
         | Some (Finished R') \<Rightarrow> (let (R'', reads) = reap_finish now timeout R' in Some (Finished R'', reads)))"

section \<open>After a retransmission\<close>

text \<open>
  \<open>ret\<close> is the result of posting the frames again. A send that has left the queue meanwhile is no longer pending. The
  flag is whether the queue pair goes into the error state.
\<close>

definition bump :: "u8 \<Rightarrow> u8" where
  "bump n = (if n < 255 then n + 1 else n)"

definition after_retry ::
  "jiffies_env \<Rightarrow> jiffies \<Rightarrow> tbv_send_post_reason \<Rightarrow> status \<Rightarrow> nat \<Rightarrow> tbv_qp \<Rightarrow> tbv_qp \<times> tbv_send_ctx list \<times> bool" where
  "after_retry E now reason ret p q =
     (case find (\<lambda>s. sc_ptr s = p) (q_pending_sends q) of
        None \<Rightarrow> (q, [], False)
      | Some s \<Rightarrow>
          (let pending = (sc_pending s \<and> (if sc_retryable s then \<not> sc_completed s else \<not> sc_wire_acked s) \<and>
                 \<not> q_closing q \<and> q_state q \<noteq> IB_QPS_ERR);
               rearm = (\<lambda>f. tbv_qp_schedule_timeout_locked E (on_send p f q))
           in if pending \<and> ret = None
              then (rearm (\<lambda>s. tbv_send_mark_queued now
                      (if reason = TBV_SEND_POST_RETRY_RNR then s\<lparr>sc_rnr_retries := bump (sc_rnr_retries s)\<rparr>
                       else s\<lparr>sc_retries := bump (sc_retries s)\<rparr>)), [], False)
              else if pending \<and> ret = Some ENOMEM
              then (rearm (\<lambda>s. (tbv_send_mark_queued now s)\<lparr>sc_retrying := False\<rparr>), [], False)
              else if pending \<and> ret = Some ENOTCONN
              then (rearm (\<lambda>s. (tbv_send_mark_queued now (s\<lparr>sc_retries := bump (sc_retries s)\<rparr>))\<lparr>sc_retrying := False\<rparr>),
                    [], False)
              else if pending
              then (case tbv_qp_drain_ready_sends_locked (on_send p (mark_ready (Some ETIMEDOUT)) q) of
                      (q', out) \<Rightarrow> (q', out, True))
              else (on_send p (\<lambda>s. s\<lparr>sc_retrying := False\<rparr>) q, [], False)))"

end
