(* ===== verification/Verbs_Order.thy ===== *)
theory Verbs_Order
  imports Verbs_Timer
begin

text \<open>
  The send queue of a queue pair under all interleavings of posting, acknowledgements, local completion,
  timers, failure and flush: the sends leave it in the order they were posted, and its counter is
  exactly the number of slots in use, so that no slot leaks. Leaving the queue means being moved to a list of sends to
  complete; in which order the lists are worked off is not the subject here. The end of the file has the laws of
  sequence numbers and of the receive timeout.
\<close>

section \<open>Steps\<close>

record sq_state =
  sq_qp :: tbv_qp
  sq_reserved :: nat
  sq_posted :: "nat list"
  sq_out :: "nat list"
  sq_dropped :: "nat set"

text \<open>
  The timer is a step when its walk returns (\<open>Verbs_Reap\<close> has the walks that do not); \<open>noted\<close> is any change of the flags
  and times of a send, made by the paths that transmit it. \<open>sq_reserved\<close> counts posters that have a slot and have not queued their send yet; \<open>sq_posted\<close> are
  the queued sends in order, \<open>sq_out\<close> those moved to a completion list, \<open>sq_dropped\<close> those that were
  taken back because they could not be sent.
\<close>

definition completing :: "sq_state \<Rightarrow> tbv_qp \<Rightarrow> tbv_send_ctx list \<Rightarrow> sq_state" where
  "completing S q out = S\<lparr>sq_qp := q, sq_out := sq_out S @ map sc_ptr out\<rparr>"

inductive sq_step :: "jiffies_env \<Rightarrow> sq_state \<Rightarrow> sq_state \<Rightarrow> bool" for E where
  reserve: "tbv_qp_reserve_sendq (sq_qp S) = (q, Inr ()) \<Longrightarrow>
    sq_step E S (S\<lparr>sq_qp := q, sq_reserved := sq_reserved S + 1\<rparr>)"
| give_up: "0 < sq_reserved S \<Longrightarrow> sc_sq_counted s \<Longrightarrow> tbv_qp_release_sendq_counted (sq_qp S) s = (q, s') \<Longrightarrow>
    sq_step E S (S\<lparr>sq_qp := q, sq_reserved := sq_reserved S - 1\<rparr>)"
| post: "0 < sq_reserved S \<Longrightarrow> sc_sq_counted s \<Longrightarrow> \<not> sc_ready s \<Longrightarrow> sc_ptr s \<notin> set (sq_posted S) \<Longrightarrow>
    psn = q_send_psn (sq_qp S) AND TBV_PSN_MASK \<Longrightarrow> sc_psn s = psn \<Longrightarrow>
    sq_step E S (S\<lparr>sq_qp := tbv_qp_queue_send s ((sq_qp S)\<lparr>q_send_psn := tbv_psn_next psn\<rparr>),
      sq_reserved := sq_reserved S - 1, sq_posted := sq_posted S @ [sc_ptr s]\<rparr>)"
| ack: "tbv_qp_complete_send_ordered psn st (sq_qp S) = (q, out, found) \<Longrightarrow> sq_step E S (completing S q out)"
| rnr: "tbv_qp_note_rnr_ack E now psn (sq_qp S) = (q, out, found) \<Longrightarrow> sq_step E S (completing S q out)"
| take_back: "tbv_qp_unqueue_send p (sq_qp S) = (q, True) \<Longrightarrow>
    sq_step E S (S\<lparr>sq_qp := q, sq_dropped := insert p (sq_dropped S)\<rparr>)"
| sent_locally: "s \<in> set (q_pending_sends (sq_qp S)) \<Longrightarrow> tbv_qp_release_sendq_counted (sq_qp S) s = (q, s') \<Longrightarrow>
    sq_step E S (S\<lparr>sq_qp := on_send (sc_ptr s) (\<lambda>_. s') q\<rparr>)"
| arm: "sq_step E S (S\<lparr>sq_qp := tbv_qp_arm_send_timeout E now p (sq_qp S)\<rparr>)"
| retry: "sq_step E S (S\<lparr>sq_qp := fst (tbv_qp_send_retry_pending p (sq_qp S))\<rparr>)"
| post_read: "0 < sq_reserved S \<Longrightarrow> rd_sq_counted r \<Longrightarrow> \<not> rd_ready r \<Longrightarrow>
    rd_ptr r \<notin> rd_ptr ` set (q_pending_reads (sq_qp S)) \<Longrightarrow>
    sq_step E S (S\<lparr>sq_qp := tbv_qp_queue_read r (sq_qp S), sq_reserved := sq_reserved S - 1\<rparr>)"
| read_done: "tbv_qp_complete_read_ordered p st (sq_qp S) = (q, out', found) \<Longrightarrow> sq_step E S (S\<lparr>sq_qp := q\<rparr>)"
| read_back: "tbv_qp_unqueue_read p (sq_qp S) = (q, found) \<Longrightarrow> sq_step E S (S\<lparr>sq_qp := q\<rparr>)"
| arm_read: "sq_step E S (S\<lparr>sq_qp := tbv_qp_arm_read_timeout E now p (sq_qp S)\<rparr>)"
| flush_reads: "tbv_qp_flush_reads (sq_qp S) = (q, out') \<Longrightarrow> sq_step E S (S\<lparr>sq_qp := q\<rparr>)"
| flush: "tbv_qp_flush_sends (sq_qp S) = (q, out) \<Longrightarrow> sq_step E S (completing S q out)"
| timer: "tbv_qp_timeout_reap_tx E now timeout (sq_qp S) = Some (Finished R, reads) \<Longrightarrow>
    sq_step E S (completing S (rp_qp R) (rp_completed R))"
| retried: "after_retry E now reason ret p (sq_qp S) = (q, out, fatal) \<Longrightarrow> sq_step E S (completing S q out)"
| noted: "(\<And>s. sc_ptr (f s) = sc_ptr s \<and> sc_sq_counted (f s) = sc_sq_counted s) \<Longrightarrow>
    sq_step E S (S\<lparr>sq_qp := on_send p f (sq_qp S)\<rparr>)"

definition sq_initial :: "tbv_qp \<Rightarrow> sq_state" where
  "sq_initial q = \<lparr>sq_qp = q, sq_reserved = 0, sq_posted = [], sq_out = [], sq_dropped = {}\<rparr>"

inductive sq_reachable :: "jiffies_env \<Rightarrow> tbv_qp \<Rightarrow> sq_state \<Rightarrow> bool" for E q where
  created: "q_pending_sends q = [] \<Longrightarrow> q_pending_reads q = [] \<Longrightarrow> q_sendq_count q = 0 \<Longrightarrow> sq_reachable E q (sq_initial q)"
| step: "sq_reachable E q S \<Longrightarrow> sq_step E S S' \<Longrightarrow> sq_reachable E q S'"

section \<open>The invariant\<close>

abbreviation reads_in_use :: "tbv_read_ctx list \<Rightarrow> nat" where
  "reads_in_use rs \<equiv> length (filter rd_sq_counted rs)"

abbreviation in_use :: "tbv_send_ctx list \<Rightarrow> nat" where
  "in_use ss \<equiv> length (filter sc_sq_counted ss)"

definition order_ok :: "sq_state \<Rightarrow> bool" where
  "order_ok S \<longleftrightarrow> distinct (sq_posted S) \<and> sq_dropped S \<subseteq> set (sq_posted S) \<and>
     filter (\<lambda>p. p \<notin> sq_dropped S) (sq_posted S) = sq_out S @ map sc_ptr (q_pending_sends (sq_qp S))"

definition slots_ok :: "sq_state \<Rightarrow> bool" where
  "slots_ok S \<longleftrightarrow> unat (q_sendq_count (sq_qp S)) =
     sq_reserved S + in_use (q_pending_sends (sq_qp S)) + reads_in_use (q_pending_reads (sq_qp S))"

definition sq_inv :: "sq_state \<Rightarrow> bool" where
  "sq_inv S \<longleftrightarrow> order_ok S \<and> slots_ok S \<and> (q_sendq_count (sq_qp S) \<le> q_max_send_wr (sq_qp S))"

lemma release_counted:
  "0 < unat n \<or> \<not> b \<Longrightarrow> unat (tbv_qp_release_sendq_counted_locked b n) = unat n - (if b then 1 else 0)"
  by (auto simp: tbv_qp_release_sendq_counted_locked_def unat_gt_0 unat_pred_u32)

lemma release_le: "tbv_qp_release_sendq_counted_locked b n \<le> n"
  by (auto simp: tbv_qp_release_sendq_counted_locked_def word_le_nat_alt unat_pred_u32)

text \<open>Draining and flushing take a prefix of the queue and return its slots.\<close>

lemma drain_ready_spec:
  "drain_ready ss n = (rest, n', out) \<Longrightarrow> in_use ss \<le> unat n \<Longrightarrow>
     map sc_ptr ss = map sc_ptr out @ map sc_ptr rest \<and> unat n' = unat n - in_use ss + in_use rest \<and> n' \<le> n \<and>
     in_use rest \<le> in_use ss"
proof (induction ss n arbitrary: rest n' out rule: drain_ready.induct)
  case (2 s ss n)
  show ?case
  proof (cases "sc_ready s")
    case True
    let ?m = "tbv_qp_release_sendq_counted_locked (sc_sq_counted s) n"
    obtain out' where d: "drain_ready ss ?m = (rest, n', out')" "out = unlinked s # out'"
      using 2(2) True by (auto simp: Let_def split: prod.splits)
    have m: "unat ?m = unat n - (if sc_sq_counted s then 1 else 0)"
      using 2(3) by (intro release_counted) (auto split: if_splits)
    have "in_use ss \<le> unat ?m" using 2(3) m by (auto split: if_splits)
    then show ?thesis
      using 2(1) [OF _ d(1)] True d(2) m 2(3) release_le [of "sc_sq_counted s" n]
      by (auto simp: unlinked_def split: if_splits)
  qed (use 2(2,3) in auto)
qed simp

lemma flush_loop_spec:
  "flush_loop ss n = (n', out) \<Longrightarrow> in_use ss \<le> unat n \<Longrightarrow>
     map sc_ptr out = map sc_ptr ss \<and> unat n' = unat n - in_use ss \<and> n' \<le> n"
proof (induction ss arbitrary: n n' out)
  case (Cons s ss)
  let ?m = "tbv_qp_release_sendq_counted_locked (sc_sq_counted s) n"
  obtain out' s1 where d: "flush_loop ss ?m = (n', out')" "out = unlinked s1 # out'" "sc_ptr s1 = sc_ptr s"
    using Cons.prems(1) by (auto simp: Let_def split: prod.splits if_splits)
  have m: "unat ?m = unat n - (if sc_sq_counted s then 1 else 0)"
    using Cons.prems(2) by (intro release_counted) (auto split: if_splits)
  have "in_use ss \<le> unat ?m" using Cons.prems(2) m by (auto split: if_splits)
  then have "map sc_ptr out' = map sc_ptr ss \<and> unat n' = unat ?m - in_use ss \<and> n' \<le> ?m"
    by (rule Cons.IH [OF d(1)])
  then show ?case
    using d(2,3) m Cons.prems(2) order_trans [OF _ release_le [of "sc_sq_counted s" n]]
    by (auto simp: unlinked_def split: if_splits)
qed simp

text \<open>Bookkeeping that keeps the order of the queue and what is counted.\<close>

definition same_queue :: "tbv_qp \<Rightarrow> tbv_qp \<Rightarrow> bool" where
  "same_queue q q' \<longleftrightarrow> map sc_ptr (q_pending_sends q') = map sc_ptr (q_pending_sends q) \<and>
     map sc_sq_counted (q_pending_sends q') = map sc_sq_counted (q_pending_sends q) \<and>
     q_pending_reads q' = q_pending_reads q \<and>
     q_sendq_count q' = q_sendq_count q \<and> q_max_send_wr q' = q_max_send_wr q"

lemma in_use_cong: "map sc_sq_counted ss = map sc_sq_counted ss' \<Longrightarrow> in_use ss = in_use ss'"
  by (metis comp_id filter_map id_comp length_map)

lemma same_queue_refl: "same_queue q q"
  by (simp add: same_queue_def)

lemma same_queue_trans: "same_queue q q' \<Longrightarrow> same_queue q' q'' \<Longrightarrow> same_queue q q''"
  by (simp add: same_queue_def)

lemma same_queue_on_send:
  "(\<And>s. sc_ptr (f s) = sc_ptr s \<and> sc_sq_counted (f s) = sc_sq_counted s) \<Longrightarrow> same_queue q (on_send p f q)"
  by (simp add: same_queue_def on_send_def)

lemma same_queue_schedule:
  "same_queue q (tbv_qp_schedule_timeout_delay_locked d r q)"
  "same_queue q (tbv_qp_schedule_timeout_locked E q)"
  "same_queue q (tbv_qp_schedule_timeout_now_locked E q)"
  by (simp_all add: same_queue_def tbv_qp_schedule_timeout_delay_locked_def
      tbv_qp_schedule_timeout_locked_def tbv_qp_schedule_timeout_now_locked_def)

lemma mark_keeps:
  "sc_ptr (mark_ready st s) = sc_ptr s \<and> sc_sq_counted (mark_ready st s) = sc_sq_counted s"
  "sc_ptr (tbv_send_mark_queued now s) = sc_ptr s \<and>
     sc_sq_counted (tbv_send_mark_queued now s) = sc_sq_counted s"
  by (simp_all add: mark_ready_def tbv_send_mark_queued_def Let_def)

lemma same_queue_marked:
  "same_queue q (on_send p (mark_ready st) q)" "same_queue q (on_send p (tbv_send_mark_queued now) q)"
  by (rule same_queue_on_send, rule mark_keeps)+

lemma sq_inv_same: "sq_inv S \<Longrightarrow> same_queue (sq_qp S) q \<Longrightarrow> sq_inv (S\<lparr>sq_qp := q\<rparr>)"
  using in_use_cong [of "q_pending_sends q" "q_pending_sends (sq_qp S)"]
  by (simp add: sq_inv_def order_ok_def slots_ok_def same_queue_def)

lemma completing_none: "completing S q [] = S\<lparr>sq_qp := q\<rparr>"
  by (simp add: completing_def)

lemma sq_inv_drain:
  assumes "sq_inv S" and "same_queue (sq_qp S) q1" and "tbv_qp_drain_ready_sends_locked q1 = (q, out)"
  shows "sq_inv (completing S q out)"
proof -
  let ?S = "S\<lparr>sq_qp := q1\<rparr>"
  have inv: "sq_inv ?S" by (rule sq_inv_same [OF assms(1,2)])
  obtain rest n where d: "drain_ready (q_pending_sends q1) (q_sendq_count q1) = (rest, n, out)"
    and q: "q = q1\<lparr>q_pending_sends := rest, q_sendq_count := n\<rparr>"
    using assms(3) by (auto simp: tbv_qp_drain_ready_sends_locked_def split: prod.splits)
  have "in_use (q_pending_sends q1) \<le> unat (q_sendq_count q1)"
    using inv by (simp add: sq_inv_def slots_ok_def)
  note r = drain_ready_spec [OF d this]
  show ?thesis
    using inv r by (auto simp: sq_inv_def order_ok_def slots_ok_def completing_def q)
qed

lemma sq_inv_mark_drain:
  "sq_inv S \<Longrightarrow> tbv_qp_drain_ready_sends_locked (on_send p (mark_ready st) (sq_qp S)) = (q, out) \<Longrightarrow>
     sq_inv (completing S q out)"
  by (rule sq_inv_drain) (simp_all add: same_queue_marked)

lemma filter_dropped_one:
  assumes "distinct ps" and "filter P ps = xs @ p # ys"
  shows "filter (\<lambda>x. x \<noteq> p \<and> P x) ps = xs @ ys"
proof -
  have d: "distinct (xs @ p # ys)" using assms distinct_filter [of ps P] by simp
  have "filter (\<lambda>x. x \<noteq> p) (filter P ps) = xs @ ys"
  proof -
    have "filter (\<lambda>x. x \<noteq> p) xs = xs" "filter (\<lambda>x. x \<noteq> p) ys = ys" using d by (auto simp: filter_id_conv)
    then show ?thesis by (simp add: assms(2))
  qed
  then show ?thesis by (simp add: conj_commute)
qed

lemma distinct_ptrs: "order_ok S \<Longrightarrow> distinct (map sc_ptr (q_pending_sends (sq_qp S)))"
  unfolding order_ok_def by (metis distinct_append distinct_filter)

lemma remove1_split:
  "distinct (map f (xs @ s # ys)) \<Longrightarrow> remove1 s (xs @ s # ys) = xs @ ys"
  by (induction xs) auto

lemma sq_inv_take_back:
  assumes "sq_inv S" and "tbv_qp_unqueue_send p (sq_qp S) = (q, True)"
  shows "sq_inv (S\<lparr>sq_qp := q, sq_dropped := insert p (sq_dropped S)\<rparr>)"
proof -
  let ?ss = "q_pending_sends (sq_qp S)"
  obtain s where s: "find (\<lambda>s. sc_ptr s = p) ?ss = Some s"
    and q: "q = (sq_qp S)\<lparr>q_pending_sends := remove1 s ?ss,
      q_sendq_count := tbv_qp_release_sendq_counted_locked (sc_sq_counted s) (q_sendq_count (sq_qp S))\<rparr>"
    using assms(2) by (auto simp: tbv_qp_unqueue_send_def split: option.splits)
  then have mem: "s \<in> set ?ss" "sc_ptr s = p" using find_Some_iff_set by fastforce+
  then obtain xs ys where ss: "?ss = xs @ s # ys" by (meson split_list)
  have d: "distinct (map sc_ptr ?ss)" using assms(1) by (simp add: sq_inv_def distinct_ptrs)
  have rm: "remove1 s ?ss = xs @ ys" unfolding ss by (rule remove1_split) (use d ss in simp)
  have "filter (\<lambda>x. x \<noteq> p \<and> x \<notin> sq_dropped S) (sq_posted S) = (sq_out S @ map sc_ptr xs) @ map sc_ptr ys"
    using assms(1) ss mem(2) by (intro filter_dropped_one) (auto simp: sq_inv_def order_ok_def)
  moreover have "unat (tbv_qp_release_sendq_counted_locked (sc_sq_counted s) (q_sendq_count (sq_qp S))) =
      unat (q_sendq_count (sq_qp S)) - (if sc_sq_counted s then 1 else 0)"
    using assms(1) ss by (intro release_counted) (auto simp: sq_inv_def slots_ok_def)
  moreover have "p \<in> set (sq_posted S)"
  proof -
    have "p \<in> set (filter (\<lambda>p. p \<notin> sq_dropped S) (sq_posted S))"
      using assms(1) ss mem(2) by (simp add: sq_inv_def order_ok_def)
    then show ?thesis by simp
  qed
  ultimately show ?thesis
    using assms(1) ss rm order_trans [OF release_le]
    by (auto simp: sq_inv_def order_ok_def slots_ok_def q)
qed

lemma in_use_release_one:
  "distinct (map sc_ptr ss) \<Longrightarrow> s \<in> set ss \<Longrightarrow>
     in_use (map (\<lambda>x. if sc_ptr x = sc_ptr s then s\<lparr>sc_sq_counted := False\<rparr> else x) ss) =
     in_use ss - (if sc_sq_counted s then 1 else 0)"
proof (induction ss)
  case (Cons x ss)
  show ?case
  proof (cases "sc_ptr x = sc_ptr s")
    case True
    have "x = s" using True Cons.prems by (metis (no_types) distinct.simps(2) image_eqI list.set_map list.simps(9) set_ConsD)
    moreover have "map (\<lambda>x. if sc_ptr x = sc_ptr s then s\<lparr>sc_sq_counted := False\<rparr> else x) ss = ss"
      using Cons.prems(1) True by (intro map_idI) (auto simp: image_iff)
    ultimately show ?thesis using True by simp
  next
    case False
    then have "s \<in> set ss" using Cons.prems(2) by auto
    moreover have "sc_sq_counted s \<Longrightarrow> 0 < in_use ss"
      using \<open>s \<in> set ss\<close> by (auto simp: length_greater_0_conv filter_empty_conv)
    ultimately show ?thesis using Cons False by auto
  qed
qed simp

lemma map_replaced_ptr:
  "sc_ptr t = p \<Longrightarrow> map sc_ptr (map (\<lambda>x. if sc_ptr x = p then t else x) ss) = map sc_ptr ss"
  by simp

lemma sq_inv_sent_locally:
  assumes "sq_inv S" and "s \<in> set (q_pending_sends (sq_qp S))"
    and "tbv_qp_release_sendq_counted (sq_qp S) s = (q, s')"
  shows "sq_inv (S\<lparr>sq_qp := on_send (sc_ptr s) (\<lambda>_. s') q\<rparr>)"
proof -
  let ?ss = "q_pending_sends (sq_qp S)" and ?n = "q_sendq_count (sq_qp S)"
  have q: "s' = s\<lparr>sc_sq_counted := False\<rparr>"
    "q = (sq_qp S)\<lparr>q_sendq_count := tbv_qp_release_sendq_counted_locked (sc_sq_counted s) ?n\<rparr>"
    using assms(3) by (auto simp: tbv_qp_release_sendq_counted_def)
  have d: "distinct (map sc_ptr ?ss)" using assms(1) by (simp add: sq_inv_def distinct_ptrs)
  define ss' where "ss' = map (\<lambda>x. if sc_ptr x = sc_ptr s then s' else x) ?ss"
  have on: "on_send (sc_ptr s) (\<lambda>_. s') q = q\<lparr>q_pending_sends := ss'\<rparr>"
    by (simp add: on_send_def ss'_def q)
  have u: "in_use ss' = in_use ?ss - (if sc_sq_counted s then 1 else 0)"
    unfolding ss'_def q(1) by (rule in_use_release_one [OF d assms(2)])
  have ptrs: "map sc_ptr ss' = map sc_ptr ?ss"
    unfolding ss'_def by (rule map_replaced_ptr) (simp add: q)
  have pos: "sc_sq_counted s \<Longrightarrow> 0 < in_use ?ss"
    using assms(2) by (auto simp: length_greater_0_conv filter_empty_conv)
  have n: "unat (tbv_qp_release_sendq_counted_locked (sc_sq_counted s) ?n) = unat ?n - (if sc_sq_counted s then 1 else 0)"
    using assms(1) pos by (intro release_counted) (auto simp: sq_inv_def slots_ok_def)
  have "unat ?n = sq_reserved S + in_use ?ss + reads_in_use (q_pending_reads (sq_qp S))" using assms(1) by (simp add: sq_inv_def slots_ok_def)
  then have "unat (tbv_qp_release_sendq_counted_locked (sc_sq_counted s) ?n) =
      sq_reserved S + in_use ss' + reads_in_use (q_pending_reads (sq_qp S))"
    using n u pos by (cases "sc_sq_counted s") (auto simp del: length_greater_0_conv)
  moreover have "tbv_qp_release_sendq_counted_locked (sc_sq_counted s) ?n \<le> q_max_send_wr (sq_qp S)"
    using assms(1) order_trans [OF release_le] by (auto simp: sq_inv_def)
  ultimately show ?thesis
    using assms(1) unfolding on by (simp add: sq_inv_def order_ok_def slots_ok_def q(2) ptrs)
qed

text \<open>Reads only use slots of the queue.\<close>

lemma sq_inv_reads:
  assumes "sq_inv S" and "q = (sq_qp S)\<lparr>q_pending_reads := rs, q_sendq_count := n\<rparr>"
    and "unat n + reads_in_use (q_pending_reads (sq_qp S)) = unat (q_sendq_count (sq_qp S)) + reads_in_use rs"
    and "reads_in_use rs \<le> reads_in_use (q_pending_reads (sq_qp S))"
  shows "sq_inv (S\<lparr>sq_qp := q\<rparr>)"
proof -
  have "unat n \<le> unat (q_sendq_count (sq_qp S))" using assms(3,4) by linarith
  then show ?thesis
    using assms by (auto simp: sq_inv_def order_ok_def slots_ok_def word_le_nat_alt)
qed

lemma drain_reads_spec:
  "drain_ready_reads rs n = (rest, n', out) \<Longrightarrow> reads_in_use rs \<le> unat n \<Longrightarrow>
     unat n' + reads_in_use rs = unat n + reads_in_use rest \<and> reads_in_use rest \<le> reads_in_use rs"
proof (induction rs n arbitrary: rest n' out rule: drain_ready_reads.induct)
  case (2 r rs n)
  show ?case
  proof (cases "rd_ready r")
    case True
    let ?m = "tbv_qp_release_sendq_counted_locked (rd_sq_counted r) n"
    obtain out' where d: "drain_ready_reads rs ?m = (rest, n', out')"
      using 2(2) True by (auto simp: Let_def split: prod.splits)
    have m: "unat ?m = unat n - (if rd_sq_counted r then 1 else 0)"
      using 2(3) by (intro release_counted) (auto split: if_splits)
    have "reads_in_use rs \<le> unat ?m" using 2(3) m by (auto split: if_splits)
    then show ?thesis using 2(1) [OF _ d] True m 2(3) by (auto split: if_splits)
  qed (use 2(2,3) in auto)
qed simp

lemma flush_reads_spec: "reads_in_use rs \<le> unat n \<Longrightarrow> unat (flush_reads_loop rs n) + reads_in_use rs = unat n"
proof (induction rs arbitrary: n)
  case (Cons r rs)
  have m: "unat (tbv_qp_release_sendq_counted_locked (rd_sq_counted r) n) = unat n - (if rd_sq_counted r then 1 else 0)"
    using Cons.prems by (intro release_counted) (auto split: if_splits)
  then show ?case
    using Cons.IH [of "tbv_qp_release_sendq_counted_locked (rd_sq_counted r) n"] Cons.prems
    by (auto split: if_splits)
qed simp

lemma reads_in_use_update:
  "(\<And>r. rd_sq_counted (f r) = rd_sq_counted r) \<Longrightarrow>
     reads_in_use (map (\<lambda>r. if rd_ptr r = p then f r else r) rs) = reads_in_use rs"
  by (induction rs) auto

lemma sq_inv_reads_bound: "sq_inv S \<Longrightarrow> reads_in_use (q_pending_reads (sq_qp S)) \<le> unat (q_sendq_count (sq_qp S))"
  by (simp add: sq_inv_def slots_ok_def)

lemma reads_in_use_remove1:
  "r \<in> set rs \<Longrightarrow> reads_in_use (remove1 r rs) + (if rd_sq_counted r then 1 else 0) = reads_in_use rs"
  by (induction rs) auto

lemma reap_reads_spec:
  "reap_reads now timeout rs n = (rest, n', out, b) \<Longrightarrow> reads_in_use rs \<le> unat n \<Longrightarrow>
     unat n' + reads_in_use rs = unat n + reads_in_use rest \<and> reads_in_use rest \<le> reads_in_use rs"
proof (induction rs arbitrary: n rest n' out b)
  case (Cons r rs)
  show ?case
  proof (cases "rd_ready r \<or> \<not> tbv_qp_entry_expired (rd_queued r) now timeout")
    case True
    then obtain rest' out' b' where d: "reap_reads now timeout rs n = (rest', n', out', b')" "rest = r # rest'"
      using Cons.prems(1) by (auto simp: Let_def split: prod.splits if_splits)
    have "reads_in_use rs \<le> unat n" using Cons.prems(2) by (simp split: if_splits)
    from Cons.IH [OF d(1) this] show ?thesis using d(2) by simp
  next
    case False
    let ?m = "tbv_qp_release_sendq_counted_locked (rd_sq_counted r) n"
    obtain out' b' where d: "reap_reads now timeout rs ?m = (rest, n', out', b')"
      using Cons.prems(1) False by (auto simp: Let_def split: prod.splits)
    have m: "unat ?m = unat n - (if rd_sq_counted r then 1 else 0)"
      using Cons.prems(2) by (intro release_counted) (auto split: if_splits)
    have "reads_in_use rs \<le> unat ?m" using Cons.prems(2) m by (auto split: if_splits)
    then show ?thesis using Cons.IH [OF d] m Cons.prems(2) by (auto split: if_splits)
  qed
qed simp

text \<open>The timer: each turn of its walk, the walk, and the reads it gives up.\<close>

lemma completing_again: "completing (completing S q out) q' out' = completing S q' (out @ out')"
  by (simp add: completing_def)

lemma completing_qp [simp]: "sq_qp (completing S q out) = q" "(completing S q out)\<lparr>sq_qp := q'\<rparr> = completing S q' out"
  by (simp_all add: completing_def)

abbreviation after_walk :: "sq_state \<Rightarrow> reap \<Rightarrow> sq_state" where
  "after_walk S R \<equiv> completing S (rp_qp R) (rp_completed R)"

lemma if_holds: "P x \<Longrightarrow> P y \<Longrightarrow> P (if c then x else y)"
  by simp

lemma expire_inv:
  assumes "sq_inv (after_walk S R)"
  shows "sq_inv (after_walk S (expire st p R))"
proof -
  obtain q out where d: "tbv_qp_drain_ready_sends_locked (on_send p (mark_ready st) (rp_qp R)) = (q, out)" by fastforce
  then show ?thesis
    using sq_inv_mark_drain [OF assms, of p st q out] by (simp add: expire_def completing_again)
qed

lemma walk_mark_inv:
  assumes "sq_inv (after_walk S R)" and "same_queue (rp_qp R) q"
  shows "sq_inv (after_walk S (R\<lparr>rp_qp := q, rp_retry := rt\<rparr>))"
  using sq_inv_same [of "after_walk S R" q] assms by simp

lemma reap_send_inv:
  assumes "sq_inv (after_walk S R)"
  shows "sq_inv (after_walk S (reap_send E now timeout s R))"
proof -
  define W where "W = (\<lambda>R. sq_inv (after_walk S R))"
  have credit: "same_queue (rp_qp R) (if c then (rp_qp R)\<lparr>q_remote_recv_credits := n\<rparr> else rp_qp R)" for c n
    by (simp add: same_queue_def)
  have f: "W (R\<lparr>rp_qp := on_send p f (if c then (rp_qp R)\<lparr>q_remote_recv_credits := n\<rparr> else rp_qp R), rp_retry := rt\<rparr>)"
    if "\<And>s. sc_ptr (f s) = sc_ptr s \<and> sc_sq_counted (f s) = sc_sq_counted s" for p f c n rt
    unfolding W_def by (rule walk_mark_inv [OF assms same_queue_trans [OF credit same_queue_on_send]]) (rule that)
  have keep: "W R" "W (R\<lparr>rp_resched := True\<rparr>)" using assms by (simp_all add: W_def)
  have over: "W (expire st p R)" for st p unfolding W_def by (rule expire_inv [OF assms])
  note again = f [where c = False, simplified if_False]
  have "W (reap_rnr E now s R)"
    unfolding reap_rnr_def Let_def by (intro if_holds [of W] keep over f) simp_all
  then have "W (reap_send E now timeout s R)"
    unfolding reap_send_def Let_def by (intro if_holds [of W] keep over again) simp_all
  then show ?thesis by (simp add: W_def)
qed

lemma reap_loop_inv:
  assumes "reap_loop E now timeout pos nxt R = Some (Finished R')" and "sq_inv (after_walk S R)"
  shows "sq_inv (after_walk S R')"
proof -
  let ?P = "\<lambda>R r. \<forall>R'. r = Finished R' \<longrightarrow> sq_inv (after_walk S R) \<longrightarrow> sq_inv (after_walk S R')"
  have "?P R (Finished R')"
  proof (rule reap_loop.raw_induct [where P = "\<lambda>E now timeout pos nxt R r. ?P R r", OF _ assms(1)])
    fix loop and E :: jiffies_env and now timeout :: jiffies and pos nxt :: cursor and R :: reap and r
    assume "\<And>E now timeout pos nxt R r. loop E now timeout pos nxt R = Some r \<Longrightarrow> ?P R r"
      and "(case pos of
        Pending_head \<Rightarrow> Some (Finished R)
      | Completed_head \<Rightarrow> Some (Stray R)
      | At p \<Rightarrow>
          (let R' = reap_send E now timeout (send_at R p) R
           in loop E now timeout nxt (next_node R' nxt) R')) = Some r"
    then show "?P R r" by (cases pos) (auto simp: Let_def reap_send_inv)
  qed
  then show ?thesis using assms(2) by blast
qed

lemma reap_tx_inv:
  assumes "sq_inv S" and "tbv_qp_timeout_reap_tx E now timeout (sq_qp S) = Some (Finished R, reads)"
  shows "sq_inv (after_walk S R)"
proof -
  define R0 where "R0 = \<lparr>rp_qp = sq_qp S, rp_retry = [], rp_completed = [], rp_failed = False, rp_resched = False\<rparr>"
  obtain R1 where w: "reap_loop E now timeout (next_node R0 Pending_head) (next_node R0 (next_node R0 Pending_head)) R0 = Some (Finished R1)"
    and f: "reap_finish now timeout R1 = (R, reads)"
    using assms(2)
    by (auto simp: tbv_qp_timeout_reap_tx_def Let_def R0_def split: option.splits reap_result.splits prod.splits)
  have "sq_inv (after_walk S R0)" using assms(1) by (simp add: R0_def completing_def)
  then have i: "sq_inv (after_walk S R1)" by (rule reap_loop_inv [OF w])
  let ?q = "rp_qp R1"
  obtain rest n out b where r: "reap_reads now timeout (q_pending_reads ?q) (q_sendq_count ?q) = (rest, n, out, b)"
    by (metis prod_cases4)
  have R: "rp_qp R = ?q\<lparr>q_pending_reads := rest, q_sendq_count := n\<rparr>" "rp_completed R = rp_completed R1"
    using f r by (auto simp: reap_finish_def Let_def)
  have "sq_inv ((after_walk S R1)\<lparr>sq_qp := ?q\<lparr>q_pending_reads := rest, q_sendq_count := n\<rparr>\<rparr>)"
    by (rule sq_inv_reads [OF i, where rs = rest and n = n]) (use reap_reads_spec [OF r] sq_inv_reads_bound [OF i] in simp_all)
  then show ?thesis using R by simp
qed

lemma after_retry_inv:
  assumes "sq_inv S" and "after_retry E now reason ret p (sq_qp S) = (q, out, fatal)"
  shows "sq_inv (completing S q out)"
proof -
  let ?q = "sq_qp S"
  define W where "W = (\<lambda>(q, out, fatal :: bool). sq_inv (completing S q out))"
  have same: "W (q, [], b)" if "same_queue ?q q" for q b
    using sq_inv_same [OF assms(1) that] by (simp add: W_def completing_none)
  have f: "W (tbv_qp_schedule_timeout_locked E (on_send p f ?q), [], b)" "W (on_send p f ?q, [], b)"
    if "\<And>s. sc_ptr (f s) = sc_ptr s \<and> sc_sq_counted (f s) = sc_sq_counted s" for f b
    using same_queue_on_send [of f ?q p] that same_queue_trans [OF _ same_queue_schedule(2)] by (blast intro: same)+
  have k: "sc_ptr (tbv_send_mark_queued t s) = sc_ptr s \<and> sc_sq_counted (tbv_send_mark_queued t s) = sc_sq_counted s" for t s
    by (rule mark_keeps(2))
  have d: "W (case tbv_qp_drain_ready_sends_locked (on_send p (mark_ready st) ?q) of (q', out) \<Rightarrow> (q', out, True))" for st
    using sq_inv_mark_drain [OF assms(1)] by (auto simp: W_def split: prod.split)
  have "W (after_retry E now reason ret p ?q)"
  proof (cases "find (\<lambda>s. sc_ptr s = p) (q_pending_sends ?q)")
    case None
    then show ?thesis by (simp add: after_retry_def same same_queue_refl)
  next
    case (Some s)
    then show ?thesis
      unfolding after_retry_def Let_def option.case Some by (intro if_holds [of W] d f) (simp_all add: k)
  qed
  then show ?thesis using assms(2) by (simp add: W_def)
qed

lemma sq_inv_step:
  assumes "sq_step E S S'" and "sq_inv S"
  shows "sq_inv S'"
  using assms
proof (induction rule: sq_step.induct)
  case (reserve S q)
  have lt: "q_sendq_count (sq_qp S) < q_max_send_wr (sq_qp S)"
    and q: "q = (sq_qp S)\<lparr>q_sendq_count := q_sendq_count (sq_qp S) + 1\<rparr>"
    using reserve(1) by (auto simp: tbv_qp_reserve_sendq_def split: if_splits)
  then show ?case
    using reserve(2) unat_Suc_u32 [OF lt]
    by (auto simp: sq_inv_def order_ok_def slots_ok_def q word_le_nat_alt word_less_nat_alt)
next
  case (give_up S s q s')
  then have q: "q = (sq_qp S)\<lparr>q_sendq_count := tbv_qp_release_sendq_counted_locked True (q_sendq_count (sq_qp S))\<rparr>"
    by (simp add: tbv_qp_release_sendq_counted_def)
  have n: "unat (tbv_qp_release_sendq_counted_locked True (q_sendq_count (sq_qp S))) = unat (q_sendq_count (sq_qp S)) - 1"
    using release_counted [of "q_sendq_count (sq_qp S)" True] give_up(1,4) by (simp add: sq_inv_def slots_ok_def)
  show ?case
    using give_up(1,4) n order_trans [OF release_le]
    by (auto simp: sq_inv_def order_ok_def slots_ok_def q)
next
  case (post S s psn)
  have "sc_ptr s \<notin> sq_dropped S" using post(4,7) by (auto simp: sq_inv_def order_ok_def)
  then show ?case
    using post by (auto simp: sq_inv_def order_ok_def slots_ok_def tbv_qp_queue_send_def)
next
  case (ack psn st S q out found)
  then show ?case
    by (auto simp: tbv_qp_complete_send_ordered_def completing_none split: option.splits prod.splits
        intro: sq_inv_mark_drain)
next
  case (rnr now psn S q out found)
  have k: "sc_ptr (tbv_send_mark_queued now (s\<lparr>sc_rnr_waiting := True, sc_retrying := False\<rparr>)) = sc_ptr s \<and>
      sc_sq_counted (tbv_send_mark_queued now (s\<lparr>sc_rnr_waiting := True, sc_retrying := False\<rparr>)) = sc_sq_counted s" for s
    by (simp add: mark_keeps)
  show ?case
    using rnr
    by (auto simp: tbv_qp_note_rnr_ack_def completing_none Let_def split: option.splits prod.splits if_splits
        intro: sq_inv_mark_drain sq_inv_same same_queue_on_send [OF k]
          same_queue_trans [OF same_queue_on_send [OF k]] same_queue_schedule)
next
  case (arm S now p)
  then show ?case
    by (auto simp: tbv_qp_arm_send_timeout_def split: option.splits
       intro!: sq_inv_same same_queue_refl intro: same_queue_trans [OF same_queue_marked(2)] same_queue_schedule)
next
  case (retry S p)
  then show ?case
    by (auto simp: tbv_qp_send_retry_pending_def Let_def split: option.splits
       intro!: sq_inv_same same_queue_refl same_queue_on_send)
next
  case (post_read S r)
  then show ?case by (auto simp: sq_inv_def order_ok_def slots_ok_def tbv_qp_queue_read_def)
next
  case (read_done p st S q out' found)
  show ?case
  proof (cases "find_read p (sq_qp S)")
    case None
    then have "q = sq_qp S" using read_done(1) by (simp add: tbv_qp_complete_read_ordered_def)
    then show ?thesis using read_done(2) by simp
  next
    case (Some r)
    define rs where "rs = map (\<lambda>r. if rd_ptr r = p then (if rd_ready r then r else r\<lparr>rd_ready := True, rd_status := st\<rparr>) else r)
      (q_pending_reads (sq_qp S))"
    have u: "reads_in_use rs = reads_in_use (q_pending_reads (sq_qp S))"
      unfolding rs_def by (rule reads_in_use_update) simp
    obtain rest n where d: "drain_ready_reads rs (q_sendq_count (sq_qp S)) = (rest, n, out')"
      and q: "q = (sq_qp S)\<lparr>q_pending_reads := rest, q_sendq_count := n\<rparr>"
      using read_done(1) Some
      by (auto simp: tbv_qp_complete_read_ordered_def on_read_def rs_def Let_def split: prod.splits)
    have "reads_in_use rs \<le> unat (q_sendq_count (sq_qp S))" using sq_inv_reads_bound [OF read_done(2)] u by simp
    from drain_reads_spec [OF d this] show ?thesis
      by (intro sq_inv_reads [OF read_done(2) q]) (simp_all add: u)
  qed
next
  case (read_back p S q found)
  show ?case
  proof (cases "find_read p (sq_qp S)")
    case None
    then have "q = sq_qp S" using read_back(1) by (simp add: tbv_qp_unqueue_read_def)
    then show ?thesis using read_back(2) by simp
  next
    case (Some r)
    let ?n = "q_sendq_count (sq_qp S)" and ?rs = "q_pending_reads (sq_qp S)"
    have q: "q = (sq_qp S)\<lparr>q_pending_reads := remove1 r ?rs,
        q_sendq_count := tbv_qp_release_sendq_counted_locked (rd_sq_counted r) ?n\<rparr>"
      using read_back(1) Some by (simp add: tbv_qp_unqueue_read_def)
    have u: "reads_in_use (remove1 r ?rs) + (if rd_sq_counted r then 1 else 0) = reads_in_use ?rs"
      using find_Some_iff_set [OF Some] by (intro reads_in_use_remove1) simp
    have b: "reads_in_use ?rs \<le> unat ?n" by (rule sq_inv_reads_bound [OF read_back(2)])
    have "unat (tbv_qp_release_sendq_counted_locked (rd_sq_counted r) ?n) = unat ?n - (if rd_sq_counted r then 1 else 0)"
      using u b by (intro release_counted) (auto split: if_splits)
    then show ?thesis using u b by (intro sq_inv_reads [OF read_back(2) q]) (auto split: if_splits)
  qed
next
  case (arm_read S now p)
  let ?rs = "map (\<lambda>r. if rd_ptr r = p then r\<lparr>rd_queued := now\<rparr> else r) (q_pending_reads (sq_qp S))"
  have u: "reads_in_use ?rs = reads_in_use (q_pending_reads (sq_qp S))"
    by (rule reads_in_use_update) simp
  have "sq_inv (S\<lparr>sq_qp := on_read p (rd_queued_update (\<lambda>_. now)) (sq_qp S)\<rparr>)"
    by (rule sq_inv_reads [OF arm_read, where rs = ?rs and n = "q_sendq_count (sq_qp S)"])
      (simp_all only: u order_refl, simp add: on_read_def)
  from sq_inv_same [OF this, of "tbv_qp_schedule_timeout_locked E (on_read p (rd_queued_update (\<lambda>_. now)) (sq_qp S))"]
  show ?case
    using arm_read by (simp add: tbv_qp_arm_read_timeout_def same_queue_schedule split: option.split)
next
  case (flush_reads S q out')
  then have q: "q = (sq_qp S)\<lparr>q_pending_reads := [],
      q_sendq_count := flush_reads_loop (q_pending_reads (sq_qp S)) (q_sendq_count (sq_qp S))\<rparr>"
    by (simp add: tbv_qp_flush_reads_def)
  show ?case
    by (rule sq_inv_reads [OF flush_reads(2) q])
      (simp_all add: flush_reads_spec [OF sq_inv_reads_bound [OF flush_reads(2)]])
next
  case (flush S q out)
  let ?ss = "q_pending_sends (sq_qp S)"
  obtain n where f: "flush_loop ?ss (q_sendq_count (sq_qp S)) = (n, out)"
    and q: "q = (sq_qp S)\<lparr>q_pending_sends := [], q_sendq_count := n\<rparr>"
    using flush(1) by (auto simp: tbv_qp_flush_sends_def split: prod.splits)
  have "in_use ?ss \<le> unat (q_sendq_count (sq_qp S))" using flush(2) by (simp add: sq_inv_def slots_ok_def)
  from flush_loop_spec [OF f this] show ?case
    using flush(2) by (auto simp: sq_inv_def order_ok_def slots_ok_def completing_def q)
next
  case (noted f S p)
  then show ?case by (intro sq_inv_same same_queue_on_send)
qed (auto intro: sq_inv_take_back sq_inv_sent_locally reap_tx_inv after_retry_inv)

lemma sq_reachable_inv: "sq_reachable E q S \<Longrightarrow> sq_inv S"
proof (induction rule: sq_reachable.induct)
  case created
  then show ?case by (simp add: sq_inv_def order_ok_def slots_ok_def sq_initial_def)
qed (rule sq_inv_step)

lemma send_queue_facts:
  assumes "sq_reachable E q S"
  shows "filter (\<lambda>p. p \<notin> sq_dropped S) (sq_posted S) = sq_out S @ map sc_ptr (q_pending_sends (sq_qp S))"
    and "distinct (sq_out S @ map sc_ptr (q_pending_sends (sq_qp S)))"
    and "unat (q_sendq_count (sq_qp S)) =
      sq_reserved S + in_use (q_pending_sends (sq_qp S)) + reads_in_use (q_pending_reads (sq_qp S))"
    and "q_sendq_count (sq_qp S) \<le> q_max_send_wr (sq_qp S)"
proof -
  have inv: "order_ok S" "slots_ok S" "q_sendq_count (sq_qp S) \<le> q_max_send_wr (sq_qp S)"
    using sq_reachable_inv [OF assms] by (simp_all add: sq_inv_def)
  then show "filter (\<lambda>p. p \<notin> sq_dropped S) (sq_posted S) = sq_out S @ map sc_ptr (q_pending_sends (sq_qp S))"
    by (simp add: order_ok_def)
  then show "distinct (sq_out S @ map sc_ptr (q_pending_sends (sq_qp S)))"
    using inv(1) unfolding order_ok_def by (metis distinct_filter)
  show "unat (q_sendq_count (sq_qp S)) =
      sq_reserved S + in_use (q_pending_sends (sq_qp S)) + reads_in_use (q_pending_reads (sq_qp S))"
    using inv(2) by (simp add: slots_ok_def)
qed (use sq_reachable_inv [OF assms] in \<open>simp add: sq_inv_def\<close>)

text \<open>
  C34: in every interleaving of posting, acknowledgements in any order, RNR, local completion, failed posts, walks of
  the timer that return, retransmissions with any result, reads and flush, sends leave the queue in the order they were
  posted: what has been moved to a list of sends to complete, followed by what is still queued, is what was posted and
  not taken back; no send leaves twice. The slots counted are exactly those reserved by posters and those
  of queued sends and reads, so that none leaks, and never more than the queue pair was created with.
\<close>

theorem sends_leave_in_order:
  assumes "sq_reachable E q S"
  shows "filter (\<lambda>p. p \<notin> sq_dropped S) (sq_posted S) = sq_out S @ map sc_ptr (q_pending_sends (sq_qp S)) \<and>
    distinct (sq_out S @ map sc_ptr (q_pending_sends (sq_qp S))) \<and>
    unat (q_sendq_count (sq_qp S)) =
      sq_reserved S + in_use (q_pending_sends (sq_qp S)) + reads_in_use (q_pending_reads (sq_qp S)) \<and>
    q_sendq_count (sq_qp S) \<le> q_max_send_wr (sq_qp S)"
  using send_queue_facts [OF assms] by blast

text \<open>Two sends whose acknowledgements arrive in the wrong order.\<close>

definition demo_qp :: tbv_qp where
  "demo_qp = \<lparr>q_num = 0x900, q_backend = TBV_BACKEND_NATIVE, q_type = IB_QPT_RC, q_uobject = True,
     q_local_dma_lkey = 0, q_virt_dma = False, q_state = IB_QPS_RTS, q_closing = False, q_refs = 1,
     q_qkey = 0, q_timeout = 14, q_ack_timeout_set = True, q_retry_cnt = 7, q_rnr_retry = 7,
     q_min_rnr_timer = 12, q_dest_qp_known = True, q_dest_qp_num = 0x901, q_remote_recv_credits = 4,
     q_early_src_known = False, q_early_src_qp = 0, q_recvq = [], q_recvq_size = 0, q_recv_head = 0,
     q_recv_tail = 0, q_recv_count = 0, q_recv_credits_advertised = 0, q_max_send_wr = 2,
     q_sendq_count = 0, q_send_psn = 0xffffff, q_pending_sends = [], q_pending_reads = [], q_rx_expected_psn = 0,
     q_ack_history = [], q_timeout_armed = False, q_timeout_due = []\<rparr>"

definition demo_send :: "nat \<Rightarrow> u32 \<Rightarrow> tbv_send_ctx" where
  "demo_send p psn = \<lparr>sc_ptr = p, sc_queued = 0, sc_first_queued = 0, sc_wr_id = of_nat p, sc_psn = psn,
     sc_retries = 0, sc_max_retries = 7, sc_rnr_retries = 0, sc_max_rnr_retries = 7,
     sc_retry_reason = TBV_SEND_POST_INITIAL, sc_status = None, sc_tx_pending = 0,
     sc_completed = False, sc_ready = False, sc_pending = True, sc_retryable = True,
     sc_wire_acked = False, sc_retrying = False, sc_rnr_waiting = False,
     sc_recv_credit_required = True, sc_sq_counted = True\<rparr>"

definition demo_posted :: sq_state where
  "demo_posted = \<lparr>sq_qp = demo_qp\<lparr>q_sendq_count := 2, q_send_psn := 1,
       q_pending_sends := [demo_send 1 0xffffff, demo_send 2 0]\<rparr>,
     sq_reserved = 0, sq_posted = [1, 2], sq_out = [], sq_dropped = {}\<rparr>"

lemma demo_posted_reachable: "sq_reachable E demo_qp demo_posted"
proof -
  let ?S0 = "sq_initial demo_qp"
  let ?S1 = "?S0\<lparr>sq_qp := demo_qp\<lparr>q_sendq_count := 1\<rparr>, sq_reserved := 1\<rparr>"
  let ?S2 = "?S1\<lparr>sq_qp := demo_qp\<lparr>q_sendq_count := 2\<rparr>, sq_reserved := Suc 1\<rparr>"
  let ?S3 = "?S2\<lparr>sq_qp := demo_qp\<lparr>q_sendq_count := 2, q_send_psn := 0, q_pending_sends := [demo_send 1 0xffffff]\<rparr>,
    sq_reserved := 1, sq_posted := [1]\<rparr>"
  have 0: "sq_reachable E demo_qp ?S0" by (rule created) (simp_all add: demo_qp_def)
  have "sq_step E ?S0 ?S1"
    using reserve [of ?S0 "demo_qp\<lparr>q_sendq_count := 1\<rparr>" E]
    by (simp add: sq_initial_def tbv_qp_reserve_sendq_def demo_qp_def)
  from step [OF 0 this] have 1: "sq_reachable E demo_qp ?S1" .
  have "sq_step E ?S1 ?S2"
    using reserve [of ?S1 "demo_qp\<lparr>q_sendq_count := 2\<rparr>" E]
    by (simp add: sq_initial_def tbv_qp_reserve_sendq_def demo_qp_def word_le_nat_alt)
  from step [OF 1 this] have 2: "sq_reachable E demo_qp ?S2" .
  have "sq_step E ?S2 ?S3"
    using post [of ?S2 "demo_send 1 0xffffff" _ E, OF _ _ _ _ refl]
    by (simp add: sq_initial_def demo_qp_def demo_send_def tbv_psn_next_def tbv_qp_queue_send_def)
  from step [OF 2 this] have 3: "sq_reachable E demo_qp ?S3" .
  have "sq_step E ?S3 demo_posted"
    using post [of ?S3 "demo_send 2 0" _ E, OF _ _ _ _ refl]
    by (simp add: sq_initial_def demo_qp_def demo_send_def tbv_psn_next_def tbv_qp_queue_send_def demo_posted_def)
  from step [OF 3 this] show ?thesis .
qed

definition demo_second_acked :: sq_state where
  "demo_second_acked = demo_posted\<lparr>sq_qp := (sq_qp demo_posted)
     \<lparr>q_pending_sends := [demo_send 1 0xffffff, mark_ready None (demo_send 2 0)]\<rparr>\<rparr>"

definition demo_acked :: sq_state where
  "demo_acked = demo_posted\<lparr>sq_qp := (sq_qp demo_posted)\<lparr>q_sendq_count := 0, q_pending_sends := []\<rparr>,
     sq_out := [1, 2]\<rparr>"

lemmas demo_sq_defs = demo_second_acked_def demo_acked_def demo_posted_def demo_qp_def demo_send_def
  tbv_qp_complete_send_ordered_def send_of_psn_def on_send_def mark_ready_def
  tbv_qp_drain_ready_sends_locked_def completing_def tbv_qp_release_sendq_counted_locked_def unlinked_def

lemma demo_second_acked_reachable: "sq_reachable E demo_qp demo_second_acked"
proof -
  have "sq_step E demo_posted demo_second_acked"
    using ack [of 0 None demo_posted "sq_qp demo_second_acked" "[]" True E] by (simp add: demo_sq_defs)
  from step [OF demo_posted_reachable this] show ?thesis .
qed

definition demo_jiffies :: jiffies_env where
  "demo_jiffies = \<lparr>msecs_to_jiffies = ucast, usecs_to_jiffies = (\<lambda>us. ucast (us div 1000)),
     nsecs_to_jiffies = (\<lambda>ns. ns div 1000000), qp_timeout_ms = 5000\<rparr>"

theorem sends_leave_in_order_witness:
  "sq_reachable demo_jiffies demo_qp demo_acked \<and> sq_out demo_acked = [1, 2] \<and>
   filter (\<lambda>p. p \<notin> sq_dropped demo_acked) (sq_posted demo_acked) = [1, 2]"
proof -
  let ?out = "[unlinked (mark_ready None (demo_send 1 0xffffff)), unlinked (mark_ready None (demo_send 2 0))]"
  have "sq_step demo_jiffies demo_second_acked demo_acked"
    using sq_step.ack [where psn = "0xffffff" and st = None and S = demo_second_acked and
        q = "sq_qp demo_acked" and out = ?out and found = True and E = demo_jiffies] by (simp add: demo_sq_defs)
  from step [OF demo_second_acked_reachable this] have r: "sq_reachable demo_jiffies demo_qp demo_acked" .
  show ?thesis using r sends_leave_in_order [OF r] by (simp add: demo_acked_def)
qed

section \<open>Sequence numbers and timeouts\<close>

lemma psn_mask: "unat (x AND TBV_PSN_MASK) = unat x mod 2 ^ 24"
proof -
  have "(0x00ffffff :: u32) = mask 24" by (simp add: mask_eq_exp_minus_1)
  then have "x AND TBV_PSN_MASK = take_bit 24 x" by (simp only: take_bit_eq_mask)
  then show ?thesis by (simp only: unsigned_take_bit_eq) (simp add: take_bit_eq_mod)
qed

text \<open>The next number differs from its predecessor by one, across the wrap-around at 24 bits.\<close>

lemma psn_next_mod: "unat (tbv_psn_next psn) = (unat psn + 1) mod 2 ^ 24"
proof -
  have "(unat psn + 1) mod 2 ^ 32 mod 2 ^ 24 = (unat psn + 1) mod 2 ^ 24" by (rule mod_mod_cancel) simp
  then show ?thesis by (simp add: tbv_psn_next_def psn_mask unat_word_ariths)
qed

text \<open>The budget of retransmissions the receive watchdog assumes, and the one a send of a queue pair has.\<close>

definition wire_budget :: "tbv_qp \<Rightarrow> u8" where
  "wire_budget q = (if q_type q \<noteq> IB_QPT_RC \<and> tbv_qp_send_max_retries q = 0 then TBV_UC_WIRE_MAX_RETRIES
                    else tbv_qp_send_max_retries q)"

definition send_of :: "tbv_qp \<Rightarrow> tbv_send_ctx \<Rightarrow> bool" where
  "send_of q s \<longleftrightarrow> sc_max_retries s = tbv_qp_send_max_retries q \<and> sc_retryable s = (q_type q = IB_QPT_RC)"

lemma wire_retries_of: "send_of q s \<Longrightarrow> wire_retries s = wire_budget q"
  by (auto simp: send_of_def wire_retries_def wire_budget_def)

lemma wire_budget_small: "wire_budget q \<le> 7"
  by (auto simp: wire_budget_def tbv_qp_send_max_retries_def min_def)

lemma send_timeout_le: "timeout \<le> MAX_JIFFY_OFFSET \<Longrightarrow> send_timeout timeout s \<le> timeout"
  by (auto simp: send_timeout_def tbv_send_retry_jiffies_def tbv_rel_retry_interval_def Let_def)

lemma watchdog_factor:
  assumes "q_retry_cnt q \<le> 7" and "t \<noteq> 0"
  shows "tbv_qp_rx_timeout_jiffies_locked q t = MAX_JIFFY_OFFSET \<or>
    unat (tbv_qp_rx_timeout_jiffies_locked q t) = (unat (wire_budget q) + 3) * unat t"
proof -
  have c: "q_retry_cnt q AND 7 = q_retry_cnt q"
  proof -
    have "(7 :: u8) = mask 3" by (simp add: mask_eq_exp_minus_1)
    moreover have "unat (q_retry_cnt q) < 8" using assms(1) by (simp add: word_le_nat_alt)
    ultimately show ?thesis
      by (simp only: take_bit_eq_mask [symmetric]) (simp add: word_unat_eq_iff unsigned_take_bit_eq take_bit_nat_eq_self)
  qed
  have m: "tbv_qp_send_max_retries q = q_retry_cnt q"
    using assms(1) by (simp add: tbv_qp_send_max_retries_def min_def)
  have b7: "unat (wire_budget q) \<le> 7" using wire_budget_small [of q] by (simp add: word_le_nat_alt)
  define factor where "factor = (ucast (wire_budget q) + 3 :: u64)"
  have f: "unat factor = unat (wire_budget q) + 3"
  proof -
    have "unat (ucast (wire_budget q) :: u64) = unat (wire_budget q)"
      using b7 by (simp add: unsigned_ucast_eq take_bit_nat_eq_self)
    then show ?thesis using b7 unat_add_u64 [of "ucast (wire_budget q)" 3] by (simp add: factor_def add_overflows_iff)
  qed
  have rx: "tbv_qp_rx_timeout_jiffies_locked q t =
      (if unat t * unat factor \<ge> 2 ^ 64 then MAX_JIFFY_OFFSET else t * factor)"
    using assms(2) by (simp add: tbv_qp_rx_timeout_jiffies_locked_def c m wire_budget_def factor_def Let_def)
  show ?thesis
  proof (cases "unat t * unat factor \<ge> 2 ^ 64")
    case False
    then have "unat (t * factor) = unat t * unat factor" by (simp add: unat_word_ariths)
    then show ?thesis using False by (simp add: rx f)
  qed (simp add: rx)
qed

text \<open>
  C35: if the two ends agree, that is if the sender's queue pair has no larger budget of retransmissions and no
  longer timeout than the receiver's, the receive watchdog waits longer than the sender waits for acknowledgements: the
  timeout for a half-received message is at least two receiver timeouts more than the time between the first
  transmission of a send and the end of its last retransmission's wait, or the largest delay the kernel has. Retry counts
  are at most seven (the width of the field). Waits for buffers (RNR) and retransmissions repeated for
  lack of memory are not part of this budget.
\<close>

theorem receiver_outwaits_sender:
  assumes "send_of sender s" and "q_retry_cnt receiver \<le> 7" and "wire_budget sender \<le> wire_budget receiver"
    and "tx_timeout \<noteq> 0" and "tx_timeout \<le> rx_tx_timeout" and "tx_timeout \<le> MAX_JIFFY_OFFSET"
  shows "tbv_qp_rx_timeout_jiffies_locked receiver rx_tx_timeout = MAX_JIFFY_OFFSET \<or>
    (unat (wire_retries s) + 1) * unat (send_timeout tx_timeout s) + 2 * unat rx_tx_timeout
      \<le> unat (tbv_qp_rx_timeout_jiffies_locked receiver rx_tx_timeout)"
proof -
  have t: "unat (send_timeout tx_timeout s) \<le> unat rx_tx_timeout"
    using order_trans [OF send_timeout_le [OF assms(6)] assms(5)] by (simp add: word_le_nat_alt)
  have nz: "rx_tx_timeout \<noteq> 0" using assms(4,5) by auto
  have "unat (wire_retries s) \<le> unat (wire_budget receiver)"
    using assms(3) by (simp add: wire_retries_of [OF assms(1)] word_le_nat_alt)
  then have "(unat (wire_retries s) + 1) * unat (send_timeout tx_timeout s) \<le> (unat (wire_budget receiver) + 1) * unat rx_tx_timeout"
    using t by (intro mult_le_mono) simp_all
  then show ?thesis
    using watchdog_factor [OF assms(2) nz] by (auto simp: algebra_simps)
qed

theorem receiver_outwaits_sender_witness:
  "(7 + 1) * unat (send_timeout 68 (demo_send 1 0)) + 2 * 68 \<le> unat (tbv_qp_rx_timeout_jiffies_locked demo_qp 68)"
  using receiver_outwaits_sender [of demo_qp "demo_send 1 0" demo_qp 68 68]
  by (simp add: demo_qp_def demo_send_def send_of_def wire_retries_def tbv_qp_rx_timeout_jiffies_locked_def
      tbv_qp_send_max_retries_def Let_def)

text \<open>
  The two ends need not agree: the watchdog is computed from the receiver's own retry count, which nothing ties to the
  sender's. With counts 7 and 0 and the same timeout the sender is still retransmitting when the watchdog expires.
\<close>

lemma watchdog_ignores_sender:
  "tbv_qp_rx_timeout_jiffies_locked (demo_qp\<lparr>q_retry_cnt := 0\<rparr>) 68 = 3 * 68"
  "send_of demo_qp (demo_send 1 0) \<and> (unat (wire_retries (demo_send 1 0)) + 1) * unat (send_timeout 68 (demo_send 1 0)) = 8 * 68"
  by (simp_all add: demo_qp_def demo_send_def send_of_def wire_retries_def tbv_qp_rx_timeout_jiffies_locked_def
      tbv_qp_send_max_retries_def send_timeout_def tbv_send_retry_jiffies_def tbv_rel_retry_interval_def Let_def)

text \<open>
  A retry count that does not fit the three bits of the field is cut off in one place and
  limited in the other: with 8, the sender makes seven retries and the receiver waits as for none.
\<close>

lemma retry_counts_disagree:
  "tbv_qp_send_max_retries (demo_qp\<lparr>q_retry_cnt := 8\<rparr>) = 7"
  "tbv_qp_rx_timeout_jiffies_locked (demo_qp\<lparr>q_retry_cnt := 8\<rparr>) 68 = 3 * 68"
  by (simp_all add: demo_qp_def tbv_qp_send_max_retries_def tbv_qp_rx_timeout_jiffies_locked_def Let_def)

end
