(* ===== verification/Verbs_Reap.thy ===== *)
theory Verbs_Reap
  imports Verbs_Order
begin

text \<open>
  The walk of the timer over the pending sends (\<open>Verbs_Timer\<close>): it returns while no send is ready, and leaves the
  queue when a send expires in front of one that is.
\<close>

section \<open>A queue without sends that are ready\<close>

lemma drain_stops:
  assumes "suf = [] \<or> \<not> sc_ready (hd suf)"
  shows "\<exists>ys' n' out. drain_ready (ys @ suf) n = (ys' @ suf, n', out) \<and> map sc_ptr out @ map sc_ptr ys' = map sc_ptr ys"
proof (induction ys arbitrary: n)
  case Nil
  have "drain_ready suf n = (suf, n, [])" using assms by (cases suf) auto
  then show ?case by simp
next
  case (Cons y ys)
  show ?case
  proof (cases "sc_ready y")
    case True
    obtain ys' n' out where d: "drain_ready (ys @ suf) (tbv_qp_release_sendq_counted_locked (sc_sq_counted y) n) = (ys' @ suf, n', out)"
      "map sc_ptr out @ map sc_ptr ys' = map sc_ptr ys"
      using Cons.IH by blast
    then show ?thesis using True
      by (intro exI [of _ ys'] exI [of _ n'] exI [of _ "unlinked y # out"]) (simp add: unlinked_def)
  next
    case False
    then show ?thesis by (intro exI [of _ "y # ys"] exI [of _ n] exI [of _ "[]"]) simp
  qed
qed

text \<open>What the body leaves: the sends behind the current one are untouched.\<close>

definition walked :: "reap \<Rightarrow> reap \<Rightarrow> tbv_send_ctx list \<Rightarrow> bool" where
  "walked R R' suf \<longleftrightarrow> (\<exists>pre. q_pending_sends (rp_qp R') = pre @ suf) \<and>
     completed_ptrs R' @ queued_ptrs R' = completed_ptrs R @ queued_ptrs R"

lemma on_send_split:
  assumes "q_pending_sends q = pre @ x # suf" and "distinct (map sc_ptr (pre @ x # suf))"
    and "\<And>s. sc_ptr (f s) = sc_ptr s"
  obtains ys where "q_pending_sends (on_send (sc_ptr x) f q) = ys @ suf" and "map sc_ptr ys = map sc_ptr (pre @ [x])"
proof -
  have "map (\<lambda>s. if sc_ptr s = sc_ptr x then f s else s) suf = suf"
    using assms(2) by (intro map_idI) (auto simp: image_iff)
  then have "q_pending_sends (on_send (sc_ptr x) f q) =
      map (\<lambda>s. if sc_ptr s = sc_ptr x then f s else s) (pre @ [x]) @ suf"
    by (simp add: on_send_def assms(1))
  moreover have "map sc_ptr (map (\<lambda>s. if sc_ptr s = sc_ptr x then f s else s) (pre @ [x])) = map sc_ptr (pre @ [x])"
    using assms(3) by simp
  ultimately show ?thesis using that by blast
qed

lemma walked_update:
  assumes "q_pending_sends (rp_qp R) = pre @ x # suf" and "distinct (map sc_ptr (pre @ x # suf))"
    and "\<And>s. sc_ptr (f s) = sc_ptr s" and "q_pending_sends q = q_pending_sends (rp_qp R)"
  shows "walked R (R\<lparr>rp_qp := on_send (sc_ptr x) f q, rp_retry := rt\<rparr>) suf"
proof -
  obtain ys where "q_pending_sends (on_send (sc_ptr x) f q) = ys @ suf" "map sc_ptr ys = map sc_ptr (pre @ [x])"
    using on_send_split [of q pre x suf f] assms by auto
  then show ?thesis by (auto simp: walked_def assms(1))
qed

lemma walked_same: "q_pending_sends (rp_qp R) = pre @ x # suf \<Longrightarrow> walked R R suf \<and> walked R (R\<lparr>rp_resched := b\<rparr>) suf"
  by (auto simp: walked_def intro: exI [of _ "pre @ [x]"])

lemma walked_expire:
  assumes "q_pending_sends (rp_qp R) = pre @ x # suf" and "distinct (map sc_ptr (pre @ x # suf))"
    and "list_all (\<lambda>s. \<not> sc_ready s) suf"
  shows "walked R (expire st (sc_ptr x) R) suf"
proof -
  let ?q = "on_send (sc_ptr x) (mark_ready st) (rp_qp R)"
  obtain ys where ys: "q_pending_sends ?q = ys @ suf" "map sc_ptr ys = map sc_ptr (pre @ [x])"
    using on_send_split [OF assms(1,2)] mark_keeps(1) by blast
  have "suf = [] \<or> \<not> sc_ready (hd suf)" using assms(3) by (cases suf) auto
  then obtain ys' n out where d: "drain_ready (ys @ suf) (q_sendq_count ?q) = (ys' @ suf, n, out)"
    "map sc_ptr out @ map sc_ptr ys' = map sc_ptr ys"
    using drain_stops by blast
  have "expire st (sc_ptr x) R = R\<lparr>rp_qp := ?q\<lparr>q_pending_sends := ys' @ suf, q_sendq_count := n\<rparr>,
      rp_completed := rp_completed R @ out, rp_failed := True\<rparr>"
    using d(1) by (simp add: expire_def tbv_qp_drain_ready_sends_locked_def ys(1))
  moreover have "map sc_ptr out @ map sc_ptr ys' @ map sc_ptr suf = map sc_ptr (pre @ x # suf)"
    using d(2) ys(2) by (simp add: append_assoc [symmetric] del: append_assoc)
  ultimately show ?thesis by (simp add: walked_def assms(1))
qed

lemma reap_send_walked:
  assumes "q_pending_sends (rp_qp R) = pre @ x # suf" and "distinct (map sc_ptr (pre @ x # suf))"
    and "list_all (\<lambda>s. \<not> sc_ready s) suf"
  shows "walked R (reap_send E now timeout x R) suf"
  using walked_same [OF assms(1)] walked_expire [OF assms] walked_update [OF assms(1,2)]
  by (simp add: reap_send_def reap_rnr_def Let_def)

fun cursor_at :: "cursor \<Rightarrow> tbv_send_ctx list \<Rightarrow> cursor" where
  "cursor_at h [] = h"
| "cursor_at h (s # ss) = At (sc_ptr s)"

lemma successor_split:
  "distinct (xs @ p # ys) \<Longrightarrow> successor (xs @ p # ys) h p = (case ys of [] \<Rightarrow> h | y # _ \<Rightarrow> At y)"
  by (induction xs) auto

lemma next_queued:
  assumes "q_pending_sends (rp_qp R) = pre @ s # suf" and "distinct (queued_ptrs R)"
  shows "next_node R (At (sc_ptr s)) = cursor_at Pending_head suf"
  using assms successor_split [of "map sc_ptr pre" "sc_ptr s" "map sc_ptr suf" Pending_head]
  by (auto simp: next_node_def split: list.splits)

lemma find_distinct_ptr:
  assumes "distinct (map sc_ptr (pre @ s # suf))"
  shows "find (\<lambda>x. sc_ptr x = sc_ptr s) ((pre @ s # suf) @ tail) = Some s"
  using assms by (induction pre) auto

lemma reap_loop_finishes:
  assumes "q_pending_sends (rp_qp R) = pre @ suf" and "distinct (queued_ptrs R)"
    and "list_all (\<lambda>s. \<not> sc_ready s) suf" and "suf \<noteq> [] \<Longrightarrow> nxt = cursor_at Pending_head (tl suf)"
  shows "\<exists>R'. reap_loop E now timeout (cursor_at Pending_head suf) nxt R = Some (Finished R') \<and>
    completed_ptrs R' @ queued_ptrs R' = completed_ptrs R @ queued_ptrs R"
  using assms
proof (induction suf arbitrary: R pre nxt)
  case Nil
  then show ?case by (subst reap_loop.simps) simp
next
  case (Cons x suf)
  define R' where "R' = reap_send E now timeout x R"
  have at: "send_at R (sc_ptr x) = x"
    using find_distinct_ptr [of pre x suf "rp_completed R"] Cons.prems(1,2) by (simp add: send_at_def)
  have d: "distinct (map sc_ptr (pre @ x # suf))" using Cons.prems(1,2) by simp
  have "walked R R' suf"
    unfolding R'_def using Cons.prems(1,3) d by (intro reap_send_walked [of R pre]) auto
  then obtain pre' where w: "q_pending_sends (rp_qp R') = pre' @ suf"
    "completed_ptrs R' @ queued_ptrs R' = completed_ptrs R @ queued_ptrs R"
    by (auto simp: walked_def)
  have "distinct (queued_ptrs R')"
  proof -
    have "length (completed_ptrs R) \<le> length (completed_ptrs R')"
    proof -
      have "length (rp_completed R) \<le> length (rp_completed R')"
        by (auto simp: R'_def reap_send_def reap_rnr_def expire_def Let_def split: prod.split)
      then show ?thesis by simp
    qed
    then have "queued_ptrs R' = drop (length (completed_ptrs R') - length (completed_ptrs R)) (queued_ptrs R)"
      using w(2) by (metis append_eq_conv_conj drop_append drop_eq_Nil2 append_Nil)
    then show ?thesis using Cons.prems(2) by (metis distinct_drop)
  qed
  note d' = this
  have nx: "suf \<noteq> [] \<Longrightarrow> next_node R' (cursor_at Pending_head suf) = cursor_at Pending_head (tl suf)"
    using next_queued [OF _ d', of pre'] w(1) by (cases suf) auto
  obtain R'' where "reap_loop E now timeout (cursor_at Pending_head suf) (next_node R' (cursor_at Pending_head suf)) R' = Some (Finished R'')"
    "completed_ptrs R'' @ queued_ptrs R'' = completed_ptrs R' @ queued_ptrs R'"
    using Cons.IH [OF w(1) d' _ nx] Cons.prems(3) by auto
  then show ?case
    using w(2) Cons.prems(4) by (subst reap_loop.simps) (simp add: at R'_def [symmetric] Let_def)
qed

definition reap_initial :: "tbv_qp \<Rightarrow> reap" where
  "reap_initial q = \<lparr>rp_qp = q, rp_retry = [], rp_completed = [], rp_failed = False, rp_resched = False\<rparr>"

lemma reap_tx_loop:
  "tbv_qp_timeout_reap_tx E now timeout q =
     (case reap_loop E now timeout (cursor_at Pending_head (q_pending_sends q))
        (next_node (reap_initial q) (cursor_at Pending_head (q_pending_sends q))) (reap_initial q) of
        None \<Rightarrow> None
      | Some (Stray R) \<Rightarrow> Some (Stray R, [])
      | Some (Finished R) \<Rightarrow> (let (R', reads) = reap_finish now timeout R in Some (Finished R', reads)))"
proof -
  have "next_node (reap_initial q) Pending_head = cursor_at Pending_head (q_pending_sends q)"
    by (cases "q_pending_sends q") (simp_all add: next_node_def reap_initial_def)
  then show ?thesis
    by (simp add: tbv_qp_timeout_reap_tx_def reap_initial_def Let_def)
qed

text \<open>
  C36: while no send in the queue is ready, the timer's walk returns. It loses and repeats no send: those it
  completed, followed by those still queued, are the sends that were queued, in their order.
\<close>

theorem reap_returns:
  assumes "distinct (map sc_ptr (q_pending_sends q))" and "list_all (\<lambda>s. \<not> sc_ready s) (q_pending_sends q)"
  shows "\<exists>R reads. tbv_qp_timeout_reap_tx E now timeout q = Some (Finished R, reads) \<and>
    completed_ptrs R @ queued_ptrs R = map sc_ptr (q_pending_sends q)"
proof -
  let ?R = "reap_initial q" and ?ss = "q_pending_sends q"
  have q: "q_pending_sends (rp_qp ?R) = [] @ ?ss" "distinct (queued_ptrs ?R)"
    using assms(1) by (simp_all add: reap_initial_def)
  have "next_node ?R (cursor_at Pending_head ?ss) = cursor_at Pending_head (tl ?ss)" if "?ss \<noteq> []"
    using that next_queued [of ?R "[]" "hd ?ss" "tl ?ss"] q by (cases ?ss) auto
  then obtain R where R: "reap_loop E now timeout (cursor_at Pending_head ?ss)
      (next_node ?R (cursor_at Pending_head ?ss)) ?R = Some (Finished R)"
    "completed_ptrs R @ queued_ptrs R = completed_ptrs ?R @ queued_ptrs ?R"
    using reap_loop_finishes [OF q assms(2)] by blast
  obtain R' reads where f: "reap_finish now timeout R = (R', reads)" by fastforce
  then have "completed_ptrs R' = completed_ptrs R" "queued_ptrs R' = queued_ptrs R"
    by (auto simp: reap_finish_def Let_def split: prod.splits)
  then show ?thesis using R f by (simp add: reap_tx_loop reap_initial_def)
qed

section \<open>A send that is ready behind one that expires\<close>

lemma drain_out_ready:
  "drain_ready ss n = (rest, n', out) \<Longrightarrow>
     list_all sc_ready out \<and> map sc_ptr out @ map sc_ptr rest = map sc_ptr ss"
  by (induction ss n arbitrary: rest n' out rule: drain_ready.induct)
    (auto simp: Let_def unlinked_def split: if_splits prod.splits)

lemma next_completed:
  assumes "rp_completed R = pre @ s # suf" and "distinct (completed_ptrs R @ queued_ptrs R)"
  shows "next_node R (At (sc_ptr s)) = cursor_at Completed_head suf"
proof -
  have "distinct (map sc_ptr pre @ sc_ptr s # map sc_ptr suf)" using assms by auto
  note successor_split [OF this, of Completed_head]
  moreover have "sc_ptr s \<notin> set (queued_ptrs R)" using assms by auto
  ultimately show ?thesis using assms(1) by (cases suf) (simp_all add: next_node_def)
qed

text \<open>From a node of the other list the cursor runs to the head of that list.\<close>

lemma reap_loop_strays:
  assumes "rp_completed R = pre @ suf" and "distinct (completed_ptrs R @ queued_ptrs R)"
    and "list_all sc_ready suf" and "suf \<noteq> [] \<Longrightarrow> nxt = cursor_at Completed_head (tl suf)"
  shows "\<exists>R'. reap_loop E now timeout (cursor_at Completed_head suf) nxt R = Some (Stray R')"
  using assms
proof (induction suf arbitrary: R pre nxt)
  case Nil
  then show ?case by (subst reap_loop.simps) simp
next
  case (Cons x suf)
  let ?R = "R\<lparr>rp_resched := True\<rparr>"
  have "find (\<lambda>s. sc_ptr s = sc_ptr x) (q_pending_sends (rp_qp R)) = None"
    using Cons.prems(1,2) by (auto simp: find_None_iff image_iff)
  moreover have "find (\<lambda>s. sc_ptr s = sc_ptr x) (rp_completed R) = Some x"
  proof -
    have "distinct (map sc_ptr (pre @ x # suf))" using Cons.prems(1,2) by auto
    from find_distinct_ptr [OF this, of "[]"] show ?thesis using Cons.prems(1) by simp
  qed
  moreover have "find P xs = None \<Longrightarrow> find P (xs @ ys) = find P ys" for P and xs ys :: "tbv_send_ctx list"
    by (induction xs) (auto split: if_splits)
  ultimately have at: "send_at R (sc_ptr x) = x" by (simp add: send_at_def)
  have body: "reap_send E now timeout x R = ?R" using Cons.prems(3) by (simp add: reap_send_def Let_def)
  have nx: "suf \<noteq> [] \<Longrightarrow> next_node ?R (cursor_at Completed_head suf) = cursor_at Completed_head (tl suf)"
    using next_completed [of ?R "pre @ [x]" "hd suf" "tl suf"] Cons.prems(1,2) by (cases suf) auto
  have "\<exists>R'. reap_loop E now timeout (cursor_at Completed_head suf) (next_node ?R (cursor_at Completed_head suf)) ?R
      = Some (Stray R')"
    using Cons.prems nx by (intro Cons.IH [of _ "pre @ [x]"]) auto
  then show ?case using Cons.prems(4) by (subst reap_loop.simps) (simp add: at body Let_def)
qed

text \<open>
  C37: if a send runs out of retries while the send behind it has already been acknowledged, the timer's walk
  leaves the queue. Draining moves both to the list of completed sends, the saved next pointer is
  one of the moved nodes, and from there the walk goes round the wrong list: it takes the head of
  that list, a local variable of the caller, for a send. It never gets back to the
  end of its own list, and the lock of the queue pair is held all the while.
\<close>

theorem reap_leaves_queue:
  assumes "q_pending_sends q = a # b # rest" and "distinct (map sc_ptr (q_pending_sends q))"
    and "sc_ready b" and "\<not> sc_ready a" and "\<not> sc_rnr_waiting a" and "sc_retryable a"
    and "tbv_qp_entry_expired (sc_queued a) now (send_timeout timeout a)"
    and "sc_tx_pending a = 0" and "\<not> sc_retrying a" and "wire_retries a \<le> sc_retries a"
  shows "\<exists>R. tbv_qp_timeout_reap_tx E now timeout q = Some (Stray R, [])"
proof -
  let ?R = "reap_initial q"
  define R1 where "R1 = expire (Some ETIMEDOUT) (sc_ptr a) ?R"
  define a' where "a' = mark_ready (Some ETIMEDOUT) a"
  have on: "on_send (sc_ptr a) (mark_ready (Some ETIMEDOUT)) q = q\<lparr>q_pending_sends := a' # b # rest\<rparr>"
  proof -
    have "map (\<lambda>s. if sc_ptr s = sc_ptr a then mark_ready (Some ETIMEDOUT) s else s) (b # rest) = b # rest"
      using assms(1,2) by (intro map_idI) (auto simp: image_iff)
    then show ?thesis by (simp add: on_send_def assms(1) a'_def)
  qed
  have a': "sc_ready a'" "sc_ptr a' = sc_ptr a" by (simp_all add: a'_def mark_ready_def)
  obtain rest' n out where d: "drain_ready (a' # b # rest) (q_sendq_count q) = (rest', n, out)"
    by (metis prod_cases3)
  have o: "list_all sc_ready out" "map sc_ptr out @ map sc_ptr rest' = map sc_ptr (q_pending_sends q)"
    using drain_out_ready [OF d] a' assms(1) by simp_all
  obtain out' where out: "out = unlinked a' # unlinked b # out'"
    using d a'(1) assms(3) by (auto simp: Let_def split: prod.splits)
  have R1: "rp_completed R1 = out" "queued_ptrs R1 = map sc_ptr rest'"
    using d by (simp_all add: R1_def expire_def reap_initial_def on tbv_qp_drain_ready_sends_locked_def)
  have dist: "distinct (completed_ptrs R1 @ queued_ptrs R1)" using o(2) assms(2) R1 by simp
  have body: "reap_send E now timeout a ?R = R1"
    using assms(4-10) by (auto simp: reap_send_def R1_def Let_def)
  have at: "send_at ?R (sc_ptr a) = a" by (simp add: send_at_def reap_initial_def assms(1))
  have n1: "next_node ?R (At (sc_ptr a)) = At (sc_ptr b)"
    using assms(1) by (simp add: next_node_def reap_initial_def)
  have c: "At (sc_ptr b) = cursor_at Completed_head (unlinked b # out')" by (simp add: unlinked_def)
  have n2: "next_node R1 (At (sc_ptr b)) = cursor_at Completed_head out'"
    using next_completed [of R1 "[unlinked a']" "unlinked b" out'] R1 out dist by (simp add: unlinked_def)
  have "\<exists>R'. reap_loop E now timeout (cursor_at Completed_head (unlinked b # out')) (cursor_at Completed_head out') R1 = Some (Stray R')"
    by (rule reap_loop_strays [of R1 "[unlinked a']"]) (use R1 out dist o(1) in auto)
  then obtain R' where "reap_loop E now timeout (At (sc_ptr b)) (next_node R1 (At (sc_ptr b))) R1 = Some (Stray R')"
    unfolding c [symmetric] n2 by blast
  then have "reap_loop E now timeout (At (sc_ptr a)) (At (sc_ptr b)) ?R = Some (Stray R')"
    by (subst reap_loop.simps) (simp add: at body Let_def)
  then show ?thesis by (simp add: reap_tx_loop assms(1) n1)
qed

text \<open>Sends queued at time 1, of which the first has used all its retries.\<close>

definition spent_send :: tbv_send_ctx where
  "spent_send = (demo_send 1 0xffffff)\<lparr>sc_queued := 1, sc_retries := 7\<rparr>"

definition fresh_queue :: tbv_qp where
  "fresh_queue = demo_qp\<lparr>q_sendq_count := 2, q_pending_sends := [spent_send, demo_send 2 0]\<rparr>"

definition acked_behind :: tbv_qp where
  "acked_behind = demo_qp\<lparr>q_sendq_count := 2, q_pending_sends := [spent_send, mark_ready None (demo_send 2 0)]\<rparr>"

theorem reap_returns_witness:
  "\<exists>R reads. tbv_qp_timeout_reap_tx demo_jiffies 70 68 fresh_queue = Some (Finished R, reads) \<and>
     completed_ptrs R @ queued_ptrs R = [1, 2]"
  using reap_returns [of fresh_queue demo_jiffies 70 68]
  by (simp add: fresh_queue_def spent_send_def demo_send_def)

lemma spent_send_expired: "tbv_qp_entry_expired (sc_queued spent_send) 70 (send_timeout 68 spent_send)"
  by (simp add: tbv_qp_entry_expired_def time_after_eq_def spent_send_def demo_send_def send_timeout_def
      wire_retries_def tbv_send_retry_jiffies_def tbv_rel_retry_interval_def Let_def)

theorem reap_leaves_queue_witness:
  "\<exists>R. tbv_qp_timeout_reap_tx demo_jiffies 70 68 acked_behind = Some (Stray R, [])"
  using reap_leaves_queue [of acked_behind spent_send "mark_ready None (demo_send 2 0)" "[]" 70 68 demo_jiffies]
    spent_send_expired
  by (simp add: acked_behind_def spent_send_def demo_send_def mark_ready_def wire_retries_def)

text \<open>
  Taking a send back does not drain the queue: an acknowledged send that waited behind it is now the
  head, ready, and stays there; the timer passes over it every time.
\<close>

lemma taken_back_strands_ready:
  "tbv_qp_unqueue_send 1 (sq_qp demo_second_acked) =
     (demo_qp\<lparr>q_sendq_count := 1, q_send_psn := 1, q_pending_sends := [mark_ready None (demo_send 2 0)]\<rparr>, True)"
  "\<exists>R. tbv_qp_timeout_reap_tx E now timeout
       (demo_qp\<lparr>q_sendq_count := 1, q_send_psn := 1, q_pending_sends := [mark_ready None (demo_send 2 0)]\<rparr>) =
       Some (Finished R, []) \<and> rp_completed R = [] \<and> queued_ptrs R = [2]"
proof -
  show "tbv_qp_unqueue_send 1 (sq_qp demo_second_acked) =
     (demo_qp\<lparr>q_sendq_count := 1, q_send_psn := 1, q_pending_sends := [mark_ready None (demo_send 2 0)]\<rparr>, True)"
    by (simp add: tbv_qp_unqueue_send_def demo_sq_defs)
  let ?q = "demo_qp\<lparr>q_sendq_count := 1, q_send_psn := 1, q_pending_sends := [mark_ready None (demo_send 2 0)]\<rparr>"
  let ?R = "(reap_initial ?q)\<lparr>rp_resched := True\<rparr>"
  have "reap_loop E now timeout (At 2) Pending_head (reap_initial ?q) = Some (Finished ?R)"
    by (subst reap_loop.simps, subst reap_loop.simps)
      (simp add: send_at_def reap_initial_def reap_send_def demo_send_def mark_ready_def Let_def)
  then have "tbv_qp_timeout_reap_tx E now timeout ?q =
      (let (R', reads) = reap_finish now timeout ?R in Some (Finished R', reads))"
    by (simp add: reap_tx_loop next_node_def reap_initial_def demo_send_def mark_ready_def)
  then show "\<exists>R. tbv_qp_timeout_reap_tx E now timeout ?q = Some (Finished R, []) \<and> rp_completed R = [] \<and> queued_ptrs R = [2]"
    by (simp add: reap_finish_def reap_initial_def demo_qp_def demo_send_def mark_ready_def Let_def)
qed

end
