(* ===== verification/Verbs_Queue.thy ===== *)
theory Verbs_Queue
  imports Verbs_Qp
begin

text \<open>
  \<^verbatim>\<open>src/kernel/ibdev.c\<close>, completion queues: creation, push, poll and notification, and the
  completions of reads.

  Completion queues and receive queues are rings with a head, a tail and a count. The locale \<open>ring_buffer\<close>
  states what their put and take steps do to these fields and shows once that the ring is a
  list; it is interpreted here for completion queues and in \<open>Verbs_Recv\<close> for receive queues.
\<close>

section \<open>Rings\<close>

locale ring_buffer =
  fixes cap fst_ix nxt_ix cnt :: "'q \<Rightarrow> u32" and ents :: "'q \<Rightarrow> 'e list"
    and put :: "'e \<Rightarrow> 'q \<Rightarrow> 'q" and pop :: "'q \<Rightarrow> 'q"
  assumes put_fields: "cap (put e q) = cap q" "fst_ix (put e q) = fst_ix q"
      "nxt_ix (put e q) = (nxt_ix q + 1) mod cap q" "cnt (put e q) = cnt q + 1"
      "ents (put e q) = (ents q)[unat (nxt_ix q) := e]"
    and pop_fields: "cap (pop q) = cap q" "fst_ix (pop q) = (fst_ix q + 1) mod cap q"
      "nxt_ix (pop q) = nxt_ix q" "cnt (pop q) = cnt q - 1"
      "length (ents (pop q)) = length (ents q)"
      "i \<noteq> unat (fst_ix q) \<Longrightarrow> ents (pop q) ! i = ents q ! i"
begin

definition ring_ok :: "'q \<Rightarrow> bool" where
  "ring_ok q \<longleftrightarrow> cap q \<noteq> 0 \<and> length (ents q) = unat (cap q) \<and> fst_ix q < cap q \<and> cnt q \<le> cap q \<and>
     unat (nxt_ix q) = (unat (fst_ix q) + unat (cnt q)) mod unat (cap q)"

definition contents :: "'q \<Rightarrow> 'e list" where
  "contents q = map (\<lambda>i. ents q ! ((unat (fst_ix q) + i) mod unat (cap q))) [0..<unat (cnt q)]"

lemma length_contents [simp]: "length (contents q) = unat (cnt q)"
  by (simp add: contents_def)

lemma advance: "i < cap q \<Longrightarrow> unat ((i + 1) mod cap q) = (unat i + 1) mod unat (cap q)"
  using unat_Suc_u32 [of i "cap q"] by (simp add: unat_mod)

lemma mod_apart:
  assumes "i < j" and "j < c"
  shows "(h + i) mod c \<noteq> (h + j) mod (c :: nat)"
proof
  assume "(h + i) mod c = (h + j) mod c"
  then have "c dvd j - i" using assms(1) by (metis add_diff_cancel_left mod_eq_dvd_iff_nat less_imp_le_nat add_le_cancel_left)
  then have "c \<le> j - i" using assms(1) by (intro dvd_imp_le) auto
  then show False using assms by linarith
qed

lemma put_ok:
  assumes "ring_ok q" and "cnt q < cap q"
  shows "ring_ok (put e q)" and "contents (put e q) = contents q @ [e]"
proof -
  have c: "unat (cnt q + 1) = unat (cnt q) + 1" using unat_Suc_u32 [OF assms(2)] by simp
  have pos: "0 < unat (cap q)" using assms(1) by (simp add: ring_ok_def unat_gt_0)
  have n: "nxt_ix q < cap q" using assms(1) pos by (simp add: ring_ok_def word_less_nat_alt)
  have ix: "unat (nxt_ix q) = (unat (fst_ix q) + unat (cnt q)) mod unat (cap q)" using assms(1) by (simp add: ring_ok_def)
  show "ring_ok (put e q)"
    using assms advance [OF n] c ix
    by (auto simp: ring_ok_def put_fields word_le_nat_alt word_less_nat_alt mod_Suc_eq)
  have len: "length (ents q) = unat (cap q)" using assms(1) by (simp add: ring_ok_def)
  have old: "(ents q)[unat (nxt_ix q) := e] ! ((unat (fst_ix q) + i) mod unat (cap q)) =
      ents q ! ((unat (fst_ix q) + i) mod unat (cap q))" if "i < unat (cnt q)" for i
    using mod_apart [OF that, of "unat (cap q)" "unat (fst_ix q)"] assms(2) ix
    by (simp add: word_less_nat_alt)
  have new: "(ents q)[unat (nxt_ix q) := e] ! ((unat (fst_ix q) + unat (cnt q)) mod unat (cap q)) = e"
    using ix len pos by simp
  show "contents (put e q) = contents q @ [e]"
    using old new by (simp add: contents_def put_fields c)
qed

lemma pop_ok:
  assumes "ring_ok q" and "cnt q \<noteq> 0"
  shows "ring_ok (pop q)" and "contents q = ents q ! unat (fst_ix q) # contents (pop q)"
proof -
  have c: "unat (cnt q - 1) = unat (cnt q) - 1" by (rule unat_pred_u32 [OF assms(2)])
  have n: "0 < unat (cnt q)" using assms(2) by (simp add: unat_gt_0)
  have pos: "0 < unat (cap q)" using assms(1) by (simp add: ring_ok_def unat_gt_0)
  have f: "fst_ix q < cap q" and le: "unat (cnt q) \<le> unat (cap q)"
    using assms(1) by (auto simp: ring_ok_def word_le_nat_alt)
  have step: "((unat (fst_ix q) + 1) mod unat (cap q) + i) mod unat (cap q) = (unat (fst_ix q) + Suc i) mod unat (cap q)" for i
    by (simp add: mod_add_left_eq)
  show "ring_ok (pop q)"
    using assms(1) f advance [OF f] c n step [of "unat (cnt q) - 1"] pos
    by (auto simp: ring_ok_def pop_fields word_le_nat_alt word_less_nat_alt)
  have "ents (pop q) ! ((unat (fst_ix q) + Suc i) mod unat (cap q)) = ents q ! ((unat (fst_ix q) + Suc i) mod unat (cap q))"
    if "Suc i < unat (cnt q)" for i
  proof (rule pop_fields(6))
    show "(unat (fst_ix q) + Suc i) mod unat (cap q) \<noteq> unat (fst_ix q)"
      using mod_apart [of 0 "Suc i" "unat (cap q)" "unat (fst_ix q)"] that le f by (simp add: word_less_nat_alt)
  qed
  then have "contents (pop q) = map (\<lambda>i. ents q ! ((unat (fst_ix q) + Suc i) mod unat (cap q))) [0..<unat (cnt q) - 1]"
    by (simp add: contents_def pop_fields advance [OF f] c mod_add_left_eq)
  moreover have "[0..<unat (cnt q)] = 0 # map Suc [0..<unat (cnt q) - 1]"
    using n by (simp add: map_Suc_upt upt_conv_Cons)
  ultimately show "contents q = ents q ! unat (fst_ix q) # contents (pop q)"
    using f by (simp add: contents_def word_less_nat_alt)
qed

end

section \<open>Completion queues\<close>

datatype ib_wc_status =
    IB_WC_SUCCESS | IB_WC_LOC_LEN_ERR | IB_WC_LOC_PROT_ERR | IB_WC_WR_FLUSH_ERR | IB_WC_REM_ACCESS_ERR
  | IB_WC_RETRY_EXC_ERR | IB_WC_RNR_RETRY_EXC_ERR | IB_WC_GENERAL_ERR

datatype ib_wc_opcode = IB_WC_SEND | IB_WC_RDMA_WRITE | IB_WC_RDMA_READ | IB_WC_RECV | IB_WC_RECV_RDMA_WITH_IMM

text \<open>\<open>wc_wr_id\<close> is the union of \<^verbatim>\<open>wr_id\<close> and \<^verbatim>\<open>wr_cqe\<close>.\<close>

record ib_wc =
  wc_wr_id :: u64
  wc_status :: ib_wc_status
  wc_opcode :: ib_wc_opcode
  wc_qp :: "u32 ptr"
  wc_byte_len :: u32
  wc_src_qp :: u32
  wc_port_num :: u8
  wc_with_imm :: bool
  wc_imm_data :: u32

record tbv_cq =
  cq_entries :: "ib_wc list"
  cq_cqe :: u32
  cq_head :: u32
  cq_tail :: u32
  cq_count :: u32
  cq_notify_armed :: bool
  cq_overflowed :: bool
  cq_comp_handler :: bool

abbreviation (input) TBV_IBDEV_MAX_CQE :: u32 where "TBV_IBDEV_MAX_CQE \<equiv> 4096"

definition zeroed_wc :: ib_wc where
  "zeroed_wc = \<lparr>wc_wr_id = 0, wc_status = IB_WC_SUCCESS, wc_opcode = IB_WC_SEND, wc_qp = None,
     wc_byte_len = 0, wc_src_qp = 0, wc_port_num = 0, wc_with_imm = False, wc_imm_data = 0\<rparr>"

text \<open>\<open>mem\<close> is whether \<open>kcalloc\<close> succeeds; the attribute \<^verbatim>\<open>cqe\<close> is a signed integer.\<close>

definition tbv_create_cq :: "bool \<Rightarrow> bool \<Rightarrow> int ptr \<Rightarrow> tbv_cq res" where
  "tbv_create_cq mem handler attr =
     (case attr of
        None \<Rightarrow> Inl EINVAL
      | Some cqe \<Rightarrow>
          if cqe \<le> 0 \<or> cqe > 4096 then Inl EINVAL
          else if \<not> mem then Inl ENOMEM
          else Inr \<lparr>cq_entries = replicate (nat cqe) zeroed_wc, cq_cqe = of_int cqe, cq_head = 0,
             cq_tail = 0, cq_count = 0, cq_notify_armed = False, cq_overflowed = False,
             cq_comp_handler = handler\<rparr>)"

definition cq_put :: "ib_wc \<Rightarrow> tbv_cq \<Rightarrow> tbv_cq" where
  "cq_put wc c = c\<lparr>cq_entries := (cq_entries c)[unat (cq_tail c) := wc],
     cq_tail := (cq_tail c + 1) mod cq_cqe c, cq_count := cq_count c + 1\<rparr>"

record cq_effect =
  ce_ret :: "unit res"
  ce_error_qp :: "u32 ptr"
  ce_handler_called :: bool

text \<open>Besides the queue: the result, the queue pair to put in error, whether the handler is called.\<close>

definition tbv_cq_push :: "ib_wc \<Rightarrow> tbv_cq \<Rightarrow> tbv_cq \<times> cq_effect" where
  "tbv_cq_push wc c =
     (let notify = cq_notify_armed c
      in if cq_overflowed c \<or> cq_count c = cq_cqe c
         then (c\<lparr>cq_overflowed := True, cq_notify_armed := False\<rparr>,
               \<lparr>ce_ret = Inl ENOSPC, ce_error_qp = wc_qp wc, ce_handler_called = (notify \<and> cq_comp_handler c)\<rparr>)
         else ((cq_put wc c)\<lparr>cq_notify_armed := False\<rparr>,
               \<lparr>ce_ret = Inr (), ce_error_qp = None, ce_handler_called = (notify \<and> cq_comp_handler c)\<rparr>))"

definition cq_pop :: "tbv_cq \<Rightarrow> tbv_cq" where
  "cq_pop c = c\<lparr>cq_head := (cq_head c + 1) mod cq_cqe c, cq_count := cq_count c - 1\<rparr>"

fun poll_loop :: "nat \<Rightarrow> tbv_cq \<Rightarrow> tbv_cq \<times> ib_wc list" where
  "poll_loop 0 c = (c, [])"
| "poll_loop (Suc n) c =
     (if cq_count c = 0 then (c, [])
      else
        (let wc = cq_entries c ! unat (cq_head c);
             (c', wcs) = poll_loop n (cq_pop c)
         in (c', wc # wcs)))"

definition tbv_poll_cq :: "int \<Rightarrow> bool \<Rightarrow> tbv_cq \<Rightarrow> tbv_cq \<times> ib_wc list res" where
  "tbv_poll_cq num_entries room c =
     (if num_entries \<le> 0 \<or> \<not> room then (c, Inr [])
      else
        (let (c', wcs) = poll_loop (nat num_entries) c
         in (c', if wcs = [] \<and> cq_overflowed c' then Inl EIO else Inr wcs)))"

definition tbv_req_notify_cq :: "tbv_cq \<Rightarrow> tbv_cq \<times> bool res" where
  "tbv_req_notify_cq c =
     (if cq_overflowed c then (c, Inl EIO)
      else (c\<lparr>cq_notify_armed := True\<rparr>, Inr (cq_count c \<noteq> 0)))"

interpretation cq: ring_buffer cq_cqe cq_head cq_tail cq_count cq_entries cq_put cq_pop
  by unfold_locales (simp_all add: cq_put_def cq_pop_def)

text \<open>Reporting the end of a send and of a read.\<close>

definition send_wc_status :: "status \<Rightarrow> ib_wc_status" where
  "send_wc_status st =
     (case st of
        None \<Rightarrow> IB_WC_SUCCESS
      | Some e \<Rightarrow> if e = EAGAIN then IB_WC_RNR_RETRY_EXC_ERR
                  else if e = ETIMEDOUT then IB_WC_RETRY_EXC_ERR else IB_WC_WR_FLUSH_ERR)"

definition tbv_read_wc_status :: "status \<Rightarrow> ib_wc_status" where
  "tbv_read_wc_status st =
     (case st of
        None \<Rightarrow> IB_WC_SUCCESS
      | Some e \<Rightarrow> if e = ETIMEDOUT then IB_WC_RETRY_EXC_ERR
                  else if e = ECANCELED then IB_WC_WR_FLUSH_ERR
                  else if e = EACCES \<or> e = EFAULT \<or> e = EPERM then IB_WC_REM_ACCESS_ERR
                  else IB_WC_GENERAL_ERR)"

definition tbv_read_complete :: "u32 \<Rightarrow> tbv_read_ctx \<Rightarrow> status \<Rightarrow> tbv_cq \<Rightarrow> tbv_read_ctx \<times> tbv_cq \<times> bool" where
  "tbv_read_complete qp r st c =
     (if rd_completed r then (r, c, False)
      else
        (r\<lparr>rd_completed := True\<rparr>,
         if rd_signaled r
         then fst (tbv_cq_push (zeroed_wc\<lparr>wc_wr_id := rd_wr_id r, wc_status := tbv_read_wc_status st,
                wc_opcode := IB_WC_RDMA_READ, wc_qp := Some qp,
                wc_byte_len := (if st \<noteq> None then 0 else rd_total_len r), wc_port_num := 1\<rparr>) c)
         else c, True))"

section \<open>Completion queues as lists\<close>

text \<open>
  What a completion queue promises, over the list of the completions in it: once a push found it full, it
  accepts nothing more, but what it holds can still be polled.
\<close>

record acq =
  aq_items :: "ib_wc list"
  aq_lost :: bool

definition acq_push :: "nat \<Rightarrow> ib_wc \<Rightarrow> acq \<Rightarrow> acq \<times> unit res" where
  "acq_push room wc a =
     (if aq_lost a \<or> length (aq_items a) = room then (a\<lparr>aq_lost := True\<rparr>, Inl ENOSPC)
      else (a\<lparr>aq_items := aq_items a @ [wc]\<rparr>, Inr ()))"

definition acq_poll :: "nat \<Rightarrow> acq \<Rightarrow> acq \<times> ib_wc list res" where
  "acq_poll n a =
     (a\<lparr>aq_items := drop n (aq_items a)\<rparr>,
      if aq_items a = [] \<and> aq_lost a \<and> 0 < n then Inl EIO else Inr (take n (aq_items a)))"

definition cq_abs :: "tbv_cq \<Rightarrow> acq" where
  "cq_abs c = \<lparr>aq_items = cq.contents c, aq_lost = cq_overflowed c\<rparr>"

lemma cq_frame [simp]:
  "cq.ring_ok (c\<lparr>cq_notify_armed := b\<rparr>) = cq.ring_ok c" "cq.contents (c\<lparr>cq_notify_armed := b\<rparr>) = cq.contents c"
  "cq.ring_ok (c\<lparr>cq_overflowed := b\<rparr>) = cq.ring_ok c" "cq.contents (c\<lparr>cq_overflowed := b\<rparr>) = cq.contents c"
  by (simp_all add: cq.ring_ok_def cq.contents_def)

lemma cq_push_refines:
  assumes "cq.ring_ok c" and "tbv_cq_push wc c = (c', eff)"
  shows "cq.ring_ok c' \<and> cq_cqe c' = cq_cqe c \<and>
    acq_push (unat (cq_cqe c)) wc (cq_abs c) = (cq_abs c', ce_ret eff)"
proof (cases "cq_overflowed c \<or> cq_count c = cq_cqe c")
  case True
  then show ?thesis using assms
    by (auto simp: tbv_cq_push_def cq_abs_def acq_push_def Let_def)
next
  case False
  then have lt: "cq_count c < cq_cqe c" using assms(1) by (auto simp: cq.ring_ok_def)
  then have "unat (cq_count c) \<noteq> unat (cq_cqe c)" by (simp add: word_less_nat_alt)
  then show ?thesis
    using assms(2) False cq.put_ok [OF assms(1) lt, of wc]
    by (auto simp: tbv_cq_push_def cq_abs_def acq_push_def Let_def cq_put_def)
qed

lemma poll_loop_refines:
  "cq.ring_ok c \<Longrightarrow> poll_loop n c = (c', wcs) \<Longrightarrow>
     cq.ring_ok c' \<and> cq_cqe c' = cq_cqe c \<and> cq_overflowed c' = cq_overflowed c \<and>
     wcs = take n (cq.contents c) \<and> cq.contents c' = drop n (cq.contents c)"
proof (induction n arbitrary: c c' wcs)
  case (Suc n)
  show ?case
  proof (cases "cq_count c = 0")
    case True
    then have "cq.contents c = []" by (simp add: cq.contents_def)
    then show ?thesis using Suc.prems True by auto
  next
    case False
    obtain wcs' where p: "poll_loop n (cq_pop c) = (c', wcs')" "wcs = cq_entries c ! unat (cq_head c) # wcs'"
      using Suc.prems(2) False by (auto simp: Let_def split: prod.splits)
    note k = cq.pop_ok [OF Suc.prems(1) False]
    show ?thesis using Suc.IH [OF k(1) p(1)] p(2) k(2) by (simp add: cq_pop_def)
  qed
qed simp

lemma poll_refines:
  assumes "cq.ring_ok c" and "tbv_poll_cq n True c = (c', ret)"
  shows "cq.ring_ok c' \<and> cq_cqe c' = cq_cqe c \<and> acq_poll (nat n) (cq_abs c) = (cq_abs c', ret)"
proof (cases "n \<le> 0")
  case True
  then show ?thesis using assms by (auto simp: tbv_poll_cq_def acq_poll_def cq_abs_def)
next
  case False
  obtain wcs where p: "poll_loop (nat n) c = (c', wcs)"
    and r: "ret = (if wcs = [] \<and> cq_overflowed c' then Inl EIO else Inr wcs)"
    using assms(2) False by (auto simp: tbv_poll_cq_def Let_def split: prod.splits)
  note k = poll_loop_refines [OF assms(1) p]
  then have "wcs = [] \<longleftrightarrow> cq.contents c = []" using False by simp
  then show ?thesis using k r False by (auto simp: acq_poll_def cq_abs_def)
qed

text \<open>A history of calls, with the results the callers see.\<close>

datatype cq_call = CPush ib_wc | CPoll int | CArm

datatype cq_result = Pushed "unit res" | Polled "ib_wc list res" | Armed "bool res"

fun cq_do :: "cq_call \<Rightarrow> tbv_cq \<Rightarrow> tbv_cq \<times> cq_result" where
  "cq_do (CPush wc) c = map_prod id (\<lambda>eff. Pushed (ce_ret eff)) (tbv_cq_push wc c)"
| "cq_do (CPoll n) c = map_prod id Polled (tbv_poll_cq n True c)"
| "cq_do CArm c = map_prod id Armed (tbv_req_notify_cq c)"

fun acq_do :: "nat \<Rightarrow> cq_call \<Rightarrow> acq \<Rightarrow> acq \<times> cq_result" where
  "acq_do room (CPush wc) a = map_prod id Pushed (acq_push room wc a)"
| "acq_do room (CPoll n) a = map_prod id Polled (acq_poll (nat n) a)"
| "acq_do room CArm a = (a, Armed (if aq_lost a then Inl EIO else Inr (aq_items a \<noteq> [])))"

fun run_calls :: "('c \<Rightarrow> 's \<Rightarrow> 's \<times> 'r) \<Rightarrow> 'c list \<Rightarrow> 's \<Rightarrow> 's \<times> 'r list" where
  "run_calls f [] s = (s, [])"
| "run_calls f (x # xs) s = (let (s1, r) = f x s; (s2, rs) = run_calls f xs s1 in (s2, r # rs))"

lemma cq_do_refines:
  assumes "cq.ring_ok c" and "cq_do x c = (c', r)"
  shows "cq.ring_ok c' \<and> cq_cqe c' = cq_cqe c \<and> acq_do (unat (cq_cqe c)) x (cq_abs c) = (cq_abs c', r)"
proof (cases x)
  case (CPush wc)
  then obtain eff where "tbv_cq_push wc c = (c', eff)" "r = Pushed (ce_ret eff)"
    using assms(2) by (auto simp: map_prod_def split: prod.splits)
  then show ?thesis using cq_push_refines [OF assms(1)] CPush by simp
next
  case (CPoll n)
  then obtain ret where "tbv_poll_cq n True c = (c', ret)" "r = Polled ret"
    using assms(2) by (auto simp: map_prod_def split: prod.splits)
  then show ?thesis using poll_refines [OF assms(1)] CPoll by simp
next
  case CArm
  have "cq.contents c = [] \<longleftrightarrow> cq_count c = 0" by (simp add: cq.contents_def unat_eq_0)
  then show ?thesis using assms CArm by (auto simp: tbv_req_notify_cq_def cq_abs_def split: if_splits)
qed

lemma cq_run_refines:
  assumes "cq.ring_ok c" and "run_calls cq_do xs c = (c', rs)"
  shows "cq.ring_ok c' \<and> run_calls (acq_do (unat (cq_cqe c))) xs (cq_abs c) = (cq_abs c', rs)"
  using assms
proof (induction xs arbitrary: c rs)
  case (Cons x xs)
  obtain c1 r rs' where s: "cq_do x c = (c1, r)" "run_calls cq_do xs c1 = (c', rs')" "rs = r # rs'"
    using Cons.prems(2) by (auto simp: Let_def split: prod.splits)
  then show ?case using cq_do_refines [OF Cons.prems(1) s(1)] Cons.IH [OF _ s(2)] by (auto simp: Let_def)
qed simp

text \<open>The completions a history accepted and those it returned.\<close>

fun accepted :: "cq_call list \<Rightarrow> cq_result list \<Rightarrow> ib_wc list" where
  "accepted (CPush wc # xs) (Pushed (Inr _) # rs) = wc # accepted xs rs"
| "accepted (x # xs) (r # rs) = accepted xs rs"
| "accepted xs rs = []"

fun returned :: "cq_result list \<Rightarrow> ib_wc list" where
  "returned [] = []"
| "returned (Polled (Inr wcs) # rs) = wcs @ returned rs"
| "returned (r # rs) = returned rs"

lemma acq_fifo:
  "run_calls (acq_do room) xs a = (a', rs) \<Longrightarrow>
     aq_items a @ accepted xs rs = returned rs @ aq_items a'"
proof (induction xs arbitrary: a rs)
  case (Cons x xs)
  obtain a1 r rs' where s: "acq_do room x a = (a1, r)" "run_calls (acq_do room) xs a1 = (a', rs')" "rs = r # rs'"
    using Cons.prems by (auto simp: Let_def split: prod.splits)
  note ih = Cons.IH [OF s(2)]
  show ?case
  proof (cases x)
    case (CPush wc)
    then show ?thesis using s ih by (auto simp: acq_push_def split: if_splits)
  next
    case (CPoll n)
    show ?thesis
    proof (cases "aq_items a = [] \<and> aq_lost a \<and> 0 < nat n")
      case True
      then show ?thesis using s ih CPoll by (auto simp: acq_poll_def)
    next
      case False
      then have k: "a1 = a\<lparr>aq_items := drop (nat n) (aq_items a)\<rparr>" "r = Polled (Inr (take (nat n) (aq_items a)))"
        using s(1) CPoll by (auto simp: acq_poll_def)
      have "returned rs @ aq_items a' = take (nat n) (aq_items a) @ drop (nat n) (aq_items a) @ accepted xs rs'"
        using ih s(3) k by simp
      also have "\<dots> = aq_items a @ accepted xs rs'" by (simp only: append_assoc [symmetric] append_take_drop_id)
      finally show ?thesis using s(3) CPoll by simp
    qed
  next
    case CArm
    then show ?thesis using s ih by auto
  qed
qed simp

lemma create_cq_ok: "tbv_create_cq mem handler attr = Inr c \<Longrightarrow> cq.ring_ok c \<and> cq_abs c = \<lparr>aq_items = [], aq_lost = False\<rparr>
    \<and> unat (cq_cqe c) = nat (the attr)"
proof -
  assume "tbv_create_cq mem handler attr = Inr c"
  then obtain n where n: "attr = Some n" "0 < n" "n \<le> 4096"
    "c = \<lparr>cq_entries = replicate (nat n) zeroed_wc, cq_cqe = of_int n, cq_head = 0, cq_tail = 0, cq_count = 0,
       cq_notify_armed = False, cq_overflowed = False, cq_comp_handler = handler\<rparr>"
    by (auto simp: tbv_create_cq_def split: option.splits if_splits)
  have u: "unat (of_int n :: u32) = nat n"
  proof -
    have "(of_int n :: u32) = of_nat (nat n)" using n(2) by (metis of_int_of_nat_eq nat_0_le less_imp_le)
    moreover have "unat (of_nat (nat n) :: u32) = nat n"
      using n(3) by (subst unat_of_nat) (simp add: take_bit_nat_eq_self nat_less_iff)
    ultimately show ?thesis by simp
  qed
  have "(of_int n :: u32) \<noteq> 0"
  proof
    assume "(of_int n :: u32) = 0"
    then have "nat n = 0" using u by (simp only: unat_0)
    then show False using n(2) by simp
  qed
  then show ?thesis using n u
    by (simp add: cq.ring_ok_def cq_abs_def cq.contents_def word_gt_0)
qed

text \<open>
  C38: a completion queue of any size is a bounded list. For every history of pushes, polls and requests for
  notification, the callers see exactly the results of the list: completions are returned in the
  order they were pushed, none twice and none lost, as many as fit; when a push finds
  the queue full it is refused and so are all later ones, while polling still returns all
  that was accepted, and only then reports the error.
\<close>

theorem completion_queue_is_list:
  assumes "tbv_create_cq mem handler (Some n) = Inr c" and "run_calls cq_do xs c = (c', rs)"
  shows "\<exists>a'. run_calls (acq_do (nat n)) xs \<lparr>aq_items = [], aq_lost = False\<rparr> = (a', rs) \<and>
    cq_abs c' = a' \<and> accepted xs rs = returned rs @ aq_items a'"
proof -
  note k = create_cq_ok [OF assms(1)]
  then have "run_calls (acq_do (nat n)) xs \<lparr>aq_items = [], aq_lost = False\<rparr> = (cq_abs c', rs)"
    using cq_run_refines [OF _ assms(2)] by auto
  then show ?thesis using acq_fifo by fastforce
qed

text \<open>A queue of two entries that is pushed three times.\<close>

definition demo_wc :: "u64 \<Rightarrow> ib_wc" where
  "demo_wc i = zeroed_wc\<lparr>wc_wr_id := i, wc_qp := Some 0x900\<rparr>"

theorem completion_queue_is_list_witness:
  "\<exists>c c'. tbv_create_cq True True (Some 2) = Inr c \<and>
     run_calls cq_do [CPush (demo_wc 1), CPush (demo_wc 2), CPush (demo_wc 3), CPoll 5, CPoll 5] c =
     (c', [Pushed (Inr ()), Pushed (Inr ()), Pushed (Inl ENOSPC), Polled (Inr [demo_wc 1, demo_wc 2]), Polled (Inl EIO)])"
proof -
  obtain c where c: "tbv_create_cq True True (Some 2) = Inr c" by (simp add: tbv_create_cq_def)
  let ?xs = "[CPush (demo_wc 1), CPush (demo_wc 2), CPush (demo_wc 3), CPoll 5, CPoll 5]"
  obtain c' rs where run: "run_calls cq_do ?xs c = (c', rs)" by fastforce
  obtain a' where a: "run_calls (acq_do (nat 2)) ?xs \<lparr>aq_items = [], aq_lost = False\<rparr> = (a', rs)"
    using completion_queue_is_list [OF c run] by blast
  then have "rs = [Pushed (Inr ()), Pushed (Inr ()), Pushed (Inl ENOSPC), Polled (Inr [demo_wc 1, demo_wc 2]), Polled (Inl EIO)]"
    by (auto simp: acq_push_def acq_poll_def Let_def)
  then show ?thesis using c run by blast
qed

end
