(* ===== verification/Verbs_Recv.thy ===== *)
theory Verbs_Recv
  imports Verbs_Queue
begin

text \<open>
  \<^verbatim>\<open>src/kernel/ibdev.c\<close>, receive queues: the check of a receive buffer, posting a list of them, taking
  the next one, flushing, and the credits that tell the peer how many there are.

  The receive queue is a second instance of \<open>ring_buffer\<close>. \<open>rq.contents\<close> is the list of buffers in
  it, so that the operations are proved on lists.
\<close>

section \<open>Receive buffers\<close>

text \<open>\<open>rv_wr_id\<close> is the union of \<^verbatim>\<open>wr_id\<close> and \<^verbatim>\<open>wr_cqe\<close>; \<open>rv_sg_list\<close> is \<open>None\<close> for a null pointer.\<close>

record ib_recv_wr =
  rv_wr_id :: u64
  rv_num_sge :: int
  rv_sg_list :: "ib_sge ptr"

definition zeroed_wqe :: tbv_recv_wqe where
  "zeroed_wqe = \<lparr>rw_wr_id = 0, rw_wr_cqe = 0, rw_addr = 0, rw_length = 0, rw_lkey = 0, rw_kernel_cqe = False\<rparr>"

definition tbv_recv_wqe_set_wr :: "tbv_qp \<Rightarrow> tbv_recv_wqe \<Rightarrow> ib_recv_wr \<Rightarrow> tbv_recv_wqe" where
  "tbv_recv_wqe_set_wr q wqe wr =
     wqe\<lparr>rw_wr_id := rv_wr_id wr, rw_wr_cqe := rv_wr_id wr, rw_kernel_cqe := \<not> q_uobject q\<rparr>"

definition tbv_wc_set_recv_wr :: "ib_wc \<Rightarrow> tbv_recv_wqe \<Rightarrow> ib_wc" where
  "tbv_wc_set_recv_wr wc wqe =
     (if rw_kernel_cqe wqe then wc\<lparr>wc_wr_id := rw_wr_cqe wqe\<rparr> else wc\<lparr>wc_wr_id := rw_wr_id wqe\<rparr>)"

text \<open>On machines with 64-bit addresses \<open>ib_virt_dma_to_ptr\<close> is a cast.\<close>

definition tbv_validate_recv_sge :: "verbs_mem \<Rightarrow> tbv_qp \<Rightarrow> ib_sge \<Rightarrow> verbs_mem \<times> unit res" where
  "tbv_validate_recv_sge V q sge =
     (let len = ucast (sge_length sge) :: u64
      in if sge_length sge = 0 then (V, Inr ())
         else if tbv_qp_accepts_kernel_dma_lkey q (sge_lkey sge)
         then (V, if sge_addr sge \<noteq> 0 then Inr () else Inl EFAULT)
         else if add_overflows (sge_addr sge) len then (V, Inl EINVAL)
         else case tbv_mr_get V (sge_lkey sge) of
           (V1, None) \<Rightarrow> (V1, Inl EINVAL)
         | (V1, Some a) \<Rightarrow>
             (let mr = mr_at V1 a
              in (tbv_mr_put V1 (Some a),
                  if mr_access mr AND IB_ACCESS_LOCAL_WRITE = 0 then Inl EACCES
                  else if add_overflows (mr_start mr) (mr_length mr) then Inl EINVAL
                  else if sge_addr sge < mr_start mr \<or> sge_addr sge + len > mr_start mr + mr_length mr
                  then Inl EFAULT
                  else Inr ())))"

section \<open>The ring\<close>

definition recvq_put :: "tbv_recv_wqe \<Rightarrow> tbv_qp \<Rightarrow> tbv_qp" where
  "recvq_put wqe q = q\<lparr>q_recvq := (q_recvq q)[unat (q_recv_tail q) := wqe],
     q_recv_tail := (q_recv_tail q + 1) mod q_recvq_size q, q_recv_count := q_recv_count q + 1\<rparr>"

definition recvq_pop :: "tbv_qp \<Rightarrow> tbv_qp" where
  "recvq_pop q = q\<lparr>q_recvq := (q_recvq q)[unat (q_recv_head q) := zeroed_wqe],
     q_recv_head := (q_recv_head q + 1) mod q_recvq_size q, q_recv_count := q_recv_count q - 1,
     q_recv_credits_advertised :=
       (if q_recv_credits_advertised q \<noteq> 0 then q_recv_credits_advertised q - 1 else 0)\<rparr>"

interpretation rq: ring_buffer q_recvq_size q_recv_head q_recv_tail q_recv_count q_recvq recvq_put recvq_pop
  by unfold_locales (simp_all add: recvq_put_def recvq_pop_def)

definition tbv_qp_pop_recv :: "tbv_qp \<Rightarrow> tbv_qp \<times> tbv_recv_wqe ptr" where
  "tbv_qp_pop_recv q =
     (if q_recv_count q = 0 \<or> q_closing q then (q, None)
      else (recvq_pop q, Some (q_recvq q ! unat (q_recv_head q))))"

text \<open>The critical section of a post.\<close>

definition post_recv_entry :: "tbv_qp \<Rightarrow> ib_recv_wr \<Rightarrow> ib_sge ptr \<Rightarrow> tbv_qp \<times> unit res" where
  "post_recv_entry q wr sge =
     (if q_closing q \<or> q_state q = IB_QPS_RESET \<or> q_state q = IB_QPS_ERR then (q, Inl EINVAL)
      else if q_recv_count q = q_recvq_size q then (q, Inl ENOMEM)
      else
        (let wqe = tbv_recv_wqe_set_wr q (q_recvq q ! unat (q_recv_tail q)) wr;
             wqe = wqe\<lparr>rw_addr := (case sge of None \<Rightarrow> 0 | Some s \<Rightarrow> sge_addr s),
                       rw_length := (case sge of None \<Rightarrow> 0 | Some s \<Rightarrow> sge_length s),
                       rw_lkey := (case sge of None \<Rightarrow> 0 | Some s \<Rightarrow> sge_lkey s)\<rparr>
         in (recvq_put wqe q, Inr ())))"

text \<open>
  The loop over the requests. It returns the number that was posted, and on failure the error with
  the request that failed.
\<close>

fun post_recv_loop ::
  "verbs_mem \<Rightarrow> tbv_qp \<Rightarrow> ib_recv_wr list \<Rightarrow> verbs_mem \<times> tbv_qp \<times> nat \<times> (errno \<times> ib_recv_wr) option" where
  "post_recv_loop V q [] = (V, q, 0, None)"
| "post_recv_loop V q (wr # wrs) =
     (if rv_num_sge wr > 1 \<or> rv_num_sge wr = 1 \<and> rv_sg_list wr = None then (V, q, 0, Some (EINVAL, wr))
      else
        (let sge = (if rv_num_sge wr = 1 then rv_sg_list wr else None);
             (V1, ret) = (case sge of None \<Rightarrow> (V, Inr ()) | Some s \<Rightarrow> tbv_validate_recv_sge V q s)
         in case ret of
              Inl e \<Rightarrow> (V1, q, 0, Some (e, wr))
            | Inr _ \<Rightarrow>
                (case post_recv_entry q wr sge of
                   (q1, Inl e) \<Rightarrow> (V1, q1, 0, Some (e, wr))
                 | (q1, Inr _) \<Rightarrow>
                     (let (V2, q2, n, bad) = post_recv_loop V1 q1 wrs in (V2, q2, Suc n, bad)))))"

section \<open>Credits\<close>

text \<open>
  The credits to send, taken under the lock, and the correction if sending them failed; between
  the two the lock is free.
\<close>

definition advertise_take :: "tbv_qp \<Rightarrow> tbv_qp \<times> u32 option" where
  "advertise_take q =
     (if tbv_qp_uses_apple_transport q then (q, None)
      else if q_closing q \<or> \<not> q_dest_qp_known q \<or> q_recv_count q \<le> q_recv_credits_advertised q then (q, None)
      else
        (let credits = q_recv_count q - q_recv_credits_advertised q
         in (q\<lparr>q_recv_credits_advertised := q_recv_credits_advertised q + credits\<rparr>, Some credits)))"

definition advertise_failed :: "u32 \<Rightarrow> tbv_qp \<Rightarrow> tbv_qp" where
  "advertise_failed credits q =
     q\<lparr>q_recv_credits_advertised :=
         (if q_recv_credits_advertised q \<ge> credits then q_recv_credits_advertised q - credits else 0)\<rparr>"

text \<open>\<open>sent_ok\<close> is whether \<^verbatim>\<open>tbv_send_recv_credit\<close> succeeds.\<close>

definition tbv_qp_advertise_recv_credits :: "bool \<Rightarrow> tbv_qp \<Rightarrow> tbv_qp \<times> u32 option" where
  "tbv_qp_advertise_recv_credits sent_ok q =
     (case advertise_take q of
        (q1, None) \<Rightarrow> (q1, None)
      | (q1, Some credits) \<Rightarrow> if sent_ok then (q1, Some credits) else (advertise_failed credits q1, None))"

section \<open>Flush\<close>

definition flush_wc :: "tbv_qp \<Rightarrow> tbv_recv_wqe \<Rightarrow> ib_wc" where
  "flush_wc q wqe = (tbv_wc_set_recv_wr zeroed_wc wqe)\<lparr>wc_status := IB_WC_WR_FLUSH_ERR,
     wc_opcode := IB_WC_RECV, wc_qp := Some (q_num q), wc_port_num := 1\<rparr>"

section \<open>The queue as a list\<close>

text \<open>The identification of a buffer in its completion.\<close>

definition wqe_id :: "tbv_recv_wqe \<Rightarrow> u64" where
  "wqe_id wqe = (if rw_kernel_cqe wqe then rw_wr_cqe wqe else rw_wr_id wqe)"

lemma wc_set_recv_wr_id [simp]: "wc_wr_id (tbv_wc_set_recv_wr wc wqe) = wqe_id wqe"
  by (simp add: tbv_wc_set_recv_wr_def wqe_id_def)

lemma flush_wc_id [simp]: "wc_wr_id (flush_wc q wqe) = wqe_id wqe"
  by (simp add: flush_wc_def)

definition recvq_ok :: "tbv_qp \<Rightarrow> bool" where
  "recvq_ok q \<longleftrightarrow> rq.ring_ok q \<and> q_recv_credits_advertised q \<le> q_recv_count q"

lemma recvq_frame:
  assumes "q_recvq q' = q_recvq q" "q_recvq_size q' = q_recvq_size q" "q_recv_head q' = q_recv_head q"
    "q_recv_tail q' = q_recv_tail q" "q_recv_count q' = q_recv_count q"
  shows "rq.ring_ok q' = rq.ring_ok q" and "rq.contents q' = rq.contents q"
  using assms by (simp_all add: rq.ring_ok_def rq.contents_def)

lemma recvq_put_ok:
  assumes "recvq_ok q" and "q_recv_count q \<noteq> q_recvq_size q"
  shows "recvq_ok (recvq_put wqe q)" and "rq.contents (recvq_put wqe q) = rq.contents q @ [wqe]"
proof -
  have lt: "q_recv_count q < q_recvq_size q" using assms by (auto simp: recvq_ok_def rq.ring_ok_def)
  then have "q_recv_count q \<le> q_recv_count q + 1" using unat_Suc_u32 [OF lt] by (simp add: word_le_nat_alt)
  then show "recvq_ok (recvq_put wqe q)"
    using assms(1) rq.put_ok(1) [OF _ lt] by (auto simp: recvq_ok_def recvq_put_def)
  show "rq.contents (recvq_put wqe q) = rq.contents q @ [wqe]"
    using assms(1) rq.put_ok(2) [OF _ lt] by (simp add: recvq_ok_def)
qed

lemma recvq_pop_ok:
  assumes "recvq_ok q" and "q_recv_count q \<noteq> 0"
  shows "recvq_ok (recvq_pop q)" and "rq.contents q = q_recvq q ! unat (q_recv_head q) # rq.contents (recvq_pop q)"
proof -
  have "q_recv_credits_advertised (recvq_pop q) \<le> q_recv_count (recvq_pop q)"
    using assms unat_pred_u32 [OF assms(2)]
    by (auto simp: recvq_ok_def recvq_pop_def word_le_nat_alt unat_pred_u32)
  then show "recvq_ok (recvq_pop q)" using assms rq.pop_ok(1) by (simp add: recvq_ok_def)
  show "rq.contents q = q_recvq q ! unat (q_recv_head q) # rq.contents (recvq_pop q)"
    using assms rq.pop_ok(2) by (simp add: recvq_ok_def)
qed

lemma pop_recv_ok:
  assumes "recvq_ok q" and "tbv_qp_pop_recv q = (q', r)"
  shows "recvq_ok q' \<and> rq.contents q = (case r of None \<Rightarrow> [] | Some w \<Rightarrow> [w]) @ rq.contents q' \<and>
    (r = None \<longleftrightarrow> q_recv_count q = 0 \<or> q_closing q)"
  using assms recvq_pop_ok by (auto simp: tbv_qp_pop_recv_def split: if_splits)

lemma post_recv_entry_ok:
  assumes "recvq_ok q" and "post_recv_entry q wr sge = (q', ret)"
  shows "recvq_ok q' \<and> (\<exists>ws. rq.contents q' = rq.contents q @ ws \<and>
    map wqe_id ws = (if is_ok ret then [rv_wr_id wr] else []))"
proof (cases "is_ok ret")
  case True
  then obtain wqe where "q' = recvq_put wqe q" "wqe_id wqe = rv_wr_id wr" "q_recv_count q \<noteq> q_recvq_size q"
    using assms(2) by (auto simp: post_recv_entry_def Let_def wqe_id_def tbv_recv_wqe_set_wr_def split: if_splits)
  then show ?thesis using recvq_put_ok [OF assms(1)] True by auto
next
  case False
  then have "q' = q" using assms(2) by (auto simp: post_recv_entry_def Let_def split: if_splits)
  then show ?thesis using assms(1) False by auto
qed

lemma post_recv_loop_ok:
  "recvq_ok q \<Longrightarrow> post_recv_loop V q wrs = (V', q', n, bad) \<Longrightarrow>
     recvq_ok q' \<and> n \<le> length wrs \<and> (bad = None \<longrightarrow> n = length wrs) \<and>
     (\<exists>ws. rq.contents q' = rq.contents q @ ws \<and> map wqe_id ws = map rv_wr_id (take n wrs))"
proof (induction wrs arbitrary: V q V' q' n bad)
  case Nil
  then show ?case by auto
next
  case (Cons wr wrs)
  show ?case
  proof (cases "rv_num_sge wr > 1 \<or> rv_num_sge wr = 1 \<and> rv_sg_list wr = None")
    case True
    then show ?thesis using Cons.prems by auto
  next
    case False
    define sge where "sge = (if rv_num_sge wr = 1 then rv_sg_list wr else None)"
    obtain V1 ret where v: "(case sge of None \<Rightarrow> (V, Inr ()) | Some s \<Rightarrow> tbv_validate_recv_sge V q s) = (V1, ret)"
      by (cases "case sge of None \<Rightarrow> (V, Inr ()) | Some s \<Rightarrow> tbv_validate_recv_sge V q s")
    obtain q1 r1 where e: "post_recv_entry q wr sge = (q1, r1)" by (cases "post_recv_entry q wr sge")
    note ok = post_recv_entry_ok [OF Cons.prems(1) e]
    consider (bad) err where "ret = Inl err" | (refused) err where "ret = Inr ()" "r1 = Inl err" | (ok) "ret = Inr ()" "r1 = Inr ()"
      by (metis old.sum.exhaust old.unit.exhaust)
    then show ?thesis
    proof cases
      case bad
      then show ?thesis using Cons.prems False v by (auto simp: sge_def [symmetric] Let_def)
    next
      case refused
      then show ?thesis using Cons.prems False v e ok by (auto simp: sge_def [symmetric] Let_def)
    next
      case ok
      obtain V2 q2 m bad2 where r: "post_recv_loop V1 q1 wrs = (V2, q2, m, bad2)"
        by (cases "post_recv_loop V1 q1 wrs")
      have "q' = q2" "n = Suc m" "bad = bad2"
        using Cons.prems(2) False v e ok r by (auto simp: sge_def [symmetric] Let_def)
      moreover have "recvq_ok q2 \<and> m \<le> length wrs \<and> (bad2 = None \<longrightarrow> m = length wrs) \<and>
          (\<exists>ws. rq.contents q2 = rq.contents q1 @ ws \<and> map wqe_id ws = map rv_wr_id (take m wrs))"
        using Cons.IH [OF _ r] post_recv_entry_ok [OF Cons.prems(1) e] by blast
      ultimately show ?thesis
        using post_recv_entry_ok [OF Cons.prems(1) e] ok(2) by (fastforce intro: exI [of _ "_ @ _"])
    qed
  qed
qed

lemma advertise_ok:
  "recvq_ok q \<Longrightarrow> recvq_ok (fst (advertise_take q))" "recvq_ok q \<Longrightarrow> recvq_ok (advertise_failed n q)"
  "rq.contents (fst (advertise_take q)) = rq.contents q" "rq.contents (advertise_failed n q) = rq.contents q"
  subgoal by (auto simp: recvq_ok_def advertise_take_def Let_def rq.ring_ok_def)
  subgoal by (auto simp: recvq_ok_def advertise_failed_def Let_def rq.ring_ok_def word_le_nat_alt unat_sub_if_size)
  subgoal by (auto simp: advertise_take_def Let_def rq.contents_def)
  subgoal by (simp add: advertise_failed_def rq.contents_def)
  done

lemma advertise_recv_credits_ok:
  assumes "recvq_ok q"
  shows "recvq_ok (fst (tbv_qp_advertise_recv_credits b q))"
    and "rq.contents (fst (tbv_qp_advertise_recv_credits b q)) = rq.contents q"
proof -
  obtain q1 r where t: "advertise_take q = (q1, r)" by (cases "advertise_take q")
  have q1: "recvq_ok q1" "rq.contents q1 = rq.contents q" using advertise_ok(1) [OF assms] advertise_ok(3) [of q] t by simp_all
  show "recvq_ok (fst (tbv_qp_advertise_recv_credits b q))"
    using q1(1) advertise_ok(2) [OF q1(1)] by (simp add: tbv_qp_advertise_recv_credits_def t split: option.splits)
  show "rq.contents (fst (tbv_qp_advertise_recv_credits b q)) = rq.contents q"
    using q1(2) advertise_ok(4) by (simp add: tbv_qp_advertise_recv_credits_def t split: option.splits)
qed

end
