(* ===== verification/Verbs_Rx.thy ===== *)
theory Verbs_Rx
  imports Verbs_Recv
begin

text \<open>
  \<^verbatim>\<open>src/kernel/ibdev.c\<close>, the receiving half of a native queue pair: fragments of SEND and RDMA WRITE messages
  and READ requests, from the header check to the completion and the acknowledgement. Messages that arrive
  ahead of their turn wait in the reorder list; a message that is being received in turn is
  the active SEND or the active WRITE.

  \<open>rx\<close> holds what \<^verbatim>\<open>rx_lock\<close> protects in \<^verbatim>\<open>struct tbv_qp\<close>, the queue pair itself, its receive completion queue,
  the registered regions and the memory. \<open>x_frames\<close> records the frames handed to the path, \<open>x_wcs\<close>
  the completions the queue accepted and \<open>x_lost\<close> those it refused because it was full. \<open>x_allocs\<close> are the next answers of the allocator (success
  when there are none). The choice of the path for an answer and log messages are not modelled.
  Reorder messages are objects found by their sequence number, of which the list holds at most one each.
\<close>

section \<open>State\<close>

abbreviation (input) TBV_RX_REORDER_MAX_MESSAGES :: u32 where "TBV_RX_REORDER_MAX_MESSAGES \<equiv> 1024"
abbreviation (input) TBV_RX_REORDER_MAX_BYTES :: u32 where "TBV_RX_REORDER_MAX_BYTES \<equiv> 67108864"
abbreviation (input) IB_ACCESS_REMOTE_WRITE :: u32 where "IB_ACCESS_REMOTE_WRITE \<equiv> 2"

record tbv_rx_message =
  am_wqe :: tbv_recv_wqe
  am_started :: jiffies
  am_src_qp :: u32
  am_psn :: u32
  am_total_len :: u32
  am_imm_data :: u32
  am_received :: u32
  am_delivered :: u32
  am_frag_count :: u16
  am_frags_received :: u16
  am_frag_seen :: "u32 set"
  am_status :: ib_wc_status
  am_active :: bool
  am_with_imm :: bool
  am_solicited :: bool

record tbv_rx_write =
  aw_imm_wqe :: tbv_recv_wqe
  aw_started :: jiffies
  aw_remote_addr :: u64
  aw_src_qp :: u32
  aw_psn :: u32
  aw_rkey :: u32
  aw_imm_data :: u32
  aw_received :: u32
  aw_active :: bool
  aw_with_imm :: bool
  aw_solicited :: bool

datatype tbv_rx_reorder_kind = TBV_RX_REORDER_SEND | TBV_RX_REORDER_WRITE | TBV_RX_REORDER_READ_REQ

record tbv_rx_reorder_msg =
  om_frags :: "tbv_rx_reorder_frag list"
  om_first :: jiffies
  om_kind :: tbv_rx_reorder_kind
  om_remote_addr :: u64
  om_src_qp :: u32
  om_psn :: u32
  om_total_len :: u32
  om_imm_data :: u32
  om_rkey :: u32
  om_received :: u32
  om_buffered_bytes :: u32
  om_frag_count :: u16
  om_frags_received :: u16
  om_frag_seen :: "u32 set"
  om_complete :: bool
  om_with_imm :: bool
  om_solicited :: bool

record tbv_read_resp_ctx =
  rr_req :: tbv_native_data_header
  rr_queued :: jiffies
  rr_closing :: bool

record rx =
  x_qp :: tbv_qp
  x_access_flags :: u32
  x_cq :: tbv_cq
  x_mrs :: verbs_mem
  x_memory :: memory
  x_msg :: tbv_rx_message
  x_write :: tbv_rx_write
  x_reorder :: "tbv_rx_reorder_msg list"
  x_reorder_count :: u32
  x_reorder_bytes :: u32
  x_rnr_active :: bool
  x_rnr_psn :: u32
  x_rnr_src_qp :: u32
  x_rnr_frag_offset :: u32
  x_rnr_remote_addr :: u64
  x_read_resps :: "tbv_read_resp_ctx list"
  x_read_work :: "tbv_native_data_header list"
  x_error_queued :: bool
  x_frames :: "tbv_native_data_header list"
  x_wcs :: "ib_wc list"
  x_lost :: "ib_wc list"
  x_allocs :: "bool list"

record rx_env =
  re_mem :: mem_env
  re_jiffies :: jiffies_env
  re_now :: jiffies
  re_striping :: bool

definition zeroed_rx_message :: tbv_rx_message where
  "zeroed_rx_message = \<lparr>am_wqe = zeroed_wqe, am_started = 0, am_src_qp = 0, am_psn = 0, am_total_len = 0,
     am_imm_data = 0, am_received = 0, am_delivered = 0, am_frag_count = 0, am_frags_received = 0,
     am_frag_seen = {}, am_status = IB_WC_SUCCESS, am_active = False, am_with_imm = False, am_solicited = False\<rparr>"

definition zeroed_rx_write :: tbv_rx_write where
  "zeroed_rx_write = \<lparr>aw_imm_wqe = zeroed_wqe, aw_started = 0, aw_remote_addr = 0, aw_src_qp = 0, aw_psn = 0,
     aw_rkey = 0, aw_imm_data = 0, aw_received = 0, aw_active = False, aw_with_imm = False, aw_solicited = False\<rparr>"

definition zeroed_reorder_msg :: tbv_rx_reorder_msg where
  "zeroed_reorder_msg = \<lparr>om_frags = [], om_first = 0, om_kind = TBV_RX_REORDER_SEND, om_remote_addr = 0,
     om_src_qp = 0, om_psn = 0, om_total_len = 0, om_imm_data = 0, om_rkey = 0, om_received = 0,
     om_buffered_bytes = 0, om_frag_count = 0, om_frags_received = 0, om_frag_seen = {}, om_complete = False,
     om_with_imm = False, om_solicited = False\<rparr>"

definition zeroed_hdr :: tbv_native_data_header where
  "zeroed_hdr = \<lparr>d_opcode = 0, d_flags = 0, d_dest_qp = 0, d_src_qp = 0, d_psn = 0, d_length = 0,
     d_imm_data = 0, d_remote_addr = 0, d_rkey = 0, d_frag_offset = 0\<rparr>"

definition on_qp :: "(tbv_qp \<Rightarrow> tbv_qp) \<Rightarrow> rx \<Rightarrow> rx" where
  "on_qp f x = x\<lparr>x_qp := f (x_qp x)\<rparr>"

definition take_alloc :: "rx \<Rightarrow> rx \<times> bool" where
  "take_alloc x = (case x_allocs x of [] \<Rightarrow> (x, True) | b # bs \<Rightarrow> (x\<lparr>x_allocs := bs\<rparr>, b))"

section \<open>Frames sent back\<close>

definition tbv_send_ack_on_path :: "u32 \<Rightarrow> u32 \<Rightarrow> u32 \<Rightarrow> u32 \<Rightarrow> rx \<Rightarrow> rx" where
  "tbv_send_ack_on_path dest src psn st x = x\<lparr>x_frames := x_frames x @
     [zeroed_hdr\<lparr>d_opcode := TBV_NATIVE_DATA_OP_SEND_ACK, d_dest_qp := dest, d_src_qp := src,
        d_psn := psn, d_imm_data := st\<rparr>]\<rparr>"

definition tbv_send_read_status_on_path :: "u32 \<Rightarrow> u32 \<Rightarrow> u32 \<Rightarrow> u32 \<Rightarrow> status \<Rightarrow> rx \<Rightarrow> rx" where
  "tbv_send_read_status_on_path dest src psn total_len st x = x\<lparr>x_frames := x_frames x @
     [zeroed_hdr\<lparr>d_opcode := TBV_NATIVE_DATA_OP_RDMA_READ_RESP, d_flags := TBV_NATIVE_DATA_F_LAST,
        d_dest_qp := dest, d_src_qp := src, d_psn := psn, d_imm_data := total_len,
        d_rkey := (if st \<noteq> None then 1 else 0)\<rparr>]\<rparr>"

definition tbv_rx_send_error_ack :: "tbv_native_data_header \<Rightarrow> u32 \<Rightarrow> rx \<Rightarrow> rx" where
  "tbv_rx_send_error_ack hdr psn x =
     tbv_send_ack_on_path (d_src_qp hdr) (d_dest_qp hdr) psn TBV_NATIVE_SEND_ACK_ERROR x"

text \<open>Answering a duplicate; the flag is whether the frame was one.\<close>

definition reack_duplicate :: "u32 \<Rightarrow> u32 \<Rightarrow> u32 \<Rightarrow> rx \<Rightarrow> rx \<times> bool" where
  "reack_duplicate dest src psn x =
     (case tbv_rx_reack_duplicate_locked (x_qp x) psn of
        None \<Rightarrow> (x, False)
      | Some ack \<Rightarrow> (tbv_send_ack_on_path dest src psn ack x, True))"

definition tbv_qp_queue_error :: "rx \<Rightarrow> rx" where
  "tbv_qp_queue_error x =
     (case tbv_qp_get_live (x_qp x) of
        (q, False) \<Rightarrow> x
      | (q, True) \<Rightarrow> if x_error_queued x then x else x\<lparr>x_qp := q, x_error_queued := True\<rparr>)"

text \<open>
  \<open>tbv_cq_push\<close> on the receive completion queue; the flag is whether it failed. The completion of a push that a
  full queue refuses is lost.
\<close>

definition rx_push_wc :: "ib_wc \<Rightarrow> rx \<Rightarrow> rx \<times> bool" where
  "rx_push_wc wc x =
     (let (c, eff) = tbv_cq_push wc (x_cq x);
          x1 = (if is_ok (ce_ret eff) then x\<lparr>x_cq := c, x_wcs := x_wcs x @ [wc]\<rparr>
                else x\<lparr>x_cq := c, x_lost := x_lost x @ [wc]\<rparr>)
      in (if ce_error_qp eff \<noteq> None then tbv_qp_queue_error x1 else x1, \<not> is_ok (ce_ret eff)))"

definition rx_pop_recv :: "rx \<Rightarrow> rx \<times> tbv_recv_wqe ptr" where
  "rx_pop_recv x = (let (q, r) = tbv_qp_pop_recv (x_qp x) in (x\<lparr>x_qp := q\<rparr>, r))"

definition consumed :: "u32 \<Rightarrow> u32 \<Rightarrow> rx \<Rightarrow> rx" where
  "consumed psn ack x =
     on_qp (\<lambda>q. tbv_qp_ack_history_store_locked psn ack (q\<lparr>q_rx_expected_psn := tbv_psn_next psn\<rparr>)) x"

definition tbv_qp_schedule_timeout :: "rx_env \<Rightarrow> rx \<Rightarrow> rx" where
  "tbv_qp_schedule_timeout E x = on_qp (tbv_qp_schedule_timeout_locked (re_jiffies E)) x"

section \<open>Copying into a receive buffer\<close>

definition tbv_rx_copy_to_wqe ::
  "rx_env \<Rightarrow> tbv_recv_wqe \<Rightarrow> u32 \<Rightarrow> u8 list \<Rightarrow> u32 \<Rightarrow> rx \<Rightarrow> rx \<times> u32 \<times> unit res" where
  "tbv_rx_copy_to_wqe E wqe offset payload delivered x =
     (let len = of_nat (length payload) :: u32;
          copy_len = (if offset < rw_length wqe then min len (rw_length wqe - offset) else 0)
      in if copy_len = 0 then (x, delivered, Inr ())
         else case tbv_mr_get (x_mrs x) (rw_lkey wqe) of
           (V, None) \<Rightarrow> (x\<lparr>x_mrs := V\<rparr>, delivered, Inl EINVAL)
         | (V, Some a) \<Rightarrow>
             (let (m, ret) = tbv_umem_copy_to (re_mem E) (mr_at V a) (rw_addr wqe + ucast offset)
                    (take (unat copy_len) payload) (x_memory x);
                  x' = x\<lparr>x_mrs := tbv_mr_put V (Some a), x_memory := m\<rparr>
              in case ret of Inl e \<Rightarrow> (x', delivered, Inl e) | Inr _ \<Rightarrow> (x', delivered + copy_len, Inr ())))"

section \<open>Shapes of fragments\<close>

definition tbv_rx_fragment_shape_max :: "u32 \<Rightarrow> u32 \<Rightarrow> u32 \<Rightarrow> u32 \<Rightarrow> bool \<Rightarrow> (u32 \<times> u32) option" where
  "tbv_rx_fragment_shape_max total_len max_payload offset len is_last =
     (case tbv_native_data_fragment_shape total_len max_payload TBV_NATIVE_DATA_MAX_FRAGS offset len is_last of
        Inl _ \<Rightarrow> None | Inr r \<Rightarrow> Some r)"

definition tbv_rx_fragment_shape :: "u32 \<Rightarrow> u32 \<Rightarrow> u32 \<Rightarrow> bool \<Rightarrow> (u32 \<times> u32) option" where
  "tbv_rx_fragment_shape total_len offset len is_last =
     tbv_rx_fragment_shape_max total_len TBV_NATIVE_DATA_MAX_PAYLOAD offset len is_last"

definition tbv_rx_write_fragment_shape :: "u32 \<Rightarrow> u32 \<Rightarrow> u32 \<Rightarrow> bool \<Rightarrow> (u32 \<times> u32) option" where
  "tbv_rx_write_fragment_shape total_len offset len is_last =
     (case tbv_rx_fragment_shape total_len offset len is_last of
        Some r \<Rightarrow> Some r
      | None \<Rightarrow> tbv_rx_fragment_shape_max total_len TBV_NATIVE_DATA_FRAME_SIZE offset len is_last)"

section \<open>The reorder list\<close>

definition tbv_rx_reorder_find :: "rx \<Rightarrow> u32 \<Rightarrow> tbv_rx_reorder_msg option" where
  "tbv_rx_reorder_find x psn = find (\<lambda>msg. om_psn msg = psn) (x_reorder x)"

fun remove_psn :: "u32 \<Rightarrow> tbv_rx_reorder_msg list \<Rightarrow> tbv_rx_reorder_msg list" where
  "remove_psn p [] = []"
| "remove_psn p (msg # msgs) = (if om_psn msg = p then msgs else msg # remove_psn p msgs)"

definition tbv_rx_reorder_unlink_msg_locked :: "tbv_rx_reorder_msg \<Rightarrow> rx \<Rightarrow> rx" where
  "tbv_rx_reorder_unlink_msg_locked msg x =
     x\<lparr>x_reorder := remove_psn (om_psn msg) (x_reorder x), x_reorder_count := x_reorder_count x - 1,
       x_reorder_bytes := (if x_reorder_bytes x \<ge> om_buffered_bytes msg
                           then x_reorder_bytes x - om_buffered_bytes msg else 0)\<rparr>"

definition tbv_rx_drop_reorder_msg_locked :: "tbv_rx_reorder_msg \<Rightarrow> rx \<Rightarrow> rx" where
  "tbv_rx_drop_reorder_msg_locked msg x = tbv_rx_reorder_unlink_msg_locked msg x"

definition tbv_qp_flush_reorder :: "rx \<Rightarrow> rx" where
  "tbv_qp_flush_reorder x = x\<lparr>x_reorder := [], x_reorder_count := 0, x_reorder_bytes := 0\<rparr>"

definition on_reorder :: "u32 \<Rightarrow> (tbv_rx_reorder_msg \<Rightarrow> tbv_rx_reorder_msg) \<Rightarrow> rx \<Rightarrow> rx" where
  "on_reorder p f x = x\<lparr>x_reorder := map (\<lambda>msg. if om_psn msg = p then f msg else msg) (x_reorder x)\<rparr>"

text \<open>Adding a message: linked at the end, counted, with the timer running.\<close>

definition reorder_add :: "rx_env \<Rightarrow> tbv_rx_reorder_msg \<Rightarrow> rx \<Rightarrow> rx" where
  "reorder_add E msg x = tbv_qp_schedule_timeout E
     (x\<lparr>x_reorder := x_reorder x @ [msg], x_reorder_count := x_reorder_count x + 1\<rparr>)"

definition tbv_rx_reorder_store_fragment_locked :: "u32 \<Rightarrow> u32 \<Rightarrow> u8 list \<Rightarrow> rx \<Rightarrow> rx \<times> unit res" where
  "tbv_rx_reorder_store_fragment_locked psn offset payload x =
     (let len = of_nat (length payload) :: u32
      in if len = 0 then (x, Inr ())
         else if add_overflows (x_reorder_bytes x) len \<or> x_reorder_bytes x + len > TBV_RX_REORDER_MAX_BYTES
         then (x, Inl ENOSPC)
         else case take_alloc x of
           (x1, False) \<Rightarrow> (x1, Inl ENOMEM)
         | (x1, True) \<Rightarrow>
             (on_reorder psn (\<lambda>msg. msg\<lparr>om_frags := om_frags msg @ [\<lparr>rf_offset = offset, rf_data = payload\<rparr>],
                  om_buffered_bytes := om_buffered_bytes msg + len\<rparr>)
                (x1\<lparr>x_reorder_bytes := x_reorder_bytes x1 + len\<rparr>), Inr ()))"

definition tbv_rx_reorder_fragment_matches_locked :: "tbv_rx_reorder_msg \<Rightarrow> u32 \<Rightarrow> u8 list \<Rightarrow> bool" where
  "tbv_rx_reorder_fragment_matches_locked msg offset payload \<longleftrightarrow>
     payload = [] \<or>
     (case find (\<lambda>f. rf_offset f = offset) (om_frags msg) of
        None \<Rightarrow> False
      | Some f \<Rightarrow> rf_data f = payload)"

section \<open>Completing messages\<close>

definition recv_wc :: "tbv_qp \<Rightarrow> tbv_recv_wqe \<Rightarrow> ib_wc_status \<Rightarrow> u32 \<Rightarrow> u32 \<Rightarrow> bool \<Rightarrow> u32 \<Rightarrow> ib_wc" where
  "recv_wc q wqe st len src with_imm imm =
     (let wc = (tbv_wc_set_recv_wr zeroed_wc wqe)\<lparr>wc_status := st, wc_opcode := IB_WC_RECV,
            wc_qp := Some (q_num q), wc_byte_len := len, wc_src_qp := src, wc_port_num := 1\<rparr>
      in if with_imm then wc\<lparr>wc_with_imm := True, wc_imm_data := imm\<rparr> else wc)"

definition tbv_rx_finish_send :: "rx \<Rightarrow> rx" where
  "tbv_rx_finish_send x =
     (let msg = x_msg x;
          (x1, cq_error) = rx_push_wc (recv_wc (x_qp x) (am_wqe msg) (am_status msg) (am_delivered msg)
             (am_src_qp msg) (am_with_imm msg) (am_imm_data msg)) x;
          ack = (if am_status msg = IB_WC_SUCCESS \<and> \<not> cq_error
                 then TBV_NATIVE_SEND_ACK_OK else TBV_NATIVE_SEND_ACK_ERROR)
      in tbv_send_ack_on_path (am_src_qp msg) (q_num (x_qp x)) (am_psn msg) ack
           (consumed (am_psn msg) ack (x1\<lparr>x_msg := zeroed_rx_message\<rparr>)))"

definition tbv_rx_fail_active_send :: "ib_wc_status \<Rightarrow> rx \<Rightarrow> rx" where
  "tbv_rx_fail_active_send st x =
     (if \<not> am_active (x_msg x) then x else tbv_rx_finish_send (x\<lparr>x_msg := (x_msg x)\<lparr>am_status := st\<rparr>\<rparr>))"

fun deliver_frags ::
  "rx_env \<Rightarrow> tbv_recv_wqe \<Rightarrow> tbv_rx_reorder_frag list \<Rightarrow> u32 \<Rightarrow> rx \<Rightarrow> rx \<times> u32 \<times> bool" where
  "deliver_frags E wqe [] delivered x = (x, delivered, True)"
| "deliver_frags E wqe (f # fs) delivered x =
     (case tbv_rx_copy_to_wqe E wqe (rf_offset f) (rf_data f) delivered x of
        (x1, d1, Inl _) \<Rightarrow> (x1, d1, False)
      | (x1, d1, Inr _) \<Rightarrow> deliver_frags E wqe fs d1 x1)"

definition tbv_rx_deliver_reorder_msg_locked :: "rx_env \<Rightarrow> tbv_rx_reorder_msg \<Rightarrow> rx \<Rightarrow> rx \<times> bool" where
  "tbv_rx_deliver_reorder_msg_locked E msg x =
     (case rx_pop_recv x of
        (x1, None) \<Rightarrow>
          (tbv_send_ack_on_path (om_src_qp msg) (q_num (x_qp x)) (om_psn msg) TBV_NATIVE_SEND_ACK_RNR x1, False)
      | (x1, Some wqe) \<Rightarrow>
          (let x2 = tbv_rx_reorder_unlink_msg_locked msg x1;
               (x3, delivered, copied) = deliver_frags E wqe (om_frags msg) 0 x2;
               st = (if \<not> copied then IB_WC_LOC_PROT_ERR
                     else if om_total_len msg > rw_length wqe then IB_WC_LOC_LEN_ERR else IB_WC_SUCCESS);
               (x4, cq_error) = rx_push_wc (recv_wc (x_qp x) wqe st delivered (om_src_qp msg)
                  (om_with_imm msg) (om_imm_data msg)) x3;
               ack = (if st = IB_WC_SUCCESS \<and> \<not> cq_error then TBV_NATIVE_SEND_ACK_OK else TBV_NATIVE_SEND_ACK_ERROR)
           in (tbv_send_ack_on_path (om_src_qp msg) (q_num (x_qp x)) (om_psn msg) ack
                 (consumed (om_psn msg) ack x4), True)))"

text \<open>The completion of a WRITE with immediate data.\<close>

definition write_wc :: "tbv_qp \<Rightarrow> tbv_recv_wqe \<Rightarrow> ib_wc_status \<Rightarrow> u32 \<Rightarrow> u32 \<Rightarrow> ib_wc" where
  "write_wc q wqe st src imm =
     (let wc = (tbv_wc_set_recv_wr zeroed_wc wqe)\<lparr>wc_status := st,
            wc_opcode := (if st = IB_WC_SUCCESS then IB_WC_RECV_RDMA_WITH_IMM else IB_WC_RECV),
            wc_qp := Some (q_num q), wc_src_qp := src, wc_port_num := 1\<rparr>
      in if st = IB_WC_SUCCESS then wc\<lparr>wc_with_imm := True, wc_imm_data := imm\<rparr> else wc)"

fun write_frags :: "mem_env \<Rightarrow> tbv_mr \<Rightarrow> u64 \<Rightarrow> tbv_rx_reorder_frag list \<Rightarrow> memory \<Rightarrow> memory \<times> unit res" where
  "write_frags K mr base [] m = (m, Inr ())"
| "write_frags K mr base (f # fs) m =
     (if add_overflows base (ucast (rf_offset f)) then (m, Inl EINVAL)
      else case tbv_umem_copy_to_iova K mr (base + ucast (rf_offset f)) (rf_data f) m of
        (m1, Inl e) \<Rightarrow> (m1, Inl e)
      | (m1, Inr _) \<Rightarrow> write_frags K mr base fs m1)"

text \<open>Looking up the region of a WRITE and writing to it.\<close>

definition write_region :: "rx_env \<Rightarrow> u32 \<Rightarrow> (tbv_mr \<Rightarrow> memory \<Rightarrow> memory \<times> unit res) \<Rightarrow> rx \<Rightarrow> rx \<times> unit res" where
  "write_region E rkey w x =
     (case tbv_mr_get (x_mrs x) rkey of
        (V, None) \<Rightarrow> (x\<lparr>x_mrs := V\<rparr>, Inl EINVAL)
      | (V, Some a) \<Rightarrow>
          if mr_access (mr_at V a) AND IB_ACCESS_REMOTE_WRITE = 0
          then (x\<lparr>x_mrs := tbv_mr_put V (Some a)\<rparr>, Inl EACCES)
          else (let (m, ret) = w (mr_at V a) (x_memory x)
                in (x\<lparr>x_mrs := tbv_mr_put V (Some a), x_memory := m\<rparr>, ret)))"

definition deliver_write :: "rx_env \<Rightarrow> tbv_rx_reorder_msg \<Rightarrow> tbv_recv_wqe ptr \<Rightarrow> rx \<Rightarrow> rx \<times> bool" where
  "deliver_write E msg wqe x =
     (let x1 = tbv_rx_reorder_unlink_msg_locked msg x;
          (x2, ret) = write_region E (om_rkey msg)
             (\<lambda>mr m. write_frags (re_mem E) mr (om_remote_addr msg) (om_frags msg) m) x1;
          st = (if is_ok ret then IB_WC_SUCCESS else IB_WC_LOC_PROT_ERR);
          (x3, cq_error) = (case wqe of
              None \<Rightarrow> (x2, False)
            | Some w \<Rightarrow> rx_push_wc (write_wc (x_qp x) w st (om_src_qp msg) (om_imm_data msg)) x2);
          ret2 = (if cq_error then Inl ENOSPC else ret);
          ack = (if st = IB_WC_SUCCESS \<and> \<not> cq_error then TBV_NATIVE_SEND_ACK_OK else TBV_NATIVE_SEND_ACK_ERROR)
      in (tbv_send_ack_on_path (om_src_qp msg) (q_num (x_qp x)) (om_psn msg) ack
            (consumed (om_psn msg) ack x3), ret2 \<noteq> Inl EAGAIN))"

definition tbv_rx_deliver_reorder_write_locked :: "rx_env \<Rightarrow> tbv_rx_reorder_msg \<Rightarrow> rx \<Rightarrow> rx \<times> bool" where
  "tbv_rx_deliver_reorder_write_locked E msg x =
     (if om_with_imm msg
      then (case rx_pop_recv x of
              (x1, None) \<Rightarrow>
                (tbv_send_ack_on_path (om_src_qp msg) (q_num (x_qp x)) (om_psn msg) TBV_NATIVE_SEND_ACK_RNR x1, False)
            | (x1, Some wqe) \<Rightarrow> deliver_write E msg (Some wqe) x1)
      else deliver_write E msg None x)"

definition tbv_rx_queue_rdma_read_req_work :: "tbv_native_data_header \<Rightarrow> rx \<Rightarrow> rx" where
  "tbv_rx_queue_rdma_read_req_work hdr x =
     (case take_alloc x of
        (x1, False) \<Rightarrow>
          tbv_send_read_status_on_path (d_src_qp hdr) (d_dest_qp hdr) (d_psn hdr) (d_imm_data hdr) (Some ENOMEM) x1
      | (x1, True) \<Rightarrow>
          (case tbv_qp_get_live (x_qp x1) of
             (q, False) \<Rightarrow> x1
           | (q, True) \<Rightarrow> x1\<lparr>x_qp := q, x_read_work := x_read_work x1 @ [hdr]\<rparr>))"

definition tbv_rx_deliver_reorder_read_req_locked :: "tbv_rx_reorder_msg \<Rightarrow> rx \<Rightarrow> rx \<times> bool" where
  "tbv_rx_deliver_reorder_read_req_locked msg x =
     (let hdr = zeroed_hdr\<lparr>d_opcode := TBV_NATIVE_DATA_OP_RDMA_READ_REQ, d_flags := TBV_NATIVE_DATA_F_LAST,
            d_dest_qp := q_num (x_qp x), d_src_qp := om_src_qp msg, d_psn := om_psn msg,
            d_imm_data := om_total_len msg, d_remote_addr := om_remote_addr msg, d_rkey := om_rkey msg\<rparr>;
          x1 = tbv_rx_reorder_unlink_msg_locked msg x;
          x2 = on_qp (\<lambda>q. q\<lparr>q_rx_expected_psn := tbv_psn_next (om_psn msg)\<rparr>) x1
      in (tbv_rx_queue_rdma_read_req_work hdr x2, True))"

section \<open>Responses to reads that are waiting for their acknowledgement\<close>

definition tbv_qp_retry_read_resp :: "rx_env \<Rightarrow> u32 \<Rightarrow> rx \<Rightarrow> rx" where
  "tbv_qp_retry_read_resp E psn x =
     (case find (\<lambda>r. d_psn (rr_req r) = psn) (x_read_resps x) of
        None \<Rightarrow> x
      | Some r \<Rightarrow>
          if rr_closing r then x
          else
            (let timeout = tbv_read_resp_retry_jiffies (re_jiffies E)
                   (tbv_qp_tx_timeout_jiffies_locked (re_jiffies E) (x_qp x));
                 queued = (if timeout \<noteq> 0 then re_now E - timeout else 1);
                 n = length (takeWhile (\<lambda>r. d_psn (rr_req r) \<noteq> psn) (x_read_resps x))
             in on_qp (tbv_qp_schedule_timeout_now_locked (re_jiffies E))
                  (x\<lparr>x_read_resps := (x_read_resps x)[n := r\<lparr>rr_queued := queued\<rparr>]\<rparr>)))"

definition tbv_qp_take_read_resp :: "u32 \<Rightarrow> rx \<Rightarrow> rx \<times> tbv_read_resp_ctx option" where
  "tbv_qp_take_read_resp psn x =
     (case find (\<lambda>r. d_psn (rr_req r) = psn) (x_read_resps x) of
        None \<Rightarrow> (x, None)
      | Some r \<Rightarrow> (x\<lparr>x_read_resps := remove1 r (x_read_resps x)\<rparr>, Some (r\<lparr>rr_closing := True\<rparr>)))"

definition tbv_qp_cancel_read_resps :: "rx \<Rightarrow> rx \<times> tbv_read_resp_ctx list" where
  "tbv_qp_cancel_read_resps x =
     (x\<lparr>x_read_resps := []\<rparr>, map (rr_closing_update (\<lambda>_. True)) (x_read_resps x))"

section \<open>Draining the reorder list\<close>

fun prune_loop :: "rx_env \<Rightarrow> tbv_rx_reorder_msg list \<Rightarrow> rx \<Rightarrow> rx" where
  "prune_loop E [] x = x"
| "prune_loop E (msg # msgs) x =
     (if tbv_psn_delta (om_psn msg) (q_rx_expected_psn (x_qp x)) \<ge> 0 then prune_loop E msgs x
      else
        (let x1 = (if om_kind msg = TBV_RX_REORDER_READ_REQ then tbv_qp_retry_read_resp E (om_psn msg) x
                   else fst (reack_duplicate (om_src_qp msg) (q_num (x_qp x)) (om_psn msg) x))
         in prune_loop E msgs (tbv_rx_reorder_unlink_msg_locked msg x1)))"

definition tbv_rx_prune_stale_reorder_locked :: "rx_env \<Rightarrow> rx \<Rightarrow> rx" where
  "tbv_rx_prune_stale_reorder_locked E x = prune_loop E (x_reorder x) x"

definition deliver_reorder :: "rx_env \<Rightarrow> tbv_rx_reorder_msg \<Rightarrow> rx \<Rightarrow> rx \<times> bool" where
  "deliver_reorder E msg x =
     (case om_kind msg of
        TBV_RX_REORDER_WRITE \<Rightarrow> tbv_rx_deliver_reorder_write_locked E msg x
      | TBV_RX_REORDER_READ_REQ \<Rightarrow> tbv_rx_deliver_reorder_read_req_locked msg x
      | TBV_RX_REORDER_SEND \<Rightarrow> tbv_rx_deliver_reorder_msg_locked E msg x)"

text \<open>What these steps do to the list, for the termination of the loop below.\<close>

lemma get_live_frame: "tbv_qp_get_live q = (q', b) \<Longrightarrow> q' = q\<lparr>q_refs := q_refs q'\<rparr>"
  by (auto simp: tbv_qp_get_live_def split: if_splits)

lemma queue_error_eq: "tbv_qp_queue_error x = x\<lparr>x_qp := (x_qp x)\<lparr>q_refs := q_refs (x_qp (tbv_qp_queue_error x))\<rparr>,
    x_error_queued := x_error_queued (tbv_qp_queue_error x)\<rparr>"
  by (auto simp: tbv_qp_queue_error_def dest: get_live_frame split: prod.splits bool.splits)

lemma queue_error_reorder: "x_reorder (tbv_qp_queue_error x) = x_reorder x"
  by (subst queue_error_eq) simp

lemma reorder_frames [simp]:
  "x_reorder (on_qp f x) = x_reorder x"
  "x_reorder (fst (take_alloc x)) = x_reorder x"
  "x_reorder (tbv_send_ack_on_path a b c d x) = x_reorder x"
  "x_reorder (tbv_send_read_status_on_path a b c e st x) = x_reorder x"
  "x_reorder (fst (reack_duplicate a b c x)) = x_reorder x"
  "x_reorder (tbv_qp_queue_error x) = x_reorder x"
  "x_reorder (fst (rx_push_wc wc x)) = x_reorder x"
  "x_reorder (fst (rx_pop_recv x)) = x_reorder x"
  "x_reorder (consumed psn ack x) = x_reorder x"
  "x_reorder (fst (tbv_rx_copy_to_wqe E wqe off payload n x)) = x_reorder x"
  "x_reorder (fst (write_region E k w x)) = x_reorder x"
  "x_reorder (tbv_rx_queue_rdma_read_req_work hdr x) = x_reorder x"
  "x_reorder (tbv_qp_retry_read_resp E psn x) = x_reorder x"
  subgoal by (simp add: on_qp_def)
  subgoal by (simp add: take_alloc_def split: list.splits)
  subgoal by (simp add: tbv_send_ack_on_path_def)
  subgoal by (simp add: tbv_send_read_status_on_path_def)
  subgoal by (simp add: reack_duplicate_def tbv_send_ack_on_path_def split: option.splits)
  subgoal by (rule queue_error_reorder)
  subgoal by (auto simp: rx_push_wc_def Let_def queue_error_reorder split: prod.splits)
  subgoal by (simp add: rx_pop_recv_def Let_def split: prod.splits)
  subgoal by (simp add: consumed_def on_qp_def)
  subgoal by (simp add: tbv_rx_copy_to_wqe_def Let_def split: prod.splits option.splits sum.splits)
  subgoal by (simp add: write_region_def Let_def split: prod.splits option.splits)
  subgoal by (simp add: tbv_rx_queue_rdma_read_req_work_def take_alloc_def tbv_send_read_status_on_path_def
        split: prod.splits list.splits bool.splits)
  subgoal by (simp add: tbv_qp_retry_read_resp_def on_qp_def Let_def split: option.splits)
  done

lemma deliver_frags_reorder [simp]: "x_reorder (fst (deliver_frags E wqe fs n x)) = x_reorder x"
proof (induction fs arbitrary: n x)
  case (Cons f fs)
  obtain x1 d r where "tbv_rx_copy_to_wqe E wqe (rf_offset f) (rf_data f) n x = (x1, d, r)" by (metis prod_cases3)
  moreover have "x_reorder x1 = x_reorder x"
    using reorder_frames(10) [of E wqe "rf_offset f" "rf_data f" n x] calculation by simp
  ultimately show ?case using Cons.IH by (simp split: sum.splits)
qed simp

lemma unlink_reorder [simp]:
  "x_reorder (tbv_rx_reorder_unlink_msg_locked msg x) = remove_psn (om_psn msg) (x_reorder x)"
  by (simp add: tbv_rx_reorder_unlink_msg_locked_def)

lemma remove_psn_length: "length (remove_psn p msgs) = length msgs - (if p \<in> om_psn ` set msgs then 1 else 0)"
  by (induction msgs) (auto simp: Suc_diff_le length_greater_0_conv intro: Suc_pred)

lemma remove_psn_shrinks: "msg \<in> set msgs \<Longrightarrow> length (remove_psn (om_psn msg) msgs) < length msgs"
  by (induction msgs) auto

lemma push_wc_reorder: "rx_push_wc wc x = (x', b) \<Longrightarrow> x_reorder x' = x_reorder x"
  using reorder_frames(7) [of wc x] by simp

lemma pop_recv_reorder: "rx_pop_recv x = (x', r) \<Longrightarrow> x_reorder x' = x_reorder x"
  using reorder_frames(8) [of x] by simp

lemma write_region_reorder: "write_region E k w x = (x', r) \<Longrightarrow> x_reorder x' = x_reorder x"
  using reorder_frames(11) [of E k w x] by simp

lemma deliver_frags_reorder': "deliver_frags E wqe fs n x = (x', r) \<Longrightarrow> x_reorder x' = x_reorder x"
  using deliver_frags_reorder [of E wqe fs n x] by simp

lemma deliver_reorder_list:
  assumes "deliver_reorder E msg x = (x', b)"
  shows "x_reorder x' = remove_psn (om_psn msg) (x_reorder x) \<or> \<not> b \<and> x_reorder x' = x_reorder x"
proof -
  have w: "x_reorder (fst (deliver_write E msg wqe y)) = remove_psn (om_psn msg) (x_reorder y)" for wqe y
    by (auto simp: deliver_write_def Let_def split: prod.splits option.splits
        dest!: push_wc_reorder write_region_reorder)
  show ?thesis
  proof (cases "om_kind msg")
    case TBV_RX_REORDER_SEND
    then show ?thesis using assms
      by (auto simp: deliver_reorder_def tbv_rx_deliver_reorder_msg_locked_def Let_def
          split: prod.splits option.splits dest!: push_wc_reorder pop_recv_reorder deliver_frags_reorder')
  next
    case TBV_RX_REORDER_WRITE
    then show ?thesis using assms w
      by (auto simp: deliver_reorder_def tbv_rx_deliver_reorder_write_locked_def
          split: prod.splits option.splits if_splits dest!: pop_recv_reorder) (metis fst_conv)+
  next
    case TBV_RX_REORDER_READ_REQ
    then show ?thesis using assms
      by (auto simp: deliver_reorder_def tbv_rx_deliver_reorder_read_req_locked_def Let_def)
  qed
qed

lemma deliver_reorder_removes:
  "deliver_reorder E msg x = (x', True) \<Longrightarrow> x_reorder x' = remove_psn (om_psn msg) (x_reorder x)"
  using deliver_reorder_list by blast

lemma prune_loop_length: "length (x_reorder (prune_loop E msgs x)) \<le> length (x_reorder x)"
proof (induction msgs arbitrary: x)
  case (Cons msg msgs)
  show ?case
    using Cons.IH [of x] order_trans [OF Cons.IH] by (auto simp: Let_def remove_psn_length intro: order_trans [OF Cons.IH])
qed simp

function tbv_rx_drain_reorder_locked :: "rx_env \<Rightarrow> rx \<Rightarrow> rx" where
  "tbv_rx_drain_reorder_locked E x =
     (if am_active (x_msg x) \<or> aw_active (x_write x) then x
      else
        (let x1 = tbv_rx_prune_stale_reorder_locked E x
         in case tbv_rx_reorder_find x1 (q_rx_expected_psn (x_qp x1)) of
              None \<Rightarrow> x1
            | Some msg \<Rightarrow>
                if \<not> om_complete msg then x1
                else case deliver_reorder E msg x1 of
                  (x2, False) \<Rightarrow> x2
                | (x2, True) \<Rightarrow> tbv_rx_drain_reorder_locked E x2))"
  by pat_completeness auto
termination
proof (relation "measure (\<lambda>(E, x). length (x_reorder x))")
  fix E x x1 msg x2 b
  assume x1: "x1 = tbv_rx_prune_stale_reorder_locked E x"
    and f: "tbv_rx_reorder_find x1 (q_rx_expected_psn (x_qp x1)) = Some msg"
    and p: "(x2, b) = deliver_reorder E msg x1" "b = True"
  have "msg \<in> set (x_reorder x1)" using f by (auto simp: tbv_rx_reorder_find_def find_Some_iff)
  then have "length (x_reorder x2) < length (x_reorder x1)"
    using deliver_reorder_removes [of E msg x1 x2] p remove_psn_shrinks by simp
  also have "\<dots> \<le> length (x_reorder x)"
    by (simp add: x1 tbv_rx_prune_stale_reorder_locked_def prune_loop_length)
  finally show "((E, x2), (E, x)) \<in> measure (\<lambda>(E, x). length (x_reorder x))" by simp
qed simp

declare tbv_rx_drain_reorder_locked.simps [simp del]

text \<open>What every delivery keeps, the loop keeps.\<close>

lemma drain_rule:
  assumes refl: "\<And>x. R x x" and trans: "\<And>x y z. R x y \<Longrightarrow> R y z \<Longrightarrow> R x z"
    and prune: "\<And>x. R x (tbv_rx_prune_stale_reorder_locked E x)"
    and deliver: "\<And>msg x x' b. tbv_rx_reorder_find x (q_rx_expected_psn (x_qp x)) = Some msg \<Longrightarrow> om_complete msg \<Longrightarrow>
      deliver_reorder E msg x = (x', b) \<Longrightarrow> R x x'"
  shows "R x (tbv_rx_drain_reorder_locked E x)"
proof (induction "length (x_reorder x)" arbitrary: x rule: less_induct)
  case less
  let ?x1 = "tbv_rx_prune_stale_reorder_locked E x"
  have len: "length (x_reorder ?x1) \<le> length (x_reorder x)"
    by (simp add: tbv_rx_prune_stale_reorder_locked_def prune_loop_length)
  show ?case
  proof (cases "am_active (x_msg x) \<or> aw_active (x_write x)")
    case True
    then show ?thesis by (simp add: tbv_rx_drain_reorder_locked.simps [of E x] refl)
  next
    case False
    note step = tbv_rx_drain_reorder_locked.simps [of E x]
    show ?thesis
    proof (cases "\<exists>msg. tbv_rx_reorder_find ?x1 (q_rx_expected_psn (x_qp ?x1)) = Some msg \<and> om_complete msg")
      case True
      then obtain msg x2 b where go: "tbv_rx_reorder_find ?x1 (q_rx_expected_psn (x_qp ?x1)) = Some msg" "om_complete msg"
        "deliver_reorder E msg ?x1 = (x2, b)"
        by (metis surj_pair)
      have eq: "tbv_rx_drain_reorder_locked E x = (if b then tbv_rx_drain_reorder_locked E x2 else x2)"
        using False go by (subst step) (simp add: Let_def split: bool.splits)
      have x2: "R x x2" using trans [OF prune deliver] go by blast
      have "msg \<in> set (x_reorder ?x1)" using go(1) by (auto simp: tbv_rx_reorder_find_def find_Some_iff)
      then have "length (x_reorder x2) < length (x_reorder x)" if b
        using deliver_reorder_removes [of E msg ?x1 x2] go(3) that len remove_psn_shrinks by fastforce
      then show ?thesis using x2 eq less trans by auto
    next
      case other: False
      then have "tbv_rx_drain_reorder_locked E x = ?x1"
        using False by (subst step) (auto simp: Let_def split: option.splits)
      then show ?thesis using prune by simp
    qed
  qed
qed

section \<open>Receiver not ready\<close>

definition tbv_rx_rnr_matches_locked :: "rx \<Rightarrow> u32 \<Rightarrow> u32 \<Rightarrow> bool" where
  "tbv_rx_rnr_matches_locked x src psn \<longleftrightarrow>
     x_rnr_active x \<and> x_rnr_src_qp x = src \<and> x_rnr_psn x = psn AND TBV_PSN_MASK"

definition tbv_rx_rnr_is_first_retry_locked :: "rx \<Rightarrow> u32 \<Rightarrow> u32 \<Rightarrow> u64 \<Rightarrow> u32 \<Rightarrow> bool" where
  "tbv_rx_rnr_is_first_retry_locked x src psn remote_addr frag_offset \<longleftrightarrow>
     tbv_rx_rnr_matches_locked x src psn \<and> x_rnr_remote_addr x = remote_addr \<and> x_rnr_frag_offset x = frag_offset"

definition tbv_rx_mark_rnr_locked :: "u32 \<Rightarrow> u32 \<Rightarrow> u64 \<Rightarrow> u32 \<Rightarrow> rx \<Rightarrow> rx" where
  "tbv_rx_mark_rnr_locked src psn remote_addr frag_offset x =
     x\<lparr>x_rnr_active := True, x_rnr_src_qp := src, x_rnr_psn := psn AND TBV_PSN_MASK,
       x_rnr_remote_addr := remote_addr, x_rnr_frag_offset := frag_offset\<rparr>"

definition tbv_rx_clear_rnr_locked :: "u32 \<Rightarrow> u32 \<Rightarrow> rx \<Rightarrow> rx" where
  "tbv_rx_clear_rnr_locked src psn x = (if tbv_rx_rnr_matches_locked x src psn then x\<lparr>x_rnr_active := False\<rparr> else x)"

text \<open>Refusing a message for want of a receive buffer.\<close>

definition refuse_rnr :: "tbv_native_data_header \<Rightarrow> u32 \<Rightarrow> rx \<Rightarrow> rx" where
  "refuse_rnr hdr psn x =
     tbv_send_ack_on_path (d_src_qp hdr) (d_dest_qp hdr) psn TBV_NATIVE_SEND_ACK_RNR
       (tbv_rx_mark_rnr_locked (d_src_qp hdr) psn (d_remote_addr hdr) (d_frag_offset hdr) x)"

text \<open>
  After a refusal only the fragment that was refused is looked at again: \<open>None\<close> if the frame is
  suppressed.
\<close>

definition rnr_gate :: "tbv_native_data_header \<Rightarrow> u32 \<Rightarrow> rx \<Rightarrow> rx option" where
  "rnr_gate hdr psn x =
     (if tbv_rx_rnr_matches_locked x (d_src_qp hdr) psn
      then (if \<not> tbv_rx_rnr_is_first_retry_locked x (d_src_qp hdr) psn (d_remote_addr hdr) (d_frag_offset hdr)
            then None else Some (tbv_rx_clear_rnr_locked (d_src_qp hdr) psn x))
      else Some x)"

section \<open>Fragments ahead of their turn\<close>

definition is_last :: "tbv_native_data_header \<Rightarrow> bool" where
  "is_last hdr \<longleftrightarrow> d_flags hdr AND TBV_NATIVE_DATA_F_LAST \<noteq> 0"

definition is_solicited :: "tbv_native_data_header \<Rightarrow> bool" where
  "is_solicited hdr \<longleftrightarrow> d_flags hdr AND TBV_NATIVE_DATA_F_SOLICITED \<noteq> 0"

definition send_with_imm :: "tbv_native_data_header \<Rightarrow> bool" where
  "send_with_imm hdr \<longleftrightarrow> d_opcode hdr = TBV_NATIVE_DATA_OP_SEND_IMM"

definition send_imm :: "tbv_native_data_header \<Rightarrow> u32" where
  "send_imm hdr = (if send_with_imm hdr then d_rkey hdr else 0)"

text \<open>The message after a fragment that was stored.\<close>

definition note_fragment :: "u32 \<Rightarrow> u32 \<Rightarrow> tbv_rx_reorder_msg \<Rightarrow> tbv_rx_reorder_msg" where
  "note_fragment idx len msg =
     (let msg = msg\<lparr>om_frag_seen := insert idx (om_frag_seen msg),
            om_frags_received := om_frags_received msg + 1, om_received := om_received msg + len\<rparr>
      in if om_frags_received msg = om_frag_count msg then msg\<lparr>om_complete := True\<rparr> else msg)"

text \<open>Storing a fragment of a message of the list; \<open>refuse\<close> is the answer when it cannot be stored.\<close>

definition reorder_store ::
  "rx_env \<Rightarrow> (errno \<Rightarrow> tbv_rx_reorder_msg \<Rightarrow> rx \<Rightarrow> rx) \<Rightarrow> u32 \<Rightarrow> u32 \<Rightarrow> u32 \<Rightarrow> u8 list \<Rightarrow> rx \<Rightarrow> rx" where
  "reorder_store E refuse psn idx offset payload x =
     (case tbv_rx_reorder_store_fragment_locked psn offset payload x of
        (x1, Inl e) \<Rightarrow> refuse e (the (tbv_rx_reorder_find x1 psn)) x1
      | (x1, Inr _) \<Rightarrow>
          (let x2 = on_reorder psn (note_fragment idx (of_nat (length payload))) x1
           in if om_complete (the (tbv_rx_reorder_find x2 psn)) then tbv_rx_drain_reorder_locked E x2 else x2))"

definition send_store_failed ::
  "tbv_native_data_header \<Rightarrow> u32 \<Rightarrow> errno \<Rightarrow> tbv_rx_reorder_msg \<Rightarrow> rx \<Rightarrow> rx" where
  "send_store_failed hdr psn e msg x =
     tbv_rx_drop_reorder_msg_locked msg (if e = ENOSPC then x else tbv_rx_send_error_ack hdr psn x)"

definition new_reorder_send :: "rx_env \<Rightarrow> tbv_native_data_header \<Rightarrow> u32 \<Rightarrow> u32 \<Rightarrow> u32 \<Rightarrow> tbv_rx_reorder_msg" where
  "new_reorder_send E hdr psn total_len frag_cnt =
     zeroed_reorder_msg\<lparr>om_first := re_now E, om_kind := TBV_RX_REORDER_SEND, om_src_qp := d_src_qp hdr,
       om_psn := psn, om_total_len := total_len, om_with_imm := send_with_imm hdr, om_imm_data := send_imm hdr,
       om_frag_count := ucast frag_cnt, om_solicited := is_solicited hdr\<rparr>"

definition tbv_rx_buffer_fragment_locked ::
  "rx_env \<Rightarrow> tbv_native_data_header \<Rightarrow> u32 \<Rightarrow> u32 \<Rightarrow> u32 \<Rightarrow> bool \<Rightarrow> u8 list \<Rightarrow> rx \<Rightarrow> rx" where
  "tbv_rx_buffer_fragment_locked E hdr psn total_len offset is_l payload x =
     (let delta = tbv_psn_delta psn (q_rx_expected_psn (x_qp x))
      in if delta < 0 then fst (reack_duplicate (d_src_qp hdr) (d_dest_qp hdr) psn x)
         else if delta \<ge> 1024 then tbv_rx_send_error_ack hdr psn x
         else case tbv_rx_fragment_shape total_len offset (d_length hdr) is_l of
           None \<Rightarrow> tbv_rx_send_error_ack hdr psn x
         | Some (frag_idx, frag_cnt) \<Rightarrow>
             (case tbv_rx_reorder_find x psn of
                None \<Rightarrow>
                  if x_reorder_count x \<ge> TBV_RX_REORDER_MAX_MESSAGES then tbv_rx_send_error_ack hdr psn x
                  else (case take_alloc x of
                          (x1, False) \<Rightarrow> tbv_rx_send_error_ack hdr psn x1
                        | (x1, True) \<Rightarrow>
                            reorder_store E (send_store_failed hdr psn) psn frag_idx offset payload
                              (reorder_add E (new_reorder_send E hdr psn total_len frag_cnt) x1))
              | Some msg \<Rightarrow>
                  if om_kind msg \<noteq> TBV_RX_REORDER_SEND \<or> om_src_qp msg \<noteq> d_src_qp hdr \<or>
                    om_total_len msg \<noteq> total_len \<or> om_with_imm msg \<noteq> send_with_imm hdr \<or>
                    om_imm_data msg \<noteq> send_imm hdr \<or> ucast (om_frag_count msg) \<noteq> frag_cnt
                  then tbv_rx_send_error_ack hdr psn (tbv_rx_drop_reorder_msg_locked msg x)
                  else if frag_idx \<in> om_frag_seen msg
                  then (if \<not> tbv_rx_reorder_fragment_matches_locked msg offset payload
                        then tbv_rx_send_error_ack hdr psn (tbv_rx_drop_reorder_msg_locked msg x)
                        else if om_complete msg then tbv_rx_drain_reorder_locked E x else x)
                  else reorder_store E (send_store_failed hdr psn) psn frag_idx offset payload x))"

definition write_error_ack :: "tbv_native_data_header \<Rightarrow> u32 \<Rightarrow> rx \<Rightarrow> rx" where
  "write_error_ack hdr psn x = tbv_send_ack_on_path (d_src_qp hdr) (d_dest_qp hdr) psn TBV_NATIVE_SEND_ACK_ERROR x"

definition write_store_failed ::
  "tbv_native_data_header \<Rightarrow> u32 \<Rightarrow> errno \<Rightarrow> tbv_rx_reorder_msg \<Rightarrow> rx \<Rightarrow> rx" where
  "write_store_failed hdr psn e msg x = write_error_ack hdr psn (tbv_rx_drop_reorder_msg_locked msg x)"

definition new_reorder_write ::
  "rx_env \<Rightarrow> tbv_native_data_header \<Rightarrow> u32 \<Rightarrow> u32 \<Rightarrow> bool \<Rightarrow> u32 \<Rightarrow> tbv_rx_reorder_msg" where
  "new_reorder_write E hdr psn total_len with_imm frag_cnt =
     zeroed_reorder_msg\<lparr>om_first := re_now E, om_kind := TBV_RX_REORDER_WRITE, om_remote_addr := d_remote_addr hdr,
       om_src_qp := d_src_qp hdr, om_psn := psn, om_total_len := total_len,
       om_imm_data := (if with_imm then d_imm_data hdr else 0), om_rkey := d_rkey hdr,
       om_frag_count := ucast frag_cnt, om_with_imm := with_imm, om_solicited := is_solicited hdr\<rparr>"

definition tbv_rx_buffer_write_fragment_locked ::
  "rx_env \<Rightarrow> tbv_native_data_header \<Rightarrow> u32 \<Rightarrow> u32 \<Rightarrow> u32 \<Rightarrow> bool \<Rightarrow> bool \<Rightarrow> u8 list \<Rightarrow> rx \<Rightarrow> rx" where
  "tbv_rx_buffer_write_fragment_locked E hdr psn total_len offset is_l with_imm payload x =
     (let delta = tbv_psn_delta psn (q_rx_expected_psn (x_qp x))
      in if delta < 0 then fst (reack_duplicate (d_src_qp hdr) (d_dest_qp hdr) psn x)
         else if delta \<ge> 1024 then write_error_ack hdr psn x
         else case tbv_rx_write_fragment_shape total_len offset (d_length hdr) is_l of
           None \<Rightarrow> write_error_ack hdr psn x
         | Some (frag_idx, frag_cnt) \<Rightarrow>
             (case tbv_rx_reorder_find x psn of
                None \<Rightarrow>
                  if x_reorder_count x \<ge> TBV_RX_REORDER_MAX_MESSAGES then write_error_ack hdr psn x
                  else (case take_alloc x of
                          (x1, False) \<Rightarrow> write_error_ack hdr psn x1
                        | (x1, True) \<Rightarrow>
                            reorder_store E (write_store_failed hdr psn) psn frag_idx offset payload
                              (reorder_add E (new_reorder_write E hdr psn total_len with_imm frag_cnt) x1))
              | Some msg \<Rightarrow>
                  if om_kind msg \<noteq> TBV_RX_REORDER_WRITE \<or> om_src_qp msg \<noteq> d_src_qp hdr \<or>
                    om_remote_addr msg \<noteq> d_remote_addr hdr \<or> om_total_len msg \<noteq> total_len \<or>
                    om_with_imm msg \<noteq> with_imm \<or> om_imm_data msg \<noteq> (if with_imm then d_imm_data hdr else 0) \<or>
                    om_rkey msg \<noteq> d_rkey hdr \<or> ucast (om_frag_count msg) \<noteq> frag_cnt
                  then write_error_ack hdr psn (tbv_rx_drop_reorder_msg_locked msg x)
                  else if frag_idx \<in> om_frag_seen msg
                  then (if \<not> tbv_rx_reorder_fragment_matches_locked msg offset payload
                        then write_error_ack hdr psn (tbv_rx_drop_reorder_msg_locked msg x)
                        else if om_complete msg then tbv_rx_drain_reorder_locked E x else x)
                  else reorder_store E (write_store_failed hdr psn) psn frag_idx offset payload x))"

definition tbv_rx_buffer_read_req_locked :: "rx_env \<Rightarrow> tbv_native_data_header \<Rightarrow> u32 \<Rightarrow> rx \<Rightarrow> rx" where
  "tbv_rx_buffer_read_req_locked E hdr psn x =
     (let delta = tbv_psn_delta psn (q_rx_expected_psn (x_qp x));
          refuse = (\<lambda>e. tbv_send_read_status_on_path (d_src_qp hdr) (d_dest_qp hdr) psn (d_imm_data hdr) (Some e))
      in if delta < 0 then tbv_qp_retry_read_resp E psn x
         else if delta \<ge> 1024 then refuse EINVAL x
         else case tbv_rx_reorder_find x psn of
           None \<Rightarrow>
             if x_reorder_count x \<ge> TBV_RX_REORDER_MAX_MESSAGES then refuse EINVAL x
             else (case take_alloc x of
                     (x1, False) \<Rightarrow> refuse ENOMEM x1
                   | (x1, True) \<Rightarrow>
                       reorder_add E (zeroed_reorder_msg\<lparr>om_first := re_now E, om_kind := TBV_RX_REORDER_READ_REQ,
                         om_remote_addr := d_remote_addr hdr, om_src_qp := d_src_qp hdr, om_psn := psn,
                         om_total_len := d_imm_data hdr, om_rkey := d_rkey hdr, om_complete := True,
                         om_frag_count := 1, om_frags_received := 1\<rparr>) x1)
         | Some msg \<Rightarrow>
             if om_kind msg \<noteq> TBV_RX_REORDER_READ_REQ \<or> om_src_qp msg \<noteq> d_src_qp hdr \<or>
               om_remote_addr msg \<noteq> d_remote_addr hdr \<or> om_total_len msg \<noteq> d_imm_data hdr \<or> om_rkey msg \<noteq> d_rkey hdr
             then refuse EINVAL (tbv_rx_drop_reorder_msg_locked msg x)
             else if om_complete msg then tbv_rx_drain_reorder_locked E x else x)"

section \<open>SEND\<close>

definition send_header_ok :: "tbv_native_data_header \<Rightarrow> bool" where
  "send_header_ok hdr \<longleftrightarrow>
     (let total_len = d_imm_data hdr;
          off = ucast (d_frag_offset hdr) :: u64; len = ucast (d_length hdr) :: u64; frag_end = off + len
      in \<not> (d_remote_addr hdr \<noteq> 0 \<or> add_overflows off len \<or> frag_end > ucast total_len \<or>
            total_len > TBV_NATIVE_DATA_MAX_MSG_SIZE \<or> \<not> is_last hdr \<and> d_length hdr = 0 \<or>
            d_flags hdr AND NOT (TBV_NATIVE_DATA_F_LAST OR TBV_NATIVE_DATA_F_SOLICITED) \<noteq> 0 \<or>
            \<not> send_with_imm hdr \<and> d_rkey hdr \<noteq> 0 \<or> is_last hdr \<noteq> (frag_end = ucast total_len)))"

text \<open>The active message belongs to the same SEND as the header.\<close>

definition same_send :: "tbv_rx_message \<Rightarrow> tbv_native_data_header \<Rightarrow> u32 \<Rightarrow> bool" where
  "same_send msg hdr psn \<longleftrightarrow> am_src_qp msg = d_src_qp hdr \<and> am_psn msg = psn \<and>
     am_total_len msg = d_imm_data hdr \<and> am_with_imm msg = send_with_imm hdr \<and> am_imm_data msg = send_imm hdr"

text \<open>Taking a receive buffer for a new message; the flag is whether there was one.\<close>

definition begin_send :: "rx_env \<Rightarrow> tbv_native_data_header \<Rightarrow> u32 \<Rightarrow> rx \<Rightarrow> rx \<times> bool" where
  "begin_send E hdr psn x =
     (case rx_pop_recv x of
        (x1, None) \<Rightarrow> (refuse_rnr hdr psn x1, False)
      | (x1, Some wqe) \<Rightarrow>
          (tbv_qp_schedule_timeout E (x1\<lparr>x_msg := (x_msg x1)\<lparr>am_wqe := wqe, am_active := True,
             am_started := re_now E, am_src_qp := d_src_qp hdr, am_psn := psn, am_total_len := d_imm_data hdr,
             am_with_imm := send_with_imm hdr, am_imm_data := send_imm hdr,
             am_status := (if d_imm_data hdr > rw_length wqe then IB_WC_LOC_LEN_ERR else IB_WC_SUCCESS),
             am_solicited := is_solicited hdr\<rparr>\<rparr>), True))"

text \<open>Copying a piece of the active message.\<close>

definition copy_active :: "rx_env \<Rightarrow> u32 \<Rightarrow> u8 list \<Rightarrow> rx \<Rightarrow> rx" where
  "copy_active E offset payload x =
     (case tbv_rx_copy_to_wqe E (am_wqe (x_msg x)) offset payload (am_delivered (x_msg x)) x of
        (x1, d, ret) \<Rightarrow>
          x1\<lparr>x_msg := (x_msg x1)\<lparr>am_delivered := d,
              am_status := (if is_ok ret then am_status (x_msg x1) else IB_WC_LOC_PROT_ERR),
              am_received := am_received (x_msg x1) + of_nat (length payload)\<rparr>\<rparr>)"

definition finish_and_drain :: "rx_env \<Rightarrow> rx \<Rightarrow> rx" where
  "finish_and_drain E x = tbv_rx_drain_reorder_locked E (tbv_rx_finish_send x)"

text \<open>Fragments over several rails: they are counted by their index.\<close>

definition striped_piece :: "rx_env \<Rightarrow> u32 \<Rightarrow> u32 \<Rightarrow> u8 list \<Rightarrow> rx \<Rightarrow> rx" where
  "striped_piece E idx offset payload x =
     (let x1 = (if idx \<in> am_frag_seen (x_msg x) then x
                else (let y = copy_active E offset payload x
                      in y\<lparr>x_msg := (x_msg y)\<lparr>am_frag_seen := insert idx (am_frag_seen (x_msg y)),
                             am_frags_received := am_frags_received (x_msg y) + 1\<rparr>\<rparr>))
      in if am_frags_received (x_msg x1) = am_frag_count (x_msg x1) then finish_and_drain E x1 else x1)"

definition handle_striped_send :: "rx_env \<Rightarrow> tbv_native_data_header \<Rightarrow> u32 \<Rightarrow> u8 list \<Rightarrow> rx \<Rightarrow> rx" where
  "handle_striped_send E hdr psn payload x =
     (let total_len = d_imm_data hdr; offset = d_frag_offset hdr
      in case tbv_rx_fragment_shape total_len offset (d_length hdr) (is_last hdr) of
           None \<Rightarrow> tbv_rx_send_error_ack hdr psn x
         | Some (frag_idx, frag_cnt) \<Rightarrow>
             (let delta = tbv_psn_delta psn (q_rx_expected_psn (x_qp x))
              in if delta < 0 then fst (reack_duplicate (d_src_qp hdr) (d_dest_qp hdr) psn x)
                 else if delta > 0 \<or> \<not> am_active (x_msg x) \<and> tbv_rx_reorder_find x psn \<noteq> None
                 then tbv_rx_buffer_fragment_locked E hdr psn total_len offset (is_last hdr) payload x
                 else if am_active (x_msg x)
                 then (if \<not> same_send (x_msg x) hdr psn \<or> ucast (am_frag_count (x_msg x)) \<noteq> frag_cnt
                       then tbv_rx_send_error_ack hdr psn (tbv_rx_fail_active_send IB_WC_LOC_PROT_ERR x)
                       else striped_piece E frag_idx offset payload x)
                 else case begin_send E hdr psn x of
                   (x1, False) \<Rightarrow> x1
                 | (x1, True) \<Rightarrow>
                     striped_piece E frag_idx offset payload
                       (x1\<lparr>x_msg := (x_msg x1)\<lparr>am_frag_count := ucast frag_cnt, am_frag_seen := {}\<rparr>\<rparr>)))"

text \<open>Fragments over one rail: they are accepted in the order of their offsets.\<close>

definition ordered_piece :: "rx_env \<Rightarrow> tbv_native_data_header \<Rightarrow> u32 \<Rightarrow> u8 list \<Rightarrow> rx \<Rightarrow> rx" where
  "ordered_piece E hdr copy_offset copy_payload x =
     (let x1 = copy_active E copy_offset copy_payload x
      in if is_last hdr then finish_and_drain E x1 else x1)"

definition handle_active_send :: "rx_env \<Rightarrow> tbv_native_data_header \<Rightarrow> u32 \<Rightarrow> u8 list \<Rightarrow> rx \<Rightarrow> rx" where
  "handle_active_send E hdr psn payload x =
     (let msg = x_msg x; offset = d_frag_offset hdr;
          delta = tbv_psn_delta psn (q_rx_expected_psn (x_qp x))
      in if same_send msg hdr psn \<and> am_received msg = offset then ordered_piece E hdr offset payload x
         else if delta < 0 then fst (reack_duplicate (d_src_qp hdr) (d_dest_qp hdr) psn x)
         else if delta > 0 then tbv_rx_buffer_fragment_locked E hdr psn (d_imm_data hdr) offset (is_last hdr) payload x
         else if same_send msg hdr psn \<and> offset < am_received msg
         then (let duplicate = am_received msg - offset
               in if duplicate \<ge> d_length hdr then x
                  else ordered_piece E hdr (am_received msg) (drop (unat duplicate) payload) x)
         else if same_send msg hdr psn \<and> offset > am_received msg then x
         else tbv_rx_send_error_ack hdr psn (tbv_rx_fail_active_send IB_WC_LOC_PROT_ERR x))"

definition handle_ordered_send :: "rx_env \<Rightarrow> tbv_native_data_header \<Rightarrow> u32 \<Rightarrow> u8 list \<Rightarrow> rx \<Rightarrow> rx" where
  "handle_ordered_send E hdr psn payload x =
     (let buffer = tbv_rx_buffer_fragment_locked E hdr psn (d_imm_data hdr) (d_frag_offset hdr) (is_last hdr) payload
      in if am_active (x_msg x) then handle_active_send E hdr psn payload x
         else if tbv_rx_reorder_find x psn \<noteq> None \<or> psn \<noteq> q_rx_expected_psn (x_qp x) then buffer x
         else if d_frag_offset hdr \<noteq> 0 then buffer x
         else case begin_send E hdr psn x of
           (x1, False) \<Rightarrow> x1
         | (x1, True) \<Rightarrow> ordered_piece E hdr (d_frag_offset hdr) payload x1)"

definition tbv_rx_handle_send_fragment :: "rx_env \<Rightarrow> tbv_native_data_header \<Rightarrow> u8 list \<Rightarrow> rx \<Rightarrow> rx" where
  "tbv_rx_handle_send_fragment E hdr payload x =
     (let psn = d_psn hdr AND TBV_PSN_MASK
      in if \<not> send_header_ok hdr then tbv_rx_send_error_ack hdr psn x
         else case rnr_gate hdr psn x of
           None \<Rightarrow> x
         | Some x1 \<Rightarrow>
             if re_striping E then handle_striped_send E hdr psn payload x1
             else handle_ordered_send E hdr psn payload x1)"

end
