(* ===== verification/Verbs_Rdma.thy ===== *)
theory Verbs_Rdma
  imports Verbs_Rx
begin

text \<open>
  \<^verbatim>\<open>src/kernel/ibdev.c\<close>, the rest of the receiving half: RDMA WRITE, READ requests, the timer that gives up
  on messages that stay incomplete, the flush of a queue pair in error, and posting of receive buffers, which
  may release messages that wait for one.
\<close>

section \<open>RDMA WRITE\<close>

definition tbv_rx_consume_ordered_psn_ack_locked :: "rx_env \<Rightarrow> u32 \<Rightarrow> u32 \<Rightarrow> rx \<Rightarrow> rx \<times> bool" where
  "tbv_rx_consume_ordered_psn_ack_locked E psn ack x =
     (if psn \<noteq> q_rx_expected_psn (x_qp x) then (x, False)
      else (tbv_rx_drain_reorder_locked E (consumed psn ack x), True))"

definition tbv_rx_finish_write_locked :: "rx_env \<Rightarrow> ib_wc_status \<Rightarrow> rx \<Rightarrow> rx" where
  "tbv_rx_finish_write_locked E st x =
     (let wrx = x_write x
      in if \<not> aw_active wrx then x
         else
           (let (x1, cq_error) =
                  (if aw_with_imm wrx
                   then rx_push_wc (write_wc (x_qp x) (aw_imm_wqe wrx) st (aw_src_qp wrx) (aw_imm_data wrx)) x
                   else (x, False));
                ack = (if st = IB_WC_SUCCESS \<and> \<not> cq_error then TBV_NATIVE_SEND_ACK_OK else TBV_NATIVE_SEND_ACK_ERROR);
                (x2, ordered) = tbv_rx_consume_ordered_psn_ack_locked E (aw_psn wrx) ack
                  (x1\<lparr>x_write := zeroed_rx_write\<rparr>)
            in tbv_send_ack_on_path (aw_src_qp wrx) (q_num (x_qp x)) (aw_psn wrx)
                 (if ordered then ack else TBV_NATIVE_SEND_ACK_ERROR) x2))"

definition tbv_rx_fail_active_write_locked :: "rx_env \<Rightarrow> ib_wc_status \<Rightarrow> rx \<Rightarrow> rx" where
  "tbv_rx_fail_active_write_locked E st x =
     (if \<not> aw_active (x_write x) then x else tbv_rx_finish_write_locked E st x)"

definition write_with_imm :: "tbv_native_data_header \<Rightarrow> bool" where
  "write_with_imm hdr \<longleftrightarrow> d_opcode hdr = TBV_NATIVE_DATA_OP_RDMA_WRITE_IMM"

definition write_total_len :: "tbv_native_data_header \<Rightarrow> u32" where
  "write_total_len hdr = (if write_with_imm hdr then 0 else d_imm_data hdr)"

definition write_header_ok :: "u32 \<Rightarrow> tbv_native_data_header \<Rightarrow> bool" where
  "write_header_ok access hdr \<longleftrightarrow>
     (let total_len = write_total_len hdr;
          off = ucast (d_frag_offset hdr) :: u64; len = ucast (d_length hdr) :: u64; frag_end = off + len
      in \<not> (d_flags hdr AND NOT (TBV_NATIVE_DATA_F_LAST OR TBV_NATIVE_DATA_F_SOLICITED) \<noteq> 0 \<or>
            add_overflows off len \<or> frag_end > ucast TBV_NATIVE_DATA_MAX_MSG_SIZE \<or>
            \<not> write_with_imm hdr \<and> (total_len = 0 \<or> total_len > TBV_NATIVE_DATA_MAX_MSG_SIZE \<or>
              frag_end > ucast total_len \<or> is_last hdr \<noteq> (frag_end = ucast total_len)) \<or>
            \<not> is_last hdr \<and> d_length hdr = 0 \<or> access AND IB_ACCESS_REMOTE_WRITE = 0))"

definition same_write :: "tbv_rx_write \<Rightarrow> tbv_native_data_header \<Rightarrow> u32 \<Rightarrow> bool" where
  "same_write wrx hdr psn \<longleftrightarrow> aw_src_qp wrx = d_src_qp hdr \<and> aw_psn wrx = psn \<and>
     aw_with_imm wrx = write_with_imm hdr \<and> aw_rkey wrx = d_rkey hdr \<and> aw_imm_data wrx = d_imm_data hdr \<and>
     aw_remote_addr wrx = d_remote_addr hdr"

text \<open>Writing a piece of the active WRITE, and finishing it after the last one.\<close>

definition write_piece :: "rx_env \<Rightarrow> tbv_native_data_header \<Rightarrow> u32 \<Rightarrow> u8 list \<Rightarrow> rx \<Rightarrow> rx" where
  "write_piece E hdr copy_offset copy_payload x =
     (let wrx = x_write x;
          finish = (\<lambda>y. if is_last hdr then tbv_rx_finish_write_locked E IB_WC_SUCCESS y else y)
      in if copy_payload = [] then finish x
         else if add_overflows (aw_remote_addr wrx) (ucast copy_offset)
         then tbv_rx_fail_active_write_locked E IB_WC_LOC_PROT_ERR x
         else case write_region E (aw_rkey wrx)
             (\<lambda>mr m. tbv_umem_copy_to_iova (re_mem E) mr (aw_remote_addr wrx + ucast copy_offset) copy_payload m) x of
           (x1, Inl _) \<Rightarrow> tbv_rx_fail_active_write_locked E IB_WC_LOC_PROT_ERR x1
         | (x1, Inr _) \<Rightarrow>
             finish (x1\<lparr>x_write := (x_write x1)\<lparr>aw_received := copy_offset + of_nat (length copy_payload)\<rparr>\<rparr>))"

text \<open>A fragment that is not the next one: WRITEs without immediate data are buffered, others dropped.\<close>

definition write_aside :: "rx_env \<Rightarrow> tbv_native_data_header \<Rightarrow> u32 \<Rightarrow> u8 list \<Rightarrow> rx \<Rightarrow> rx" where
  "write_aside E hdr psn payload x =
     (if write_with_imm hdr then x
      else tbv_rx_buffer_write_fragment_locked E hdr psn (write_total_len hdr) (d_frag_offset hdr) (is_last hdr)
             False payload x)"

definition handle_active_write :: "rx_env \<Rightarrow> tbv_native_data_header \<Rightarrow> u32 \<Rightarrow> u8 list \<Rightarrow> rx \<Rightarrow> rx" where
  "handle_active_write E hdr psn payload x =
     (let wrx = x_write x; offset = d_frag_offset hdr;
          delta = tbv_psn_delta psn (q_rx_expected_psn (x_qp x))
      in if \<not> same_write wrx hdr psn
         then (if delta < 0 then fst (reack_duplicate (d_src_qp hdr) (d_dest_qp hdr) psn x)
               else if delta > 0 then write_aside E hdr psn payload x
               else tbv_rx_fail_active_write_locked E IB_WC_LOC_PROT_ERR x)
         else if offset < aw_received wrx
         then (let duplicate = aw_received wrx - offset
               in if duplicate \<ge> d_length hdr then x
                  else write_piece E hdr (aw_received wrx) (drop (unat duplicate) payload) x)
         else if offset > aw_received wrx then write_aside E hdr psn payload x
         else write_piece E hdr offset payload x)"

definition begin_write :: "rx_env \<Rightarrow> tbv_native_data_header \<Rightarrow> u32 \<Rightarrow> tbv_recv_wqe ptr \<Rightarrow> rx \<Rightarrow> rx" where
  "begin_write E hdr psn wqe x =
     tbv_qp_schedule_timeout E (x\<lparr>x_write := (x_write x)\<lparr>
       aw_imm_wqe := (case wqe of None \<Rightarrow> aw_imm_wqe (x_write x) | Some w \<Rightarrow> w),
       aw_active := True, aw_started := re_now E, aw_src_qp := d_src_qp hdr, aw_psn := psn,
       aw_remote_addr := d_remote_addr hdr, aw_rkey := d_rkey hdr, aw_imm_data := d_imm_data hdr,
       aw_with_imm := write_with_imm hdr, aw_solicited := is_solicited hdr\<rparr>\<rparr>)"

definition handle_new_write :: "rx_env \<Rightarrow> tbv_native_data_header \<Rightarrow> u32 \<Rightarrow> u8 list \<Rightarrow> rx \<Rightarrow> rx" where
  "handle_new_write E hdr psn payload x =
     (if psn \<noteq> q_rx_expected_psn (x_qp x) then write_aside E hdr psn payload x
      else if \<not> write_with_imm hdr \<and> tbv_rx_reorder_find x psn \<noteq> None then write_aside E hdr psn payload x
      else if d_frag_offset hdr \<noteq> 0
      then (if write_with_imm hdr then write_error_ack hdr (d_psn hdr) x else write_aside E hdr psn payload x)
      else if write_with_imm hdr
      then (case rx_pop_recv x of
              (x1, None) \<Rightarrow> refuse_rnr hdr psn x1
            | (x1, Some wqe) \<Rightarrow> write_piece E hdr (d_frag_offset hdr) payload (begin_write E hdr psn (Some wqe) x1))
      else write_piece E hdr (d_frag_offset hdr) payload (begin_write E hdr psn None x))"

definition tbv_rx_handle_rdma_write_fragment :: "rx_env \<Rightarrow> tbv_native_data_header \<Rightarrow> u8 list \<Rightarrow> rx \<Rightarrow> rx" where
  "tbv_rx_handle_rdma_write_fragment E hdr payload x =
     (let psn = d_psn hdr AND TBV_PSN_MASK
      in if \<not> write_header_ok (x_access_flags x) hdr then write_error_ack hdr (d_psn hdr) x
         else case rnr_gate hdr psn x of
           None \<Rightarrow> x
         | Some x1 \<Rightarrow>
             (case reack_duplicate (d_src_qp hdr) (d_dest_qp hdr) psn x1 of
                (x2, True) \<Rightarrow> x2
              | (x2, False) \<Rightarrow>
                  if aw_active (x_write x2) then handle_active_write E hdr psn payload x2
                  else handle_new_write E hdr psn payload x2))"

section \<open>READ requests\<close>

definition tbv_rx_handle_rdma_read_req :: "rx_env \<Rightarrow> tbv_native_data_header \<Rightarrow> rx \<Rightarrow> rx" where
  "tbv_rx_handle_rdma_read_req E hdr x =
     (let psn = d_psn hdr AND TBV_PSN_MASK;
          delta = tbv_psn_delta psn (q_rx_expected_psn (x_qp x))
      in if d_length hdr \<noteq> 0 \<or> \<not> is_last hdr \<or> d_flags hdr AND NOT TBV_NATIVE_DATA_F_LAST \<noteq> 0
         then tbv_send_read_status_on_path (d_src_qp hdr) (d_dest_qp hdr) (d_psn hdr) (d_imm_data hdr) (Some EINVAL) x
         else if delta \<noteq> 0 \<or> am_active (x_msg x) \<or> aw_active (x_write x) \<or> tbv_rx_reorder_find x psn \<noteq> None
         then tbv_rx_buffer_read_req_locked E hdr psn x
         else tbv_rx_queue_rdma_read_req_work hdr
                (tbv_rx_drain_reorder_locked E (on_qp (\<lambda>q. q\<lparr>q_rx_expected_psn := tbv_psn_next psn\<rparr>) x)))"

section \<open>Timeouts\<close>

text \<open>The loop that gives up on the message that everything behind it waits for.\<close>

lemma drain_reorder_length: "length (x_reorder (tbv_rx_drain_reorder_locked E x)) \<le> length (x_reorder x)"
proof (rule drain_rule [where R = "\<lambda>x x'. length (x_reorder x') \<le> length (x_reorder x)"])
  show "length (x_reorder x') \<le> length (x_reorder x)" if "deliver_reorder E msg x = (x', b)" for msg x x' b
    using deliver_reorder_list [OF that] by (auto simp: remove_psn_length)
qed (auto simp: tbv_rx_prune_stale_reorder_locked_def prune_loop_length)

definition expired_head :: "jiffies \<Rightarrow> jiffies \<Rightarrow> rx \<Rightarrow> tbv_rx_reorder_msg option" where
  "expired_head now timeout x =
     (case tbv_rx_reorder_find x (q_rx_expected_psn (x_qp x)) of
        None \<Rightarrow> None
      | Some msg \<Rightarrow> if tbv_qp_entry_expired (om_first msg) now timeout then Some msg else None)"

definition give_up :: "rx_env \<Rightarrow> tbv_rx_reorder_msg \<Rightarrow> rx \<Rightarrow> rx" where
  "give_up E msg x =
     (let x1 = consumed (om_psn msg) TBV_NATIVE_SEND_ACK_ERROR (tbv_rx_drop_reorder_msg_locked msg x);
          x2 = (if om_kind msg = TBV_RX_REORDER_READ_REQ
                then tbv_send_read_status_on_path (om_src_qp msg) (q_num (x_qp x)) (om_psn msg) (om_total_len msg)
                       (Some ETIMEDOUT) x1
                else x1)
      in tbv_rx_drain_reorder_locked E x2)"

lemma expired_head_in: "expired_head now timeout x = Some msg \<Longrightarrow> msg \<in> set (x_reorder x)"
  by (auto simp: expired_head_def tbv_rx_reorder_find_def find_Some_iff split: option.splits if_splits)

lemma give_up_shrinks: "msg \<in> set (x_reorder x) \<Longrightarrow> length (x_reorder (give_up E msg x)) < length (x_reorder x)"
  using remove_psn_shrinks
  by (auto simp: give_up_def Let_def tbv_rx_drop_reorder_msg_locked_def intro!: le_less_trans [OF drain_reorder_length])

function reap_reorder :: "rx_env \<Rightarrow> jiffies \<Rightarrow> rx \<Rightarrow> rx" where
  "reap_reorder E timeout x =
     (case expired_head (re_now E) timeout x of
        None \<Rightarrow> x
      | Some msg \<Rightarrow> reap_reorder E timeout (give_up E msg x))"
  by pat_completeness auto
termination
  by (relation "measure (\<lambda>(E, timeout, x). length (x_reorder x))") (auto dest!: expired_head_in give_up_shrinks)

declare reap_reorder.simps [simp del]

definition tbv_qp_timeout_reap_rx :: "rx_env \<Rightarrow> jiffies \<Rightarrow> rx \<Rightarrow> rx \<times> bool \<times> bool" where
  "tbv_qp_timeout_reap_rx E timeout x =
     (let send_late = (am_active (x_msg x) \<and> tbv_qp_entry_expired (am_started (x_msg x)) (re_now E) timeout);
          x1 = (if send_late then tbv_rx_fail_active_send IB_WC_GENERAL_ERR x else x);
          write_late = (aw_active (x_write x1) \<and> tbv_qp_entry_expired (aw_started (x_write x1)) (re_now E) timeout);
          x2 = (if write_late then tbv_rx_fail_active_write_locked E IB_WC_GENERAL_ERR x1 else x1);
          x3 = reap_reorder E timeout x2
      in (x3, am_active (x_msg x3) \<or> aw_active (x_write x3) \<or> x_reorder x3 \<noteq> [], send_late \<or> write_late))"

section \<open>Queue pairs in error, and posting\<close>

text \<open>
  The receive side of \<^verbatim>\<open>tbv_qp_flush_error\<close> has two parts: what it does under \<^verbatim>\<open>rx_lock\<close>, and, after the lock is
  released, the loop over the receive queue, of which \<open>flush_one\<close> is one turn. Only queue pairs of Apple rails have
  pending Apple messages.
\<close>

definition flush_error_locked :: "rx_env \<Rightarrow> rx \<Rightarrow> rx" where
  "flush_error_locked E x =
     (let x1 = tbv_rx_fail_active_send IB_WC_WR_FLUSH_ERR x;
          x2 = tbv_rx_fail_active_write_locked E IB_WC_WR_FLUSH_ERR x1
      in tbv_qp_flush_reorder x2)"

definition flush_one :: "rx \<Rightarrow> rx" where
  "flush_one x =
     (let q = x_qp x; wqe = q_recvq q ! unat (q_recv_head q)
      in fst (rx_push_wc (flush_wc q wqe) (x\<lparr>x_qp := recvq_pop q\<rparr>)))"

lemma push_recvq:
  "x_qp (fst (rx_push_wc wc x)) = (x_qp x)\<lparr>q_refs := q_refs (x_qp (fst (rx_push_wc wc x)))\<rparr>"
proof -
  have e: "\<exists>n. x_qp (tbv_qp_queue_error y) = (x_qp y)\<lparr>q_refs := n\<rparr>" for y
    by (subst queue_error_eq) (auto intro: exI)
  have "\<exists>n. x_qp (fst (rx_push_wc wc x)) = (x_qp x)\<lparr>q_refs := n\<rparr>"
  proof -
    obtain c eff where p: "tbv_cq_push wc (x_cq x) = (c, eff)" by (cases "tbv_cq_push wc (x_cq x)")
    define y where "y = (if is_ok (ce_ret eff) then x\<lparr>x_cq := c, x_wcs := x_wcs x @ [wc]\<rparr>
                         else x\<lparr>x_cq := c, x_lost := x_lost x @ [wc]\<rparr>)"
    have y: "x_qp y = x_qp x" "fst (rx_push_wc wc x) = y \<or> fst (rx_push_wc wc x) = tbv_qp_queue_error y"
      by (simp_all add: rx_push_wc_def y_def p Let_def)
    have "x_qp x = (x_qp x)\<lparr>q_refs := q_refs (x_qp x)\<rparr>" by simp
    then show ?thesis using y e [of y] by metis
  qed
  then show ?thesis by auto
qed

lemma flush_one_qp: "\<exists>n. x_qp (flush_one x) = (recvq_pop (x_qp x))\<lparr>q_refs := n\<rparr>"
  using push_recvq [of "flush_wc (x_qp x) (q_recvq (x_qp x) ! unat (q_recv_head (x_qp x)))"
      "x\<lparr>x_qp := recvq_pop (x_qp x)\<rparr>"]
  by (auto simp: flush_one_def Let_def)

lemma flush_one_count: "q_recv_count (x_qp (flush_one x)) = q_recv_count (x_qp x) - 1"
  using flush_one_qp [of x] by (auto simp: recvq_pop_def)

text \<open>The loop ends when the queue is empty; each turn pushes one completion.\<close>

function tbv_qp_flush_recv_wqes :: "rx \<Rightarrow> rx" where
  "tbv_qp_flush_recv_wqes x =
     (if q_recv_count (x_qp x) = 0 then x else tbv_qp_flush_recv_wqes (flush_one x))"
  by pat_completeness auto
termination
  by (relation "measure (\<lambda>x. unat (q_recv_count (x_qp x)))")
    (auto simp: flush_one_count unat_pred_u32 unat_gt_0)

declare tbv_qp_flush_recv_wqes.simps [simp del]

definition flush_error_rx :: "rx_env \<Rightarrow> rx \<Rightarrow> rx" where
  "flush_error_rx E x = tbv_qp_flush_recv_wqes (flush_error_locked E x)"

text \<open>
  \<open>sent_ok\<close> is whether the credit frame could be sent, \<open>apple_drain\<close> is
  \<^verbatim>\<open>tbv_apple_rx_drain_pending_locked\<close>.
\<close>

definition tbv_post_recv ::
  "rx_env \<Rightarrow> (rx \<Rightarrow> rx) \<Rightarrow> bool \<Rightarrow> ib_recv_wr list \<Rightarrow> rx \<Rightarrow> rx \<times> nat \<times> (errno \<times> ib_recv_wr ptr) option" where
  "tbv_post_recv E apple_drain sent_ok wrs x =
     (if \<not> tbv_qp_allows_post (x_qp x) then (x, 0, Some (EINVAL, case wrs of [] \<Rightarrow> None | wr # _ \<Rightarrow> Some wr))
      else
        (let (V, q, n, bad) = post_recv_loop (x_mrs x) (x_qp x) wrs;
             x1 = x\<lparr>x_mrs := V, x_qp := q\<rparr>;
             x2 = (if n > 0 then on_qp (\<lambda>q. fst (tbv_qp_advertise_recv_credits sent_ok q)) x1 else x1)
         in case bad of
              Some (e, wr) \<Rightarrow> (x2, n, Some (e, Some wr))
            | None \<Rightarrow>
                (if n > 0
                 then tbv_rx_drain_reorder_locked E (if tbv_qp_uses_apple_transport (x_qp x2) then apple_drain x2 else x2)
                 else x2, n, None)))"

end
