(* ===== verification/Verbs_Account.thy ===== *)
theory Verbs_Account
  imports Verbs_Rdma
begin

text \<open>
  What the receiving half guarantees whatever the peer sends: every receive buffer is reported exactly once, and
  the memory spent on messages that arrived early is bounded.

  \<open>ledger\<close> is the multiset of the receive buffers that were reported (their completion accepted, or refused by a full
  completion queue), are filled at the moment or are still
  queued. \<open>keeps\<close> relates two states if the invariant and the ledger carry over; it is shown
  for every function of the receive path, for the loops by their rules.
\<close>

section \<open>The ledger and the invariant\<close>

definition in_progress :: "rx \<Rightarrow> u64 multiset" where
  "in_progress x = (if am_active (x_msg x) then {#wqe_id (am_wqe (x_msg x))#} else {#}) +
     (if aw_active (x_write x) \<and> aw_with_imm (x_write x) then {#wqe_id (aw_imm_wqe (x_write x))#} else {#})"

definition reported :: "rx \<Rightarrow> u64 multiset" where
  "reported x = mset (map wc_wr_id (x_wcs x)) + mset (map wc_wr_id (x_lost x))"

definition ledger :: "rx \<Rightarrow> u64 multiset" where
  "ledger x = reported x + in_progress x + mset (map wqe_id (rq.contents (x_qp x)))"

definition msg_bytes :: "tbv_rx_reorder_msg \<Rightarrow> nat" where
  "msg_bytes msg = sum_list (map (length \<circ> rf_data) (om_frags msg))"

definition reorder_ok :: "rx \<Rightarrow> bool" where
  "reorder_ok x \<longleftrightarrow>
     distinct (map om_psn (x_reorder x)) \<and>
     unat (x_reorder_count x) = length (x_reorder x) \<and> length (x_reorder x) \<le> 1024 \<and>
     list_all (\<lambda>msg. unat (om_buffered_bytes msg) = msg_bytes msg) (x_reorder x) \<and>
     unat (x_reorder_bytes x) = sum_list (map msg_bytes (x_reorder x)) \<and>
     x_reorder_bytes x \<le> TBV_RX_REORDER_MAX_BYTES"

definition losses_ok :: "rx \<Rightarrow> bool" where
  "losses_ok x \<longleftrightarrow> x_lost x = [] \<or> cq_overflowed (x_cq x)"

definition rx_ok :: "rx \<Rightarrow> bool" where
  "rx_ok x \<longleftrightarrow> recvq_ok (x_qp x) \<and> reorder_ok x \<and> losses_ok x"

definition keeps :: "rx \<Rightarrow> rx \<Rightarrow> bool" where
  "keeps x x' \<longleftrightarrow> (rx_ok x \<longrightarrow> rx_ok x' \<and> ledger x' = ledger x)"

lemma keeps_refl [simp, intro]: "keeps x x"
  by (simp add: keeps_def)

lemma keeps_trans: "keeps x y \<Longrightarrow> keeps y z \<Longrightarrow> keeps x z"
  by (auto simp: keeps_def)

text \<open>The part of the state these depend on.\<close>

definition recvq_view :: "tbv_qp \<Rightarrow> tbv_recv_wqe list \<times> u32 \<times> u32 \<times> u32 \<times> u32 \<times> u32" where
  "recvq_view q = (q_recvq q, q_recvq_size q, q_recv_head q, q_recv_tail q, q_recv_count q, q_recv_credits_advertised q)"

definition acct where
  "acct x = (recvq_view (x_qp x), in_progress x, x_reorder x, x_reorder_count x, x_reorder_bytes x, reported x, losses_ok x)"

lemma recvq_view_same:
  "recvq_view q' = recvq_view q \<Longrightarrow> recvq_ok q' = recvq_ok q \<and> rq.contents q' = rq.contents q"
  using recvq_frame [of q' q] by (auto simp: recvq_view_def recvq_ok_def)

lemma acct_same:
  assumes "acct x' = acct x"
  shows "rx_ok x' = rx_ok x" and "ledger x' = ledger x"
  using assms recvq_view_same [of "x_qp x'" "x_qp x"] by (auto simp: acct_def rx_ok_def reorder_ok_def ledger_def)

lemma keeps_acct: "acct x' = acct x \<Longrightarrow> keeps x x'"
  unfolding keeps_def by (blast dest: acct_same)

section \<open>Steps that leave it alone\<close>

lemma reported_simps [simp]:
  "reported (x\<lparr>x_qp := q\<rparr>) = reported x" "reported (x\<lparr>x_cq := c\<rparr>) = reported x"
  "reported (x\<lparr>x_mrs := V\<rparr>) = reported x" "reported (x\<lparr>x_memory := m\<rparr>) = reported x"
  "reported (x\<lparr>x_msg := am\<rparr>) = reported x" "reported (x\<lparr>x_write := aw\<rparr>) = reported x"
  "reported (x\<lparr>x_reorder := l\<rparr>) = reported x" "reported (x\<lparr>x_reorder_count := n\<rparr>) = reported x"
  "reported (x\<lparr>x_reorder_bytes := n\<rparr>) = reported x" "reported (x\<lparr>x_read_resps := rs\<rparr>) = reported x"
  "reported (x\<lparr>x_read_work := hs\<rparr>) = reported x" "reported (x\<lparr>x_error_queued := b\<rparr>) = reported x"
  "reported (x\<lparr>x_frames := hs\<rparr>) = reported x" "reported (x\<lparr>x_allocs := bs\<rparr>) = reported x"
  "reported (x\<lparr>x_rnr_active := b\<rparr>) = reported x" "reported (x\<lparr>x_rnr_psn := n\<rparr>) = reported x"
  "reported (x\<lparr>x_rnr_src_qp := n\<rparr>) = reported x" "reported (x\<lparr>x_rnr_frag_offset := n\<rparr>) = reported x"
  "reported (x\<lparr>x_rnr_remote_addr := a\<rparr>) = reported x"
  by (simp_all add: reported_def)

lemma losses_ok_simps [simp]:
  "losses_ok (x\<lparr>x_qp := q\<rparr>) = losses_ok x" "losses_ok (x\<lparr>x_mrs := V\<rparr>) = losses_ok x"
  "losses_ok (x\<lparr>x_memory := m\<rparr>) = losses_ok x" "losses_ok (x\<lparr>x_msg := am\<rparr>) = losses_ok x"
  "losses_ok (x\<lparr>x_write := aw\<rparr>) = losses_ok x" "losses_ok (x\<lparr>x_reorder := l\<rparr>) = losses_ok x"
  "losses_ok (x\<lparr>x_reorder_count := n\<rparr>) = losses_ok x" "losses_ok (x\<lparr>x_reorder_bytes := n\<rparr>) = losses_ok x"
  "losses_ok (x\<lparr>x_read_resps := rs\<rparr>) = losses_ok x" "losses_ok (x\<lparr>x_read_work := hs\<rparr>) = losses_ok x"
  "losses_ok (x\<lparr>x_error_queued := b\<rparr>) = losses_ok x" "losses_ok (x\<lparr>x_frames := hs\<rparr>) = losses_ok x"
  "losses_ok (x\<lparr>x_allocs := bs\<rparr>) = losses_ok x" "losses_ok (x\<lparr>x_rnr_active := b\<rparr>) = losses_ok x"
  "losses_ok (x\<lparr>x_rnr_psn := n\<rparr>) = losses_ok x" "losses_ok (x\<lparr>x_rnr_src_qp := n\<rparr>) = losses_ok x"
  "losses_ok (x\<lparr>x_rnr_frag_offset := n\<rparr>) = losses_ok x" "losses_ok (x\<lparr>x_rnr_remote_addr := a\<rparr>) = losses_ok x"
  "losses_ok (x\<lparr>x_wcs := ws\<rparr>) = losses_ok x"
  by (simp_all add: losses_ok_def)

lemma recvq_view_simps [simp]:
  "recvq_view (q\<lparr>q_refs := n\<rparr>) = recvq_view q"
  "recvq_view (q\<lparr>q_rx_expected_psn := p\<rparr>) = recvq_view q"
  "recvq_view (tbv_qp_ack_history_store_locked psn ack q) = recvq_view q"
  "recvq_view (tbv_qp_schedule_timeout_locked J q) = recvq_view q"
  "recvq_view (tbv_qp_schedule_timeout_now_locked J q) = recvq_view q"
  by (simp_all add: recvq_view_def tbv_qp_ack_history_store_locked_def tbv_qp_schedule_timeout_locked_def
      tbv_qp_schedule_timeout_delay_locked_def tbv_qp_schedule_timeout_now_locked_def)

lemma in_progress_simps [simp]:
  "in_progress (x\<lparr>x_qp := q\<rparr>) = in_progress x" "in_progress (x\<lparr>x_cq := c\<rparr>) = in_progress x"
  "in_progress (x\<lparr>x_mrs := V\<rparr>) = in_progress x" "in_progress (x\<lparr>x_memory := m\<rparr>) = in_progress x"
  "in_progress (x\<lparr>x_reorder := l\<rparr>) = in_progress x" "in_progress (x\<lparr>x_reorder_count := n\<rparr>) = in_progress x"
  "in_progress (x\<lparr>x_reorder_bytes := n\<rparr>) = in_progress x" "in_progress (x\<lparr>x_read_resps := rs\<rparr>) = in_progress x"
  "in_progress (x\<lparr>x_read_work := hs\<rparr>) = in_progress x" "in_progress (x\<lparr>x_error_queued := b\<rparr>) = in_progress x"
  "in_progress (x\<lparr>x_frames := hs\<rparr>) = in_progress x" "in_progress (x\<lparr>x_wcs := ws\<rparr>) = in_progress x"
  "in_progress (x\<lparr>x_lost := ws\<rparr>) = in_progress x"
  "in_progress (x\<lparr>x_allocs := bs\<rparr>) = in_progress x" "in_progress (x\<lparr>x_rnr_active := b\<rparr>) = in_progress x"
  "in_progress (x\<lparr>x_rnr_psn := n\<rparr>) = in_progress x" "in_progress (x\<lparr>x_rnr_src_qp := n\<rparr>) = in_progress x"
  "in_progress (x\<lparr>x_rnr_frag_offset := n\<rparr>) = in_progress x" "in_progress (x\<lparr>x_rnr_remote_addr := a\<rparr>) = in_progress x"
  by (simp_all add: in_progress_def)

lemma acct_on_qp: "recvq_view (f (x_qp x)) = recvq_view (x_qp x) \<Longrightarrow> acct (on_qp f x) = acct x"
  by (simp add: acct_def on_qp_def)

lemma acct_queue_error: "acct (tbv_qp_queue_error x) = acct x"
  by (subst queue_error_eq) (simp add: acct_def)

lemma acct_simps [simp]:
  "acct (fst (take_alloc x)) = acct x"
  "acct (tbv_send_ack_on_path a b c d x) = acct x"
  "acct (tbv_send_read_status_on_path a b c e st x) = acct x"
  "acct (tbv_rx_send_error_ack hdr psn x) = acct x"
  "acct (write_error_ack hdr psn x) = acct x"
  "acct (fst (reack_duplicate a b c x)) = acct x"
  "acct (consumed psn ack x) = acct x"
  "acct (on_qp (\<lambda>q. q\<lparr>q_rx_expected_psn := p\<rparr>) x) = acct x"
  "acct (tbv_qp_schedule_timeout E x) = acct x"
  "acct (fst (tbv_rx_copy_to_wqe E wqe off payload n x)) = acct x"
  "acct (fst (write_region E k w x)) = acct x"
  "acct (tbv_rx_queue_rdma_read_req_work hdr x) = acct x"
  "acct (tbv_qp_retry_read_resp E psn x) = acct x"
  "acct (refuse_rnr hdr psn x) = acct x"
  subgoal by (simp add: take_alloc_def acct_def split: list.splits)
  subgoal by (simp add: tbv_send_ack_on_path_def acct_def)
  subgoal by (simp add: tbv_send_read_status_on_path_def acct_def)
  subgoal by (simp add: tbv_rx_send_error_ack_def tbv_send_ack_on_path_def acct_def)
  subgoal by (simp add: write_error_ack_def tbv_send_ack_on_path_def acct_def)
  subgoal by (simp add: reack_duplicate_def tbv_send_ack_on_path_def acct_def split: option.splits)
  subgoal by (simp add: consumed_def acct_on_qp)
  subgoal by (simp add: acct_on_qp)
  subgoal by (simp add: tbv_qp_schedule_timeout_def acct_on_qp)
  subgoal by (simp add: tbv_rx_copy_to_wqe_def acct_def Let_def split: prod.splits option.splits sum.splits)
  subgoal by (simp add: write_region_def acct_def Let_def split: prod.splits option.splits)
  subgoal by (auto simp: tbv_rx_queue_rdma_read_req_work_def take_alloc_def tbv_send_read_status_on_path_def acct_def
        tbv_qp_get_live_def split: prod.splits list.splits bool.splits if_splits)
  subgoal by (auto simp: tbv_qp_retry_read_resp_def on_qp_def Let_def acct_def split: option.splits)
  subgoal by (simp add: refuse_rnr_def tbv_rx_mark_rnr_locked_def tbv_send_ack_on_path_def acct_def)
  done

lemma acct_deliver_frags [simp]: "acct (fst (deliver_frags E wqe fs n x)) = acct x"
proof (induction fs arbitrary: n x)
  case (Cons f fs)
  obtain x1 d r where c: "tbv_rx_copy_to_wqe E wqe (rf_offset f) (rf_data f) n x = (x1, d, r)" by (metis prod_cases3)
  then have "acct x1 = acct x" using acct_simps(10) [of E wqe "rf_offset f" "rf_data f" n x] by simp
  then show ?case using c Cons.IH by (simp split: sum.splits)
qed simp

lemma acct_eqs:
  "take_alloc x = (x', b) \<Longrightarrow> acct x' = acct x"
  "reack_duplicate dest src psn x = (x', b) \<Longrightarrow> acct x' = acct x"
  "tbv_rx_copy_to_wqe E wqe off payload n x = (x', r) \<Longrightarrow> acct x' = acct x"
  "write_region E k w x = (x', ret) \<Longrightarrow> acct x' = acct x"
  "deliver_frags E wqe fs n x = (x', r') \<Longrightarrow> acct x' = acct x"
  by (metis acct_simps acct_deliver_frags fst_conv)+

section \<open>Buffers taken and completed\<close>

lemma cq_push_overflow:
  "tbv_cq_push wc c = (c', eff) \<Longrightarrow> cq_overflowed c' \<longleftrightarrow> cq_overflowed c \<or> \<not> is_ok (ce_ret eff)"
  by (auto simp: tbv_cq_push_def cq_put_def Let_def split: if_splits)

lemma acct_push:
  assumes "rx_push_wc wc x = (x', b)" and "rx_ok x"
  shows "acct x' = acct (x\<lparr>x_wcs := x_wcs x @ [wc]\<rparr>)"
  using assms
  by (auto simp: rx_push_wc_def Let_def acct_queue_error split: prod.splits if_splits dest!: cq_push_overflow)
    (simp_all add: acct_def reported_def losses_ok_def rx_ok_def)

lemma push_keeps:
  assumes "rx_push_wc wc x = (x', b)" and "rx_ok x"
  shows "rx_ok x' \<and> ledger x' = ledger x + {#wc_wr_id wc#}"
  using acct_same [OF acct_push [OF assms]] assms(2) by (simp add: rx_ok_def reorder_ok_def ledger_def reported_def)

lemma pop_keeps:
  assumes "rx_pop_recv x = (x', r)" and "rx_ok x"
  shows "rx_ok x' \<and> ledger x = ledger x' + (case r of None \<Rightarrow> {#} | Some w \<Rightarrow> {#wqe_id w#}) \<and>
    x' = x\<lparr>x_qp := x_qp x'\<rparr>"
proof -
  obtain q where q: "tbv_qp_pop_recv (x_qp x) = (q, r)" "x' = x\<lparr>x_qp := q\<rparr>"
    using assms(1) by (auto simp: rx_pop_recv_def Let_def split: prod.splits)
  then show ?thesis using pop_recv_ok [OF _ q(1)] assms(2)
    by (auto simp: rx_ok_def reorder_ok_def ledger_def split: option.splits)
qed

lemma recv_wc_id [simp]: "wc_wr_id (recv_wc q wqe st len src w imm) = wqe_id wqe"
  by (simp add: recv_wc_def Let_def)

lemma write_wc_id [simp]: "wc_wr_id (write_wc q wqe st src imm) = wqe_id wqe"
  by (simp add: write_wc_def Let_def)

lemma push_frame:
  assumes "rx_push_wc wc x = (x', b)"
  shows "x_msg x' = x_msg x" "x_write x' = x_write x" "x_reorder x' = x_reorder x"
proof -
  have e: "x_msg (tbv_qp_queue_error y) = x_msg y" "x_write (tbv_qp_queue_error y) = x_write y"
    "x_reorder (tbv_qp_queue_error y) = x_reorder y" for y
    by (subst queue_error_eq, simp)+
  show "x_msg x' = x_msg x" "x_write x' = x_write x" "x_reorder x' = x_reorder x"
    using assms e by (auto simp: rx_push_wc_def Let_def split: prod.splits if_splits)
qed

lemma rx_ok_msg [simp]: "rx_ok (x\<lparr>x_msg := m\<rparr>) = rx_ok x" "rx_ok (x\<lparr>x_write := w\<rparr>) = rx_ok x"
  by (simp_all add: rx_ok_def reorder_ok_def)

lemma ledger_msg_start:
  "\<not> am_active (x_msg x) \<Longrightarrow> am_active m \<Longrightarrow> ledger (x\<lparr>x_msg := m\<rparr>) = ledger x + {#wqe_id (am_wqe m)#}"
  by (simp add: ledger_def in_progress_def)

lemma ledger_msg_end:
  "am_active (x_msg x) \<Longrightarrow> \<not> am_active m \<Longrightarrow> ledger x = ledger (x\<lparr>x_msg := m\<rparr>) + {#wqe_id (am_wqe (x_msg x))#}"
  by (simp add: ledger_def in_progress_def)

lemma ledger_msg_same:
  "am_active m = am_active (x_msg x) \<Longrightarrow> am_wqe m = am_wqe (x_msg x) \<Longrightarrow> ledger (x\<lparr>x_msg := m\<rparr>) = ledger x"
  by (simp add: ledger_def in_progress_def)

lemma ledger_write_start:
  "\<not> aw_active (x_write x) \<Longrightarrow> aw_active w \<Longrightarrow>
     ledger (x\<lparr>x_write := w\<rparr>) = ledger x + (if aw_with_imm w then {#wqe_id (aw_imm_wqe w)#} else {#})"
  by (simp add: ledger_def in_progress_def)

lemma ledger_write_end:
  "aw_active (x_write x) \<Longrightarrow> \<not> aw_active w \<Longrightarrow>
     ledger x = ledger (x\<lparr>x_write := w\<rparr>) + (if aw_with_imm (x_write x) then {#wqe_id (aw_imm_wqe (x_write x))#} else {#})"
  by (simp add: ledger_def in_progress_def)

lemma ledger_write_same:
  "aw_active w = aw_active (x_write x) \<Longrightarrow> aw_with_imm w = aw_with_imm (x_write x) \<Longrightarrow>
     aw_imm_wqe w = aw_imm_wqe (x_write x) \<Longrightarrow> ledger (x\<lparr>x_write := w\<rparr>) = ledger x"
  by (simp add: ledger_def in_progress_def)

lemma zeroed_inactive [simp]: "\<not> am_active zeroed_rx_message" "\<not> aw_active zeroed_rx_write"
  by (simp_all add: zeroed_rx_message_def zeroed_rx_write_def)

lemma finish_send_keeps:
  assumes "am_active (x_msg x)"
  shows "keeps x (tbv_rx_finish_send x)"
proof -
  let ?wc = "recv_wc (x_qp x) (am_wqe (x_msg x)) (am_status (x_msg x)) (am_delivered (x_msg x)) (am_src_qp (x_msg x))
     (am_with_imm (x_msg x)) (am_imm_data (x_msg x))"
  obtain x1 b where p: "rx_push_wc ?wc x = (x1, b)" by (cases "rx_push_wc ?wc x")
  have a: "acct (tbv_rx_finish_send x) = acct (x1\<lparr>x_msg := zeroed_rx_message\<rparr>)"
    using p by (simp add: tbv_rx_finish_send_def Let_def)
  have "rx_ok (tbv_rx_finish_send x) = rx_ok x1" "ledger (tbv_rx_finish_send x) = ledger (x1\<lparr>x_msg := zeroed_rx_message\<rparr>)"
    using acct_same [OF a] by simp_all
  moreover have "ledger x1 = ledger (x1\<lparr>x_msg := zeroed_rx_message\<rparr>) + {#wqe_id (am_wqe (x_msg x))#}"
    using ledger_msg_end [of x1 zeroed_rx_message] push_frame [OF p] assms by simp
  ultimately show ?thesis using push_keeps [OF p] by (auto simp: keeps_def)
qed

lemma fail_active_send_keeps: "keeps x (tbv_rx_fail_active_send st x)"
proof (cases "am_active (x_msg x)")
  case True
  let ?y = "x\<lparr>x_msg := (x_msg x)\<lparr>am_status := st\<rparr>\<rparr>"
  have "keeps x ?y" by (simp add: keeps_def ledger_msg_same)
  moreover have "keeps ?y (tbv_rx_finish_send ?y)" using True by (intro finish_send_keeps) simp
  ultimately show ?thesis using True by (auto simp: tbv_rx_fail_active_send_def intro: keeps_trans)
qed (simp add: tbv_rx_fail_active_send_def)

section \<open>The reorder list\<close>

lemma remove_psn_eq:
  assumes "distinct (map om_psn msgs)" and "msg \<in> set msgs"
  shows "remove_psn (om_psn msg) msgs = remove1 msg msgs"
  using assms by (induction msgs) (auto simp: image_iff)

lemma remove_psn_distinct:
  "distinct (map om_psn msgs) \<Longrightarrow> distinct (map om_psn (remove_psn p msgs)) \<and> set (remove_psn p msgs) = {m \<in> set msgs. om_psn m \<noteq> p}"
  by (induction msgs) (auto simp: image_iff)

lemma ledger_reorder [simp]:
  "ledger (x\<lparr>x_reorder := l\<rparr>) = ledger x" "ledger (x\<lparr>x_reorder_count := n\<rparr>) = ledger x" "ledger (x\<lparr>x_reorder_bytes := n\<rparr>) = ledger x"
  by (simp_all add: ledger_def)

lemma unlink_keeps:
  assumes "msg \<in> set (x_reorder x)"
  shows "keeps x (tbv_rx_reorder_unlink_msg_locked msg x)"
proof -
  have "reorder_ok (tbv_rx_reorder_unlink_msg_locked msg x)" if r: "reorder_ok x"
  proof -
    have d: "distinct (map om_psn (x_reorder x))" and c: "unat (x_reorder_count x) = length (x_reorder x)"
      and b: "unat (om_buffered_bytes msg) = msg_bytes msg" "unat (x_reorder_bytes x) = sum_list (map msg_bytes (x_reorder x))"
      using r assms by (auto simp: reorder_ok_def list_all_iff)
    have rm: "remove_psn (om_psn msg) (x_reorder x) = remove1 msg (x_reorder x)" by (rule remove_psn_eq [OF d assms])
    have s: "sum_list (map msg_bytes (x_reorder x)) = msg_bytes msg + sum_list (map msg_bytes (remove1 msg (x_reorder x)))"
      by (rule sum_list_map_remove1 [OF assms])
    then have le: "om_buffered_bytes msg \<le> x_reorder_bytes x" using b by (simp add: word_le_nat_alt)
    have "0 < length (x_reorder x)" by (rule length_pos_if_in_set [OF assms])
    then have "x_reorder_count x \<noteq> 0" using c by (metis unat_0 less_numeral_extra(3))
    then have "unat (x_reorder_count x - 1) = length (remove1 msg (x_reorder x))"
      using c assms by (simp add: unat_pred_u32 length_remove1)
    moreover have "unat (x_reorder_bytes x - om_buffered_bytes msg) = sum_list (map msg_bytes (remove1 msg (x_reorder x)))"
      using le b s by (simp add: unat_sub)
    moreover have "x_reorder_bytes x - om_buffered_bytes msg \<le> x_reorder_bytes x" using le by (simp add: word_sub_le)
    ultimately show ?thesis
      using r le rm remove_psn_distinct [OF d, of "om_psn msg"] unfolding reorder_ok_def tbv_rx_reorder_unlink_msg_locked_def
      by (auto simp: list_all_iff length_remove1 split: if_splits dest: notin_set_remove1)
  qed
  moreover have "ledger (tbv_rx_reorder_unlink_msg_locked msg x) = ledger x"
    by (simp add: tbv_rx_reorder_unlink_msg_locked_def)
  ultimately show ?thesis by (simp add: keeps_def rx_ok_def tbv_rx_reorder_unlink_msg_locked_def)
qed

lemma reorder_acct: "acct x' = acct x \<Longrightarrow> x_reorder x' = x_reorder x"
  by (simp add: acct_def)

text \<open>A buffer that was taken, then completed after steps that leave the ledger alone.\<close>

lemma complete_taken:
  assumes "keeps x1 x2" and "rx_push_wc wc x2 = (x3, b)" and "acct x4 = acct x3"
    and "rx_ok x" and "rx_ok x1" and "ledger x = ledger x1 + {#wc_wr_id wc#}"
  shows "rx_ok x4 \<and> ledger x4 = ledger x"
  using push_keeps [OF assms(2)] acct_same [OF assms(3)] assms(1,4-6) by (auto simp: keeps_def)

lemma deliver_msg_keeps:
  assumes "msg \<in> set (x_reorder x)" and "tbv_rx_deliver_reorder_msg_locked E msg x = (x', b)"
  shows "keeps x x'"
proof -
  obtain x1 r where p: "rx_pop_recv x = (x1, r)" by (cases "rx_pop_recv x")
  show ?thesis
  proof (cases r)
    case None
    then have "acct x' = acct x1" using assms(2) p by (auto simp: tbv_rx_deliver_reorder_msg_locked_def)
    then show ?thesis using pop_keeps [OF p] None acct_same [of x' x1] by (auto simp: keeps_def)
  next
    case (Some wqe)
    obtain x3 delivered copied where f: "deliver_frags E wqe (om_frags msg) 0 (tbv_rx_reorder_unlink_msg_locked msg x1) = (x3, delivered, copied)"
      by (metis prod_cases3)
    obtain wc x4 c where w: "rx_push_wc wc x3 = (x4, c)" "wc_wr_id wc = wqe_id wqe" "acct x' = acct x4"
      using assms(2) p Some f by (auto simp: tbv_rx_deliver_reorder_msg_locked_def Let_def split: prod.splits)
    have "keeps x1 x3" if "rx_ok x"
    proof (rule keeps_trans)
      have "msg \<in> set (x_reorder x1)" using pop_recv_reorder [OF p] assms(1) by simp
      then show "keeps x1 (tbv_rx_reorder_unlink_msg_locked msg x1)" by (rule unlink_keeps)
      show "keeps (tbv_rx_reorder_unlink_msg_locked msg x1) x3" by (rule keeps_acct [OF acct_eqs(5) [OF f]])
    qed
    then show ?thesis using complete_taken [OF _ w(1,3)] pop_keeps [OF p] Some w(2) by (simp add: keeps_def)
  qed
qed

lemma deliver_write_keeps:
  assumes "msg \<in> set (x_reorder x)" and "deliver_write E msg wqe x = (x', b)" and "rx_ok x"
  shows "rx_ok x' \<and> ledger x' = ledger x + (case wqe of None \<Rightarrow> {#} | Some w \<Rightarrow> {#wqe_id w#})"
proof -
  let ?w = "\<lambda>mr m. write_frags (re_mem E) mr (om_remote_addr msg) (om_frags msg) m"
  obtain x2 ret where r: "write_region E (om_rkey msg) ?w (tbv_rx_reorder_unlink_msg_locked msg x) = (x2, ret)"
    by (cases "write_region E (om_rkey msg) ?w (tbv_rx_reorder_unlink_msg_locked msg x)")
  have k: "rx_ok x2 \<and> ledger x2 = ledger x"
    using unlink_keeps [OF assms(1)] assms(3) acct_same [OF acct_eqs(4) [OF r]] by (simp add: keeps_def)
  show ?thesis
  proof (cases wqe)
    case None
    then have "acct x' = acct x2" using assms(2) r by (auto simp: deliver_write_def Let_def)
    then show ?thesis using acct_same [of x' x2] k None by simp
  next
    case (Some w)
    let ?wc = "write_wc (x_qp x) w (if is_ok ret then IB_WC_SUCCESS else IB_WC_LOC_PROT_ERR) (om_src_qp msg) (om_imm_data msg)"
    obtain x3 c where p: "rx_push_wc ?wc x2 = (x3, c)" by (cases "rx_push_wc ?wc x2")
    then have "acct x' = acct x3" using assms(2) Some r by (auto simp: deliver_write_def Let_def)
    then show ?thesis using push_keeps [OF p] acct_same [of x' x3] k Some by simp
  qed
qed

lemma deliver_keeps:
  assumes "msg \<in> set (x_reorder x)" and "deliver_reorder E msg x = (x', b)"
  shows "keeps x x'"
proof (cases "om_kind msg")
  case TBV_RX_REORDER_SEND
  then show ?thesis using assms deliver_msg_keeps by (simp add: deliver_reorder_def)
next
  case TBV_RX_REORDER_READ_REQ
  then have "acct x' = acct (tbv_rx_reorder_unlink_msg_locked msg x)"
    using assms(2) by (auto simp: deliver_reorder_def tbv_rx_deliver_reorder_read_req_locked_def Let_def)
  then show ?thesis using keeps_trans [OF unlink_keeps [OF assms(1)] keeps_acct] by simp
next
  case TBV_RX_REORDER_WRITE
  then have d: "tbv_rx_deliver_reorder_write_locked E msg x = (x', b)" using assms(2) by (simp add: deliver_reorder_def)
  show ?thesis
  proof (cases "om_with_imm msg")
    case False
    then show ?thesis using d deliver_write_keeps [OF assms(1), of E None x' b]
      by (simp add: tbv_rx_deliver_reorder_write_locked_def keeps_def)
  next
    case True
    obtain x1 r where p: "rx_pop_recv x = (x1, r)" by (cases "rx_pop_recv x")
    have "msg \<in> set (x_reorder x1)" using pop_recv_reorder [OF p] assms(1) by simp
    note dw = deliver_write_keeps [OF this]
    show ?thesis
    proof (cases r)
      case None
      then have "acct x' = acct x1" using d p True by (auto simp: tbv_rx_deliver_reorder_write_locked_def)
      then show ?thesis using pop_keeps [OF p] None acct_same [of x' x1] by (auto simp: keeps_def)
    next
      case (Some wqe)
      then show ?thesis using dw [of E "Some wqe" x' b] d p True pop_keeps [OF p]
        by (simp add: tbv_rx_deliver_reorder_write_locked_def keeps_def)
    qed
  qed
qed

lemma prune_loop_keeps:
  "distinct (map om_psn msgs) \<Longrightarrow> set msgs \<subseteq> set (x_reorder x) \<Longrightarrow> rx_ok x \<Longrightarrow>
     rx_ok (prune_loop E msgs x) \<and> ledger (prune_loop E msgs x) = ledger x"
proof (induction msgs arbitrary: x)
  case (Cons msg msgs)
  let ?x1 = "if om_kind msg = TBV_RX_REORDER_READ_REQ then tbv_qp_retry_read_resp E (om_psn msg) x
             else fst (reack_duplicate (om_src_qp msg) (q_num (x_qp x)) (om_psn msg) x)"
  have a: "acct ?x1 = acct x" by simp
  have i: "rx_ok ?x1" "ledger ?x1 = ledger x" "x_reorder ?x1 = x_reorder x"
    using acct_same [OF a] Cons.prems(3) reorder_acct [OF a] by simp_all
  have k: "rx_ok (tbv_rx_reorder_unlink_msg_locked msg ?x1) \<and> ledger (tbv_rx_reorder_unlink_msg_locked msg ?x1) = ledger x"
    using unlink_keeps [of msg ?x1] i Cons.prems(2) by (simp add: keeps_def)
  have "set msgs \<subseteq> set (x_reorder (tbv_rx_reorder_unlink_msg_locked msg ?x1))"
  proof -
    have "distinct (map om_psn (x_reorder x))" using Cons.prems(3) by (simp add: rx_ok_def reorder_ok_def)
    then have "set (remove_psn (om_psn msg) (x_reorder x)) = {m \<in> set (x_reorder x). om_psn m \<noteq> om_psn msg}"
      using remove_psn_distinct by blast
    then show ?thesis using i(3) Cons.prems(1,2) by (auto simp: image_iff)
  qed
  then show ?case using Cons.IH [of x] Cons.IH [OF _ _ conjunct1 [OF k]] k Cons.prems by (auto simp: Let_def)
qed simp

lemma prune_keeps: "keeps x (tbv_rx_prune_stale_reorder_locked E x)"
  using prune_loop_keeps [of "x_reorder x" x E]
  by (simp add: keeps_def tbv_rx_prune_stale_reorder_locked_def rx_ok_def reorder_ok_def)

lemma drain_keeps: "keeps x (tbv_rx_drain_reorder_locked E x)"
proof (rule drain_rule)
  fix msg x x' b
  assume "tbv_rx_reorder_find x (q_rx_expected_psn (x_qp x)) = Some msg" and d: "deliver_reorder E msg x = (x', b)"
  then have "msg \<in> set (x_reorder x)" by (auto simp: tbv_rx_reorder_find_def find_Some_iff)
  then show "keeps x x'" using d by (rule deliver_keeps)
qed (auto intro: keeps_trans prune_keeps)

section \<open>Fragments ahead of their turn\<close>

lemma sum_changed:
  assumes "distinct (map om_psn msgs)" and "p \<in> om_psn ` set msgs" and "\<And>m. om_psn m = p \<Longrightarrow> g (f m) = g m + (n :: nat)"
  shows "sum_list (map (g \<circ> (\<lambda>m. if om_psn m = p then f m else m)) msgs) = sum_list (map g msgs) + n"
  using assms
proof (induction msgs)
  case (Cons m msgs)
  show ?case
  proof (cases "om_psn m = p")
    case True
    then have "p \<notin> om_psn ` set msgs" using Cons.prems(1) by auto
    then have "map (g \<circ> (\<lambda>m. if om_psn m = p then f m else m)) msgs = map g msgs" by (auto simp: image_iff)
    then have "sum_list (map (g \<circ> (\<lambda>m. if om_psn m = p then f m else m)) msgs) = sum_list (map g msgs)" by (simp only:)
    then show ?thesis using True Cons.prems(3) [of m] unfolding comp_def by simp
  next
    case False
    then show ?thesis using Cons by auto
  qed
qed simp

lemma on_reorder_keeps:
  assumes "\<And>m. om_psn (f m) = om_psn m" "\<And>m. om_frags (f m) = om_frags m" "\<And>m. om_buffered_bytes (f m) = om_buffered_bytes m"
  shows "keeps x (on_reorder p f x)"
proof -
  let ?g = "\<lambda>m. if om_psn m = p then f m else m"
  have b: "msg_bytes (?g m) = msg_bytes m" "om_psn (?g m) = om_psn m" "om_buffered_bytes (?g m) = om_buffered_bytes m" for m
    using assms by (simp_all add: msg_bytes_def)
  show ?thesis
    by (simp add: keeps_def rx_ok_def reorder_ok_def on_reorder_def list.pred_map comp_def b)
qed

lemma store_keeps:
  assumes "length payload < 2 ^ 32" and "p \<in> om_psn ` set (x_reorder x)"
    and "tbv_rx_reorder_store_fragment_locked p off payload x = (x', ret)"
  shows "keeps x x' \<and> om_psn ` set (x_reorder x') = om_psn ` set (x_reorder x)"
proof -
  let ?len = "of_nat (length payload) :: u32"
  obtain x1 b where a: "take_alloc x = (x1, b)" by (cases "take_alloc x")
  note x1 = acct_same [OF acct_eqs(1) [OF a]] reorder_acct [OF acct_eqs(1) [OF a]]
  have by1: "x_reorder_bytes x1 = x_reorder_bytes x" using acct_eqs(1) [OF a] by (simp add: acct_def)
  show ?thesis
  proof (cases "?len = 0 \<or> (add_overflows (x_reorder_bytes x) ?len \<or> x_reorder_bytes x + ?len > TBV_RX_REORDER_MAX_BYTES) \<or> \<not> b")
    case True
    then have "x' = x \<or> x' = x1" using assms(3) a
      by (auto simp: tbv_rx_reorder_store_fragment_locked_def Let_def split: if_splits)
    then show ?thesis using x1 by (auto simp: keeps_def)
  next
    case False
    define f :: "tbv_rx_reorder_msg \<Rightarrow> tbv_rx_reorder_msg" where "f = (\<lambda>msg. msg\<lparr>om_frags := om_frags msg @ [\<lparr>rf_offset = off, rf_data = payload\<rparr>],
      om_buffered_bytes := om_buffered_bytes msg + ?len\<rparr>)"
    have x': "x' = on_reorder p f (x1\<lparr>x_reorder_bytes := x_reorder_bytes x1 + ?len\<rparr>)"
      using False assms(3) a by (simp add: tbv_rx_reorder_store_fragment_locked_def f_def Let_def split: bool.splits)
    have f: "om_psn (f m) = om_psn m" "msg_bytes (f m) = msg_bytes m + length payload" for m
      by (simp_all add: f_def msg_bytes_def)
    have len: "unat ?len = length payload" using assms(1) by (simp add: unat_of_nat take_bit_nat_eq_self)
    have new: "unat (x_reorder_bytes x + ?len) = unat (x_reorder_bytes x) + length payload"
      using False len unat_plus_simple [of "x_reorder_bytes x" ?len] by (simp add: add_overflows_def not_less)
    have "reorder_ok x'" if r: "reorder_ok x"
    proof -
      have d: "distinct (map om_psn (x_reorder x))" using r by (simp add: reorder_ok_def)
      have lim: "unat (x_reorder_bytes x) + length payload \<le> 67108864" using False new by (simp add: word_le_nat_alt not_less)
      have "unat (om_buffered_bytes m + ?len) = msg_bytes m + length payload" if m: "m \<in> set (x_reorder x)" for m
      proof -
        have "unat (om_buffered_bytes m) = msg_bytes m" using r m by (simp add: reorder_ok_def list_all_iff)
        moreover have "msg_bytes m \<le> unat (x_reorder_bytes x)"
          using r m member_le_sum_list [of "msg_bytes m" "map msg_bytes (x_reorder x)"] by (simp add: reorder_ok_def)
        ultimately show ?thesis using lim len by (simp add: unat_word_ariths)
      qed
      then have ok: "list_all (\<lambda>m. unat (om_buffered_bytes m) = msg_bytes m) (x_reorder x')"
        using r f(2) by (auto simp: x' on_reorder_def x1(3) reorder_ok_def list_all_iff f_def msg_bytes_def)
      have "sum_list (map msg_bytes (x_reorder x')) = sum_list (map msg_bytes (x_reorder x)) + length payload"
        using sum_changed [OF d assms(2), of msg_bytes f] f(2) by (simp add: x' on_reorder_def x1(3))
      moreover have "om_psn (if om_psn m = p then f m else m) = om_psn m" for m by (simp add: f(1))
      ultimately show ?thesis
        using r ok new lim x1(3) by1 acct_eqs(1) [OF a]
        by (simp add: reorder_ok_def x' on_reorder_def comp_def acct_def word_le_nat_alt)
    qed
    moreover have "recvq_ok (x_qp x') = recvq_ok (x_qp x)" "ledger x' = ledger x" "losses_ok x' = losses_ok x"
      using x1(2) recvq_view_same [of "x_qp x1" "x_qp x"] acct_eqs(1) [OF a] by (simp_all add: x' on_reorder_def acct_def)
    moreover have "om_psn ` set (x_reorder x') = om_psn ` set (x_reorder x)"
    proof -
      have "om_psn (if om_psn m = p then f m else m) = om_psn m" for m by (simp add: f(1))
      then have "map om_psn (x_reorder x') = map om_psn (x_reorder x)" by (simp add: x' on_reorder_def x1(3) comp_def)
      then show ?thesis by (metis set_map)
    qed
    ultimately show ?thesis by (simp add: keeps_def rx_ok_def)
  qed
qed

lemma find_in: "p \<in> om_psn ` set (x_reorder x) \<Longrightarrow>
    \<exists>msg. tbv_rx_reorder_find x p = Some msg \<and> msg \<in> set (x_reorder x)"
  by (cases "tbv_rx_reorder_find x p") (auto simp: tbv_rx_reorder_find_def find_None_iff find_Some_iff image_iff)

lemma reorder_store_keeps:
  assumes "length payload < 2 ^ 32" and "p \<in> om_psn ` set (x_reorder x)"
    and refuse: "\<And>e msg y. msg \<in> set (x_reorder y) \<Longrightarrow> keeps y (refuse e msg y)"
  shows "keeps x (reorder_store E refuse p idx off payload x)"
proof -
  obtain x1 ret where s: "tbv_rx_reorder_store_fragment_locked p off payload x = (x1, ret)"
    by (cases "tbv_rx_reorder_store_fragment_locked p off payload x")
  note k = store_keeps [OF assms(1,2) s]
  then obtain msg where msg: "tbv_rx_reorder_find x1 p = Some msg" "msg \<in> set (x_reorder x1)" using find_in assms(2) by metis
  let ?x2 = "on_reorder p (note_fragment idx (of_nat (length payload))) x1"
  have "keeps x1 ?x2" by (rule on_reorder_keeps) (simp_all add: note_fragment_def Let_def)
  then have x2: "keeps x ?x2" using k keeps_trans by blast
  show ?thesis
  proof (cases ret)
    case (Inl e)
    then show ?thesis using s msg k keeps_trans [OF _ refuse [OF msg(2)]] by (simp add: reorder_store_def)
  next
    case (Inr u)
    then show ?thesis using s x2 keeps_trans [OF x2 drain_keeps] by (simp add: reorder_store_def Let_def)
  qed
qed

lemma reorder_add_keeps:
  assumes "tbv_rx_reorder_find x (om_psn msg) = None" and "x_reorder_count x < TBV_RX_REORDER_MAX_MESSAGES"
    and "om_frags msg = []" and "om_buffered_bytes msg = 0"
  shows "keeps x (reorder_add E msg x)" and "om_psn msg \<in> om_psn ` set (x_reorder (reorder_add E msg x))"
proof -
  let ?y = "x\<lparr>x_reorder := x_reorder x @ [msg], x_reorder_count := x_reorder_count x + 1\<rparr>"
  have a: "acct (reorder_add E msg x) = acct ?y" by (simp add: reorder_add_def)
  have "om_psn msg \<notin> om_psn ` set (x_reorder x)" using find_in [of "om_psn msg" x] assms(1) by auto
  moreover have "unat (x_reorder_count x + 1) = unat (x_reorder_count x) + 1" using unat_Suc_u32 [OF assms(2)] by simp
  moreover have "unat (x_reorder_count x) < 1024" using assms(2) by (simp add: word_less_nat_alt)
  ultimately have "reorder_ok x \<longrightarrow> reorder_ok ?y" using assms(3,4) by (auto simp: reorder_ok_def msg_bytes_def)
  then have "keeps x ?y" by (simp add: keeps_def rx_ok_def)
  then show "keeps x (reorder_add E msg x)" using keeps_trans [OF _ keeps_acct [OF a]] by simp
  show "om_psn msg \<in> om_psn ` set (x_reorder (reorder_add E msg x))" using reorder_acct [OF a] by simp
qed

lemma send_store_failed_keeps:
  assumes "msg \<in> set (x_reorder y)"
  shows "keeps y (send_store_failed hdr psn e msg y)"
proof -
  let ?y = "if e = ENOSPC then y else tbv_rx_send_error_ack hdr psn y"
  have a: "acct ?y = acct y" by simp
  have "keeps ?y (tbv_rx_reorder_unlink_msg_locked msg ?y)" using reorder_acct [OF a] assms by (intro unlink_keeps) simp
  then show ?thesis
    unfolding send_store_failed_def tbv_rx_drop_reorder_msg_locked_def by (rule keeps_trans [OF keeps_acct [OF a]])
qed

lemma write_store_failed_keeps: "msg \<in> set (x_reorder y) \<Longrightarrow> keeps y (write_store_failed hdr psn e msg y)"
  unfolding write_store_failed_def tbv_rx_drop_reorder_msg_locked_def
  by (rule keeps_trans [OF unlink_keeps keeps_acct]) simp_all

lemma find_memb: "tbv_rx_reorder_find x p = Some msg \<Longrightarrow> msg \<in> set (x_reorder x) \<and> om_psn msg = p"
  by (auto simp: tbv_rx_reorder_find_def find_Some_iff)

text \<open>The common shape of the three functions that buffer: a new message, or one of the list.\<close>

lemma buffer_new_keeps:
  assumes "tbv_rx_reorder_find x p = None" and "take_alloc x = (x1, b)" and "\<not> 1024 \<le> x_reorder_count x"
    and "om_psn msg = p" "om_frags msg = []" "om_buffered_bytes msg = 0"
  shows "keeps x (reorder_add E msg x1)" and "p \<in> om_psn ` set (x_reorder (reorder_add E msg x1))"
proof -
  note a = acct_eqs(1) [OF assms(2)]
  have "tbv_rx_reorder_find x1 (om_psn msg) = None" "x_reorder_count x1 < 1024"
    using assms(1,3,4) a by (simp_all add: tbv_rx_reorder_find_def acct_def not_le)
  note add = reorder_add_keeps [OF this assms(5,6), of E]
  show "keeps x (reorder_add E msg x1)" using keeps_trans [OF keeps_acct [OF a] add(1)] .
  show "p \<in> om_psn ` set (x_reorder (reorder_add E msg x1))" using add(2) assms(4) by simp
qed

lemma drop_answer_keeps:
  "tbv_rx_reorder_find x p = Some msg \<Longrightarrow> acct y = acct (tbv_rx_drop_reorder_msg_locked msg x) \<Longrightarrow> keeps x y"
  using keeps_trans [OF unlink_keeps keeps_acct] find_memb by (metis tbv_rx_drop_reorder_msg_locked_def)

lemma new_reorder_simps [simp]:
  "om_psn (new_reorder_send E hdr psn n c) = psn" "om_frags (new_reorder_send E hdr psn n c) = []"
  "om_buffered_bytes (new_reorder_send E hdr psn n c) = 0"
  "om_psn (new_reorder_write E hdr psn n w c) = psn" "om_frags (new_reorder_write E hdr psn n w c) = []"
  "om_buffered_bytes (new_reorder_write E hdr psn n w c) = 0"
  by (simp_all add: new_reorder_send_def new_reorder_write_def zeroed_reorder_msg_def)

lemma buffer_fragment_keeps:
  assumes "length payload < 2 ^ 32"
  shows "keeps x (tbv_rx_buffer_fragment_locked E hdr psn n off l payload x)"
proof -
  have new: "keeps x (reorder_store E (send_store_failed hdr psn) psn idx off payload (reorder_add E (new_reorder_send E hdr psn n c) x1))"
    if "tbv_rx_reorder_find x psn = None" "take_alloc x = (x1, b)" "\<not> 1024 \<le> x_reorder_count x" for idx c x1 b
    using buffer_new_keeps [OF that, of "new_reorder_send E hdr psn n c" E]
    by (auto intro: keeps_trans reorder_store_keeps assms send_store_failed_keeps)
  have old: "keeps x (reorder_store E (send_store_failed hdr psn) psn idx off payload x)"
    if "tbv_rx_reorder_find x psn = Some msg" for idx msg
    using find_memb [OF that] by (intro reorder_store_keeps assms send_store_failed_keeps) auto
  show ?thesis
    unfolding tbv_rx_buffer_fragment_locked_def Let_def
    by (auto split: option.splits prod.splits bool.splits intro!: drain_keeps intro: keeps_acct drop_answer_keeps new old
        simp: acct_eqs(1))
qed

end
