(* ===== verification/Verbs_Once.thy ===== *)
theory Verbs_Once
  imports Verbs_Account Verbs_Order
begin

text \<open>
  The handlers of received frames, the timer, the flush and posting keep the ledger of \<open>Verbs_Account\<close>; over every
  sequence of them each receive buffer is reported once and buffered memory stays within its limit.
\<close>

section \<open>The handlers keep the ledger\<close>

lemma keeps_splits:
  "(c \<Longrightarrow> keeps x a) \<Longrightarrow> (\<not> c \<Longrightarrow> keeps x b) \<Longrightarrow> keeps x (if c then a else b)"
  "(v = None \<Longrightarrow> keeps x a) \<Longrightarrow> (\<And>w. v = Some w \<Longrightarrow> keeps x (f w)) \<Longrightarrow> keeps x (case v of None \<Rightarrow> a | Some w \<Rightarrow> f w)"
  "(\<And>y z. p = (y, z) \<Longrightarrow> keeps x (g y z)) \<Longrightarrow> keeps x (case p of (y, z) \<Rightarrow> g y z)"
  "(d \<Longrightarrow> keeps x a) \<Longrightarrow> (\<not> d \<Longrightarrow> keeps x b) \<Longrightarrow> keeps x (case d of True \<Rightarrow> a | False \<Rightarrow> b)"
  by (auto split: option.splits prod.splits bool.splits)

lemma buffer_write_keeps:
  assumes "length payload < 2 ^ 32"
  shows "keeps x (tbv_rx_buffer_write_fragment_locked E hdr psn n off l w payload x)"
proof -
  have new: "keeps x (reorder_store E (write_store_failed hdr psn) psn idx off payload (reorder_add E (new_reorder_write E hdr psn n w c) x1))"
    if "tbv_rx_reorder_find x psn = None" "take_alloc x = (x1, b)" "\<not> 1024 \<le> x_reorder_count x" for idx c x1 b
    using buffer_new_keeps [OF that, of "new_reorder_write E hdr psn n w c" E]
    by (auto intro: keeps_trans reorder_store_keeps assms write_store_failed_keeps)
  have old: "keeps x (reorder_store E (write_store_failed hdr psn) psn idx off payload x)"
    if "tbv_rx_reorder_find x psn = Some msg" for idx msg
    using find_memb [OF that] by (intro reorder_store_keeps assms write_store_failed_keeps) auto
  show ?thesis
    unfolding tbv_rx_buffer_write_fragment_locked_def Let_def
    by (intro keeps_splits)
      (assumption | rule drain_keeps keeps_refl new old | erule drop_answer_keeps | (rule keeps_acct, simp; fail)
        | simp add: keeps_acct acct_eqs(1))+
qed

lemma buffer_read_req_keeps: "keeps x (tbv_rx_buffer_read_req_locked E hdr psn x)"
  unfolding tbv_rx_buffer_read_req_locked_def Let_def
  by (auto split: option.splits prod.splits bool.splits intro!: drain_keeps
      intro: keeps_acct drop_answer_keeps buffer_new_keeps(1) simp: acct_eqs(1) zeroed_reorder_msg_def)

lemma copy_frame:
  assumes "tbv_rx_copy_to_wqe E wqe off payload n x = (x', r)"
  shows "x_msg x' = x_msg x" "x_write x' = x_write x"
  using assms by (auto simp: tbv_rx_copy_to_wqe_def Let_def split: prod.splits option.splits sum.splits if_splits)

lemma copy_active_keeps:
  shows "keeps x (copy_active E off payload x)" and "am_active (x_msg (copy_active E off payload x)) = am_active (x_msg x)"
proof -
  obtain x1 d r where c: "tbv_rx_copy_to_wqe E (am_wqe (x_msg x)) off payload (am_delivered (x_msg x)) x = (x1, d, r)"
    by (metis prod_cases3)
  show "keeps x (copy_active E off payload x)"
    using acct_same [OF acct_eqs(3) [OF c]] by (simp add: keeps_def copy_active_def c ledger_msg_same)
  show "am_active (x_msg (copy_active E off payload x)) = am_active (x_msg x)"
    using copy_frame [OF c] by (simp add: copy_active_def c)
qed

lemma finish_and_drain_keeps: "am_active (x_msg x) \<Longrightarrow> keeps x (finish_and_drain E x)"
  unfolding finish_and_drain_def by (rule keeps_trans [OF finish_send_keeps drain_keeps])

lemma msg_update_keeps:
  "am_active m = am_active (x_msg x) \<Longrightarrow> am_wqe m = am_wqe (x_msg x) \<Longrightarrow> keeps x (x\<lparr>x_msg := m\<rparr>)"
  by (simp add: keeps_def ledger_msg_same)

lemma striped_piece_keeps:
  assumes "am_active (x_msg x)"
  shows "keeps x (striped_piece E idx off payload x)"
proof -
  let ?y = "copy_active E off payload x"
  define x1 where "x1 = (if idx \<in> am_frag_seen (x_msg x) then x
     else ?y\<lparr>x_msg := (x_msg ?y)\<lparr>am_frag_seen := insert idx (am_frag_seen (x_msg ?y)),
            am_frags_received := am_frags_received (x_msg ?y) + 1\<rparr>\<rparr>)"
  have k: "keeps x x1" "am_active (x_msg x1)"
    using copy_active_keeps(1) [of x E off payload] copy_active_keeps(2) [of E off payload x] assms
    by (auto simp: x1_def intro: keeps_trans [OF _ msg_update_keeps])
  have "striped_piece E idx off payload x =
      (if am_frags_received (x_msg x1) = am_frag_count (x_msg x1) then finish_and_drain E x1 else x1)"
    by (simp only: striped_piece_def Let_def x1_def)
  then show ?thesis using k(1) keeps_trans [OF k(1) finish_and_drain_keeps [OF k(2), of E]] by simp
qed

lemma ordered_piece_keeps:
  assumes "am_active (x_msg x)"
  shows "keeps x (ordered_piece E hdr off payload x)"
  using copy_active_keeps(1) [of x E off payload] copy_active_keeps(2) [of E off payload x] assms
  by (auto simp: ordered_piece_def Let_def intro: keeps_trans finish_and_drain_keeps)

lemma begin_send_keeps:
  assumes "\<not> am_active (x_msg x)" and "begin_send E hdr psn x = (x', b)"
  shows "keeps x x'" and "b \<Longrightarrow> am_active (x_msg x')"
proof -
  obtain x1 r where p: "rx_pop_recv x = (x1, r)" by (cases "rx_pop_recv x")
  have m: "x_msg x1 = x_msg x" using p by (auto simp: rx_pop_recv_def Let_def split: prod.splits)
  show "keeps x x'"
  proof (cases r)
    case None
    then have "acct x' = acct x1" using assms(2) p by (auto simp: begin_send_def)
    then show ?thesis using pop_keeps [OF p] None acct_same [of x' x1] by (auto simp: keeps_def)
  next
    case (Some wqe)
    then obtain m' where a: "acct x' = acct (x1\<lparr>x_msg := m'\<rparr>)" and m': "am_active m'" "am_wqe m' = wqe"
      using assms(2) p by (auto simp: begin_send_def)
    have "ledger (x1\<lparr>x_msg := m'\<rparr>) = ledger x1 + {#wqe_id wqe#}"
      using ledger_msg_start [of x1 m'] m assms(1) m' by simp
    then show ?thesis using pop_keeps [OF p] Some acct_same [OF a] by (auto simp: keeps_def)
  qed
  show "am_active (x_msg x')" if b
    using that assms(2) p by (auto simp: begin_send_def tbv_qp_schedule_timeout_def on_qp_def split: option.splits)
qed

lemma begun_keeps:
  assumes "\<not> am_active (x_msg x)" and "begin_send E hdr psn x = (x1, b)"
    and "\<And>y. am_active (x_msg y) \<Longrightarrow> keeps y (f y)"
  shows "(b \<longrightarrow> keeps x (f x1)) \<and> (\<not> b \<longrightarrow> keeps x x1)"
  using begin_send_keeps [OF assms(1,2)] keeps_trans [OF _ assms(3)] by auto

lemma error_after_fail_keeps: "keeps x (tbv_rx_send_error_ack hdr psn (tbv_rx_fail_active_send st x))"
  by (rule keeps_trans [OF fail_active_send_keeps keeps_acct]) simp

lemma handle_striped_keeps:
  assumes "length payload < 2 ^ 32"
  shows "keeps x (handle_striped_send E hdr psn payload x)"
proof -
  let ?f = "\<lambda>idx c y. striped_piece E idx (d_frag_offset hdr) payload (y\<lparr>x_msg := (x_msg y)\<lparr>am_frag_count := c, am_frag_seen := {}\<rparr>\<rparr>)"
  have f: "keeps y (?f idx c y)" if "am_active (x_msg y)" for y idx c
    by (rule keeps_trans [OF msg_update_keeps striped_piece_keeps]) (simp_all add: that)
  have new: "b \<Longrightarrow> keeps x (?f idx c x1)" "\<not> b \<Longrightarrow> keeps x x1"
    if "begin_send E hdr psn x = (x1, b)" "\<not> am_active (x_msg x)" for x1 b idx c
    using begun_keeps [OF that(2,1), of "?f idx c"] f by blast+
  show ?thesis
    unfolding handle_striped_send_def Let_def
  proof (intro keeps_splits)
    fix idx c x1 b
    assume s: "begin_send E hdr psn x = (x1, b)" and i: "\<not> am_active (x_msg x)"
    show "b \<Longrightarrow> keeps x (?f idx (ucast c) x1)" "\<not> b \<Longrightarrow> keeps x x1" using new [OF s i] by blast+
  qed (auto intro!: striped_piece_keeps buffer_fragment_keeps [OF assms] error_after_fail_keeps intro: keeps_acct)
qed

lemma handle_active_keeps:
  assumes "length payload < 2 ^ 32" and "am_active (x_msg x)"
  shows "keeps x (handle_active_send E hdr psn payload x)"
  unfolding handle_active_send_def Let_def
  by (auto intro!: ordered_piece_keeps [OF assms(2)] buffer_fragment_keeps [OF assms(1)] error_after_fail_keeps
      intro: keeps_acct)

lemma handle_ordered_keeps:
  assumes "length payload < 2 ^ 32"
  shows "keeps x (handle_ordered_send E hdr psn payload x)"
proof -
  have new: "keeps x (case begin_send E hdr psn x of (x1, False) \<Rightarrow> x1 | (x1, True) \<Rightarrow> ordered_piece E hdr (d_frag_offset hdr) payload x1)"
    if "\<not> am_active (x_msg x)"
  proof -
    obtain x1 b where s: "begin_send E hdr psn x = (x1, b)" by (cases "begin_send E hdr psn x")
    from begun_keeps [OF that s, of "ordered_piece E hdr (d_frag_offset hdr) payload"] show ?thesis
      by (simp add: s ordered_piece_keeps split: bool.splits)
  qed
  show ?thesis
    unfolding handle_ordered_send_def Let_def
    using new handle_active_keeps [OF assms] buffer_fragment_keeps [OF assms] by auto
qed

lemma rnr_gate_acct: "rnr_gate hdr psn x = Some y \<Longrightarrow> acct y = acct x"
  by (auto simp: rnr_gate_def tbv_rx_clear_rnr_locked_def acct_def split: if_splits)

lemma handle_send_keeps:
  assumes "length payload < 2 ^ 32"
  shows "keeps x (tbv_rx_handle_send_fragment E hdr payload x)"
  unfolding tbv_rx_handle_send_fragment_def Let_def
  by (auto split: option.splits intro: keeps_acct keeps_trans [OF keeps_acct [OF rnr_gate_acct]]
      handle_striped_keeps [OF assms] handle_ordered_keeps [OF assms])

lemma finish_write_keeps: "keeps x (tbv_rx_finish_write_locked E st x)"
proof (cases "aw_active (x_write x)")
  case True
  let ?w = "x_write x"
  let ?wc = "write_wc (x_qp x) (aw_imm_wqe ?w) st (aw_src_qp ?w) (aw_imm_data ?w)"
  obtain x1 b where p: "(if aw_with_imm ?w then rx_push_wc ?wc x else (x, False)) = (x1, b)" by fastforce
  let ?y = "x1\<lparr>x_write := zeroed_rx_write\<rparr>"
  have "rx_ok ?y \<and> ledger ?y = ledger x" if "rx_ok x"
  proof (cases "aw_with_imm ?w")
    case imm: True
    then have q: "rx_push_wc ?wc x = (x1, b)" using p by simp
    show ?thesis using push_keeps [OF q that] push_frame [OF q] ledger_write_end [of x1 zeroed_rx_write] True imm by simp
  next
    case False
    then show ?thesis using p that ledger_write_end [of x zeroed_rx_write] True by auto
  qed
  then have y: "keeps x ?y" by (simp add: keeps_def)
  have "keeps ?y (fst (tbv_rx_consume_ordered_psn_ack_locked E psn ack ?y))" for psn ack
    unfolding tbv_rx_consume_ordered_psn_ack_locked_def
    by (auto intro: keeps_trans [OF keeps_acct drain_keeps])
  then have c: "tbv_rx_consume_ordered_psn_ack_locked E psn ack ?y = (x2, ord) \<Longrightarrow> keeps x x2" for psn ack x2 ord
    using keeps_trans [OF y] by (metis fst_conv)
  show ?thesis
    using True p by (auto simp: tbv_rx_finish_write_locked_def Let_def split: prod.splits
        intro: keeps_trans [OF c keeps_acct])
qed (simp add: tbv_rx_finish_write_locked_def Let_def)

lemma fail_write_keeps: "keeps x (tbv_rx_fail_active_write_locked E st x)"
  by (simp add: tbv_rx_fail_active_write_locked_def finish_write_keeps)

lemma write_piece_keeps: "keeps x (write_piece E hdr off payload x)"
proof -
  have fin: "keeps y (if is_last hdr then tbv_rx_finish_write_locked E st y else y)" for y st by (simp add: finish_write_keeps)
  have upd: "keeps y (y\<lparr>x_write := (x_write y)\<lparr>aw_received := n\<rparr>\<rparr>)" for y n by (simp add: keeps_def ledger_write_same)
  show ?thesis
    unfolding write_piece_def Let_def
    by (auto split: prod.splits sum.splits simp: fail_write_keeps fin
        intro: keeps_trans [OF keeps_acct [OF acct_eqs(4)] fail_write_keeps]
          keeps_trans [OF keeps_acct [OF acct_eqs(4)] keeps_trans [OF upd finish_write_keeps]]
          keeps_trans [OF keeps_acct [OF acct_eqs(4)] upd] finish_write_keeps)
qed

lemma write_aside_keeps: "length payload < 2 ^ 32 \<Longrightarrow> keeps x (write_aside E hdr psn payload x)"
  by (simp add: write_aside_def buffer_write_keeps)

lemma begin_write_keeps:
  assumes "\<not> aw_active (x_write x)" and "write_with_imm hdr \<longleftrightarrow> wqe \<noteq> None" and "rx_ok x"
  shows "rx_ok (begin_write E hdr psn wqe x) \<and>
    ledger (begin_write E hdr psn wqe x) = ledger x + (case wqe of None \<Rightarrow> {#} | Some w \<Rightarrow> {#wqe_id w#})"
proof -
  obtain w where a: "acct (begin_write E hdr psn wqe x) = acct (x\<lparr>x_write := w\<rparr>)" and w: "aw_active w"
    "aw_with_imm w = write_with_imm hdr" "\<And>v. wqe = Some v \<Longrightarrow> aw_imm_wqe w = v"
    by (auto simp: begin_write_def)
  show ?thesis
    using acct_same [OF a] ledger_write_start [of x w] assms w by (auto split: option.splits)
qed

lemma handle_new_write_keeps:
  assumes "length payload < 2 ^ 32" and "\<not> aw_active (x_write x)"
  shows "keeps x (handle_new_write E hdr psn payload x)"
proof -
  have none: "keeps x (write_piece E hdr (d_frag_offset hdr) payload (begin_write E hdr psn None x))" if "\<not> write_with_imm hdr"
    using begin_write_keeps [OF assms(2), of hdr None E psn] that
      write_piece_keeps [of "begin_write E hdr psn None x" E hdr "d_frag_offset hdr" payload] by (auto simp: keeps_def)
  have imm: "keeps x (case rx_pop_recv x of (x1, None) \<Rightarrow> refuse_rnr hdr psn x1
      | (x1, Some wqe) \<Rightarrow> write_piece E hdr (d_frag_offset hdr) payload (begin_write E hdr psn (Some wqe) x1))" if i: "write_with_imm hdr"
  proof -
    obtain x1 r where p: "rx_pop_recv x = (x1, r)" by (cases "rx_pop_recv x")
    have w: "x_write x1 = x_write x" using p by (auto simp: rx_pop_recv_def Let_def split: prod.splits)
    show ?thesis
    proof (cases r)
      case None
      then show ?thesis using pop_keeps [OF p] p acct_same [of "refuse_rnr hdr psn x1" x1] by (simp add: keeps_def)
    next
      case (Some wqe)
      then show ?thesis
        using pop_keeps [OF p] p i w assms(2) begin_write_keeps [of x1 hdr "Some wqe" E psn]
          write_piece_keeps [of "begin_write E hdr psn (Some wqe) x1" E hdr "d_frag_offset hdr" payload]
        by (simp add: keeps_def)
    qed
  qed
  show ?thesis
    unfolding handle_new_write_def
    using write_aside_keeps [OF assms(1)] none imm by (auto intro: keeps_acct)
qed

lemma handle_write_keeps:
  assumes "length payload < 2 ^ 32"
  shows "keeps x (tbv_rx_handle_rdma_write_fragment E hdr payload x)"
proof -
  have act: "keeps y (handle_active_write E hdr psn payload y)" for y psn
    unfolding handle_active_write_def Let_def
    by (auto intro!: write_aside_keeps [OF assms] write_piece_keeps fail_write_keeps intro: keeps_acct)
  show ?thesis
    unfolding tbv_rx_handle_rdma_write_fragment_def Let_def
  proof (intro keeps_splits)
    fix x1 x2 b
    assume g: "rnr_gate hdr (d_psn hdr AND TBV_PSN_MASK) x = Some x1"
      and d: "reack_duplicate (d_src_qp hdr) (d_dest_qp hdr) (d_psn hdr AND TBV_PSN_MASK) x1 = (x2, b)"
    have a: "keeps x x2" using keeps_acct rnr_gate_acct [OF g] acct_eqs(2) [OF d] by simp
    show "keeps x x2" by (rule a)
    show "keeps x (handle_active_write E hdr (d_psn hdr AND TBV_PSN_MASK) payload x2)" by (rule keeps_trans [OF a act])
    show "keeps x (handle_new_write E hdr (d_psn hdr AND TBV_PSN_MASK) payload x2)" if "\<not> aw_active (x_write x2)"
      by (rule keeps_trans [OF a handle_new_write_keeps [OF assms that]])
  qed (auto intro: keeps_acct)
qed

lemma handle_read_req_keeps: "keeps x (tbv_rx_handle_rdma_read_req E hdr x)"
proof -
  have "keeps x (tbv_rx_queue_rdma_read_req_work hdr
      (tbv_rx_drain_reorder_locked E (on_qp (\<lambda>q. q\<lparr>q_rx_expected_psn := p\<rparr>) x)))" for p
    by (rule keeps_trans [OF keeps_trans [OF keeps_acct drain_keeps] keeps_acct]) simp_all
  then show ?thesis
    unfolding tbv_rx_handle_rdma_read_req_def Let_def
    by (auto intro: keeps_acct buffer_read_req_keeps)
qed

lemma give_up_keeps:
  assumes "msg \<in> set (x_reorder x)"
  shows "keeps x (give_up E msg x)"
proof -
  let ?y = "consumed (om_psn msg) TBV_NATIVE_SEND_ACK_ERROR (tbv_rx_drop_reorder_msg_locked msg x)"
  have "keeps x ?y"
    unfolding tbv_rx_drop_reorder_msg_locked_def by (rule keeps_trans [OF unlink_keeps [OF assms] keeps_acct]) simp
  then show ?thesis
    unfolding give_up_def Let_def
    by (auto intro: keeps_trans [OF _ drain_keeps] keeps_trans [OF _ keeps_trans [OF keeps_acct drain_keeps]])
qed

lemma reap_reorder_keeps: "keeps x (reap_reorder E timeout x)"
proof (induction E timeout x rule: reap_reorder.induct)
  case (1 E timeout x)
  then show ?case
    using give_up_keeps [OF expired_head_in, of "re_now E" timeout x]
    by (subst reap_reorder.simps) (auto split: option.splits intro: keeps_trans)
qed

lemma reap_rx_keeps: "keeps x (fst (tbv_qp_timeout_reap_rx E timeout x))"
  unfolding tbv_qp_timeout_reap_rx_def Let_def
  by (auto intro: reap_reorder_keeps keeps_trans [OF _ reap_reorder_keeps] fail_active_send_keeps fail_write_keeps
      keeps_trans [OF fail_active_send_keeps keeps_trans [OF fail_write_keeps reap_reorder_keeps]])

section \<open>Draining leaves the active messages alone\<close>

definition actives :: "rx \<Rightarrow> tbv_rx_message \<times> tbv_rx_write" where
  "actives x = (x_msg x, x_write x)"

lemma actives_simps [simp]:
  "actives (fst (take_alloc x)) = actives x"
  "actives (tbv_send_ack_on_path a b c d x) = actives x"
  "actives (tbv_send_read_status_on_path a b c e st x) = actives x"
  "actives (fst (reack_duplicate a b c x)) = actives x"
  "actives (on_qp f x) = actives x"
  "actives (consumed psn ack x) = actives x"
  "actives (tbv_rx_reorder_unlink_msg_locked msg x) = actives x"
  "actives (fst (write_region E k w x)) = actives x"
  "actives (tbv_rx_queue_rdma_read_req_work hdr x) = actives x"
  "actives (tbv_qp_retry_read_resp E psn x) = actives x"
  subgoal by (simp add: take_alloc_def actives_def split: list.splits)
  subgoal by (simp add: tbv_send_ack_on_path_def actives_def)
  subgoal by (simp add: tbv_send_read_status_on_path_def actives_def)
  subgoal by (simp add: reack_duplicate_def tbv_send_ack_on_path_def actives_def split: option.splits)
  subgoal by (simp add: on_qp_def actives_def)
  subgoal by (simp add: consumed_def on_qp_def actives_def)
  subgoal by (simp add: tbv_rx_reorder_unlink_msg_locked_def actives_def)
  subgoal by (simp add: write_region_def actives_def Let_def split: prod.splits option.splits)
  subgoal by (auto simp: tbv_rx_queue_rdma_read_req_work_def take_alloc_def tbv_send_read_status_on_path_def actives_def
        split: prod.splits list.splits bool.splits)
  subgoal by (auto simp: tbv_qp_retry_read_resp_def on_qp_def Let_def actives_def split: option.splits)
  done

lemma actives_deliver_frags: "deliver_frags E wqe fs n x = (x', r) \<Longrightarrow> actives x' = actives x"
proof (induction fs arbitrary: n x)
  case (Cons f fs)
  obtain x1 d e where c: "tbv_rx_copy_to_wqe E wqe (rf_offset f) (rf_data f) n x = (x1, d, e)" by (metis prod_cases3)
  have "actives x1 = actives x" using copy_frame [OF c] by (simp add: actives_def)
  then show ?case using c Cons by (auto split: sum.splits)
qed simp

lemma actives_eqs:
  "rx_pop_recv x = (x', r) \<Longrightarrow> actives x' = actives x"
  "rx_push_wc wc x = (x', b) \<Longrightarrow> actives x' = actives x"
  "write_region E k w x = (x', ret) \<Longrightarrow> actives x' = actives x"
  subgoal by (auto simp: rx_pop_recv_def Let_def actives_def split: prod.splits)
  subgoal using push_frame by (simp add: actives_def)
  subgoal by (metis actives_simps(8) fst_conv)
  done

lemma actives_deliver_write: "deliver_write E msg wqe x = (x', b) \<Longrightarrow> actives x' = actives x"
  by (auto simp: deliver_write_def Let_def split: prod.splits option.splits dest!: actives_eqs)

lemma actives_deliver:
  assumes "deliver_reorder E msg x = (x', b)"
  shows "actives x' = actives x"
proof (cases "om_kind msg")
  case TBV_RX_REORDER_SEND
  then show ?thesis using assms
    by (auto simp: deliver_reorder_def tbv_rx_deliver_reorder_msg_locked_def Let_def
        split: prod.splits option.splits dest!: actives_eqs(1,2) actives_deliver_frags)
next
  case TBV_RX_REORDER_WRITE
  then show ?thesis using assms
    by (auto simp: deliver_reorder_def tbv_rx_deliver_reorder_write_locked_def
        split: prod.splits option.splits if_splits dest!: actives_eqs(1) actives_deliver_write)
next
  case TBV_RX_REORDER_READ_REQ
  then show ?thesis using assms by (auto simp: deliver_reorder_def tbv_rx_deliver_reorder_read_req_locked_def Let_def)
qed

lemma actives_prune_loop: "actives (prune_loop E msgs x) = actives x"
  by (induction msgs arbitrary: x) (simp_all add: Let_def)

lemma actives_drain: "actives (tbv_rx_drain_reorder_locked E x) = actives x"
  by (rule drain_rule [where R = "\<lambda>x x'. actives x' = actives x"])
    (auto simp: tbv_rx_prune_stale_reorder_locked_def actives_prune_loop dest: actives_deliver)

lemma fail_active_send_ends:
  "actives (tbv_rx_fail_active_send st x) = (if am_active (x_msg x) then zeroed_rx_message else x_msg x, x_write x)"
proof -
  have "actives (tbv_rx_finish_send y) = (zeroed_rx_message, x_write y)" for y
    by (auto simp: tbv_rx_finish_send_def Let_def split: prod.splits dest!: push_frame(2)) (simp add: actives_def)
  then show ?thesis by (simp add: tbv_rx_fail_active_send_def) (simp add: actives_def)
qed

lemma fail_active_write_ends:
  "actives (tbv_rx_fail_active_write_locked E st x) = (x_msg x, if aw_active (x_write x) then zeroed_rx_write else x_write x)"
proof (cases "aw_active (x_write x)")
  case True
  let ?wc = "write_wc (x_qp x) (aw_imm_wqe (x_write x)) st (aw_src_qp (x_write x)) (aw_imm_data (x_write x))"
  obtain x1 b where p: "(if aw_with_imm (x_write x) then rx_push_wc ?wc x else (x, False)) = (x1, b)" by fastforce
  then have "x_msg x1 = x_msg x" using push_frame(1) [of ?wc x x1 b] by (auto split: if_splits)
  then have "actives (x1\<lparr>x_write := zeroed_rx_write\<rparr>) = (x_msg x, zeroed_rx_write)" by (simp add: actives_def)
  then have "actives (fst (tbv_rx_consume_ordered_psn_ack_locked E psn ack (x1\<lparr>x_write := zeroed_rx_write\<rparr>))) = (x_msg x, zeroed_rx_write)"
    for psn ack by (simp add: tbv_rx_consume_ordered_psn_ack_locked_def actives_drain)
  then show ?thesis using True p
    by (auto simp: tbv_rx_fail_active_write_locked_def tbv_rx_finish_write_locked_def Let_def split: prod.splits)
      (metis fst_conv)+
qed (simp add: tbv_rx_fail_active_write_locked_def actives_def)

section \<open>Posting and flushing\<close>

lemma flush_reorder_keeps: "keeps x (tbv_qp_flush_reorder x)"
  by (simp add: keeps_def tbv_qp_flush_reorder_def rx_ok_def reorder_ok_def)

lemma flush_one_keeps:
  assumes "q_recv_count (x_qp x) \<noteq> 0"
  shows "keeps x (flush_one x)" and "actives (flush_one x) = actives x"
proof -
  let ?wqe = "q_recvq (x_qp x) ! unat (q_recv_head (x_qp x))" and ?y = "x\<lparr>x_qp := recvq_pop (x_qp x)\<rparr>"
  obtain x' b where p: "rx_push_wc (flush_wc (x_qp x) ?wqe) ?y = (x', b)" by fastforce
  then have e: "flush_one x = x'" by (simp add: flush_one_def Let_def)
  have "rx_ok ?y \<and> ledger x = ledger ?y + {#wqe_id ?wqe#}" if "rx_ok x"
    using that recvq_pop_ok [OF _ assms] by (simp add: rx_ok_def reorder_ok_def ledger_def)
  then show "keeps x (flush_one x)" using push_keeps [OF p] by (auto simp: keeps_def e)
  show "actives (flush_one x) = actives x" using actives_eqs(2) [OF p] by (simp add: e actives_def)
qed

lemma flush_recv_wqes_keeps:
  "keeps x (tbv_qp_flush_recv_wqes x) \<and> actives (tbv_qp_flush_recv_wqes x) = actives x \<and>
     q_recv_count (x_qp (tbv_qp_flush_recv_wqes x)) = 0"
proof (induction x rule: tbv_qp_flush_recv_wqes.induct)
  case (1 x)
  then show ?case
    using flush_one_keeps [of x] by (subst (1 2 3) tbv_qp_flush_recv_wqes.simps) (auto intro: keeps_trans)
qed

lemma flush_locked_keeps: "keeps x (flush_error_locked E x)"
  unfolding flush_error_locked_def Let_def
  by (rule keeps_trans [OF fail_active_send_keeps keeps_trans [OF fail_write_keeps flush_reorder_keeps]])

lemma flush_locked_ends: "in_progress (flush_error_locked E x) = {#}"
proof -
  define x1 where "x1 = tbv_rx_fail_active_send IB_WC_WR_FLUSH_ERR x"
  have "actives (flush_error_locked E x) = actives (tbv_rx_fail_active_write_locked E IB_WC_WR_FLUSH_ERR x1)"
    by (simp add: flush_error_locked_def Let_def x1_def) (simp add: tbv_qp_flush_reorder_def actives_def)
  then show ?thesis
    using fail_active_send_ends [of IB_WC_WR_FLUSH_ERR x] fail_active_write_ends [of E IB_WC_WR_FLUSH_ERR x1]
    by (auto simp: x1_def [symmetric] actives_def in_progress_def split: if_splits)
qed

lemma flush_keeps:
  assumes "rx_ok x"
  shows "rx_ok (flush_error_rx E x) \<and> reported (flush_error_rx E x) = ledger x"
proof -
  let ?y = "flush_error_locked E x" and ?z = "flush_error_rx E x"
  have k: "rx_ok ?z" "ledger ?z = ledger x" "q_recv_count (x_qp ?z) = 0" "actives ?z = actives ?y"
    using flush_locked_keeps [of x E] flush_recv_wqes_keeps [of ?y] assms by (simp_all add: keeps_def flush_error_rx_def)
  have "in_progress ?z = {#}"
    using k(4) flush_locked_ends [of E x] by (simp add: actives_def in_progress_def split: if_splits)
  then show ?thesis using k(1-3) by (simp add: ledger_def rq.contents_def)
qed

lemma post_loop_backend: "post_recv_loop V q wrs = (V', q', n, bad) \<Longrightarrow> q_backend q' = q_backend q"
proof (induction wrs arbitrary: V q n bad)
  case (Cons wr wrs)
  have e: "post_recv_entry q wr sge = (q1, r) \<Longrightarrow> q_backend q1 = q_backend q" for sge q1 r
    by (auto simp: post_recv_entry_def recvq_put_def Let_def split: if_splits)
  show ?case using Cons.prems
    by (auto simp: Let_def split: if_splits prod.splits sum.splits dest!: e Cons.IH)
qed simp

lemma post_keeps:
  assumes "rx_ok x" and "\<not> tbv_qp_uses_apple_transport (x_qp x)" and "tbv_post_recv E d sent_ok wrs x = (x', n, bad)"
  shows "rx_ok x' \<and> ledger x' = ledger x + mset (map rv_wr_id (take n wrs))"
proof (cases "tbv_qp_allows_post (x_qp x)")
  case False
  then show ?thesis using assms by (auto simp: tbv_post_recv_def)
next
  case True
  obtain V q k bad' where l: "post_recv_loop (x_mrs x) (x_qp x) wrs = (V, q, k, bad')" by (metis prod_cases4)
  define x1 where "x1 = x\<lparr>x_mrs := V, x_qp := q\<rparr>"
  define x2 where "x2 = (if k > 0 then on_qp (\<lambda>q. fst (tbv_qp_advertise_recv_credits sent_ok q)) x1 else x1)"
  obtain ws where w: "recvq_ok q" "rq.contents q = rq.contents (x_qp x) @ ws" "map wqe_id ws = map rv_wr_id (take k wrs)"
    using post_recv_loop_ok [OF _ l] assms(1) by (auto simp: rx_ok_def)
  have x1: "rx_ok x1" "ledger x1 = ledger x + mset (map rv_wr_id (take k wrs))"
    using assms(1) w by (simp_all add: x1_def rx_ok_def reorder_ok_def ledger_def)
  have x2: "rx_ok x2" "ledger x2 = ledger x1"
    using x1(1) advertise_recv_credits_ok [of "x_qp x1" sent_ok]
    by (simp_all add: x2_def on_qp_def rx_ok_def reorder_ok_def ledger_def)
  have b: "\<not> tbv_qp_uses_apple_transport (x_qp x2)"
    using assms(2) post_loop_backend [OF l]
    by (auto simp: x2_def x1_def on_qp_def tbv_qp_uses_apple_transport_def tbv_qp_advertise_recv_credits_def
        advertise_take_def advertise_failed_def Let_def split: prod.splits option.splits if_splits)
  have "n = k \<and> (x' = x2 \<or> x' = tbv_rx_drain_reorder_locked E x2)"
    using assms(3) True l b by (auto simp: tbv_post_recv_def x1_def x2_def Let_def split: option.splits if_splits)
  then show ?thesis using drain_keeps [of x2 E] x1 x2 by (auto simp: keeps_def)
qed

section \<open>All sequences of operations\<close>

text \<open>
  The state and the identifications of the buffers posted so far. Times, the answers of the allocator (in the
  state), the mode and the frames are arbitrary; a payload has the length its header says. The two parts of the flush
  are steps of their own, the second one buffer at a time, so that frames and posts come in between. The
  completion queue may be shared: others push to it, poll it and arm it at any time.
\<close>

inductive rx_step :: "rx \<times> u64 list \<Rightarrow> rx \<times> u64 list \<Rightarrow> bool" where
  send_frame: "length payload = unat (d_length hdr) \<Longrightarrow>
    rx_step (x, P) (tbv_rx_handle_send_fragment E hdr payload x, P)"
| write_frame: "length payload = unat (d_length hdr) \<Longrightarrow>
    rx_step (x, P) (tbv_rx_handle_rdma_write_fragment E hdr payload x, P)"
| read_frame: "rx_step (x, P) (tbv_rx_handle_rdma_read_req E hdr x, P)"
| timer: "tbv_qp_timeout_reap_rx E timeout x = (x', again, fatal) \<Longrightarrow> rx_step (x, P) (x', P)"
| post: "\<not> tbv_qp_uses_apple_transport (x_qp x) \<Longrightarrow> tbv_post_recv E d sent_ok wrs x = (x', n, bad) \<Longrightarrow>
    rx_step (x, P) (x', P @ map rv_wr_id (take n wrs))"
| flush_locked: "rx_step (x, P) (flush_error_locked E x, P)"
| flush_turn: "q_recv_count (x_qp x) \<noteq> 0 \<Longrightarrow> rx_step (x, P) (flush_one x, P)"
| queue_used: "rx_step (x, P) (x\<lparr>x_cq := fst (cq_do c (x_cq x))\<rparr>, P)"
| allocator: "rx_step (x, P) (x\<lparr>x_allocs := answers\<rparr>, P)"

definition rx_fresh :: "rx \<Rightarrow> bool" where
  "rx_fresh x \<longleftrightarrow> rq.ring_ok (x_qp x) \<and> q_recv_count (x_qp x) = 0 \<and> q_recv_credits_advertised (x_qp x) = 0 \<and>
     x_msg x = zeroed_rx_message \<and> x_write x = zeroed_rx_write \<and> x_reorder x = [] \<and> x_reorder_count x = 0 \<and>
     x_reorder_bytes x = 0 \<and> x_wcs x = [] \<and> x_lost x = []"

inductive rx_reachable :: "rx \<times> u64 list \<Rightarrow> bool" where
  fresh: "rx_fresh x \<Longrightarrow> rx_reachable (x, [])"
| step: "rx_reachable s \<Longrightarrow> rx_step s s' \<Longrightarrow> rx_reachable s'"

lemma overflow_stays: "cq_overflowed c \<Longrightarrow> cq_overflowed (fst (cq_do call c))"
proof (cases call)
  case (CPoll n)
  have "poll_loop k c = (c', wcs) \<Longrightarrow> cq_overflowed c' = cq_overflowed c" for k c c' wcs
    by (induction k arbitrary: c wcs) (auto simp: cq_pop_def Let_def split: if_splits prod.splits)
  then show "cq_overflowed c \<Longrightarrow> cq_overflowed (fst (cq_do call c))"
    using CPoll by (auto simp: tbv_poll_cq_def Let_def split: prod.splits)
qed (auto simp: tbv_cq_push_def cq_put_def tbv_req_notify_cq_def Let_def)

lemma rx_step_inv:
  assumes "rx_step s s'" and "rx_ok (fst s) \<and> ledger (fst s) = mset (snd s)"
  shows "rx_ok (fst s') \<and> ledger (fst s') = mset (snd s')"
  using assms
proof (cases rule: rx_step.cases)
  case (send_frame payload hdr x P E)
  then have "length payload < 2 ^ 32" by (simp add: unat_less_2p32)
  from handle_send_keeps [OF this] show ?thesis using send_frame assms(2) by (simp add: keeps_def)
next
  case (write_frame payload hdr x P E)
  then have "length payload < 2 ^ 32" by (simp add: unat_less_2p32)
  from handle_write_keeps [OF this] show ?thesis using write_frame assms(2) by (simp add: keeps_def)
next
  case (read_frame x P E hdr)
  then show ?thesis using handle_read_req_keeps assms(2) by (simp add: keeps_def)
next
  case (timer E timeout x x' again fatal P)
  then show ?thesis using reap_rx_keeps [of x E timeout] assms(2) by (simp add: keeps_def)
next
  case (post x E d sent_ok wrs x' n bad P)
  then show ?thesis using post_keeps [of x E d sent_ok wrs x' n bad] assms(2) by simp
next
  case (flush_locked x P E)
  then show ?thesis using flush_locked_keeps [of x E] assms(2) by (simp add: keeps_def)
next
  case (flush_turn x P)
  then show ?thesis using flush_one_keeps(1) [of x] assms(2) by (simp add: keeps_def)
next
  case (queue_used x P c)
  then show ?thesis using assms(2) overflow_stays [of "x_cq x" c] by (auto simp: rx_ok_def reorder_ok_def losses_ok_def ledger_def)
next
  case (allocator x P answers)
  then show ?thesis using assms(2) acct_same [of "x\<lparr>x_allocs := answers\<rparr>" x] by (simp add: acct_def)
qed

lemma rx_reachable_inv: "rx_reachable s \<Longrightarrow> rx_ok (fst s) \<and> ledger (fst s) = mset (snd s)"
proof (induction rule: rx_reachable.induct)
  case (fresh x)
  then show ?case
    by (simp add: rx_fresh_def rx_ok_def recvq_ok_def reorder_ok_def losses_ok_def ledger_def reported_def in_progress_def
        rq.contents_def)
next
  case (step s s')
  then show ?case using rx_step_inv by blast
qed

text \<open>
  C39: whatever a peer sends, every receive buffer is reported exactly once. In every sequence of posts,
  SEND, WRITE and READ frames with arbitrary headers and contents, timeouts, failed allocations, parts of the flush and
  use of the completion queue by others, the buffers posted are those with a completion accepted by the completion queue,
  those whose completion a full queue refused, those a message is being received into and those still queued, each
  counted once. A completion is refused only when the completion queue has overflowed, which stays recorded in it. After
  a complete flush every buffer posted has been reported, and unless the queue has overflowed the completions are
  exactly the buffers posted.
\<close>

theorem receive_buffers_complete_once:
  assumes "rx_reachable (x, posted_ids)"
  shows "mset posted_ids = mset (map wc_wr_id (x_wcs x)) + mset (map wc_wr_id (x_lost x)) + in_progress x +
      mset (map wqe_id (rq.contents (x_qp x))) \<and>
    (x_lost x \<noteq> [] \<longrightarrow> cq_overflowed (x_cq x)) \<and>
    mset (map wc_wr_id (x_wcs (flush_error_rx E x))) + mset (map wc_wr_id (x_lost (flush_error_rx E x))) = mset posted_ids \<and>
    (\<not> cq_overflowed (x_cq (flush_error_rx E x)) \<longrightarrow> mset (map wc_wr_id (x_wcs (flush_error_rx E x))) = mset posted_ids)"
  using rx_reachable_inv [OF assms] flush_keeps [of x E]
  by (auto simp: ledger_def reported_def rx_ok_def losses_ok_def)

text \<open>
  C40: the memory a peer can make the receiver spend on messages ahead of their turn is bounded: at most 1024
  messages and 64 MiB of payload, with the counters exact and one message for each sequence number. The receive queue is
  a well-formed ring, and the peer is never told of more buffers than are queued.
\<close>

theorem receiver_well_formed:
  assumes "rx_reachable (x, posted_ids)"
  shows "length (x_reorder x) \<le> 1024 \<and> sum_list (map msg_bytes (x_reorder x)) \<le> 64 * 1024 * 1024 \<and>
    unat (x_reorder_count x) = length (x_reorder x) \<and> unat (x_reorder_bytes x) = sum_list (map msg_bytes (x_reorder x)) \<and>
    distinct (map om_psn (x_reorder x)) \<and> rq.ring_ok (x_qp x) \<and>
    q_recv_credits_advertised (x_qp x) \<le> q_recv_count (x_qp x)"
  using rx_reachable_inv [OF assms]
  by (simp add: rx_ok_def reorder_ok_def recvq_ok_def word_le_nat_alt)

text \<open>Two buffers are posted, then a SEND without data arrives.\<close>

definition demo_rx :: rx where
  "demo_rx = \<lparr>x_qp = demo_qp\<lparr>q_recvq := [zeroed_wqe, zeroed_wqe], q_recvq_size := 2\<rparr>, x_access_flags = 0,
     x_cq = \<lparr>cq_entries = [zeroed_wc, zeroed_wc], cq_cqe = 2, cq_head = 0, cq_tail = 0, cq_count = 0,
       cq_notify_armed = False, cq_overflowed = False, cq_comp_handler = True\<rparr>,
     x_mrs = empty_registry, x_memory = (\<lambda>_. 0), x_msg = zeroed_rx_message, x_write = zeroed_rx_write,
     x_reorder = [], x_reorder_count = 0, x_reorder_bytes = 0, x_rnr_active = False, x_rnr_psn = 0,
     x_rnr_src_qp = 0, x_rnr_frag_offset = 0, x_rnr_remote_addr = 0, x_read_resps = [], x_read_work = [],
     x_error_queued = False, x_frames = [], x_wcs = [], x_lost = [], x_allocs = []\<rparr>"

definition demo_env :: rx_env where
  "demo_env = \<lparr>re_mem = plain_mem_env, re_jiffies = demo_jiffies, re_now = 100, re_striping = False\<rparr>"

definition demo_recv_wrs :: "ib_recv_wr list" where
  "demo_recv_wrs = [\<lparr>rv_wr_id = 77, rv_num_sge = 0, rv_sg_list = None\<rparr>, \<lparr>rv_wr_id = 78, rv_num_sge = 0, rv_sg_list = None\<rparr>]"

definition demo_send_hdr :: tbv_native_data_header where
  "demo_send_hdr = zeroed_hdr\<lparr>d_opcode := TBV_NATIVE_DATA_OP_SEND, d_flags := TBV_NATIVE_DATA_F_LAST,
     d_dest_qp := 0x900, d_src_qp := 0x901\<rparr>"

definition demo_received :: rx where
  "demo_received = tbv_rx_handle_send_fragment demo_env demo_send_hdr []
     (fst (tbv_post_recv demo_env (\<lambda>x. x) True demo_recv_wrs demo_rx))"

lemma demo_received_reachable: "rx_reachable (demo_received, [77, 78])"
proof -
  let ?r = "tbv_post_recv demo_env (\<lambda>x. x) True demo_recv_wrs demo_rx"
  have n: "fst (snd ?r) = 2"
    by (simp add: tbv_post_recv_def demo_rx_def demo_qp_def demo_recv_wrs_def tbv_qp_allows_post_def post_recv_entry_def
        recvq_put_def Let_def split: prod.splits)
  have "rx_fresh demo_rx" by (simp add: rx_fresh_def demo_rx_def demo_qp_def rq.ring_ok_def)
  then have 0: "rx_reachable (demo_rx, [])" by (rule fresh)
  have "rx_step (demo_rx, []) (fst ?r, [] @ map rv_wr_id (take 2 demo_recv_wrs))"
    using post [of demo_rx demo_env "\<lambda>x. x" True demo_recv_wrs "fst ?r" 2 "snd (snd ?r)" "[]"] n
    by (simp add: prod_eq_iff tbv_qp_uses_apple_transport_def demo_rx_def demo_qp_def)
  then have 1: "rx_reachable (fst ?r, [77, 78])" using step [OF 0] by (simp add: demo_recv_wrs_def)
  have "rx_step (fst ?r, [77, 78]) (demo_received, [77, 78])"
    unfolding demo_received_def by (rule send_frame) (simp add: demo_send_hdr_def zeroed_hdr_def)
  then show ?thesis by (rule step [OF 1])
qed

lemma demo_not_overflowed: "\<not> cq_overflowed (x_cq (flush_error_rx demo_env demo_received))"
  by code_simp

theorem receive_buffers_complete_once_witness:
  "rx_reachable (demo_received, [77, 78]) \<and>
   mset (map wc_wr_id (x_wcs (flush_error_rx demo_env demo_received))) = mset [77, 78]"
  using receive_buffers_complete_once [OF demo_received_reachable, of demo_env] demo_received_reachable
    demo_not_overflowed by blast

theorem receiver_well_formed_witness:
  "rx_reachable (demo_received, [77, 78]) \<and> length (x_reorder demo_received) \<le> 1024"
  using receiver_well_formed [OF demo_received_reachable] demo_received_reachable by blast

end
