(* ===== verification/Spec2Isabelle.thy ===== *)
theory Spec2Isabelle
  imports Hello Native_Data Rel_Link Rel_Order Configfs Path_Credit Control_Faults Service_Laws Service_Start Service_Apple Verbs_Reap Verbs_Once
begin

text \<open>
  A verification of thunderbolt-ibverbs, a Linux kernel module that offers RDMA verbs over
  Thunderbolt/USB4 cables. Paths below are relative to the repository's \<^verbatim>\<open>src/\<close>.

  \<^bold>\<open>The program.\<close> Two hosts connected by a cable see each other as XDomains. For every lane a
  service is advertised and probed (\<^verbatim>\<open>kernel/service.c\<close>), and the module
  keeps a \<^emph>\<open>rail\<close> below a \<^emph>\<open>peer\<close> (\<^verbatim>\<open>kernel/rail.c\<close>, \<^verbatim>\<open>kernel/peer.c\<close>). A rail owns a \<^emph>\<open>path\<close>
  (\<^verbatim>\<open>kernel/path.c\<close>): a pair of DMA rings with frames, packets, credits and a scheduler. The control plane
  (\<^verbatim>\<open>kernel/native_control.c\<close>) exchanges HELLO and READY messages (\<^verbatim>\<open>proto/native_wire.h\<close>) with the other end, enables
  the tunnel and reports rails that are ready to the verbs layer (\<^verbatim>\<open>kernel/ibdev.c\<close>), which publishes a
  device for each. On such a device applications register memory regions, create queue pairs and completion
  queues, and post sends and receive buffers. Data frames carry the headers of \<^verbatim>\<open>proto/native_data.h\<close>; \<^verbatim>\<open>proto/reliability.c\<close> cuts operations
  into fragments, repeats them and reassembles them exactly once. Module parameters are parsed and resolved by
  \<^verbatim>\<open>kernel/profile.c\<close>; links are configured through \<^verbatim>\<open>kernel/configfs.c\<close> on top of \<^verbatim>\<open>proto/config.c\<close>, and published
  in the registry of \<^verbatim>\<open>kernel/link.c\<close>; \<^verbatim>\<open>proto/identity.c\<close> chooses the GID an application sees.

  \<^bold>\<open>The theories.\<close>
  \<^item> Prelude: result types, error numbers, pointers, machine integers and the lemmas the components share.
  \<^item> Wire, Hello, Native\_Data, Fragment: integers at offsets of a buffer; the builder and the parser of control
    messages; data headers, payload headers of raw streams and the check of fragment shapes. Round trips, and the
    equivalence of the shape check with a description of the legal cuts.
  \<^item> Rel\_Tx, Rel\_Rx, Rel\_Order, Rel\_Link: the sending and the receiving half of the reliability protocol, the order
    queue, and both halves over a link that loses, repeats and reorders frames. Each operation is reported once and
    delivered once, with receive buffers available or not; the order queue refines a list.
  \<^item> Scan, Profile: \<^verbatim>\<open>sscanf\<close> and the parsing, resolution and printing of module parameters.
  \<^item> Config, Identity, Links, Configfs: the life cycle of a link configuration, GID selection, transports and the
    registry of links, and every attribute of the configuration filesystem. A link is in the registry exactly while
    it is active; the write that seals a configuration takes effect whole or not at all. (A refused write of an
    address is not undone: \<open>Configfs.refused_address_is_shown\<close>.)
  \<^item> Path, Path\_Tx, Path\_Run, Path\_History, Path\_Stream: the state of a path, its queues, reservations, credits and
    scheduler. Path\_Run is the step relation of all critical sections; the other two show over all its interleavings that
    packets are released once, stay in order, and that raw streams are not interleaved.
  \<^item> Path\_Send, Path\_Rx, Path\_Credit: the sending interface, classification of received frames, raw streams from end to
    end and the return of credits.
  \<^item> Path\_Life, Path\_Ledger, Path\_Quiesce: allocation and release of rings, hops, frames and pools with every error path;
    a ledger of the kernel's resources, in which a ring that cannot be stopped because its controller is going away and a
    mapping that cannot be removed without its device count as abandoned; drain, ring barrier and flush.
  \<^item> Rail, Peer: keys as a linear order, creation, reuse and removal of peers and rails with their reference
    counts, and the invariant of the topology over all sequences of operations.
  \<^item> Publish: when rails may be published; names and GUIDs of devices; the up and down edges and the three loops
    over the rails, as interpretations of one locale of draining loops. The loops return and leave nothing behind.
  \<^item> Native\_Control, Control\_Laws, Handshake, Control\_Faults: the control plane; that a message reaches the rail it
    means, that the work of a rail comes to rest and that only ready rails are published; two ends whose messages go
    as bytes through each other's handlers and that become connected; two situations in which it fails.
  \<^item> Service, Service\_Laws, Service\_Start, Service\_Apple: advertised services, probe and removal, start and stop of the
    service layer, and the work of Apple rails. A probe is undone completely, starting is all or nothing with a
    ledger of what is held, and the work returns if devices are registered, and only then.
  \<^item> Verbs\_Memory, Verbs\_Registry, Verbs\_Segments: memory regions with the bounds checks of every access, their
    reference counts over all interleavings, and scatter/gather lists, which behave as the one buffer they
    concatenate. A remote WRITE touches nothing outside the region of its key; a region lives while it is used.
  \<^item> Verbs\_Qp, Verbs\_Timer, Verbs\_Order, Verbs\_Reap: the state of a queue pair, sequence numbers, timeouts, credits and the
    history of acknowledgements; the timer that repeats and gives up; the sends that wait for their acknowledgement, which
    leave the queue in the order they were posted; the situation in which the walk of the timer leaves the list.
  \<^item> Verbs\_Queue, Verbs\_Recv: completion queues and receive queues as two instances of one ring, proved on lists.
  \<^item> Verbs\_Rx, Verbs\_Rdma, Verbs\_Account, Verbs\_Once: the receiving half of a queue pair, from the check of a
    header through the reorder list to completion and acknowledgement; RDMA WRITE, READ requests, timer and flush. Whatever
    the peer sends, each receive buffer is reported once and the memory for early messages is bounded.

  \<^bold>\<open>Conventions.\<close> A definition keeps the name of the C function it translates; a part of a long function has a
  name of its own and its lines in the manifest. \<open>'a ptr\<close> is an option, with \<open>None\<close> for \<open>NULL\<close>; \<open>'a res\<close> is
  \<open>errno + 'a\<close>, with \<open>Inl\<close> for a negative return value. Objects on lists are records with an address, so that aliasing
  is explicit. Unsigned integers are words of their width and wrap. Answers of the kernel (allocation, rings, hops, XDomain
  requests, network devices) are arguments or fields of an environment record, so that theorems
  hold for all answers. Fields that do not exist in C only record: \<open>p_ring\<close> what the ring holds, \<open>p_log\<close> packet events,
  \<open>hw_log\<close> and \<open>ss_log\<close> resource events, \<open>ts_log\<close> devices registered and unregistered, \<open>ts_sent\<close> requests sent, \<open>x_frames\<close>
  frames handed to the path, \<open>x_wcs\<close> the completions its queue accepted and \<open>x_lost\<close> those a full queue refused.

  \<^bold>\<open>Interleaving.\<close> A critical section is one function on the state. Threads interleave between critical sections: for
  paths as sequences of the steps of \<open>tx_step\<close>, for the topology as \<open>topo_reachable\<close>, for memory regions as \<open>mr_step\<close>,
  for the send queue as \<open>sq_step\<close>, for the receiving half as \<open>rx_step\<close>, for the control plane as \<open>ctl_step\<close>, with an
  environment that returns from a waiting request with a changed state. Some functions take and release a lock several
  times and are still one step: the end of a transfer and a refusal by the ring (\<open>tx_complete_locked\<close>, \<open>tx_refused\<close>), the second
  phase of the removal of a rail, an edge of a rail (\<open>tbv_ibdev_rail_event\<close>), registration of a region and posting of receive
  buffers. What happens between their sections is not covered.

  \<^bold>\<open>Loops and bounds.\<close> Loops over lists and fragments are structural or have a measure. The scheduler, the
  drain and the publication loops are \<open>partial_function (option)\<close> or take what other threads do as a list of steps; that the publication loops
  return is proved on every reachable topology. The work of the control plane is bounded by 36 runs (5 HELLO, 20
  tunnel and 10 READY attempts, and one run to find nothing left) and one more for every packet received. The walks over the reorder list have the length of the
  list as their measure; the walk of the timer over the sends is a partial function, because it can leave its list.

  \<^bold>\<open>Not modelled.\<close> Of \<^verbatim>\<open>kernel/ibdev.c\<close>: creation, modification and destruction of queue pairs, posting of sends and
  the frames they become, the order in which sends are reported, responses to READ requests, the transport of Apple queue pairs, management datagrams, queries of
  devices and the dispatch of frames to queue pairs; the Apple-compatible network service of \<^verbatim>\<open>kernel/tbnet_minimal.c\<close> and the identity lookups of
  \<^verbatim>\<open>kernel/tbnet_identity.c\<close>; module entry (\<^verbatim>\<open>kernel/main.c\<close>, \<^verbatim>\<open>kernel/core.c\<close>); pollers, statistics,
  debugfs, tracing and log messages; the user-space benchmarks.
\<close>

end
